(* ===== verification/Prelude.thy ===== *)
theory Prelude
  imports Main "HOL-Library.Char_ord" "HOL-Library.List_Lexorder" "HOL-Library.Product_Lexorder"
begin

text \<open>
  Shared vocabulary of the development: the exceptions of the Python sources as one
  \<^theory_text>\<open>datatype\<close>, fallible code as values of \<open>error + 'a\<close> with a sequencing
  combinator, and the operations of Python's \<open>str\<close> and \<open>int\<close> that the sources use
  (splitting, joining, stripping, decimal printing and reading, bounded character classes).
  A Python string is a HOL \<open>string\<close>; its characters are the code points 0 to 255.
\<close>

section \<open>Exceptions and fallible results\<close>

text \<open>
  One constructor per exception class the modelled code raises, with the message where the
  code builds one. \<open>TypeError\<close> and those after it are the interpreter's own.
\<close>

datatype error =
    AwgctlError string
  | ContractError string
  | InvalidVersion string
  | ReleaseError string
  | SettingsError string
  | BackupError string
  | DiagnosticsError string
  | SelfTestError string
  | WorkerError string
  | HostConfigurationError string
  | InstallerError string
  | DeploymentError string
  | PlatformError string
  | IdentityError string
  | SandboxError string
  | TypeError
  | AttributeError
  | KeyError string
  | ValueError
  | JSONDecodeError
  | UnicodeError
  | OSError
  | FileNotFoundError
  | FileExistsError
  | SubprocessError
  | EOFError

text \<open>The classes an \<open>except\<close> clause selects, subclasses included.\<close>

fun os_error :: "error \<Rightarrow> bool" where
  "os_error OSError = True"
| "os_error FileNotFoundError = True"
| "os_error FileExistsError = True"
| "os_error _ = False"

fun value_error :: "error \<Rightarrow> bool" where
  "value_error ValueError = True"
| "value_error JSONDecodeError = True"
| "value_error UnicodeError = True"
| "value_error (ContractError m) = True"
| "value_error (InvalidVersion m) = True"
| "value_error (SettingsError m) = True"
| "value_error (SandboxError m) = True"
| "value_error _ = False"

fun awgctl_error :: "error \<Rightarrow> bool" where
  "awgctl_error (AwgctlError m) = True"
| "awgctl_error _ = False"

fun key_error :: "error \<Rightarrow> bool" where
  "key_error (KeyError k) = True"
| "key_error _ = False"

type_synonym 'a result = "error + 'a"

named_theorems result_simps \<open>equations of the result combinators\<close>

fun andthen :: "'e + 'a \<Rightarrow> ('a \<Rightarrow> 'e + 'b) \<Rightarrow> 'e + 'b" where
  "andthen (Inl e) f = Inl e"
| "andthen (Inr x) f = f x"

lemma andthen_Inr_iff [result_simps]:
  "andthen m f = Inr y \<longleftrightarrow> (\<exists>x. m = Inr x \<and> f x = Inr y)"
  by (cases m) auto

lemma andthenE:
  assumes "andthen m f = Inr y"
  obtains x where "m = Inr x" "f x = Inr y"
  using assms by (auto simp: andthen_Inr_iff)

lemma andthen_prodE:
  assumes "andthen m (\<lambda>(x, z). f x z) = Inr y"
  obtains x z where "m = Inr (x, z)" "f x z = Inr y"
  using assms by (auto simp: andthen_Inr_iff)

lemma andthen_Inl_iff:
  "andthen m f = Inl e \<longleftrightarrow> m = Inl e \<or> (\<exists>x. m = Inr x \<and> f x = Inl e)"
  by (cases m) auto

lemma andthen_assoc: "andthen (andthen m f) g = andthen m (\<lambda>x. andthen (f x) g)"
  by (cases m) auto

text \<open>A \<open>raise\<close> behind a condition: the check passes or the error is the result.\<close>

definition check :: "bool \<Rightarrow> 'e \<Rightarrow> 'e + unit" where
  "check b e = (if b then Inr () else Inl e)"

lemma check_Inr_iff [result_simps]: "check b e = Inr u \<longleftrightarrow> b"
  by (simp add: check_def)

lemma check_Inl_iff: "check b e = Inl e' \<longleftrightarrow> \<not> b \<and> e' = e"
  by (auto simp: check_def)

lemma check_simps [simp]: "check True e = Inr ()" "check False e = Inl e"
  by (simp_all add: check_def)

text \<open>A list comprehension or \<open>for\<close> loop whose body may raise.\<close>

fun result_list :: "('a \<Rightarrow> 'e + 'b) \<Rightarrow> 'a list \<Rightarrow> 'e + 'b list" where
  "result_list f [] = Inr []"
| "result_list f (x # xs) =
     andthen (f x) (\<lambda>y. andthen (result_list f xs) (\<lambda>ys. Inr (y # ys)))"

lemma result_list_Inr_length: "result_list f xs = Inr ys \<Longrightarrow> length ys = length xs"
  by (induction xs arbitrary: ys) (auto simp: result_simps)

lemma result_list_Inr_nth:
  "result_list f xs = Inr ys \<Longrightarrow> i < length xs \<Longrightarrow> f (xs ! i) = Inr (ys ! i)"
  by (induction xs arbitrary: ys i) (auto simp: result_simps less_Suc_eq_0_disj)

lemma result_list_Inr_set:
  "result_list f xs = Inr ys \<Longrightarrow> y \<in> set ys \<Longrightarrow> \<exists>x\<in>set xs. f x = Inr y"
  by (induction xs arbitrary: ys) (auto simp: result_simps)

lemma result_list_all:
  "result_list f xs = Inr ys \<Longrightarrow> x \<in> set xs \<Longrightarrow> \<exists>y\<in>set ys. f x = Inr y"
  by (induction xs arbitrary: ys) (auto simp: result_simps)

lemma result_list_id: "(\<And>x. x \<in> set xs \<Longrightarrow> f x = Inr x) \<Longrightarrow> result_list f xs = Inr xs"
  by (induction xs) auto

text \<open>Translating an exception, as \<open>except A as exc: raise B\<close> does.\<close>

definition or_raise :: "'a option \<Rightarrow> 'e \<Rightarrow> 'e + 'a" where
  "or_raise x e = (case x of None \<Rightarrow> Inl e | Some y \<Rightarrow> Inr y)"

lemma or_raise_Inr_iff [result_simps]: "or_raise x e = Inr y \<longleftrightarrow> x = Some y"
  by (cases x) (auto simp: or_raise_def)

lemma or_raise_simps [simp]: "or_raise None e = Inl e" "or_raise (Some y) e = Inr y"
  by (simp_all add: or_raise_def)

text \<open>\<open>except (...) as exc: raise e from exc\<close> for the exceptions a predicate selects.\<close>

definition except_as :: "('e \<Rightarrow> bool) \<Rightarrow> 'e \<Rightarrow> 'e + 'a \<Rightarrow> 'e + 'a" where
  "except_as handled e m = (case m of Inl x \<Rightarrow> if handled x then Inl e else Inl x | Inr y \<Rightarrow> Inr y)"

lemma except_as_Inr_iff [result_simps]: "except_as handled e m = Inr y \<longleftrightarrow> m = Inr y"
  by (cases m) (auto simp: except_as_def)

lemma except_as_simps [simp]:
  "except_as handled e (Inr y) = Inr y"
  "except_as handled e (Inl x) = Inl (if handled x then e else x)"
  by (simp_all add: except_as_def)

definition key_or_value_error :: "error \<Rightarrow> bool" where
  "key_or_value_error e \<longleftrightarrow> key_error e \<or> value_error e"

lemma if_Some_iff: "(if b then Some x else None) = Some y \<longleftrightarrow> b \<and> x = y"
  by simp

lemma if_Inl_iff: "(if b then Inl e else m) = Inr y \<longleftrightarrow> \<not> b \<and> m = Inr y"
  by simp

lemma takeWhile_neq_append:
  "d \<notin> set xs \<Longrightarrow> ys = [] \<or> hd ys = d \<Longrightarrow> takeWhile (\<lambda>c. c \<noteq> d) (xs @ ys) = xs"
  by (induction xs) (cases ys, auto)+

lemma dropWhile_neq_append:
  "d \<notin> set xs \<Longrightarrow> ys = [] \<or> hd ys = d \<Longrightarrow> dropWhile (\<lambda>c. c \<noteq> d) (xs @ ys) = ys"
  by (induction xs) (cases ys, auto)+

section \<open>Character classes\<close>

text \<open>Python's \<open>ord\<close>, and the ASCII classes of the regular expressions.\<close>

definition ord_char :: "char \<Rightarrow> nat" where
  "ord_char c = of_char c"

definition is_digit :: "char \<Rightarrow> bool" where
  "is_digit c \<longleftrightarrow> 48 \<le> ord_char c \<and> ord_char c \<le> 57"

definition is_lower :: "char \<Rightarrow> bool" where
  "is_lower c \<longleftrightarrow> 97 \<le> ord_char c \<and> ord_char c \<le> 122"

definition is_upper :: "char \<Rightarrow> bool" where
  "is_upper c \<longleftrightarrow> 65 \<le> ord_char c \<and> ord_char c \<le> 90"

definition is_alpha :: "char \<Rightarrow> bool" where
  "is_alpha c \<longleftrightarrow> is_lower c \<or> is_upper c"

definition is_alnum :: "char \<Rightarrow> bool" where
  "is_alnum c \<longleftrightarrow> is_digit c \<or> is_alpha c"

definition is_hex :: "char \<Rightarrow> bool" where
  "is_hex c \<longleftrightarrow> is_digit c \<or> 97 \<le> ord_char c \<and> ord_char c \<le> 102
     \<or> 65 \<le> ord_char c \<and> ord_char c \<le> 70"

text \<open>\<open>[0-9a-f]\<close>, the digits of a lowercase digest.\<close>

definition is_lower_hex :: "char \<Rightarrow> bool" where
  "is_lower_hex c \<longleftrightarrow> is_digit c \<or> 97 \<le> ord_char c \<and> ord_char c \<le> 102"

text \<open>\<open>str.isspace\<close> on the code points 0 to 255.\<close>

definition is_space :: "char \<Rightarrow> bool" where
  "is_space c \<longleftrightarrow> ord_char c \<in> {9, 10, 11, 12, 13, 28, 29, 30, 31, 32, 133, 160}"

lemmas char_class_defs =
  is_digit_def is_lower_def is_upper_def is_alpha_def is_alnum_def is_hex_def
  is_lower_hex_def is_space_def ord_char_def

lemma not_digit_consts [simp]:
  "\<not> is_digit CHR ''.''" "\<not> is_digit CHR ''-''" "\<not> is_digit CHR '':''" "\<not> is_digit CHR ''+''"
  "\<not> is_digit CHR ''Z''" "\<not> is_digit CHR ''T''" "\<not> is_digit CHR ''/''" "\<not> is_digit CHR '',''"
  "\<not> is_digit CHR '' ''" "\<not> is_digit CHR ''=''" "\<not> is_digit CHR ''\<newline>''"
  by (simp_all add: is_digit_def ord_char_def)

section \<open>Splitting, joining, stripping\<close>

fun split_on :: "char \<Rightarrow> string \<Rightarrow> string list" where
  "split_on d [] = [[]]"
| "split_on d (c # cs) =
     (if c = d then [] # split_on d cs
      else (case split_on d cs of [] \<Rightarrow> [[c]] | p # ps \<Rightarrow> (c # p) # ps))"

fun join :: "string \<Rightarrow> string list \<Rightarrow> string" where
  "join sep [] = []"
| "join sep [s] = s"
| "join sep (s # t # ss) = s @ sep @ join sep (t # ss)"

lemma split_on_nonempty [simp]: "split_on d s \<noteq> []"
  by (induction s) (auto split: list.splits)

lemma join_Cons: "ss \<noteq> [] \<Longrightarrow> join sep (s # ss) = s @ sep @ join sep ss"
  by (cases ss) auto

lemma join_prefix_head: "join sep ((c # p) # ps) = c # join sep (p # ps)"
  by (cases ps) auto

lemma join_split_on: "join [d] (split_on d s) = s"
proof (induction s)
  case Nil
  show ?case by simp
next
  case (Cons c cs)
  then show ?case
    by (cases "split_on d cs") (auto simp: join_Cons join_prefix_head)
qed

lemma split_on_no_sep: "d \<notin> set s \<Longrightarrow> split_on d s = [s]"
  by (induction s) auto

lemma split_on_append_sep: "d \<notin> set s \<Longrightarrow> split_on d (s @ d # t) = s # split_on d t"
  by (induction s) auto

lemma split_on_join:
  "ss \<noteq> [] \<Longrightarrow> \<forall>s\<in>set ss. d \<notin> set s \<Longrightarrow> split_on d (join [d] ss) = ss"
proof (induction ss)
  case Nil
  then show ?case by simp
next
  case (Cons s ss)
  then show ?case
    by (cases ss) (auto simp: split_on_no_sep split_on_append_sep)
qed

lemma split_on_parts: "p \<in> set (split_on d s) \<Longrightarrow> d \<notin> set p"
proof (induction s arbitrary: p)
  case Nil
  then show ?case by simp
next
  case (Cons c cs)
  then show ?case
    by (cases "split_on d cs") (auto split: if_splits)
qed

lemma split_on_parts_subset: "p \<in> set (split_on d s) \<Longrightarrow> set p \<subseteq> set s"
proof (induction s arbitrary: p)
  case Nil
  then show ?case by simp
next
  case (Cons c cs)
  then show ?case
    by (cases "split_on d cs") (fastforce split: if_splits)+
qed

text \<open>\<open>str.partition(d)\<close>: the text before the first separator, whether there is one, the rest.\<close>

fun partition_on :: "char \<Rightarrow> string \<Rightarrow> string \<times> bool \<times> string" where
  "partition_on d [] = ([], False, [])"
| "partition_on d (c # cs) =
     (if c = d then ([], True, cs)
      else (case partition_on d cs of (a, f, b) \<Rightarrow> (c # a, f, b)))"

lemma partition_on_append: "d \<notin> set s \<Longrightarrow> partition_on d (s @ d # t) = (s, True, t)"
  by (induction s) auto

text \<open>\<open>str.rsplit(d, 1)\<close> with a separator present: the text before and after the last one.\<close>

definition rpartition_on :: "char \<Rightarrow> string \<Rightarrow> (string \<times> string) option" where
  "rpartition_on d s =
     (if d \<in> set s
      then Some (rev (tl (dropWhile (\<lambda>c. c \<noteq> d) (rev s))), rev (takeWhile (\<lambda>c. c \<noteq> d) (rev s)))
      else None)"

lemma rpartition_on_append:
  assumes "d \<notin> set t"
  shows "rpartition_on d (s @ d # t) = Some (s, t)"
proof -
  have tk: "takeWhile (\<lambda>c. c \<noteq> d) (rev t @ d # rev s) = rev t"
    using assms by (subst takeWhile_append2) auto
  have dr: "dropWhile (\<lambda>c. c \<noteq> d) (rev t @ d # rev s) = d # rev s"
    using assms by (subst dropWhile_append2) auto
  show ?thesis
    by (simp add: rpartition_on_def tk dr)
qed

definition lstrip :: "string \<Rightarrow> string" where
  "lstrip s = dropWhile is_space s"

definition rstrip :: "string \<Rightarrow> string" where
  "rstrip s = rev (dropWhile is_space (rev s))"

definition strip :: "string \<Rightarrow> string" where
  "strip s = rstrip (lstrip s)"

text \<open>\<open>str.rstrip(chars)\<close> and \<open>str.strip(chars)\<close> for a set of characters.\<close>

definition rstrip_chars :: "char list \<Rightarrow> string \<Rightarrow> string" where
  "rstrip_chars cs s = rev (dropWhile (\<lambda>c. c \<in> set cs) (rev s))"

definition strip_chars :: "char list \<Rightarrow> string \<Rightarrow> string" where
  "strip_chars cs s = rstrip_chars cs (dropWhile (\<lambda>c. c \<in> set cs) s)"

lemma dropWhile_no: "(s = [] \<or> \<not> P (hd s)) \<Longrightarrow> dropWhile P s = s"
  by (cases s) auto

lemma strip_id: "s = [] \<or> \<not> is_space (hd s) \<and> \<not> is_space (last s) \<Longrightarrow> strip s = s"
  by (cases "s = []") (auto simp: strip_def lstrip_def rstrip_def dropWhile_no hd_rev)

lemma strip_Nil [simp]: "strip [] = []"
  by (simp add: strip_def lstrip_def rstrip_def)

lemma strip_no_space: "\<forall>c\<in>set s. \<not> is_space c \<Longrightarrow> strip s = s"
  by (rule strip_id) (cases "s = []", auto simp: hd_in_set last_in_set)

lemma set_strip: "set (strip s) \<subseteq> set s"
  by (auto simp: strip_def lstrip_def rstrip_def dest!: set_dropWhileD)

text \<open>\<open>str.startswith\<close> and \<open>str.replace\<close> of one text by another.\<close>

fun starts_with :: "string \<Rightarrow> string \<Rightarrow> bool" where
  "starts_with [] s = True"
| "starts_with (c # cs) [] = False"
| "starts_with (c # cs) (d # ds) = (c = d \<and> starts_with cs ds)"

lemma starts_with_append [simp]: "starts_with p (p @ s)"
  by (induction p) auto

lemma starts_with_iff: "starts_with p s \<longleftrightarrow> (\<exists>t. s = p @ t)"
  by (induction p s rule: starts_with.induct) auto

function replace_str :: "string \<Rightarrow> string \<Rightarrow> string \<Rightarrow> string" where
  "replace_str old new s =
     (if old = [] then s
      else case s of
        [] \<Rightarrow> []
      | c # cs \<Rightarrow>
          if starts_with old s then new @ replace_str old new (drop (length old) s)
          else c # replace_str old new cs)"
  by pat_completeness auto
termination
  by (relation "measure (\<lambda>(old, new, s). length s)") auto

declare replace_str.simps [simp del]

section \<open>Decimal numerals\<close>

definition digit_val :: "char \<Rightarrow> nat" where
  "digit_val c = ord_char c - 48"

definition digit_char :: "nat \<Rightarrow> char" where
  "digit_char n = char_of (n + 48)"

lemma ord_digit_char: "n < 10 \<Longrightarrow> ord_char (digit_char n) = n + 48"
  by (simp add: ord_char_def digit_char_def)

lemma is_digit_digit_char [simp]: "n < 10 \<Longrightarrow> is_digit (digit_char n)"
  by (simp add: is_digit_def ord_digit_char)

lemma digit_val_digit_char [simp]: "n < 10 \<Longrightarrow> digit_val (digit_char n) = n"
  by (simp add: digit_val_def ord_digit_char)

lemma digit_char_digit_val: "is_digit c \<Longrightarrow> digit_char (digit_val c) = c"
  by (simp add: is_digit_def digit_val_def digit_char_def ord_char_def)

lemma digit_val_less: "is_digit c \<Longrightarrow> digit_val c < 10"
  by (auto simp: is_digit_def digit_val_def)

fun dec_nat :: "nat \<Rightarrow> string" where
  "dec_nat n = (if n < 10 then [digit_char n] else dec_nat (n div 10) @ [digit_char (n mod 10)])"

declare dec_nat.simps [simp del]

definition undec :: "string \<Rightarrow> nat" where
  "undec s = foldl (\<lambda>a c. a * 10 + digit_val c) 0 s"

lemma undec_snoc [simp]: "undec (s @ [c]) = undec s * 10 + digit_val c"
  by (simp add: undec_def)

lemma undec_Nil [simp]: "undec [] = 0"
  by (simp add: undec_def)

lemma undec_single [simp]: "undec [c] = digit_val c"
  by (simp add: undec_def)

lemma undec_dec_nat [simp]: "undec (dec_nat n) = n"
proof (induction n rule: dec_nat.induct)
  case (1 n)
  then show ?case
    by (cases "n < 10") (simp_all add: dec_nat.simps [of n])
qed

lemma dec_nat_nonempty [simp]: "dec_nat n \<noteq> []"
  by (simp add: dec_nat.simps [of n])

lemma dec_nat_digits: "c \<in> set (dec_nat n) \<Longrightarrow> is_digit c"
proof (induction n rule: dec_nat.induct)
  case (1 n)
  then show ?case
    by (cases "n < 10") (auto simp: dec_nat.simps [of n])
qed

lemma dec_nat_inj: "dec_nat m = dec_nat n \<longleftrightarrow> m = n"
  by (metis undec_dec_nat)

text \<open>A numeral without a leading zero is the printed form of its value.\<close>

definition canonical_digits :: "string \<Rightarrow> bool" where
  "canonical_digits s \<longleftrightarrow> s \<noteq> [] \<and> list_all is_digit s \<and> (length s > 1 \<longrightarrow> hd s \<noteq> CHR ''0'')"

lemma digit_char_0: "digit_char 0 = CHR ''0''"
  by code_simp

lemma digit_val_0_iff: "is_digit c \<Longrightarrow> digit_val c = 0 \<longleftrightarrow> c = CHR ''0''"
  using digit_char_digit_val [of c] by (auto simp: digit_char_0 digit_val_def ord_char_def)

lemma digit_val_pos: "is_digit c \<Longrightarrow> c \<noteq> CHR ''0'' \<Longrightarrow> 0 < digit_val c"
  using digit_val_0_iff [of c] by simp

lemma undec_pos:
  assumes "list_all is_digit s" and "s \<noteq> []" and "hd s \<noteq> CHR ''0''"
  shows "0 < undec s"
  using assms
proof (induction s rule: rev_induct)
  case Nil
  then show ?case by simp
next
  case (snoc c s)
  then show ?case
    by (cases "s = []") (auto simp: digit_val_pos)
qed

lemma dec_nat_undec:
  assumes "canonical_digits s"
  shows "dec_nat (undec s) = s"
  using assms
proof (induction s rule: rev_induct)
  case Nil
  then show ?case by (simp add: canonical_digits_def)
next
  case (snoc c s)
  show ?case
  proof (cases "s = []")
    case True
    with snoc.prems show ?thesis
      by (simp add: canonical_digits_def dec_nat.simps digit_val_less digit_char_digit_val)
  next
    case False
    with snoc.prems have d: "is_digit c" and s: "canonical_digits s" and h: "hd s \<noteq> CHR ''0''"
      by (auto simp: canonical_digits_def)
    have pos: "0 < undec s"
      using undec_pos s h by (simp add: canonical_digits_def)
    have "digit_val c < 10" using d by (rule digit_val_less)
    then show ?thesis
      using pos snoc.IH [OF s] d
      by (simp add: dec_nat.simps [of "undec s * 10 + digit_val c"] digit_char_digit_val)
  qed
qed

lemma canonical_dec_nat: "canonical_digits (dec_nat n)"
proof (induction n rule: dec_nat.induct)
  case (1 n)
  show ?case
  proof (cases "n < 10")
    case True
    then show ?thesis by (simp add: dec_nat.simps [of n] canonical_digits_def)
  next
    case False
    let ?s = "dec_nat (n div 10)"
    have c: "canonical_digits ?s" using "1" False by simp
    have "hd ?s \<noteq> CHR ''0''"
    proof
      assume z: "hd ?s = CHR ''0''"
      with c have "length ?s = 1" by (auto simp: canonical_digits_def not_less le_Suc_eq)
      with z have "?s = ''0''" by (cases ?s) auto
      then have "undec ?s = 0" by (simp add: digit_val_def ord_char_def)
      with False show False by simp
    qed
    with c False show ?thesis
      by (simp add: dec_nat.simps [of n] canonical_digits_def)
  qed
qed

text \<open>\<open>str(n)\<close> of a Python integer.\<close>

definition str_int :: "int \<Rightarrow> string" where
  "str_int n = (if n < 0 then ''-'' @ dec_nat (nat (- n)) else dec_nat (nat n))"

text \<open>
  \<open>int(text)\<close>: surrounding white space, one sign, decimal digits with single underscores
  between them; anything else is a \<open>ValueError\<close>, here \<open>None\<close>.
\<close>

fun underscored_digits :: "string \<Rightarrow> bool" where
  "underscored_digits [] = False"
| "underscored_digits [c] = is_digit c"
| "underscored_digits (c # d # cs) =
     (is_digit c \<and> (if d = CHR ''_'' then underscored_digits cs else underscored_digits (d # cs)))"

definition py_int :: "string \<Rightarrow> int option" where
  "py_int s =
     (let t = strip s;
          (sgn, body) =
            (case t of
               [] \<Rightarrow> (1, [])
             | c # cs \<Rightarrow> if c = CHR ''-'' then (-1, cs) else if c = CHR ''+'' then (1, cs) else (1, t))
      in if underscored_digits body then Some (sgn * int (undec (filter is_digit body))) else None)"

lemma underscored_digits_all: "s \<noteq> [] \<Longrightarrow> list_all is_digit s \<Longrightarrow> underscored_digits s"
  by (induction s rule: underscored_digits.induct) (auto simp: char_class_defs)

lemma py_int_digits:
  assumes "s \<noteq> []" and "list_all is_digit s"
  shows "py_int s = Some (int (undec s))"
proof -
  have sp: "strip s = s"
    using assms(2) by (intro strip_no_space) (auto simp: list_all_iff char_class_defs)
  obtain c cs where s: "s = c # cs" using assms(1) by (cases s) auto
  with assms(2) have "c \<noteq> CHR ''-''" "c \<noteq> CHR ''+''" by (auto simp: char_class_defs)
  moreover have "filter is_digit s = s" using assms(2) by (simp add: list_all_iff)
  ultimately show ?thesis
    using assms s sp underscored_digits_all [OF assms] by (simp add: py_int_def)
qed

lemma py_int_str_int: "0 \<le> n \<Longrightarrow> py_int (str_int n) = Some n"
  by (simp add: str_int_def py_int_digits list_all_iff dec_nat_digits)

lemma dec_nat_no: "\<not> is_digit c \<Longrightarrow> c \<notin> set (dec_nat n)"
  using dec_nat_digits by blast

lemma str_int_no: "0 \<le> n \<Longrightarrow> \<not> is_digit c \<Longrightarrow> c \<notin> set (str_int n)"
  by (simp add: str_int_def dec_nat_no)

section \<open>More string operations\<close>

text \<open>\<open>str.lower\<close> on the code points 0 to 255.\<close>

definition lower_char :: "char \<Rightarrow> char" where
  "lower_char c =
     (if is_upper c \<or> 192 \<le> ord_char c \<and> ord_char c \<le> 222 \<and> ord_char c \<noteq> 215
      then char_of (ord_char c + 32) else c)"

definition lower :: "string \<Rightarrow> string" where
  "lower s = map lower_char s"

lemma dropWhile_hd: "dropWhile P s = [] \<or> \<not> P (hd (dropWhile P s))"
  using hd_dropWhile [of P s] by blast

lemma strip_ends: "strip s = [] \<or> \<not> is_space (hd (strip s)) \<and> \<not> is_space (last (strip s))"
proof (cases "strip s = []")
  case False
  let ?l = "dropWhile is_space s"
  let ?r = "dropWhile is_space (rev ?l)"
  have st: "strip s = rev ?r" by (simp add: strip_def rstrip_def lstrip_def)
  have r: "?r \<noteq> []" using False unfolding st by (simp only: rev_is_Nil_conv not_False_eq_True)
  have "\<not> is_space (hd ?r)"
    using dropWhile_hd [of is_space "rev ?l"] r by blast
  then have last: "\<not> is_space (last (strip s))"
    unfolding st last_rev .
  have l: "?l \<noteq> []" using r by (metis dropWhile.simps(1) rev.simps(1))
  have "?l = strip s @ rev (takeWhile is_space (rev ?l))"
    by (metis st rev_append rev_rev_ident takeWhile_dropWhile_id)
  then have "hd ?l = hd (strip s)" using False by (metis hd_append2)
  moreover have "\<not> is_space (hd ?l)"
    using dropWhile_hd [of is_space s] l by blast
  ultimately have "\<not> is_space (hd (strip s))" by simp
  with last show ?thesis by simp
qed simp

lemma strip_strip [simp]: "strip (strip s) = strip s"
  by (rule strip_id) (rule strip_ends)

end
