(* ===== verification/Json.thy ===== *)
theory Json
  imports Prelude
begin

text \<open>
  The values \<open>json.loads\<close> can return, as one \<^theory_text>\<open>datatype\<close>, with the tests and
  accessors the validators apply to them: \<open>isinstance\<close>, \<open>==\<close> against constants (Python's
  \<open>True == 1 == 1.0\<close> included), membership in a set display (an unhashable value raises
  \<open>TypeError\<close>), \<open>dict.get\<close>, comparison of the key set, truthiness. A dict is an association
  list without duplicate keys, which is what \<open>json.loads\<close> builds.
\<close>

section \<open>Values\<close>

text \<open>A finite float is \<open>m * 2 ^ e\<close>; \<open>json.loads\<close> also accepts NaN and the infinities.\<close>

datatype pyfloat = FloatNaN | FloatInf bool | FloatFin int int

datatype json =
    JNull
  | JBool bool
  | JInt int
  | JFloat pyfloat
  | JStr string
  | JList "json list"
  | JObj "(string \<times> json) list"

type_synonym obj = "(string \<times> json) list"

section \<open>Type tests\<close>

fun is_str :: "json \<Rightarrow> bool" where
  "is_str (JStr s) = True"
| "is_str _ = False"

fun is_bool :: "json \<Rightarrow> bool" where
  "is_bool (JBool b) = True"
| "is_bool _ = False"

fun is_list :: "json \<Rightarrow> bool" where
  "is_list (JList xs) = True"
| "is_list _ = False"

fun is_obj :: "json \<Rightarrow> bool" where
  "is_obj (JObj m) = True"
| "is_obj _ = False"

text \<open>\<open>isinstance(v, int) and not isinstance(v, bool)\<close>, with the integer.\<close>

fun as_int :: "json \<Rightarrow> int option" where
  "as_int (JInt n) = Some n"
| "as_int _ = None"

fun as_str :: "json \<Rightarrow> string option" where
  "as_str (JStr s) = Some s"
| "as_str _ = None"

fun as_bool :: "json \<Rightarrow> bool option" where
  "as_bool (JBool b) = Some b"
| "as_bool _ = None"

fun as_list :: "json \<Rightarrow> json list option" where
  "as_list (JList xs) = Some xs"
| "as_list _ = None"

fun as_obj :: "json \<Rightarrow> obj option" where
  "as_obj (JObj m) = Some m"
| "as_obj _ = None"

lemma as_int_iff [simp]: "as_int v = Some n \<longleftrightarrow> v = JInt n"
  by (cases v) auto

lemma as_str_iff [simp]: "as_str v = Some s \<longleftrightarrow> v = JStr s"
  by (cases v) auto

lemma as_bool_iff [simp]: "as_bool v = Some b \<longleftrightarrow> v = JBool b"
  by (cases v) auto

lemma as_list_iff [simp]: "as_list v = Some xs \<longleftrightarrow> v = JList xs"
  by (cases v) auto

lemma as_obj_iff [simp]: "as_obj v = Some m \<longleftrightarrow> v = JObj m"
  by (cases v) auto

section \<open>Equality and truth\<close>

text \<open>\<open>v == n\<close> for an integer constant: booleans and floats compare by value.\<close>

fun float_eq_int :: "pyfloat \<Rightarrow> int \<Rightarrow> bool" where
  "float_eq_int FloatNaN n = False"
| "float_eq_int (FloatInf s) n = False"
| "float_eq_int (FloatFin m e) n =
     (if 0 \<le> e then m * 2 ^ nat e = n else m = n * 2 ^ nat (- e))"

fun py_eq_int :: "json \<Rightarrow> int \<Rightarrow> bool" where
  "py_eq_int (JInt m) n = (m = n)"
| "py_eq_int (JBool b) n = ((if b then 1 else 0) = n)"
| "py_eq_int (JFloat f) n = float_eq_int f n"
| "py_eq_int _ n = False"

text \<open>\<open>v in {...}\<close>: the value is hashed first, which fails for lists and dicts.\<close>

fun hashable :: "json \<Rightarrow> bool" where
  "hashable (JList xs) = False"
| "hashable (JObj m) = False"
| "hashable _ = True"

definition in_strs :: "json \<Rightarrow> string list \<Rightarrow> bool result" where
  "in_strs v ss = (if hashable v then Inr (\<exists>s\<in>set ss. v = JStr s) else Inl TypeError)"

definition in_ints :: "json \<Rightarrow> int list \<Rightarrow> bool result" where
  "in_ints v ns = (if hashable v then Inr (\<exists>n\<in>set ns. py_eq_int v n) else Inl TypeError)"

fun truthy :: "json \<Rightarrow> bool" where
  "truthy JNull = False"
| "truthy (JBool b) = b"
| "truthy (JInt n) = (n \<noteq> 0)"
| "truthy (JFloat f) = (\<not> float_eq_int f 0)"
| "truthy (JStr s) = (s \<noteq> [])"
| "truthy (JList xs) = (xs \<noteq> [])"
| "truthy (JObj m) = (m \<noteq> [])"

section \<open>Dictionaries\<close>

text \<open>\<open>d.get(k)\<close> is \<open>None\<close> for a missing key; \<open>d[k]\<close> raises \<open>KeyError\<close>.\<close>

definition get :: "obj \<Rightarrow> string \<Rightarrow> json" where
  "get m k = (case map_of m k of None \<Rightarrow> JNull | Some v \<Rightarrow> v)"

definition item :: "obj \<Rightarrow> string \<Rightarrow> json result" where
  "item m k = or_raise (map_of m k) (KeyError k)"

definition keys :: "obj \<Rightarrow> string list" where
  "keys m = map fst m"

text \<open>\<open>set(d) == {...}\<close>\<close>

definition keys_are :: "obj \<Rightarrow> string list \<Rightarrow> bool" where
  "keys_are m ks \<longleftrightarrow> set (keys m) = set ks"

text \<open>\<open>d[k] = v\<close> and \<open>d.update(...)\<close>: a key keeps its place, a new one goes to the end.\<close>

fun put :: "obj \<Rightarrow> string \<Rightarrow> json \<Rightarrow> obj" where
  "put [] k v = [(k, v)]"
| "put ((k', v') # m) k v = (if k' = k then (k, v) # m else (k', v') # put m k v)"

definition put_all :: "obj \<Rightarrow> obj \<Rightarrow> obj" where
  "put_all m us = foldl (\<lambda>m (k, v). put m k v) m us"

lemma map_of_put: "map_of (put m k v) = (map_of m)(k \<mapsto> v)"
  by (induction m k v rule: put.induct) (auto simp: fun_eq_iff)

lemma map_of_put_all: "distinct (map fst us) \<Longrightarrow> map_of (put_all m us) = map_of m ++ map_of us"
proof (induction us arbitrary: m)
  case Nil
  show ?case by (simp add: put_all_def)
next
  case (Cons u us)
  obtain k v where u: "u = (k, v)" by force
  have "map_of (put_all (put m k v) us) = map_of (put m k v) ++ map_of us"
    using Cons by simp
  moreover have "map_of us k = None"
    using Cons.prems u by (simp add: map_of_eq_None_iff)
  ultimately show ?case
    using u by (auto simp: put_all_def map_of_put fun_eq_iff map_add_def split: option.splits)
qed

lemma get_put [simp]: "get (put m k v) k' = (if k' = k then v else get m k')"
  by (simp add: get_def map_of_put)

lemma get_put_all_other: "k \<notin> fst ` set us \<Longrightarrow> get (put_all m us) k = get m k"
proof (induction us arbitrary: m)
  case Nil
  then show ?case by (simp add: put_all_def)
next
  case (Cons u us)
  then show ?case by (cases u) (simp add: put_all_def)
qed

lemma put_all_simps [simp]:
  "put_all m [] = m"
  "put_all m ((k, v) # us) = put_all (put m k v) us"
  by (simp_all add: put_all_def)

lemma set_keys_put: "set (keys (put m k v)) = insert k (set (keys m))"
  by (induction m k v rule: put.induct) (auto simp: keys_def)

lemma map_of_keys: "map_of m k = None \<longleftrightarrow> k \<notin> set (keys m)"
  by (simp add: keys_def map_of_eq_None_iff image_image)

lemma keys_are_get:
  "keys_are m ks \<Longrightarrow> k \<in> set ks \<Longrightarrow> map_of m k = Some (get m k)"
  by (cases "map_of m k") (auto simp: keys_are_def get_def map_of_keys)

lemma item_eq_get: "keys_are m ks \<Longrightarrow> k \<in> set ks \<Longrightarrow> item m k = Inr (get m k)"
  by (simp add: item_def keys_are_get)

lemma put_same: "map_of m k = Some v \<Longrightarrow> put m k v = m"
  by (induction m k v rule: put.induct) (auto split: if_splits)

lemma get_Some: "get m k = v \<Longrightarrow> v \<noteq> JNull \<Longrightarrow> map_of m k = Some v"
  by (auto simp: get_def split: option.splits)

lemma map_of_put_same [simp]: "map_of (put m k v) k' = (if k' = k then Some v else map_of m k')"
  by (simp add: map_of_put)

lemma py_eq_int_unique: "py_eq_int v a \<Longrightarrow> py_eq_int v b \<Longrightarrow> a = b"
proof -
  have "float_eq_int f a \<Longrightarrow> float_eq_int f b \<Longrightarrow> a = b" for f
    by (cases f) (auto split: if_splits)
  then show "py_eq_int v a \<Longrightarrow> py_eq_int v b \<Longrightarrow> a = b"
    by (cases v) auto
qed

lemma py_eq_int_hashable: "py_eq_int v n \<Longrightarrow> hashable v"
  by (cases v) auto

lemma in_strs_Inr_iff [result_simps]:
  "in_strs v ss = Inr b \<longleftrightarrow> hashable v \<and> b = (\<exists>s\<in>set ss. v = JStr s)"
  by (auto simp: in_strs_def)

lemma in_ints_Inr_iff [result_simps]:
  "in_ints v ns = Inr b \<longleftrightarrow> hashable v \<and> b = (\<exists>n\<in>set ns. py_eq_int v n)"
  by (auto simp: in_ints_def)

lemma keys_simps [simp]: "keys [] = []" "keys ((k, v) # m) = k # keys m" "keys (a @ b) = keys a @ keys b"
  by (simp_all add: keys_def)

lemma get_simps [simp]:
  "get [] f = JNull" "get ((k, v) # m) f = (if f = k then v else get m f)"
  by (simp_all add: get_def)

lemma item_simps [simp]:
  "item [] f = Inl (KeyError f)" "item ((k, v) # m) f = (if f = k then Inr v else item m f)"
  by (simp_all add: item_def)

lemma get_append: "get (a @ b) f = (if f \<in> set (keys a) then get a f else get b f)"
  by (induction a) (auto simp: split_paired_all)

lemma item_keys: "f \<in> set (keys m) \<Longrightarrow> item m f = Inr (get m f)"
  by (cases "map_of m f") (auto simp: item_def get_def map_of_keys)

section \<open>Equality of two values\<close>

text \<open>
  \<open>a == b\<close>: numbers and booleans compare by value, lists by position, dicts by key.
\<close>

fun number_of :: "json \<Rightarrow> (int \<times> int) option" where
  "number_of (JBool b) = Some (if b then 1 else 0, 0)"
| "number_of (JInt n) = Some (n, 0)"
| "number_of (JFloat (FloatFin m e)) = Some (m, e)"
| "number_of _ = None"

definition scaled_eq :: "int \<times> int \<Rightarrow> int \<times> int \<Rightarrow> bool" where
  "scaled_eq a b =
     (let low = min (snd a) (snd b)
      in fst a * 2 ^ nat (snd a - low) = fst b * 2 ^ nat (snd b - low))"

definition number_eq :: "json \<Rightarrow> json \<Rightarrow> bool" where
  "number_eq a b =
     (case (number_of a, number_of b) of
        (Some x, Some y) \<Rightarrow> scaled_eq x y
      | _ \<Rightarrow> (case (a, b) of (JFloat (FloatInf s), JFloat (FloatInf t)) \<Rightarrow> s = t | _ \<Rightarrow> False))"

fun py_eq :: "json \<Rightarrow> json \<Rightarrow> bool"
and eq_items :: "json list \<Rightarrow> json list \<Rightarrow> bool"
and eq_fields :: "obj \<Rightarrow> obj \<Rightarrow> bool" where
  "py_eq JNull b = (b = JNull)"
| "py_eq (JStr s) b = (b = JStr s)"
| "py_eq (JList xs) b = (case b of JList ys \<Rightarrow> eq_items xs ys | _ \<Rightarrow> False)"
| "py_eq (JObj m) b = (case b of JObj n \<Rightarrow> length m = length n \<and> eq_fields m n | _ \<Rightarrow> False)"
| "py_eq a b = number_eq a b"
| "eq_items [] ys = (ys = [])"
| "eq_items (x # xs) ys = (case ys of [] \<Rightarrow> False | y # ys' \<Rightarrow> py_eq x y \<and> eq_items xs ys')"
| "eq_fields [] n = True"
| "eq_fields ((k, v) # m) n =
     ((case map_of n k of None \<Rightarrow> False | Some w \<Rightarrow> py_eq v w) \<and> eq_fields m n)"

lemma scaled_eq_refl [simp]: "scaled_eq a a"
  by (simp add: scaled_eq_def)

text \<open>Values without NaN whose dicts have distinct keys are equal to themselves.\<close>

fun plain_json :: "json \<Rightarrow> bool" where
  "plain_json (JList xs) = list_all plain_json xs"
| "plain_json (JObj m) = (distinct (map fst m) \<and> list_all plain_json (map snd m))"
| "plain_json (JFloat f) = (f \<noteq> FloatNaN)"
| "plain_json v = True"

lemma eq_items_refl: "(\<And>x. x \<in> set xs \<Longrightarrow> py_eq x x) \<Longrightarrow> eq_items xs xs"
  by (induction xs) auto

lemma eq_fields_refl:
  assumes "distinct (map fst n)" and "\<And>k v. (k, v) \<in> set n \<Longrightarrow> py_eq v v"
  shows "set m \<subseteq> set n \<Longrightarrow> eq_fields m n"
proof (induction m)
  case Nil
  show ?case by simp
next
  case (Cons f m)
  obtain k v where f: "f = (k, v)" by force
  with Cons.prems have "(k, v) \<in> set n" by simp
  with assms have "map_of n k = Some v" "py_eq v v" by simp_all
  with Cons f show ?case by simp
qed

lemma py_eq_refl: "plain_json v \<Longrightarrow> py_eq v v"
proof (induction v rule: plain_json.induct)
  case (1 xs)
  then show ?case by (auto intro: eq_items_refl simp: list_all_iff)
next
  case (2 m)
  have "py_eq v v" if "(k, v) \<in> set m" for k v
    using "2" that by (force simp: list_all_iff)
  then show ?case using "2.prems" by (auto intro: eq_fields_refl)
next
  case (3 f)
  then show ?case by (cases f) (auto simp: number_eq_def)
qed (auto simp: number_eq_def)

end
