(* ===== verification/Semver.thy ===== *)
theory Semver
  imports Json
begin

text \<open>
  \<^verbatim>\<open>src/awgctl/semver.py\<close>: the release-version grammar and the precedence key that
  orders releases. The key is a tuple, compared lexicographically; a prerelease identifier
  is \<open>(0, n)\<close> or \<open>(1, text)\<close>, so a numeric identifier sorts before an alphanumeric one.
\<close>

section \<open>Grammar and key\<close>

text \<open>The identifiers \<open>(0, int)\<close> and \<open>(1, str)\<close> of the key.\<close>

datatype ident = Numeric int | Alphanumeric string

instantiation ident :: linorder
begin

fun less_eq_ident :: "ident \<Rightarrow> ident \<Rightarrow> bool" where
  "less_eq_ident (Numeric m) (Numeric n) = (m \<le> n)"
| "less_eq_ident (Numeric m) (Alphanumeric t) = True"
| "less_eq_ident (Alphanumeric s) (Numeric n) = False"
| "less_eq_ident (Alphanumeric s) (Alphanumeric t) = (s \<le> t)"

definition less_ident :: "ident \<Rightarrow> ident \<Rightarrow> bool" where
  "less_ident a b \<longleftrightarrow> a \<le> b \<and> \<not> b \<le> a"

instance
proof
  fix x y z :: ident
  show "x < y \<longleftrightarrow> x \<le> y \<and> \<not> y \<le> x" by (simp add: less_ident_def)
  show "x \<le> x" by (cases x) auto
  show "x \<le> y \<Longrightarrow> y \<le> z \<Longrightarrow> x \<le> z" by (cases x; cases y; cases z) auto
  show "x \<le> y \<Longrightarrow> y \<le> x \<Longrightarrow> x = y" by (cases x; cases y) auto
  show "x \<le> y \<or> y \<le> x" by (cases x; cases y) auto
qed

end

type_synonym version_key = "int \<times> int \<times> int \<times> int \<times> ident list"

definition is_ident_char :: "char \<Rightarrow> bool" where
  "is_ident_char c \<longleftrightarrow> is_alnum c \<or> c = CHR ''-''"

text \<open>
  \<open>_VERSION_RE.fullmatch\<close>: three numerals without leading zeros separated by dots, then
  optionally a hyphen and dot-separated nonempty identifiers. The core has no hyphen, so
  the first hyphen starts the prerelease.
\<close>

definition version_re :: "string \<Rightarrow> ((string \<times> string \<times> string) \<times> string option) option" where
  "version_re s =
     (case partition_on CHR ''-'' s of (core, dash, pre) \<Rightarrow>
        case split_on CHR ''.'' core of
          [a, b, c] \<Rightarrow>
            if canonical_digits a \<and> canonical_digits b \<and> canonical_digits c
               \<and> (dash \<longrightarrow> list_all (\<lambda>p. p \<noteq> [] \<and> list_all is_ident_char p) (split_on CHR ''.'' pre))
            then Some ((a, b, c), if dash then Some pre else None)
            else None
        | _ \<Rightarrow> None)"

definition max_numeric_digits :: nat where
  "max_numeric_digits = 128"

definition numeric_value :: "string \<Rightarrow> int result" where
  "numeric_value identifier =
     (if length identifier > max_numeric_digits
      then Inl (InvalidVersion ''numeric identifier is too long'')
      else or_raise (py_int identifier) (InvalidVersion ''invalid numeric identifier''))"

definition prerelease_ident :: "string \<Rightarrow> ident result" where
  "prerelease_ident identifier =
     (if identifier \<noteq> [] \<and> list_all is_digit identifier
      then if length identifier > 1 \<and> starts_with ''0'' identifier
           then Inl (InvalidVersion ''numeric prerelease identifier has a leading zero'')
           else andthen (numeric_value identifier) (\<lambda>n. Inr (Numeric n))
      else Inr (Alphanumeric identifier))"

definition precedence_key :: "json \<Rightarrow> version_key result" where
  "precedence_key value =
     (case value of
        JStr s \<Rightarrow>
          (case version_re s of
             None \<Rightarrow> Inl (InvalidVersion ''invalid semantic version'')
           | Some ((a, b, c), pre) \<Rightarrow>
               andthen (numeric_value a) (\<lambda>major.
               andthen (numeric_value b) (\<lambda>minor.
               andthen (numeric_value c) (\<lambda>patch.
               andthen (case pre of None \<Rightarrow> Inr []
                        | Some p \<Rightarrow> result_list prerelease_ident (split_on CHR ''.'' p)) (\<lambda>ids.
               Inr (major, minor, patch, if pre = None then 1 else 0, ids))))))
      | _ \<Rightarrow> Inl (InvalidVersion ''version must be a string''))"

section \<open>The key determines the version\<close>

text \<open>The canonical text of a key; it inverts the parser.\<close>

fun ident_text :: "ident \<Rightarrow> string" where
  "ident_text (Numeric n) = str_int n"
| "ident_text (Alphanumeric s) = s"

fun key_text :: "version_key \<Rightarrow> string" where
  "key_text (major, minor, patch, final, ids) =
     str_int major @ ''.'' @ str_int minor @ ''.'' @ str_int patch
     @ (if final = 1 then [] else ''-'' @ join ''.'' (map ident_text ids))"

lemma partition_on_parts:
  "partition_on d s = (a, f, b) \<Longrightarrow> s = (if f then a @ d # b else a) \<and> d \<notin> set a \<and> (\<not> f \<longrightarrow> b = [])"
proof (induction s arbitrary: a f b)
  case Nil
  then show ?case by auto
next
  case (Cons c cs)
  then show ?case
    by (cases "partition_on d cs") (fastforce split: if_splits)
qed

lemma numeric_value_canonical:
  assumes "numeric_value s = Inr n" and "canonical_digits s"
  shows "str_int n = s \<and> 0 \<le> n \<and> n = int (undec s)"
  using assms py_int_digits [of s] dec_nat_undec [of s]
  by (auto simp: numeric_value_def result_simps canonical_digits_def str_int_def split: if_splits)

lemma prerelease_ident_text:
  assumes "prerelease_ident s = Inr i"
  shows "ident_text i = s"
proof (cases "s \<noteq> [] \<and> list_all is_digit s")
  case True
  with assms have c: "canonical_digits s"
    by (cases s) (auto simp: prerelease_ident_def canonical_digits_def split: if_splits)
  from assms True obtain n where "numeric_value s = Inr n" and "i = Numeric n"
    by (auto simp: prerelease_ident_def result_simps split: if_splits)
  then show ?thesis using numeric_value_canonical c by simp
next
  case False
  with assms show ?thesis by (auto simp: prerelease_ident_def)
qed

lemma prerelease_idents_text:
  "result_list prerelease_ident ps = Inr ids \<Longrightarrow> map ident_text ids = ps"
  by (induction ps arbitrary: ids) (auto simp: result_simps prerelease_ident_text)

lemma version_re_text:
  assumes "version_re s = Some ((a, b, c), pre)"
  shows "s = a @ ''.'' @ b @ ''.'' @ c @ (case pre of None \<Rightarrow> [] | Some p \<Rightarrow> ''-'' @ p)"
    and "canonical_digits a" and "canonical_digits b" and "canonical_digits c"
proof -
  obtain core dash p where p: "partition_on CHR ''-'' s = (core, dash, p)"
    by (cases "partition_on CHR ''-'' s") auto
  with assms have sp: "split_on CHR ''.'' core = [a, b, c]"
    and c: "canonical_digits a" "canonical_digits b" "canonical_digits c"
    and pre: "pre = (if dash then Some p else None)"
    by (auto simp: version_re_def split: list.splits if_splits)
  have "core = join ''.'' [a, b, c]"
    using join_split_on [of "CHR ''.''" core] sp by simp
  with partition_on_parts [OF p] pre
  show "s = a @ ''.'' @ b @ ''.'' @ c @ (case pre of None \<Rightarrow> [] | Some p \<Rightarrow> ''-'' @ p)"
    by (auto split: if_splits)
  show "canonical_digits a" "canonical_digits b" "canonical_digits c" by (rule c)+
qed

lemma precedence_key_cases:
  assumes "precedence_key (JStr s) = Inr k"
  obtains a b c pre major minor patch ids where
    "version_re s = Some ((a, b, c), pre)"
    "numeric_value a = Inr major" "numeric_value b = Inr minor" "numeric_value c = Inr patch"
    "k = (major, minor, patch, if pre = None then 1 else 0, ids)"
    "pre = None \<Longrightarrow> ids = []"
    "\<And>p. pre = Some p \<Longrightarrow> result_list prerelease_ident (split_on CHR ''.'' p) = Inr ids"
  using assms
  by (auto simp: precedence_key_def result_simps split: option.splits prod.splits)

lemma precedence_key_text:
  assumes "precedence_key (JStr s) = Inr k"
  shows "key_text k = s"
proof -
  from assms obtain a b c pre major minor patch ids where
    re: "version_re s = Some ((a, b, c), pre)"
    and n: "numeric_value a = Inr major" "numeric_value b = Inr minor" "numeric_value c = Inr patch"
    and k: "k = (major, minor, patch, if pre = None then 1 else 0, ids)"
    and ids: "\<And>p. pre = Some p \<Longrightarrow> result_list prerelease_ident (split_on CHR ''.'' p) = Inr ids"
    by (rule precedence_key_cases) blast
  note parts = version_re_text [OF re]
  have "str_int major = a" "str_int minor = b" "str_int patch = c"
    using n parts numeric_value_canonical by blast+
  moreover have "join ''.'' (map ident_text ids) = p" if "pre = Some p" for p
    using prerelease_idents_text [OF ids [OF that]] join_split_on [of "CHR ''.''" p] by simp
  ultimately show ?thesis
    using k parts(1) by (cases pre) auto
qed

section \<open>Every well-formed key has a version\<close>

text \<open>The range of the parser.\<close>

fun ident_ok :: "ident \<Rightarrow> bool" where
  "ident_ok (Numeric n) = (0 \<le> n \<and> length (str_int n) \<le> max_numeric_digits)"
| "ident_ok (Alphanumeric s) = (s \<noteq> [] \<and> list_all is_ident_char s \<and> \<not> list_all is_digit s)"

fun key_ok :: "version_key \<Rightarrow> bool" where
  "key_ok (major, minor, patch, final, ids) =
     (list_all (\<lambda>n. 0 \<le> n \<and> length (str_int n) \<le> max_numeric_digits) [major, minor, patch]
      \<and> (final = 1 \<and> ids = [] \<or> final = 0 \<and> ids \<noteq> [] \<and> list_all ident_ok ids))"

lemma numeric_value_str_int:
  "0 \<le> n \<Longrightarrow> length (str_int n) \<le> max_numeric_digits \<Longrightarrow> numeric_value (str_int n) = Inr n"
  by (simp add: numeric_value_def py_int_str_int)

lemma canonical_str_int: "0 \<le> n \<Longrightarrow> canonical_digits (str_int n)"
  by (simp add: str_int_def canonical_dec_nat)

lemma str_int_chars: "0 \<le> n \<Longrightarrow> c \<in> set (str_int n) \<Longrightarrow> is_digit c"
  by (simp add: str_int_def dec_nat_digits)

lemma not_ident_char_dot [simp]: "\<not> is_ident_char CHR ''.''"
  by (simp add: char_class_defs is_ident_char_def)

lemma prerelease_ident_of_text:
  assumes "ident_ok i"
  shows "prerelease_ident (ident_text i) = Inr i"
proof (cases i)
  case (Numeric n)
  with assms have n: "0 \<le> n" "length (str_int n) \<le> max_numeric_digits" by auto
  from canonical_str_int [OF n(1)] have "\<not> (length (str_int n) > 1 \<and> starts_with ''0'' (str_int n))"
    by (cases "str_int n") (auto simp: canonical_digits_def)
  with n canonical_str_int [OF n(1)] show ?thesis
    using Numeric by (simp add: prerelease_ident_def numeric_value_str_int canonical_digits_def)
next
  case (Alphanumeric s)
  with assms show ?thesis by (auto simp: prerelease_ident_def)
qed

lemma ident_text_ok:
  assumes "ident_ok i"
  shows "ident_text i \<noteq> [] \<and> list_all is_ident_char (ident_text i)"
proof (cases i)
  case (Numeric n)
  with assms have "0 \<le> n" by auto
  with canonical_str_int [OF this] Numeric show ?thesis
    by (auto simp: canonical_digits_def list_all_iff is_ident_char_def is_alnum_def)
next
  case (Alphanumeric s)
  with assms show ?thesis by auto
qed

lemma split_ident_texts:
  assumes "list_all ident_ok ids" and "ids \<noteq> []"
  shows "split_on CHR ''.'' (join ''.'' (map ident_text ids)) = map ident_text ids"
proof (rule split_on_join)
  show "\<forall>s\<in>set (map ident_text ids). CHR ''.'' \<notin> set s"
    using assms ident_text_ok by (fastforce simp: list_all_iff)
qed (use assms in simp)

lemma result_list_ident_texts:
  "list_all ident_ok ids \<Longrightarrow> result_list prerelease_ident (map ident_text ids) = Inr ids"
  by (induction ids) (auto simp: prerelease_ident_of_text)

lemma split_core:
  assumes "0 \<le> a" "0 \<le> b" "0 \<le> c"
  shows "split_on CHR ''.'' (str_int a @ ''.'' @ str_int b @ ''.'' @ str_int c)
    = [str_int a, str_int b, str_int c]"
  using assms by (simp add: split_on_append_sep split_on_no_sep str_int_no)

lemma partition_on_no: "d \<notin> set s \<Longrightarrow> partition_on d s = (s, False, [])"
  by (induction s) auto

lemma partition_core:
  assumes "0 \<le> a" "0 \<le> b" "0 \<le> c"
  defines "core \<equiv> str_int a @ ''.'' @ str_int b @ ''.'' @ str_int c"
  shows "partition_on CHR ''-'' (core @ (if f then [] else ''-'' @ p)) = (core, \<not> f, if f then [] else p)"
proof -
  have "CHR ''-'' \<notin> set core"
    using assms by (simp add: str_int_no)
  then show ?thesis
    using partition_on_append [of "CHR ''-''" core p] partition_on_no [of "CHR ''-''" core] by auto
qed

lemma version_re_key_text:
  assumes "key_ok (a, b, c, f, ids)"
  shows "version_re (key_text (a, b, c, f, ids)) =
    Some ((str_int a, str_int b, str_int c), if f = 1 then None else Some (join ''.'' (map ident_text ids)))"
proof -
  from assms have n: "0 \<le> a" "0 \<le> b" "0 \<le> c" by auto
  have "f \<noteq> 1 \<Longrightarrow> list_all (\<lambda>p. p \<noteq> [] \<and> list_all is_ident_char p) (map ident_text ids)"
    using assms ident_text_ok by (auto simp: list_all_iff)
  moreover have "f \<noteq> 1 \<Longrightarrow> split_on CHR ''.'' (join ''.'' (map ident_text ids)) = map ident_text ids"
    using assms by (intro split_ident_texts) auto
  ultimately show ?thesis
    using n partition_core [OF n, of "f = 1" "join ''.'' (map ident_text ids)"]
    by (simp add: version_re_def split_core [simplified] canonical_str_int)
qed

lemma precedence_key_of_text:
  assumes "key_ok k"
  shows "precedence_key (JStr (key_text k)) = Inr k"
proof -
  obtain a b c f ids where k: "k = (a, b, c, f, ids)" by (cases k) auto
  with assms have n: "0 \<le> a" "0 \<le> b" "0 \<le> c"
    and l: "length (str_int a) \<le> max_numeric_digits" "length (str_int b) \<le> max_numeric_digits"
      "length (str_int c) \<le> max_numeric_digits"
    and f: "f = 1 \<and> ids = [] \<or> f = 0 \<and> ids \<noteq> [] \<and> list_all ident_ok ids"
    by auto
  have re: "version_re (key_text k) =
    Some ((str_int a, str_int b, str_int c), if f = 1 then None else Some (join ''.'' (map ident_text ids)))"
    unfolding k using assms k by (intro version_re_key_text) simp
  note eval = precedence_key_def numeric_value_str_int n l split_ident_texts result_list_ident_texts
  show ?thesis
  proof (cases "f = 1")
    case True
    with f re k show ?thesis by (simp add: eval del: key_text.simps)
  next
    case False
    with f re k show ?thesis by (simp add: eval del: key_text.simps)
  qed
qed

lemma numeric_value_ok:
  "numeric_value s = Inr n \<Longrightarrow> canonical_digits s \<Longrightarrow> 0 \<le> n \<and> length (str_int n) \<le> max_numeric_digits"
  using numeric_value_canonical [of s n] by (auto simp: numeric_value_def split: if_splits)

lemma version_re_idents:
  assumes "version_re s = Some (abc, Some p)" and "q \<in> set (split_on CHR ''.'' p)"
  shows "q \<noteq> [] \<and> list_all is_ident_char q"
  using assms by (auto simp: version_re_def list_all_iff split: prod.splits list.splits if_splits)

lemma prerelease_ident_ok:
  assumes "prerelease_ident q = Inr i" and "q \<noteq> []" and "list_all is_ident_char q"
  shows "ident_ok i"
proof (cases "list_all is_digit q")
  case True
  with assms(1,2) have c: "canonical_digits q"
    by (cases q) (auto simp: prerelease_ident_def canonical_digits_def split: if_splits)
  with True assms show ?thesis
    using numeric_value_ok by (auto simp: prerelease_ident_def result_simps split: if_splits)
next
  case False
  with assms show ?thesis by (auto simp: prerelease_ident_def)
qed

lemma precedence_key_ok:
  assumes "precedence_key (JStr s) = Inr k"
  shows "key_ok k"
proof -
  from assms obtain a b c pre major minor patch ids where
    re: "version_re s = Some ((a, b, c), pre)"
    and n: "numeric_value a = Inr major" "numeric_value b = Inr minor" "numeric_value c = Inr patch"
    and k: "k = (major, minor, patch, if pre = None then 1 else 0, ids)"
    and none: "pre = None \<Longrightarrow> ids = []"
    and ids: "\<And>p. pre = Some p \<Longrightarrow> result_list prerelease_ident (split_on CHR ''.'' p) = Inr ids"
    by (rule precedence_key_cases) blast
  note parts = version_re_text [OF re]
  have "list_all (\<lambda>n. 0 \<le> n \<and> length (str_int n) \<le> max_numeric_digits) [major, minor, patch]"
    using numeric_value_ok n parts by auto
  moreover have "list_all ident_ok ids \<and> ids \<noteq> []" if p: "pre = Some p" for p
  proof
    show "list_all ident_ok ids"
      unfolding list_all_iff using result_list_Inr_set [OF ids [OF p]] version_re_idents re p
        prerelease_ident_ok by blast
    show "ids \<noteq> []"
      using result_list_Inr_length [OF ids [OF p]] by auto
  qed
  ultimately show ?thesis
    using k none by (cases pre) auto
qed

section \<open>Properties\<close>

text \<open>The release-version grammar and the precedence key are inverse to each other: a text is
  accepted with key \<open>k\<close> exactly when \<open>k\<close> is in the range of well-formed keys and the text is its
  canonical spelling. So two accepted versions that compare equal are the same string, no accepted
  text loses information, and the accepted language is exactly the spellings of well-formed keys.\<close>

theorem precedence_key_iff:
  "precedence_key (JStr s) = Inr k \<longleftrightarrow> key_ok k \<and> s = key_text k"
  using precedence_key_text precedence_key_ok precedence_key_of_text by blast

text \<open>A prerelease has lower precedence than the release with the same core, whatever its
  identifiers are.\<close>

theorem prerelease_below_release:
  assumes "CHR ''-'' \<notin> set core"
    and "precedence_key (JStr (core @ ''-'' @ pre)) = Inr k"
    and "precedence_key (JStr core) = Inr k'"
  shows "k < k'"
proof -
  have p: "partition_on CHR ''-'' (core @ ''-'' @ pre) = (core, True, pre)"
    "partition_on CHR ''-'' core = (core, False, [])"
    using assms(1) partition_on_append partition_on_no by simp_all
  from assms(2) obtain a b c pr major minor patch ids where
    re: "version_re (core @ ''-'' @ pre) = Some ((a, b, c), pr)"
    and n: "numeric_value a = Inr major" "numeric_value b = Inr minor" "numeric_value c = Inr patch"
    and k: "k = (major, minor, patch, if pr = None then 1 else 0, ids)"
    by (rule precedence_key_cases) blast
  from re p have pr: "pr = Some pre" and re': "version_re core = Some ((a, b, c), None)"
    by (auto simp: version_re_def split: list.splits if_splits)
  from assms(3) re' n have "k' = (major, minor, patch, 1, [])"
    by (auto simp: precedence_key_def result_simps)
  with k pr show ?thesis by (simp add: less_prod_def)
qed

theorem prerelease_below_release_witness:
  "precedence_key (JStr ''0.1.0-beta.2'') = Inr (0, 1, 0, 0, [Alphanumeric ''beta'', Numeric 2])
   \<and> ((0, 1, 0, 0, [Alphanumeric ''beta'', Numeric 2]) :: version_key) < (0, 1, 0, 1, [])"
proof -
  have a: "precedence_key (JStr (''0.1.0'' @ ''-'' @ ''beta.2'')) =
      Inr (0, 1, 0, 0, [Alphanumeric ''beta'', Numeric 2])"
    by code_simp
  have b: "precedence_key (JStr ''0.1.0'') = Inr (0, 1, 0, 1, [])"
    by code_simp
  from a prerelease_below_release [OF _ a b] show ?thesis by simp
qed

end
