(* ===== verification/PyTime.thy ===== *)
theory PyTime
  imports Prelude
begin

text \<open>
  What the sources use of Python's \<open>datetime\<close>: calendar arithmetic on proleptic Gregorian
  ordinals (day 1 is 0001-01-01), \<open>date.fromisoformat\<close>, \<open>datetime.fromisoformat\<close> (the forms
  Python 3.11 and later accept), comparison of aware datetimes and the \<open>...Z\<close> rendering.
  An instant is a number of microseconds; day \<open>n\<close> starts at \<open>n * day_us\<close>.
\<close>

section \<open>Calendar\<close>

definition is_leap :: "int \<Rightarrow> bool" where
  "is_leap y \<longleftrightarrow> y mod 4 = 0 \<and> (y mod 100 \<noteq> 0 \<or> y mod 400 = 0)"

definition days_in_month :: "bool \<Rightarrow> int \<Rightarrow> int" where
  "days_in_month leap m =
     (if m = 2 then (if leap then 29 else 28)
      else if m \<in> {4, 6, 9, 11} then 30 else 31)"

definition month_starts :: "int list" where
  "month_starts = [0, 31, 59, 90, 120, 151, 181, 212, 243, 273, 304, 334]"

definition days_before_month :: "bool \<Rightarrow> int \<Rightarrow> int" where
  "days_before_month leap m =
     (if 1 \<le> m \<and> m \<le> 12 then month_starts ! nat (m - 1) else 0) + (if m > 2 \<and> leap then 1 else 0)"

definition days_before_year :: "int \<Rightarrow> int" where
  "days_before_year y = (let z = y - 1 in z * 365 + z div 4 - z div 100 + z div 400)"

definition valid_date :: "int \<Rightarrow> int \<Rightarrow> int \<Rightarrow> bool" where
  "valid_date y m d \<longleftrightarrow> 1 \<le> y \<and> y \<le> 9999 \<and> 1 \<le> m \<and> m \<le> 12 \<and> 1 \<le> d \<and> d \<le> days_in_month (is_leap y) m"

definition ymd_ord :: "int \<Rightarrow> int \<Rightarrow> int \<Rightarrow> int" where
  "ymd_ord y m d = days_before_year y + days_before_month (is_leap y) m + d"

definition max_ord :: int where
  "max_ord = 3652059"

definition month_day :: "bool \<Rightarrow> int \<Rightarrow> int \<times> int" where
  "month_day leap n =
     (let l = (if leap then 1 else 0)
      in if n < 31 then (1, n + 1)
         else if n < 59 + l then (2, n - 31 + 1)
         else if n < 90 + l then (3, n - (59 + l) + 1)
         else if n < 120 + l then (4, n - (90 + l) + 1)
         else if n < 151 + l then (5, n - (120 + l) + 1)
         else if n < 181 + l then (6, n - (151 + l) + 1)
         else if n < 212 + l then (7, n - (181 + l) + 1)
         else if n < 243 + l then (8, n - (212 + l) + 1)
         else if n < 273 + l then (9, n - (243 + l) + 1)
         else if n < 304 + l then (10, n - (273 + l) + 1)
         else if n < 334 + l then (11, n - (304 + l) + 1)
         else (12, n - (334 + l) + 1))"

definition ord_ymd :: "int \<Rightarrow> int \<times> int \<times> int" where
  "ord_ymd k =
     (let n = k - 1;
          n400 = n div 146097; n = n mod 146097;
          n100 = n div 36524; n = n mod 36524;
          n4 = n div 1461; n = n mod 1461;
          n1 = n div 365; n = n mod 365;
          y = n400 * 400 + 1 + n100 * 100 + n4 * 4 + n1
      in if n1 = 4 \<or> n100 = 4 then (y - 1, 12, 31)
         else (y, month_day (n1 = 3 \<and> (n4 \<noteq> 24 \<or> n100 = 3)) n))"

lemma month_day_correct:
  assumes "0 \<le> n" and "n < 365 + (if leap then 1 else 0)" and "month_day leap n = (m, d)"
  shows "1 \<le> m \<and> m \<le> 12 \<and> 1 \<le> d \<and> d \<le> days_in_month leap m \<and> days_before_month leap m + d = n + 1"
  using assms
  by (cases leap)
    (simp_all add: month_day_def days_in_month_def days_before_month_def month_starts_def Let_def
      split: if_splits)

lemma div_eq_int: "0 \<le> r \<Longrightarrow> r < k \<Longrightarrow> (q * k + r) div k = (q :: int)"
  by simp

lemma days_before_year_parts:
  fixes a b c e :: int
  assumes "0 \<le> b" "b \<le> 3" "0 \<le> c" "c \<le> 24" "0 \<le> e" "e \<le> 3"
  shows "days_before_year (a * 400 + 1 + b * 100 + c * 4 + e)
    = 146097 * a + 36524 * b + 1461 * c + 365 * e"
proof -
  let ?z = "a * 400 + b * 100 + c * 4 + e"
  have "?z div 4 = 100 * a + 25 * b + c"
    using div_eq_int [of e 4 "100 * a + 25 * b + c"] assms by (simp add: algebra_simps)
  moreover have "?z div 100 = 4 * a + b"
    using div_eq_int [of "c * 4 + e" 100 "4 * a + b"] assms by (simp add: algebra_simps)
  moreover have "?z div 400 = a"
    using div_eq_int [of "b * 100 + c * 4 + e" 400 a] assms by (simp add: algebra_simps)
  ultimately show ?thesis by (simp add: days_before_year_def Let_def algebra_simps)
qed

lemma mod_top_int: "0 \<le> r \<Longrightarrow> r < k \<Longrightarrow> (q * k + (r + 1)) mod k = (0 :: int) \<longleftrightarrow> r = k - 1"
  by (cases "r = k - 1") auto

lemma is_leap_parts:
  fixes a b c e :: int
  assumes "0 \<le> b" "b \<le> 3" "0 \<le> c" "c \<le> 24" "0 \<le> e" "e \<le> 3"
  shows "is_leap (a * 400 + 1 + b * 100 + c * 4 + e) \<longleftrightarrow> e = 3 \<and> (c \<noteq> 24 \<or> b = 3)"
proof -
  let ?y = "a * 400 + 1 + b * 100 + c * 4 + e"
  have "?y mod 4 = 0 \<longleftrightarrow> e = 3"
    using mod_top_int [of e 4 "100 * a + 25 * b + c"] assms by (simp add: algebra_simps)
  moreover have "?y mod 100 = 0 \<longleftrightarrow> c = 24 \<and> e = 3"
  proof -
    have "?y mod 100 = 0 \<longleftrightarrow> c * 4 + e = 99"
      using mod_top_int [of "c * 4 + e" 100 "4 * a + b"] assms by (simp add: algebra_simps)
    also have "\<dots> \<longleftrightarrow> c = 24 \<and> e = 3" using assms by (intro iffI conjI) linarith+
    finally show ?thesis .
  qed
  moreover have "?y mod 400 = 0 \<longleftrightarrow> b = 3 \<and> c = 24 \<and> e = 3"
  proof -
    have "?y mod 400 = 0 \<longleftrightarrow> b * 100 + c * 4 + e = 399"
      using mod_top_int [of "b * 100 + c * 4 + e" 400 a] assms by (simp add: algebra_simps)
    also have "\<dots> \<longleftrightarrow> b = 3 \<and> c = 24 \<and> e = 3" using assms by (intro iffI conjI) linarith+
    finally show ?thesis .
  qed
  ultimately show ?thesis by (auto simp: is_leap_def)
qed

text \<open>The last day of a 400-year or 4-year cycle falls out of the division by 36524 or 365.\<close>

lemma ord_ymd_cases:
  fixes k :: int
  assumes "n = k - 1" "a = n div 146097" "r = n mod 146097" "b = r div 36524" "s = r mod 36524"
    "c = s div 1461" "t = s mod 1461" "e = t div 365" "u = t mod 365"
  shows "k = 146097 * a + 36524 * b + 1461 * c + 365 * e + u + 1"
    and "0 \<le> b" "b \<le> 4" "0 \<le> c" "c \<le> 24" "0 \<le> e" "e \<le> 4" "0 \<le> u" "u < 365"
    and "b = 4 \<Longrightarrow> c = 0 \<and> e = 0 \<and> u = 0"
    and "e = 4 \<Longrightarrow> u = 0 \<and> (c < 24 \<or> b = 3)"
proof -
  have n: "n = 146097 * a + r" "0 \<le> r" "r < 146097"
    unfolding assms(2,3) by simp_all
  have r: "r = 36524 * b + s" "0 \<le> s" "s < 36524"
    unfolding assms(4,5) by simp_all
  have b: "0 \<le> b" "b \<le> 4" using n r by linarith+
  have s: "s = 1461 * c + t" "0 \<le> t" "t < 1461"
    unfolding assms(6,7) by simp_all
  have c: "0 \<le> c" "c \<le> 24" using r s by linarith+
  have t: "t = 365 * e + u" "0 \<le> u" "u < 365"
    unfolding assms(8,9) by simp_all
  have e: "0 \<le> e" "e \<le> 4" using s t by linarith+
  show "k = 146097 * a + 36524 * b + 1461 * c + 365 * e + u + 1"
    using assms(1) n(1) r(1) s(1) t(1) by linarith
  show "0 \<le> b" "b \<le> 4" "0 \<le> c" "c \<le> 24" "0 \<le> e" "e \<le> 4" "0 \<le> u" "u < 365"
    using b c e t by simp_all
  show "c = 0 \<and> e = 0 \<and> u = 0" if "b = 4"
  proof -
    have "s = 0" using that n r by linarith
    then have "c = 0" "t = 0" using s c by linarith+
    then show ?thesis using t e by linarith
  qed
  show "u = 0 \<and> (c < 24 \<or> b = 3)" if "e = 4"
  proof -
    have u: "t = 1460" "u = 0" using that s t by linarith+
    have "c = 24 \<Longrightarrow> b = 3" using u s r n b by linarith
    with u c show ?thesis by linarith
  qed
qed

theorem ord_ymd_correct:
  assumes "ord_ymd k = (y, m, d)"
  shows "ymd_ord y m d = k \<and> 1 \<le> m \<and> m \<le> 12 \<and> 1 \<le> d \<and> d \<le> days_in_month (is_leap y) m"
proof -
  define n a r b s c t e u where
    defs: "n = k - 1" "a = n div 146097" "r = n mod 146097" "b = r div 36524" "s = r mod 36524"
      "c = s div 1461" "t = s mod 1461" "e = t div 365" "u = t mod 365"
  note parts = ord_ymd_cases [OF defs]
  define y' where "y' = a * 400 + 1 + b * 100 + c * 4 + e"
  have ymd: "(y, m, d) = (if e = 4 \<or> b = 4 then (y' - 1, 12, 31)
      else (y', month_day (e = 3 \<and> (c \<noteq> 24 \<or> b = 3)) u))"
    using assms unfolding ord_ymd_def Let_def y'_def defs [symmetric] by simp
  show ?thesis
  proof (cases "e = 4 \<or> b = 4")
    case False
    then have r: "0 \<le> b" "b \<le> 3" "0 \<le> c" "c \<le> 24" "0 \<le> e" "e \<le> 3"
      using parts by auto
    let ?leap = "e = 3 \<and> (c \<noteq> 24 \<or> b = 3)"
    have y: "y = y'" and md: "month_day ?leap u = (m, d)"
      using ymd False by auto
    have leap: "is_leap y \<longleftrightarrow> ?leap"
      unfolding y y'_def by (rule is_leap_parts [OF r])
    have dy: "days_before_year y = 146097 * a + 36524 * b + 1461 * c + 365 * e"
      unfolding y y'_def by (rule days_before_year_parts [OF r])
    from month_day_correct [OF _ _ md] parts leap dy show ?thesis
      by (simp add: ymd_ord_def)
  next
    case True
    then have yd: "y = y' - 1" "m = 12" "d = 31" using ymd by auto
    have "is_leap y \<and> days_before_year y + 366 = k"
    proof (cases "b = 4")
      case True
      with parts have z: "c = 0" "e = 0" "u = 0" by auto
      have "y = a * 400 + 1 + 3 * 100 + 24 * 4 + 3" using yd True z by (simp add: y'_def)
      then show ?thesis
        using is_leap_parts [of 3 24 3 a] days_before_year_parts [of 3 24 3 a] parts(1) True z by simp
    next
      case False
      with \<open>e = 4 \<or> b = 4\<close> have e: "e = 4" by simp
      have y: "y = a * 400 + 1 + b * 100 + c * 4 + 3" using yd e by (simp add: y'_def)
      then show ?thesis
        using is_leap_parts [of b c 3 a] days_before_year_parts [of b c 3 a] parts e False by auto
    qed
    then show ?thesis
      using yd by (simp add: ymd_ord_def days_before_month_def month_starts_def days_in_month_def)
  qed
qed

lemma days_before_year_mono: "x \<le> y \<Longrightarrow> days_before_year x \<le> days_before_year y"
proof -
  assume "x \<le> y"
  then have "(x - 1) div 4 \<le> (y - 1) div 4" and "(x - 1) div 400 \<le> (y - 1) div 400"
    by (simp_all add: zdiv_mono1)
  moreover have "(y - 1) div 100 - (x - 1) div 100 \<le> y - x"
    using \<open>x \<le> y\<close> by linarith
  ultimately show ?thesis using \<open>x \<le> y\<close> by (simp add: days_before_year_def Let_def)
qed

lemma day_of_year_bounds:
  assumes "1 \<le> m" "m \<le> 12" "1 \<le> d" "d \<le> days_in_month leap m"
  shows "1 \<le> days_before_month leap m + d \<and> days_before_month leap m + d \<le> 366"
proof -
  have "m \<in> {1, 2, 3, 4, 5, 6, 7, 8, 9, 10, 11, 12}"
    unfolding insert_iff empty_iff using assms(1,2) by presburger
  then show ?thesis
    using assms(3,4)
    by (auto simp: days_before_month_def days_in_month_def month_starts_def split: if_splits)
qed

lemma ord_ymd_valid:
  assumes "1 \<le> k" and "k \<le> max_ord" and "ord_ymd k = (y, m, d)"
  shows "valid_date y m d"
proof -
  note c = ord_ymd_correct [OF assms(3)]
  then have b: "1 \<le> days_before_month (is_leap y) m + d" "days_before_month (is_leap y) m + d \<le> 366"
    using day_of_year_bounds by blast+
  have "1 \<le> y"
  proof (rule ccontr)
    assume "\<not> 1 \<le> y"
    then have "days_before_year y \<le> days_before_year 0" by (intro days_before_year_mono) simp
    moreover have "days_before_year 0 = -366" by (simp add: days_before_year_def)
    ultimately show False using c b assms(1) by (simp add: ymd_ord_def)
  qed
  moreover have "y \<le> 9999"
  proof (rule ccontr)
    assume "\<not> y \<le> 9999"
    then have "days_before_year 10000 \<le> days_before_year y" by (intro days_before_year_mono) simp
    moreover have "days_before_year 10000 = 3652059" by (simp add: days_before_year_def)
    ultimately show False using c b assms(2) by (simp add: ymd_ord_def max_ord_def)
  qed
  ultimately show ?thesis using c by (simp add: valid_date_def)
qed

section \<open>Parsing\<close>

fun digits_at :: "nat \<Rightarrow> string \<Rightarrow> (int \<times> string) option" where
  "digits_at n s =
     (if n \<le> length s \<and> list_all is_digit (take n s)
      then Some (int (undec (take n s)), drop n s) else None)"

text \<open>\<open>_isoweek_to_gregorian\<close>: the ordinal of day \<open>d\<close> of ISO week \<open>w\<close>.\<close>

definition week1_monday :: "int \<Rightarrow> int" where
  "week1_monday y =
     (let first = ymd_ord y 1 1; wd = (first + 6) mod 7; monday = first - wd
      in if wd > 3 then monday + 7 else monday)"

definition isoweek_ord :: "int \<Rightarrow> int \<Rightarrow> int \<Rightarrow> int option" where
  "isoweek_ord y w d =
     (let wd = (ymd_ord y 1 1 + 6) mod 7;
          ok_week = (1 \<le> w \<and> w \<le> 52 \<or> w = 53 \<and> (wd = 3 \<or> wd = 2 \<and> is_leap y));
          k = week1_monday y + (w - 1) * 7 + d - 1
      in if 1 \<le> y \<and> y \<le> 9999 \<and> ok_week \<and> 1 \<le> d \<and> d \<le> 7 \<and> 1 \<le> k \<and> k \<le> max_ord
         then Some k else None)"

definition date_ord :: "int \<Rightarrow> int \<Rightarrow> int \<Rightarrow> int option" where
  "date_ord y m d = (if valid_date y m d then Some (ymd_ord y m d) else None)"

text \<open>
  \<open>date.fromisoformat\<close>: \<open>YYYY-MM-DD\<close>, \<open>YYYYMMDD\<close>, \<open>YYYY-Www[-D]\<close> or \<open>YYYYWww[D]\<close>.
\<close>

definition parse_date :: "string \<Rightarrow> int option" where
  "parse_date s =
     (case digits_at 4 s of
        None \<Rightarrow> None
      | Some (y, r) \<Rightarrow>
          let sep = starts_with ''-'' r; r = (if sep then tl r else r)
          in if starts_with ''W'' r
             then (case digits_at 2 (tl r) of
                     None \<Rightarrow> None
                   | Some (w, []) \<Rightarrow> isoweek_ord y w 1
                   | Some (w, r) \<Rightarrow>
                       if starts_with ''-'' r \<noteq> sep then None
                       else (case digits_at 1 (if sep then tl r else r) of
                               Some (d, []) \<Rightarrow> isoweek_ord y w d
                             | _ \<Rightarrow> None))
             else (case digits_at 2 r of
                     None \<Rightarrow> None
                   | Some (m, r) \<Rightarrow>
                       if starts_with ''-'' r \<noteq> sep then None
                       else (case digits_at 2 (if sep then tl r else r) of
                               Some (d, []) \<Rightarrow> date_ord y m d
                             | _ \<Rightarrow> None)))"

text \<open>Where the date ends in a datetime text (\<open>_find_isoformat_datetime_separator\<close>).\<close>

definition char_at :: "string \<Rightarrow> nat \<Rightarrow> char option" where
  "char_at s i = (if i < length s then Some (s ! i) else None)"

definition separator_at :: "string \<Rightarrow> nat option" where
  "separator_at s =
     (let n = length s
      in if n = 7 then Some 7
         else if char_at s 4 = Some CHR ''-''
         then (if char_at s 5 = Some CHR ''W''
               then (if char_at s 8 = Some CHR ''-''
                     then (if n = 9 then None
                           else if n > 10 \<and> is_digit (s ! 10) then Some 8 else Some 10)
                     else Some 8)
               else Some 10)
         else if char_at s 4 = Some CHR ''W''
         then (let p = 7 + length (takeWhile is_digit (drop 7 s))
               in if p < 9 then Some p else if p mod 2 = 0 then Some 7 else Some 8)
         else Some 8)"

text \<open>Fractional seconds: at least one digit, truncated to microseconds.\<close>

definition fraction_us :: "string \<Rightarrow> int option" where
  "fraction_us s =
     (if s \<noteq> [] \<and> list_all is_digit s
      then Some (int (undec (take 6 s)) * 10 ^ (6 - length (take 6 s))) else None)"

text \<open>\<open>HH[:MM[:SS[.f]]]\<close> or \<open>HH[MM[SS[.f]]]\<close>, as hour, minute, second, microsecond.\<close>

definition parse_hms :: "string \<Rightarrow> (int \<times> int \<times> int \<times> int) option" where
  "parse_hms s =
     (case digits_at 2 s of
        None \<Rightarrow> None
      | Some (h, []) \<Rightarrow> Some (h, 0, 0, 0)
      | Some (h, r) \<Rightarrow>
          let sep = starts_with '':'' r
          in (case digits_at 2 (if sep then tl r else r) of
                None \<Rightarrow> None
              | Some (m, []) \<Rightarrow> Some (h, m, 0, 0)
              | Some (m, r) \<Rightarrow>
                  if starts_with '':'' r \<noteq> sep then None
                  else (case digits_at 2 (if sep then tl r else r) of
                          None \<Rightarrow> None
                        | Some (x, []) \<Rightarrow> Some (h, m, x, 0)
                        | Some (x, c # r) \<Rightarrow>
                            if c = CHR ''.'' \<or> c = CHR '','' then map_option (\<lambda>f. (h, m, x, f)) (fraction_us r)
                            else None)))"

text \<open>
  The time of day and the UTC offset: none, \<open>Z\<close> at the very end, or a signed offset of less
  than 24 hours. Both in microseconds.
\<close>

definition hms_us :: "int \<times> int \<times> int \<times> int \<Rightarrow> int" where
  "hms_us t = (case t of (h, m, x, f) \<Rightarrow> ((h * 60 + m) * 60 + x) * 1000000 + f)"

definition day_us :: int where
  "day_us = 86400000000"

definition parse_time :: "string \<Rightarrow> (int \<times> int option) option" where
  "parse_time s =
     (let is_tz = (\<lambda>c. c = CHR ''+'' \<or> c = CHR ''-'' \<or> c = CHR ''Z'');
          body = takeWhile (\<lambda>c. \<not> is_tz c) s; tz = dropWhile (\<lambda>c. \<not> is_tz c) s
      in case parse_hms body of
           None \<Rightarrow> None
         | Some (h, m, x, f) \<Rightarrow>
             if h < 24 \<and> m < 60 \<and> x < 60
             then (case tz of
                     [] \<Rightarrow> Some (hms_us (h, m, x, f), None)
                   | c # r \<Rightarrow>
                       if c = CHR ''Z'' then (if r = [] then Some (hms_us (h, m, x, f), Some 0) else None)
                       else (case parse_hms r of
                               None \<Rightarrow> None
                             | Some z \<Rightarrow>
                                 if hms_us z < day_us
                                 then Some (hms_us (h, m, x, f), Some (if c = CHR ''-'' then - hms_us z else hms_us z))
                                 else None))
             else None)"

text \<open>\<open>datetime.fromisoformat\<close>: local microseconds and the offset, \<open>None\<close> when it raises.\<close>

definition parse_datetime :: "string \<Rightarrow> (int \<times> int option) option" where
  "parse_datetime s =
     (if length s < 7 then None
      else case separator_at s of
        None \<Rightarrow> None
      | Some i \<Rightarrow>
          (case parse_date (take i s) of
             None \<Rightarrow> None
           | Some k \<Rightarrow>
               if length s \<le> i + 1 then Some (k * day_us, None)
               else (case parse_time (drop (i + 1) s) of
                       None \<Rightarrow> None
                     | Some (t, off) \<Rightarrow> Some (k * day_us + t, off))))"

text \<open>\<open>value.replace("Z", "+00:00")\<close>\<close>

definition replace_char :: "char \<Rightarrow> string \<Rightarrow> string \<Rightarrow> string" where
  "replace_char c new s = concat (map (\<lambda>x. if x = c then new else [x]) s)"

lemma replace_char_no: "c \<notin> set s \<Longrightarrow> replace_char c new s = s"
  by (induction s) (auto simp: replace_char_def)

lemma replace_char_Nil [simp]: "replace_char c new [] = []"
  by (simp add: replace_char_def)

lemma replace_char_Cons [simp]:
  "replace_char c new (x # s) = (if x = c then new else [x]) @ replace_char c new s"
  by (simp add: replace_char_def)

lemma replace_char_append: "replace_char c new (s @ t) = replace_char c new s @ replace_char c new t"
  by (simp add: replace_char_def)

section \<open>Rendering\<close>

definition pad2 :: "int \<Rightarrow> string" where
  "pad2 n = [digit_char (nat (n div 10)), digit_char (nat (n mod 10))]"

definition pad4 :: "int \<Rightarrow> string" where
  "pad4 n = pad2 (n div 100) @ pad2 (n mod 100)"

definition date_text :: "int \<Rightarrow> string" where
  "date_text k = (case ord_ymd k of (y, m, d) \<Rightarrow> pad4 y @ ''-'' @ pad2 m @ ''-'' @ pad2 d)"

text \<open>
  \<open>value.astimezone(utc).replace(microsecond=0).isoformat().replace("+00:00", "Z")\<close>.
\<close>

definition utc_text :: "int \<Rightarrow> string" where
  "utc_text t =
     (let x = (t mod day_us) div 1000000
      in date_text (t div day_us) @ ''T'' @ pad2 (x div 3600) @ '':'' @ pad2 (x div 60 mod 60)
         @ '':'' @ pad2 (x mod 60) @ ''Z'')"

definition whole_second :: "int \<Rightarrow> int" where
  "whole_second t = t - t mod 1000000"

text \<open>The instants a \<open>datetime\<close> can hold.\<close>

definition valid_instant :: "int \<Rightarrow> bool" where
  "valid_instant t \<longleftrightarrow> day_us \<le> t \<and> t < (max_ord + 1) * day_us"

lemma pad2_digits: "0 \<le> n \<Longrightarrow> n < 100 \<Longrightarrow> list_all is_digit (pad2 n) \<and> int (undec (pad2 n)) = n"
proof -
  assume n: "0 \<le> n" "n < 100"
  then have "nat (n div 10) < 10" "nat (n mod 10) < 10" "0 \<le> n div 10" by auto
  then show ?thesis using n by (simp add: pad2_def undec_def)
qed

lemma length_pad2 [simp]: "length (pad2 n) = 2"
  by (simp add: pad2_def)

lemma length_pad4 [simp]: "length (pad4 n) = 4"
  by (simp add: pad4_def)

lemma digits_at_pad2 [simp]: "0 \<le> n \<Longrightarrow> n < 100 \<Longrightarrow> digits_at 2 (pad2 n @ r) = Some (n, r)"
  using pad2_digits [of n] by simp

lemma digits_at_pad2_end [simp]: "0 \<le> n \<Longrightarrow> n < 100 \<Longrightarrow> digits_at 2 (pad2 n) = Some (n, [])"
  using digits_at_pad2 [of n "[]"] by simp

lemma undec_append: "undec (s @ t) = undec s * 10 ^ length t + undec t"
  by (induction t rule: rev_induct) (simp_all add: undec_def algebra_simps)

lemma digits_at_pad4 [simp]: "0 \<le> n \<Longrightarrow> n < 10000 \<Longrightarrow> digits_at 4 (pad4 n @ r) = Some (n, r)"
proof -
  assume n: "0 \<le> n" "n < 10000"
  then have h: "0 \<le> n div 100" "n div 100 < 100" "0 \<le> n mod 100" "n mod 100 < 100" by auto
  note a = pad2_digits [OF h(1,2)] and b = pad2_digits [OF h(3,4)]
  have "int (undec (pad4 n)) = n"
    using a b by (simp add: pad4_def undec_append)
  moreover have "list_all is_digit (pad4 n)" using a b by (simp add: pad4_def)
  moreover have "take 4 (pad4 n @ r) = pad4 n" "drop 4 (pad4 n @ r) = r" by simp_all
  ultimately show ?thesis by simp
qed

declare digits_at.simps [simp del]

lemma pad2_chars: "0 \<le> n \<Longrightarrow> n < 100 \<Longrightarrow> c \<in> set (pad2 n) \<Longrightarrow> is_digit c"
  using pad2_digits [of n] by (auto simp: list_all_iff)

lemma pad2_no [simp]: "\<not> is_digit c \<Longrightarrow> 0 \<le> n \<Longrightarrow> n < 100 \<Longrightarrow> c \<notin> set (pad2 n)"
  using pad2_chars by blast

lemma pad4_chars: "0 \<le> n \<Longrightarrow> n < 10000 \<Longrightarrow> c \<in> set (pad4 n) \<Longrightarrow> is_digit c"
  by (auto simp: pad4_def dest!: pad2_chars [rotated 2])

lemma hd_pad2: "0 \<le> n \<Longrightarrow> n < 100 \<Longrightarrow> is_digit (hd (pad2 n))"
  using pad2_digits [of n] by (simp add: pad2_def)

lemma not_starts_with_pad2:
  assumes "0 \<le> n" "n < 100" "\<not> is_digit c"
  shows "\<not> starts_with [c] (pad2 n @ r)"
  using hd_pad2 [OF assms(1,2)] assms(3) by (auto simp: pad2_def)

lemma date_text_parts:
  assumes "1 \<le> k" and "k \<le> max_ord"
  obtains y m d where "date_text k = pad4 y @ ''-'' @ pad2 m @ ''-'' @ pad2 d"
    "0 \<le> y" "y < 10000" "0 \<le> m" "m < 100" "0 \<le> d" "d < 100"
    "valid_date y m d" "ymd_ord y m d = k"
proof -
  obtain y m d where e: "ord_ymd k = (y, m, d)" by (cases "ord_ymd k") auto
  have v: "valid_date y m d" by (rule ord_ymd_valid [OF assms e])
  have "days_in_month (is_leap y) m \<le> 31" by (simp add: days_in_month_def)
  then show thesis
    using that [of y m d] e v ord_ymd_correct [OF e] by (simp add: date_text_def valid_date_def)
qed

lemma parse_date_text:
  assumes "1 \<le> k" and "k \<le> max_ord"
  shows "parse_date (date_text k) = Some k"
proof -
  obtain y m d where t: "date_text k = pad4 y @ ''-'' @ pad2 m @ ''-'' @ pad2 d"
    and b: "0 \<le> y" "y < 10000" "0 \<le> m" "m < 100" "0 \<le> d" "d < 100"
    and v: "valid_date y m d" "ymd_ord y m d = k"
    using date_text_parts [OF assms] by blast
  have "\<not> starts_with ''W'' (pad2 m @ r)" for r
    using b by (intro not_starts_with_pad2) (auto simp: char_class_defs)
  then show ?thesis
    using t v b by (simp add: parse_date_def date_ord_def)
qed

lemma length_date_text: "length (date_text k) = 10"
  by (simp add: date_text_def split: prod.splits)

lemma date_text_chars:
  assumes "1 \<le> k" and "k \<le> max_ord" and "c \<in> set (date_text k)"
  shows "is_digit c \<or> c = CHR ''-''"
proof -
  obtain y m d where t: "date_text k = pad4 y @ ''-'' @ pad2 m @ ''-'' @ pad2 d"
    and b: "0 \<le> y" "y < 10000" "0 \<le> m" "m < 100" "0 \<le> d" "d < 100"
    using date_text_parts [OF assms(1,2)] by blast
  have "c \<in> set (pad4 y) \<or> c = CHR ''-'' \<or> c \<in> set (pad2 m) \<or> c \<in> set (pad2 d)"
    using assms(3) unfolding t by auto
  then show ?thesis
    using pad4_chars [OF b(1,2)] pad2_chars [OF b(3,4)] pad2_chars [OF b(5,6)] by blast
qed

lemma separator_date_text:
  assumes "1 \<le> k" and "k \<le> max_ord"
  shows "separator_at (date_text k @ r) = Some 10"
proof -
  obtain y m d where t: "date_text k = pad4 y @ ''-'' @ pad2 m @ ''-'' @ pad2 d"
    and b: "0 \<le> m" "m < 100"
    using date_text_parts [OF assms] by blast
  have "is_digit (hd (pad2 m))" by (rule hd_pad2 [OF b])
  then have nw: "digit_char (nat (m div 10)) \<noteq> CHR ''W''"
    by (auto simp: pad2_def char_class_defs)
  have "date_text k @ r = pad4 y @ ''-'' @ pad2 m @ ''-'' @ pad2 d @ r" by (simp add: t)
  then have "char_at (date_text k @ r) 4 = Some CHR ''-''"
    "char_at (date_text k @ r) 5 = Some (digit_char (nat (m div 10)))"
    by (simp_all add: char_at_def pad4_def pad2_def)
  moreover have "length (date_text k @ r) \<noteq> 7" using length_date_text [of k] by simp
  ultimately show ?thesis
    using nw unfolding separator_at_def Let_def by simp
qed

lemma parse_hms_text:
  assumes "0 \<le> h" "h < 100" "0 \<le> m" "m < 100" "0 \<le> x" "x < 100"
  shows "parse_hms (pad2 h @ '':'' @ pad2 m @ '':'' @ pad2 x) = Some (h, m, x, 0)"
  using assms by (simp add: parse_hms_def)

lemma parse_hms_zero: "parse_hms ''00:00'' = Some (0, 0, 0, 0)"
  by code_simp

lemma parse_time_text:
  assumes "0 \<le> h" "h < 24" "0 \<le> m" "m < 60" "0 \<le> x" "x < 60"
  shows "parse_time (pad2 h @ '':'' @ pad2 m @ '':'' @ pad2 x @ ''+00:00'')
    = Some (hms_us (h, m, x, 0), Some 0)"
proof -
  let ?is_tz = "\<lambda>c. c = CHR ''+'' \<or> c = CHR ''-'' \<or> c = CHR ''Z''"
  let ?b = "pad2 h @ '':'' @ pad2 m @ '':'' @ pad2 x"
  have "CHR ''+'' \<notin> set ?b" "CHR ''-'' \<notin> set ?b" "CHR ''Z'' \<notin> set ?b"
    using assms by simp_all
  then have b: "\<forall>c\<in>set ?b. \<not> ?is_tz c" by blast
  then have "takeWhile (\<lambda>c. \<not> ?is_tz c) (?b @ ''+00:00'') = ?b"
    "dropWhile (\<lambda>c. \<not> ?is_tz c) (?b @ ''+00:00'') = ''+00:00''"
    by (subst takeWhile_append2 dropWhile_append2; fastforce)+
  moreover have "parse_hms ?b = Some (h, m, x, 0)"
    using assms by (intro parse_hms_text) auto
  ultimately show ?thesis
    using assms by (simp add: parse_time_def parse_hms_zero Let_def hms_us_def day_us_def)
qed

text \<open>Rendering and parsing an instant agree, up to the dropped fraction of a second.\<close>

lemma parse_utc_text:
  assumes "valid_instant t"
  shows "parse_datetime (replace_char CHR ''Z'' ''+00:00'' (utc_text t)) = Some (whole_second t, Some 0)"
proof -
  define k x where "k = t div day_us" and "x = t mod day_us div 1000000"
  have k: "1 \<le> k" "k \<le> max_ord"
    using assms by (auto simp: k_def valid_instant_def day_us_def max_ord_def)
  have x: "0 \<le> x" "x < 86400"
    by (auto simp: x_def day_us_def)
  let ?h = "x div 3600" and ?m = "x div 60 mod 60" and ?x = "x mod 60"
  have r: "0 \<le> ?h" "?h < 24" "0 \<le> ?m" "?m < 60" "0 \<le> ?x" "?x < 60"
    using x by auto
  let ?hms = "pad2 ?h @ '':'' @ pad2 ?m @ '':'' @ pad2 ?x"
  have hms: "CHR ''Z'' \<notin> set ?hms"
    using r by simp
  have date: "CHR ''Z'' \<notin> set (date_text k)"
    using date_text_chars [OF k, of "CHR ''Z''"] by auto
  have "utc_text t = date_text k @ ''T'' @ ?hms @ ''Z''"
    by (simp add: utc_text_def k_def x_def Let_def)
  then have eq: "replace_char CHR ''Z'' ''+00:00'' (utc_text t) = date_text k @ ''T'' @ ?hms @ ''+00:00''"
    using r hms date by (simp add: replace_char_append replace_char_no)
  have time: "parse_time (?hms @ ''+00:00'') = Some (hms_us (?h, ?m, ?x, 0), Some 0)"
    using parse_time_text [OF r] by simp
  have sec: "x = (?h * 60 + ?m) * 60 + ?x"
    using zdiv_zmult2_eq [of 60 x 60] div_mult_mod_eq [of "x div 60" 60] div_mult_mod_eq [of x 60]
    by simp
  have "k * day_us + hms_us (?h, ?m, ?x, 0) = whole_second t"
  proof -
    have "hms_us (?h, ?m, ?x, 0) = x * 1000000"
      using sec by (simp add: hms_us_def)
    moreover have "t mod day_us mod 1000000 = t mod 1000000"
      by (simp add: day_us_def mod_mod_cancel)
    ultimately show ?thesis
      unfolding whole_second_def k_def x_def
      using div_mult_mod_eq [of t day_us] div_mult_mod_eq [of "t mod day_us" 1000000]
      by (simp add: algebra_simps)
  qed
  moreover have "separator_at (date_text k @ ''T'' @ ?hms @ ''+00:00'') = Some 10"
    by (rule separator_date_text [OF k])
  ultimately show ?thesis
    unfolding eq
    using time length_date_text [of k] parse_date_text [OF k]
    by (simp add: parse_datetime_def)
qed

end
