(* ===== verification/Contracts.thy ===== *)
theory Contracts
  imports Json PyTime
begin

text \<open>
  \<^verbatim>\<open>src/awgctl/contracts.py\<close>: the JSON envelope of every command, the health envelope,
  and the client metadata contract (schemas 1 and 2 are migrated to the strict schema 3). The
  metadata stays a dict: unknown keys (name, address, keys, ...) pass through unchanged.
\<close>

section \<open>Envelopes\<close>

definition json_envelope :: "string \<Rightarrow> json \<Rightarrow> json list \<Rightarrow> json list \<Rightarrow> obj" where
  "json_envelope command data warnings errors =
     [(''schema_version'', JInt 1), (''command'', JStr command), (''ok'', JBool (errors = [])),
      (''data'', if data = JNull then JObj [] else data),
      (''warnings'', JList warnings), (''errors'', JList errors)]"

type_synonym health_check = "string \<times> string \<times> string"

definition normalized_check :: "health_check \<Rightarrow> obj" where
  "normalized_check c =
     (case c of (level, name, detail) \<Rightarrow>
        [(''level'', JStr (lower level)), (''name'', JStr name), (''detail'', JStr detail)])"

definition checks_at_level :: "string \<Rightarrow> obj list \<Rightarrow> json list" where
  "checks_at_level level items =
     map (\<lambda>m. JObj [(''name'', get m ''name''), (''detail'', get m ''detail'')])
       (filter (\<lambda>m. get m ''level'' = JStr level) items)"

definition health_envelope :: "health_check list \<Rightarrow> obj" where
  "health_envelope checks =
     (let normalized = map normalized_check checks;
          warnings = checks_at_level ''warn'' normalized;
          errors = checks_at_level ''fail'' normalized
      in json_envelope ''health''
           (JObj [(''checks'', JList (map JObj normalized)),
                  (''summary'', JObj [(''failures'', JInt (int (length errors))),
                                      (''warnings'', JInt (int (length warnings)))])])
           warnings errors)"

section \<open>Field validators\<close>

definition is_control :: "char \<Rightarrow> bool" where
  "is_control c \<longleftrightarrow> ord_char c < 32 \<or> ord_char c = 127"

definition optional_text :: "json \<Rightarrow> string \<Rightarrow> json result" where
  "optional_text v field =
     (case v of
        JNull \<Rightarrow> Inr JNull
      | JStr s \<Rightarrow>
          let t = strip s
          in if t = [] then Inr JNull
             else if length t > 64 \<or> list_ex is_control t
             then Inl (ContractError (field @ '' must be 1-64 printable characters''))
             else Inr (JStr t)
      | _ \<Rightarrow> Inl (ContractError (field @ '' must be text or null'')))"

definition optional_timestamp :: "json \<Rightarrow> string \<Rightarrow> json result" where
  "optional_timestamp v field =
     andthen (optional_text v field) (\<lambda>v.
     (case v of
        JStr s \<Rightarrow>
          (case parse_datetime (replace_char CHR ''Z'' ''+00:00'' s) of
             None \<Rightarrow> Inl (ContractError (field @ '' must be an ISO 8601 timestamp or null''))
           | Some (t, None) \<Rightarrow> Inl (ContractError (field @ '' must include a timezone''))
           | Some (t, Some off) \<Rightarrow> Inr v)
      | _ \<Rightarrow> Inr JNull))"

definition check_expires :: "json \<Rightarrow> unit result" where
  "check_expires v =
     (case v of
        JNull \<Rightarrow> Inr ()
      | JStr s \<Rightarrow>
          (case parse_date s of
             None \<Rightarrow> Inl (ContractError ''expires must be YYYY-MM-DD or null'')
           | Some k \<Rightarrow>
               if date_text k \<noteq> s then Inl (ContractError ''expires must be YYYY-MM-DD or null'')
               else Inr ())
      | _ \<Rightarrow> Inl (ContractError ''expires must be YYYY-MM-DD or null''))"

section \<open>Client metadata\<close>

definition migrate_schema1 :: "obj \<Rightarrow> obj" where
  "migrate_schema1 m =
     put_all m [(''management'', JStr ''managed''), (''owner'', JNull), (''device'', JNull),
                (''expires'', JNull)]"

definition py_or :: "json \<Rightarrow> json \<Rightarrow> json" where
  "py_or a b = (if truthy a then a else b)"

definition migrate_legacy :: "obj \<Rightarrow> obj" where
  "migrate_legacy m =
     put_all m [(''schema_version'', JInt 3), (''profile_revision'', JInt 1),
                (''profile_generated_at'', py_or (get m ''updated_at'') (get m ''created_at'')),
                (''profile_change_reason'', JStr ''legacy-import''),
                (''distribution_status'', JStr ''unknown''), (''distributed_at'', JNull)]"

text \<open>The part of \<open>normalize_client_metadata\<close> up to the schema 3 checks.\<close>

definition migrate_metadata :: "obj \<Rightarrow> obj result" where
  "migrate_metadata m =
     (let schema = get m ''schema_version'';
          m = (if py_eq_int schema 1 then migrate_schema1 m else m)
      in andthen (in_ints schema [1, 2]) (\<lambda>legacy.
         if legacy then Inr (migrate_legacy m)
         else if \<not> py_eq_int schema 3 then Inl (ContractError ''unsupported client metadata schema'')
         else Inr m))"

definition positive_revision :: "json \<Rightarrow> bool" where
  "positive_revision v \<longleftrightarrow> (case v of JInt n \<Rightarrow> 1 \<le> n | _ \<Rightarrow> False)"

definition check_metadata :: "obj \<Rightarrow> obj result" where
  "check_metadata m =
     andthen (in_strs (get m ''management'') [''managed'', ''external'']) (\<lambda>known.
     if \<not> known then Inl (ContractError ''client management must be managed or external'') else
     andthen (optional_text (get m ''owner'') ''owner'') (\<lambda>owner.
     let m = put m ''owner'' owner in
     andthen (optional_text (get m ''device'') ''device'') (\<lambda>device.
     let m = put m ''device'' device in
     andthen (check_expires (get m ''expires'')) (\<lambda>_.
     if \<not> positive_revision (get m ''profile_revision'')
     then Inl (ContractError ''profile_revision must be a positive integer'') else
     andthen (optional_timestamp (get m ''profile_generated_at'') ''profile_generated_at'') (\<lambda>generated.
     let m = put m ''profile_generated_at'' generated in
     if generated = JNull
     then Inl (ContractError ''profile_generated_at must be an ISO 8601 timestamp'') else
     andthen (optional_text (get m ''profile_change_reason'') ''profile_change_reason'') (\<lambda>reason.
     let m = put m ''profile_change_reason'' reason in
     if reason = JNull then Inl (ContractError ''profile_change_reason is required'') else
     let distribution = get m ''distribution_status'' in
     andthen (in_strs distribution [''unknown'', ''pending'', ''distributed'']) (\<lambda>known.
     if \<not> known
     then Inl (ContractError ''distribution_status must be unknown, pending, or distributed'') else
     andthen (optional_timestamp (get m ''distributed_at'') ''distributed_at'') (\<lambda>dist_at.
     let m = put m ''distributed_at'' dist_at in
     if distribution = JStr ''distributed'' \<and> dist_at = JNull
     then Inl (ContractError ''distributed_at is required when distribution_status is distributed'')
     else if distribution \<noteq> JStr ''distributed'' \<and> dist_at \<noteq> JNull
     then Inl (ContractError ''distributed_at must be null unless distribution_status is distributed'')
     else Inr m))))))))"

definition normalize_client_metadata :: "json \<Rightarrow> obj result" where
  "normalize_client_metadata v =
     (case v of
        JObj m \<Rightarrow> andthen (migrate_metadata m) check_metadata
      | _ \<Rightarrow> Inl (ContractError ''client metadata must be an object''))"

definition next_revision :: "json \<Rightarrow> json" where
  "next_revision v = (case v of JInt n \<Rightarrow> JInt (n + 1) | _ \<Rightarrow> v)"

definition mark_profile_regenerated :: "json \<Rightarrow> string \<Rightarrow> string \<Rightarrow> obj result" where
  "mark_profile_regenerated metadata reason timestamp =
     andthen (normalize_client_metadata metadata) (\<lambda>m.
     normalize_client_metadata (JObj (put_all m
       [(''schema_version'', JInt 3),
        (''profile_revision'', next_revision (get m ''profile_revision'')),
        (''profile_generated_at'', JStr timestamp), (''profile_change_reason'', JStr reason),
        (''distribution_status'', JStr ''pending''), (''distributed_at'', JNull),
        (''updated_at'', JStr timestamp)])))"

definition mark_profile_rotated :: "json \<Rightarrow> json \<Rightarrow> string \<Rightarrow> obj result" where
  "mark_profile_rotated previous replacement timestamp =
     andthen (normalize_client_metadata previous) (\<lambda>old.
     andthen (normalize_client_metadata replacement) (\<lambda>m.
     normalize_client_metadata (JObj (put_all m
       [(''owner'', get old ''owner''), (''device'', get old ''device''),
        (''expires'', get old ''expires''),
        (''profile_revision'', next_revision (get old ''profile_revision'')),
        (''profile_generated_at'', JStr timestamp), (''profile_change_reason'', JStr ''rotated''),
        (''distribution_status'', JStr ''pending''), (''distributed_at'', JNull),
        (''updated_at'', JStr timestamp)]))))"

section \<open>The normal form\<close>

text \<open>What a normalised text, timestamp or expiry field looks like.\<close>

definition text_field :: "json \<Rightarrow> bool" where
  "text_field v \<longleftrightarrow>
     (case v of
        JNull \<Rightarrow> True
      | JStr s \<Rightarrow> s \<noteq> [] \<and> strip s = s \<and> length s \<le> 64 \<and> \<not> list_ex is_control s
      | _ \<Rightarrow> False)"

definition aware_time :: "string \<Rightarrow> bool" where
  "aware_time s \<longleftrightarrow>
     (case parse_datetime (replace_char CHR ''Z'' ''+00:00'' s) of
        Some (t, Some off) \<Rightarrow> True | _ \<Rightarrow> False)"

definition time_field :: "json \<Rightarrow> bool" where
  "time_field v \<longleftrightarrow> text_field v \<and> (case v of JStr s \<Rightarrow> aware_time s | _ \<Rightarrow> True)"

definition expiry_field :: "json \<Rightarrow> bool" where
  "expiry_field v \<longleftrightarrow> check_expires v = Inr ()"

definition metadata_ok :: "obj \<Rightarrow> bool" where
  "metadata_ok m \<longleftrightarrow>
     py_eq_int (get m ''schema_version'') 3
     \<and> get m ''management'' \<in> {JStr ''managed'', JStr ''external''}
     \<and> text_field (get m ''owner'') \<and> text_field (get m ''device'')
     \<and> expiry_field (get m ''expires'')
     \<and> positive_revision (get m ''profile_revision'')
     \<and> time_field (get m ''profile_generated_at'') \<and> get m ''profile_generated_at'' \<noteq> JNull
     \<and> text_field (get m ''profile_change_reason'') \<and> get m ''profile_change_reason'' \<noteq> JNull
     \<and> get m ''distribution_status'' \<in> {JStr ''unknown'', JStr ''pending'', JStr ''distributed''}
     \<and> time_field (get m ''distributed_at'')
     \<and> (get m ''distributed_at'' \<noteq> JNull \<longleftrightarrow> get m ''distribution_status'' = JStr ''distributed'')"

lemma optional_text_Inr: "optional_text v f = Inr w \<Longrightarrow> text_field w"
  by (cases v) (auto simp: optional_text_def text_field_def Let_def split: if_splits)

lemma optional_text_id: "text_field w \<Longrightarrow> optional_text w f = Inr w"
  by (cases w) (auto simp: optional_text_def text_field_def Let_def)

lemma optional_timestamp_Inr: "optional_timestamp v f = Inr w \<Longrightarrow> time_field w"
proof -
  assume "optional_timestamp v f = Inr w"
  then obtain x where x: "optional_text v f = Inr x"
    and w: "(case x of JStr s \<Rightarrow>
          (case parse_datetime (replace_char CHR ''Z'' ''+00:00'' s) of
             None \<Rightarrow> Inl (ContractError (f @ '' must be an ISO 8601 timestamp or null''))
           | Some (t, None) \<Rightarrow> Inl (ContractError (f @ '' must include a timezone''))
           | Some (t, Some off) \<Rightarrow> Inr x)
      | _ \<Rightarrow> Inr JNull) = Inr w"
    by (auto simp: optional_timestamp_def result_simps)
  have "text_field JNull" by (simp add: text_field_def)
  then show "time_field w"
    using w optional_text_Inr [OF x]
    by (auto simp: time_field_def aware_time_def split: json.splits option.splits prod.splits)
qed

lemma optional_timestamp_id: "time_field w \<Longrightarrow> optional_timestamp w f = Inr w"
  by (cases w) (auto simp: optional_timestamp_def time_field_def aware_time_def optional_text_id
    text_field_def split: option.splits prod.splits)

lemmas metadata_fields =
  optional_text_Inr optional_timestamp_Inr

text \<open>The six checked fields in the order they are stored.\<close>

definition stored_fields :: "obj \<Rightarrow> json \<Rightarrow> json \<Rightarrow> json \<Rightarrow> json \<Rightarrow> json \<Rightarrow> obj" where
  "stored_fields m owner device generated reason dist_at =
     put (put (put (put (put m ''owner'' owner) ''device'' device) ''profile_generated_at'' generated)
       ''profile_change_reason'' reason) ''distributed_at'' dist_at"

lemma check_metadata_Inr:
  "check_metadata m = Inr r \<longleftrightarrow>
     get m ''management'' \<in> {JStr ''managed'', JStr ''external''}
     \<and> expiry_field (get m ''expires'') \<and> positive_revision (get m ''profile_revision'')
     \<and> get m ''distribution_status'' \<in> {JStr ''unknown'', JStr ''pending'', JStr ''distributed''}
     \<and> (\<exists>owner device generated reason dist_at.
          optional_text (get m ''owner'') ''owner'' = Inr owner
        \<and> optional_text (get m ''device'') ''device'' = Inr device
        \<and> optional_timestamp (get m ''profile_generated_at'') ''profile_generated_at'' = Inr generated
        \<and> generated \<noteq> JNull
        \<and> optional_text (get m ''profile_change_reason'') ''profile_change_reason'' = Inr reason
        \<and> reason \<noteq> JNull
        \<and> optional_timestamp (get m ''distributed_at'') ''distributed_at'' = Inr dist_at
        \<and> (dist_at \<noteq> JNull \<longleftrightarrow> get m ''distribution_status'' = JStr ''distributed'')
        \<and> r = stored_fields m owner device generated reason dist_at)"
proof -
  have u: "(u :: unit) = ()" for u by simp
  show ?thesis
    unfolding check_metadata_def Let_def stored_fields_def expiry_field_def
    by (simp add: result_simps if_Inl_iff cong: conj_cong) (auto split: if_splits)
qed

section \<open>Normalisation\<close>

lemma get_stored_fields [simp]:
  "get (stored_fields m owner device generated reason dist_at) k =
     (if k = ''distributed_at'' then dist_at else if k = ''profile_change_reason'' then reason
      else if k = ''profile_generated_at'' then generated else if k = ''device'' then device
      else if k = ''owner'' then owner else get m k)"
  by (simp add: stored_fields_def)

lemma stored_fields_same:
  "stored_fields (stored_fields m owner device generated reason dist_at) owner device generated
     reason dist_at = stored_fields m owner device generated reason dist_at"
  by (simp add: stored_fields_def put_same)

lemma migrate_metadata_schema:
  "migrate_metadata m = Inr r \<Longrightarrow> py_eq_int (get r ''schema_version'') 3"
  by (auto simp: migrate_metadata_def Let_def result_simps migrate_legacy_def migrate_schema1_def
      split: if_splits)

lemma migrate_metadata_id:
  assumes "py_eq_int (get m ''schema_version'') 3"
  shows "migrate_metadata m = Inr m"
proof -
  have "\<not> py_eq_int (get m ''schema_version'') 1" "\<not> py_eq_int (get m ''schema_version'') 2"
    using py_eq_int_unique [OF assms] by fastforce+
  then show ?thesis
    using assms by (simp add: migrate_metadata_def in_ints_def py_eq_int_hashable)
qed

lemma check_metadata_ok:
  assumes "check_metadata m = Inr r" and "py_eq_int (get m ''schema_version'') 3"
  shows "metadata_ok r \<and> check_metadata r = Inr r"
proof -
  obtain owner device generated reason dist_at where
    f: "optional_text (get m ''owner'') ''owner'' = Inr owner"
       "optional_text (get m ''device'') ''device'' = Inr device"
       "optional_timestamp (get m ''profile_generated_at'') ''profile_generated_at'' = Inr generated"
       "optional_text (get m ''profile_change_reason'') ''profile_change_reason'' = Inr reason"
       "optional_timestamp (get m ''distributed_at'') ''distributed_at'' = Inr dist_at"
    and n: "generated \<noteq> JNull" "reason \<noteq> JNull"
       "dist_at \<noteq> JNull \<longleftrightarrow> get m ''distribution_status'' = JStr ''distributed''"
    and c: "get m ''management'' \<in> {JStr ''managed'', JStr ''external''}"
       "expiry_field (get m ''expires'')" "positive_revision (get m ''profile_revision'')"
       "get m ''distribution_status'' \<in> {JStr ''unknown'', JStr ''pending'', JStr ''distributed''}"
    and r: "r = stored_fields m owner device generated reason dist_at"
    using assms(1) unfolding check_metadata_Inr by blast
  have t: "text_field owner" "text_field device" "time_field generated" "text_field reason"
      "time_field dist_at"
    using f by (auto dest: metadata_fields)
  have "metadata_ok r"
    using n c t assms(2) by (simp add: metadata_ok_def r)
  moreover have "check_metadata r = Inr r"
    unfolding check_metadata_Inr
    using n c t by (simp add: r optional_text_id optional_timestamp_id stored_fields_same)
  ultimately show ?thesis by simp
qed

lemma normalize_JObj:
  "normalize_client_metadata v = Inr r \<longleftrightarrow>
     (\<exists>m m'. v = JObj m \<and> migrate_metadata m = Inr m' \<and> check_metadata m' = Inr r)"
  by (cases v) (auto simp: normalize_client_metadata_def result_simps)

lemma normalize_ok:
  assumes "normalize_client_metadata v = Inr m"
  shows "metadata_ok m" and "normalize_client_metadata (JObj m) = Inr m"
proof -
  obtain m0 m1 where "migrate_metadata m0 = Inr m1" and c: "check_metadata m1 = Inr m"
    using assms unfolding normalize_JObj by blast
  then have s: "py_eq_int (get m1 ''schema_version'') 3" by (simp add: migrate_metadata_schema)
  show ok: "metadata_ok m" using check_metadata_ok [OF c s] by simp
  then have "migrate_metadata m = Inr m"
    by (intro migrate_metadata_id) (simp add: metadata_ok_def)
  then show "normalize_client_metadata (JObj m) = Inr m"
    using check_metadata_ok [OF c s] by (auto simp: normalize_JObj)
qed

text \<open>
  C40: whatever \<open>normalize_client_metadata\<close> accepts, of any historical schema, it returns in the
  strict schema 3 form: management, expiry, a positive revision, stripped bounded texts, aware
  timestamps, and a distribution time exactly when the profile is distributed. Normalising the
  result again changes nothing.
\<close>

theorem normalize_client_metadata_strict:
  assumes "normalize_client_metadata v = Inr m"
  shows "metadata_ok m \<and> normalize_client_metadata (JObj m) = Inr m"
  using assms by (simp add: normalize_ok)

definition legacy_client :: obj where
  "legacy_client =
     [(''schema_version'', JInt 1), (''name'', JStr ''phone''),
      (''created_at'', JStr ''2024-05-01T10:00:00Z'')]"

definition migrated_client :: obj where
  "migrated_client =
     [(''schema_version'', JInt 3), (''name'', JStr ''phone''),
      (''created_at'', JStr ''2024-05-01T10:00:00Z''), (''management'', JStr ''managed''),
      (''owner'', JNull), (''device'', JNull), (''expires'', JNull), (''profile_revision'', JInt 1),
      (''profile_generated_at'', JStr ''2024-05-01T10:00:00Z''),
      (''profile_change_reason'', JStr ''legacy-import''),
      (''distribution_status'', JStr ''unknown''), (''distributed_at'', JNull)]"

lemma normalize_legacy_client:
  "normalize_client_metadata (JObj legacy_client) = Inr migrated_client"
  by code_simp

theorem normalize_client_metadata_strict_witness:
  "metadata_ok migrated_client \<and> normalize_client_metadata (JObj migrated_client) = Inr migrated_client"
  by (rule normalize_client_metadata_strict [OF normalize_legacy_client])

section \<open>Profile revisions\<close>

lemma keep_field:
  assumes "normalize_client_metadata (JObj m) = Inr r" and "py_eq_int (get m ''schema_version'') 3"
    and "k \<notin> {''owner'', ''device'', ''profile_generated_at'', ''profile_change_reason'',
      ''distributed_at''}"
  shows "get r k = get m k"
proof -
  have "migrate_metadata m = Inr m" by (rule migrate_metadata_id [OF assms(2)])
  then have "check_metadata m = Inr r" using assms(1) by (simp add: normalize_JObj)
  then show ?thesis using assms(3) unfolding check_metadata_Inr by auto
qed

lemma keep_text:
  assumes "normalize_client_metadata (JObj m) = Inr r" and "py_eq_int (get m ''schema_version'') 3"
  shows "text_field (get m ''owner'') \<Longrightarrow> get r ''owner'' = get m ''owner''"
    and "text_field (get m ''device'') \<Longrightarrow> get r ''device'' = get m ''device''"
    and "get m ''distributed_at'' = JNull \<Longrightarrow> get r ''distributed_at'' = JNull"
proof -
  have "migrate_metadata m = Inr m" by (rule migrate_metadata_id [OF assms(2)])
  then have c: "check_metadata m = Inr r" using assms(1) by (simp add: normalize_JObj)
  show "text_field (get m ''owner'') \<Longrightarrow> get r ''owner'' = get m ''owner''"
    using c unfolding check_metadata_Inr by (auto simp: optional_text_id)
  show "text_field (get m ''device'') \<Longrightarrow> get r ''device'' = get m ''device''"
    using c unfolding check_metadata_Inr by (auto simp: optional_text_id)
  have "time_field JNull" by (simp add: time_field_def text_field_def)
  then show "get m ''distributed_at'' = JNull \<Longrightarrow> get r ''distributed_at'' = JNull"
    using c unfolding check_metadata_Inr by (auto simp: optional_timestamp_id)
qed

text \<open>
  \<open>mark_profile_regenerated\<close> raises the revision by exactly one and makes the profile
  pending with no distribution time; owner, device, expiry, management and every field outside
  the profile record (name, address, keys, ...) are those of the normalised metadata.
\<close>

theorem mark_profile_regenerated_revision:
  assumes "mark_profile_regenerated v reason now = Inr r" and "normalize_client_metadata v = Inr m"
  shows "metadata_ok r
    \<and> (\<exists>n. get m ''profile_revision'' = JInt n \<and> get r ''profile_revision'' = JInt (n + 1))
    \<and> get r ''distribution_status'' = JStr ''pending'' \<and> get r ''distributed_at'' = JNull
    \<and> (\<forall>k. k \<notin> {''schema_version'', ''profile_revision'', ''profile_generated_at'',
          ''profile_change_reason'', ''distribution_status'', ''distributed_at'', ''updated_at''}
        \<longrightarrow> get r k = get m k)"
proof -
  let ?m = "put_all m
       [(''schema_version'', JInt 3),
        (''profile_revision'', next_revision (get m ''profile_revision'')),
        (''profile_generated_at'', JStr now), (''profile_change_reason'', JStr reason),
        (''distribution_status'', JStr ''pending''), (''distributed_at'', JNull),
        (''updated_at'', JStr now)]"
  have r: "normalize_client_metadata (JObj ?m) = Inr r"
    using assms by (simp add: mark_profile_regenerated_def)
  have s: "py_eq_int (get ?m ''schema_version'') 3" by simp
  have ok: "metadata_ok m" "metadata_ok r"
    using normalize_ok [OF assms(2)] normalize_ok [OF r] by simp_all
  then obtain n where n: "get m ''profile_revision'' = JInt n"
    by (auto simp: metadata_ok_def positive_revision_def split: json.splits)
  have "get r k = get m k" if "k \<notin> {''schema_version'', ''profile_revision'',
      ''profile_generated_at'', ''profile_change_reason'', ''distribution_status'',
      ''distributed_at'', ''updated_at''}" for k
    using that keep_field [OF r s, of k] keep_text(1,2) [OF r s] ok(1)
    by (cases "k \<in> {''owner'', ''device''}") (auto simp: metadata_ok_def)
  moreover have "get r ''profile_revision'' = JInt (n + 1)"
    using keep_field [OF r s, of "''profile_revision''"] n by (simp add: next_revision_def)
  ultimately show ?thesis
    using ok(2) n keep_field [OF r s, of "''distribution_status''"] keep_text(3) [OF r s] by simp
qed

theorem mark_profile_regenerated_revision_witness:
  "\<exists>r. mark_profile_regenerated (JObj legacy_client) ''rotate'' ''2025-01-01T00:00:00Z'' = Inr r
     \<and> get r ''profile_revision'' = JInt 2 \<and> get r ''name'' = JStr ''phone''"
proof -
  obtain r where r:
    "mark_profile_regenerated (JObj legacy_client) ''rotate'' ''2025-01-01T00:00:00Z'' = Inr r"
    by (cases "mark_profile_regenerated (JObj legacy_client) ''rotate'' ''2025-01-01T00:00:00Z''")
      (code_simp, simp)
  have "get migrated_client ''profile_revision'' = JInt 1"
    "get migrated_client ''name'' = JStr ''phone''" by code_simp+
  then show ?thesis
    using r mark_profile_regenerated_revision [OF r normalize_legacy_client] by simp
qed

text \<open>
  \<open>mark_profile_rotated\<close> binds the replacement identity to the previous recipient: owner,
  device and expiry come from the previous client, the revision is the previous one plus one,
  the profile is pending, and every other field is the replacement's.
\<close>

theorem mark_profile_rotated_recipient:
  assumes "mark_profile_rotated p v now = Inr r" and "normalize_client_metadata p = Inr old"
    and "normalize_client_metadata v = Inr m"
  shows "metadata_ok r
    \<and> get r ''owner'' = get old ''owner'' \<and> get r ''device'' = get old ''device''
    \<and> get r ''expires'' = get old ''expires''
    \<and> (\<exists>n. get old ''profile_revision'' = JInt n \<and> get r ''profile_revision'' = JInt (n + 1))
    \<and> get r ''distribution_status'' = JStr ''pending'' \<and> get r ''distributed_at'' = JNull
    \<and> (\<forall>k. k \<notin> {''owner'', ''device'', ''expires'', ''profile_revision'',
          ''profile_generated_at'', ''profile_change_reason'', ''distribution_status'',
          ''distributed_at'', ''updated_at''} \<longrightarrow> get r k = get m k)"
proof -
  let ?m = "put_all m
       [(''owner'', get old ''owner''), (''device'', get old ''device''),
        (''expires'', get old ''expires''),
        (''profile_revision'', next_revision (get old ''profile_revision'')),
        (''profile_generated_at'', JStr now), (''profile_change_reason'', JStr ''rotated''),
        (''distribution_status'', JStr ''pending''), (''distributed_at'', JNull),
        (''updated_at'', JStr now)]"
  have r: "normalize_client_metadata (JObj ?m) = Inr r"
    using assms by (simp add: mark_profile_rotated_def)
  have ok: "metadata_ok old" "metadata_ok m" "metadata_ok r"
    using normalize_ok [OF assms(2)] normalize_ok [OF assms(3)] normalize_ok [OF r] by simp_all
  then have s: "py_eq_int (get ?m ''schema_version'') 3" by (simp add: metadata_ok_def)
  obtain n where n: "get old ''profile_revision'' = JInt n"
    using ok by (auto simp: metadata_ok_def positive_revision_def split: json.splits)
  have k: "get r k = get ?m k" if "k \<notin> {''owner'', ''device'', ''profile_generated_at'',
      ''profile_change_reason'', ''distributed_at''}" for k
    using that by (rule keep_field [OF r s])
  have t: "get r ''owner'' = get old ''owner''" "get r ''device'' = get old ''device''"
    "get r ''distributed_at'' = JNull"
    using keep_text [OF r s] ok(1) by (simp_all add: metadata_ok_def)
  show ?thesis
    using t ok(3) n k [of "''expires''"] k [of "''profile_revision''"]
      k [of "''distribution_status''"] by (simp add: next_revision_def k)
qed

definition spare_client :: obj where
  "spare_client = put migrated_client ''owner'' (JStr ''alice'')"

lemma normalize_spare_client: "normalize_client_metadata (JObj spare_client) = Inr spare_client"
  by code_simp

theorem mark_profile_rotated_recipient_witness:
  "\<exists>r. mark_profile_rotated (JObj spare_client) (JObj legacy_client) ''2025-01-01T00:00:00Z'' = Inr r
     \<and> get r ''owner'' = JStr ''alice''"
proof -
  obtain r where r: "mark_profile_rotated (JObj spare_client) (JObj legacy_client)
      ''2025-01-01T00:00:00Z'' = Inr r"
    by (cases "mark_profile_rotated (JObj spare_client) (JObj legacy_client)
      ''2025-01-01T00:00:00Z''") (code_simp, simp)
  have "get spare_client ''owner'' = JStr ''alice''" by code_simp
  then show ?thesis
    using r mark_profile_rotated_recipient [OF r normalize_spare_client normalize_legacy_client]
    by simp
qed

section \<open>Health\<close>

lemma get_normalized_check:
  "get (normalized_check (level, name, detail)) ''level'' = JStr (lower level)"
  "get (normalized_check (level, name, detail)) ''name'' = JStr name"
  "get (normalized_check (level, name, detail)) ''detail'' = JStr detail"
  by (simp_all add: normalized_check_def get_def)

lemma checks_at_level_map:
  "checks_at_level l (map normalized_check cs) =
     map (\<lambda>(level, name, detail). JObj [(''name'', JStr name), (''detail'', JStr detail)])
       (filter (\<lambda>(level, name, detail). lower level = l) cs)"
  by (induction cs) (auto simp: checks_at_level_def get_normalized_check)

text \<open>
  The health envelope is ok exactly when no check failed, its error and warning lists hold
  the failed and the warning checks (levels compared without case), and the summary counts
  them.
\<close>

theorem health_envelope_ok:
  "get (health_envelope cs) ''ok'' = JBool (\<forall>(level, name, detail)\<in>set cs. lower level \<noteq> ''fail'')
   \<and> get (health_envelope cs) ''errors'' =
       JList (map (\<lambda>(level, name, detail). JObj [(''name'', JStr name), (''detail'', JStr detail)])
         (filter (\<lambda>(level, name, detail). lower level = ''fail'') cs))
   \<and> (\<exists>d. get (health_envelope cs) ''data'' = JObj d \<and> get d ''summary'' =
       JObj [(''failures'', JInt (int (length (filter (\<lambda>(level, name, detail). lower level = ''fail'') cs)))),
             (''warnings'', JInt (int (length (filter (\<lambda>(level, name, detail). lower level = ''warn'') cs))))])"
proof -
  have "filter (\<lambda>(level, name, detail). lower level = ''fail'') cs = [] \<longleftrightarrow>
      (\<forall>(level, name, detail)\<in>set cs. lower level \<noteq> ''fail'')"
    by (auto simp: filter_empty_conv)
  then show ?thesis
    by (simp add: health_envelope_def json_envelope_def get_def checks_at_level_map Let_def)
qed

theorem health_envelope_ok_witness:
  "get (health_envelope [(''WARN'', ''clock'', ''skew''), (''Fail'', ''nft'', ''drift'')]) ''ok''
     = JBool False"
proof -
  have "lower ''WARN'' = ''warn''" "lower ''Fail'' = ''fail''" by code_simp+
  then show ?thesis
    using health_envelope_ok [of "[(''WARN'', ''clock'', ''skew''), (''Fail'', ''nft'', ''drift'')]"]
    by simp
qed

end
