(* ===== verification/PyNet.thy ===== *)
theory PyNet
  imports Prelude
begin

text \<open>
  What the sources use of Python's \<open>ipaddress\<close>: recognising IPv4 and IPv6 address texts,
  IPv4 networks (prefix length, netmask or hostmask suffix, strict) and interfaces, their
  canonical text, and the usable hosts of a network. An IPv4 address is an integer below
  \<open>2 ^ 32\<close>; of an IPv6 text only whether it is accepted matters to the code, which rejects it.
\<close>

section \<open>IPv4 addresses\<close>

text \<open>
  \<open>_parse_octet\<close>: one to three ASCII digits, no leading zero, at most 255.
\<close>

definition octet :: "string \<Rightarrow> int option" where
  "octet s =
     (if s \<noteq> [] \<and> list_all is_digit s \<and> length s \<le> 3 \<and> \<not> (length s > 1 \<and> starts_with ''0'' s)
         \<and> undec s \<le> 255
      then Some (int (undec s)) else None)"

definition ipv4_of :: "int \<times> int \<times> int \<times> int \<Rightarrow> int" where
  "ipv4_of q = (case q of (a, b, c, d) \<Rightarrow> ((a * 256 + b) * 256 + c) * 256 + d)"

definition parse_ipv4 :: "string \<Rightarrow> int option" where
  "parse_ipv4 s =
     (case split_on CHR ''.'' s of
        [a, b, c, d] \<Rightarrow>
          (case (octet a, octet b, octet c, octet d) of
             (Some a, Some b, Some c, Some d) \<Rightarrow> Some (ipv4_of (a, b, c, d))
           | _ \<Rightarrow> None)
      | _ \<Rightarrow> None)"

definition ipv4_text :: "int \<Rightarrow> string" where
  "ipv4_text n =
     str_int (n div 16777216) @ ''.'' @ str_int (n div 65536 mod 256) @ ''.''
     @ str_int (n div 256 mod 256) @ ''.'' @ str_int (n mod 256)"

definition valid_ipv4 :: "int \<Rightarrow> bool" where
  "valid_ipv4 n \<longleftrightarrow> 0 \<le> n \<and> n < 4294967296"

lemma octet_str_int:
  assumes "0 \<le> n" "n \<le> 255"
  shows "octet (str_int n) = Some n"
proof -
  have c: "canonical_digits (str_int n)" using assms by (simp add: str_int_def canonical_dec_nat)
  have u: "undec (str_int n) = nat n" using assms by (simp add: str_int_def)
  have "length (dec_nat m) \<le> 3" if "m < 1000" for m
    using that by (simp add: dec_nat.simps [of m] dec_nat.simps [of "m div 10"] dec_nat.simps [of "m div 10 div 10"])
  then have "length (str_int n) \<le> 3" using assms by (simp add: str_int_def)
  moreover have "\<not> (length (str_int n) > 1 \<and> starts_with ''0'' (str_int n))"
    using c by (cases "str_int n") (auto simp: canonical_digits_def)
  ultimately show ?thesis
    using c u assms by (simp add: octet_def canonical_digits_def)
qed

lemma octet_range: "octet s = Some n \<Longrightarrow> 0 \<le> n \<and> n \<le> 255 \<and> str_int n = s"
proof -
  assume o: "octet s = Some n"
  then have "canonical_digits s" and n: "n = int (undec s)" "undec s \<le> 255"
    by (cases s; auto simp: octet_def canonical_digits_def split: if_splits)+
  then show ?thesis using dec_nat_undec [of s] by (simp add: str_int_def)
qed

lemma str_int_no_dot: "0 \<le> n \<Longrightarrow> CHR ''.'' \<notin> set (str_int n)"
  by (rule str_int_no) simp_all

lemma split_quad:
  assumes "CHR ''.'' \<notin> set a" "CHR ''.'' \<notin> set b" "CHR ''.'' \<notin> set c" "CHR ''.'' \<notin> set d"
  shows "split_on CHR ''.'' (a @ ''.'' @ b @ ''.'' @ c @ ''.'' @ d) = [a, b, c, d]"
  using assms by (simp add: split_on_append_sep split_on_no_sep)

lemma ipv4_of_parts: "ipv4_of (n div 16777216, n div 65536 mod 256, n div 256 mod 256, n mod 256) = n"
proof -
  have d: "n div 16777216 = n div 65536 div 256" "n div 65536 = n div 256 div 256"
    using zdiv_zmult2_eq [of 256 n 65536] zdiv_zmult2_eq [of 256 n 256] by (simp_all add: mult.commute)
  have "n div 65536 div 256 * 256 + n div 65536 mod 256 = n div 65536"
    "n div 256 div 256 * 256 + n div 256 mod 256 = n div 256"
    "n div 256 * 256 + n mod 256 = n"
    by (rule div_mult_mod_eq)+
  then show ?thesis
    by (simp only: ipv4_of_def prod.case d)
qed

lemma top_octet:
  assumes "valid_ipv4 n"
  shows "0 \<le> n div 16777216 \<and> n div 16777216 \<le> 255"
proof
  show "0 \<le> n div 16777216"
    using assms pos_imp_zdiv_nonneg_iff [of 16777216 n] by (simp only: valid_ipv4_def zero_less_numeral)
  have "n div 16777216 \<le> 4294967295 div 16777216"
    by (rule zdiv_mono1) (use assms in \<open>simp_all add: valid_ipv4_def\<close>)
  then show "n div 16777216 \<le> 255" by simp
qed

lemma parse_ipv4_quad:
  assumes "0 \<le> a" "a \<le> 255" "0 \<le> b" "b \<le> 255" "0 \<le> c" "c \<le> 255" "0 \<le> d" "d \<le> 255"
  shows "parse_ipv4 (str_int a @ ''.'' @ str_int b @ ''.'' @ str_int c @ ''.'' @ str_int d)
    = Some (ipv4_of (a, b, c, d))"
proof -
  have "split_on CHR ''.'' (str_int a @ ''.'' @ str_int b @ ''.'' @ str_int c @ ''.'' @ str_int d)
      = [str_int a, str_int b, str_int c, str_int d]"
    by (rule split_quad) (use assms in \<open>simp_all add: str_int_no_dot\<close>)
  then show ?thesis
    using assms by (simp add: parse_ipv4_def octet_str_int)
qed

lemma parse_ipv4_text:
  assumes "valid_ipv4 n"
  shows "parse_ipv4 (ipv4_text n) = Some n"
proof -
  have m: "0 \<le> k mod 256" "k mod 256 \<le> 255" for k :: int by simp_all
  show ?thesis
    unfolding ipv4_text_def
    by (subst parse_ipv4_quad)
      (simp_all only: conjunct1 [OF top_octet [OF assms]] conjunct2 [OF top_octet [OF assms]] m ipv4_of_parts)
qed

lemma ipv4_quad_digits:
  assumes "0 \<le> a" "a \<le> 255" "0 \<le> b" "b \<le> 255" "0 \<le> c" "c \<le> 255" "0 \<le> d" "d \<le> 255"
  shows "ipv4_of (a, b, c, d) div 16777216 = a" "ipv4_of (a, b, c, d) div 65536 mod 256 = b"
    "ipv4_of (a, b, c, d) div 256 mod 256 = c" "ipv4_of (a, b, c, d) mod 256 = d"
proof -
  let ?n = "ipv4_of (a, b, c, d)"
  have 1: "?n div 256 = (a * 256 + b) * 256 + c" using assms by (simp add: ipv4_of_def)
  have 2: "?n div 65536 = a * 256 + b"
    using zdiv_zmult2_eq [of 256 ?n 256] 1 assms by simp
  have 3: "?n div 16777216 = a"
    using zdiv_zmult2_eq [of 256 ?n 65536] 2 assms by (simp add: mult.commute)
  show "?n div 16777216 = a" by (rule 3)
  show "?n div 65536 mod 256 = b" using 2 assms by simp
  have "(q * 256 + c) mod 256 = c" for q using assms by simp
  then show "?n div 256 mod 256 = c" unfolding 1 .
  have "(q * 256 + d) mod 256 = d" for q using assms by simp
  then show "?n mod 256 = d" unfolding ipv4_of_def prod.case .
qed

lemma parse_ipv4_canonical:
  assumes "parse_ipv4 s = Some n"
  shows "ipv4_text n = s \<and> valid_ipv4 n"
proof -
  from assms obtain a b c d x y z w where sp: "split_on CHR ''.'' s = [a, b, c, d]"
    and o: "octet a = Some x" "octet b = Some y" "octet c = Some z" "octet d = Some w"
    and n: "n = ipv4_of (x, y, z, w)"
    by (auto simp: parse_ipv4_def split: list.splits option.splits)
  note r = octet_range [OF o(1)] octet_range [OF o(2)] octet_range [OF o(3)] octet_range [OF o(4)]
  then have b: "0 \<le> x" "x \<le> 255" "0 \<le> y" "y \<le> 255" "0 \<le> z" "z \<le> 255" "0 \<le> w" "w \<le> 255" by auto
  have s: "s = a @ ''.'' @ b @ ''.'' @ c @ ''.'' @ d"
    using join_split_on [of "CHR ''.''" s] sp by simp
  have "ipv4_text n = s"
    unfolding s n ipv4_text_def ipv4_quad_digits [OF b] using r by simp
  moreover have "valid_ipv4 n" using b by (simp add: n valid_ipv4_def ipv4_of_def)
  ultimately show ?thesis by simp
qed

section \<open>IPv6 addresses\<close>

definition hex_val :: "char \<Rightarrow> int" where
  "hex_val c =
     (let n = int (ord_char c) in if is_digit c then n - 48 else if n \<ge> 97 then n - 87 else n - 55)"

definition hex_int :: "string \<Rightarrow> int" where
  "hex_int s = foldl (\<lambda>a c. a * 16 + hex_val c) 0 s"

definition hextet :: "string \<Rightarrow> int option" where
  "hextet s = (if s \<noteq> [] \<and> list_all is_hex s \<and> length s \<le> 4 then Some (hex_int s) else None)"

fun hextets :: "string list \<Rightarrow> int list option" where
  "hextets [] = Some []"
| "hextets (p # ps) =
     (case (hextet p, hextets ps) of (Some x, Some xs) \<Rightarrow> Some (x # xs) | _ \<Rightarrow> None)"

definition join_hextets :: "int list \<Rightarrow> int" where
  "join_hextets xs = foldl (\<lambda>a x. a * 65536 + x) 0 xs"

text \<open>
  \<open>_ip_int_from_string\<close>: at least three parts; a dotted last part counts as two; one empty
  inner part (\<open>::\<close>) stands for the missing hextets; an empty first or last part must be next
  to it.
\<close>

definition ipv6_parts :: "string list \<Rightarrow> int option" where
  "ipv6_parts parts =
     (let inner = butlast (tl parts); gaps = length (filter (\<lambda>p. p = []) inner)
      in if length parts > 9 \<or> gaps > 1 then None
         else if gaps = 1 then
           (let i = Suc (length (takeWhile (\<lambda>p. p \<noteq> []) inner));
                hi = take i parts; lo = drop (Suc i) parts;
                hi' = (if hd parts = [] then tl hi else hi);
                lo' = (if last parts = [] then butlast lo else lo)
            in if hd parts = [] \<and> hi' \<noteq> [] \<or> last parts = [] \<and> lo' \<noteq> []
                  \<or> length hi' + length lo' > 7
               then None
               else (case (hextets hi', hextets lo') of
                       (Some xs, Some ys) \<Rightarrow>
                         Some (join_hextets (xs @ replicate (8 - (length xs + length ys)) 0 @ ys))
                     | _ \<Rightarrow> None))
         else if length parts \<noteq> 8 then None
         else map_option join_hextets (hextets parts))"

definition hex_digit_char :: "int \<Rightarrow> char" where
  "hex_digit_char n = char_of (nat (if n < 10 then n + 48 else n + 87))"

definition hex4 :: "int \<Rightarrow> string" where
  "hex4 n = map hex_digit_char [n div 4096, n div 256 mod 16, n div 16 mod 16, n mod 16]"

definition parse_ipv6 :: "string \<Rightarrow> int option" where
  "parse_ipv6 s =
     (case partition_on CHR ''%'' s of (addr, scoped, scope) \<Rightarrow>
        if scoped \<and> (scope = [] \<or> CHR ''%'' \<in> set scope) \<or> CHR ''/'' \<in> set s then None
        else let parts = split_on CHR '':'' addr
             in if length parts < 3 then None
                else if CHR ''.'' \<in> set (last parts)
                then (case parse_ipv4 (last parts) of
                        None \<Rightarrow> None
                      | Some n \<Rightarrow> ipv6_parts (butlast parts @ [hex4 (n div 65536), hex4 (n mod 65536)]))
                else ipv6_parts parts)"

text \<open>\<open>ip_address(text)\<close>; \<open>None\<close> is the \<open>ValueError\<close>.\<close>

datatype ip = V4 int | V6 int

definition ip_address :: "string \<Rightarrow> ip option" where
  "ip_address s =
     (case parse_ipv4 s of
        Some n \<Rightarrow> Some (V4 n)
      | None \<Rightarrow> map_option V6 (parse_ipv6 s))"

lemma ip_address_V4: "ip_address s = Some (V4 n) \<longleftrightarrow> parse_ipv4 s = Some n"
  by (auto simp: ip_address_def split: option.splits)

section \<open>Networks and interfaces\<close>

type_synonym ipnet = "int \<times> nat"

definition net_size :: "nat \<Rightarrow> int" where
  "net_size p = 2 ^ (32 - p)"

definition net_base :: "int \<Rightarrow> nat \<Rightarrow> int" where
  "net_base a p = a - a mod net_size p"

text \<open>A prefix length, a netmask or a hostmask, as \<open>_make_netmask\<close> reads it.\<close>

definition mask_prefix :: "int \<Rightarrow> nat option" where
  "mask_prefix m = find (\<lambda>p. m = 4294967296 - net_size p) [0..<33]"

definition parse_prefix4 :: "string \<Rightarrow> nat option" where
  "parse_prefix4 s =
     (if s \<noteq> [] \<and> list_all is_digit s \<and> undec s \<le> 32 then Some (undec s)
      else case parse_ipv4 s of
        None \<Rightarrow> None
      | Some m \<Rightarrow>
          (case mask_prefix m of Some p \<Rightarrow> Some p | None \<Rightarrow> mask_prefix (4294967295 - m)))"

definition parse_prefix6 :: "string \<Rightarrow> nat option" where
  "parse_prefix6 s = (if s \<noteq> [] \<and> list_all is_digit s \<and> undec s \<le> 128 then Some (undec s) else None)"

definition split_prefix :: "string \<Rightarrow> (string \<times> string option) option" where
  "split_prefix s =
     (case split_on CHR ''/'' s of
        [a] \<Rightarrow> Some (a, None)
      | [a, m] \<Rightarrow> Some (a, Some m)
      | _ \<Rightarrow> None)"

definition parse_interface4 :: "string \<Rightarrow> ipnet option" where
  "parse_interface4 s =
     (case split_prefix s of
        None \<Rightarrow> None
      | Some (a, m) \<Rightarrow>
          (case (parse_ipv4 a, case m of None \<Rightarrow> Some 32 | Some m \<Rightarrow> parse_prefix4 m) of
             (Some n, Some p) \<Rightarrow> Some (n, p)
           | _ \<Rightarrow> None))"

definition parse_interface6 :: "string \<Rightarrow> ipnet option" where
  "parse_interface6 s =
     (case split_prefix s of
        None \<Rightarrow> None
      | Some (a, m) \<Rightarrow>
          (case (parse_ipv6 a, case m of None \<Rightarrow> Some 128 | Some m \<Rightarrow> parse_prefix6 m) of
             (Some n, Some p) \<Rightarrow> Some (n, p)
           | _ \<Rightarrow> None))"

datatype iface = I4 ipnet | I6 ipnet

text \<open>\<open>ip_interface(text)\<close> and \<open>ip_network(text, strict=True)\<close>.\<close>

definition ip_interface :: "string \<Rightarrow> iface option" where
  "ip_interface s =
     (case parse_interface4 s of
        Some i \<Rightarrow> Some (I4 i)
      | None \<Rightarrow> map_option I6 (parse_interface6 s))"

definition ip_network :: "string \<Rightarrow> iface option" where
  "ip_network s =
     (case parse_interface4 s of
        Some (a, p) \<Rightarrow> if a mod net_size p = 0 then Some (I4 (a, p)) else None
      | None \<Rightarrow>
          (case parse_interface6 s of
             Some (a, p) \<Rightarrow> if a mod 2 ^ (128 - p) = 0 then Some (I6 (a, p)) else None
           | None \<Rightarrow> None))"

definition net_text :: "ipnet \<Rightarrow> string" where
  "net_text i = ipv4_text (fst i) @ ''/'' @ dec_nat (snd i)"

text \<open>The network of an interface, membership, and \<open>hosts()\<close> (with its /31 and /32 cases).\<close>

definition iface_net :: "ipnet \<Rightarrow> ipnet" where
  "iface_net i = (net_base (fst i) (snd i), snd i)"

definition in_net :: "int \<Rightarrow> ipnet \<Rightarrow> bool" where
  "in_net a n \<longleftrightarrow> net_base a (snd n) = fst n"

definition first_host :: "ipnet \<Rightarrow> int" where
  "first_host n = (if snd n \<ge> 31 then fst n else fst n + 1)"

definition last_host :: "ipnet \<Rightarrow> int" where
  "last_host n = (if snd n \<ge> 31 then fst n + net_size (snd n) - 1 else fst n + net_size (snd n) - 2)"

definition valid_net :: "ipnet \<Rightarrow> bool" where
  "valid_net n \<longleftrightarrow> valid_ipv4 (fst n) \<and> snd n \<le> 32"

lemma net_size_pos [simp]: "0 < net_size p"
  by (simp add: net_size_def)

lemma undec_prefix: "n \<le> 32 \<Longrightarrow> parse_prefix4 (dec_nat n) = Some n"
  by (simp add: parse_prefix4_def list_all_iff dec_nat_digits)

lemma ipv4_text_chars:
  assumes "valid_ipv4 n" "\<not> is_digit c" "c \<noteq> CHR ''.''"
  shows "c \<notin> set (ipv4_text n)"
proof -
  have "0 \<le> n div 16777216" using top_octet [OF assms(1)] by blast
  moreover have "0 \<le> k mod 256" for k :: int by simp
  ultimately show ?thesis
    using assms(2,3) unfolding ipv4_text_def by (simp add: str_int_no)
qed

lemma slash_not_in_ipv4_text: "valid_ipv4 n \<Longrightarrow> CHR ''/'' \<notin> set (ipv4_text n)"
  by (rule ipv4_text_chars) simp_all

lemma parse_interface4_text:
  assumes "valid_net n"
  shows "parse_interface4 (net_text n) = Some n"
proof -
  have "split_on CHR ''/'' (net_text n) = [ipv4_text (fst n), dec_nat (snd n)]"
    using assms slash_not_in_ipv4_text [of "fst n"]
    by (simp add: net_text_def valid_net_def split_on_append_sep split_on_no_sep dec_nat_no)
  then show ?thesis
    using assms
    by (simp add: parse_interface4_def split_prefix_def parse_ipv4_text undec_prefix valid_net_def)
qed

lemma ip_interface_text: "valid_net n \<Longrightarrow> ip_interface (net_text n) = Some (I4 n)"
  by (simp add: ip_interface_def parse_interface4_text)

lemma find_set: "find P xs = Some x \<Longrightarrow> x \<in> set xs"
  by (auto simp: find_Some_iff)

lemma mask_prefix_range: "mask_prefix m = Some p \<Longrightarrow> p \<le> 32"
  unfolding mask_prefix_def by (drule find_set) (simp only: set_upt atLeastLessThan_iff, simp)

lemma parse_prefix4_range: "parse_prefix4 s = Some p \<Longrightarrow> p \<le> 32"
  by (auto simp: parse_prefix4_def split: if_splits option.splits dest: mask_prefix_range)

lemma parse_interface4_valid: "parse_interface4 s = Some n \<Longrightarrow> valid_net n"
  by (auto simp: parse_interface4_def valid_net_def split: option.splits
      dest!: parse_ipv4_canonical parse_prefix4_range)

lemma ip_interface_I4: "ip_interface s = Some (I4 n) \<longleftrightarrow> parse_interface4 s = Some n"
  by (auto simp: ip_interface_def split: option.splits)

lemma in_net_iff: "in_net a n \<longleftrightarrow> a - a mod net_size (snd n) = fst n"
  by (simp add: in_net_def net_base_def)

lemma in_net_range: "in_net a n \<Longrightarrow> fst n \<le> a \<and> a < fst n + net_size (snd n)"
  using pos_mod_sign [OF net_size_pos, of a "snd n"] pos_mod_bound [OF net_size_pos, of a "snd n"]
  unfolding in_net_iff by linarith

lemma range_in_net:
  assumes "fst n mod net_size (snd n) = 0" "fst n \<le> a" "a < fst n + net_size (snd n)"
  shows "in_net a n"
proof -
  obtain q where q: "fst n = net_size (snd n) * q"
    using assms(1) by (auto simp: mod_eq_0_iff_dvd)
  define r where "r = a - fst n"
  have "a = r + net_size (snd n) * q" and "0 \<le> r" "r < net_size (snd n)"
    using assms q by (auto simp: r_def)
  then have "a mod net_size (snd n) = r" by simp
  then show ?thesis by (simp add: in_net_iff r_def)
qed

section \<open>IPv6 text\<close>

text \<open>
  \<open>str\<close> of an IPv6 address: lowercase hextets without leading zeros, the first longest run of
  at least two zero hextets compressed, and the scope of the text it was read from.
\<close>

definition short_hextet :: "int \<Rightarrow> string" where
  "short_hextet n = (case dropWhile (\<lambda>c. c = CHR ''0'') (hex4 n) of [] \<Rightarrow> ''0'' | h \<Rightarrow> h)"

definition zero_run :: "string list \<Rightarrow> nat \<times> nat" where
  "zero_run hs =
     foldl (\<lambda>(start, len) i.
        let k = length (takeWhile (\<lambda>h. h = ''0'') (drop i hs))
        in if k > len then (i, k) else (start, len)) (0, 0) [0..<length hs]"

definition ipv6_text :: "int \<Rightarrow> string" where
  "ipv6_text n =
     (let hs = map (\<lambda>i. short_hextet (n div 65536 ^ (7 - i) mod 65536)) [0..<8]
      in case zero_run hs of (start, len) \<Rightarrow>
           join '':''
             (if len > 1
              then (if start = 0 then [[]] else []) @ take start hs @ [[]]
                   @ (if start + len = 8 then [[]] else []) @ drop (start + len) hs
              else hs))"

text \<open>\<open>str(ip_interface(text))\<close>\<close>

definition interface_text :: "string \<Rightarrow> iface \<Rightarrow> string" where
  "interface_text s i =
     (case i of
        I4 n \<Rightarrow> net_text n
      | I6 n \<Rightarrow>
          (case partition_on CHR ''%'' (hd (split_on CHR ''/'' s)) of (a, scoped, scope) \<Rightarrow>
             ipv6_text (fst n) @ (if scoped then ''%'' @ scope else []) @ ''/'' @ dec_nat (snd n)))"

end
