(* ===== verification/Base64.thy ===== *)
theory Base64
  imports Prelude
begin

text \<open>
  \<open>base64.b64encode\<close> and \<open>base64.b64decode(..., validate=True)\<close>. Bytes are the characters of
  a string. In strict mode the data characters come first, then only padding, and the padding
  must complete the last group of four; unused low bits of the last data character are ignored.
\<close>

definition is_b64 :: "char \<Rightarrow> bool" where
  "is_b64 c \<longleftrightarrow> is_alnum c \<or> c = CHR ''+'' \<or> c = CHR ''/''"

definition b64_val :: "char \<Rightarrow> nat" where
  "b64_val c =
     (if is_upper c then ord_char c - 65
      else if is_lower c then ord_char c - 71
      else if is_digit c then ord_char c + 4
      else if c = CHR ''+'' then 62 else 63)"

definition b64_char :: "nat \<Rightarrow> char" where
  "b64_char n =
     char_of (if n < 26 then n + 65 else if n < 52 then n + 71 else if n < 62 then n - 4
              else if n = 62 then 43 else (47 :: nat))"

fun b64_bytes :: "nat list \<Rightarrow> nat list" where
  "b64_bytes (a # b # c # d # r) =
     (a * 4 + b div 16) # (b mod 16 * 16 + c div 4) # (c mod 4 * 64 + d) # b64_bytes r"
| "b64_bytes [a, b, c] = [a * 4 + b div 16, b mod 16 * 16 + c div 4]"
| "b64_bytes [a, b] = [a * 4 + b div 16]"
| "b64_bytes _ = []"

definition b64_decode :: "string \<Rightarrow> string option" where
  "b64_decode s =
     (let data = takeWhile (\<lambda>c. c \<noteq> CHR ''='') s; pad = dropWhile (\<lambda>c. c \<noteq> CHR ''='') s;
          q = length data mod 4
      in if list_all is_b64 data \<and> list_all (\<lambda>c. c = CHR ''='') pad
            \<and> (q = 0 \<and> (data \<noteq> [] \<or> pad = []) \<or> q = 2 \<and> length pad = 2 \<or> q = 3 \<and> length pad = 1)
         then Some (map char_of (b64_bytes (map b64_val data)))
         else None)"

fun b64_sextets :: "nat list \<Rightarrow> nat list" where
  "b64_sextets (x # y # z # r) =
     (x div 4) # (x mod 4 * 16 + y div 16) # (y mod 16 * 4 + z div 64) # (z mod 64) # b64_sextets r"
| "b64_sextets [x, y] = [x div 4, x mod 4 * 16 + y div 16, y mod 16 * 4]"
| "b64_sextets [x] = [x div 4, x mod 4 * 16]"
| "b64_sextets [] = []"

definition b64_encode :: "string \<Rightarrow> string" where
  "b64_encode bs =
     map b64_char (b64_sextets (map ord_char bs))
     @ (if length bs mod 3 = 1 then ''=='' else if length bs mod 3 = 2 then ''='' else [])"

lemma length_b64_bytes: "length (b64_bytes vs) = length vs * 3 div 4"
  by (induction vs rule: b64_bytes.induct) auto

lemma b64_decode_length:
  assumes "b64_decode s = Some bs"
  shows "length bs = length (takeWhile (\<lambda>c. c \<noteq> CHR ''='') s) * 3 div 4"
proof -
  from assms have "bs = map char_of (b64_bytes (map b64_val (takeWhile (\<lambda>c. c \<noteq> CHR ''='') s)))"
    unfolding b64_decode_def Let_def if_Some_iff by blast
  then show ?thesis by (simp only: length_map length_b64_bytes)
qed

text \<open>A text decodes to 32 bytes exactly when it is 43 alphabet characters and one \<open>=\<close>.\<close>

definition key_text_ok :: "string \<Rightarrow> bool" where
  "key_text_ok s \<longleftrightarrow> length s = 44 \<and> list_all is_b64 (take 43 s) \<and> last s = CHR ''=''"

lemma not_b64_eq: "\<not> is_b64 CHR ''=''"
  by (simp add: is_b64_def char_class_defs)

lemma b64_32_forward:
  assumes "b64_decode s = Some bs" and "length bs = 32"
  shows "key_text_ok s"
proof -
  define data pad where "data = takeWhile (\<lambda>c. c \<noteq> CHR ''='') s" and "pad = dropWhile (\<lambda>c. c \<noteq> CHR ''='') s"
  have s: "s = data @ pad" by (simp add: data_def pad_def)
  have len: "length data * 3 div 4 = 32"
    using b64_decode_length [OF assms(1)] assms(2) by (simp add: data_def)
  then have "length data = 43" by presburger
  moreover have "list_all is_b64 data" "list_all (\<lambda>c. c = CHR ''='') pad"
    "length data mod 4 = 0 \<or> length data mod 4 = 2 \<or> length data mod 4 = 3 \<and> length pad = 1"
    using assms(1) by (auto simp: b64_decode_def Let_def data_def [symmetric] pad_def [symmetric] split: if_splits)
  moreover from this obtain c where "pad = [c]" "c = CHR ''=''"
    using \<open>length data = 43\<close> by (cases pad) auto
  ultimately show ?thesis using s by (simp add: key_text_ok_def)
qed

lemma b64_32_backward:
  assumes "key_text_ok s"
  shows "\<exists>bs. b64_decode s = Some bs \<and> length bs = 32"
proof -
  from assms have "length (drop 43 s) = 1" by (simp add: key_text_ok_def)
  then obtain c where c: "drop 43 s = [c]" by (cases "drop 43 s") auto
  then have "s = take 43 s @ [c]" by (metis append_take_drop_id)
  with assms have s: "s = take 43 s @ ''=''" by (metis key_text_ok_def last_snoc)
  have "CHR ''='' \<notin> set (take 43 s)"
    using assms not_b64_eq by (auto simp: key_text_ok_def list_all_iff)
  then have d: "takeWhile (\<lambda>c. c \<noteq> CHR ''='') s = take 43 s" "dropWhile (\<lambda>c. c \<noteq> CHR ''='') s = ''=''"
    using takeWhile_neq_append [of "CHR ''=''" "take 43 s" "''=''"]
      dropWhile_neq_append [of "CHR ''=''" "take 43 s" "''=''"] s by simp_all
  have "length (take 43 s) = 43" using assms by (simp add: key_text_ok_def)
  then show ?thesis
    using assms unfolding b64_decode_def d Let_def
    by (simp add: key_text_ok_def length_b64_bytes)
qed

lemma b64_32_iff: "(\<exists>bs. b64_decode s = Some bs \<and> length bs = 32) \<longleftrightarrow> key_text_ok s"
  using b64_32_forward b64_32_backward by blast

section \<open>Round trip\<close>

lemma ord_char_of: "n < 256 \<Longrightarrow> ord_char (char_of n) = n"
  by (simp add: ord_char_def)

lemma plus_slash: "CHR ''+'' = char_of (43 :: nat)" "CHR ''/'' = char_of (47 :: nat)"
  by code_simp+

lemma char_of_inj: "m < 256 \<Longrightarrow> n < 256 \<Longrightarrow> char_of m = (char_of n :: char) \<longleftrightarrow> m = (n :: nat)"
  by (metis ord_char_of)

lemma b64_val_char [simp]: "n < 64 \<Longrightarrow> b64_val (b64_char n) = n"
  and is_b64_char [simp]: "n < 64 \<Longrightarrow> is_b64 (b64_char n)"
  by (auto simp: b64_val_def b64_char_def is_b64_def is_alnum_def is_alpha_def is_upper_def is_lower_def
    is_digit_def ord_char_of plus_slash char_of_inj)

lemma ord_char_less: "ord_char c < 256"
proof -
  have "of_char c mod 256 < (256 :: nat)" by (rule mod_less_divisor) simp
  then show ?thesis by (simp only: ord_char_def of_char_mod_256)
qed

lemma b64_sextets_range: "\<forall>x\<in>set xs. x < 256 \<Longrightarrow> \<forall>v\<in>set (b64_sextets xs). v < 64"
  by (induction xs rule: b64_sextets.induct) auto

lemma b64_group:
  fixes x y z :: nat
  shows "y < 256 \<Longrightarrow> x div 4 * 4 + (x mod 4 * 16 + y div 16) div 16 = x"
    and "y < 256 \<Longrightarrow> z < 256 \<Longrightarrow>
      (x mod 4 * 16 + y div 16) mod 16 * 16 + (y mod 16 * 4 + z div 64) div 4 = y"
    and "z < 256 \<Longrightarrow> (y mod 16 * 4 + z div 64) mod 4 * 64 + z mod 64 = z"
    and "x div 4 * 4 + (x mod 4 * 16) div 16 = x"
    and "y < 256 \<Longrightarrow> (x mod 4 * 16 + y div 16) mod 16 * 16 + (y mod 16 * 4) div 4 = y"
proof -
  have q: "y < 256 \<Longrightarrow> y div 16 < 16" "z < 256 \<Longrightarrow> z div 64 < 4" by auto
  show "y < 256 \<Longrightarrow> x div 4 * 4 + (x mod 4 * 16 + y div 16) div 16 = x" using q by simp
  show "y < 256 \<Longrightarrow> z < 256 \<Longrightarrow>
      (x mod 4 * 16 + y div 16) mod 16 * 16 + (y mod 16 * 4 + z div 64) div 4 = y" using q by simp
  show "z < 256 \<Longrightarrow> (y mod 16 * 4 + z div 64) mod 4 * 64 + z mod 64 = z" using q by simp
  show "x div 4 * 4 + (x mod 4 * 16) div 16 = x" by simp
  show "y < 256 \<Longrightarrow> (x mod 4 * 16 + y div 16) mod 16 * 16 + (y mod 16 * 4) div 4 = y" using q by simp
qed

lemma b64_bytes_sextets: "\<forall>x\<in>set xs. x < 256 \<Longrightarrow> b64_bytes (b64_sextets xs) = xs"
proof (induction xs rule: b64_sextets.induct)
  case (1 x y z r)
  then have "y < 256" "z < 256" "b64_bytes (b64_sextets r) = r" by auto
  then show ?case by (simp only: b64_sextets.simps b64_bytes.simps b64_group)
next
  case (2 x y)
  then have "y < 256" by simp
  then show ?case by (simp only: b64_sextets.simps b64_bytes.simps b64_group)
next
  case (3 x)
  show ?case by (simp only: b64_sextets.simps b64_bytes.simps b64_group)
qed simp

lemma length_b64_sextets: "length (b64_sextets xs) = (length xs * 4 + 2) div 3"
  by (induction xs rule: b64_sextets.induct) auto

lemma b64_decode_encode: "b64_decode (b64_encode bs) = Some bs"
proof -
  let ?vs = "b64_sextets (map ord_char bs)"
  let ?d = "map b64_char ?vs"
  let ?p = "if length bs mod 3 = 1 then ''=='' else if length bs mod 3 = 2 then ''='' else []"
  have r: "\<forall>x\<in>set (map ord_char bs). x < 256" by (simp add: ord_char_less)
  then have v: "\<forall>v\<in>set ?vs. v < 64" by (rule b64_sextets_range)
  then have d: "list_all is_b64 ?d" by (auto simp: list_all_iff)
  then have "CHR ''='' \<notin> set ?d" using not_b64_eq by (auto simp: list_all_iff)
  then have tw: "takeWhile (\<lambda>c. c \<noteq> CHR ''='') (?d @ ?p) = ?d" "dropWhile (\<lambda>c. c \<noteq> CHR ''='') (?d @ ?p) = ?p"
    using takeWhile_neq_append [of "CHR ''=''" ?d ?p] dropWhile_neq_append [of "CHR ''=''" ?d ?p] by simp_all
  have len: "length ?d = (length bs * 4 + 2) div 3" by (simp add: length_b64_sextets)
  have q: "length bs mod 3 = 0 \<Longrightarrow> length ?d mod 4 = 0" "length bs mod 3 = 1 \<Longrightarrow> length ?d mod 4 = 2"
    "length bs mod 3 = 2 \<Longrightarrow> length ?d mod 4 = 3"
    unfolding len by presburger+
  have "map b64_val ?d = ?vs" using v by (simp add: map_idI)
  then have "map char_of (b64_bytes (map b64_val ?d)) = bs"
    using b64_bytes_sextets [OF r] by (simp add: ord_char_def comp_def)
  moreover have "length bs mod 3 = 0 \<or> length bs mod 3 = 1 \<or> length bs mod 3 = 2" by linarith
  ultimately show ?thesis
    unfolding b64_encode_def b64_decode_def tw Let_def
    using d q by auto
qed

end
