(* ===== verification/Validation.thy ===== *)
theory Validation
  imports Json PyNet Base64
begin

text \<open>
  The input validators of \<^verbatim>\<open>src/awgctl/core.py\<close>: client names, transaction identifiers,
  endpoints, keys, DNS servers, bounded integers, closed ranges, header ranges and custom packet
  specifications. A locale states what the validators have in common: what they return has a
  known form and is accepted again unchanged.
\<close>

section \<open>The validator contract\<close>

locale validator =
  fixes validate :: "'a \<Rightarrow> 'e + 'b"
    and embed :: "'b \<Rightarrow> 'a"
    and good :: "'b \<Rightarrow> bool"
  assumes accepted_good: "validate v = Inr w \<Longrightarrow> good w"
    and good_accepted: "good w \<Longrightarrow> validate (embed w) = Inr w"
begin

lemma fixpoint: "validate v = Inr w \<Longrightarrow> validate (embed w) = Inr w"
  by (rule good_accepted) (rule accepted_good)

lemma range_iff: "(\<exists>v. validate v = Inr w) \<longleftrightarrow> good w"
  using accepted_good good_accepted by blast

lemma all_accepted:
  "result_list validate vs = Inr ws \<Longrightarrow> result_list validate (map embed ws) = Inr ws"
  by (induction vs arbitrary: ws) (auto simp: result_simps fixpoint)

end

section \<open>Names and identifiers\<close>

definition name_char :: "char \<Rightarrow> bool" where
  "name_char c \<longleftrightarrow> is_alnum c \<or> c = CHR ''_'' \<or> c = CHR ''-''"

definition client_name_re :: "string \<Rightarrow> bool" where
  "client_name_re s \<longleftrightarrow> s \<noteq> [] \<and> is_alnum (hd s) \<and> list_all name_char s \<and> length s \<le> 32"

definition validate_client_name :: "json \<Rightarrow> string result" where
  "validate_client_name v =
     (case v of
        JStr s \<Rightarrow> andthen (check (client_name_re s)
          (AwgctlError ''client name must match [A-Za-z0-9][A-Za-z0-9_-]{0,31}'')) (\<lambda>_. Inr s)
      | _ \<Rightarrow> Inl (AwgctlError ''client name must match [A-Za-z0-9][A-Za-z0-9_-]{0,31}''))"

definition transaction_id_re :: "string \<Rightarrow> bool" where
  "transaction_id_re s \<longleftrightarrow> length s = 32 \<and> list_all is_lower_hex s"

definition validate_transaction_id :: "json \<Rightarrow> string result" where
  "validate_transaction_id v =
     (case v of
        JStr s \<Rightarrow> andthen (check (transaction_id_re s)
          (AwgctlError ''transaction ID must be exactly 32 lowercase hexadecimal characters''))
          (\<lambda>_. Inr s)
      | _ \<Rightarrow> Inl (AwgctlError
          ''transaction ID must be exactly 32 lowercase hexadecimal characters''))"

definition sha256_re :: "string \<Rightarrow> bool" where
  "sha256_re s \<longleftrightarrow> length s = 64 \<and> list_all is_lower_hex s"

definition interface_char :: "char \<Rightarrow> bool" where
  "interface_char c \<longleftrightarrow> is_alnum c \<or> c = CHR ''_'' \<or> c = CHR ''.'' \<or> c = CHR ''-''"

definition interface_re :: "string \<Rightarrow> bool" where
  "interface_re s \<longleftrightarrow> s \<noteq> [] \<and> length s \<le> 15 \<and> list_all interface_char s"

interpretation client_name: validator validate_client_name JStr client_name_re
  by unfold_locales
    (auto simp: validate_client_name_def result_simps split: json.splits)

interpretation transaction_id: validator validate_transaction_id JStr transaction_id_re
  by unfold_locales
    (auto simp: validate_transaction_id_def result_simps split: json.splits)

lemma validate_client_name_Inr:
  "validate_client_name v = Inr s \<longleftrightarrow> v = JStr s \<and> client_name_re s"
  by (cases v) (auto simp: validate_client_name_def result_simps)

lemma validate_transaction_id_Inr:
  "validate_transaction_id v = Inr s \<longleftrightarrow> v = JStr s \<and> transaction_id_re s"
  by (cases v) (auto simp: validate_transaction_id_def result_simps)

section \<open>Endpoints\<close>

definition alnum_dash :: "char \<Rightarrow> bool" where
  "alnum_dash c \<longleftrightarrow> is_alnum c \<or> c = CHR ''-''"

definition hostname_label_re :: "string \<Rightarrow> bool" where
  "hostname_label_re s \<longleftrightarrow>
     s \<noteq> [] \<and> is_alnum (hd s) \<and> is_alnum (last s) \<and> list_all alnum_dash s"

definition hostname_label :: "string \<Rightarrow> bool" where
  "hostname_label s \<longleftrightarrow> s \<noteq> [] \<and> length s \<le> 63 \<and> hostname_label_re s"

definition validate_endpoint :: "string \<Rightarrow> string result" where
  "validate_endpoint s =
     (let v = rstrip_chars ''.'' (strip s)
      in if v = [] \<or> length v > 253 \<or> CHR '':'' \<in> set v \<or> list_ex is_space v
         then Inl (AwgctlError ''endpoint must be a hostname or IPv4 address without a port'')
         else case ip_address v of
           None \<Rightarrow>
             if list_ex (\<lambda>l. \<not> hostname_label l) (split_on CHR ''.'' v)
             then Inl (AwgctlError ''invalid endpoint hostname'') else Inr v
         | Some (V4 a) \<Rightarrow> Inr v
         | Some (V6 a) \<Rightarrow>
             Inl (AwgctlError ''only IPv4 endpoint addresses are supported by this installation''))"

definition endpoint_ok :: "string \<Rightarrow> bool" where
  "endpoint_ok s \<longleftrightarrow>
     s \<noteq> [] \<and> length s \<le> 253 \<and> last s \<noteq> CHR ''.'' \<and> CHR '':'' \<notin> set s \<and> \<not> list_ex is_space s
     \<and> ((\<exists>a. ip_address s = Some (V4 a))
        \<or> ip_address s = None \<and> list_all hostname_label (split_on CHR ''.'' s))"

lemma rstrip_chars_last: "rstrip_chars cs s = [] \<or> last (rstrip_chars cs s) \<notin> set cs"
  using dropWhile_hd [of "\<lambda>c. c \<in> set cs" "rev s"] by (auto simp: rstrip_chars_def last_rev)

lemma rstrip_chars_id: "s = [] \<or> last s \<notin> set cs \<Longrightarrow> rstrip_chars cs s = s"
  by (cases "s = []") (auto simp: rstrip_chars_def dropWhile_no hd_rev)

lemma validate_endpoint_Inr:
  "validate_endpoint s = Inr v \<longleftrightarrow> v = rstrip_chars ''.'' (strip s) \<and> endpoint_ok v"
proof -
  have "last (rstrip_chars ''.'' (strip s)) \<noteq> CHR ''.''" if "rstrip_chars ''.'' (strip s) \<noteq> []"
    using rstrip_chars_last [of "''.''" "strip s"] that by simp
  then show ?thesis
    by (auto simp: validate_endpoint_def endpoint_ok_def Let_def list_ex_iff list_all_iff
        split: if_splits option.splits ip.splits)
qed

interpretation endpoint: validator validate_endpoint "\<lambda>s. s" endpoint_ok
proof
  show "validate_endpoint v = Inr w \<Longrightarrow> endpoint_ok w" for v w
    unfolding validate_endpoint_Inr by blast
  show "validate_endpoint w = Inr w" if "endpoint_ok w" for w
  proof -
    have "strip w = w"
      using that by (intro strip_no_space) (auto simp: endpoint_ok_def list_ex_iff)
    then show ?thesis
      using that by (simp add: validate_endpoint_Inr endpoint_ok_def rstrip_chars_id)
  qed
qed

section \<open>Keys and DNS servers\<close>

text \<open>\<open>base64.b64decode\<close> takes text or bytes; anything else is a \<open>TypeError\<close>.\<close>

definition validate_key :: "json \<Rightarrow> string \<Rightarrow> string result" where
  "validate_key v label =
     (case v of
        JStr s \<Rightarrow>
          (case b64_decode s of
             None \<Rightarrow> Inl (AwgctlError (''invalid '' @ label))
           | Some bs \<Rightarrow> if length bs \<noteq> 32 then Inl (AwgctlError (''invalid '' @ label)) else Inr s)
      | _ \<Rightarrow> Inl TypeError)"

lemma validate_key_Inr: "validate_key v label = Inr s \<longleftrightarrow> v = JStr s \<and> key_text_ok s"
  unfolding b64_32_iff [symmetric]
  by (cases v) (auto simp: validate_key_def split: option.splits if_splits)

interpretation key: validator "\<lambda>v. validate_key v label" JStr key_text_ok for label
  by unfold_locales (simp_all add: validate_key_Inr)

definition dns_address :: "json \<Rightarrow> string result" where
  "dns_address v =
     (case v of
        JStr s \<Rightarrow>
          (case ip_address (strip s) of
             None \<Rightarrow> Inl (AwgctlError (''invalid DNS address: '' @ s))
           | Some (V6 a) \<Rightarrow>
               Inl (AwgctlError ''only IPv4 DNS servers are supported by this installation'')
           | Some (V4 a) \<Rightarrow> Inr (ipv4_text a))
      | _ \<Rightarrow> Inl (AwgctlError ''DNS addresses must be text''))"

fun dns_servers :: "string list \<Rightarrow> json list \<Rightarrow> string list result" where
  "dns_servers acc [] = Inr acc"
| "dns_servers acc (v # vs) =
     andthen (dns_address v) (\<lambda>d. dns_servers (if d \<in> set acc then acc else acc @ [d]) vs)"

definition validate_dns :: "json \<Rightarrow> string list result" where
  "validate_dns v =
     (case v of
        JList vs \<Rightarrow>
          if vs = [] then Inl (AwgctlError ''at least one DNS server is required'')
          else dns_servers [] vs
      | _ \<Rightarrow> Inl (AwgctlError ''at least one DNS server is required''))"

definition dns_json :: "string list \<Rightarrow> json" where
  "dns_json ds = JList (map JStr ds)"

definition dotted_quad :: "string \<Rightarrow> bool" where
  "dotted_quad s \<longleftrightarrow> (\<exists>a. valid_ipv4 a \<and> s = ipv4_text a)"

definition dns_ok :: "string list \<Rightarrow> bool" where
  "dns_ok ds \<longleftrightarrow> ds \<noteq> [] \<and> distinct ds \<and> list_all dotted_quad ds"

lemma dns_address_Inr: "dns_address v = Inr d \<Longrightarrow> dotted_quad d"
  by (auto simp: dns_address_def dotted_quad_def ip_address_V4 dest!: parse_ipv4_canonical
      split: json.splits option.splits ip.splits)

lemma is_space_not_digit: "is_digit c \<Longrightarrow> \<not> is_space c"
  by (auto simp: char_class_defs)

lemma strip_ipv4_text: "valid_ipv4 a \<Longrightarrow> strip (ipv4_text a) = ipv4_text a"
proof (rule strip_no_space, rule ballI, rule notI)
  fix c assume "valid_ipv4 a" "c \<in> set (ipv4_text a)" "is_space c"
  moreover have "\<not> is_space CHR ''.''" by (simp add: char_class_defs)
  ultimately show False using ipv4_text_chars [of a c] is_space_not_digit [of c] by fastforce
qed

lemma dns_address_quad: "dotted_quad d \<Longrightarrow> dns_address (JStr d) = Inr d"
proof -
  assume "dotted_quad d"
  then obtain a where a: "valid_ipv4 a" "d = ipv4_text a" by (auto simp: dotted_quad_def)
  then have "ip_address (strip d) = Some (V4 a)"
    by (simp add: strip_ipv4_text ip_address_V4 parse_ipv4_text)
  then show ?thesis using a by (simp add: dns_address_def)
qed

lemma dns_servers_ok:
  assumes "dns_servers acc vs = Inr ds" and "distinct acc" and "list_all dotted_quad acc"
  shows "distinct ds \<and> list_all dotted_quad ds \<and> set acc \<subseteq> set ds \<and> (vs \<noteq> [] \<longrightarrow> ds \<noteq> [])"
  using assms
proof (induction vs arbitrary: acc)
  case Nil
  then show ?case by simp
next
  case (Cons v vs)
  then obtain d where d: "dns_address v = Inr d"
    "dns_servers (if d \<in> set acc then acc else acc @ [d]) vs = Inr ds"
    by (auto simp: result_simps)
  have "distinct (if d \<in> set acc then acc else acc @ [d])"
    "list_all dotted_quad (if d \<in> set acc then acc else acc @ [d])"
    using Cons.prems dns_address_Inr [OF d(1)] by auto
  from Cons.IH [OF d(2) this] show ?case by (auto split: if_splits)
qed

lemma dns_servers_id:
  "distinct (acc @ ds) \<Longrightarrow> list_all dotted_quad ds \<Longrightarrow>
     dns_servers acc (map JStr ds) = Inr (acc @ ds)"
  by (induction ds arbitrary: acc) (auto simp: dns_address_quad)

interpretation dns: validator validate_dns dns_json dns_ok
proof
  show "dns_ok ds" if v: "validate_dns v = Inr ds" for v ds
  proof -
    obtain vs where "vs \<noteq> []" "dns_servers [] vs = Inr ds"
      using v by (auto simp: validate_dns_def split: json.splits if_splits)
    then show ?thesis
      using dns_servers_ok [of "[]" vs ds] by (simp add: dns_ok_def)
  qed
  show "validate_dns (dns_json ds) = Inr ds" if "dns_ok ds" for ds
    using that dns_servers_id [of "[]" ds] by (simp add: validate_dns_def dns_json_def dns_ok_def)
qed

end
