(* ===== verification/Obfuscation.thy ===== *)
theory Obfuscation
  imports Validation
begin

text \<open>
  The obfuscation profiles of \<^verbatim>\<open>src/awgctl/core.py\<close>: bounded integers, closed ranges,
  disjoint header ranges, the grammar of custom packet specifications, the classic profile and
  the AWG 3.1 profile \<open>russia-ios-v1\<close>. Parameters stay a dict from field names to values, in
  the order the code inserts them; what surrounds them in the stored profile is constant.
\<close>

section \<open>Fields\<close>

definition obfuscation_fields :: "string list" where
  "obfuscation_fields = [''Jc'', ''Jmin'', ''Jmax'', ''S1'', ''S2'', ''H1'', ''H2'', ''H3'', ''H4'']"

definition awg31_integer_fields :: "string list" where
  "awg31_integer_fields = [''Jc'', ''Jmin'', ''Jmax'', ''S1'', ''S2'', ''S3'', ''S4'']"

definition awg31_header_fields :: "string list" where
  "awg31_header_fields = [''H1'', ''H2'', ''H3'', ''H4'']"

definition awg31_cps_fields :: "string list" where
  "awg31_cps_fields = [''I1'', ''I2'', ''I3'', ''I4'', ''I5'']"

definition awg31_range_fields :: "string list" where
  "awg31_range_fields =
     [''ContentPaddingAddition'', ''RekeyAfterTime'', ''RekeyTimeout'', ''RejectAfterTime'',
      ''KeepaliveTimeout'', ''MaxHandshakeAttempts'']"

definition awg31_boolean_fields :: "string list" where
  "awg31_boolean_fields = [''RandomTrailers'', ''DisableCookies'']"

definition awg31_parameter_fields :: "string list" where
  "awg31_parameter_fields =
     awg31_integer_fields @ awg31_header_fields @ awg31_cps_fields @ awg31_range_fields
       @ awg31_boolean_fields"

lemmas field_defs =
  obfuscation_fields_def awg31_integer_fields_def awg31_header_fields_def awg31_cps_fields_def
  awg31_range_fields_def awg31_boolean_fields_def awg31_parameter_fields_def

definition header_protection_key :: string where
  "header_protection_key = ''/opt/amneziawg/keys/server/header-protection''"

section \<open>Integers and ranges\<close>

definition reject_unknown_fields :: "obj \<Rightarrow> string list \<Rightarrow> string \<Rightarrow> unit result" where
  "reject_unknown_fields m allowed label =
     (let unknown = sort (filter (\<lambda>k. k \<notin> set allowed) (keys m))
      in check (unknown = [])
           (AwgctlError (label @ '' has unexpected fields: '' @ join '', '' unknown)))"

definition strict_integer :: "json \<Rightarrow> string \<Rightarrow> int \<Rightarrow> int result" where
  "strict_integer v field maximum =
     (case v of
        JInt n \<Rightarrow> if 0 \<le> n \<and> n \<le> maximum then Inr n
                  else Inl (AwgctlError (''invalid obfuscation value: '' @ field))
      | _ \<Rightarrow> Inl (AwgctlError (''invalid obfuscation value: '' @ field)))"

definition range_object :: "int \<Rightarrow> int \<Rightarrow> json" where
  "range_object lo hi = JObj [(''min'', JInt lo), (''max'', JInt hi)]"

definition normalize_closed_range :: "json \<Rightarrow> string \<Rightarrow> int \<Rightarrow> json result" where
  "normalize_closed_range v field maximum =
     (case v of
        JInt n \<Rightarrow> andthen (strict_integer v field maximum) (\<lambda>n. Inr (JInt n))
      | JObj m \<Rightarrow>
          andthen (reject_unknown_fields m [''min'', ''max''] (''obfuscation range '' @ field)) (\<lambda>_.
          if \<not> keys_are m [''min'', ''max'']
          then Inl (AwgctlError (''invalid obfuscation range: '' @ field)) else
          andthen (strict_integer (get m ''min'') field maximum) (\<lambda>lo.
          andthen (strict_integer (get m ''max'') field maximum) (\<lambda>hi.
          if lo > hi then Inl (AwgctlError (''invalid obfuscation range: '' @ field))
          else Inr (range_object lo hi))))
      | _ \<Rightarrow> Inl (AwgctlError (''invalid obfuscation range: '' @ field)))"

text \<open>\<open>_range_bounds\<close> is only applied to normalised values.\<close>

definition range_bounds :: "json \<Rightarrow> int \<times> int" where
  "range_bounds v =
     (case v of
        JInt n \<Rightarrow> (n, n)
      | JObj m \<Rightarrow>
          (case (get m ''min'', get m ''max'') of (JInt lo, JInt hi) \<Rightarrow> (lo, hi) | _ \<Rightarrow> (0, 0))
      | _ \<Rightarrow> (0, 0))"

definition overlap :: "json \<Rightarrow> json \<Rightarrow> bool" where
  "overlap v w \<longleftrightarrow>
     (case (range_bounds v, range_bounds w) of
        ((lo, hi), (lo', hi')) \<Rightarrow> max lo lo' \<le> min hi hi')"

definition header_maximum :: int where
  "header_maximum = 4294967295"

fun overlapping :: "json list \<Rightarrow> bool" where
  "overlapping [] = False"
| "overlapping (v # vs) = (list_ex (overlap v) vs \<or> overlapping vs)"

definition validate_header_ranges :: "obj \<Rightarrow> obj result" where
  "validate_header_ranges m =
     andthen (result_list (\<lambda>f. andthen (item m f) (\<lambda>v.
        andthen (normalize_closed_range v f header_maximum) (\<lambda>r. Inr (f, r)))) awg31_header_fields)
       (\<lambda>r. if overlapping (map snd r) then Inl (AwgctlError ''obfuscation header ranges overlap'')
            else Inr r)"

text \<open>The normal form of a range and its bounds.\<close>

definition closed_range :: "int \<Rightarrow> json \<Rightarrow> bool" where
  "closed_range maximum v \<longleftrightarrow>
     (\<exists>n. v = JInt n \<and> 0 \<le> n \<and> n \<le> maximum)
     \<or> (\<exists>lo hi. v = range_object lo hi \<and> 0 \<le> lo \<and> lo \<le> hi \<and> hi \<le> maximum)"

lemma strict_integer_Inr:
  "strict_integer v field maximum = Inr n \<longleftrightarrow> v = JInt n \<and> 0 \<le> n \<and> n \<le> maximum"
  by (cases v) (auto simp: strict_integer_def)

lemma range_bounds_range [simp]:
  "range_bounds (JInt n) = (n, n)" "range_bounds (range_object lo hi) = (lo, hi)"
  by (simp_all add: range_bounds_def range_object_def get_def)

lemma normalize_closed_range_closed:
  "normalize_closed_range v field maximum = Inr w \<Longrightarrow> closed_range maximum w"
  by (cases v) (auto simp: normalize_closed_range_def closed_range_def result_simps
      strict_integer_Inr not_less split: if_splits)

lemma closed_range_normal:
  assumes "closed_range maximum w"
  shows "normalize_closed_range w field maximum = Inr w"
proof -
  have "sort (filter (\<lambda>k. k \<notin> set [''min'', ''max'']) (keys [(''min'', a), (''max'', b)])) = []"
    for a b by (simp add: keys_def)
  then show ?thesis
    using assms by (auto simp: closed_range_def normalize_closed_range_def strict_integer_def
        range_object_def reject_unknown_fields_def keys_are_def keys_def get_def)
qed

lemma closed_range_bounds:
  assumes "closed_range maximum v"
  shows "0 \<le> fst (range_bounds v) \<and> fst (range_bounds v) \<le> snd (range_bounds v)
    \<and> snd (range_bounds v) \<le> maximum"
  using assms by (auto simp: closed_range_def)

interpretation closed_range: validator
  "\<lambda>v. normalize_closed_range v field maximum" "\<lambda>v. v" "closed_range maximum" for field maximum
  by unfold_locales (rule normalize_closed_range_closed closed_range_normal, assumption)+

text \<open>The numbers a range stands for; \<open>overlap\<close> is a common element.\<close>

definition range_values :: "json \<Rightarrow> int set" where
  "range_values v = {fst (range_bounds v) .. snd (range_bounds v)}"

lemma overlap_iff:
  assumes "closed_range a v" and "closed_range b w"
  shows "overlap v w \<longleftrightarrow> range_values v \<inter> range_values w \<noteq> {}"
  using closed_range_bounds [OF assms(1)] closed_range_bounds [OF assms(2)]
  by (cases "range_bounds v"; cases "range_bounds w") (auto simp: overlap_def range_values_def)

lemma header_list:
  "result_list g awg31_header_fields = Inr r \<longleftrightarrow>
     (\<exists>a b c d. r = [a, b, c, d] \<and> g ''H1'' = Inr a \<and> g ''H2'' = Inr b \<and> g ''H3'' = Inr c
       \<and> g ''H4'' = Inr d)"
  by (auto simp: awg31_header_fields_def result_simps)

definition headers_disjoint :: "obj \<Rightarrow> bool" where
  "headers_disjoint r \<longleftrightarrow>
     (\<forall>f\<in>set awg31_header_fields. closed_range header_maximum (get r f))
     \<and> (\<forall>f\<in>set awg31_header_fields. \<forall>g\<in>set awg31_header_fields.
          f \<noteq> g \<longrightarrow> range_values (get r f) \<inter> range_values (get r g) = {})"

definition header_obj :: "json \<Rightarrow> json \<Rightarrow> json \<Rightarrow> json \<Rightarrow> obj" where
  "header_obj a b c d = [(''H1'', a), (''H2'', b), (''H3'', c), (''H4'', d)]"

lemma header_obj_disjoint:
  assumes "\<forall>v\<in>{a, b, c, d}. closed_range header_maximum v"
  shows "headers_disjoint (header_obj a b c d) \<longleftrightarrow> \<not> overlapping [a, b, c, d]"
  using assms
  by (auto simp: headers_disjoint_def awg31_header_fields_def header_obj_def get_def
      overlap_iff [of header_maximum _ header_maximum] Int_commute)

text \<open>
  C38: the header ranges that \<open>validate_header_ranges\<close> returns are closed intervals of 32-bit
  values, one for each of H1 to H4, and no packet type value belongs to two of them.
\<close>

theorem validate_header_ranges_disjoint:
  assumes "validate_header_ranges m = Inr r"
  shows "keys r = awg31_header_fields \<and> headers_disjoint r"
proof -
  obtain a b c d where r: "r = header_obj a b c d" and n: "\<not> overlapping [a, b, c, d]"
    and "\<forall>v\<in>{a, b, c, d}. closed_range header_maximum v"
    using assms
    by (auto simp: validate_header_ranges_def header_list result_simps header_obj_def
        dest!: normalize_closed_range_closed split: if_splits)
  then have "headers_disjoint r" by (simp add: header_obj_disjoint)
  then show ?thesis by (simp add: r header_obj_def keys_def awg31_header_fields_def)
qed

definition sample_headers :: obj where
  "sample_headers =
     header_obj (JInt 1) (range_object 5 9) (JInt 4) (range_object 10 4294967295)"

theorem validate_header_ranges_disjoint_witness:
  "keys sample_headers = awg31_header_fields \<and> headers_disjoint sample_headers"
proof -
  have "validate_header_ranges sample_headers = Inr sample_headers" by code_simp
  then show ?thesis by (rule validate_header_ranges_disjoint)
qed

section \<open>Custom packet specifications\<close>

datatype cps_tag = Bytes string | Timestamp | Random string nat

text \<open>
  \<open>_CPS_TAG.match\<close>: one tag at the front of the text and what follows it. Hexadecimal digits
  and digits are read greedily, which is the only way to reach the closing bracket.
\<close>

definition closing :: "'a \<Rightarrow> string \<Rightarrow> ('a \<times> string) option" where
  "closing tag s = (case s of c # r \<Rightarrow> if c = CHR ''>'' then Some (tag, r) else None | [] \<Rightarrow> None)"

definition random_size :: "string \<Rightarrow> string \<Rightarrow> (cps_tag \<times> string) option" where
  "random_size kind s =
     (let d = takeWhile is_digit s
      in if d \<noteq> [] \<and> hd d \<noteq> CHR ''0'' \<and> length d \<le> 4
         then closing (Random kind (undec d)) (dropWhile is_digit s) else None)"

definition cps_match :: "string \<Rightarrow> (cps_tag \<times> string) option" where
  "cps_match s =
     (if starts_with ''<b 0x'' s
      then (let h = takeWhile is_hex (drop 5 s)
            in if h = [] then None else closing (Bytes h) (dropWhile is_hex (drop 5 s)))
      else if starts_with ''<t'' s then closing Timestamp (drop 2 s)
      else if starts_with ''<r '' s then random_size ''r'' (drop 3 s)
      else if starts_with ''<rc '' s then random_size ''rc'' (drop 4 s)
      else if starts_with ''<rd '' s then random_size ''rd'' (drop 4 s)
      else None)"

definition cps_error :: "string \<Rightarrow> error" where
  "cps_error field = AwgctlError (''invalid custom packet specification: '' @ field)"

text \<open>The bytes a tag contributes to the packet.\<close>

definition contribution :: "cps_tag \<Rightarrow> string \<Rightarrow> nat result" where
  "contribution tag field =
     (case tag of
        Bytes h \<Rightarrow>
          if length h mod 2 \<noteq> 0 then Inl (cps_error field)
          else if length h div 2 = 0 \<or> length h div 2 > 1000 then Inl (cps_error field)
          else Inr (length h div 2)
      | Timestamp \<Rightarrow> Inr 4
      | Random kind n \<Rightarrow> if n > 1000 then Inl (cps_error field) else Inr n)"

lemma closing_shorter: "closing tag s = Some (tag', r) \<Longrightarrow> length r < length s"
  by (cases s) (auto simp: closing_def split: if_splits)

lemma cps_match_shorter: "cps_match s = Some (tag, r) \<Longrightarrow> length r < length s"
  using length_dropWhile_le [of is_hex "drop 5 s"] length_dropWhile_le [of is_digit "drop 3 s"]
    length_dropWhile_le [of is_digit "drop 4 s"]
  by (fastforce simp: cps_match_def random_size_def Let_def split: if_splits dest!: closing_shorter)

function cps_scan :: "string \<Rightarrow> nat \<Rightarrow> string \<Rightarrow> nat result" where
  "cps_scan field used s =
     (if s = [] then Inr used
      else case cps_match s of
        None \<Rightarrow> Inl (cps_error field)
      | Some (tag, r) \<Rightarrow> andthen (contribution tag field) (\<lambda>n.
          if used + n > 1000
          then Inl (AwgctlError (''custom packet specification exceeds size limit: '' @ field))
          else cps_scan field (used + n) r))"
  by pat_completeness auto
termination
  by (relation "measure (\<lambda>(field, used, s). length s)") (auto dest: cps_match_shorter)

declare cps_scan.simps [simp del]

definition validate_cps :: "json \<Rightarrow> string \<Rightarrow> int \<Rightarrow> string result" where
  "validate_cps v field mtu =
     (case v of
        JStr s \<Rightarrow>
          if s = [] then Inl (cps_error field)
          else andthen (cps_scan field 0 s) (\<lambda>used.
            if int used \<ge> mtu
            then Inl (AwgctlError
              (''custom packet specification exceeds configured MTU: '' @ field))
            else Inr s)
      | _ \<Rightarrow> Inl (cps_error field))"

text \<open>The specification: a text that is the concatenation of well-formed tags.\<close>

fun tag_text :: "cps_tag \<Rightarrow> string" where
  "tag_text (Bytes h) = ''<b 0x'' @ h @ ''>''"
| "tag_text Timestamp = ''<t>''"
| "tag_text (Random kind n) = ''<'' @ kind @ '' '' @ dec_nat n @ ''>''"

fun tag_size :: "cps_tag \<Rightarrow> nat" where
  "tag_size (Bytes h) = length h div 2"
| "tag_size Timestamp = 4"
| "tag_size (Random kind n) = n"

fun tag_ok :: "cps_tag \<Rightarrow> bool" where
  "tag_ok (Bytes h) \<longleftrightarrow> h \<noteq> [] \<and> list_all is_hex h \<and> even (length h)"
| "tag_ok Timestamp \<longleftrightarrow> True"
| "tag_ok (Random kind n) \<longleftrightarrow> kind \<in> {''r'', ''rc'', ''rd''} \<and> 0 < n"

definition tags_text :: "cps_tag list \<Rightarrow> string" where
  "tags_text ts = concat (map tag_text ts)"

definition packet_size :: "cps_tag list \<Rightarrow> nat" where
  "packet_size ts = sum_list (map tag_size ts)"

lemma closing_Some: "closing tag s = Some (tag', r) \<longleftrightarrow> tag' = tag \<and> s = CHR ''>'' # r"
  by (cases s) (auto simp: closing_def)

lemma not_hex_gt [simp]: "\<not> is_hex CHR ''>''" "\<not> is_digit CHR ''>''"
  by (simp_all add: char_class_defs)

lemma random_size_text:
  assumes "0 < n" "n \<le> 1000"
  shows "random_size kind (dec_nat n @ CHR ''>'' # r) = Some (Random kind n, r)"
proof -
  have all: "\<forall>c\<in>set (dec_nat n). is_digit c" using dec_nat_digits by blast
  then have t: "takeWhile is_digit (dec_nat n @ CHR ''>'' # r) = dec_nat n"
    and d: "dropWhile is_digit (dec_nat n @ CHR ''>'' # r) = CHR ''>'' # r"
    by (simp_all add: takeWhile_append2 dropWhile_append2)
  have "hd (dec_nat n) \<noteq> CHR ''0''"
  proof
    assume z: "hd (dec_nat n) = CHR ''0''"
    with canonical_dec_nat [of n] have "length (dec_nat n) \<le> 1"
      by (auto simp: canonical_digits_def not_less)
    with z have "dec_nat n = ''0''" by (cases "dec_nat n") auto
    then have "undec (dec_nat n) = 0" by (simp add: digit_val_def ord_char_def)
    with assms show False by simp
  qed
  moreover have "length (dec_nat n) \<le> 4"
    using assms by (simp add: dec_nat.simps [of n] dec_nat.simps [of "n div 10"]
        dec_nat.simps [of "n div 10 div 10"] dec_nat.simps [of "n div 10 div 10 div 10"])
  ultimately show ?thesis
    by (simp add: random_size_def t d closing_def)
qed

lemma cps_match_text:
  assumes "tag_ok tag" "tag_size tag \<le> 1000"
  shows "cps_match (tag_text tag @ r) = Some (tag, r)"
proof (cases tag)
  case (Bytes h)
  with assms have "takeWhile is_hex (h @ CHR ''>'' # r) = h"
    "dropWhile is_hex (h @ CHR ''>'' # r) = CHR ''>'' # r"
    by (simp_all add: list_all_iff takeWhile_append2 dropWhile_append2)
  with Bytes assms show ?thesis by (simp add: cps_match_def closing_def)
next
  case Timestamp
  then show ?thesis by (simp add: cps_match_def closing_def)
next
  case (Random kind n)
  with assms show ?thesis
    using random_size_text [of n kind r] by (auto simp: cps_match_def)
qed

lemma random_size_Some:
  assumes "random_size kind s = Some (tag, r)"
  shows "\<exists>n. tag = Random kind n \<and> 0 < n \<and> s = dec_nat n @ CHR ''>'' # r"
proof -
  let ?d = "takeWhile is_digit s"
  have d: "?d \<noteq> []" "hd ?d \<noteq> CHR ''0''" and tag: "tag = Random kind (undec ?d)"
    and r: "dropWhile is_digit s = CHR ''>'' # r"
    using assms by (auto simp: random_size_def Let_def closing_Some split: if_splits)
  have all: "list_all is_digit ?d" by (auto simp: list_all_iff dest: set_takeWhileD)
  then have "canonical_digits ?d" using d by (simp add: canonical_digits_def)
  then have "dec_nat (undec ?d) = ?d" by (rule dec_nat_undec)
  then have "s = dec_nat (undec ?d) @ CHR ''>'' # r"
    using takeWhile_dropWhile_id [of is_digit s] r by simp
  with tag undec_pos [OF all d] show ?thesis by blast
qed

lemma starts_with_drop: "starts_with p s \<Longrightarrow> s = p @ drop (length p) s"
  by (auto simp: starts_with_iff)

lemma bytes_match:
  assumes "starts_with ''<b 0x'' s" and "takeWhile is_hex (drop 5 s) \<noteq> []"
    and "dropWhile is_hex (drop 5 s) = CHR ''>'' # r"
  shows "s = tag_text (Bytes (takeWhile is_hex (drop 5 s))) @ r"
proof -
  have d: "drop 5 s = takeWhile is_hex (drop 5 s) @ CHR ''>'' # r"
    using takeWhile_dropWhile_id [of is_hex "drop 5 s"] assms(3) by simp
  obtain t where t: "s = ''<b 0x'' @ t" using assms(1) by (auto simp: starts_with_iff)
  then have "drop 5 s = t" by simp
  with d t show ?thesis by simp
qed

lemma cps_match_Some:
  assumes m: "cps_match s = Some (tag, r)" and c: "contribution tag field = Inr n"
  shows "s = tag_text tag @ r \<and> tag_ok tag \<and> tag_size tag = n \<and> n \<le> 1000"
proof -
  have rnd: "s = tag_text tag @ r \<and> tag_ok tag \<and> tag_size tag = n \<and> n \<le> 1000"
    if p: "starts_with (''<'' @ kind @ '' '') s" and k: "kind \<in> {''r'', ''rc'', ''rd''}"
      and z: "random_size kind (drop (length kind + 2) s) = Some (tag, r)" for kind
  proof -
    obtain i where i: "tag = Random kind i" "0 < i"
      "drop (length kind + 2) s = dec_nat i @ CHR ''>'' # r"
      using random_size_Some [OF z] by blast
    have "s = (''<'' @ kind @ '' '') @ drop (length kind + 2) s"
      using starts_with_drop [OF p] by simp
    then show ?thesis using i k c by (simp add: contribution_def split: if_splits)
  qed
  consider (b) "starts_with ''<b 0x'' s" | (t) "\<not> starts_with ''<b 0x'' s" "starts_with ''<t'' s"
    | (r) "starts_with ''<r '' s" "random_size ''r'' (drop 3 s) = Some (tag, r)"
    | (rc) "starts_with ''<rc '' s" "random_size ''rc'' (drop 4 s) = Some (tag, r)"
    | (rd) "starts_with ''<rd '' s" "random_size ''rd'' (drop 4 s) = Some (tag, r)"
    using m by (auto simp: cps_match_def split: if_splits)
  then show ?thesis
  proof cases
    case b
    then have h: "takeWhile is_hex (drop 5 s) \<noteq> []"
      "dropWhile is_hex (drop 5 s) = CHR ''>'' # r" "tag = Bytes (takeWhile is_hex (drop 5 s))"
      using m by (auto simp: cps_match_def Let_def closing_Some split: if_splits)
    have "list_all is_hex (takeWhile is_hex (drop 5 s))"
      by (auto simp: list_all_iff dest: set_takeWhileD)
    then show ?thesis
      using bytes_match [OF b h(1,2)] h c
      by (auto simp: contribution_def even_iff_mod_2_eq_zero split: if_splits)
  next
    case t
    then have "tag = Timestamp" "drop 2 s = CHR ''>'' # r"
      using m by (auto simp: cps_match_def closing_Some split: if_splits)
    moreover obtain u where u: "s = ''<t'' @ u" using t(2) by (auto simp: starts_with_iff)
    ultimately show ?thesis using c by (simp add: contribution_def)
  next
    case r then show ?thesis using rnd [of "''r''"] by (simp add: eval_nat_numeral)
  next
    case rc then show ?thesis using rnd [of "''rc''"] by (simp add: eval_nat_numeral)
  next
    case rd then show ?thesis using rnd [of "''rd''"] by (simp add: eval_nat_numeral)
  qed
qed

lemma contribution_ok:
  assumes "tag_ok tag" "tag_size tag \<le> 1000"
  shows "contribution tag field = Inr (tag_size tag)"
proof (cases tag)
  case (Bytes h)
  with assms have "length h div 2 \<noteq> 0" by (cases h rule: list.exhaust) (auto elim!: evenE)
  with Bytes assms show ?thesis by (simp add: contribution_def even_iff_mod_2_eq_zero)
qed (use assms in \<open>auto simp: contribution_def\<close>)

lemma cps_scan_sound:
  "cps_scan field used s = Inr used' \<Longrightarrow> used \<le> 1000 \<Longrightarrow>
     \<exists>ts. s = tags_text ts \<and> list_all tag_ok ts \<and> used' = used + packet_size ts \<and> used' \<le> 1000"
proof (induction field used s rule: cps_scan.induct)
  case (1 field used s)
  show ?case
  proof (cases "s = []")
    case True
    with "1.prems" show ?thesis
      by (intro exI [of _ "[]"]) (auto simp: cps_scan.simps tags_text_def packet_size_def)
  next
    case False
    with "1.prems" obtain tag r n where m: "cps_match s = Some (tag, r)"
      and c: "contribution tag field = Inr n" and le: "\<not> used + n > 1000"
      and rest: "cps_scan field (used + n) r = Inr used'"
      by (subst (asm) cps_scan.simps) (auto simp: result_simps split: option.splits if_splits)
    have "\<exists>ts. r = tags_text ts \<and> list_all tag_ok ts \<and> used' = used + n + packet_size ts
        \<and> used' \<le> 1000"
      using "1.IH" [OF False m _ le rest] le by simp
    then obtain ts where "r = tags_text ts" "list_all tag_ok ts"
      "used' = used + n + packet_size ts" "used' \<le> 1000" by blast
    then show ?thesis using cps_match_Some [OF m c]
      by (intro exI [of _ "tag # ts"]) (simp add: tags_text_def packet_size_def)
  qed
qed

lemma tag_text_nonempty [simp]: "tag_text tag \<noteq> []"
  by (cases tag) auto

lemma cps_scan_complete:
  assumes "list_all tag_ok ts" and "used + packet_size ts \<le> 1000"
  shows "cps_scan field used (tags_text ts) = Inr (used + packet_size ts)"
  using assms
proof (induction ts arbitrary: used)
  case Nil
  then show ?case by (simp add: cps_scan.simps tags_text_def packet_size_def)
next
  case (Cons tag ts)
  then have t: "tag_ok tag" "tag_size tag \<le> 1000" "used + tag_size tag \<le> 1000"
    by (auto simp: packet_size_def)
  have split: "tags_text (tag # ts) = tag_text tag @ tags_text ts" by (simp add: tags_text_def)
  have "cps_scan field used (tags_text (tag # ts)) = cps_scan field (used + tag_size tag) (tags_text ts)"
    unfolding split
    by (subst cps_scan.simps) (use t in \<open>simp add: cps_match_text contribution_ok\<close>)
  also have "\<dots> = Inr (used + tag_size tag + packet_size ts)"
    using Cons.prems by (intro Cons.IH) (simp_all add: packet_size_def)
  finally show ?case by (simp add: packet_size_def)
qed

definition cps_ok :: "int \<Rightarrow> string \<Rightarrow> bool" where
  "cps_ok mtu s \<longleftrightarrow>
     s \<noteq> [] \<and> (\<exists>ts. s = tags_text ts \<and> list_all tag_ok ts \<and> packet_size ts \<le> 1000
       \<and> int (packet_size ts) < mtu)"

lemma validate_cps_Inr: "validate_cps v field mtu = Inr s \<longleftrightarrow> v = JStr s \<and> cps_ok mtu s"
proof
  assume a: "validate_cps v field mtu = Inr s"
  then obtain used where v: "v = JStr s" "s \<noteq> []" "cps_scan field 0 s = Inr used" "int used < mtu"
    by (cases v) (auto simp: validate_cps_def result_simps split: if_splits)
  from cps_scan_sound [OF v(3)] v show "v = JStr s \<and> cps_ok mtu s"
    by (auto simp: cps_ok_def)
next
  assume a: "v = JStr s \<and> cps_ok mtu s"
  then obtain ts where ts: "s = tags_text ts" "list_all tag_ok ts" "packet_size ts \<le> 1000"
    "int (packet_size ts) < mtu" "s \<noteq> []" by (auto simp: cps_ok_def)
  then show "validate_cps v field mtu = Inr s"
    using a cps_scan_complete [of ts 0 field] by (simp add: validate_cps_def)
qed

text \<open>
  C37: \<open>validate_cps\<close> accepts exactly the texts that are nonempty sequences of well-formed tags
  (an even number of hexadecimal digits, a timestamp, or a positive count of random bytes)
  whose packet has at most 1000 bytes and fits below the MTU, and returns the text unchanged.
  The scanning loop computes the size of the packet the specification stands for.
\<close>

theorem validate_cps_grammar:
  "validate_cps (JStr s) field mtu = Inr t \<longleftrightarrow>
     t = s \<and> (\<exists>ts. ts \<noteq> [] \<and> s = concat (map tag_text ts) \<and> list_all tag_ok ts
       \<and> packet_size ts \<le> 1000 \<and> int (packet_size ts) < mtu)"
proof -
  have "s \<noteq> [] \<longleftrightarrow> ts \<noteq> []" if "s = tags_text ts" for ts
    using that by (cases ts) (auto simp: tags_text_def)
  then have "cps_ok mtu s \<longleftrightarrow> (\<exists>ts. ts \<noteq> [] \<and> s = tags_text ts \<and> list_all tag_ok ts
       \<and> packet_size ts \<le> 1000 \<and> int (packet_size ts) < mtu)"
    unfolding cps_ok_def by blast
  then show ?thesis unfolding validate_cps_Inr tags_text_def by auto
qed

interpretation cps: validator "\<lambda>v. validate_cps v field mtu" JStr "cps_ok mtu" for field mtu
  by unfold_locales (simp_all add: validate_cps_Inr)

section \<open>The profiles\<close>

text \<open>The integer under a key of a normalised dict.\<close>

definition num :: "obj \<Rightarrow> string \<Rightarrow> int" where
  "num m f = (case get m f of JInt n \<Rightarrow> n | _ \<Rightarrow> 0)"

definition integer_fields :: "obj \<Rightarrow> string list \<Rightarrow> int \<Rightarrow> obj result" where
  "integer_fields m fields maximum =
     result_list (\<lambda>f. andthen (item m f) (\<lambda>v.
       andthen (strict_integer v f maximum) (\<lambda>n. Inr (f, JInt n)))) fields"

definition classic_profile :: "json \<Rightarrow> obj result" where
  "classic_profile v =
     (case v of
        JObj m \<Rightarrow>
          if \<not> keys_are m obfuscation_fields
          then Inl (AwgctlError
            ''classic AmneziaWG obfuscation fields are incomplete or unexpected'')
          else andthen (integer_fields m obfuscation_fields header_maximum) (\<lambda>r.
            if num r ''Jmin'' > num r ''Jmax'' then Inl (AwgctlError ''Jmin must not exceed Jmax'')
            else andthen (validate_header_ranges r) (\<lambda>_.
            if num r ''S1'' + 56 = num r ''S2''
            then Inl (AwgctlError ''classic handshake packet lengths are ambiguous'')
            else Inr r))
      | _ \<Rightarrow> Inl (AwgctlError ''classic obfuscation parameters must be an object''))"

definition cps_fields :: "obj \<Rightarrow> int \<Rightarrow> obj result" where
  "cps_fields m mtu =
     result_list (\<lambda>f. andthen (item m f) (\<lambda>v.
       if v = JNull then Inr (f, JNull)
       else andthen (validate_cps v f mtu) (\<lambda>s. Inr (f, JStr s)))) awg31_cps_fields"

definition range_fields :: "obj \<Rightarrow> obj result" where
  "range_fields m =
     result_list (\<lambda>f. andthen (item m f) (\<lambda>v.
       andthen (normalize_closed_range v f 65535) (\<lambda>r. Inr (f, r)))) awg31_range_fields"

definition boolean_fields :: "obj \<Rightarrow> obj result" where
  "boolean_fields m =
     result_list (\<lambda>f. andthen (item m f) (\<lambda>v.
       if is_bool v then Inr (f, v)
       else Inl (AwgctlError (''invalid obfuscation switch: '' @ f)))) awg31_boolean_fields"

definition required_bounds :: "(string \<times> int \<times> int) list" where
  "required_bounds =
     [(''Jc'', 6, 12), (''S1'', 20, 120), (''S2'', 20, 120), (''S3'', 12, 60), (''S4'', 12, 30)]"

definition required_ranges :: obj where
  "required_ranges =
     [(''ContentPaddingAddition'', range_object 0 64), (''RekeyAfterTime'', range_object 105 135),
      (''RekeyTimeout'', range_object 4 7), (''RejectAfterTime'', range_object 165 195),
      (''KeepaliveTimeout'', range_object 8 12), (''MaxHandshakeAttempts'', range_object 15 21)]"

text \<open>The checks of the fixed policy, in the order they are made.\<close>

definition russia_policy :: "obj \<Rightarrow> unit result" where
  "russia_policy r =
     andthen (check (get r ''RandomTrailers'' = JBool False \<and> get r ''DisableCookies'' = JBool True)
       (AwgctlError ''russia-ios-v1 requires trailers off and cookies disabled'')) (\<lambda>_.
     andthen (check (list_all (\<lambda>(f, lo, hi). lo \<le> num r f \<and> num r f \<le> hi) required_bounds)
       (AwgctlError ''russia-ios-v1 randomized value is outside its profile bounds'')) (\<lambda>_.
     andthen (check (num r ''S1'' + 56 \<noteq> num r ''S2'')
       (AwgctlError ''classic handshake packet lengths are ambiguous'')) (\<lambda>_.
     andthen (check (num r ''Jmin'' = 8 \<and> num r ''Jmax'' = 80)
       (AwgctlError ''russia-ios-v1 requires fixed junk-size bounds'')) (\<lambda>_.
     andthen (check (map (\<lambda>f. range_bounds (get r f)) awg31_header_fields
           = [(1, 1), (2, 2), (3, 3), (4, 4)])
       (AwgctlError ''russia-ios-v1 requires fixed header values'')) (\<lambda>_.
     andthen (check (list_all (\<lambda>f. get r f = JNull) (tl awg31_cps_fields))
       (AwgctlError ''russia-ios-v1 leaves I2-I5 unset'')) (\<lambda>_.
     check (list_all (\<lambda>(f, e). get r f = e) required_ranges)
       (AwgctlError ''russia-ios-v1 timing or padding range differs from policy'')))))))"

definition awg31_parameters :: "obj \<Rightarrow> int \<Rightarrow> obj result" where
  "awg31_parameters m mtu =
     andthen (integer_fields m awg31_integer_fields 65535) (\<lambda>ints.
     andthen (check (num ints ''Jmin'' \<le> num ints ''Jmax'')
       (AwgctlError ''Jmin must not exceed Jmax'')) (\<lambda>_.
     andthen (validate_header_ranges m) (\<lambda>headers.
     andthen (cps_fields m mtu) (\<lambda>cps.
     andthen (check (get cps ''I1'' \<noteq> JNull)
       (AwgctlError ''russia-ios-v1 requires nonempty I1'')) (\<lambda>_.
     andthen (range_fields m) (\<lambda>ranges.
     andthen (boolean_fields m) (\<lambda>bools.
     let r = ints @ headers @ cps @ ranges @ bools
     in andthen (russia_policy r) (\<lambda>_. Inr r))))))))"

definition profile_fields :: "string list" where
  "profile_fields = [''schema_version'', ''name'', ''parameters'', ''header_protection_key_path'']"

definition normalize_awg31_profile :: "json \<Rightarrow> int \<Rightarrow> obj result" where
  "normalize_awg31_profile v mtu =
     (case v of
        JObj p \<Rightarrow>
          andthen (reject_unknown_fields p profile_fields ''obfuscation profile'') (\<lambda>_.
          andthen (check (keys_are p profile_fields \<and> get p ''schema_version'' = JInt 1)
            (AwgctlError ''invalid AWG 3.1 obfuscation profile contract'')) (\<lambda>_.
          andthen (check (get p ''name'' = JStr ''russia-ios-v1'')
            (AwgctlError ''unsupported AWG 3.1 obfuscation profile'')) (\<lambda>_.
          andthen (check (get p ''header_protection_key_path'' = JStr header_protection_key)
            (AwgctlError
              ''AWG 3.1 header-protection key path is outside the protected layout'')) (\<lambda>_.
          case get p ''parameters'' of
            JObj m \<Rightarrow>
              andthen (reject_unknown_fields m awg31_parameter_fields ''AWG 3.1 parameters'') (\<lambda>_.
              andthen (check (keys_are m awg31_parameter_fields)
                (AwgctlError ''AWG 3.1 obfuscation fields are incomplete'')) (\<lambda>_.
              awg31_parameters m mtu))
          | _ \<Rightarrow> Inl (AwgctlError ''AWG 3.1 obfuscation parameters must be an object'')))))
      | _ \<Rightarrow> Inl (AwgctlError ''obfuscation profile must be an object''))"

datatype obfuscation = Classic obj | Awg31 obj

definition classic_profile_fields :: "string list" where
  "classic_profile_fields = [''schema_version'', ''name'', ''parameters'']"

definition normalize_obfuscation :: "json \<Rightarrow> int \<Rightarrow> obfuscation result" where
  "normalize_obfuscation v mtu =
     (case v of
        JObj m \<Rightarrow>
          andthen (reject_unknown_fields m [''mode'', ''profile''] ''obfuscation'') (\<lambda>_.
          andthen (check (keys_are m [''mode'', ''profile''])
            (AwgctlError ''obfuscation mode and profile are required'')) (\<lambda>_.
          if get m ''mode'' = JStr ''classic'' then
            (case get m ''profile'' of
               JObj p \<Rightarrow>
                 andthen (reject_unknown_fields p classic_profile_fields ''obfuscation profile'') (\<lambda>_.
                 andthen (check (keys_are p classic_profile_fields)
                   (AwgctlError ''invalid classic obfuscation profile contract'')) (\<lambda>_.
                 andthen (check (get p ''schema_version'' = JInt 1
                     \<and> get p ''name'' = JStr ''classic-v1'')
                   (AwgctlError ''unsupported classic obfuscation profile'')) (\<lambda>_.
                 andthen (classic_profile (get p ''parameters'')) (\<lambda>r. Inr (Classic r)))))
             | _ \<Rightarrow> Inl (AwgctlError ''obfuscation profile must be an object''))
          else if get m ''mode'' = JStr ''awg31'' then
            andthen (normalize_awg31_profile (get m ''profile'') mtu) (\<lambda>r. Inr (Awg31 r))
          else Inl (AwgctlError ''obfuscation mode must be classic or awg31'')))
      | _ \<Rightarrow> Inl (AwgctlError ''obfuscation must be an object''))"

text \<open>The stored form of a normalised obfuscation.\<close>

fun obfuscation_json :: "obfuscation \<Rightarrow> json" where
  "obfuscation_json (Classic r) =
     JObj [(''mode'', JStr ''classic''),
           (''profile'', JObj [(''schema_version'', JInt 1), (''name'', JStr ''classic-v1''),
                               (''parameters'', JObj r)])]"
| "obfuscation_json (Awg31 r) =
     JObj [(''mode'', JStr ''awg31''),
           (''profile'', JObj [(''schema_version'', JInt 1), (''name'', JStr ''russia-ios-v1''),
                               (''parameters'', JObj r),
                               (''header_protection_key_path'', JStr header_protection_key)])]"

section \<open>What the profiles admit\<close>

lemma comprehension_iff:
  assumes "distinct fs" and "\<forall>f\<in>set fs. item m f = Inr (get m f)"
  shows "result_list (\<lambda>f. andthen (item m f) (\<lambda>v. andthen (h v f) (\<lambda>w. Inr (f, w)))) fs = Inr r
    \<longleftrightarrow> keys r = fs \<and> (\<forall>f\<in>set fs. h (get m f) f = Inr (get r f))"
  using assms
proof (induction fs arbitrary: r)
  case Nil
  then show ?case by (auto simp: keys_def)
next
  case (Cons f fs)
  let ?g = "\<lambda>f. andthen (item m f) (\<lambda>v. andthen (h v f) (\<lambda>w. Inr (f, w)))"
  have other: "(\<forall>g\<in>set fs. h (get m g) g = Inr (get ((f, w) # r') g)) \<longleftrightarrow>
      (\<forall>g\<in>set fs. h (get m g) g = Inr (get r' g))" for w r'
    using Cons.prems(1) by (intro ball_cong) (auto simp: get_def)
  have "result_list ?g (f # fs) = Inr r \<longleftrightarrow>
      (\<exists>w r'. r = (f, w) # r' \<and> h (get m f) f = Inr w \<and> result_list ?g fs = Inr r')"
    using Cons.prems(2) by (auto simp: result_simps)
  also have "\<dots> \<longleftrightarrow> (\<exists>w r'. r = (f, w) # r' \<and> h (get m f) f = Inr w \<and> keys r' = fs
      \<and> (\<forall>g\<in>set fs. h (get m g) g = Inr (get r' g)))"
    using Cons by simp
  also have "\<dots> \<longleftrightarrow> keys r = f # fs \<and> (\<forall>g\<in>set (f # fs). h (get m g) g = Inr (get r g))"
  proof
    assume "\<exists>w r'. r = (f, w) # r' \<and> h (get m f) f = Inr w \<and> keys r' = fs
      \<and> (\<forall>g\<in>set fs. h (get m g) g = Inr (get r' g))"
    then obtain w r' where "r = (f, w) # r'" "h (get m f) f = Inr w" "keys r' = fs"
      "\<forall>g\<in>set fs. h (get m g) g = Inr (get r' g)" by blast
    then show "keys r = f # fs \<and> (\<forall>g\<in>set (f # fs). h (get m g) g = Inr (get r g))"
      using other by (simp add: keys_def)
  next
    assume k: "keys r = f # fs \<and> (\<forall>g\<in>set (f # fs). h (get m g) g = Inr (get r g))"
    then obtain w r' where r: "r = (f, w) # r'" by (cases r) (auto simp: keys_def)
    with k have "keys r' = fs" "h (get m f) f = Inr w" by (auto simp: keys_def get_def)
    with k r other Cons.prems(1) show "\<exists>w r'. r = (f, w) # r' \<and> h (get m f) f = Inr w \<and> keys r' = fs
      \<and> (\<forall>g\<in>set fs. h (get m g) g = Inr (get r' g))" by simp
  qed
  finally show ?case .
qed

lemma field_values:
  assumes "\<forall>f\<in>set fs. f \<in> set (keys m)" and "distinct fs"
  shows "integer_fields m fs maximum = Inr r \<longleftrightarrow>
      keys r = fs \<and> (\<forall>f\<in>set fs. \<exists>n. get m f = JInt n \<and> get r f = JInt n \<and> 0 \<le> n \<and> n \<le> maximum)"
proof -
  have e: "andthen (strict_integer (get m f) f maximum) (\<lambda>n. Inr (JInt n)) = Inr (get r f) \<longleftrightarrow>
      (\<exists>n. get m f = JInt n \<and> get r f = JInt n \<and> 0 \<le> n \<and> n \<le> maximum)" for f
    by (auto simp: result_simps strict_integer_Inr)
  have "integer_fields m fs maximum = result_list (\<lambda>f. andthen (item m f) (\<lambda>v.
      andthen (andthen (strict_integer v f maximum) (\<lambda>n. Inr (JInt n))) (\<lambda>w. Inr (f, w)))) fs"
    by (simp add: integer_fields_def andthen_assoc)
  also have "\<dots> = Inr r \<longleftrightarrow> keys r = fs \<and> (\<forall>f\<in>set fs.
      andthen (strict_integer (get m f) f maximum) (\<lambda>n. Inr (JInt n)) = Inr (get r f))"
    using assms(1) by (intro comprehension_iff [OF assms(2)]) (simp add: item_keys)
  finally show ?thesis unfolding e .
qed

lemma header_values:
  assumes "set awg31_header_fields \<subseteq> set (keys m)"
  shows "validate_header_ranges m = Inr r \<longleftrightarrow>
      keys r = awg31_header_fields
      \<and> (\<forall>f\<in>set awg31_header_fields. normalize_closed_range (get m f) f header_maximum = Inr (get r f))
      \<and> \<not> overlapping (map (get r) awg31_header_fields)"
proof -
  have "map (get r) (keys r) = map snd r" if "distinct (keys r)"
    using that by (induction r) (auto simp: get_def keys_def image_iff)
  moreover have d: "distinct awg31_header_fields" by (simp add: awg31_header_fields_def)
  ultimately have s: "map snd r = map (get r) awg31_header_fields" if "keys r = awg31_header_fields"
    using that by metis
  have i: "\<forall>f\<in>set awg31_header_fields. item m f = Inr (get m f)"
    using assms by (auto simp: item_keys)
  show ?thesis
    unfolding validate_header_ranges_def andthen_Inr_iff if_Inl_iff
      comprehension_iff [OF d i, of "\<lambda>v f. normalize_closed_range v f header_maximum"]
    using s by auto
qed

definition classic_ok :: "obj \<Rightarrow> bool" where
  "classic_ok r \<longleftrightarrow>
     keys r = obfuscation_fields
     \<and> (\<forall>f\<in>set obfuscation_fields. \<exists>n. get r f = JInt n \<and> 0 \<le> n \<and> n \<le> header_maximum)
     \<and> num r ''Jmin'' \<le> num r ''Jmax'' \<and> num r ''S1'' + 56 \<noteq> num r ''S2''
     \<and> distinct (map (num r) awg31_header_fields)"

lemma distinct_fields:
  "distinct obfuscation_fields" "distinct awg31_integer_fields" "distinct awg31_header_fields"
  "distinct awg31_cps_fields" "distinct awg31_range_fields" "distinct awg31_boolean_fields"
  by (simp_all add: field_defs)

lemma field_subsets:
  "set awg31_header_fields \<subseteq> set obfuscation_fields"
  "set awg31_integer_fields \<subseteq> set awg31_parameter_fields"
  "set awg31_header_fields \<subseteq> set awg31_parameter_fields"
  "set awg31_cps_fields \<subseteq> set awg31_parameter_fields"
  "set awg31_range_fields \<subseteq> set awg31_parameter_fields"
  "set awg31_boolean_fields \<subseteq> set awg31_parameter_fields"
  by (auto simp: field_defs)

lemma scalar_headers:
  assumes k: "set awg31_header_fields \<subseteq> set (keys r)"
    and n: "\<forall>f\<in>set awg31_header_fields. \<exists>n. get r f = JInt n \<and> 0 \<le> n \<and> n \<le> header_maximum"
  shows "(\<exists>h. validate_header_ranges r = Inr h) \<longleftrightarrow> distinct (map (num r) awg31_header_fields)"
proof -
  let ?h = "map (\<lambda>f. (f, get r f)) awg31_header_fields"
  have h: "keys ?h = awg31_header_fields" by (simp add: keys_def o_def)
  have g: "\<forall>f\<in>set awg31_header_fields. get ?h f = get r f"
    by (simp add: awg31_header_fields_def)
  have v: "get r f = JInt (num r f)" if "f \<in> set awg31_header_fields" for f
    using n that by (auto simp: num_def)
  have c: "normalize_closed_range (get r f) f header_maximum = Inr (get r f)"
    if "f \<in> set awg31_header_fields" for f
    using n that by (intro closed_range_normal) (auto simp: closed_range_def)
  have o1: "overlapping (map (get r) awg31_header_fields) \<longleftrightarrow>
      overlapping (map JInt (map (num r) awg31_header_fields))"
    using v by (simp add: awg31_header_fields_def)
  have o2: "overlapping (map JInt ns) \<longleftrightarrow> \<not> distinct ns" for ns
    by (induction ns) (auto simp: list_ex_iff overlap_def)
  have e: "validate_header_ranges r = Inr h \<Longrightarrow> map (get h) awg31_header_fields = map (get r) awg31_header_fields" for h
    using c unfolding header_values [OF k] by simp
  have m: "map (get ?h) awg31_header_fields = map (get r) awg31_header_fields"
    using g by (simp only: map_eq_conv) 
  show ?thesis
  proof
    assume "\<exists>h. validate_header_ranges r = Inr h"
    then obtain h where hh: "validate_header_ranges r = Inr h" by blast
    then have "\<not> overlapping (map (get h) awg31_header_fields)" unfolding header_values [OF k] by blast
    then show "distinct (map (num r) awg31_header_fields)" unfolding e [OF hh] o1 o2 by simp
  next
    assume "distinct (map (num r) awg31_header_fields)"
    then have "validate_header_ranges r = Inr ?h"
      unfolding header_values [OF k] using h g c unfolding m o1 o2 by simp
    then show "\<exists>h. validate_header_ranges r = Inr h" by blast
  qed
qed

lemma classic_profile_JObj:
  assumes "keys_are m obfuscation_fields"
  shows "classic_profile (JObj m) = Inr r \<longleftrightarrow>
    integer_fields m obfuscation_fields header_maximum = Inr r
    \<and> num r ''Jmin'' \<le> num r ''Jmax'' \<and> num r ''S1'' + 56 \<noteq> num r ''S2''
    \<and> (\<exists>h. validate_header_ranges r = Inr h)"
  using assms by (auto simp: classic_profile_def result_simps if_Inl_iff)

lemma integer_values_scalar:
  assumes "keys r = obfuscation_fields"
    and "\<forall>f\<in>set obfuscation_fields. \<exists>n. get m f = JInt n \<and> get r f = JInt n \<and> 0 \<le> n \<and> n \<le> header_maximum"
  shows "(\<exists>h. validate_header_ranges r = Inr h) \<longleftrightarrow> distinct (map (num r) awg31_header_fields)"
  using assms field_subsets(1) by (intro scalar_headers) (simp, blast)

lemma classic_profile_ok: "classic_profile v = Inr r \<Longrightarrow> classic_ok r"
proof -
  assume a: "classic_profile v = Inr r"
  then obtain m where v: "v = JObj m" and k: "keys_are m obfuscation_fields"
    by (cases v) (auto simp: classic_profile_def split: if_splits)
  have s: "\<forall>f\<in>set obfuscation_fields. f \<in> set (keys m)" using k by (simp add: keys_are_def)
  from a show "classic_ok r"
    unfolding v classic_profile_JObj [OF k] field_values [OF s distinct_fields(1)] classic_ok_def
    using integer_values_scalar [of r m] by blast
qed

lemma classic_profile_id: "classic_ok r \<Longrightarrow> classic_profile (JObj r) = Inr r"
proof -
  assume a: "classic_ok r"
  then have k: "keys_are r obfuscation_fields" by (simp add: classic_ok_def keys_are_def)
  have s: "\<forall>f\<in>set obfuscation_fields. f \<in> set (keys r)" using k by (simp add: keys_are_def)
  have i: "\<forall>f\<in>set obfuscation_fields.
      \<exists>n. get r f = JInt n \<and> get r f = JInt n \<and> 0 \<le> n \<and> n \<le> header_maximum"
    and r: "keys r = obfuscation_fields" using a unfolding classic_ok_def by blast+
  from a show "classic_profile (JObj r) = Inr r"
    unfolding classic_profile_JObj [OF k] field_values [OF s distinct_fields(1)] classic_ok_def
    using integer_values_scalar [OF r i] by blast
qed

interpretation classic: validator classic_profile JObj classic_ok
  by unfold_locales (rule classic_profile_ok classic_profile_id, assumption)+

text \<open>What the fixed policy leaves open: five sizes, the spelling of the headers, and I1.\<close>

definition header_values_fixed :: "(string \<times> int) list" where
  "header_values_fixed = [(''H1'', 1), (''H2'', 2), (''H3'', 3), (''H4'', 4)]"

definition awg31_ok :: "int \<Rightarrow> obj \<Rightarrow> bool" where
  "awg31_ok mtu r \<longleftrightarrow>
     keys r = awg31_parameter_fields
     \<and> (\<forall>(f, lo, hi)\<in>set required_bounds. \<exists>n. get r f = JInt n \<and> lo \<le> n \<and> n \<le> hi)
     \<and> get r ''Jmin'' = JInt 8 \<and> get r ''Jmax'' = JInt 80
     \<and> num r ''S1'' + 56 \<noteq> num r ''S2''
     \<and> (\<forall>(f, n)\<in>set header_values_fixed. get r f = JInt n \<or> get r f = range_object n n)
     \<and> (\<exists>s. get r ''I1'' = JStr s \<and> cps_ok mtu s)
     \<and> (\<forall>f\<in>set (tl awg31_cps_fields). get r f = JNull)
     \<and> (\<forall>(f, v)\<in>set required_ranges. get r f = v)
     \<and> get r ''RandomTrailers'' = JBool False \<and> get r ''DisableCookies'' = JBool True"

definition cps_value :: "int \<Rightarrow> json \<Rightarrow> string \<Rightarrow> json result" where
  "cps_value mtu v f = (if v = JNull then Inr JNull else andthen (validate_cps v f mtu) (\<lambda>s. Inr (JStr s)))"

definition bool_value :: "json \<Rightarrow> string \<Rightarrow> json result" where
  "bool_value v f = (if is_bool v then Inr v else Inl (AwgctlError (''invalid obfuscation switch: '' @ f)))"

lemma cps_values:
  assumes "set awg31_cps_fields \<subseteq> set (keys m)"
  shows "cps_fields m mtu = Inr r \<longleftrightarrow>
    keys r = awg31_cps_fields \<and> (\<forall>f\<in>set awg31_cps_fields. cps_value mtu (get m f) f = Inr (get r f))"
proof -
  have i: "\<forall>f\<in>set awg31_cps_fields. item m f = Inr (get m f)"
    using assms by (auto simp: item_keys)
  have "cps_fields m mtu = result_list (\<lambda>f. andthen (item m f) (\<lambda>v. andthen (cps_value mtu v f)
      (\<lambda>w. Inr (f, w)))) awg31_cps_fields"
    unfolding cps_fields_def cps_value_def by (simp add: if_distrib [of "\<lambda>x. andthen x _"] andthen_assoc cong: if_cong)
  then show ?thesis using comprehension_iff [OF distinct_fields(4) i, of "cps_value mtu" r] by simp
qed

lemma range_values_iff:
  assumes "set awg31_range_fields \<subseteq> set (keys m)"
  shows "range_fields m = Inr r \<longleftrightarrow>
    keys r = awg31_range_fields
    \<and> (\<forall>f\<in>set awg31_range_fields. normalize_closed_range (get m f) f 65535 = Inr (get r f))"
proof -
  have i: "\<forall>f\<in>set awg31_range_fields. item m f = Inr (get m f)"
    using assms by (auto simp: item_keys)
  show ?thesis
    unfolding range_fields_def
    by (rule comprehension_iff [OF distinct_fields(5) i, of "\<lambda>v f. normalize_closed_range v f 65535"])
qed

lemma bool_values:
  assumes "set awg31_boolean_fields \<subseteq> set (keys m)"
  shows "boolean_fields m = Inr r \<longleftrightarrow>
    keys r = awg31_boolean_fields \<and> (\<forall>f\<in>set awg31_boolean_fields. bool_value (get m f) f = Inr (get r f))"
proof -
  have i: "\<forall>f\<in>set awg31_boolean_fields. item m f = Inr (get m f)"
    using assms by (auto simp: item_keys)
  have "boolean_fields m = result_list (\<lambda>f. andthen (item m f) (\<lambda>v. andthen (bool_value v f)
      (\<lambda>w. Inr (f, w)))) awg31_boolean_fields"
    unfolding boolean_fields_def bool_value_def
    by (simp add: if_distrib [of "\<lambda>x. andthen x _"] cong: if_cong)
  then show ?thesis using comprehension_iff [OF distinct_fields(6) i, of bool_value r] by simp
qed

lemma closed_range_fixed:
  assumes "closed_range maximum v"
  shows "range_bounds v = (n, n) \<longleftrightarrow> v = JInt n \<or> v = range_object n n"
  using assms by (auto simp: closed_range_def)

text \<open>The policy over a dict with all fields.\<close>

lemma russia_policy_iff:
  assumes i: "\<forall>f\<in>set awg31_integer_fields. \<exists>n. get r f = JInt n"
    and h: "\<forall>f\<in>set awg31_header_fields. closed_range header_maximum (get r f)"
  shows "russia_policy r = Inr u \<longleftrightarrow>
     (\<forall>(f, lo, hi)\<in>set required_bounds. \<exists>n. get r f = JInt n \<and> lo \<le> n \<and> n \<le> hi)
     \<and> get r ''Jmin'' = JInt 8 \<and> get r ''Jmax'' = JInt 80
     \<and> num r ''S1'' + 56 \<noteq> num r ''S2''
     \<and> (\<forall>(f, n)\<in>set header_values_fixed. get r f = JInt n \<or> get r f = range_object n n)
     \<and> (\<forall>f\<in>set (tl awg31_cps_fields). get r f = JNull)
     \<and> (\<forall>(f, v)\<in>set required_ranges. get r f = v)
     \<and> get r ''RandomTrailers'' = JBool False \<and> get r ''DisableCookies'' = JBool True"
proof -
  have n: "get r f = JInt (num r f)" if "f \<in> set awg31_integer_fields" for f
    using i that by (auto simp: num_def)
  have ints: "get r ''Jc'' = JInt (num r ''Jc'')" "get r ''S1'' = JInt (num r ''S1'')"
    "get r ''S2'' = JInt (num r ''S2'')" "get r ''S3'' = JInt (num r ''S3'')"
    "get r ''S4'' = JInt (num r ''S4'')" "get r ''Jmin'' = JInt (num r ''Jmin'')"
    "get r ''Jmax'' = JInt (num r ''Jmax'')"
    by (rule n, simp add: awg31_integer_fields_def)+
  have b: "list_all (\<lambda>(f, lo, hi). lo \<le> num r f \<and> num r f \<le> hi) required_bounds \<longleftrightarrow>
      (\<forall>(f, lo, hi)\<in>set required_bounds. \<exists>n. get r f = JInt n \<and> lo \<le> n \<and> n \<le> hi)"
    unfolding list_all_iff required_bounds_def by (simp add: ints)
  have j: "num r ''Jmin'' = 8 \<and> num r ''Jmax'' = 80 \<longleftrightarrow>
      get r ''Jmin'' = JInt 8 \<and> get r ''Jmax'' = JInt 80"
    using ints(6,7) by simp
  have c: "closed_range header_maximum (get r ''H1'')" "closed_range header_maximum (get r ''H2'')"
    "closed_range header_maximum (get r ''H3'')" "closed_range header_maximum (get r ''H4'')"
    using h by (simp_all add: awg31_header_fields_def)
  have hd: "map (\<lambda>f. range_bounds (get r f)) awg31_header_fields = [(1, 1), (2, 2), (3, 3), (4, 4)]
      \<longleftrightarrow> (\<forall>(f, n)\<in>set header_values_fixed. get r f = JInt n \<or> get r f = range_object n n)"
    unfolding awg31_header_fields_def header_values_fixed_def
    by (simp add: closed_range_fixed [OF c(1)] closed_range_fixed [OF c(2)]
        closed_range_fixed [OF c(3)] closed_range_fixed [OF c(4)])
  show ?thesis
    unfolding russia_policy_def andthen_Inr_iff check_Inr_iff b j hd
    unfolding list_all_iff 
    by (simp only: simp_thms ex_simps) (intro iffI conjI; elim conjE; assumption)
qed


lemma cps_value_Inr: "cps_value mtu v f = Inr w \<longleftrightarrow> w = v \<and> (v = JNull \<or> (\<exists>s. v = JStr s \<and> cps_ok mtu s))"
  by (auto simp: cps_value_def result_simps validate_cps_Inr)

lemma bool_value_Inr: "bool_value v f = Inr w \<longleftrightarrow> w = v \<and> is_bool v"
  by (auto simp: bool_value_def)

text \<open>The concatenated dict has all fields, and each part answers for its own.\<close>

lemma parts_get:
  assumes k: "keys ints = awg31_integer_fields" "keys headers = awg31_header_fields"
    "keys cps = awg31_cps_fields" "keys ranges = awg31_range_fields" "keys bools = awg31_boolean_fields"
  shows "keys (ints @ headers @ cps @ ranges @ bools) = awg31_parameter_fields"
    and "f \<in> set awg31_integer_fields \<Longrightarrow> get (ints @ headers @ cps @ ranges @ bools) f = get ints f"
    and "f \<in> set awg31_header_fields \<Longrightarrow> get (ints @ headers @ cps @ ranges @ bools) f = get headers f"
    and "f \<in> set awg31_cps_fields \<Longrightarrow> get (ints @ headers @ cps @ ranges @ bools) f = get cps f"
    and "f \<in> set awg31_range_fields \<Longrightarrow> get (ints @ headers @ cps @ ranges @ bools) f = get ranges f"
    and "f \<in> set awg31_boolean_fields \<Longrightarrow> get (ints @ headers @ cps @ ranges @ bools) f = get bools f"
proof -
  have d: "distinct (awg31_integer_fields @ awg31_header_fields @ awg31_cps_fields
      @ awg31_range_fields @ awg31_boolean_fields)"
    by code_simp
  show "keys (ints @ headers @ cps @ ranges @ bools) = awg31_parameter_fields"
    by (simp add: k awg31_parameter_fields_def)
  show "f \<in> set awg31_integer_fields \<Longrightarrow> get (ints @ headers @ cps @ ranges @ bools) f = get ints f"
    "f \<in> set awg31_header_fields \<Longrightarrow> get (ints @ headers @ cps @ ranges @ bools) f = get headers f"
    "f \<in> set awg31_cps_fields \<Longrightarrow> get (ints @ headers @ cps @ ranges @ bools) f = get cps f"
    "f \<in> set awg31_range_fields \<Longrightarrow> get (ints @ headers @ cps @ ranges @ bools) f = get ranges f"
    "f \<in> set awg31_boolean_fields \<Longrightarrow> get (ints @ headers @ cps @ ranges @ bools) f = get bools f"
    using d by (auto simp: get_append k)
qed

lemma keys_subsets:
  assumes "keys_are m awg31_parameter_fields"
  shows "\<forall>f\<in>set awg31_integer_fields. f \<in> set (keys m)" "set awg31_header_fields \<subseteq> set (keys m)"
    "set awg31_cps_fields \<subseteq> set (keys m)" "set awg31_range_fields \<subseteq> set (keys m)"
    "set awg31_boolean_fields \<subseteq> set (keys m)"
  using assms field_subsets(2-6) unfolding keys_are_def by blast+

lemma awg31_parameters_ok:
  assumes k: "keys_are m awg31_parameter_fields" and a: "awg31_parameters m mtu = Inr r"
  shows "awg31_ok mtu r"
proof -
  note s = keys_subsets [OF k]
  obtain ints headers cps ranges bools where
    i: "integer_fields m awg31_integer_fields 65535 = Inr ints"
    and h: "validate_header_ranges m = Inr headers" and c: "cps_fields m mtu = Inr cps"
    and c1: "get cps ''I1'' \<noteq> JNull" and g: "range_fields m = Inr ranges"
    and b: "boolean_fields m = Inr bools" and p: "russia_policy r = Inr ()"
    and r: "r = ints @ headers @ cps @ ranges @ bools"
    using a by (auto simp: awg31_parameters_def Let_def result_simps)
  note k' = i [unfolded field_values [OF s(1) distinct_fields(2)], THEN conjunct1]
    h [unfolded header_values [OF s(2)], THEN conjunct1]
    c [unfolded cps_values [OF s(3)], THEN conjunct1]
    g [unfolded range_values_iff [OF s(4)], THEN conjunct1]
    b [unfolded bool_values [OF s(5)], THEN conjunct1]
  note get_r = parts_get [OF k', folded r]
  have ints: "\<forall>f\<in>set awg31_integer_fields. \<exists>n. get r f = JInt n"
    using i unfolding field_values [OF s(1) distinct_fields(2)] by (metis get_r(2))
  have hdr: "\<forall>f\<in>set awg31_header_fields. closed_range header_maximum (get r f)"
    using h unfolding header_values [OF s(2)] by (metis get_r(3) normalize_closed_range_closed)
  have "''I1'' \<in> set awg31_cps_fields" by (simp add: awg31_cps_fields_def)
  then have "\<exists>t. get r ''I1'' = JStr t \<and> cps_ok mtu t"
    using c c1 get_r(4) [of "''I1''"] unfolding cps_values [OF s(3)] cps_value_Inr by metis
  then show ?thesis
    using p get_r(1) unfolding russia_policy_iff [OF ints hdr] awg31_ok_def
    by (elim conjE, intro conjI) assumption+
qed

lemma awg31_ok_values:
  assumes "awg31_ok mtu r"
  shows "\<forall>f\<in>set awg31_integer_fields. \<exists>n. get r f = JInt n \<and> 0 \<le> n \<and> n \<le> 65535"
    and "\<forall>f\<in>set awg31_header_fields. closed_range header_maximum (get r f)"
    and "\<forall>f\<in>set awg31_cps_fields. get r f = JNull \<or> (\<exists>s. get r f = JStr s \<and> cps_ok mtu s)"
    and "\<forall>f\<in>set awg31_range_fields. closed_range 65535 (get r f)"
    and "\<forall>f\<in>set awg31_boolean_fields. is_bool (get r f)"
    and "\<not> overlapping (map (get r) awg31_header_fields)"
proof -
  have b: "\<forall>(f, lo, hi)\<in>set required_bounds. \<exists>n. get r f = JInt n \<and> lo \<le> n \<and> n \<le> hi"
    and j: "get r ''Jmin'' = JInt 8" "get r ''Jmax'' = JInt 80"
    and h: "\<forall>(f, n)\<in>set header_values_fixed. get r f = JInt n \<or> get r f = range_object n n"
    and c: "\<exists>s. get r ''I1'' = JStr s \<and> cps_ok mtu s" "\<forall>f\<in>set (tl awg31_cps_fields). get r f = JNull"
    and g: "\<forall>(f, v)\<in>set required_ranges. get r f = v"
    and t: "get r ''RandomTrailers'' = JBool False" "get r ''DisableCookies'' = JBool True"
    using assms unfolding awg31_ok_def by - (elim conjE, assumption)+
  show "\<forall>f\<in>set awg31_integer_fields. \<exists>n. get r f = JInt n \<and> 0 \<le> n \<and> n \<le> 65535"
  proof -
    have w: "list_all (\<lambda>(f, lo, hi). 0 \<le> lo \<and> hi \<le> 65535) required_bounds" by code_simp
    have r: "\<exists>n. get r f = JInt n \<and> 0 \<le> n \<and> n \<le> 65535"
      if "(f, lo, hi) \<in> set required_bounds" for f lo hi
      using b w that unfolding list_all_iff by (fastforce dest: bspec)
    have "\<exists>n. get r f = JInt n \<and> 0 \<le> n \<and> n \<le> 65535"
      if "f \<in> {''Jc'', ''S1'', ''S2'', ''S3'', ''S4''}" for f
      using that r [of f] by (auto simp: required_bounds_def)
    then show ?thesis using j by (auto simp: awg31_integer_fields_def)
  qed
  have hr: "get r f = JInt n \<or> get r f = range_object n n"
    if "(f, n) \<in> set header_values_fixed" for f n using h that by blast
  then have bounds: "range_bounds (get r f) = (n, n)" if "(f, n) \<in> set header_values_fixed" for f n
    using that by fastforce
  have "closed_range header_maximum (get r f)" if "(f, n) \<in> set header_values_fixed" for f n
    using hr [OF that] that
    by (auto simp: closed_range_def header_values_fixed_def header_maximum_def range_object_def)
  then show "\<forall>f\<in>set awg31_header_fields. closed_range header_maximum (get r f)"
    by (simp add: awg31_header_fields_def header_values_fixed_def)
  show "\<forall>f\<in>set awg31_cps_fields. get r f = JNull \<or> (\<exists>s. get r f = JStr s \<and> cps_ok mtu s)"
    using c by (simp add: awg31_cps_fields_def)
  show "\<forall>f\<in>set awg31_range_fields. closed_range 65535 (get r f)"
    using g by (simp add: awg31_range_fields_def required_ranges_def closed_range_def range_object_def)
  show "\<forall>f\<in>set awg31_boolean_fields. is_bool (get r f)"
    using t by (simp add: awg31_boolean_fields_def)
  show "\<not> overlapping (map (get r) awg31_header_fields)"
    by (simp add: awg31_header_fields_def overlap_def bounds header_values_fixed_def)
qed

lemma dict_expand: "distinct (keys r) \<Longrightarrow> map (\<lambda>f. (f, get r f)) (keys r) = r"
proof (induction r)
  case Nil
  then show ?case by simp
next
  case (Cons x r)
  obtain k v where x: "x = (k, v)" by force
  have "map (\<lambda>f. (f, get (x # r) f)) (keys r) = map (\<lambda>f. (f, get r f)) (keys r)"
    using Cons.prems x by (intro map_cong) auto
  with Cons x show ?case by simp
qed

definition part :: "obj \<Rightarrow> string list \<Rightarrow> obj" where
  "part r fs = map (\<lambda>f. (f, get r f)) fs"

lemma keys_part [simp]: "keys (part r fs) = fs"
  by (simp add: part_def keys_def o_def)

lemma get_part [simp]: "f \<in> set fs \<Longrightarrow> get (part r fs) f = get r f"
  by (induction fs) (auto simp: part_def)

lemma map_get_part: "map (get (part r fs)) fs = map (get r) fs"
  by (rule map_cong) simp_all

lemma awg31_parameters_id:
  assumes a: "awg31_ok mtu r"
  shows "awg31_parameters r mtu = Inr r"
proof -
  have kr: "keys r = awg31_parameter_fields" using a by (simp add: awg31_ok_def)
  then have k: "keys_are r awg31_parameter_fields" by (simp add: keys_are_def)
  note s = keys_subsets [OF k]
  note v = awg31_ok_values [OF a]
  have i: "integer_fields r awg31_integer_fields 65535 = Inr (part r awg31_integer_fields)"
    unfolding field_values [OF s(1) distinct_fields(2)] using v(1) by auto
  have h: "validate_header_ranges r = Inr (part r awg31_header_fields)"
    unfolding header_values [OF s(2)] using v(2,6)
    by (simp only: map_get_part) (simp add: closed_range_normal)
  have c: "cps_fields r mtu = Inr (part r awg31_cps_fields)"
    unfolding cps_values [OF s(3)] cps_value_Inr using v(3) by simp
  have g: "range_fields r = Inr (part r awg31_range_fields)"
    unfolding range_values_iff [OF s(4)] using v(4) by (simp add: closed_range_normal)
  have b: "boolean_fields r = Inr (part r awg31_boolean_fields)"
    unfolding bool_values [OF s(5)] bool_value_Inr using v(5) by simp
  have "distinct awg31_parameter_fields" by code_simp
  then have whole: "part r awg31_integer_fields @ part r awg31_header_fields @ part r awg31_cps_fields
      @ part r awg31_range_fields @ part r awg31_boolean_fields = r"
    using dict_expand [of r] by (simp add: kr part_def awg31_parameter_fields_def)
  have ints: "\<forall>f\<in>set awg31_integer_fields. \<exists>n. get r f = JInt n" using v(1) by blast
  have p: "russia_policy r = Inr ()"
    using a unfolding russia_policy_iff [OF ints v(2)] awg31_ok_def
    by (elim conjE, intro conjI) assumption+
  have m: "''Jmin'' \<in> set awg31_integer_fields" "''Jmax'' \<in> set awg31_integer_fields"
    "''I1'' \<in> set awg31_cps_fields" by (simp_all add: field_defs)
  have j: "num (part r awg31_integer_fields) ''Jmin'' \<le> num (part r awg31_integer_fields) ''Jmax''"
    using a m by (simp add: num_def awg31_ok_def)
  have i1: "get (part r awg31_cps_fields) ''I1'' \<noteq> JNull"
    using a m by (auto simp: awg31_ok_def)
  show ?thesis
    using i h c g b p j i1 by (simp add: awg31_parameters_def whole)
qed

lemma no_unknown: "keys_are m fs \<Longrightarrow> reject_unknown_fields m fs label = Inr ()"
  by (simp add: reject_unknown_fields_def keys_are_def)

definition awg31_profile_json :: "obj \<Rightarrow> json" where
  "awg31_profile_json r =
     JObj [(''schema_version'', JInt 1), (''name'', JStr ''russia-ios-v1''),
           (''parameters'', JObj r),
           (''header_protection_key_path'', JStr header_protection_key)]"

lemma normalize_awg31_profile_ok:
  assumes "normalize_awg31_profile v mtu = Inr r"
  shows "awg31_ok mtu r"
proof -
  obtain m where "keys_are m awg31_parameter_fields" "awg31_parameters m mtu = Inr r"
    using assms
    by (auto simp: normalize_awg31_profile_def result_simps split: json.splits)
  then show ?thesis by (rule awg31_parameters_ok)
qed

lemma normalize_awg31_profile_id:
  assumes "awg31_ok mtu r"
  shows "normalize_awg31_profile (awg31_profile_json r) mtu = Inr r"
proof -
  have "keys r = awg31_parameter_fields" using assms by (simp add: awg31_ok_def)
  then have k: "keys_are r awg31_parameter_fields" by (simp add: keys_are_def)
  have p: "keys_are [(''schema_version'', JInt 1), (''name'', JStr ''russia-ios-v1''),
      (''parameters'', JObj r), (''header_protection_key_path'', JStr header_protection_key)]
      profile_fields"
    by (simp add: keys_are_def profile_fields_def)
  show ?thesis
    using k awg31_parameters_id [OF assms]
    by (simp add: normalize_awg31_profile_def awg31_profile_json_def no_unknown p)
qed

interpretation awg31: validator "\<lambda>v. normalize_awg31_profile v mtu" awg31_profile_json "awg31_ok mtu"
  for mtu
  by unfold_locales (rule normalize_awg31_profile_ok normalize_awg31_profile_id, assumption)+

fun obfuscation_ok :: "int \<Rightarrow> obfuscation \<Rightarrow> bool" where
  "obfuscation_ok mtu (Classic r) \<longleftrightarrow> classic_ok r"
| "obfuscation_ok mtu (Awg31 r) \<longleftrightarrow> awg31_ok mtu r"

lemma normalize_obfuscation_ok:
  "normalize_obfuscation v mtu = Inr ob \<Longrightarrow> obfuscation_ok mtu ob"
  by (auto simp: normalize_obfuscation_def result_simps classic_profile_ok
      normalize_awg31_profile_ok split: json.splits if_splits)

lemma normalize_obfuscation_id:
  assumes "obfuscation_ok mtu ob"
  shows "normalize_obfuscation (obfuscation_json ob) mtu = Inr ob"
proof -
  have k: "keys_are [(''mode'', a), (''profile'', b)] [''mode'', ''profile'']" for a b
    by (simp add: keys_are_def)
  have c: "keys_are [(''schema_version'', a), (''name'', b), (''parameters'', r)] classic_profile_fields"
    for a b r by (simp add: keys_are_def classic_profile_fields_def)
  show ?thesis
  proof (cases ob)
    case (Classic r)
    with assms have "classic_profile (JObj r) = Inr r" by (simp add: classic_profile_id)
    with Classic show ?thesis by (simp add: normalize_obfuscation_def no_unknown k c)
  next
    case (Awg31 r)
    with assms have "normalize_awg31_profile (awg31_profile_json r) mtu = Inr r"
      by (simp add: normalize_awg31_profile_id)
    with Awg31 show ?thesis
      by (simp add: normalize_obfuscation_def no_unknown k awg31_profile_json_def)
  qed
qed

interpretation obfuscation: validator "\<lambda>v. normalize_obfuscation v mtu" obfuscation_json
    "obfuscation_ok mtu" for mtu
  by unfold_locales (rule normalize_obfuscation_ok normalize_obfuscation_id, assumption)+

text \<open>
  a classic profile that \<open>_classic_profile\<close> accepts has exactly the nine fields, each a
  32-bit integer, ordered junk bounds, unambiguous handshake packet lengths and four distinct
  header values; and every such profile is accepted unchanged.
\<close>

theorem classic_profile_exact:
  "(\<exists>v. classic_profile v = Inr r) \<longleftrightarrow>
     keys r = obfuscation_fields
     \<and> (\<forall>f\<in>set obfuscation_fields. \<exists>n. get r f = JInt n \<and> 0 \<le> n \<and> n \<le> 4294967295)
     \<and> num r ''Jmin'' \<le> num r ''Jmax'' \<and> num r ''S1'' + 56 \<noteq> num r ''S2''
     \<and> distinct (map (num r) [''H1'', ''H2'', ''H3'', ''H4''])"
  unfolding classic.range_iff classic_ok_def awg31_header_fields_def header_maximum_def ..

definition sample_classic :: obj where
  "sample_classic =
     [(''Jc'', JInt 4), (''Jmin'', JInt 40), (''Jmax'', JInt 70), (''S1'', JInt 20),
      (''S2'', JInt 90), (''H1'', JInt 1001), (''H2'', JInt 2002), (''H3'', JInt 3003),
      (''H4'', JInt 4004)]"

lemma sample_classic_accepted: "classic_profile (JObj sample_classic) = Inr sample_classic"
  by code_simp

theorem classic_profile_exact_witness:
  "num sample_classic ''Jmin'' \<le> num sample_classic ''Jmax''
   \<and> distinct (map (num sample_classic) [''H1'', ''H2'', ''H3'', ''H4''])"
  using classic_profile_exact [of sample_classic] sample_classic_accepted by blast

definition sample_awg31 :: obj where
  "sample_awg31 =
     [(''Jc'', JInt 8), (''Jmin'', JInt 8), (''Jmax'', JInt 80), (''S1'', JInt 20),
      (''S2'', JInt 90), (''S3'', JInt 12), (''S4'', JInt 30), (''H1'', JInt 1),
      (''H2'', range_object 2 2), (''H3'', JInt 3), (''H4'', JInt 4),
      (''I1'', JStr ''<b 0xc0ff><t><r 16>''), (''I2'', JNull), (''I3'', JNull), (''I4'', JNull),
      (''I5'', JNull)]
     @ required_ranges @ [(''RandomTrailers'', JBool False), (''DisableCookies'', JBool True)]"

lemma sample_awg31_accepted:
  "normalize_awg31_profile (awg31_profile_json sample_awg31) 1280 = Inr sample_awg31"
  by code_simp

text \<open>
  a profile that \<open>_normalize_awg31_profile\<close> accepts is the fixed policy \<open>russia-ios-v1\<close>:
  junk sizes 8 to 80, header types 1 to 4, no second to fifth packet, the fixed timing ranges,
  trailers off and cookies disabled. Only the five bounded sizes, the spelling of the
  one-element header ranges and the first packet below the MTU are free, and S1 and S2 never
  make the handshake packets the same length.
\<close>

theorem normalize_awg31_profile_policy:
  assumes "normalize_awg31_profile v mtu = Inr r"
  shows "keys r = awg31_parameter_fields
    \<and> get r ''Jmin'' = JInt 8 \<and> get r ''Jmax'' = JInt 80
    \<and> (\<forall>(f, lo, hi)\<in>set required_bounds. \<exists>n. get r f = JInt n \<and> lo \<le> n \<and> n \<le> hi)
    \<and> num r ''S1'' + 56 \<noteq> num r ''S2''
    \<and> (\<forall>(f, n)\<in>set [(''H1'', 1), (''H2'', 2), (''H3'', 3), (''H4'', 4)].
         get r f = JInt n \<or> get r f = range_object n n)
    \<and> (\<exists>s. get r ''I1'' = JStr s \<and> cps_ok mtu s)
    \<and> get r ''I2'' = JNull \<and> get r ''I3'' = JNull \<and> get r ''I4'' = JNull \<and> get r ''I5'' = JNull
    \<and> (\<forall>(f, e)\<in>set required_ranges. get r f = e)
    \<and> get r ''RandomTrailers'' = JBool False \<and> get r ''DisableCookies'' = JBool True"
proof -
  have a: "awg31_ok mtu r" using assms by (rule awg31.accepted_good)
  have "\<forall>f\<in>set (tl awg31_cps_fields). get r f = JNull"
    using a unfolding awg31_ok_def by blast
  then have "get r ''I2'' = JNull" "get r ''I3'' = JNull" "get r ''I4'' = JNull"
    "get r ''I5'' = JNull" by (simp_all add: awg31_cps_fields_def)
  with a show ?thesis
    unfolding awg31_ok_def header_values_fixed_def by (elim conjE, intro conjI) assumption+
qed

theorem normalize_awg31_profile_policy_witness:
  "num sample_awg31 ''S1'' + 56 \<noteq> num sample_awg31 ''S2'' \<and> get sample_awg31 ''Jmin'' = JInt 8"
  using normalize_awg31_profile_policy [OF sample_awg31_accepted] by blast

end
