(* ===== verification/Settings.thy ===== *)
theory Settings
  imports Validation
begin

text \<open>
  \<^verbatim>\<open>src/awginstall/settings.py\<close>: the installation settings, resolved from a JSON document,
  the invoking sudo user and command-line overrides, into one record; \<open>to_dict\<close> writes them back.
\<close>

section \<open>Paths\<close>

text \<open>
  The parts of \<open>pathlib.PurePosixPath\<close>: the root (one slash, or exactly two) and the components,
  without empty ones and without single dots.
\<close>

definition path_root :: "string \<Rightarrow> string" where
  "path_root s =
     (if starts_with ''//'' s \<and> \<not> starts_with ''///'' s then ''//''
      else if starts_with ''/'' s then ''/'' else [])"

definition path_components :: "string \<Rightarrow> string list" where
  "path_components s = filter (\<lambda>p. p \<noteq> [] \<and> p \<noteq> ''.'') (split_on CHR ''/'' s)"

definition path_text :: "string \<times> string list \<Rightarrow> string" where
  "path_text p = (if fst p = [] \<and> snd p = [] then ''.'' else fst p @ join ''/'' (snd p))"

section \<open>Settings\<close>

record installation_settings =
  set_staging_user :: string
  set_staging_group :: string
  set_staging_uid :: "int option"
  set_staging_gid :: "int option"
  set_staging_root :: "string \<times> string list"
  set_operator_group :: string
  set_operators :: "string list"
  set_enroll_sudo_invoker :: bool
  set_sudo_policy :: string
  set_systemd_hardening :: string
  set_default_dns :: "string list"
  set_ingress_boundary :: "string option"

definition dns_policies :: "(string \<times> string list) list" where
  "dns_policies =
     [(''cloudflare'', [''1.1.1.1'', ''1.0.0.1'']), (''cloudflare-malware'', [''1.1.1.2'', ''1.0.0.2'']),
      (''cloudflare-family'', [''1.1.1.3'', ''1.0.0.3''])]"

definition dns_policy_name :: "string list \<Rightarrow> string" where
  "dns_policy_name addresses =
     (case find (\<lambda>(name, vs). vs = addresses) dns_policies of
        Some (name, vs) \<Rightarrow> name | None \<Rightarrow> ''custom'')"

definition opt_json :: "('a \<Rightarrow> json) \<Rightarrow> 'a option \<Rightarrow> json" where
  "opt_json f x = (case x of None \<Rightarrow> JNull | Some v \<Rightarrow> f v)"

definition to_dict :: "installation_settings \<Rightarrow> json" where
  "to_dict s = JObj
     [(''schema_version'', JInt 1),
      (''staging'', JObj
         [(''user'', JStr (set_staging_user s)), (''group'', JStr (set_staging_group s)),
          (''uid'', opt_json JInt (set_staging_uid s)), (''gid'', opt_json JInt (set_staging_gid s)),
          (''root'', JStr (path_text (set_staging_root s)))]),
      (''operators'', JObj
         [(''group'', JStr (set_operator_group s)), (''users'', JList (map JStr (set_operators s))),
          (''enroll_sudo_invoker'', JBool (set_enroll_sudo_invoker s)),
          (''sudo_policy'', JStr (set_sudo_policy s))]),
      (''systemd'', JObj [(''hardening'', JStr (set_systemd_hardening s))]),
      (''dns'', JObj
         [(''default'', JList (map JStr (set_default_dns s))),
          (''policy'', JStr (dns_policy_name (set_default_dns s)))]),
      (''network'', JObj [(''ingress_boundary'', opt_json JStr (set_ingress_boundary s))])]"

definition reject_unknown :: "obj \<Rightarrow> string list \<Rightarrow> string \<Rightarrow> unit result" where
  "reject_unknown m allowed label =
     (let unknown = sort (filter (\<lambda>k. k \<notin> set allowed) (keys m))
      in check (unknown = [])
           (SettingsError (''unknown '' @ label @ '': '' @ join '', '' unknown)))"

definition object :: "json \<Rightarrow> string \<Rightarrow> obj result" where
  "object v label = or_raise (as_obj v) (SettingsError (label @ '' must be a JSON object''))"

definition identity_char :: "char \<Rightarrow> bool" where
  "identity_char c \<longleftrightarrow> is_lower c \<or> is_digit c \<or> c = CHR ''_'' \<or> c = CHR ''-''"

definition identity_re :: "string \<Rightarrow> bool" where
  "identity_re s \<longleftrightarrow>
     s \<noteq> [] \<and> (is_lower (hd s) \<or> hd s = CHR ''_'') \<and> list_all identity_char s \<and> length s \<le> 31"

definition forbidden_identities :: "string list" where
  "forbidden_identities =
     [''root'', ''sudo'', ''wheel'', ''admin'', ''adm'', ''docker'', ''systemd-journal'']"

definition validate_identity_name :: "json \<Rightarrow> string \<Rightarrow> string result" where
  "validate_identity_name v label =
     (case v of
        JStr s \<Rightarrow>
          if \<not> identity_re s
          then Inl (SettingsError (label @ '' must be a lowercase Unix identity name''))
          else if s \<in> set forbidden_identities
          then Inl (SettingsError (label @ '' must not reuse privileged identity '' @ s))
          else Inr s
      | _ \<Rightarrow> Inl (SettingsError (label @ '' must be a lowercase Unix identity name'')))"

definition staging_root_error :: error where
  "staging_root_error = SettingsError ''staging root must be an absolute child of /var/lib''"

definition validate_staging_root :: "json \<Rightarrow> (string \<times> string list) result" where
  "validate_staging_root v =
     (case v of
        JStr s \<Rightarrow>
          let root = path_root s; parts = path_components s
          in if root = [] \<or> ''..'' \<in> set parts then Inl staging_root_error
             else if root \<noteq> ''/'' \<or> take 2 parts \<noteq> [''var'', ''lib''] then Inl staging_root_error
             else if drop 2 parts = [] then Inl staging_root_error
             else Inr (root, parts)
      | _ \<Rightarrow> Inl staging_root_error)"

text \<open>
  \<open>str(item)\<close>. No text of a float, list or dict is an IP address, so those are not spelled out.
\<close>

definition item_text :: "json \<Rightarrow> string" where
  "item_text v =
     (case v of
        JStr s \<Rightarrow> s | JInt n \<Rightarrow> str_int n | JNull \<Rightarrow> ''None''
      | JBool b \<Rightarrow> (if b then ''True'' else ''False'') | _ \<Rightarrow> ''<value>'')"

definition dns_setting_address :: "json \<Rightarrow> string result" where
  "dns_setting_address v =
     (case ip_address (strip (item_text v)) of
        None \<Rightarrow> Inl (SettingsError (''invalid DNS default address: '' @ item_text v))
      | Some (V6 a) \<Rightarrow> Inl (SettingsError ''DNS defaults currently support IPv4 addresses only'')
      | Some (V4 a) \<Rightarrow> Inr (ipv4_text a))"

fun dns_addresses :: "string list \<Rightarrow> json list \<Rightarrow> string list result" where
  "dns_addresses acc [] = Inr acc"
| "dns_addresses acc (v # vs) =
     andthen (dns_setting_address v) (\<lambda>d.
       dns_addresses (if d \<in> set acc then acc else acc @ [d]) vs)"

definition dns_list :: "json list \<Rightarrow> string list result" where
  "dns_list vs =
     andthen (dns_addresses [] vs) (\<lambda>ds.
     if ds = [] then Inl (SettingsError ''at least one DNS default address is required'')
     else Inr ds)"

definition validate_dns_setting :: "json \<Rightarrow> string list result" where
  "validate_dns_setting v =
     (case v of
        JStr s \<Rightarrow>
          (case map_of dns_policies (lower (strip s)) of
             Some ds \<Rightarrow> Inr ds
           | None \<Rightarrow> dns_list (map JStr (split_on CHR '','' s)))
      | JList vs \<Rightarrow> dns_list vs
      | _ \<Rightarrow> Inl (SettingsError ''DNS default must be a named policy or IPv4 address list''))"

definition optional_system_id :: "json \<Rightarrow> string \<Rightarrow> int option result" where
  "optional_system_id v label =
     (case v of
        JNull \<Rightarrow> Inr None
      | JInt n \<Rightarrow>
          if 100 \<le> n \<and> n \<le> 999 then Inr (Some n)
          else Inl (SettingsError (label @ '' must be a system ID from 100 through 999 or null''))
      | _ \<Rightarrow> Inl (SettingsError (label @ '' must be a system ID from 100 through 999 or null'')))"

section \<open>Resolution\<close>

text \<open>
  The settings file: no path, an unreadable or malformed file, or its JSON value.
\<close>

datatype settings_file = NoPath | Unreadable string | Document json

definition document_fields :: "string list" where
  "document_fields = [''schema_version'', ''staging'', ''operators'', ''systemd'', ''dns'', ''network'']"

text \<open>\<open>d.get(k, default)\<close>\<close>

definition get_or :: "obj \<Rightarrow> string \<Rightarrow> json \<Rightarrow> json" where
  "get_or m k d = (case map_of m k of None \<Rightarrow> d | Some v \<Rightarrow> v)"

definition load_document :: "settings_file \<Rightarrow> obj result" where
  "load_document file =
     (case file of
        NoPath \<Rightarrow> Inr []
      | Unreadable path \<Rightarrow> Inl (SettingsError (''could not read installation settings: '' @ path))
      | Document v \<Rightarrow>
          andthen (object v ''installation settings'') (\<lambda>m.
          andthen (reject_unknown m document_fields ''installation settings'') (\<lambda>_.
          andthen (check (py_eq_int (get_or m ''schema_version'' (JInt 1)) 1)
            (SettingsError ''unsupported installation settings schema'')) (\<lambda>_. Inr m))))"

text \<open>\<open>list(value)\<close>: a text gives its characters and a dict its keys.\<close>

definition py_list :: "json \<Rightarrow> json list result" where
  "py_list v =
     (case v of
        JList vs \<Rightarrow> Inr vs
      | JStr s \<Rightarrow> Inr (map (\<lambda>c. JStr [c]) s)
      | JObj m \<Rightarrow> Inr (map JStr (keys m))
      | _ \<Rightarrow> Inl TypeError)"

fun operator_names :: "string list \<Rightarrow> json list \<Rightarrow> string list result" where
  "operator_names acc [] = Inr acc"
| "operator_names acc (v # vs) =
     andthen (validate_identity_name v ''operator user'') (\<lambda>n.
       operator_names (if n \<in> set acc then acc else acc @ [n]) vs)"

definition enroll_invoker :: "bool \<Rightarrow> string option \<Rightarrow> string list \<Rightarrow> string list result" where
  "enroll_invoker enroll sudo_user operators =
     (case sudo_user of
        Some u \<Rightarrow>
          if enroll \<and> u \<noteq> [] \<and> u \<noteq> ''root'' then
            andthen (validate_identity_name (JStr u) ''sudo invoking user'') (\<lambda>n.
              Inr (if n \<in> set operators then operators else operators @ [n]))
          else Inr operators
      | None \<Rightarrow> Inr operators)"

text \<open>The raw values: document, then overrides that are not null, then extra operators.\<close>

definition raw_settings :: "obj \<Rightarrow> obj \<Rightarrow> (obj \<times> json list) result" where
  "raw_settings document overrides =
     andthen (object (get_or document ''staging'' (JObj [])) ''staging settings'') (\<lambda>staging.
     andthen (object (get_or document ''operators'' (JObj [])) ''operator settings'') (\<lambda>operator.
     andthen (object (get_or document ''systemd'' (JObj [])) ''systemd settings'') (\<lambda>systemd.
     andthen (object (get_or document ''dns'' (JObj [])) ''DNS settings'') (\<lambda>dns.
     andthen (object (get_or document ''network'' (JObj [])) ''network settings'') (\<lambda>network.
     andthen (reject_unknown staging [''user'', ''group'', ''uid'', ''gid'', ''root''] ''staging settings'') (\<lambda>_.
     andthen (reject_unknown operator [''group'', ''users'', ''enroll_sudo_invoker'', ''sudo_policy'']
       ''operator settings'') (\<lambda>_.
     andthen (reject_unknown systemd [''hardening''] ''systemd settings'') (\<lambda>_.
     andthen (reject_unknown dns [''default'', ''policy''] ''DNS settings'') (\<lambda>_.
     andthen (reject_unknown network [''ingress_boundary''] ''network settings'') (\<lambda>_.
     andthen (py_list (get_or operator ''users'' (JList []))) (\<lambda>users.
     let values =
           [(''staging_user'', get_or staging ''user'' (JStr ''awgctl'')),
            (''staging_group'', get_or staging ''group'' (JStr ''awgctl'')),
            (''staging_uid'', get staging ''uid''), (''staging_gid'', get staging ''gid''),
            (''staging_root'', get_or staging ''root'' (JStr ''/var/lib/amneziawg-manager'')),
            (''operator_group'', get_or operator ''group'' (JStr ''awgctl-admin'')),
            (''enroll_sudo_invoker'', get_or operator ''enroll_sudo_invoker'' (JBool True)),
            (''sudo_policy'', get_or operator ''sudo_policy'' (JStr ''scoped-nopasswd'')),
            (''systemd_hardening'', get_or systemd ''hardening'' (JStr ''conservative'')),
            (''default_dns'', get_or dns ''default'' (JStr ''cloudflare-malware'')),
            (''ingress_boundary'', get network ''ingress_boundary'')];
         explicit = filter (\<lambda>(k, v). k \<noteq> ''operators'' \<and> v \<noteq> JNull) overrides;
         extra = get overrides ''operators''
     in andthen (if extra = JNull then Inr [] else py_list extra) (\<lambda>more.
        Inr (put_all values explicit, users @ more)))))))))))))"

definition resolve_installation_settings ::
  "settings_file \<Rightarrow> string option \<Rightarrow> obj \<Rightarrow> installation_settings result" where
  "resolve_installation_settings file sudo_user overrides =
     andthen (load_document file) (\<lambda>document.
     andthen (raw_settings document overrides) (\<lambda>(values, raw_operators).
     andthen (validate_identity_name (get values ''staging_user'') ''staging user'') (\<lambda>user.
     andthen (validate_identity_name (get values ''staging_group'') ''staging group'') (\<lambda>group.
     andthen (validate_identity_name (get values ''operator_group'') ''operator group'') (\<lambda>op_group.
     andthen (check (op_group \<noteq> group \<and> op_group \<noteq> user)
       (SettingsError ''operator group must be separate from the staging identity'')) (\<lambda>_.
     andthen (or_raise (as_bool (get values ''enroll_sudo_invoker''))
       (SettingsError ''enroll_sudo_invoker must be boolean'')) (\<lambda>enroll.
     andthen (in_strs (get values ''sudo_policy'') [''scoped-nopasswd'', ''existing-sudo'', ''none'']) (\<lambda>known.
     andthen (check known (SettingsError ''unsupported sudo policy'')) (\<lambda>_.
     andthen (in_strs (get values ''systemd_hardening'') [''conservative'', ''off'']) (\<lambda>known.
     andthen (check known (SettingsError ''unsupported systemd hardening policy'')) (\<lambda>_.
     andthen (check (get values ''ingress_boundary''
         \<in> {JNull, JStr ''lightsail'', JStr ''equivalent-external-firewall''})
       (SettingsError
         ''network.ingress_boundary must be lightsail or equivalent-external-firewall'')) (\<lambda>_.
     andthen (operator_names [] raw_operators) (\<lambda>operators.
     andthen (enroll_invoker enroll sudo_user operators) (\<lambda>operators.
     andthen (optional_system_id (get values ''staging_uid'') ''staging UID'') (\<lambda>uid.
     andthen (optional_system_id (get values ''staging_gid'') ''staging GID'') (\<lambda>gid.
     andthen (validate_staging_root (get values ''staging_root'')) (\<lambda>root.
     andthen (validate_dns_setting (get values ''default_dns'')) (\<lambda>dns.
     Inr \<lparr>set_staging_user = user, set_staging_group = group, set_staging_uid = uid,
          set_staging_gid = gid, set_staging_root = root, set_operator_group = op_group,
          set_operators = operators, set_enroll_sudo_invoker = enroll,
          set_sudo_policy = the (as_str (get values ''sudo_policy'')),
          set_systemd_hardening = the (as_str (get values ''systemd_hardening'')),
          set_default_dns = dns,
          set_ingress_boundary = as_str (get values ''ingress_boundary'')\<rparr>))))))))))))))))))"

section \<open>The accepted settings\<close>

definition identity_ok :: "string \<Rightarrow> bool" where
  "identity_ok s \<longleftrightarrow> identity_re s \<and> s \<notin> set forbidden_identities"

definition staging_root_ok :: "string \<times> string list \<Rightarrow> bool" where
  "staging_root_ok p \<longleftrightarrow>
     fst p = ''/'' \<and> take 2 (snd p) = [''var'', ''lib''] \<and> length (snd p) > 2
     \<and> (\<forall>c\<in>set (snd p). c \<noteq> [] \<and> c \<noteq> ''.'' \<and> c \<noteq> ''..'' \<and> CHR ''/'' \<notin> set c)"

definition system_id_ok :: "int option \<Rightarrow> bool" where
  "system_id_ok i \<longleftrightarrow> (case i of None \<Rightarrow> True | Some n \<Rightarrow> 100 \<le> n \<and> n \<le> 999)"

definition settings_ok :: "installation_settings \<Rightarrow> bool" where
  "settings_ok s \<longleftrightarrow>
     identity_ok (set_staging_user s) \<and> identity_ok (set_staging_group s)
     \<and> identity_ok (set_operator_group s)
     \<and> set_operator_group s \<noteq> set_staging_group s \<and> set_operator_group s \<noteq> set_staging_user s
     \<and> distinct (set_operators s) \<and> list_all identity_ok (set_operators s)
     \<and> system_id_ok (set_staging_uid s) \<and> system_id_ok (set_staging_gid s)
     \<and> staging_root_ok (set_staging_root s)
     \<and> set_sudo_policy s \<in> {''scoped-nopasswd'', ''existing-sudo'', ''none''}
     \<and> set_systemd_hardening s \<in> {''conservative'', ''off''}
     \<and> set_ingress_boundary s \<in> {None, Some ''lightsail'', Some ''equivalent-external-firewall''}
     \<and> dns_ok (set_default_dns s)"

lemma validate_identity_name_Inr:
  "validate_identity_name v label = Inr s \<longleftrightarrow> v = JStr s \<and> identity_ok s"
  by (cases v) (auto simp: validate_identity_name_def identity_ok_def)

interpretation identity: validator "\<lambda>v. validate_identity_name v label" JStr identity_ok for label
  by unfold_locales (simp_all add: validate_identity_name_Inr)

lemma path_components_ok:
  "c \<in> set (path_components s) \<Longrightarrow> c \<noteq> [] \<and> c \<noteq> ''.'' \<and> CHR ''/'' \<notin> set c"
  by (auto simp: path_components_def dest: split_on_parts)

lemma path_components_neq [simp]:
  "[] \<notin> set (path_components s)" "''.'' \<notin> set (path_components s)"
  by (auto simp: path_components_def)

lemma validate_staging_root_ok: "validate_staging_root v = Inr p \<Longrightarrow> staging_root_ok p"
  by (cases v) (auto simp: validate_staging_root_def staging_root_ok_def Let_def path_components_ok
      split: if_splits)

lemma validate_staging_root_id:
  assumes "staging_root_ok p"
  shows "validate_staging_root (JStr (path_text p)) = Inr p"
proof -
  obtain c cs where p: "p = (''/'', c # cs)" and c: "c \<noteq> []" "CHR ''/'' \<notin> set c"
    using assms by (cases p; cases "snd p") (auto simp: staging_root_ok_def)
  have txt_p: "path_text p = CHR ''/'' # join ''/'' (c # cs)" by (simp add: p path_text_def)
  obtain d ds where d: "c = d # ds" "d \<noteq> CHR ''/''" using c by (cases c) auto
  have "join ''/'' (c # cs) = d # join ''/'' (ds # cs)" unfolding d(1) by (rule join_prefix_head)
  then have root: "path_root (path_text p) = ''/''"
    using d(2) by (simp add: txt_p path_root_def)
  have comps: "\<forall>x\<in>set (c # cs). x \<noteq> [] \<and> x \<noteq> ''.'' \<and> x \<noteq> ''..'' \<and> CHR ''/'' \<notin> set x"
    and lib: "take 2 (c # cs) = [''var'', ''lib'']" "length (c # cs) > 2"
    using assms unfolding p staging_root_ok_def by simp_all
  have "split_on CHR ''/'' (join ''/'' (c # cs)) = c # cs"
    using comps by (intro split_on_join) blast+
  then have "path_components (path_text p) = filter (\<lambda>x. x \<noteq> [] \<and> x \<noteq> ''.'') (c # cs)"
    unfolding path_components_def txt_p by simp
  also have "\<dots> = c # cs" using comps by (intro filter_True) blast
  finally have pc: "path_components (path_text p) = c # cs" .
  have "''..'' \<notin> set (c # cs)" using comps by blast
  moreover have "drop 2 (c # cs) \<noteq> []" using lib(2) by simp
  ultimately show ?thesis
    using root pc lib(1) p by (simp only: validate_staging_root_def json.case Let_def) simp
qed

interpretation staging_root: validator validate_staging_root "\<lambda>p. JStr (path_text p)" staging_root_ok
  by unfold_locales (rule validate_staging_root_ok validate_staging_root_id, assumption)+

lemma dns_setting_address_Inr: "dns_setting_address v = Inr d \<Longrightarrow> dotted_quad d"
  by (auto simp: dns_setting_address_def dotted_quad_def ip_address_V4
      dest!: parse_ipv4_canonical split: option.splits ip.splits)

lemma dns_setting_address_quad: "dotted_quad d \<Longrightarrow> dns_setting_address (JStr d) = Inr d"
  using dns_address_quad [of d]
  by (auto simp: dns_setting_address_def dns_address_def item_text_def split: option.splits ip.splits)

lemma dns_addresses_ok:
  assumes "dns_addresses acc vs = Inr ds" and "distinct acc" and "list_all dotted_quad acc"
  shows "distinct ds \<and> list_all dotted_quad ds"
  using assms
proof (induction vs arbitrary: acc)
  case Nil
  then show ?case by simp
next
  case (Cons v vs)
  then obtain d where d: "dns_setting_address v = Inr d"
    "dns_addresses (if d \<in> set acc then acc else acc @ [d]) vs = Inr ds"
    by (auto simp: result_simps)
  have "distinct (if d \<in> set acc then acc else acc @ [d])"
    "list_all dotted_quad (if d \<in> set acc then acc else acc @ [d])"
    using Cons.prems dns_setting_address_Inr [OF d(1)] by auto
  from Cons.IH [OF d(2) this] show ?case .
qed

lemma dns_addresses_id:
  "distinct (acc @ ds) \<Longrightarrow> list_all dotted_quad ds \<Longrightarrow>
     dns_addresses acc (map JStr ds) = Inr (acc @ ds)"
  by (induction ds arbitrary: acc) (auto simp: dns_setting_address_quad)

lemma dns_list_ok: "dns_list vs = Inr ds \<Longrightarrow> dns_ok ds"
  using dns_addresses_ok [of "[]" vs] by (auto simp: dns_list_def result_simps dns_ok_def split: if_splits)

lemma policy_quads: "map_of dns_policies k = Some ds \<Longrightarrow> dns_ok ds"
proof -
  have q: "dotted_quad (ipv4_text a)" if "valid_ipv4 a" for a using that by (auto simp: dotted_quad_def)
  have t: "''1.1.1.1'' = ipv4_text 16843009" "''1.0.0.1'' = ipv4_text 16777217"
    "''1.1.1.2'' = ipv4_text 16843010" "''1.0.0.2'' = ipv4_text 16777218"
    "''1.1.1.3'' = ipv4_text 16843011" "''1.0.0.3'' = ipv4_text 16777219" by code_simp+
  have d: "dotted_quad ''1.1.1.1''" "dotted_quad ''1.0.0.1''" "dotted_quad ''1.1.1.2''"
    "dotted_quad ''1.0.0.2''" "dotted_quad ''1.1.1.3''" "dotted_quad ''1.0.0.3''"
    unfolding t by (rule q, simp add: valid_ipv4_def)+
  show "map_of dns_policies k = Some ds \<Longrightarrow> dns_ok ds"
    by (auto simp: dns_policies_def dns_ok_def d split: if_splits)
qed

lemma validate_dns_setting_ok: "validate_dns_setting v = Inr ds \<Longrightarrow> dns_ok ds"
  by (cases v) (auto simp: validate_dns_setting_def dns_list_ok policy_quads split: option.splits)

lemma validate_dns_setting_id: "dns_ok ds \<Longrightarrow> validate_dns_setting (dns_json ds) = Inr ds"
  using dns_addresses_id [of "[]" ds]
  by (simp add: validate_dns_setting_def dns_json_def dns_list_def dns_ok_def)

interpretation dns_setting: validator validate_dns_setting dns_json dns_ok
  by unfold_locales (rule validate_dns_setting_ok validate_dns_setting_id, assumption)+

lemma operator_names_ok:
  assumes "operator_names acc vs = Inr ns" and "distinct acc" and "list_all identity_ok acc"
  shows "distinct ns \<and> list_all identity_ok ns"
  using assms
proof (induction vs arbitrary: acc)
  case Nil
  then show ?case by simp
next
  case (Cons v vs)
  then obtain n where n: "validate_identity_name v ''operator user'' = Inr n"
    "operator_names (if n \<in> set acc then acc else acc @ [n]) vs = Inr ns"
    by (auto simp: result_simps)
  have "distinct (if n \<in> set acc then acc else acc @ [n])"
    "list_all identity_ok (if n \<in> set acc then acc else acc @ [n])"
    using Cons.prems n(1) by (auto simp: validate_identity_name_Inr)
  from Cons.IH [OF n(2) this] show ?case .
qed

lemma operator_names_id:
  "distinct (acc @ ns) \<Longrightarrow> list_all identity_ok ns \<Longrightarrow>
     operator_names acc (map JStr ns) = Inr (acc @ ns)"
  by (induction ns arbitrary: acc) (auto simp: result_simps validate_identity_name_def identity_ok_def)

lemma enroll_invoker_ok:
  assumes "enroll_invoker e u ns = Inr ms" and "distinct ns \<and> list_all identity_ok ns"
  shows "distinct ms \<and> list_all identity_ok ms"
  using assms by (auto simp: enroll_invoker_def result_simps validate_identity_name_Inr
      split: option.splits if_splits)

lemma optional_system_id_ok: "optional_system_id v label = Inr i \<Longrightarrow> system_id_ok i"
  by (cases v) (auto simp: optional_system_id_def system_id_ok_def split: if_splits)

lemma optional_system_id_id: "system_id_ok i \<Longrightarrow> optional_system_id (opt_json JInt i) label = Inr i"
  by (cases i) (auto simp: optional_system_id_def system_id_ok_def opt_json_def)

interpretation system_id: validator "\<lambda>v. optional_system_id v label" "opt_json JInt" system_id_ok for label
  by unfold_locales (rule optional_system_id_ok optional_system_id_id, assumption)+

lemma resolve_ok:
  assumes "resolve_installation_settings file u ovr = Inr s"
  shows "settings_ok s"
proof -
  obtain doc vals raw ops where
    id: "validate_identity_name (get vals ''staging_user'') ''staging user'' = Inr (set_staging_user s)"
      "validate_identity_name (get vals ''staging_group'') ''staging group'' = Inr (set_staging_group s)"
      "validate_identity_name (get vals ''operator_group'') ''operator group'' = Inr (set_operator_group s)"
    and sep: "set_operator_group s \<noteq> set_staging_group s" "set_operator_group s \<noteq> set_staging_user s"
    and pol: "\<exists>t\<in>{''scoped-nopasswd'', ''existing-sudo'', ''none''}. get vals ''sudo_policy'' = JStr t"
      "\<exists>t\<in>{''conservative'', ''off''}. get vals ''systemd_hardening'' = JStr t"
      "get vals ''ingress_boundary'' \<in> {JNull, JStr ''lightsail'', JStr ''equivalent-external-firewall''}"
    and raw: "operator_names [] raw = Inr ops"
    and ops: "enroll_invoker (set_enroll_sudo_invoker s) u ops = Inr (set_operators s)"
    and sys: "optional_system_id (get vals ''staging_uid'') ''staging UID'' = Inr (set_staging_uid s)"
      "optional_system_id (get vals ''staging_gid'') ''staging GID'' = Inr (set_staging_gid s)"
    and root: "validate_staging_root (get vals ''staging_root'') = Inr (set_staging_root s)"
    and dns: "validate_dns_setting (get vals ''default_dns'') = Inr (set_default_dns s)"
    and eq: "set_sudo_policy s = the (as_str (get vals ''sudo_policy''))"
      "set_systemd_hardening s = the (as_str (get vals ''systemd_hardening''))"
      "set_ingress_boundary s = as_str (get vals ''ingress_boundary'')"
    using assms unfolding resolve_installation_settings_def
    by (elim andthen_prodE andthenE) (auto simp: result_simps)
  have "set_sudo_policy s \<in> {''scoped-nopasswd'', ''existing-sudo'', ''none''}"
    "set_systemd_hardening s \<in> {''conservative'', ''off''}"
    "set_ingress_boundary s \<in> {None, Some ''lightsail'', Some ''equivalent-external-firewall''}"
    using pol eq by auto
  then show ?thesis
    using id sep sys root dns enroll_invoker_ok [OF ops] operator_names_ok [OF raw]
    unfolding settings_ok_def
    by (auto simp: validate_identity_name_Inr optional_system_id_ok validate_staging_root_ok
        validate_dns_setting_ok)
qed

definition settings_values :: "installation_settings \<Rightarrow> obj" where
  "settings_values s =
     [(''staging_user'', JStr (set_staging_user s)), (''staging_group'', JStr (set_staging_group s)),
      (''staging_uid'', opt_json JInt (set_staging_uid s)),
      (''staging_gid'', opt_json JInt (set_staging_gid s)),
      (''staging_root'', JStr (path_text (set_staging_root s))),
      (''operator_group'', JStr (set_operator_group s)),
      (''enroll_sudo_invoker'', JBool (set_enroll_sudo_invoker s)),
      (''sudo_policy'', JStr (set_sudo_policy s)),
      (''systemd_hardening'', JStr (set_systemd_hardening s)),
      (''default_dns'', JList (map JStr (set_default_dns s))),
      (''ingress_boundary'', opt_json JStr (set_ingress_boundary s))]"

lemma all_known:
  "set (keys m) \<subseteq> set allowed \<Longrightarrow> reject_unknown m allowed label = Inr ()"
proof -
  assume "set (keys m) \<subseteq> set allowed"
  then have "filter (\<lambda>k. k \<notin> set allowed) (keys m) = []" by (auto simp: filter_empty_conv)
  then show ?thesis unfolding reject_unknown_def by simp
qed

lemma load_to_dict: "\<exists>m. to_dict s = JObj m \<and> load_document (Document (JObj m)) = Inr m"
proof -
  obtain m where m: "to_dict s = JObj m" by (simp add: to_dict_def)
  then have "keys m = document_fields" and "get_or m ''schema_version'' (JInt 1) = JInt 1"
    by (auto simp: to_dict_def document_fields_def get_or_def)
  then have "load_document (Document (JObj m)) = Inr m"
    by (simp add: load_document_def object_def all_known)
  with m show ?thesis by blast
qed

lemma raw_to_dict:
  assumes "to_dict s = JObj m"
  shows "raw_settings m [] = Inr (settings_values s, map JStr (set_operators s))"
proof -
  have sec: "get_or m ''staging'' d = JObj
         [(''user'', JStr (set_staging_user s)), (''group'', JStr (set_staging_group s)),
          (''uid'', opt_json JInt (set_staging_uid s)), (''gid'', opt_json JInt (set_staging_gid s)),
          (''root'', JStr (path_text (set_staging_root s)))]"
    "get_or m ''operators'' d = JObj
         [(''group'', JStr (set_operator_group s)), (''users'', JList (map JStr (set_operators s))),
          (''enroll_sudo_invoker'', JBool (set_enroll_sudo_invoker s)),
          (''sudo_policy'', JStr (set_sudo_policy s))]"
    "get_or m ''systemd'' d = JObj [(''hardening'', JStr (set_systemd_hardening s))]"
    "get_or m ''dns'' d = JObj
         [(''default'', JList (map JStr (set_default_dns s))),
          (''policy'', JStr (dns_policy_name (set_default_dns s)))]"
    "get_or m ''network'' d = JObj [(''ingress_boundary'', opt_json JStr (set_ingress_boundary s))]"
    for d using assms by (auto simp: to_dict_def get_or_def)
  show ?thesis
    unfolding raw_settings_def sec object_def
    by (simp add: all_known py_list_def settings_values_def get_or_def)
qed

lemma enroll_idem:
  assumes "enroll_invoker e u ns = Inr ms"
  shows "enroll_invoker e u ms = Inr ms"
proof (cases "\<exists>n. u = Some n \<and> e \<and> n \<noteq> [] \<and> n \<noteq> ''root''")
  case True
  then obtain n where n: "u = Some n" "e" "n \<noteq> []" "n \<noteq> ''root''" by blast
  then have "validate_identity_name (JStr n) ''sudo invoking user'' = Inr n"
    and "ms = (if n \<in> set ns then ns else ns @ [n])"
    using assms by (auto simp: enroll_invoker_def result_simps validate_identity_name_Inr)
  then show ?thesis using n by (simp add: enroll_invoker_def)
next
  case False
  then show ?thesis by (auto simp: enroll_invoker_def split: option.splits)
qed

lemma resolve_to_dict:
  assumes s: "settings_ok s" and u: "enroll_invoker (set_enroll_sudo_invoker s) u (set_operators s) = Inr (set_operators s)"
  shows "resolve_installation_settings (Document (to_dict s)) u [] = Inr s"
proof -
  obtain m where m: "to_dict s = JObj m" and l: "load_document (Document (JObj m)) = Inr m"
    using load_to_dict by blast
  note r = raw_to_dict [OF m]
  have g: "get (settings_values s) ''staging_user'' = JStr (set_staging_user s)"
    "get (settings_values s) ''staging_group'' = JStr (set_staging_group s)"
    "get (settings_values s) ''staging_uid'' = opt_json JInt (set_staging_uid s)"
    "get (settings_values s) ''staging_gid'' = opt_json JInt (set_staging_gid s)"
    "get (settings_values s) ''staging_root'' = JStr (path_text (set_staging_root s))"
    "get (settings_values s) ''operator_group'' = JStr (set_operator_group s)"
    "get (settings_values s) ''enroll_sudo_invoker'' = JBool (set_enroll_sudo_invoker s)"
    "get (settings_values s) ''sudo_policy'' = JStr (set_sudo_policy s)"
    "get (settings_values s) ''systemd_hardening'' = JStr (set_systemd_hardening s)"
    "get (settings_values s) ''default_dns'' = dns_json (set_default_dns s)"
    "get (settings_values s) ''ingress_boundary'' = opt_json JStr (set_ingress_boundary s)"
    by (simp_all add: settings_values_def dns_json_def)
  have i: "validate_identity_name (JStr (set_staging_user s)) l1 = Inr (set_staging_user s)"
    "validate_identity_name (JStr (set_staging_group s)) l2 = Inr (set_staging_group s)"
    "validate_identity_name (JStr (set_operator_group s)) l3 = Inr (set_operator_group s)" for l1 l2 l3
    using s by (simp_all add: settings_ok_def validate_identity_name_Inr)
  have ops: "operator_names [] (map JStr (set_operators s)) = Inr (set_operators s)"
    using s operator_names_id [of "[]" "set_operators s"] by (simp add: settings_ok_def)
  have sys: "optional_system_id (opt_json JInt (set_staging_uid s)) l1 = Inr (set_staging_uid s)"
    "optional_system_id (opt_json JInt (set_staging_gid s)) l2 = Inr (set_staging_gid s)" for l1 l2
    using s by (simp_all add: settings_ok_def optional_system_id_id)
  have root: "validate_staging_root (JStr (path_text (set_staging_root s))) = Inr (set_staging_root s)"
    using s by (intro validate_staging_root_id) (simp add: settings_ok_def)
  have dns: "validate_dns_setting (dns_json (set_default_dns s)) = Inr (set_default_dns s)"
    using s by (intro validate_dns_setting_id) (simp add: settings_ok_def)
  have pol: "in_strs (JStr (set_sudo_policy s)) [''scoped-nopasswd'', ''existing-sudo'', ''none''] = Inr True"
    "in_strs (JStr (set_systemd_hardening s)) [''conservative'', ''off''] = Inr True"
    using s by (auto simp: in_strs_def settings_ok_def)
  have ing: "opt_json JStr (set_ingress_boundary s)
      \<in> {JNull, JStr ''lightsail'', JStr ''equivalent-external-firewall''}"
    "as_str (opt_json JStr (set_ingress_boundary s)) = set_ingress_boundary s"
    using s by (auto simp: settings_ok_def opt_json_def split: option.splits)
  have sep: "set_operator_group s \<noteq> set_staging_group s \<and> set_operator_group s \<noteq> set_staging_user s"
    using s by (simp add: settings_ok_def)
  show ?thesis
    unfolding resolve_installation_settings_def m
    using sep ing(1) by (simp add: l r g i ops sys root dns pol ing(2) u)
qed

lemma resolve_enrolled:
  assumes "resolve_installation_settings file u ovr = Inr s"
  shows "enroll_invoker (set_enroll_sudo_invoker s) u (set_operators s) = Inr (set_operators s)"
proof -
  obtain ops where "enroll_invoker (set_enroll_sudo_invoker s) u ops = Inr (set_operators s)"
    using assms unfolding resolve_installation_settings_def
    by (elim andthen_prodE andthenE) auto
  then show ?thesis by (rule enroll_idem)
qed

text \<open>
  C39: settings that resolve, from any document, sudo user and overrides, never name a privileged
  identity as staging user, staging group, operator group or operator, keep the operator group
  apart from the staging identity, stay below /var/lib, use system identifiers in range and have
  distinct IPv4 DNS servers.
\<close>

theorem resolve_installation_settings_safe:
  assumes "resolve_installation_settings file sudo_user overrides = Inr s"
  shows "(\<forall>n\<in>{set_staging_user s, set_staging_group s, set_operator_group s} \<union> set (set_operators s).
      identity_re n \<and> n \<notin> {''root'', ''sudo'', ''wheel'', ''admin'', ''adm'', ''docker'', ''systemd-journal''})
    \<and> set_operator_group s \<notin> {set_staging_group s, set_staging_user s}
    \<and> distinct (set_operators s)
    \<and> (\<exists>c cs. set_staging_root s = (''/'', ''var'' # ''lib'' # c # cs) \<and> ''..'' \<notin> set (c # cs))
    \<and> (\<forall>i\<in>{set_staging_uid s, set_staging_gid s}. case i of None \<Rightarrow> True | Some n \<Rightarrow> 100 \<le> n \<and> n \<le> 999)
    \<and> set_default_dns s \<noteq> [] \<and> distinct (set_default_dns s) \<and> list_all dotted_quad (set_default_dns s)"
proof -
  note ok = resolve_ok [OF assms]
  have "\<forall>n\<in>{set_staging_user s, set_staging_group s, set_operator_group s} \<union> set (set_operators s).
      identity_ok n"
    using ok by (simp add: settings_ok_def list_all_iff)
  then have names: "\<forall>n\<in>{set_staging_user s, set_staging_group s, set_operator_group s}
      \<union> set (set_operators s). identity_re n
      \<and> n \<notin> {''root'', ''sudo'', ''wheel'', ''admin'', ''adm'', ''docker'', ''systemd-journal''}"
    by (simp only: identity_ok_def forbidden_identities_def list.set)
  obtain p where p: "set_staging_root s = (''/'', p)" "take 2 p = [''var'', ''lib'']" "length p > 2"
    "''..'' \<notin> set p"
    using ok by (cases "set_staging_root s") (auto simp: settings_ok_def staging_root_ok_def)
  then obtain c cs where c: "drop 2 p = c # cs" by (cases "drop 2 p") auto
  then have "p = [''var'', ''lib''] @ c # cs" using p(2) by (metis append_take_drop_id)
  then have root: "\<exists>c cs. set_staging_root s = (''/'', ''var'' # ''lib'' # c # cs) \<and> ''..'' \<notin> set (c # cs)"
    using p by auto
  have rest: "set_operator_group s \<notin> {set_staging_group s, set_staging_user s}"
    "distinct (set_operators s)"
    "\<forall>i\<in>{set_staging_uid s, set_staging_gid s}. case i of None \<Rightarrow> True | Some n \<Rightarrow> 100 \<le> n \<and> n \<le> 999"
    "set_default_dns s \<noteq> [] \<and> distinct (set_default_dns s) \<and> list_all dotted_quad (set_default_dns s)"
    using ok by (simp_all add: settings_ok_def system_id_ok_def dns_ok_def)
  show ?thesis using names root rest by blast
qed

definition sample_settings :: installation_settings where
  "sample_settings =
     \<lparr>set_staging_user = ''awgctl'', set_staging_group = ''awgctl'', set_staging_uid = None,
      set_staging_gid = Some 900, set_staging_root = (''/'', [''var'', ''lib'', ''awg'']),
      set_operator_group = ''awgctl-admin'', set_operators = [''alice'', ''bob''],
      set_enroll_sudo_invoker = True, set_sudo_policy = ''scoped-nopasswd'',
      set_systemd_hardening = ''conservative'', set_default_dns = [''1.1.1.2'', ''1.0.0.2''],
      set_ingress_boundary = None\<rparr>"

definition sample_document :: json where
  "sample_document = JObj
     [(''staging'', JObj [(''gid'', JInt 900), (''root'', JStr ''/var/lib//./awg/'')]),
      (''operators'', JObj [(''users'', JList [JStr ''alice''])])]"

lemma resolve_sample:
  "resolve_installation_settings (Document sample_document) (Some ''bob'')
     [(''staging_uid'', JNull)] = Inr sample_settings"
  by code_simp

theorem resolve_installation_settings_safe_witness:
  "\<exists>c cs. set_staging_root sample_settings = (''/'', ''var'' # ''lib'' # c # cs) \<and> ''..'' \<notin> set (c # cs)"
  using resolve_installation_settings_safe [OF resolve_sample] by blast

text \<open>
  the document \<open>to_dict\<close> writes is read back to the same settings, with the same invoking
  user or with none: an installation that is resolved again keeps its settings.
\<close>

theorem resolve_installation_settings_roundtrip:
  assumes "resolve_installation_settings file sudo_user overrides = Inr s"
  shows "resolve_installation_settings (Document (to_dict s)) sudo_user [] = Inr s
    \<and> resolve_installation_settings (Document (to_dict s)) None [] = Inr s"
  using resolve_to_dict [OF resolve_ok [OF assms] resolve_enrolled [OF assms]]
    resolve_to_dict [OF resolve_ok [OF assms], of None] by (simp add: enroll_invoker_def)

theorem resolve_installation_settings_roundtrip_witness:
  "resolve_installation_settings (Document (to_dict sample_settings)) None [] = Inr sample_settings"
  using resolve_installation_settings_roundtrip [OF resolve_sample] by blast

text \<open>
  A text where the array of operators belongs is not refused: \<open>list\<close> makes one operator of each
  character before the type is tested.
\<close>

lemma operators_text_split:
  "\<exists>s. resolve_installation_settings
      (Document (JObj [(''operators'', JObj [(''users'', JStr ''bob'')])])) None [] = Inr s
     \<and> set_operators s = [''b'', ''o'']"
proof -
  let ?r = "resolve_installation_settings
      (Document (JObj [(''operators'', JObj [(''users'', JStr ''bob'')])])) None []"
  have "map_sum (\<lambda>e. e) set_operators ?r = Inr [''b'', ''o'']" by code_simp
  then show ?thesis by (cases ?r) auto
qed

end
