(* ===== verification/ServerConfig.thy ===== *)
theory ServerConfig
  imports Obfuscation
begin

text \<open>
  The server configuration of \<^verbatim>\<open>src/awgctl/core.py\<close>: \<open>normalize_server_config\<close> reads
  the JSON document of schema 1 or 2 into a record, \<open>server_config_json\<close> is the stored schema 2
  document, and \<open>build_fresh_server_config\<close> makes the first one. The fields hold the texts of the
  document; the blocked networks and the paths are checked against the constants of the code.
\<close>

section \<open>Constants\<close>

definition blocked_forward_ipv4 :: "string list" where
  "blocked_forward_ipv4 =
     [''0.0.0.0/8'', ''10.0.0.0/8'', ''100.64.0.0/10'', ''127.0.0.0/8'', ''169.254.0.0/16'',
      ''172.16.0.0/12'', ''192.0.0.0/24'', ''192.0.2.0/24'', ''192.168.0.0/16'', ''198.18.0.0/15'',
      ''198.51.100.0/24'', ''203.0.113.0/24'', ''224.0.0.0/4'', ''240.0.0.0/4'']"

definition expected_paths :: obj where
  "expected_paths =
     [(''runtime_config'', JStr ''/etc/amnezia/amneziawg/awg0.conf''),
      (''generated_config'', JStr ''/opt/amneziawg/generated/awg0.conf''),
      (''server_private_key'', JStr ''/opt/amneziawg/keys/server/private''),
      (''server_public_key'', JStr ''/opt/amneziawg/keys/server/public''),
      (''clients'', JStr ''/opt/amneziawg/clients''),
      (''client_keys'', JStr ''/opt/amneziawg/keys/clients''),
      (''revoked'', JStr ''/opt/amneziawg/revoked''),
      (''backups'', JStr ''/opt/amneziawg/backups'')]"

definition server_config_fields :: "string list" where
  "server_config_fields =
     [''schema_version'', ''interface'', ''subnet'', ''server_address'', ''endpoint'', ''listen_port'',
      ''external_interface'', ''dns'', ''mtu'', ''keepalive'', ''use_psk'', ''obfuscation'',
      ''blocked_forward_ipv4'', ''paths'']"

section \<open>The record\<close>

record server_config =
  cfg_interface :: string
  cfg_subnet :: string
  cfg_server_address :: string
  cfg_endpoint :: string
  cfg_listen_port :: int
  cfg_external_interface :: string
  cfg_dns :: "string list"
  cfg_mtu :: int
  cfg_keepalive :: int
  cfg_use_psk :: bool
  cfg_obfuscation :: obfuscation
  cfg_blocked :: "string list"

definition server_config_json :: "server_config \<Rightarrow> json" where
  "server_config_json c = JObj
     [(''schema_version'', JInt 2), (''interface'', JStr (cfg_interface c)),
      (''subnet'', JStr (cfg_subnet c)), (''server_address'', JStr (cfg_server_address c)),
      (''endpoint'', JStr (cfg_endpoint c)), (''listen_port'', JInt (cfg_listen_port c)),
      (''external_interface'', JStr (cfg_external_interface c)), (''dns'', dns_json (cfg_dns c)),
      (''mtu'', JInt (cfg_mtu c)), (''keepalive'', JInt (cfg_keepalive c)),
      (''use_psk'', JBool (cfg_use_psk c)), (''obfuscation'', obfuscation_json (cfg_obfuscation c)),
      (''blocked_forward_ipv4'', JList (map JStr (cfg_blocked c))), (''paths'', JObj expected_paths)]"

section \<open>Normalisation\<close>

definition missing_fields :: "obj \<Rightarrow> string list" where
  "missing_fields m = sort (filter (\<lambda>f. f \<notin> set (keys m)) server_config_fields)"

definition bounded_int :: "json \<Rightarrow> int \<Rightarrow> int \<Rightarrow> string \<Rightarrow> int result" where
  "bounded_int v lo hi message =
     (case v of
        JInt n \<Rightarrow> if lo \<le> n \<and> n \<le> hi then Inr n else Inl (AwgctlError message)
      | _ \<Rightarrow> Inl (AwgctlError message))"

definition interface_name :: "json \<Rightarrow> string \<Rightarrow> string result" where
  "interface_name v message =
     (case v of
        JStr s \<Rightarrow> if interface_re s then Inr s else Inl (AwgctlError message)
      | _ \<Rightarrow> Inl (AwgctlError message))"

definition text_list :: "json \<Rightarrow> string list result" where
  "text_list v =
     (case v of
        JList vs \<Rightarrow>
          if list_all is_str vs then Inr (map (\<lambda>v. the (as_str v)) vs)
          else Inl (AwgctlError ''blocked_forward_ipv4 must be a list of networks'')
      | _ \<Rightarrow> Inl (AwgctlError ''blocked_forward_ipv4 must be a list of networks''))"

text \<open>The managed subnet and the server address in it.\<close>

definition managed_subnet :: "string \<Rightarrow> string \<Rightarrow> (ipnet \<times> ipnet) result" where
  "managed_subnet subnet address =
     (case (ip_network subnet, ip_interface address) of
        (Some net, Some server) \<Rightarrow>
          (case (net, server) of
             (I4 n, I4 i) \<Rightarrow>
               if in_net (fst i) n \<and> iface_net i = n then Inr (n, i)
               else Inl (AwgctlError ''server address must use the managed IPv4 subnet prefix'')
           | _ \<Rightarrow> Inl (AwgctlError ''server address must use the managed IPv4 subnet prefix''))
      | _ \<Rightarrow> Inl (AwgctlError ''invalid managed subnet or server address''))"

text \<open>
  \<open>str(ip_network(...))\<close>: \<open>None\<close> stands for the text of an IPv6 network, which is none of the
  texts it is compared with.
\<close>

definition network_text :: "iface \<Rightarrow> string option" where
  "network_text n = (case n of I4 i \<Rightarrow> Some (net_text i) | I6 i \<Rightarrow> None)"

definition check_blocked :: "string list \<Rightarrow> unit result" where
  "check_blocked vs =
     andthen (result_list (\<lambda>s. or_raise (ip_network s)
       (AwgctlError ''blocked_forward_ipv4 is invalid'')) vs) (\<lambda>nets.
     check (map network_text nets = map Some blocked_forward_ipv4)
       (AwgctlError ''blocked_forward_ipv4 does not match the managed isolation policy''))"

definition check_paths :: "json \<Rightarrow> unit result" where
  "check_paths v =
     (case v of
        JObj m \<Rightarrow>
          check (keys_are m (keys expected_paths) \<and> list_all (\<lambda>(k, p). get m k = p) expected_paths)
            (AwgctlError ''managed paths differ from the fixed production layout'')
      | _ \<Rightarrow> Inl (AwgctlError ''managed paths differ from the fixed production layout''))"

definition text_fields :: "json \<Rightarrow> json \<Rightarrow> (string \<times> string) result" where
  "text_fields v w =
     (case (v, w) of
        (JStr s, JStr t) \<Rightarrow> Inr (s, t)
      | _ \<Rightarrow> Inl (AwgctlError ''managed subnet and server address must be text''))"

definition normalize_server_config :: "json \<Rightarrow> server_config result" where
  "normalize_server_config v =
     andthen (or_raise (as_obj v) (AwgctlError ''server configuration must be an object'')) (\<lambda>m.
     andthen (reject_unknown_fields m server_config_fields ''server configuration'') (\<lambda>_.
     andthen (check (missing_fields m = [])
       (AwgctlError (''server configuration missing fields: '' @ join '', '' (missing_fields m)))) (\<lambda>_.
     let schema = get m ''schema_version'' in
     andthen (check (schema = JInt 1 \<or> schema = JInt 2)
       (AwgctlError ''unsupported server configuration schema'')) (\<lambda>_.
     andthen (interface_name (get m ''interface'') ''invalid interface name'') (\<lambda>interface.
     andthen (interface_name (get m ''external_interface'') ''invalid external interface name'') (\<lambda>external.
     andthen (text_list (get m ''blocked_forward_ipv4'')) (\<lambda>blocked.
     andthen (text_fields (get m ''subnet'') (get m ''server_address'')) (\<lambda>(subnet, address).
     andthen (managed_subnet subnet address) (\<lambda>_.
     andthen (or_raise (as_str (get m ''endpoint'')) (AwgctlError ''endpoint must be text'')) (\<lambda>endpoint.
     andthen (validate_endpoint endpoint) (\<lambda>_.
     andthen (bounded_int (get m ''listen_port'') 1 65535
       ''listen_port must be an integer from 1 to 65535'') (\<lambda>port.
     andthen (bounded_int (get m ''mtu'') 576 9000 ''mtu must be an integer from 576 to 9000'') (\<lambda>mtu.
     andthen (bounded_int (get m ''keepalive'') 0 65535
       ''keepalive must be an integer from 0 to 65535'') (\<lambda>keepalive.
     andthen (check (is_list (get m ''dns'')) (AwgctlError ''dns must be a list'')) (\<lambda>_.
     andthen (validate_dns (get m ''dns'')) (\<lambda>dns.
     andthen (or_raise (as_bool (get m ''use_psk'')) (AwgctlError ''use_psk must be boolean'')) (\<lambda>use_psk.
     andthen (if schema = JInt 1 then andthen (classic_profile (get m ''obfuscation'')) (\<lambda>r. Inr (Classic r))
              else normalize_obfuscation (get m ''obfuscation'') mtu) (\<lambda>obfuscation.
     andthen (check_blocked blocked) (\<lambda>_.
     andthen (check_paths (get m ''paths'')) (\<lambda>_.
     Inr \<lparr>cfg_interface = interface, cfg_subnet = subnet, cfg_server_address = address,
          cfg_endpoint = endpoint, cfg_listen_port = port, cfg_external_interface = external,
          cfg_dns = dns, cfg_mtu = mtu, cfg_keepalive = keepalive, cfg_use_psk = use_psk,
          cfg_obfuscation = obfuscation, cfg_blocked = blocked\<rparr>))))))))))))))))))))"

section \<open>The normal form\<close>

definition server_config_ok :: "server_config \<Rightarrow> bool" where
  "server_config_ok c \<longleftrightarrow>
     interface_re (cfg_interface c) \<and> interface_re (cfg_external_interface c)
     \<and> (\<exists>x. managed_subnet (cfg_subnet c) (cfg_server_address c) = Inr x)
     \<and> (\<exists>w. validate_endpoint (cfg_endpoint c) = Inr w)
     \<and> 1 \<le> cfg_listen_port c \<and> cfg_listen_port c \<le> 65535
     \<and> 576 \<le> cfg_mtu c \<and> cfg_mtu c \<le> 9000
     \<and> 0 \<le> cfg_keepalive c \<and> cfg_keepalive c \<le> 65535
     \<and> dns_ok (cfg_dns c) \<and> obfuscation_ok (cfg_mtu c) (cfg_obfuscation c)
     \<and> check_blocked (cfg_blocked c) = Inr ()"

lemma bounded_int_Inr: "bounded_int v lo hi e = Inr n \<longleftrightarrow> v = JInt n \<and> lo \<le> n \<and> n \<le> hi"
  by (cases v) (auto simp: bounded_int_def)

lemma interface_name_Inr: "interface_name v e = Inr s \<longleftrightarrow> v = JStr s \<and> interface_re s"
  by (cases v) (auto simp: interface_name_def)

lemma text_list_JStr [simp]: "text_list (JList (map JStr ss)) = Inr ss"
  by (simp add: text_list_def list_all_iff o_def)

lemma text_fields_Inr: "text_fields v w = Inr (s, t) \<longleftrightarrow> v = JStr s \<and> w = JStr t"
  by (cases v; cases w) (auto simp: text_fields_def)

text \<open>
  \<open>load_config\<close> on the file \<open>config/server.json\<close>, given as its content or the exception that
  reading it raises. A file that is not UTF-8 raises \<open>UnicodeError\<close>, which no clause catches.
\<close>

definition read_server_config :: "json result \<Rightarrow> server_config result" where
  "read_server_config file =
     andthen (except_as ((=) FileNotFoundError) (AwgctlError ''management state is not initialized'')
       (except_as (\<lambda>e. (os_error e \<and> e \<noteq> FileNotFoundError) \<or> e = JSONDecodeError)
         (AwgctlError ''cannot read managed server configuration'') file))
       normalize_server_config"

lemma normalize_server_config_ok:
  assumes "normalize_server_config v = Inr c"
  shows "server_config_ok c"
  using assms unfolding normalize_server_config_def Let_def
  by (elim andthen_prodE andthenE)
    (auto simp: bounded_int_Inr interface_name_Inr server_config_ok_def result_simps
      split: if_splits
      dest: dns.accepted_good obfuscation.accepted_good classic.accepted_good)

lemma paths_ok [simp]: "check_paths (JObj expected_paths) = Inr ()"
  by code_simp

lemma normalize_server_config_id:
  assumes c: "server_config_ok c"
  shows "normalize_server_config (server_config_json c) = Inr c"
proof -
  obtain m where m: "server_config_json c = JObj m" by (simp add: server_config_json_def)
  then have k: "keys m = server_config_fields"
    by (auto simp: server_config_json_def server_config_fields_def)
  have u: "reject_unknown_fields m server_config_fields ''server configuration'' = Inr ()"
    by (rule no_unknown) (simp add: keys_are_def k)
  have mi: "missing_fields m = []" by (simp add: missing_fields_def k)
  have g: "get m ''schema_version'' = JInt 2" "get m ''interface'' = JStr (cfg_interface c)"
    "get m ''subnet'' = JStr (cfg_subnet c)" "get m ''server_address'' = JStr (cfg_server_address c)"
    "get m ''endpoint'' = JStr (cfg_endpoint c)" "get m ''listen_port'' = JInt (cfg_listen_port c)"
    "get m ''external_interface'' = JStr (cfg_external_interface c)" "get m ''dns'' = dns_json (cfg_dns c)"
    "get m ''mtu'' = JInt (cfg_mtu c)" "get m ''keepalive'' = JInt (cfg_keepalive c)"
    "get m ''use_psk'' = JBool (cfg_use_psk c)"
    "get m ''obfuscation'' = obfuscation_json (cfg_obfuscation c)"
    "get m ''blocked_forward_ipv4'' = JList (map JStr (cfg_blocked c))"
    "get m ''paths'' = JObj expected_paths"
    using m by (auto simp: server_config_json_def)
  obtain x w where x: "managed_subnet (cfg_subnet c) (cfg_server_address c) = Inr x"
    and w: "validate_endpoint (cfg_endpoint c) = Inr w"
    using c by (auto simp: server_config_ok_def)
  have d: "validate_dns (dns_json (cfg_dns c)) = Inr (cfg_dns c)"
    using c by (intro dns.good_accepted) (simp add: server_config_ok_def)
  have o1: "normalize_obfuscation (obfuscation_json (cfg_obfuscation c)) (cfg_mtu c)
      = Inr (cfg_obfuscation c)"
    using c by (intro obfuscation.good_accepted) (simp add: server_config_ok_def)
  have l: "is_list (dns_json (cfg_dns c))" by (simp add: dns_json_def)
  have b: "check_blocked (cfg_blocked c) = Inr ()"
    and i: "interface_re (cfg_interface c)" "interface_re (cfg_external_interface c)"
    and n: "1 \<le> cfg_listen_port c" "cfg_listen_port c \<le> 65535" "576 \<le> cfg_mtu c" "cfg_mtu c \<le> 9000"
      "0 \<le> cfg_keepalive c" "cfg_keepalive c \<le> 65535"
    using c by (simp_all add: server_config_ok_def)
  show ?thesis
    unfolding m normalize_server_config_def
    by (simp add: u mi g x w d o1 l b i n interface_name_def text_fields_def bounded_int_def)
qed

interpretation server_config: validator normalize_server_config server_config_json server_config_ok
  by unfold_locales (rule normalize_server_config_ok normalize_server_config_id, assumption)+

section \<open>Properties of the configuration\<close>

lemma managed_subnet_Inr:
  "managed_subnet subnet address = Inr (n, i) \<longleftrightarrow>
     ip_network subnet = Some (I4 n) \<and> ip_interface address = Some (I4 i) \<and> in_net (fst i) n \<and> iface_net i = n"
  by (auto simp: managed_subnet_def split: option.splits iface.splits)

lemma check_blocked_Inr:
  "check_blocked vs = Inr () \<longleftrightarrow>
     (\<exists>nets. result_list (\<lambda>s. or_raise (ip_network s) (AwgctlError ''blocked_forward_ipv4 is invalid'')) vs
        = Inr nets \<and> map network_text nets = map Some blocked_forward_ipv4)"
  by (auto simp: check_blocked_def result_simps)

lemma network_text_valid: "ip_network s = Some n \<Longrightarrow> network_text n = Some t \<Longrightarrow> ip_network t = Some n"
proof -
  assume s: "ip_network s = Some n" and t: "network_text n = Some t"
  then obtain i where n: "n = I4 i" "t = net_text i" by (cases n) (auto simp: network_text_def)
  with s have "parse_interface4 s = Some i" "fst i mod net_size (snd i) = 0"
    by (auto simp: ip_network_def split: option.splits if_splits)
  then show ?thesis
    using parse_interface4_valid [of s i] parse_interface4_text [of i] n
    by (cases i) (auto simp: ip_network_def)
qed

text \<open>
  C34: an accepted server configuration, of schema 1 or 2, has its server address inside the
  managed IPv4 subnet with the prefix of that subnet, a port, MTU and keepalive in range,
  distinct IPv4 DNS servers, blocked networks that denote the isolation policy entry by entry,
  and the schema 2 document written from it is accepted again with the same result.
\<close>

theorem normalize_server_config_strict:
  assumes "normalize_server_config v = Inr c"
  shows "normalize_server_config (server_config_json c) = Inr c
    \<and> (\<exists>base p a. ip_network (cfg_subnet c) = Some (I4 (base, p))
         \<and> ip_interface (cfg_server_address c) = Some (I4 (a, p))
         \<and> base \<le> a \<and> a < base + 2 ^ (32 - p))
    \<and> cfg_listen_port c \<in> {1..65535} \<and> cfg_mtu c \<in> {576..9000} \<and> cfg_keepalive c \<in> {0..65535}
    \<and> cfg_dns c \<noteq> [] \<and> distinct (cfg_dns c) \<and> list_all dotted_quad (cfg_dns c)
    \<and> map ip_network (cfg_blocked c) = map ip_network blocked_forward_ipv4"
proof -
  have ok: "server_config_ok c" using assms by (rule server_config.accepted_good)
  obtain base p a q where net: "ip_network (cfg_subnet c) = Some (I4 (base, p))"
    "ip_interface (cfg_server_address c) = Some (I4 (a, q))" "in_net a (base, p)"
    "iface_net (a, q) = (base, p)"
    using ok by (auto simp: server_config_ok_def managed_subnet_Inr)
  then have "q = p" by (simp add: iface_net_def)
  have range: "base \<le> a" "a < base + 2 ^ (32 - p)"
    using in_net_range [OF net(3)] by (simp_all add: net_size_def)
  obtain nets where nets:
    "result_list (\<lambda>s. or_raise (ip_network s) (AwgctlError ''blocked_forward_ipv4 is invalid''))
       (cfg_blocked c) = Inr nets" "map network_text nets = map Some blocked_forward_ipv4"
    using ok by (auto simp: server_config_ok_def check_blocked_Inr)
  have len: "length nets = length (cfg_blocked c)" "length nets = length blocked_forward_ipv4"
    using nets result_list_Inr_length map_eq_imp_length_eq by (blast, metis length_map)
  have each: "ip_network (cfg_blocked c ! i) = Some (nets ! i)
      \<and> ip_network (blocked_forward_ipv4 ! i) = Some (nets ! i)" if "i < length nets" for i
  proof -
    have n: "ip_network (cfg_blocked c ! i) = Some (nets ! i)"
      using result_list_Inr_nth [OF nets(1), of i] that len by (simp add: result_simps)
    have "network_text (nets ! i) = Some (blocked_forward_ipv4 ! i)"
      using nets(2) that len by (metis nth_map)
    with n show ?thesis using network_text_valid by blast
  qed
  have blocked: "map ip_network (cfg_blocked c) = map ip_network blocked_forward_ipv4"
    using len each by (intro nth_equalityI) simp_all
  show ?thesis
    using server_config.fixpoint [OF assms] ok net range \<open>q = p\<close> blocked
    by (auto simp: server_config_ok_def dns_ok_def)
qed

definition sample_config :: server_config where
  "sample_config =
     \<lparr>cfg_interface = ''awg0'', cfg_subnet = ''10.0.0.0/24'', cfg_server_address = ''10.0.0.1/24'',
      cfg_endpoint = ''vpn.example.com'', cfg_listen_port = 443, cfg_external_interface = ''eth0'',
      cfg_dns = [''1.1.1.1''], cfg_mtu = 1280, cfg_keepalive = 25, cfg_use_psk = True,
      cfg_obfuscation = Classic sample_classic, cfg_blocked = blocked_forward_ipv4\<rparr>"

definition config_document :: "json \<Rightarrow> json \<Rightarrow> string \<Rightarrow> json" where
  "config_document schema obfuscation endpoint = JObj
     [(''schema_version'', schema), (''interface'', JStr ''awg0''), (''subnet'', JStr ''10.0.0.0/24''),
      (''server_address'', JStr ''10.0.0.1/24''), (''endpoint'', JStr endpoint), (''listen_port'', JInt 443),
      (''external_interface'', JStr ''eth0''), (''dns'', JList [JStr ''1.1.1.1'']), (''mtu'', JInt 1280),
      (''keepalive'', JInt 25), (''use_psk'', JBool True), (''obfuscation'', obfuscation),
      (''blocked_forward_ipv4'', JList (map JStr blocked_forward_ipv4)), (''paths'', JObj expected_paths)]"

lemma sample_config_accepted:
  "normalize_server_config (config_document (JInt 1) (JObj sample_classic) ''vpn.example.com'')
     = Inr sample_config"
  by code_simp

theorem normalize_server_config_strict_witness:
  "normalize_server_config (server_config_json sample_config) = Inr sample_config"
  using normalize_server_config_strict [OF sample_config_accepted] by blast

lemma keys_put_same: "k \<in> set (keys m) \<Longrightarrow> keys (put m k v) = keys m"
  by (induction m k v rule: put.induct) auto

lemma keys_are_set: "keys_are m ks \<Longrightarrow> k \<in> set ks \<Longrightarrow> k \<in> set (keys m)"
  by (simp add: keys_are_def)

text \<open>
  A schema 1 configuration is the same configuration as its schema 2 migration, in which the
  classic parameters are wrapped into the profile \<open>classic-v1\<close>.
\<close>

theorem schema1_migration:
  assumes "get m ''schema_version'' = JInt 1" and "keys_are m server_config_fields"
    and "get m ''obfuscation'' = JObj r" and "classic_profile (JObj r) = Inr r'"
  shows "normalize_server_config (JObj m) = normalize_server_config (JObj
     (put (put m ''schema_version'' (JInt 2)) ''obfuscation'' (obfuscation_json (Classic r'))))"
proof -
  let ?m = "put (put m ''schema_version'' (JInt 2)) ''obfuscation'' (obfuscation_json (Classic r'))"
  have "''schema_version'' \<in> set (keys m)" "''obfuscation'' \<in> set (keys m)"
    using assms(2) by (auto intro!: keys_are_set simp: server_config_fields_def)
  then have k: "keys ?m = keys m" by (simp add: keys_put_same del: obfuscation_json.simps)
  have r: "reject_unknown_fields ?m fs l = reject_unknown_fields m fs l" for fs l
    unfolding reject_unknown_fields_def k ..
  have n: "missing_fields ?m = missing_fields m" unfolding missing_fields_def k ..
  have o1: "normalize_obfuscation (obfuscation_json (Classic r')) mtu = Inr (Classic r')" for mtu
    using classic.accepted_good [OF assms(4)] by (intro obfuscation.good_accepted) simp
  show ?thesis
    unfolding normalize_server_config_def as_obj.simps or_raise_simps andthen.simps Let_def r n
    using assms by (simp add: o1 del: obfuscation_json.simps)
qed

lemma sample_wrapped:
  "(put (put (the (as_obj (config_document (JInt 1) (JObj sample_classic) ''vpn.example.com'')))
      ''schema_version'' (JInt 2)) ''obfuscation'' (obfuscation_json (Classic sample_classic)))
   = the (as_obj (config_document (JInt 2) (obfuscation_json (Classic sample_classic)) ''vpn.example.com''))"
  by (simp add: config_document_def)

theorem schema1_migration_witness:
  "normalize_server_config (config_document (JInt 2) (obfuscation_json (Classic sample_classic))
     ''vpn.example.com'') = Inr sample_config"
proof -
  let ?m = "the (as_obj (config_document (JInt 1) (JObj sample_classic) ''vpn.example.com''))"
  have a: "get ?m ''schema_version'' = JInt 1" and b: "get ?m ''obfuscation'' = JObj sample_classic"
    by (simp_all add: config_document_def)
  have c: "keys_are ?m server_config_fields"
    by (simp add: config_document_def keys_are_def server_config_fields_def insert_commute)
  have "normalize_server_config (JObj ?m) = normalize_server_config (JObj
     (put (put ?m ''schema_version'' (JInt 2)) ''obfuscation'' (obfuscation_json (Classic sample_classic))))"
    by (rule schema1_migration [OF a c b sample_classic_accepted])
  then show ?thesis
    using sample_config_accepted unfolding sample_wrapped by (simp add: config_document_def)
qed

text \<open>
  The endpoint is checked in its stripped form but kept as it was read: a text with a line break
  at its end is accepted and stays in the configuration.
\<close>

lemma endpoint_kept_raw:
  "\<exists>c. normalize_server_config (config_document (JInt 1) (JObj sample_classic) ''vpn.example.com\<newline>'') = Inr c
     \<and> cfg_endpoint c = ''vpn.example.com\<newline>''"
proof -
  let ?r = "normalize_server_config
    (config_document (JInt 1) (JObj sample_classic) ''vpn.example.com\<newline>'')"
  have "map_sum (\<lambda>e. e) cfg_endpoint ?r = Inr ''vpn.example.com\<newline>''" by code_simp
  then show ?thesis by (cases ?r) auto
qed

end
