(* ===== verification/FreshConfig.thy ===== *)
theory FreshConfig
  imports ServerConfig Settings
begin

text \<open>
  What a new installation gets in \<^verbatim>\<open>src/awgctl/core.py\<close>: the randomised classic
  parameters, the randomised AWG 3.1 profile with its decoy DNS answer, and the first server
  configuration. The random source is the list of its raw draws; \<open>randint\<close> maps one draw into
  its closed interval, and a loop that redraws is \<open>None\<close> when the list ends inside it.
\<close>

section \<open>The random source\<close>

definition draw :: "int \<Rightarrow> int \<Rightarrow> nat \<Rightarrow> int" where
  "draw lo hi d = lo + int d mod (hi - lo + 1)"

fun randint :: "int \<Rightarrow> int \<Rightarrow> nat list \<Rightarrow> (int \<times> nat list) option" where
  "randint lo hi [] = None"
| "randint lo hi (d # ds) = Some (draw lo hi d, ds)"

text \<open>\<open>while P(v): v = source.randint(lo, hi)\<close>\<close>

fun redraw :: "(int \<Rightarrow> bool) \<Rightarrow> int \<Rightarrow> int \<Rightarrow> int \<Rightarrow> nat list \<Rightarrow> (int \<times> nat list) option" where
  "redraw P lo hi v [] = (if P v then None else Some (v, []))"
| "redraw P lo hi v (d # ds) = (if P v then redraw P lo hi (draw lo hi d) ds else Some (v, d # ds))"

lemma bind_prodE:
  assumes "Option.bind m (\<lambda>(x, z). f x z) = Some y"
  obtains x z where "m = Some (x, z)" "f x z = Some y"
  using assms by (cases m) auto

lemma draw_range: "lo \<le> hi \<Longrightarrow> lo \<le> draw lo hi d \<and> draw lo hi d \<le> hi"
  using pos_mod_sign [of "hi - lo + 1" "int d"] pos_mod_bound [of "hi - lo + 1" "int d"]
  unfolding draw_def by linarith

lemma randint_range: "randint lo hi ds = Some (v, ds') \<Longrightarrow> lo \<le> hi \<Longrightarrow> lo \<le> v \<and> v \<le> hi"
  by (cases ds) (auto simp: draw_range)

lemma redraw_range:
  "redraw P lo hi v ds = Some (v', ds') \<Longrightarrow> lo \<le> hi \<Longrightarrow> lo \<le> v \<Longrightarrow> v \<le> hi \<Longrightarrow>
     lo \<le> v' \<and> v' \<le> hi \<and> \<not> P v'"
  by (induction P lo hi v ds rule: redraw.induct) (auto simp: draw_range split: if_splits)

lemma redraw_stops:
  "\<exists>d\<in>set ds. \<not> P (draw lo hi d) \<Longrightarrow> \<exists>v' rest. redraw P lo hi v (ds @ us) = Some (v', rest @ us)"
proof (induction ds arbitrary: v)
  case Nil
  then show ?case by simp
next
  case (Cons d ds)
  show ?case
  proof (cases "P v \<and> P (draw lo hi d)")
    case True
    with Cons show ?thesis by auto
  next
    case False
    show ?thesis
    proof (cases "P v")
      case pv: True
      with False have "redraw P lo hi (draw lo hi d) (ds @ us) = Some (draw lo hi d, ds @ us)"
        by (cases "ds @ us") auto
      with pv show ?thesis by auto
    next
      case False
      then show ?thesis by (auto intro!: exI [of _ "d # ds"])
    qed
  qed
qed

section \<open>Classic parameters\<close>

fun fresh_headers :: "int list \<Rightarrow> nat list \<Rightarrow> (int list \<times> nat list) option" where
  "fresh_headers hs [] = (if length hs < 4 then None else Some (hs, []))"
| "fresh_headers hs (d # ds) =
     (if length hs < 4
      then (let c = draw 5 2147483647 d in fresh_headers (if c \<in> set hs then hs else hs @ [c]) ds)
      else Some (hs, d # ds))"

definition generate_classic_obfuscation :: "nat list \<Rightarrow> (obj \<times> nat list) option" where
  "generate_classic_obfuscation ds =
     Option.bind (randint 15 150 ds) (\<lambda>(s1, ds).
     Option.bind (randint 15 150 ds) (\<lambda>(s2, ds).
     Option.bind (redraw (\<lambda>s2. s1 + 56 = s2) 15 150 s2 ds) (\<lambda>(s2, ds).
     Option.bind (fresh_headers [] ds) (\<lambda>(hs, ds).
     Option.bind (randint 4 12 ds) (\<lambda>(jc, ds).
     Some ([(''Jc'', JInt jc), (''Jmin'', JInt 8), (''Jmax'', JInt 80), (''S1'', JInt s1),
            (''S2'', JInt s2), (''H1'', JInt (hs ! 0)), (''H2'', JInt (hs ! 1)),
            (''H3'', JInt (hs ! 2)), (''H4'', JInt (hs ! 3))], ds))))))"

section \<open>The AWG 3.1 profile\<close>

definition byte :: "nat \<Rightarrow> char" where
  "byte n = char_of n"

definition bytes :: "nat list \<Rightarrow> string" where
  "bytes ns = map byte ns"

text \<open>\<open>bytes.hex()\<close>\<close>

definition hex_text :: "string \<Rightarrow> string" where
  "hex_text bs =
     concat (map (\<lambda>c. [hex_digit_char (int (ord_char c) div 16), hex_digit_char (int (ord_char c) mod 16)]) bs)"

definition dns_packet :: "string \<Rightarrow> string" where
  "dns_packet entropy =
     (let label = map (\<lambda>c. byte (97 + ord_char c mod 26)) (take 8 (drop 2 entropy));
          qname = bytes [length label] @ label @ bytes [3] @ ''cdn'' @ bytes [0]
      in take 2 entropy
         @ bytes [129, 128, 0, 1, 0, 1, 0, 0, 0, 0]
         @ qname
         @ bytes [0, 1, 0, 1]
         @ bytes [192, 12, 0, 1, 0, 1, 0, 0, 0, 60, 0, 4]
         @ drop (length entropy - 4) entropy)"

definition russia_parameters :: "int \<Rightarrow> int \<Rightarrow> int \<Rightarrow> int \<Rightarrow> int \<Rightarrow> string \<Rightarrow> obj" where
  "russia_parameters jc s1 s2 s3 s4 i1 =
     [(''Jc'', JInt jc), (''Jmin'', JInt 8), (''Jmax'', JInt 80), (''S1'', JInt s1), (''S2'', JInt s2),
      (''S3'', JInt s3), (''S4'', JInt s4), (''H1'', JInt 1), (''H2'', JInt 2), (''H3'', JInt 3),
      (''H4'', JInt 4), (''I1'', JStr i1), (''I2'', JNull), (''I3'', JNull), (''I4'', JNull),
      (''I5'', JNull), (''ContentPaddingAddition'', range_object 0 64),
      (''RekeyAfterTime'', range_object 105 135), (''RekeyTimeout'', range_object 4 7),
      (''RejectAfterTime'', range_object 165 195), (''KeepaliveTimeout'', range_object 8 12),
      (''MaxHandshakeAttempts'', range_object 15 21), (''RandomTrailers'', JBool False),
      (''DisableCookies'', JBool True)]"

definition russia_document :: "obj \<Rightarrow> string \<Rightarrow> json" where
  "russia_document parameters key_path = JObj
     [(''mode'', JStr ''awg31''),
      (''profile'', JObj [(''schema_version'', JInt 1), (''name'', JStr ''russia-ios-v1''),
                          (''parameters'', JObj parameters),
                          (''header_protection_key_path'', JStr key_path)])]"

definition build_russia_ios_obfuscation ::
  "string \<Rightarrow> nat list \<Rightarrow> string \<Rightarrow> int \<Rightarrow> (obfuscation result \<times> nat list) option" where
  "build_russia_ios_obfuscation key_path ds entropy mtu =
     (if length entropy \<noteq> 32
      then Some (Inl (AwgctlError ''CSPRNG returned invalid profile entropy''), ds)
      else
        Option.bind (randint 6 12 ds) (\<lambda>(jc, ds).
        Option.bind (randint 20 120 ds) (\<lambda>(s1, ds).
        Option.bind (randint 20 120 ds) (\<lambda>(s2, ds).
        Option.bind (redraw (\<lambda>s2. s1 + 56 = s2) 20 120 s2 ds) (\<lambda>(s2, ds).
        Option.bind (randint 12 60 ds) (\<lambda>(s3, ds).
        Option.bind (randint 12 30 ds) (\<lambda>(s4, ds).
        let i1 = ''<b 0x'' @ hex_text (dns_packet entropy) @ ''>''
        in Some (normalize_obfuscation
             (russia_document (russia_parameters jc s1 s2 s3 s4 i1) key_path) mtu, ds))))))))"

section \<open>The first configuration\<close>

definition parse_dns_value :: "string \<Rightarrow> string list result" where
  "parse_dns_value s =
     (case validate_dns_setting (JStr s) of
        Inl (SettingsError m) \<Rightarrow> Inl (AwgctlError m)
      | r \<Rightarrow> r)"

definition fresh_document ::
  "string \<Rightarrow> string \<Rightarrow> string \<Rightarrow> int \<Rightarrow> string \<Rightarrow> string list \<Rightarrow> int \<Rightarrow> int \<Rightarrow> json \<Rightarrow> json" where
  "fresh_document subnet address endpoint port external dns mtu keepalive parameters = JObj
     [(''schema_version'', JInt 1), (''interface'', JStr ''awg0''), (''subnet'', JStr subnet),
      (''server_address'', JStr address), (''endpoint'', JStr endpoint), (''listen_port'', JInt port),
      (''external_interface'', JStr external), (''dns'', dns_json dns), (''mtu'', JInt mtu),
      (''keepalive'', JInt keepalive), (''use_psk'', JBool True), (''obfuscation'', parameters),
      (''blocked_forward_ipv4'', JList (map JStr blocked_forward_ipv4)), (''paths'', JObj expected_paths)]"

definition build_fresh_server_config ::
  "string \<Rightarrow> string \<Rightarrow> int \<Rightarrow> string \<Rightarrow> string \<Rightarrow> int \<Rightarrow> int \<Rightarrow> json \<Rightarrow> server_config result" where
  "build_fresh_server_config endpoint subnet port external dns mtu keepalive parameters =
     (case ip_network subnet of
        None \<Rightarrow> Inl (AwgctlError ''fresh-install subnet must be a canonical IPv4 network'')
      | Some (I6 n) \<Rightarrow>
          Inl (AwgctlError ''fresh-install subnet must be IPv4 with a /16 through /30 prefix'')
      | Some (I4 n) \<Rightarrow>
          if snd n < 16 \<or> snd n > 30
          then Inl (AwgctlError ''fresh-install subnet must be IPv4 with a /16 through /30 prefix'')
          else
            andthen (validate_endpoint endpoint) (\<lambda>endpoint.
            andthen (parse_dns_value dns) (\<lambda>dns.
            normalize_server_config (fresh_document (net_text n)
              (net_text (first_host n, snd n)) endpoint port external dns mtu keepalive parameters))))"

section \<open>Generated parameters are accepted\<close>

lemma fresh_headers_ok:
  "fresh_headers hs ds = Some (hs', ds') \<Longrightarrow> length hs \<le> 4 \<Longrightarrow> distinct hs \<Longrightarrow>
     (\<forall>h\<in>set hs. 5 \<le> h \<and> h \<le> 2147483647) \<Longrightarrow>
     length hs' = 4 \<and> distinct hs' \<and> (\<forall>h\<in>set hs'. 5 \<le> h \<and> h \<le> 2147483647)"
proof (induction hs ds rule: fresh_headers.induct)
  case (1 hs)
  then show ?case by (auto split: if_splits)
next
  case (2 hs d ds)
  show ?case
  proof (cases "length hs < 4")
    case True
    let ?c = "draw 5 2147483647 d" and ?hs = "if draw 5 2147483647 d \<in> set hs then hs else hs @ [draw 5 2147483647 d]"
    have "fresh_headers ?hs ds = Some (hs', ds')" using 2(2) True by (simp add: Let_def)
    moreover have "length ?hs \<le> 4" "distinct ?hs" "\<forall>h\<in>set ?hs. 5 \<le> h \<and> h \<le> 2147483647"
      using True 2(4,5) draw_range [of 5 2147483647 d] by auto
    ultimately show ?thesis using 2(1) [OF True refl] by blast
  next
    case False
    with 2 show ?thesis by auto
  qed
qed

text \<open>
  whatever the random source draws, the classic parameters that are generated pass the
  validation of classic profiles unchanged: distinct headers, unambiguous packet lengths.
\<close>

theorem generate_classic_obfuscation_valid:
  assumes "generate_classic_obfuscation ds = Some (r, ds')"
  shows "classic_profile (JObj r) = Inr r"
proof (rule classic.good_accepted)
  obtain s1 s2 s2' hs jc ds1 ds2 ds3 ds4 ds5 where
    s1: "randint 15 150 ds = Some (s1, ds1)" and s2: "randint 15 150 ds1 = Some (s2, ds2)"
    and s2': "redraw (\<lambda>s2. s1 + 56 = s2) 15 150 s2 ds2 = Some (s2', ds3)"
    and hs: "fresh_headers [] ds3 = Some (hs, ds4)" and jc: "randint 4 12 ds4 = Some (jc, ds5)"
    and res: "Some ([(''Jc'', JInt jc), (''Jmin'', JInt 8), (''Jmax'', JInt 80), (''S1'', JInt s1),
            (''S2'', JInt s2'), (''H1'', JInt (hs ! 0)), (''H2'', JInt (hs ! 1)),
            (''H3'', JInt (hs ! 2)), (''H4'', JInt (hs ! 3))], ds5) = Some (r, ds')"
    using assms unfolding generate_classic_obfuscation_def
    by (elim bind_prodE) (rule that)
  have r: "r = [(''Jc'', JInt jc), (''Jmin'', JInt 8), (''Jmax'', JInt 80), (''S1'', JInt s1),
            (''S2'', JInt s2'), (''H1'', JInt (hs ! 0)), (''H2'', JInt (hs ! 1)),
            (''H3'', JInt (hs ! 2)), (''H4'', JInt (hs ! 3))]"
    using res by simp
  have b: "15 \<le> s1" "s1 \<le> 150" "15 \<le> s2'" "s2' \<le> 150" "s1 + 56 \<noteq> s2'" "4 \<le> jc" "jc \<le> 12"
    using randint_range [OF s1] randint_range [OF s2] redraw_range [OF s2'] randint_range [OF jc]
    by auto
  have len: "length hs = 4" and d: "distinct hs" and v: "\<forall>x\<in>set hs. 5 \<le> x \<and> x \<le> 2147483647"
    using fresh_headers_ok [OF hs] by simp_all
  obtain a h c e where h: "hs = [a, h, c, e]"
    using len by (auto simp: eval_nat_numeral length_Suc_conv)
  show "classic_ok r"
    using b d v unfolding classic_ok_def r h
    by (simp add: obfuscation_fields_def awg31_header_fields_def header_maximum_def num_def)
qed

theorem generate_classic_obfuscation_valid_witness:
  "\<exists>r ds'. generate_classic_obfuscation [0, 56, 7, 9, 9, 3, 4, 5, 6] = Some (r, ds')
     \<and> classic_profile (JObj r) = Inr r"
proof -
  obtain r ds' where g: "generate_classic_obfuscation [0, 56, 7, 9, 9, 3, 4, 5, 6] = Some (r, ds')"
    by (cases "generate_classic_obfuscation [0, 56, 7, 9, 9, 3, 4, 5, 6]") (code_simp, auto)
  with generate_classic_obfuscation_valid [OF g] show ?thesis by blast
qed

lemma hex_digit_is_hex: "0 \<le> n \<Longrightarrow> n < 16 \<Longrightarrow> is_hex (hex_digit_char n)"
  by (auto simp: hex_digit_char_def is_hex_def is_digit_def ord_char_of nat_le_iff le_nat_iff)

lemma hex_text_hex: "list_all is_hex (hex_text bs)"
proof -
  have "is_hex (hex_digit_char (int (ord_char c) div 16))" "is_hex (hex_digit_char (int (ord_char c) mod 16))" for c
    using ord_char_less [of c] by (auto intro!: hex_digit_is_hex)
  then show ?thesis by (auto simp: list_all_iff hex_text_def)
qed

lemma length_hex_text: "length (hex_text bs) = 2 * length bs"
  by (induction bs) (simp_all add: hex_text_def)

lemma length_dns_packet: "length entropy = 32 \<Longrightarrow> length (dns_packet entropy) = 46"
  by (simp add: dns_packet_def Let_def bytes_def)

lemma decoy_packet_ok:
  assumes "length entropy = 32" and "576 \<le> mtu"
  shows "cps_ok mtu (''<b 0x'' @ hex_text (dns_packet entropy) @ ''>'')"
proof -
  let ?t = "[Bytes (hex_text (dns_packet entropy))]"
  have n: "length (hex_text (dns_packet entropy)) = 92"
    using assms(1) by (simp add: length_hex_text length_dns_packet)
  then have "hex_text (dns_packet entropy) \<noteq> []" by auto
  then have "list_all tag_ok ?t" using hex_text_hex n by simp
  moreover have "packet_size ?t = 46" using n by (simp add: packet_size_def)
  moreover have "''<b 0x'' @ hex_text (dns_packet entropy) @ ''>'' = tags_text ?t"
    by (simp add: tags_text_def)
  moreover have "''<b 0x'' @ hex_text (dns_packet entropy) @ ''>'' \<noteq> []" by simp
  ultimately show ?thesis
    using assms(2) unfolding cps_ok_def
    by (intro conjI exI [of _ ?t]) (assumption | simp only: of_nat_numeral | linarith)+
qed

lemma russia_parameters_ok:
  assumes "6 \<le> jc" "jc \<le> 12" "20 \<le> s1" "s1 \<le> 120" "20 \<le> s2" "s2 \<le> 120" "s1 + 56 \<noteq> s2"
    "12 \<le> s3" "s3 \<le> 60" "12 \<le> s4" "s4 \<le> 30" "cps_ok mtu i1"
  shows "awg31_ok mtu (russia_parameters jc s1 s2 s3 s4 i1)"
proof -
  let ?r = "russia_parameters jc s1 s2 s3 s4 i1"
  have k: "keys ?r = awg31_parameter_fields" by (simp add: russia_parameters_def field_defs)
  have g: "get ?r ''Jc'' = JInt jc" "get ?r ''Jmin'' = JInt 8" "get ?r ''Jmax'' = JInt 80"
    "get ?r ''S1'' = JInt s1" "get ?r ''S2'' = JInt s2" "get ?r ''S3'' = JInt s3"
    "get ?r ''S4'' = JInt s4" "get ?r ''H1'' = JInt 1" "get ?r ''H2'' = JInt 2"
    "get ?r ''H3'' = JInt 3" "get ?r ''H4'' = JInt 4" "get ?r ''I1'' = JStr i1"
    "get ?r ''I2'' = JNull" "get ?r ''I3'' = JNull" "get ?r ''I4'' = JNull" "get ?r ''I5'' = JNull"
    "get ?r ''RandomTrailers'' = JBool False" "get ?r ''DisableCookies'' = JBool True"
    by (simp_all add: russia_parameters_def)
  have q: "\<forall>(f, v)\<in>set required_ranges. get ?r f = v"
    by (simp add: required_ranges_def russia_parameters_def)
  have b: "\<forall>(f, lo, hi)\<in>set required_bounds. \<exists>n. get ?r f = JInt n \<and> lo \<le> n \<and> n \<le> hi"
    using assms by (simp add: required_bounds_def g)
  have h: "\<forall>(f, n)\<in>set header_values_fixed. get ?r f = JInt n \<or> get ?r f = range_object n n"
    by (simp add: header_values_fixed_def g)
  have c: "\<forall>f\<in>set (tl awg31_cps_fields). get ?r f = JNull" by (simp add: awg31_cps_fields_def g)
  have n: "num ?r ''S1'' + 56 \<noteq> num ?r ''S2''" using assms(7) by (simp add: num_def g)
  show ?thesis
    unfolding awg31_ok_def using k q b h c n assms(12) g by simp
qed

text \<open>
  C35: whatever the random source and the entropy are, the generated AWG 3.1 profile passes the
  strict policy with the parameters that were drawn: generation never fails validation, and the
  decoy packet fits the smallest admissible MTU.
\<close>

theorem build_russia_ios_obfuscation_valid:
  assumes "build_russia_ios_obfuscation header_protection_key ds entropy mtu = Some (res, ds')"
    and "length entropy = 32" and "576 \<le> mtu"
  shows "\<exists>jc s1 s2 s3 s4. res = Inr (Awg31 (russia_parameters jc s1 s2 s3 s4
      (''<b 0x'' @ hex_text (dns_packet entropy) @ ''>'')))
    \<and> obfuscation_ok mtu (Awg31 (russia_parameters jc s1 s2 s3 s4
      (''<b 0x'' @ hex_text (dns_packet entropy) @ ''>'')))"
proof -
  let ?i1 = "''<b 0x'' @ hex_text (dns_packet entropy) @ ''>''"
  obtain jc s1 s2 s2' s3 s4 ds1 ds2 ds3 ds4 ds5 ds6 where
    jc: "randint 6 12 ds = Some (jc, ds1)" and s1: "randint 20 120 ds1 = Some (s1, ds2)"
    and s2: "randint 20 120 ds2 = Some (s2, ds3)"
    and s2': "redraw (\<lambda>s2. s1 + 56 = s2) 20 120 s2 ds3 = Some (s2', ds4)"
    and s3: "randint 12 60 ds4 = Some (s3, ds5)" and s4: "randint 12 30 ds5 = Some (s4, ds6)"
    and eq: "Some (normalize_obfuscation
      (russia_document (russia_parameters jc s1 s2' s3 s4 ?i1) header_protection_key) mtu, ds6)
      = Some (res, ds')"
    using assms(1,2) unfolding build_russia_ios_obfuscation_def Let_def
    by (simp only: not_True_eq_False if_False simp_thms) (elim bind_prodE, rule that)
  have res: "res = normalize_obfuscation
      (russia_document (russia_parameters jc s1 s2' s3 s4 ?i1) header_protection_key) mtu"
    using eq by simp
  have ok: "awg31_ok mtu (russia_parameters jc s1 s2' s3 s4 ?i1)"
    using randint_range [OF jc] randint_range [OF s1] randint_range [OF s2] redraw_range [OF s2']
      randint_range [OF s3] randint_range [OF s4] decoy_packet_ok [OF assms(2,3)]
    by (intro russia_parameters_ok) auto
  have "russia_document (russia_parameters jc s1 s2' s3 s4 ?i1) header_protection_key
      = obfuscation_json (Awg31 (russia_parameters jc s1 s2' s3 s4 ?i1))"
    by (simp add: russia_document_def)
  then have "res = Inr (Awg31 (russia_parameters jc s1 s2' s3 s4 ?i1))"
    unfolding res using ok by (simp only: obfuscation.good_accepted obfuscation_ok.simps)
  with ok show ?thesis by (intro exI [of _ jc] exI [of _ s1] exI [of _ s2'] exI [of _ s3] exI [of _ s4]) simp
qed

definition sample_entropy :: string where
  "sample_entropy = replicate 32 CHR ''a''"

lemma build_russia_sample:
  "\<exists>res ds'. build_russia_ios_obfuscation header_protection_key [0, 0, 56, 1, 2, 3] sample_entropy 1280
     = Some (res, ds')"
  by (simp add: build_russia_ios_obfuscation_def sample_entropy_def draw_def)

theorem build_russia_ios_obfuscation_valid_witness:
  "\<exists>ob ds'. build_russia_ios_obfuscation header_protection_key [0, 0, 56, 1, 2, 3] sample_entropy 1280
     = Some (Inr ob, ds') \<and> obfuscation_ok 1280 ob"
proof -
  obtain res ds' where b: "build_russia_ios_obfuscation header_protection_key [0, 0, 56, 1, 2, 3]
      sample_entropy 1280 = Some (res, ds')" using build_russia_sample by blast
  have "length sample_entropy = 32" by (simp add: sample_entropy_def)
  then show ?thesis using b build_russia_ios_obfuscation_valid [OF b] by auto
qed

text \<open>
  C36: the redrawing loop of the profile ends as soon as the source draws a second size that
  differs from the first by anything but 56: the profile is then built.
\<close>

theorem build_russia_ios_obfuscation_returns:
  assumes "\<exists>d\<in>set ds. draw 20 120 d1 + 56 \<noteq> draw 20 120 d"
  shows "\<exists>res rest. build_russia_ios_obfuscation key_path (d0 # d1 # d2 # ds @ [d3, d4]) entropy mtu
     = Some (res, rest)"
proof -
  obtain v rest where r: "redraw (\<lambda>s2. draw 20 120 d1 + 56 = s2) 20 120 (draw 20 120 d2) (ds @ [d3, d4])
      = Some (v, rest @ [d3, d4])"
    using redraw_stops [of ds "\<lambda>s2. draw 20 120 d1 + 56 = s2" 20 120 "draw 20 120 d2" "[d3, d4]"] assms
    by blast
  obtain x y zs where xy: "rest @ [d3, d4] = x # y # zs" by (cases rest; cases "tl rest") auto
  show ?thesis
    by (simp add: build_russia_ios_obfuscation_def r [unfolded xy] Let_def)
qed

theorem build_russia_ios_obfuscation_returns_witness:
  "\<exists>res rest. build_russia_ios_obfuscation header_protection_key (0 # 0 # 56 # [56, 56, 1] @ [2, 3])
     sample_entropy 1280 = Some (res, rest)"
  by (rule build_russia_ios_obfuscation_returns) (simp add: draw_def)

section \<open>The first configuration\<close>

lemma fresh_interface:
  assumes "ip_network subnet = Some (I4 (base, p))" and "16 \<le> p" "p \<le> 30"
  shows "managed_subnet (net_text (base, p)) (net_text (base + 1, p)) = Inr ((base, p), (base + 1, p))"
proof -
  have n: "parse_interface4 subnet = Some (base, p)" "base mod net_size p = 0"
    using assms(1) by (auto simp: ip_network_def split: option.splits if_splits prod.splits)
  then have v: "valid_net (base, p)" by (intro parse_interface4_valid)
  have four: "(4 :: int) dvd net_size p"
  proof -
    have "(2 :: int) ^ 2 dvd 2 ^ (32 - p)" using assms(3) by (intro le_imp_power_dvd) simp
    then show ?thesis by (simp add: net_size_def)
  qed
  have size: "net_size p \<ge> 4" using zdvd_imp_le [OF four] by simp
  have "(4 :: int) dvd 4294967296 - base"
    using n(2) four by (intro dvd_diff) (auto intro: dvd_trans)
  moreover have "4294967296 - base > 0" using v by (simp add: valid_net_def valid_ipv4_def)
  ultimately have "base + 1 < 4294967296" using zdvd_imp_le by fastforce
  then have v1: "valid_net (base + 1, p)" using v by (simp add: valid_net_def valid_ipv4_def)
  have b1: "(base + 1) mod net_size p = 1"
    using n(2) size by (simp add: mod_add_eq [symmetric])
  have "ip_network (net_text (base, p)) = Some (I4 (base, p))"
    using parse_interface4_text [OF v] n(2) by (simp add: ip_network_def)
  moreover have "ip_interface (net_text (base + 1, p)) = Some (I4 (base + 1, p))"
    using v1 by (rule ip_interface_text)
  moreover have "net_base (base + 1) p = base" using b1 by (simp add: net_base_def)
  ultimately show ?thesis by (simp add: managed_subnet_Inr in_net_def iface_net_def)
qed

text \<open>
  a fresh installation with a canonical IPv4 subnet of prefix 16 to 30, an accepted endpoint
  and DNS setting, values in range and generated classic parameters always gets a configuration:
  its server is the first host of the subnet, it uses preshared keys and the isolation policy,
  and it is in normal form.
\<close>

theorem build_fresh_server_config_first_host:
  assumes net: "ip_network subnet = Some (I4 (base, p))" and p: "16 \<le> p" "p \<le> 30"
    and e: "validate_endpoint endpoint = Inr host" and d: "parse_dns_value dns = Inr servers"
    and port: "port \<in> {1..65535}" and ext: "interface_re external"
    and mtu: "mtu \<in> {576..9000}" and ka: "keepalive \<in> {0..65535}"
    and par: "classic_profile parameters = Inr r"
  shows "\<exists>c. build_fresh_server_config endpoint subnet port external dns mtu keepalive parameters = Inr c
    \<and> ip_interface (cfg_server_address c) = Some (I4 (base + 1, p)) \<and> cfg_endpoint c = host
    \<and> cfg_use_psk c \<and> cfg_blocked c = blocked_forward_ipv4 \<and> cfg_obfuscation c = Classic r
    \<and> normalize_server_config (server_config_json c) = Inr c"
proof -
  let ?c = "\<lparr>cfg_interface = ''awg0'', cfg_subnet = net_text (base, p),
      cfg_server_address = net_text (base + 1, p), cfg_endpoint = host, cfg_listen_port = port,
      cfg_external_interface = external, cfg_dns = servers, cfg_mtu = mtu, cfg_keepalive = keepalive,
      cfg_use_psk = True, cfg_obfuscation = Classic r, cfg_blocked = blocked_forward_ipv4\<rparr>"
  obtain m where m: "fresh_document (net_text (base, p)) (net_text (base + 1, p)) host port external
      servers mtu keepalive parameters = JObj m" by (simp add: fresh_document_def)
  then have k: "keys m = server_config_fields"
    by (auto simp: fresh_document_def server_config_fields_def)
  have u: "reject_unknown_fields m server_config_fields ''server configuration'' = Inr ()"
    by (rule no_unknown) (simp add: keys_are_def k)
  have mi: "missing_fields m = []" by (simp add: missing_fields_def k)
  have g: "get m ''schema_version'' = JInt 1" "get m ''interface'' = JStr ''awg0''"
    "get m ''subnet'' = JStr (net_text (base, p))" "get m ''server_address'' = JStr (net_text (base + 1, p))"
    "get m ''endpoint'' = JStr host" "get m ''listen_port'' = JInt port"
    "get m ''external_interface'' = JStr external" "get m ''dns'' = dns_json servers"
    "get m ''mtu'' = JInt mtu" "get m ''keepalive'' = JInt keepalive" "get m ''use_psk'' = JBool True"
    "get m ''obfuscation'' = parameters"
    "get m ''blocked_forward_ipv4'' = JList (map JStr blocked_forward_ipv4)"
    "get m ''paths'' = JObj expected_paths"
    using m by (auto simp: fresh_document_def)
  have "dns_ok servers"
    using d by (auto simp: parse_dns_value_def dest: validate_dns_setting_ok split: sum.splits error.splits)
  then have dn: "validate_dns (dns_json servers) = Inr servers" "is_list (dns_json servers)"
    by (rule dns.good_accepted, simp add: dns_json_def)
  have e2: "validate_endpoint host = Inr host" using e by (rule endpoint.fixpoint)
  have a: "interface_re ''awg0''" by code_simp
  have b: "check_blocked blocked_forward_ipv4 = Inr ()" by code_simp
  have n: "normalize_server_config (JObj m) = Inr ?c"
    unfolding normalize_server_config_def
    using port ext mtu ka par
    by (simp add: u mi g fresh_interface [OF net p] e2 dn a b interface_name_def text_fields_def bounded_int_def)
  have fh: "first_host (base, p) = base + 1" using p by (simp add: first_host_def)
  have c: "build_fresh_server_config endpoint subnet port external dns mtu keepalive parameters = Inr ?c"
    using net p e d m n by (simp add: build_fresh_server_config_def fh)
  have "ip_interface (net_text (base + 1, p)) = Some (I4 (base + 1, p))"
    using fresh_interface [OF net p] by (simp add: managed_subnet_Inr)
  then show ?thesis
    using c server_config.fixpoint [OF n] by (intro exI [of _ ?c]) simp
qed

theorem build_fresh_server_config_first_host_witness:
  "\<exists>c. build_fresh_server_config '' vpn.example.com. '' ''10.8.0.0/24'' 443 ''eth0'' ''cloudflare'' 1280 25
       (JObj sample_classic) = Inr c
     \<and> ip_interface (cfg_server_address c) = Some (I4 (168296449, 24))"
proof -
  have "ip_network ''10.8.0.0/24'' = Some (I4 (168296448, 24))"
    "validate_endpoint '' vpn.example.com. '' = Inr ''vpn.example.com''"
    "parse_dns_value ''cloudflare'' = Inr [''1.1.1.1'', ''1.0.0.1'']" "interface_re ''eth0''"
    by code_simp+
  from build_fresh_server_config_first_host [OF this(1) _ _ this(2,3) _ this(4) _ _ sample_classic_accepted,
      of 443 1280 25]
  show ?thesis by auto
qed

end
