(* ===== verification/AwgConfig.thy ===== *)
theory AwgConfig
  imports Prelude
begin

text \<open>
  \<open>parse_awg_config\<close> of \<^verbatim>\<open>src/awgctl/core.py\<close>: the sections of an AmneziaWG
  configuration file. A section name keeps the list of its occurrences in the order of the file;
  the section being read is the last occurrence of its name. The lemmas say what the parser
  returns for text that is written section by section.
\<close>

section \<open>Lines\<close>

text \<open>\<open>str.splitlines\<close> on the code points 0 to 255.\<close>

definition line_break :: "char \<Rightarrow> bool" where
  "line_break c \<longleftrightarrow> ord_char c \<in> {10, 11, 12, 13, 28, 29, 30, 133}"

fun splitlines :: "string \<Rightarrow> string list" where
  "splitlines [] = []"
| "splitlines [c] = [if line_break c then [] else [c]]"
| "splitlines (c # d # cs) =
     (if ord_char c = 13 \<and> ord_char d = 10 then [] # splitlines cs
      else if line_break c then [] # splitlines (d # cs)
      else (case splitlines (d # cs) of [] \<Rightarrow> [[c]] | l # ls \<Rightarrow> (c # l) # ls))"

definition unlines :: "string list \<Rightarrow> string" where
  "unlines ls = concat (map (\<lambda>l. l @ [CHR ''\<newline>'']) ls)"

lemma line_break_newline [simp]: "line_break CHR ''\<newline>''" "ord_char CHR ''\<newline>'' = 10"
  by (simp_all add: line_break_def ord_char_def)

lemma splitlines_Cons:
  "\<not> line_break c \<Longrightarrow>
     splitlines (c # cs) = (case splitlines cs of [] \<Rightarrow> [[c]] | l # ls \<Rightarrow> (c # l) # ls)"
  by (cases cs) (auto simp: line_break_def)

lemma splitlines_newline: "splitlines (CHR ''\<newline>'' # cs) = [] # splitlines cs"
  by (cases cs) auto

lemma splitlines_line:
  "\<forall>c\<in>set l. \<not> line_break c \<Longrightarrow> splitlines (l @ CHR ''\<newline>'' # cs) = l # splitlines cs"
  by (induction l) (simp_all add: splitlines_newline splitlines_Cons)

lemma splitlines_unlines:
  "\<forall>l\<in>set ls. \<forall>c\<in>set l. \<not> line_break c \<Longrightarrow> splitlines (unlines ls) = ls"
  by (induction ls) (simp_all add: unlines_def splitlines_line)

lemma join_newline: "ls \<noteq> [] \<Longrightarrow> join [CHR ''\<newline>''] ls @ [CHR ''\<newline>''] = unlines ls"
proof (induction ls)
  case Nil
  then show ?case by simp
next
  case (Cons l ls)
  then show ?case by (cases ls) (simp_all add: unlines_def)
qed

section \<open>The parser\<close>

type_synonym directives = "(string \<times> string) list"
type_synonym sections = "(string \<times> directives list) list"

text \<open>\<open>sections.setdefault(name, []).append({})\<close>\<close>

fun open_section :: "sections \<Rightarrow> string \<Rightarrow> sections" where
  "open_section [] n = [(n, [[]])]"
| "open_section ((n', ds) # s) n =
     (if n' = n then (n', ds @ [[]]) # s else (n', ds) # open_section s n)"

text \<open>The dict of the section being read, and its update with a new key.\<close>

definition occurrences :: "sections \<Rightarrow> string \<Rightarrow> directives list" where
  "occurrences s n = (case map_of s n of None \<Rightarrow> [] | Some ds \<Rightarrow> ds)"

fun add_directive :: "sections \<Rightarrow> string \<Rightarrow> string \<Rightarrow> string \<Rightarrow> sections" where
  "add_directive [] n k v = []"
| "add_directive ((n', ds) # s) n k v =
     (if n' = n then (n', butlast ds @ [last ds @ [(k, v)]]) # s
      else (n', ds) # add_directive s n k v)"

definition at_line :: "string \<Rightarrow> nat \<Rightarrow> error" where
  "at_line message number = AwgctlError (message @ '' at line '' @ dec_nat number)"

definition parse_line ::
  "nat \<Rightarrow> string \<Rightarrow> sections \<times> string option \<Rightarrow> (sections \<times> string option) result" where
  "parse_line number raw st =
     (let l = strip raw; sections = fst st
      in if l = [] \<or> hd l = CHR ''#'' \<or> hd l = CHR '';'' then Inr st
         else if hd l = CHR ''['' \<and> last l = CHR '']'' then
           (let name = strip (butlast (tl l))
            in if name = [] then Inl (at_line ''empty section'' number)
               else Inr (open_section sections name, Some name))
         else case snd st of
           None \<Rightarrow> Inl (at_line ''invalid configuration syntax'' number)
         | Some current \<Rightarrow>
             if CHR ''='' \<notin> set l then Inl (at_line ''invalid configuration syntax'' number)
             else (case partition_on CHR ''='' l of (k, found, v) \<Rightarrow>
               let key = strip k; val = strip v
               in if key = [] then Inl (at_line ''empty key'' number)
                  else if key \<in> set (map fst (last (occurrences sections current)))
                  then Inl (at_line (''duplicate key '' @ key) number)
                  else Inr (add_directive sections current key val, Some current)))"

fun parse_lines ::
  "nat \<Rightarrow> string list \<Rightarrow> sections \<times> string option \<Rightarrow> (sections \<times> string option) result" where
  "parse_lines number [] st = Inr st"
| "parse_lines number (l # ls) st = andthen (parse_line number l st) (parse_lines (number + 1) ls)"

definition parse_awg_config :: "string \<Rightarrow> sections result" where
  "parse_awg_config txt =
     andthen (parse_lines 1 (splitlines txt) ([], None)) (\<lambda>st. Inr (fst st))"

section \<open>Parsing what was written\<close>

text \<open>
  A written block: a header line and lines that are blank, comments, or directives \<open>k = v\<close>.
\<close>

definition plain_text :: "string \<Rightarrow> bool" where
  "plain_text s \<longleftrightarrow>
     s \<noteq> [] \<and> \<not> is_space (hd s) \<and> \<not> is_space (last s) \<and> (\<forall>c\<in>set s. \<not> line_break c)"

definition key_text_plain :: "string \<Rightarrow> bool" where
  "key_text_plain k \<longleftrightarrow> plain_text k \<and> is_alpha (hd k) \<and> CHR ''='' \<notin> set k"

definition directive_line :: "string \<times> string \<Rightarrow> string" where
  "directive_line d = fst d @ '' = '' @ snd d"

definition directives_plain :: "directives \<Rightarrow> bool" where
  "directives_plain ds \<longleftrightarrow>
     distinct (map fst ds) \<and> (\<forall>(k, v)\<in>set ds. key_text_plain k \<and> plain_text v)"

definition skipped_line :: "string \<Rightarrow> bool" where
  "skipped_line l \<longleftrightarrow> (l = [] \<or> hd l = CHR ''#'' \<and> plain_text l)"

lemma strip_plain: "plain_text s \<Longrightarrow> strip s = s"
  by (rule strip_id) (simp add: plain_text_def)

lemma alpha_consts [simp]: "\<not> is_alpha CHR ''#''" "\<not> is_alpha CHR '';''" "\<not> is_alpha CHR ''[''"
  by (simp_all add: char_class_defs)

lemma parse_skipped: "skipped_line l \<Longrightarrow> parse_line n l st = Inr st"
  by (auto simp: skipped_line_def parse_line_def Let_def strip_plain)

lemma strip_trailing: "strip k = k \<Longrightarrow> k \<noteq> [] \<Longrightarrow> strip (k @ '' '') = k"
proof -
  assume k: "strip k = k" "k \<noteq> []"
  then have e: "\<not> is_space (hd k)" "\<not> is_space (last k)" using strip_ends [of k] by auto
  have "is_space CHR '' ''" by (simp add: is_space_def ord_char_def)
  then have "strip (k @ '' '') = rstrip (k @ '' '')"
    using e k(2) by (simp add: strip_def lstrip_def dropWhile_no hd_append2)
  also have "\<dots> = k"
    using e k(2) \<open>is_space CHR '' ''\<close> by (simp add: rstrip_def dropWhile_no hd_rev)
  finally show ?thesis .
qed

lemma strip_leading: "plain_text v \<Longrightarrow> strip (CHR '' '' # v) = v"
proof -
  assume v: "plain_text v"
  have "is_space CHR '' ''" by (simp add: is_space_def ord_char_def)
  then have "strip (CHR '' '' # v) = strip v" by (simp add: strip_def lstrip_def)
  with v show ?thesis by (simp add: strip_plain)
qed

lemma parse_directive:
  assumes k: "key_text_plain k" and v: "plain_text v"
    and new: "k \<notin> set (map fst (last (occurrences s n)))"
  shows "parse_line i (directive_line (k, v)) (s, Some n) = Inr (add_directive s n k v, Some n)"
proof -
  let ?l = "k @ '' = '' @ v"
  have kp: "plain_text k" "is_alpha (hd k)" "CHR ''='' \<notin> set k" using k by (simp_all add: key_text_plain_def)
  have "\<not> is_space (hd ?l)" "\<not> is_space (last ?l)"
    using kp(1) v by (simp_all add: plain_text_def hd_append2)
  then have st: "strip ?l = ?l" by (intro strip_id) simp
  have h: "hd ?l = hd k" using kp(1) by (simp add: plain_text_def)
  have "partition_on CHR ''='' ((k @ '' '') @ CHR ''='' # (CHR '' '' # v))
      = (k @ '' '', True, CHR '' '' # v)"
    using kp(3) by (intro partition_on_append) simp
  then have p: "partition_on CHR ''='' ?l = (k @ '' '', True, CHR '' '' # v)" by simp
  have ks: "strip (k @ '' '') = k" using kp(1) by (intro strip_trailing strip_plain) (simp_all add: plain_text_def)
  have a: "hd k \<noteq> CHR ''#''" "hd k \<noteq> CHR '';''" "hd k \<noteq> CHR ''[''" "k \<noteq> []"
    using kp by (auto simp: plain_text_def)
  show ?thesis
    unfolding parse_line_def directive_line_def fst_conv snd_conv st Let_def h p
    using a new v by (simp add: ks strip_leading)
qed

lemma occurrences_simps [simp]:
  "occurrences [] n = []"
  "occurrences ((n', ds) # s) n = (if n' = n then ds else occurrences s n)"
  by (simp_all add: occurrences_def)

lemma occurrences_add:
  "n \<in> fst ` set s \<Longrightarrow> occurrences (add_directive s n k v) m =
     (if m = n then butlast (occurrences s n) @ [last (occurrences s n) @ [(k, v)]] else occurrences s m)"
  by (induction s n k v rule: add_directive.induct) force+

text \<open>A section whose last occurrence starts empty receives the directives in order.\<close>

definition fill_last :: "sections \<Rightarrow> string \<Rightarrow> directives \<Rightarrow> sections" where
  "fill_last s n ds = foldl (\<lambda>s (k, v). add_directive s n k v) s ds"

lemma names_add [simp]: "fst ` set (add_directive s n k v) = fst ` set s"
  by (induction s n k v rule: add_directive.induct) auto

lemma parse_lines_append:
  "parse_lines n (ls @ ms) st = andthen (parse_lines n ls st) (parse_lines (n + length ls) ms)"
  by (induction ls arbitrary: n st) (auto simp: andthen_assoc intro!: arg_cong [of _ _ "andthen _"])

lemma parse_directives:
  assumes "directives_plain ds" and "n \<in> fst ` set s"
    and "\<forall>k\<in>fst ` set ds. k \<notin> set (map fst (last (occurrences s n)))"
  shows "parse_lines i (map directive_line ds) (s, Some n) = Inr (fill_last s n ds, Some n)"
  using assms
proof (induction ds arbitrary: s i)
  case Nil
  then show ?case by (simp add: fill_last_def)
next
  case (Cons d ds)
  obtain k v where d: "d = (k, v)" by force
  have p: "parse_line i (directive_line d) (s, Some n) = Inr (add_directive s n k v, Some n)"
    unfolding d using Cons.prems d by (intro parse_directive) (auto simp: directives_plain_def)
  have "parse_lines (i + 1) (map directive_line ds) (add_directive s n k v, Some n)
      = Inr (fill_last (add_directive s n k v) n ds, Some n)"
  proof (rule Cons.IH)
    show "directives_plain ds" using Cons.prems(1) by (simp add: directives_plain_def)
    show "n \<in> fst ` set (add_directive s n k v)" using Cons.prems(2) by simp
    show "\<forall>k'\<in>fst ` set ds. k' \<notin> set (map fst (last (occurrences (add_directive s n k v) n)))"
      using Cons.prems d by (auto simp: occurrences_add directives_plain_def)
  qed
  then show ?case using p d by (simp add: fill_last_def)
qed

definition header_line :: "string \<Rightarrow> string" where
  "header_line n = ''['' @ n @ '']''"

lemma parse_header:
  assumes "plain_text n"
  shows "parse_line i (header_line n) (s, c) = Inr (open_section s n, Some n)"
proof -
  have "strip (header_line n) = header_line n"
    by (rule strip_id) (simp add: header_line_def is_space_def ord_char_def)
  then show ?thesis
    using assms by (simp add: parse_line_def Let_def header_line_def butlast_append strip_plain plain_text_def)
qed

text \<open>A block is a section name with its comment and its directives.\<close>

type_synonym block = "string \<times> string list \<times> directives"

definition block_lines :: "block \<Rightarrow> string list" where
  "block_lines b = (case b of (n, comments, ds) \<Rightarrow> header_line n # comments @ map directive_line ds)"

definition block_plain :: "block \<Rightarrow> bool" where
  "block_plain b \<longleftrightarrow>
     (case b of (n, comments, ds) \<Rightarrow>
        plain_text n \<and> list_all skipped_line comments \<and> directives_plain ds)"

definition add_block :: "sections \<Rightarrow> block \<Rightarrow> sections" where
  "add_block s b = (case b of (n, comments, ds) \<Rightarrow> fill_last (open_section s n) n ds)"

lemma parse_comments: "list_all skipped_line ls \<Longrightarrow> parse_lines i ls st = Inr st"
  by (induction ls arbitrary: i) (simp_all add: parse_skipped)

lemma names_open [simp]: "fst ` set (open_section s n) = insert n (fst ` set s)"
  by (induction s n rule: open_section.induct) auto

lemma last_open [simp]: "last (occurrences (open_section s n) n) = []"
  by (induction s n rule: open_section.induct) auto

lemma parse_block:
  assumes "block_plain b"
  shows "\<exists>c. parse_lines i (block_lines b) (s, d) = Inr (add_block s b, c)"
proof -
  obtain n comments ds where b: "b = (n, comments, ds)" by (cases b) auto
  have n: "plain_text n" and c: "list_all skipped_line comments" and d: "directives_plain ds"
    using assms by (simp_all add: block_plain_def b)
  have "parse_lines j (map directive_line ds) (open_section s n, Some n)
      = Inr (fill_last (open_section s n) n ds, Some n)" for j
    by (rule parse_directives [OF d]) simp_all
  then show ?thesis
    by (simp add: b block_lines_def parse_header [OF n] parse_lines_append parse_comments [OF c]
        add_block_def)
qed

lemma parse_blocks:
  assumes "list_all block_plain bs" and "\<forall>b\<in>set bs. list_all skipped_line (blanks b)"
  shows "\<exists>c. parse_lines i (concat (map (\<lambda>b. blanks b @ block_lines b) bs)) (s, d)
    = Inr (foldl add_block s bs, c)"
  using assms
proof (induction bs arbitrary: s d i)
  case Nil
  then show ?case by simp
next
  case (Cons b bs)
  obtain c where c: "parse_lines (i + length (blanks b)) (block_lines b) (s, d) = Inr (add_block s b, c)"
    using parse_block [of b "i + length (blanks b)" s d] Cons.prems by auto
  have bl: "parse_lines i (blanks b) st = Inr st" for st
    using Cons.prems by (simp add: parse_comments)
  obtain e where "parse_lines (i + length (blanks b @ block_lines b))
      (concat (map (\<lambda>b. blanks b @ block_lines b) bs)) (add_block s b, c)
      = Inr (foldl add_block (add_block s b) bs, e)"
    using Cons by fastforce
  then show ?case using c bl by (simp add: parse_lines_append add.assoc)
qed

lemma add_directive_at:
  "n \<notin> fst ` set s \<Longrightarrow>
     add_directive (s @ [(n, os @ [ds])]) n k v = s @ [(n, os @ [ds @ [(k, v)]])]"
  by (induction s) auto

lemma fill_last_at:
  "n \<notin> fst ` set s \<Longrightarrow> fill_last (s @ [(n, os @ [ds])]) n es = s @ [(n, os @ [ds @ es])]"
  by (induction es arbitrary: ds) (auto simp: fill_last_def add_directive_at)

lemma open_section_new: "n \<notin> fst ` set s \<Longrightarrow> open_section s n = s @ [(n, [[]])]"
  by (induction s) auto

lemma open_section_again:
  "n \<notin> fst ` set s \<Longrightarrow> open_section (s @ [(n, os)]) n = s @ [(n, os @ [[]])]"
  by (induction s) auto

lemma add_block_new: "n \<notin> fst ` set s \<Longrightarrow> add_block s (n, cs, ds) = s @ [(n, [ds])]"
  using fill_last_at [of n s "[]" "[]" ds] by (simp add: add_block_def open_section_new)

lemma add_block_again:
  "n \<notin> fst ` set s \<Longrightarrow> add_block (s @ [(n, os)]) (n, cs, ds) = s @ [(n, os @ [ds])]"
  using fill_last_at [of n s os "[]" ds] by (simp add: add_block_def open_section_again)

lemma add_blocks_same:
  "n \<notin> fst ` set s \<Longrightarrow> \<forall>b\<in>set bs. fst b = n \<Longrightarrow>
     foldl add_block (s @ [(n, os)]) bs = s @ [(n, os @ map (\<lambda>b. snd (snd b)) bs)]"
  by (induction bs arbitrary: os) (auto simp: add_block_again)

text \<open>One block followed by any number of blocks of one other name.\<close>

definition two_kinds :: "string \<Rightarrow> directives \<Rightarrow> string \<Rightarrow> directives list \<Rightarrow> sections" where
  "two_kinds a ds p ps = (a, [ds]) # (if ps = [] then [] else [(p, ps)])"

lemma fold_two_kinds:
  assumes "a \<noteq> p" and "\<forall>b\<in>set bs. fst b = p"
  shows "foldl add_block [] ((a, cs, ds) # bs) = two_kinds a ds p (map (\<lambda>b. snd (snd b)) bs)"
proof (cases bs)
  case Nil
  then show ?thesis using add_block_new [of a "[]"] by (simp add: two_kinds_def)
next
  case (Cons b bs')
  then obtain cs' ds' where b: "b = (p, cs', ds')" using assms(2) by (cases b) auto
  have "foldl add_block [] ((a, cs, ds) # bs) = foldl add_block ([(a, [ds])] @ [(p, [ds'])]) bs'"
    using add_block_new [of a "[]"] add_block_new [of p "[(a, [ds])]"] assms(1)
    by (simp add: Cons b)
  also have "\<dots> = [(a, [ds])] @ [(p, [ds'] @ map (\<lambda>b. snd (snd b)) bs')]"
    using assms Cons by (intro add_blocks_same) auto
  finally show ?thesis by (simp add: two_kinds_def Cons b)
qed

lemma block_lines_plain:
  assumes "block_plain b"
  shows "\<forall>l\<in>set (block_lines b). \<forall>c\<in>set l. \<not> line_break c"
proof -
  obtain n comments ds where b: "b = (n, comments, ds)" by (cases b) auto
  have "\<forall>c\<in>set (header_line n). \<not> line_break c"
    using assms by (auto simp: b block_plain_def header_line_def plain_text_def line_break_def ord_char_def)
  moreover have "\<forall>l\<in>set comments. \<forall>c\<in>set l. \<not> line_break c"
    using assms by (auto simp: b block_plain_def list_all_iff skipped_line_def plain_text_def)
  moreover have "\<forall>c\<in>set (directive_line (k, v)). \<not> line_break c" if "(k, v) \<in> set ds" for k v
  proof -
    have "plain_text k" "plain_text v"
      using assms that by (auto simp: b block_plain_def directives_plain_def key_text_plain_def)
    moreover have "\<not> line_break CHR '' ''" "\<not> line_break CHR ''=''"
      by (simp_all add: line_break_def ord_char_def)
    ultimately show ?thesis by (auto simp: directive_line_def plain_text_def)
  qed
  ultimately show ?thesis by (auto simp: b block_lines_def)
qed

lemma skipped_plain: "skipped_line l \<Longrightarrow> \<forall>c\<in>set l. \<not> line_break c"
  by (auto simp: skipped_line_def plain_text_def)

lemma parse_written:
  assumes "a \<noteq> p" and plain: "list_all block_plain ((a, cs, ds) # bs)" and "\<forall>b\<in>set bs. fst b = p"
    and blank: "\<forall>b\<in>set ((a, cs, ds) # bs). list_all skipped_line (blanks b)"
  shows "parse_awg_config (unlines (concat (map (\<lambda>b. blanks b @ block_lines b) ((a, cs, ds) # bs))))
    = Inr (two_kinds a ds p (map (\<lambda>b. snd (snd b)) bs))"
proof -
  let ?bs = "(a, cs, ds) # bs"
  let ?ls = "concat (map (\<lambda>b. blanks b @ block_lines b) ?bs)"
  have "\<forall>l\<in>set ?ls. \<forall>c\<in>set l. \<not> line_break c"
    using plain blank block_lines_plain skipped_plain unfolding list_all_iff by fastforce
  then have s: "splitlines (unlines ?ls) = ?ls" by (rule splitlines_unlines)
  obtain c where "parse_lines 1 ?ls ([], None) = Inr (foldl add_block [] ?bs, c)"
    using parse_blocks [OF plain blank, of 1 "[]" None] by blast
  then show ?thesis
    unfolding parse_awg_config_def s using fold_two_kinds [OF assms(1,3)] by simp
qed

end
