(* ===== verification/Render.thy ===== *)
theory Render
  imports ServerConfig AwgConfig PyTime
begin

text \<open>
  The renderers of \<^verbatim>\<open>src/awgctl/core.py\<close>: the effective native obfuscation directives,
  the eligibility of clients, and the server and client configuration files. A client is the part
  of its metadata the renderers read; an instant is a count of microseconds as in PyTime.
\<close>

section \<open>The configuration that is rendered\<close>

definition legacy_defaults :: obj where
  "legacy_defaults =
     [(''schema_version'', JInt 1), (''interface'', JStr ''awg0''), (''subnet'', JStr ''10.0.0.0/24''),
      (''server_address'', JStr ''10.0.0.1/24''), (''external_interface'', JStr ''eth0''),
      (''use_psk'', JBool True),
      (''blocked_forward_ipv4'', JList (map JStr blocked_forward_ipv4)),
      (''paths'', JObj expected_paths)]"

definition render_config :: "obj \<Rightarrow> server_config result" where
  "render_config m =
     (if ''schema_version'' \<in> set (keys m) then normalize_server_config (JObj m)
      else normalize_server_config (JObj (put_all legacy_defaults m)))"

definition native_range :: "json \<Rightarrow> string" where
  "native_range v =
     (case v of
        JInt n \<Rightarrow> str_int n
      | _ \<Rightarrow> (case range_bounds v of (lo, hi) \<Rightarrow> str_int lo @ ''-'' @ str_int hi))"

text \<open>The directives of a normalised obfuscation.\<close>

definition number_directive :: "obj \<Rightarrow> string \<Rightarrow> string \<times> string" where
  "number_directive r f = (f, str_int (num r f))"

definition range_directive :: "obj \<Rightarrow> string \<Rightarrow> string \<times> string" where
  "range_directive r f = (f, native_range (get r f))"

definition switch_directive :: "obj \<Rightarrow> string \<Rightarrow> string \<times> string" where
  "switch_directive r f = (f, if truthy (get r f) then ''on'' else ''off'')"

definition packet_directives :: "obj \<Rightarrow> directives" where
  "packet_directives r =
     concat (map (\<lambda>f. case get r f of JStr s \<Rightarrow> [(f, s)] | _ \<Rightarrow> []) awg31_cps_fields)"

definition obfuscation_directives :: "obfuscation \<Rightarrow> string option \<Rightarrow> directives result" where
  "obfuscation_directives ob key =
     (case ob of
        Classic r \<Rightarrow>
          if key \<noteq> None then Inl (AwgctlError ''classic mode cannot use a header-protection key'')
          else Inr (map (number_directive r) obfuscation_fields)
      | Awg31 r \<Rightarrow>
          (case key of
             None \<Rightarrow> Inl (AwgctlError ''AWG 3.1 rendering requires explicit header-protection key material'')
           | Some k \<Rightarrow>
               if length k \<noteq> 32
               then Inl (AwgctlError ''invalid explicit header-protection key material'')
               else Inr (map (number_directive r) awg31_integer_fields
                         @ map (range_directive r) awg31_header_fields
                         @ packet_directives r
                         @ [(''HeaderProtectionKey'', b64_encode k)]
                         @ map (range_directive r) awg31_range_fields
                         @ map (switch_directive r) awg31_boolean_fields)))"

definition effective_obfuscation :: "obj \<Rightarrow> string option \<Rightarrow> directives result" where
  "effective_obfuscation config key =
     andthen
       (if keys_are config [''obfuscation''] then
          (case get config ''obfuscation'' of
             JObj m \<Rightarrow>
               if keys_are m obfuscation_fields
               then andthen (classic_profile (JObj m)) (\<lambda>r. Inr (Classic r))
               else normalize_obfuscation (JObj m) 1280
           | v \<Rightarrow> normalize_obfuscation v 1280)
        else andthen (render_config config) (\<lambda>c. Inr (cfg_obfuscation c)))
       (\<lambda>ob. obfuscation_directives ob key)"

definition canonical_obfuscation_lines :: "obj \<Rightarrow> string option \<Rightarrow> string list result" where
  "canonical_obfuscation_lines config key =
     andthen (effective_obfuscation config key) (\<lambda>ds. Inr (map directive_line ds))"

section \<open>Clients\<close>

record client =
  cl_name :: string
  cl_public_key :: string
  cl_address :: string
  cl_status :: string
  cl_expires :: "string option"
  cl_psk :: "string option"

definition effective_client_status :: "client \<Rightarrow> int \<Rightarrow> string result" where
  "effective_client_status c now =
     (if cl_status c \<noteq> ''active'' then Inr (cl_status c)
      else case cl_expires c of
        None \<Rightarrow> Inr ''active''
      | Some e \<Rightarrow>
          (case parse_date e of
             None \<Rightarrow> Inl ValueError
           | Some day \<Rightarrow> Inr (if now \<ge> day * day_us then ''expired'' else ''active'')))"

definition client_is_server_eligible :: "client \<Rightarrow> int \<Rightarrow> bool result" where
  "client_is_server_eligible c now =
     andthen (effective_client_status c now) (\<lambda>s. Inr (s = ''active''))"

section \<open>The server file\<close>

definition host_route :: "iface \<Rightarrow> bool" where
  "host_route i \<longleftrightarrow> (case i of I4 n \<Rightarrow> snd n = 32 | I6 n \<Rightarrow> False)"

definition peer_lines :: "server_config \<Rightarrow> client \<Rightarrow> string list result" where
  "peer_lines cfg c =
     andthen (validate_client_name (JStr (cl_name c))) (\<lambda>_.
     andthen (validate_key (JStr (cl_public_key c)) ''client public key'') (\<lambda>_.
     andthen (or_raise (ip_interface (cl_address c)) ValueError) (\<lambda>address.
     if \<not> host_route address
     then Inl (AwgctlError (''invalid client address for '' @ cl_name c)) else
     andthen
       (if cfg_use_psk cfg then
          (case cl_psk c of
             None \<Rightarrow> Inl (AwgctlError (''missing preshared key for '' @ cl_name c))
           | Some psk \<Rightarrow>
               if psk = [] then Inl (AwgctlError (''missing preshared key for '' @ cl_name c))
               else andthen (validate_key (JStr psk) ''client preshared key'') (\<lambda>_.
                 Inr [''PresharedKey = '' @ psk]))
        else Inr [])
       (\<lambda>psk_line.
     Inr ([[], ''[Peer]'', ''# '' @ cl_name c, ''PublicKey = '' @ cl_public_key c]
          @ psk_line @ [''AllowedIPs = '' @ interface_text (cl_address c) address])))))"

fun render_peers :: "server_config \<Rightarrow> int \<Rightarrow> client list \<Rightarrow> string list result" where
  "render_peers cfg now [] = Inr []"
| "render_peers cfg now (c # cs) =
     andthen (client_is_server_eligible c now) (\<lambda>eligible.
     andthen (if eligible then peer_lines cfg c else Inr []) (\<lambda>ls.
     andthen (render_peers cfg now cs) (\<lambda>rest. Inr (ls @ rest))))"

definition config_obj :: "server_config \<Rightarrow> obj" where
  "config_obj c = the (as_obj (server_config_json c))"

definition render_server_config ::
  "obj \<Rightarrow> string \<Rightarrow> client list \<Rightarrow> int \<Rightarrow> string option \<Rightarrow> string result" where
  "render_server_config config server_private clients now key =
     andthen (render_config config) (\<lambda>cfg.
     andthen (validate_key (JStr server_private) ''server private key'') (\<lambda>_.
     andthen (canonical_obfuscation_lines (config_obj cfg) key) (\<lambda>obfuscation.
     andthen (render_peers cfg now clients) (\<lambda>peers.
     Inr (join ''\<newline>''
            ([''[Interface]'', ''Address = '' @ cfg_server_address cfg,
              ''ListenPort = '' @ str_int (cfg_listen_port cfg), ''PrivateKey = '' @ server_private,
              ''MTU = '' @ str_int (cfg_mtu cfg)]
             @ obfuscation
             @ [''PostUp = /opt/amneziawg/libexec/awgctl-internal _firewall up'',
                ''PostDown = /opt/amneziawg/libexec/awgctl-internal _firewall down'']
             @ peers) @ ''\<newline>'')))))"

section \<open>The client file\<close>

definition check_psk :: "server_config \<Rightarrow> string option \<Rightarrow> unit result" where
  "check_psk cfg psk =
     (if cfg_use_psk cfg then
        (case psk of
           None \<Rightarrow> Inl (AwgctlError ''missing client preshared key'')
         | Some p \<Rightarrow> andthen (validate_key (JStr p) ''client preshared key'') (\<lambda>_. Inr ()))
      else Inr ())"

definition render_client_config ::
  "obj \<Rightarrow> string \<Rightarrow> string option \<Rightarrow> string \<Rightarrow> string \<Rightarrow> string option \<Rightarrow> string result" where
  "render_client_config config private_key psk server_public address key =
     andthen (render_config config) (\<lambda>cfg.
     andthen (validate_key (JStr private_key) ''client private key'') (\<lambda>_.
     andthen (validate_key (JStr server_public) ''server public key'') (\<lambda>_.
     andthen (check_psk cfg psk) (\<lambda>_.
     andthen (or_raise (ip_interface address) ValueError) (\<lambda>i.
     andthen (canonical_obfuscation_lines (config_obj cfg) key) (\<lambda>obfuscation.
     Inr (join ''\<newline>''
            ([''[Interface]'', ''PrivateKey = '' @ private_key,
              ''Address = '' @ interface_text address i,
              ''DNS = '' @ join '', '' (cfg_dns cfg), ''MTU = '' @ str_int (cfg_mtu cfg)]
             @ obfuscation
             @ [[], ''[Peer]'', ''PublicKey = '' @ server_public]
             @ (if cfg_use_psk cfg then [''PresharedKey = '' @ the psk] else [])
             @ [''Endpoint = '' @ cfg_endpoint cfg @ '':'' @ str_int (cfg_listen_port cfg),
                ''AllowedIPs = 0.0.0.0/0, ::/0'',
                ''PersistentKeepalive = '' @ str_int (cfg_keepalive cfg)]) @ ''\<newline>'')))))))"

section \<open>The rendered texts are plain\<close>

definition graphic :: "char \<Rightarrow> bool" where
  "graphic c \<longleftrightarrow> 33 \<le> ord_char c \<and> ord_char c \<le> 126"

lemma graphic_plain: "graphic c \<Longrightarrow> \<not> is_space c \<and> \<not> line_break c"
  by (auto simp: graphic_def is_space_def line_break_def)

lemma graphic_consts [simp]:
  "graphic CHR ''.''" "graphic CHR ''/''" "graphic CHR ''-''" "graphic CHR ''<''" "graphic CHR ''>''"
  "graphic CHR ''=''" "graphic CHR ''+''" "graphic CHR '':''" "graphic CHR '',''" "graphic CHR ''_''"
  by (simp_all add: graphic_def ord_char_def)

lemma graphic_classes: "is_alnum c \<Longrightarrow> graphic c" "is_digit c \<Longrightarrow> graphic c" "is_b64 c \<Longrightarrow> graphic c"
  "is_hex c \<Longrightarrow> graphic c"
  by (auto simp: is_b64_def is_alnum_def is_alpha_def is_digit_def is_lower_def is_upper_def
      is_hex_def graphic_def ord_char_def)

lemma plain_graphic: "s \<noteq> [] \<Longrightarrow> \<forall>c\<in>set s. graphic c \<Longrightarrow> plain_text s"
  by (auto simp: plain_text_def graphic_plain)

lemma plain_inner:
  assumes "s \<noteq> []" "graphic (hd s)" "graphic (last s)" "\<forall>c\<in>set s. graphic c \<or> c = CHR '' ''"
  shows "plain_text s"
proof -
  have "\<not> line_break CHR '' ''" by (simp add: line_break_def ord_char_def)
  then show ?thesis using assms by (auto simp: plain_text_def graphic_plain)
qed

lemma plain_str_int: "0 \<le> n \<Longrightarrow> plain_text (str_int n)"
  by (rule plain_graphic) (auto simp: str_int_def dest!: dec_nat_digits graphic_classes(2))

lemma graphic_ipv4_text: "valid_ipv4 n \<Longrightarrow> c \<in> set (ipv4_text n) \<Longrightarrow> graphic c"
  using ipv4_text_chars [of n c] graphic_classes(2) [of c] by fastforce

lemma ipv4_text_nonempty [simp]: "ipv4_text n \<noteq> []"
  by (simp add: ipv4_text_def)

lemma graphic_net_text: "valid_net n \<Longrightarrow> c \<in> set (net_text n) \<Longrightarrow> graphic c"
  by (auto simp: net_text_def valid_net_def dest!: graphic_ipv4_text dec_nat_digits graphic_classes(2))

lemma plain_net_text: "valid_net n \<Longrightarrow> plain_text (net_text n)"
  by (rule plain_graphic) (auto simp: graphic_net_text, simp add: net_text_def)

lemma parse_ipv4_graphic: "parse_ipv4 s = Some n \<Longrightarrow> c \<in> set s \<Longrightarrow> graphic c"
  using parse_ipv4_canonical [of s n] graphic_ipv4_text [of n c] by blast

lemma parse_prefix4_graphic: "parse_prefix4 s = Some p \<Longrightarrow> c \<in> set s \<Longrightarrow> graphic c"
  by (auto simp: parse_prefix4_def list_all_iff parse_ipv4_graphic graphic_classes
      split: if_splits option.splits)

lemma parse_interface4_plain:
  assumes "parse_interface4 s = Some i"
  shows "plain_text s"
proof (rule plain_graphic)
  have a: "\<exists>a n. parse_ipv4 a = Some n \<and> (s = a \<or> (\<exists>b p. s = a @ ''/'' @ b \<and> parse_prefix4 b = Some p))"
    using assms join_split_on [of "CHR ''/''" s]
    by (auto simp: parse_interface4_def split_prefix_def split: option.splits list.splits) (blast+)
  then show "\<forall>c\<in>set s. graphic c"
    by (auto simp: parse_ipv4_graphic parse_prefix4_graphic)
  from a show "s \<noteq> []" using parse_ipv4_canonical by fastforce
qed

lemma plain_key: "key_text_ok s \<Longrightarrow> plain_text s"
proof (rule plain_graphic)
  assume k: "key_text_ok s"
  then show ne: "s \<noteq> []" by (auto simp: key_text_ok_def)
  have "s = butlast s @ [last s]" using ne by simp
  moreover have "butlast s = take 43 s" using k by (simp add: key_text_ok_def butlast_conv_take)
  ultimately have "set s = set (take 43 s) \<union> {last s}" by (metis set_append list.set(1,2))
  then show "\<forall>c\<in>set s. graphic c"
    using k by (auto simp: key_text_ok_def list_all_iff graphic_classes)
qed

lemma plain_b64: "plain_text (b64_encode k)" if "k \<noteq> []"
proof (rule plain_graphic)
  have "\<forall>v\<in>set (b64_sextets (map ord_char k)). v < 64"
    by (rule b64_sextets_range) (auto simp: ord_char_less)
  then show "\<forall>c\<in>set (b64_encode k). graphic c"
    by (auto simp: b64_encode_def graphic_classes split: if_splits)
  have "length (b64_sextets (map ord_char k)) > 0" using that by (simp add: length_b64_sextets) (cases k, auto)
  then show "b64_encode k \<noteq> []" by (auto simp: b64_encode_def)
qed

lemma tag_chars:
  assumes "tag_ok tag"
  shows "tag_text tag \<noteq> [] \<and> hd (tag_text tag) = CHR ''<'' \<and> last (tag_text tag) = CHR ''>''
    \<and> (\<forall>c\<in>set (tag_text tag). graphic c \<or> c = CHR '' '')"
proof -
  have g: "graphic CHR ''b''" "graphic CHR ''0''" "graphic CHR ''x''" "graphic CHR ''t''"
    "graphic CHR ''r''" "graphic CHR ''c''" "graphic CHR ''d''"
    by (simp_all add: graphic_def ord_char_def)
  show ?thesis
  proof (cases tag)
    case (Bytes h)
    with assms have "\<forall>c\<in>set h. graphic c" by (simp add: list_all_iff graphic_classes)
    with Bytes g show ?thesis by simp
  next
    case Timestamp
    with g show ?thesis by simp
  next
    case (Random kind n)
    have "\<forall>c\<in>set (dec_nat n). graphic c" using dec_nat_digits graphic_classes(2) by blast
    moreover have "\<forall>c\<in>set kind. graphic c" using Random assms g by auto
    ultimately show ?thesis unfolding Random by (simp add: ball_Un)
  qed
qed

lemma plain_cps: "cps_ok mtu s \<Longrightarrow> plain_text s"
proof -
  assume "cps_ok mtu s"
  then obtain ts where s: "s = tags_text ts" "list_all tag_ok ts" "s \<noteq> []" by (auto simp: cps_ok_def)
  then have ts: "ts \<noteq> []" by (auto simp: tags_text_def)
  have all: "\<forall>t\<in>set ts. tag_ok t" using s by (simp add: list_all_iff)
  obtain t ts' where c: "ts = t # ts'" using ts by (cases ts) auto
  have "s = tag_text t @ tags_text ts'" using s(1) c by (simp add: tags_text_def)
  moreover have "tag_text t \<noteq> []" "hd (tag_text t) = CHR ''<''" using all c tag_chars [of t] by simp_all
  ultimately have h: "hd s = CHR ''<''" by (metis hd_append2)
  obtain us u where u: "ts = us @ [u]" using ts by (cases ts rule: rev_cases) auto
  have "s = tags_text us @ tag_text u" using s(1) u by (simp add: tags_text_def)
  moreover have "tag_text u \<noteq> []" "last (tag_text u) = CHR ''>''" using all u tag_chars [of u] by simp_all
  ultimately have l: "last s = CHR ''>''" by (metis last_appendR)
  have "\<forall>c\<in>set s. graphic c \<or> c = CHR '' ''"
    using all tag_chars by (fastforce simp: s(1) tags_text_def)
  with h l s(3) show ?thesis by (intro plain_inner) simp_all
qed


section \<open>Effective directives\<close>

lemma config_obj_json: "server_config_json c = JObj (config_obj c)"
  by (simp add: config_obj_def server_config_json_def)

lemma keys_config_obj: "keys (config_obj c) = server_config_fields"
  by (simp add: config_obj_def server_config_json_def server_config_fields_def)

lemma render_config_obj: "server_config_ok c \<Longrightarrow> render_config (config_obj c) = Inr c"
  using server_config.good_accepted [of c]
  by (simp add: render_config_def keys_config_obj config_obj_json server_config_fields_def)

lemma render_config_ok: "render_config m = Inr c \<Longrightarrow> server_config_ok c"
  by (auto simp: render_config_def split: if_splits dest: server_config.accepted_good)

lemma effective_config_obj:
  assumes "server_config_ok c"
  shows "effective_obfuscation (config_obj c) key = obfuscation_directives (cfg_obfuscation c) key"
proof -
  have "\<not> keys_are (config_obj c) [''obfuscation'']"
    unfolding keys_are_def keys_config_obj by (simp add: server_config_fields_def)
  then show ?thesis
    using assms by (simp add: effective_obfuscation_def render_config_obj)
qed

definition field_names :: "string list" where
  "field_names =
     obfuscation_fields @ awg31_parameter_fields @ [''HeaderProtectionKey'', ''Address'',
       ''ListenPort'', ''PrivateKey'', ''MTU'', ''PostUp'', ''PostDown'', ''PublicKey'',
       ''PresharedKey'', ''AllowedIPs'', ''DNS'', ''Endpoint'', ''PersistentKeepalive'']"

lemma field_names_plain: "f \<in> set field_names \<Longrightarrow> key_text_plain f"
proof -
  assume f: "f \<in> set field_names"
  have "list_all (\<lambda>f. f \<noteq> [] \<and> list_all is_alnum f \<and> is_alpha (hd f)) field_names" by code_simp
  then have a: "f \<noteq> []" "list_all is_alnum f" "is_alpha (hd f)"
    using f by (simp_all add: list_all_iff)
  moreover have "CHR ''='' \<notin> set f"
  proof
    assume "CHR ''='' \<in> set f"
    with a(2) have "is_alnum CHR ''=''" by (simp add: list_all_iff)
    then show False by (simp add: char_class_defs)
  qed
  moreover have "plain_text f"
    using a by (intro plain_graphic) (simp_all add: list_all_iff graphic_classes)
  ultimately show ?thesis by (simp add: key_text_plain_def)
qed

lemma native_range_plain: "closed_range m v \<Longrightarrow> plain_text (native_range v)"
proof -
  assume v: "closed_range m v"
  have g: "c \<in> set (str_int n) \<Longrightarrow> 0 \<le> n \<Longrightarrow> graphic c" for c n
    by (auto simp: str_int_def dest!: dec_nat_digits graphic_classes(2))
  from v consider n where "v = JInt n" "0 \<le> n" | lo hi where "v = range_object lo hi" "0 \<le> lo" "lo \<le> hi"
    by (auto simp: closed_range_def)
  then show ?thesis
  proof cases
    case 1
    then show ?thesis by (simp add: native_range_def plain_str_int)
  next
    case 2
    then have "native_range v = str_int lo @ ''-'' @ str_int hi"
      using range_bounds_range(2) [of lo hi] by (simp add: native_range_def range_object_def)
    moreover have "\<forall>c\<in>set (str_int lo). graphic c" "\<forall>c\<in>set (str_int hi). graphic c"
      using 2 g by (blast, meson order_trans)
    ultimately show ?thesis by (intro plain_graphic) (simp_all add: ball_Un)
  qed
qed

lemma packet_names: "map fst (packet_directives r) = filter (\<lambda>f. is_str (get r f)) awg31_cps_fields"
proof -
  have "map fst (concat (map (\<lambda>f. case get r f of JStr s \<Rightarrow> [(f, s)] | _ \<Rightarrow> []) fs))
      = filter (\<lambda>f. is_str (get r f)) fs" for fs
    by (induction fs) (auto split: json.splits)
  then show ?thesis by (simp add: packet_directives_def)
qed

lemma packet_values: "(k, v) \<in> set (packet_directives r) \<Longrightarrow> k \<in> set awg31_cps_fields \<and> get r k = JStr v"
  by (auto simp: packet_directives_def split: json.splits)

lemma awg31_names_distinct:
  "distinct (awg31_integer_fields @ awg31_header_fields @ awg31_cps_fields @ [''HeaderProtectionKey'']
     @ awg31_range_fields @ awg31_boolean_fields)"
  by code_simp

lemma obfuscation_directives_plain:
  assumes "obfuscation_ok mtu ob" and "obfuscation_directives ob key = Inr ds"
  shows "directives_plain ds"
proof (cases ob)
  case (Classic r)
  then have ds: "ds = map (number_directive r) obfuscation_fields"
    using assms(2) by (auto simp: obfuscation_directives_def split: if_splits)
  have v: "\<forall>f\<in>set obfuscation_fields. 0 \<le> num r f"
    using assms(1) Classic by (fastforce simp: classic_ok_def num_def)
  have "key_text_plain f" if "f \<in> set obfuscation_fields" for f
    using that by (intro field_names_plain) (simp add: field_names_def)
  moreover have "map fst ds = obfuscation_fields" by (simp add: ds o_def number_directive_def)
  ultimately show ?thesis
    using v distinct_fields(1) by (auto simp: directives_plain_def ds number_directive_def plain_str_int)
next
  case (Awg31 r)
  then obtain k where k: "key = Some k" "length k = 32"
    and ds: "ds = map (number_directive r) awg31_integer_fields
       @ map (range_directive r) awg31_header_fields @ packet_directives r
       @ [(''HeaderProtectionKey'', b64_encode k)]
       @ map (range_directive r) awg31_range_fields @ map (switch_directive r) awg31_boolean_fields"
    using assms(2) by (auto simp: obfuscation_directives_def split: option.splits if_splits)
  note v = awg31_ok_values [OF assms(1) [unfolded Awg31 obfuscation_ok.simps]]
  have n: "key_text_plain f" if "f \<in> set awg31_parameter_fields \<or> f = ''HeaderProtectionKey''" for f
    using that by (intro field_names_plain) (auto simp: field_names_def)
  have ints: "\<forall>f\<in>set awg31_integer_fields. 0 \<le> num r f"
    using v(1) by (fastforce simp: num_def)
  have onoff: "plain_text ''on''" "plain_text ''off''" by code_simp+
  have keyp: "plain_text (b64_encode k)" using k by (intro plain_b64) auto
  have packs: "key_text_plain f \<and> plain_text s" if "(f, s) \<in> set (packet_directives r)" for f s
  proof -
    have "f \<in> set awg31_cps_fields" "get r f = JStr s" using packet_values [OF that] by auto
    moreover from this have "cps_ok mtu s" using v(3) by fastforce
    ultimately show ?thesis using n field_subsets(4) plain_cps by blast
  qed
  have names: "map fst ds = awg31_integer_fields @ awg31_header_fields
      @ filter (\<lambda>f. is_str (get r f)) awg31_cps_fields @ [''HeaderProtectionKey'']
      @ awg31_range_fields @ awg31_boolean_fields"
    by (simp add: ds o_def number_directive_def range_directive_def switch_directive_def packet_names)
  have "distinct (map fst ds)"
    unfolding names using awg31_names_distinct by auto
  moreover have "key_text_plain f \<and> plain_text s" if d: "(f, s) \<in> set ds" for f s
  proof -
    have 1: "key_text_plain f \<and> plain_text s" if "(f, s) \<in> set (map (number_directive r) awg31_integer_fields)"
      using that ints n field_subsets(2) by (auto simp: number_directive_def plain_str_int)
    have 2: "key_text_plain f \<and> plain_text s" if "(f, s) \<in> set (map (range_directive r) awg31_header_fields)"
      using that v(2) n field_subsets(3) native_range_plain by (auto simp: range_directive_def)
    have 3: "key_text_plain f \<and> plain_text s" if "(f, s) \<in> set (map (range_directive r) awg31_range_fields)"
      using that v(4) n field_subsets(5) native_range_plain by (auto simp: range_directive_def)
    have 4: "key_text_plain f \<and> plain_text s" if "(f, s) \<in> set (map (switch_directive r) awg31_boolean_fields)"
      using that onoff n field_subsets(6) by (auto simp: switch_directive_def)
    have 5: "key_text_plain f \<and> plain_text s" if "(f, s) \<in> set [(''HeaderProtectionKey'', b64_encode k)]"
      using that keyp n by simp
    from d consider "(f, s) \<in> set (map (number_directive r) awg31_integer_fields)"
      | "(f, s) \<in> set (map (range_directive r) awg31_header_fields)"
      | "(f, s) \<in> set (packet_directives r)"
      | "(f, s) \<in> set [(''HeaderProtectionKey'', b64_encode k)]"
      | "(f, s) \<in> set (map (range_directive r) awg31_range_fields)"
      | "(f, s) \<in> set (map (switch_directive r) awg31_boolean_fields)"
      unfolding ds set_append by blast
    then show ?thesis using 1 2 3 4 5 packs by cases blast+
  qed
  ultimately show ?thesis unfolding directives_plain_def by blast
qed

section \<open>What the server file says\<close>

definition native_names :: "string list" where
  "native_names = obfuscation_fields @ awg31_parameter_fields @ [''HeaderProtectionKey'']"

lemma obfuscation_directive_names:
  assumes "obfuscation_directives ob key = Inr ds"
  shows "set (map fst ds) \<subseteq> set native_names"
proof (cases ob)
  case (Classic r)
  then have "map fst ds = obfuscation_fields"
    using assms by (auto simp: obfuscation_directives_def number_directive_def o_def split: if_splits)
  then show ?thesis by (simp add: native_names_def) blast
next
  case (Awg31 r)
  then obtain k where "ds = map (number_directive r) awg31_integer_fields
       @ map (range_directive r) awg31_header_fields @ packet_directives r
       @ [(''HeaderProtectionKey'', b64_encode k)]
       @ map (range_directive r) awg31_range_fields @ map (switch_directive r) awg31_boolean_fields"
    using assms by (auto simp: obfuscation_directives_def split: option.splits if_splits)
  then have "map fst ds = awg31_integer_fields @ awg31_header_fields
      @ filter (\<lambda>f. is_str (get r f)) awg31_cps_fields @ [''HeaderProtectionKey'']
      @ awg31_range_fields @ awg31_boolean_fields"
    by (simp add: o_def number_directive_def range_directive_def switch_directive_def packet_names)
  then show ?thesis unfolding native_names_def awg31_parameter_fields_def by auto
qed

definition interface_directives :: "server_config \<Rightarrow> string \<Rightarrow> directives \<Rightarrow> directives" where
  "interface_directives cfg server_private native =
     [(''Address'', cfg_server_address cfg), (''ListenPort'', str_int (cfg_listen_port cfg)),
      (''PrivateKey'', server_private), (''MTU'', str_int (cfg_mtu cfg))]
     @ native
     @ [(''PostUp'', ''/opt/amneziawg/libexec/awgctl-internal _firewall up''),
        (''PostDown'', ''/opt/amneziawg/libexec/awgctl-internal _firewall down'')]"

definition peer_directives :: "server_config \<Rightarrow> client \<Rightarrow> directives" where
  "peer_directives cfg c =
     [(''PublicKey'', cl_public_key c)]
     @ (if cfg_use_psk cfg then [(''PresharedKey'', the (cl_psk c))] else [])
     @ [(''AllowedIPs'', interface_text (cl_address c) (the (ip_interface (cl_address c))))]"

definition peer_block :: "server_config \<Rightarrow> client \<Rightarrow> block" where
  "peer_block cfg c = (''Peer'', [''# '' @ cl_name c], peer_directives cfg c)"

text \<open>
  What it means for a client to be served at an instant, stated on the record alone: it is active,
  and when it has an expiry date the first instant of that UTC day has not been reached.
\<close>

definition eligible :: "int \<Rightarrow> client \<Rightarrow> bool" where
  "eligible now c \<longleftrightarrow> cl_status c = ''active''
     \<and> (case cl_expires c of None \<Rightarrow> True
        | Some e \<Rightarrow> (case parse_date e of None \<Rightarrow> False | Some day \<Rightarrow> now < day * day_us))"

lemma eligible_decides: "client_is_server_eligible c now = Inr True \<longleftrightarrow> eligible now c"
  by (auto simp: eligible_def client_is_server_eligible_def effective_client_status_def result_simps
      split: option.splits)

lemma host_route_I4: "host_route i \<longleftrightarrow> (\<exists>a. i = I4 (a, 32))"
  by (auto simp: host_route_def split: iface.splits)

lemma directive_line_simp: "directive_line (k, v) = k @ '' = '' @ v"
  by (simp add: directive_line_def)

lemma peer_lines_block:
  assumes "peer_lines cfg c = Inr ls"
  shows "ls = [] # block_lines (peer_block cfg c) \<and> block_plain (peer_block cfg c)
    \<and> key_text_ok (cl_public_key c) \<and> (\<exists>a. ip_interface (cl_address c) = Some (I4 (a, 32)))"
proof -
  obtain address psk_line where
    n: "client_name_re (cl_name c)" and k: "key_text_ok (cl_public_key c)"
    and a: "ip_interface (cl_address c) = Some address" "host_route address"
    and p: "(if cfg_use_psk cfg then
          (case cl_psk c of
             None \<Rightarrow> Inl (AwgctlError (''missing preshared key for '' @ cl_name c))
           | Some psk \<Rightarrow>
               if psk = [] then Inl (AwgctlError (''missing preshared key for '' @ cl_name c))
               else andthen (validate_key (JStr psk) ''client preshared key'') (\<lambda>_.
                 Inr [''PresharedKey = '' @ psk]))
        else Inr []) = Inr psk_line"
    and ls: "ls = [[], ''[Peer]'', ''# '' @ cl_name c, ''PublicKey = '' @ cl_public_key c]
          @ psk_line @ [''AllowedIPs = '' @ interface_text (cl_address c) address]"
    using assms unfolding peer_lines_def
    by (elim andthenE) (auto simp: validate_client_name_Inr validate_key_Inr result_simps
        split: if_split_asm elim!: andthenE)
  obtain ip where i: "address = I4 (ip, 32)" using a(2) by (auto simp: host_route_I4)
  have v: "valid_net (ip, 32)" using a(1) i by (auto simp: ip_interface_I4 dest: parse_interface4_valid)
  have psk: "psk_line = map directive_line (if cfg_use_psk cfg then [(''PresharedKey'', the (cl_psk c))] else [])
      \<and> (cfg_use_psk cfg \<longrightarrow> plain_text (the (cl_psk c)))"
    using p by (auto simp: directive_line_def validate_key_Inr result_simps plain_key
        split: if_splits option.splits)
  have name: "\<forall>x\<in>set (cl_name c). graphic x" "cl_name c \<noteq> []"
    using n by (auto simp: client_name_re_def list_all_iff name_char_def graphic_classes)
  have "plain_text (''# '' @ cl_name c)"
    using name by (intro plain_inner) (auto simp: graphic_def ord_char_def)
  then have comment: "list_all skipped_line [''# '' @ cl_name c]" by (simp add: skipped_line_def)
  have names: "key_text_plain ''PublicKey''" "key_text_plain ''PresharedKey''" "key_text_plain ''AllowedIPs''"
    by (rule field_names_plain, simp add: field_names_def)+
  have "directives_plain (peer_directives cfg c)"
    using psk names plain_key [OF k] plain_net_text [OF v] a(1) i
    by (auto simp: directives_plain_def peer_directives_def interface_text_def)
  moreover have "plain_text ''Peer''" by code_simp
  ultimately have plain: "block_plain (peer_block cfg c)"
    using comment by (simp add: block_plain_def peer_block_def)
  have "ls = [] # block_lines (peer_block cfg c)"
    using psk a(1) by (simp add: ls block_lines_def peer_block_def header_line_def peer_directives_def
        directive_line_simp)
  then show ?thesis using plain k a(1) i by blast
qed

lemma render_peers_blocks:
  "render_peers cfg now cs = Inr ls \<Longrightarrow>
     ls = concat (map (\<lambda>c. [] # block_lines (peer_block cfg c)) (filter (eligible now) cs))
     \<and> (\<forall>c\<in>set (filter (eligible now) cs). block_plain (peer_block cfg c)
          \<and> key_text_ok (cl_public_key c) \<and> (\<exists>a. ip_interface (cl_address c) = Some (I4 (a, 32))))"
proof (induction cs arbitrary: ls)
  case Nil
  then show ?case by simp
next
  case (Cons c cs)
  then obtain el l rest where el: "client_is_server_eligible c now = Inr el"
    and l: "(if el then peer_lines cfg c else Inr []) = Inr l"
    and rest: "render_peers cfg now cs = Inr rest" and ls: "ls = l @ rest"
    by (auto simp: result_simps)
  note IH = Cons.IH [OF rest]
  show ?case
  proof (cases el)
    case True
    then have "eligible now c" using el by (simp flip: eligible_decides)
    with True l ls IH peer_lines_block [of cfg c l] show ?thesis by auto
  next
    case False
    then have "\<not> eligible now c" using el by (simp flip: eligible_decides)
    with False l ls IH show ?thesis by simp
  qed
qed

text \<open>A client is never served again once it has expired, so what renders at one instant renders later.\<close>

lemma render_peers_later:
  assumes "render_peers cfg now cs = Inr ls" and "now \<le> later"
  shows "\<exists>ls'. render_peers cfg later cs = Inr ls'"
  using assms(1)
proof (induction cs arbitrary: ls)
  case Nil
  then show ?case by simp
next
  case (Cons c cs)
  then obtain el l rest where el: "client_is_server_eligible c now = Inr el"
    and l: "(if el then peer_lines cfg c else Inr []) = Inr l" and rest: "render_peers cfg now cs = Inr rest"
    by (auto simp: result_simps)
  have "\<exists>el'. client_is_server_eligible c later = Inr el' \<and> (el' \<longrightarrow> el)"
    using el assms(2)
    by (auto simp: client_is_server_eligible_def effective_client_status_def result_simps split: option.splits if_splits)
  then obtain el' where "client_is_server_eligible c later = Inr el'" "el' \<longrightarrow> el" by blast
  moreover from this l obtain l' where "(if el' then peer_lines cfg c else Inr []) = Inr l'" by (cases el') auto
  moreover from Cons.IH [OF rest] obtain rest' where "render_peers cfg later cs = Inr rest'" by blast
  ultimately show ?case by (simp add: result_simps)
qed

lemma render_server_config_later:
  assumes "render_server_config m server_private clients now key = Inr txt" and "now \<le> later"
  shows "\<exists>txt'. render_server_config m server_private clients later key = Inr txt'"
  using assms(1) render_peers_later [OF _ assms(2)] unfolding render_server_config_def
  by (elim andthenE) (fastforce simp: result_simps)

lemma interface_plain:
  assumes ok: "server_config_ok cfg" and k: "key_text_ok server_private"
    and native: "obfuscation_directives (cfg_obfuscation cfg) key = Inr native"
  shows "directives_plain (interface_directives cfg server_private native)"
proof -
  have np: "directives_plain native"
    using ok native by (intro obfuscation_directives_plain) (auto simp: server_config_ok_def)
  have nn: "set (map fst native) \<subseteq> set native_names" using native by (rule obfuscation_directive_names)
  have fresh: "\<forall>f\<in>{''Address'', ''ListenPort'', ''PrivateKey'', ''MTU'', ''PostUp'', ''PostDown''}.
      f \<notin> set native_names" by (simp add: native_names_def field_defs)
  obtain n i where "ip_interface (cfg_server_address cfg) = Some (I4 i)"
    using ok by (auto simp: server_config_ok_def managed_subnet_Inr)
  then have a: "plain_text (cfg_server_address cfg)"
    by (intro parse_interface4_plain) (simp add: ip_interface_I4)
  have ints: "plain_text (str_int (cfg_listen_port cfg))" "plain_text (str_int (cfg_mtu cfg))"
    using ok by (simp_all add: server_config_ok_def plain_str_int)
  have hooks: "plain_text ''/opt/amneziawg/libexec/awgctl-internal _firewall up''"
    "plain_text ''/opt/amneziawg/libexec/awgctl-internal _firewall down''" by code_simp+
  have names: "key_text_plain f" if "f \<in> {''Address'', ''ListenPort'', ''PrivateKey'', ''MTU'', ''PostUp'', ''PostDown''}" for f
    using that by (intro field_names_plain) (auto simp: field_names_def)
  have "distinct (map fst (interface_directives cfg server_private native))"
    using np nn fresh by (auto simp: interface_directives_def directives_plain_def)
  moreover have "\<forall>(f, v)\<in>set (interface_directives cfg server_private native). key_text_plain f \<and> plain_text v"
    using np a ints hooks names plain_key [OF k]
    by (auto simp: interface_directives_def directives_plain_def)
  ultimately show ?thesis by (simp add: directives_plain_def)
qed

lemma render_server_config_parses:
  assumes "render_server_config m server_private clients now key = Inr txt"
    and "render_config m = Inr cfg"
  shows "\<exists>native. obfuscation_directives (cfg_obfuscation cfg) key = Inr native
    \<and> parse_awg_config txt = Inr (two_kinds ''Interface'' (interface_directives cfg server_private native)
        ''Peer'' (map (peer_directives cfg) (filter (eligible now) clients)))"
proof -
  have ok: "server_config_ok cfg" using assms(2) by (rule render_config_ok)
  obtain native peers where k: "key_text_ok server_private"
    and native: "obfuscation_directives (cfg_obfuscation cfg) key = Inr native"
    and peers: "render_peers cfg now clients = Inr peers"
    and out: "txt = join ''\<newline>''
            ([''[Interface]'', ''Address = '' @ cfg_server_address cfg,
              ''ListenPort = '' @ str_int (cfg_listen_port cfg), ''PrivateKey = '' @ server_private,
              ''MTU = '' @ str_int (cfg_mtu cfg)]
             @ map directive_line native
             @ [''PostUp = /opt/amneziawg/libexec/awgctl-internal _firewall up'',
                ''PostDown = /opt/amneziawg/libexec/awgctl-internal _firewall down'']
             @ peers) @ ''\<newline>''"
    using assms ok unfolding render_server_config_def canonical_obfuscation_lines_def
    by (elim andthenE) (auto simp: effective_config_obj validate_key_Inr)
  note pb = render_peers_blocks [OF peers]
  let ?cs = "filter (eligible now) clients"
  let ?ib = "(''Interface'', [], interface_directives cfg server_private native) :: block"
  let ?bs = "map (peer_block cfg) ?cs"
  let ?blanks = "\<lambda>b :: block. if fst b = ''Peer'' then [[]] else []"
  let ?ls = "concat (map (\<lambda>b. ?blanks b @ block_lines b) (?ib # ?bs))"
  have "concat (map (\<lambda>b. ?blanks b @ block_lines b) ?bs) = peers"
    using pb by (simp add: o_def peer_block_def)
  then have lines: "[''[Interface]'', ''Address = '' @ cfg_server_address cfg,
              ''ListenPort = '' @ str_int (cfg_listen_port cfg), ''PrivateKey = '' @ server_private,
              ''MTU = '' @ str_int (cfg_mtu cfg)]
             @ map directive_line native
             @ [''PostUp = /opt/amneziawg/libexec/awgctl-internal _firewall up'',
                ''PostDown = /opt/amneziawg/libexec/awgctl-internal _firewall down'']
             @ peers = ?ls"
    by (simp add: block_lines_def header_line_def interface_directives_def directive_line_simp)
  have t: "txt = unlines ?ls"
    unfolding out lines by (rule join_newline) (simp add: block_lines_def)
  have "plain_text ''Interface''" by code_simp
  then have "block_plain ?ib"
    using interface_plain [OF ok k native] by (simp add: block_plain_def)
  then have plain: "list_all block_plain (?ib # ?bs)" using pb by (simp add: list_all_iff)
  have "parse_awg_config (unlines ?ls) = Inr (two_kinds ''Interface''
      (interface_directives cfg server_private native) ''Peer'' (map (\<lambda>b. snd (snd b)) ?bs))"
    by (rule parse_written [OF _ plain]) (auto simp: peer_block_def skipped_line_def)
  then show ?thesis using native by (simp add: t o_def peer_block_def)
qed

text \<open>
  C29: The rendered server file, read back with the program's own parser, is one interface section
  with the managed directives and one peer section for each client that is active and has not
  expired at the given instant (its expiry, if any, falls at the start of a later UTC day; a client
  is expired from the first instant of that day on), in order and with its own key, address and pre-shared key; no other client
  has a peer section.
\<close>

theorem render_server_config_eligible:
  assumes "render_server_config m server_private clients now key = Inr txt"
    and "render_config m = Inr cfg"
  shows "\<exists>native. obfuscation_directives (cfg_obfuscation cfg) key = Inr native
    \<and> parse_awg_config txt = Inr (two_kinds ''Interface'' (interface_directives cfg server_private native)
        ''Peer'' (map (peer_directives cfg) (filter (eligible now) clients)))"
  by (rule render_server_config_parses [OF assms])

section \<open>A concrete installation\<close>

definition sample_key :: "char \<Rightarrow> string" where
  "sample_key c = replicate 42 c @ ''A=''"

lemma sample_key_nonempty: "sample_key c \<noteq> []"
  by (simp add: sample_key_def)

lemma sample_keys_ok: "key_text_ok (sample_key CHR ''b'')" "key_text_ok (sample_key CHR ''c'')"
  "key_text_ok (sample_key CHR ''d'')"
  by code_simp+

lemma sample_config_ok: "server_config_ok sample_config"
  using sample_config_accepted by (rule server_config.accepted_good)

lemma sample_native: "\<exists>native. obfuscation_directives (cfg_obfuscation sample_config) None = Inr native"
  by (simp add: sample_config_def obfuscation_directives_def)

lemma sample_keys: "validate_key (JStr (sample_key CHR ''b'')) l = Inr (sample_key CHR ''b'')"
  "validate_key (JStr (sample_key CHR ''c'')) l = Inr (sample_key CHR ''c'')"
  "validate_key (JStr (sample_key CHR ''d'')) l = Inr (sample_key CHR ''d'')"
  using sample_keys_ok by (simp_all add: validate_key_Inr)

definition sample_client :: "string \<Rightarrow> string \<Rightarrow> client" where
  "sample_client name expires =
     \<lparr>cl_name = name, cl_public_key = sample_key CHR ''c'', cl_address = net_text (167772162, 32),
      cl_status = ''active'', cl_expires = Some expires, cl_psk = Some (sample_key CHR ''d'')\<rparr>"

definition sample_clients :: "client list" where
  "sample_clients = [sample_client ''alice'' ''2030-01-01'', sample_client ''bob'' ''2020-01-01'']"

definition sample_now :: int where
  "sample_now = the (parse_date ''2025-01-01'') * day_us"

lemma sample_eligible: "eligible sample_now (sample_client ''alice'' ''2030-01-01'')"
  "\<not> eligible sample_now (sample_client ''bob'' ''2020-01-01'')"
  by code_simp+

lemma sample_peer: "\<exists>ls. render_peers sample_config sample_now sample_clients = Inr ls"
proof -
  have a: "valid_net (167772162, 32)" by code_simp
  have "client_is_server_eligible (sample_client ''alice'' ''2030-01-01'') sample_now = Inr True"
    "client_is_server_eligible (sample_client ''bob'' ''2020-01-01'') sample_now = Inr False"
    "validate_client_name (JStr ''alice'') = Inr ''alice''" by code_simp+
  then show ?thesis
    by (simp add: sample_clients_def peer_lines_def) (simp add: sample_client_def sample_keys
        ip_interface_text [OF a] host_route_def sample_key_nonempty)
qed

lemma sample_server: "\<exists>out. render_server_config (config_obj sample_config) (sample_key CHR ''b'')
    sample_clients sample_now None = Inr out"
  using sample_native sample_peer
  by (auto simp: render_server_config_def render_config_obj sample_config_ok sample_keys
      canonical_obfuscation_lines_def effective_config_obj)

theorem render_server_config_eligible_witness:
  "\<exists>out native. render_server_config (config_obj sample_config) (sample_key CHR ''b'')
      sample_clients sample_now None = Inr out
    \<and> parse_awg_config out = Inr (two_kinds ''Interface''
        (interface_directives sample_config (sample_key CHR ''b'') native)
        ''Peer'' [peer_directives sample_config (sample_client ''alice'' ''2030-01-01'')])"
proof -
  obtain out where out: "render_server_config (config_obj sample_config) (sample_key CHR ''b'')
      sample_clients sample_now None = Inr out" using sample_server by blast
  have "map (peer_directives sample_config) (filter (eligible sample_now) sample_clients)
    = [peer_directives sample_config (sample_client ''alice'' ''2030-01-01'')]"
    by (simp add: sample_clients_def sample_eligible)
  with render_server_config_eligible [OF out render_config_obj [OF sample_config_ok]] out
  show ?thesis by auto
qed

end
