(* ===== verification/ImportProfile.thy ===== *)
theory ImportProfile
  imports Render
begin

text \<open>
  Reading configuration files back into managed state in \<^verbatim>\<open>src/awgctl/core.py\<close>: the
  semantic signature of a server file, the import of a client profile against the managed
  configuration, and the extraction of a legacy installation. A derived public key comes from
  the \<open>awg\<close> tool, which is a parameter.
\<close>

section \<open>Directives\<close>

definition directive :: "directives \<Rightarrow> string \<Rightarrow> string result" where
  "directive ds k = or_raise (map_of ds k) (KeyError k)"

definition int_value :: "string \<Rightarrow> int result" where
  "int_value s = or_raise (py_int s) ValueError"

definition sole :: "directives list \<Rightarrow> directives option" where
  "sole os = (case os of [ds] \<Rightarrow> Some ds | _ \<Rightarrow> None)"

definition unknown_names :: "string list \<Rightarrow> string list \<Rightarrow> string list" where
  "unknown_names names allowed = sort (remdups (filter (\<lambda>n. n \<notin> set allowed) names))"

section \<open>The signature of a server file\<close>

definition semantic_signature :: "string \<Rightarrow> ((string \<times> string) list \<times> (string \<times> string) list list) result" where
  "semantic_signature txt =
     andthen (parse_awg_config txt) (\<lambda>parsed.
     andthen (or_raise (sole (occurrences parsed ''Interface''))
       (AwgctlError ''server configuration must contain exactly one Interface section'')) (\<lambda>interface.
     Inr (sort (filter (\<lambda>(k, v). k \<notin> {''PostUp'', ''PostDown'', ''PreUp'', ''PreDown''}) interface),
          sort (map sort (occurrences parsed ''Peer'')))))"

section \<open>Import of a client profile\<close>

record imported_profile =
  imp_private_key :: string
  imp_public_key :: string
  imp_psk :: "string option"
  imp_address :: string
  imp_profile :: string

text \<open>The fields read inside the \<open>try\<close> block.\<close>

record profile_fields =
  pf_private :: string
  pf_address :: iface
  pf_address_text :: string
  pf_mtu :: int
  pf_obfuscation :: directives
  pf_server_public :: string
  pf_endpoint_host :: string
  pf_endpoint_port :: int
  pf_keepalive :: int

definition read_profile_fields :: "directives \<Rightarrow> directives \<Rightarrow> string list \<Rightarrow> profile_fields result" where
  "read_profile_fields interface peer expected =
     andthen (directive interface ''PrivateKey'') (\<lambda>k.
     andthen (validate_key (JStr k) ''client private key'') (\<lambda>private.
     andthen (directive interface ''Address'') (\<lambda>a.
     andthen (or_raise (ip_interface a) ValueError) (\<lambda>address.
     andthen (directive interface ''MTU'') (\<lambda>m.
     andthen (int_value m) (\<lambda>mtu.
     andthen (result_list (\<lambda>f. andthen (directive interface f) (\<lambda>v. Inr (f, v))) expected) (\<lambda>obfuscation.
     andthen (directive peer ''PublicKey'') (\<lambda>k.
     andthen (validate_key (JStr k) ''server public key'') (\<lambda>server_public.
     andthen (directive peer ''Endpoint'') (\<lambda>e.
     andthen (or_raise (rpartition_on CHR '':'' e) ValueError) (\<lambda>(host, port_text).
     andthen (int_value port_text) (\<lambda>port.
     andthen (directive peer ''PersistentKeepalive'') (\<lambda>k.
     andthen (int_value k) (\<lambda>keepalive.
     Inr \<lparr>pf_private = private, pf_address = address, pf_address_text = interface_text a address,
          pf_mtu = mtu, pf_obfuscation = obfuscation, pf_server_public = server_public,
          pf_endpoint_host = host, pf_endpoint_port = port, pf_keepalive = keepalive\<rparr>))))))))))))))"

definition profile_sections :: "sections \<Rightarrow> (directives \<times> directives) result" where
  "profile_sections parsed =
     (let unknown = unknown_names (map fst parsed) [''Interface'', ''Peer'']
      in if unknown \<noteq> []
         then Inl (AwgctlError (''unsupported client profile section: '' @ hd unknown))
         else case (sole (occurrences parsed ''Interface''), sole (occurrences parsed ''Peer'')) of
           (Some interface, Some peer) \<Rightarrow> Inr (interface, peer)
         | _ \<Rightarrow> Inl (AwgctlError ''client profile must contain exactly one Interface and one Peer''))"

definition known_directives :: "string list \<Rightarrow> directives \<Rightarrow> directives \<Rightarrow> unit result" where
  "known_directives native interface peer =
     (let unknown_interface = unknown_names (map fst interface)
            ([''PrivateKey'', ''Address'', ''DNS'', ''MTU''] @ native);
          unknown_peer = unknown_names (map fst peer)
            [''PublicKey'', ''PresharedKey'', ''Endpoint'', ''AllowedIPs'', ''PersistentKeepalive'']
      in if unknown_interface \<noteq> []
         then Inl (AwgctlError (''unsupported client Interface directive: '' @ hd unknown_interface))
         else if unknown_peer \<noteq> []
         then Inl (AwgctlError (''unsupported client Peer directive: '' @ hd unknown_peer))
         else Inr ())"

definition profile_dns :: "string \<Rightarrow> string list result" where
  "profile_dns s = validate_dns (JList (map (\<lambda>v. JStr (strip v)) (split_on CHR '','' s)))"

definition profile_psk :: "directives \<Rightarrow> string option result" where
  "profile_psk peer =
     (case map_of peer ''PresharedKey'' of
        None \<Rightarrow> Inr None
      | Some p \<Rightarrow>
          if p = [] then Inr None
          else andthen (validate_key (JStr p) ''client preshared key'') (\<lambda>p. Inr (Some p)))"

definition parse_import_profile ::
  "string \<Rightarrow> obj \<Rightarrow> string \<Rightarrow> (string \<Rightarrow> string result) \<Rightarrow> string option \<Rightarrow> imported_profile result" where
  "parse_import_profile profile_text config expected_server_public derive_public key =
     andthen (render_config config) (\<lambda>cfg.
     andthen (effective_obfuscation (config_obj cfg) key) (\<lambda>expected.
     andthen (parse_awg_config profile_text) (\<lambda>parsed.
     andthen (profile_sections parsed) (\<lambda>(interface, peer).
     andthen (known_directives (map fst expected) interface peer) (\<lambda>_.
     andthen (except_as key_or_value_error
         (AwgctlError ''client profile is missing required AmneziaWG fields'')
         (read_profile_fields interface peer (map fst expected))) (\<lambda>p.
     andthen (check (host_route (pf_address p))
       (AwgctlError ''client profile address must be an IPv4 /32'')) (\<lambda>_.
     andthen (directive interface ''DNS'') (\<lambda>dns_text.
     andthen (profile_dns dns_text) (\<lambda>dns.
     andthen (check (dns = cfg_dns cfg) (AwgctlError ''client profile DNS differs from managed state'')) (\<lambda>_.
     andthen (check (pf_mtu p = cfg_mtu cfg) (AwgctlError ''client profile MTU differs from managed state'')) (\<lambda>_.
     andthen (check (pf_obfuscation p = expected)
       (AwgctlError ''client profile obfuscation differs from managed state'')) (\<lambda>_.
     andthen (check (pf_server_public p = expected_server_public)
       (AwgctlError ''client profile server public key differs from managed identity'')) (\<lambda>_.
     andthen (validate_endpoint (pf_endpoint_host p)) (\<lambda>host.
     andthen (check (host = cfg_endpoint cfg \<and> pf_endpoint_port p = cfg_listen_port cfg)
       (AwgctlError ''client profile endpoint differs from managed state'')) (\<lambda>_.
     andthen (check (pf_keepalive p = cfg_keepalive cfg)
       (AwgctlError ''client profile keepalive differs from managed state'')) (\<lambda>_.
     andthen (check (replace_char CHR '' '' [] (case map_of peer ''AllowedIPs'' of None \<Rightarrow> [] | Some v \<Rightarrow> v)
           = ''0.0.0.0/0,::/0'')
       (AwgctlError ''client profile must route IPv4 and IPv6 defaults through the tunnel'')) (\<lambda>_.
     andthen (profile_psk peer) (\<lambda>psk.
     andthen (check ((psk \<noteq> None) = cfg_use_psk cfg)
       (AwgctlError ''client profile preshared-key policy differs from managed state'')) (\<lambda>_.
     andthen (derive_public (pf_private p)) (\<lambda>derived.
     andthen (validate_key (JStr derived) ''derived client public key'') (\<lambda>public.
     andthen (render_client_config (config_obj cfg) (pf_private p) psk (pf_server_public p)
         (pf_address_text p) key) (\<lambda>profile.
     Inr \<lparr>imp_private_key = pf_private p, imp_public_key = public, imp_psk = psk,
          imp_address = pf_address_text p, imp_profile = profile\<rparr>))))))))))))))))))))))"

section \<open>Extraction of a legacy installation\<close>

record legacy_state =
  leg_config :: server_config
  leg_server_private :: string
  leg_server_public :: string
  leg_client_private :: string
  leg_client_public :: string
  leg_client_psk :: "string option"
  leg_client_address :: string

record legacy_fields =
  lf_server_address :: iface
  lf_client_address :: iface
  lf_client_address_text :: string
  lf_listen_port :: int
  lf_mtu :: int
  lf_keepalive :: int
  lf_endpoint_host :: string
  lf_endpoint_port :: int
  lf_obfuscation :: "(string \<times> int) list"
  lf_client_obfuscation :: "(string \<times> int) list"
  lf_server_private :: string
  lf_client_private :: string
  lf_client_public :: string
  lf_server_public :: string

definition int_fields :: "directives \<Rightarrow> (string \<times> int) list result" where
  "int_fields ds =
     result_list (\<lambda>f. andthen (directive ds f) (\<lambda>v. andthen (int_value v) (\<lambda>n. Inr (f, n))))
       obfuscation_fields"

definition read_legacy_fields ::
  "directives \<Rightarrow> directives \<Rightarrow> directives \<Rightarrow> directives \<Rightarrow> legacy_fields result" where
  "read_legacy_fields server_interface server_peer client_interface client_peer =
     andthen (directive server_interface ''Address'') (\<lambda>sa.
     andthen (or_raise (ip_interface sa) ValueError) (\<lambda>server_address.
     andthen (directive client_interface ''Address'') (\<lambda>ca.
     andthen (or_raise (ip_interface ca) ValueError) (\<lambda>client_address.
     andthen (directive server_interface ''ListenPort'') (\<lambda>v. andthen (int_value v) (\<lambda>listen_port.
     andthen (directive server_interface ''MTU'') (\<lambda>v. andthen (int_value v) (\<lambda>mtu.
     andthen (directive client_peer ''PersistentKeepalive'') (\<lambda>v. andthen (int_value v) (\<lambda>keepalive.
     andthen (directive client_peer ''Endpoint'') (\<lambda>e.
     andthen (or_raise (rpartition_on CHR '':'' e) ValueError) (\<lambda>(host, port_text).
     andthen (int_value port_text) (\<lambda>endpoint_port.
     andthen (int_fields server_interface) (\<lambda>obfuscation.
     andthen (int_fields client_interface) (\<lambda>client_obfuscation.
     andthen (directive server_interface ''PrivateKey'') (\<lambda>server_private.
     andthen (directive client_interface ''PrivateKey'') (\<lambda>client_private.
     andthen (directive server_peer ''PublicKey'') (\<lambda>client_public.
     andthen (directive client_peer ''PublicKey'') (\<lambda>server_public.
     Inr \<lparr>lf_server_address = server_address, lf_client_address = client_address,
          lf_client_address_text = interface_text ca client_address,
          lf_listen_port = listen_port, lf_mtu = mtu, lf_keepalive = keepalive,
          lf_endpoint_host = host, lf_endpoint_port = endpoint_port, lf_obfuscation = obfuscation,
          lf_client_obfuscation = client_obfuscation, lf_server_private = server_private,
          lf_client_private = client_private, lf_client_public = client_public,
          lf_server_public = server_public\<rparr>)))))))))))))))))))"

definition four_sections ::
  "sections \<Rightarrow> sections \<Rightarrow> (directives \<times> directives \<times> directives \<times> directives) result" where
  "four_sections server client =
     (case (sole (occurrences server ''Interface''), sole (occurrences server ''Peer'')) of
        (Some si, Some sp) \<Rightarrow>
          (case (sole (occurrences client ''Interface''), sole (occurrences client ''Peer'')) of
             (Some ci, Some cp) \<Rightarrow> Inr (si, sp, ci, cp)
           | _ \<Rightarrow> Inl (AwgctlError ''migration expects one client Interface and one server peer''))
      | _ \<Rightarrow> Inl (AwgctlError ''migration expects one server Interface and one existing client peer''))"

text \<open>The managed network of the legacy server when the client address lies in it.\<close>

definition shared_subnet :: "iface \<Rightarrow> iface \<Rightarrow> (ipnet \<times> ipnet) result" where
  "shared_subnet server client =
     (case (server, client) of
        (I4 s, I4 c) \<Rightarrow>
          if in_net (fst c) (iface_net s) then Inr (s, c)
          else Inl (AwgctlError ''legacy server/client addresses do not share the expected IPv4 subnet'')
      | _ \<Rightarrow> Inl (AwgctlError ''legacy server/client addresses do not share the expected IPv4 subnet''))"

definition legacy_document ::
  "ipnet \<Rightarrow> string \<Rightarrow> int \<Rightarrow> string \<Rightarrow> string list \<Rightarrow> int \<Rightarrow> int \<Rightarrow> bool \<Rightarrow> (string \<times> int) list \<Rightarrow> json" where
  "legacy_document server endpoint port external dns mtu keepalive use_psk parameters = JObj
     [(''schema_version'', JInt 1), (''interface'', JStr ''awg0''),
      (''subnet'', JStr (net_text (iface_net server))), (''server_address'', JStr (net_text server)),
      (''endpoint'', JStr endpoint), (''listen_port'', JInt port),
      (''external_interface'', JStr external), (''dns'', dns_json dns), (''mtu'', JInt mtu),
      (''keepalive'', JInt keepalive), (''use_psk'', JBool use_psk),
      (''obfuscation'', JObj (map (\<lambda>(f, n). (f, JInt n)) parameters)),
      (''blocked_forward_ipv4'', JList (map JStr blocked_forward_ipv4)), (''paths'', JObj expected_paths)]"

definition extract_legacy_state :: "string \<Rightarrow> string \<Rightarrow> string \<Rightarrow> legacy_state result" where
  "extract_legacy_state server_text client_text external =
     andthen (parse_awg_config server_text) (\<lambda>server_sections.
     andthen (parse_awg_config client_text) (\<lambda>client_sections.
     andthen (four_sections server_sections client_sections) (\<lambda>(si, sp, ci, cp).
     andthen (except_as key_or_value_error
         (AwgctlError ''legacy configuration is missing required classic AmneziaWG fields'')
         (read_legacy_fields si sp ci cp)) (\<lambda>f.
     let client_psk = map_of sp ''PresharedKey'' in
     andthen (shared_subnet (lf_server_address f) (lf_client_address f)) (\<lambda>(server, client).
     andthen (check (map_of sp ''AllowedIPs'' = Some (lf_client_address_text f))
       (AwgctlError ''legacy client AllowedIPs does not match its client address'')) (\<lambda>_.
     andthen (check (lf_endpoint_port f = lf_listen_port f)
       (AwgctlError ''legacy client endpoint port differs from the server listen port'')) (\<lambda>_.
     andthen (int_value (case map_of ci ''MTU'' of None \<Rightarrow> ''-1'' | Some v \<Rightarrow> v)) (\<lambda>client_mtu.
     andthen (check (client_mtu = lf_mtu f)
       (AwgctlError ''legacy client MTU differs from the server MTU'')) (\<lambda>_.
     andthen (check (lf_client_obfuscation f = lf_obfuscation f)
       (AwgctlError ''legacy client obfuscation differs from the server'')) (\<lambda>_.
     andthen (check (map_of cp ''PresharedKey'' = client_psk)
       (AwgctlError ''legacy client preshared keys do not match'')) (\<lambda>_.
     andthen (validate_key (JStr (lf_server_private f)) ''legacy server private key'') (\<lambda>_.
     andthen (validate_key (JStr (lf_server_public f)) ''legacy server public key'') (\<lambda>_.
     andthen (validate_key (JStr (lf_client_private f)) ''legacy client private key'') (\<lambda>_.
     andthen (validate_key (JStr (lf_client_public f)) ''legacy client public key'') (\<lambda>_.
     andthen (case client_psk of
         None \<Rightarrow> Inr ()
       | Some p \<Rightarrow> if p = [] then Inr ()
           else andthen (validate_key (JStr p) ''legacy client preshared key'') (\<lambda>_. Inr ())) (\<lambda>_.
     andthen (validate_endpoint (lf_endpoint_host f)) (\<lambda>endpoint.
     andthen (directive ci ''DNS'') (\<lambda>dns_text.
     andthen (profile_dns dns_text) (\<lambda>dns.
     andthen (normalize_server_config (legacy_document server endpoint (lf_listen_port f) external dns
         (lf_mtu f) (lf_keepalive f) (client_psk \<noteq> None) (lf_obfuscation f))) (\<lambda>config.
     Inr \<lparr>leg_config = config, leg_server_private = lf_server_private f,
          leg_server_public = lf_server_public f, leg_client_private = lf_client_private f,
          leg_client_public = lf_client_public f, leg_client_psk = client_psk,
          leg_client_address = lf_client_address_text f\<rparr>))))))))))))))))))))"

section \<open>A rendered profile is imported back\<close>

definition client_interface_directives :: "server_config \<Rightarrow> string \<Rightarrow> string \<Rightarrow> directives \<Rightarrow> directives" where
  "client_interface_directives cfg private address native =
     [(''PrivateKey'', private), (''Address'', address), (''DNS'', join '', '' (cfg_dns cfg)),
      (''MTU'', str_int (cfg_mtu cfg))] @ native"

definition client_peer_directives :: "server_config \<Rightarrow> string \<Rightarrow> string option \<Rightarrow> directives" where
  "client_peer_directives cfg server_public psk =
     [(''PublicKey'', server_public)]
     @ (if cfg_use_psk cfg then [(''PresharedKey'', the psk)] else [])
     @ [(''Endpoint'', cfg_endpoint cfg @ '':'' @ str_int (cfg_listen_port cfg)),
        (''AllowedIPs'', ''0.0.0.0/0, ::/0''),
        (''PersistentKeepalive'', str_int (cfg_keepalive cfg))]"

definition client_lines ::
  "server_config \<Rightarrow> string \<Rightarrow> string option \<Rightarrow> string \<Rightarrow> string \<Rightarrow> directives \<Rightarrow> string list" where
  "client_lines cfg private psk server_public address native =
     [''[Interface]'', ''PrivateKey = '' @ private, ''Address = '' @ address,
      ''DNS = '' @ join '', '' (cfg_dns cfg), ''MTU = '' @ str_int (cfg_mtu cfg)]
     @ map directive_line native
     @ [[], ''[Peer]'', ''PublicKey = '' @ server_public]
     @ (if cfg_use_psk cfg then [''PresharedKey = '' @ the psk] else [])
     @ [''Endpoint = '' @ cfg_endpoint cfg @ '':'' @ str_int (cfg_listen_port cfg),
        ''AllowedIPs = 0.0.0.0/0, ::/0'',
        ''PersistentKeepalive = '' @ str_int (cfg_keepalive cfg)]"

lemma dotted_quad_graphic: "dotted_quad d \<Longrightarrow> d \<noteq> [] \<and> (\<forall>c\<in>set d. graphic c) \<and> CHR '','' \<notin> set d"
proof -
  assume "dotted_quad d"
  then obtain a where a: "valid_ipv4 a" "d = ipv4_text a" by (auto simp: dotted_quad_def)
  moreover have "CHR '','' \<notin> set (ipv4_text a)" by (rule ipv4_text_chars [OF a(1)]) simp_all
  ultimately show ?thesis by (auto simp: graphic_ipv4_text)
qed

lemma join_quads:
  assumes "ds \<noteq> []" and "list_all dotted_quad ds"
  shows "join '', '' ds \<noteq> [] \<and> graphic (hd (join '', '' ds)) \<and> graphic (last (join '', '' ds))
    \<and> (\<forall>c\<in>set (join '', '' ds). graphic c \<or> c = CHR '' '')"
  using assms
proof (induction ds)
  case Nil
  then show ?case by simp
next
  case (Cons d ds)
  note d = dotted_quad_graphic [of d]
  show ?case
  proof (cases ds)
    case Nil
    with Cons d show ?thesis by simp
  next
    case (Cons e es)
    let ?j = "join '', '' ds"
    have j: "?j \<noteq> []" "graphic (last ?j)" "\<forall>c\<in>set ?j. graphic c \<or> c = CHR '' ''"
      using Cons.IH Cons.prems Cons by simp_all
    have e: "join '', '' (d # ds) = d @ '', '' @ ?j" using Cons by (simp add: join_Cons)
    have d': "d \<noteq> []" "\<forall>c\<in>set d. graphic c" using d Cons.prems by simp_all
    then have "graphic (hd d)" by simp
    with j d' show ?thesis unfolding e by (simp add: ball_Un)
  qed
qed

lemma plain_dns: "dns_ok ds \<Longrightarrow> plain_text (join '', '' ds)"
  using join_quads [of ds] by (intro plain_inner) (simp_all add: dns_ok_def)

lemma strip_space_quad: "dotted_quad d \<Longrightarrow> strip (CHR '' '' # d) = d"
  using dotted_quad_graphic [of d] by (intro strip_leading plain_graphic) simp_all

lemma strip_quad: "dotted_quad d \<Longrightarrow> strip d = d"
  using dotted_quad_graphic [of d] by (intro strip_plain plain_graphic) simp_all

lemma split_joined:
  "ds \<noteq> [] \<Longrightarrow> list_all dotted_quad ds \<Longrightarrow>
     map strip (split_on CHR '','' (join '', '' ds)) = ds
     \<and> map strip (split_on CHR '','' (CHR '' '' # join '', '' ds)) = ds"
proof (induction ds)
  case Nil
  then show ?case by simp
next
  case (Cons d ds)
  have d: "CHR '','' \<notin> set d" "CHR '','' \<notin> set (CHR '' '' # d)" "strip d = d" "strip (CHR '' '' # d) = d"
    using Cons.prems dotted_quad_graphic [of d] by (simp_all add: strip_quad strip_space_quad)
  show ?case
  proof (cases ds)
    case Nil
    then show ?thesis using d split_on_no_sep [OF d(1)] split_on_no_sep [OF d(2)] by simp
  next
    case (Cons e es)
    then have j: "join '', '' (d # ds) = d @ CHR '','' # CHR '' '' # join '', '' ds" by (simp add: join_Cons)
    have IH: "map strip (split_on CHR '','' (CHR '' '' # join '', '' ds)) = ds"
      using Cons.IH Cons.prems Cons by simp
    show ?thesis
      unfolding j append_Cons [symmetric] split_on_append_sep [OF d(1)] split_on_append_sep [OF d(2)]
      using d IH by simp
  qed
qed

lemma profile_dns_join: "dns_ok ds \<Longrightarrow> profile_dns (join '', '' ds) = Inr ds"
proof -
  assume ds: "dns_ok ds"
  have m: "map (\<lambda>v. JStr (strip v)) xs = map JStr (map strip xs)" for xs by simp
  have "JList (map (\<lambda>v. JStr (strip v)) (split_on CHR '','' (join '', '' ds))) = dns_json ds"
    unfolding m dns_json_def using split_joined [of ds] ds by (simp add: dns_ok_def)
  then show ?thesis using ds by (simp only: profile_dns_def dns.good_accepted)
qed

lemma join_chars: "\<forall>s\<in>set ss. \<forall>c\<in>set s. P c \<Longrightarrow> \<forall>c\<in>set sep. P c \<Longrightarrow> \<forall>c\<in>set (join sep ss). P c"
proof (induction sep ss rule: join.induct)
  case (3 sep s t ss)
  then have "\<forall>c\<in>set (join sep (t # ss)). P c" by (meson list.set_intros(2))
  with "3.prems" show ?case by (simp only: join.simps set_append) (meson Un_iff list.set_intros(1))
qed simp_all

lemma hostname_label_graphic: "hostname_label p \<Longrightarrow> c \<in> set p \<Longrightarrow> graphic c"
  by (auto simp: hostname_label_def hostname_label_re_def alnum_dash_def list_all_iff graphic_classes)

lemma endpoint_graphic: "endpoint_ok s \<Longrightarrow> s \<noteq> [] \<and> (\<forall>c\<in>set s. graphic c) \<and> CHR '':'' \<notin> set s"
proof -
  assume e: "endpoint_ok s"
  have "\<forall>c\<in>set s. graphic c"
  proof (cases "ip_address s")
    case (Some a)
    with e have "\<exists>n. parse_ipv4 s = Some n" by (auto simp: endpoint_ok_def ip_address_V4)
    then show ?thesis using parse_ipv4_graphic by blast
  next
    case None
    with e have "list_all hostname_label (split_on CHR ''.'' s)"
      by (simp add: endpoint_ok_def)
    then have l: "\<forall>p\<in>set (split_on CHR ''.'' s). \<forall>c\<in>set p. graphic c"
      unfolding list_all_iff by (meson hostname_label_graphic)
    have "\<forall>c\<in>set (join ''.'' (split_on CHR ''.'' s)). graphic c"
      by (rule join_chars [OF l]) simp
    then show ?thesis unfolding join_split_on .
  qed
  then show ?thesis using e by (simp add: endpoint_ok_def)
qed


lemma client_file_parse:
  assumes ok: "server_config_ok cfg" and e: "endpoint_ok (cfg_endpoint cfg)"
    and render: "render_client_config (config_obj cfg) private psk server_public (net_text a) key = Inr out"
    and a: "valid_net a"
  shows "\<exists>native. obfuscation_directives (cfg_obfuscation cfg) key = Inr native
    \<and> key_text_ok private \<and> key_text_ok server_public
    \<and> (cfg_use_psk cfg \<longrightarrow> (\<exists>p. psk = Some p \<and> key_text_ok p))
    \<and> parse_awg_config out = Inr (two_kinds ''Interface''
        (client_interface_directives cfg private (net_text a) native) ''Peer''
        [client_peer_directives cfg server_public psk])"
proof -
  have ia: "ip_interface (net_text a) = Some (I4 a)" using a by (rule ip_interface_text)
  obtain native where k: "key_text_ok private" "key_text_ok server_public"
    and p: "check_psk cfg psk = Inr ()"
    and native: "obfuscation_directives (cfg_obfuscation cfg) key = Inr native"
    and out: "out = join ''\<newline>''
            (client_lines cfg private psk server_public (net_text a) native) @ ''\<newline>''"
    using render ok unfolding render_client_config_def canonical_obfuscation_lines_def
    by (elim andthenE) (auto simp: render_config_obj effective_config_obj validate_key_Inr
        result_simps ia interface_text_def client_lines_def)
  have psk: "\<exists>p. psk = Some p \<and> key_text_ok p" if "cfg_use_psk cfg"
    using p that by (auto simp: check_psk_def validate_key_Inr result_simps split: option.splits)
  have np: "directives_plain native"
    using ok native by (intro obfuscation_directives_plain) (auto simp: server_config_ok_def)
  have nn: "set (map fst native) \<subseteq> set native_names" using native by (rule obfuscation_directive_names)
  have fresh: "\<forall>f\<in>{''Address'', ''DNS'', ''PrivateKey'', ''MTU''}. f \<notin> set native_names"
    by (simp add: native_names_def field_defs)
  have names: "key_text_plain f" if "f \<in> {''Address'', ''DNS'', ''PrivateKey'', ''MTU'', ''PublicKey'',
      ''PresharedKey'', ''Endpoint'', ''AllowedIPs'', ''PersistentKeepalive''}" for f
    using that by (intro field_names_plain) (auto simp: field_names_def)
  have ints: "plain_text (str_int (cfg_listen_port cfg))" "plain_text (str_int (cfg_mtu cfg))"
    "plain_text (str_int (cfg_keepalive cfg))" and dns: "plain_text (join '', '' (cfg_dns cfg))"
    using ok by (simp_all add: server_config_ok_def plain_str_int plain_dns)
  have gp: "\<forall>c\<in>set (str_int (cfg_listen_port cfg)). graphic c" "str_int (cfg_listen_port cfg) \<noteq> []"
    using ok by (auto simp: server_config_ok_def str_int_def dest!: dec_nat_digits graphic_classes(2))
  have ep: "plain_text (cfg_endpoint cfg @ '':'' @ str_int (cfg_listen_port cfg))"
    using endpoint_graphic [OF e] gp by (intro plain_graphic) (simp_all add: ball_Un)
  have ips: "plain_text ''0.0.0.0/0, ::/0''" by code_simp
  let ?i = "client_interface_directives cfg private (net_text a) native"
  let ?p = "client_peer_directives cfg server_public psk"
  have "distinct (map fst ?i)"
    using np nn fresh by (auto simp: client_interface_directives_def directives_plain_def)
  moreover have "\<forall>(f, v)\<in>set native. key_text_plain f \<and> plain_text v"
    using np by (simp add: directives_plain_def)
  then have "\<forall>(f, v)\<in>set ?i. key_text_plain f \<and> plain_text v"
    unfolding client_interface_directives_def set_append ball_Un
    using ints dns names plain_key [OF k(1)] plain_net_text [OF a] by simp
  ultimately have ip: "directives_plain ?i" by (simp add: directives_plain_def)
  have pk: "plain_text (the psk)" if "cfg_use_psk cfg" using psk [OF that] plain_key by auto
  have "distinct (map fst ?p)" by (simp add: client_peer_directives_def)
  moreover have "\<forall>(f, v)\<in>set ?p. key_text_plain f \<and> plain_text v"
    using pk ints names plain_key [OF k(2)] ep ips by (simp add: client_peer_directives_def)
  ultimately have pp: "directives_plain ?p" by (simp add: directives_plain_def)
  let ?bs = "[(''Interface'', [], ?i), (''Peer'', [], ?p)] :: block list"
  let ?blanks = "\<lambda>b :: block. if fst b = ''Peer'' then [[]] else []"
  have "plain_text ''Interface''" "plain_text ''Peer''" by code_simp+
  then have plain: "list_all block_plain ?bs" using ip pp by (simp add: block_plain_def)
  have lines: "client_lines cfg private psk server_public (net_text a) native
      = concat (map (\<lambda>b. ?blanks b @ block_lines b) ?bs)"
    by (simp add: client_lines_def block_lines_def header_line_def client_interface_directives_def
        client_peer_directives_def directive_line_simp)
  have t: "out = unlines (concat (map (\<lambda>b. ?blanks b @ block_lines b) ?bs))"
    unfolding out lines by (rule join_newline) (simp add: block_lines_def)
  have "parse_awg_config out = Inr (two_kinds ''Interface'' ?i ''Peer'' (map (\<lambda>b. snd (snd b)) ([(''Peer'', [], ?p)] :: block list)))"
    unfolding t using plain
    by (intro parse_written [of "''Interface''" "''Peer''" "[]" ?i "[(''Peer'', [], ?p)]" ?blanks])
      (simp_all add: skipped_line_def)
  then show ?thesis using native k psk by simp
qed

lemma unknown_names_none: "set names \<subseteq> set allowed \<Longrightarrow> unknown_names names allowed = []"
proof -
  assume "set names \<subseteq> set allowed"
  then have "filter (\<lambda>n. n \<notin> set allowed) names = []" by (auto simp: filter_empty_conv)
  then show ?thesis by (simp add: unknown_names_def)
qed

lemma native_lookup:
  assumes "directives_plain native" and "\<forall>f\<in>set (map fst native). f \<notin> set (map fst front)"
  shows "result_list (\<lambda>f. andthen (directive (front @ native) f) (\<lambda>v. Inr (f, v))) (map fst native)
    = Inr native"
proof -
  have "result_list (\<lambda>d. andthen (directive (front @ native) (fst d)) (\<lambda>v. Inr (fst d, v))) native = Inr native"
  proof (rule result_list_id)
    fix d assume d: "d \<in> set native"
    obtain f v where f: "d = (f, v)" by force
    have "map_of front f = None" using assms(2) d f by (force simp: map_of_eq_None_iff)
    moreover have "map_of native f = Some v"
      using assms(1) d f by (simp add: directives_plain_def)
    ultimately show "andthen (directive (front @ native) (fst d)) (\<lambda>v. Inr (fst d, v)) = Inr d"
      by (simp add: f directive_def map_add_def)
  qed
  moreover have "result_list g (map fst native) = result_list (\<lambda>d. g (fst d)) native" for g :: "string \<Rightarrow> (string \<times> string) result"
    by (induction native) auto
  ultimately show ?thesis by simp
qed


lemma server_config_ok_parts:
  assumes "server_config_ok cfg"
  shows "dns_ok (cfg_dns cfg)" "0 \<le> cfg_mtu cfg" "0 \<le> cfg_listen_port cfg" "0 \<le> cfg_keepalive cfg"
  using assms by (simp_all add: server_config_ok_def)

lemma client_names_fresh:
  "f \<in> {''Address'', ''DNS'', ''PrivateKey'', ''MTU''} \<Longrightarrow> f \<notin> set native_names"
  by (auto simp: native_names_def field_defs)

lemma read_client_fields:
  assumes native: "directives_plain native" "set (map fst native) \<subseteq> set native_names"
    and keys: "key_text_ok private" "key_text_ok server_public"
    and ok: "server_config_ok cfg" and a: "valid_net a"
  shows "read_profile_fields (client_interface_directives cfg private (net_text a) native)
      (client_peer_directives cfg server_public psk) (map fst native)
    = Inr \<lparr>pf_private = private, pf_address = I4 a, pf_address_text = net_text a,
        pf_mtu = cfg_mtu cfg, pf_obfuscation = native, pf_server_public = server_public,
        pf_endpoint_host = cfg_endpoint cfg, pf_endpoint_port = cfg_listen_port cfg,
        pf_keepalive = cfg_keepalive cfg\<rparr>"
proof -
  let ?i = "client_interface_directives cfg private (net_text a) native"
  let ?p = "client_peer_directives cfg server_public psk"
  note pos = server_config_ok_parts [OF ok]
  have o: "result_list (\<lambda>f. andthen (directive ?i f) (\<lambda>v. Inr (f, v))) (map fst native) = Inr native"
    unfolding client_interface_directives_def using client_names_fresh native(2)
    by (intro native_lookup [OF native(1)]) auto
  have i: "directive ?i ''PrivateKey'' = Inr private" "directive ?i ''Address'' = Inr (net_text a)"
    "directive ?i ''MTU'' = Inr (str_int (cfg_mtu cfg))"
    by (simp_all add: directive_def client_interface_directives_def)
  have p: "directive ?p ''PublicKey'' = Inr server_public"
    "directive ?p ''Endpoint'' = Inr (cfg_endpoint cfg @ '':'' @ str_int (cfg_listen_port cfg))"
    "directive ?p ''PersistentKeepalive'' = Inr (str_int (cfg_keepalive cfg))"
    by (simp_all add: directive_def client_peer_directives_def)
  have e: "rpartition_on CHR '':'' (cfg_endpoint cfg @ CHR '':'' # str_int (cfg_listen_port cfg))
    = Some (cfg_endpoint cfg, str_int (cfg_listen_port cfg))"
    using rpartition_on_append [OF str_int_no [OF pos(3)], of "CHR '':''"] by simp
  have k: "validate_key (JStr private) l = Inr private" "validate_key (JStr server_public) l = Inr server_public" for l
    using keys by (simp_all add: validate_key_Inr)
  show ?thesis
    unfolding read_profile_fields_def i p
    by (simp add: k e o int_value_def py_int_str_int pos ip_interface_text [OF a] interface_text_def)
qed


lemma known_client_directives:
  "set (map fst native) \<subseteq> set names \<Longrightarrow>
   known_directives names (client_interface_directives cfg private address native)
     (client_peer_directives cfg server_public psk) = Inr ()"
proof -
  assume n: "set (map fst native) \<subseteq> set names"
  have "unknown_names (map fst (client_interface_directives cfg private address native))
      ([''PrivateKey'', ''Address'', ''DNS'', ''MTU''] @ names) = []"
    using n by (intro unknown_names_none) (auto simp: client_interface_directives_def)
  moreover have "unknown_names (map fst (client_peer_directives cfg server_public psk))
      [''PublicKey'', ''PresharedKey'', ''Endpoint'', ''AllowedIPs'', ''PersistentKeepalive''] = []"
    by (intro unknown_names_none) (auto simp: client_peer_directives_def)
  ultimately show ?thesis by (simp add: known_directives_def)
qed

lemma client_sections:
  "profile_sections (two_kinds ''Interface'' i ''Peer'' [p]) = Inr (i, p)"
  by (simp add: profile_sections_def two_kinds_def occurrences_def sole_def unknown_names_none)

text \<open>
  C30: The file rendered for a client imports back: against the same managed configuration the
  importer accepts it and returns the client's keys, its address, the pre-shared key exactly when
  the policy asks for one, and the very text it read. (The endpoint must be one the validator
  accepts as it stands, which the configuration check does not ask for.)
\<close>

theorem import_rendered_profile:
  assumes ok: "server_config_ok cfg" and e: "endpoint_ok (cfg_endpoint cfg)" and a: "valid_net a" "snd a = 32"
    and render: "render_client_config (config_obj cfg) private psk server_public (net_text a) key = Inr out"
    and derive: "derive private = Inr public" "key_text_ok public"
  shows "parse_import_profile out (config_obj cfg) server_public derive key =
    Inr \<lparr>imp_private_key = private, imp_public_key = public,
         imp_psk = (if cfg_use_psk cfg then psk else None), imp_address = net_text a, imp_profile = out\<rparr>"
proof -
  obtain native where native: "obfuscation_directives (cfg_obfuscation cfg) key = Inr native"
    and k: "key_text_ok private" "key_text_ok server_public"
    and psk: "cfg_use_psk cfg \<longrightarrow> (\<exists>p. psk = Some p \<and> key_text_ok p)"
    and parsed: "parse_awg_config out = Inr (two_kinds ''Interface''
        (client_interface_directives cfg private (net_text a) native) ''Peer''
        [client_peer_directives cfg server_public psk])"
    using client_file_parse [OF ok e render a(1)] by blast
  let ?i = "client_interface_directives cfg private (net_text a) native"
  let ?p = "client_peer_directives cfg server_public psk"
  have np: "directives_plain native"
    using ok native by (intro obfuscation_directives_plain) (auto simp: server_config_ok_def)
  have nn: "set (map fst native) \<subseteq> set native_names" using native by (rule obfuscation_directive_names)
  have dns: "directive ?i ''DNS'' = Inr (join '', '' (cfg_dns cfg))"
    "profile_dns (join '', '' (cfg_dns cfg)) = Inr (cfg_dns cfg)"
    using server_config_ok_parts(1) [OF ok]
    by (simp_all add: directive_def client_interface_directives_def profile_dns_join)
  have ips: "map_of ?p ''AllowedIPs'' = Some ''0.0.0.0/0, ::/0''"
    by (simp add: client_peer_directives_def)
  have rep: "replace_char CHR '' '' [] ''0.0.0.0/0, ::/0'' = ''0.0.0.0/0,::/0''" by code_simp
  have key: "validate_key (JStr p) l = Inr p" if "key_text_ok p" for p l
    using that by (simp add: validate_key_Inr)
  have ppsk: "profile_psk ?p = Inr (if cfg_use_psk cfg then psk else None)"
    using psk key by (auto simp: profile_psk_def client_peer_directives_def key_text_ok_def)
  have pn: "cfg_use_psk cfg \<Longrightarrow> \<exists>p. psk = Some p" using psk by auto
  have again: "render_client_config (config_obj cfg) private (if cfg_use_psk cfg then psk else None)
      server_public (net_text a) key = Inr out"
  proof (cases "cfg_use_psk cfg")
    case True
    then show ?thesis using render by simp
  next
    case False
    then have "check_psk cfg p = Inr ()" for p by (simp add: check_psk_def)
    with False render show ?thesis
      by (simp only: render_client_config_def render_config_obj [OF ok] andthen.simps if_False)
  qed
  have host: "validate_endpoint (cfg_endpoint cfg) = Inr (cfg_endpoint cfg)"
    using e by (rule endpoint.good_accepted)
  show ?thesis
    unfolding parse_import_profile_def
    by (simp add: render_config_obj [OF ok] effective_config_obj [OF ok] native parsed client_sections
        known_client_directives read_client_fields [OF np nn k ok a(1)] host_route_def a(2) dns host
        ips rep ppsk pn derive key again)
qed


lemma sample_address: "valid_net (167772162, 32)" "snd ((167772162, 32) :: ipnet) = 32"
  by (simp_all add: valid_net_def valid_ipv4_def)

definition sample_render :: "string result" where
  "sample_render = render_client_config (config_obj sample_config) (sample_key CHR ''b'')
     (Some (sample_key CHR ''d'')) (sample_key CHR ''c'') (net_text (167772162, 32)) None"

lemma sample_rendered: "\<exists>out. sample_render = Inr out"
  using sample_native
  by (auto simp: sample_render_def render_client_config_def render_config_obj sample_config_ok
      sample_keys check_psk_def ip_interface_text sample_address canonical_obfuscation_lines_def
      effective_config_obj)

theorem import_rendered_profile_witness:
  "\<exists>out. sample_render = Inr out
    \<and> parse_import_profile out (config_obj sample_config) (sample_key CHR ''c'')
        (\<lambda>k. Inr (sample_key CHR ''b'')) None
      = Inr \<lparr>imp_private_key = sample_key CHR ''b'', imp_public_key = sample_key CHR ''b'',
          imp_psk = Some (sample_key CHR ''d''), imp_address = net_text (167772162, 32), imp_profile = out\<rparr>"
proof -
  obtain out where out: "sample_render = Inr out" using sample_rendered by blast
  have "validate_endpoint (cfg_endpoint sample_config) = Inr (cfg_endpoint sample_config)" by code_simp
  then have e: "endpoint_ok (cfg_endpoint sample_config)" by (rule endpoint.accepted_good)
  have u: "cfg_use_psk sample_config" by code_simp
  have d: "(\<lambda>k :: string. Inr (sample_key CHR ''b'') :: string result) (sample_key CHR ''b'')
    = Inr (sample_key CHR ''b'')" by simp
  note imported = import_rendered_profile [where derive = "\<lambda>k. Inr (sample_key CHR ''b'')",
      OF sample_config_ok e sample_address out [unfolded sample_render_def] d sample_keys_ok(1)]
  have "parse_import_profile out (config_obj sample_config) (sample_key CHR ''c'')
        (\<lambda>k. Inr (sample_key CHR ''b'')) None
      = Inr \<lparr>imp_private_key = sample_key CHR ''b'', imp_public_key = sample_key CHR ''b'',
          imp_psk = (if cfg_use_psk sample_config then Some (sample_key CHR ''d'') else None),
          imp_address = net_text (167772162, 32), imp_profile = out\<rparr>"
    by (rule imported)
  with out u show ?thesis by (intro exI [of _ out]) simp
qed

text \<open>A profile without a DNS directive escapes the handled exceptions.\<close>

lemma import_without_dns:
  assumes "render_config config = Inr cfg" and "effective_obfuscation (config_obj cfg) key = Inr expected"
    and "parse_awg_config profile = Inr parsed" and "profile_sections parsed = Inr (interface, peer)"
    and "known_directives (map fst expected) interface peer = Inr ()"
    and "read_profile_fields interface peer (map fst expected) = Inr p" and "host_route (pf_address p)"
    and "map_of interface ''DNS'' = None"
  shows "parse_import_profile profile config server_public derive key = Inl (KeyError ''DNS'')"
  using assms by (simp add: parse_import_profile_def directive_def)

end
