(* ===== verification/Clients.thy ===== *)
theory Clients
  imports Contracts ImportProfile "HOL-Library.AList" "HOL-Library.Multiset"
begin

text \<open>
  Client records in \<^verbatim>\<open>src/awgctl/core.py\<close>: loading and cross-checking them, address
  allocation, expiry, the activation window, and what the \<open>awg\<close> and \<open>ss\<close> tools report
  about peers and ports. The directories, files and command outputs are arguments; an address in
  the metadata is text (a JSON number, which \<open>ip_interface\<close> would read as well, is outside the model).
\<close>

section \<open>Address allocation\<close>

text \<open>The scan of \<open>subnet.hosts()\<close> from one host to the last.\<close>

function first_free :: "(int \<Rightarrow> bool) \<Rightarrow> int \<Rightarrow> int \<Rightarrow> int option" where
  "first_free taken h hi =
     (if h > hi then None else if taken h then first_free taken (h + 1) hi else Some h)"
  by pat_completeness auto
termination
  by (relation "measure (\<lambda>(taken, h, hi). nat (hi + 1 - h))") auto

declare first_free.simps [simp del]

definition next_client_address :: "ipnet \<Rightarrow> ipnet \<Rightarrow> iface list \<Rightarrow> ipnet result" where
  "next_client_address subnet server allocated =
     (case first_free (\<lambda>h. h = fst server \<or> (\<exists>i\<in>set allocated. case i of I4 n \<Rightarrow> fst n = h | I6 n \<Rightarrow> False))
             (first_host subnet) (last_host subnet) of
        None \<Rightarrow> Inl (AwgctlError ''no unused client addresses remain in the managed subnet'')
      | Some h \<Rightarrow> Inr (h, 32))"

section \<open>Duplicates\<close>

text \<open>\<open>d.setdefault(key, []).append(x)\<close> over a list.\<close>

definition append_to :: "('k \<times> 'v list) list \<Rightarrow> 'k \<Rightarrow> 'v \<Rightarrow> ('k \<times> 'v list) list" where
  "append_to d k x = AList.update k ((case map_of d k of None \<Rightarrow> [] | Some xs \<Rightarrow> xs) @ [x]) d"

definition grouped :: "('a \<Rightarrow> 'k) \<Rightarrow> ('a \<Rightarrow> 'v) \<Rightarrow> 'a list \<Rightarrow> ('k \<times> 'v list) list" where
  "grouped key val xs = foldl (\<lambda>d x. append_to d (key x) (val x)) [] xs"

definition find_duplicate_client_state :: "client list \<Rightarrow> string list" where
  "find_duplicate_client_state clients =
     (let address_names = grouped cl_address cl_name clients;
          key_names = grouped cl_public_key cl_name clients
      in map (\<lambda>(address, names). ''duplicate client address: '' @ address @ '' ('' @ join '', '' (sort names) @ '')'')
           (filter (\<lambda>(address, names). length names > 1) (sort_key fst address_names))
         @ map (\<lambda>names. ''duplicate client public key ('' @ join '', '' (sort names) @ '')'')
             (sort_key sort (filter (\<lambda>names. length names > 1) (map snd key_names))))"

section \<open>Loading\<close>

text \<open>A text file: its decoded content or the exception reading it raises.\<close>

definition read_secret :: "string result \<Rightarrow> string \<Rightarrow> string result" where
  "read_secret content label =
     andthen (except_as os_error (AwgctlError (''cannot read '' @ label)) content)
       (\<lambda>v. validate_key (JStr (strip v)) label)"

record loaded_client =
  ld_client :: client
  ld_management :: string
  ld_private_key :: "string option"
  ld_metadata :: obj

text \<open>The key files of a client: name of the client, name of the file.\<close>

type_synonym key_files = "string \<Rightarrow> string \<Rightarrow> string result"

text \<open>The metadata of one client directory, checked.\<close>

definition contract_message :: "string \<Rightarrow> error \<Rightarrow> error" where
  "contract_message prefix e =
     (case e of ContractError m \<Rightarrow> AwgctlError (prefix @ m) | _ \<Rightarrow> e)"

definition except_map :: "('e \<Rightarrow> 'e) \<Rightarrow> 'e + 'a \<Rightarrow> 'e + 'a" where
  "except_map f m = (case m of Inl e \<Rightarrow> Inl (f e) | Inr y \<Rightarrow> Inr y)"

definition client_address :: "obj \<Rightarrow> (string \<times> iface) result" where
  "client_address m =
     andthen (item m ''address'') (\<lambda>a.
       case a of
         JStr s \<Rightarrow> andthen (or_raise (ip_interface s) ValueError) (\<lambda>i. Inr (s, i))
       | _ \<Rightarrow> Inl ValueError)"

definition checked_metadata :: "string \<Rightarrow> json result \<Rightarrow> (obj \<times> string \<times> string) result" where
  "checked_metadata name content =
     andthen (validate_client_name (JStr name)) (\<lambda>_.
     andthen (except_as (\<lambda>e. os_error e \<or> e = JSONDecodeError)
       (AwgctlError (''cannot read client metadata: '' @ name)) content) (\<lambda>v.
     andthen (except_map (contract_message (''invalid client metadata: '' @ name @ '': ''))
       (normalize_client_metadata v)) (\<lambda>m.
     andthen (if get m ''name'' \<noteq> JStr name then Inr False
              else in_strs (get m ''status'') [''active'', ''expired'']) (\<lambda>known.
     andthen (check known (AwgctlError (''invalid active client metadata: '' @ name))) (\<lambda>_.
     andthen (validate_key (case map_of m ''public_key'' of None \<Rightarrow> JStr [] | Some v \<Rightarrow> v)
       ''client public key'') (\<lambda>public.
     andthen (except_as key_or_value_error (AwgctlError (''invalid client address: '' @ name))
       (client_address m)) (\<lambda>(address, i).
     andthen (check (host_route i) (AwgctlError (''invalid client address: '' @ name))) (\<lambda>_.
     Inr (m, public, address)))))))))"

text \<open>The secrets of a client: its private key when managed, its pre-shared key.\<close>

definition client_secrets ::
  "key_files \<Rightarrow> string \<Rightarrow> obj \<Rightarrow> string \<Rightarrow> (string option \<times> string option) result" where
  "client_secrets files name m public =
     andthen (read_secret (files name ''public'') ''client public key'') (\<lambda>public_file.
     andthen (check (public_file = public)
       (AwgctlError (''client public key metadata drift: '' @ name))) (\<lambda>_.
     andthen (if get m ''management'' = JStr ''managed''
              then andthen (read_secret (files name ''private'') ''client private key'') (\<lambda>k. Inr (Some k))
              else Inr None) (\<lambda>private.
     andthen (if truthy (get m ''use_psk'')
              then andthen (read_secret (files name ''psk'') ''client preshared key'') (\<lambda>k. Inr (Some k))
              else Inr None) (\<lambda>psk.
     Inr (private, psk)))))"

definition load_client :: "key_files \<Rightarrow> bool \<Rightarrow> string \<Rightarrow> json result \<Rightarrow> loaded_client result" where
  "load_client files include_secrets name content =
     andthen (checked_metadata name content) (\<lambda>(m, public, address).
     andthen (if include_secrets then client_secrets files name m public else Inr (None, None)) (\<lambda>(private, psk).
     Inr \<lparr>ld_client = \<lparr>cl_name = name, cl_public_key = public, cl_address = address,
            cl_status = the (as_str (get m ''status'')), cl_expires = as_str (get m ''expires''),
            cl_psk = psk\<rparr>,
          ld_management = the (as_str (get m ''management'')), ld_private_key = private,
          ld_metadata = m\<rparr>))"

record client_entry =
  ce_name :: string
  ce_is_directory :: bool
  ce_metadata :: "json result"

definition visible_entry :: "client_entry \<Rightarrow> bool" where
  "visible_entry e \<longleftrightarrow> ce_is_directory e \<and> \<not> starts_with ''.'' (ce_name e)"

definition address_number :: "string \<Rightarrow> int" where
  "address_number s = (case ip_interface s of Some (I4 n) \<Rightarrow> fst n | Some (I6 n) \<Rightarrow> fst n | None \<Rightarrow> 0)"

definition load_clients :: "key_files \<Rightarrow> client_entry list \<Rightarrow> bool \<Rightarrow> loaded_client list result" where
  "load_clients files entries include_secrets =
     andthen (result_list (\<lambda>e. load_client files include_secrets (ce_name e) (ce_metadata e))
       (filter visible_entry entries)) (\<lambda>records.
     let records = sort_key (\<lambda>c. address_number (cl_address (ld_client c))) records;
         duplicates = find_duplicate_client_state (map ld_client records)
     in if duplicates \<noteq> [] then Inl (AwgctlError (join ''; '' duplicates)) else Inr records)"

section \<open>Expiry\<close>

definition clients_due_for_expiry :: "client list \<Rightarrow> int \<Rightarrow> client list result" where
  "clients_due_for_expiry clients now =
     andthen (result_list (\<lambda>c. if cl_status c = ''active''
         then andthen (effective_client_status c now) (\<lambda>s. Inr (c, s = ''expired''))
         else Inr (c, False)) clients)
       (\<lambda>marked. Inr (map fst (filter snd marked)))"

definition clients_requiring_expiry_reconciliation :: "client list \<Rightarrow> int \<Rightarrow> client list result" where
  "clients_requiring_expiry_reconciliation clients now =
     andthen (result_list (\<lambda>c. andthen (effective_client_status c now) (\<lambda>s. Inr (c, s = ''expired''))) clients)
       (\<lambda>marked. Inr (map fst (filter snd marked)))"

text \<open>The dict comprehension keeps the last record of a name.\<close>

definition by_name :: "client list \<Rightarrow> string \<Rightarrow> client option" where
  "by_name clients n = find (\<lambda>c. cl_name c = n) (rev clients)"

definition same_identity :: "client \<Rightarrow> client \<Rightarrow> bool" where
  "same_identity a b \<longleftrightarrow>
     cl_name a = cl_name b \<and> cl_address a = cl_address b \<and> cl_public_key a = cl_public_key b
     \<and> cl_expires a = cl_expires b \<and> cl_status a = cl_status b"

definition bind_expiry_records :: "client list \<Rightarrow> client list \<Rightarrow> client list result" where
  "bind_expiry_records selected reloaded =
     result_list (\<lambda>original.
       case by_name reloaded (cl_name original) of
         None \<Rightarrow> Inl (AwgctlError (''client identity changed during expiry: '' @ cl_name original))
       | Some current \<Rightarrow>
           if same_identity current original then Inr current
           else Inl (AwgctlError (''client identity changed during expiry: '' @ cl_name original)))
     selected"

definition client_expiry_health_check ::
  "client list \<Rightarrow> int \<Rightarrow> string option \<Rightarrow> bool \<Rightarrow> (string \<Rightarrow> string list result) \<Rightarrow> health_check result" where
  "client_expiry_health_check clients now interface active live_peers =
     andthen (clients_requiring_expiry_reconciliation clients now) (\<lambda>expired.
     andthen
       (if expired \<noteq> [] \<and> active then
          (case interface of
             None \<Rightarrow> Inl (AwgctlError ''active interface is unavailable for client expiry verification'')
           | Some i \<Rightarrow>
               if i = []
               then Inl (AwgctlError ''active interface is unavailable for client expiry verification'')
               else andthen (live_peers i) (\<lambda>live.
                 Inr (map cl_name (filter (\<lambda>c. cl_public_key c \<in> set live) expired))))
        else Inr [])
       (\<lambda>remaining.
     if remaining \<noteq> []
     then Inr (''FAIL'', ''client expiry'', ''expired peers still active: '' @ join '', '' remaining)
     else Inr (''PASS'', ''client expiry'',
            if expired \<noteq> [] then ''expired: '' @ join '', '' (map cl_name expired)
            else ''no expired clients'')))"

text \<open>The peer section a due client would have had.\<close>

definition due_peer :: "bool \<Rightarrow> client \<Rightarrow> (string \<times> string) list result" where
  "due_peer use_psk c =
     andthen (or_raise (ip_interface (cl_address c)) ValueError) (\<lambda>i.
     Inr (sort ([(''PublicKey'', cl_public_key c), (''AllowedIPs'', interface_text (cl_address c) i)]
       @ (if use_psk then [(''PresharedKey'', the (cl_psk c))] else []))))"

definition ensure_expiry_reconcilable ::
  "string \<Rightarrow> string result \<Rightarrow> bool \<Rightarrow> client list \<Rightarrow> unit result" where
  "ensure_expiry_reconcilable generated rendered use_psk due =
     andthen rendered (\<lambda>current.
     andthen (semantic_signature current) (\<lambda>(expected_interface, expected_peers).
     andthen (semantic_signature generated) (\<lambda>(actual_interface, actual_peers).
     andthen (result_list (due_peer use_psk) due) (\<lambda>due_peers.
     check (actual_interface = expected_interface
         \<and> (actual_peers = expected_peers \<or> actual_peers = sort (expected_peers @ due_peers)))
       (AwgctlError ''managed-state drift detected before client expiry'')))))"

section \<open>The activation window\<close>

text \<open>\<open>now\<close> and \<open>deadline\<close> are aware instants; the keys are those of the running interface.\<close>

definition check_window :: "int \<Rightarrow> int \<Rightarrow> string list option \<Rightarrow> loaded_client \<Rightarrow> unit result" where
  "check_window now deadline installed_keys c =
     (case cl_expires (ld_client c) of
        None \<Rightarrow> Inr ()
      | Some e \<Rightarrow>
          if ld_management c \<noteq> ''managed'' then Inr () else
          andthen (or_raise (parse_date e) (AwgctlError ''managed client expiry is invalid'')) (\<lambda>day.
          let expiry = day * day_us;
              installed = (case installed_keys of None \<Rightarrow> False
                | Some ks \<Rightarrow> cl_public_key (ld_client c) \<in> set ks)
          in andthen (client_is_server_eligible (ld_client c) now) (\<lambda>eligible.
             if \<not> eligible \<and> \<not> installed then Inr ()
             else if installed \<and> expiry \<le> now
             then Inl (AwgctlError ''installed managed client crossed its expiry boundary'')
             else if expiry \<le> deadline
             then Inl (AwgctlError ''managed client expiry is at or before the rollback deadline'')
             else Inr ())))"

definition ensure_activation_window ::
  "loaded_client list \<Rightarrow> int \<Rightarrow> int \<Rightarrow> string list option \<Rightarrow> unit result" where
  "ensure_activation_window clients now deadline installed_keys =
     (if deadline \<le> now then Inl (AwgctlError ''activation rollback window is invalid'')
      else andthen (result_list (check_window now deadline installed_keys) clients) (\<lambda>_. Inr ()))"

section \<open>The clients of a transition\<close>

definition prepare_transition_clients ::
  "loaded_client list \<Rightarrow> string \<Rightarrow> int \<Rightarrow> (loaded_client \<times> loaded_client list) result" where
  "prepare_transition_clients clients name now =
     (case find (\<lambda>c. cl_name (ld_client c) = name) clients of
        None \<Rightarrow> Inl (AwgctlError (''unknown managed client: '' @ name))
      | Some target \<Rightarrow>
          if ld_management target \<noteq> ''managed''
          then Inl (AwgctlError (''unknown managed client: '' @ name)) else
          andthen (effective_client_status (ld_client target) now) (\<lambda>status.
          if status \<noteq> ''active''
          then Inl (AwgctlError (''client is not eligible for transition: '' @ name)) else
          andthen (result_list (\<lambda>c. andthen (client_is_server_eligible (ld_client c) now) (\<lambda>b. Inr (c, b)))
            clients) (\<lambda>marked.
          let external = map (\<lambda>c. cl_name (ld_client c))
                (filter (\<lambda>c. ld_management c \<noteq> ''managed'') (map fst (filter snd marked)));
              managed = filter (\<lambda>c. ld_management c = ''managed'') clients
          in if external \<noteq> []
             then Inl (AwgctlError
               (''active external peers prevent a complete AWG 3.1 profile cutover: ''
                @ join '', '' (sort external)))
             else if managed = []
             then Inl (AwgctlError ''no managed clients are available for transition'')
             else Inr (target, sort_key (\<lambda>c. cl_name (ld_client c)) managed))))"

section \<open>What the tools report\<close>

text \<open>\<open>line.split()\<close>: the maximal runs of characters that are not white space.\<close>

definition words_of :: "string \<Rightarrow> string list" where
  "words_of s = filter (\<lambda>w. w \<noteq> []) (split_on CHR '' '' (map (\<lambda>c. if is_space c then CHR '' '' else c) s))"

definition live_peers_of :: "string \<Rightarrow> string list" where
  "live_peers_of output = remdups (filter (\<lambda>l. l \<noteq> []) (map strip (splitlines output)))"

definition handshake_map :: "string \<Rightarrow> (string \<times> int) list" where
  "handshake_map output =
     foldl (\<lambda>d line. case words_of line of
         [k, t] \<Rightarrow> (case py_int t of None \<Rightarrow> d | Some n \<Rightarrow> AList.update k n d)
       | _ \<Rightarrow> d) [] (splitlines output)"

definition transfer_map :: "string \<Rightarrow> (string \<times> int \<times> int) list" where
  "transfer_map output =
     foldl (\<lambda>d line. case words_of line of
         [k, r, t] \<Rightarrow>
           (case (validate_key (JStr k) ''managed peer public key'', py_int r, py_int t) of
              (Inr key, Some received, Some transmitted) \<Rightarrow>
                if 0 \<le> received \<and> 0 \<le> transmitted then AList.update key (received, transmitted) d else d
            | _ \<Rightarrow> d)
       | _ \<Rightarrow> d) [] (splitlines output)"

definition format_age :: "int \<Rightarrow> int \<Rightarrow> string" where
  "format_age timestamp current =
     (if timestamp \<le> 0 then ''never''
      else let seconds = max 0 (current - timestamp); minutes = seconds div 60; hours = minutes div 60
           in if seconds < 60 then str_int seconds @ ''s ago''
              else if minutes < 60 then str_int minutes @ ''m ago''
              else if hours < 48 then str_int hours @ ''h ago''
              else str_int (hours div 24) @ ''d ago'')"

text \<open>A field of \<open>ss\<close> that ends in the port after a colon, a bracket or nothing.\<close>

definition ends_in_port :: "string \<Rightarrow> string \<Rightarrow> bool" where
  "ends_in_port p field \<longleftrightarrow>
     (\<exists>n\<in>{..length field}. drop n field = p \<and> (n = 0 \<or> field ! (n - 1) = CHR '']'' \<or> field ! (n - 1) = CHR '':''))"

definition udp_port_is_listening :: "int \<Rightarrow> string \<Rightarrow> bool" where
  "udp_port_is_listening port output =
     list_ex (\<lambda>line. list_ex (ends_in_port (str_int port)) (words_of line)) (splitlines output)"

section \<open>Choosing a port\<close>

definition port_population :: int where
  "port_population = 9999 - 1024 + 1"

definition rejection_limit :: int where
  "rejection_limit = 2 ^ 14 div port_population * port_population"

text \<open>One round: a usable candidate, or another draw. The samples are what the random source returns.\<close>

definition try_port ::
  "int \<Rightarrow> int list \<Rightarrow> (int \<Rightarrow> bool result) \<Rightarrow> (int \<Rightarrow> bool) \<Rightarrow> json \<Rightarrow> int option result" where
  "try_port current managed listening bindable sample =
     (case sample of
        JInt d \<Rightarrow>
          if \<not> (0 \<le> d \<and> d < 2 ^ 14) then Inl (AwgctlError ''CSPRNG returned an invalid UDP port sample'')
          else if d \<ge> rejection_limit then Inr None
          else if 1024 + d = current \<or> 1024 + d \<in> set managed then Inr None
          else andthen (listening (1024 + d)) (\<lambda>used.
            if used \<or> \<not> bindable (1024 + d) then Inr None else Inr (Some (1024 + d)))
      | _ \<Rightarrow> Inl (AwgctlError ''CSPRNG returned an invalid UDP port sample''))"

primrec port_rounds ::
  "int \<Rightarrow> int list \<Rightarrow> (int \<Rightarrow> bool result) \<Rightarrow> (int \<Rightarrow> bool) \<Rightarrow> (nat \<Rightarrow> json) \<Rightarrow> nat \<Rightarrow> int result" where
  "port_rounds current managed listening bindable samples 0 =
     Inl (AwgctlError ''cannot select an unused UDP port after bounded attempts'')"
| "port_rounds current managed listening bindable samples (Suc n) =
     andthen (try_port current managed listening bindable (samples 0)) (\<lambda>p.
       case p of
         Some port \<Rightarrow> Inr port
       | None \<Rightarrow> port_rounds current managed listening bindable (\<lambda>i. samples (Suc i)) n)"

definition select_transition_port ::
  "json \<Rightarrow> json list \<Rightarrow> (int \<Rightarrow> bool result) \<Rightarrow> (int \<Rightarrow> bool) \<Rightarrow> (nat \<Rightarrow> json) \<Rightarrow> int result" where
  "select_transition_port current managed listening bindable samples =
     (case as_int current of
        None \<Rightarrow> Inl (AwgctlError ''current managed UDP port is invalid'')
      | Some c \<Rightarrow>
          if list_ex (\<lambda>p. as_int p = None) managed
          then Inl (AwgctlError ''managed UDP port inventory is invalid'')
          else port_rounds c (map (\<lambda>p. the (as_int p)) managed) listening bindable samples 4096)"

section \<open>The allocated address\<close>

lemma first_free_Some:
  "first_free taken h hi = Some r \<longleftrightarrow> h \<le> r \<and> r \<le> hi \<and> \<not> taken r \<and> (\<forall>k. h \<le> k \<and> k < r \<longrightarrow> taken k)"
proof (induction taken h hi rule: first_free.induct)
  case (1 taken h hi)
  show ?case
  proof (cases "h > hi \<or> \<not> taken h")
    case True
    then show ?thesis by (subst first_free.simps) (auto simp: le_less)
  next
    case False
    then have "first_free taken h hi = first_free taken (h + 1) hi" by (subst first_free.simps) simp
    moreover have "(\<forall>k. h \<le> k \<and> k < r \<longrightarrow> taken k) \<longleftrightarrow> (\<forall>k. h + 1 \<le> k \<and> k < r \<longrightarrow> taken k)"
      using False by (metis add1_zle_eq le_less)
    moreover have "h \<le> r \<and> \<not> taken r \<longleftrightarrow> h + 1 \<le> r \<and> \<not> taken r" using False by (auto simp: le_less)
    ultimately show ?thesis using "1.IH" False by auto
  qed
qed

lemma first_free_None: "first_free taken h hi = None \<longleftrightarrow> (\<forall>k. h \<le> k \<and> k \<le> hi \<longrightarrow> taken k)"
proof (induction taken h hi rule: first_free.induct)
  case (1 taken h hi)
  show ?case
  proof (cases "h > hi \<or> \<not> taken h")
    case True
    then show ?thesis by (subst first_free.simps) auto
  next
    case False
    then have "first_free taken h hi = first_free taken (h + 1) hi" by (subst first_free.simps) simp
    moreover have "(\<forall>k. h \<le> k \<and> k \<le> hi \<longrightarrow> taken k) \<longleftrightarrow> (\<forall>k. h + 1 \<le> k \<and> k \<le> hi \<longrightarrow> taken k)"
      using False by (metis add1_zle_eq le_less)
    ultimately show ?thesis using "1.IH" False by simp
  qed
qed

definition allocated_hosts :: "iface list \<Rightarrow> int set" where
  "allocated_hosts is = {h. \<exists>p. I4 (h, p) \<in> set is}"

lemma allocated_hosts_iff:
  "(\<exists>i\<in>set is. case i of I4 n \<Rightarrow> fst n = h | I6 n \<Rightarrow> False) \<longleftrightarrow> h \<in> allocated_hosts is"
proof
  assume "\<exists>i\<in>set is. case i of I4 n \<Rightarrow> fst n = h | I6 n \<Rightarrow> False"
  then obtain i where i: "i \<in> set is" "case i of I4 n \<Rightarrow> fst n = h | I6 n \<Rightarrow> False" by blast
  show "h \<in> allocated_hosts is" using i by (cases i rule: iface.exhaust) (auto simp: allocated_hosts_def)
next
  assume "h \<in> allocated_hosts is"
  then obtain p where "I4 (h, p) \<in> set is" by (auto simp: allocated_hosts_def)
  then show "\<exists>i\<in>set is. case i of I4 n \<Rightarrow> fst n = h | I6 n \<Rightarrow> False"
    by (intro bexI [of _ "I4 (h, p)"]) simp_all
qed

text \<open>
  C32: The address given to a new client is the lowest host of the managed subnet that is neither
  the server's nor allocated to a client, as a /32; the allocation fails exactly when every host
  of the subnet is taken.
\<close>

theorem next_client_address_least:
  "case next_client_address subnet server allocated of
     Inr a \<Rightarrow> snd a = 32 \<and> first_host subnet \<le> fst a \<and> fst a \<le> last_host subnet
       \<and> fst a \<noteq> fst server \<and> fst a \<notin> allocated_hosts allocated
       \<and> (\<forall>k\<in>{first_host subnet..<fst a}. k = fst server \<or> k \<in> allocated_hosts allocated)
   | Inl e \<Rightarrow> \<forall>k\<in>{first_host subnet..last_host subnet}. k = fst server \<or> k \<in> allocated_hosts allocated"
proof (cases "first_free (\<lambda>h. h = fst server \<or> h \<in> allocated_hosts allocated)
    (first_host subnet) (last_host subnet)")
  case None
  then have "next_client_address subnet server allocated
    = Inl (AwgctlError ''no unused client addresses remain in the managed subnet'')"
    by (simp add: next_client_address_def allocated_hosts_iff)
  moreover from None [unfolded first_free_None]
  have "\<forall>k\<in>{first_host subnet..last_host subnet}. k = fst server \<or> k \<in> allocated_hosts allocated" by auto
  ultimately show ?thesis by simp
next
  case (Some h)
  then have "next_client_address subnet server allocated = Inr (h, 32)"
    by (simp add: next_client_address_def allocated_hosts_iff)
  moreover from Some [unfolded first_free_Some]
  have "first_host subnet \<le> h \<and> h \<le> last_host subnet \<and> h \<noteq> fst server \<and> h \<notin> allocated_hosts allocated
    \<and> (\<forall>k\<in>{first_host subnet..<h}. k = fst server \<or> k \<in> allocated_hosts allocated)" by auto
  ultimately show ?thesis by simp
qed

theorem next_client_address_least_witness:
  "next_client_address (167772160, 29) (167772161, 29) [I4 (167772162, 32), I4 (167772164, 32)]
     = Inr (167772163, 32)
   \<and> 167772163 \<notin> allocated_hosts [I4 (167772162, 32), I4 (167772164, 32)]"
proof -
  have e: "next_client_address (167772160, 29) (167772161, 29) [I4 (167772162, 32), I4 (167772164, 32)]
     = Inr (167772163, 32)" by code_simp
  have f: "first_host (167772160, 29) = 167772161" by code_simp
  show ?thesis
    using next_client_address_least [of "(167772160, 29)" "(167772161, 29)"
        "[I4 (167772162, 32), I4 (167772164, 32)]"] unfolding e f by simp
qed

section \<open>Duplicates are found\<close>

lemma update_keys: "distinct (map fst d) \<Longrightarrow> distinct (map fst (AList.update k v d))"
  by (simp add: distinct_update)

lemma map_of_append_to:
  "map_of (append_to d k x) k' =
     (if k' = k then Some ((case map_of d k of None \<Rightarrow> [] | Some xs \<Rightarrow> xs) @ [x]) else map_of d k')"
  by (simp add: append_to_def update_conv)

lemma grouped_lookup_distinct:
  "distinct (map fst (grouped key val xs))
   \<and> map_of (grouped key val xs) k =
      (if filter (\<lambda>x. key x = k) xs = [] then None else Some (map val (filter (\<lambda>x. key x = k) xs)))"
proof (induction xs arbitrary: k rule: rev_induct)
  case Nil
  show ?case by (simp add: grouped_def)
next
  case (snoc x xs)
  have "grouped key val (xs @ [x]) = append_to (grouped key val xs) (key x) (val x)"
    by (simp add: grouped_def)
  then show ?case using snoc by (auto simp: map_of_append_to) (simp add: append_to_def distinct_update)
qed

lemma distinct_count: "distinct ys \<longleftrightarrow> (\<forall>k. count_list ys k \<le> 1)"
proof (induction ys)
  case Nil
  show ?case by simp
next
  case (Cons y ys)
  show ?case
  proof
    assume "distinct (y # ys)"
    then show "\<forall>k. count_list (y # ys) k \<le> 1" using Cons by (simp add: count_list_0_iff)
  next
    assume a: "\<forall>k. count_list (y # ys) k \<le> 1"
    have "count_list ys k \<le> 1" for k using a [rule_format, of k] by (simp split: if_splits)
    moreover have "count_list ys y = 0" using a [rule_format, of y] by simp
    ultimately show "distinct (y # ys)" using Cons by (simp add: count_list_0_iff)
  qed
qed

lemma distinct_map_filter:
  "distinct (map f xs) \<longleftrightarrow> (\<forall>k. length (filter (\<lambda>x. f x = k) xs) \<le> 1)"
proof -
  have c: "count_list (map f xs) k = length (filter (\<lambda>x. f x = k) xs)" for k
    by (induction xs) auto
  show ?thesis by (simp only: distinct_count c)
qed


lemma grouped_single:
  "(\<forall>(k, names)\<in>set (grouped key val xs). \<not> length names > 1) \<longleftrightarrow> distinct (map key xs)"
  (is "?l \<longleftrightarrow> _")
proof -
  let ?f = "\<lambda>k. filter (\<lambda>x. key x = k) xs"
  have m: "(k, names) \<in> set (grouped key val xs) \<longleftrightarrow> ?f k \<noteq> [] \<and> names = map val (?f k)" for k names
    using grouped_lookup_distinct [of key val xs k] by (auto simp flip: map_of_eq_Some_iff)
  have "?l \<longleftrightarrow> (\<forall>k names. (k, names) \<in> set (grouped key val xs) \<longrightarrow> \<not> length names > 1)" by blast
  also have "\<dots> \<longleftrightarrow> (\<forall>k. ?f k \<noteq> [] \<longrightarrow> length (?f k) \<le> 1)" by (simp add: m not_less)
  also have "\<dots> \<longleftrightarrow> (\<forall>k. length (?f k) \<le> 1)" by (metis le0 list.size(3))
  finally show ?thesis by (simp only: distinct_map_filter)
qed

lemma find_duplicate_none:
  "find_duplicate_client_state cs = [] \<longleftrightarrow> distinct (map cl_address cs) \<and> distinct (map cl_public_key cs)"
proof -
  have a: "filter (\<lambda>(address, names). length names > 1) (sort_key fst (grouped cl_address cl_name cs)) = []
    \<longleftrightarrow> distinct (map cl_address cs)"
    unfolding grouped_single [where val = cl_name, symmetric] by (auto simp: filter_empty_conv)
  have b: "sort_key sort (filter (\<lambda>names. length names > 1) (map snd (grouped cl_public_key cl_name cs))) = []
    \<longleftrightarrow> distinct (map cl_public_key cs)"
  proof -
    have "sort_key sort xs = [] \<longleftrightarrow> xs = []" for xs :: "string list list"
      by (metis length_0_conv length_sort)
    then show ?thesis
      unfolding grouped_single [where val = cl_name, symmetric] by (auto simp: filter_empty_conv)
  qed
  show ?thesis using a b by (simp add: find_duplicate_client_state_def Let_def)
qed

section \<open>Loaded clients\<close>

definition loaded_ok :: "bool \<Rightarrow> loaded_client \<Rightarrow> bool" where
  "loaded_ok include_secrets c \<longleftrightarrow>
     client_name_re (cl_name (ld_client c)) \<and> key_text_ok (cl_public_key (ld_client c))
     \<and> (\<exists>a. ip_interface (cl_address (ld_client c)) = Some (I4 (a, 32)))
     \<and> cl_status (ld_client c) \<in> {''active'', ''expired''}
     \<and> ld_management c \<in> {''managed'', ''external''}
     \<and> (\<forall>e. cl_expires (ld_client c) = Some e \<longrightarrow> parse_date e \<noteq> None)
     \<and> (if include_secrets
        then (ld_management c = ''managed'' \<longleftrightarrow> ld_private_key c \<noteq> None)
          \<and> (\<forall>k. ld_private_key c = Some k \<longrightarrow> key_text_ok k)
          \<and> (truthy (get (ld_metadata c) ''use_psk'') \<longleftrightarrow> cl_psk (ld_client c) \<noteq> None)
          \<and> (\<forall>k. cl_psk (ld_client c) = Some k \<longrightarrow> key_text_ok k)
        else ld_private_key c = None \<and> cl_psk (ld_client c) = None)"

lemma read_secret_ok: "read_secret content label = Inr k \<Longrightarrow> key_text_ok k"
  by (auto simp: read_secret_def result_simps validate_key_Inr)

lemma except_map_Inr [result_simps]: "except_map f m = Inr y \<longleftrightarrow> m = Inr y"
  by (cases m) (auto simp: except_map_def)

lemma client_address_Inr:
  "client_address m = Inr (s, i) \<Longrightarrow> ip_interface s = Some i"
  unfolding client_address_def by (elim andthenE) (auto simp: result_simps split: json.split_asm)

lemma checked_metadata_ok:
  assumes "checked_metadata name content = Inr (m, public, address)"
  shows "client_name_re name \<and> key_text_ok public \<and> (\<exists>a. ip_interface address = Some (I4 (a, 32)))
    \<and> (\<exists>s. get m ''status'' = JStr s \<and> s \<in> {''active'', ''expired''}) \<and> metadata_ok m"
  using assms unfolding checked_metadata_def
  by (elim andthen_prodE andthenE)
    (auto simp: result_simps validate_client_name_Inr validate_key_Inr host_route_I4
      dest!: client_address_Inr dest: normalize_ok(1) split: if_splits)

lemma client_secrets_ok:
  assumes "client_secrets files name m public = Inr (private, psk)"
  shows "(get m ''management'' = JStr ''managed'' \<longleftrightarrow> private \<noteq> None) \<and> (\<forall>k. private = Some k \<longrightarrow> key_text_ok k)
    \<and> (truthy (get m ''use_psk'') \<longleftrightarrow> psk \<noteq> None) \<and> (\<forall>k. psk = Some k \<longrightarrow> key_text_ok k)"
  using assms unfolding client_secrets_def
  by (elim andthenE) (auto simp: result_simps dest: read_secret_ok split: if_splits)

lemma metadata_ok_fields:
  assumes "metadata_ok m"
  shows "\<exists>s. get m ''management'' = JStr s \<and> s \<in> {''managed'', ''external''}"
    and "as_str (get m ''expires'') = Some e \<Longrightarrow> parse_date e \<noteq> None"
  using assms by (auto simp: metadata_ok_def expiry_field_def check_expires_def split: option.splits)

lemma andthen_tripleE:
  assumes "andthen m (\<lambda>(x, y, z). f x y z) = Inr r"
  obtains x y z where "m = Inr (x, y, z)" "f x y z = Inr r"
  using assms by (cases m) auto

lemma load_client_ok:
  assumes "load_client files secrets name content = Inr c"
  shows "loaded_ok secrets c \<and> cl_name (ld_client c) = name"
proof -
  obtain m public address priv psk where
    m: "checked_metadata name content = Inr (m, public, address)"
    and s: "(if secrets then client_secrets files name m public else Inr (None, None)) = Inr (priv, psk)"
    and c: "c = \<lparr>ld_client = \<lparr>cl_name = name, cl_public_key = public, cl_address = address,
            cl_status = the (as_str (get m ''status'')), cl_expires = as_str (get m ''expires''),
            cl_psk = psk\<rparr>,
          ld_management = the (as_str (get m ''management'')), ld_private_key = priv,
          ld_metadata = m\<rparr>"
    using assms unfolding load_client_def by (elim andthen_tripleE andthen_prodE) auto
  note k = checked_metadata_ok [OF m]
  obtain mg where mg: "get m ''management'' = JStr mg" "mg \<in> {''managed'', ''external''}"
    using metadata_ok_fields(1) k by blast
  have e: "parse_date e \<noteq> None" if "as_str (get m ''expires'') = Some e" for e
    using metadata_ok_fields(2) k that by blast
  show ?thesis
  proof (cases secrets)
    case True
    with s have "client_secrets files name m public = Inr (priv, psk)" by simp
    from client_secrets_ok [OF this] show ?thesis using True k mg e by (auto simp: loaded_ok_def c)
  next
    case False
    with s have "priv = None" "psk = None" by simp_all
    then show ?thesis using False k mg e by (auto simp: loaded_ok_def c)
  qed
qed

lemma load_clients_ok:
  assumes "load_clients files entries secrets = Inr cs"
  shows "mset (map (\<lambda>c. cl_name (ld_client c)) cs) = mset (map ce_name (filter visible_entry entries))
    \<and> sorted (map (\<lambda>c. address_number (cl_address (ld_client c))) cs)
    \<and> list_all (loaded_ok secrets) cs
    \<and> distinct (map (\<lambda>c. cl_address (ld_client c)) cs)
    \<and> distinct (map (\<lambda>c. cl_public_key (ld_client c)) cs)"
proof -
  let ?load = "\<lambda>e. load_client files secrets (ce_name e) (ce_metadata e)"
  obtain rs where rs: "result_list ?load (filter visible_entry entries) = Inr rs"
    and cs: "cs = sort_key (\<lambda>c. address_number (cl_address (ld_client c))) rs"
    and d: "find_duplicate_client_state (map ld_client cs) = []"
    using assms unfolding load_clients_def Let_def by (elim andthenE) (simp split: if_splits)
  have "loaded_ok secrets c" if "c \<in> set rs" for c
    using result_list_Inr_set [OF rs that] load_client_ok by blast
  then have ok: "list_all (loaded_ok secrets) rs" by (simp add: list_all_iff)
  have names: "map (\<lambda>c. cl_name (ld_client c)) rs = map ce_name (filter visible_entry entries)"
  proof (rule nth_equalityI)
    show "length (map (\<lambda>c. cl_name (ld_client c)) rs) = length (map ce_name (filter visible_entry entries))"
      using result_list_Inr_length [OF rs] by simp
  next
    fix i assume i: "i < length (map (\<lambda>c. cl_name (ld_client c)) rs)"
    then have "i < length (filter visible_entry entries)" using result_list_Inr_length [OF rs] by simp
    then show "map (\<lambda>c. cl_name (ld_client c)) rs ! i = map ce_name (filter visible_entry entries) ! i"
      using load_client_ok [OF result_list_Inr_nth [OF rs]] i by simp
  qed
  have m: "mset (map f cs) = mset (map f rs)" for f :: "loaded_client \<Rightarrow> string" by (simp add: cs)
  have "mset (map (\<lambda>c. cl_name (ld_client c)) cs) = mset (map ce_name (filter visible_entry entries))"
    unfolding m names ..
  moreover have "sorted (map (\<lambda>c. address_number (cl_address (ld_client c))) cs)" by (simp add: cs)
  moreover have "list_all (loaded_ok secrets) cs" using ok by (simp add: cs list_all_iff)
  moreover have "distinct (map cl_address (map ld_client cs)) \<and> distinct (map cl_public_key (map ld_client cs))"
    using d by (simp only: find_duplicate_none)
  ultimately show ?thesis by (simp add: o_def)
qed

text \<open>
  C31: The clients the program works on are consistent: when loading succeeds, every visible client
  directory has exactly one record, the records are ordered by address, every record has a valid
  name, key, /32 address, status and expiry and the secrets its metadata asks for, and no two
  records share an address text or a public key.
\<close>

theorem load_clients_consistent:
  assumes "load_clients files entries secrets = Inr cs"
  shows "mset (map (\<lambda>c. cl_name (ld_client c)) cs) = mset (map ce_name (filter visible_entry entries))
    \<and> sorted (map (\<lambda>c. address_number (cl_address (ld_client c))) cs)
    \<and> list_all (loaded_ok secrets) cs
    \<and> distinct (map (\<lambda>c. cl_address (ld_client c)) cs)
    \<and> distinct (map (\<lambda>c. cl_public_key (ld_client c)) cs)"
  by (rule load_clients_ok [OF assms])

definition sample_metadata :: "string \<Rightarrow> string \<Rightarrow> char \<Rightarrow> obj" where
  "sample_metadata name address k = put_all migrated_client
     [(''name'', JStr name), (''status'', JStr ''active''), (''address'', JStr address),
      (''public_key'', JStr (sample_key k))]"

definition sample_entries :: "string \<Rightarrow> string \<Rightarrow> client_entry list" where
  "sample_entries a b =
     [\<lparr>ce_name = ''phone'', ce_is_directory = True, ce_metadata = Inr (JObj (sample_metadata ''phone'' a CHR ''b''))\<rparr>,
      \<lparr>ce_name = ''.trash'', ce_is_directory = True, ce_metadata = Inl OSError\<rparr>,
      \<lparr>ce_name = ''laptop'', ce_is_directory = True, ce_metadata = Inr (JObj (sample_metadata ''laptop'' b CHR ''c''))\<rparr>]"

definition no_files :: key_files where
  "no_files name file = Inl OSError"

lemma sample_normal:
  "normalize_client_metadata (JObj (sample_metadata ''phone'' a CHR ''b'')) = Inr (sample_metadata ''phone'' a CHR ''b'')"
  "normalize_client_metadata (JObj (sample_metadata ''laptop'' a CHR ''c'')) = Inr (sample_metadata ''laptop'' a CHR ''c'')"
  by code_simp+

lemma sample_get:
  "get (sample_metadata n a k) ''name'' = JStr n" "get (sample_metadata n a k) ''status'' = JStr ''active''"
  "get (sample_metadata n a k) ''management'' = JStr ''managed''" "get (sample_metadata n a k) ''expires'' = JNull"
  "map_of (sample_metadata n a k) ''public_key'' = Some (JStr (sample_key k))"
  "item (sample_metadata n a k) ''address'' = Inr (JStr a)"
  by (simp_all add: sample_metadata_def migrated_client_def)

definition sample_loaded :: "string \<Rightarrow> string \<Rightarrow> char \<Rightarrow> loaded_client" where
  "sample_loaded n a k =
     \<lparr>ld_client = \<lparr>cl_name = n, cl_public_key = sample_key k, cl_address = a, cl_status = ''active'',
        cl_expires = None, cl_psk = None\<rparr>,
      ld_management = ''managed'', ld_private_key = None, ld_metadata = sample_metadata n a k\<rparr>"

lemma sample_load:
  assumes "ip_interface a = Some (I4 (h, 32))"
  shows "load_client no_files False ''phone'' (Inr (JObj (sample_metadata ''phone'' a CHR ''b'')))
      = Inr (sample_loaded ''phone'' a CHR ''b'')"
    and "load_client no_files False ''laptop'' (Inr (JObj (sample_metadata ''laptop'' a CHR ''c'')))
      = Inr (sample_loaded ''laptop'' a CHR ''c'')"
proof -
  have n: "validate_client_name (JStr ''phone'') = Inr ''phone''"
    "validate_client_name (JStr ''laptop'') = Inr ''laptop''" by code_simp+
  show "load_client no_files False ''phone'' (Inr (JObj (sample_metadata ''phone'' a CHR ''b'')))
      = Inr (sample_loaded ''phone'' a CHR ''b'')"
    by (simp add: load_client_def checked_metadata_def n sample_normal sample_get except_map_def in_strs_def
        sample_keys client_address_def assms host_route_def sample_loaded_def)
  show "load_client no_files False ''laptop'' (Inr (JObj (sample_metadata ''laptop'' a CHR ''c'')))
      = Inr (sample_loaded ''laptop'' a CHR ''c'')"
    by (simp add: load_client_def checked_metadata_def n sample_normal sample_get except_map_def in_strs_def
        sample_keys client_address_def assms host_route_def sample_loaded_def)
qed

lemma sample_addresses:
  "ip_interface ''10.0.0.9/32'' = Some (I4 (167772169, 32))" "ip_interface ''10.0.0.2/32'' = Some (I4 (167772162, 32))"
  "ip_interface ''10.0.0.2'' = Some (I4 (167772162, 32))"
  by code_simp+

lemma sample_key_neq: "sample_key CHR ''b'' \<noteq> sample_key CHR ''c''"
  by code_simp

lemma sample_loading:
  assumes "ip_interface a = Some (I4 (g, 32))" and "ip_interface b = Some (I4 (h, 32))" and "a \<noteq> b"
  shows "load_clients no_files (sample_entries a b) False
    = Inr (sort_key (\<lambda>c. address_number (cl_address (ld_client c)))
        [sample_loaded ''phone'' a CHR ''b'', sample_loaded ''laptop'' b CHR ''c''])"
proof -
  let ?rs = "[sample_loaded ''phone'' a CHR ''b'', sample_loaded ''laptop'' b CHR ''c'']"
  have "result_list (\<lambda>e. load_client no_files False (ce_name e) (ce_metadata e))
      (filter visible_entry (sample_entries a b)) = Inr ?rs"
    using sample_load assms by (simp add: sample_entries_def visible_entry_def)
  moreover have "find_duplicate_client_state (map ld_client
      (sort_key (\<lambda>c. address_number (cl_address (ld_client c))) ?rs)) = []"
    using assms(3) sample_key_neq unfolding find_duplicate_none by (auto simp: sample_loaded_def)
  ultimately show ?thesis by (simp only: load_clients_def andthen.simps Let_def simp_thms if_False)
qed

theorem load_clients_consistent_witness:
  "\<exists>cs. load_clients no_files (sample_entries ''10.0.0.9/32'' ''10.0.0.2/32'') False = Inr cs
    \<and> mset (map (\<lambda>c. cl_name (ld_client c)) cs) = {#''phone'', ''laptop''#} \<and> list_all (loaded_ok False) cs"
proof -
  note l = sample_loading [OF sample_addresses(1,2)]
  from load_clients_consistent [OF l] l show ?thesis
    by (simp add: sample_entries_def visible_entry_def)
qed

text \<open>
  The comparison is on the address text: two records of the same host, one written with its
  prefix and one without, are both loaded.
\<close>

lemma same_host_loaded_twice:
  "\<exists>cs. load_clients no_files (sample_entries ''10.0.0.2/32'' ''10.0.0.2'') False = Inr cs
    \<and> map (\<lambda>c. ip_interface (cl_address (ld_client c))) cs = [Some (I4 (167772162, 32)), Some (I4 (167772162, 32))]"
proof -
  note l = sample_loading [OF sample_addresses(2,3)]
  have n: "address_number ''10.0.0.2/32'' = 167772162" "address_number ''10.0.0.2'' = 167772162"
    by (simp_all add: address_number_def sample_addresses)
  show ?thesis using l by (simp add: sample_loaded_def sample_addresses n)
qed

section \<open>The activation window\<close>

lemma eligible_iff:
  "eligible t c \<longleftrightarrow> cl_status c = ''active''
    \<and> (\<forall>e. cl_expires c = Some e \<longrightarrow> (\<exists>day. parse_date e = Some day \<and> t < day * day_us))"
  by (auto simp: eligible_def split: option.splits)

lemma check_window_eligible:
  assumes "check_window now deadline installed c = Inr ()" and "ld_management c = ''managed''"
    and "eligible now (ld_client c)" and "t \<le> deadline"
  shows "eligible t (ld_client c)"
proof (cases "cl_expires (ld_client c)")
  case None
  then show ?thesis using assms(3) by (simp add: eligible_iff)
next
  case (Some e)
  with assms(3) obtain day where d: "parse_date e = Some day" by (auto simp: eligible_iff)
  have "client_is_server_eligible (ld_client c) now = Inr True" using assms(3) by (simp add: eligible_decides)
  with assms(1,2) Some d have "deadline < day * day_us"
    by (auto simp: check_window_def Let_def split: if_splits)
  then show ?thesis using assms(3,4) Some d by (auto simp: eligible_iff)
qed

text \<open>
  A checked activation window keeps the set of peers: every managed client that is eligible
  when the window is checked is eligible at every later instant up to the rollback deadline, so the
  rollback cannot find a peer that expired meanwhile; and no managed client whose key is installed
  has already expired.
\<close>

theorem ensure_activation_window_stable:
  assumes "ensure_activation_window clients now deadline installed = Inr ()"
    and "c \<in> set clients" and "ld_management c = ''managed''"
  shows "now < deadline
    \<and> (eligible now (ld_client c) \<longrightarrow> (\<forall>t. t \<le> deadline \<longrightarrow> eligible t (ld_client c)))
    \<and> (\<forall>keys e day. installed = Some keys \<and> cl_public_key (ld_client c) \<in> set keys
        \<and> cl_expires (ld_client c) = Some e \<and> parse_date e = Some day \<longrightarrow> deadline < day * day_us)"
proof -
  have w: "now < deadline" and l: "\<exists>us. result_list (check_window now deadline installed) clients = Inr us"
    using assms(1) by (auto simp: ensure_activation_window_def result_simps split: if_splits)
  then have c: "check_window now deadline installed c = Inr ()"
    using result_list_all assms(2) by fastforce
  have "deadline < day * day_us"
    if "installed = Some keys" "cl_public_key (ld_client c) \<in> set keys"
      "cl_expires (ld_client c) = Some e" "parse_date e = Some day" for keys e day
    using c that assms(3) by (auto simp: check_window_def Let_def result_simps split: if_splits)
  then show ?thesis using w check_window_eligible [OF c assms(3)] by blast
qed

theorem ensure_activation_window_stable_witness:
  "eligible (sample_now + 1) (sample_client ''alice'' ''2030-01-01'')"
proof -
  let ?c = "\<lparr>ld_client = sample_client ''alice'' ''2030-01-01'', ld_management = ''managed'',
    ld_private_key = None, ld_metadata = []\<rparr>"
  have w: "ensure_activation_window [?c] sample_now (sample_now + 1) (Some [sample_key CHR ''c'']) = Inr ()"
    by code_simp
  from ensure_activation_window_stable [OF w, of ?c] sample_eligible(1)
  show ?thesis by simp
qed

section \<open>The chosen port\<close>

lemma try_port_Some:
  assumes "try_port current managed listening bindable sample = Inr (Some p)"
  shows "1024 \<le> p \<and> p \<le> 9999 \<and> p \<noteq> current \<and> p \<notin> set managed \<and> listening p = Inr False \<and> bindable p
    \<and> sample = JInt (p - 1024)"
  using assms
  by (auto simp: try_port_def result_simps rejection_limit_def port_population_def
      split: json.split_asm if_splits)

lemma port_rounds_Inr:
  "port_rounds current managed listening bindable samples n = Inr p \<Longrightarrow>
     \<exists>i<n. try_port current managed listening bindable (samples i) = Inr (Some p)
       \<and> (\<forall>j<i. try_port current managed listening bindable (samples j) = Inr None)"
proof (induction n arbitrary: samples)
  case 0
  then show ?case by simp
next
  case (Suc n)
  then obtain r where r: "try_port current managed listening bindable (samples 0) = Inr r"
    by (auto simp: result_simps)
  show ?case
  proof (cases r)
    case None
    with Suc.prems r have "port_rounds current managed listening bindable (\<lambda>i. samples (Suc i)) n = Inr p" by simp
    from Suc.IH [OF this] obtain i where "i < n"
      "try_port current managed listening bindable (samples (Suc i)) = Inr (Some p)"
      "\<forall>j<i. try_port current managed listening bindable (samples (Suc j)) = Inr None" by blast
    then show ?thesis using r None by (intro exI [of _ "Suc i"]) (auto simp: less_Suc_eq_0_disj)
  next
    case (Some q)
    with Suc.prems r have "q = p" by simp
    with r Some show ?thesis by (intro exI [of _ 0]) simp
  qed
qed

text \<open>
  A selected port is in the managed range, differs from the current one and from every managed
  one, is not listened on and can be bound; it is the first usable sample of at most 4096, and each
  port of the range comes from exactly one sample, so no port is favoured.
\<close>

theorem select_transition_port_free:
  assumes "select_transition_port current managed listening bindable samples = Inr p"
  shows "1024 \<le> p \<and> p \<le> 9999 \<and> JInt p \<noteq> current \<and> JInt p \<notin> set managed
    \<and> listening p = Inr False \<and> bindable p
    \<and> (\<exists>i<4096. samples i = JInt (p - 1024)
        \<and> (\<forall>j<i. \<exists>d. samples j = JInt d \<and> 0 \<le> d \<and> d < 2 ^ 14 \<and> d \<noteq> p - 1024))"
proof -
  obtain c where c: "current = JInt c"
    and m: "\<forall>q\<in>set managed. \<exists>n. q = JInt n"
    and r: "port_rounds c (map (\<lambda>q. the (as_int q)) managed) listening bindable samples 4096 = Inr p"
    using assms unfolding select_transition_port_def
    by (auto simp: list_ex_iff split: option.split_asm if_splits)
  let ?attempt = "try_port c (map (\<lambda>q. the (as_int q)) managed) listening bindable"
  obtain i where i: "i < 4096" "?attempt (samples i) = Inr (Some p)" "\<forall>j<i. ?attempt (samples j) = Inr None"
    using port_rounds_Inr [OF r] by blast
  note p = try_port_Some [OF i(2)]
  have "\<exists>d. samples j = JInt d \<and> 0 \<le> d \<and> d < 2 ^ 14 \<and> d \<noteq> p - 1024" if "j < i" for j
  proof -
    have j: "?attempt (samples j) = Inr None" using i(3) that by simp
    then have "samples j \<noteq> samples i" using i(2) by auto
    with j p show ?thesis by (auto simp: try_port_def split: json.split_asm if_splits)
  qed
  moreover have "JInt p \<notin> set managed" using p by (force simp: image_iff)
  ultimately show ?thesis using p c i(1) by blast
qed

theorem select_transition_port_free_witness:
  "select_transition_port (JInt 51820) [JInt 1026] (\<lambda>p. Inr (p = 1027)) (\<lambda>p. True)
      (\<lambda>i. JInt ([9000, 2, 3, 4] ! i)) = Inr 1028
   \<and> JInt 1028 \<notin> set [JInt 1026]"
proof -
  have e: "select_transition_port (JInt 51820) [JInt 1026] (\<lambda>p. Inr (p = 1027)) (\<lambda>p. True)
      (\<lambda>i. JInt ([9000, 2, 3, 4] ! i)) = Inr 1028"
    by (simp add: select_transition_port_def numeral_eq_Suc try_port_def rejection_limit_def
        port_population_def)
  from select_transition_port_free [OF e] e show ?thesis by blast
qed

end
