(* ===== verification/Firewall.thy ===== *)
theory Firewall
  imports Clients
begin

text \<open>
  The packet filter of \<^verbatim>\<open>src/awgctl/core.py\<close>: the nftables text that is applied, the
  entities the verifier expects in \<open>nft -j list ruleset\<close>, the normalisation of listed entities
  and the postcondition of the \<open>up\<close> and \<open>down\<close> actions. The text and the expected entities are
  literal translations; both are shown to be renderings of one rule list, whose effect on a
  packet is defined here. The output of \<open>nft\<close> is an argument.
\<close>

section \<open>The text that is applied\<close>

text \<open>A text in double quotes.\<close>

definition quoted :: "string \<Rightarrow> string" where
  "quoted s = CHR 0x22 # s @ [CHR 0x22]"

definition render_nftables_config :: "server_config \<Rightarrow> string" where
  "render_nftables_config cfg =
     (let i = cfg_interface cfg; x = cfg_external_interface cfg; subnet = cfg_subnet cfg;
          blocked = join '', '' (cfg_blocked cfg)
      in ''table ip amneziawg_forward {\<newline>''
       @ ''  chain forward {\<newline>''
       @ ''    type filter hook forward priority filter - 10; policy accept;\<newline>''
       @ ''    iifname '' @ quoted x @ '' oifname '' @ quoted i @ '' ip daddr '' @ subnet
         @ '' ct state established,related counter accept comment '' @ quoted ''awgctl-return-is-established-only'' @ ''\<newline>''
       @ ''    oifname '' @ quoted i @ '' counter drop comment '' @ quoted ''awgctl-block-non-return-to-tunnel'' @ ''\<newline>''
       @ ''    iifname '' @ quoted i @ '' ip saddr != '' @ subnet
         @ '' counter drop comment '' @ quoted ''awgctl-block-spoofed-tunnel-source'' @ ''\<newline>''
       @ ''    iifname '' @ quoted i @ '' ip daddr { '' @ blocked
         @ '' } counter drop comment '' @ quoted ''awgctl-block-private-reserved-destinations'' @ ''\<newline>''
       @ ''    iifname '' @ quoted i @ '' oifname != '' @ quoted x
         @ '' counter drop comment '' @ quoted ''awgctl-block-lateral-forwarding'' @ ''\<newline>''
       @ ''    iifname '' @ quoted i @ '' ip saddr '' @ subnet @ '' oifname '' @ quoted x
         @ '' counter accept comment '' @ quoted ''awgctl-allow-public-internet'' @ ''\<newline>''
       @ ''    iifname '' @ quoted i @ '' counter drop comment '' @ quoted ''awgctl-default-tunnel-forward-drop'' @ ''\<newline>''
       @ ''  }\<newline>}\<newline>\<newline>''
       @ ''table ip amneziawg_nat {\<newline>''
       @ ''  chain postrouting {\<newline>''
       @ ''    type nat hook postrouting priority srcnat + 10; policy accept;\<newline>''
       @ ''    ip saddr '' @ subnet @ '' oifname '' @ quoted x
         @ '' counter masquerade comment '' @ quoted ''awgctl-tunnel-masquerade'' @ ''\<newline>''
       @ ''  }\<newline>}\<newline>'')"

definition docker_integration_text :: "server_config \<Rightarrow> string" where
  "docker_integration_text cfg =
     (let i = cfg_interface cfg; x = cfg_external_interface cfg; subnet = cfg_subnet cfg
      in ''insert rule ip filter DOCKER-USER iifname '' @ quoted i
         @ '' counter drop comment '' @ quoted ''awgctl-default-tunnel-forward-drop'' @ ''\<newline>''
       @ ''insert rule ip filter DOCKER-USER iifname '' @ quoted x @ '' oifname '' @ quoted i
         @ '' ip daddr '' @ subnet
         @ '' ct state established,related counter accept comment '' @ quoted ''awgctl-established-return'' @ ''\<newline>''
       @ ''insert rule ip filter DOCKER-USER iifname '' @ quoted i @ '' oifname '' @ quoted x
         @ '' ip saddr '' @ subnet @ '' counter accept comment '' @ quoted ''awgctl-public-egress'' @ ''\<newline>'')"

section \<open>Collapsing networks\<close>

text \<open>
  \<open>ipaddress.collapse_addresses\<close>: two halves of a network are merged until none are left, then
  networks inside another are skipped. The work list is a stack; the halves seen so far are keyed
  by their supernet.
\<close>

definition supernet :: "ipnet \<Rightarrow> ipnet" where
  "supernet n = (if snd n = 0 then n else (net_base (fst n) (snd n - 1), snd n - 1))"

lemma length_delete_present: "map_of d k = Some v \<Longrightarrow> length (AList.delete k d) < length d"
  by (auto simp: AList.delete_eq dest!: map_of_SomeD intro!: length_filter_less)

function merge_nets :: "ipnet list \<Rightarrow> (ipnet \<times> ipnet) list \<Rightarrow> (ipnet \<times> ipnet) list" where
  "merge_nets [] d = d"
| "merge_nets (n # ns) d =
     (case map_of d (supernet n) of
        None \<Rightarrow> merge_nets ns (AList.update (supernet n) n d)
      | Some e \<Rightarrow>
          if e = n then merge_nets ns d
          else merge_nets (supernet n # ns) (AList.delete (supernet n) d))"
  by pat_completeness auto
termination
proof (relation "measure (\<lambda>(ns, d). 2 * length ns + length d)")
  fix n :: ipnet and ns and d :: "(ipnet \<times> ipnet) list"
  assume "map_of d (supernet n) = None"
  then have "length (AList.update (supernet n) n d) = Suc (length d)"
    by (induction d) (auto split: if_splits)
  then show "((ns, AList.update (supernet n) n d), (n # ns, d)) \<in> measure (\<lambda>(ns, d). 2 * length ns + length d)"
    by simp
qed (auto dest: length_delete_present)

definition broadcast :: "ipnet \<Rightarrow> int" where
  "broadcast n = fst n + net_size (snd n) - 1"

fun skip_inner :: "ipnet option \<Rightarrow> ipnet list \<Rightarrow> ipnet list" where
  "skip_inner previous [] = []"
| "skip_inner None (n # ns) = n # skip_inner (Some n) ns"
| "skip_inner (Some l) (n # ns) =
     (if broadcast l \<ge> broadcast n then skip_inner (Some l) ns else n # skip_inner (Some n) ns)"

definition collapse_addresses :: "ipnet list \<Rightarrow> ipnet list" where
  "collapse_addresses nets = skip_inner None (sort (map snd (merge_nets (rev nets) [])))"

section \<open>The expected entities\<close>

definition nft_error :: error where
  "nft_error = AwgctlError ''cannot verify firewall lifecycle state''"

definition prefix_json :: "ipnet \<Rightarrow> json" where
  "prefix_json n =
     JObj [(''prefix'', JObj [(''addr'', JStr (ipv4_text (fst n))), (''len'', JInt (int (snd n)))])]"

definition nft_prefix :: "string \<Rightarrow> json result" where
  "nft_prefix network =
     andthen (or_raise (ip_network network) ValueError) (\<lambda>v.
       case v of I4 n \<Rightarrow> Inr (prefix_json n) | I6 n \<Rightarrow> Inl nft_error)"

definition nft_match :: "json \<Rightarrow> json \<Rightarrow> string \<Rightarrow> json" where
  "nft_match left right op =
     JObj [(''match'', JObj [(''op'', JStr op), (''left'', left), (''right'', right)])]"

definition nft_meta :: "string \<Rightarrow> json" where
  "nft_meta key = JObj [(''meta'', JObj [(''key'', JStr key)])]"

definition nft_payload :: "string \<Rightarrow> json" where
  "nft_payload field = JObj [(''payload'', JObj [(''protocol'', JStr ''ip''), (''field'', JStr field)])]"

definition nft_state :: json where
  "nft_state = JObj [(''ct'', JObj [(''key'', JStr ''state'')])]"

definition nft_counter :: json where
  "nft_counter = JObj [(''counter'', JObj [])]"

definition nft_verdict :: "string \<Rightarrow> json" where
  "nft_verdict v = JObj [(v, JNull)]"

definition nft_rule :: "string \<Rightarrow> string \<Rightarrow> string \<Rightarrow> json list \<Rightarrow> json" where
  "nft_rule table chain comment expressions =
     JObj [(''rule'', JObj [(''family'', JStr ''ip''), (''table'', JStr table), (''chain'', JStr chain),
       (''expr'', JList expressions), (''comment'', JStr comment)])]"

definition nft_table :: "string \<Rightarrow> json" where
  "nft_table name = JObj [(''table'', JObj [(''family'', JStr ''ip''), (''name'', JStr name)])]"

definition nft_chain :: "string \<Rightarrow> string \<Rightarrow> string \<Rightarrow> string \<Rightarrow> int \<Rightarrow> json" where
  "nft_chain table name kind hook prio =
     JObj [(''chain'', JObj [(''family'', JStr ''ip''), (''table'', JStr table), (''name'', JStr name),
       (''type'', JStr kind), (''hook'', JStr hook), (''prio'', JInt prio), (''policy'', JStr ''accept'')])]"

definition managed_entities :: "string \<Rightarrow> string \<Rightarrow> json \<Rightarrow> json \<Rightarrow> json list" where
  "managed_entities interface external subnet blocked =
     [nft_table ''amneziawg_forward'',
      nft_chain ''amneziawg_forward'' ''forward'' ''filter'' ''forward'' (-10),
      nft_rule ''amneziawg_forward'' ''forward'' ''awgctl-return-is-established-only''
        [nft_match (nft_meta ''iifname'') (JStr external) ''=='',
         nft_match (nft_meta ''oifname'') (JStr interface) ''=='',
         nft_match (nft_payload ''daddr'') subnet ''=='',
         nft_match nft_state (JList [JStr ''established'', JStr ''related'']) ''in'',
         nft_counter, nft_verdict ''accept''],
      nft_rule ''amneziawg_forward'' ''forward'' ''awgctl-block-non-return-to-tunnel''
        [nft_match (nft_meta ''oifname'') (JStr interface) ''=='', nft_counter, nft_verdict ''drop''],
      nft_rule ''amneziawg_forward'' ''forward'' ''awgctl-block-spoofed-tunnel-source''
        [nft_match (nft_meta ''iifname'') (JStr interface) ''=='',
         nft_match (nft_payload ''saddr'') subnet ''!='', nft_counter, nft_verdict ''drop''],
      nft_rule ''amneziawg_forward'' ''forward'' ''awgctl-block-private-reserved-destinations''
        [nft_match (nft_meta ''iifname'') (JStr interface) ''=='',
         nft_match (nft_payload ''daddr'') blocked ''=='', nft_counter, nft_verdict ''drop''],
      nft_rule ''amneziawg_forward'' ''forward'' ''awgctl-block-lateral-forwarding''
        [nft_match (nft_meta ''iifname'') (JStr interface) ''=='',
         nft_match (nft_meta ''oifname'') (JStr external) ''!='', nft_counter, nft_verdict ''drop''],
      nft_rule ''amneziawg_forward'' ''forward'' ''awgctl-allow-public-internet''
        [nft_match (nft_meta ''iifname'') (JStr interface) ''=='',
         nft_match (nft_payload ''saddr'') subnet ''=='',
         nft_match (nft_meta ''oifname'') (JStr external) ''=='', nft_counter, nft_verdict ''accept''],
      nft_rule ''amneziawg_forward'' ''forward'' ''awgctl-default-tunnel-forward-drop''
        [nft_match (nft_meta ''iifname'') (JStr interface) ''=='', nft_counter, nft_verdict ''drop''],
      nft_table ''amneziawg_nat'',
      nft_chain ''amneziawg_nat'' ''postrouting'' ''nat'' ''postrouting'' 110,
      nft_rule ''amneziawg_nat'' ''postrouting'' ''awgctl-tunnel-masquerade''
        [nft_match (nft_payload ''saddr'') subnet ''=='',
         nft_match (nft_meta ''oifname'') (JStr external) ''=='', nft_counter, nft_verdict ''masquerade'']]"

definition docker_entities :: "string \<Rightarrow> string \<Rightarrow> json \<Rightarrow> json list" where
  "docker_entities interface external subnet =
     [nft_rule ''filter'' ''DOCKER-USER'' ''awgctl-public-egress''
        [nft_match (nft_meta ''iifname'') (JStr interface) ''=='',
         nft_match (nft_meta ''oifname'') (JStr external) ''=='',
         nft_match (nft_payload ''saddr'') subnet ''=='', nft_counter, nft_verdict ''accept''],
      nft_rule ''filter'' ''DOCKER-USER'' ''awgctl-established-return''
        [nft_match (nft_meta ''iifname'') (JStr external) ''=='',
         nft_match (nft_meta ''oifname'') (JStr interface) ''=='',
         nft_match (nft_payload ''daddr'') subnet ''=='',
         nft_match nft_state (JList [JStr ''established'', JStr ''related'']) ''in'',
         nft_counter, nft_verdict ''accept''],
      nft_rule ''filter'' ''DOCKER-USER'' ''awgctl-default-tunnel-forward-drop''
        [nft_match (nft_meta ''iifname'') (JStr interface) ''=='', nft_counter, nft_verdict ''drop'']]"

definition ipv4_network :: "string \<Rightarrow> ipnet result" where
  "ipv4_network s =
     andthen (or_raise (ip_network s) ValueError) (\<lambda>v. case v of I4 n \<Rightarrow> Inr n | I6 n \<Rightarrow> Inl TypeError)"

definition expected_managed_firewall_entities ::
  "server_config \<Rightarrow> bool \<Rightarrow> (json list \<times> json list) result" where
  "expected_managed_firewall_entities config docker_chain =
     andthen (normalize_server_config (server_config_json config)) (\<lambda>cfg.
     andthen (nft_prefix (cfg_subnet cfg)) (\<lambda>subnet.
     andthen (result_list ipv4_network (cfg_blocked cfg)) (\<lambda>nets.
     andthen (result_list (\<lambda>n. nft_prefix (net_text n)) (collapse_addresses nets)) (\<lambda>prefixes.
     let blocked = JObj [(''set'', JList prefixes)];
         i = cfg_interface cfg; x = cfg_external_interface cfg
     in Inr (managed_entities i x subnet blocked,
             if docker_chain then docker_entities i x subnet else [])))))"

section \<open>Entities of a listing\<close>

definition entity_kinds :: "string list" where
  "entity_kinds =
     [''table'', ''chain'', ''rule'', ''set'', ''map'', ''element'', ''flowtable'', ''counter'', ''quota'',
      ''ct helper'', ''limit'', ''ct timeout'', ''ct expectation'', ''metainfo'']"

definition natural :: "json \<Rightarrow> bool" where
  "natural v \<longleftrightarrow> (case v of JInt n \<Rightarrow> 0 \<le> n | _ \<Rightarrow> False)"

definition normalize_expression :: "json \<Rightarrow> json result" where
  "normalize_expression v =
     (case v of
        JObj [(k, c)] \<Rightarrow>
          if k = ''counter'' then
            (case c of
               JObj m \<Rightarrow>
                 if keys_are m [''packets'', ''bytes''] \<and> natural (get m ''packets'') \<and> natural (get m ''bytes'')
                 then Inr (JObj [(''counter'', JObj [])]) else Inl nft_error
             | _ \<Rightarrow> Inl nft_error)
          else Inr v
      | _ \<Rightarrow> Inl nft_error)"

definition normalize_nft_entity :: "json \<Rightarrow> (string \<times> obj) result" where
  "normalize_nft_entity v =
     (case v of
        JObj [(kind, JObj supplied)] \<Rightarrow>
          if kind \<notin> set entity_kinds then Inl nft_error
          else let handle = get supplied ''handle''; entity = AList.delete ''handle'' supplied
               in if handle \<noteq> JNull \<and> \<not> natural handle then Inl nft_error
                  else if kind = ''rule'' then
                    (case get entity ''expr'' of
                       JList es \<Rightarrow> andthen (result_list normalize_expression es) (\<lambda>es.
                         Inr (kind, put entity ''expr'' (JList es)))
                     | _ \<Rightarrow> Inl nft_error)
                  else Inr (kind, entity)
      | _ \<Rightarrow> Inl nft_error)"

definition firewall_marker :: "json \<Rightarrow> bool" where
  "firewall_marker v \<longleftrightarrow>
     (case v of
        JStr s \<Rightarrow> starts_with ''awgctl-'' s
          \<or> s \<in> {''amneziawg-awg0-egress'', ''amneziawg-awg0-return'', ''amneziawg-awg0-no-lateral-forwarding''}
      | _ \<Rightarrow> False)"

definition managed_tables :: "string list" where
  "managed_tables = [''amneziawg_forward'', ''amneziawg_nat'']"

text \<open>One listed entity: the managed entities, the marked Docker rules and the Docker chains so far.\<close>

definition sort_entity ::
  "json \<Rightarrow> json list \<times> json list \<times> nat \<Rightarrow> (json list \<times> json list \<times> nat) result" where
  "sort_entity v acc =
     (case acc of (managed, docker, hooks) \<Rightarrow>
     andthen (normalize_nft_entity v) (\<lambda>(kind, entity).
     if kind = ''metainfo'' then Inr acc else
     let family = get entity ''family''; table = get entity ''table''; name = get entity ''name'';
         whole = JObj [(kind, JObj entity)];
         docker_user = (family = JStr ''ip'' \<and> table = JStr ''filter'')
     in andthen (if kind = ''table'' then in_strs name managed_tables else Inr False) (\<lambda>own.
     if own then Inr (managed @ [whole], docker, hooks) else
     andthen (in_strs table managed_tables) (\<lambda>inside.
     if inside then Inr (managed @ [whole], docker, hooks)
     else if kind = ''chain'' \<and> docker_user \<and> name = JStr ''DOCKER-USER''
     then Inr (managed, docker, Suc hooks)
     else if kind = ''rule'' \<and> docker_user \<and> get entity ''chain'' = JStr ''DOCKER-USER''
         \<and> firewall_marker (get entity ''comment'')
     then Inr (managed, docker @ [whole], hooks)
     else Inr acc))))"

primrec sort_entities ::
  "json list \<Rightarrow> json list \<times> json list \<times> nat \<Rightarrow> (json list \<times> json list \<times> nat) result" where
  "sort_entities [] acc = Inr acc"
| "sort_entities (v # vs) acc = andthen (sort_entity v acc) (sort_entities vs)"

definition ruleset_values :: "json result \<Rightarrow> json list result" where
  "ruleset_values output =
     andthen output (\<lambda>document.
       case document of
         JObj m \<Rightarrow>
           if keys_are m [''nftables'']
           then or_raise (as_list (get m ''nftables'')) ValueError else Inl ValueError
       | _ \<Rightarrow> Inl ValueError)"

definition listing_error :: "error \<Rightarrow> bool" where
  "listing_error e \<longleftrightarrow> e = AttributeError \<or> e = TypeError \<or> key_or_value_error e"

text \<open>The exit status of \<open>nft\<close>, its parsed output, and the managed configuration.\<close>

definition firewall_action_postcondition ::
  "string \<Rightarrow> int \<Rightarrow> json result \<Rightarrow> server_config result \<Rightarrow> bool result" where
  "firewall_action_postcondition action status output config =
     (if action \<notin> {''up'', ''down''} then Inl (AwgctlError ''invalid firewall hook action'')
      else if status \<noteq> 0 then Inl nft_error
      else
        andthen (except_as listing_error nft_error
          (andthen (ruleset_values output) (\<lambda>vs. sort_entities vs ([], [], 0)))) (\<lambda>(managed, docker, hooks).
        if hooks > 1 then Inr False
        else if action = ''down'' then Inr (managed = [] \<and> docker = [])
        else andthen config (\<lambda>cfg.
          andthen (expected_managed_firewall_entities cfg (hooks = 1)) (\<lambda>(expected_managed, expected_docker).
          Inr (eq_items managed expected_managed \<and> eq_items docker expected_docker)))))"

section \<open>The rules behind both renderings\<close>

datatype rule_field = IifName | OifName | Saddr | Daddr | CtState

datatype 'n operand = Name string | Net 'n | Nets "'n list" | Established

record 'n rule =
  fr_table :: string
  fr_chain :: string
  fr_comment :: string
  fr_matches :: "(rule_field \<times> bool \<times> 'n operand) list"
  fr_verdict :: string

definition forward_rule :: "string \<Rightarrow> (rule_field \<times> bool \<times> 'n operand) list \<Rightarrow> string \<Rightarrow> 'n rule" where
  "forward_rule comment matches verdict =
     \<lparr>fr_table = ''amneziawg_forward'', fr_chain = ''forward'', fr_comment = comment,
      fr_matches = matches, fr_verdict = verdict\<rparr>"

definition forward_rules :: "string \<Rightarrow> string \<Rightarrow> 'n \<Rightarrow> 'n list \<Rightarrow> 'n rule list" where
  "forward_rules i x net nets =
     [forward_rule ''awgctl-return-is-established-only''
        [(IifName, True, Name x), (OifName, True, Name i), (Daddr, True, Net net), (CtState, True, Established)]
        ''accept'',
      forward_rule ''awgctl-block-non-return-to-tunnel'' [(OifName, True, Name i)] ''drop'',
      forward_rule ''awgctl-block-spoofed-tunnel-source'' [(IifName, True, Name i), (Saddr, False, Net net)] ''drop'',
      forward_rule ''awgctl-block-private-reserved-destinations''
        [(IifName, True, Name i), (Daddr, True, Nets nets)] ''drop'',
      forward_rule ''awgctl-block-lateral-forwarding'' [(IifName, True, Name i), (OifName, False, Name x)] ''drop'',
      forward_rule ''awgctl-allow-public-internet''
        [(IifName, True, Name i), (Saddr, True, Net net), (OifName, True, Name x)] ''accept'',
      forward_rule ''awgctl-default-tunnel-forward-drop'' [(IifName, True, Name i)] ''drop'']"

definition nat_rules :: "string \<Rightarrow> 'n \<Rightarrow> 'n rule list" where
  "nat_rules x net =
     [\<lparr>fr_table = ''amneziawg_nat'', fr_chain = ''postrouting'', fr_comment = ''awgctl-tunnel-masquerade'',
       fr_matches = [(Saddr, True, Net net), (OifName, True, Name x)], fr_verdict = ''masquerade''\<rparr>]"

definition docker_rules :: "string \<Rightarrow> string \<Rightarrow> 'n \<Rightarrow> 'n rule list" where
  "docker_rules i x net =
     map (\<lambda>(comment, matches, verdict). \<lparr>fr_table = ''filter'', fr_chain = ''DOCKER-USER'',
           fr_comment = comment, fr_matches = matches, fr_verdict = verdict\<rparr>)
       [(''awgctl-public-egress'', [(IifName, True, Name i), (OifName, True, Name x), (Saddr, True, Net net)], ''accept''),
        (''awgctl-established-return'',
          [(IifName, True, Name x), (OifName, True, Name i), (Daddr, True, Net net), (CtState, True, Established)],
          ''accept''),
        (''awgctl-default-tunnel-forward-drop'', [(IifName, True, Name i)], ''drop'')]"

text \<open>As nftables source text.\<close>

fun field_text :: "rule_field \<Rightarrow> string" where
  "field_text IifName = ''iifname''"
| "field_text OifName = ''oifname''"
| "field_text Saddr = ''ip saddr''"
| "field_text Daddr = ''ip daddr''"
| "field_text CtState = ''ct state''"

fun operand_text :: "string operand \<Rightarrow> string" where
  "operand_text (Name n) = quoted n"
| "operand_text (Net n) = n"
| "operand_text (Nets ns) = ''{ '' @ join '', '' ns @ '' }''"
| "operand_text Established = ''established,related''"

definition rule_text :: "string rule \<Rightarrow> string" where
  "rule_text r =
     concat (map (\<lambda>(f, eq, v). field_text f @ (if eq then '' '' else '' != '') @ operand_text v @ '' '') (fr_matches r))
     @ ''counter '' @ fr_verdict r @ '' comment '' @ quoted (fr_comment r) @ ''\<newline>''"

definition chain_text :: "string \<Rightarrow> string \<Rightarrow> string \<Rightarrow> string rule list \<Rightarrow> string" where
  "chain_text table name hook rules =
     ''table ip '' @ table @ '' {\<newline>  chain '' @ name @ '' {\<newline>    type '' @ hook @ ''; policy accept;\<newline>''
     @ concat (map (\<lambda>r. ''    '' @ rule_text r) rules) @ ''  }\<newline>}\<newline>''"

text \<open>As entities of a listing.\<close>

fun field_json :: "rule_field \<Rightarrow> json" where
  "field_json IifName = nft_meta ''iifname''"
| "field_json OifName = nft_meta ''oifname''"
| "field_json Saddr = nft_payload ''saddr''"
| "field_json Daddr = nft_payload ''daddr''"
| "field_json CtState = nft_state"

fun operand_json :: "ipnet operand \<Rightarrow> json" where
  "operand_json (Name n) = JStr n"
| "operand_json (Net n) = prefix_json n"
| "operand_json (Nets ns) = JObj [(''set'', JList (map prefix_json ns))]"
| "operand_json Established = JList [JStr ''established'', JStr ''related'']"

definition match_json :: "rule_field \<times> bool \<times> ipnet operand \<Rightarrow> json" where
  "match_json m = (case m of (f, eq, v) \<Rightarrow>
     nft_match (field_json f) (operand_json v)
       (if \<not> eq then ''!='' else if f = CtState then ''in'' else ''==''))"

definition rule_entity :: "ipnet rule \<Rightarrow> json" where
  "rule_entity r =
     nft_rule (fr_table r) (fr_chain r) (fr_comment r)
       (map match_json (fr_matches r) @ [nft_counter, nft_verdict (fr_verdict r)])"

lemmas rule_defs = forward_rules_def forward_rule_def nat_rules_def docker_rules_def

lemma render_text_rules:
  "render_nftables_config cfg =
     chain_text ''amneziawg_forward'' ''forward'' ''filter hook forward priority filter - 10''
       (forward_rules (cfg_interface cfg) (cfg_external_interface cfg) (cfg_subnet cfg) (cfg_blocked cfg))
     @ ''\<newline>''
     @ chain_text ''amneziawg_nat'' ''postrouting'' ''nat hook postrouting priority srcnat + 10''
         (nat_rules (cfg_external_interface cfg) (cfg_subnet cfg))"
  by (simp add: render_nftables_config_def chain_text_def rule_defs rule_text_def Let_def)

lemma docker_text_rules:
  "docker_integration_text cfg =
     concat (map (\<lambda>r. ''insert rule ip filter DOCKER-USER '' @ rule_text r)
       (rev (docker_rules (cfg_interface cfg) (cfg_external_interface cfg) (cfg_subnet cfg))))"
  by (simp add: docker_integration_text_def rule_defs rule_text_def Let_def)

lemma managed_entities_rules:
  "managed_entities i x (prefix_json net) (JObj [(''set'', JList (map prefix_json nets))]) =
     [nft_table ''amneziawg_forward'',
      nft_chain ''amneziawg_forward'' ''forward'' ''filter'' ''forward'' (-10)]
     @ map rule_entity (forward_rules i x net nets)
     @ [nft_table ''amneziawg_nat'', nft_chain ''amneziawg_nat'' ''postrouting'' ''nat'' ''postrouting'' 110]
     @ map rule_entity (nat_rules x net)"
  by (simp add: managed_entities_def rule_defs rule_entity_def match_json_def)

lemma docker_entities_rules:
  "docker_entities i x (prefix_json net) = map rule_entity (docker_rules i x net)"
  by (simp add: docker_entities_def rule_defs rule_entity_def match_json_def)

section \<open>The effect on a packet\<close>

record packet =
  iif :: string
  oif :: string
  src :: int
  dst :: int
  ct_state :: string

fun operand_holds :: "packet \<Rightarrow> rule_field \<Rightarrow> ipnet operand \<Rightarrow> bool" where
  "operand_holds p IifName (Name n) = (iif p = n)"
| "operand_holds p OifName (Name n) = (oif p = n)"
| "operand_holds p Saddr (Net n) = in_net (src p) n"
| "operand_holds p Daddr (Net n) = in_net (dst p) n"
| "operand_holds p Saddr (Nets ns) = list_ex (in_net (src p)) ns"
| "operand_holds p Daddr (Nets ns) = list_ex (in_net (dst p)) ns"
| "operand_holds p CtState Established = (ct_state p \<in> {''established'', ''related''})"
| "operand_holds p f v = False"

definition rule_matches :: "packet \<Rightarrow> ipnet rule \<Rightarrow> bool" where
  "rule_matches p r \<longleftrightarrow> list_all (\<lambda>(f, eq, v). operand_holds p f v = eq) (fr_matches r)"

text \<open>The first matching rule decides; the chain's policy is to accept.\<close>

primrec chain_verdict :: "packet \<Rightarrow> ipnet rule list \<Rightarrow> string" where
  "chain_verdict p [] = ''accept''"
| "chain_verdict p (r # rs) = (if rule_matches p r then fr_verdict r else chain_verdict p rs)"

lemma forward_rules_verdict:
  assumes "i \<noteq> x"
  shows "chain_verdict p (forward_rules i x net nets) = ''accept'' \<longleftrightarrow>
    (if iif p = i then oif p = x \<and> in_net (src p) net \<and> \<not> list_ex (in_net (dst p)) nets
     else if oif p = i then iif p = x \<and> in_net (dst p) net \<and> ct_state p \<in> {''established'', ''related''}
     else True)"
  using assms by (auto simp: rule_defs rule_matches_def)

lemma lateral_when_same_interface:
  assumes "iif p = i" and "oif p = i" and "in_net (dst p) net" and "ct_state p = ''established''"
  shows "chain_verdict p (forward_rules i i net nets) = ''accept''"
  using assms by (simp add: rule_defs rule_matches_def)

section \<open>The blocked destinations\<close>

definition blocked_nets :: "ipnet list" where
  "blocked_nets =
     [(0, 8), (167772160, 8), (1681915904, 10), (2130706432, 8), (2851995648, 16), (2886729728, 12),
      (3221225472, 24), (3221225984, 24), (3232235520, 16), (3323068416, 15), (3325256704, 24),
      (3405803776, 24), (3758096384, 4), (4026531840, 4)]"

definition collapsed_nets :: "ipnet list" where
  "collapsed_nets = butlast (butlast blocked_nets) @ [(3758096384, 3)]"

lemma collapse_blocked: "collapse_addresses blocked_nets = collapsed_nets"
  by code_simp

lemma blocked_texts: "map net_text blocked_nets = blocked_forward_ipv4"
  by code_simp

definition aligned :: "ipnet \<Rightarrow> bool" where
  "aligned n \<longleftrightarrow> valid_net n \<and> fst n mod net_size (snd n) = 0"

lemma ip_network_text: "aligned n \<Longrightarrow> ip_network (net_text n) = Some (I4 n)"
  by (cases n) (simp add: aligned_def ip_network_def parse_interface4_text)

lemma collapsed_aligned: "list_all aligned collapsed_nets" "list_all aligned blocked_nets"
  by (simp_all add: collapsed_nets_def blocked_nets_def aligned_def valid_net_def valid_ipv4_def net_size_def)

lemma aligned_in_net: "aligned n \<Longrightarrow> in_net a n \<longleftrightarrow> fst n \<le> a \<and> a < fst n + net_size (snd n)"
  using in_net_range range_in_net by (metis aligned_def)

lemma collapsed_same: "list_ex (in_net a) collapsed_nets \<longleftrightarrow> list_ex (in_net a) blocked_nets"
proof -
  have al: "aligned (3758096384, 3)" "aligned (3758096384, 4)" "aligned (4026531840, 4)"
    by (simp_all add: aligned_def valid_net_def valid_ipv4_def net_size_def)
  have "in_net a (3758096384, 3) \<longleftrightarrow> in_net a (3758096384, 4) \<or> in_net a (4026531840, 4)"
    unfolding al [THEN aligned_in_net] by (simp add: net_size_def) linarith
  moreover have e: "blocked_nets = butlast (butlast blocked_nets) @ [(3758096384, 4), (4026531840, 4)]"
    by (simp add: blocked_nets_def)
  have "list_ex (in_net a) blocked_nets
    = list_ex (in_net a) (butlast (butlast blocked_nets) @ [(3758096384, 4), (4026531840, 4)])"
    using arg_cong [OF e, of "list_ex (in_net a)"] .
  ultimately show ?thesis by (simp add: collapsed_nets_def list_ex_append)
qed

lemma nft_prefix_net: "aligned n \<Longrightarrow> nft_prefix (net_text n) = Inr (prefix_json n)"
  by (simp add: nft_prefix_def ip_network_text)

lemma blocked_ipv4_networks:
  assumes "check_blocked vs = Inr ()"
  shows "result_list ipv4_network vs = Inr blocked_nets"
proof -
  obtain nets where n: "result_list (\<lambda>s. or_raise (ip_network s) (AwgctlError ''blocked_forward_ipv4 is invalid'')) vs = Inr nets"
    and t: "map network_text nets = map Some blocked_forward_ipv4"
    using assms unfolding check_blocked_Inr by blast
  have len: "length nets = length vs" using result_list_Inr_length [OF n] .
  have "nets = map I4 blocked_nets"
  proof (rule nth_equalityI)
    show "length nets = length (map I4 blocked_nets)"
      using t map_eq_imp_length_eq [OF t] blocked_texts by (metis length_map)
  next
    fix k assume k: "k < length nets"
    have "ip_network (vs ! k) = Some (nets ! k)"
      using result_list_Inr_nth [OF n] k len by (simp add: result_simps)
    moreover have kb: "k < length blocked_nets"
      using k map_eq_imp_length_eq [OF t] blocked_texts by (metis length_map)
    then have "network_text (nets ! k) = Some (net_text (blocked_nets ! k))"
      using t k by (metis blocked_texts length_map nth_map)
    ultimately have "ip_network (net_text (blocked_nets ! k)) = Some (nets ! k)"
      by (rule network_text_valid)
    moreover have "aligned (blocked_nets ! k)"
      using collapsed_aligned(2) kb by (simp add: list_all_length)
    ultimately show "nets ! k = map I4 blocked_nets ! k" using kb by (simp add: ip_network_text)
  qed
  moreover have "result_list ipv4_network vs = Inr ns" if "result_list (\<lambda>s. or_raise (ip_network s) e) vs = Inr (map I4 ns)" for ns and e :: error
    using that
  proof (induction vs arbitrary: ns)
    case Nil
    then show ?case by simp
  next
    case (Cons v vs)
    then obtain m ms where "ns = m # ms" "ip_network v = Some (I4 m)"
      "result_list (\<lambda>s. or_raise (ip_network s) e) vs = Inr (map I4 ms)"
      by (auto simp: result_simps Cons_eq_map_conv)
    then show ?case using Cons.IH by (simp add: ipv4_network_def)
  qed
  ultimately show ?thesis using n by blast
qed


section \<open>Properties of the filter\<close>

definition subnet_net :: "server_config \<Rightarrow> ipnet" where
  "subnet_net cfg = (case ip_network (cfg_subnet cfg) of Some (I4 n) \<Rightarrow> n | _ \<Rightarrow> (0, 0))"

lemma subnet_net_ok:
  assumes "server_config_ok cfg"
  shows "ip_network (cfg_subnet cfg) = Some (I4 (subnet_net cfg))"
proof -
  obtain n i where "managed_subnet (cfg_subnet cfg) (cfg_server_address cfg) = Inr (n, i)"
    using assms by (auto simp: server_config_ok_def)
  then show ?thesis by (simp add: managed_subnet_Inr subnet_net_def)
qed

lemma expected_entities:
  assumes "server_config_ok cfg"
  shows "expected_managed_firewall_entities cfg docker_chain = Inr
    (managed_entities (cfg_interface cfg) (cfg_external_interface cfg) (prefix_json (subnet_net cfg))
       (JObj [(''set'', JList (map prefix_json collapsed_nets))]),
     if docker_chain then docker_entities (cfg_interface cfg) (cfg_external_interface cfg)
       (prefix_json (subnet_net cfg)) else [])"
proof -
  have n: "normalize_server_config (server_config_json cfg) = Inr cfg"
    using assms by (rule server_config.good_accepted)
  have s: "nft_prefix (cfg_subnet cfg) = Inr (prefix_json (subnet_net cfg))"
    by (simp add: nft_prefix_def subnet_net_ok [OF assms])
  have b: "result_list ipv4_network (cfg_blocked cfg) = Inr blocked_nets"
    using assms by (intro blocked_ipv4_networks) (simp add: server_config_ok_def)
  have p: "result_list (\<lambda>n. nft_prefix (net_text n)) collapsed_nets = Inr (map prefix_json collapsed_nets)"
  proof -
    have "list_all aligned ns \<Longrightarrow> result_list (\<lambda>n. nft_prefix (net_text n)) ns = Inr (map prefix_json ns)" for ns
      by (induction ns) (simp_all add: nft_prefix_net)
    then show ?thesis using collapsed_aligned(1) by blast
  qed
  show ?thesis
    by (simp add: expected_managed_firewall_entities_def n s b collapse_blocked p Let_def)
qed

text \<open>
  C28: What is applied and what is verified are the same rules: for a valid configuration the
  nftables text, the Docker commands (each \<open>insert\<close> puts its rule first) and the entities the
  postcondition expects are renderings of one rule list; the verifier's collapsed set of blocked
  networks has the same addresses as the configured one.
\<close>

theorem firewall_renderings_agree:
  assumes "server_config_ok cfg"
  shows "let i = cfg_interface cfg; x = cfg_external_interface cfg; net = subnet_net cfg in
    render_nftables_config cfg =
      chain_text ''amneziawg_forward'' ''forward'' ''filter hook forward priority filter - 10''
        (forward_rules i x (cfg_subnet cfg) (cfg_blocked cfg))
      @ ''\<newline>''
      @ chain_text ''amneziawg_nat'' ''postrouting'' ''nat hook postrouting priority srcnat + 10''
          (nat_rules x (cfg_subnet cfg))
    \<and> docker_integration_text cfg =
        concat (map (\<lambda>r. ''insert rule ip filter DOCKER-USER '' @ rule_text r)
          (rev (docker_rules i x (cfg_subnet cfg))))
    \<and> ip_network (cfg_subnet cfg) = Some (I4 net)
    \<and> result_list ipv4_network (cfg_blocked cfg) = Inr blocked_nets
    \<and> (\<forall>a. list_ex (in_net a) collapsed_nets = list_ex (in_net a) blocked_nets)
    \<and> expected_managed_firewall_entities cfg True = Inr
        ([nft_table ''amneziawg_forward'',
          nft_chain ''amneziawg_forward'' ''forward'' ''filter'' ''forward'' (-10)]
         @ map rule_entity (forward_rules i x net collapsed_nets)
         @ [nft_table ''amneziawg_nat'',
            nft_chain ''amneziawg_nat'' ''postrouting'' ''nat'' ''postrouting'' 110]
         @ map rule_entity (nat_rules x net),
         map rule_entity (docker_rules i x net))"
proof -
  have b: "result_list ipv4_network (cfg_blocked cfg) = Inr blocked_nets"
    using assms by (intro blocked_ipv4_networks) (simp add: server_config_ok_def)
  show ?thesis
    unfolding Let_def
    using render_text_rules [of cfg] docker_text_rules [of cfg] subnet_net_ok [OF assms] b collapsed_same
      expected_entities [OF assms, of True]
    by (simp only: managed_entities_rules docker_entities_rules if_True simp_thms)
qed

theorem firewall_renderings_agree_witness:
  "result_list ipv4_network (cfg_blocked sample_config) = Inr blocked_nets
   \<and> ip_network (cfg_subnet sample_config) = Some (I4 (167772160, 24))"
proof -
  have s: "subnet_net sample_config = (167772160, 24)" by code_simp
  show ?thesis
    using firewall_renderings_agree [OF sample_config_ok] unfolding Let_def s by blast
qed

text \<open>
  C27: The verified forward rules isolate the tunnel. A packet from the tunnel passes exactly when
  it goes out of the external interface from an address of the managed subnet to a destination
  outside of the blocked networks, so clients reach neither each other nor private networks; a
  packet into the tunnel passes exactly when it comes from the external interface to the subnet
  as part of an established or related connection; the rest of the host's forwarding is left
  alone. (The two interfaces must differ, which the configuration check does not ask for.)
\<close>

theorem firewall_isolates_tunnel:
  assumes "server_config_ok cfg" and "cfg_interface cfg \<noteq> cfg_external_interface cfg"
  shows "\<exists>rules rest docker. expected_managed_firewall_entities cfg False = Inr (rest, docker)
    \<and> take 7 (drop 2 rest) = map rule_entity rules
    \<and> (chain_verdict p rules = ''accept'' \<longleftrightarrow>
        (if iif p = cfg_interface cfg
         then oif p = cfg_external_interface cfg \<and> in_net (src p) (subnet_net cfg)
           \<and> \<not> list_ex (in_net (dst p)) blocked_nets
         else if oif p = cfg_interface cfg
         then iif p = cfg_external_interface cfg \<and> in_net (dst p) (subnet_net cfg)
           \<and> ct_state p \<in> {''established'', ''related''}
         else True))"
proof -
  let ?rules = "forward_rules (cfg_interface cfg) (cfg_external_interface cfg) (subnet_net cfg) collapsed_nets"
  have "length ?rules = 7" by (simp add: forward_rules_def)
  then have "take 7 (map rule_entity ?rules @ ys) = map rule_entity ?rules" for ys by simp
  then show ?thesis
    using forward_rules_verdict [OF assms(2), of p "subnet_net cfg" collapsed_nets]
    unfolding collapsed_same
    by (intro exI [of _ ?rules]) (simp add: expected_entities [OF assms(1)] managed_entities_rules)
qed

theorem firewall_isolates_tunnel_witness:
  "\<exists>rules rest docker. expected_managed_firewall_entities sample_config False = Inr (rest, docker)
    \<and> take 7 (drop 2 rest) = map rule_entity rules
    \<and> chain_verdict \<lparr>iif = ''awg0'', oif = ''eth0'', src = 167772162, dst = 134744072, ct_state = ''new''\<rparr> rules
        = ''accept''"
proof -
  have n: "cfg_interface sample_config = ''awg0''" "cfg_external_interface sample_config = ''eth0''"
    "subnet_net sample_config = (167772160, 24)" by code_simp+
  have p: "in_net 167772162 (167772160, 24)" "\<not> list_ex (in_net 134744072) blocked_nets"
    by (simp_all add: in_net_iff net_size_def blocked_nets_def)
  have d: "cfg_interface sample_config \<noteq> cfg_external_interface sample_config" by (simp add: n)
  from firewall_isolates_tunnel [OF sample_config_ok d,
      of "\<lparr>iif = ''awg0'', oif = ''eth0'', src = 167772162, dst = 134744072, ct_state = ''new''\<rparr>"]
  show ?thesis unfolding n using p by simp
qed

section \<open>What the postcondition establishes\<close>

type_synonym entity = "string \<times> obj"

definition whole_entity :: "entity \<Rightarrow> json" where
  "whole_entity e = JObj [(fst e, JObj (snd e))]"

definition managed_entity :: "entity \<Rightarrow> bool" where
  "managed_entity e \<longleftrightarrow> fst e \<noteq> ''metainfo''
     \<and> (fst e = ''table'' \<and> (\<exists>t\<in>set managed_tables. get (snd e) ''name'' = JStr t)
        \<or> (\<exists>t\<in>set managed_tables. get (snd e) ''table'' = JStr t))"

definition docker_user_entity :: "string \<Rightarrow> entity \<Rightarrow> bool" where
  "docker_user_entity kind e \<longleftrightarrow> fst e = kind \<and> get (snd e) ''family'' = JStr ''ip''
     \<and> get (snd e) ''table'' = JStr ''filter''"

definition marked_docker_rule :: "entity \<Rightarrow> bool" where
  "marked_docker_rule e \<longleftrightarrow> docker_user_entity ''rule'' e \<and> get (snd e) ''chain'' = JStr ''DOCKER-USER''
     \<and> firewall_marker (get (snd e) ''comment'')"

definition docker_chain_entity :: "entity \<Rightarrow> bool" where
  "docker_chain_entity e \<longleftrightarrow> docker_user_entity ''chain'' e \<and> get (snd e) ''name'' = JStr ''DOCKER-USER''"

lemmas entity_defs = managed_entity_def docker_user_entity_def marked_docker_rule_def docker_chain_entity_def
  whole_entity_def

lemma sort_entity_Inr:
  assumes "sort_entity v (managed, docker, hooks) = Inr acc"
  shows "\<exists>e. normalize_nft_entity v = Inr e
    \<and> acc = (managed @ map whole_entity (filter managed_entity [e]),
             docker @ map whole_entity (filter marked_docker_rule [e]),
             hooks + length (filter docker_chain_entity [e]))"
proof -
  obtain kind entity where e: "normalize_nft_entity v = Inr (kind, entity)"
    using assms by (auto simp: sort_entity_def result_simps)
  have filter_tables: "\<not> (get entity ''table'' = JStr ''filter'' \<and> (\<exists>t\<in>set managed_tables. get entity ''table'' = JStr t))"
    by (auto simp: managed_tables_def)
  show ?thesis
    using assms filter_tables unfolding sort_entity_def e
    by (auto simp: Let_def result_simps entity_defs e split: if_splits)
qed

lemma sort_entities_Inr:
  "sort_entities vs (managed, docker, hooks) = Inr acc \<Longrightarrow>
     \<exists>es. result_list normalize_nft_entity vs = Inr es
       \<and> acc = (managed @ map whole_entity (filter managed_entity es),
                docker @ map whole_entity (filter marked_docker_rule es),
                hooks + length (filter docker_chain_entity es))"
proof (induction vs arbitrary: managed docker hooks)
  case Nil
  then show ?case by simp
next
  case (Cons v vs)
  obtain acc1 where s: "sort_entity v (managed, docker, hooks) = Inr acc1"
    and r: "sort_entities vs acc1 = Inr acc" using Cons.prems by (auto simp: result_simps)
  obtain e where e: "normalize_nft_entity v = Inr e"
    and a: "acc1 = (managed @ map whole_entity (filter managed_entity [e]),
             docker @ map whole_entity (filter marked_docker_rule [e]),
             hooks + length (filter docker_chain_entity [e]))"
    using sort_entity_Inr [OF s] by blast
  from Cons.IH [OF r [unfolded a]] obtain es where "result_list normalize_nft_entity vs = Inr es"
    "acc = ((managed @ map whole_entity (filter managed_entity [e])) @ map whole_entity (filter managed_entity es),
        (docker @ map whole_entity (filter marked_docker_rule [e])) @ map whole_entity (filter marked_docker_rule es),
        hooks + length (filter docker_chain_entity [e]) + length (filter docker_chain_entity es))" by blast
  then show ?case using e by (intro exI [of _ "e # es"]) simp
qed

text \<open>
  A proven postcondition is what it says about the listed ruleset: every listed entity is well
  formed; after \<open>down\<close> nothing is listed in the program's tables and no Docker rule carries its
  marker; after \<open>up\<close> the entities of its tables, in order and whatever else is listed, are the
  expected ones up to handles and counter values, and so are its Docker rules, which are expected
  exactly when the Docker chain exists.
\<close>

theorem firewall_postcondition_sound:
  assumes "firewall_action_postcondition action status output config = Inr True"
  shows "status = 0 \<and> (\<exists>vs es. ruleset_values output = Inr vs \<and> result_list normalize_nft_entity vs = Inr es
    \<and> (action = ''down'' \<longrightarrow> filter managed_entity es = [] \<and> filter marked_docker_rule es = [])
    \<and> (action = ''up'' \<longrightarrow> (\<exists>cfg managed docker. config = Inr cfg
        \<and> expected_managed_firewall_entities cfg (length (filter docker_chain_entity es) = 1) = Inr (managed, docker)
        \<and> eq_items (map whole_entity (filter managed_entity es)) managed
        \<and> eq_items (map whole_entity (filter marked_docker_rule es)) docker)))"
proof -
  obtain vs acc where vs: "ruleset_values output = Inr vs" and s: "sort_entities vs ([], [], 0) = Inr acc"
    using assms by (auto simp: firewall_action_postcondition_def result_simps split: if_splits)
  obtain es where es: "result_list normalize_nft_entity vs = Inr es"
    and acc: "acc = ([] @ map whole_entity (filter managed_entity es), [] @ map whole_entity (filter marked_docker_rule es),
        0 + length (filter docker_chain_entity es))"
    using sort_entities_Inr [OF s] by blast
  show ?thesis
    using assms
    by (intro conjI exI [of _ vs] exI [of _ es] vs es)
      (auto simp: firewall_action_postcondition_def vs s acc result_simps split: if_splits)
qed

definition listed_expression :: "json \<Rightarrow> json" where
  "listed_expression v =
     (if v = nft_counter then JObj [(''counter'', JObj [(''packets'', JInt 3), (''bytes'', JInt 180)])] else v)"

definition listed_entity :: "json \<Rightarrow> json" where
  "listed_entity v =
     (case v of
        JObj [(kind, JObj m)] \<Rightarrow>
          JObj [(kind, JObj ((''handle'', JInt 7) #
            (case get m ''expr'' of JList es \<Rightarrow> put m ''expr'' (JList (map listed_expression es)) | _ \<Rightarrow> m)))]
      | _ \<Rightarrow> v)"

definition sample_ruleset :: "json" where
  "sample_ruleset =
     JObj [(''nftables'', JList
       (JObj [(''metainfo'', JObj [(''version'', JStr ''1.0.9'')])]
        # nft_table ''filter''
        # map listed_entity (managed_entities ''awg0'' ''eth0'' (prefix_json (167772160, 24))
            (JObj [(''set'', JList (map prefix_json collapsed_nets))]))))]"

lemma sample_ruleset_up:
  "firewall_action_postcondition ''up'' 0 (Inr sample_ruleset) (Inr sample_config) = Inr True"
proof -
  let ?m = "managed_entities ''awg0'' ''eth0'' (prefix_json (167772160, 24))
            (JObj [(''set'', JList (map prefix_json collapsed_nets))])"
  have s: "except_as listing_error nft_error (andthen (ruleset_values (Inr sample_ruleset))
      (\<lambda>vs. sort_entities vs ([], [], 0))) = Inr (?m, [], 0)"
    by code_simp
  have n: "cfg_interface sample_config = ''awg0''" "cfg_external_interface sample_config = ''eth0''"
    "subnet_net sample_config = (167772160, 24)" by code_simp+
  have e: "eq_items ?m ?m" by code_simp
  show ?thesis
    by (simp add: firewall_action_postcondition_def s expected_entities [OF sample_config_ok] n e)
qed

theorem firewall_postcondition_sound_witness:
  "\<exists>vs es managed docker. ruleset_values (Inr sample_ruleset) = Inr vs
    \<and> result_list normalize_nft_entity vs = Inr es
    \<and> expected_managed_firewall_entities sample_config (length (filter docker_chain_entity es) = 1)
        = Inr (managed, docker)
    \<and> eq_items (map whole_entity (filter managed_entity es)) managed"
  using firewall_postcondition_sound [OF sample_ruleset_up] by auto

end
