(* ===== verification/Capability.thy ===== *)
theory Capability
  imports Prelude
begin

text \<open>
  The version gate of \<^verbatim>\<open>src/awgctl/core.py\<close>: the version texts of the tools and of the
  kernel module, and the capability checks. A command is its exit status and its decoded standard
  output; running, decoding or reading may raise.
\<close>

section \<open>Version texts\<close>

definition dotted_version :: "string \<Rightarrow> bool" where
  "dotted_version s \<longleftrightarrow>
     (case split_on CHR ''.'' s of
        [a, b, c] \<Rightarrow> list_all (\<lambda>p. p \<noteq> [] \<and> list_all is_digit p) [a, b, c]
      | _ \<Rightarrow> False)"

text \<open>The optional final newline of both patterns.\<close>

definition drop_newline :: "string \<Rightarrow> string" where
  "drop_newline s = (if s \<noteq> [] \<and> last s = CHR ''\<newline>'' then butlast s else s)"

definition between :: "string \<Rightarrow> string \<Rightarrow> string \<Rightarrow> string option" where
  "between prefix suffix s =
     (let m = drop (length prefix) s; n = length m - length suffix
      in if starts_with prefix s \<and> length suffix \<le> length m \<and> drop n m = suffix then Some (take n m)
         else None)"

lemma between_append [simp]: "between p q (p @ s @ q) = Some s"
  by (simp add: between_def)

lemma between_Some: "between p q t = Some s \<longleftrightarrow> t = p @ s @ q"
proof
  assume "between p q t = Some s"
  then obtain m where t: "t = p @ m" and l: "length q \<le> length m"
    and q: "drop (length m - length q) m = q" and s: "s = take (length m - length q) m"
    by (auto simp: between_def Let_def starts_with_iff split: if_splits)
  have "m = s @ q" using q s by (metis append_take_drop_id)
  with t show "t = p @ s @ q" by simp
qed simp

definition parse_awg_tools_version :: "string \<Rightarrow> string result" where
  "parse_awg_tools_version output =
     (case between ''amneziawg-tools v'' '' - https://amnezia.org'' (drop_newline output) of
        None \<Rightarrow> Inl (AwgctlError ''unrecognized awg tools version output'')
      | Some v \<Rightarrow>
          if dotted_version v then Inr v
          else Inl (AwgctlError ''unrecognized awg tools version output''))"

definition parse_awg_module_version :: "string \<Rightarrow> string result" where
  "parse_awg_module_version output =
     (if dotted_version (drop_newline output) then Inr (drop_newline output)
      else Inl (AwgctlError ''unrecognized AmneziaWG module version output''))"

lemma drop_newline_snoc [simp]: "drop_newline (s @ ''\<newline>'') = s"
  by (simp add: drop_newline_def)

lemma parse_tools_text:
  "parse_awg_tools_version (''amneziawg-tools v'' @ v @ '' - https://amnezia.org\<newline>'') = Inr w
     \<longleftrightarrow> w = v \<and> dotted_version v"
proof -
  have d: "drop_newline (''amneziawg-tools v'' @ v @ '' - https://amnezia.org\<newline>'')
    = ''amneziawg-tools v'' @ v @ '' - https://amnezia.org''"
    by (simp add: drop_newline_def butlast_append)
  show ?thesis unfolding parse_awg_tools_version_def d between_append by auto
qed

lemma parse_module_text: "parse_awg_module_version (v @ ''\<newline>'') = Inr w \<longleftrightarrow> w = v \<and> dotted_version v"
  by (auto simp: parse_awg_module_version_def)

section \<open>The gate\<close>

record command_result =
  cr_status :: int
  cr_output :: "string result"

record capability =
  cap_tools :: string
  cap_module :: string

definition qualified_pairs_v1 :: "(string \<times> string) list" where
  "qualified_pairs_v1 = [(''3.1.20260812'', ''3.1.20260812'')]"

text \<open>The outputs of the tools, of the packaged module and of the loaded module.\<close>

definition version_outputs ::
  "command_result result \<Rightarrow> command_result result \<Rightarrow> string result \<Rightarrow> string \<Rightarrow>
     (string \<times> string \<times> string) result" where
  "version_outputs tools module loaded failure =
     andthen tools (\<lambda>t. andthen module (\<lambda>m.
     if cr_status t \<noteq> 0 \<or> cr_status m \<noteq> 0 then Inl (AwgctlError failure) else
     andthen (cr_output t) (\<lambda>tools_output.
     andthen (cr_output m) (\<lambda>module_output.
     andthen loaded (\<lambda>loaded_output. Inr (tools_output, module_output, loaded_output))))))"

definition inspection_error :: "error \<Rightarrow> bool" where
  "inspection_error e \<longleftrightarrow> e = AttributeError \<or> os_error e \<or> e = UnicodeError \<or> e = SubprocessError"

definition require_awg31_capability ::
  "command_result result \<Rightarrow> command_result result \<Rightarrow> string result \<Rightarrow> (string \<times> string) list \<Rightarrow>
     capability result" where
  "require_awg31_capability tools module loaded qualified =
     andthen (except_as inspection_error (AwgctlError ''AWG 3.1 capability inspection failed'')
       (version_outputs tools module loaded ''AWG 3.1 capability inspection command failed''))
       (\<lambda>(tools_output, module_output, loaded_output).
     andthen (parse_awg_tools_version tools_output) (\<lambda>tools_version.
     andthen (parse_awg_module_version module_output) (\<lambda>packaged.
     andthen (parse_awg_module_version loaded_output) (\<lambda>loaded_version.
     if packaged \<noteq> loaded_version
     then Inl (AwgctlError ''loaded and packaged AmneziaWG module versions do not match'')
     else if (tools_version, loaded_version) \<notin> set qualified
     then Inl (AwgctlError ''installed AWG 3.1 tools/module pair is not qualified'')
     else Inr \<lparr>cap_tools = tools_version, cap_module = loaded_version\<rparr>))))"

text \<open>The inspection parses inside the \<open>try\<close> block, one output after the other.\<close>

definition inspect_awg_versions ::
  "command_result result \<Rightarrow> command_result result \<Rightarrow> string result \<Rightarrow> capability result" where
  "inspect_awg_versions tools module loaded =
     andthen (except_as (\<lambda>e. inspection_error e \<and> e \<noteq> SubprocessError)
       (AwgctlError ''AmneziaWG version inspection failed'')
       (andthen tools (\<lambda>t. andthen module (\<lambda>m.
        if cr_status t \<noteq> 0 \<or> cr_status m \<noteq> 0
        then Inl (AwgctlError ''AmneziaWG version inspection command failed'') else
        andthen (cr_output t) (\<lambda>o1. andthen (parse_awg_tools_version o1) (\<lambda>tools_version.
        andthen (cr_output m) (\<lambda>o2. andthen (parse_awg_module_version o2) (\<lambda>packaged.
        andthen loaded (\<lambda>o3. andthen (parse_awg_module_version o3) (\<lambda>loaded_version.
        Inr (tools_version, packaged, loaded_version)))))))))))
       (\<lambda>(tools_version, packaged, loaded_version).
     if packaged \<noteq> loaded_version
     then Inl (AwgctlError ''loaded and packaged AmneziaWG module versions do not match'')
     else Inr \<lparr>cap_tools = tools_version, cap_module = loaded_version\<rparr>)"

text \<open>
  C33: The AWG 3.1 gate fails closed: it passes only when both commands exited with 0, the tools
  reported a dotted version on the one recognised line, the packaged and the loaded module report
  the same version, and that pair of versions is qualified.
\<close>

theorem require_awg31_capability_closed:
  assumes "require_awg31_capability tools module loaded qualified = Inr c"
  shows "\<exists>t m l. tools = Inr t \<and> module = Inr m \<and> loaded = Inr l \<and> cr_status t = 0 \<and> cr_status m = 0
    \<and> cr_output t \<in> {Inr (''amneziawg-tools v'' @ cap_tools c @ '' - https://amnezia.org'' @ e) |e. e \<in> {[], ''\<newline>''}}
    \<and> cr_output m \<in> {Inr (cap_module c @ e) |e. e \<in> {[], ''\<newline>''}} \<and> l \<in> {cap_module c @ e |e. e \<in> {[], ''\<newline>''}}
    \<and> dotted_version (cap_tools c) \<and> dotted_version (cap_module c)
    \<and> (cap_tools c, cap_module c) \<in> set qualified"
proof -
  obtain to mo lo where v: "version_outputs tools module loaded ''AWG 3.1 capability inspection command failed'' = Inr (to, mo, lo)"
    and t: "parse_awg_tools_version to = Inr (cap_tools c)"
    and m: "parse_awg_module_version mo = Inr (cap_module c)"
    and l: "parse_awg_module_version lo = Inr (cap_module c)"
    and q: "(cap_tools c, cap_module c) \<in> set qualified"
    using assms unfolding require_awg31_capability_def
    by (auto simp: result_simps split: if_splits)
  have nl: "\<exists>e\<in>{[], ''\<newline>''}. s = drop_newline s @ e" for s
    by (auto simp: drop_newline_def) (metis append_butlast_last_id)
  have tt: "drop_newline to = ''amneziawg-tools v'' @ cap_tools c @ '' - https://amnezia.org''"
    "dotted_version (cap_tools c)"
    using t by (auto simp: parse_awg_tools_version_def between_Some split: option.split_asm if_splits)
  have mm: "drop_newline mo = cap_module c" "drop_newline lo = cap_module c" "dotted_version (cap_module c)"
    using m l by (auto simp: parse_awg_module_version_def split: if_splits)
  from v obtain tr mr where "tools = Inr tr" "module = Inr mr" "loaded = Inr lo" "cr_status tr = 0"
    "cr_status mr = 0" "cr_output tr = Inr to" "cr_output mr = Inr mo"
    by (auto simp: version_outputs_def result_simps split: if_splits)
  with tt mm q nl [of to] nl [of mo] nl [of lo] show ?thesis by fastforce
qed

theorem require_awg31_capability_closed_witness:
  "\<exists>c. require_awg31_capability
      (Inr \<lparr>cr_status = 0, cr_output = Inr ''amneziawg-tools v3.1.20260812 - https://amnezia.org\<newline>''\<rparr>)
      (Inr \<lparr>cr_status = 0, cr_output = Inr ''3.1.20260812\<newline>''\<rparr>) (Inr ''3.1.20260812'') qualified_pairs_v1 = Inr c
    \<and> (cap_tools c, cap_module c) \<in> set qualified_pairs_v1"
proof -
  let ?g = "require_awg31_capability
      (Inr \<lparr>cr_status = 0, cr_output = Inr ''amneziawg-tools v3.1.20260812 - https://amnezia.org\<newline>''\<rparr>)
      (Inr \<lparr>cr_status = 0, cr_output = Inr ''3.1.20260812\<newline>''\<rparr>) (Inr ''3.1.20260812'') qualified_pairs_v1"
  have e: "?g = Inr \<lparr>cap_tools = ''3.1.20260812'', cap_module = ''3.1.20260812''\<rparr>" by code_simp
  from require_awg31_capability_closed [OF e] e show ?thesis by blast
qed

end
