(* ===== verification/Documents.thy ===== *)
theory Documents
  imports Validation PyTime Capability "HOL-Library.AList"
begin

text \<open>
  The protected documents of \<^verbatim>\<open>src/awgctl/core.py\<close>: the obfuscation transition, its
  terminal outcome, the activation journal and the service operation intent. Each has a record,
  its JSON form and the normaliser that checks the complete contract; the normalisers return the
  document itself, so the texts (paths, timestamps) are kept as supplied.
\<close>

section \<open>Times, digests, paths\<close>

definition time_value :: "string \<Rightarrow> int option" where
  "time_value s =
     (if length s > 32 then None
      else case parse_datetime (replace_char CHR ''Z'' ''+00:00'' s) of
        Some (t, Some off) \<Rightarrow> if off = 0 then Some t else None
      | _ \<Rightarrow> None)"

definition transition_time :: "json \<Rightarrow> string \<Rightarrow> int result" where
  "transition_time v field =
     (case v of
        JStr s \<Rightarrow> or_raise (time_value s) (AwgctlError (field @ '' must be one bounded UTC timestamp''))
      | _ \<Rightarrow> Inl (AwgctlError (field @ '' must be one bounded UTC timestamp'')))"

lemma transition_time_Inr [result_simps]:
  "transition_time v field = Inr t \<longleftrightarrow> (\<exists>s. v = JStr s \<and> time_value s = Some t)"
  by (auto simp: transition_time_def result_simps split: json.splits)

definition matching :: "(string \<Rightarrow> bool) \<Rightarrow> json \<Rightarrow> string \<Rightarrow> string result" where
  "matching re v message =
     (case v of JStr s \<Rightarrow> if re s then Inr s else Inl (AwgctlError message) | _ \<Rightarrow> Inl (AwgctlError message))"

lemma matching_Inr [result_simps]: "matching re v message = Inr s \<longleftrightarrow> v = JStr s \<and> re s"
  by (auto simp: matching_def split: json.splits)

definition integer_in :: "int \<Rightarrow> int \<Rightarrow> json \<Rightarrow> string \<Rightarrow> int result" where
  "integer_in lo hi v message =
     (case v of
        JInt n \<Rightarrow> if lo \<le> n \<and> n \<le> hi then Inr n else Inl (AwgctlError message)
      | _ \<Rightarrow> Inl (AwgctlError message))"

lemma integer_in_Inr [result_simps]:
  "integer_in lo hi v message = Inr n \<longleftrightarrow> v = JInt n \<and> lo \<le> n \<and> n \<le> hi"
  by (auto simp: integer_in_def split: json.splits)

text \<open>A dict with exactly the given keys.\<close>

definition fields_of :: "string list \<Rightarrow> json \<Rightarrow> string \<Rightarrow> obj result" where
  "fields_of ks v message =
     (case v of
        JObj m \<Rightarrow> if keys_are m ks then Inr m else Inl (AwgctlError message)
      | _ \<Rightarrow> Inl (AwgctlError message))"

lemma fields_of_Inr [result_simps]: "fields_of ks v message = Inr m \<longleftrightarrow> v = JObj m \<and> keys_are m ks"
  by (auto simp: fields_of_def split: json.splits)

definition backup_name_re :: "string \<Rightarrow> bool" where
  "backup_name_re s \<longleftrightarrow> s \<noteq> [] \<and> length s \<le> 128 \<and> is_alnum (hd s) \<and> list_all interface_char s"

text \<open>\<open>pathlib.Path(s)\<close>: its root and its parts; two paths are equal when both agree.\<close>

definition pure_path :: "string \<Rightarrow> string \<times> string list" where
  "pure_path s =
     (if starts_with ''//'' s \<and> \<not> starts_with ''///'' s then ''//'' else if starts_with ''/'' s then ''/'' else [],
      filter (\<lambda>p. p \<noteq> [] \<and> p \<noteq> ''.'') (split_on CHR ''/'' s))"

definition path_matching :: "string \<Rightarrow> json \<Rightarrow> string \<Rightarrow> string result" where
  "path_matching expected v message = matching (\<lambda>s. pure_path s = pure_path expected) v message"

lemma path_matching_Inr [result_simps]:
  "path_matching expected v message = Inr s \<longleftrightarrow> v = JStr s \<and> pure_path s = pure_path expected"
  by (simp add: path_matching_def result_simps)

section \<open>The transition\<close>

record pending_profile =
  pp_name :: string
  pp_config :: string
  pp_qr :: string
  pp_revision :: int

record activation =
  act_at :: string
  act_deadline :: string
  act_rx :: int
  act_tx :: int
  act_handshake :: int

record transition =
  tr_id :: string
  tr_client :: string
  tr_old_port :: int
  tr_new_port :: int
  tr_backup_name :: string
  tr_manifest :: string
  tr_snapshot :: string
  tr_boundary :: string
  tr_capability :: capability
  tr_root :: string
  tr_server_state :: string
  tr_server_config :: string
  tr_header_key :: string
  tr_profiles :: "pending_profile list"
  tr_prepared_at :: string
  tr_activation :: "activation option"
  tr_prestate :: string
  tr_pending_digest :: string

definition profile_json :: "pending_profile \<Rightarrow> json" where
  "profile_json p = JObj
     [(''name'', JStr (pp_name p)), (''config'', JStr (pp_config p)), (''qr'', JStr (pp_qr p)),
      (''current_revision'', JInt (pp_revision p))]"

definition optional :: "('a \<Rightarrow> json) \<Rightarrow> 'a option \<Rightarrow> json" where
  "optional f x = (case x of None \<Rightarrow> JNull | Some y \<Rightarrow> f y)"

definition tr_state :: "transition \<Rightarrow> string" where
  "tr_state t = (if tr_activation t = None then ''prepared'' else ''active'')"

definition transition_json :: "transition \<Rightarrow> json" where
  "transition_json t = JObj
     [(''schema_version'', JInt 1), (''transaction_id'', JStr (tr_id t)), (''state'', JStr (tr_state t)),
      (''mode'', JStr ''awg31''), (''profile_name'', JStr ''russia-ios-v1''),
      (''client_name'', JStr (tr_client t)), (''old_port'', JInt (tr_old_port t)),
      (''new_port'', JInt (tr_new_port t)), (''backup_name'', JStr (tr_backup_name t)),
      (''backup_identity'', JObj [(''manifest_sha256'', JStr (tr_manifest t)),
        (''snapshot_sha256'', JStr (tr_snapshot t))]),
      (''pending'', JObj [(''root'', JStr (tr_root t)), (''server_state'', JStr (tr_server_state t)),
        (''server_config'', JStr (tr_server_config t)), (''header_key'', JStr (tr_header_key t)),
        (''profiles'', JList (map profile_json (tr_profiles t)))]),
      (''ingress_boundary'', JStr (tr_boundary t)),
      (''capability'', JObj [(''policy_version'', JInt 1),
        (''tools_version'', JStr (cap_tools (tr_capability t))),
        (''module_version'', JStr (cap_module (tr_capability t))), (''qualified'', JBool True)]),
      (''prepared_at'', JStr (tr_prepared_at t)),
      (''activated_at'', optional (\<lambda>a. JStr (act_at a)) (tr_activation t)),
      (''deadline_at'', optional (\<lambda>a. JStr (act_deadline a)) (tr_activation t)),
      (''pre_rx'', optional (\<lambda>a. JInt (act_rx a)) (tr_activation t)),
      (''pre_tx'', optional (\<lambda>a. JInt (act_tx a)) (tr_activation t)),
      (''pre_handshake'', optional (\<lambda>a. JInt (act_handshake a)) (tr_activation t)),
      (''prestate_sha256'', JStr (tr_prestate t)), (''pending_sha256'', JStr (tr_pending_digest t))]"

definition transition_fields :: "string list" where
  "transition_fields =
     [''schema_version'', ''transaction_id'', ''state'', ''mode'', ''profile_name'', ''client_name'',
      ''old_port'', ''new_port'', ''backup_name'', ''backup_identity'', ''pending'', ''ingress_boundary'',
      ''capability'', ''prepared_at'', ''activated_at'', ''deadline_at'', ''pre_rx'', ''pre_tx'',
      ''pre_handshake'', ''prestate_sha256'', ''pending_sha256'']"

definition transition_root :: "string \<Rightarrow> string" where
  "transition_root ident = ''/opt/amneziawg/pending/obfuscation/'' @ ident"

definition profile_root :: "string \<Rightarrow> string \<Rightarrow> string" where
  "profile_root root name = root @ ''/clients/'' @ name"

definition normalize_capability :: "json \<Rightarrow> capability result" where
  "normalize_capability v =
     andthen (fields_of [''policy_version'', ''tools_version'', ''module_version'', ''qualified''] v
       ''transition capability evidence is invalid'') (\<lambda>c.
     if get c ''policy_version'' \<noteq> JInt 1 \<or> get c ''qualified'' \<noteq> JBool True
     then Inl (AwgctlError ''transition capability evidence is invalid'') else
     andthen (parse_awg_tools_version (case get c ''tools_version'' of
         JStr t \<Rightarrow> ''amneziawg-tools v'' @ t @ '' - https://amnezia.org\<newline>'' | _ \<Rightarrow> [])) (\<lambda>tools.
     andthen (parse_awg_module_version (case get c ''module_version'' of
         JStr m \<Rightarrow> m @ ''\<newline>'' | _ \<Rightarrow> [])) (\<lambda>module.
     Inr \<lparr>cap_tools = tools, cap_module = module\<rparr>)))"

definition profile_revision :: "string list \<Rightarrow> string \<Rightarrow> obj \<Rightarrow> int result" where
  "profile_revision seen name m =
     (case get m ''current_revision'' of
        JInt n \<Rightarrow>
          if name \<in> set seen \<or> n < 1
          then Inl (AwgctlError ''transition pending profile identity is invalid'') else Inr n
      | _ \<Rightarrow> Inl (AwgctlError ''transition pending profile identity is invalid''))"

lemma profile_revision_Inr [result_simps]:
  "profile_revision seen name m = Inr n \<longleftrightarrow> get m ''current_revision'' = JInt n \<and> name \<notin> set seen \<and> 1 \<le> n"
  by (cases "get m ''current_revision''") (auto simp: profile_revision_def)

fun normalize_profiles :: "string \<Rightarrow> string list \<Rightarrow> json list \<Rightarrow> pending_profile list result" where
  "normalize_profiles root seen [] = Inr []"
| "normalize_profiles root seen (v # vs) =
     andthen (fields_of [''name'', ''config'', ''qr'', ''current_revision''] v
       ''transition pending profile entry is invalid'') (\<lambda>m.
     andthen (validate_client_name (get m ''name'')) (\<lambda>name.
     andthen (profile_revision seen name m) (\<lambda>revision.
     let base = profile_root root name @ ''/'' @ name;
         differs = ''transition pending profile path differs from the protected layout'' in
     andthen (path_matching (base @ ''.conf'') (get m ''config'') differs) (\<lambda>config.
     andthen (path_matching (base @ ''.png'') (get m ''qr'') differs) (\<lambda>qr.
     andthen (normalize_profiles root (name # seen) vs) (\<lambda>ps.
     Inr (\<lparr>pp_name = name, pp_config = config, pp_qr = qr, pp_revision = revision\<rparr> # ps)))))))"

definition u64_max :: int where
  "u64_max = 2 ^ 64 - 1"

definition ten_minutes :: int where
  "ten_minutes = 600000000"

definition normalize_activation :: "string \<Rightarrow> int \<Rightarrow> obj \<Rightarrow> activation option result" where
  "normalize_activation state prepared m =
     (let active_fields = [''activated_at'', ''deadline_at'', ''pre_rx'', ''pre_tx'', ''pre_handshake''];
          counter = (\<lambda>f. integer_in 0 u64_max (get m f) (f @ '' must be an unsigned 64-bit integer''))
      in if state = ''prepared'' then
           (if list_ex (\<lambda>f. get m f \<noteq> JNull) active_fields
            then Inl (AwgctlError ''prepared transition contains active-only state'') else Inr None)
         else if get m ''activated_at'' = JNull \<or> get m ''deadline_at'' = JNull
         then Inl (AwgctlError ''active transition is missing activation timestamps'')
         else
           andthen (transition_time (get m ''activated_at'') ''activated_at'') (\<lambda>activated.
           andthen (transition_time (get m ''deadline_at'') ''deadline_at'') (\<lambda>deadline.
           if activated < prepared \<or> deadline - activated \<noteq> ten_minutes
           then Inl (AwgctlError ''active transition timestamps are inconsistent'') else
           andthen (counter ''pre_rx'') (\<lambda>rx. andthen (counter ''pre_tx'') (\<lambda>tx.
           andthen (counter ''pre_handshake'') (\<lambda>handshake.
           Inr (Some \<lparr>act_at = the (as_str (get m ''activated_at'')),
             act_deadline = the (as_str (get m ''deadline_at'')),
             act_rx = rx, act_tx = tx, act_handshake = handshake\<rparr>)))))))"

definition distinct_ports :: "obj \<Rightarrow> string \<Rightarrow> string \<Rightarrow> string \<Rightarrow> (int \<times> int) result" where
  "distinct_ports m old_message new_message range_message =
     andthen (integer_in 1 65535 (get m ''old_port'') old_message) (\<lambda>old.
     andthen (integer_in 1 65535 (get m ''new_port'') new_message) (\<lambda>new.
     if \<not> (1024 \<le> new \<and> new \<le> 9999) \<or> new = old then Inl (AwgctlError range_message)
     else Inr (old, new)))"

definition nonempty_list :: "json \<Rightarrow> json list result" where
  "nonempty_list v =
     (case v of
        JList vs \<Rightarrow>
          if vs = [] then Inl (AwgctlError ''transition pending profile set is empty or invalid'') else Inr vs
      | _ \<Rightarrow> Inl (AwgctlError ''transition pending profile set is empty or invalid''))"

lemma nonempty_list_Inr [result_simps]: "nonempty_list v = Inr vs \<longleftrightarrow> v = JList vs \<and> vs \<noteq> []"
  by (auto simp: nonempty_list_def split: json.splits)

definition normalize_transition_document :: "json \<Rightarrow> transition result" where
  "normalize_transition_document v =
     andthen (or_raise (as_obj v) (AwgctlError ''obfuscation transition must be an object'')) (\<lambda>m.
     if \<not> keys_are m transition_fields
     then Inl (AwgctlError ''obfuscation transition fields are incomplete or unexpected'')
     else if get m ''schema_version'' \<noteq> JInt 1
     then Inl (AwgctlError ''unsupported obfuscation transition schema'') else
     andthen (validate_transaction_id (get m ''transaction_id'')) (\<lambda>id.
     andthen (matching (\<lambda>s. s \<in> {''prepared'', ''active''}) (get m ''state'')
       ''obfuscation transition state must be prepared or active'') (\<lambda>state.
     if get m ''mode'' \<noteq> JStr ''awg31'' \<or> get m ''profile_name'' \<noteq> JStr ''russia-ios-v1''
     then Inl (AwgctlError ''unsupported obfuscation transition mode or profile'') else
     andthen (validate_client_name (get m ''client_name'')) (\<lambda>client.
     andthen (distinct_ports m ''old_port must be an integer from 1 to 65535''
       ''new_port must be an integer from 1 to 65535''
       ''new transition port must be distinct and within 1024..9999'') (\<lambda>(old_port, new_port).
     andthen (matching backup_name_re (get m ''backup_name'') ''invalid transition backup identity'') (\<lambda>backup.
     let identity_error = ''transition backup cryptographic identity is invalid'' in
     andthen (fields_of [''manifest_sha256'', ''snapshot_sha256''] (get m ''backup_identity'') identity_error) (\<lambda>identity.
     andthen (matching sha256_re (get identity ''manifest_sha256'') identity_error) (\<lambda>manifest.
     andthen (matching sha256_re (get identity ''snapshot_sha256'') identity_error) (\<lambda>snapshot.
     andthen (matching (\<lambda>s. s \<in> {''lightsail'', ''equivalent-external-firewall''}) (get m ''ingress_boundary'')
       ''transition ingress boundary attestation is invalid'') (\<lambda>boundary.
     andthen (normalize_capability (get m ''capability'')) (\<lambda>capability.
     andthen (fields_of [''root'', ''server_state'', ''server_config'', ''header_key'', ''profiles'']
       (get m ''pending'') ''transition pending paths are invalid'') (\<lambda>pending.
     let root = transition_root id;
         path = (\<lambda>f expected. path_matching expected (get pending f)
           ''transition pending path differs from the protected layout'') in
     andthen (path ''root'' root) (\<lambda>root_text.
     andthen (path ''server_state'' (root @ ''/server.json'')) (\<lambda>server_state.
     andthen (path ''server_config'' (root @ ''/awg0.conf'')) (\<lambda>server_config.
     andthen (path ''header_key'' (root @ ''/header-protection'')) (\<lambda>header_key.
     andthen (nonempty_list (get pending ''profiles'')) (\<lambda>vs.
     andthen (normalize_profiles root [] vs) (\<lambda>profiles.
     let names = map pp_name profiles in
     if client \<notin> set names \<or> names \<noteq> sort names
     then Inl (AwgctlError ''transition pending profile set is not canonical'') else
     andthen (transition_time (get m ''prepared_at'') ''prepared_at'') (\<lambda>prepared.
     andthen (normalize_activation state prepared m) (\<lambda>activation.
     andthen (matching sha256_re (get m ''prestate_sha256'') ''transition prestate digest is invalid'') (\<lambda>prestate.
     andthen (matching sha256_re (get m ''pending_sha256'')
       ''transition pending artifact digest is invalid'') (\<lambda>pending_digest.
     Inr \<lparr>tr_id = id, tr_client = client, tr_old_port = old_port, tr_new_port = new_port,
          tr_backup_name = backup, tr_manifest = manifest, tr_snapshot = snapshot, tr_boundary = boundary,
          tr_capability = capability, tr_root = root_text, tr_server_state = server_state,
          tr_server_config = server_config, tr_header_key = header_key, tr_profiles = profiles,
          tr_prepared_at = the (as_str (get m ''prepared_at'')), tr_activation = activation,
          tr_prestate = prestate, tr_pending_digest = pending_digest\<rparr>))))))))))))))))))))))"

section \<open>The terminal outcome\<close>

record profile_update =
  up_name :: string
  up_from :: int
  up_to :: int

record outcome =
  oc_id :: string
  oc_outcome :: string
  oc_reason :: string
  oc_completed_at :: string
  oc_client :: string
  oc_old_port :: int
  oc_new_port :: int
  oc_phase :: string
  oc_updates :: "profile_update list"

definition update_json :: "profile_update \<Rightarrow> json" where
  "update_json u = JObj [(''name'', JStr (up_name u)), (''from_revision'', JInt (up_from u)),
     (''to_revision'', JInt (up_to u))]"

definition outcome_json :: "outcome \<Rightarrow> json" where
  "outcome_json c = JObj
     [(''schema_version'', JInt 1), (''transaction_id'', JStr (oc_id c)), (''outcome'', JStr (oc_outcome c)),
      (''reason'', JStr (oc_reason c)), (''completed_at'', JStr (oc_completed_at c)),
      (''client_name'', JStr (oc_client c)), (''profile_name'', JStr ''russia-ios-v1''),
      (''old_port'', JInt (oc_old_port c)), (''new_port'', JInt (oc_new_port c)),
      (''cleanup_phase'', JStr (oc_phase c)), (''profile_updates'', JList (map update_json (oc_updates c)))]"

definition outcome_fields :: "string list" where
  "outcome_fields =
     [''schema_version'', ''transaction_id'', ''outcome'', ''reason'', ''completed_at'', ''client_name'',
      ''profile_name'', ''old_port'', ''new_port'', ''cleanup_phase'', ''profile_updates'']"

definition cleanup_phases :: "string list" where
  "cleanup_phases = [''checkpoint'', ''metadata'', ''pending'', ''current'', ''complete'']"

definition outcome_reasons :: "string list" where
  "outcome_reasons = [''confirmed'', ''operator'', ''timeout'', ''activation-failed'', ''expiry'']"

definition update_revisions :: "string list \<Rightarrow> string \<Rightarrow> obj \<Rightarrow> (int \<times> int) result" where
  "update_revisions seen name m =
     (case (get m ''from_revision'', get m ''to_revision'') of
        (JInt before, JInt after) \<Rightarrow>
          if name \<in> set seen \<or> before < 1 \<or> after \<noteq> before + 1
          then Inl (AwgctlError ''invalid obfuscation transition profile update checkpoint'')
          else Inr (before, after)
      | _ \<Rightarrow> Inl (AwgctlError ''invalid obfuscation transition profile update checkpoint''))"

lemma update_revisions_Inr [result_simps]:
  "update_revisions seen name m = Inr (b, a) \<longleftrightarrow>
     get m ''from_revision'' = JInt b \<and> get m ''to_revision'' = JInt a \<and> name \<notin> set seen \<and> 1 \<le> b \<and> a = b + 1"
  by (cases "get m ''from_revision''"; cases "get m ''to_revision''") (auto simp: update_revisions_def)

fun normalize_updates :: "string list \<Rightarrow> json list \<Rightarrow> profile_update list result" where
  "normalize_updates seen [] = Inr []"
| "normalize_updates seen (v # vs) =
     andthen (fields_of [''name'', ''from_revision'', ''to_revision''] v
       ''invalid obfuscation transition profile update checkpoint'') (\<lambda>m.
     andthen (validate_client_name (get m ''name'')) (\<lambda>name.
     andthen (update_revisions seen name m) (\<lambda>(before, after).
     andthen (normalize_updates (name # seen) vs) (\<lambda>us.
     Inr (\<lparr>up_name = name, up_from = before, up_to = after\<rparr> # us)))))"

definition normalize_transition_outcome :: "json \<Rightarrow> outcome result" where
  "normalize_transition_outcome v =
     andthen (or_raise (as_obj v) (AwgctlError ''obfuscation transition outcome must be an object'')) (\<lambda>m.
     if \<not> keys_are m outcome_fields
     then Inl (AwgctlError ''obfuscation transition outcome fields are incomplete or unexpected'')
     else if get m ''schema_version'' \<noteq> JInt 1
     then Inl (AwgctlError ''unsupported obfuscation transition outcome schema'') else
     andthen (validate_transaction_id (get m ''transaction_id'')) (\<lambda>ident.
     andthen (matching (\<lambda>s. s \<in> {''confirmed'', ''rolled_back''}) (get m ''outcome'')
       ''invalid obfuscation transition outcome'') (\<lambda>res.
     andthen (matching (\<lambda>s. s \<in> set outcome_reasons) (get m ''reason'')
       ''invalid obfuscation transition outcome reason'') (\<lambda>reason.
     if (res = ''confirmed'') \<noteq> (reason = ''confirmed'')
     then Inl (AwgctlError ''inconsistent obfuscation transition outcome'') else
     andthen (transition_time (get m ''completed_at'') ''completed_at'') (\<lambda>completed.
     andthen (validate_client_name (get m ''client_name'')) (\<lambda>client.
     if get m ''profile_name'' \<noteq> JStr ''russia-ios-v1''
     then Inl (AwgctlError ''invalid obfuscation transition outcome profile'') else
     let port = ''invalid obfuscation transition outcome port'' in
     andthen (distinct_ports m port port port) (\<lambda>(old_port, new_port).
     andthen (matching (\<lambda>s. s \<in> set cleanup_phases) (get m ''cleanup_phase'')
       ''invalid obfuscation transition cleanup checkpoint'') (\<lambda>phase.
     andthen (or_raise (as_list (get m ''profile_updates''))
       (AwgctlError ''invalid obfuscation transition profile update checkpoint'')) (\<lambda>vs.
     andthen (normalize_updates [] vs) (\<lambda>updates.
     if map up_name updates \<noteq> sort (map up_name updates)
     then Inl (AwgctlError ''obfuscation transition profile update checkpoint is not canonical'')
     else if res = ''confirmed'' \<and> updates = []
     then Inl (AwgctlError ''confirmed transition outcome is missing profile updates'')
     else if res = ''rolled_back'' \<and> updates \<noteq> []
     then Inl (AwgctlError ''rolled-back transition outcome cannot update profiles'')
     else Inr \<lparr>oc_id = ident, oc_outcome = res, oc_reason = reason,
       oc_completed_at = the (as_str (get m ''completed_at'')), oc_client = client,
       oc_old_port = old_port, oc_new_port = new_port, oc_phase = phase, oc_updates = updates\<rparr>))))))))))"

section \<open>The activation journal\<close>

record journal =
  jn_id :: string
  jn_phase :: string
  jn_created_at :: string

definition journal_json :: "journal \<Rightarrow> json" where
  "journal_json j = JObj [(''schema_version'', JInt 1), (''transaction_id'', JStr (jn_id j)),
     (''phase'', JStr (jn_phase j)), (''created_at'', JStr (jn_created_at j))]"

definition activation_journal_phases :: "string list" where
  "activation_journal_phases =
     [''intent'', ''recovery-armed'', ''artifacts-installed'', ''reloaded'', ''active'', ''final-armed'']"

definition normalize_activation_journal :: "json \<Rightarrow> journal result" where
  "normalize_activation_journal v =
     (let message = ''activation recovery journal is invalid'' in
      andthen (fields_of [''schema_version'', ''transaction_id'', ''phase'', ''created_at''] v message) (\<lambda>m.
      if get m ''schema_version'' \<noteq> JInt 1 then Inl (AwgctlError message) else
      andthen (validate_transaction_id (get m ''transaction_id'')) (\<lambda>ident.
      andthen (matching (\<lambda>s. s \<in> set activation_journal_phases) (get m ''phase'') message) (\<lambda>phase.
      andthen (transition_time (get m ''created_at'') ''created_at'') (\<lambda>created.
      Inr \<lparr>jn_id = ident, jn_phase = phase, jn_created_at = the (as_str (get m ''created_at''))\<rparr>)))))"

section \<open>The service operation intent\<close>

record intent =
  si_operation :: string
  si_action :: string
  si_interface :: string
  si_phase :: string
  si_goal :: string
  si_expected :: "string list"
  si_next :: int
  si_transition :: "string option"
  si_generation :: string
  si_owner :: "(int \<times> int) option"
  si_pre_active :: bool
  si_pre_firewall :: bool
  si_created_at :: string
  si_updated_at :: string

definition intent_json :: "intent \<Rightarrow> json" where
  "intent_json i = JObj
     [(''schema_version'', JInt 1), (''operation_id'', JStr (si_operation i)),
      (''service_action'', JStr (si_action i)), (''interface'', JStr (si_interface i)),
      (''phase'', JStr (si_phase i)), (''goal'', JStr (si_goal i)),
      (''expected_actions'', JList (map JStr (si_expected i))), (''next_action'', JInt (si_next i)),
      (''transition_id'', optional JStr (si_transition i)), (''generation_sha256'', JStr (si_generation i)),
      (''owner_pid'', optional (\<lambda>p. JInt (fst p)) (si_owner i)),
      (''owner_start_ticks'', optional (\<lambda>p. JInt (snd p)) (si_owner i)),
      (''pre_service_active'', JBool (si_pre_active i)), (''pre_firewall_up'', JBool (si_pre_firewall i)),
      (''created_at'', JStr (si_created_at i)), (''updated_at'', JStr (si_updated_at i))]"

definition intent_fields :: "string list" where
  "intent_fields =
     [''schema_version'', ''operation_id'', ''service_action'', ''interface'', ''phase'', ''goal'',
      ''expected_actions'', ''next_action'', ''transition_id'', ''generation_sha256'', ''owner_pid'',
      ''owner_start_ticks'', ''pre_service_active'', ''pre_firewall_up'', ''created_at'', ''updated_at'']"

definition requested_actions :: "string \<Rightarrow> string list option" where
  "requested_actions a = map_of [(''start'', [''up'']), (''stop'', [''down'']), (''restart'', [''down'', ''up''])] a"

text \<open>The actions a service operation has to see: those requested, or one \<open>down\<close> to compensate.\<close>

definition expected_actions :: "string \<Rightarrow> string \<Rightarrow> string list" where
  "expected_actions goal action = (if goal = ''stopped'' then [''down''] else the (requested_actions action))"

definition intent_owner :: "string \<Rightarrow> obj \<Rightarrow> (int \<times> int) option result" where
  "intent_owner phase m =
     (if phase = ''verified'' then
        (if get m ''owner_pid'' \<noteq> JNull \<or> get m ''owner_start_ticks'' \<noteq> JNull
         then Inl (AwgctlError ''service operation recovery owner is invalid'') else Inr None)
      else
        andthen (integer_in 1 (2 ^ 31 - 1) (get m ''owner_pid'') ''service operation owner is invalid'') (\<lambda>pid.
        andthen (integer_in 1 (2 ^ 63 - 1) (get m ''owner_start_ticks'') ''service operation owner is invalid'') (\<lambda>ticks.
        Inr (Some (pid, ticks)))))"

definition normalize_service_operation_intent :: "json \<Rightarrow> intent result" where
  "normalize_service_operation_intent v =
     (let invalid = ''service operation intent is invalid'' in
      andthen (fields_of intent_fields v invalid) (\<lambda>m.
      if get m ''schema_version'' \<noteq> JInt 1 then Inl (AwgctlError invalid) else
      andthen (validate_transaction_id (get m ''operation_id'')) (\<lambda>operation.
      andthen (matching (\<lambda>s. requested_actions s \<noteq> None) (get m ''service_action'')
        ''service operation action is invalid'') (\<lambda>action.
      andthen (matching interface_re (get m ''interface'') ''service operation interface is invalid'') (\<lambda>interface.
      andthen (matching (\<lambda>s. s \<in> {''prepared'', ''invoking'', ''compensating'', ''verified''}) (get m ''phase'')
        ''service operation phase is invalid'') (\<lambda>phase.
      andthen (matching (\<lambda>s. s \<in> {''requested'', ''stopped''}) (get m ''goal'')
        ''service operation goal is invalid'') (\<lambda>goal.
      if phase = ''compensating'' \<and> goal \<noteq> ''stopped''
         \<or> phase \<in> {''prepared'', ''invoking''} \<and> goal \<noteq> ''requested''
      then Inl (AwgctlError ''service operation phase and goal are inconsistent'') else
      let expected = expected_actions goal action in
      if get m ''expected_actions'' \<noteq> JList (map JStr expected)
      then Inl (AwgctlError ''service operation action sequence is invalid'') else
      andthen (integer_in 0 (int (length expected)) (get m ''next_action'')
        ''service operation action progress is invalid'') (\<lambda>next.
      andthen (if get m ''transition_id'' = JNull then Inr None
        else andthen (validate_transaction_id (get m ''transition_id'')) (\<lambda>t. Inr (Some t))) (\<lambda>transition.
      andthen (matching sha256_re (get m ''generation_sha256'') ''service operation generation is invalid'') (\<lambda>generation.
      andthen (intent_owner phase m) (\<lambda>owner.
      andthen (or_raise (as_bool (get m ''pre_service_active''))
        (AwgctlError ''pre_service_active must be boolean'')) (\<lambda>pre_active.
      andthen (or_raise (as_bool (get m ''pre_firewall_up''))
        (AwgctlError ''pre_firewall_up must be boolean'')) (\<lambda>pre_firewall.
      andthen (transition_time (get m ''created_at'') ''created_at'') (\<lambda>created.
      andthen (transition_time (get m ''updated_at'') ''updated_at'') (\<lambda>updated.
      if updated < created then Inl (AwgctlError ''service operation timestamps are inconsistent'') else
      Inr \<lparr>si_operation = operation, si_action = action, si_interface = interface, si_phase = phase,
           si_goal = goal, si_expected = expected, si_next = next, si_transition = transition,
           si_generation = generation, si_owner = owner, si_pre_active = pre_active,
           si_pre_firewall = pre_firewall, si_created_at = the (as_str (get m ''created_at'')),
           si_updated_at = the (as_str (get m ''updated_at''))\<rparr>)))))))))))))))"

section \<open>What an accepted document satisfies\<close>

definition time_ok :: "string \<Rightarrow> bool" where
  "time_ok s \<longleftrightarrow> time_value s \<noteq> None"

definition ports_ok :: "int \<Rightarrow> int \<Rightarrow> bool" where
  "ports_ok old new \<longleftrightarrow> 1 \<le> old \<and> old \<le> 65535 \<and> 1024 \<le> new \<and> new \<le> 9999 \<and> new \<noteq> old"

definition capability_ok :: "capability \<Rightarrow> bool" where
  "capability_ok c \<longleftrightarrow> dotted_version (cap_tools c) \<and> dotted_version (cap_module c)"

definition pending_profile_ok :: "string \<Rightarrow> pending_profile \<Rightarrow> bool" where
  "pending_profile_ok root p \<longleftrightarrow> client_name_re (pp_name p) \<and> 1 \<le> pp_revision p
     \<and> pure_path (pp_config p) = pure_path (profile_root root (pp_name p) @ ''/'' @ pp_name p @ ''.conf'')
     \<and> pure_path (pp_qr p) = pure_path (profile_root root (pp_name p) @ ''/'' @ pp_name p @ ''.png'')"

definition activation_ok :: "string \<Rightarrow> activation \<Rightarrow> bool" where
  "activation_ok prepared a \<longleftrightarrow> time_ok (act_at a) \<and> time_ok (act_deadline a)
     \<and> the (time_value prepared) \<le> the (time_value (act_at a))
     \<and> the (time_value (act_deadline a)) - the (time_value (act_at a)) = ten_minutes
     \<and> (\<forall>n\<in>{act_rx a, act_tx a, act_handshake a}. 0 \<le> n \<and> n \<le> u64_max)"

definition transition_ok :: "transition \<Rightarrow> bool" where
  "transition_ok t \<longleftrightarrow>
     transaction_id_re (tr_id t) \<and> client_name_re (tr_client t) \<and> ports_ok (tr_old_port t) (tr_new_port t)
     \<and> backup_name_re (tr_backup_name t) \<and> sha256_re (tr_manifest t) \<and> sha256_re (tr_snapshot t)
     \<and> tr_boundary t \<in> {''lightsail'', ''equivalent-external-firewall''} \<and> capability_ok (tr_capability t)
     \<and> pure_path (tr_root t) = pure_path (transition_root (tr_id t))
     \<and> pure_path (tr_server_state t) = pure_path (transition_root (tr_id t) @ ''/server.json'')
     \<and> pure_path (tr_server_config t) = pure_path (transition_root (tr_id t) @ ''/awg0.conf'')
     \<and> pure_path (tr_header_key t) = pure_path (transition_root (tr_id t) @ ''/header-protection'')
     \<and> list_all (pending_profile_ok (transition_root (tr_id t))) (tr_profiles t)
     \<and> distinct (map pp_name (tr_profiles t)) \<and> sorted (map pp_name (tr_profiles t))
     \<and> tr_client t \<in> set (map pp_name (tr_profiles t))
     \<and> time_ok (tr_prepared_at t)
     \<and> (case tr_activation t of None \<Rightarrow> True | Some a \<Rightarrow> activation_ok (tr_prepared_at t) a)
     \<and> sha256_re (tr_prestate t) \<and> sha256_re (tr_pending_digest t)"

definition update_ok :: "profile_update \<Rightarrow> bool" where
  "update_ok u \<longleftrightarrow> client_name_re (up_name u) \<and> 1 \<le> up_from u \<and> up_to u = up_from u + 1"

definition outcome_ok :: "outcome \<Rightarrow> bool" where
  "outcome_ok c \<longleftrightarrow>
     transaction_id_re (oc_id c) \<and> oc_outcome c \<in> {''confirmed'', ''rolled_back''}
     \<and> oc_reason c \<in> set outcome_reasons \<and> (oc_outcome c = ''confirmed'' \<longleftrightarrow> oc_reason c = ''confirmed'')
     \<and> time_ok (oc_completed_at c) \<and> client_name_re (oc_client c) \<and> ports_ok (oc_old_port c) (oc_new_port c)
     \<and> oc_phase c \<in> set cleanup_phases \<and> list_all update_ok (oc_updates c)
     \<and> distinct (map up_name (oc_updates c)) \<and> sorted (map up_name (oc_updates c))
     \<and> (oc_outcome c = ''confirmed'' \<longleftrightarrow> oc_updates c \<noteq> [])"

definition journal_ok :: "journal \<Rightarrow> bool" where
  "journal_ok j \<longleftrightarrow> transaction_id_re (jn_id j) \<and> jn_phase j \<in> set activation_journal_phases
     \<and> time_ok (jn_created_at j)"

definition intent_ok :: "intent \<Rightarrow> bool" where
  "intent_ok i \<longleftrightarrow>
     transaction_id_re (si_operation i) \<and> requested_actions (si_action i) \<noteq> None \<and> interface_re (si_interface i)
     \<and> si_phase i \<in> {''prepared'', ''invoking'', ''compensating'', ''verified''}
     \<and> si_goal i \<in> {''requested'', ''stopped''}
     \<and> (si_phase i = ''compensating'' \<longrightarrow> si_goal i = ''stopped'')
     \<and> (si_phase i \<in> {''prepared'', ''invoking''} \<longrightarrow> si_goal i = ''requested'')
     \<and> si_expected i = expected_actions (si_goal i) (si_action i)
     \<and> 0 \<le> si_next i \<and> si_next i \<le> int (length (si_expected i))
     \<and> (\<forall>t. si_transition i = Some t \<longrightarrow> transaction_id_re t) \<and> sha256_re (si_generation i)
     \<and> (si_phase i = ''verified'' \<longleftrightarrow> si_owner i = None)
     \<and> (\<forall>p. si_owner i = Some p \<longrightarrow> 1 \<le> fst p \<and> fst p \<le> 2 ^ 31 - 1 \<and> 1 \<le> snd p \<and> snd p \<le> 2 ^ 63 - 1)
     \<and> time_ok (si_created_at i) \<and> time_ok (si_updated_at i)
     \<and> the (time_value (si_created_at i)) \<le> the (time_value (si_updated_at i))"

section \<open>The journal and the intent\<close>

lemma keys_are_self [simp]: "keys_are m (keys m)"
  by (simp add: keys_are_def)

lemma matching_JStr: "re s \<Longrightarrow> matching re (JStr s) message = Inr s"
  by (simp add: matching_def)

lemma integer_in_JInt: "lo \<le> n \<Longrightarrow> n \<le> hi \<Longrightarrow> integer_in lo hi (JInt n) message = Inr n"
  by (simp add: integer_in_def)

lemma transition_time_JStr: "time_value s = Some t \<Longrightarrow> transition_time (JStr s) field = Inr t"
  by (simp add: transition_time_def)

lemma guardE:
  assumes "(if b then Inl e else m) = Inr y"
  obtains "\<not> b" "m = Inr y"
  using assms by (auto split: if_splits)

lemma optional_id_ok:
  "(if v = JNull then Inr None else andthen (validate_transaction_id v) (\<lambda>t. Inr (Some t))) = Inr r \<Longrightarrow>
     \<forall>t. r = Some t \<longrightarrow> transaction_id_re t"
  by (auto simp: result_simps transaction_id.accepted_good split: if_splits)

lemma intent_owner_Inr:
  "intent_owner phase m = Inr p \<Longrightarrow> (phase = ''verified'' \<longleftrightarrow> p = None)
    \<and> (\<forall>q. p = Some q \<longrightarrow> 1 \<le> fst q \<and> fst q \<le> 2 ^ 31 - 1 \<and> 1 \<le> snd q \<and> snd q \<le> 2 ^ 63 - 1)"
  by (auto simp: intent_owner_def result_simps split: if_splits)

interpretation journal: validator normalize_activation_journal journal_json journal_ok
proof
  fix v j assume "normalize_activation_journal v = Inr j"
  then show "journal_ok j"
    unfolding normalize_activation_journal_def Let_def
    by (elim andthenE) (auto simp: result_simps journal_ok_def time_ok_def
        split: if_splits dest!: transaction_id.accepted_good)
next
  fix j assume "journal_ok j"
  then show "normalize_activation_journal (journal_json j) = Inr j"
    using transaction_id.good_accepted [of "jn_id j"]
    by (auto simp: normalize_activation_journal_def journal_json_def journal_ok_def time_ok_def
        fields_of_def keys_are_def matching_def transition_time_def)
qed

lemma requested_Some: "requested_actions a \<noteq> None \<longleftrightarrow> a \<in> {''start'', ''stop'', ''restart''}"
  by (auto simp: requested_actions_def)

lemma intent_eta:
  "si_expected i = e \<Longrightarrow>
   \<lparr>si_operation = si_operation i, si_action = si_action i, si_interface = si_interface i, si_phase = si_phase i,
    si_goal = si_goal i, si_expected = e, si_next = si_next i, si_transition = si_transition i,
    si_generation = si_generation i, si_owner = si_owner i, si_pre_active = si_pre_active i,
    si_pre_firewall = si_pre_firewall i, si_created_at = si_created_at i, si_updated_at = si_updated_at i\<rparr> = i"
  by (cases i) simp

interpretation intent: validator normalize_service_operation_intent intent_json intent_ok
proof
  fix v i assume "normalize_service_operation_intent v = Inr i"
  then show "intent_ok i"
    unfolding normalize_service_operation_intent_def Let_def
    apply (elim andthenE guardE)
    apply (drule intent_owner_Inr optional_id_ok)+
    apply (simp only: sum.inject, hypsubst)
    apply (simp add: result_simps intent_ok_def time_ok_def validate_transaction_id_Inr del: insert_iff)
    apply (elim exE conjE)
    apply (simp del: insert_iff)
    done
next
  fix i assume i: "intent_ok i"
  let ?m = "the (as_obj (intent_json i))"
  have f: "fields_of intent_fields (intent_json i) e = Inr ?m" for e
    by (simp add: fields_of_def keys_are_def intent_json_def intent_fields_def)
  have o: "intent_owner (si_phase i) ?m = Inr (si_owner i)"
    using i by (auto simp: intent_owner_def intent_json_def intent_ok_def optional_def integer_in_def)
  have t: "(if get ?m ''transition_id'' = JNull then Inr None
      else andthen (validate_transaction_id (get ?m ''transition_id'')) (\<lambda>t. Inr (Some t))) = Inr (si_transition i)"
    using i by (cases "si_transition i")
      (auto simp: intent_ok_def intent_json_def optional_def transaction_id.good_accepted)
  have nx: "si_next i \<le> int (length (expected_actions (si_goal i) (si_action i)))"
    using i unfolding intent_ok_def by (elim conjE) simp
  obtain c u where tv: "time_value (si_created_at i) = Some c" "time_value (si_updated_at i) = Some u" "c \<le> u"
    using i by (auto simp: intent_ok_def time_ok_def)
  have g: "get ?m ''schema_version'' = JInt 1" "get ?m ''operation_id'' = JStr (si_operation i)"
    "get ?m ''service_action'' = JStr (si_action i)" "get ?m ''interface'' = JStr (si_interface i)"
    "get ?m ''phase'' = JStr (si_phase i)" "get ?m ''goal'' = JStr (si_goal i)"
    "get ?m ''expected_actions'' = JList (map JStr (si_expected i))" "get ?m ''next_action'' = JInt (si_next i)"
    "get ?m ''generation_sha256'' = JStr (si_generation i)" "get ?m ''pre_service_active'' = JBool (si_pre_active i)"
    "get ?m ''pre_firewall_up'' = JBool (si_pre_firewall i)" "get ?m ''created_at'' = JStr (si_created_at i)"
    "get ?m ''updated_at'' = JStr (si_updated_at i)"
    by (simp_all add: intent_json_def)
  show "normalize_service_operation_intent (intent_json i) = Inr i"
    using i tv nx unfolding intent_ok_def
    by (simp add: normalize_service_operation_intent_def f o t g matching_JStr integer_in_JInt transition_time_JStr
        transaction_id.good_accepted Let_def intent_eta del: insert_iff)
qed

section \<open>The outcome\<close>

lemma distinct_ports_Inr [result_simps]:
  "distinct_ports m a b c = Inr (old, new) \<longleftrightarrow>
     get m ''old_port'' = JInt old \<and> get m ''new_port'' = JInt new \<and> ports_ok old new"
  by (auto simp: distinct_ports_def result_simps ports_ok_def)

lemma normalize_updates_ok:
  "normalize_updates seen vs = Inr us \<Longrightarrow>
     list_all update_ok us \<and> distinct (map up_name us) \<and> set (map up_name us) \<inter> set seen = {}"
proof (induction vs arbitrary: seen us)
  case Nil
  then show ?case by simp
next
  case (Cons v vs)
  from Cons.prems obtain name before after us' where
    n: "client_name_re name" "name \<notin> set seen" "1 \<le> before" "after = before + 1"
    and r: "normalize_updates (name # seen) vs = Inr us'"
    and u: "us = \<lparr>up_name = name, up_from = before, up_to = after\<rparr> # us'"
    by (auto simp: result_simps validate_client_name_Inr)
  from Cons.IH [OF r] n show ?case by (auto simp: u update_ok_def)
qed

lemma update_json_fields:
  "fields_of [''name'', ''from_revision'', ''to_revision''] (update_json u) e = Inr (the (as_obj (update_json u)))"
  "get (the (as_obj (update_json u))) ''name'' = JStr (up_name u)"
  "get (the (as_obj (update_json u))) ''from_revision'' = JInt (up_from u)"
  "get (the (as_obj (update_json u))) ''to_revision'' = JInt (up_to u)"
  by (simp_all add: update_json_def fields_of_def keys_are_def)

lemma normalize_updates_good:
  "list_all update_ok us \<Longrightarrow> distinct (map up_name us) \<Longrightarrow> set (map up_name us) \<inter> set seen = {} \<Longrightarrow>
     normalize_updates seen (map update_json us) = Inr us"
proof (induction us arbitrary: seen)
  case Nil
  then show ?case by simp
next
  case (Cons u us)
  have "normalize_updates (up_name u # seen) (map update_json us) = Inr us"
    using Cons.prems by (intro Cons.IH) auto
  moreover have "update_revisions seen (up_name u) (the (as_obj (update_json u))) = Inr (up_from u, up_to u)"
    using Cons.prems by (auto simp: update_revisions_Inr update_json_fields update_ok_def)
  moreover have "client_name_re (up_name u)" using Cons.prems by (simp add: update_ok_def)
  ultimately show ?case
    by (cases u) (simp add: update_json_fields client_name.good_accepted)
qed

lemma outcome_eta:
  "\<lparr>oc_id = oc_id c, oc_outcome = oc_outcome c, oc_reason = oc_reason c, oc_completed_at = oc_completed_at c,
    oc_client = oc_client c, oc_old_port = oc_old_port c, oc_new_port = oc_new_port c, oc_phase = oc_phase c,
    oc_updates = oc_updates c\<rparr> = c"
  by (cases c) simp

interpretation outcome: validator normalize_transition_outcome outcome_json outcome_ok
proof
  fix v c assume "normalize_transition_outcome v = Inr c"
  then show "outcome_ok c"
    unfolding normalize_transition_outcome_def Let_def
    apply (elim andthen_prodE andthenE guardE)
    apply (drule normalize_updates_ok)
    apply (simp only: sum.inject, hypsubst)
    apply (simp add: result_simps outcome_ok_def time_ok_def transaction_id.accepted_good
        client_name.accepted_good sorted_sort_id del: insert_iff)
    apply (elim exE conjE)
    apply (simp del: insert_iff)
    apply (metis sorted_sort empty_iff insert_iff)
    done
next
  fix c assume c: "outcome_ok c"
  define m where "m = the (as_obj (outcome_json c))"
  obtain t where tv: "time_value (oc_completed_at c) = Some t" using c by (auto simp: outcome_ok_def time_ok_def)
  have k: "as_obj (outcome_json c) = Some m" "keys_are m outcome_fields"
    by (simp_all add: keys_are_def outcome_json_def outcome_fields_def m_def)
  have g: "get m ''schema_version'' = JInt 1" "get m ''transaction_id'' = JStr (oc_id c)"
    "get m ''outcome'' = JStr (oc_outcome c)" "get m ''reason'' = JStr (oc_reason c)"
    "get m ''completed_at'' = JStr (oc_completed_at c)" "get m ''client_name'' = JStr (oc_client c)"
    "get m ''profile_name'' = JStr ''russia-ios-v1''" "get m ''cleanup_phase'' = JStr (oc_phase c)"
    "get m ''profile_updates'' = JList (map update_json (oc_updates c))"
    by (simp_all add: outcome_json_def m_def)
  have p: "distinct_ports m a b e = Inr (oc_old_port c, oc_new_port c)" for a b e
    using c by (simp add: result_simps outcome_ok_def) (simp add: outcome_json_def m_def)
  have u: "normalize_updates [] (map update_json (oc_updates c)) = Inr (oc_updates c)"
    using c by (intro normalize_updates_good) (simp_all add: outcome_ok_def)
  have st: "sort (map up_name (oc_updates c)) = map up_name (oc_updates c)"
    using c by (intro sorted_sort_id) (simp add: outcome_ok_def)
  have ok: "transaction_id_re (oc_id c)" "client_name_re (oc_client c)" "oc_phase c \<in> set cleanup_phases"
    "oc_outcome c \<in> {''confirmed'', ''rolled_back''}" "oc_reason c \<in> set outcome_reasons"
    using c unfolding outcome_ok_def by - (elim conjE, assumption)+
  have r: "((oc_outcome c = ''confirmed'') = (oc_reason c \<noteq> ''confirmed'')) = False"
    "(oc_outcome c = ''confirmed'' \<and> oc_updates c = []) = False"
    "(oc_outcome c = ''rolled_back'' \<and> oc_updates c \<noteq> []) = False"
    using c by (auto simp: outcome_ok_def)
  show "normalize_transition_outcome (outcome_json c) = Inr c"
    by (simp only: normalize_transition_outcome_def k g p u st r ok matching_JStr transition_time_JStr [OF tv]
        transaction_id.good_accepted client_name.good_accepted Let_def outcome_eta or_raise_simps andthen.simps
        as_list.simps as_str.simps option.sel if_False simp_thms prod.case)
qed

section \<open>The transition\<close>

lemma normalize_profiles_ok:
  "normalize_profiles root seen vs = Inr ps \<Longrightarrow>
     list_all (pending_profile_ok root) ps \<and> distinct (map pp_name ps) \<and> set (map pp_name ps) \<inter> set seen = {}
     \<and> length ps = length vs"
proof (induction vs arbitrary: seen ps)
  case Nil
  then show ?case by simp
next
  case (Cons v vs)
  let ?base = "\<lambda>name. profile_root root name @ ''/'' @ name"
  from Cons.prems obtain name config qr revision ps' where
    n: "client_name_re name" "name \<notin> set seen" "1 \<le> revision"
      "pure_path config = pure_path (?base name @ ''.conf'')" "pure_path qr = pure_path (?base name @ ''.png'')"
    and r: "normalize_profiles root (name # seen) vs = Inr ps'"
    and p: "ps = \<lparr>pp_name = name, pp_config = config, pp_qr = qr, pp_revision = revision\<rparr> # ps'"
    by (auto simp: Let_def result_simps validate_client_name_Inr)
  from Cons.IH [OF r] n show ?case by (auto simp: p pending_profile_ok_def)
qed

lemma profile_json_fields:
  "fields_of [''name'', ''config'', ''qr'', ''current_revision''] (profile_json p) e = Inr (the (as_obj (profile_json p)))"
  "get (the (as_obj (profile_json p))) ''name'' = JStr (pp_name p)"
  "get (the (as_obj (profile_json p))) ''config'' = JStr (pp_config p)"
  "get (the (as_obj (profile_json p))) ''qr'' = JStr (pp_qr p)"
  "get (the (as_obj (profile_json p))) ''current_revision'' = JInt (pp_revision p)"
  by (simp_all add: profile_json_def fields_of_def keys_are_def)

lemma path_matching_JStr: "pure_path s = pure_path expected \<Longrightarrow> path_matching expected (JStr s) message = Inr s"
  by (simp add: path_matching_def matching_def)

lemma normalize_profiles_good:
  "list_all (pending_profile_ok root) ps \<Longrightarrow> distinct (map pp_name ps) \<Longrightarrow> set (map pp_name ps) \<inter> set seen = {} \<Longrightarrow>
     normalize_profiles root seen (map profile_json ps) = Inr ps"
proof (induction ps arbitrary: seen)
  case Nil
  then show ?case by simp
next
  case (Cons p ps)
  have IH: "normalize_profiles root (pp_name p # seen) (map profile_json ps) = Inr ps"
    using Cons.prems by (intro Cons.IH) auto
  have r: "profile_revision seen (pp_name p) (the (as_obj (profile_json p))) = Inr (pp_revision p)"
    using Cons.prems by (auto simp: profile_revision_Inr profile_json_fields pending_profile_ok_def)
  have p: "client_name_re (pp_name p)"
    "pure_path (pp_config p) = pure_path (profile_root root (pp_name p) @ ''/'' @ pp_name p @ ''.conf'')"
    "pure_path (pp_qr p) = pure_path (profile_root root (pp_name p) @ ''/'' @ pp_name p @ ''.png'')"
    using Cons.prems by (simp_all add: pending_profile_ok_def)
  have "\<lparr>pp_name = pp_name p, pp_config = pp_config p, pp_qr = pp_qr p, pp_revision = pp_revision p\<rparr> = p"
    by (cases p) simp
  then show ?case
    by (simp add: profile_json_fields client_name.good_accepted p r IH Let_def path_matching_JStr)
qed

lemma normalize_capability_ok: "normalize_capability v = Inr c \<Longrightarrow> capability_ok c"
  unfolding normalize_capability_def
  by (elim andthenE guardE) (auto simp: capability_ok_def parse_awg_tools_version_def parse_awg_module_version_def
      split: option.split_asm if_splits)

definition capability_json :: "capability \<Rightarrow> json" where
  "capability_json c = JObj [(''policy_version'', JInt 1), (''tools_version'', JStr (cap_tools c)),
     (''module_version'', JStr (cap_module c)), (''qualified'', JBool True)]"

lemma normalize_capability_good:
  assumes "capability_ok c"
  shows "normalize_capability (capability_json c) = Inr c"
proof -
  let ?m = "[(''policy_version'', JInt 1), (''tools_version'', JStr (cap_tools c)),
     (''module_version'', JStr (cap_module c)), (''qualified'', JBool True)]"
  have f: "fields_of [''policy_version'', ''tools_version'', ''module_version'', ''qualified''] (capability_json c) e
    = Inr ?m" for e by (simp add: fields_of_def keys_are_def capability_json_def)
  have g: "get ?m ''policy_version'' = JInt 1" "get ?m ''tools_version'' = JStr (cap_tools c)"
    "get ?m ''module_version'' = JStr (cap_module c)" "get ?m ''qualified'' = JBool True" by simp_all
  have p: "parse_awg_tools_version (''amneziawg-tools v'' @ cap_tools c @ '' - https://amnezia.org\<newline>'') = Inr (cap_tools c)"
    "parse_awg_module_version (cap_module c @ ''\<newline>'') = Inr (cap_module c)"
    using assms unfolding parse_tools_text parse_module_text by (simp_all add: capability_ok_def)
  have e: "\<lparr>cap_tools = cap_tools c, cap_module = cap_module c\<rparr> = c" by (cases c) simp
  show ?thesis
    unfolding normalize_capability_def f andthen.simps g json.case p simp_thms if_False e ..
qed

lemma normalize_activation_ok:
  assumes "normalize_activation state prepared m = Inr act" and "state \<in> {''prepared'', ''active''}"
    and "time_value s = Some prepared"
  shows "(state = ''prepared'' \<longleftrightarrow> act = None) \<and> (\<forall>a. act = Some a \<longrightarrow> activation_ok s a)"
proof (cases "state = ''prepared''")
  case True
  with assms(1) show ?thesis by (simp add: normalize_activation_def Let_def split: if_splits)
next
  case False
  from assms(1) False show ?thesis
    unfolding normalize_activation_def Let_def
    by (auto elim!: andthenE guardE simp: result_simps activation_ok_def time_ok_def assms(3) split: if_splits)
qed


lemma normalize_activation_good:
  assumes "time_value s = Some prepared"
    and "get m ''activated_at'' = optional (\<lambda>a. JStr (act_at a)) act"
    and "get m ''deadline_at'' = optional (\<lambda>a. JStr (act_deadline a)) act"
    and "get m ''pre_rx'' = optional (\<lambda>a. JInt (act_rx a)) act"
    and "get m ''pre_tx'' = optional (\<lambda>a. JInt (act_tx a)) act"
    and "get m ''pre_handshake'' = optional (\<lambda>a. JInt (act_handshake a)) act"
    and "case act of None \<Rightarrow> True | Some a \<Rightarrow> activation_ok s a"
  shows "normalize_activation (if act = None then ''prepared'' else ''active'') prepared m = Inr act"
proof (cases act)
  case None
  with assms show ?thesis by (simp add: normalize_activation_def optional_def)
next
  case (Some a)
  with assms(7) obtain t d where t: "time_value (act_at a) = Some t" "time_value (act_deadline a) = Some d"
    "prepared \<le> t" "d - t = ten_minutes"
    by (auto simp: activation_ok_def time_ok_def assms(1))
  have c: "integer_in 0 u64_max (JInt n) e = Inr n" if "n \<in> {act_rx a, act_tx a, act_handshake a}" for n e
    using assms(7) Some that by (auto simp: activation_ok_def integer_in_def)
  have e: "\<lparr>act_at = act_at a, act_deadline = act_deadline a, act_rx = act_rx a, act_tx = act_tx a,
    act_handshake = act_handshake a\<rparr> = a" by (cases a) simp
  show ?thesis
    using assms(2-6) t Some
    by (simp add: normalize_activation_def optional_def transition_time_JStr Let_def c e)
qed

lemma transition_eta:
  "\<lparr>tr_id = tr_id t, tr_client = tr_client t, tr_old_port = tr_old_port t, tr_new_port = tr_new_port t,
    tr_backup_name = tr_backup_name t, tr_manifest = tr_manifest t, tr_snapshot = tr_snapshot t,
    tr_boundary = tr_boundary t, tr_capability = tr_capability t, tr_root = tr_root t,
    tr_server_state = tr_server_state t, tr_server_config = tr_server_config t, tr_header_key = tr_header_key t,
    tr_profiles = tr_profiles t, tr_prepared_at = tr_prepared_at t, tr_activation = tr_activation t,
    tr_prestate = tr_prestate t, tr_pending_digest = tr_pending_digest t\<rparr> = t"
  by (cases t) simp

lemma normalize_transition_document_ok:
  assumes "normalize_transition_document v = Inr t"
  shows "transition_ok t"
  using assms unfolding normalize_transition_document_def Let_def
  apply (elim andthen_prodE andthenE guardE)
  apply (drule normalize_profiles_ok normalize_capability_ok)+
  apply (simp only: sum.inject, hypsubst)
  apply (simp add: result_simps transition_ok_def time_ok_def transaction_id.accepted_good
      client_name.accepted_good del: insert_iff)
  apply (elim exE conjE)
  apply (drule normalize_activation_ok, assumption, assumption)
  apply (simp del: insert_iff split: option.split)
  apply (metis sorted_sort)
  done


lemma normalize_transition_document_good:
  assumes t: "transition_ok t"
  shows "normalize_transition_document (transition_json t) = Inr t"
proof -
  define m where "m = the (as_obj (transition_json t))"
  define pm where "pm = [(''root'', JStr (tr_root t)), (''server_state'', JStr (tr_server_state t)),
        (''server_config'', JStr (tr_server_config t)), (''header_key'', JStr (tr_header_key t)),
        (''profiles'', JList (map profile_json (tr_profiles t)))]"
  define im where "im = [(''manifest_sha256'', JStr (tr_manifest t)), (''snapshot_sha256'', JStr (tr_snapshot t))]"
  have k: "as_obj (transition_json t) = Some m" "keys_are m transition_fields"
    by (simp_all add: keys_are_def transition_json_def transition_fields_def m_def)
  have g: "get m ''schema_version'' = JInt 1" "get m ''transaction_id'' = JStr (tr_id t)"
    "get m ''state'' = JStr (tr_state t)" "get m ''mode'' = JStr ''awg31''"
    "get m ''profile_name'' = JStr ''russia-ios-v1''" "get m ''client_name'' = JStr (tr_client t)"
    "get m ''backup_name'' = JStr (tr_backup_name t)" "get m ''backup_identity'' = JObj im"
    "get m ''pending'' = JObj pm" "get m ''ingress_boundary'' = JStr (tr_boundary t)"
    "get m ''capability'' = capability_json (tr_capability t)" "get m ''prepared_at'' = JStr (tr_prepared_at t)"
    "get m ''prestate_sha256'' = JStr (tr_prestate t)" "get m ''pending_sha256'' = JStr (tr_pending_digest t)"
    by (simp_all add: transition_json_def m_def pm_def im_def capability_json_def)
  have gp: "get pm ''root'' = JStr (tr_root t)" "get pm ''server_state'' = JStr (tr_server_state t)"
    "get pm ''server_config'' = JStr (tr_server_config t)" "get pm ''header_key'' = JStr (tr_header_key t)"
    "get pm ''profiles'' = JList (map profile_json (tr_profiles t))"
    "fields_of [''root'', ''server_state'', ''server_config'', ''header_key'', ''profiles''] (JObj pm) e = Inr pm" for e
    by (simp_all add: pm_def fields_of_def keys_are_def)
  have gi: "get im ''manifest_sha256'' = JStr (tr_manifest t)" "get im ''snapshot_sha256'' = JStr (tr_snapshot t)"
    "fields_of [''manifest_sha256'', ''snapshot_sha256''] (JObj im) e = Inr im" for e
    by (simp_all add: im_def fields_of_def keys_are_def)
  have ok: "transaction_id_re (tr_id t)" "client_name_re (tr_client t)" "backup_name_re (tr_backup_name t)"
    "sha256_re (tr_manifest t)" "sha256_re (tr_snapshot t)"
    "tr_boundary t \<in> {''lightsail'', ''equivalent-external-firewall''}"
    "pure_path (tr_root t) = pure_path (transition_root (tr_id t))"
    "pure_path (tr_server_state t) = pure_path (transition_root (tr_id t) @ ''/server.json'')"
    "pure_path (tr_server_config t) = pure_path (transition_root (tr_id t) @ ''/awg0.conf'')"
    "pure_path (tr_header_key t) = pure_path (transition_root (tr_id t) @ ''/header-protection'')"
    "tr_client t \<in> set (map pp_name (tr_profiles t))" "sha256_re (tr_prestate t)" "sha256_re (tr_pending_digest t)"
    using t unfolding transition_ok_def by - (elim conjE, assumption)+
  have st: "tr_state t \<in> {''prepared'', ''active''}" by (simp add: tr_state_def)
  have p: "distinct_ports m a b e = Inr (tr_old_port t, tr_new_port t)" for a b e
    using t by (simp add: result_simps transition_ok_def) (simp add: transition_json_def m_def)
  have c: "normalize_capability (capability_json (tr_capability t)) = Inr (tr_capability t)"
    using t by (intro normalize_capability_good) (simp add: transition_ok_def)
  have ps: "normalize_profiles (transition_root (tr_id t)) [] (map profile_json (tr_profiles t)) = Inr (tr_profiles t)"
    using t by (intro normalize_profiles_good) (simp_all add: transition_ok_def)
  have ne: "nonempty_list (JList (map profile_json (tr_profiles t))) = Inr (map profile_json (tr_profiles t))"
    using ok(11) by (auto simp: nonempty_list_def)
  have so: "sort (map pp_name (tr_profiles t)) = map pp_name (tr_profiles t)"
    using t by (intro sorted_sort_id) (simp add: transition_ok_def)
  obtain tp where tv: "time_value (tr_prepared_at t) = Some tp" using t by (auto simp: transition_ok_def time_ok_def)
  have a: "normalize_activation (tr_state t) tp m = Inr (tr_activation t)"
    unfolding tr_state_def using t
    by (intro normalize_activation_good [OF tv]) (simp_all add: transition_ok_def, simp_all add: transition_json_def m_def)
  show ?thesis
    by (simp only: normalize_transition_document_def k g gp gi ok st p c ps ne so a matching_JStr
        path_matching_JStr transition_time_JStr [OF tv] transaction_id.good_accepted client_name.good_accepted
        Let_def transition_eta or_raise_simps andthen.simps as_str.simps option.sel if_False simp_thms prod.case)
qed

interpretation transition: validator normalize_transition_document transition_json transition_ok
  by unfold_locales (fact normalize_transition_document_ok, fact normalize_transition_document_good)

section \<open>Accepted documents are canonical\<close>

text \<open>
  C9: An accepted transition document satisfies the complete contract: identifiers, digests and
  paths of the protected layout, distinct ports, a canonical set of distinct managed profiles that
  contains the target client, counters of 64 bits, and, when it is active, a deadline exactly ten
  minutes after an activation that does not precede the preparation. The document written from it
  is accepted again and read back unchanged.
\<close>

theorem normalize_transition_document_strict:
  assumes "normalize_transition_document v = Inr t"
  shows "transition_ok t \<and> normalize_transition_document (transition_json t) = Inr t"
  using transition.accepted_good [OF assms] transition.fixpoint [OF assms] by blast

definition sample_id :: string where
  "sample_id = replicate 32 CHR ''a''"

definition sample_sha :: string where
  "sample_sha = replicate 64 CHR ''b''"

definition sample_transition :: transition where
  "sample_transition =
     \<lparr>tr_id = sample_id, tr_client = ''phone'', tr_old_port = 51820, tr_new_port = 4500,
      tr_backup_name = ''backup-1'', tr_manifest = sample_sha, tr_snapshot = sample_sha,
      tr_boundary = ''lightsail'', tr_capability = \<lparr>cap_tools = ''3.1.20260812'', cap_module = ''3.1.20260812''\<rparr>,
      tr_root = transition_root sample_id, tr_server_state = transition_root sample_id @ ''/server.json'',
      tr_server_config = transition_root sample_id @ ''/awg0.conf'',
      tr_header_key = transition_root sample_id @ ''//header-protection'',
      tr_profiles = [\<lparr>pp_name = ''phone'',
        pp_config = transition_root sample_id @ ''/clients/phone/phone.conf'',
        pp_qr = transition_root sample_id @ ''/clients/phone/phone.png'', pp_revision = 3\<rparr>],
      tr_prepared_at = ''2026-01-01T00:00:00Z'', tr_activation = None,
      tr_prestate = sample_sha, tr_pending_digest = sample_sha\<rparr>"

definition sample_activation :: activation where
  "sample_activation =
     \<lparr>act_at = ''2026-01-01T00:05:00Z'', act_deadline = ''2026-01-01T00:15:00Z'', act_rx = 10, act_tx = 20,
      act_handshake = 0\<rparr>"

lemma sample_times:
  "time_value ''2026-01-01T00:00:00Z'' = Some (739617 * day_us)"
  "time_value ''2026-01-01T00:05:00Z'' = Some (739617 * day_us + 300000000)"
  "time_value ''2026-01-01T00:15:00Z'' = Some (739617 * day_us + 900000000)"
  by code_simp+

lemma sample_res: "transaction_id_re sample_id" "sha256_re sample_sha" "client_name_re ''phone''"
  "backup_name_re ''backup-1''" "dotted_version ''3.1.20260812''"
  by code_simp+

lemma sample_paths:
  "pure_path (transition_root sample_id @ ''//header-protection'') = pure_path (transition_root sample_id @ ''/header-protection'')"
  "profile_root (transition_root sample_id) ''phone'' @ ''/phone.conf'' = transition_root sample_id @ ''/clients/phone/phone.conf''"
  "profile_root (transition_root sample_id) ''phone'' @ ''/phone.png'' = transition_root sample_id @ ''/clients/phone/phone.png''"
  by code_simp (simp_all add: profile_root_def)

lemma sample_transition_ok: "transition_ok sample_transition"
proof -
  have "pending_profile_ok (transition_root sample_id) \<lparr>pp_name = ''phone'',
        pp_config = transition_root sample_id @ ''/clients/phone/phone.conf'',
        pp_qr = transition_root sample_id @ ''/clients/phone/phone.png'', pp_revision = 3\<rparr>"
    using sample_paths(2,3) sample_res by (simp add: pending_profile_ok_def)
  then show ?thesis
    by (simp add: transition_ok_def sample_transition_def sample_res ports_ok_def capability_ok_def
        time_ok_def sample_times sample_paths(1))
qed

lemma sample_active_ok: "transition_ok (sample_transition\<lparr>tr_activation := Some sample_activation\<rparr>)"
proof -
  have "activation_ok ''2026-01-01T00:00:00Z'' sample_activation"
    by (simp add: activation_ok_def sample_activation_def sample_times time_ok_def ten_minutes_def u64_max_def)
  then show ?thesis using sample_transition_ok by (simp add: transition_ok_def sample_transition_def)
qed

theorem normalize_transition_document_strict_witness:
  "transition_ok (sample_transition\<lparr>tr_activation := Some sample_activation\<rparr>)
   \<and> normalize_transition_document (transition_json (sample_transition\<lparr>tr_activation := Some sample_activation\<rparr>))
     = Inr (sample_transition\<lparr>tr_activation := Some sample_activation\<rparr>)"
  by (rule normalize_transition_document_strict [OF transition.good_accepted [OF sample_active_ok]])

text \<open>
  An accepted service operation intent is consistent: its phase fits its goal, the expected
  hook actions are those of the requested action (or one \<open>down\<close> when it compensates), the progress
  lies in that list, it has an owner exactly while it is not verified, and it was not updated before
  it was created. It is read back unchanged from its own JSON form.
\<close>

theorem normalize_service_operation_intent_strict:
  assumes "normalize_service_operation_intent v = Inr i"
  shows "intent_ok i \<and> normalize_service_operation_intent (intent_json i) = Inr i"
  using intent.accepted_good [OF assms] intent.fixpoint [OF assms] by blast

definition sample_intent :: intent where
  "sample_intent =
     \<lparr>si_operation = sample_id, si_action = ''restart'', si_interface = ''awg0'', si_phase = ''prepared'',
      si_goal = ''requested'', si_expected = [''down'', ''up''], si_next = 0, si_transition = None,
      si_generation = sample_sha, si_owner = Some (4711, 99), si_pre_active = True, si_pre_firewall = True,
      si_created_at = ''2026-01-01T00:00:00Z'', si_updated_at = ''2026-01-01T00:05:00Z''\<rparr>"

lemma sample_intent_ok: "intent_ok sample_intent"
proof -
  have "interface_re ''awg0''" by code_simp
  then show ?thesis
    by (simp add: intent_ok_def sample_intent_def sample_res sample_times time_ok_def expected_actions_def
        requested_actions_def)
qed

theorem normalize_service_operation_intent_strict_witness:
  "intent_ok sample_intent \<and> normalize_service_operation_intent (intent_json sample_intent) = Inr sample_intent"
  by (rule normalize_service_operation_intent_strict [OF intent.good_accepted [OF sample_intent_ok]])

end
