(* ===== verification/Effects.thy ===== *)
theory Effects
  imports Prelude
begin

text \<open>
  Stateful code that may raise and may be killed. A computation takes the host state and possibly a
  fault with the number of durable writes that succeed before it: a crash kills the process before
  the next write, a refused write raises and changes nothing, an unsynced one raises after the
  change took place (the file was replaced, the directory could not be synced). Without a fault the
  computation runs to its end. No handler catches a kill. The rules of a total-correctness triple
  with a condition for the states a fault leaves carry the proofs about such code.
\<close>

section \<open>Computations\<close>

datatype 'a run = Done 'a | Raised error | Killed

datatype fault = Crash | Refused | Unsynced

type_synonym 's config = "(nat \<times> fault) option \<times> 's"

type_synonym ('s, 'a) eff = "'s config \<Rightarrow> 'a run \<times> 's config"

definition ret :: "'a \<Rightarrow> ('s, 'a) eff" where
  "ret x c = (Done x, c)"

definition raise :: "error \<Rightarrow> ('s, 'a) eff" where
  "raise e c = (Raised e, c)"

definition lift :: "'a result \<Rightarrow> ('s, 'a) eff" where
  "lift r c = (case r of Inl e \<Rightarrow> (Raised e, c) | Inr x \<Rightarrow> (Done x, c))"

definition bindE :: "('s, 'a) eff \<Rightarrow> ('a \<Rightarrow> ('s, 'b) eff) \<Rightarrow> ('s, 'b) eff" where
  "bindE m f c =
     (case m c of
        (Done x, c') \<Rightarrow> f x c'
      | (Raised e, c') \<Rightarrow> (Raised e, c')
      | (Killed, c') \<Rightarrow> (Killed, c'))"

text \<open>Reading the state, and one durable change of it.\<close>

definition query :: "('s \<Rightarrow> 'a) \<Rightarrow> ('s, 'a) eff" where
  "query g c = (Done (g (snd c)), c)"

definition durable :: "('s \<Rightarrow> 's) \<Rightarrow> ('s, unit) eff" where
  "durable f c =
     (case fst c of
        None \<Rightarrow> (Done (), (None, f (snd c)))
      | Some (n, k) \<Rightarrow>
          if 0 < n then (Done (), (Some (n - 1, k), f (snd c)))
          else case k of
            Crash \<Rightarrow> (Killed, c)
          | Refused \<Rightarrow> (Raised OSError, (None, snd c))
          | Unsynced \<Rightarrow> (Raised OSError, (None, f (snd c))))"

text \<open>A reader that may raise, and a check.\<close>

definition reading :: "('s \<Rightarrow> 'a result) \<Rightarrow> ('s, 'a) eff" where
  "reading f = bindE (query f) lift"

definition ensure :: "bool \<Rightarrow> string \<Rightarrow> ('s, unit) eff" where
  "ensure b message = lift (check b (AwgctlError message))"

text \<open>\<open>try: m except E: h\<close> for the exceptions a predicate selects; \<open>contextlib.suppress\<close>.\<close>

definition handle :: "(error \<Rightarrow> bool) \<Rightarrow> ('s, 'a) eff \<Rightarrow> (error \<Rightarrow> ('s, 'a) eff) \<Rightarrow> ('s, 'a) eff" where
  "handle p m h c =
     (case m c of
        (Raised e, c') \<Rightarrow> if p e then h e c' else (Raised e, c')
      | other \<Rightarrow> other)"

definition suppress :: "(error \<Rightarrow> bool) \<Rightarrow> ('s, unit) eff \<Rightarrow> ('s, unit) eff" where
  "suppress p m = handle p m (\<lambda>e. ret ())"

definition any_error :: "error \<Rightarrow> bool" where
  "any_error e = True"

primrec for_each :: "('a \<Rightarrow> ('s, unit) eff) \<Rightarrow> 'a list \<Rightarrow> ('s, unit) eff" where
  "for_each f [] = ret ()"
| "for_each f (x # xs) = bindE (f x) (\<lambda>_. for_each f xs)"

section \<open>Equations\<close>

lemma bindE_simps [simp]:
  "bindE (ret x) f = f x"
  "bindE (raise e) f = raise e"
  "bindE (lift (Inr x)) f = f x"
  "bindE (lift (Inl e)) f = raise e"
  by (simp_all add: fun_eq_iff bindE_def ret_def raise_def lift_def)

lemma lift_simps [simp]: "lift (Inr x) = ret x" "lift (Inl e) = raise e"
  by (simp_all add: fun_eq_iff ret_def raise_def lift_def)

lemma bindE_assoc: "bindE (bindE m f) g = bindE m (\<lambda>x. bindE (f x) g)"
  by (auto simp: fun_eq_iff bindE_def split: run.splits prod.splits)

lemma bindE_ret [simp]: "bindE m ret = m"
  by (auto simp: fun_eq_iff bindE_def ret_def split: run.splits prod.splits)

lemma durable_free [simp]: "durable f (None, s) = (Done (), None, f s)"
  by (simp add: durable_def)

lemma ensure_simps [simp]: "ensure True message = ret ()" "ensure False message = raise (AwgctlError message)"
  by (simp_all add: ensure_def)

text \<open>Running a step from a configuration.\<close>

named_theorems run_simps

lemma run_steps [run_simps]:
  "ret x c = (Done x, c)"
  "raise e c = (Raised e, c)"
  "lift r c = (case r of Inl e \<Rightarrow> (Raised e, c) | Inr x \<Rightarrow> (Done x, c))"
  "query g c = (Done (g (snd c)), c)"
  "reading f c = (case f (snd c) of Inl e \<Rightarrow> (Raised e, c) | Inr x \<Rightarrow> (Done x, c))"
  "ensure b message c = (if b then (Done (), c) else (Raised (AwgctlError message), c))"
  by (simp_all add: ret_def raise_def lift_def query_def reading_def bindE_def ensure_def check_def split: sum.split)

lemma run_binds [run_simps]:
  "bindE (lift r) k c = (case r of Inl e \<Rightarrow> (Raised e, c) | Inr x \<Rightarrow> k x c)"
  "bindE (query h) g' c = g' (h (snd c)) c"
  "bindE (reading f) g c = (case f (snd c) of Inl e \<Rightarrow> (Raised e, c) | Inr x \<Rightarrow> g x c)"
  "bindE (ensure b message) n c = (if b then n () c else (Raised (AwgctlError message), c))"
  by (simp_all add: bindE_def run_steps split: sum.split)

section \<open>Triples\<close>

text \<open>
  From a state with \<open>P\<close>: when the computation ends, \<open>Q\<close> holds of the result and the state, and a run
  without a fault meets none; when it raises or is killed there was a fault, and \<open>K\<close> holds of the
  state it leaves.
\<close>

definition ends :: "('a \<Rightarrow> 's \<Rightarrow> bool) \<Rightarrow> ('s \<Rightarrow> bool) \<Rightarrow> bool \<Rightarrow> 'a run \<times> 's config \<Rightarrow> bool" where
  "ends Q K free c =
     (case c of
        (Done x, (b, s)) \<Rightarrow> Q x s \<and> (free \<longrightarrow> b = None)
      | (Raised e, (b, s)) \<Rightarrow> K s \<and> \<not> free
      | (Killed, (b, s)) \<Rightarrow> K s \<and> \<not> free)"

definition triple :: "('s \<Rightarrow> bool) \<Rightarrow> ('s, 'a) eff \<Rightarrow> ('a \<Rightarrow> 's \<Rightarrow> bool) \<Rightarrow> ('s \<Rightarrow> bool) \<Rightarrow> bool" where
  "triple P m Q K \<longleftrightarrow> (\<forall>b s. P s \<longrightarrow> ends Q K (b = None) (m (b, s)))"

lemma ends_simps [simp]:
  "ends Q K free (Done x, (b, s)) \<longleftrightarrow> Q x s \<and> (free \<longrightarrow> b = None)"
  "ends Q K free (Raised e, (b, s)) \<longleftrightarrow> K s \<and> \<not> free"
  "ends Q K free (Killed, (b, s)) \<longleftrightarrow> K s \<and> \<not> free"
  by (simp_all add: ends_def)

lemma ends_mono:
  assumes "ends Q' K' free c" and "free' \<longrightarrow> free"
    and "\<And>x s. Q' x s \<Longrightarrow> Q x s" and "\<And>s. K' s \<Longrightarrow> K s"
  shows "ends Q K free' c"
proof -
  obtain r b s where "c = (r, (b, s))" by (metis surj_pair)
  with assms show ?thesis by (cases r) auto
qed

lemma tripleD: "triple P m Q K \<Longrightarrow> P s \<Longrightarrow> ends Q K (b = None) (m (b, s))"
  by (simp add: triple_def)

lemma triple_ret: "(\<And>s. P s \<Longrightarrow> Q x s) \<Longrightarrow> triple P (ret x) Q K"
  by (simp add: triple_def ret_def)

lemma triple_lift: "(\<And>s. P s \<Longrightarrow> \<exists>x. r = Inr x \<and> Q x s) \<Longrightarrow> triple P (lift r) Q K"
  by (cases r) (auto simp: triple_def ret_def)

lemma triple_query: "(\<And>s. P s \<Longrightarrow> Q (f s) s) \<Longrightarrow> triple P (query f) Q K"
  by (simp add: triple_def query_def)

lemma triple_reading:
  assumes "\<And>s. P s \<Longrightarrow> \<exists>x. f s = Inr x \<and> Q x s"
  shows "triple P (reading f) Q K"
proof -
  have "reading f (b, s) = (Done x, (b, s))" if "f s = Inr x" for b s x
    using that by (simp add: reading_def bindE_def query_def ret_def)
  then show ?thesis using assms by (fastforce simp: triple_def)
qed

lemma triple_ensure: "(\<And>s. P s \<Longrightarrow> b \<and> Q () s) \<Longrightarrow> triple P (ensure b message) Q K"
  by (cases b) (auto simp: triple_def ret_def)

lemma triple_durable:
  assumes "\<And>s. P s \<Longrightarrow> Q () (f s)" and "\<And>s. P s \<Longrightarrow> K s" and "\<And>s. P s \<Longrightarrow> K (f s)"
  shows "triple P (durable f) Q K"
  using assms by (auto simp: triple_def durable_def split: option.splits fault.splits)

lemma triple_bind:
  assumes m: "triple P m R K" and f: "\<And>x. triple (R x) (f x) Q K"
  shows "triple P (bindE m f) Q K"
  unfolding triple_def
proof (intro allI impI)
  fix b s assume "P s"
  from tripleD [OF m this, of b] have o: "ends R K (b = None) (m (b, s))" .
  obtain r b' s' where e: "m (b, s) = (r, (b', s'))" by (metis surj_pair)
  show "ends Q K (b = None) (bindE m f (b, s))"
  proof (cases r)
    case (Done x)
    with o e have "R x s'" "b = None \<longrightarrow> b' = None" by simp_all
    with tripleD [OF f, of x s' b'] ends_mono [of Q K "b' = None" "f x (b', s')" "b = None" Q K]
    show ?thesis by (simp add: bindE_def e Done)
  next
    case (Raised x)
    with o e show ?thesis by (simp add: bindE_def)
  next
    case Killed
    with o e show ?thesis by (simp add: bindE_def)
  qed
qed

lemma triple_conseq:
  assumes "triple P' m Q' K'" and "\<And>s. P s \<Longrightarrow> P' s" and "\<And>x s. Q' x s \<Longrightarrow> Q x s" and "\<And>s. K' s \<Longrightarrow> K s"
  shows "triple P m Q K"
  unfolding triple_def
  by (intro allI impI, rule ends_mono [OF tripleD [OF assms(1)]]) (use assms in auto)

lemma triple_pre: "(\<And>s. P s \<Longrightarrow> triple ((=) s) m Q K) \<Longrightarrow> triple P m Q K"
  by (auto simp: triple_def)

lemma triple_case:
  assumes "\<And>s. P s \<Longrightarrow> P1 s \<or> P2 s" and "triple P1 m Q K" and "triple P2 m Q K"
  shows "triple P m Q K"
  unfolding triple_def
proof (intro allI impI)
  fix b s assume "P s"
  with assms(1) have "P1 s \<or> P2 s" .
  then show "ends Q K (b = None) (m (b, s))" using tripleD [OF assms(2)] tripleD [OF assms(3)] by blast
qed

lemma triple_for_each:
  assumes "\<And>x. x \<in> set xs \<Longrightarrow> triple I (f x) (\<lambda>_. I) K"
  shows "triple I (for_each f xs) (\<lambda>_. I) K"
  using assms
proof (induction xs)
  case Nil
  show ?case by (simp add: triple_ret)
next
  case (Cons x xs)
  then show ?case by (auto intro: triple_bind)
qed

text \<open>A handler that ends by raising keeps \<open>K\<close>; a suppressed failure has to establish \<open>Q\<close>.\<close>

definition gives_up :: "('s \<Rightarrow> bool) \<Rightarrow> ('s, 'a) eff \<Rightarrow> bool" where
  "gives_up K m \<longleftrightarrow> (\<forall>b s. K s \<longrightarrow> ends (\<lambda>x s. False) K False (m (b, s)))"

lemma triple_handle:
  assumes "triple P m Q K" and "\<And>e. gives_up K (h e)"
  shows "triple P (handle p m h) Q K"
  unfolding triple_def
proof (intro allI impI)
  fix b s assume "P s"
  from tripleD [OF assms(1) this, of b] have o: "ends Q K (b = None) (m (b, s))" .
  obtain r b' s' where e: "m (b, s) = (r, (b', s'))" by (metis surj_pair)
  show "ends Q K (b = None) (handle p m h (b, s))"
  proof (cases r)
    case (Raised x)
    with o e have k: "K s'" "b \<noteq> None" by simp_all
    with assms(2) [of x] have "ends (\<lambda>x s. False) K False (h x (b', s'))"
      by (simp add: gives_up_def)
    then have "ends Q K (b = None) (h x (b', s'))" using k(2) by (auto elim: ends_mono)
    with k show ?thesis by (simp add: handle_def e Raised)
  qed (use o e in \<open>simp_all add: handle_def\<close>)
qed

lemma triple_suppress:
  assumes "triple P m Q K" and "\<And>s. K s \<Longrightarrow> Q () s"
  shows "triple P (suppress p m) Q K"
  unfolding triple_def
proof (intro allI impI)
  fix b s assume "P s"
  from tripleD [OF assms(1) this, of b] have o: "ends Q K (b = None) (m (b, s))" .
  obtain r b' s' where e: "m (b, s) = (r, (b', s'))" by (metis surj_pair)
  show "ends Q K (b = None) (suppress p m (b, s))"
    using o e assms(2) by (cases r) (auto simp: suppress_def handle_def ret_def)
qed

section \<open>Interrupted attempts\<close>

text \<open>The state after attempts, each with its input and the fault it meets.\<close>

primrec after_attempts :: "('e \<Rightarrow> ('s, 'a) eff) \<Rightarrow> ('e \<times> nat \<times> fault) list \<Rightarrow> 's \<Rightarrow> 's" where
  "after_attempts m [] s = s"
| "after_attempts m (a # as) s = after_attempts m as (snd (snd (m (fst a) (Some (snd a), s))))"

lemma after_attempts_invariant:
  assumes "\<And>a. a \<in> set as \<Longrightarrow> triple P (m (fst a)) (\<lambda>x. P) P" and "P s"
  shows "P (after_attempts m as s)"
  using assms
proof (induction as arbitrary: s)
  case Nil
  then show ?case by simp
next
  case (Cons a as)
  obtain r b s' where e: "m (fst a) (Some (snd a), s) = (r, (b, s'))" by (metis surj_pair)
  have "triple P (m (fst a)) (\<lambda>x. P) P" using Cons.prems(1) by simp
  from tripleD [OF this Cons.prems(2), of "Some (snd a)"] e have "P s'" by (cases r) simp_all
  with Cons e show ?case by simp
qed

lemma triple_free:
  assumes "triple P m Q K" and "P s"
  obtains x s' where "m (None, s) = (Done x, (None, s'))" "Q x s'"
proof -
  obtain r b s' where e: "m (None, s) = (r, (b, s'))" by (metis surj_pair)
  from tripleD [OF assms, of None] e have "\<exists>x. r = Done x \<and> Q x s' \<and> b = None" by (cases r) simp_all
  then show thesis using e that by blast
qed

end
