(* ===== verification/Progress.thy ===== *)
theory Progress
  imports Effects
begin

text \<open>
  What a computation may do to the state whatever becomes of it: \<open>moves R P m Q\<close> says that from a
  state with \<open>P\<close> every run of \<open>m\<close>, ended by any fault or error, leads to a state related by \<open>R\<close>, and
  that \<open>Q\<close> holds when it returns. For a reflexive and transitive \<open>R\<close> the judgement follows the
  structure of the computation; \<open>steady R m\<close> is the case that asks nothing but \<open>R\<close>.
\<close>

definition moves :: "('s \<Rightarrow> 's \<Rightarrow> bool) \<Rightarrow> ('s \<Rightarrow> bool) \<Rightarrow> ('s, 'a) eff \<Rightarrow> ('a \<Rightarrow> 's \<Rightarrow> bool) \<Rightarrow> bool" where
  "moves R P m Q \<longleftrightarrow>
     (\<forall>b s r b' s'. P s \<longrightarrow> m (b, s) = (r, (b', s')) \<longrightarrow> R s s' \<and> (\<forall>x. r = Done x \<longrightarrow> Q x s'))"

lemma movesI:
  assumes "\<And>b s r b' s'. P s \<Longrightarrow> m (b, s) = (r, (b', s')) \<Longrightarrow> R s s' \<and> (\<forall>x. r = Done x \<longrightarrow> Q x s')"
  shows "moves R P m Q"
  using assms by (auto simp: moves_def)

lemma movesD:
  assumes "moves R P m Q" and "P s" and "m (b, s) = (r, (b', s'))"
  shows "R s s'" and "r = Done x \<Longrightarrow> Q x s'"
  using assms by (auto simp: moves_def)

lemma moves_conseq:
  assumes "moves R' P' m Q'" and "\<And>s. P s \<Longrightarrow> P' s" and "\<And>x s. Q' x s \<Longrightarrow> Q x s"
    and "\<And>s s'. P s \<Longrightarrow> R' s s' \<Longrightarrow> R s s'"
  shows "moves R P m Q"
  using assms unfolding moves_def by blast

text \<open>What \<open>R'\<close> keeps holds afterwards too; a precondition may be taken state by state.\<close>

lemma moves_keeps:
  assumes "moves R P m Q" and "\<And>s s'. P s \<Longrightarrow> R s s' \<Longrightarrow> P s'"
  shows "moves R P m (\<lambda>x s. Q x s \<and> P s)"
  using assms unfolding moves_def by blast

lemma moves_pre: "(\<And>s. P s \<Longrightarrow> moves R ((=) s) m Q) \<Longrightarrow> moves R P m Q"
  by (auto simp: moves_def)

lemma moves_vacuous: "(\<And>s. \<not> P s) \<Longrightarrow> moves R P m Q"
  by (simp add: moves_def)

lemma moves_if:
  assumes "b \<Longrightarrow> moves R P m Q" and "\<not> b \<Longrightarrow> moves R P n Q"
  shows "moves R P (if b then m else n) Q"
  using assms by simp

lemma moves_option:
  assumes "x = None \<Longrightarrow> moves R P m Q" and "\<And>y. x = Some y \<Longrightarrow> moves R P (f y) Q"
  shows "moves R P (case x of None \<Rightarrow> m | Some y \<Rightarrow> f y) Q"
  using assms by (cases x) simp_all

definition steady :: "('s \<Rightarrow> 's \<Rightarrow> bool) \<Rightarrow> ('s, 'a) eff \<Rightarrow> bool" where
  "steady R m \<longleftrightarrow> moves R (\<lambda>_. True) m (\<lambda>_ _. True)"

named_theorems steady_rules

lemma steady_cases [steady_rules]:
  "steady R m \<Longrightarrow> steady R n \<Longrightarrow> steady R (if b then m else n)"
  "steady R m \<Longrightarrow> (\<And>y. steady R (f y)) \<Longrightarrow> steady R (case x of None \<Rightarrow> m | Some y \<Rightarrow> f y)"
  by (auto split: option.split)

text \<open>A progress relation carries a fact that it keeps through a specification of the same computation.\<close>

lemma triple_frame:
  assumes "triple P m Q K" and "steady R m" and "\<And>s s'. H s \<Longrightarrow> R s s' \<Longrightarrow> H s'"
  shows "triple (\<lambda>s. P s \<and> H s) m (\<lambda>x s. Q x s \<and> H s) (\<lambda>s. K s \<and> H s)"
  unfolding triple_def
proof (intro allI impI)
  fix b s assume p: "P s \<and> H s"
  obtain r b' s' where e: "m (b, s) = (r, (b', s'))" by (metis surj_pair)
  have "R s s'" by (rule movesD(1) [OF assms(2) [unfolded steady_def] TrueI e])
  with p have "H s'" by (auto intro: assms(3))
  with tripleD [OF assms(1), of s b] p e
  show "ends (\<lambda>x s. Q x s \<and> H s) (\<lambda>s. K s \<and> H s) (b = None) (m (b, s))" by (cases r) simp_all
qed

locale progress =
  fixes R :: "'s \<Rightarrow> 's \<Rightarrow> bool"
  assumes stay: "R s s" and join: "R s t \<Longrightarrow> R t u \<Longrightarrow> R s u"
begin

lemma moves_ret: "(\<And>s. P s \<Longrightarrow> Q x s) \<Longrightarrow> moves R P (ret x) Q"
  by (rule movesI) (auto simp: run_simps stay)

lemma moves_raise: "moves R P (raise e) Q"
  by (rule movesI) (auto simp: run_simps stay)

lemma moves_lift: "(\<And>s x. P s \<Longrightarrow> r = Inr x \<Longrightarrow> Q x s) \<Longrightarrow> moves R P (lift r) Q"
  by (rule movesI) (auto simp: run_simps stay split: sum.splits)

lemma moves_query: "(\<And>s. P s \<Longrightarrow> Q (f s) s) \<Longrightarrow> moves R P (query f) Q"
  by (rule movesI) (auto simp: run_simps stay)

lemma moves_reading: "(\<And>s x. P s \<Longrightarrow> f s = Inr x \<Longrightarrow> Q x s) \<Longrightarrow> moves R P (reading f) Q"
  by (rule movesI) (auto simp: run_simps stay split: sum.splits)

lemma moves_ensure: "(\<And>s. P s \<Longrightarrow> b \<Longrightarrow> Q () s) \<Longrightarrow> moves R P (ensure b message) Q"
  by (rule movesI) (auto simp: run_simps stay split: if_splits)

lemma moves_durable:
  assumes "\<And>s. P s \<Longrightarrow> R s (f s)" and "\<And>s. P s \<Longrightarrow> Q () (f s)"
  shows "moves R P (durable f) Q"
  by (rule movesI) (use assms stay in \<open>auto simp: durable_def split: option.splits fault.splits if_splits\<close>)

lemma moves_bind:
  assumes m: "moves R P m T" and f: "\<And>x. moves R (T x) (f x) Q"
  shows "moves R P (bindE m f) Q"
proof (rule movesI)
  fix b s r b' s' assume p: "P s" and run: "bindE m f (b, s) = (r, (b', s'))"
  obtain r1 b1 s1 where e: "m (b, s) = (r1, (b1, s1))" by (metis surj_pair)
  show "R s s' \<and> (\<forall>x. r = Done x \<longrightarrow> Q x s')"
  proof (cases r1)
    case (Done x)
    with run e have run': "f x (b1, s1) = (r, (b', s'))" by (simp add: bindE_def)
    have "T x s1" using movesD(2) [OF m p e] Done by blast
    from movesD [OF f this run'] join movesD(1) [OF m p e] show ?thesis by blast
  qed (use run e movesD(1) [OF m p e] in \<open>auto simp: bindE_def\<close>)
qed

lemma moves_handle:
  assumes m: "moves R P m Q" and h: "\<And>e. moves R (\<lambda>s'. \<exists>s. P s \<and> R s s') (h e) Q"
  shows "moves R P (handle p m h) Q"
proof (rule movesI)
  fix b s r b' s' assume p: "P s" and run: "handle p m h (b, s) = (r, (b', s'))"
  obtain r1 b1 s1 where e: "m (b, s) = (r1, (b1, s1))" by (metis surj_pair)
  have k: "R s s1" by (rule movesD(1) [OF m p e])
  show "R s s' \<and> (\<forall>x. r = Done x \<longrightarrow> Q x s')"
  proof (cases "\<exists>e. r1 = Raised e \<and> p e")
    case True
    then obtain e' where "h e' (b1, s1) = (r, (b', s'))" using run e by (auto simp: handle_def)
    from movesD [OF h _ this] k p join show ?thesis by blast
  qed (use run e k movesD(2) [OF m p e] in \<open>auto simp: handle_def split: run.splits if_splits\<close>)
qed

lemma moves_handle_any:
  assumes "moves R P m Q" and "\<And>e. moves R (\<lambda>_. True) (h e) Q"
  shows "moves R P (handle p m h) Q"
  by (rule moves_handle [OF assms(1)], rule moves_conseq [OF assms(2)]) simp_all

lemma moves_suppress:
  assumes "moves R P m Q" and "\<And>s s'. P s \<Longrightarrow> R s s' \<Longrightarrow> Q () s'"
  shows "moves R P (suppress p m) Q"
  unfolding suppress_def by (rule moves_handle [OF assms(1)], rule moves_ret) (use assms(2) in blast)

lemma moves_for_each:
  assumes "\<And>x. x \<in> set xs \<Longrightarrow> moves R P (f x) (\<lambda>_. P)"
  shows "moves R P (for_each f xs) (\<lambda>_. P)"
  using assms by (induction xs) (auto intro: moves_ret moves_bind)

lemma steady_basic [steady_rules]:
  "steady R (ret x)" "steady R (raise e)" "steady R (lift r)" "steady R (query g)" "steady R (reading l)"
  "steady R (ensure b message)"
  unfolding steady_def
  by (rule moves_ret moves_raise moves_lift moves_query moves_reading moves_ensure; simp)+

lemma steady_bind [steady_rules]: "steady R m \<Longrightarrow> (\<And>x. steady R (f x)) \<Longrightarrow> steady R (bindE m f)"
  unfolding steady_def by (rule moves_bind) simp_all

lemma steady_handle [steady_rules]: "steady R m \<Longrightarrow> (\<And>e. steady R (h e)) \<Longrightarrow> steady R (handle p m h)"
  unfolding steady_def by (rule moves_handle_any)

lemma steady_suppress [steady_rules]: "steady R m \<Longrightarrow> steady R (suppress p m)"
  unfolding suppress_def by (intro steady_rules steady_handle steady_basic)

lemma steady_for_each [steady_rules]: "(\<And>x. steady R (f x)) \<Longrightarrow> steady R (for_each f xs)"
  by (induction xs) (auto intro: steady_basic steady_bind)

lemma steady_durable [steady_rules]: "(\<And>s. R s (f s)) \<Longrightarrow> steady R (durable f)"
  unfolding steady_def by (rule moves_durable)

lemma moves_after_attempts:
  assumes "\<And>a. a \<in> set as \<Longrightarrow> moves R P (m (fst a)) Q" and "\<And>s s'. P s \<Longrightarrow> R s s' \<Longrightarrow> P s'" and "P s"
  shows "R s (after_attempts m as s)"
  using assms
proof (induction as arbitrary: s)
  case Nil
  then show ?case by (simp add: stay)
next
  case (Cons a as)
  obtain r b s' where e: "m (fst a) (Some (snd a), s) = (r, (b, s'))" by (metis surj_pair)
  have "moves R P (m (fst a)) Q" using Cons.prems(1) by simp
  from movesD(1) [OF this Cons.prems(3) e] have k: "R s s'" .
  with Cons.prems have "P s'" by blast
  with Cons have "R s' (after_attempts m as s')" by simp
  with k e join show ?case by simp
qed

end

lemma moves_then:
  assumes "moves R P m (\<lambda>x s. T x s \<and> x = y)" and "moves R (T y) (f y) Q" and "progress R"
  shows "moves R P (bindE m f) Q"
proof (rule progress.moves_bind [OF assms(3,1)])
  fix x
  show "moves R (\<lambda>s. T x s \<and> x = y) (f x) Q"
    by (cases "x = y") (use assms(2) in \<open>auto simp: moves_def\<close>)
qed

end
