(* ===== verification/Store.thy ===== *)
theory Store
  imports Documents Effects Contracts
begin

text \<open>
  The durable documents of an obfuscation transition and the operations that read and replace them:
  the transition itself, its terminal outcome and the activation journal under
  \<open>/opt/amneziawg/transitions\<close>, beside the client metadata, the pending artifacts and the armed
  timers the lifecycle works on. A protected file is absent, unreadable (the error its reader
  raises) or holds a JSON value; \<open>null\<close> reads as an absent file, as in \<open>_read_protected_json\<close>.
  The checks of file ownership and modes, and those of \<open>ensure_transition_layout\<close>, are not modelled.
\<close>

section \<open>The state\<close>

type_synonym protected_file = "json result option"

text \<open>
  \<open>w_timers\<close> holds the armed systemd timers (\<open>True\<close> for the recovery pair, \<open>False\<close> for the timeout
  pair) with their transaction; \<open>w_host\<close> is the rest of the host, changed by the services only.
\<close>

record 'h world =
  w_transition :: protected_file
  w_outcome :: protected_file
  w_journal :: protected_file
  w_metadata :: "string \<Rightarrow> protected_file"
  w_pending :: "(string \<times> string list) list"
  w_timers :: "(bool \<times> string) list"
  w_host :: 'h

section \<open>Reading and writing a protected document\<close>

definition read_document :: "(json \<Rightarrow> 'a result) \<Rightarrow> protected_file \<Rightarrow> 'a option result" where
  "read_document normalise d =
     (case d of
        None \<Rightarrow> Inr None
      | Some r \<Rightarrow>
          andthen r (\<lambda>v.
          if v = JNull then Inr None else andthen (normalise v) (\<lambda>x. Inr (Some x))))"

definition stored :: "json \<Rightarrow> protected_file" where
  "stored v = Some (Inr v)"

text \<open>\<open>atomic_json\<close> followed by the comparison of what is read back.\<close>

definition replace_document ::
  "(protected_file \<Rightarrow> 'h world \<Rightarrow> 'h world) \<Rightarrow> ('h world \<Rightarrow> 'a option result) \<Rightarrow> ('a \<Rightarrow> json) \<Rightarrow> string \<Rightarrow> 'a
     \<Rightarrow> ('h world, unit) eff" where
  "replace_document assign load encode message x =
     bindE (durable (assign (stored (encode x)))) (\<lambda>_.
     bindE (reading load) (\<lambda>found.
     ensure (found = Some x) message))"

definition load_transition_document :: "'h world \<Rightarrow> transition option result" where
  "load_transition_document w = read_document normalize_transition_document (w_transition w)"

definition load_required_transition :: "'h world \<Rightarrow> transition result" where
  "load_required_transition w =
     andthen (load_transition_document w) (\<lambda>t.
     or_raise t (AwgctlError ''no obfuscation transition is pending''))"

definition load_transition_outcome :: "'h world \<Rightarrow> outcome option result" where
  "load_transition_outcome w = read_document normalize_transition_outcome (w_outcome w)"

definition load_activation_journal :: "'h world \<Rightarrow> journal option result" where
  "load_activation_journal w = read_document normalize_activation_journal (w_journal w)"

definition put_transition :: "protected_file \<Rightarrow> 'h world \<Rightarrow> 'h world" where
  "put_transition d w = w\<lparr>w_transition := d\<rparr>"

definition put_outcome :: "protected_file \<Rightarrow> 'h world \<Rightarrow> 'h world" where
  "put_outcome d w = w\<lparr>w_outcome := d\<rparr>"

definition put_journal :: "protected_file \<Rightarrow> 'h world \<Rightarrow> 'h world" where
  "put_journal d w = w\<lparr>w_journal := d\<rparr>"

section \<open>Compare and swap of the transition\<close>

definition swap_allowed ::
  "transition \<Rightarrow> transition option \<Rightarrow> string option \<Rightarrow> string option \<Rightarrow> unit result" where
  "swap_allowed proposed current expected_id expected_state =
     (case (expected_id, expected_state) of
        (Some ident, Some state) \<Rightarrow>
          andthen (validate_transaction_id (JStr ident)) (\<lambda>ident.
          andthen (check (state \<in> {''prepared'', ''active''})
            (AwgctlError ''invalid expected obfuscation transition state'')) (\<lambda>_.
          case current of
            None \<Rightarrow> Inl (AwgctlError ''obfuscation transition changed; stale operation rejected'')
          | Some c \<Rightarrow>
              andthen (check (tr_id c = ident \<and> tr_state c = state)
                (AwgctlError ''obfuscation transition changed; stale operation rejected'')) (\<lambda>_.
              andthen (check (state = ''prepared'' \<and> tr_state proposed = ''active'' \<and> tr_id proposed = ident)
                (AwgctlError ''invalid obfuscation transition compare-and-swap'')) (\<lambda>_.
              check (c = proposed\<lparr>tr_activation := None\<rparr>)
                (AwgctlError ''obfuscation transition changed; stale operation rejected'')))))
      | _ \<Rightarrow>
          andthen (check (expected_id = None \<and> expected_state = None \<and> current = None)
            (AwgctlError ''another obfuscation transition is already pending'')) (\<lambda>_.
          check (tr_state proposed = ''prepared'')
            (AwgctlError ''new obfuscation transition must begin prepared'')))"

definition compare_and_swap_transition ::
  "json \<Rightarrow> string option \<Rightarrow> string option \<Rightarrow> ('h world, unit) eff" where
  "compare_and_swap_transition v expected_id expected_state =
     bindE (lift (normalize_transition_document v)) (\<lambda>proposed.
     bindE (reading load_transition_document) (\<lambda>current.
     bindE (lift (swap_allowed proposed current expected_id expected_state)) (\<lambda>_.
     replace_document put_transition load_transition_document transition_json
       ''obfuscation transition write could not be verified'' proposed)))"

section \<open>The activation journal\<close>

definition write_activation_journal :: "string \<Rightarrow> string \<Rightarrow> string \<Rightarrow> ('h world, journal) eff" where
  "write_activation_journal ident phase created_at =
     bindE (lift (normalize_activation_journal
       (journal_json \<lparr>jn_id = ident, jn_phase = phase, jn_created_at = created_at\<rparr>))) (\<lambda>proposed.
     bindE (reading load_activation_journal) (\<lambda>current.
     bindE (ensure (case current of
         None \<Rightarrow> True
       | Some c \<Rightarrow> jn_id c = jn_id proposed \<and> jn_created_at c = jn_created_at proposed)
       ''activation recovery journal changed; stale operation rejected'') (\<lambda>_.
     bindE (replace_document put_journal load_activation_journal journal_json
       ''activation recovery journal write could not be verified'' proposed) (\<lambda>_.
     ret proposed))))"

definition delete_activation_journal :: "string \<Rightarrow> ('h world, unit) eff" where
  "delete_activation_journal ident =
     bindE (reading load_activation_journal) (\<lambda>current.
     case current of
       None \<Rightarrow> ret ()
     | Some c \<Rightarrow>
         bindE (lift (validate_transaction_id (JStr ident))) (\<lambda>ident.
         bindE (ensure (jn_id c = ident) ''activation recovery journal transaction ID changed'') (\<lambda>_.
         durable (put_journal None))))"

section \<open>The terminal outcome\<close>

definition begin_transition_outcome ::
  "transition \<Rightarrow> string \<Rightarrow> string \<Rightarrow> string \<Rightarrow> profile_update list \<Rightarrow> ('h world, outcome) eff" where
  "begin_transition_outcome document kind reason completed_at updates =
     bindE (lift (normalize_transition_document (transition_json document))) (\<lambda>document.
     bindE (reading load_required_transition) (\<lambda>current.
     bindE (ensure (current = document) ''obfuscation transition changed; stale completion rejected'') (\<lambda>_.
     bindE (lift (normalize_transition_outcome (outcome_json
       \<lparr>oc_id = tr_id document, oc_outcome = kind, oc_reason = reason, oc_completed_at = completed_at,
        oc_client = tr_client document, oc_old_port = tr_old_port document,
        oc_new_port = tr_new_port document, oc_phase = ''checkpoint'', oc_updates = updates\<rparr>))) (\<lambda>res.
     bindE (reading load_transition_outcome) (\<lambda>existing.
     let begin = bindE (replace_document put_outcome load_transition_outcome outcome_json
           ''obfuscation transition outcome write could not be verified'' res) (\<lambda>_. ret res)
     in case existing of
          None \<Rightarrow> begin
        | Some c \<Rightarrow>
            if oc_id c = oc_id res
            then bindE (ensure (c\<lparr>oc_phase := ''''\<rparr> = res\<lparr>oc_phase := ''''\<rparr>)
                   ''obfuscation transition outcome changed; stale completion rejected'') (\<lambda>_. ret c)
            else bindE (ensure (oc_phase c = ''complete'')
                   ''prior obfuscation transition cleanup is incomplete'') (\<lambda>_. begin))))))"

definition update_transition_outcome_phase ::
  "outcome \<Rightarrow> string \<Rightarrow> string \<Rightarrow> ('h world, outcome) eff" where
  "update_transition_outcome_phase outcome expected phase =
     bindE (lift (normalize_transition_outcome (outcome_json outcome))) (\<lambda>outcome.
     bindE (reading load_transition_outcome) (\<lambda>current.
     bindE (ensure (current = Some outcome \<and> oc_phase outcome = expected)
       ''obfuscation transition cleanup checkpoint changed'') (\<lambda>_.
     bindE (lift (normalize_transition_outcome (outcome_json (outcome\<lparr>oc_phase := phase\<rparr>)))) (\<lambda>proposed.
     bindE (replace_document put_outcome load_transition_outcome outcome_json
       ''obfuscation transition cleanup checkpoint write failed'' proposed) (\<lambda>_.
     ret proposed)))))"

section \<open>What is written is read back\<close>

locale protected_document = validator normalise embed good
  for normalise :: "json \<Rightarrow> 'a result" and embed :: "'a \<Rightarrow> json" and good :: "'a \<Rightarrow> bool" +
  fixes field :: "'h world \<Rightarrow> protected_file" and assign :: "protected_file \<Rightarrow> 'h world \<Rightarrow> 'h world"
  assumes field_assign: "field (assign d w) = d"
    and not_null: "embed x \<noteq> JNull"
begin

lemma read_Some:
  "read_document normalise d = Inr (Some x) \<longleftrightarrow> (\<exists>v. d = Some (Inr v) \<and> v \<noteq> JNull \<and> normalise v = Inr x)"
  by (auto simp: read_document_def result_simps split: option.splits if_splits)

lemma read_None:
  "read_document normalise d = Inr None \<longleftrightarrow> d = None \<or> d = Some (Inr JNull)"
  by (auto simp: read_document_def result_simps split: option.splits if_splits)

lemma read_stored: "good x \<Longrightarrow> read_document normalise (stored (embed x)) = Inr (Some x)"
  unfolding read_Some stored_def using good_accepted not_null by blast

lemma read_good: "read_document normalise d = Inr (Some x) \<Longrightarrow> good x"
  unfolding read_Some using accepted_good by blast

lemma triple_replace:
  assumes "good x" and "\<And>s. load s = read_document normalise (field s)"
    and "\<And>s. P s \<Longrightarrow> Q () (assign (stored (embed x)) s)" and "\<And>s. P s \<Longrightarrow> K s"
    and "\<And>s. P s \<Longrightarrow> K (assign (stored (embed x)) s)"
  shows "triple P (replace_document assign load embed message x) Q K"
  unfolding replace_document_def
  by (rule triple_bind [where R = "\<lambda>_ s. Q () s \<and> field s = stored (embed x)"],
      rule triple_durable, simp add: assms field_assign, fact, fact,
      rule triple_bind [where R = "\<lambda>found s. Q () s \<and> found = Some x"],
      rule triple_reading, use assms(1,2) read_stored in force,
      rule triple_ensure, simp)

lemma replace_effect:
  assumes "good x" and "\<And>s. load s = read_document normalise (field s)"
  shows "replace_document assign load embed message x (b, s) \<in>
    {(Done (), (b', assign (stored (embed x)) s)) |b'. True}
    \<union> {(r, (b', s')) |r b' s'. r \<noteq> Done () \<and> b \<noteq> None \<and> s' \<in> {s, assign (stored (embed x)) s}}"
proof -
  have "triple ((=) s) (replace_document assign load embed message x)
    (\<lambda>_ s'. s' = assign (stored (embed x)) s) (\<lambda>s'. s' \<in> {s, assign (stored (embed x)) s})"
    by (rule triple_replace [OF assms]) simp_all
  from tripleD [OF this refl, of b]
  have "ends (\<lambda>_ s'. s' = assign (stored (embed x)) s) (\<lambda>s'. s' \<in> {s, assign (stored (embed x)) s}) (b = None)
    (replace_document assign load embed message x (b, s))" .
  then show ?thesis
    by (cases "replace_document assign load embed message x (b, s)"; cases "fst (replace_document assign load embed message x (b, s))")
      (auto simp: ends_def)
qed

end

lemma embeds_not_null [simp]:
  "transition_json t \<noteq> JNull" "outcome_json c \<noteq> JNull" "journal_json j \<noteq> JNull"
  by (simp_all add: transition_json_def outcome_json_def journal_json_def)

interpretation transition_file: protected_document
  normalize_transition_document transition_json transition_ok w_transition put_transition
  by unfold_locales (simp_all add: put_transition_def)

interpretation outcome_file: protected_document
  normalize_transition_outcome outcome_json outcome_ok w_outcome put_outcome
  by unfold_locales (simp_all add: put_outcome_def)

interpretation journal_file: protected_document
  normalize_activation_journal journal_json journal_ok w_journal put_journal
  by unfold_locales (simp_all add: put_journal_def)

section \<open>The life of the transition file\<close>

text \<open>A transition is created prepared and, unchanged otherwise, becomes active once.\<close>

inductive swap_step :: "transition option \<Rightarrow> transition \<Rightarrow> bool" where
  prepare: "tr_activation t = None \<Longrightarrow> swap_step None t"
| activate: "tr_activation t = None \<Longrightarrow> swap_step (Some t) (t\<lparr>tr_activation := Some a\<rparr>)"

inductive_simps swap_step_None: "swap_step None t"
inductive_simps swap_step_Some: "swap_step (Some c) t"

lemma tr_state_iff [simp]:
  "tr_state t = ''prepared'' \<longleftrightarrow> tr_activation t = None" "tr_state t = ''active'' \<longleftrightarrow> tr_activation t \<noteq> None"
  by (simp_all add: tr_state_def)

lemma swap_allowed_iff:
  assumes "transition_ok t"
  shows "swap_allowed t current eid est = Inr () \<longleftrightarrow>
    swap_step current t \<and> eid = map_option tr_id current \<and> est = map_option tr_state current"
proof (cases current)
  case None
  then show ?thesis
    by (auto simp: swap_allowed_def swap_step_None result_simps split: option.splits)
next
  case (Some c)
  have t: "t = t\<lparr>tr_activation := None\<rparr>\<lparr>tr_activation := Some a\<rparr>" if "tr_activation t = Some a" for a
    using that by (cases t) simp
  have "swap_step (Some c) t \<longleftrightarrow> tr_activation t \<noteq> None \<and> c = t\<lparr>tr_activation := None\<rparr>"
  proof
    assume "swap_step (Some c) t"
    then show "tr_activation t \<noteq> None \<and> c = t\<lparr>tr_activation := None\<rparr>"
      by (cases c) (auto simp: swap_step_Some)
  next
    assume "tr_activation t \<noteq> None \<and> c = t\<lparr>tr_activation := None\<rparr>"
    then obtain a where "tr_activation t = Some a" "c = t\<lparr>tr_activation := None\<rparr>" by blast
    with t show "swap_step (Some c) t" unfolding swap_step_Some by (intro conjI exI [of _ a]) simp_all
  qed
  moreover have "transaction_id_re (tr_id t)" using assms by (simp add: transition_ok_def)
  moreover have "tr_state c = ''prepared''" if "c = t\<lparr>tr_activation := None\<rparr>" using that by simp
  ultimately show ?thesis
    using Some by (auto simp: swap_allowed_def result_simps validate_transaction_id_Inr split: option.splits)
qed

text \<open>
  C8: The transition file changes only along its life cycle, whatever fault a swap meets. Either
  the file is left as it was, and then the swap did not succeed, or it now holds a valid document
  that is a first prepared one or the activation of exactly the prepared one it held; nothing else
  changes. Without a fault the swap succeeds for every such step when the caller expects the
  document that is there.
\<close>

theorem compare_and_swap_transition_exact:
  assumes "compare_and_swap_transition v eid est (b, w) = (r, (b', w'))"
  shows "(w' = w \<and> r \<noteq> Done ()
      \<or> (\<exists>t current. normalize_transition_document v = Inr t \<and> load_transition_document w = Inr current
           \<and> swap_step current t \<and> eid = map_option tr_id current \<and> est = map_option tr_state current
           \<and> w' = w\<lparr>w_transition := stored (transition_json t)\<rparr> \<and> load_transition_document w' = Inr (Some t)))
    \<and> (b = None \<and> (\<exists>t current. normalize_transition_document v = Inr t \<and> load_transition_document w = Inr current
           \<and> swap_step current t \<and> eid = map_option tr_id current \<and> est = map_option tr_state current)
       \<longrightarrow> r = Done ())"
proof (cases "normalize_transition_document v")
  case (Inl e)
  then show ?thesis using assms by (auto simp: compare_and_swap_transition_def run_simps)
next
  case n: (Inr t)
  then have ok: "transition_ok t" by (rule transition.accepted_good)
  show ?thesis
  proof (cases "load_transition_document w")
    case (Inl e)
    then show ?thesis using assms n
      by (auto simp: compare_and_swap_transition_def run_simps)
  next
    case l: (Inr current)
    show ?thesis
    proof (cases "swap_allowed t current eid est")
      case (Inl e)
      then have "swap_allowed t current eid est \<noteq> Inr ()" by simp
      then have "\<not> (swap_step current t \<and> eid = map_option tr_id current
        \<and> est = map_option tr_state current)"
        unfolding swap_allowed_iff [OF ok] .
      moreover have "w' = w \<and> r = Raised e"
        using assms n l Inl by (simp add: compare_and_swap_transition_def run_simps)
      ultimately show ?thesis using n l by auto
    next
      case (Inr u)
      then have s: "swap_step current t \<and> eid = map_option tr_id current \<and> est = map_option tr_state current"
        using swap_allowed_iff [OF ok] by simp
      have e: "replace_document put_transition load_transition_document transition_json
          ''obfuscation transition write could not be verified'' t (b, w) = (r, (b', w'))"
        using assms n l Inr by (simp add: compare_and_swap_transition_def run_simps)
      from transition_file.replace_effect [OF ok, of load_transition_document
          "''obfuscation transition write could not be verified''" b w, unfolded e load_transition_document_def]
      have "r = Done () \<and> w' = put_transition (stored (transition_json t)) w
        \<or> r \<noteq> Done () \<and> b \<noteq> None \<and> w' \<in> {w, put_transition (stored (transition_json t)) w}"
        by auto
      moreover have "load_transition_document (put_transition (stored (transition_json t)) w) = Inr (Some t)"
        using transition_file.read_stored [OF ok] by (simp add: load_transition_document_def transition_file.field_assign)
      ultimately show ?thesis using n l s by (auto simp: put_transition_def)
    qed
  qed
qed

definition empty_world :: "unit world" where
  "empty_world =
     \<lparr>w_transition = None, w_outcome = None, w_journal = None, w_metadata = (\<lambda>n. None),
      w_pending = [], w_timers = [], w_host = ()\<rparr>"

theorem compare_and_swap_transition_exact_witness:
  "\<exists>c. compare_and_swap_transition (transition_json sample_transition) None None (None, empty_world) = (Done (), c)"
proof -
  obtain r b' w' where e: "compare_and_swap_transition (transition_json sample_transition) None None
    (None, empty_world) = (r, (b', w'))" by (metis surj_pair)
  have l: "load_transition_document empty_world = Inr None"
    by (simp add: load_transition_document_def read_document_def empty_world_def)
  have "swap_step None sample_transition" by (simp add: swap_step_None sample_transition_def)
  with compare_and_swap_transition_exact [OF e] l transition.good_accepted [OF sample_transition_ok]
  have "r = Done ()" by auto
  with e show ?thesis by blast
qed

end
