(* ===== verification/Cleanup.thy ===== *)
theory Cleanup
  imports Store Progress ServerConfig
begin

text \<open>
  The terminal cleanup of a transition and the recovery of a crash-interrupted activation: after
  the outcome has been recorded, the metadata of the confirmed profiles is updated, the pending
  artifacts and the transition file are removed and the recovery timer is cancelled, each step
  behind a checkpoint in the outcome file. \<open>reconcile_transition_recovery_locked\<close> finishes an
  interrupted cleanup or rolls an interrupted activation back.
\<close>

section \<open>Services\<close>

text \<open>
  What the lifecycle asks of the rest of the host: removing the unit pair of a timer, arming one,
  restoring the classic backup of a transition at a given time, reading the server configuration
  file, stopping an interface, and taking the mutation lock, with the limit in seconds the timers
  set, up to and including the recovery of an interrupted service operation. Each may change the
  host and may fail; restoring a backup exchanges the client metadata as well.
\<close>

type_synonym client_files = "string \<Rightarrow> protected_file"

record 'h services =
  sv_cancel :: "bool \<Rightarrow> string \<Rightarrow> 'h \<Rightarrow> unit result \<times> 'h"
  sv_remove_own :: "bool \<Rightarrow> string \<Rightarrow> 'h \<Rightarrow> unit result \<times> 'h"
  sv_arm :: "bool \<Rightarrow> string \<Rightarrow> string \<Rightarrow> 'h \<Rightarrow> unit result \<times> 'h"
  sv_restore :: "transition \<Rightarrow> int \<Rightarrow> client_files \<times> 'h \<Rightarrow> unit result \<times> (client_files \<times> 'h)"
  sv_config_file :: "'h \<Rightarrow> json result"
  sv_stop :: "string \<Rightarrow> 'h \<Rightarrow> unit result \<times> 'h"
  sv_lock :: "int option \<Rightarrow> 'h \<Rightarrow> unit result \<times> 'h"

definition external :: "('h \<Rightarrow> 'a result \<times> 'h) \<Rightarrow> ('h world, 'a) eff" where
  "external f c =
     (case c of (b, s) \<Rightarrow> (case f (w_host s) of (r, h) \<Rightarrow> lift r (b, s\<lparr>w_host := h\<rparr>)))"

definition restoring :: "(client_files \<times> 'h \<Rightarrow> 'a result \<times> (client_files \<times> 'h)) \<Rightarrow> ('h world, 'a) eff" where
  "restoring f c =
     (case c of (b, s) \<Rightarrow>
        (case f (w_metadata s, w_host s) of (r, (m, h)) \<Rightarrow> lift r (b, s\<lparr>w_metadata := m, w_host := h\<rparr>)))"

text \<open>\<open>_remove_transition_units\<close> turns every failure into its own error.\<close>

definition remove_units ::
  "(bool \<Rightarrow> string \<Rightarrow> 'h \<Rightarrow> unit result \<times> 'h) \<Rightarrow> bool \<Rightarrow> string \<Rightarrow> ('h world, unit) eff" where
  "remove_units f recovery ident =
     handle any_error
       (bindE (external (f recovery ident)) (\<lambda>_.
        durable (\<lambda>w. w\<lparr>w_timers := filter (\<lambda>t. t \<noteq> (recovery, ident)) (w_timers w)\<rparr>)))
       (\<lambda>e. raise (AwgctlError ''transition units could not be removed''))"

definition cancel_transition_timeout :: "'h services \<Rightarrow> string \<Rightarrow> ('h world, unit) eff" where
  "cancel_transition_timeout sv = remove_units (sv_cancel sv) False"

definition cancel_transition_recovery :: "'h services \<Rightarrow> string \<Rightarrow> ('h world, unit) eff" where
  "cancel_transition_recovery sv = remove_units (sv_cancel sv) True"

section \<open>The cleanup\<close>

definition put_metadata :: "string \<Rightarrow> obj \<Rightarrow> 'h world \<Rightarrow> 'h world" where
  "put_metadata n m w = w\<lparr>w_metadata := (w_metadata w)(n := stored (JObj m))\<rparr>"

fun contract_error :: "error \<Rightarrow> bool" where
  "contract_error (ContractError m) = True"
| "contract_error _ = False"

definition read_client_metadata :: "string \<Rightarrow> 'h world \<Rightarrow> obj result" where
  "read_client_metadata n w =
     andthen (read_document (\<lambda>v. Inr v) (w_metadata w n)) (\<lambda>v.
     andthen (or_raise v (AwgctlError ''managed profile metadata is missing during cleanup'')) (\<lambda>v.
     except_as contract_error (AwgctlError ''managed profile metadata is invalid during cleanup'')
       (normalize_client_metadata v)))"

definition regenerated :: "string \<Rightarrow> profile_update \<Rightarrow> obj \<Rightarrow> bool" where
  "regenerated completed_at u m \<longleftrightarrow>
     get m ''profile_revision'' = JInt (up_to u) \<and> get m ''profile_generated_at'' = JStr completed_at
     \<and> get m ''profile_change_reason'' = JStr ''obfuscation:awg31''
     \<and> get m ''distribution_status'' = JStr ''pending'' \<and> get m ''distributed_at'' = JNull"

definition regenerate_once :: "outcome \<Rightarrow> profile_update \<Rightarrow> obj \<Rightarrow> ('h world, obj) eff" where
  "regenerate_once outcome u current =
     (if get current ''profile_revision'' = JInt (up_from u)
      then bindE (lift (mark_profile_regenerated (JObj current) ''obfuscation:awg31'' (oc_completed_at outcome)))
             (\<lambda>proposed.
           bindE (ensure (get proposed ''profile_revision'' = JInt (up_to u))
             ''managed profile revision update is inconsistent'') (\<lambda>_.
           bindE (durable (put_metadata (up_name u) proposed)) (\<lambda>_.
           ret proposed)))
      else ret current)"

definition apply_profile_update :: "outcome \<Rightarrow> profile_update \<Rightarrow> ('h world, unit) eff" where
  "apply_profile_update outcome u =
     bindE (reading (read_client_metadata (up_name u))) (\<lambda>current.
     bindE (ensure (get current ''name'' = JStr (up_name u))
       ''managed profile metadata identity changed during cleanup'') (\<lambda>_.
     bindE (regenerate_once outcome u current) (\<lambda>current.
     ensure (regenerated (oc_completed_at outcome) u current)
       ''managed profile metadata changed during terminal cleanup'')))"

definition apply_confirmed_profile_updates :: "outcome \<Rightarrow> ('h world, unit) eff" where
  "apply_confirmed_profile_updates outcome =
     bindE (lift (normalize_transition_outcome (outcome_json outcome))) (\<lambda>outcome.
     if oc_outcome outcome \<noteq> ''confirmed'' then ret ()
     else for_each (apply_profile_update outcome) (oc_updates outcome))"

definition remove_transition_pending :: "transition \<Rightarrow> ('h world, unit) eff" where
  "remove_transition_pending document =
     (let root = pure_path (tr_root document) in
      bindE (query (\<lambda>w. root \<in> set (w_pending w))) (\<lambda>there.
      bindE (if there then durable (\<lambda>w. w\<lparr>w_pending := filter (\<lambda>p. p \<noteq> root) (w_pending w)\<rparr>) else ret ()) (\<lambda>_.
      bindE (query (\<lambda>w. root \<in> set (w_pending w))) (\<lambda>there.
      ensure (\<not> there) ''pending transition artifacts could not be removed''))))"

definition remove_current_transition :: "transition \<Rightarrow> ('h world, unit) eff" where
  "remove_current_transition document =
     bindE (reading load_transition_document) (\<lambda>current.
     case current of
       None \<Rightarrow> ret ()
     | Some c \<Rightarrow>
         bindE (ensure (c = document) ''obfuscation transition changed during terminal cleanup'') (\<lambda>_.
         durable (put_transition None)))"

definition cleanup_document :: "transition option \<Rightarrow> transition option \<Rightarrow> outcome \<Rightarrow> transition option result" where
  "cleanup_document document current outcome =
     (case current of
        Some c \<Rightarrow>
          if tr_id c \<noteq> oc_id outcome
          then Inl (AwgctlError ''terminal cleanup does not match the current transition'')
          else (case document of
                  None \<Rightarrow> Inr (Some c)
                | Some d \<Rightarrow>
                    andthen (normalize_transition_document (transition_json d)) (\<lambda>n.
                    if n \<noteq> c then Inl (AwgctlError ''terminal cleanup transition changed'') else Inr (Some d)))
      | None \<Rightarrow>
          (case document of
             None \<Rightarrow> Inr None
           | Some d \<Rightarrow> andthen (normalize_transition_document (transition_json d)) (\<lambda>n. Inr (Some n))))"

text \<open>One checkpointed step: when the outcome is in the phase, do the work and move on.\<close>

definition checkpoint ::
  "string \<Rightarrow> string \<Rightarrow> (outcome \<Rightarrow> ('h world, unit) eff) \<Rightarrow> outcome \<Rightarrow> ('h world, outcome) eff" where
  "checkpoint phase following work outcome =
     (if oc_phase outcome = phase
      then bindE (work outcome) (\<lambda>_. update_transition_outcome_phase outcome phase following)
      else ret outcome)"

definition from_current :: "('h world, unit) eff \<Rightarrow> outcome \<Rightarrow> ('h world, outcome) eff" where
  "from_current cancel = checkpoint ''current'' ''complete'' (\<lambda>_. cancel)"

definition from_pending ::
  "('h world, unit) eff \<Rightarrow> transition option \<Rightarrow> outcome \<Rightarrow> ('h world, outcome) eff" where
  "from_pending cancel document outcome =
     bindE (checkpoint ''pending'' ''current'' (\<lambda>_. case document of
         None \<Rightarrow> ret ()
       | Some d \<Rightarrow> remove_current_transition d) outcome)
     (from_current cancel)"

definition from_metadata ::
  "('h world, unit) eff \<Rightarrow> transition option \<Rightarrow> outcome \<Rightarrow> ('h world, outcome) eff" where
  "from_metadata cancel document outcome =
     bindE (checkpoint ''metadata'' ''pending'' (\<lambda>_. case document of
         None \<Rightarrow> raise (AwgctlError ''terminal cleanup lost its pending artifact identity'')
       | Some d \<Rightarrow> remove_transition_pending d) outcome)
     (from_pending cancel document)"

definition resume_transition_cleanup ::
  "'h services \<Rightarrow> transition option \<Rightarrow> outcome \<Rightarrow> bool \<Rightarrow> ('h world, outcome) eff" where
  "resume_transition_cleanup sv document outcome skip_recovery_cancel =
     bindE (lift (normalize_transition_outcome (outcome_json outcome))) (\<lambda>outcome.
     bindE (reading load_transition_document) (\<lambda>current.
     bindE (lift (cleanup_document document current outcome)) (\<lambda>document.
     let cancel = (if skip_recovery_cancel then ret () else cancel_transition_recovery sv (oc_id outcome)) in
     if oc_phase outcome = ''complete'' \<and> current \<noteq> None then
       bindE (apply_confirmed_profile_updates outcome) (\<lambda>_.
       bindE (remove_transition_pending (the current)) (\<lambda>_.
       bindE cancel (\<lambda>_.
       bindE (remove_current_transition (the current)) (\<lambda>_.
       ret outcome))))
     else
       bindE (checkpoint ''checkpoint'' ''metadata'' apply_confirmed_profile_updates outcome)
       (from_metadata cancel document))))"

definition complete_transition_document ::
  "'h services \<Rightarrow> transition \<Rightarrow> string \<Rightarrow> string \<Rightarrow> string \<Rightarrow> bool \<Rightarrow> ('h world, outcome) eff" where
  "complete_transition_document sv document kind reason completed_at skip_recovery_cancel =
     bindE (begin_transition_outcome document kind reason completed_at []) (\<lambda>outcome.
     resume_transition_cleanup sv (Some document) outcome skip_recovery_cancel)"

section \<open>Recovery\<close>

definition with_id :: "string \<Rightarrow> transition option \<Rightarrow> transition option" where
  "with_id ident current = (case current of None \<Rightarrow> None | Some c \<Rightarrow> if tr_id c = ident then Some c else None)"

definition cancel_and_close :: "'h services \<Rightarrow> string \<Rightarrow> ('h world, unit) eff" where
  "cancel_and_close sv ident =
     bindE (suppress awgctl_error (cancel_transition_timeout sv ident)) (\<lambda>_.
     bindE (suppress awgctl_error (cancel_transition_recovery sv ident)) (\<lambda>_.
     delete_activation_journal ident))"

text \<open>
  Stop the interface, whatever that leads to, and give up. The interface is the one the server
  configuration names, read at that moment, or \<open>awg0\<close> when reading it raises one of the suppressed
  errors; another error takes the place of the failure, and nothing is stopped.
\<close>

definition load_interface :: "'h services \<Rightarrow> 'h world \<Rightarrow> string result" where
  "load_interface sv w =
     andthen (read_server_config (sv_config_file sv (w_host w))) (\<lambda>config. Inr (cfg_interface config))"

definition stop_interface :: "'h services \<Rightarrow> string \<Rightarrow> string \<Rightarrow> ('h world, 'a) eff" where
  "stop_interface sv interface message =
     bindE (suppress any_error (external (sv_stop sv interface))) (\<lambda>_. raise (AwgctlError message))"

definition stop_and_raise :: "(error \<Rightarrow> bool) \<Rightarrow> 'h services \<Rightarrow> string \<Rightarrow> ('h world, 'a) eff" where
  "stop_and_raise suppressed sv message =
     bindE (handle suppressed (reading (load_interface sv)) (\<lambda>e. ret ''awg0'')) (\<lambda>interface.
     stop_interface sv interface message)"

definition finish_cleanup ::
  "'h services \<Rightarrow> outcome option \<Rightarrow> transition option \<Rightarrow> ('h world, outcome option \<times> transition option) eff" where
  "finish_cleanup sv outcome current =
     (case outcome of
        None \<Rightarrow> ret (outcome, current)
      | Some c \<Rightarrow>
          if oc_phase c \<noteq> ''complete'' \<or> with_id (oc_id c) current \<noteq> None
          then bindE (resume_transition_cleanup sv (with_id (oc_id c) current) c False) (\<lambda>_.
               bindE (reading load_transition_outcome) (\<lambda>outcome.
               bindE (reading load_transition_document) (\<lambda>current.
               ret (outcome, current))))
          else ret (outcome, current))"

definition roll_activation_back :: "'h services \<Rightarrow> transition \<Rightarrow> int \<Rightarrow> ('h world, unit) eff" where
  "roll_activation_back sv current now =
     handle any_error
       (bindE (restoring (sv_restore sv current now)) (\<lambda>_.
        bindE (begin_transition_outcome current ''rolled_back'' ''activation-failed'' (utc_text now) []) (\<lambda>outcome.
        bindE (resume_transition_cleanup sv (Some current) outcome False) (\<lambda>_.
        cancel_and_close sv (tr_id current)))))
       (\<lambda>e. stop_and_raise any_error sv ''crash-interrupted activation could not be recovered; interface stopped'')"

definition recover_activation :: "'h services \<Rightarrow> journal \<Rightarrow> transition option \<Rightarrow> int \<Rightarrow> ('h world, unit) eff" where
  "recover_activation sv j current now =
     (case with_id (jn_id j) current of
        None \<Rightarrow> raise (AwgctlError ''activation recovery journal has no exact current transaction'')
      | Some c \<Rightarrow> roll_activation_back sv c (whole_second now))"

definition reconcile_transition_recovery_locked :: "'h services \<Rightarrow> int \<Rightarrow> ('h world, unit) eff" where
  "reconcile_transition_recovery_locked sv now =
     bindE (reading load_transition_outcome) (\<lambda>outcome.
     bindE (reading load_transition_document) (\<lambda>current.
     bindE (finish_cleanup sv outcome current) (\<lambda>(outcome, current).
     bindE (reading load_activation_journal) (\<lambda>journal.
     case journal of
       None \<Rightarrow> ret ()
     | Some j \<Rightarrow>
         (case outcome of
            Some c \<Rightarrow>
              if oc_id c = jn_id j
              then bindE (resume_transition_cleanup sv (with_id (jn_id j) current) c False) (\<lambda>_.
                   cancel_and_close sv (jn_id j))
              else recover_activation sv j current now
          | None \<Rightarrow> recover_activation sv j current now)))))"

section \<open>Rendered instants\<close>

lemma utc_text_chars:
  assumes "valid_instant t"
  shows "set (utc_text t) \<subseteq> {c. is_digit c} \<union> {CHR ''-'', CHR '':'', CHR ''T'', CHR ''Z''}"
proof -
  define x where "x = t mod day_us div 1000000"
  have k: "1 \<le> t div day_us" "t div day_us \<le> max_ord"
    using assms by (auto simp: valid_instant_def day_us_def max_ord_def)
  have "0 \<le> x" "x < 86400" by (auto simp: x_def day_us_def)
  then have r: "0 \<le> x div 3600" "x div 3600 < 24" "0 \<le> x div 60 mod 60" "x div 60 mod 60 < 60"
    "0 \<le> x mod 60" "x mod 60 < 60" by auto
  have d: "set (pad2 n) \<subseteq> {c. is_digit c}" if "0 \<le> n" "n < 60" for n
    using pad2_chars [of n] that by fastforce
  show ?thesis
    using d [OF r(1)] d [OF r(3,4)] d [OF r(5,6)] r(2) date_text_chars [OF k]
    unfolding utc_text_def Let_def x_def [symmetric] by auto
qed

lemma length_utc_text [simp]: "length (utc_text t) = 20"
  by (simp add: utc_text_def Let_def length_date_text)

lemma time_value_utc: "valid_instant t \<Longrightarrow> time_value (utc_text t) = Some (whole_second t)"
  by (simp add: time_value_def parse_utc_text)

lemma utc_text_codes:
  assumes "valid_instant t" and "c \<in> set (utc_text t)"
  shows "45 \<le> ord_char c \<and> ord_char c \<le> 90"
proof -
  from utc_text_chars [OF assms(1)] assms(2) have "is_digit c \<or> c \<in> {CHR ''-'', CHR '':'', CHR ''T'', CHR ''Z''}"
    by blast
  then show ?thesis by (auto simp: is_digit_def ord_char_def)
qed

lemma text_field_utc:
  assumes "valid_instant t"
  shows "text_field (JStr (utc_text t))"
proof -
  have "\<not> is_space c \<and> \<not> is_control c" if "c \<in> set (utc_text t)" for c
    using utc_text_codes [OF assms that] by (auto simp: is_space_def is_control_def)
  then have "strip (utc_text t) = utc_text t" "\<not> list_ex is_control (utc_text t)"
    by (auto intro: strip_no_space simp: list_ex_iff)
  moreover have "utc_text t \<noteq> []" by (metis length_utc_text list.size(3) zero_neq_numeral)
  ultimately show ?thesis by (simp add: text_field_def)
qed

lemma time_field_utc: "valid_instant t \<Longrightarrow> time_field (JStr (utc_text t))"
  using parse_utc_text [of t] text_field_utc [of t] by (simp add: time_field_def aware_time_def)

section \<open>The metadata of a confirmed profile\<close>

lemma regenerate_profile:
  assumes "normalize_client_metadata v = Inr m" and "get m ''profile_revision'' = JInt (up_from u)"
    and "up_to u = up_from u + 1" and "valid_instant t"
  shows "\<exists>r. mark_profile_regenerated (JObj m) ''obfuscation:awg31'' (utc_text t) = Inr r
    \<and> regenerated (utc_text t) u r \<and> get r ''name'' = get m ''name'' \<and> normalize_client_metadata (JObj r) = Inr r"
proof -
  let ?m = "put_all m
       [(''schema_version'', JInt 3),
        (''profile_revision'', next_revision (get m ''profile_revision'')),
        (''profile_generated_at'', JStr (utc_text t)), (''profile_change_reason'', JStr ''obfuscation:awg31''),
        (''distribution_status'', JStr ''pending''), (''distributed_at'', JNull),
        (''updated_at'', JStr (utc_text t))]"
  have ok: "metadata_ok m" and n: "normalize_client_metadata (JObj m) = Inr m"
    using normalize_ok [OF assms(1)] .
  have s: "py_eq_int (get ?m ''schema_version'') 3" by simp
  have reason: "text_field (JStr ''obfuscation:awg31'')" by code_simp
  have null: "time_field JNull" by (simp add: time_field_def text_field_def)
  note id = optional_text_id optional_timestamp_id reason null time_field_utc [OF assms(4)]
  have "\<exists>r. check_metadata ?m = Inr r"
    unfolding check_metadata_Inr using ok assms(2)
    by (auto simp: metadata_ok_def next_revision_def positive_revision_def id)
  then obtain r where "check_metadata ?m = Inr r" by blast
  then have r: "normalize_client_metadata (JObj ?m) = Inr r"
    using migrate_metadata_id [OF s] by (simp add: normalize_JObj)
  have c: "check_metadata ?m = Inr r" by fact
  have "get r ''profile_generated_at'' = JStr (utc_text t)" "get r ''profile_change_reason'' = JStr ''obfuscation:awg31''"
    "get r ''distributed_at'' = JNull"
    using c unfolding check_metadata_Inr by (auto simp: id)
  then have "regenerated (utc_text t) u r"
    using keep_field [OF r s, of "''profile_revision''"] keep_field [OF r s, of "''distribution_status''"] assms(2,3)
    by (simp add: regenerated_def next_revision_def)
  moreover have "get r ''name'' = get m ''name''" using keep_field [OF r s, of "''name''"] by simp
  ultimately show ?thesis
    using r n normalize_ok(2) [OF r] by (auto simp: mark_profile_regenerated_def)
qed

section \<open>The stages of a cleanup\<close>

definition outcome_at :: "outcome \<Rightarrow> string \<Rightarrow> outcome" where
  "outcome_at oc ph = oc\<lparr>oc_phase := ph\<rparr>"

definition profile_at :: "(obj \<Rightarrow> bool) \<Rightarrow> profile_update \<Rightarrow> protected_file \<Rightarrow> bool" where
  "profile_at p u d \<longleftrightarrow> (\<exists>v m. d = stored v \<and> v \<noteq> JNull \<and> normalize_client_metadata v = Inr m
     \<and> get m ''name'' = JStr (up_name u) \<and> p m)"

definition update_names :: "outcome \<Rightarrow> string set" where
  "update_names oc = up_name ` set (oc_updates oc)"

text \<open>
  The state of a cleanup: the phase of the recorded outcome, the transition still on disk, the
  profiles already updated, and whether the pending artifacts and the recovery timer are gone. The
  other profiles have the metadata \<open>M\<close>, and the journal is \<open>J\<close>.
\<close>

definition stage ::
  "outcome \<Rightarrow> (string \<Rightarrow> protected_file) \<Rightarrow> journal option \<Rightarrow> string \<Rightarrow> transition option \<Rightarrow> string set
     \<Rightarrow> bool \<Rightarrow> bool \<Rightarrow> 'h world \<Rightarrow> bool" where
  "stage oc M J ph cur D pd rc w \<longleftrightarrow>
     load_transition_outcome w = Inr (Some (outcome_at oc ph))
     \<and> load_transition_document w = Inr cur
     \<and> (\<forall>u\<in>set (oc_updates oc). profile_at (\<lambda>m. get m ''profile_revision'' = JInt (up_from u)
            \<or> regenerated (oc_completed_at oc) u m) u (w_metadata w (up_name u)))
     \<and> (\<forall>u\<in>set (oc_updates oc). up_name u \<in> D \<longrightarrow>
            profile_at (regenerated (oc_completed_at oc) u) u (w_metadata w (up_name u)))
     \<and> (\<forall>n. n \<notin> update_names oc \<longrightarrow> w_metadata w n = M n)
     \<and> (pd \<longrightarrow> pure_path (transition_root (oc_id oc)) \<notin> set (w_pending w))
     \<and> (rc \<longrightarrow> (True, oc_id oc) \<notin> set (w_timers w))
     \<and> load_activation_journal w = Inr J"

lemma stage_mono:
  "stage oc M J ph cur D pd rc w \<Longrightarrow> D' \<subseteq> D \<Longrightarrow> (pd' \<longrightarrow> pd) \<Longrightarrow> (rc' \<longrightarrow> rc) \<Longrightarrow> stage oc M J ph cur D' pd' rc' w"
  unfolding stage_def by blast

definition cleanup_ok :: "outcome \<Rightarrow> bool" where
  "cleanup_ok oc \<longleftrightarrow> outcome_ok oc \<and> (\<exists>t. valid_instant t \<and> oc_completed_at oc = utc_text t)"

lemma outcome_at_ok: "outcome_ok oc \<Longrightarrow> ph \<in> set cleanup_phases \<Longrightarrow> outcome_ok (outcome_at oc ph)"
  by (auto simp: outcome_ok_def outcome_at_def)

lemma outcome_at_simps [simp]:
  "oc_phase (outcome_at oc ph) = ph" "oc_id (outcome_at oc ph) = oc_id oc"
  "oc_outcome (outcome_at oc ph) = oc_outcome oc" "oc_updates (outcome_at oc ph) = oc_updates oc"
  "oc_completed_at (outcome_at oc ph) = oc_completed_at oc" "(outcome_at oc ph)\<lparr>oc_phase := ph'\<rparr> = outcome_at oc ph'"
  "outcome_at (outcome_at oc ph) ph' = outcome_at oc ph'"
  by (simp_all add: outcome_at_def)

lemma renormalized_outcome:
  "outcome_ok oc \<Longrightarrow> ph \<in> set cleanup_phases \<Longrightarrow>
     normalize_transition_outcome (outcome_json (outcome_at oc ph)) = Inr (outcome_at oc ph)"
  by (rule outcome.good_accepted) (rule outcome_at_ok)

subsection \<open>The profiles\<close>

lemma read_metadata:
  assumes "profile_at p u d" and "w_metadata s (up_name u) = d"
  shows "\<exists>m. read_client_metadata (up_name u) s = Inr m \<and> get m ''name'' = JStr (up_name u) \<and> p m
    \<and> normalize_client_metadata (JObj m) = Inr m"
  using assms normalize_ok(2)
  by (fastforce simp: profile_at_def read_client_metadata_def read_document_def stored_def result_simps)

lemma profile_written:
  "normalize_client_metadata (JObj m) = Inr m \<Longrightarrow> get m ''name'' = JStr (up_name u) \<Longrightarrow> p m \<Longrightarrow>
     profile_at p u (stored (JObj m))"
  by (auto simp: profile_at_def)

lemma stage_put_metadata:
  assumes s: "stage oc M J ph cur D pd rc s" and u: "u \<in> set (oc_updates oc)" and d: "distinct (map up_name (oc_updates oc))"
    and m: "normalize_client_metadata (JObj m) = Inr m" "get m ''name'' = JStr (up_name u)"
      "regenerated (oc_completed_at oc) u m"
  shows "stage oc M J ph cur (insert (up_name u) D) pd rc (put_metadata (up_name u) m s)"
proof -
  have same: "u' = u" if "u' \<in> set (oc_updates oc)" "up_name u' = up_name u" for u'
    using d u that by (auto simp: distinct_map inj_on_def)
  have "profile_at (regenerated (oc_completed_at oc) u') u' (stored (JObj m))
    \<and> profile_at (\<lambda>m. get m ''profile_revision'' = JInt (up_from u') \<or> regenerated (oc_completed_at oc) u' m) u'
        (stored (JObj m))"
    if "u' \<in> set (oc_updates oc)" "up_name u' = up_name u" for u'
    using same [OF that] m by (auto intro!: profile_written)
  then show ?thesis
    using s u unfolding stage_def
    by (auto simp: put_metadata_def load_transition_outcome_def load_transition_document_def
        load_activation_journal_def update_names_def)
qed

lemma stage_done:
  assumes s: "stage oc M J ph cur D pd rc s" and u: "u \<in> set (oc_updates oc)" and d: "distinct (map up_name (oc_updates oc))"
    and p: "profile_at (regenerated (oc_completed_at oc) u) u (w_metadata s (up_name u))"
  shows "stage oc M J ph cur (insert (up_name u) D) pd rc s"
proof -
  have "u' = u" if "u' \<in> set (oc_updates oc)" "up_name u' = up_name u" for u'
    using d u that by (auto simp: distinct_map inj_on_def)
  with s p show ?thesis unfolding stage_def by fastforce
qed

lemma triple_apply_update:
  assumes ok: "cleanup_ok oc" and u: "u \<in> set (oc_updates oc)"
  shows "triple (stage oc M J ph cur D pd rc) (apply_profile_update (outcome_at oc ph') u)
    (\<lambda>_. stage oc M J ph cur (insert (up_name u) D) pd rc) (stage oc M J ph cur D pd rc)"
proof -
  let ?S = "\<lambda>D. stage oc M J ph cur D pd rc"
  obtain t where t: "valid_instant t" "oc_completed_at oc = utc_text t" using ok by (auto simp: cleanup_ok_def)
  have uok: "update_ok u" and d: "distinct (map up_name (oc_updates oc))"
    using ok u by (auto simp: cleanup_ok_def outcome_ok_def list_all_iff)
  let ?P = "\<lambda>m. get m ''profile_revision'' = JInt (up_from u) \<or> regenerated (oc_completed_at oc) u m"
  let ?R = "\<lambda>m s. ?S D s \<and> get m ''name'' = JStr (up_name u) \<and> ?P m \<and> normalize_client_metadata (JObj m) = Inr m
    \<and> read_client_metadata (up_name u) s = Inr m"
  let ?Q = "\<lambda>m s. ?S (insert (up_name u) D) s \<and> regenerated (oc_completed_at oc) u m"
  have rewrite: "triple (?R m) (regenerate_once (outcome_at oc ph') u m) ?Q (?S D)" for m
  proof (rule triple_pre)
    fix s assume s: "?R m s"
    show "triple ((=) s) (regenerate_once (outcome_at oc ph') u m) ?Q (?S D)"
    proof (cases "get m ''profile_revision'' = JInt (up_from u)")
      case True
      obtain r where r: "mark_profile_regenerated (JObj m) ''obfuscation:awg31'' (utc_text t) = Inr r"
        "regenerated (oc_completed_at oc) u r" "get r ''name'' = JStr (up_name u)" "normalize_client_metadata (JObj r) = Inr r"
        using regenerate_profile [of "JObj m" m u t] s True uok t by (auto simp: update_ok_def)
      have p: "?S (insert (up_name u) D) (put_metadata (up_name u) r s)"
        using s u d r by (intro stage_put_metadata) auto
      then have "?S D (put_metadata (up_name u) r s)" by (rule stage_mono) auto
      moreover have "get r ''profile_revision'' = JInt (up_to u)" using r(2) by (simp add: regenerated_def)
      ultimately show ?thesis
        using True r p s t
        by (simp add: regenerate_once_def)
          (intro triple_bind [where R = "\<lambda>_. ?S (insert (up_name u) D)"] triple_durable triple_ret, auto)
    next
      case False
      then have g: "regenerated (oc_completed_at oc) u m" using s by blast
      have "profile_at (regenerated (oc_completed_at oc) u) u (w_metadata s (up_name u))"
        using s g by (auto simp: profile_at_def read_client_metadata_def read_document_def stored_def result_simps
            split: option.splits if_splits)
      then have "?S (insert (up_name u) D) s" using s u d by (intro stage_done) auto
      with g False show ?thesis by (simp add: regenerate_once_def triple_ret)
    qed
  qed
  have read: "\<exists>m. read_client_metadata (up_name u) s = Inr m \<and> ?R m s" if "?S D s" for s
    using read_metadata [of ?P u "w_metadata s (up_name u)" s] u that by (auto simp: stage_def)
  show ?thesis
    unfolding apply_profile_update_def outcome_at_simps
  proof (rule triple_bind [where R = ?R])
    show "triple (?S D) (reading (read_client_metadata (up_name u))) ?R (?S D)"
      using read by (intro triple_reading)
  next
    fix m
    show "triple (?R m) (bindE (ensure (get m ''name'' = JStr (up_name u))
        ''managed profile metadata identity changed during cleanup'')
      (\<lambda>_. bindE (regenerate_once (outcome_at oc ph') u m) (\<lambda>current.
        ensure (regenerated (oc_completed_at oc) u current)
          ''managed profile metadata changed during terminal cleanup''))) (\<lambda>_. ?S (insert (up_name u) D)) (?S D)"
      by (rule triple_bind [where R = "\<lambda>_. ?R m"], rule triple_ensure, blast,
          rule triple_bind [OF rewrite], rule triple_ensure, blast)
  qed
qed

lemma triple_apply_confirmed:
  assumes ok: "cleanup_ok oc" and ph: "ph' \<in> set cleanup_phases"
  shows "triple (stage oc M J ph cur {} pd rc :: 'h world \<Rightarrow> bool) (apply_confirmed_profile_updates (outcome_at oc ph'))
    (\<lambda>_. stage oc M J ph cur (update_names oc) pd rc) (stage oc M J ph cur {} pd rc)"
proof -
  have o: "outcome_ok oc" using ok by (simp add: cleanup_ok_def)
  note n = renormalized_outcome [OF o ph]
  show ?thesis
  proof (cases "oc_outcome oc = ''confirmed''")
    case False
    then have "update_names oc = {}" using o by (auto simp: outcome_ok_def update_names_def)
    with False show ?thesis by (simp add: apply_confirmed_profile_updates_def n triple_ret)
  next
    case True
    let ?S = "\<lambda>D. stage oc M J ph cur D pd rc :: 'h world \<Rightarrow> bool"
    have each: "triple (?S D) (for_each (apply_profile_update (outcome_at oc ph')) us)
        (\<lambda>_. ?S (D \<union> up_name ` set us)) (?S {})"
      if "set us \<subseteq> set (oc_updates oc)" for us D
      using that
    proof (induction us arbitrary: D)
      case Nil
      show ?case by (simp add: triple_ret)
    next
      case (Cons u us)
      then have u: "u \<in> set (oc_updates oc)" by simp
      have one: "triple (?S D) (apply_profile_update (outcome_at oc ph') u)
          (\<lambda>_. ?S (insert (up_name u) D)) (?S {})"
        by (rule triple_conseq [OF triple_apply_update [OF ok u, where D = D]]) (auto elim: stage_mono)
      have rest: "triple (?S (insert (up_name u) D)) (for_each (apply_profile_update (outcome_at oc ph')) us)
          (\<lambda>_. ?S (insert (up_name u) D \<union> up_name ` set us)) (?S {})"
        using Cons.prems by (intro Cons.IH) simp
      from triple_bind [OF one rest] show ?case by simp
    qed
    from each [of "oc_updates oc" "{}"] True show ?thesis
      by (simp add: apply_confirmed_profile_updates_def n update_names_def)
  qed
qed

subsection \<open>Artifacts, transition, timer, checkpoint\<close>

lemma stage_pending:
  "stage oc M J ph cur D pd rc s \<Longrightarrow> stage oc M J ph cur D pd rc (s\<lparr>w_pending := filter f (w_pending s)\<rparr>)"
  by (auto simp: stage_def load_transition_outcome_def load_transition_document_def load_activation_journal_def)

lemma triple_remove_pending:
  assumes root: "pure_path (tr_root d) = pure_path (transition_root (oc_id oc))"
  shows "triple (stage oc M J ph cur D pd rc :: 'h world \<Rightarrow> bool) (remove_transition_pending d)
    (\<lambda>_. stage oc M J ph cur D True rc) (stage oc M J ph cur D pd rc)"
proof -
  let ?r = "pure_path (transition_root (oc_id oc))"
  let ?S = "stage oc M J ph cur D pd rc :: 'h world \<Rightarrow> bool"
  let ?T = "stage oc M J ph cur D True rc :: 'h world \<Rightarrow> bool"
  let ?there = "\<lambda>b s. ?S s \<and> b = (?r \<in> set (w_pending s))"
  have del: "?T (s\<lparr>w_pending := filter (\<lambda>p. p \<noteq> ?r) (w_pending s)\<rparr>)" if "?S s" for s
    using stage_pending [OF that, of "\<lambda>p. p \<noteq> ?r"] by (simp add: stage_def)
  have work: "triple (?there b)
      (if b then durable (\<lambda>w. w\<lparr>w_pending := filter (\<lambda>p. p \<noteq> ?r) (w_pending w)\<rparr>) else ret ()) (\<lambda>_. ?T) ?S" for b
  proof (cases b)
    case True
    have "triple ?S (durable (\<lambda>w. w\<lparr>w_pending := filter (\<lambda>p. p \<noteq> ?r) (w_pending w)\<rparr>)) (\<lambda>_. ?T) ?S"
      by (rule triple_durable) (erule del stage_pending | assumption)+
    then show ?thesis using True by (auto elim: triple_conseq)
  next
    case False
    have "triple (?there b) (ret ()) (\<lambda>_. ?T) ?S" by (rule triple_ret) (use False in \<open>simp add: stage_def\<close>)
    then show ?thesis using False by simp
  qed
  show ?thesis
    unfolding remove_transition_pending_def Let_def root
    by (rule triple_bind [where R = ?there], rule triple_query, simp, rule triple_bind [OF work],
        rule triple_bind [where R = "\<lambda>b s. ?T s \<and> \<not> b"], rule triple_query, simp add: stage_def,
        rule triple_ensure, simp)
qed

lemma stage_transition_gone:
  "stage oc M J ph cur D pd rc s \<Longrightarrow> stage oc M J ph None D pd rc (put_transition None s)"
  by (simp add: stage_def load_transition_outcome_def load_transition_document_def load_activation_journal_def
      put_transition_def read_document_def)

lemma triple_remove_current:
  assumes cur: "cur = None \<or> cur = Some d"
  shows "triple (stage oc M J ph cur D pd rc :: 'h world \<Rightarrow> bool) (remove_current_transition d)
    (\<lambda>_. stage oc M J ph None D pd rc)
    (\<lambda>s. stage oc M J ph cur D pd rc s \<or> stage oc M J ph None D pd rc s)"
proof -
  let ?S = "stage oc M J ph cur D pd rc :: 'h world \<Rightarrow> bool"
  let ?T = "stage oc M J ph None D pd rc :: 'h world \<Rightarrow> bool"
  have d: "triple ?S (durable (put_transition None)) (\<lambda>_. ?T) (\<lambda>s. ?S s \<or> ?T s)"
    by (auto intro!: triple_durable stage_transition_gone)
  have read: "triple ?S (reading load_transition_document) (\<lambda>c s. c = cur \<and> ?S s) (\<lambda>s. ?S s \<or> ?T s)"
    by (rule triple_reading) (simp add: stage_def)
  have rest: "triple (\<lambda>s. c = cur \<and> ?S s)
      (case c of None \<Rightarrow> ret ()
       | Some c \<Rightarrow> bindE (ensure (c = d) ''obfuscation transition changed during terminal cleanup'')
           (\<lambda>_. durable (put_transition None))) (\<lambda>_. ?T) (\<lambda>s. ?S s \<or> ?T s)" for c
  proof (cases "c = cur")
    case True
    show ?thesis
    proof (cases cur)
      case None
      then show ?thesis using True by (simp add: triple_ret)
    next
      case (Some x)
      then show ?thesis using True cur d by simp
    qed
  next
    case False
    then show ?thesis by (simp add: triple_def)
  qed
  show ?thesis unfolding remove_current_transition_def by (rule triple_bind [OF read rest])
qed

lemma stage_timers:
  "stage oc M J ph cur D pd rc s \<Longrightarrow> stage oc M J ph cur D pd rc (s\<lparr>w_timers := filter f (w_timers s)\<rparr>)"
  "stage oc M J ph cur D pd rc s \<Longrightarrow> stage oc M J ph cur D pd rc (s\<lparr>w_host := h\<rparr>)"
  by (auto simp: stage_def load_transition_outcome_def load_transition_document_def load_activation_journal_def)

lemma triple_external:
  assumes "\<And>s. P s \<Longrightarrow> \<exists>x. fst (f (w_host s)) = Inr x \<and> Q x (s\<lparr>w_host := snd (f (w_host s))\<rparr>)"
  shows "triple P (external f) Q K"
  unfolding triple_def
proof (intro allI impI)
  fix b s assume "P s"
  then obtain x where x: "fst (f (w_host s)) = Inr x" "Q x (s\<lparr>w_host := snd (f (w_host s))\<rparr>)" using assms by blast
  moreover obtain r h where "f (w_host s) = (r, h)" by (metis surj_pair)
  ultimately have "external f (b, s) = (Done x, (b, s\<lparr>w_host := snd (f (w_host s))\<rparr>))"
    by (simp add: external_def run_simps)
  with x show "ends Q K (b = None) (external f (b, s))" by simp
qed

lemma gives_up_raise: "gives_up K (raise e)"
  by (simp add: gives_up_def raise_def)

definition cancels :: "'h services \<Rightarrow> string \<Rightarrow> bool" where
  "cancels sv ident \<longleftrightarrow> (\<forall>recovery h. fst (sv_cancel sv recovery ident h) = Inr ())"

lemma triple_cancel_recovery:
  assumes "cancels sv (oc_id oc)"
  shows "triple (stage oc M J ph cur D pd rc :: 'h world \<Rightarrow> bool) (cancel_transition_recovery sv (oc_id oc))
    (\<lambda>_. stage oc M J ph cur D pd True) (stage oc M J ph cur D pd rc)"
  unfolding cancel_transition_recovery_def remove_units_def
proof (rule triple_handle)
  let ?S = "stage oc M J ph cur D pd rc :: 'h world \<Rightarrow> bool"
  let ?T = "stage oc M J ph cur D pd True :: 'h world \<Rightarrow> bool"
  let ?d = "durable (\<lambda>w. w\<lparr>w_timers := filter (\<lambda>t. t \<noteq> (True, oc_id oc)) (w_timers w)\<rparr>)"
  have gone: "?T (s\<lparr>w_timers := filter (\<lambda>t. t \<noteq> (True, oc_id oc)) (w_timers s)\<rparr>)" if "?S s" for s
    using stage_timers(1) [OF that, of "\<lambda>t. t \<noteq> (True, oc_id oc)"] by (simp add: stage_def)
  have "triple ?S ?d (\<lambda>_. ?T) ?S"
    by (rule triple_durable) (erule gone stage_timers | assumption)+
  moreover have "triple ?S (external (sv_cancel sv True (oc_id oc))) (\<lambda>_. ?S) ?S"
    using assms by (intro triple_external) (auto simp: cancels_def intro!: stage_timers)
  ultimately show "triple ?S (bindE (external (sv_cancel sv True (oc_id oc))) (\<lambda>_. ?d)) (\<lambda>_. ?T) ?S"
    by (intro triple_bind)
qed (rule gives_up_raise)

lemma stage_outcome_put:
  assumes "stage oc M J ph cur D pd rc s" and "outcome_ok oc" and "ph' \<in> set cleanup_phases"
  shows "stage oc M J ph' cur D pd rc (put_outcome (stored (outcome_json (outcome_at oc ph'))) s)"
  using assms(1) outcome_file.read_stored [OF outcome_at_ok [OF assms(2,3)]]
  by (simp add: stage_def load_transition_outcome_def load_transition_document_def load_activation_journal_def
      put_outcome_def)

lemma triple_update_phase:
  assumes ok: "outcome_ok oc" and ph: "ph \<in> set cleanup_phases" "ph' \<in> set cleanup_phases"
  shows "triple (stage oc M J ph cur D pd rc :: 'h world \<Rightarrow> bool)
    (update_transition_outcome_phase (outcome_at oc ph) ph ph')
    (\<lambda>x s. x = outcome_at oc ph' \<and> stage oc M J ph' cur D pd rc s)
    (\<lambda>s. stage oc M J ph cur D pd rc s \<or> stage oc M J ph' cur D pd rc s)"
proof -
  let ?S = "stage oc M J ph cur D pd rc :: 'h world \<Rightarrow> bool"
  let ?S' = "stage oc M J ph' cur D pd rc :: 'h world \<Rightarrow> bool"
  let ?K = "\<lambda>s. ?S s \<or> ?S' s"
  have read: "triple ?S (reading load_transition_outcome) (\<lambda>c s. c = Some (outcome_at oc ph) \<and> ?S s) ?K"
    by (rule triple_reading) (simp add: stage_def)
  have same: "triple (\<lambda>s. c = Some (outcome_at oc ph) \<and> ?S s)
      (ensure (c = Some (outcome_at oc ph)) message) (\<lambda>_. ?S) ?K" for c message
    by (rule triple_ensure) simp
  have save: "triple ?S (replace_document put_outcome load_transition_outcome outcome_json message (outcome_at oc ph'))
      (\<lambda>_. ?S') ?K" for message
    by (rule outcome_file.triple_replace [OF outcome_at_ok [OF ok ph(2)] load_transition_outcome_def])
      (auto intro!: stage_outcome_put ok ph)
  show ?thesis
    unfolding update_transition_outcome_phase_def
    by (simp add: renormalized_outcome ok ph)
      (rule triple_bind [OF read], rule triple_bind [OF same], rule triple_bind [OF save], rule triple_ret, simp)
qed

section \<open>Resuming a cleanup\<close>

text \<open>
  The points at which a cleanup can be found: by phase, what is already done. A complete outcome
  beside its own transition is the contradiction the code repairs.
\<close>

inductive cleanup_point ::
  "outcome \<Rightarrow> string \<Rightarrow> transition option \<Rightarrow> string set \<Rightarrow> bool \<Rightarrow> bool \<Rightarrow> bool" for oc where
  checkpoint: "tr_id t = oc_id oc \<Longrightarrow> cleanup_point oc ''checkpoint'' (Some t) {} False False"
| metadata: "tr_id t = oc_id oc \<Longrightarrow> cleanup_point oc ''metadata'' (Some t) (update_names oc) False False"
| pending: "(case cur of None \<Rightarrow> True | Some t \<Rightarrow> tr_id t = oc_id oc) \<Longrightarrow>
    cleanup_point oc ''pending'' cur (update_names oc) True False"
| current: "cleanup_point oc ''current'' None (update_names oc) True False"
| complete: "cleanup_point oc ''complete'' None (update_names oc) True True"
| contradiction: "tr_id t = oc_id oc \<Longrightarrow> cleanup_point oc ''complete'' (Some t) {} False False"

definition cleaning :: "outcome \<Rightarrow> (string \<Rightarrow> protected_file) \<Rightarrow> journal option \<Rightarrow> 'h world \<Rightarrow> bool" where
  "cleaning oc M J w \<longleftrightarrow> (\<exists>ph cur D pd rc. cleanup_point oc ph cur D pd rc \<and> stage oc M J ph cur D pd rc w)"

definition settled :: "outcome \<Rightarrow> (string \<Rightarrow> protected_file) \<Rightarrow> journal option \<Rightarrow> 'h world \<Rightarrow> bool" where
  "settled oc M J = stage oc M J ''complete'' None (update_names oc) True True"

lemma settled_cleaning: "settled oc M J w \<Longrightarrow> cleaning oc M J w"
  unfolding settled_def cleaning_def by (blast intro: cleanup_point.complete)

lemma point_cleaning:
  assumes "cleanup_point oc ph cur D' pd' rc'" and "stage oc M J ph cur D pd rc w"
    and "D' \<subseteq> D" and "pd' \<longrightarrow> pd" and "rc' \<longrightarrow> rc"
  shows "cleaning oc M J w"
  using stage_mono [OF assms(2-5)] assms(1) unfolding cleaning_def by blast

lemma checkpoint_skip [simp]: "oc_phase x \<noteq> phase \<Longrightarrow> checkpoint phase following work x = ret x"
  by (simp add: checkpoint_def)

lemma triple_checkpoint:
  assumes ok: "outcome_ok oc" and ph: "ph \<in> set cleanup_phases" "ph' \<in> set cleanup_phases"
    and work: "triple (stage oc M J ph cur D pd rc :: 'h world \<Rightarrow> bool) (work (outcome_at oc ph))
      (\<lambda>_. stage oc M J ph cur' D' pd' rc') (cleaning oc M J)"
    and points: "\<And>w. stage oc M J ph cur' D' pd' rc' w \<Longrightarrow> cleaning oc M J (w :: 'h world)"
      "\<And>w. stage oc M J ph' cur' D' pd' rc' w \<Longrightarrow> cleaning oc M J (w :: 'h world)"
    and rest: "triple (stage oc M J ph' cur' D' pd' rc' :: 'h world \<Rightarrow> bool) (f (outcome_at oc ph')) Q (cleaning oc M J)"
  shows "triple (stage oc M J ph cur D pd rc :: 'h world \<Rightarrow> bool)
    (bindE (checkpoint ph ph' work (outcome_at oc ph)) f) Q (cleaning oc M J)"
proof -
  have u: "triple (stage oc M J ph cur' D' pd' rc' :: 'h world \<Rightarrow> bool)
      (update_transition_outcome_phase (outcome_at oc ph) ph ph')
      (\<lambda>x s. x = outcome_at oc ph' \<and> stage oc M J ph' cur' D' pd' rc' s) (cleaning oc M J)"
    by (rule triple_conseq [OF triple_update_phase [OF ok ph]]) (auto intro: points)
  have f: "triple (\<lambda>s. x = outcome_at oc ph' \<and> stage oc M J ph' cur' D' pd' rc' (s :: 'h world)) (f x) Q (cleaning oc M J)" for x
    using rest by (cases "x = outcome_at oc ph'") (auto simp: triple_def)
  show ?thesis
    unfolding checkpoint_def
    by (simp add: bindE_assoc) (rule triple_bind [OF work], rule triple_bind [OF u], rule f)
qed

lemma phases [simp]: "ph \<in> {''checkpoint'', ''metadata'', ''pending'', ''current'', ''complete''} \<Longrightarrow> ph \<in> set cleanup_phases"
  by (simp add: cleanup_phases_def)

text \<open>Each suffix of the cleanup, from the stage it starts at.\<close>

lemma triple_from_current:
  assumes o: "outcome_ok oc" and c: "cancels sv (oc_id oc)"
  shows "triple (stage oc M J ''current'' None (update_names oc) True False :: 'h world \<Rightarrow> bool)
    (from_current (cancel_transition_recovery sv (oc_id oc)) (outcome_at oc ''current''))
    (\<lambda>x s. x = outcome_at oc ''complete'' \<and> settled oc M J s) (cleaning oc M J)"
proof -
  have "triple (stage oc M J ''current'' None (update_names oc) True False :: 'h world \<Rightarrow> bool)
    (bindE (checkpoint ''current'' ''complete'' (\<lambda>_. cancel_transition_recovery sv (oc_id oc)) (outcome_at oc ''current'')) ret)
    (\<lambda>x s. x = outcome_at oc ''complete'' \<and> settled oc M J s) (cleaning oc M J)"
  proof (rule triple_checkpoint [OF o, where cur' = None and D' = "update_names oc" and pd' = True and rc' = True])
    show "triple (stage oc M J ''current'' None (update_names oc) True False :: 'h world \<Rightarrow> bool)
        (cancel_transition_recovery sv (oc_id oc)) (\<lambda>_. stage oc M J ''current'' None (update_names oc) True True)
        (cleaning oc M J)"
      by (rule triple_conseq [OF triple_cancel_recovery [OF c]]) (auto intro: point_cleaning [OF cleanup_point.current])
  qed (auto intro: point_cleaning [OF cleanup_point.current] point_cleaning [OF cleanup_point.complete]
      intro!: triple_ret simp: settled_def)
  then show ?thesis by (simp add: from_current_def)
qed

lemma triple_from_pending:
  assumes o: "outcome_ok oc" and c: "cancels sv (oc_id oc)" and cur: "\<And>t. cur = Some t \<Longrightarrow> tr_id t = oc_id oc"
  shows "triple (stage oc M J ''pending'' cur (update_names oc) True False :: 'h world \<Rightarrow> bool)
    (from_pending (cancel_transition_recovery sv (oc_id oc)) cur (outcome_at oc ''pending''))
    (\<lambda>x s. x = outcome_at oc ''complete'' \<and> settled oc M J s) (cleaning oc M J)"
  unfolding from_pending_def
proof (rule triple_checkpoint [OF o, where cur' = None and D' = "update_names oc" and pd' = True and rc' = False])
  have p: "cleanup_point oc ''pending'' c (update_names oc) True False" if "c = None \<or> c = cur" for c
    using that cur by (intro cleanup_point.pending) (auto split: option.split)
  show "triple (stage oc M J ''pending'' cur (update_names oc) True False :: 'h world \<Rightarrow> bool)
      (case cur of None \<Rightarrow> ret () | Some d \<Rightarrow> remove_current_transition d)
      (\<lambda>_. stage oc M J ''pending'' None (update_names oc) True False) (cleaning oc M J)"
  proof (cases cur)
    case None
    then show ?thesis by (simp add: triple_ret)
  next
    case (Some d)
    have "triple (stage oc M J ''pending'' (Some d) (update_names oc) True False :: 'h world \<Rightarrow> bool)
        (remove_current_transition d) (\<lambda>_. stage oc M J ''pending'' None (update_names oc) True False) (cleaning oc M J)"
      by (rule triple_conseq [OF triple_remove_current [where cur = "Some d"]])
        (use Some in \<open>auto intro: point_cleaning [OF p]\<close>)
    with Some show ?thesis by simp
  qed
  show "\<And>w. stage oc M J ''pending'' None (update_names oc) True False w \<Longrightarrow> cleaning oc M J (w :: 'h world)"
    by (auto intro: point_cleaning [OF p])
qed (use triple_from_current [OF o c] in \<open>auto intro: point_cleaning [OF cleanup_point.current]\<close>)

lemma triple_from_metadata:
  assumes o: "outcome_ok oc" and c: "cancels sv (oc_id oc)" and t: "transition_ok t" "tr_id t = oc_id oc"
  shows "triple (stage oc M J ''metadata'' (Some t) (update_names oc) False False :: 'h world \<Rightarrow> bool)
    (from_metadata (cancel_transition_recovery sv (oc_id oc)) (Some t) (outcome_at oc ''metadata''))
    (\<lambda>x s. x = outcome_at oc ''complete'' \<and> settled oc M J s) (cleaning oc M J)"
  unfolding from_metadata_def option.case
proof (rule triple_checkpoint [OF o, where cur' = "Some t" and D' = "update_names oc" and pd' = True and rc' = False])
  have root: "pure_path (tr_root t) = pure_path (transition_root (oc_id oc))" using t by (simp add: transition_ok_def)
  note m = cleanup_point.metadata [OF t(2)]
  have pen: "cleanup_point oc ''pending'' (Some t) (update_names oc) True False"
    by (rule cleanup_point.pending) (simp add: t)
  show "triple (stage oc M J ''metadata'' (Some t) (update_names oc) False False :: 'h world \<Rightarrow> bool)
      (remove_transition_pending t) (\<lambda>_. stage oc M J ''metadata'' (Some t) (update_names oc) True False) (cleaning oc M J)"
    by (rule triple_conseq [OF triple_remove_pending [OF root]]) (auto intro: point_cleaning [OF m])
  show "\<And>w. stage oc M J ''metadata'' (Some t) (update_names oc) True False w \<Longrightarrow> cleaning oc M J (w :: 'h world)"
    by (auto intro: point_cleaning [OF m])
  show "\<And>w. stage oc M J ''pending'' (Some t) (update_names oc) True False w \<Longrightarrow> cleaning oc M J (w :: 'h world)"
    by (auto intro: point_cleaning [OF pen])
qed (use triple_from_pending [OF o c, of "Some t"] t in auto)

lemma triple_from_checkpoint:
  assumes ok: "cleanup_ok oc" and c: "cancels sv (oc_id oc)" and t: "transition_ok t" "tr_id t = oc_id oc"
  shows "triple (stage oc M J ''checkpoint'' (Some t) {} False False :: 'h world \<Rightarrow> bool)
    (bindE (checkpoint ''checkpoint'' ''metadata'' apply_confirmed_profile_updates (outcome_at oc ''checkpoint''))
      (from_metadata (cancel_transition_recovery sv (oc_id oc)) (Some t)))
    (\<lambda>x s. x = outcome_at oc ''complete'' \<and> settled oc M J s) (cleaning oc M J)"
proof -
  have o: "outcome_ok oc" using ok by (simp add: cleanup_ok_def)
  note p = cleanup_point.checkpoint [OF t(2)] and m = cleanup_point.metadata [OF t(2)]
  show ?thesis
  proof (rule triple_checkpoint [OF o, where cur' = "Some t" and D' = "update_names oc" and pd' = False and rc' = False])
    show "triple (stage oc M J ''checkpoint'' (Some t) {} False False :: 'h world \<Rightarrow> bool)
        (apply_confirmed_profile_updates (outcome_at oc ''checkpoint''))
        (\<lambda>_. stage oc M J ''checkpoint'' (Some t) (update_names oc) False False) (cleaning oc M J)"
      by (rule triple_conseq [OF triple_apply_confirmed [OF ok]]) (auto intro: point_cleaning [OF p])
    show "\<And>w. stage oc M J ''checkpoint'' (Some t) (update_names oc) False False w \<Longrightarrow> cleaning oc M J (w :: 'h world)"
      by (auto intro: point_cleaning [OF p])
    show "\<And>w. stage oc M J ''metadata'' (Some t) (update_names oc) False False w \<Longrightarrow> cleaning oc M J (w :: 'h world)"
      by (auto intro: point_cleaning [OF m])
  qed (use triple_from_metadata [OF o c t] in auto)
qed

lemma triple_contradiction:
  assumes ok: "cleanup_ok oc" and c: "cancels sv (oc_id oc)" and t: "transition_ok t" "tr_id t = oc_id oc"
  shows "triple (stage oc M J ''complete'' (Some t) {} False False :: 'h world \<Rightarrow> bool)
    (bindE (apply_confirmed_profile_updates (outcome_at oc ''complete'')) (\<lambda>_.
     bindE (remove_transition_pending t) (\<lambda>_.
     bindE (cancel_transition_recovery sv (oc_id oc)) (\<lambda>_.
     bindE (remove_current_transition t) (\<lambda>_.
     ret (outcome_at oc ''complete''))))))
    (\<lambda>x s. x = outcome_at oc ''complete'' \<and> settled oc M J s) (cleaning oc M J)"
proof -
  let ?N = "update_names oc"
  have root: "pure_path (tr_root t) = pure_path (transition_root (oc_id oc))" using t by (simp add: transition_ok_def)
  have p: "stage oc M J ''complete'' (Some t) D pd rc w \<Longrightarrow> cleaning oc M J (w :: 'h world)" for D pd rc w
    by (auto intro: point_cleaning [OF cleanup_point.contradiction [OF t(2)]])
  have a: "triple (stage oc M J ''complete'' (Some t) {} False False :: 'h world \<Rightarrow> bool)
      (apply_confirmed_profile_updates (outcome_at oc ''complete''))
      (\<lambda>_. stage oc M J ''complete'' (Some t) ?N False False) (cleaning oc M J)"
    by (rule triple_conseq [OF triple_apply_confirmed [OF ok]]) (auto intro: p)
  have b: "triple (stage oc M J ''complete'' (Some t) ?N False False :: 'h world \<Rightarrow> bool)
      (remove_transition_pending t) (\<lambda>_. stage oc M J ''complete'' (Some t) ?N True False) (cleaning oc M J)"
    by (rule triple_conseq [OF triple_remove_pending [OF root]]) (auto intro: p)
  have d: "triple (stage oc M J ''complete'' (Some t) ?N True False :: 'h world \<Rightarrow> bool)
      (cancel_transition_recovery sv (oc_id oc)) (\<lambda>_. stage oc M J ''complete'' (Some t) ?N True True) (cleaning oc M J)"
    by (rule triple_conseq [OF triple_cancel_recovery [OF c]]) (auto intro: p)
  have e: "triple (stage oc M J ''complete'' (Some t) ?N True True :: 'h world \<Rightarrow> bool)
      (remove_current_transition t) (\<lambda>_. settled oc M J) (cleaning oc M J)"
    unfolding settled_def
    by (rule triple_conseq [OF triple_remove_current [where cur = "Some t"]])
      (auto intro: p settled_cleaning [unfolded settled_def])
  show ?thesis
    by (rule triple_bind [OF a], rule triple_bind [OF b], rule triple_bind [OF d], rule triple_bind [OF e],
        rule triple_ret, simp)
qed

lemma triple_resume:
  assumes ok: "cleanup_ok oc" and c: "cancels sv (oc_id oc)" and point: "cleanup_point oc ph cur D pd rc"
    and t: "\<And>t. cur = Some t \<Longrightarrow> transition_ok t"
  shows "triple (stage oc M J ph cur D pd rc :: 'h world \<Rightarrow> bool)
    (resume_transition_cleanup sv cur (outcome_at oc ph) False)
    (\<lambda>x s. x = outcome_at oc ''complete'' \<and> settled oc M J s) (cleaning oc M J)"
proof -
  have o: "outcome_ok oc" using ok by (simp add: cleanup_ok_def)
  have ids: "tr_id x = oc_id oc" if "cur = Some x" for x
    using point that by (cases rule: cleanup_point.cases) auto
  have doc: "cleanup_document cur cur (outcome_at oc ph) = Inr cur"
    using ids transition.good_accepted [OF t] by (auto simp: cleanup_document_def split: option.split)
  have phs: "ph \<in> set cleanup_phases" using point by (cases rule: cleanup_point.cases) simp_all
  let ?rest = "if ph = ''complete'' \<and> cur \<noteq> None then
       bindE (apply_confirmed_profile_updates (outcome_at oc ph)) (\<lambda>_.
       bindE (remove_transition_pending (the cur)) (\<lambda>_.
       bindE (cancel_transition_recovery sv (oc_id oc)) (\<lambda>_.
       bindE (remove_current_transition (the cur)) (\<lambda>_.
       ret (outcome_at oc ph)))))
     else
       bindE (checkpoint ''checkpoint'' ''metadata'' apply_confirmed_profile_updates (outcome_at oc ph))
       (from_metadata (cancel_transition_recovery sv (oc_id oc)) cur)"
  have main: "triple (stage oc M J ph cur D pd rc :: 'h world \<Rightarrow> bool) ?rest
      (\<lambda>x s. x = outcome_at oc ''complete'' \<and> settled oc M J s) (cleaning oc M J)"
    using point
  proof (cases rule: cleanup_point.cases)
    case (checkpoint x)
    then show ?thesis using triple_from_checkpoint [OF ok c t] by simp
  next
    case (metadata x)
    then show ?thesis using triple_from_metadata [OF o c t] by simp
  next
    case pending
    then show ?thesis using triple_from_pending [OF o c ids] by (simp add: from_metadata_def)
  next
    case current
    then show ?thesis using triple_from_current [OF o c] by (simp add: from_metadata_def from_pending_def)
  next
    case complete
    then show ?thesis
      by (simp add: from_metadata_def from_pending_def from_current_def settled_def triple_ret)
  next
    case (contradiction x)
    then show ?thesis using triple_contradiction [OF ok c t] by simp
  qed
  have "triple (stage oc M J ph cur D pd rc) (reading load_transition_document)
      (\<lambda>x s. x = cur \<and> stage oc M J ph cur D pd rc (s :: 'h world)) (cleaning oc M J)"
    by (rule triple_reading) (simp add: stage_def)
  then show ?thesis
    unfolding resume_transition_cleanup_def Let_def renormalized_outcome [OF o phs]
    by (simp add: bindE_simps)
      (rule triple_bind, assumption, use main in \<open>fastforce simp: triple_def doc\<close>)
qed

section \<open>What a cleanup does to the host\<close>

text \<open>
  Beside its own documents a cleanup only asks the host to remove timers and, when it gives up, to
  stop the interface.
\<close>

inductive upkeep :: "'h services \<Rightarrow> 'h \<Rightarrow> 'h \<Rightarrow> bool" for sv where
  cancel: "upkeep sv h (snd (sv_cancel sv recovery ident h))"
| stop: "upkeep sv h (snd (sv_stop sv interface h))"

definition tending :: "'h services \<Rightarrow> 'h world \<Rightarrow> 'h world \<Rightarrow> bool" where
  "tending sv s s' \<longleftrightarrow> (upkeep sv)\<^sup>*\<^sup>* (w_host s) (w_host s')"

interpretation tend: progress "tending sv" for sv
  by unfold_locales (auto simp: tending_def)

lemma host_puts [simp]:
  "w_host (put_transition d s) = w_host s" "w_host (put_outcome d s) = w_host s"
  "w_host (put_journal d s) = w_host s" "w_host (put_metadata n m s) = w_host s"
  by (simp_all add: put_transition_def put_outcome_def put_journal_def put_metadata_def)

lemma tending_durable [steady_rules]: "(\<And>s. w_host (f s) = w_host s) \<Longrightarrow> steady (tending sv) (durable f)"
  by (rule tend.steady_durable) (simp add: tending_def)

lemma tending_external:
  assumes "\<And>h. upkeep sv h (snd (f h))"
  shows "steady (tending sv) (external f)"
  unfolding steady_def moves_def
proof (intro allI impI)
  fix b s r b' s' assume run: "external f (b, s) = (r, (b', s'))"
  obtain x h where "f (w_host s) = (x, h)" by (metis surj_pair)
  with assms [of "w_host s"] run show "tending sv s s' \<and> (\<forall>x. r = Done x \<longrightarrow> True)"
    by (cases x) (auto simp: external_def run_simps tending_def)
qed

lemma tending_operations [steady_rules]:
  "steady (tending sv) (cancel_transition_timeout sv ident)" "steady (tending sv) (cancel_transition_recovery sv ident)"
  "steady (tending sv) (stop_and_raise p sv message)" "steady (tending sv) (remove_transition_pending t)"
  "steady (tending sv) (remove_current_transition t)" "steady (tending sv) (delete_activation_journal ident)"
  "steady (tending sv) (apply_confirmed_profile_updates c)"
  "steady (tending sv) (update_transition_outcome_phase c ph ph')"
  unfolding cancel_transition_timeout_def cancel_transition_recovery_def remove_units_def stop_and_raise_def
    stop_interface_def remove_transition_pending_def remove_current_transition_def delete_activation_journal_def
    apply_confirmed_profile_updates_def apply_profile_update_def regenerate_once_def
    update_transition_outcome_phase_def replace_document_def Let_def
  by (intro steady_rules tending_external upkeep.intros; simp)+

lemma tending_checkpoint [steady_rules]:
  "(\<And>c. steady (tending sv) (work c)) \<Longrightarrow> steady (tending sv) (checkpoint ph ph' work c)"
  unfolding checkpoint_def by (intro steady_rules)

lemma tending_resume [steady_rules]:
  "steady (tending sv) (resume_transition_cleanup sv d c skip)" "steady (tending sv) (cancel_and_close sv ident)"
  "steady (tending sv) (finish_cleanup sv outcome current)"
  "steady (tending sv) (begin_transition_outcome t kind reason at updates)"
  unfolding finish_cleanup_def resume_transition_cleanup_def from_metadata_def from_pending_def from_current_def
    cancel_and_close_def begin_transition_outcome_def replace_document_def Let_def
  by (intro steady_rules; simp)+

section \<open>Recovery finishes what a fault interrupted\<close>

lemma triple_vacuous: "(\<And>s. \<not> P s) \<Longrightarrow> triple P m Q K"
  by (simp add: triple_def)

lemma triple_cancel_timeout:
  assumes "cancels sv ident"
  shows "triple (stage oc M J ph cur D pd rc :: 'h world \<Rightarrow> bool) (cancel_transition_timeout sv ident)
    (\<lambda>_. stage oc M J ph cur D pd rc) (stage oc M J ph cur D pd rc)"
  unfolding cancel_transition_timeout_def remove_units_def
proof (rule triple_handle)
  let ?S = "stage oc M J ph cur D pd rc :: 'h world \<Rightarrow> bool"
  have "triple ?S (durable (\<lambda>w. w\<lparr>w_timers := filter (\<lambda>t. t \<noteq> (False, ident)) (w_timers w)\<rparr>)) (\<lambda>_. ?S) ?S"
    by (rule triple_durable) (erule stage_timers | assumption)+
  moreover have "triple ?S (external (sv_cancel sv False ident)) (\<lambda>_. ?S) ?S"
    using assms by (intro triple_external) (auto simp: cancels_def intro!: stage_timers)
  ultimately show "triple ?S (bindE (external (sv_cancel sv False ident)) (\<lambda>_.
      durable (\<lambda>w. w\<lparr>w_timers := filter (\<lambda>t. t \<noteq> (False, ident)) (w_timers w)\<rparr>))) (\<lambda>_. ?S) ?S"
    by (intro triple_bind)
qed (rule gives_up_raise)

lemma settled_journal_gone:
  "settled oc M J s \<Longrightarrow> settled oc M None (put_journal None s)"
  by (simp add: settled_def stage_def load_transition_outcome_def load_transition_document_def
      load_activation_journal_def put_journal_def read_document_def)

lemma triple_cancel_and_close:
  assumes "cancels sv (oc_id oc)" and "jn_id j = oc_id oc" and "outcome_ok oc"
  shows "triple (settled oc M (Some j) :: 'h world \<Rightarrow> bool) (cancel_and_close sv (oc_id oc)) (\<lambda>_. settled oc M None)
    (\<lambda>s. settled oc M (Some j) s \<or> settled oc M None s)"
proof -
  let ?S = "settled oc M (Some j) :: 'h world \<Rightarrow> bool" and ?T = "settled oc M None :: 'h world \<Rightarrow> bool"
  have a: "triple ?S (suppress awgctl_error (cancel_transition_timeout sv (oc_id oc))) (\<lambda>_. ?S) (\<lambda>s. ?S s \<or> ?T s)"
    by (rule triple_conseq [OF triple_suppress [OF triple_cancel_timeout [OF assms(1)]]])
      (auto simp: settled_def)
  have b: "triple ?S (suppress awgctl_error (cancel_transition_recovery sv (oc_id oc))) (\<lambda>_. ?S) (\<lambda>s. ?S s \<or> ?T s)"
    unfolding settled_def
    by (rule triple_conseq [OF triple_suppress [OF triple_cancel_recovery [OF assms(1)]]]) auto
  have id: "validate_transaction_id (JStr (oc_id oc)) = Inr (oc_id oc)"
    using assms(3) by (intro transaction_id.good_accepted) (simp add: outcome_ok_def)
  have r: "triple ?S (reading load_activation_journal) (\<lambda>x s. x = Some j \<and> ?S s) (\<lambda>s. ?S s \<or> ?T s)"
    by (rule triple_reading) (simp add: settled_def stage_def)
  have d: "triple ?S (durable (put_journal None)) (\<lambda>_. ?T) (\<lambda>s. ?S s \<or> ?T s)"
    by (auto intro!: triple_durable settled_journal_gone)
  have c: "triple (\<lambda>s. x = Some j \<and> ?S s) (case x of None \<Rightarrow> ret ()
      | Some c \<Rightarrow> bindE (lift (validate_transaction_id (JStr (oc_id oc)))) (\<lambda>ident.
         bindE (ensure (jn_id c = ident) ''activation recovery journal transaction ID changed'') (\<lambda>_.
         durable (put_journal None)))) (\<lambda>_. ?T) (\<lambda>s. ?S s \<or> ?T s)" for x
    using d by (cases "x = Some j") (auto simp: triple_def id assms(2) bindE_simps)
  show ?thesis
    unfolding cancel_and_close_def delete_activation_journal_def
    by (rule triple_bind [OF a], rule triple_bind [OF b], rule triple_bind [OF r], rule c)
qed

lemma point_ids: "cleanup_point oc ph cur D pd rc \<Longrightarrow> with_id (oc_id oc) cur = cur"
  by (cases rule: cleanup_point.cases, assumption) (auto simp: with_id_def split: option.split)

lemma triple_finish:
  assumes ok: "cleanup_ok oc" and c: "cancels sv (oc_id oc)" and point: "cleanup_point oc ph cur D pd rc"
    and t: "\<And>t. cur = Some t \<Longrightarrow> transition_ok t"
  shows "triple (stage oc M J ph cur D pd rc :: 'h world \<Rightarrow> bool) (finish_cleanup sv (Some (outcome_at oc ph)) cur)
    (\<lambda>x s. x = (Some (outcome_at oc ''complete''), None) \<and> settled oc M J s) (cleaning oc M J)"
proof (cases "ph \<noteq> ''complete'' \<or> cur \<noteq> None")
  case False
  from point have "D = update_names oc \<and> pd \<and> rc" by (cases rule: cleanup_point.cases) (use False in auto)
  then show ?thesis
    using False by (simp add: finish_cleanup_def with_id_def settled_def triple_ret)
next
  case True
  have r: "triple (\<lambda>s. x = outcome_at oc ''complete'' \<and> settled oc M J s) (reading load_transition_outcome)
      (\<lambda>x s. x = Some (outcome_at oc ''complete'') \<and> settled oc M J (s :: 'h world)) (cleaning oc M J)" for x
    by (rule triple_reading) (simp add: settled_def stage_def)
  have r': "triple (\<lambda>s. x = Some (outcome_at oc ''complete'') \<and> settled oc M J s) (reading load_transition_document)
      (\<lambda>y s. y = None \<and> x = Some (outcome_at oc ''complete'') \<and> settled oc M J (s :: 'h world)) (cleaning oc M J)" for x
    by (rule triple_reading) (simp add: settled_def stage_def)
  have e: "finish_cleanup sv (Some (outcome_at oc ph)) cur =
      bindE (resume_transition_cleanup sv cur (outcome_at oc ph) False) (\<lambda>_.
      bindE (reading load_transition_outcome) (\<lambda>outcome.
      bindE (reading load_transition_document) (\<lambda>current. ret (outcome, current))))"
    using True by (simp add: finish_cleanup_def point_ids [OF point])
  show ?thesis
    unfolding e
    by (rule triple_bind [OF triple_resume [OF ok c point t]], assumption,
        rule triple_bind [OF r], rule triple_bind [OF r'], rule triple_ret, simp)
qed

definition own_journal :: "outcome \<Rightarrow> journal option \<Rightarrow> bool" where
  "own_journal oc J \<longleftrightarrow> (case J of None \<Rightarrow> True | Some j \<Rightarrow> jn_id j = oc_id oc)"

definition cleaning_up :: "outcome \<Rightarrow> (string \<Rightarrow> protected_file) \<Rightarrow> journal option \<Rightarrow> 'h world \<Rightarrow> bool" where
  "cleaning_up oc M J w \<longleftrightarrow> cleaning oc M J w \<or> cleaning oc M None w"

lemma triple_close_journal:
  assumes ok: "cleanup_ok oc" and c: "cancels sv (oc_id oc)" and J: "own_journal oc J"
  shows "triple (settled oc M J :: 'h world \<Rightarrow> bool)
    (case J of None \<Rightarrow> ret ()
     | Some j \<Rightarrow> bindE (resume_transition_cleanup sv (with_id (jn_id j) None) (outcome_at oc ''complete'') False) (\<lambda>_.
                 cancel_and_close sv (jn_id j)))
    (\<lambda>_. settled oc M None) (cleaning_up oc M J)"
proof (cases J)
  case None
  then show ?thesis by (simp add: triple_ret)
next
  case (Some j)
  then have j: "jn_id j = oc_id oc" using J by (simp add: own_journal_def)
  have o: "outcome_ok oc" using ok by (simp add: cleanup_ok_def)
  have a: "triple (settled oc M J :: 'h world \<Rightarrow> bool)
      (resume_transition_cleanup sv None (outcome_at oc ''complete'') False) (\<lambda>_. settled oc M J) (cleaning_up oc M J)"
    by (rule triple_conseq [OF triple_resume [OF ok c cleanup_point.complete]]) (auto simp: settled_def cleaning_up_def)
  have b: "triple (settled oc M (Some j) :: 'h world \<Rightarrow> bool) (cancel_and_close sv (oc_id oc)) (\<lambda>_. settled oc M None)
      (cleaning_up oc M (Some j))"
    by (rule triple_conseq [OF triple_cancel_and_close [OF c j o]])
      (auto simp: cleaning_up_def intro: settled_cleaning)
  have "triple (settled oc M (Some j) :: 'h world \<Rightarrow> bool)
      (bindE (resume_transition_cleanup sv None (outcome_at oc ''complete'') False) (\<lambda>_. cancel_and_close sv (oc_id oc)))
      (\<lambda>_. settled oc M None) (cleaning_up oc M (Some j))"
    by (rule triple_bind [OF a [unfolded Some] b])
  with Some j show ?thesis by (simp add: with_id_def)
qed

text \<open>A fact about the host that timers removed and interfaces stopped do not undo.\<close>

definition tended :: "'h services \<Rightarrow> ('h \<Rightarrow> bool) \<Rightarrow> bool" where
  "tended sv H \<longleftrightarrow> (\<forall>h h'. H h \<longrightarrow> upkeep sv h h' \<longrightarrow> H h')"

lemma tended_hosts:
  assumes "tended sv H" and "(upkeep sv)\<^sup>*\<^sup>* h h'" and "H h"
  shows "H h'"
  using assms(2,3,1) by (induction rule: rtranclp_induct) (auto simp: tended_def)

lemma tendedD:
  assumes "tended sv H" and "H (w_host s)" and "tending sv s s'"
  shows "H (w_host s')"
  using tended_hosts [OF assms(1) _ assms(2)] assms(3) by (simp add: tending_def)

lemma triple_reconcile_cleanup:
  assumes ok: "cleanup_ok oc" and c: "cancels sv (oc_id oc)" and J: "own_journal oc J" and h: "tended sv H"
  shows "triple (\<lambda>s :: 'h world. cleaning oc M J s \<and> H (w_host s)) (reconcile_transition_recovery_locked sv now)
    (\<lambda>_ s. settled oc M None s \<and> H (w_host s)) (\<lambda>s. cleaning_up oc M J s \<and> H (w_host s))"
proof (rule triple_pre)
  fix s :: "'h world" assume start: "cleaning oc M J s \<and> H (w_host s)"
  then obtain ph cur D pd rc where point: "cleanup_point oc ph cur D pd rc" and s: "stage oc M J ph cur D pd rc s"
    by (auto simp: cleaning_def)
  let ?H = "\<lambda>s :: 'h world. H (w_host s)"
  let ?S = "\<lambda>s :: 'h world. stage oc M J ph cur D pd rc s \<and> ?H s"
  let ?K = "\<lambda>s :: 'h world. cleaning_up oc M J s \<and> ?H s"
  let ?D = "\<lambda>s :: 'h world. settled oc M J s \<and> ?H s"
  note frame = triple_frame [where H = ?H, OF _ _ tendedD [OF h]]
  have t: "transition_ok x" if "cur = Some x" for x
    using s that transition_file.read_good by (auto simp: stage_def load_transition_document_def)
  have a: "triple ((=) s) (reading load_transition_outcome) (\<lambda>x s. x = Some (outcome_at oc ph) \<and> ?S s) ?K"
    by (rule triple_reading) (use s start in \<open>simp add: stage_def\<close>)
  have b: "triple (\<lambda>s. x = Some (outcome_at oc ph) \<and> ?S s) (reading load_transition_document)
      (\<lambda>y s. y = cur \<and> x = Some (outcome_at oc ph) \<and> ?S s) ?K" for x
    by (rule triple_reading) (simp add: stage_def)
  have f: "triple (\<lambda>s. y = cur \<and> x = Some (outcome_at oc ph) \<and> ?S s) (finish_cleanup sv x y)
      (\<lambda>x s. x = (Some (outcome_at oc ''complete''), None) \<and> ?D s) ?K" for x y
  proof (cases "y = cur \<and> x = Some (outcome_at oc ph)")
    case True
    then show ?thesis
      by simp (rule triple_conseq [OF frame [OF triple_finish [OF ok c point t] tending_resume(3)]],
          auto simp: cleaning_up_def)
  qed (rule triple_vacuous, blast)
  have j: "triple (\<lambda>s. x = (Some (outcome_at oc ''complete''), None) \<and> ?D s) (reading load_activation_journal)
      (\<lambda>z s. z = J \<and> x = (Some (outcome_at oc ''complete''), None) \<and> ?D s) ?K"
    for x :: "outcome option \<times> transition option"
    by (rule triple_reading) (simp add: settled_def stage_def)
  have e: "triple (\<lambda>s. z = J \<and> x = (Some (outcome_at oc ''complete''), None) \<and> ?D s)
      (case z of None \<Rightarrow> ret ()
       | Some j \<Rightarrow> (case fst x of
            Some c \<Rightarrow>
              if oc_id c = jn_id j
              then bindE (resume_transition_cleanup sv (with_id (jn_id j) (snd x)) c False) (\<lambda>_.
                   cancel_and_close sv (jn_id j))
              else recover_activation sv j (snd x) now
          | None \<Rightarrow> recover_activation sv j (snd x) now)) (\<lambda>_ s. settled oc M None s \<and> ?H s) ?K"
    for x :: "outcome option \<times> transition option" and z
  proof (cases "z = J \<and> x = (Some (outcome_at oc ''complete''), None)")
    case True
    have "steady (tending sv) (case J of None \<Rightarrow> ret ()
        | Some j \<Rightarrow> bindE (resume_transition_cleanup sv (with_id (jn_id j) None) (outcome_at oc ''complete'') False) (\<lambda>_.
            cancel_and_close sv (jn_id j)))" by (intro steady_rules)
    from frame [OF triple_close_journal [OF ok c J, of M] this] True J show ?thesis
      by (cases J) (simp_all add: own_journal_def)
  qed (rule triple_vacuous, blast)
  show "triple ((=) s) (reconcile_transition_recovery_locked sv now) (\<lambda>_ s. settled oc M None s \<and> ?H s) ?K"
    unfolding reconcile_transition_recovery_locked_def
    by (rule triple_bind [OF a], rule triple_bind [OF b], rule triple_bind [OF f], simp add: case_prod_unfold,
        rule triple_bind [OF j], rule e)
qed

lemma cleaning_up_None: "own_journal oc None" "cleaning_up oc M None w \<longleftrightarrow> cleaning oc M None w"
  by (auto simp: own_journal_def cleaning_up_def)

lemma triple_reconcile_attempt:
  assumes ok: "cleanup_ok oc" and c: "cancels sv (oc_id oc)" and J: "own_journal oc J" and h: "tended sv H"
  shows "triple (\<lambda>s :: 'h world. cleaning_up oc M J s \<and> H (w_host s)) (reconcile_transition_recovery_locked sv now)
    (\<lambda>_ s. settled oc M None s \<and> H (w_host s)) (\<lambda>s. cleaning_up oc M J s \<and> H (w_host s))"
proof (rule triple_case)
  let ?H = "\<lambda>s :: 'h world. H (w_host s)"
  show "cleaning_up oc M J s \<and> ?H s \<Longrightarrow> (cleaning oc M J s \<and> ?H s) \<or> (cleaning oc M None s \<and> ?H s)" for s :: "'h world"
    by (auto simp: cleaning_up_def)
  show "triple (\<lambda>s. cleaning oc M J s \<and> ?H s) (reconcile_transition_recovery_locked sv now)
      (\<lambda>_ s. settled oc M None s \<and> ?H s) (\<lambda>s. cleaning_up oc M J s \<and> ?H s)"
    by (rule triple_reconcile_cleanup [OF ok c J h])
  show "triple (\<lambda>s. cleaning oc M None s \<and> ?H s) (reconcile_transition_recovery_locked sv now)
      (\<lambda>_ s. settled oc M None s \<and> ?H s) (\<lambda>s. cleaning_up oc M J s \<and> ?H s)"
    by (rule triple_conseq [OF triple_reconcile_cleanup [OF ok c cleaning_up_None(1) h]]) (auto simp: cleaning_up_def)
qed

text \<open>
  C6: A recorded outcome is carried through, whatever interrupts the cleanup. From any point a
  cleanup of this outcome can be found at, after any number of recoveries that were each killed, or
  failed at any of their durable writes, one undisturbed recovery succeeds: the transition, its
  pending artifacts, its recovery timer and its journal are gone, the outcome is complete, every
  profile of a confirmed outcome has been regenerated exactly once (its revision is the recorded
  next one) and no other profile was touched.
\<close>

theorem reconcile_finishes_cleanup:
  fixes sv :: "'h services"
  assumes ok: "cleanup_ok oc" and c: "cancels sv (oc_id oc)" and J: "own_journal oc J"
    and w: "cleaning oc M J w"
  shows "\<exists>w'. reconcile_transition_recovery_locked sv now
        (None, after_attempts (reconcile_transition_recovery_locked sv) attempts w) = (Done (), (None, w'))
    \<and> load_transition_document w' = Inr None \<and> load_activation_journal w' = Inr None
    \<and> load_transition_outcome w' = Inr (Some (oc\<lparr>oc_phase := ''complete''\<rparr>))
    \<and> pure_path (transition_root (oc_id oc)) \<notin> set (w_pending w') \<and> (True, oc_id oc) \<notin> set (w_timers w')
    \<and> (\<forall>u\<in>set (oc_updates oc). \<exists>m. read_client_metadata (up_name u) w' = Inr m
          \<and> get m ''name'' = JStr (up_name u) \<and> regenerated (oc_completed_at oc) u m)
    \<and> (\<forall>n. n \<notin> update_names oc \<longrightarrow> w_metadata w' n = M n)"
proof -
  have "tended sv (\<lambda>_. True)" by (simp add: tended_def)
  note attempt = triple_reconcile_attempt [OF ok c J this, of M, simplified]
  let ?P = "cleaning_up oc M J :: 'h world \<Rightarrow> bool"
  have again: "triple ?P (reconcile_transition_recovery_locked sv e) (\<lambda>x. ?P) ?P" for e
    by (rule triple_conseq [OF attempt]) (auto simp: cleaning_up_def intro: settled_cleaning)
  have "?P w" using w by (simp add: cleaning_up_def)
  with again have "?P (after_attempts (reconcile_transition_recovery_locked sv) attempts w)"
    by (rule after_attempts_invariant)
  then obtain x w' where r: "reconcile_transition_recovery_locked sv now
        (None, after_attempts (reconcile_transition_recovery_locked sv) attempts w) = (Done x, (None, w'))"
    and s: "settled oc M None w'" by (rule triple_free [OF attempt])
  note parts = s [unfolded settled_def stage_def]
  have profiles: "\<exists>m. read_client_metadata (up_name u) w' = Inr m \<and> get m ''name'' = JStr (up_name u)
      \<and> regenerated (oc_completed_at oc) u m" if "u \<in> set (oc_updates oc)" for u
  proof -
    have "profile_at (regenerated (oc_completed_at oc) u) u (w_metadata w' (up_name u))"
      using parts that by (simp add: update_names_def)
    from read_metadata [OF this refl] show ?thesis by blast
  qed
  show ?thesis
    by (intro exI [of _ w'] conjI ballI profiles)
      (use r parts in \<open>simp_all add: outcome_at_def\<close>)
qed

section \<open>An interrupted activation is rolled back\<close>

definition failed_outcome :: "transition \<Rightarrow> int \<Rightarrow> outcome" where
  "failed_outcome t now =
     \<lparr>oc_id = tr_id t, oc_outcome = ''rolled_back'', oc_reason = ''activation-failed'',
      oc_completed_at = utc_text now, oc_client = tr_client t, oc_old_port = tr_old_port t,
      oc_new_port = tr_new_port t, oc_phase = ''checkpoint'', oc_updates = []\<rparr>"

text \<open>An activation is under way: its journal stands beside its transition, and no outcome of it.\<close>

definition activating :: "transition \<Rightarrow> journal \<Rightarrow> 'h world \<Rightarrow> bool" where
  "activating t j w \<longleftrightarrow>
     load_transition_document w = Inr (Some t) \<and> load_activation_journal w = Inr (Some j)
     \<and> (load_transition_outcome w = Inr None
        \<or> (\<exists>c. load_transition_outcome w = Inr (Some c) \<and> oc_id c \<noteq> tr_id t \<and> oc_phase c = ''complete''))"

definition restores :: "'h services \<Rightarrow> transition \<Rightarrow> bool" where
  "restores sv t \<longleftrightarrow> (\<forall>now p. fst (sv_restore sv t now p) = Inr ())"

text \<open>
  What recoveries that come to nothing may have done to the client metadata and the host before the
  one that takes the decision: restored the backup already, removed timers, stopped the interface.
\<close>

inductive recovery_work :: "'h services \<Rightarrow> transition \<Rightarrow> client_files \<times> 'h \<Rightarrow> client_files \<times> 'h \<Rightarrow> bool" for sv t where
  restore: "recovery_work sv t p (snd (sv_restore sv t at p))"
| keep: "upkeep sv h h' \<Longrightarrow> recovery_work sv t (m, h) (m, h')"

text \<open>
  The backup was restored at the instant \<open>at\<close>, which left the client metadata \<open>m\<close>; since then the
  host has been tended only.
\<close>

definition restored_at ::
  "'h services \<Rightarrow> transition \<Rightarrow> client_files \<times> 'h \<Rightarrow> int \<Rightarrow> client_files \<Rightarrow> 'h \<Rightarrow> bool" where
  "restored_at sv t start at m h \<longleftrightarrow> (\<exists>p h1. (recovery_work sv t)\<^sup>*\<^sup>* start p
     \<and> sv_restore sv t at p = (Inr (), (m, h1)) \<and> (upkeep sv)\<^sup>*\<^sup>* h1 h)"

lemma restored_tended: "tended sv (restored_at sv t start at m)"
  by (auto simp: tended_def restored_at_def intro: rtranclp.rtrancl_into_rtrancl)

lemma work_upkeep: "(upkeep sv)\<^sup>*\<^sup>* h h' \<Longrightarrow> (recovery_work sv t)\<^sup>*\<^sup>* (m, h) (m, h')"
  by (induction rule: rtranclp_induct) (auto intro: rtranclp.rtrancl_into_rtrancl keep)

lemma restored_work:
  assumes "restored_at sv t start at m h"
  shows "(recovery_work sv t)\<^sup>*\<^sup>* start (m, h)"
proof -
  obtain p h1 where p: "(recovery_work sv t)\<^sup>*\<^sup>* start p" "sv_restore sv t at p = (Inr (), (m, h1))" "(upkeep sv)\<^sup>*\<^sup>* h1 h"
    using assms by (auto simp: restored_at_def)
  have "recovery_work sv t p (m, h1)" using recovery_work.restore [of sv t p at] p(2) by simp
  with p(1) work_upkeep [OF p(3)] show ?thesis by (meson rtranclp.rtrancl_into_rtrancl rtranclp_trans)
qed

lemma whole_second_valid: "valid_instant t \<Longrightarrow> valid_instant (whole_second t)"
proof -
  assume t: "valid_instant t"
  have "86400 \<le> t div 1000000"
    using t zdiv_mono1 [of day_us t 1000000] by (simp add: valid_instant_def day_us_def)
  then have "day_us \<le> whole_second t"
    by (simp add: whole_second_def minus_mod_eq_div_mult day_us_def)
  moreover have "whole_second t \<le> t" by (simp add: whole_second_def)
  ultimately show ?thesis using t by (simp add: valid_instant_def)
qed

lemma failed_outcome_ok:
  assumes "transition_ok t" and "valid_instant now"
  shows "cleanup_ok (failed_outcome t now)"
  using assms time_value_utc [OF assms(2)]
  by (auto simp: cleanup_ok_def outcome_ok_def failed_outcome_def transition_ok_def outcome_reasons_def
      cleanup_phases_def time_ok_def)

lemma activating_fields:
  "activating t j (s\<lparr>w_host := h\<rparr>) = activating t j s"
  "activating t j (s\<lparr>w_metadata := m\<rparr>) = activating t j s"
  by (simp_all add: activating_def load_transition_outcome_def load_transition_document_def load_activation_journal_def)

lemma cleaning_host: "cleaning oc M J s \<Longrightarrow> cleaning oc M J (s\<lparr>w_host := h\<rparr>)"
  unfolding cleaning_def by (elim exE conjE) (intro exI conjI, assumption, erule stage_timers(2))

lemma outcome_begun:
  assumes "activating t j s" and m: "w_metadata s = M" and t: "transition_ok t" and now: "valid_instant now"
  shows "stage (failed_outcome t now) M (Some j) ''checkpoint'' (Some t) {} False False
    (put_outcome (stored (outcome_json (failed_outcome t now))) s)"
proof -
  have "outcome_ok (failed_outcome t now)" using failed_outcome_ok [OF t now] by (simp add: cleanup_ok_def)
  from outcome_file.read_stored [OF this] assms(1) m show ?thesis
    by (simp add: stage_def activating_def load_transition_outcome_def load_transition_document_def
        load_activation_journal_def put_outcome_def outcome_at_def)
      (simp add: failed_outcome_def)
qed

text \<open>The states a recovery of the activation can leave.\<close>

definition recovering :: "'h services \<Rightarrow> transition \<Rightarrow> client_files \<times> 'h \<Rightarrow> journal \<Rightarrow> 'h world \<Rightarrow> bool" where
  "recovering sv t start j w \<longleftrightarrow>
     activating t j w \<and> (recovery_work sv t)\<^sup>*\<^sup>* start (w_metadata w, w_host w)
     \<or> (\<exists>at M. valid_instant at \<and> cleaning_up (failed_outcome t at) M (Some j) w
          \<and> restored_at sv t start at M (w_host w))"

lemma triple_begin_failed:
  assumes t: "transition_ok t" and now: "valid_instant now"
  shows "triple (\<lambda>s :: 'h world. activating t j s \<and> w_metadata s = M)
    (begin_transition_outcome t ''rolled_back'' ''activation-failed'' (utc_text now) [])
    (\<lambda>x s. x = outcome_at (failed_outcome t now) ''checkpoint''
       \<and> stage (failed_outcome t now) M (Some j) ''checkpoint'' (Some t) {} False False s)
    (\<lambda>s. activating t j s \<and> w_metadata s = M \<or> cleaning_up (failed_outcome t now) M (Some j) s)"
proof -
  let ?o = "failed_outcome t now"
  let ?A = "\<lambda>s :: 'h world. activating t j s \<and> w_metadata s = M"
  let ?K = "\<lambda>s :: 'h world. ?A s \<or> cleaning_up ?o M (Some j) s"
  let ?Q = "\<lambda>x s. x = outcome_at ?o ''checkpoint'' \<and> stage ?o M (Some j) ''checkpoint'' (Some t) {} False False (s :: 'h world)"
  have o: "outcome_ok ?o" using failed_outcome_ok [OF t now] by (simp add: cleanup_ok_def)
  have same: "outcome_at ?o ''checkpoint'' = ?o" by (simp add: outcome_at_def failed_outcome_def)
  have point: "cleanup_point ?o ''checkpoint'' (Some t) {} False False"
    by (rule cleanup_point.checkpoint) (simp add: failed_outcome_def)
  have k: "?K s" if "stage ?o M (Some j) ''checkpoint'' (Some t) {} False False s" for s
    using that point unfolding cleaning_up_def cleaning_def by blast
  have save: "triple ?A (bindE (replace_document put_outcome load_transition_outcome outcome_json
        ''obfuscation transition outcome write could not be verified'' ?o) (\<lambda>_. ret ?o)) ?Q ?K"
    by (rule triple_bind [where R = "\<lambda>_. stage ?o M (Some j) ''checkpoint'' (Some t) {} False False"],
        rule outcome_file.triple_replace [OF o load_transition_outcome_def])
      (use outcome_begun [OF _ _ t now] k in \<open>auto simp: same intro!: triple_ret\<close>)
  have cur: "triple ?A (reading load_required_transition) (\<lambda>x s. x = t \<and> ?A s) ?K"
    by (rule triple_reading) (simp add: activating_def load_required_transition_def)
  have is_t: "triple (\<lambda>s. x = t \<and> ?A s) (ensure (x = t) message) (\<lambda>_. ?A) ?K" for x message
    by (rule triple_ensure) simp
  have old: "triple ?A (reading load_transition_outcome)
      (\<lambda>x s. (case x of None \<Rightarrow> True | Some c \<Rightarrow> oc_id c \<noteq> tr_id t \<and> oc_phase c = ''complete'') \<and> ?A s) ?K"
    by (rule triple_reading) (auto simp: activating_def)
  have rest: "triple (\<lambda>s. (case x of None \<Rightarrow> True | Some c \<Rightarrow> oc_id c \<noteq> tr_id t \<and> oc_phase c = ''complete'') \<and> ?A s)
      (let begin = bindE (replace_document put_outcome load_transition_outcome outcome_json
           ''obfuscation transition outcome write could not be verified'' ?o) (\<lambda>_. ret ?o)
     in case x of
          None \<Rightarrow> begin
        | Some c \<Rightarrow>
            if oc_id c = oc_id ?o
            then bindE (ensure (c\<lparr>oc_phase := ''''\<rparr> = ?o\<lparr>oc_phase := ''''\<rparr>)
                   ''obfuscation transition outcome changed; stale completion rejected'') (\<lambda>_. ret c)
            else bindE (ensure (oc_phase c = ''complete'')
                   ''prior obfuscation transition cleanup is incomplete'') (\<lambda>_. begin)) ?Q ?K" for x
  proof (cases "case x of None \<Rightarrow> True | Some c \<Rightarrow> oc_id c \<noteq> tr_id t \<and> oc_phase c = ''complete''")
    case True
    have id: "oc_id ?o = tr_id t" by (simp add: failed_outcome_def)
    show ?thesis using True save by (cases x) (simp_all add: Let_def id)
  qed (rule triple_vacuous, blast)
  have norm: "normalize_transition_document (transition_json t) = Inr t" "normalize_transition_outcome (outcome_json ?o) = Inr ?o"
    using transition.good_accepted [OF t] outcome.good_accepted [OF o] .
  have o_eq: "\<lparr>oc_id = tr_id t, oc_outcome = ''rolled_back'', oc_reason = ''activation-failed'',
      oc_completed_at = utc_text now, oc_client = tr_client t, oc_old_port = tr_old_port t,
      oc_new_port = tr_new_port t, oc_phase = ''checkpoint'', oc_updates = []\<rparr> = ?o"
    by (simp add: failed_outcome_def)
  show ?thesis
    unfolding begin_transition_outcome_def
    by (simp only: norm bindE_simps o_eq)
      (rule triple_bind [OF cur], rule triple_bind [OF is_t], rule triple_bind [OF old], rule rest)
qed

lemma cleaning_up_host: "cleaning_up oc M J (s\<lparr>w_host := h\<rparr>) = cleaning_up oc M J s"
proof -
  have "cleaning oc M J (s\<lparr>w_host := h\<rparr>) = cleaning oc M J s" for J
    using cleaning_host [of oc M J s h] cleaning_host [of oc M J "s\<lparr>w_host := h\<rparr>" "w_host s"] by auto
  then show ?thesis by (simp add: cleaning_up_def)
qed

lemma recovering_upkeep:
  assumes "recovering sv t start j s" and "upkeep sv (w_host s) h"
  shows "recovering sv t start j (s\<lparr>w_host := h\<rparr>)"
proof -
  have "restored_at sv t start at M h" if "restored_at sv t start at M (w_host s)" for at M
    using that assms(2) restored_tended [of sv t start at M] unfolding tended_def by blast
  moreover have "(recovery_work sv t)\<^sup>*\<^sup>* start (w_metadata s, h)"
    if "(recovery_work sv t)\<^sup>*\<^sup>* start (w_metadata s, w_host s)"
    using that keep [OF assms(2)] by (rule rtranclp.rtrancl_into_rtrancl)
  ultimately show ?thesis using assms(1) by (auto simp: recovering_def activating_fields cleaning_up_host)
qed

lemma gives_up_stop:
  assumes "\<And>s interface. K s \<Longrightarrow> K (s\<lparr>w_host := snd (sv_stop sv interface (w_host s))\<rparr>)"
  shows "gives_up K (stop_and_raise p sv message)"
  unfolding gives_up_def
proof (intro allI impI)
  fix b s assume k: "K s"
  have "ends (\<lambda>x s. False) K False (stop_interface sv interface message (b, s))" for interface
    using assms [OF k, of interface] by (cases "sv_stop sv interface (w_host s)"; cases "fst (sv_stop sv interface (w_host s))")
      (auto simp: stop_interface_def suppress_def handle_def external_def any_error_def bindE_def run_simps)
  then show "ends (\<lambda>x s. False) K False (stop_and_raise p sv message (b, s))"
    using k by (cases "load_interface sv s")
      (auto simp: stop_and_raise_def handle_def bindE_def run_simps)
qed

lemma recovering_cleaning:
  assumes "valid_instant at" and "restored_at sv t start at M (w_host s)"
    and "cleaning (failed_outcome t at) M (Some j) s \<or> cleaning (failed_outcome t at) M None s"
  shows "recovering sv t start j s"
  using assms by (auto simp: recovering_def cleaning_up_def)

text \<open>The decision is recorded and carried out on what the restore left.\<close>

lemma triple_restored:
  assumes t: "transition_ok t" and now: "valid_instant now" and c: "cancels sv (tr_id t)" and j: "jn_id j = tr_id t"
  shows "triple (\<lambda>s :: 'h world. (activating t j s \<and> w_metadata s = M) \<and> restored_at sv t start now M (w_host s))
    (bindE (begin_transition_outcome t ''rolled_back'' ''activation-failed'' (utc_text now) []) (\<lambda>outcome.
     bindE (resume_transition_cleanup sv (Some t) outcome False) (\<lambda>_.
     cancel_and_close sv (tr_id t))))
    (\<lambda>_ s. settled (failed_outcome t now) M None s \<and> restored_at sv t start now M (w_host s))
    (recovering sv t start j)"
proof -
  let ?o = "failed_outcome t now"
  let ?H = "\<lambda>s :: 'h world. restored_at sv t start now M (w_host s)"
  let ?S = "\<lambda>s :: 'h world. stage ?o M (Some j) ''checkpoint'' (Some t) {} False False s"
  let ?K = "\<lambda>s :: 'h world. recovering sv t start j s"
  note frame = triple_frame [where H = ?H, OF _ _ tendedD [OF restored_tended]]
  have ok: "cleanup_ok ?o" and o: "outcome_ok ?o" and id: "oc_id ?o = tr_id t"
    using failed_outcome_ok [OF t now] by (simp_all add: cleanup_ok_def) (simp add: failed_outcome_def)
  have point: "cleanup_point ?o ''checkpoint'' (Some t) {} False False"
    by (rule cleanup_point.checkpoint) (simp add: id)
  have begin_it: "triple (\<lambda>s :: 'h world. (activating t j s \<and> w_metadata s = M) \<and> ?H s)
      (begin_transition_outcome t ''rolled_back'' ''activation-failed'' (utc_text now) [])
      (\<lambda>x s. x = outcome_at ?o ''checkpoint'' \<and> ?S s \<and> ?H s) ?K"
    by (rule triple_conseq [OF frame [OF triple_begin_failed [OF t now] tending_resume(4)]])
      (use now restored_work [of sv t start now M] in \<open>auto simp: recovering_def\<close>)
  have res: "triple (\<lambda>s. x = outcome_at ?o ''checkpoint'' \<and> ?S s \<and> ?H s)
      (resume_transition_cleanup sv (Some t) x False) (\<lambda>_ s. settled ?o M (Some j) s \<and> ?H s) ?K" for x
  proof (cases "x = outcome_at ?o ''checkpoint''")
    case True
    have "triple (\<lambda>s. ?S s \<and> ?H s)
      (resume_transition_cleanup sv (Some t) (outcome_at ?o ''checkpoint'') False) (\<lambda>_ s. settled ?o M (Some j) s \<and> ?H s) ?K"
      by (rule triple_conseq [OF frame [OF triple_resume [OF ok _ point] tending_resume(1)]])
        (use c t id in \<open>auto intro: recovering_cleaning [OF now]\<close>)
    with True show ?thesis by simp
  qed (rule triple_vacuous, blast)
  have "triple (settled ?o M (Some j) :: 'h world \<Rightarrow> bool) (cancel_and_close sv (tr_id t)) (\<lambda>_. settled ?o M None)
      (\<lambda>s. settled ?o M (Some j) s \<or> settled ?o M None s)"
    using triple_cancel_and_close [of sv ?o j M, OF _ _ o] c j by (simp add: id)
  from frame [OF this tending_resume(2)]
  have closing: "triple (\<lambda>s. settled ?o M (Some j) s \<and> ?H s) (cancel_and_close sv (tr_id t))
      (\<lambda>_ s. settled ?o M None s \<and> ?H s) ?K"
    by (rule triple_conseq) (auto intro: recovering_cleaning [OF now] settled_cleaning)
  show ?thesis by (rule triple_bind [OF begin_it], rule triple_bind [OF res], rule closing)
qed

lemma triple_some: "(\<And>M. triple (P M) m Q K) \<Longrightarrow> triple (\<lambda>s. \<exists>M. P M s) m Q K"
  by (auto simp: triple_def)

lemma triple_restoring:
  assumes r: "restores sv t"
  shows "triple (\<lambda>s :: 'h world. activating t j s \<and> (recovery_work sv t)\<^sup>*\<^sup>* start (w_metadata s, w_host s))
    (restoring (sv_restore sv t now))
    (\<lambda>_ s. \<exists>M. (activating t j s \<and> w_metadata s = M) \<and> restored_at sv t start now M (w_host s)) K"
  unfolding triple_def
proof (intro allI impI)
  fix b and s :: "'h world" assume s: "activating t j s \<and> (recovery_work sv t)\<^sup>*\<^sup>* start (w_metadata s, w_host s)"
  obtain x m h where f: "sv_restore sv t now (w_metadata s, w_host s) = (x, (m, h))" by (metis surj_pair)
  with r have x: "x = Inr ()" by (metis fst_conv restores_def)
  with f s have "restored_at sv t start now m h" unfolding restored_at_def by blast
  with s show "ends (\<lambda>_ s. \<exists>M. (activating t j s \<and> w_metadata s = M) \<and> restored_at sv t start now M (w_host s)) K (b = None)
      (restoring (sv_restore sv t now) (b, s))"
    by (simp add: restoring_def f x run_simps activating_fields)
qed

lemma triple_roll_back:
  assumes t: "transition_ok t" and now: "valid_instant now" and c: "cancels sv (tr_id t)" and r: "restores sv t"
    and j: "jn_id j = tr_id t"
  shows "triple (\<lambda>s :: 'h world. activating t j s \<and> (recovery_work sv t)\<^sup>*\<^sup>* start (w_metadata s, w_host s))
    (roll_activation_back sv t now)
    (\<lambda>_ s. \<exists>M. settled (failed_outcome t now) M None s \<and> restored_at sv t start now M (w_host s))
    (recovering sv t start j)"
  unfolding roll_activation_back_def
  by (rule triple_handle, rule triple_bind [OF triple_restoring [OF r] triple_some],
      rule triple_conseq [OF triple_restored [OF t now c j]], assumption, blast, assumption,
      rule gives_up_stop, rule recovering_upkeep, assumption, rule upkeep.stop)

lemma triple_reconcile_activation:
  assumes t: "transition_ok t" and now: "valid_instant now" and c: "cancels sv (tr_id t)" and r: "restores sv t"
    and j: "jn_id j = tr_id t"
  shows "triple (\<lambda>s :: 'h world. activating t j s \<and> (recovery_work sv t)\<^sup>*\<^sup>* start (w_metadata s, w_host s))
    (reconcile_transition_recovery_locked sv now)
    (\<lambda>_ s. \<exists>M. settled (failed_outcome t (whole_second now)) M None s
        \<and> restored_at sv t start (whole_second now) M (w_host s)) (recovering sv t start j)"
    (is "triple ?A _ ?Q ?K")
proof (rule triple_pre)
  fix s :: "'h world" assume start: "?A s"
  then have s: "activating t j s" by simp
  obtain x where x: "load_transition_outcome s = Inr x"
    "x = None \<or> (\<exists>c. x = Some c \<and> oc_id c \<noteq> tr_id t \<and> oc_phase c = ''complete'')"
    using s by (auto simp: activating_def)
  have a: "triple ((=) s) (reading load_transition_outcome) (\<lambda>y s'. y = x \<and> s' = s) ?K"
    by (rule triple_reading) (simp add: x)
  have b: "triple (\<lambda>s'. y = x \<and> s' = s) (reading load_transition_document) (\<lambda>z s'. z = Some t \<and> y = x \<and> s' = s) ?K" for y
    by (rule triple_reading) (use s in \<open>simp add: activating_def\<close>)
  have f: "triple (\<lambda>s'. z = Some t \<and> y = x \<and> s' = s) (finish_cleanup sv y z) (\<lambda>p s'. p = (x, Some t) \<and> s' = s) ?K" for y z
    using x(2) by (cases "y = x \<and> z = Some t") (auto simp: finish_cleanup_def with_id_def triple_def run_simps)
  have g: "triple (\<lambda>s'. p = (x, Some t) \<and> s' = s) (reading load_activation_journal)
      (\<lambda>z s'. z = Some j \<and> p = (x, Some t) \<and> s' = s) ?K" for p
    by (rule triple_reading) (use s in \<open>simp add: activating_def\<close>)
  have undo: "triple ((=) s) (roll_activation_back sv t (whole_second now)) ?Q ?K"
    by (rule triple_conseq [OF triple_roll_back [OF t whole_second_valid [OF now] c r j]]) (use start in auto)
  have h: "triple (\<lambda>s'. z = Some j \<and> p = (x, Some t) \<and> s' = s)
      (case z of None \<Rightarrow> ret ()
       | Some j \<Rightarrow> (case fst p of
            Some c \<Rightarrow>
              if oc_id c = jn_id j
              then bindE (resume_transition_cleanup sv (with_id (jn_id j) (snd p)) c False) (\<lambda>_.
                   cancel_and_close sv (jn_id j))
              else recover_activation sv j (snd p) now
          | None \<Rightarrow> recover_activation sv j (snd p) now)) ?Q ?K" for z p
  proof (cases "z = Some j \<and> p = (x, Some t)")
    case True
    have "recover_activation sv j (Some t) now = roll_activation_back sv t (whole_second now)"
      by (simp add: recover_activation_def with_id_def j)
    then show ?thesis using True undo x(2) j
      by (auto simp: eq_commute [of _ s] split: option.split)
  qed (rule triple_vacuous, blast)
  show "triple ((=) s) (reconcile_transition_recovery_locked sv now) ?Q ?K"
    unfolding reconcile_transition_recovery_locked_def
    by (rule triple_bind [OF a], rule triple_bind [OF b], rule triple_bind [OF f], simp add: case_prod_unfold,
        rule triple_bind [OF g], rule h)
qed

definition recovered :: "'h services \<Rightarrow> transition \<Rightarrow> client_files \<times> 'h \<Rightarrow> 'h world \<Rightarrow> bool" where
  "recovered sv t start s \<longleftrightarrow> (\<exists>at M. valid_instant at \<and> settled (failed_outcome t at) M None s
     \<and> restored_at sv t start at M (w_host s))"

lemma triple_recovery:
  assumes t: "transition_ok t" and now: "valid_instant now" and c: "cancels sv (tr_id t)" and r: "restores sv t"
    and j: "jn_id j = tr_id t"
  shows "triple (recovering sv t start j :: 'h world \<Rightarrow> bool) (reconcile_transition_recovery_locked sv now)
    (\<lambda>_. recovered sv t start) (recovering sv t start j)"
proof (rule triple_pre)
  fix s :: "'h world" assume "recovering sv t start j s"
  then consider "activating t j s \<and> (recovery_work sv t)\<^sup>*\<^sup>* start (w_metadata s, w_host s)"
    | "\<exists>at M. valid_instant at \<and> cleaning_up (failed_outcome t at) M (Some j) s \<and> restored_at sv t start at M (w_host s)"
    by (auto simp: recovering_def)
  then show "triple ((=) s) (reconcile_transition_recovery_locked sv now)
      (\<lambda>_. recovered sv t start) (recovering sv t start j)"
  proof cases
    case 1
    show ?thesis
      by (rule triple_conseq [OF triple_reconcile_activation [OF t now c r j]])
        (use 1 whole_second_valid [OF now] in \<open>auto simp: recovered_def\<close>)
  next
    case 2
    then obtain at M where at: "valid_instant at"
      "cleaning_up (failed_outcome t at) M (Some j) s \<and> restored_at sv t start at M (w_host s)" by blast
    have "oc_id (failed_outcome t at) = tr_id t" by (simp add: failed_outcome_def)
    with c j have "cancels sv (oc_id (failed_outcome t at))" "own_journal (failed_outcome t at) (Some j)"
      by (simp_all add: own_journal_def)
    from triple_reconcile_attempt [OF failed_outcome_ok [OF t at(1)] this restored_tended]
    show ?thesis by (rule triple_conseq) (use at in \<open>auto simp: recovering_def recovered_def\<close>)
  qed
qed

text \<open>
  C7: An activation that a crash interrupts is rolled back. From any state in which the activation
  journal stands beside its transition, after any number of recoveries that were each killed or
  failed at any of their durable writes, one undisturbed recovery succeeds. The transition's backup
  has then been restored, at the very instant the outcome records as its completion: the client
  metadata is what that restore left, and since it the host was only asked to remove timers and stop
  the interface, while before it failed recoveries can at most have restored the same backup, removed
  timers and stopped the interface. The transition is recorded as rolled back for a failed
  activation, and the transition, its pending artifacts, its recovery timer and its journal are gone.
  (The backup can be restored and systemd removes the timers.)
\<close>

theorem reconcile_rolls_activation_back:
  fixes sv :: "'h services"
  assumes w: "activating t j w" and j: "jn_id j = tr_id t"
    and c: "cancels sv (tr_id t)" and r: "restores sv t"
    and now: "valid_instant now" "\<And>a. a \<in> set attempts \<Longrightarrow> valid_instant (fst a)"
  shows "\<exists>w' c at p m h. reconcile_transition_recovery_locked sv now
        (None, after_attempts (reconcile_transition_recovery_locked sv) attempts w) = (Done (), (None, w'))
    \<and> (recovery_work sv t)\<^sup>*\<^sup>* (w_metadata w, w_host w) p
    \<and> sv_restore sv t at p = (Inr (), (m, h)) \<and> w_metadata w' = m \<and> (upkeep sv)\<^sup>*\<^sup>* h (w_host w')
    \<and> load_transition_document w' = Inr None \<and> load_activation_journal w' = Inr None
    \<and> load_transition_outcome w' = Inr (Some c) \<and> oc_id c = tr_id t \<and> oc_outcome c = ''rolled_back''
    \<and> oc_reason c = ''activation-failed'' \<and> oc_completed_at c = utc_text at \<and> oc_phase c = ''complete''
    \<and> pure_path (tr_root t) \<notin> set (w_pending w') \<and> (True, tr_id t) \<notin> set (w_timers w')"
proof -
  have t: "transition_ok t"
    using w transition_file.read_good by (auto simp: activating_def load_transition_document_def)
  let ?start = "(w_metadata w, w_host w)"
  let ?P = "recovering sv t ?start j :: 'h world \<Rightarrow> bool"
  have "?P s" if "recovered sv t ?start s" for s
    using that by (auto simp: recovered_def intro: recovering_cleaning settled_cleaning)
  then have again: "triple ?P (reconcile_transition_recovery_locked sv (fst a)) (\<lambda>x. ?P) ?P" if "a \<in> set attempts" for a
    by (intro triple_conseq [OF triple_recovery [OF t now(2) [OF that] c r j]])
  have "?P w" using w by (simp add: recovering_def)
  with again have "?P (after_attempts (reconcile_transition_recovery_locked sv) attempts w)"
    by (rule after_attempts_invariant)
  then obtain x w' where run: "reconcile_transition_recovery_locked sv now
        (None, after_attempts (reconcile_transition_recovery_locked sv) attempts w) = (Done x, (None, w'))"
    and "recovered sv t ?start w'"
    by (rule triple_free [OF triple_recovery [OF t now(1) c r j]])
  then obtain at M p h where s: "settled (failed_outcome t at) M None w'" and p: "(recovery_work sv t)\<^sup>*\<^sup>* ?start p"
    "sv_restore sv t at p = (Inr (), (M, h))" "(upkeep sv)\<^sup>*\<^sup>* h (w_host w')"
    by (auto simp: recovered_def restored_at_def)
  note parts = s [unfolded settled_def stage_def]
  have "w_metadata w' = M" using parts by (auto simp: fun_eq_iff update_names_def failed_outcome_def)
  moreover have "pure_path (tr_root t) = pure_path (transition_root (tr_id t))" using t by (simp add: transition_ok_def)
  ultimately show ?thesis
    using run parts p
    by (intro exI [of _ w'] exI [of _ "outcome_at (failed_outcome t at) ''complete''"] exI [of _ at] exI [of _ p]
        exI [of _ M] exI [of _ h])
      (simp add: failed_outcome_def outcome_at_def)
qed

section \<open>Concrete runs\<close>

definition backed_up_clients :: client_files where
  "backed_up_clients = (\<lambda>n. if n = ''phone'' then stored (JObj migrated_client) else None)"

definition sample_services :: "unit services" where
  "sample_services =
     \<lparr>sv_cancel = (\<lambda>r i h. (Inr (), h)), sv_remove_own = (\<lambda>r i h. (Inr (), h)),
      sv_arm = (\<lambda>r i d h. (Inr (), h)),
      sv_restore = (\<lambda>t now p. (Inr (), (backed_up_clients, snd p))), sv_config_file = (\<lambda>h. Inl FileNotFoundError),
      sv_stop = (\<lambda>i h. (Inr (), h)), sv_lock = (\<lambda>limit h. (Inr (), h))\<rparr>"

lemma sample_services_ok: "cancels sample_services i" "restores sample_services t"
  by (simp_all add: cancels_def restores_def sample_services_def)

definition sample_instant :: int where
  "sample_instant = 739617 * day_us"

lemma sample_instant_valid: "valid_instant sample_instant" "valid_instant (sample_instant + 1000000)"
  by (simp_all add: valid_instant_def sample_instant_def day_us_def max_ord_def)

definition sample_confirmed :: outcome where
  "sample_confirmed =
     \<lparr>oc_id = sample_id, oc_outcome = ''confirmed'', oc_reason = ''confirmed'',
      oc_completed_at = utc_text sample_instant, oc_client = ''phone'', oc_old_port = 51820,
      oc_new_port = 4500, oc_phase = ''checkpoint'',
      oc_updates = [\<lparr>up_name = ''phone'', up_from = 1, up_to = 2\<rparr>]\<rparr>"

definition confirmed_world :: "unit world" where
  "confirmed_world =
     \<lparr>w_transition = stored (transition_json sample_transition), w_outcome = stored (outcome_json sample_confirmed),
      w_journal = None,
      w_metadata = backed_up_clients,
      w_pending = [pure_path (transition_root sample_id)], w_timers = [(True, sample_id)], w_host = ()\<rparr>"

definition activating_world :: "unit world" where
  "activating_world = confirmed_world\<lparr>w_outcome := None, w_metadata := (\<lambda>n. None), w_journal :=
     stored (journal_json \<lparr>jn_id = sample_id, jn_phase = ''reloaded'', jn_created_at = ''2026-01-01T00:00:00Z''\<rparr>)\<rparr>"

lemma sample_confirmed_ok: "cleanup_ok sample_confirmed"
  using sample_instant_valid(1) time_value_utc [OF sample_instant_valid(1)]
  by (auto simp: cleanup_ok_def outcome_ok_def sample_confirmed_def sample_res outcome_reasons_def cleanup_phases_def
      time_ok_def ports_ok_def update_ok_def)

lemma sample_loads:
  "load_transition_document confirmed_world = Inr (Some sample_transition)"
  "load_transition_outcome confirmed_world = Inr (Some sample_confirmed)"
  "load_activation_journal confirmed_world = Inr None"
  "load_transition_document activating_world = Inr (Some sample_transition)"
  "load_transition_outcome activating_world = Inr None"
  "load_activation_journal activating_world
    = Inr (Some \<lparr>jn_id = sample_id, jn_phase = ''reloaded'', jn_created_at = ''2026-01-01T00:00:00Z''\<rparr>)"
proof -
  have j: "journal_ok \<lparr>jn_id = sample_id, jn_phase = ''reloaded'', jn_created_at = ''2026-01-01T00:00:00Z''\<rparr>"
    by (simp add: journal_ok_def sample_res time_ok_def sample_times activation_journal_phases_def)
  have o: "outcome_ok sample_confirmed" using sample_confirmed_ok by (simp add: cleanup_ok_def)
  note r = transition_file.read_stored [OF sample_transition_ok] outcome_file.read_stored [OF o] journal_file.read_stored [OF j]
  show "load_transition_document confirmed_world = Inr (Some sample_transition)"
    "load_transition_outcome confirmed_world = Inr (Some sample_confirmed)"
    "load_activation_journal confirmed_world = Inr None"
    "load_transition_document activating_world = Inr (Some sample_transition)"
    "load_transition_outcome activating_world = Inr None"
    "load_activation_journal activating_world
      = Inr (Some \<lparr>jn_id = sample_id, jn_phase = ''reloaded'', jn_created_at = ''2026-01-01T00:00:00Z''\<rparr>)"
    using r by (simp_all add: load_transition_document_def load_transition_outcome_def load_activation_journal_def
        confirmed_world_def activating_world_def read_document_def)
qed

lemma migrated_normal:
  "normalize_client_metadata (JObj migrated_client) = Inr migrated_client"
  "get migrated_client ''name'' = JStr ''phone''" "get migrated_client ''profile_revision'' = JInt 1"
  using normalize_ok(2) [OF normalize_legacy_client] by (code_simp | assumption)+

lemma sample_cleaning: "cleaning sample_confirmed (w_metadata confirmed_world) None confirmed_world"
proof -
  have "cleanup_point sample_confirmed ''checkpoint'' (Some sample_transition) {} False False"
    by (rule cleanup_point.checkpoint) (simp add: sample_transition_def sample_confirmed_def)
  moreover have "profile_at p u (w_metadata confirmed_world ''phone'')"
    if "p migrated_client" "up_name u = ''phone''" for p u
    using that migrated_normal by (auto simp: profile_at_def confirmed_world_def backed_up_clients_def)
  then have "stage sample_confirmed (w_metadata confirmed_world) None ''checkpoint'' (Some sample_transition) {} False False
      confirmed_world"
    using sample_loads migrated_normal
    by (simp add: stage_def outcome_at_def) (simp add: sample_confirmed_def)
  ultimately show ?thesis unfolding cleaning_def by blast
qed

theorem reconcile_finishes_cleanup_witness:
  "\<exists>w' m. reconcile_transition_recovery_locked sample_services 0
        (None, after_attempts (reconcile_transition_recovery_locked sample_services)
          [(0, 1, Crash), (0, 0, Unsynced), (0, 2, Refused)] confirmed_world) = (Done (), (None, w'))
    \<and> read_client_metadata ''phone'' w' = Inr m \<and> get m ''profile_revision'' = JInt 2"
proof -
  have u: "\<lparr>up_name = ''phone'', up_from = 1, up_to = 2\<rparr> \<in> set (oc_updates sample_confirmed)"
    by (simp add: sample_confirmed_def)
  have j: "own_journal sample_confirmed None" by (simp add: own_journal_def)
  obtain w' where run: "reconcile_transition_recovery_locked sample_services 0
        (None, after_attempts (reconcile_transition_recovery_locked sample_services)
          [(0, 1, Crash), (0, 0, Unsynced), (0, 2, Refused)] confirmed_world) = (Done (), (None, w'))"
    and all: "\<forall>u\<in>set (oc_updates sample_confirmed). \<exists>m. read_client_metadata (up_name u) w' = Inr m
      \<and> get m ''name'' = JStr (up_name u) \<and> regenerated (oc_completed_at sample_confirmed) u m"
    using reconcile_finishes_cleanup [OF sample_confirmed_ok sample_services_ok(1) j sample_cleaning,
      of 0 "[(0, 1, Crash), (0, 0, Unsynced), (0, 2, Refused)]"] by blast
  from bspec [OF all u] run show ?thesis by (auto simp: regenerated_def)
qed

theorem reconcile_rolls_activation_back_witness:
  "\<exists>w' c. reconcile_transition_recovery_locked sample_services sample_instant
        (None, after_attempts (reconcile_transition_recovery_locked sample_services)
          [(sample_instant, 2, Crash), (sample_instant + 1000000, 0, Crash)] activating_world) = (Done (), (None, w'))
    \<and> load_transition_outcome w' = Inr (Some c) \<and> oc_outcome c = ''rolled_back''
    \<and> w_metadata w' ''phone'' = stored (JObj migrated_client)"
proof -
  let ?j = "\<lparr>jn_id = sample_id, jn_phase = ''reloaded'', jn_created_at = ''2026-01-01T00:00:00Z''\<rparr>"
  let ?as = "[(sample_instant, 2, Crash), (sample_instant + 1000000, 0, Crash)]"
  have w: "activating sample_transition ?j activating_world"
    using sample_loads by (simp add: activating_def)
  have j: "jn_id ?j = tr_id sample_transition" by (simp add: sample_transition_def)
  have n: "\<And>a. a \<in> set ?as \<Longrightarrow> valid_instant (fst a)" using sample_instant_valid by auto
  have m: "m = backed_up_clients" if "sv_restore sample_services sample_transition at p = (Inr (), (m, h))" for at p m h
    using that by (simp add: sample_services_def)
  obtain w' c at p m h where run: "reconcile_transition_recovery_locked sample_services sample_instant
        (None, after_attempts (reconcile_transition_recovery_locked sample_services) ?as activating_world) = (Done (), (None, w'))"
    and o: "load_transition_outcome w' = Inr (Some c)" "oc_outcome c = ''rolled_back''"
    and r: "sv_restore sample_services sample_transition at p = (Inr (), (m, h))" "w_metadata w' = m"
    using reconcile_rolls_activation_back [OF w j sample_services_ok sample_instant_valid(1), of ?as] n by blast
  show ?thesis using run o r(2) m [OF r(1)] by (auto simp: backed_up_clients_def)
qed

end
