(* ===== verification/Commands.thy ===== *)
theory Commands
  imports Cleanup Clients
begin

text \<open>
  The commands of an obfuscation transition: activation with its failure path, confirmation, and
  rollback by an operator or by one of the two timers. What a command observes of the host
  (configuration, digests, clients, counters, clock) is an argument; what it asks of the host is a
  service. A command begins by taking the mutation lock, which can fail, and which first recovers an
  interrupted service operation (\<open>ServiceOp.enter_mutation_lock\<close> models that part in detail).
\<close>

section \<open>The mutation lock\<close>

definition mutation_lock :: "'h services \<Rightarrow> int option \<Rightarrow> bool \<Rightarrow> int \<Rightarrow> ('h world, unit) eff" where
  "mutation_lock sv limit skip_recovery now =
     bindE (external (sv_lock sv limit)) (\<lambda>_.
     if skip_recovery then ret () else reconcile_transition_recovery_locked sv now)"

section \<open>Timers\<close>

text \<open>A pair that could not be armed and verified is removed again.\<close>

definition timer_label :: "bool \<Rightarrow> string" where
  "timer_label recovery = (if recovery then ''activation recovery timer'' else ''automatic rollback timer'')"

definition arm_timer :: "'h services \<Rightarrow> bool \<Rightarrow> string \<Rightarrow> string \<Rightarrow> ('h world, unit) eff" where
  "arm_timer sv recovery ident deadline =
     handle any_error
       (bindE (external (sv_arm sv recovery ident deadline)) (\<lambda>_.
        durable (\<lambda>w. w\<lparr>w_timers := (recovery, ident) # w_timers w\<rparr>)))
       (\<lambda>original.
        bindE (handle any_error (remove_units (sv_cancel sv) recovery ident)
          (\<lambda>cleanup. raise (AwgctlError (timer_label recovery @ '' could not be armed; compensation failed'')))) (\<lambda>_.
        raise (AwgctlError (timer_label recovery @ '' could not be armed''))))"

definition schedule_transition_recovery :: "'h services \<Rightarrow> string \<Rightarrow> string \<Rightarrow> ('h world, unit) eff" where
  "schedule_transition_recovery sv ident deadline =
     bindE (lift (validate_transaction_id (JStr ident))) (\<lambda>ident.
     bindE (lift (transition_time (JStr deadline) ''deadline_at'')) (\<lambda>_.
     arm_timer sv True ident deadline))"

definition schedule_transition_timeout :: "'h services \<Rightarrow> string \<Rightarrow> string \<Rightarrow> string \<Rightarrow> ('h world, unit) eff" where
  "schedule_transition_timeout sv ident timeout deadline =
     bindE (lift (validate_transaction_id (JStr ident))) (\<lambda>ident.
     bindE (ensure (timeout = ''10m'') ''obfuscation activation timeout must be exactly 10m'') (\<lambda>_.
     bindE (lift (transition_time (JStr deadline) ''deadline_at'')) (\<lambda>_.
     arm_timer sv False ident deadline)))"

section \<open>Installing an active transition\<close>

text \<open>
  \<open>ai_clock\<close> gives the successive readings of the clock: the start of the recovery window, the
  verification, the activation, and the five checks against the two deadlines.
\<close>

record 'h activation_host =
  ai_clock :: "nat \<Rightarrow> int"
  ai_install :: "'h \<Rightarrow> unit result \<times> 'h"
  ai_commit :: "'h \<Rightarrow> bool result \<times> 'h"
  ai_verify :: "int \<Rightarrow> bool \<Rightarrow> 'h \<Rightarrow> unit result \<times> 'h"
  ai_load_clients :: "'h \<Rightarrow> loaded_client list result \<times> 'h"
  ai_handshakes :: "'h \<Rightarrow> (string \<times> int) list result \<times> 'h"
  ai_counters :: "'h \<Rightarrow> (string \<times> int \<times> int) list result \<times> 'h"
  ai_installed_keys :: "string list"
  ai_timer_proof :: "string \<Rightarrow> 'h \<Rightarrow> unit result \<times> 'h"

definition counter_floor ::
  "loaded_client \<Rightarrow> (string \<times> int) list \<Rightarrow> (string \<times> int \<times> int) list \<Rightarrow> (int \<times> int \<times> int) result" where
  "counter_floor target handshakes counters =
     (let key = cl_public_key (ld_client target) in
      andthen (or_raise (map_of counters key)
        (AwgctlError ''cannot capture the managed client's activation counter floor'')) (\<lambda>(rx, tx).
      Inr (rx, tx, case map_of handshakes key of None \<Rightarrow> 0 | Some h \<Rightarrow> h)))"

text \<open>The artifacts are installed, reloaded and proven, behind the journal's phases.\<close>

definition install_artifacts :: "'h services \<Rightarrow> 'h activation_host \<Rightarrow> transition \<Rightarrow> ('h world, unit) eff" where
  "install_artifacts sv ah document =
     (let ident = tr_id document; created_at = tr_prepared_at document;
          recovery_now = whole_second (ai_clock ah 0);
          journal = (\<lambda>phase. bindE (write_activation_journal ident phase created_at) (\<lambda>_. ret ()))
      in bindE (schedule_transition_recovery sv ident (utc_text (recovery_now + ten_minutes))) (\<lambda>_.
         bindE (journal ''intent'') (\<lambda>_.
         bindE (journal ''recovery-armed'') (\<lambda>_.
         bindE (external (ai_install ah)) (\<lambda>_.
         bindE (journal ''artifacts-installed'') (\<lambda>_.
         bindE (external (ai_commit ah)) (\<lambda>reloaded.
         bindE (ensure reloaded ''activation requires an active reloaded interface'') (\<lambda>_.
         bindE (journal ''reloaded'') (\<lambda>_.
         external (ai_verify ah (whole_second (ai_clock ah 1)) False))))))))))"

text \<open>The activation proper: the state is proven again and the counter floor is captured.\<close>

definition record_activation :: "'h activation_host \<Rightarrow> transition \<Rightarrow> ('h world, transition) eff" where
  "record_activation ah document =
     (let recovery_deadline = whole_second (ai_clock ah 0) + ten_minutes;
          now = whole_second (ai_clock ah 2);
          deadline = now + ten_minutes;
          exceeded = ''activation work exceeded the exact recovery deadline''
      in bindE (ensure (now < recovery_deadline) exceeded) (\<lambda>_.
         bindE (external (ai_load_clients ah)) (\<lambda>clients.
         bindE (lift (prepare_transition_clients clients (tr_client document) now)) (\<lambda>(target, _).
         bindE (external (ai_verify ah now True)) (\<lambda>_.
         bindE (lift (ensure_activation_window clients now deadline (Some (ai_installed_keys ah)))) (\<lambda>_.
         bindE (external (ai_handshakes ah)) (\<lambda>handshakes.
         bindE (external (ai_counters ah)) (\<lambda>counters.
         bindE (lift (counter_floor target handshakes counters)) (\<lambda>(rx, tx, handshake).
         bindE (ensure (ai_clock ah 3 < recovery_deadline) exceeded) (\<lambda>_.
         let active = document\<lparr>tr_activation := Some
               \<lparr>act_at = utc_text now, act_deadline = utc_text deadline,
                act_rx = rx, act_tx = tx, act_handshake = handshake\<rparr>\<rparr>
         in bindE (compare_and_swap_transition (transition_json active) (Some (tr_id document)) (Some ''prepared''))
              (\<lambda>_. ret active)))))))))))"

text \<open>The final timer is armed and proven before the recovery timer and the journal go.\<close>

definition hand_over :: "'h services \<Rightarrow> 'h activation_host \<Rightarrow> string \<Rightarrow> transition \<Rightarrow> ('h world, unit) eff" where
  "hand_over sv ah timeout active =
     (let ident = tr_id active; created_at = tr_prepared_at active;
          deadline_at = (case tr_activation active of None \<Rightarrow> '''' | Some a \<Rightarrow> act_deadline a);
          recovery_deadline = whole_second (ai_clock ah 0) + ten_minutes;
          deadline = whole_second (ai_clock ah 2) + ten_minutes;
          journal = (\<lambda>phase. bindE (write_activation_journal ident phase created_at) (\<lambda>_. ret ()));
          before = (\<lambda>i limit message. ensure (ai_clock ah i < limit) message)
      in bindE (journal ''active'') (\<lambda>_.
         bindE (before 4 deadline ''activation work exceeded the exact rollback deadline'') (\<lambda>_.
         bindE (before 4 recovery_deadline ''activation work exceeded the exact recovery deadline'') (\<lambda>_.
         bindE (schedule_transition_timeout sv ident timeout deadline_at) (\<lambda>_.
         bindE (before 5 deadline ''automatic rollback timer was armed after its deadline'') (\<lambda>_.
         bindE (before 5 recovery_deadline ''automatic rollback timer was armed after the recovery deadline'') (\<lambda>_.
         bindE (external (ai_timer_proof ah deadline_at)) (\<lambda>_.
         bindE (before 6 recovery_deadline ''automatic rollback proof exceeded the recovery deadline'') (\<lambda>_.
         bindE (journal ''final-armed'') (\<lambda>_.
         bindE (cancel_transition_recovery sv ident) (\<lambda>_.
         bindE (before 7 recovery_deadline ''recovery cancellation exceeded the recovery deadline'') (\<lambda>_.
         delete_activation_journal ident))))))))))))"

definition install_active_transition ::
  "'h services \<Rightarrow> 'h activation_host \<Rightarrow> string \<Rightarrow> transition \<Rightarrow> ('h world, transition) eff" where
  "install_active_transition sv ah timeout document =
     bindE (install_artifacts sv ah document) (\<lambda>_.
     bindE (record_activation ah document) (\<lambda>active.
     bindE (hand_over sv ah timeout active) (\<lambda>_.
     ret active)))"

section \<open>Activation\<close>

record observation =
  ob_config :: "server_config result"
  ob_drift :: "unit result"
  ob_backup :: "unit result"
  ob_prestate :: "string result"
  ob_boundary :: "string option result"
  ob_capability :: "capability result"

text \<open>The preconditions that are checked before and after the port is reserved.\<close>

definition activation_preconditions :: "transition \<Rightarrow> observation \<Rightarrow> server_config result" where
  "activation_preconditions document ob =
     andthen (ob_config ob) (\<lambda>config.
     andthen (check (case cfg_obfuscation config of Classic p \<Rightarrow> True | Awg31 p \<Rightarrow> False)
       (AwgctlError ''prepared activation requires exact classic prestate'')) (\<lambda>_.
     andthen (ob_drift ob) (\<lambda>_.
     andthen (ob_backup ob) (\<lambda>_.
     andthen (ob_prestate ob) (\<lambda>digest.
     andthen (check (digest = tr_prestate document)
       (AwgctlError ''managed state changed after obfuscation preparation'')) (\<lambda>_.
     andthen (ob_boundary ob) (\<lambda>boundary.
     andthen (check (boundary = Some (tr_boundary document))
       (AwgctlError ''persisted ingress boundary changed after preparation'')) (\<lambda>_.
     andthen (ob_capability ob) (\<lambda>capability.
     andthen (check (capability = tr_capability document)
       (AwgctlError ''AWG 3.1 capability changed after preparation'')) (\<lambda>_.
     Inr config))))))))))"

record activation_input =
  in_ingress_ready :: bool
  in_timeout :: string
  in_first :: observation
  in_listening :: "bool result"
  in_service_active :: "bool result"
  in_reservation :: "unit result"
  in_second :: observation
  in_commit_now :: int
  in_clients :: "loaded_client list result"
  in_pending :: "unit result"
  in_mutation_now :: int
  in_pending_time :: "unit result"
  in_rollback_now :: int

definition last_checks :: "transition \<Rightarrow> activation_input \<Rightarrow> unit result" where
  "last_checks document inp =
     (let commit_now = whole_second (in_commit_now inp); mutation_now = whole_second (in_mutation_now inp) in
      andthen (activation_preconditions document (in_second inp)) (\<lambda>_.
      andthen (in_clients inp) (\<lambda>clients.
      andthen (prepare_transition_clients clients (tr_client document) commit_now) (\<lambda>_.
      andthen (ensure_activation_window clients commit_now (commit_now + ten_minutes) None) (\<lambda>_.
      andthen (in_pending inp) (\<lambda>_.
      andthen (prepare_transition_clients clients (tr_client document) mutation_now) (\<lambda>_.
      andthen (ensure_activation_window clients mutation_now (mutation_now + ten_minutes) None) (\<lambda>_.
      in_pending_time inp))))))))"

text \<open>
  The classic state is restored and the transition is closed; failing that, the interface of the
  configuration loaded last stops.
\<close>

definition abandon_activation :: "'h services \<Rightarrow> string \<Rightarrow> transition \<Rightarrow> int \<Rightarrow> ('h world, 'a) eff" where
  "abandon_activation sv interface document now =
     bindE (suppress any_error (cancel_transition_timeout sv (tr_id document))) (\<lambda>_.
     bindE (handle any_error (restoring (sv_restore sv document now)) (\<lambda>e.
       stop_interface sv interface ''obfuscation activation failed and classic rollback could not be proven; interface stopped'')) (\<lambda>_.
     bindE (handle any_error
       (bindE (reading load_required_transition) (\<lambda>current.
        bindE (ensure (tr_id current = tr_id document) ''obfuscation transition changed during activation rollback'') (\<lambda>_.
        bindE (complete_transition_document sv current ''rolled_back'' ''activation-failed'' (utc_text now) False) (\<lambda>_.
        delete_activation_journal (tr_id document)))))
       (\<lambda>e. stop_interface sv interface ''classic state was restored but transition cleanup failed; interface stopped'')) (\<lambda>_.
     raise (AwgctlError ''obfuscation activation failed; classic state restored''))))"

definition cmd_obfuscation_activate ::
  "'h services \<Rightarrow> 'h activation_host \<Rightarrow> activation_input \<Rightarrow> string \<Rightarrow> int \<Rightarrow> ('h world, transition) eff" where
  "cmd_obfuscation_activate sv ah inp ident now =
     bindE (lift (validate_transaction_id (JStr ident))) (\<lambda>ident.
     bindE (ensure (in_ingress_ready inp) ''activation requires explicit --ingress-ready'') (\<lambda>_.
     bindE (ensure (in_timeout inp = ''10m'') ''obfuscation activation timeout must be exactly 10m'') (\<lambda>_.
     bindE (mutation_lock sv None False now) (\<lambda>_.
     bindE (reading load_required_transition) (\<lambda>document.
     bindE (ensure (tr_id document = ident \<and> tr_state document = ''prepared'')
       ''activation requires the exact prepared transaction ID'') (\<lambda>_.
     bindE (lift (activation_preconditions document (in_first inp))) (\<lambda>config.
     bindE (lift (in_listening inp)) (\<lambda>listening.
     bindE (ensure (\<not> listening) ''prepared UDP port is no longer available'') (\<lambda>_.
     bindE (lift (in_service_active inp)) (\<lambda>active.
     bindE (ensure active ''activation requires the classic interface to be active'') (\<lambda>_.
     bindE (lift (in_reservation inp)) (\<lambda>_.
     handle any_error
       (bindE (lift (last_checks document inp)) (\<lambda>_.
        install_active_transition sv ah (in_timeout inp) document))
       (\<lambda>e. abandon_activation sv
          (cfg_interface (case ob_config (in_second inp) of Inr latest \<Rightarrow> latest | Inl e \<Rightarrow> config))
          document (whole_second (in_rollback_now inp)))))))))))))))"

section \<open>Confirmation\<close>

definition unix_epoch :: int where
  "unix_epoch = 719163 * day_us"

definition epoch_seconds :: "int \<Rightarrow> int" where
  "epoch_seconds t =
     (if unix_epoch \<le> t then (t - unix_epoch) div 1000000 else - ((unix_epoch - t) div 1000000))"

record confirmation_input =
  cf_now :: int
  cf_config :: "server_config result"
  cf_clients :: "loaded_client list result"
  cf_service_active :: "bool result"
  cf_pending :: "unit result"
  cf_verified :: "unit result"
  cf_handshakes :: "(string \<times> int) list result"
  cf_counters :: "(string \<times> int \<times> int) list result"

definition fresh_session :: "activation \<Rightarrow> int \<Rightarrow> int \<Rightarrow> int \<times> int \<Rightarrow> int \<Rightarrow> unit result" where
  "fresh_session a activated now counters handshake =
     andthen (check (\<not> (handshake \<le> max (epoch_seconds activated) (act_handshake a)
         \<or> handshake > epoch_seconds now \<or> epoch_seconds now - handshake > 180))
       (AwgctlError ''confirmation requires a fresh managed-client handshake after activation'')) (\<lambda>_.
     check (\<not> (fst counters \<le> act_rx a \<or> snd counters \<le> act_tx a))
       (AwgctlError ''confirmation requires increased receive and transmit counters''))"

definition profile_updates :: "loaded_client list \<Rightarrow> pending_profile list \<Rightarrow> profile_update list result" where
  "profile_updates clients =
     result_list (\<lambda>p.
       case find (\<lambda>c. cl_name (ld_client c) = pp_name p) (rev clients) of
         Some c \<Rightarrow>
           if ld_management c \<noteq> ''managed'' \<or> get (ld_metadata c) ''profile_revision'' \<noteq> JInt (pp_revision p)
           then Inl (AwgctlError ''managed profile revision changed before confirmation'')
           else Inr \<lparr>up_name = pp_name p, up_from = pp_revision p, up_to = pp_revision p + 1\<rparr>
       | None \<Rightarrow> Inl (AwgctlError ''managed profile revision changed before confirmation''))"

text \<open>Everything a confirmation has to prove of the active document, and the updates it records.\<close>

definition confirmation_evidence ::
  "transition \<Rightarrow> activation \<Rightarrow> confirmation_input \<Rightarrow> profile_update list result" where
  "confirmation_evidence document a inp =
     (let now = cf_now inp in
      andthen (transition_time (JStr (act_at a)) ''activated_at'') (\<lambda>activated.
      andthen (transition_time (JStr (act_deadline a)) ''deadline_at'') (\<lambda>deadline.
      andthen (check (now < deadline) (AwgctlError ''obfuscation confirmation deadline has passed'')) (\<lambda>_.
      andthen (cf_config inp) (\<lambda>config.
      andthen (check ((case cfg_obfuscation config of Awg31 p \<Rightarrow> True | Classic p \<Rightarrow> False)
          \<and> cfg_listen_port config = tr_new_port document)
        (AwgctlError ''active AWG 3.1 state differs from the transaction'')) (\<lambda>_.
      andthen (cf_clients inp) (\<lambda>clients.
      andthen (prepare_transition_clients clients (tr_client document) now) (\<lambda>(target, _).
      andthen (cf_service_active inp) (\<lambda>active.
      andthen (check active (AwgctlError ''confirmation requires the active AWG 3.1 interface'')) (\<lambda>_.
      andthen (cf_pending inp) (\<lambda>_.
      andthen (cf_verified inp) (\<lambda>_.
      andthen (cf_handshakes inp) (\<lambda>handshakes.
      andthen (cf_counters inp) (\<lambda>counters.
      let key = cl_public_key (ld_client target) in
      andthen (or_raise (map_of counters key)
        (AwgctlError ''cannot query the managed client's transfer counters'')) (\<lambda>current.
      andthen (fresh_session a activated now current (case map_of handshakes key of None \<Rightarrow> 0 | Some h \<Rightarrow> h)) (\<lambda>_.
      profile_updates clients (tr_profiles document)))))))))))))))))"

definition record_confirmation ::
  "'h services \<Rightarrow> transition \<Rightarrow> int \<Rightarrow> profile_update list \<Rightarrow> ('h world, outcome) eff" where
  "record_confirmation sv document now updates =
     bindE (schedule_transition_recovery sv (tr_id document) (utc_text (now + ten_minutes))) (\<lambda>_.
     bindE (cancel_transition_timeout sv (tr_id document)) (\<lambda>_.
     handle any_error
       (bindE (begin_transition_outcome document ''confirmed'' ''confirmed'' (utc_text now) updates) (\<lambda>outcome.
        resume_transition_cleanup sv (Some document) outcome False))
       (\<lambda>e. raise (AwgctlError
          ''obfuscation confirmation cleanup is incomplete; retry the exact transaction ID''))))"

text \<open>What the command does with the document it finds under the lock.\<close>

definition confirm_current ::
  "'h services \<Rightarrow> confirmation_input \<Rightarrow> string \<Rightarrow> transition option \<Rightarrow> ('h world, outcome \<times> bool) eff" where
  "confirm_current sv inp ident document =
     bindE (reading load_transition_outcome) (\<lambda>prior.
     if \<exists>c\<in>set_option prior. oc_id c = ident then
       bindE (ensure (oc_outcome (the prior) = ''confirmed'')
         ''transaction was rolled back and cannot be confirmed'') (\<lambda>_.
       bindE (resume_transition_cleanup sv (with_id ident document) (the prior) False) (\<lambda>completed.
       ret (completed, True)))
     else
       case with_id ident document of
         Some d \<Rightarrow>
           (case tr_activation d of
              Some a \<Rightarrow>
                bindE (lift (confirmation_evidence d a inp)) (\<lambda>updates.
                bindE (record_confirmation sv d (cf_now inp) updates) (\<lambda>outcome.
                ret (outcome, False)))
            | None \<Rightarrow> raise (AwgctlError ''confirmation requires the exact active transaction ID''))
       | None \<Rightarrow> raise (AwgctlError ''confirmation requires the exact active transaction ID''))"

definition cmd_obfuscation_confirm ::
  "'h services \<Rightarrow> confirmation_input \<Rightarrow> string \<Rightarrow> int \<Rightarrow> ('h world, outcome \<times> bool) eff" where
  "cmd_obfuscation_confirm sv inp ident now =
     bindE (lift (validate_transaction_id (JStr ident))) (\<lambda>ident.
     bindE (mutation_lock sv None False now) (\<lambda>_.
     bindE (reading load_transition_document) (\<lambda>document.
     confirm_current sv inp ident document)))"

section \<open>Rollback\<close>

text \<open>\<open>None\<close> for the operator, \<open>Some True\<close> for the recovery timer, \<open>Some False\<close> for the final one.\<close>

type_synonym origin = "bool option"

definition ensure_cleanup_journal :: "origin \<Rightarrow> string \<Rightarrow> string \<Rightarrow> ('h world, unit) eff" where
  "ensure_cleanup_journal origin ident created_at =
     (case origin of
        None \<Rightarrow> ret ()
      | Some recovery \<Rightarrow>
          bindE (reading load_activation_journal) (\<lambda>journal.
          case journal of
            None \<Rightarrow>
              bindE (write_activation_journal ident (if recovery then ''recovery-armed'' else ''final-armed'') created_at)
                (\<lambda>_. ret ())
          | Some j \<Rightarrow> ensure (jn_id j = ident) ''automatic rollback activation journal transaction changed''))"

definition attempted :: "('s, unit) eff \<Rightarrow> ('s, bool) eff" where
  "attempted m = handle any_error (bindE m (\<lambda>_. ret True)) (\<lambda>e. ret False)"

definition cleanup_units :: "'h services \<Rightarrow> origin \<Rightarrow> string \<Rightarrow> ('h world, unit) eff" where
  "cleanup_units sv origin ident =
     bindE (attempted (case origin of
         Some False \<Rightarrow> cancel_transition_recovery sv ident
       | _ \<Rightarrow> cancel_transition_timeout sv ident)) (\<lambda>first.
     bindE (attempted (case origin of
         None \<Rightarrow> cancel_transition_recovery sv ident
       | Some recovery \<Rightarrow> remove_units (sv_remove_own sv) recovery ident)) (\<lambda>second.
     bindE (ensure (first \<and> second) ''obfuscation rollback unit cleanup was incomplete'') (\<lambda>_.
     case origin of
       None \<Rightarrow> ret ()
     | Some recovery \<Rightarrow>
         bindE (reading load_activation_journal) (\<lambda>journal.
         case journal of
           None \<Rightarrow> ret ()
         | Some j \<Rightarrow>
             bindE (ensure (jn_id j = ident) ''automatic rollback activation journal transaction changed'') (\<lambda>_.
             delete_activation_journal ident)))))"

definition roll_transition_back ::
  "'h services \<Rightarrow> origin \<Rightarrow> string \<Rightarrow> transition \<Rightarrow> int \<Rightarrow> ('h world, unit) eff" where
  "roll_transition_back sv origin reason current now =
     bindE (handle any_error (ensure_cleanup_journal origin (tr_id current) (tr_prepared_at current))
       (\<lambda>e. stop_and_raise awgctl_error sv ''automatic rollback checkpoint could not be proven; interface stopped'')) (\<lambda>_.
     bindE (handle any_error (restoring (sv_restore sv current now))
       (\<lambda>e. stop_and_raise awgctl_error sv ''classic rollback could not be proven; interface stopped'')) (\<lambda>_.
     handle any_error
       (bindE (complete_transition_document sv current ''rolled_back'' reason (utc_text now) (origin = Some True)) (\<lambda>_.
        cleanup_units sv origin (tr_id current)))
       (\<lambda>e. stop_and_raise awgctl_error sv ''classic state was restored but rollback cleanup failed; interface stopped'')))"

definition rollback_obfuscation_transition ::
  "'h services \<Rightarrow> origin \<Rightarrow> string \<Rightarrow> string \<Rightarrow> int \<Rightarrow> int \<Rightarrow> ('h world, string \<times> bool) eff" where
  "rollback_obfuscation_transition sv origin reason ident now rollback_now =
     bindE (lift (validate_transaction_id (JStr ident))) (\<lambda>ident.
     bindE (ensure (reason = ''timeout'' \<longrightarrow> origin \<noteq> None) ''automatic rollback origin is invalid'') (\<lambda>_.
     bindE (mutation_lock sv (if reason = ''timeout'' then Some 5 else None) (reason = ''timeout'') now) (\<lambda>_.
     bindE (reading load_transition_document) (\<lambda>current.
     bindE (reading load_transition_outcome) (\<lambda>outcome.
     if \<exists>c\<in>set_option outcome. oc_id c = ident then
       (let own = with_id ident current in
        bindE (ensure_cleanup_journal origin ident
          (case own of Some t \<Rightarrow> tr_prepared_at t | None \<Rightarrow> oc_completed_at (the outcome))) (\<lambda>_.
        bindE (resume_transition_cleanup sv own (the outcome) (origin = Some True)) (\<lambda>outcome.
        bindE (cleanup_units sv origin ident) (\<lambda>_.
        ret (oc_outcome outcome, True)))))
     else
       bindE (lift (or_raise current (AwgctlError ''unknown or stale obfuscation transaction ID''))) (\<lambda>current.
       bindE (ensure (tr_id current = ident) ''rollback transaction ID does not match the current transition'') (\<lambda>_.
       bindE (ensure (origin = Some False \<longrightarrow> tr_state current = ''active'')
         ''final rollback timer requires an active transition'') (\<lambda>_.
       bindE (roll_transition_back sv origin reason current rollback_now) (\<lambda>_.
       ret (''rolled_back'', False))))))))))"

definition cmd_obfuscation_rollback :: "'h services \<Rightarrow> string \<Rightarrow> int \<Rightarrow> int \<Rightarrow> ('h world, string \<times> bool) eff" where
  "cmd_obfuscation_rollback sv ident now rollback_now =
     rollback_obfuscation_transition sv None ''operator'' ident now rollback_now"

definition cmd_obfuscation_timeout :: "'h services \<Rightarrow> origin \<Rightarrow> string \<Rightarrow> int \<Rightarrow> ('h world, string \<times> bool) eff" where
  "cmd_obfuscation_timeout sv origin ident rollback_now =
     rollback_obfuscation_transition sv origin ''timeout'' ident 0 rollback_now"

end
