(* ===== verification/Lifecycle.thy ===== *)
theory Lifecycle
  imports Progress Commands
begin

text \<open>
  The life of an obfuscation transition as an abstract machine over its two documents, and the
  proof that every command refines it: whatever errors the host raises and whatever write a command
  is killed at, the documents on disk move along the machine's steps. A decision is taken only when
  it is justified: confirmed by evidence, rolled back after the classic backup has been restored.
\<close>

section \<open>The abstract machine\<close>

type_synonym life = "transition option result \<times> outcome option result"

definition documents :: "'h world \<Rightarrow> life" where
  "documents w = (load_transition_document w, load_transition_outcome w)"

definition next_phase :: "string \<Rightarrow> string option" where
  "next_phase = map_of [(''checkpoint'', ''metadata''), (''metadata'', ''pending''), (''pending'', ''current''),
     (''current'', ''complete'')]"

text \<open>
  A prepared transition is activated, the current transition is decided, the cleanup of a decision
  advances by one phase, and the transition goes when its decision is recorded.
\<close>

inductive life_step :: "(transition \<Rightarrow> outcome \<Rightarrow> bool) \<Rightarrow> life \<Rightarrow> life \<Rightarrow> bool" for justified where
  activate: "tr_activation t = None
    \<Longrightarrow> life_step justified (Inr (Some t), d) (Inr (Some (t\<lparr>tr_activation := Some a\<rparr>)), d)"
| decide: "justified t c \<Longrightarrow> oc_id c = tr_id t \<Longrightarrow> oc_phase c = ''checkpoint''
    \<Longrightarrow> (\<forall>p\<in>set_option prior. oc_id p \<noteq> oc_id c \<and> oc_phase p = ''complete'')
    \<Longrightarrow> life_step justified (Inr (Some t), Inr prior) (Inr (Some t), Inr (Some c))"
| advance: "next_phase (oc_phase c) = Some ph
    \<Longrightarrow> life_step justified (t, Inr (Some c)) (t, Inr (Some (outcome_at c ph)))"
| remove: "oc_id c = tr_id t \<Longrightarrow> oc_phase c \<in> {''pending'', ''complete''}
    \<Longrightarrow> life_step justified (Inr (Some t), Inr (Some c)) (Inr None, Inr (Some c))"

inductive_cases life_stepE: "life_step justified s s'"

definition evolves :: "(transition \<Rightarrow> outcome \<Rightarrow> bool) \<Rightarrow> 'h world \<Rightarrow> 'h world \<Rightarrow> bool" where
  "evolves justified s s' \<longleftrightarrow> (life_step justified)\<^sup>*\<^sup>* (documents s) (documents s')"

definition unchanged :: "'h world \<Rightarrow> 'h world \<Rightarrow> bool" where
  "unchanged s s' \<longleftrightarrow> documents s' = documents s"

interpretation same: progress unchanged
  by unfold_locales (simp_all add: unchanged_def)

interpretation life: progress "evolves justified" for justified
  by unfold_locales (auto simp: evolves_def)

lemma one_step: "life_step justified (documents s) (documents s') \<Longrightarrow> evolves justified s s'"
  by (simp add: evolves_def)

lemma evolves_unchanged: "unchanged s s' \<Longrightarrow> evolves justified s s'"
  by (simp add: evolves_def unchanged_def)

section \<open>Operations that leave the two documents alone\<close>

definition quiet :: "('h world, 'a) eff \<Rightarrow> bool" where
  "quiet m \<longleftrightarrow> moves unchanged (\<lambda>_. True) m (\<lambda>_ _. True)"

lemma quiet_moves:
  assumes "quiet m" and "\<And>s s'. P s \<Longrightarrow> documents s' = documents s \<Longrightarrow> P s'"
  shows "moves (evolves justified) P m (\<lambda>_. P)"
  unfolding moves_def
proof (intro allI impI)
  fix b s r b' s' assume "P s" "m (b, s) = (r, (b', s'))"
  then have "unchanged s s'" using movesD(1) [OF assms(1) [unfolded quiet_def]] by blast
  then show "evolves justified s s' \<and> (\<forall>x. r = Done x \<longrightarrow> P s')"
    using assms(2) \<open>P s\<close> by (auto simp: unchanged_def intro: evolves_unchanged)
qed

named_theorems quiet_rules

lemma quiet_basic [quiet_rules]:
  "quiet (ret x)" "quiet (raise e)" "quiet (lift r)" "quiet (query g)" "quiet (reading l)" "quiet (ensure b message)"
  unfolding quiet_def
  by (rule same.moves_ret same.moves_raise same.moves_lift same.moves_query same.moves_reading same.moves_ensure;
      simp)+

lemma quiet_bind [quiet_rules]: "quiet m \<Longrightarrow> (\<And>x. quiet (f x)) \<Longrightarrow> quiet (bindE m f)"
  unfolding quiet_def by (rule same.moves_bind) simp_all

lemma quiet_handle [quiet_rules]: "quiet m \<Longrightarrow> (\<And>e. quiet (h e)) \<Longrightarrow> quiet (handle p m h)"
  unfolding quiet_def by (rule same.moves_handle_any)

lemma quiet_suppress [quiet_rules]: "quiet m \<Longrightarrow> quiet (suppress p m)"
  unfolding suppress_def by (intro quiet_rules)

lemma quiet_cases [quiet_rules]:
  "quiet m \<Longrightarrow> quiet n \<Longrightarrow> quiet (if b then m else n)"
  "quiet m \<Longrightarrow> (\<And>y. quiet (f y)) \<Longrightarrow> quiet (case x of None \<Rightarrow> m | Some y \<Rightarrow> f y)"
  by (auto split: option.split)

lemma quiet_for_each [quiet_rules]: "(\<And>x. quiet (f x)) \<Longrightarrow> quiet (for_each f xs)"
  by (induction xs) (auto intro: quiet_rules)

lemma quiet_durable [quiet_rules]: "(\<And>s. documents (f s) = documents s) \<Longrightarrow> quiet (durable f)"
  unfolding quiet_def by (rule same.moves_durable) (simp_all add: unchanged_def)

lemma documents_fields [simp]:
  "documents (s\<lparr>w_journal := j\<rparr>) = documents s" "documents (s\<lparr>w_metadata := m\<rparr>) = documents s"
  "documents (s\<lparr>w_pending := p\<rparr>) = documents s" "documents (s\<lparr>w_timers := t\<rparr>) = documents s"
  "documents (s\<lparr>w_host := h\<rparr>) = documents s"
  by (simp_all add: documents_def load_transition_document_def load_transition_outcome_def)

lemma documents_puts [simp]: "documents (put_journal d s) = documents s" "documents (put_metadata n m s) = documents s"
  by (simp_all add: put_journal_def put_metadata_def)

lemma quiet_external [quiet_rules]: "quiet (external f)"
  unfolding quiet_def moves_def
  by (auto simp: external_def unchanged_def run_simps split: prod.splits sum.splits)

lemma quiet_restoring [quiet_rules]: "quiet (restoring f)"
  unfolding quiet_def moves_def
  by (auto simp: restoring_def unchanged_def run_simps split: prod.splits sum.splits)

lemma quiet_operations [quiet_rules]:
  "quiet (remove_units f recovery ident)" "quiet (cancel_transition_timeout sv ident)"
  "quiet (cancel_transition_recovery sv ident)" "quiet (arm_timer sv recovery ident deadline)"
  "quiet (write_activation_journal ident phase created)" "quiet (delete_activation_journal ident)"
  "quiet (remove_transition_pending t)" "quiet (stop_and_raise p sv message)"
  "quiet (stop_interface sv interface message)"
  unfolding cancel_transition_timeout_def cancel_transition_recovery_def remove_units_def arm_timer_def
    write_activation_journal_def delete_activation_journal_def replace_document_def remove_transition_pending_def
    stop_and_raise_def stop_interface_def Let_def
  by (intro quiet_rules; simp)+

lemma quiet_commands [quiet_rules]:
  "quiet (apply_confirmed_profile_updates c)" "quiet (cancel_and_close sv ident)"
  "quiet (schedule_transition_recovery sv ident deadline)"
  "quiet (schedule_transition_timeout sv ident timeout deadline)"
  "quiet (ensure_cleanup_journal origin ident created)" "quiet (cleanup_units sv origin ident)"
  unfolding apply_confirmed_profile_updates_def apply_profile_update_def regenerate_once_def cancel_and_close_def
    schedule_transition_recovery_def schedule_transition_timeout_def ensure_cleanup_journal_def attempted_def
    cleanup_units_def
  by (intro quiet_rules; simp split: option.split bool.split add: quiet_rules)+

section \<open>Operations that move the machine\<close>

lemma next_phase_steps [simp]:
  "next_phase ''checkpoint'' = Some ''metadata''" "next_phase ''metadata'' = Some ''pending''"
  "next_phase ''pending'' = Some ''current''" "next_phase ''current'' = Some ''complete''"
  by (simp_all add: next_phase_def)

text \<open>The outcome \<open>c\<close> is on disk, and a transition beside it is its own.\<close>

definition closing :: "outcome \<Rightarrow> 'h world \<Rightarrow> bool" where
  "closing c s \<longleftrightarrow> load_transition_outcome s = Inr (Some c)
     \<and> (\<forall>t. load_transition_document s = Inr (Some t) \<longrightarrow> tr_id t = oc_id c)"

lemma documents_eq:
  "documents s' = documents s \<longleftrightarrow> load_transition_document s' = load_transition_document s
     \<and> load_transition_outcome s' = load_transition_outcome s"
  by (simp add: documents_def)

lemma closing_cong: "documents s' = documents s \<Longrightarrow> closing c s \<Longrightarrow> closing c s'"
  by (simp add: closing_def documents_eq)

lemma loaded_transition_ok: "load_transition_document s = Inr (Some t) \<Longrightarrow> transition_ok t"
  unfolding load_transition_document_def by (rule transition_file.read_good)

lemma loaded_outcome_ok: "load_transition_outcome s = Inr (Some c) \<Longrightarrow> outcome_ok c"
  unfolding load_transition_outcome_def by (rule outcome_file.read_good)

lemma loads_put_outcome [simp]:
  "outcome_ok c \<Longrightarrow> load_transition_outcome (put_outcome (stored (outcome_json c)) s) = Inr (Some c)"
  "load_transition_document (put_outcome d s) = load_transition_document s"
  using outcome_file.read_stored [of c]
  by (simp_all add: load_transition_outcome_def load_transition_document_def put_outcome_def)

lemma loads_put_transition [simp]:
  "transition_ok t \<Longrightarrow> load_transition_document (put_transition (stored (transition_json t)) s) = Inr (Some t)"
  "load_transition_document (put_transition None s) = Inr None"
  "load_transition_outcome (put_transition d s) = load_transition_outcome s"
  using transition_file.read_stored [of t]
  by (simp_all add: load_transition_outcome_def load_transition_document_def put_transition_def read_document_def)

lemma moves_update_phase:
  assumes ph: "next_phase ph = Some ph'" and x: "oc_phase c = ph"
  shows "moves (evolves justified) (closing c) (update_transition_outcome_phase c ph ph')
    (\<lambda>x s. x = outcome_at c ph' \<and> closing x s)"
proof (rule moves_pre)
  fix s :: "'h world" assume s: "closing c s"
  then have ok: "outcome_ok c" and l: "load_transition_outcome s = Inr (Some c)"
    using loaded_outcome_ok by (auto simp: closing_def)
  have mem: "ph' \<in> set cleanup_phases"
    using ph by (auto simp: next_phase_def cleanup_phases_def split: if_splits)
  note ok' = outcome_at_ok [OF ok mem]
  have n: "normalize_transition_outcome (outcome_json (c\<lparr>oc_phase := ph'\<rparr>)) = Inr (outcome_at c ph')"
    using outcome.good_accepted [OF ok'] by (simp add: outcome_at_def)
  have step: "evolves justified s (put_outcome (stored (outcome_json (outcome_at c ph'))) s)"
    by (rule one_step) (use life_step.advance [of c ph' justified] ph x l ok' in \<open>simp add: documents_def\<close>)
  have after: "closing (outcome_at c ph') (put_outcome (stored (outcome_json (outcome_at c ph'))) s)"
    using s ok' by (simp add: closing_def)
  show "moves (evolves justified) ((=) s) (update_transition_outcome_phase c ph ph')
      (\<lambda>x s. x = outcome_at c ph' \<and> closing x s)"
    unfolding update_transition_outcome_phase_def replace_document_def outcome.good_accepted [OF ok] bindE_simps n bindE_assoc
    by (rule life.moves_bind [where T = "\<lambda>_. (=) s"], rule life.moves_reading, assumption,
        rule life.moves_bind [where T = "\<lambda>_. (=) s"], rule life.moves_ensure, assumption,
        rule life.moves_bind [where T = "\<lambda>_. closing (outcome_at c ph')"],
        rule life.moves_durable, use step in blast, use after in blast,
        rule quiet_moves [THEN life.moves_bind], intro quiet_rules, erule closing_cong, assumption,
        rule quiet_moves [THEN life.moves_bind], intro quiet_rules, erule closing_cong, assumption,
        rule life.moves_ret, simp)
qed

lemma moves_remove_current:
  assumes "oc_phase c \<in> {''pending'', ''complete''}"
  shows "moves (evolves justified) (closing c) (remove_current_transition t) (\<lambda>_. closing c)"
  unfolding remove_current_transition_def
proof (rule life.moves_bind [where T = "\<lambda>x s. closing c s \<and> load_transition_document s = Inr x"],
    rule life.moves_reading, simp, rule moves_option)
  fix x :: "transition option" and y assume x: "x = Some y"
  have step: "evolves justified s (put_transition None s)"
    if "closing c s \<and> load_transition_document s = Inr x" for s :: "'h world"
    by (rule one_step) (use that x life_step.remove [of c y justified] assms in \<open>auto simp: documents_def closing_def\<close>)
  show "moves (evolves justified) (\<lambda>s. closing c s \<and> load_transition_document s = Inr x)
      (bindE (ensure (y = t) ''obfuscation transition changed during terminal cleanup'') (\<lambda>_. durable (put_transition None)))
      (\<lambda>_. closing c)"
    by (rule life.moves_bind [where T = "\<lambda>_ s. closing c s \<and> load_transition_document s = Inr x"],
        rule life.moves_ensure, simp, rule life.moves_durable, rule step, assumption, simp add: closing_def)
qed (rule life.moves_ret, simp)

lemma moves_checkpoint:
  assumes "next_phase ph = Some ph'" and "oc_phase c = ph \<Longrightarrow> moves (evolves justified) (closing c) (work c) (\<lambda>_. closing c)"
  shows "moves (evolves justified) (closing c) (checkpoint ph ph' work c)
    (\<lambda>x s. closing x s \<and> x = outcome_at c (if oc_phase c = ph then ph' else oc_phase c))"
  unfolding checkpoint_def
  by (rule moves_if, rule life.moves_bind, rule assms(2), assumption,
      rule moves_conseq [OF moves_update_phase [OF assms(1)]])
    (auto intro!: life.moves_ret simp: outcome_at_def)

text \<open>Whatever phase it starts in, a resumed cleanup that returns has completed the outcome.\<close>

definition completed :: "outcome \<Rightarrow> outcome \<Rightarrow> 'h world \<Rightarrow> bool" where
  "completed c x s \<longleftrightarrow> closing x s \<and> x = outcome_at c ''complete''"

lemma outcome_at_own [simp]: "outcome_at c (oc_phase c) = c"
  by (simp add: outcome_at_def)

lemma moves_from_current:
  assumes "quiet cancel" and "oc_phase c \<in> {''current'', ''complete''}"
  shows "moves (evolves justified) (closing c) (from_current cancel c) (completed c)"
  unfolding from_current_def
proof (rule moves_conseq [OF moves_checkpoint])
  show "moves (evolves justified) (closing c) cancel (\<lambda>_. closing c)"
    by (rule quiet_moves [OF assms(1) closing_cong])
  show "completed c x s" if "closing x s \<and> x = outcome_at c (if oc_phase c = ''current'' then ''complete'' else oc_phase c)"
    for x and s :: "'h world"
    using that assms(2) outcome_at_own [of c] by (auto simp: completed_def simp del: outcome_at_own split: if_splits)
qed simp_all

lemma completed_at: "completed (outcome_at c ph) = completed c"
  by (simp add: fun_eq_iff completed_def)

lemma moves_from_pending:
  assumes "quiet cancel" and "oc_phase c \<in> {''pending'', ''current'', ''complete''}"
  shows "moves (evolves justified) (closing c) (from_pending cancel d c) (completed c)"
  unfolding from_pending_def
proof (rule moves_then [OF moves_checkpoint _ life.progress_axioms])
  show "moves (evolves justified) (closing c)
      (case d of None \<Rightarrow> ret () | Some d \<Rightarrow> remove_current_transition d) (\<lambda>_. closing c)"
    if "oc_phase c = ''pending''"
    by (rule moves_option, rule life.moves_ret, assumption, rule moves_remove_current, simp add: that)
  let ?x = "outcome_at c (if oc_phase c = ''pending'' then ''current'' else oc_phase c)"
  have "oc_phase ?x \<in> {''current'', ''complete''}" using assms(2) by auto
  from moves_from_current [OF assms(1) this]
  show "moves (evolves justified) (closing ?x) (from_current cancel ?x) (completed c)" by (simp only: completed_at)
qed simp

lemma moves_from_metadata:
  assumes "quiet cancel" and "oc_phase c \<in> {''metadata'', ''pending'', ''current'', ''complete''}"
  shows "moves (evolves justified) (closing c) (from_metadata cancel d c) (completed c)"
  unfolding from_metadata_def
proof (rule moves_then [OF moves_checkpoint _ life.progress_axioms])
  show "moves (evolves justified) (closing c)
      (case d of None \<Rightarrow> raise (AwgctlError ''terminal cleanup lost its pending artifact identity'')
       | Some d \<Rightarrow> remove_transition_pending d) (\<lambda>_. closing c)"
    by (rule quiet_moves, intro quiet_rules, rule closing_cong)
  let ?x = "outcome_at c (if oc_phase c = ''metadata'' then ''pending'' else oc_phase c)"
  have "oc_phase ?x \<in> {''pending'', ''current'', ''complete''}" using assms(2) by auto
  from moves_from_pending [OF assms(1) this]
  show "moves (evolves justified) (closing ?x) (from_pending cancel d ?x) (completed c)" by (simp only: completed_at)
qed simp

lemma moves_resume:
  fixes sv :: "'h services"
  shows "moves (evolves justified) (\<lambda>s. load_transition_outcome s = Inr (Some c))
     (resume_transition_cleanup sv d c skip) (completed c)"
proof (rule moves_pre)
  fix s :: "'h world" assume s: "load_transition_outcome s = Inr (Some c)"
  then have ok: "outcome_ok c" by (rule loaded_outcome_ok)
  let ?cancel = "if skip then ret () else cancel_transition_recovery sv (oc_id c)"
  have q: "quiet ?cancel" by (intro quiet_rules)
  have doc: "moves (evolves justified) (\<lambda>s'. s' = s \<and> load_transition_document s = Inr current)
      (lift (cleanup_document d current c)) (\<lambda>_. closing c)" for current
    by (rule life.moves_lift)
      (use s in \<open>auto simp: closing_def cleanup_document_def result_simps split: option.splits if_splits\<close>)
  have frame: "moves (evolves justified) (closing c) m (\<lambda>_. closing c)" if "quiet m" for m :: "('h world, unit) eff"
    by (rule quiet_moves [OF that closing_cong])
  have again: "moves (evolves justified) (closing c)
      (bindE (apply_confirmed_profile_updates c) (\<lambda>_.
       bindE (remove_transition_pending t) (\<lambda>_.
       bindE ?cancel (\<lambda>_.
       bindE (remove_current_transition t) (\<lambda>_.
       ret c))))) (completed c)" if ph: "oc_phase c = ''complete''" for t
  proof -
    have "completed c c s" if "closing c s" for s :: "'h world"
      using that ph outcome_at_own [of c] by (simp add: completed_def del: outcome_at_own)
    then show ?thesis
      by (intro life.moves_bind [OF frame [OF quiet_commands(1)]] life.moves_bind [OF frame [OF quiet_operations(7)]]
          life.moves_bind [OF frame [OF q]] life.moves_bind [OF moves_remove_current] life.moves_ret)
        (simp_all add: ph)
  qed
  have fresh: "moves (evolves justified) (closing c)
      (bindE (checkpoint ''checkpoint'' ''metadata'' apply_confirmed_profile_updates c) (from_metadata ?cancel x))
      (completed c)" for x
  proof (rule moves_then [OF moves_checkpoint _ life.progress_axioms])
    let ?x = "outcome_at c (if oc_phase c = ''checkpoint'' then ''metadata'' else oc_phase c)"
    have "oc_phase ?x \<in> {''metadata'', ''pending'', ''current'', ''complete''}"
      using ok by (auto simp: outcome_ok_def cleanup_phases_def)
    from moves_from_metadata [OF q this]
    show "moves (evolves justified) (closing ?x) (from_metadata ?cancel x ?x) (completed c)" by (simp only: completed_at)
  qed (simp, rule frame, intro quiet_rules)
  show "moves (evolves justified) ((=) s) (resume_transition_cleanup sv d c skip) (completed c)"
    unfolding resume_transition_cleanup_def outcome.good_accepted [OF ok] bindE_simps Let_def
    by (rule life.moves_bind [where T = "\<lambda>x s'. s' = s \<and> load_transition_document s = Inr x"],
        rule life.moves_reading, simp, rule life.moves_bind, rule doc, rule moves_if, rule again, simp, rule fresh)
qed

lemma normalize_updates_same: "normalize_updates seen (map update_json us) = Inr vs \<Longrightarrow> vs = us"
proof (induction us arbitrary: seen vs)
  case Nil
  then show ?case by simp
next
  case (Cons u us)
  then show ?case
    by (cases u) (auto simp: update_json_fields result_simps validate_client_name_Inr)
qed

lemma outcome_json_fields:
  "as_obj (outcome_json c) = Some m \<Longrightarrow> get m ''transaction_id'' = JStr (oc_id c) \<and> get m ''outcome'' = JStr (oc_outcome c)
    \<and> get m ''reason'' = JStr (oc_reason c) \<and> get m ''completed_at'' = JStr (oc_completed_at c)
    \<and> get m ''client_name'' = JStr (oc_client c) \<and> get m ''old_port'' = JInt (oc_old_port c)
    \<and> get m ''new_port'' = JInt (oc_new_port c) \<and> get m ''cleanup_phase'' = JStr (oc_phase c)
    \<and> get m ''profile_updates'' = JList (map update_json (oc_updates c))"
  by (auto simp: outcome_json_def)

lemma outcome_renormalized: "normalize_transition_outcome (outcome_json c) = Inr c' \<Longrightarrow> c' = c"
  unfolding normalize_transition_outcome_def Let_def
  apply (elim andthen_prodE andthenE guardE)
  apply (simp only: sum.inject, hypsubst)
  apply (simp only: result_simps validate_client_name_Inr validate_transaction_id_Inr)
  apply (drule outcome_json_fields)
  apply (elim conjE exE)
  apply (simp only: as_list.simps as_str.simps json.inject option.inject option.sel, hypsubst)
  apply (simp only: simp_thms)
  apply (hypsubst?, drule normalize_updates_same)
  apply (simp only: outcome_eta)
  done

definition new_outcome :: "transition \<Rightarrow> string \<Rightarrow> string \<Rightarrow> string \<Rightarrow> profile_update list \<Rightarrow> outcome" where
  "new_outcome t kind reason completed_at updates =
     \<lparr>oc_id = tr_id t, oc_outcome = kind, oc_reason = reason, oc_completed_at = completed_at,
      oc_client = tr_client t, oc_old_port = tr_old_port t, oc_new_port = tr_new_port t,
      oc_phase = ''checkpoint'', oc_updates = updates\<rparr>"

text \<open>A decision that can be justified is recorded, or one that has been recorded is returned.\<close>

definition decided :: "outcome \<Rightarrow> outcome \<Rightarrow> 'h world \<Rightarrow> bool" where
  "decided c x s \<longleftrightarrow> load_transition_outcome s = Inr (Some x) \<and> (\<exists>ph. x = outcome_at c ph)"

lemma moves_begin:
  fixes justified :: "transition \<Rightarrow> outcome \<Rightarrow> bool"
  assumes t: "transition_ok t" and j: "justified t (new_outcome t kind reason at updates)"
  shows "moves (evolves justified) (\<lambda>s :: 'h world. True) (begin_transition_outcome t kind reason at updates)
    (decided (new_outcome t kind reason at updates))"
proof -
  let ?c = "new_outcome t kind reason at updates" and ?R = "evolves justified :: 'h world \<Rightarrow> 'h world \<Rightarrow> bool"
  have save: "moves ?R (\<lambda>s. load_transition_document s = Inr (Some t) \<and> outcome_ok ?c \<and> load_transition_outcome s = Inr x)
      (bindE (replace_document put_outcome load_transition_outcome outcome_json message ?c) (\<lambda>_. ret ?c)) (decided ?c)"
    if x: "\<forall>p\<in>set_option x. oc_id p \<noteq> tr_id t \<and> oc_phase p = ''complete''" for x message
  proof -
    have step: "?R s (put_outcome (stored (outcome_json ?c)) s)"
      if "load_transition_document s = Inr (Some t) \<and> outcome_ok ?c \<and> load_transition_outcome s = Inr x" for s
      by (rule one_step)
        (use that x life_step.decide [of justified t ?c x, OF j] in \<open>auto simp: documents_def new_outcome_def\<close>)
    have after: "decided ?c ?c (put_outcome (stored (outcome_json ?c)) s)" if "outcome_ok ?c" for s
      using that by (auto simp: decided_def intro: exI [of _ "oc_phase ?c"])
    show ?thesis
      unfolding replace_document_def bindE_assoc
      by (rule life.moves_bind [where T = "\<lambda>_. decided ?c ?c"],
          rule life.moves_durable, rule step, assumption, use after in blast,
          rule life.moves_bind [where T = "\<lambda>_. decided ?c ?c"], rule life.moves_reading, assumption,
          rule life.moves_bind [where T = "\<lambda>_. decided ?c ?c"], rule life.moves_ensure, assumption,
          rule life.moves_ret, assumption)
  qed
  have rest: "moves ?R (\<lambda>s. load_transition_document s = Inr (Some t) \<and> outcome_ok ?c \<and> load_transition_outcome s = Inr x)
      (let begin = bindE (replace_document put_outcome load_transition_outcome outcome_json
           ''obfuscation transition outcome write could not be verified'' ?c) (\<lambda>_. ret ?c)
       in case x of
          None \<Rightarrow> begin
        | Some c \<Rightarrow>
            if oc_id c = oc_id ?c
            then bindE (ensure (c\<lparr>oc_phase := ''''\<rparr> = ?c\<lparr>oc_phase := ''''\<rparr>)
                   ''obfuscation transition outcome changed; stale completion rejected'') (\<lambda>_. ret c)
            else bindE (ensure (oc_phase c = ''complete'')
                   ''prior obfuscation transition cleanup is incomplete'') (\<lambda>_. begin))
      (decided ?c)" (is "moves ?R ?P ?m _") for x
    unfolding Let_def
  proof (rule moves_option)
    fix c assume x: "x = Some c"
    have old: "decided ?c c s" if "c\<lparr>oc_phase := ''''\<rparr> = ?c\<lparr>oc_phase := ''''\<rparr>" "?P s" for s
    proof -
      have "c = outcome_at ?c (oc_phase c)" using that(1) by (cases c) (simp add: outcome_at_def new_outcome_def)
      with that(2) x show ?thesis unfolding decided_def by blast
    qed
    have id: "oc_id ?c = tr_id t" by (simp add: new_outcome_def)
    show "moves ?R ?P
        (if oc_id c = oc_id ?c
         then bindE (ensure (c\<lparr>oc_phase := ''''\<rparr> = ?c\<lparr>oc_phase := ''''\<rparr>)
                ''obfuscation transition outcome changed; stale completion rejected'') (\<lambda>_. ret c)
         else bindE (ensure (oc_phase c = ''complete'')
                ''prior obfuscation transition cleanup is incomplete'') (\<lambda>_.
              bindE (replace_document put_outcome load_transition_outcome outcome_json
                ''obfuscation transition outcome write could not be verified'' ?c) (\<lambda>_. ret ?c)))
        (decided ?c)"
    proof (rule moves_if)
      show "moves ?R ?P (bindE (ensure (c\<lparr>oc_phase := ''''\<rparr> = ?c\<lparr>oc_phase := ''''\<rparr>)
          ''obfuscation transition outcome changed; stale completion rejected'') (\<lambda>_. ret c)) (decided ?c)"
        by (rule life.moves_bind [where T = "\<lambda>_. decided ?c c"], rule life.moves_ensure, rule old,
            assumption, assumption, rule life.moves_ret, assumption)
      show "moves ?R ?P (bindE (ensure (oc_phase c = ''complete'')
          ''prior obfuscation transition cleanup is incomplete'') (\<lambda>_.
            bindE (replace_document put_outcome load_transition_outcome outcome_json
              ''obfuscation transition outcome write could not be verified'' ?c) (\<lambda>_. ret ?c))) (decided ?c)"
        if other: "oc_id c \<noteq> oc_id ?c"
      proof (cases "oc_phase c = ''complete''")
        case True
        show ?thesis using True save [of x] x other id by simp
      qed (simp add: life.moves_raise)
    qed
  qed (rule save, simp)
  have fold: "\<lparr>oc_id = tr_id t, oc_outcome = kind, oc_reason = reason, oc_completed_at = at, oc_client = tr_client t,
      oc_old_port = tr_old_port t, oc_new_port = tr_new_port t, oc_phase = ''checkpoint'', oc_updates = updates\<rparr> = ?c"
    by (simp add: new_outcome_def)
  let ?D = "\<lambda>s :: 'h world. load_transition_document s = Inr (Some t)"
  have req: "moves ?R (\<lambda>s. True) (reading load_required_transition) (\<lambda>x s. load_transition_document s = Inr (Some x))"
    by (rule life.moves_reading) (auto simp: load_required_transition_def result_simps)
  have same: "moves ?R (\<lambda>s. load_transition_document s = Inr (Some x)) (ensure (x = t) message) (\<lambda>_. ?D)" for x message
    by (rule life.moves_ensure) simp
  have norm: "moves ?R ?D (lift (normalize_transition_outcome (outcome_json ?c)))
      (\<lambda>x s. (?D s \<and> outcome_ok ?c) \<and> x = ?c)"
    by (rule life.moves_lift) (use outcome_renormalized outcome.accepted_good in blast)
  have old: "moves ?R (\<lambda>s. ?D s \<and> outcome_ok ?c) (reading load_transition_outcome)
      (\<lambda>x s. ?D s \<and> outcome_ok ?c \<and> load_transition_outcome s = Inr x)"
    by (rule life.moves_reading) simp
  show ?thesis
    unfolding begin_transition_outcome_def transition.good_accepted [OF t] bindE_simps fold
    by (rule life.moves_bind [OF req], rule life.moves_bind [OF same],
        rule moves_then [OF norm _ life.progress_axioms], rule life.moves_bind [OF old], rule rest)
qed

section \<open>Recovery\<close>

text \<open>A restored backup justifies any decision to roll its transition back.\<close>

definition rollbacks :: "(transition \<Rightarrow> outcome \<Rightarrow> bool) \<Rightarrow> 'h services \<Rightarrow> bool" where
  "rollbacks justified sv \<longleftrightarrow> (\<forall>t t' now h h' reason at. sv_restore sv t' now h = (Inr (), h') \<longrightarrow> tr_id t' = tr_id t
     \<longrightarrow> justified t (new_outcome t ''rolled_back'' reason at []))"

lemma rollbacksD:
  "rollbacks justified sv \<Longrightarrow> \<exists>h h'. sv_restore sv t' now h = (Inr (), h') \<Longrightarrow> tr_id t' = tr_id t
     \<Longrightarrow> justified t (new_outcome t ''rolled_back'' reason at [])"
  unfolding rollbacks_def by blast

lemma quiet_any: "quiet m \<Longrightarrow> moves (evolves justified) P m (\<lambda>_ _. True)"
  by (rule moves_conseq [OF quiet_moves [where P = "\<lambda>_. True"]]) simp_all

lemma moves_given: "(\<phi> \<Longrightarrow> moves R P m Q) \<Longrightarrow> moves R (\<lambda>s. \<phi> \<and> P s) m Q"
  by (cases \<phi>) (auto simp: moves_def)

lemma moves_restoring:
  "moves (evolves justified) P (restoring f) (\<lambda>x s. (\<exists>h h'. f h = (Inr x, h')) \<and> True)"
  unfolding moves_def
proof (intro allI impI)
  fix b r b' and s s' :: "'a world" assume run: "restoring f (b, s) = (r, (b', s'))"
  have "evolves justified s s'" using movesD(1) [OF quiet_any [OF quiet_restoring] _ run] by blast
  with run show "evolves justified s s' \<and> (\<forall>x. r = Done x \<longrightarrow> (\<exists>h h'. f h = (Inr x, h')) \<and> True)"
    by (auto simp: restoring_def run_simps split: prod.splits sum.splits)
qed

lemma moves_stop:
  "moves (evolves justified) P (stop_interface sv interface message) Q"
  "moves (evolves justified) P (stop_and_raise p sv message) Q"
proof -
  show stop: "moves (evolves justified) P (stop_interface sv interface message) Q" for P interface
    unfolding stop_interface_def
    by (rule life.moves_bind [where T = "\<lambda>_ _. True"], rule quiet_any, intro quiet_rules, rule life.moves_raise)
  show "moves (evolves justified) P (stop_and_raise p sv message) Q"
    unfolding stop_and_raise_def
    by (rule life.moves_bind [where T = "\<lambda>_ _. True"], rule quiet_any, intro quiet_rules, rule stop)
qed

lemma moves_decide:
  fixes sv :: "'h services"
  assumes "transition_ok t" and "justified t (new_outcome t kind reason at updates)"
  shows "moves (evolves justified) P
    (bindE (begin_transition_outcome t kind reason at updates) (\<lambda>outcome. resume_transition_cleanup sv d outcome skip))
    (completed (new_outcome t kind reason at updates))"
proof (rule life.moves_bind)
  let ?c = "new_outcome t kind reason at updates"
  show "moves (evolves justified) P (begin_transition_outcome t kind reason at updates) (decided ?c)"
    by (rule moves_conseq [OF moves_begin [where justified = justified, OF assms]]) simp_all
  fix x
  show "moves (evolves justified) (decided ?c x) (resume_transition_cleanup sv d x skip) (completed ?c)"
  proof (rule moves_pre)
    fix s :: "'h world" assume "decided ?c x s"
    then obtain ph where "x = outcome_at ?c ph" "load_transition_outcome s = Inr (Some x)" by (auto simp: decided_def)
    then show "moves (evolves justified) ((=) s) (resume_transition_cleanup sv d x skip) (completed ?c)"
      by (intro moves_conseq [OF moves_resume]) (auto simp: completed_at)
  qed
qed

lemma moves_complete:
  assumes "transition_ok t" and "justified t (new_outcome t kind reason at [])"
  shows "moves (evolves justified) P (complete_transition_document sv t kind reason at skip)
    (completed (new_outcome t kind reason at []))"
  unfolding complete_transition_document_def by (rule moves_decide [where justified = justified, OF assms])

lemma moves_roll_activation_back:
  assumes "rollbacks justified sv" and "transition_ok t"
  shows "moves (evolves justified) P (roll_activation_back sv t now) (\<lambda>_ _. True)"
proof -
  have "moves (evolves justified) P
     (bindE (restoring (sv_restore sv t now)) (\<lambda>_.
      bindE (complete_transition_document sv t ''rolled_back'' ''activation-failed'' (utc_text now) False) (\<lambda>_.
      cancel_and_close sv (tr_id t)))) (\<lambda>_ _. True)"
    by (rule life.moves_bind [OF moves_restoring], rule moves_given, rule life.moves_bind [OF moves_complete],
        rule assms(2), rule rollbacksD [OF assms(1), where t' = t], simp, simp,
        rule quiet_any, intro quiet_rules)
  then show ?thesis
    unfolding roll_activation_back_def complete_transition_document_def bindE_assoc
    by (rule life.moves_handle) (rule moves_stop(2))
qed

definition loaded :: "transition option \<Rightarrow> outcome option \<Rightarrow> 'h world \<Rightarrow> bool" where
  "loaded t c s \<longleftrightarrow> load_transition_document s = Inr t \<and> load_transition_outcome s = Inr c"

lemma loaded_cong: "documents s' = documents s \<Longrightarrow> loaded t c s \<Longrightarrow> loaded t c s'"
  by (simp add: loaded_def documents_eq)

lemma moves_recover_activation:
  fixes sv :: "'h services"
  assumes "rollbacks justified sv"
  shows "moves (evolves justified) (loaded t c) (recover_activation sv j t now) (\<lambda>_ _. True)"
proof (rule moves_pre)
  fix s :: "'h world" assume "loaded t c s"
  then have ok: "transition_ok x" if "t = Some x" for x
    using that loaded_transition_ok by (auto simp: loaded_def)
  show "moves (evolves justified) ((=) s) (recover_activation sv j t now) (\<lambda>_ _. True)"
    unfolding recover_activation_def
    by (rule moves_option, rule life.moves_raise, rule moves_roll_activation_back [OF assms])
      (use ok in \<open>auto simp: with_id_def split: option.splits if_splits\<close>)
qed

lemma moves_finish:
  "moves (evolves justified) (loaded t c) (finish_cleanup sv c t) (\<lambda>p. loaded (snd p) (fst p))"
  unfolding finish_cleanup_def
proof (rule moves_option)
  fix x assume c: "c = Some x"
  have "moves (evolves justified) (loaded t c) (resume_transition_cleanup sv d x False) (\<lambda>_ _. True)" for d
    by (rule moves_conseq [OF moves_resume [of justified x sv d False]]) (simp_all add: c loaded_def)
  then show "moves (evolves justified) (loaded t c)
      (if oc_phase x \<noteq> ''complete'' \<or> with_id (oc_id x) t \<noteq> None
       then bindE (resume_transition_cleanup sv (with_id (oc_id x) t) x False) (\<lambda>_.
            bindE (reading load_transition_outcome) (\<lambda>outcome.
            bindE (reading load_transition_document) (\<lambda>current.
            ret (outcome, current))))
       else ret (c, t)) (\<lambda>p. loaded (snd p) (fst p))"
    by (intro moves_if life.moves_bind [where T = "\<lambda>_ _. True"]
        life.moves_bind [OF life.moves_reading [where Q = "\<lambda>y s. load_transition_outcome s = Inr y"]]
        life.moves_bind [OF life.moves_reading [where Q = "\<lambda>z s. loaded z y s" for y]] life.moves_ret)
      (auto simp: loaded_def)
qed (rule life.moves_ret, simp)

lemma moves_reconcile:
  assumes r: "rollbacks justified sv"
  shows "moves (evolves justified) P (reconcile_transition_recovery_locked sv now) (\<lambda>_ _. True)"
proof -
  have own: "moves (evolves justified) (loaded t (Some c))
      (bindE (resume_transition_cleanup sv d c False) (\<lambda>_. cancel_and_close sv ident)) (\<lambda>_ _. True)" for t c d ident
    by (rule life.moves_bind [OF moves_conseq [OF moves_resume [of justified c sv d False]]], simp add: loaded_def,
        assumption, assumption, rule quiet_any, intro quiet_rules)
  show ?thesis
    unfolding reconcile_transition_recovery_locked_def
    by (rule life.moves_bind [where T = "\<lambda>x s. load_transition_outcome s = Inr x"], rule life.moves_reading, assumption,
        rule life.moves_bind [where T = "\<lambda>y s. loaded y x s" for x], rule life.moves_reading, simp add: loaded_def,
        rule life.moves_bind [OF moves_finish], simp only: case_prod_unfold,
        rule life.moves_bind, rule quiet_moves, intro quiet_rules, erule loaded_cong, assumption,
        rule moves_option, rule life.moves_ret, simp, rule moves_option, rule moves_recover_activation [OF r],
        rule moves_if, simp only: own, rule moves_recover_activation [OF r])
qed

section \<open>The commands\<close>

lemma moves_activate:
  "moves (evolves justified) (\<lambda>s :: 'h world. True) (compare_and_swap_transition v (Some ident) (Some state)) (\<lambda>_ _. True)"
proof -
  let ?R = "evolves justified :: 'h world \<Rightarrow> 'h world \<Rightarrow> bool"
  let ?S = "\<lambda>t current s :: 'h world. load_transition_document s = Inr current \<and> transition_ok t
    \<and> swap_step current t \<and> current \<noteq> None"
  have step: "?R s (put_transition (stored (transition_json t)) s)" if "?S t current s" for t current s
    using that life_step.activate
    by (intro one_step) (auto simp: documents_def swap_step_Some)
  have norm: "moves ?R (\<lambda>s. True) (lift (normalize_transition_document v)) (\<lambda>t s. transition_ok t)"
    by (rule life.moves_lift) (rule transition.accepted_good)
  have read: "moves ?R (\<lambda>s. transition_ok t) (reading load_transition_document)
      (\<lambda>x s. load_transition_document s = Inr x \<and> transition_ok t)" for t
    by (rule life.moves_reading) simp
  have allow: "moves ?R (\<lambda>s. load_transition_document s = Inr x \<and> transition_ok t)
      (lift (swap_allowed t x (Some ident) (Some state))) (\<lambda>_. ?S t x)" for t x
    by (rule life.moves_lift, cases x) (auto simp: swap_allowed_iff)
  show ?thesis
    unfolding compare_and_swap_transition_def replace_document_def
    by (rule life.moves_bind [OF norm], rule life.moves_bind [OF read], rule life.moves_bind [OF allow],
        rule life.moves_bind [where T = "\<lambda>_ _. True"], rule life.moves_durable, erule step, simp,
        rule quiet_any, intro quiet_rules)
qed

definition lawful :: "(transition \<Rightarrow> outcome \<Rightarrow> bool) \<Rightarrow> ('h world, 'a) eff \<Rightarrow> bool" where
  "lawful justified m \<longleftrightarrow> moves (evolves justified) (\<lambda>_. True) m (\<lambda>_ _. True)"

named_theorems lawful_rules

lemma lawful_moves [lawful_rules]:
  "rollbacks justified sv \<Longrightarrow> lawful justified (reconcile_transition_recovery_locked sv now)"
  "lawful justified (compare_and_swap_transition v (Some ident) (Some state))"
  unfolding lawful_def by (erule moves_reconcile) (rule moves_activate)

lemma lawful_structure [lawful_rules]:
  "lawful justified m \<Longrightarrow> (\<And>x. lawful justified (f x)) \<Longrightarrow> lawful justified (bindE m f)"
  "lawful justified m \<Longrightarrow> (\<And>e. lawful justified (h e)) \<Longrightarrow> lawful justified (handle p m h)"
  "lawful justified m \<Longrightarrow> lawful justified n \<Longrightarrow> lawful justified (if b then m else n)"
  "lawful justified m \<Longrightarrow> (\<And>y. lawful justified (g y)) \<Longrightarrow> lawful justified (case x of None \<Rightarrow> m | Some y \<Rightarrow> g y)"
  unfolding lawful_def
  by (rule life.moves_bind, assumption, assumption) (rule life.moves_handle_any, assumption, assumption,
      auto split: option.split)

lemma quiet_lawful: "quiet m \<Longrightarrow> lawful justified m"
  unfolding lawful_def by (rule quiet_any)

lemmas lawful_quiet [lawful_rules] = quiet_basic [THEN quiet_lawful] quiet_external [THEN quiet_lawful]
  quiet_operations [THEN quiet_lawful] quiet_commands [THEN quiet_lawful]

lemma lawful_install [lawful_rules]: "lawful justified (install_active_transition sv ah timeout t)"
  unfolding install_active_transition_def install_artifacts_def record_activation_def hand_over_def Let_def
    case_prod_unfold
  by (intro lawful_rules)

lemma lawful_complete:
  assumes r: "rollbacks justified sv" and t: "transition_ok t" 
    and ok: "\<exists>h h'. sv_restore sv t' now h = (Inr (), h')" "tr_id t' = tr_id t"
  shows "lawful justified (complete_transition_document sv t ''rolled_back'' reason at skip)"
  unfolding lawful_def
  by (rule moves_conseq [OF moves_complete [where justified = justified, OF t rollbacksD [OF r ok]]]) simp_all

lemma lawful_lock [lawful_rules]:
  "rollbacks justified sv \<Longrightarrow> lawful justified (mutation_lock sv limit skip now)"
  unfolding mutation_lock_def by (intro lawful_rules)

text \<open>A step that only has to be lawful where its precondition holds.\<close>

lemma lawful_after:
  assumes "moves (evolves justified) (\<lambda>_. True) m (\<lambda>x _. R x)" and "\<And>x. R x \<Longrightarrow> lawful justified (f x)"
  shows "lawful justified (bindE m f)"
  unfolding lawful_def
proof (rule life.moves_bind [OF assms(1)])
  fix x show "moves (evolves justified) (\<lambda>_. R x) (f x) (\<lambda>_ _. True)"
    by (cases "R x") (use assms(2) in \<open>auto simp: lawful_def moves_def\<close>)
qed

lemma moves_loaded_ok:
  "moves (evolves justified) P (reading load_required_transition) (\<lambda>t _. transition_ok t)"
  "moves (evolves justified) P (reading load_transition_document) (\<lambda>x _. \<forall>t\<in>set_option x. transition_ok t)"
  by (rule life.moves_reading, auto simp: load_required_transition_def result_simps intro: loaded_transition_ok)+

lemma moves_restored:
  "moves (evolves justified) P (handle any_error (restoring (sv_restore sv t now)) (\<lambda>e. stop_interface sv interface message))
     (\<lambda>_ _. \<exists>h h'. sv_restore sv t now h = (Inr (), h'))"
  "moves (evolves justified) P (handle any_error (restoring (sv_restore sv t now)) (\<lambda>e. stop_and_raise p sv message))
     (\<lambda>_ _. \<exists>h h'. sv_restore sv t now h = (Inr (), h'))"
  by (rule life.moves_handle [OF moves_conseq [OF moves_restoring]], auto intro: moves_stop)+

lemma lawful_abandon [lawful_rules]:
  assumes r: "rollbacks justified sv"
  shows "lawful justified (abandon_activation sv interface t now)"
proof -
  have close: "lawful justified
     (bindE (reading load_required_transition) (\<lambda>current.
      bindE (ensure (tr_id current = tr_id t) ''obfuscation transition changed during activation rollback'') (\<lambda>_.
      bindE (complete_transition_document sv current ''rolled_back'' ''activation-failed'' (utc_text now) False) (\<lambda>_.
      delete_activation_journal (tr_id t)))))"
    if "\<exists>h h'. sv_restore sv t now h = (Inr (), h')"
  proof (rule lawful_after [OF moves_loaded_ok(1)])
    fix current assume ok: "transition_ok current"
    show "lawful justified
       (bindE (ensure (tr_id current = tr_id t) ''obfuscation transition changed during activation rollback'') (\<lambda>_.
        bindE (complete_transition_document sv current ''rolled_back'' ''activation-failed'' (utc_text now) False) (\<lambda>_.
        delete_activation_journal (tr_id t))))"
    proof (cases "tr_id current = tr_id t")
      case True
      have "lawful justified (complete_transition_document sv current ''rolled_back'' ''activation-failed'' (utc_text now) False)"
        by (rule lawful_complete [OF r ok that]) (simp add: True)
      then show ?thesis by (intro lawful_rules)
    qed (simp add: lawful_rules)
  qed
  show ?thesis
    unfolding abandon_activation_def
    by (rule lawful_structure(1), rule quiet_lawful, intro quiet_rules, rule lawful_after [OF moves_restored(1)],
        rule lawful_structure(1), rule lawful_structure(2), erule close, (intro lawful_rules)+)
qed

lemma lawful_activate:
  assumes r: "rollbacks justified sv"
  shows "lawful justified (cmd_obfuscation_activate sv ah inp ident now)"
  unfolding cmd_obfuscation_activate_def by (intro lawful_rules r)

text \<open>Evidence justifies the decision to confirm.\<close>

definition confirmations :: "(transition \<Rightarrow> outcome \<Rightarrow> bool) \<Rightarrow> transition \<Rightarrow> activation \<Rightarrow> confirmation_input \<Rightarrow> bool" where
  "confirmations justified t a inp \<longleftrightarrow> (\<forall>updates. confirmation_evidence t a inp = Inr updates
     \<longrightarrow> justified t (new_outcome t ''confirmed'' ''confirmed'' (utc_text (cf_now inp)) updates))"

lemma lawful_record_confirmation:
  assumes "transition_ok t" and "justified t (new_outcome t ''confirmed'' ''confirmed'' (utc_text now) updates)"
  shows "lawful justified (record_confirmation sv t now updates)"
proof -
  have "lawful justified
     (bindE (begin_transition_outcome t ''confirmed'' ''confirmed'' (utc_text now) updates) (\<lambda>outcome.
      resume_transition_cleanup sv (Some t) outcome False))"
    unfolding lawful_def
    by (rule moves_conseq [OF moves_decide [where justified = justified, OF assms]]) simp_all
  then show ?thesis
    unfolding record_confirmation_def
    by (intro lawful_structure(1) [OF quiet_lawful [OF quiet_commands(3)]]
        lawful_structure(1) [OF quiet_lawful [OF quiet_operations(2)]] lawful_structure(2)) (simp_all add: lawful_rules)
qed

lemma moves_prior:
  "moves (evolves justified) P (reading load_transition_outcome) (\<lambda>x s. load_transition_outcome s = Inr x)"
  by (rule life.moves_reading)

lemma lawful_resume_read:
  assumes "\<And>x. x = None \<Longrightarrow> lawful justified (f x)"
    and "\<And>x c s. x = Some c \<Longrightarrow> moves (evolves justified) (\<lambda>s. load_transition_outcome s = Inr (Some c)) (f x) (\<lambda>_ _. True)"
  shows "lawful justified (bindE (reading load_transition_outcome) f)"
  unfolding lawful_def
proof (rule life.moves_bind [OF moves_prior])
  fix x show "moves (evolves justified) (\<lambda>s. load_transition_outcome s = Inr x) (f x) (\<lambda>_ _. True)"
    using assms by (cases x) (auto simp: lawful_def elim: moves_conseq)
qed

lemma lawful_weaken: "lawful justified m \<Longrightarrow> moves (evolves justified) P m (\<lambda>_ _. True)"
  unfolding lawful_def by (erule moves_conseq) simp_all

lemma moves_resumed:
  assumes "quiet m" and "\<And>x. lawful justified (f x)"
  shows "moves (evolves justified) (\<lambda>s. load_transition_outcome s = Inr (Some c))
    (bindE m (\<lambda>_. bindE (resume_transition_cleanup sv d c skip) f)) (\<lambda>_ _. True)"
  by (rule life.moves_bind [OF quiet_moves [OF assms(1)]], simp add: documents_eq,
      rule life.moves_bind [OF moves_resume], rule lawful_weaken, rule assms(2))

lemma lawful_confirm_current:
  assumes ok: "\<forall>t\<in>set_option document. transition_ok t"
    and c: "\<And>t a. document = Some t \<Longrightarrow> tr_activation t = Some a \<Longrightarrow> confirmations justified t a inp"
  shows "lawful justified (confirm_current sv inp ident document)"
proof -
  have new: "lawful justified
      (bindE (lift (confirmation_evidence d a inp)) (\<lambda>updates.
       bindE (record_confirmation sv d (cf_now inp) updates) (\<lambda>outcome. ret (outcome, False))))"
    if "document = Some d" and "tr_activation d = Some a" for d a
    by (rule lawful_after [OF life.moves_lift, where R = "\<lambda>u. confirmation_evidence d a inp = Inr u"], assumption,
        rule lawful_structure(1), rule lawful_record_confirmation)
      (use c [OF that] ok that(1) in \<open>auto simp: confirmations_def intro: lawful_rules\<close>)
  have fresh: "lawful justified
      (case with_id ident document of
         Some d \<Rightarrow>
           (case tr_activation d of
              Some a \<Rightarrow>
                bindE (lift (confirmation_evidence d a inp)) (\<lambda>updates.
                bindE (record_confirmation sv d (cf_now inp) updates) (\<lambda>outcome.
                ret (outcome, False)))
            | None \<Rightarrow> raise (AwgctlError ''confirmation requires the exact active transaction ID''))
       | None \<Rightarrow> raise (AwgctlError ''confirmation requires the exact active transaction ID''))"
    using new by (auto simp: with_id_def lawful_rules split: option.split)
  show ?thesis
    unfolding confirm_current_def
  proof (rule lawful_resume_read)
    fix prior :: "outcome option" and c
    show "lawful justified (if \<exists>c\<in>set_option prior. oc_id c = ident then
       bindE (ensure (oc_outcome (the prior) = ''confirmed'')
         ''transaction was rolled back and cannot be confirmed'') (\<lambda>_.
       bindE (resume_transition_cleanup sv (with_id ident document) (the prior) False) (\<lambda>completed.
       ret (completed, True)))
     else
       case with_id ident document of
         Some d \<Rightarrow>
           (case tr_activation d of
              Some a \<Rightarrow>
                bindE (lift (confirmation_evidence d a inp)) (\<lambda>updates.
                bindE (record_confirmation sv d (cf_now inp) updates) (\<lambda>outcome.
                ret (outcome, False)))
            | None \<Rightarrow> raise (AwgctlError ''confirmation requires the exact active transaction ID''))
       | None \<Rightarrow> raise (AwgctlError ''confirmation requires the exact active transaction ID''))" if "prior = None"
      using fresh that by simp
    show "moves (evolves justified) (\<lambda>s. load_transition_outcome s = Inr (Some c))
      (if \<exists>c\<in>set_option prior. oc_id c = ident then
       bindE (ensure (oc_outcome (the prior) = ''confirmed'')
         ''transaction was rolled back and cannot be confirmed'') (\<lambda>_.
       bindE (resume_transition_cleanup sv (with_id ident document) (the prior) False) (\<lambda>completed.
       ret (completed, True)))
     else
       case with_id ident document of
         Some d \<Rightarrow>
           (case tr_activation d of
              Some a \<Rightarrow>
                bindE (lift (confirmation_evidence d a inp)) (\<lambda>updates.
                bindE (record_confirmation sv d (cf_now inp) updates) (\<lambda>outcome.
                ret (outcome, False)))
            | None \<Rightarrow> raise (AwgctlError ''confirmation requires the exact active transaction ID''))
       | None \<Rightarrow> raise (AwgctlError ''confirmation requires the exact active transaction ID'')) (\<lambda>_ _. True)"
      if "prior = Some c"
      unfolding that
      by (rule moves_if, simp only: option.sel, rule moves_resumed, intro quiet_rules, intro lawful_rules,
          rule lawful_weaken, rule fresh)
  qed
qed

lemma lawful_confirm:
  assumes r: "rollbacks justified sv" and c: "\<And>t a. tr_activation t = Some a \<Longrightarrow> confirmations justified t a inp"
  shows "lawful justified (cmd_obfuscation_confirm sv inp ident now)"
  unfolding cmd_obfuscation_confirm_def
  by (rule lawful_structure(1), intro lawful_rules, rule lawful_structure(1), intro lawful_rules r,
      rule lawful_after [OF moves_loaded_ok(2)], rule lawful_confirm_current, assumption, erule c)

lemma lawful_roll_back:
  assumes r: "rollbacks justified sv" and t: "transition_ok t"
  shows "lawful justified (roll_transition_back sv origin reason t now)"
proof -
  have close: "lawful justified
      (handle any_error
         (bindE (complete_transition_document sv t ''rolled_back'' reason (utc_text now) (origin = Some True)) (\<lambda>_.
          cleanup_units sv origin (tr_id t)))
         (\<lambda>e. stop_and_raise awgctl_error sv ''classic state was restored but rollback cleanup failed; interface stopped''))"
    if "\<exists>h h'. sv_restore sv t now h = (Inr (), h')"
    by (rule lawful_structure(2), rule lawful_structure(1), rule lawful_complete [OF r t that])
      (simp_all add: lawful_rules)
  show ?thesis
    unfolding roll_transition_back_def
    by (rule lawful_structure(1), rule quiet_lawful, intro quiet_rules, rule lawful_after [OF moves_restored(2)], rule close)
qed

lemma lawful_rollback:
  assumes r: "rollbacks justified sv"
  shows "lawful justified (rollback_obfuscation_transition sv origin reason ident now rollback_now)"
proof -
  have fresh: "lawful justified
      (bindE (lift (or_raise current (AwgctlError ''unknown or stale obfuscation transaction ID''))) (\<lambda>current.
       bindE (ensure (tr_id current = ident) ''rollback transaction ID does not match the current transition'') (\<lambda>_.
       bindE (ensure (origin = Some False \<longrightarrow> tr_state current = ''active'')
         ''final rollback timer requires an active transition'') (\<lambda>_.
       bindE (roll_transition_back sv origin reason current rollback_now) (\<lambda>_.
       ret (''rolled_back'', False))))))"
    if "\<forall>t\<in>set_option current. transition_ok t" for current ident
  proof (cases current)
    case (Some t)
    with that have "lawful justified (roll_transition_back sv origin reason t rollback_now)"
      by (intro lawful_roll_back r) simp
    then show ?thesis
      unfolding Some or_raise_simps bindE_simps
      by (intro lawful_structure(1) [OF quiet_lawful [OF quiet_basic(6)]] lawful_structure(1)) (simp_all add: lawful_rules)
  qed (simp add: lawful_rules)
  have again: "moves (evolves justified) (\<lambda>s. load_transition_outcome s = Inr (Some c))
      (bindE (ensure_cleanup_journal origin ident at) (\<lambda>_.
       bindE (resume_transition_cleanup sv own c skip) (\<lambda>outcome.
       bindE (cleanup_units sv origin ident) (\<lambda>_.
       ret (oc_outcome outcome, True))))) (\<lambda>_ _. True)" for c ident at own skip
    by (rule moves_resumed, intro quiet_rules, intro lawful_rules)
  show ?thesis
    unfolding rollback_obfuscation_transition_def Let_def
  proof (rule lawful_structure(1), intro lawful_rules, rule lawful_structure(1), intro lawful_rules,
      rule lawful_structure(1), intro lawful_rules r, rule lawful_after [OF moves_loaded_ok(2)], rule lawful_resume_read)
    fix ident current and prior :: "outcome option"
    assume ok: "\<forall>t\<in>set_option current. transition_ok t"
    let ?m = "if \<exists>c\<in>set_option prior. oc_id c = ident
     then bindE (ensure_cleanup_journal origin ident
            (case with_id ident current of Some t \<Rightarrow> tr_prepared_at t | None \<Rightarrow> oc_completed_at (the prior))) (\<lambda>_.
          bindE (resume_transition_cleanup sv (with_id ident current) (the prior) (origin = Some True)) (\<lambda>outcome.
          bindE (cleanup_units sv origin ident) (\<lambda>_.
          ret (oc_outcome outcome, True))))
     else
       bindE (lift (or_raise current (AwgctlError ''unknown or stale obfuscation transaction ID''))) (\<lambda>current.
       bindE (ensure (tr_id current = ident) ''rollback transaction ID does not match the current transition'') (\<lambda>_.
       bindE (ensure (origin = Some False \<longrightarrow> tr_state current = ''active'')
         ''final rollback timer requires an active transition'') (\<lambda>_.
       bindE (roll_transition_back sv origin reason current rollback_now) (\<lambda>_.
       ret (''rolled_back'', False)))))"
    show "lawful justified ?m" if "prior = None"
      using fresh [OF ok] that by simp
    show "moves (evolves justified) (\<lambda>s. load_transition_outcome s = Inr (Some c)) ?m (\<lambda>_ _. True)" if "prior = Some c" for c
      unfolding that option.sel
      by (rule moves_if, rule again, rule lawful_weaken, rule fresh [OF ok])
  qed
qed

section \<open>Sequences of commands\<close>

text \<open>
  The commands of an operator and the two timers, each with its observations; \<open>Recover\<close> is any
  other command that takes the mutation lock. A run is a sequence
  of them, each with the fault it meets; a fault after more writes than the command makes never
  happens.
\<close>

datatype 'h command =
    Recover int
  | Activate "'h activation_host" activation_input string int
  | Confirm confirmation_input string int
  | Rollback string int int
  | Timeout bool string int

fun run_command :: "'h services \<Rightarrow> 'h command \<Rightarrow> ('h world, unit) eff" where
  "run_command sv (Recover now) = mutation_lock sv None False now"
| "run_command sv (Activate ah inp ident now) = bindE (cmd_obfuscation_activate sv ah inp ident now) (\<lambda>_. ret ())"
| "run_command sv (Confirm inp ident now) = bindE (cmd_obfuscation_confirm sv inp ident now) (\<lambda>_. ret ())"
| "run_command sv (Rollback ident now at) = bindE (cmd_obfuscation_rollback sv ident now at) (\<lambda>_. ret ())"
| "run_command sv (Timeout recovery ident at) = bindE (cmd_obfuscation_timeout sv (Some recovery) ident at) (\<lambda>_. ret ())"

text \<open>
  A decision is justified by what was observed: a confirmation by the evidence of a confirming
  command of the run, a rollback by a restored backup of the transition.
\<close>

definition proven :: "'h services \<Rightarrow> 'h command set \<Rightarrow> transition \<Rightarrow> outcome \<Rightarrow> bool" where
  "proven sv commands t c \<longleftrightarrow>
     (if oc_outcome c = ''confirmed''
      then \<exists>inp ident now a. Confirm inp ident now \<in> commands \<and> tr_activation t = Some a
        \<and> confirmation_evidence t a inp = Inr (oc_updates c) \<and> oc_completed_at c = utc_text (cf_now inp)
      else \<exists>t' now h h'. tr_id t' = tr_id t \<and> sv_restore sv t' now h = (Inr (), h'))"

lemma proven_rollbacks: "rollbacks (proven sv commands) sv"
  unfolding rollbacks_def proven_def new_outcome_def by (simp del: split_paired_Ex) blast

lemma lawful_command:
  assumes "command \<in> commands"
  shows "lawful (proven sv commands) (run_command sv command)"
proof (cases command)
  case (Confirm inp ident now)
  then have "confirmations (proven sv commands) t a inp" if "tr_activation t = Some a" for t a
    using assms that by (auto simp: confirmations_def proven_def new_outcome_def)
  then show ?thesis
    using Confirm by (auto intro!: lawful_structure(1) lawful_confirm proven_rollbacks lawful_rules)
qed (auto intro!: lawful_rules proven_rollbacks lawful_activate lawful_rollback
    simp: cmd_obfuscation_rollback_def cmd_obfuscation_timeout_def)

lemma commands_evolve:
  "evolves (proven sv (fst ` set attempts)) w (after_attempts (run_command sv) attempts w)"
proof (rule life.moves_after_attempts [where P = "\<lambda>_. True"])
  fix a assume "a \<in> set attempts"
  then show "moves (evolves (proven sv (fst ` set attempts))) (\<lambda>_. True) (run_command sv (fst a)) (\<lambda>_ _. True)"
    using lawful_command [of "fst a" "fst ` set attempts" sv] by (simp add: lawful_def)
qed simp_all

text \<open>
  C1: The commands refine the abstract machine. Whatever sequence of recoveries, activations,
  confirmations, rollbacks and timeouts is run, with whatever answers of the host, and whatever
  write each of them is killed at or fails at, the transition and its outcome on disk move along
  the steps of the machine: activation of the prepared transition, a decision on the current one
  when the previous one is finished, the next phase of a cleanup, removal of a decided transition.
  Every decision among these steps is proven: by the evidence a command of the sequence gathered,
  or by a restored backup.
\<close>

theorem commands_refine_life:
  "(life_step (proven sv (fst ` set attempts)))\<^sup>*\<^sup>* (documents w) (documents (after_attempts (run_command sv) attempts w))"
  using commands_evolve [of sv attempts w] by (simp add: evolves_def)

lemma documents_parts:
  "fst (documents w) = load_transition_document w" "snd (documents w) = load_transition_outcome w"
  by (simp_all add: documents_def)

lemma decision_kept:
  assumes "(life_step justified)\<^sup>*\<^sup>* s s'" and "snd s = Inr (Some c)"
  shows "\<exists>c'. snd s' = Inr (Some c') \<and> (if oc_id c' = oc_id c then \<exists>ph. c' = outcome_at c ph
    else \<forall>t. fst s' = Inr (Some t) \<longrightarrow> tr_id t \<noteq> oc_id c)"
  using assms
proof (induction rule: rtranclp_induct)
  case base
  then show ?case by (auto intro: exI [of _ "oc_phase c"])
next
  case (step y z)
  then obtain c' where c': "snd y = Inr (Some c')" "if oc_id c' = oc_id c then \<exists>ph. c' = outcome_at c ph
    else \<forall>t. fst y = Inr (Some t) \<longrightarrow> tr_id t \<noteq> oc_id c" by blast
  from step.hyps(2) show ?case
  proof cases
    case (decide t d prior)
    with c' have "prior = Some c'" "oc_id d \<noteq> oc_id c" by (auto split: if_splits)
    with decide show ?thesis by auto
  qed (use c' in \<open>auto split: if_splits\<close>)
qed

text \<open>
  C3: A decision is final. Once a transaction's outcome is on disk, every sequence of commands
  leaves an outcome there, whatever each command is interrupted by; as long as it is that
  transaction's, it is the same decision with the same reason, time and profile updates, and only
  its cleanup phase has moved; when it is another's, the transaction is no longer the current one.
\<close>

theorem decision_final:
  assumes "load_transition_outcome w = Inr (Some c)" and "w' = after_attempts (run_command sv) attempts w"
  shows "\<exists>c'. load_transition_outcome w' = Inr (Some c')
    \<and> (if oc_id c' = oc_id c then \<exists>ph. c' = outcome_at c ph
       else \<forall>t. load_transition_document w' = Inr (Some t) \<longrightarrow> tr_id t \<noteq> oc_id c)"
  using decision_kept [OF commands_evolve [of sv attempts w, unfolded evolves_def], of c] assms(1)
  unfolding assms(2) documents_parts .

theorem decision_final_witness:
  "\<exists>c'. load_transition_outcome (after_attempts (run_command sample_services)
      [(Recover 0, 1, Crash), (Rollback sample_id 0 0, 0, Unsynced), (Timeout True sample_id 0, 3, Refused)]
      confirmed_world) = Inr (Some c')"
  using decision_final [OF sample_loads(2) refl] by blast

lemma decision_proven:
  assumes "(life_step justified)\<^sup>*\<^sup>* s s'" and "snd s' = Inr (Some c)"
  shows "(\<exists>c0 ph. snd s = Inr (Some c0) \<and> c = outcome_at c0 ph)
    \<or> (\<exists>t c0 ph. justified t c0 \<and> oc_id c0 = tr_id t \<and> c = outcome_at c0 ph)"
  using assms
proof (induction arbitrary: c rule: rtranclp_induct)
  case base
  then show ?case by (auto intro: exI [of _ "oc_phase c"])
next
  case (step y z)
  from step.hyps(2) show ?case
  proof cases
    case (decide t d prior)
    then have "justified t c \<and> oc_id c = tr_id t" using step.prems by simp
    then show ?thesis using outcome_at_own [of c, symmetric] by blast
  next
    case (advance d ph t)
    then have c: "c = outcome_at d ph" using step.prems by simp
    from step.IH [of d] advance have "(\<exists>c0 ph. snd s = Inr (Some c0) \<and> d = outcome_at c0 ph)
      \<or> (\<exists>t c0 ph. justified t c0 \<and> oc_id c0 = tr_id t \<and> d = outcome_at c0 ph)" by simp
    then show ?thesis
    proof (elim disjE exE conjE)
      fix c0 ph' assume "snd s = Inr (Some c0)" "d = outcome_at c0 ph'"
      then have "snd s = Inr (Some c0) \<and> c = outcome_at c0 ph" by (simp add: c)
      then show ?thesis by blast
    next
      fix t c0 ph' assume "justified t c0" "oc_id c0 = tr_id t" "d = outcome_at c0 ph'"
      then have "justified t c0 \<and> oc_id c0 = tr_id t \<and> c = outcome_at c0 ph" by (simp add: c)
      then show ?thesis by blast
    qed
  qed (use step in auto)
qed

lemma profile_updates_Inr:
  "profile_updates clients ps = Inr us \<Longrightarrow>
     us = map (\<lambda>p. \<lparr>up_name = pp_name p, up_from = pp_revision p, up_to = pp_revision p + 1\<rparr>) ps"
  unfolding profile_updates_def
  by (induction ps arbitrary: us) (auto simp: result_simps split: option.splits if_splits)

definition handshake_of :: "(string \<times> int) list \<Rightarrow> string \<Rightarrow> int" where
  "handshake_of handshakes key = (case map_of handshakes key of None \<Rightarrow> 0 | Some h \<Rightarrow> h)"

lemma fresh_session_Inr:
  "fresh_session a activated now counters h = Inr u \<longleftrightarrow> max (epoch_seconds activated) (act_handshake a) < h
     \<and> h \<le> epoch_seconds now \<and> epoch_seconds now - h \<le> 180 \<and> act_rx a < fst counters \<and> act_tx a < snd counters"
  by (auto simp: fresh_session_def result_simps)

lemma confirmation_evidence_facts:
  assumes "confirmation_evidence t a inp = Inr updates"
  shows "\<exists>activated deadline clients target managed handshakes counters traffic h.
    time_value (act_at a) = Some activated \<and> time_value (act_deadline a) = Some deadline \<and> cf_now inp < deadline
    \<and> cf_clients inp = Inr clients
    \<and> prepare_transition_clients clients (tr_client t) (cf_now inp) = Inr (target, managed)
    \<and> cf_handshakes inp = Inr handshakes \<and> h = handshake_of handshakes (cl_public_key (ld_client target))
    \<and> max (epoch_seconds activated) (act_handshake a) < h
    \<and> h \<le> epoch_seconds (cf_now inp) \<and> epoch_seconds (cf_now inp) - h \<le> 180
    \<and> cf_counters inp = Inr counters \<and> map_of counters (cl_public_key (ld_client target)) = Some traffic
    \<and> act_rx a < fst traffic \<and> act_tx a < snd traffic
    \<and> updates = map (\<lambda>p. \<lparr>up_name = pp_name p, up_from = pp_revision p, up_to = pp_revision p + 1\<rparr>) (tr_profiles t)"
  using assms unfolding confirmation_evidence_def Let_def
  apply (elim andthen_prodE andthenE)
  apply (drule profile_updates_Inr)
  apply (simp only: handshake_of_def [symmetric])
  apply (auto simp: result_simps fresh_session_Inr)
  done


section \<open>What a confirmation goes back to\<close>

text \<open>A recovery leaves the transition on disk as it is or removes it.\<close>

definition still :: "'h world \<Rightarrow> 'h world \<Rightarrow> bool" where
  "still s s' \<longleftrightarrow> load_transition_document s' = load_transition_document s \<or> load_transition_document s' = Inr None"

interpretation still: progress still
  by unfold_locales (auto simp: still_def)

lemma quiet_still: "quiet m \<Longrightarrow> steady still m"
  unfolding quiet_def steady_def
  by (rule moves_conseq [of unchanged]) (auto simp: unchanged_def still_def documents_eq)

lemmas still_quiet [steady_rules] = quiet_external [THEN quiet_still] quiet_restoring [THEN quiet_still]
  quiet_operations [THEN quiet_still] quiet_commands [THEN quiet_still]

lemma still_durable [steady_rules]: "steady still (durable (put_transition None))" "steady still (durable (put_outcome d))"
  by (rule still.steady_durable, simp add: still_def)+

lemma still_cleanup [steady_rules]:
  "steady still (resume_transition_cleanup sv d c skip)" "steady still (finish_cleanup sv outcome current)"
  "steady still (begin_transition_outcome t kind reason at updates)"
  unfolding finish_cleanup_def resume_transition_cleanup_def from_metadata_def from_pending_def from_current_def
    checkpoint_def remove_current_transition_def update_transition_outcome_phase_def begin_transition_outcome_def
    replace_document_def Let_def
  by (intro steady_rules)+

lemma still_reconcile [steady_rules]: "steady still (reconcile_transition_recovery_locked sv now)"
  unfolding reconcile_transition_recovery_locked_def recover_activation_def roll_activation_back_def case_prod_unfold
  by (intro steady_rules)

lemma still_lock: "steady still (mutation_lock sv limit skip now)"
  unfolding mutation_lock_def by (intro steady_rules)

lemma moves_steady:
  assumes "moves R ((=) w) m Q" and "steady R' m"
  shows "moves R ((=) w) m (\<lambda>_. R' w)"
  using assms unfolding moves_def steady_def by blast

text \<open>
  What a single command, run from the state \<open>w\<close>, can decide: a confirmation is justified by the
  evidence it found for the activation recorded in the very document that was on disk.
\<close>

definition confirms :: "'h world \<Rightarrow> 'h command \<Rightarrow> transition \<Rightarrow> outcome \<Rightarrow> bool" where
  "confirms w command t c \<longleftrightarrow> oc_outcome c = ''confirmed'' \<longrightarrow>
     (\<exists>inp ident now a. command = Confirm inp ident now \<and> load_transition_document w = Inr (Some t)
        \<and> tr_activation t = Some a \<and> confirmation_evidence t a inp = Inr (oc_updates c))"

lemma confirms_rollbacks: "rollbacks (confirms w command) sv"
  by (auto simp: rollbacks_def confirms_def new_outcome_def)

lemma moves_command:
  fixes w :: "'h world"
  shows "moves (evolves (confirms w command)) ((=) w) (run_command sv command) (\<lambda>_ _. True)"
proof (cases command)
  case (Confirm inp ident now)
  let ?J = "confirms w command" and ?R = "evolves (confirms w command) :: 'h world \<Rightarrow> 'h world \<Rightarrow> bool"
  have lock: "moves ?R ((=) w) (mutation_lock sv None False now) (\<lambda>_. still w)"
    by (rule moves_steady [OF lawful_weaken still_lock]) (intro lawful_rules confirms_rollbacks)
  have read: "moves ?R (still w) (reading load_transition_document)
      (\<lambda>x _. \<forall>t\<in>set_option x. load_transition_document w = Inr (Some t))"
    by (rule life.moves_reading) (auto simp: still_def)
  have tail: "moves ?R (\<lambda>_. \<forall>t\<in>set_option x. load_transition_document w = Inr (Some t))
      (confirm_current sv inp ident x) (\<lambda>_ _. True)" for x ident
  proof (cases "\<forall>t\<in>set_option x. load_transition_document w = Inr (Some t)")
    case True
    then have "\<forall>t\<in>set_option x. transition_ok t" using loaded_transition_ok by blast
    then have "lawful ?J (confirm_current sv inp ident x)"
      by (rule lawful_confirm_current)
        (use True Confirm in \<open>auto simp: confirmations_def confirms_def new_outcome_def\<close>)
    then show ?thesis by (rule lawful_weaken)
  qed (rule moves_vacuous, blast)
  have id: "moves ?R ((=) w) (lift (validate_transaction_id (JStr ident))) (\<lambda>_. (=) w)"
    by (rule life.moves_lift)
  show ?thesis
    unfolding Confirm run_command.simps cmd_obfuscation_confirm_def bindE_assoc
    by (fold Confirm, rule life.moves_bind [OF id], rule life.moves_bind [OF lock], rule life.moves_bind [OF read],
        rule life.moves_bind [OF tail], rule life.moves_ret, simp)
qed (rule lawful_weaken, simp only: run_command.simps cmd_obfuscation_rollback_def cmd_obfuscation_timeout_def,
  intro lawful_rules confirms_rollbacks lawful_activate lawful_rollback)+

lemma command_decision:
  assumes run: "run_command sv command (b, w) = (r, (b', w'))"
    and c: "load_transition_outcome w' = Inr (Some c)" "oc_outcome c = ''confirmed''"
    and new: "\<forall>c0. load_transition_outcome w = Inr (Some c0) \<longrightarrow> oc_id c0 \<noteq> oc_id c"
  shows "\<exists>inp ident now t a. command = Confirm inp ident now \<and> load_transition_document w = Inr (Some t)
    \<and> tr_id t = oc_id c \<and> tr_activation t = Some a \<and> confirmation_evidence t a inp = Inr (oc_updates c)"
proof -
  have "(life_step (confirms w command))\<^sup>*\<^sup>* (documents w) (documents w')"
    using movesD(1) [OF moves_command refl run] by (simp add: evolves_def)
  from decision_proven [OF this, of c] c(1)
  have "(\<exists>c0 ph. load_transition_outcome w = Inr (Some c0) \<and> c = outcome_at c0 ph)
    \<or> (\<exists>t c0 ph. confirms w command t c0 \<and> oc_id c0 = tr_id t \<and> c = outcome_at c0 ph)"
    by (simp add: documents_parts)
  with new obtain t c0 ph where j: "confirms w command t c0" "oc_id c0 = tr_id t" "c = outcome_at c0 ph" by fastforce
  with c(2) show ?thesis by (auto simp: confirms_def)
qed

lemma run_decision:
  assumes "load_transition_outcome (after_attempts (run_command sv) attempts w) = Inr (Some c)"
    and "oc_outcome c = ''confirmed''"
    and "\<forall>c0. load_transition_outcome w = Inr (Some c0) \<longrightarrow> oc_id c0 \<noteq> oc_id c"
  shows "\<exists>before inp ident now fault rest t a. attempts = before @ (Confirm inp ident now, fault) # rest
    \<and> load_transition_document (after_attempts (run_command sv) before w) = Inr (Some t)
    \<and> tr_id t = oc_id c \<and> tr_activation t = Some a \<and> confirmation_evidence t a inp = Inr (oc_updates c)"
  using assms
proof (induction attempts arbitrary: w)
  case Nil
  then show ?case by simp
next
  case (Cons x attempts)
  obtain r b w1 where run: "run_command sv (fst x) (Some (snd x), w) = (r, (b, w1))" by (metis surj_pair)
  have final: "load_transition_outcome (after_attempts (run_command sv) attempts w1) = Inr (Some c)"
    using Cons.prems(1) run by simp
  show ?case
  proof (cases "\<forall>c0. load_transition_outcome w1 = Inr (Some c0) \<longrightarrow> oc_id c0 \<noteq> oc_id c")
    case True
    from Cons.IH [OF final Cons.prems(2) True] obtain before inp ident now fault rest t a
      where x: "attempts = before @ (Confirm inp ident now, fault) # rest"
        "load_transition_document (after_attempts (run_command sv) before w1) = Inr (Some t)"
        "tr_id t = oc_id c \<and> tr_activation t = Some a \<and> confirmation_evidence t a inp = Inr (oc_updates c)" by blast
    have "x # attempts = (x # before) @ (Confirm inp ident now, fault) # rest"
      "load_transition_document (after_attempts (run_command sv) (x # before) w) = Inr (Some t)"
      using x run by simp_all
    with x(3) show ?thesis by blast
  next
    case False
    then obtain c1 where c1: "load_transition_outcome w1 = Inr (Some c1)" "oc_id c1 = oc_id c" by blast
    from decision_kept [OF commands_evolve [of sv attempts w1, unfolded evolves_def], of c1] c1 final
    obtain ph where ph: "c = outcome_at c1 ph" by (auto simp: documents_parts)
    have same: "oc_outcome c1 = ''confirmed''" "oc_updates c1 = oc_updates c"
      using Cons.prems(2) unfolding ph by simp_all
    have "\<forall>c0. load_transition_outcome w = Inr (Some c0) \<longrightarrow> oc_id c0 \<noteq> oc_id c1"
      unfolding c1(2) by (rule Cons.prems(3))
    from command_decision [OF run c1(1) same(1) this] same(2) c1(2) obtain inp ident now t a where
      d: "fst x = Confirm inp ident now" "load_transition_document w = Inr (Some t)"
      "tr_id t = oc_id c" "tr_activation t = Some a" "confirmation_evidence t a inp = Inr (oc_updates c)" by metis
    have "x # attempts = [] @ (Confirm inp ident now, snd x) # attempts" by (simp flip: d(1))
    moreover have "load_transition_document (after_attempts (run_command sv) [] w) = Inr (Some t)" using d(2) by simp
    ultimately show ?thesis using d(3,4,5) by (intro exI conjI)
  qed
qed

text \<open>
  C2: A transaction is confirmed only with proof. When a sequence of commands, each interrupted
  anywhere, leaves a confirmed outcome for a transaction that had none at first, then one command of
  the sequence was a confirmation, and the transition on disk when it was started was the transaction's
  own, with its activation recorded. Against the times and counters of that record, what the command
  observed shows: the deadline had not passed, the named client was managed, active and the tunnel
  complete, its latest handshake was later than the activation and than every handshake before it,
  not in the future and at most 180 seconds old, and its receive and transmit counters had both
  grown. The recorded updates take every pending profile to the revision after the one prepared.
\<close>

theorem confirmed_only_with_proof:
  assumes "w' = after_attempts (run_command sv) attempts w"
    and "load_transition_outcome w' = Inr (Some c)" and "oc_outcome c = ''confirmed''"
    and new: "\<forall>c0. load_transition_outcome w = Inr (Some c0) \<longrightarrow> oc_id c0 \<noteq> oc_id c"
  shows "\<exists>before inp ident now fault rest t a. attempts = before @ (Confirm inp ident now, fault) # rest
    \<and> load_transition_document (after_attempts (run_command sv) before w) = Inr (Some t)
    \<and> tr_id t = oc_id c \<and> tr_activation t = Some a
    \<and> (\<exists>activated deadline clients target managed handshakes counters traffic h.
    time_value (act_at a) = Some activated \<and> time_value (act_deadline a) = Some deadline \<and> cf_now inp < deadline
    \<and> cf_clients inp = Inr clients
    \<and> prepare_transition_clients clients (tr_client t) (cf_now inp) = Inr (target, managed)
    \<and> cf_handshakes inp = Inr handshakes \<and> h = handshake_of handshakes (cl_public_key (ld_client target))
    \<and> max (epoch_seconds activated) (act_handshake a) < h
    \<and> h \<le> epoch_seconds (cf_now inp) \<and> epoch_seconds (cf_now inp) - h \<le> 180
    \<and> cf_counters inp = Inr counters \<and> map_of counters (cl_public_key (ld_client target)) = Some traffic
    \<and> act_rx a < fst traffic \<and> act_tx a < snd traffic
    \<and> oc_updates c = map (\<lambda>p. \<lparr>up_name = pp_name p, up_from = pp_revision p, up_to = pp_revision p + 1\<rparr>) (tr_profiles t))"
proof -
  from run_decision [OF assms(2) [unfolded assms(1)] assms(3) new] obtain before inp ident now fault rest t a where
    x: "attempts = before @ (Confirm inp ident now, fault) # rest"
      "load_transition_document (after_attempts (run_command sv) before w) = Inr (Some t)"
      "tr_id t = oc_id c" "tr_activation t = Some a"
    and e: "confirmation_evidence t a inp = Inr (oc_updates c)" by blast
  show ?thesis
    by (intro exI [of _ before] exI [of _ inp] exI [of _ ident] exI [of _ now] exI [of _ fault] exI [of _ rest]
        exI [of _ t] exI [of _ a] conjI x confirmation_evidence_facts [OF e])
qed

definition active_sample :: transition where
  "active_sample = sample_transition\<lparr>tr_activation := Some sample_activation\<rparr>"

definition active_world :: "unit world" where
  "active_world = empty_world\<lparr>w_transition := stored (transition_json active_sample), w_timers := [(False, sample_id)]\<rparr>"

definition phone_client :: loaded_client where
  "phone_client =
     \<lparr>ld_client = \<lparr>cl_name = ''phone'', cl_public_key = ''key'', cl_address = ''10.0.0.2/32'', cl_status = ''active'',
        cl_expires = None, cl_psk = None\<rparr>,
      ld_management = ''managed'', ld_private_key = None, ld_metadata = [(''profile_revision'', JInt 3)]\<rparr>"

definition sample_evidence :: confirmation_input where
  "sample_evidence =
     \<lparr>cf_now = 739617 * day_us + 600000000,
      cf_config = Inr (sample_config\<lparr>cfg_listen_port := 4500, cfg_obfuscation := Awg31 sample_awg31\<rparr>),
      cf_clients = Inr [phone_client], cf_service_active = Inr True, cf_pending = Inr (), cf_verified = Inr (),
      cf_handshakes = Inr [(''key'', 1767226150)], cf_counters = Inr [(''key'', 11, 21)]\<rparr>"

definition sample_update :: profile_update where
  "sample_update = \<lparr>up_name = ''phone'', up_from = 3, up_to = 4\<rparr>"

lemma sample_evidence_accepted: "confirmation_evidence active_sample sample_activation sample_evidence = Inr [sample_update]"
  by code_simp

lemma active_sample_parts: "transition_ok active_sample" "tr_activation active_sample = Some sample_activation"
  "tr_id active_sample = sample_id"
  using sample_active_ok by (simp_all add: active_sample_def) (simp add: sample_transition_def)

lemma active_loads:
  "load_transition_document active_world = Inr (Some active_sample)"
  "load_transition_outcome active_world = Inr None" "load_activation_journal active_world = Inr None"
  using transition_file.read_stored [OF active_sample_parts(1)]
  by (simp_all add: load_transition_document_def load_transition_outcome_def load_activation_journal_def
      active_world_def empty_world_def read_document_def)

definition sample_decision :: outcome where
  "sample_decision = new_outcome active_sample ''confirmed'' ''confirmed'' (utc_text (cf_now sample_evidence)) [sample_update]"

lemma sample_evidence_times: "valid_instant (cf_now sample_evidence)" "valid_instant (cf_now sample_evidence + ten_minutes)"
  by (simp_all add: sample_evidence_def valid_instant_def day_us_def max_ord_def ten_minutes_def)

lemma sample_decision_ok: "outcome_ok sample_decision"
  using time_value_utc [OF sample_evidence_times(1)]
  by (auto simp: outcome_ok_def sample_decision_def new_outcome_def active_sample_def sample_transition_def sample_res
      outcome_reasons_def cleanup_phases_def time_ok_def ports_ok_def update_ok_def sample_update_def)

text \<open>The outcome is written, then the directory cannot be synced.\<close>

lemma sample_confirm_run:
  "\<exists>r b w. cmd_obfuscation_confirm sample_services sample_evidence sample_id 0 (Some (2, Unsynced), active_world)
     = (r, (b, w)) \<and> load_transition_outcome w = Inr (Some sample_decision)"
proof -
  let ?w1 = "active_world\<lparr>w_timers := [(True, sample_id), (False, sample_id)]\<rparr>"
  let ?w2 = "active_world\<lparr>w_timers := [(True, sample_id)]\<rparr>"
  let ?w3 = "put_outcome (stored (outcome_json sample_decision)) ?w2"
  have loads: "load_transition_document ?w2 = Inr (Some active_sample)" "load_transition_outcome ?w2 = Inr None"
    using active_loads by (simp_all add: load_transition_document_def load_transition_outcome_def)
  have ident: "validate_transaction_id (JStr sample_id) = Inr sample_id"
    by (rule transaction_id.good_accepted) (rule sample_res)
  have time: "\<exists>t. transition_time (JStr (utc_text (cf_now sample_evidence + ten_minutes))) ''deadline_at'' = Inr t"
    using time_value_utc [OF sample_evidence_times(2)] transition_time_JStr by blast
  have lock: "external (sv_lock sample_services None) (b, s) = (Done (), (b, s))" for b and s :: "unit world"
    by (simp add: external_def sample_services_def run_simps)
  have recover: "mutation_lock sample_services None False 0 (Some (2, Unsynced), active_world)
      = (Done (), (Some (2, Unsynced), active_world))"
    using active_loads
    by (simp add: mutation_lock_def lock reconcile_transition_recovery_locked_def finish_cleanup_def run_simps bindE_def)
  have arm: "schedule_transition_recovery sample_services sample_id (utc_text (cf_now sample_evidence + ten_minutes))
      (Some (2, Unsynced), active_world) = (Done (), (Some (1, Unsynced), ?w1))"
    using time ident
    by (auto simp: schedule_transition_recovery_def arm_timer_def external_def sample_services_def run_simps bindE_def
        handle_def durable_def active_world_def empty_world_def)
  have cancel: "cancel_transition_timeout sample_services sample_id (Some (1, Unsynced), ?w1)
      = (Done (), (Some (0, Unsynced), ?w2))"
    by (simp add: cancel_transition_timeout_def remove_units_def external_def sample_services_def run_simps bindE_def
        handle_def durable_def active_world_def empty_world_def)
  have decide: "begin_transition_outcome active_sample ''confirmed'' ''confirmed'' (utc_text (cf_now sample_evidence))
      [sample_update] (Some (0, Unsynced), ?w2) = (Raised OSError, (None, ?w3))"
    using loads outcome.good_accepted [OF sample_decision_ok] transition.good_accepted [OF active_sample_parts(1)]
    by (simp add: begin_transition_outcome_def load_required_transition_def replace_document_def run_simps bindE_def
        durable_def Let_def sample_decision_def new_outcome_def)
  have raised: "record_confirmation sample_services active_sample (cf_now sample_evidence) [sample_update]
      (Some (2, Unsynced), active_world) = (Raised (AwgctlError
        ''obfuscation confirmation cleanup is incomplete; retry the exact transaction ID''), (None, ?w3))"
    using arm cancel decide
    by (simp add: record_confirmation_def active_sample_parts bindE_def handle_def any_error_def run_simps)
  have "cmd_obfuscation_confirm sample_services sample_evidence sample_id 0 (Some (2, Unsynced), active_world)
      = (Raised (AwgctlError
        ''obfuscation confirmation cleanup is incomplete; retry the exact transaction ID''), (None, ?w3))"
    using recover raised active_loads sample_evidence_accepted
    by (simp add: cmd_obfuscation_confirm_def confirm_current_def ident with_id_def active_sample_parts run_simps bindE_def)
  then show ?thesis using sample_decision_ok by auto
qed

theorem confirmed_only_with_proof_witness:
  "\<exists>w' a. w' = after_attempts (run_command sample_services) [(Confirm sample_evidence sample_id 0, 2, Unsynced)] active_world
    \<and> load_transition_outcome w' = Inr (Some sample_decision) \<and> tr_activation active_sample = Some a \<and> act_rx a < 11"
proof -
  let ?as = "[(Confirm sample_evidence sample_id 0, 2, Unsynced)] :: (unit command \<times> nat \<times> fault) list"
  let ?w = "after_attempts (run_command sample_services) ?as active_world"
  have o: "load_transition_outcome ?w = Inr (Some sample_decision)"
    using sample_confirm_run by (auto simp: bindE_def run_simps split: run.splits)
  have id: "oc_id sample_decision = sample_id" "oc_outcome sample_decision = ''confirmed''"
    by (simp_all add: sample_decision_def new_outcome_def active_sample_parts)
  have none: "\<forall>c0. load_transition_outcome active_world = Inr (Some c0) \<longrightarrow> oc_id c0 \<noteq> oc_id sample_decision"
    using active_loads by simp
  from confirmed_only_with_proof [OF refl o id(2) none] show ?thesis
  proof (elim exE conjE)
    fix before inp ident now fault rest and t :: transition and a counters traffic key
    assume x: "?as = before @ (Confirm inp ident now, fault) # rest"
      "load_transition_document (after_attempts (run_command sample_services) before active_world) = Inr (Some t)"
      "tr_activation t = Some a" "cf_counters inp = Inr counters" "map_of counters key = Some traffic" "act_rx a < fst traffic"
    from x(1) have "before = []" "inp = sample_evidence" by (cases before; simp)+
    with x active_loads have "t = active_sample" "act_rx a < 11" by (auto simp: sample_evidence_def split: if_splits)
    with o x(3) show ?thesis by auto
  qed
qed

section \<open>When the classic state cannot be restored\<close>

lemma stop_run:
  "stop_interface sv interface message (b, s)
     = (Raised (AwgctlError message), (b, s\<lparr>w_host := snd (sv_stop sv interface (w_host s))\<rparr>))"
  by (cases "sv_stop sv interface (w_host s)"; cases "fst (sv_stop sv interface (w_host s))")
    (auto simp: stop_interface_def suppress_def handle_def any_error_def external_def bindE_def run_simps)

text \<open>
  How a rollback gives up on a host \<open>h\<close>: with the message it was given and the interface of the
  configuration, or the default one, stopped; or, when reading the configuration raises an error that
  is not the program's own, with that error and nothing stopped.
\<close>

definition gave_up :: "'h services \<Rightarrow> 'h \<Rightarrow> string \<Rightarrow> 'a run \<Rightarrow> 'h \<Rightarrow> bool" where
  "gave_up sv h message r h' \<longleftrightarrow>
     (case read_server_config (sv_config_file sv h) of
        Inr config \<Rightarrow> r = Raised (AwgctlError message) \<and> h' = snd (sv_stop sv (cfg_interface config) h)
      | Inl e \<Rightarrow>
          if awgctl_error e then r = Raised (AwgctlError message) \<and> h' = snd (sv_stop sv ''awg0'' h)
          else r = Raised e \<and> h' = h)"

lemma stop_and_raise_run:
  assumes "stop_and_raise awgctl_error sv message (b, s) = (r, (b', s'))"
  shows "documents s' = documents s \<and> gave_up sv (w_host s) message r (w_host s')"
  using assms
  by (cases "read_server_config (sv_config_file sv (w_host s))")
    (auto simp: stop_and_raise_def load_interface_def handle_def bindE_def run_simps stop_run gave_up_def)

lemma gave_up_run:
  fixes f :: "'a \<Rightarrow> ('h world, 'b) eff"
  assumes run: "bindE (stop_and_raise awgctl_error sv message) f (b, s) = (r, (b', s'))"
  shows "documents s' = documents s \<and> gave_up sv (w_host s) message r (w_host s')"
proof -
  obtain r1 :: "'a run" and b1 s1 where e: "stop_and_raise awgctl_error sv message (b, s) = (r1, (b1, s1))"
    by (metis surj_pair)
  have g: "documents s1 = documents s" "gave_up sv (w_host s) message r1 (w_host s1)"
    using stop_and_raise_run [OF e] by simp_all
  then obtain x where x: "r1 = Raised x" by (auto simp: gave_up_def split: sum.splits if_splits)
  then have "r = Raised x" "s' = s1" using run e by (simp_all add: bindE_def)
  with g x show ?thesis by (auto simp: gave_up_def split: sum.splits)
qed

lemma quiet_documents: "quiet m \<Longrightarrow> m (b, s) = (r, (b', s')) \<Longrightarrow> documents s' = documents s"
  unfolding quiet_def using movesD(1) [of unchanged "\<lambda>_. True" m "\<lambda>_ _. True" s b r b' s'] by (simp add: unchanged_def)

text \<open>The host and the client metadata, which writing the journal leaves alone.\<close>

definition elsewhere :: "'h world \<Rightarrow> 'h world \<Rightarrow> bool" where
  "elsewhere s s' \<longleftrightarrow> (w_metadata s', w_host s') = (w_metadata s, w_host s)"

interpretation elsewhere: progress elsewhere
  by unfold_locales (simp_all add: elsewhere_def)

lemma elsewhere_journal: "steady elsewhere (ensure_cleanup_journal origin ident at)"
  unfolding ensure_cleanup_journal_def write_activation_journal_def replace_document_def Let_def
  by (intro steady_rules elsewhere.steady_durable) (simp_all add: elsewhere_def put_journal_def)

abbreviation checkpoint_failed :: string where
  "checkpoint_failed \<equiv> ''automatic rollback checkpoint could not be proven; interface stopped''"

abbreviation restore_unproven :: string where
  "restore_unproven \<equiv> ''classic rollback could not be proven; interface stopped''"

lemma failed_roll_back:
  assumes run: "roll_transition_back sv origin reason t now (b, s) = (r, (b', s'))"
    and fails: "sv_restore sv t now (w_metadata s, w_host s) = (Inl e, (m, h))"
  shows "documents s' = documents s \<and> (r = Killed \<or> gave_up sv (w_host s) checkpoint_failed r (w_host s')
    \<or> gave_up sv h restore_unproven r (w_host s'))"
proof -
  let ?j = "ensure_cleanup_journal origin (tr_id t) (tr_prepared_at t)"
  obtain r1 b1 s1 where j: "?j (b, s) = (r1, (b1, s1))" by (metis surj_pair)
  have d: "documents s1 = documents s" using j by (rule quiet_documents [rotated]) (rule quiet_rules)
  have k: "w_metadata s1 = w_metadata s" "w_host s1 = w_host s"
    using movesD(1) [OF elsewhere_journal [unfolded steady_def] TrueI j] by (simp_all add: elsewhere_def)
  show ?thesis
  proof (cases r1)
    case (Done u)
    then have "bindE (stop_and_raise awgctl_error sv restore_unproven) (\<lambda>_ :: unit.
        handle any_error
         (bindE (complete_transition_document sv t ''rolled_back'' reason (utc_text now) (origin = Some True)) (\<lambda>_.
          cleanup_units sv origin (tr_id t)))
         (\<lambda>e. stop_and_raise awgctl_error sv ''classic state was restored but rollback cleanup failed; interface stopped''))
        (b1, s1\<lparr>w_metadata := m, w_host := h\<rparr>) = (r, (b', s'))"
      using run j fails k by (simp add: roll_transition_back_def bindE_def handle_def any_error_def restoring_def run_simps)
    from gave_up_run [OF this] d show ?thesis by simp
  next
    case (Raised x)
    then have "bindE (stop_and_raise awgctl_error sv checkpoint_failed) (\<lambda>_ :: unit.
        bindE (handle any_error (restoring (sv_restore sv t now)) (\<lambda>e. stop_and_raise awgctl_error sv restore_unproven)) (\<lambda>_.
        handle any_error
         (bindE (complete_transition_document sv t ''rolled_back'' reason (utc_text now) (origin = Some True)) (\<lambda>_.
          cleanup_units sv origin (tr_id t)))
         (\<lambda>e. stop_and_raise awgctl_error sv ''classic state was restored but rollback cleanup failed; interface stopped'')))
        (b1, s1) = (r, (b', s'))"
      using run j by (simp add: roll_transition_back_def bindE_def handle_def any_error_def)
    from gave_up_run [OF this] d k show ?thesis by simp
  next
    case Killed
    then show ?thesis using run j d by (auto simp: roll_transition_back_def bindE_def handle_def)
  qed
qed

lemma failed_timeout:
  assumes run: "cmd_obfuscation_timeout sv (Some recovery) (tr_id t) now (b, w) = (r, (b', w'))"
    and doc: "load_transition_document w = Inr (Some t)" and active: "recovery \<or> tr_activation t \<noteq> None"
    and none: "load_transition_outcome w = Inr prior" "\<forall>c\<in>set_option prior. oc_id c \<noteq> tr_id t"
    and fails: "sv_restore sv t now (w_metadata w, snd (sv_lock sv (Some 5) (w_host w))) = (Inl e, (m, h))"
  shows "documents w' = documents w \<and>
    (case sv_lock sv (Some 5) (w_host w) of
       (Inl e, h0) \<Rightarrow> r = Raised e \<and> w_host w' = h0
     | (Inr _, h0) \<Rightarrow> r = Killed \<or> gave_up sv h0 checkpoint_failed r (w_host w')
         \<or> gave_up sv h restore_unproven r (w_host w'))"
proof -
  have id: "validate_transaction_id (JStr (tr_id t)) = Inr (tr_id t)"
    using loaded_transition_ok [OF doc] by (intro transaction_id.good_accepted) (simp add: transition_ok_def)
  obtain x h0 where lock: "sv_lock sv (Some 5) (w_host w) = (x, h0)" by (metis surj_pair)
  show ?thesis
  proof (cases x)
    case (Inl e')
    then show ?thesis using run id lock
      by (auto simp: cmd_obfuscation_timeout_def rollback_obfuscation_transition_def mutation_lock_def external_def
          bindE_def run_simps)
  next
    case (Inr u)
    let ?w = "w\<lparr>w_host := h0\<rparr>"
    have l: "load_transition_document ?w = Inr (Some t)" "load_transition_outcome ?w = Inr prior"
      using doc none by (simp_all add: load_transition_document_def load_transition_outcome_def)
    have "bindE (roll_transition_back sv (Some recovery) ''timeout'' t now) (\<lambda>_. ret (''rolled_back'', False)) (b, ?w)
        = (r, (b', w'))"
      using run id lock Inr l active none(2)
      by (auto simp: cmd_obfuscation_timeout_def rollback_obfuscation_transition_def mutation_lock_def external_def
          run_binds or_raise_simps bindE_assoc bindE_def run_simps)
    moreover obtain r1 b1 w1 where e: "roll_transition_back sv (Some recovery) ''timeout'' t now (b, ?w) = (r1, (b1, w1))"
      by (metis surj_pair)
    moreover note failed_roll_back [OF e, unfolded world.simps, of _ m h] fails lock
    ultimately show ?thesis using Inr
      by (cases r1) (auto simp: bindE_def ret_def gave_up_def split: sum.splits if_splits)
  qed
qed

text \<open>
  C4: When a rollback timer fires and the classic state cannot be restored, nothing is decided and
  the interface is stopped. The transition and its outcome on disk are untouched whatever happens, so
  that the transaction can be rolled back again. The command fails at once when it cannot take the
  mutation lock within its five seconds; otherwise, unless it is killed, the last thing it does is to
  ask the host to stop the interface named by the server configuration it finds at that moment, or
  \<open>awg0\<close> when that cannot be read, and it fails with an error that says so. The one exception is a
  configuration file whose reading raises an error other than the program's own (one that is not
  UTF-8): then that error is raised and the interface is not stopped.
\<close>

theorem failed_timeout_stops:
  assumes "cmd_obfuscation_timeout sv (Some recovery) (tr_id t) now (b, w) = (r, (b', w'))"
    and "load_transition_document w = Inr (Some t)" and "recovery \<or> tr_activation t \<noteq> None"
    and "load_transition_outcome w = Inr prior" and "\<forall>c\<in>set_option prior. oc_id c \<noteq> tr_id t"
    and "sv_restore sv t now (w_metadata w, snd (sv_lock sv (Some 5) (w_host w))) = (Inl e, (m, h))"
  shows "documents w' = documents w \<and>
    (case sv_lock sv (Some 5) (w_host w) of
       (Inl e, h0) \<Rightarrow> r = Raised e \<and> w_host w' = h0
     | (Inr _, h0) \<Rightarrow> r = Killed
         \<or> gave_up sv h0 ''automatic rollback checkpoint could not be proven; interface stopped'' r (w_host w')
         \<or> gave_up sv h ''classic rollback could not be proven; interface stopped'' r (w_host w'))"
  by (rule failed_timeout [OF assms])

definition broken_services :: "bool services" where
  "broken_services =
     \<lparr>sv_cancel = (\<lambda>r i h. (Inr (), h)), sv_remove_own = (\<lambda>r i h. (Inr (), h)), sv_arm = (\<lambda>r i d h. (Inr (), h)),
      sv_restore = (\<lambda>t now p. (Inl OSError, p)), sv_config_file = (\<lambda>h. Inl FileNotFoundError),
      sv_stop = (\<lambda>interface h. (Inr (), interface = ''awg0'')), sv_lock = (\<lambda>limit h. (Inr (), h))\<rparr>"

definition broken_world :: "bool world" where
  "broken_world =
     \<lparr>w_transition = stored (transition_json active_sample), w_outcome = None, w_journal = None,
      w_metadata = (\<lambda>n. None), w_pending = [], w_timers = [(False, sample_id)], w_host = False\<rparr>"

lemma broken_loads: "load_transition_document broken_world = Inr (Some active_sample)"
  "load_transition_outcome broken_world = Inr None"
  using transition_file.read_stored [OF active_sample_parts(1)]
  by (simp_all add: load_transition_document_def load_transition_outcome_def broken_world_def read_document_def)

theorem failed_timeout_stops_witness:
  "\<exists>r b w'. cmd_obfuscation_timeout broken_services (Some False) sample_id 0 (Some (1, Crash), broken_world) = (r, (b, w'))
    \<and> load_transition_document w' = Inr (Some active_sample) \<and> (r = Killed \<or> w_host w')"
proof -
  obtain r b w' where run: "cmd_obfuscation_timeout broken_services (Some False) (tr_id active_sample) 0
      (Some (1, Crash), broken_world) = (r, (b, w'))" by (metis surj_pair)
  have f: "sv_restore broken_services active_sample 0
      (w_metadata broken_world, snd (sv_lock broken_services (Some 5) (w_host broken_world)))
    = (Inl OSError, (w_metadata broken_world, False))"
    by (simp add: broken_services_def broken_world_def)
  have g: "gave_up broken_services h message r h' \<Longrightarrow> h'" for h message h' and r :: "(string \<times> bool) run"
    by (simp add: gave_up_def broken_services_def read_server_config_def result_simps)
  have lock: "sv_lock broken_services (Some 5) (w_host broken_world) = (Inr (), False)"
    by (simp add: broken_services_def broken_world_def)
  from failed_timeout_stops [OF run broken_loads(1) _ broken_loads(2) _ f] broken_loads run active_sample_parts
  show ?thesis by (auto simp: documents_def lock dest: g)
qed

text \<open>The exception is real: with such a configuration file the interface stays up.\<close>

lemma timeout_leaves_interface_up:
  assumes "cmd_obfuscation_timeout (broken_services\<lparr>sv_config_file := \<lambda>h. Inl UnicodeError\<rparr>) (Some recovery)
      sample_id 0 (b, broken_world) = (r, (b', w'))"
  shows "r = Killed \<or> r = Raised UnicodeError \<and> \<not> w_host w'"
proof -
  let ?sv = "broken_services\<lparr>sv_config_file := \<lambda>h. Inl UnicodeError\<rparr>"
  have f: "sv_restore ?sv active_sample 0 (w_metadata broken_world, snd (sv_lock ?sv (Some 5) (w_host broken_world)))
    = (Inl OSError, (w_metadata broken_world, False))"
    by (simp add: broken_services_def broken_world_def)
  have g: "gave_up ?sv False message r h' \<Longrightarrow> r = Raised UnicodeError \<and> \<not> h'" for message h'
    by (simp add: gave_up_def read_server_config_def result_simps)
  have lock: "sv_lock broken_services (Some 5) (w_host broken_world) = (Inr (), False)"
    by (simp add: broken_services_def broken_world_def)
  have run: "cmd_obfuscation_timeout ?sv (Some recovery) (tr_id active_sample) 0 (b, broken_world) = (r, (b', w'))"
    using assms active_sample_parts by simp
  from failed_timeout [OF run broken_loads(1) _ broken_loads(2) _ f] active_sample_parts(2)
  show ?thesis by (auto simp: lock dest: g)
qed

end
