(* ===== verification/ServiceOp.thy ===== *)
theory ServiceOp
  imports Progress Cleanup Clients
begin

text \<open>
  Service operations: starting, stopping and restarting the interface through systemd, whose hooks
  come back as separate processes to apply or remove the firewall. A protected intent file records
  the operation, the hooks it expects and how far they got; it is compared and swapped under the
  mutation lock, compensated when the operation fails and reconciled after a crash. What the code
  observes or asks of the host (systemd, the kernel, the firewall, the process table, the clock) is
  a service that may change the host and may fail.
\<close>

section \<open>The identity of a process\<close>

definition identity_invalid :: error where
  "identity_invalid = AwgctlError ''service operation process identity is invalid''"

definition rfind :: "char \<Rightarrow> string \<Rightarrow> int" where
  "rfind d s = (if d \<in> set s then int (length s - 1 - length (takeWhile (\<lambda>c. c \<noteq> d) (rev s))) else - 1)"

definition stat_start_ticks :: "int \<Rightarrow> string \<Rightarrow> int result" where
  "stat_start_ticks pid text =
     (let closing = rfind CHR '')'' text in
      andthen (check (length text \<le> 4096 \<and> starts_with (str_int pid @ '' ('') text) identity_invalid) (\<lambda>_.
      andthen (check (int (length (str_int pid)) + 2 \<le> closing) identity_invalid) (\<lambda>_.
      let fields = words_of (strip (drop (nat closing + 1) text)) in
      andthen (check (20 \<le> length fields \<and> length (fields ! 0) = 1) identity_invalid) (\<lambda>_.
      andthen (or_raise (py_int (fields ! 19)) identity_invalid) (\<lambda>ticks.
      andthen (check (1 \<le> ticks \<and> ticks \<le> 2 ^ 63 - 1) identity_invalid) (\<lambda>_.
      Inr ticks))))))"

text \<open>The file \<open>/proc/<pid>/stat\<close>: its text, or the exception reading it raises.\<close>

definition process_start_ticks :: "int \<Rightarrow> string result \<Rightarrow> int option result" where
  "process_start_ticks pid file =
     (if file = Inl FileNotFoundError then Inr None
      else andthen (except_as (\<lambda>e. os_error e \<or> e = UnicodeError)
             (AwgctlError ''service operation process identity is unavailable'') file) (\<lambda>text.
           andthen (stat_start_ticks pid text) (\<lambda>ticks. Inr (Some ticks))))"

definition process_identity_is_alive :: "(int \<Rightarrow> string result) \<Rightarrow> int \<Rightarrow> int \<Rightarrow> bool result" where
  "process_identity_is_alive proc pid start_ticks =
     andthen (check (1 \<le> pid \<and> pid \<le> 2 ^ 31 - 1 \<and> 1 \<le> start_ticks \<and> start_ticks \<le> 2 ^ 63 - 1) identity_invalid) (\<lambda>_.
     andthen (process_start_ticks pid (proc pid)) (\<lambda>observed.
     Inr (observed = Some start_ticks)))"

section \<open>The state and the host\<close>

record 'h service_world =
  so_intent :: protected_file
  so_locked :: bool
  so_world :: "'h world"

text \<open>
  \<open>sh_systemctl\<close> runs a systemctl command while the lock is released: any computation on the state,
  its hooks included. \<open>sh_index\<close> is \<open>None\<close> when the kernel has no such interface.
\<close>

record 'h service_host =
  sh_pid :: "'h \<Rightarrow> int result \<times> 'h"
  sh_proc :: "int \<Rightarrow> 'h \<Rightarrow> string result"
  sh_is_active :: "string \<Rightarrow> 'h \<Rightarrow> int result \<times> 'h"
  sh_index :: "string \<Rightarrow> 'h \<Rightarrow> int option result \<times> 'h"
  sh_postcondition :: "string \<Rightarrow> 'h \<Rightarrow> bool result \<times> 'h"
  sh_apply :: "'h \<Rightarrow> unit result \<times> 'h"
  sh_cleanup :: "'h \<Rightarrow> unit result \<times> 'h"
  sh_generation :: "'h \<Rightarrow> string result \<times> 'h"
  sh_interface :: "'h \<Rightarrow> string result \<times> 'h"
  sh_clock :: "'h \<Rightarrow> int result \<times> 'h"
  sh_token :: "'h \<Rightarrow> string result \<times> 'h"
  sh_unlock :: "'h \<Rightarrow> unit result \<times> 'h"
  sh_relock :: "'h \<Rightarrow> unit result \<times> 'h"
  sh_systemctl :: "string \<Rightarrow> string \<Rightarrow> ('h service_world, unit) eff"

definition on_world :: "('h world, 'a) eff \<Rightarrow> ('h service_world, 'a) eff" where
  "on_world m c = (case c of (b, s) \<Rightarrow> (case m (b, so_world s) of (r, (b', w)) \<Rightarrow> (r, (b', s\<lparr>so_world := w\<rparr>))))"

definition observe :: "('h \<Rightarrow> 'a result \<times> 'h) \<Rightarrow> ('h service_world, 'a) eff" where
  "observe f = on_world (external f)"

definition set_locked :: "bool \<Rightarrow> ('h service_world, unit) eff" where
  "set_locked b c = (Done (), (fst c, (snd c)\<lparr>so_locked := b\<rparr>))"

definition held :: "string \<Rightarrow> ('h service_world, unit) eff" where
  "held message = bindE (query so_locked) (\<lambda>locked. ensure locked message)"

text \<open>\<open>try: m finally: k\<close>\<close>

definition always :: "('s, 'a) eff \<Rightarrow> ('s, unit) eff \<Rightarrow> ('s, 'a) eff" where
  "always m k c =
     (case m c of
        (Done x, c') \<Rightarrow> bindE k (\<lambda>_. ret x) c'
      | (Raised e, c') \<Rightarrow> bindE k (\<lambda>_. raise e) c'
      | (Killed, c') \<Rightarrow> (Killed, c'))"

definition temporarily_release_mutation_lock ::
  "'h service_host \<Rightarrow> ('h service_world, unit) eff \<Rightarrow> ('h service_world, unit) eff" where
  "temporarily_release_mutation_lock sh m =
     bindE (held ''service operation requires one held mutation lock'') (\<lambda>_.
     bindE (handle os_error (observe (sh_unlock sh))
       (\<lambda>e. raise (AwgctlError ''mutation lock could not be released for service operation''))) (\<lambda>_.
     bindE (set_locked False) (\<lambda>_.
     always m
       (bindE (handle os_error (observe (sh_relock sh))
          (\<lambda>e. raise (AwgctlError ''mutation lock could not be reacquired after service operation''))) (\<lambda>_.
        set_locked True)))))"

section \<open>The intent file\<close>

definition load_service_operation_intent :: "'h service_world \<Rightarrow> intent option result" where
  "load_service_operation_intent s = read_document normalize_service_operation_intent (so_intent s)"

definition load_required_intent :: "'h service_world \<Rightarrow> intent result" where
  "load_required_intent s =
     andthen (load_service_operation_intent s) (\<lambda>i.
     or_raise i (AwgctlError ''service operation intent is missing''))"

definition put_intent :: "protected_file \<Rightarrow> 'h service_world \<Rightarrow> 'h service_world" where
  "put_intent d s = s\<lparr>so_intent := d\<rparr>"

text \<open>The expected intent: none, or the one with an operation and a phase.\<close>

definition compare_and_swap_service_operation_intent ::
  "json \<Rightarrow> (string \<times> string) option \<Rightarrow> ('h service_world, unit) eff" where
  "compare_and_swap_service_operation_intent v expected =
     bindE (held ''service operation intent update requires the mutation lock'') (\<lambda>_.
     bindE (lift (normalize_service_operation_intent v)) (\<lambda>normalized.
     bindE (reading load_service_operation_intent) (\<lambda>current.
     bindE (case expected of
         None \<Rightarrow> ensure (current = None) ''service operation intent changed''
       | Some (operation, phase) \<Rightarrow>
           (case current of
              None \<Rightarrow> raise (AwgctlError ''service operation intent changed'')
            | Some c \<Rightarrow>
                bindE (lift (validate_transaction_id (JStr operation))) (\<lambda>operation.
                ensure (si_operation c = operation \<and> si_phase c = phase) ''service operation intent changed''))) (\<lambda>_.
     bindE (handle os_error (durable (put_intent (stored (intent_json normalized))))
       (\<lambda>e. raise (AwgctlError ''service operation intent persistence failed''))) (\<lambda>_.
     bindE (reading load_required_intent) (\<lambda>found.
     ensure (found = normalized) ''service operation intent could not be verified''))))))"

definition delete_service_operation_intent :: "string \<Rightarrow> ('h service_world, unit) eff" where
  "delete_service_operation_intent operation =
     bindE (held ''service operation intent deletion requires the mutation lock'') (\<lambda>_.
     bindE (lift (validate_transaction_id (JStr operation))) (\<lambda>operation.
     bindE (reading load_required_intent) (\<lambda>current.
     bindE (ensure (si_operation current = operation) ''service operation intent does not match'') (\<lambda>_.
     handle os_error (durable (put_intent None))
       (\<lambda>e. raise (AwgctlError ''service operation intent cleanup failed''))))))"

text \<open>An updated intent; the owner is kept, removed or replaced.\<close>

definition service_intent_with ::
  "'h service_host \<Rightarrow> intent \<Rightarrow> string \<Rightarrow> string option \<Rightarrow> (int \<times> int) option option \<Rightarrow> ('h service_world, intent) eff" where
  "service_intent_with sh i phase goal owner =
     (let i = i\<lparr>si_phase := phase\<rparr>;
          i = (case goal of
                 None \<Rightarrow> i
               | Some g \<Rightarrow>
                   let expected = expected_actions g (si_action i)
                   in i\<lparr>si_goal := g, si_expected := expected, si_next := min (si_next i) (int (length expected))\<rparr>);
          i = (case owner of None \<Rightarrow> i | Some p \<Rightarrow> i\<lparr>si_owner := p\<rparr>)
      in bindE (observe (sh_clock sh)) (\<lambda>now.
         lift (normalize_service_operation_intent (intent_json (i\<lparr>si_updated_at := utc_text (whole_second now)\<rparr>)))))"

definition current_transition_id :: "('h service_world, string option) eff" where
  "current_transition_id =
     bindE (on_world (reading load_transition_document)) (\<lambda>t. ret (map_option tr_id t))"

definition current_process_identity :: "'h service_host \<Rightarrow> ('h service_world, int \<times> int) eff" where
  "current_process_identity sh =
     bindE (observe (sh_pid sh)) (\<lambda>pid.
     bindE (query (\<lambda>s. process_start_ticks pid (sh_proc sh pid (w_host (so_world s))))) (\<lambda>r.
     bindE (lift r) (\<lambda>ticks.
     bindE (lift (or_raise ticks (AwgctlError ''service operation process identity is unavailable''))) (\<lambda>ticks.
     ret (pid, ticks)))))"

section \<open>The state of the service\<close>

definition service_is_active_exact :: "'h service_host \<Rightarrow> string \<Rightarrow> ('h service_world, bool) eff" where
  "service_is_active_exact sh interface =
     bindE (ensure (interface_re interface) ''invalid service interface'') (\<lambda>_.
     bindE (observe (sh_is_active sh interface)) (\<lambda>status.
     if status = 0 then ret True
     else if status \<in> {3, 4} then ret False
     else raise (AwgctlError ''cannot verify service lifecycle state'')))"

definition kernel_interface_is_absent_exact :: "'h service_host \<Rightarrow> string \<Rightarrow> ('h service_world, bool) eff" where
  "kernel_interface_is_absent_exact sh interface =
     bindE (ensure (interface_re interface) ''invalid service interface'') (\<lambda>_.
     bindE (handle os_error (observe (sh_index sh interface))
       (\<lambda>e. raise (AwgctlError ''cannot verify service lifecycle state''))) (\<lambda>index.
     case index of
       None \<Rightarrow> ret True
     | Some n \<Rightarrow> bindE (ensure (0 < n) ''cannot verify service lifecycle state'') (\<lambda>_. ret False)))"

definition ensure_service_stopped_for_firewall_down :: "'h service_host \<Rightarrow> string \<Rightarrow> ('h service_world, unit) eff" where
  "ensure_service_stopped_for_firewall_down sh interface =
     bindE (service_is_active_exact sh interface) (\<lambda>active.
     bindE (ensure (\<not> active) ''firewall down is unsafe while the service is active'') (\<lambda>_.
     bindE (kernel_interface_is_absent_exact sh interface) (\<lambda>absent.
     ensure absent ''firewall down is unsafe while the kernel interface is still present'')))"

definition current_firewall_up :: "'h service_host \<Rightarrow> ('h service_world, bool) eff" where
  "current_firewall_up sh =
     bindE (observe (sh_postcondition sh ''up'')) (\<lambda>up.
     if up then ret True
     else bindE (observe (sh_postcondition sh ''down'')) (\<lambda>down.
          if down then ret False else raise (AwgctlError ''firewall lifecycle state is inconsistent'')))"

definition service_requested_postcondition :: "'h service_host \<Rightarrow> intent \<Rightarrow> ('h service_world, bool) eff" where
  "service_requested_postcondition sh i =
     (let desired = si_action i \<in> {''start'', ''restart''} in
      bindE (service_is_active_exact sh (si_interface i)) (\<lambda>active.
      if active \<noteq> desired then ret False
      else bindE (observe (sh_postcondition sh (if desired then ''up'' else ''down''))) (\<lambda>proven.
        if \<not> proven then ret False
        else ret (si_next i = int (length (si_expected i))
          \<or> si_action i = ''start'' \<and> si_pre_active i \<and> si_pre_firewall i \<and> desired
          \<or> si_action i = ''stop'' \<and> \<not> si_pre_active i \<and> \<not> si_pre_firewall i \<and> \<not> desired))))"

definition service_prestate_postcondition :: "'h service_host \<Rightarrow> intent \<Rightarrow> ('h service_world, bool) eff" where
  "service_prestate_postcondition sh i =
     bindE (service_is_active_exact sh (si_interface i)) (\<lambda>active.
     if active \<noteq> si_pre_active i then ret False
     else observe (sh_postcondition sh (if si_pre_firewall i then ''up'' else ''down'')))"

definition service_stopped_postcondition :: "'h service_host \<Rightarrow> intent \<Rightarrow> ('h service_world, bool) eff" where
  "service_stopped_postcondition sh i =
     bindE (service_is_active_exact sh (si_interface i)) (\<lambda>active.
     if active then ret False
     else bindE (kernel_interface_is_absent_exact sh (si_interface i)) (\<lambda>absent.
       if \<not> absent then ret False else observe (sh_postcondition sh ''down'')))"

section \<open>The hooks of the service\<close>

definition apply_hook :: "'h service_host \<Rightarrow> string \<Rightarrow> ('h service_world, unit) eff" where
  "apply_hook sh action = (if action = ''up'' then observe (sh_apply sh) else observe (sh_cleanup sh))"

definition prove_hook :: "'h service_host \<Rightarrow> string \<Rightarrow> ('h service_world, unit) eff" where
  "prove_hook sh action =
     bindE (observe (sh_postcondition sh action)) (\<lambda>proven.
     ensure proven ''firewall lifecycle postcondition was not proven'')"

text \<open>A hook outside of any service operation.\<close>

definition direct_hook :: "'h service_host \<Rightarrow> string \<Rightarrow> ('h service_world, unit) eff" where
  "direct_hook sh action =
     bindE (if action = ''down''
       then bindE (observe (sh_interface sh)) (ensure_service_stopped_for_firewall_down sh)
       else ret ()) (\<lambda>_.
     bindE (apply_hook sh action) (\<lambda>_.
     prove_hook sh action))"

text \<open>Whether the action is the expected one (\<open>Some True\<close>) or repeats the last one (\<open>Some False\<close>).\<close>

definition hook_position :: "intent \<Rightarrow> string \<Rightarrow> bool option" where
  "hook_position i action =
     (if si_next i < int (length (si_expected i)) \<and> action = si_expected i ! nat (si_next i) then Some True
      else if 0 < si_next i \<and> action = si_expected i ! nat (si_next i - 1) then Some False
      else None)"

definition run_firewall_action_locked :: "'h service_host \<Rightarrow> string \<Rightarrow> ('h service_world, unit) eff" where
  "run_firewall_action_locked sh action =
     bindE (held ''firewall lifecycle action requires the mutation lock'') (\<lambda>_.
     bindE (ensure (action \<in> {''up'', ''down''}) ''invalid firewall hook action'') (\<lambda>_.
     bindE (reading load_service_operation_intent) (\<lambda>intent.
     case intent of
       None \<Rightarrow> direct_hook sh action
     | Some i \<Rightarrow>
         bindE current_transition_id (\<lambda>transition.
         bindE (ensure (si_transition i = transition) ''service operation transition changed'') (\<lambda>_.
         bindE (observe (sh_generation sh)) (\<lambda>generation.
         bindE (ensure (si_generation i = generation) ''service operation generation changed'') (\<lambda>_.
         bindE (ensure (si_phase i \<in> {''invoking'', ''compensating''})
           ''service operation is not accepting firewall hooks'') (\<lambda>_.
         bindE (lift (or_raise (hook_position i action)
           (AwgctlError ''expected firewall action does not match service operation''))) (\<lambda>is_current.
         bindE (if action = ''down'' then ensure_service_stopped_for_firewall_down sh (si_interface i) else ret ()) (\<lambda>_.
         bindE (if is_current then apply_hook sh action else ret ()) (\<lambda>_.
         bindE (prove_hook sh action) (\<lambda>_.
         if is_current
         then bindE (observe (sh_clock sh)) (\<lambda>now.
              compare_and_swap_service_operation_intent
                (intent_json (i\<lparr>si_next := si_next i + 1, si_updated_at := utc_text (whole_second now)\<rparr>))
                (Some (si_operation i, si_phase i)))
         else ret ()))))))))))))"

section \<open>Compensation and recovery\<close>

text \<open>A verified operation is recorded as such, then its intent is removed.\<close>

definition close_verified :: "'h service_host \<Rightarrow> intent \<Rightarrow> string \<Rightarrow> ('h service_world, unit) eff" where
  "close_verified sh i phase =
     bindE (service_intent_with sh i ''verified'' None (Some None)) (\<lambda>verified.
     bindE (compare_and_swap_service_operation_intent (intent_json verified) (Some (si_operation i, phase))) (\<lambda>_.
     delete_service_operation_intent (si_operation i)))"

definition begin_compensation :: "'h service_host \<Rightarrow> intent \<Rightarrow> ('h service_world, intent) eff" where
  "begin_compensation sh i =
     bindE current_transition_id (\<lambda>transition.
     bindE (service_intent_with sh i ''compensating'' (Some ''stopped'') None) (\<lambda>compensating.
     bindE (observe (sh_generation sh)) (\<lambda>generation.
     let compensating = compensating\<lparr>si_next := 0, si_transition := transition, si_generation := generation\<rparr>
     in bindE (compare_and_swap_service_operation_intent (intent_json compensating) (Some (si_operation i, si_phase i))) (\<lambda>_.
        ret compensating))))"

definition compensate_service_operation_locked :: "'h service_host \<Rightarrow> intent \<Rightarrow> ('h service_world, unit) eff" where
  "compensate_service_operation_locked sh i =
     bindE (held ''service compensation requires the mutation lock'') (\<lambda>_.
     handle any_error
       (bindE (begin_compensation sh i) (\<lambda>i'.
        bindE (service_is_active_exact sh (si_interface i')) (\<lambda>active.
        bindE (if active
          then bindE (temporarily_release_mutation_lock sh (sh_systemctl sh ''stop'' (si_interface i'))) (\<lambda>_.
               reading load_required_intent)
          else ret i') (\<lambda>i'.
        bindE (service_is_active_exact sh (si_interface i')) (\<lambda>active.
        bindE (ensure (\<not> active) ''service remained active during fail-safe compensation'') (\<lambda>_.
        bindE (if si_next i' = 0
          then bindE (run_firewall_action_locked sh ''down'') (\<lambda>_. reading load_required_intent)
          else ret i') (\<lambda>i'.
        bindE (service_stopped_postcondition sh i') (\<lambda>stopped.
        bindE (ensure stopped ''stopped service postcondition was not proven'') (\<lambda>_.
        bindE (service_intent_with sh i' ''verified'' None (Some None)) (\<lambda>verified.
        bindE (compare_and_swap_service_operation_intent (intent_json verified)
          (Some (si_operation i, ''compensating''))) (\<lambda>_.
        delete_service_operation_intent (si_operation i))))))))))))
       (\<lambda>e. raise (AwgctlError ''fail-safe service compensation failed'')))"

definition reconcile_service_operation_locked :: "'h service_host \<Rightarrow> ('h service_world, unit) eff" where
  "reconcile_service_operation_locked sh =
     bindE (held ''service recovery requires the mutation lock'') (\<lambda>_.
     bindE (reading load_service_operation_intent) (\<lambda>intent.
     case intent of
       None \<Rightarrow> ret ()
     | Some i \<Rightarrow>
         if si_phase i = ''verified'' then delete_service_operation_intent (si_operation i)
         else
           bindE current_transition_id (\<lambda>transition.
           bindE (if si_transition i = transition
             then bindE (observe (sh_generation sh)) (\<lambda>generation. ret (si_generation i = generation))
             else ret False) (\<lambda>matches.
           bindE (if si_phase i = ''prepared'' \<and> matches then service_prestate_postcondition sh i else ret False) (\<lambda>untouched.
           if untouched then delete_service_operation_intent (si_operation i)
           else
             bindE (if si_phase i = ''invoking'' \<and> matches then service_requested_postcondition sh i else ret False) (\<lambda>done.
             if done then close_verified sh i (si_phase i)
             else
               bindE (current_process_identity sh) (\<lambda>owner.
               bindE (service_intent_with sh i (si_phase i) None (Some (Some owner))) (\<lambda>claimed.
               bindE (compare_and_swap_service_operation_intent (intent_json claimed)
                 (Some (si_operation i, si_phase i))) (\<lambda>_.
               compensate_service_operation_locked sh claimed)))))))))"

section \<open>A service action\<close>

definition prepare_intent :: "'h service_host \<Rightarrow> string \<Rightarrow> string \<Rightarrow> ('h service_world, intent) eff" where
  "prepare_intent sh action interface =
     bindE (current_process_identity sh) (\<lambda>owner.
     bindE current_transition_id (\<lambda>transition.
     bindE (observe (sh_clock sh)) (\<lambda>now.
     bindE (observe (sh_token sh)) (\<lambda>token.
     bindE (lift (validate_transaction_id (JStr token))) (\<lambda>operation.
     bindE (observe (sh_generation sh)) (\<lambda>generation.
     bindE (service_is_active_exact sh interface) (\<lambda>active.
     bindE (current_firewall_up sh) (\<lambda>up.
     let document = \<lparr>si_operation = operation, si_action = action, si_interface = interface, si_phase = ''prepared'',
           si_goal = ''requested'', si_expected = the (requested_actions action), si_next = 0,
           si_transition = transition, si_generation = generation, si_owner = Some owner,
           si_pre_active = active, si_pre_firewall = up,
           si_created_at = utc_text (whole_second now), si_updated_at = utc_text (whole_second now)\<rparr>
     in bindE (compare_and_swap_service_operation_intent (intent_json document) None) (\<lambda>_. ret document)))))))))"

definition compensate_failed :: "'h service_host \<Rightarrow> string \<Rightarrow> error \<Rightarrow> ('h service_world, unit) eff" where
  "compensate_failed sh operation e =
     bindE (query so_locked) (\<lambda>locked.
     if \<not> locked then raise e
     else
       bindE (reading load_service_operation_intent) (\<lambda>current.
       bindE (case current of
           Some c \<Rightarrow>
             if si_operation c = operation \<and> si_phase c \<noteq> ''verified''
             then handle any_error (compensate_service_operation_locked sh c)
               (\<lambda>e. raise (AwgctlError ''fail-safe service compensation failed''))
             else ret ()
         | None \<Rightarrow> ret ()) (\<lambda>_.
       raise e)))"

definition service_action :: "'h service_host \<Rightarrow> string \<Rightarrow> string \<Rightarrow> ('h service_world, unit) eff" where
  "service_action sh action interface =
     bindE (ensure (action \<in> {''start'', ''stop'', ''restart'', ''reload''}) ''invalid service action'') (\<lambda>_.
     bindE (ensure (interface_re interface) ''invalid service interface'') (\<lambda>_.
     bindE (held ''service action requires the protected mutation lock'') (\<lambda>_.
     if action = ''reload'' then
       bindE (sh_systemctl sh action interface) (\<lambda>_.
       bindE (service_is_active_exact sh interface) (\<lambda>active.
       ensure active ''service did not remain active after reload''))
     else
       bindE (prepare_intent sh action interface) (\<lambda>document.
       bindE (service_intent_with sh document ''invoking'' None None) (\<lambda>invoking.
       bindE (compare_and_swap_service_operation_intent (intent_json invoking)
         (Some (si_operation document, ''prepared''))) (\<lambda>_.
       handle any_error
         (bindE (temporarily_release_mutation_lock sh (sh_systemctl sh action interface)) (\<lambda>_.
          bindE (reading load_required_intent) (\<lambda>latest.
          bindE (service_requested_postcondition sh latest) (\<lambda>proven.
          bindE (ensure proven ''service action postcondition was not proven'') (\<lambda>_.
          bindE (service_intent_with sh latest ''verified'' None (Some None)) (\<lambda>verified.
          bindE (compare_and_swap_service_operation_intent (intent_json verified)
            (Some (si_operation document, ''invoking''))) (\<lambda>_.
          delete_service_operation_intent (si_operation document))))))))
         (compensate_failed sh (si_operation document))))))))"

section \<open>Taking the mutation lock\<close>

text \<open>
  What has to hold or to be recovered once the lock is taken: an interrupted service operation whose
  owner is gone, an interrupted transition; a pending transition admits its own commands only.
\<close>

definition enter_mutation_lock ::
  "'h service_host \<Rightarrow> 'h services \<Rightarrow> bool \<Rightarrow> bool \<Rightarrow> bool \<Rightarrow> int \<Rightarrow> ('h service_world, unit) eff" where
  "enter_mutation_lock sh sv transition_lifecycle service_lifecycle skip_recovery now =
     (let no_transition = bindE (on_world (reading load_transition_document)) (\<lambda>t.
            ensure (t = None) ''obfuscation transition is pending; complete its lifecycle first'')
      in bindE (ensure (\<not> (skip_recovery \<and> (\<not> transition_lifecycle \<or> service_lifecycle)))
           ''transition recovery may be deferred only by a lifecycle command'') (\<lambda>_.
         bindE (reading load_service_operation_intent) (\<lambda>current.
         if service_lifecycle then
           (if current = None
            then bindE (on_world (reconcile_transition_recovery_locked sv now)) (\<lambda>_. no_transition)
            else ret ())
         else
           bindE (case current of
               None \<Rightarrow> ret ()
             | Some i \<Rightarrow>
                 bindE (case si_owner i of
                     None \<Rightarrow> ret ()
                   | Some (pid, ticks) \<Rightarrow>
                       bindE (query (\<lambda>s. process_identity_is_alive (\<lambda>p. sh_proc sh p (w_host (so_world s))) pid ticks)) (\<lambda>r.
                       bindE (lift r) (\<lambda>alive.
                       ensure (\<not> alive) ''service operation is pending''))) (\<lambda>_.
                 reconcile_service_operation_locked sh)) (\<lambda>_.
           bindE (if skip_recovery then ret () else on_world (reconcile_transition_recovery_locked sv now)) (\<lambda>_.
           if transition_lifecycle then ret () else no_transition)))))"

lemma intent_json_fields:
  "as_obj (intent_json i) = Some m \<Longrightarrow> get m ''operation_id'' = JStr (si_operation i)
    \<and> get m ''service_action'' = JStr (si_action i) \<and> get m ''interface'' = JStr (si_interface i)
    \<and> get m ''phase'' = JStr (si_phase i) \<and> get m ''goal'' = JStr (si_goal i)
    \<and> get m ''expected_actions'' = JList (map JStr (si_expected i)) \<and> get m ''next_action'' = JInt (si_next i)
    \<and> get m ''transition_id'' = optional JStr (si_transition i) \<and> get m ''generation_sha256'' = JStr (si_generation i)
    \<and> get m ''owner_pid'' = optional (\<lambda>p. JInt (fst p)) (si_owner i)
    \<and> get m ''owner_start_ticks'' = optional (\<lambda>p. JInt (snd p)) (si_owner i)
    \<and> get m ''pre_service_active'' = JBool (si_pre_active i) \<and> get m ''pre_firewall_up'' = JBool (si_pre_firewall i)
    \<and> get m ''created_at'' = JStr (si_created_at i) \<and> get m ''updated_at'' = JStr (si_updated_at i)"
  by (auto simp: intent_json_def)

lemma optional_eq [simp]: "optional f x = JNull \<longleftrightarrow> x = None" if "\<And>y. f y \<noteq> JNull"
  using that by (cases x) (auto simp: optional_def)

lemma optional_id_same:
  "(if optional JStr t = JNull then Inr None
    else andthen (validate_transaction_id (optional JStr t)) (\<lambda>t. Inr (Some t))) = Inr g \<Longrightarrow> g = t"
  by (cases t) (auto simp: optional_def result_simps validate_transaction_id_Inr)

lemma intent_owner_same:
  assumes "intent_owner phase m = Inr p" and "get m ''owner_pid'' = optional (\<lambda>p. JInt (fst p)) q"
    and "get m ''owner_start_ticks'' = optional (\<lambda>p. JInt (snd p)) q"
  shows "p = q"
  using assms by (cases q) (auto simp: optional_def intent_owner_def result_simps split: if_splits)

lemma intent_renormalized:
  assumes "normalize_service_operation_intent (intent_json i) = Inr i'"
  shows "i' = i"
proof -
  obtain m where m: "as_obj (intent_json i) = Some m" by (simp add: intent_json_def)
  have f: "fields_of intent_fields (intent_json i) e = Inr m' \<Longrightarrow> m' = m" for e m'
    using m by (auto simp: fields_of_def result_simps split: if_splits)
  note g = intent_json_fields [OF m]
  show ?thesis
    using assms unfolding normalize_service_operation_intent_def Let_def
    apply (elim andthen_prodE andthenE guardE)
    apply (drule f, hypsubst)
    apply (simp only: sum.inject, hypsubst)
    apply (simp only: g optional_id_same)
    apply (drule optional_id_same, drule intent_owner_same, (simp only: g)+)
    apply (simp only: result_simps validate_transaction_id_Inr json.inject as_bool.simps option.inject)
    apply (elim exE conjE)
    apply (simp only: as_str.simps option.sel, hypsubst)
    apply (rule intent_eta)
    apply (simp add: inj_map_eq_map inj_def)
    done
qed

section \<open>Reading the process table\<close>

lemma rfind_last: "d \<notin> set b \<Longrightarrow> rfind d (a @ d # b) = int (length a)"
  by (simp add: rfind_def takeWhile_append2 takeWhile_append)

definition word :: "string \<Rightarrow> bool" where
  "word w \<longleftrightarrow> w \<noteq> [] \<and> (\<forall>c\<in>set w. \<not> is_space c)"

lemma space_is_space: "is_space CHR '' ''"
  by code_simp

lemma set_join_words: "set (join '' '' ws) \<subseteq> {CHR '' ''} \<union> \<Union>(set ` set ws)"
  by (induction ws rule: induct_list012) auto

lemma words_of_join:
  assumes "ws \<noteq> []" and "\<forall>w\<in>set ws. word w"
  shows "words_of (join '' '' ws) = ws"
proof -
  have m: "map (\<lambda>c. if is_space c then CHR '' '' else c) (join '' '' ws) = join '' '' ws"
    by (rule map_idI) (use set_join_words [of ws] assms(2) in \<open>auto simp: word_def\<close>)
  have "\<forall>w\<in>set ws. CHR '' '' \<notin> set w"
    using assms(2) space_is_space by (auto simp: word_def)
  then have "split_on CHR '' '' (join '' '' ws) = ws" using assms(1) by (intro split_on_join)
  then show ?thesis using assms(2) by (auto simp: words_of_def m filter_id_conv word_def)
qed

lemma join_ends:
  "ws \<noteq> [] \<Longrightarrow> \<forall>w\<in>set ws. word w \<Longrightarrow>
     join '' '' ws \<noteq> [] \<and> \<not> is_space (hd (join '' '' ws)) \<and> \<not> is_space (last (join '' '' ws))"
  by (induction ws rule: induct_list012) (auto simp: word_def hd_append)

text \<open>
  The start time of a process is read from its stat line whatever the process is called. The
  command name may hold any characters, spaces and closing parentheses included: as long as the line
  has at most 4096 characters, is that of the process asked for and has the kernel's form (process
  id, name in parentheses, a one-letter state and at least nineteen more fields without parentheses),
  the value returned is its twenty-second field.
\<close>

theorem process_start_ticks_of_stat:
  assumes "text = str_int pid @ '' ('' @ comm @ '') '' @ join '' '' words" and "length text \<le> 4096"
    and "20 \<le> length words" and "\<And>f. f \<in> set words \<Longrightarrow> f \<noteq> [] \<and> (\<forall>c\<in>set f. \<not> is_space c \<and> c \<noteq> CHR '')'')"
    and "length (words ! 0) = 1" and "words ! 19 = str_int n" and "1 \<le> n" and "n \<le> 2 ^ 63 - 1"
  shows "process_start_ticks pid (Inr text) = Inr (Some n)"
proof -
  let ?a = "str_int pid @ '' ('' @ comm" and ?j = "join '' '' words"
  have t: "text = ?a @ CHR '')'' # CHR '' '' # ?j" using assms(1) by simp
  have ne: "words \<noteq> []" using assms(3) by auto
  have fs: "\<forall>w\<in>set words. word w" using assms(4) by (auto simp: word_def)
  have "CHR '')'' \<notin> set (CHR '' '' # ?j)" using set_join_words [of words] assms(4) by auto
  then have "rfind CHR '')'' text = int (length ?a)" unfolding t by (rule rfind_last)
  then obtain k where k: "k = int (length ?a)" "rfind CHR '')'' text = k" by blast
  have dropped: "drop (length a + 1) (a @ x # b) = b" for a b and x :: char by simp
  have "strip (CHR '' '' # ?j) = strip ?j" by (simp add: strip_def lstrip_def space_is_space)
  also have "\<dots> = ?j" using join_ends [OF ne fs] by (intro strip_id) auto
  finally have w: "words_of (strip (drop (Suc (nat k)) text)) = words"
    unfolding t k(1) nat_int Suc_eq_plus1 using words_of_join [OF ne fs] dropped [of ?a] by (simp only:)
  have c: "int (length (str_int pid)) + 2 \<le> k" by (simp add: k(1))
  have "starts_with (str_int pid @ '' ('') text" unfolding assms(1) append_assoc [symmetric] starts_with_iff by (metis append_assoc)
  then show ?thesis
    using assms(2,3,5-8) py_int_str_int [of n] c by (simp add: process_start_ticks_def stat_start_ticks_def k(2) w)
qed

theorem process_start_ticks_of_stat_witness:
  "process_start_ticks 4711 (Inr (''4711 (awg) quick) S 1 4711 4711 0 -1 4194560 1 0 0 0 0 0 0 0 20 0 1 0 98765 0''))
     = Inr (Some 98765)"
proof -
  let ?words = "[''S'', ''1'', ''4711'', ''4711'', ''0'', ''-1'', ''4194560'', ''1'', ''0'', ''0'', ''0'', ''0'', ''0'', ''0'',
    ''0'', ''20'', ''0'', ''1'', ''0'', ''98765'', ''0'']"
  have n: "str_int 98765 = ''98765''" "str_int 4711 = ''4711''"
    by (simp_all add: str_int_def dec_nat.simps [of n for n] digit_char_def) code_simp+
  have c: "\<forall>c\<in>set ''S0123456789-''. \<not> is_space c \<and> c \<noteq> CHR '')''"
    by (simp add: is_space_def ord_char_def)
  have "\<forall>f\<in>set ?words. f \<noteq> [] \<and> set f \<subseteq> set ''S0123456789-''" by simp
  with c have w: "\<forall>f\<in>set ?words. f \<noteq> [] \<and> (\<forall>c\<in>set f. \<not> is_space c \<and> c \<noteq> CHR '')'')"
    by (meson subset_iff)
  have len: "length ''4711 (awg) quick) S 1 4711 4711 0 -1 4194560 1 0 0 0 0 0 0 0 20 0 1 0 98765 0'' \<le> 4096" by simp
  show ?thesis
  proof (rule process_start_ticks_of_stat [where comm = "''awg) quick''" and words = ?words])
    show "?words ! 19 = str_int 98765" by (simp only: n) simp
    show "f \<noteq> [] \<and> (\<forall>c\<in>set f. \<not> is_space c \<and> c \<noteq> CHR '')'')" if "f \<in> set ?words" for f
      using w that by blast
  qed (use len in \<open>simp_all add: n\<close>)
qed

end
