(* ===== verification/ServiceLife.thy ===== *)
theory ServiceLife
  imports ServiceOp
begin

text \<open>
  The life of a service operation as an abstract machine over its intent file, and the proof that
  the operations of the code refine it: an intent is created prepared, invoked, sees its hooks in
  order, is compensated when it fails, and is removed only when the state it leaves the service in
  has been observed.
\<close>

section \<open>What is observed\<close>

definition seen_active :: "'h service_host \<Rightarrow> string \<Rightarrow> bool \<Rightarrow> bool" where
  "seen_active sh interface active \<longleftrightarrow>
     (\<exists>h h' status. sh_is_active sh interface h = (Inr status, h')
        \<and> (if active then status = 0 else status \<in> {3, 4}))"

definition seen_absent :: "'h service_host \<Rightarrow> string \<Rightarrow> bool" where
  "seen_absent sh interface \<longleftrightarrow> (\<exists>h h'. sh_index sh interface h = (Inr None, h'))"

definition seen_firewall :: "'h service_host \<Rightarrow> string \<Rightarrow> bool" where
  "seen_firewall sh action \<longleftrightarrow> (\<exists>h h'. sh_postcondition sh action h = (Inr True, h'))"

definition service_active_after :: "string \<Rightarrow> bool" where
  "service_active_after action \<longleftrightarrow> action \<in> {''start'', ''restart''}"

text \<open>The requested state, the stopped state, or the state before the operation.\<close>

definition seen_requested :: "'h service_host \<Rightarrow> intent \<Rightarrow> bool" where
  "seen_requested sh i \<longleftrightarrow> seen_active sh (si_interface i) (service_active_after (si_action i))
     \<and> seen_firewall sh (if service_active_after (si_action i) then ''up'' else ''down'')"

definition seen_stopped :: "'h service_host \<Rightarrow> intent \<Rightarrow> bool" where
  "seen_stopped sh i \<longleftrightarrow> seen_active sh (si_interface i) False \<and> seen_absent sh (si_interface i) \<and> seen_firewall sh ''down''"

definition seen_prestate :: "'h service_host \<Rightarrow> intent \<Rightarrow> bool" where
  "seen_prestate sh i \<longleftrightarrow> seen_active sh (si_interface i) (si_pre_active i)
     \<and> seen_firewall sh (if si_pre_firewall i then ''up'' else ''down'')"

section \<open>The machine\<close>

inductive op_step :: "'h service_host \<Rightarrow> intent option result \<Rightarrow> intent option result \<Rightarrow> bool" for sh where
  prepare: "si_phase i = ''prepared'' \<Longrightarrow> si_next i = 0 \<Longrightarrow> op_step sh (Inr None) (Inr (Some i))"
| invoke: "si_phase i = ''prepared''
    \<Longrightarrow> op_step sh (Inr (Some i)) (Inr (Some (i\<lparr>si_phase := ''invoking'', si_updated_at := at\<rparr>)))"
| hook: "si_phase i \<in> {''invoking'', ''compensating''} \<Longrightarrow> si_next i < int (length (si_expected i))
    \<Longrightarrow> op_step sh (Inr (Some i)) (Inr (Some (i\<lparr>si_next := si_next i + 1, si_updated_at := at\<rparr>)))"
| claim: "si_phase i \<noteq> ''verified''
    \<Longrightarrow> op_step sh (Inr (Some i)) (Inr (Some (i\<lparr>si_owner := Some p, si_updated_at := at\<rparr>)))"
| compensate: "si_phase i \<noteq> ''verified''
    \<Longrightarrow> op_step sh (Inr (Some i)) (Inr (Some (i\<lparr>si_phase := ''compensating'', si_goal := ''stopped'',
          si_expected := [''down''], si_next := 0, si_transition := t, si_generation := g, si_updated_at := at\<rparr>)))"
| verify: "si_phase i = ''invoking'' \<and> seen_requested sh i \<or> si_phase i = ''compensating'' \<and> seen_stopped sh i
    \<Longrightarrow> op_step sh (Inr (Some i)) (Inr (Some (i\<lparr>si_phase := ''verified'', si_owner := None, si_updated_at := at\<rparr>)))"
| clear: "si_phase i = ''verified'' \<or> si_phase i = ''prepared'' \<and> seen_prestate sh i
    \<Longrightarrow> op_step sh (Inr (Some i)) (Inr None)"

definition operates :: "'h service_host \<Rightarrow> 'h service_world \<Rightarrow> 'h service_world \<Rightarrow> bool" where
  "operates sh s s' \<longleftrightarrow> (op_step sh)\<^sup>*\<^sup>* (load_service_operation_intent s) (load_service_operation_intent s')"

definition idle :: "'h service_world \<Rightarrow> 'h service_world \<Rightarrow> bool" where
  "idle s s' \<longleftrightarrow> load_service_operation_intent s' = load_service_operation_intent s"

interpretation idle: progress idle
  by unfold_locales (simp_all add: idle_def)

interpretation op: progress "operates sh" for sh
  by unfold_locales (auto simp: operates_def)

lemma op_one: "op_step sh (load_service_operation_intent s) (load_service_operation_intent s') \<Longrightarrow> operates sh s s'"
  by (simp add: operates_def)

section \<open>Steps that leave the intent alone\<close>

text \<open>\<open>stays m\<close>: the intent is not touched.\<close>

definition stays :: "('h service_world, 'a) eff \<Rightarrow> bool" where
  "stays m \<longleftrightarrow> moves idle (\<lambda>_. True) m (\<lambda>_ _. True)"

definition has_intent :: "intent \<Rightarrow> 'h service_world \<Rightarrow> bool" where
  "has_intent i s \<longleftrightarrow> load_service_operation_intent s = Inr (Some i)"

lemma stays_moves:
  assumes "stays m" and "\<And>s s'. P s \<Longrightarrow> load_service_operation_intent s' = load_service_operation_intent s \<Longrightarrow> P s'"
  shows "moves (operates sh) P m (\<lambda>_. P)"
  unfolding moves_def
proof (intro allI impI)
  fix b s r b' s' assume p: "P s" and "m (b, s) = (r, (b', s'))"
  then have "idle s s'" using movesD(1) [OF assms(1) [unfolded stays_def]] by blast
  then show "operates sh s s' \<and> (\<forall>x. r = Done x \<longrightarrow> P s')"
    using assms(2) p by (auto simp: idle_def operates_def)
qed

named_theorems stay_rules

lemma stays_basic [stay_rules]:
  "stays (ret x)" "stays (raise e)" "stays (lift r)" "stays (query g)" "stays (reading l)" "stays (ensure b message)"
  unfolding stays_def
  by (rule idle.moves_ret idle.moves_raise idle.moves_lift idle.moves_query idle.moves_reading idle.moves_ensure; simp)+

lemma stays_structure [stay_rules]:
  "stays m \<Longrightarrow> (\<And>x. stays (f x)) \<Longrightarrow> stays (bindE m f)"
  "stays m \<Longrightarrow> (\<And>e. stays (h e)) \<Longrightarrow> stays (handle p m h)"
  "stays m \<Longrightarrow> stays n \<Longrightarrow> stays (if b then m else n)"
  "stays m \<Longrightarrow> (\<And>y. stays (g y)) \<Longrightarrow> stays (case x of None \<Rightarrow> m | Some y \<Rightarrow> g y)"
  unfolding stays_def
  by (rule idle.moves_bind, assumption, assumption) (rule idle.moves_handle_any, assumption, assumption,
      auto split: option.split)

lemma stays_world [stay_rules]: "stays (on_world m)" "stays (observe f)" "stays (set_locked b)" "stays (held message)"
  unfolding observe_def held_def
  by (auto simp: stays_def moves_def on_world_def set_locked_def idle_def load_service_operation_intent_def run_simps
      split: prod.splits)

lemma stays_observations [stay_rules]:
  "stays (service_intent_with sh i phase goal owner)" "stays current_transition_id" "stays (current_process_identity sh)"
  "stays (service_is_active_exact sh interface)" "stays (kernel_interface_is_absent_exact sh interface)"
  "stays (current_firewall_up sh)" "stays (apply_hook sh action)" "stays (prove_hook sh action)"
  unfolding service_intent_with_def current_transition_id_def current_process_identity_def service_is_active_exact_def
    kernel_interface_is_absent_exact_def current_firewall_up_def apply_hook_def prove_hook_def Let_def
  by (intro stay_rules)+

lemma stays_postconditions [stay_rules]:
  "stays (ensure_service_stopped_for_firewall_down sh interface)" "stays (service_requested_postcondition sh i)"
  "stays (service_prestate_postcondition sh i)" "stays (service_stopped_postcondition sh i)"
  unfolding ensure_service_stopped_for_firewall_down_def service_requested_postcondition_def
    service_prestate_postcondition_def service_stopped_postcondition_def Let_def
  by (intro stay_rules)+

lemma stays_direct_hook [stay_rules]: "stays (direct_hook sh action)"
  unfolding direct_hook_def by (intro stay_rules)

section \<open>What a computation returns\<close>

definition yields :: "('s, 'a) eff \<Rightarrow> ('a \<Rightarrow> bool) \<Rightarrow> bool" where
  "yields m F \<longleftrightarrow> (\<forall>c x c'. m c = (Done x, c') \<longrightarrow> F x)"

lemma yieldsI: "(\<And>c x c'. m c = (Done x, c') \<Longrightarrow> F x) \<Longrightarrow> yields m F"
  by (auto simp: yields_def)

lemma yieldsD: "yields m F \<Longrightarrow> m c = (Done x, c') \<Longrightarrow> F x"
  by (cases c'; cases c) (simp add: yields_def, blast)

lemma yields_basic:
  "F x \<Longrightarrow> yields (ret x) F" "yields (raise e) F" "(\<And>x. r = Inr x \<Longrightarrow> F x) \<Longrightarrow> yields (lift r) F"
  "yields (ensure b message) (\<lambda>_. b)"
  by (auto simp: yields_def run_simps split: sum.splits if_splits)

lemma yields_bind: "yields m G \<Longrightarrow> (\<And>x. G x \<Longrightarrow> yields (f x) F) \<Longrightarrow> yields (bindE m f) F"
  by (rule yieldsI) (auto simp: bindE_def split: run.splits prod.splits dest: yieldsD)

lemma yields_then: "(\<And>x. yields (f x) F) \<Longrightarrow> yields (bindE m f) F"
  by (rule yields_bind [where G = "\<lambda>_. True"]) (auto simp: yields_def)

lemma yields_if: "(b \<Longrightarrow> yields m F) \<Longrightarrow> (\<not> b \<Longrightarrow> yields n F) \<Longrightarrow> yields (if b then m else n) F"
  by simp

lemma yields_handle: "yields m F \<Longrightarrow> (\<And>e. yields (h e) F) \<Longrightarrow> yields (handle p m h) F"
  by (rule yieldsI) (auto simp: handle_def split: run.splits prod.splits if_splits dest: yieldsD)

lemma yields_observe: "yields (observe f) (\<lambda>x. \<exists>h h'. f h = (Inr x, h'))"
  by (auto simp: yields_def observe_def on_world_def external_def run_simps split: prod.splits sum.splits)

lemma stays_yields:
  assumes "stays m" and "yields m F" and "\<And>s s'. P s \<Longrightarrow> load_service_operation_intent s' = load_service_operation_intent s \<Longrightarrow> P s'"
  shows "moves (operates sh) P m (\<lambda>x s. P s \<and> F x)"
proof (rule movesI)
  fix b s r b' s' assume p: "P s" and run: "m (b, s) = (r, (b', s'))"
  have m: "moves (operates sh) P m (\<lambda>_. P)" by (rule stays_moves [OF assms(1)]) (rule assms(3))
  from movesD [OF m p run] yieldsD [OF assms(2)] run
  show "operates sh s s' \<and> (\<forall>x. r = Done x \<longrightarrow> P s' \<and> F x)" by blast
qed

lemma yields_active: "yields (service_is_active_exact sh interface) (seen_active sh interface)"
  unfolding service_is_active_exact_def
  by (rule yields_then, rule yields_bind [OF yields_observe])
    (auto simp: seen_active_def intro!: yields_if yields_basic; blast)

lemma yields_absent: "yields (kernel_interface_is_absent_exact sh interface) (\<lambda>b. b \<longrightarrow> seen_absent sh interface)"
  unfolding kernel_interface_is_absent_exact_def
  by (rule yields_then, rule yields_bind [OF yields_handle [OF yields_observe]])
    (auto simp: seen_absent_def intro!: yields_basic yields_then split: option.split)

lemma yields_firewall: "yields (observe (sh_postcondition sh action)) (\<lambda>b. b \<longrightarrow> seen_firewall sh action)"
  by (rule yieldsI) (auto simp: seen_firewall_def dest!: yieldsD [OF yields_observe]; blast)

lemma yields_requested: "yields (service_requested_postcondition sh i) (\<lambda>b. b \<longrightarrow> seen_requested sh i)"
  unfolding service_requested_postcondition_def Let_def service_active_after_def [symmetric]
  by (rule yields_bind [OF yields_active], rule yields_if, rule yields_basic, simp, rule yields_bind [OF yields_firewall])
    (auto simp: seen_requested_def intro!: yields_basic)

lemma yields_prestate: "yields (service_prestate_postcondition sh i) (\<lambda>b. b \<longrightarrow> seen_prestate sh i)"
  unfolding service_prestate_postcondition_def
  by (rule yields_bind [OF yields_active], rule yields_if, rule yields_basic, simp)
    (use yields_firewall in \<open>fastforce simp: seen_prestate_def yields_def\<close>)

lemma yields_stopped: "yields (service_stopped_postcondition sh i) (\<lambda>b. b \<longrightarrow> seen_stopped sh i)"
  unfolding service_stopped_postcondition_def
  by (rule yields_bind [OF yields_active], rule yields_if, rule yields_basic, simp,
      rule yields_bind [OF yields_absent], rule yields_if, rule yields_basic, simp)
    (use yields_firewall in \<open>fastforce simp: seen_stopped_def yields_def\<close>)

text \<open>An updated intent is the intent with its changes.\<close>

lemma yields_intent_with:
  "yields (service_intent_with sh i phase None None) (\<lambda>x. \<exists>at. x = i\<lparr>si_phase := phase, si_updated_at := at\<rparr>)"
  "yields (service_intent_with sh i phase None (Some p))
     (\<lambda>x. \<exists>at. x = i\<lparr>si_phase := phase, si_owner := p, si_updated_at := at\<rparr>)"
  "yields (service_intent_with sh i phase (Some ''stopped'') None) (\<lambda>x. \<exists>at n. x = i\<lparr>si_phase := phase, si_goal := ''stopped'',
     si_expected := [''down''], si_next := n, si_updated_at := at\<rparr>)"
  unfolding service_intent_with_def Let_def option.case
  by (rule yields_then, rule yields_basic, drule intent_renormalized, (simp add: expected_actions_def)?, blast)+

section \<open>Steps that move the machine\<close>

lemma has_intent_stays: "has_intent i s \<Longrightarrow> load_service_operation_intent s' = load_service_operation_intent s \<Longrightarrow> has_intent i s'"
  by (simp add: has_intent_def)

lemma loaded_intent_ok: "has_intent i s \<Longrightarrow> intent_ok i"
  unfolding has_intent_def load_service_operation_intent_def read_document_def
  by (auto simp: result_simps split: option.splits if_splits dest: intent.accepted_good)

lemma load_put_intent:
  "intent_ok i \<Longrightarrow> has_intent i (put_intent (stored (intent_json i)) s)"
  "load_service_operation_intent (put_intent None s) = Inr None"
  using intent.good_accepted [of i]
  by (simp_all add: has_intent_def load_service_operation_intent_def put_intent_def read_document_def stored_def
      intent_json_def)

lemma load_required_iff: "load_required_intent s = Inr i \<longleftrightarrow> has_intent i s"
  by (auto simp: load_required_intent_def has_intent_def result_simps)

lemma moves_read_required:
  "moves (operates sh) P (reading load_required_intent) (\<lambda>i. has_intent i)"
  by (rule op.moves_reading) (simp add: load_required_iff)

text \<open>A swap is a step when the step is allowed from the expected intent.\<close>

lemma moves_swap:
  assumes step: "intent_ok i \<Longrightarrow> si_operation c = operation \<Longrightarrow> si_phase c = phase
      \<Longrightarrow> op_step sh (Inr (Some c)) (Inr (Some i))"
  shows "moves (operates sh) (has_intent c) (compare_and_swap_service_operation_intent (intent_json i) (Some (operation, phase)))
    (\<lambda>_ s. has_intent i s \<and> si_operation c = operation \<and> si_phase c = phase)"
proof -
  let ?ok = "si_operation c = operation \<and> si_phase c = phase"
  have norm: "moves (operates sh) (has_intent c) (lift (normalize_service_operation_intent (intent_json i)))
      (\<lambda>x s. (has_intent c s \<and> intent_ok i) \<and> x = i)"
    by (rule op.moves_lift) (use intent_renormalized intent.accepted_good in blast)
  have read: "moves (operates sh) (\<lambda>s. has_intent c s \<and> intent_ok i) (reading load_service_operation_intent)
      (\<lambda>x s. (has_intent c s \<and> intent_ok i) \<and> x = Some c)"
    by (rule op.moves_reading) (simp add: has_intent_def)
  have expect: "moves (operates sh) (\<lambda>s. has_intent c s \<and> intent_ok i)
      (bindE (lift (validate_transaction_id (JStr operation))) (\<lambda>operation.
       ensure (si_operation c = operation \<and> si_phase c = phase) ''service operation intent changed''))
      (\<lambda>_ s. (has_intent c s \<and> intent_ok i) \<and> ?ok)"
    by (rule op.moves_bind [where T = "\<lambda>x s. (has_intent c s \<and> intent_ok i) \<and> x = operation"], rule op.moves_lift,
        simp add: validate_transaction_id_Inr, rule op.moves_ensure) auto
  have save: "moves (operates sh) (\<lambda>s. (has_intent c s \<and> intent_ok i) \<and> ?ok)
      (handle os_error (durable (put_intent (stored (intent_json i))))
        (\<lambda>e. raise (AwgctlError ''service operation intent persistence failed'')))
      (\<lambda>_ s. has_intent i s \<and> ?ok)"
  proof (rule op.moves_handle)
    have one: "operates sh s (put_intent (stored (intent_json i)) s)" if "(has_intent c s \<and> intent_ok i) \<and> ?ok" for s
      by (rule op_one) (use that step load_put_intent(1) [of i s] in \<open>simp add: has_intent_def\<close>)
    show "moves (operates sh) (\<lambda>s. (has_intent c s \<and> intent_ok i) \<and> ?ok) (durable (put_intent (stored (intent_json i))))
        (\<lambda>_ s. has_intent i s \<and> ?ok)"
      by (rule op.moves_durable) (use one load_put_intent(1) in auto)
  qed (rule op.moves_raise)
  have check: "moves (operates sh) (\<lambda>s. has_intent i s \<and> ?ok)
      (bindE (reading load_required_intent) (\<lambda>found. ensure (found = i) ''service operation intent could not be verified''))
      (\<lambda>_ s. has_intent i s \<and> ?ok)"
    by (rule stays_moves, intro stay_rules) (auto simp: has_intent_def)
  show ?thesis
    unfolding compare_and_swap_service_operation_intent_def option.case prod.case
    by (rule op.moves_bind [OF stays_moves [OF stays_world(4) has_intent_stays]], assumption, assumption,
        rule moves_then [OF norm _ op.progress_axioms], rule moves_then [OF read _ op.progress_axioms],
        simp only: option.case, rule op.moves_bind [OF expect], rule op.moves_bind [OF save], rule check)
qed

definition op_moves :: "'h service_host \<Rightarrow> ('h service_world, 'a) eff \<Rightarrow> bool" where
  "op_moves sh m \<longleftrightarrow> moves (operates sh) (\<lambda>_. True) m (\<lambda>_ _. True)"

lemma op_weaken: "op_moves sh m \<Longrightarrow> moves (operates sh) P m (\<lambda>_ _. True)"
  unfolding op_moves_def by (erule moves_conseq) simp_all

lemma op_strengthen: "moves (operates sh) (\<lambda>_. True) m Q \<Longrightarrow> op_moves sh m"
  unfolding op_moves_def by (erule moves_conseq) simp_all

lemma stays_op: "stays m \<Longrightarrow> op_moves sh m"
  unfolding op_moves_def by (rule moves_conseq [OF stays_moves [where P = "\<lambda>_. True"]]) simp_all

text \<open>Keeping the intent, and learning what a step returns.\<close>

lemma keep: "stays m \<Longrightarrow> moves (operates sh) (has_intent i) m (\<lambda>_. has_intent i)"
  by (rule stays_moves [OF _ has_intent_stays])

lemma learn: "stays m \<Longrightarrow> yields m F \<Longrightarrow> moves (operates sh) (has_intent i) m (\<lambda>x s. has_intent i s \<and> F x)"
  by (rule stays_yields [OF _ _ has_intent_stays])

lemma op_given: "(\<phi> \<Longrightarrow> moves R P m Q) \<Longrightarrow> moves R (\<lambda>s. P s \<and> \<phi>) m Q"
  by (cases \<phi>) (auto simp: moves_def)

lemma bind_keep:
  "stays m \<Longrightarrow> (\<And>x. moves (operates sh) (has_intent i) (f x) Q) \<Longrightarrow> moves (operates sh) (has_intent i) (bindE m f) Q"
  by (rule op.moves_bind [OF keep])

lemma bind_learn:
  "stays m \<Longrightarrow> yields m F \<Longrightarrow> (\<And>x. F x \<Longrightarrow> moves (operates sh) (has_intent i) (f x) Q)
     \<Longrightarrow> moves (operates sh) (has_intent i) (bindE m f) Q"
  by (rule op.moves_bind [OF learn]) (auto intro: op_given)

lemma moves_delete:
  assumes "si_phase i = ''verified'' \<or> si_phase i = ''prepared'' \<and> seen_prestate sh i"
  shows "moves (operates sh) (has_intent i) (delete_service_operation_intent operation) (\<lambda>_ _. True)"
proof -
  have one: "operates sh s (put_intent None s)" if "has_intent i s" for s
    by (rule op_one) (use that op_step.clear [OF assms] load_put_intent(2) [of s] in \<open>simp add: has_intent_def\<close>)
  have remove: "moves (operates sh) (has_intent i) (handle os_error (durable (put_intent None))
      (\<lambda>e. raise (AwgctlError ''service operation intent cleanup failed''))) (\<lambda>_ _. True)"
    by (rule op.moves_handle, rule op.moves_durable, rule one, assumption, simp, rule op.moves_raise)
  show ?thesis
    unfolding delete_service_operation_intent_def
    by (intro bind_keep remove) (intro stay_rules)+
qed

text \<open>Closing: from an intent whose final state has been observed.\<close>

lemma moves_close:
  assumes "si_phase i = phase \<Longrightarrow> si_phase i = ''invoking'' \<and> seen_requested sh i \<or> si_phase i = ''compensating'' \<and> seen_stopped sh i"
  shows "moves (operates sh) (has_intent i)
    (bindE (service_intent_with sh i ''verified'' None (Some None)) (\<lambda>verified.
     bindE (compare_and_swap_service_operation_intent (intent_json verified) (Some (operation, phase))) (\<lambda>_.
     delete_service_operation_intent operation'))) (\<lambda>_ _. True)"
proof (rule bind_learn [OF _ yields_intent_with(2)], rule stay_rules, elim exE)
  fix x at assume x: "x = i\<lparr>si_phase := ''verified'', si_owner := None, si_updated_at := at\<rparr>"
  show "moves (operates sh) (has_intent i)
      (bindE (compare_and_swap_service_operation_intent (intent_json x) (Some (operation, phase))) (\<lambda>_.
       delete_service_operation_intent operation')) (\<lambda>_ _. True)"
  proof (rule op.moves_bind [OF moves_swap])
    show "op_step sh (Inr (Some i)) (Inr (Some x))" if "si_phase i = phase"
      unfolding x by (rule op_step.verify) (rule assms [OF that])
    show "moves (operates sh) (\<lambda>s. has_intent x s \<and> si_operation i = operation \<and> si_phase i = phase)
        (delete_service_operation_intent operation') (\<lambda>_ _. True)"
      by (rule op_given, rule moves_delete) (simp add: x)
  qed
qed

text \<open>Hooks.\<close>

lemma hook_current: "hook_position i action = Some True \<Longrightarrow> si_next i < int (length (si_expected i))"
  by (auto simp: hook_position_def split: if_splits)

lemma op_hook: "op_moves sh (run_firewall_action_locked sh action)"
proof -
  have swap: "moves (operates sh) (has_intent i)
      (bindE (observe (sh_clock sh)) (\<lambda>now. compare_and_swap_service_operation_intent
        (intent_json (i\<lparr>si_next := si_next i + 1, si_updated_at := utc_text (whole_second now)\<rparr>))
        (Some (si_operation i, si_phase i)))) (\<lambda>_ _. True)"
    if "si_next i < int (length (si_expected i))" "si_phase i \<in> {''invoking'', ''compensating''}" for i
    by (rule bind_keep, rule stay_rules, rule moves_conseq [OF moves_swap], rule op_step.hook) (use that in simp_all)
  have some: "moves (operates sh) (has_intent i)
         (bindE current_transition_id (\<lambda>transition.
         bindE (ensure (si_transition i = transition) ''service operation transition changed'') (\<lambda>_.
         bindE (observe (sh_generation sh)) (\<lambda>generation.
         bindE (ensure (si_generation i = generation) ''service operation generation changed'') (\<lambda>_.
         bindE (ensure (si_phase i \<in> {''invoking'', ''compensating''})
           ''service operation is not accepting firewall hooks'') (\<lambda>_.
         bindE (lift (or_raise (hook_position i action)
           (AwgctlError ''expected firewall action does not match service operation''))) (\<lambda>is_current.
         bindE (if action = ''down'' then ensure_service_stopped_for_firewall_down sh (si_interface i) else ret ()) (\<lambda>_.
         bindE (if is_current then apply_hook sh action else ret ()) (\<lambda>_.
         bindE (prove_hook sh action) (\<lambda>_.
         if is_current
         then bindE (observe (sh_clock sh)) (\<lambda>now.
              compare_and_swap_service_operation_intent
                (intent_json (i\<lparr>si_next := si_next i + 1, si_updated_at := utc_text (whole_second now)\<rparr>))
                (Some (si_operation i, si_phase i)))
         else ret ())))))))))) (\<lambda>_ _. True)" for i
    by (rule bind_keep, rule stay_rules, rule bind_keep, rule stay_rules, rule bind_keep, rule stay_rules,
        rule bind_keep, rule stay_rules, rule bind_learn [OF _ yields_basic(4)], rule stay_rules,
        rule bind_learn [where F = "\<lambda>b. hook_position i action = Some b"], rule stay_rules,
        rule yields_basic, simp add: result_simps, rule bind_keep, intro stay_rules, rule bind_keep, intro stay_rules,
        rule bind_keep, rule stay_rules, rule moves_if, rule swap, rule hook_current, simp, simp,
        rule op.moves_ret, simp)
  show ?thesis
    unfolding op_moves_def run_firewall_action_locked_def
    by (rule op.moves_bind [OF stays_moves], rule stay_rules, assumption, rule op.moves_bind [OF stays_moves],
        rule stay_rules, assumption, rule op.moves_bind [where T = "\<lambda>x s. load_service_operation_intent s = Inr x"],
        rule op.moves_reading, assumption, rule moves_option, rule op_weaken, rule stays_op, intro stay_rules,
        simp only: has_intent_def [symmetric], rule some)
qed

section \<open>Compensation, recovery and the action\<close>

text \<open>What systemctl does to the intent while the lock is released: it runs hooks, or nothing.\<close>

definition hooks_only :: "'h service_host \<Rightarrow> bool" where
  "hooks_only sh \<longleftrightarrow> (\<forall>action interface. op_moves sh (sh_systemctl sh action interface))"

lemma op_always: "op_moves sh m \<Longrightarrow> op_moves sh k \<Longrightarrow> op_moves sh (always m k)"
  unfolding op_moves_def
proof (rule movesI)
  fix b s r b' s'
  assume m: "moves (operates sh) (\<lambda>_. True) m (\<lambda>_ _. True)" and k: "moves (operates sh) (\<lambda>_. True) k (\<lambda>_ _. True)"
    and run: "always m k (b, s) = (r, (b', s'))"
  obtain r1 b1 s1 where e: "m (b, s) = (r1, (b1, s1))" by (metis surj_pair)
  have a: "operates sh s s1" using movesD(1) [OF m _ e] by simp
  obtain r2 b2 s2 where e2: "k (b1, s1) = (r2, (b2, s2))" by (metis surj_pair)
  have c: "operates sh s1 s2" using movesD(1) [OF k _ e2] by simp
  have "s' = s1 \<or> s' = s2"
    using run e e2 by (cases r1; cases r2) (auto simp: always_def bindE_def run_simps)
  then show "operates sh s s' \<and> (\<forall>x. r = Done x \<longrightarrow> True)" using a c op.join by blast
qed

lemma op_structure:
  "op_moves sh m \<Longrightarrow> (\<And>x. op_moves sh (f x)) \<Longrightarrow> op_moves sh (bindE m f)"
  "op_moves sh m \<Longrightarrow> (\<And>e. op_moves sh (h e)) \<Longrightarrow> op_moves sh (handle p m h)"
  unfolding op_moves_def by (rule op.moves_bind, assumption, assumption) (rule op.moves_handle_any)

lemma op_release: "op_moves sh m \<Longrightarrow> op_moves sh (temporarily_release_mutation_lock sh m)"
  unfolding temporarily_release_mutation_lock_def
  by (rule op_structure(1), rule stays_op, rule stay_rules, rule op_structure(1), rule stays_op, intro stay_rules,
      rule op_structure(1), rule stays_op, rule stay_rules, rule op_always, assumption, rule stays_op, intro stay_rules)

text \<open>Another process may have moved the intent: what is there is read again.\<close>

lemma bind_reload:
  "op_moves sh m \<Longrightarrow> moves (operates sh) P (bindE m (\<lambda>_. reading load_required_intent)) has_intent"
  by (rule op.moves_bind [OF op_weaken], assumption, rule moves_read_required)

lemma moves_begin_compensation:
  assumes "si_phase i \<noteq> ''verified''"
  shows "moves (operates sh) (has_intent i) (begin_compensation sh i) has_intent"
  unfolding begin_compensation_def Let_def
proof (rule bind_keep, rule stay_rules, rule bind_learn [OF _ yields_intent_with(3)], rule stay_rules, elim exE,
    rule bind_keep, rule stay_rules, rule op.moves_bind [OF moves_swap])
  fix transition x at n generation
  assume x: "x = i\<lparr>si_phase := ''compensating'', si_goal := ''stopped'', si_expected := [''down''], si_next := n, si_updated_at := at\<rparr>"
  show "op_step sh (Inr (Some i)) (Inr (Some (x\<lparr>si_next := 0, si_transition := transition, si_generation := generation\<rparr>)))"
    unfolding x using op_step.compensate [OF assms, where sh = sh and t = transition and g = generation and at = at] by (cases i) simp
qed (rule op.moves_ret, simp)

lemma op_compensate:
  assumes hooks: "hooks_only sh" and ph: "si_phase i \<noteq> ''verified''"
  shows "moves (operates sh) (has_intent i) (compensate_service_operation_locked sh i) (\<lambda>_ _. True)"
proof -
  have sys: "op_moves sh (sh_systemctl sh a n)" for a n using hooks by (simp add: hooks_only_def)
  have close: "moves (operates sh) (has_intent j)
      (bindE (service_stopped_postcondition sh j) (\<lambda>stopped.
       bindE (ensure stopped ''stopped service postcondition was not proven'') (\<lambda>_.
       bindE (service_intent_with sh j ''verified'' None (Some None)) (\<lambda>verified.
       bindE (compare_and_swap_service_operation_intent (intent_json verified) (Some (si_operation i, ''compensating''))) (\<lambda>_.
       delete_service_operation_intent (si_operation i)))))) (\<lambda>_ _. True)" for j
    by (rule bind_learn [OF _ yields_stopped], rule stay_rules, rule bind_learn [OF _ yields_basic(4)], rule stay_rules,
        rule moves_close) simp
  have hook: "moves (operates sh) (has_intent j)
      (if si_next j = 0 then bindE (run_firewall_action_locked sh ''down'') (\<lambda>_. reading load_required_intent)
       else ret j) has_intent" for j
    by (rule moves_if, rule bind_reload, rule op_hook, rule op.moves_ret)
  have stop: "moves (operates sh) (has_intent j)
      (if active then bindE (temporarily_release_mutation_lock sh (sh_systemctl sh ''stop'' (si_interface j)))
         (\<lambda>_. reading load_required_intent)
       else ret j) has_intent" for j active
    by (rule moves_if, rule bind_reload, rule op_release, rule sys, rule op.moves_ret)
  show ?thesis
    unfolding compensate_service_operation_locked_def
    by (rule bind_keep, rule stay_rules, rule op.moves_handle, rule op.moves_bind [OF moves_begin_compensation [OF ph]],
        rule bind_keep, rule stay_rules, rule op.moves_bind [OF stop], rule bind_keep, rule stay_rules,
        rule bind_keep, rule stay_rules, rule op.moves_bind [OF hook], rule close, rule op.moves_raise)
qed

lemma op_read:
  assumes "\<And>i. moves (operates sh) (has_intent i) (f (Some i)) (\<lambda>_ _. True)" and "op_moves sh (f None)"
  shows "op_moves sh (bindE (reading load_service_operation_intent) f)"
  unfolding op_moves_def
proof (rule op.moves_bind [where T = "\<lambda>x s. load_service_operation_intent s = Inr x"])
  show "moves (operates sh) (\<lambda>s. load_service_operation_intent s = Inr x) (f x) (\<lambda>_ _. True)" for x
    by (cases x) (use assms op_weaken in \<open>auto simp: has_intent_def [symmetric, abs_def]\<close>)
qed (rule op.moves_reading, assumption)

lemma op_reconcile:
  assumes hooks: "hooks_only sh"
  shows "op_moves sh (reconcile_service_operation_locked sh)"
proof -
  have claim: "moves (operates sh) (has_intent i)
      (bindE (current_process_identity sh) (\<lambda>owner.
       bindE (service_intent_with sh i (si_phase i) None (Some (Some owner))) (\<lambda>claimed.
       bindE (compare_and_swap_service_operation_intent (intent_json claimed) (Some (si_operation i, si_phase i))) (\<lambda>_.
       compensate_service_operation_locked sh claimed)))) (\<lambda>_ _. True)" if ph: "si_phase i \<noteq> ''verified''" for i
  proof (rule bind_keep, rule stay_rules, rule bind_learn [OF _ yields_intent_with(2)], rule stay_rules, elim exE)
    fix owner x at assume x: "x = i\<lparr>si_phase := si_phase i, si_owner := Some owner, si_updated_at := at\<rparr>"
    show "moves (operates sh) (has_intent i)
      (bindE (compare_and_swap_service_operation_intent (intent_json x) (Some (si_operation i, si_phase i))) (\<lambda>_.
       compensate_service_operation_locked sh x)) (\<lambda>_ _. True)"
    proof (rule op.moves_bind [OF moves_swap])
      show "op_step sh (Inr (Some i)) (Inr (Some x))"
        unfolding x using op_step.claim [OF ph, where sh = sh and p = owner and at = at] by (cases i) simp
      show "moves (operates sh) (\<lambda>s. has_intent x s \<and> si_operation i = si_operation i \<and> si_phase i = si_phase i)
          (compensate_service_operation_locked sh x) (\<lambda>_ _. True)"
        by (rule moves_conseq [OF op_compensate [OF hooks]]) (use ph x in simp_all)
    qed
  qed
  show ?thesis
    unfolding reconcile_service_operation_locked_def close_verified_def
    by (rule op_structure(1), rule stays_op, rule stay_rules, rule op_read, simp only: option.case, rule moves_if,
        rule moves_delete, simp, rule bind_keep, rule stay_rules, rule bind_keep, intro stay_rules,
        rule bind_learn [where F = "\<lambda>b. b \<longrightarrow> si_phase i = ''prepared'' \<and> seen_prestate sh i" for i], intro stay_rules)
      (auto intro!: moves_if moves_delete claim moves_close bind_learn
        [where F = "\<lambda>b. b \<longrightarrow> si_phase i = ''invoking'' \<and> seen_requested sh i" for i] stay_rules
        yields_if yields_basic simp: stays_op stay_rules intro: yieldsI
        dest: yieldsD [OF yields_prestate] yieldsD [OF yields_requested])
qed

text \<open>Computations that only need to be lawful step by step.\<close>

named_theorems op_rules

lemma op_cases [op_rules]:
  "op_moves sh m \<Longrightarrow> op_moves sh n \<Longrightarrow> op_moves sh (if b then m else n)"
  "op_moves sh m \<Longrightarrow> (\<And>y. op_moves sh (g y)) \<Longrightarrow> op_moves sh (case x of None \<Rightarrow> m | Some y \<Rightarrow> g y)"
  "(\<And>a c. op_moves sh (f a c)) \<Longrightarrow> op_moves sh (case p of (a, c) \<Rightarrow> f a c)"
  by (auto split: option.split prod.split)

lemmas op_basic [op_rules] = op_structure stays_basic [THEN stays_op] stays_world [THEN stays_op]
  stays_observations [THEN stays_op] stays_postconditions [THEN stays_op]

lemma op_prepare: "moves (operates sh) (\<lambda>_. True) (prepare_intent sh action interface)
  (\<lambda>i s. has_intent i s \<and> si_phase i = ''prepared'')"
proof -
  have create: "moves (operates sh) (\<lambda>_. True) (compare_and_swap_service_operation_intent (intent_json i) None) (\<lambda>_. has_intent i)"
    if i: "si_phase i = ''prepared''" "si_next i = 0" for i
  proof -
    have one: "operates sh s (put_intent (stored (intent_json i)) s)"
      if "load_service_operation_intent s = Inr None \<and> intent_ok i" for s
      by (rule op_one) (use that op_step.prepare [OF i] load_put_intent(1) [of i s] in \<open>simp add: has_intent_def\<close>)
    have norm: "moves (operates sh) (\<lambda>_. True) (lift (normalize_service_operation_intent (intent_json i)))
        (\<lambda>x s. intent_ok i \<and> x = i)"
      by (rule op.moves_lift) (use intent_renormalized intent.accepted_good in blast)
    have read: "moves (operates sh) (\<lambda>_. intent_ok i) (reading load_service_operation_intent)
        (\<lambda>x s. load_service_operation_intent s = Inr x \<and> intent_ok i)"
      by (rule op.moves_reading) simp
    have none: "moves (operates sh) (\<lambda>s. load_service_operation_intent s = Inr x \<and> intent_ok i)
        (ensure (x = None) message) (\<lambda>_ s. load_service_operation_intent s = Inr None \<and> intent_ok i)" for x message
      by (rule op.moves_ensure) simp
    have save: "moves (operates sh) (\<lambda>s. load_service_operation_intent s = Inr None \<and> intent_ok i)
        (handle os_error (durable (put_intent (stored (intent_json i))))
          (\<lambda>e. raise (AwgctlError ''service operation intent persistence failed''))) (\<lambda>_. has_intent i)"
      by (rule op.moves_handle, rule op.moves_durable, rule one, assumption, rule load_put_intent(1), simp, rule op.moves_raise)
    show ?thesis
      unfolding compare_and_swap_service_operation_intent_def option.case
      by (rule op.moves_bind [OF op_weaken], rule stays_op, rule stay_rules,
          rule moves_then [where T = "\<lambda>x s. intent_ok i", OF norm _ op.progress_axioms], rule op.moves_bind [OF read],
          rule op.moves_bind [OF none], rule op.moves_bind [OF save], rule keep, intro stay_rules)
  qed
  show ?thesis
    unfolding prepare_intent_def Let_def
    by (rule op.moves_bind [OF op_weaken], rule stays_op, rule stay_rules)+
      (rule op.moves_bind, rule moves_conseq [OF create], simp, simp, simp, assumption, assumption,
       rule op.moves_ret, simp)
qed

lemma op_compensate_failed:
  assumes "hooks_only sh"
  shows "op_moves sh (compensate_failed sh operation e)"
proof -
  have comp: "moves (operates sh) (has_intent i)
      (bindE (if si_operation i = operation \<and> si_phase i \<noteq> ''verified''
         then handle any_error (compensate_service_operation_locked sh i)
           (\<lambda>e. raise (AwgctlError ''fail-safe service compensation failed''))
         else ret ()) (\<lambda>_. raise e)) (\<lambda>_ _. True)" for i
    by (rule op.moves_bind [where T = "\<lambda>_ _. True"], rule moves_if, rule op.moves_handle, rule op_compensate [OF assms],
        simp, rule op.moves_raise, rule op.moves_ret, simp, rule op.moves_raise)
  have read: "op_moves sh (bindE (reading load_service_operation_intent) (\<lambda>current.
       bindE (case current of
           Some c \<Rightarrow>
             if si_operation c = operation \<and> si_phase c \<noteq> ''verified''
             then handle any_error (compensate_service_operation_locked sh c)
               (\<lambda>e. raise (AwgctlError ''fail-safe service compensation failed''))
             else ret ()
         | None \<Rightarrow> ret ()) (\<lambda>_.
       raise e)))"
    by (rule op_read, simp only: option.case, rule comp, simp add: stays_op stay_rules)
  show ?thesis
    unfolding compensate_failed_def
    by (rule op_structure(1), rule stays_op, rule stay_rules, rule op_cases(1), rule stays_op, rule stay_rules, rule read)
qed

lemma op_action:
  assumes hooks: "hooks_only sh"
  shows "op_moves sh (service_action sh action interface)"
proof -
  have sys: "op_moves sh (sh_systemctl sh a n)" for a n using hooks by (simp add: hooks_only_def)
  have run: "op_moves sh
      (handle any_error
         (bindE (temporarily_release_mutation_lock sh (sh_systemctl sh action interface)) (\<lambda>_.
          bindE (reading load_required_intent) (\<lambda>latest.
          bindE (service_requested_postcondition sh latest) (\<lambda>proven.
          bindE (ensure proven ''service action postcondition was not proven'') (\<lambda>_.
          bindE (service_intent_with sh latest ''verified'' None (Some None)) (\<lambda>verified.
          bindE (compare_and_swap_service_operation_intent (intent_json verified) (Some (operation, ''invoking''))) (\<lambda>_.
          delete_service_operation_intent operation)))))))
         (compensate_failed sh operation))" for operation
    unfolding op_moves_def
    by (rule op.moves_handle_any, rule op.moves_bind, rule op_weaken, rule op_release, rule sys,
        rule op.moves_bind [OF moves_read_required], rule bind_learn [OF _ yields_requested], rule stay_rules,
        rule bind_learn [OF _ yields_basic(4)], rule stay_rules, rule moves_close, simp, rule op_weaken,
        rule op_compensate_failed [OF hooks])
  have invoke: "moves (operates sh) (has_intent i)
      (bindE (service_intent_with sh i ''invoking'' None None) (\<lambda>invoking.
       bindE (compare_and_swap_service_operation_intent (intent_json invoking) (Some (si_operation i, ''prepared''))) (\<lambda>_.
       handle any_error
         (bindE (temporarily_release_mutation_lock sh (sh_systemctl sh action interface)) (\<lambda>_.
          bindE (reading load_required_intent) (\<lambda>latest.
          bindE (service_requested_postcondition sh latest) (\<lambda>proven.
          bindE (ensure proven ''service action postcondition was not proven'') (\<lambda>_.
          bindE (service_intent_with sh latest ''verified'' None (Some None)) (\<lambda>verified.
          bindE (compare_and_swap_service_operation_intent (intent_json verified)
            (Some (si_operation i, ''invoking''))) (\<lambda>_.
          delete_service_operation_intent (si_operation i))))))))
         (compensate_failed sh (si_operation i))))) (\<lambda>_ _. True)" if "si_phase i = ''prepared''" for i
  proof (rule bind_learn [OF _ yields_intent_with(1)], rule stay_rules, elim exE, rule op.moves_bind [OF moves_swap])
    fix x at assume x: "x = i\<lparr>si_phase := ''invoking'', si_updated_at := at\<rparr>"
    show "op_step sh (Inr (Some i)) (Inr (Some x))" unfolding x by (rule op_step.invoke) (rule that)
  qed (rule op_weaken, rule run)
  show ?thesis
    unfolding service_action_def
  proof (rule op_structure(1), rule stays_op, rule stay_rules, rule op_structure(1), rule stays_op, rule stay_rules,
      rule op_structure(1), rule stays_op, rule stay_rules)
    show "op_moves sh (if action = ''reload'' then
       bindE (sh_systemctl sh action interface) (\<lambda>_.
       bindE (service_is_active_exact sh interface) (\<lambda>active.
       ensure active ''service did not remain active after reload''))
     else
       bindE (prepare_intent sh action interface) (\<lambda>document.
       bindE (service_intent_with sh document ''invoking'' None None) (\<lambda>invoking.
       bindE (compare_and_swap_service_operation_intent (intent_json invoking)
         (Some (si_operation document, ''prepared''))) (\<lambda>_.
       handle any_error
         (bindE (temporarily_release_mutation_lock sh (sh_systemctl sh action interface)) (\<lambda>_.
          bindE (reading load_required_intent) (\<lambda>latest.
          bindE (service_requested_postcondition sh latest) (\<lambda>proven.
          bindE (ensure proven ''service action postcondition was not proven'') (\<lambda>_.
          bindE (service_intent_with sh latest ''verified'' None (Some None)) (\<lambda>verified.
          bindE (compare_and_swap_service_operation_intent (intent_json verified)
            (Some (si_operation document, ''invoking''))) (\<lambda>_.
          delete_service_operation_intent (si_operation document))))))))
         (compensate_failed sh (si_operation document))))))"
      unfolding op_moves_def
      by (rule moves_if, rule op.moves_bind [OF op_weaken [OF sys]], rule op_weaken, rule stays_op, intro stay_rules,
          rule op.moves_bind [OF op_prepare], rule op_given, rule invoke)
  qed
qed

lemma op_lock:
  assumes "hooks_only sh"
  shows "op_moves sh (enter_mutation_lock sh sv transition_lifecycle service_lifecycle skip now)"
  unfolding enter_mutation_lock_def Let_def
  by (intro op_rules op_reconcile [OF assms])

section \<open>Sequences of service commands\<close>

text \<open>The processes that work on the intent: hooks, actions, recoveries, takers of the lock.\<close>

datatype service_command =
    Hook string
  | Act string string
  | Reconcile
  | Lock bool bool bool int

fun run_service :: "'h service_host \<Rightarrow> 'h services \<Rightarrow> service_command \<Rightarrow> ('h service_world, unit) eff" where
  "run_service sh sv (Hook action) = run_firewall_action_locked sh action"
| "run_service sh sv (Act action interface) = service_action sh action interface"
| "run_service sh sv Reconcile = reconcile_service_operation_locked sh"
| "run_service sh sv (Lock transition service skip now) = enter_mutation_lock sh sv transition service skip now"

lemma service_commands_operate:
  assumes "hooks_only sh"
  shows "operates sh w (after_attempts (run_service sh sv) attempts w)"
proof (rule op.moves_after_attempts [where P = "\<lambda>_. True"])
  fix a :: "service_command \<times> nat \<times> fault"
  show "moves (operates sh) (\<lambda>_. True) (run_service sh sv (fst a)) (\<lambda>_ _. True)"
    by (cases "fst a") (auto intro!: op_weaken op_hook op_action op_reconcile op_lock assms)
qed simp_all

definition same_request :: "intent \<Rightarrow> intent \<Rightarrow> bool" where
  "same_request i j \<longleftrightarrow> si_operation j = si_operation i \<and> si_action j = si_action i \<and> si_interface j = si_interface i
     \<and> si_pre_active j = si_pre_active i \<and> si_pre_firewall j = si_pre_firewall i"

lemma same_request_seen:
  assumes "same_request i j"
  shows "seen_requested sh j = seen_requested sh i" "seen_stopped sh j = seen_stopped sh i"
    "seen_prestate sh j = seen_prestate sh i"
  using assms by (simp_all add: same_request_def seen_requested_def seen_stopped_def seen_prestate_def)

lemma intent_kept:
  assumes "(op_step sh)\<^sup>*\<^sup>* s s'" and "s = Inr (Some i)" and "si_phase i \<noteq> ''verified''"
  shows "seen_requested sh i \<or> seen_stopped sh i \<or> seen_prestate sh i
    \<or> (\<exists>j. s' = Inr (Some j) \<and> same_request i j \<and> si_phase j \<noteq> ''verified'')"
  using assms
proof (induction rule: rtranclp_induct)
  case base
  then show ?case by (simp add: same_request_def)
next
  case (step y z)
  then consider "seen_requested sh i \<or> seen_stopped sh i \<or> seen_prestate sh i"
    | j where "y = Inr (Some j)" "same_request i j" "si_phase j \<noteq> ''verified''" by blast
  then show ?case
  proof cases
    case 2
    note seen = same_request_seen [OF 2(2), where sh = sh]
    from step.hyps(2) 2 seen show ?thesis by cases (auto simp: same_request_def)
  qed blast
qed

text \<open>
  C5: The record of a service operation outlives the operation until its result has been seen.
  Whatever sequence of hooks, actions, recoveries and takers of the mutation lock follows, each
  killed or failing at any write, the protected intent of an operation that is not yet verified is
  removed or replaced only after one of three states was observed: systemd and the firewall as the
  operation requested them; the service stopped, its kernel interface gone and the firewall removed;
  or the state from before the operation. (What systemctl runs touches the intent through hooks.)
\<close>

theorem intent_removed_only_when_seen:
  fixes sh :: "'h service_host"
  assumes "hooks_only sh" and "load_service_operation_intent w = Inr (Some i)" and "si_phase i \<noteq> ''verified''"
    and "w' = after_attempts (run_service sh sv) attempts w"
    and "\<forall>j. load_service_operation_intent w' = Inr (Some j) \<longrightarrow> si_operation j \<noteq> si_operation i"
  shows "seen_active sh (si_interface i) (service_active_after (si_action i))
      \<and> seen_firewall sh (if service_active_after (si_action i) then ''up'' else ''down'')
    \<or> seen_active sh (si_interface i) False \<and> seen_absent sh (si_interface i) \<and> seen_firewall sh ''down''
    \<or> seen_active sh (si_interface i) (si_pre_active i) \<and> seen_firewall sh (if si_pre_firewall i then ''up'' else ''down'')"
proof -
  have path: "(op_step sh)\<^sup>*\<^sup>* (load_service_operation_intent w) (load_service_operation_intent w')"
    using service_commands_operate [OF assms(1)] assms(4) by (simp add: operates_def)
  from intent_kept [OF path assms(2,3)] assms(5)
  have "seen_requested sh i \<or> seen_stopped sh i \<or> seen_prestate sh i" by (auto simp: same_request_def)
  then show ?thesis unfolding seen_requested_def seen_stopped_def seen_prestate_def .
qed

section \<open>A concrete host\<close>

definition base_host :: "unit service_host" where
  "base_host =
     \<lparr>sh_pid = (\<lambda>h. (Inr 4711, h)), sh_proc = (\<lambda>p h. Inl FileNotFoundError),
      sh_is_active = (\<lambda>i h. (Inr 0, h)), sh_index = (\<lambda>i h. (Inr (Some 7), h)),
      sh_postcondition = (\<lambda>a h. (Inr (a = ''up''), h)), sh_apply = (\<lambda>h. (Inr (), h)), sh_cleanup = (\<lambda>h. (Inr (), h)),
      sh_generation = (\<lambda>h. (Inr sample_sha, h)), sh_interface = (\<lambda>h. (Inr ''awg0'', h)),
      sh_clock = (\<lambda>h. (Inr 0, h)), sh_token = (\<lambda>h. (Inr sample_id, h)),
      sh_unlock = (\<lambda>h. (Inr (), h)), sh_relock = (\<lambda>h. (Inr (), h)), sh_systemctl = (\<lambda>a i. ret ())\<rparr>"

text \<open>systemctl runs the hooks of the action, each a process that takes the lock for itself.\<close>

definition hook_process :: "'h service_host \<Rightarrow> string \<Rightarrow> ('h service_world, unit) eff" where
  "hook_process sh action =
     bindE (set_locked True) (\<lambda>_. bindE (run_firewall_action_locked sh action) (\<lambda>_. set_locked False))"

definition sample_host :: "unit service_host" where
  "sample_host = base_host\<lparr>sh_systemctl := \<lambda>action interface. for_each (hook_process base_host) (the (requested_actions action))\<rparr>"

lemma parts_without_systemctl:
  "ensure_service_stopped_for_firewall_down (sh\<lparr>sh_systemctl := x\<rparr>) = ensure_service_stopped_for_firewall_down sh"
  "apply_hook (sh\<lparr>sh_systemctl := x\<rparr>) = apply_hook sh" "prove_hook (sh\<lparr>sh_systemctl := x\<rparr>) = prove_hook sh"
  by (rule ext, simp add: apply_hook_def prove_hook_def ensure_service_stopped_for_firewall_down_def
      service_is_active_exact_def kernel_interface_is_absent_exact_def)+

lemma hook_without_systemctl:
  "run_firewall_action_locked (sh\<lparr>sh_systemctl := x\<rparr>) action = run_firewall_action_locked sh action"
  by (simp add: run_firewall_action_locked_def direct_hook_def parts_without_systemctl cong: option.case_cong if_cong)

lemma sample_hooks_only: "hooks_only sample_host"
proof -
  have "op_moves sample_host (hook_process base_host a)" for a
    unfolding hook_process_def sample_host_def
    by (intro op_rules) (rule op_hook [where sh = "base_host\<lparr>sh_systemctl := x\<rparr>" for x, unfolded hook_without_systemctl])
  then have "op_moves sample_host (for_each (hook_process base_host) as)" for as
    by (induction as) (auto intro: op_rules)
  then show ?thesis by (simp add: hooks_only_def sample_host_def)
qed

definition service_sample :: "unit service_world" where
  "service_sample = \<lparr>so_intent = stored (intent_json sample_intent), so_locked = True, so_world = empty_world\<rparr>"

lemma service_sample_intent: "load_service_operation_intent service_sample = Inr (Some sample_intent)"
  using load_put_intent(1) [OF sample_intent_ok, of service_sample]
  by (simp add: has_intent_def put_intent_def service_sample_def load_service_operation_intent_def)

theorem intent_removed_only_when_seen_witness:
  "seen_active sample_host ''awg0'' True \<and> load_service_operation_intent
     (after_attempts (run_service sample_host sample_services) [(Reconcile, 0, Crash), (Reconcile, 1, Refused)] service_sample)
     = Inr None"
proof -
  let ?w = "after_attempts (run_service sample_host sample_services) [(Reconcile, 0, Crash), (Reconcile, 1, Refused)] service_sample"
  have awg0: "interface_re ''awg0''" by code_simp
  have ident: "validate_transaction_id (JStr sample_id) = Inr sample_id"
    by (rule transaction_id.good_accepted) (rule sample_res)
  have req: "load_required_intent service_sample = Inr sample_intent"
    by (simp add: load_required_intent_def service_sample_intent)
  have see: "observe f (b, service_sample) = lift (fst (f ())) (b, service_sample)" for b and f :: "unit \<Rightarrow> 'a result \<times> unit"
    by (cases "f ()"; cases "fst (f ())") (auto simp: observe_def on_world_def external_def service_sample_def empty_world_def run_simps)
  have id: "current_transition_id (b, service_sample) = (Done None, (b, service_sample))" for b
    by (simp add: current_transition_id_def bindE_def on_world_def run_simps service_sample_def load_transition_document_def
        read_document_def empty_world_def)
  have run: "reconcile_service_operation_locked sample_host (b, service_sample)
      = delete_service_operation_intent sample_id (b, service_sample)" for b
    using service_sample_intent
    by (simp add: reconcile_service_operation_locked_def held_def run_simps bindE_def id see sample_intent_def
        sample_host_def base_host_def service_prestate_postcondition_def service_is_active_exact_def awg0)
      (simp add: service_sample_def)
  have one: "delete_service_operation_intent sample_id (Some (0, Crash), service_sample) = (Killed, (Some (0, Crash), service_sample))"
    "\<exists>r b. delete_service_operation_intent sample_id (Some (1, Refused), service_sample)
      = (r, (b, put_intent None service_sample))"
    using req ident
    by (simp_all add: delete_service_operation_intent_def held_def run_simps bindE_def handle_def durable_def)
      (simp_all add: service_sample_def sample_intent_def put_intent_def)
  have "load_service_operation_intent ?w = Inr None"
    using one load_put_intent(2) [of service_sample] by (auto simp: run)
  moreover have "\<not> seen_absent sample_host ''awg0''"
    by (simp add: seen_absent_def sample_host_def base_host_def)
  ultimately show ?thesis
    using intent_removed_only_when_seen [OF sample_hooks_only service_sample_intent _ refl,
      of sample_services "[(Reconcile, 0, Crash), (Reconcile, 1, Refused)]"]
    by (auto simp: sample_intent_def service_active_after_def)
qed

end
