(* ===== verification/Outcomes.thy ===== *)
theory Outcomes
  imports Effects
begin

text \<open>
  What a computation may end in: its weakest precondition, with one condition for returning and one
  for raising. It is used on computations that meet no fault of their own writes (configurations
  \<open>(None, s)\<close>), so that the exceptions left are those the code raises and those of the services it
  calls.
\<close>

definition wp :: "('s, 'a) eff \<Rightarrow> ('a \<Rightarrow> 's config \<Rightarrow> bool) \<Rightarrow> (error \<Rightarrow> 's config \<Rightarrow> bool) \<Rightarrow> 's config \<Rightarrow> bool" where
  "wp m Q E c =
     (case m c of
        (Done x, c') \<Rightarrow> Q x c'
      | (Raised e, c') \<Rightarrow> E e c'
      | (Killed, c') \<Rightarrow> False)"

text \<open>A condition on the state of an undisturbed configuration.\<close>

definition calm :: "('s \<Rightarrow> bool) \<Rightarrow> 's config \<Rightarrow> bool" where
  "calm P c \<longleftrightarrow> fst c = None \<and> P (snd c)"

lemma calm_pair [simp]: "calm P (b, s) \<longleftrightarrow> b = None \<and> P s"
  by (simp add: calm_def)

named_theorems wp_steps

lemma wp_ret [wp_steps]: "wp (ret x) Q E = Q x"
  by (simp add: fun_eq_iff wp_def ret_def)

lemma wp_raise [wp_steps]: "wp (raise e) Q E = E e"
  by (simp add: fun_eq_iff wp_def raise_def)

lemma wp_lift [wp_steps]: "wp (lift r) Q E c = (case r of Inl e \<Rightarrow> E e c | Inr x \<Rightarrow> Q x c)"
  by (simp add: wp_ret wp_raise split: sum.split)

lemma wp_query [wp_steps]: "wp (query f) Q E (b, s) = Q (f s) (b, s)"
  by (simp add: wp_def query_def)

lemma wp_durable [wp_steps]: "wp (durable f) Q E (None, s) = Q () (None, f s)"
  by (simp add: wp_def)

lemma wp_bind [wp_steps]: "wp (bindE m f) Q E = wp m (\<lambda>x. wp (f x) Q E) E"
  by (simp add: fun_eq_iff wp_def bindE_def split: prod.split run.split)

lemma wp_reading [wp_steps]: "wp (reading f) Q E (b, s) = (case f s of Inl e \<Rightarrow> E e (b, s) | Inr x \<Rightarrow> Q x (b, s))"
  by (simp add: reading_def wp_bind wp_query wp_lift)

lemma wp_ensure [wp_steps]: "wp (ensure b message) Q E c = (if b then Q () c else E (AwgctlError message) c)"
  by (simp add: wp_ret wp_raise)

lemma wp_handle [wp_steps]: "wp (handle p m h) Q E = wp m Q (\<lambda>e. if p e then wp (h e) Q E else E e)"
  by (simp add: fun_eq_iff wp_def handle_def split: prod.split run.split)

lemma wp_suppress [wp_steps]: "wp (suppress p m) Q E = wp m Q (\<lambda>e. if p e then Q () else E e)"
  by (simp add: suppress_def wp_handle wp_ret cong: if_cong)

lemma wp_any_error [simp]: "any_error e"
  by (simp add: any_error_def)

text \<open>A consequence rule, to use what has been shown of a subroutine, and the way to read a result.\<close>

lemma wp_conseq:
  assumes "wp m Q E c" and "\<And>x c. Q x c \<Longrightarrow> Q' x c" and "\<And>e c. E e c \<Longrightarrow> E' e c"
  shows "wp m Q' E' c"
  using assms by (auto simp: wp_def split: prod.splits run.splits)

lemma wp_calm:
  assumes "wp m (\<lambda>x. calm (Q x)) (\<lambda>e. calm (E e)) c"
    and "\<And>x s. Q x s \<Longrightarrow> Q' x (None, s)" and "\<And>e s. E e s \<Longrightarrow> E' e (None, s)"
  shows "wp m Q' E' c"
  by (rule wp_conseq [OF assms(1)]) (auto simp: calm_def intro: assms(2,3))

lemma wp_conj: "wp m Q E c \<Longrightarrow> wp m Q' E' c \<Longrightarrow> wp m (\<lambda>x c. Q x c \<and> Q' x c) (\<lambda>e c. E e c \<and> E' e c) c"
  by (auto simp: wp_def split: prod.splits run.splits)

lemma wp_done: "wp m Q E c \<Longrightarrow> m c = (Done x, c') \<Longrightarrow> Q x c'"
  by (simp add: wp_def)

lemma wp_raised: "wp m Q E c \<Longrightarrow> m c = (Raised e, c') \<Longrightarrow> E e c'"
  by (simp add: wp_def)

section \<open>What an undisturbed computation does\<close>

text \<open>The form in which it is stated: what holds when it returns, and what holds when it raises.\<close>

definition does ::
  "('s \<Rightarrow> bool) \<Rightarrow> ('s, 'a) eff \<Rightarrow> ('a \<Rightarrow> 's \<Rightarrow> bool) \<Rightarrow> ('s \<Rightarrow> bool) \<Rightarrow> bool" where
  "does P m Q E \<longleftrightarrow> (\<forall>s. P s \<longrightarrow> wp m (\<lambda>x. calm (Q x)) (\<lambda>e. calm E) (None, s))"

lemma doesI: "(\<And>s. P s \<Longrightarrow> wp m (\<lambda>x. calm (Q x)) (\<lambda>e. calm E) (None, s)) \<Longrightarrow> does P m Q E"
  by (simp add: does_def)

lemma doesD: "does P m Q E \<Longrightarrow> P s \<Longrightarrow> wp m (\<lambda>x. calm (Q x)) (\<lambda>e. calm E) (None, s)"
  by (simp add: does_def)

lemma does_conseq:
  assumes "does P' m Q' E'" and "\<And>s. P s \<Longrightarrow> P' s" and "\<And>x s. Q' x s \<Longrightarrow> Q x s" and "\<And>s. E' s \<Longrightarrow> E s"
  shows "does P m Q E"
  by (rule doesI, rule wp_calm [OF doesD [OF assms(1) assms(2)]]) (auto intro: assms(3,4))

lemma does_bind:
  assumes "does P m R E" and "\<And>x. does (R x) (f x) Q E"
  shows "does P (bindE m f) Q E"
  by (rule doesI) (use assms in \<open>auto simp: wp_bind intro!: wp_calm [OF doesD [OF assms(1)]] dest: doesD\<close>)

lemma does_handle:
  assumes "does P m Q E'" and "\<And>e. does E' (h e) Q E"
  shows "does P (handle any_error m h) Q E"
  by (rule doesI) (use assms(2) in \<open>auto simp: wp_handle intro!: wp_calm [OF doesD [OF assms(1)]] dest: doesD\<close>)

lemma does_suppress: "does P m (\<lambda>_. Q) Q \<Longrightarrow> does P (suppress any_error m) (\<lambda>_. Q) E"
  unfolding suppress_def
  by (rule does_handle, assumption) (simp add: does_def wp_steps)

lemma does_ret: "(\<And>s. P s \<Longrightarrow> Q x s) \<Longrightarrow> does P (ret x) Q E"
  by (simp add: does_def wp_steps)

lemma does_raise: "(\<And>s. P s \<Longrightarrow> E s) \<Longrightarrow> does P (raise e) Q E"
  by (simp add: does_def wp_steps)

lemma does_lift:
  "(\<And>s x. P s \<Longrightarrow> r = Inr x \<Longrightarrow> Q x s) \<Longrightarrow> (\<And>s e. P s \<Longrightarrow> r = Inl e \<Longrightarrow> E s) \<Longrightarrow> does P (lift r) Q E"
  by (simp add: does_def wp_steps split: sum.split)

lemma does_reading:
  "(\<And>s x. P s \<Longrightarrow> f s = Inr x \<Longrightarrow> Q x s) \<Longrightarrow> (\<And>s e. P s \<Longrightarrow> f s = Inl e \<Longrightarrow> E s) \<Longrightarrow> does P (reading f) Q E"
  by (simp add: does_def wp_steps split: sum.split)

lemma does_query: "(\<And>s. P s \<Longrightarrow> Q (f s) s) \<Longrightarrow> does P (query f) Q E"
  by (simp add: does_def wp_steps)

lemma does_ensure:
  "(\<And>s. P s \<Longrightarrow> b \<Longrightarrow> Q () s) \<Longrightarrow> (\<And>s. P s \<Longrightarrow> \<not> b \<Longrightarrow> E s) \<Longrightarrow> does P (ensure b message) Q E"
  by (simp add: does_def wp_steps)

lemma does_durable: "(\<And>s. P s \<Longrightarrow> Q () (f s)) \<Longrightarrow> does P (durable f) Q E"
  by (simp add: does_def wp_steps)

lemma does_pre: "(\<And>s. P s \<Longrightarrow> does ((=) s) m Q E) \<Longrightarrow> does P m Q E"
  by (auto simp: does_def)

lemma does_fact: "(b \<Longrightarrow> does P m Q E) \<Longrightarrow> does (\<lambda>s. b \<and> P s) m Q E"
  by (auto simp: does_def)

lemma does_pair: "(\<And>x y. p = (x, y) \<Longrightarrow> does P (f x y) Q E) \<Longrightarrow> does P (case p of (x, y) \<Rightarrow> f x y) Q E"
  by (cases p) simp

lemma does_if: "(b \<Longrightarrow> does P m Q E) \<Longrightarrow> (\<not> b \<Longrightarrow> does P n Q E) \<Longrightarrow> does P (if b then m else n) Q E"
  by simp

lemma does_option:
  "(x = None \<Longrightarrow> does P m Q E) \<Longrightarrow> (\<And>y. x = Some y \<Longrightarrow> does P (f y) Q E) \<Longrightarrow>
     does P (case x of None \<Rightarrow> m | Some y \<Rightarrow> f y) Q E"
  by (cases x) simp_all

lemma step_known:
  assumes "\<And>s. P s \<Longrightarrow> f s = r" and "\<And>x. r = Inr x \<Longrightarrow> does P (k x) Q E" and "\<And>s. P s \<Longrightarrow> E s"
  shows "does P (bindE (reading f) k) Q E"
  by (rule does_bind [OF does_reading [where Q = "\<lambda>x s. P s \<and> r = Inr x"]])
    (use assms in \<open>auto simp: does_def\<close>)

lemma step_lift:
  assumes "\<And>x. r = Inr x \<Longrightarrow> does P (k x) Q E" and "\<And>s. P s \<Longrightarrow> E s"
  shows "does P (bindE (lift r) k) Q E"
  using assms by (cases r) (auto intro: does_raise)

lemma step_ensure:
  assumes "b \<Longrightarrow> does P (k ()) Q E" and "\<And>s. P s \<Longrightarrow> E s"
  shows "does P (bindE (ensure b message) k) Q E"
  using assms by (cases b) (auto intro: does_raise)

lemma step_then:
  assumes "does P m R E'" and "\<And>s. E' s \<Longrightarrow> E s" and "\<And>x. does (R x) (k x) Q E"
  shows "does P (bindE m k) Q E"
  by (rule does_bind [OF _ assms(3)], rule does_conseq [OF assms(1)]) (use assms(2) in simp_all)

lemma does_exists: "(\<And>x. does (P x) m Q E) \<Longrightarrow> does (\<lambda>s. \<exists>x. P x s) m Q E"
  by (auto simp: does_def)

lemma step_query_known:
  assumes "\<And>s. P s \<Longrightarrow> f s = x" and "does P (k x) Q E"
  shows "does P (bindE (query f) k) Q E"
  by (rule doesI) (use assms in \<open>auto simp: wp_steps dest: doesD\<close>)

text \<open>Reading it as a statement about the run.\<close>

lemma outcome:
  assumes "does P m Q E" and "P s" and "\<And>x s'. Q x s' \<Longrightarrow> D x s'" and "\<And>s'. E s' \<Longrightarrow> F s'"
  shows "case m (None, s) of (Done x, (b, s')) \<Rightarrow> D x s' | (Raised e, (b, s')) \<Rightarrow> F s' | (Killed, c) \<Rightarrow> False"
  using doesD [OF assms(1,2)] assms(3,4) by (auto simp: wp_def split: prod.splits run.splits)

end
