(* ===== verification/ClientStore.thy ===== *)
theory ClientStore
  imports ImportProfile Clients Effects
begin

text \<open>
  The managed state on disk in \<^verbatim>\<open>src/awgctl/core.py\<close> and the operations every client command is
  made of: loading it, rendering the server file and checking it for drift, committing a new server
  file with its rollback, writing, removing and archiving the files of a client, and the backup
  taken before a change. A directory tree is created or removed in one step; ownership and modes
  are not modelled.
\<close>

section \<open>The state\<close>

text \<open>
  A file is its content or the exception reading it raises. \<open>/opt/amneziawg/clients/NAME\<close> holds the
  metadata, the profile and its QR image, \<open>/opt/amneziawg/keys/clients/NAME\<close> the keys.
\<close>

record client_dir =
  cd_metadata :: "json result"
  cd_profile :: "string option"
  cd_image :: "string option"

record key_dir =
  kd_private :: "string result"
  kd_public :: "string result"
  kd_psk :: "string result"

text \<open>The components a backup copies: \<open>config\<close>, \<open>keys\<close>, \<open>clients\<close>, \<open>revoked\<close> and \<open>generated\<close>.\<close>

record managed =
  mg_config :: "json result"
  mg_server_private :: "string result"
  mg_server_public :: "string result"
  mg_header_key :: "string result"
  mg_clients :: "(string \<times> client_dir) list"
  mg_keys :: "(string \<times> key_dir) list"
  mg_revoked :: "(string \<times> client_dir option \<times> key_dir option) list"
  mg_generated :: "string option"

text \<open>\<open>st_runtime\<close> is the file in \<open>/etc/amnezia\<close> the service reads; \<open>st_host\<close> the rest of the host.\<close>

record 'h site =
  st_managed :: managed
  st_runtime :: "string option"
  st_backups :: "(string \<times> managed) list"
  st_host :: 'h

text \<open>
  What the commands observe and ask of the host: the clock, the service manager, the native
  validation of a server file, the query of the live peers, key generation, the QR encoder, the
  texts of the service manager and the packet filter kept in a backup, the pending obfuscation
  transition and its completion (modelled with the transition documents). Any of them may fail and
  may change the host. The fingerprint of a public key is a hash.
\<close>

record 'h desk =
  dk_clock :: "'h \<Rightarrow> int \<times> 'h"
  dk_is_active :: "string \<Rightarrow> 'h \<Rightarrow> bool result \<times> 'h"
  dk_service :: "string \<Rightarrow> string \<Rightarrow> 'h \<Rightarrow> unit result \<times> 'h"
  dk_validate :: "string \<Rightarrow> 'h \<Rightarrow> unit result \<times> 'h"
  dk_peers :: "string \<Rightarrow> 'h \<Rightarrow> string result \<times> 'h"
  dk_genkey :: "'h \<Rightarrow> string result \<times> 'h"
  dk_pubkey :: "string \<Rightarrow> 'h \<Rightarrow> string result \<times> 'h"
  dk_genpsk :: "'h \<Rightarrow> string result \<times> 'h"
  dk_encode :: "string \<Rightarrow> 'h \<Rightarrow> string result \<times> 'h"
  dk_evidence :: "'h \<Rightarrow> unit result \<times> 'h"
  dk_transition :: "'h \<Rightarrow> string option result \<times> 'h"
  dk_complete :: "int \<Rightarrow> 'h \<Rightarrow> unit result \<times> 'h"
  dk_fingerprint :: "string \<Rightarrow> string"

definition ask :: "('h \<Rightarrow> 'a result \<times> 'h) \<Rightarrow> ('h site, 'a) eff" where
  "ask f c = (case c of (b, s) \<Rightarrow>
     (case f (st_host s) of
        (Inl e, h) \<Rightarrow> (Raised e, (b, s\<lparr>st_host := h\<rparr>))
      | (Inr x, h) \<Rightarrow> (Done x, (b, s\<lparr>st_host := h\<rparr>))))"

definition clock :: "'h desk \<Rightarrow> ('h site, int) eff" where
  "clock dk = ask (\<lambda>h. case dk_clock dk h of (t, h') \<Rightarrow> (Inr t, h'))"

definition on_managed :: "(managed \<Rightarrow> managed) \<Rightarrow> 'h site \<Rightarrow> 'h site" where
  "on_managed f s = s\<lparr>st_managed := f (st_managed s)\<rparr>"

text \<open>An association list keyed by file name, updated in place.\<close>

fun assign :: "'k \<Rightarrow> 'v \<Rightarrow> ('k \<times> 'v) list \<Rightarrow> ('k \<times> 'v) list" where
  "assign k v [] = [(k, v)]"
| "assign k v ((k', v') # m) = (if k' = k then (k, v) # m else (k', v') # assign k v m)"

definition erase :: "'k \<Rightarrow> ('k \<times> 'v) list \<Rightarrow> ('k \<times> 'v) list" where
  "erase k m = filter (\<lambda>p. fst p \<noteq> k) m"

section \<open>Loading\<close>

definition load_config :: "managed \<Rightarrow> server_config result" where
  "load_config m = read_server_config (mg_config m)"

definition client_file :: "managed \<Rightarrow> key_files" where
  "client_file m name which =
     (case map_of (mg_keys m) name of
        None \<Rightarrow> Inl FileNotFoundError
      | Some k \<Rightarrow>
          if which = ''private'' then kd_private k
          else if which = ''public'' then kd_public k
          else if which = ''psk'' then kd_psk k
          else Inl FileNotFoundError)"

definition client_entries :: "managed \<Rightarrow> client_entry list" where
  "client_entries m =
     map (\<lambda>(n, d). \<lparr>ce_name = n, ce_is_directory = True, ce_metadata = cd_metadata d\<rparr>) (mg_clients m)"

definition clients_of :: "bool \<Rightarrow> managed \<Rightarrow> loaded_client list result" where
  "clients_of secrets m = load_clients (client_file m) (client_entries m) secrets"

definition server_private_key :: "managed \<Rightarrow> string result" where
  "server_private_key m = read_secret (mg_server_private m) ''server private key''"

definition server_public_key :: "managed \<Rightarrow> string result" where
  "server_public_key m = read_secret (mg_server_public m) ''server public key''"

definition header_protection_key_for_config :: "managed \<Rightarrow> server_config \<Rightarrow> string option result" where
  "header_protection_key_for_config m config =
     andthen (render_config (config_obj config)) (\<lambda>cfg.
     case cfg_obfuscation cfg of
       Classic p \<Rightarrow> Inr None
     | Awg31 p \<Rightarrow> andthen (mg_header_key m) (\<lambda>k. Inr (Some k)))"

text \<open>Rendering given client records at an instant.\<close>

definition render_clients :: "managed \<Rightarrow> server_config \<Rightarrow> loaded_client list \<Rightarrow> int \<Rightarrow> string result" where
  "render_clients m config clients now =
     andthen (server_private_key m) (\<lambda>private.
     andthen (header_protection_key_for_config m config) (\<lambda>key.
     render_server_config (config_obj config) private (map ld_client clients) now key))"

definition render_current_server :: "managed \<Rightarrow> loaded_client list option \<Rightarrow> int \<Rightarrow> string result" where
  "render_current_server m clients now =
     andthen (load_config m) (\<lambda>config.
     andthen (server_private_key m) (\<lambda>private.
     andthen (case clients of None \<Rightarrow> clients_of True m | Some cs \<Rightarrow> Inr cs) (\<lambda>cs.
     andthen (header_protection_key_for_config m config) (\<lambda>key.
     render_server_config (config_obj config) private (map ld_client cs) now key))))"

section \<open>Drift\<close>

text \<open>\<open>bytes.replace\<close>: every occurrence, from the left, not overlapping.\<close>

function replace_text :: "string \<Rightarrow> string \<Rightarrow> string \<Rightarrow> string" where
  "replace_text old new [] = []"
| "replace_text old new (c # cs) =
     (if old \<noteq> [] \<and> starts_with old (c # cs)
      then new @ replace_text old new (drop (length old) (c # cs))
      else c # replace_text old new cs)"
  by pat_completeness auto
termination
  by (relation "measure (\<lambda>(old, new, s). length s)") (auto simp: neq_Nil_conv)

definition legacy_lifecycle_hook_drift :: "string \<Rightarrow> string \<Rightarrow> bool" where
  "legacy_lifecycle_hook_drift expected actual =
     (let legacy = replace_text ''/opt/amneziawg/libexec/awgctl-internal _firewall''
        ''/opt/amneziawg/bin/awgctl _firewall'' expected
      in legacy \<noteq> expected \<and> actual = legacy)"

definition read_server_files :: "'h site \<Rightarrow> (string \<times> string) result" where
  "read_server_files s =
     (case (mg_generated (st_managed s), st_runtime s) of
        (Some g, Some r) \<Rightarrow> Inr (g, r)
      | _ \<Rightarrow> Inl (AwgctlError ''cannot read generated/runtime server configuration''))"

text \<open>The digests in the messages of a drift are left out.\<close>

definition ensure_no_drift :: "'h desk \<Rightarrow> ('h site, unit) eff" where
  "ensure_no_drift dk =
     bindE (clock dk) (\<lambda>now.
     bindE (reading (\<lambda>s. render_current_server (st_managed s) None now)) (\<lambda>expected.
     bindE (reading read_server_files) (\<lambda>(generated, runtime).
     bindE (ensure (generated = expected \<or> legacy_lifecycle_hook_drift expected generated)
       ''managed-state drift'') (\<lambda>_.
     ensure (runtime = generated) ''manual runtime drift detected''))))"

section \<open>The running interface\<close>

definition live_peers :: "'h desk \<Rightarrow> string \<Rightarrow> ('h site, string list) eff" where
  "live_peers dk interface = bindE (ask (dk_peers dk interface)) (\<lambda>out. ret (live_peers_of out))"

definition verify_peer_state :: "'h desk \<Rightarrow> string \<Rightarrow> string \<Rightarrow> bool \<Rightarrow> ('h site, unit) eff" where
  "verify_peer_state dk interface public present =
     bindE (live_peers dk interface) (\<lambda>peers.
     ensure ((public \<in> set peers) = present)
       (''peer did not '' @ (if present then ''appear'' else ''disappear'') @ '' in the running interface''))"

section \<open>Committing a server file\<close>

definition put_generated :: "string option \<Rightarrow> 'h site \<Rightarrow> 'h site" where
  "put_generated text = on_managed (\<lambda>m. m\<lparr>mg_generated := text\<rparr>)"

definition put_runtime :: "string \<Rightarrow> 'h site \<Rightarrow> 'h site" where
  "put_runtime text s = s\<lparr>st_runtime := Some text\<rparr>"

text \<open>Both files are put back and the service is asked again; whether it obeyed is in the message.\<close>

definition restore_server_files ::
  "'h desk \<Rightarrow> string option \<Rightarrow> string \<Rightarrow> (string \<times> string) option \<Rightarrow> ('h site, bool) eff" where
  "restore_server_files dk old_generated old_runtime action =
     bindE (durable (put_runtime old_runtime)) (\<lambda>_.
     bindE (durable (put_generated old_generated)) (\<lambda>_.
     case action of
       None \<Rightarrow> ret True
     | Some (verb, interface) \<Rightarrow>
         handle any_error (bindE (ask (dk_service dk verb interface)) (\<lambda>_. ret True)) (\<lambda>e. ret False)))"

definition commit_server_config :: "'h desk \<Rightarrow> string \<Rightarrow> string option \<Rightarrow> ('h site, bool) eff" where
  "commit_server_config dk text runtime_action =
     bindE (ask (dk_validate dk text)) (\<lambda>_.
     bindE (query (\<lambda>s. mg_generated (st_managed s))) (\<lambda>old_generated.
     bindE (reading (\<lambda>s. or_raise (st_runtime s) FileNotFoundError)) (\<lambda>old_runtime.
     bindE (reading (\<lambda>s. load_config (st_managed s))) (\<lambda>config.
     bindE (ask (dk_is_active dk (cfg_interface config))) (\<lambda>active.
     bindE (durable (put_generated (Some text))) (\<lambda>_.
     bindE (durable (put_runtime text)) (\<lambda>_.
     let action = (case runtime_action of
           None \<Rightarrow> None
         | Some verb \<Rightarrow> if active \<and> verb \<noteq> [] then Some (verb, cfg_interface config) else None)
     in bindE (handle any_error
          (case action of None \<Rightarrow> ret () | Some (verb, interface) \<Rightarrow> ask (dk_service dk verb interface))
          (\<lambda>e. bindE (restore_server_files dk old_generated old_runtime action) (\<lambda>rollback_ok.
             raise (AwgctlError (''server configuration '' @ (case runtime_action of None \<Rightarrow> ''None'' | Some v \<Rightarrow> v)
               @ '' failed; ''
               @ (if rollback_ok then ''rollback verified'' else ''ROLLBACK COULD NOT BE VERIFIED''))))))
          (\<lambda>_. ret active))))))))"

section \<open>Keys\<close>

definition generate_key_material :: "'h desk \<Rightarrow> bool \<Rightarrow> ('h site, string \<times> string \<times> string option) eff" where
  "generate_key_material dk use_psk =
     bindE (ask (dk_genkey dk)) (\<lambda>out.
     let private = strip out in
     bindE (lift (validate_key (JStr private) ''generated private key'')) (\<lambda>_.
     bindE (ask (dk_pubkey dk private)) (\<lambda>out.
     let public = strip out in
     bindE (lift (validate_key (JStr public) ''generated public key'')) (\<lambda>_.
     if use_psk
     then bindE (ask (dk_genpsk dk)) (\<lambda>out.
          bindE (lift (validate_key (JStr (strip out)) ''generated preshared key'')) (\<lambda>_.
          ret (private, public, Some (strip out))))
     else ret (private, public, None)))))"

section \<open>The files of a client\<close>

definition in_client :: "string \<Rightarrow> (client_dir \<Rightarrow> client_dir) \<Rightarrow> managed \<Rightarrow> managed" where
  "in_client name f m = m\<lparr>mg_clients := map (\<lambda>(n, d). if n = name then (n, f d) else (n, d)) (mg_clients m)\<rparr>"

definition in_keys :: "string \<Rightarrow> (key_dir \<Rightarrow> key_dir) \<Rightarrow> managed \<Rightarrow> managed" where
  "in_keys name f m = m\<lparr>mg_keys := map (\<lambda>(n, d). if n = name then (n, f d) else (n, d)) (mg_keys m)\<rparr>"

definition empty_client_dir :: client_dir where
  "empty_client_dir = \<lparr>cd_metadata = Inl FileNotFoundError, cd_profile = None, cd_image = None\<rparr>"

definition empty_key_dir :: key_dir where
  "empty_key_dir = \<lparr>kd_private = Inl FileNotFoundError, kd_public = Inl FileNotFoundError, kd_psk = Inl FileNotFoundError\<rparr>"

definition write_metadata :: "string \<Rightarrow> obj \<Rightarrow> ('h site, unit) eff" where
  "write_metadata name metadata =
     durable (on_managed (in_client name (\<lambda>d. d\<lparr>cd_metadata := Inr (JObj metadata)\<rparr>)))"

text \<open>What a caller may choose of a new client.\<close>

record new_client =
  nc_created_at :: json
  nc_imported_from :: "string option"
  nc_profile :: "string option"
  nc_owner :: json
  nc_device :: json
  nc_expires :: json

definition client_document ::
  "'h desk \<Rightarrow> string \<Rightarrow> string \<Rightarrow> string \<Rightarrow> string option \<Rightarrow> new_client \<Rightarrow> string \<Rightarrow> obj" where
  "client_document dk name address public psk nc now =
     [(''schema_version'', JInt 3), (''name'', JStr name), (''status'', JStr ''active''),
      (''management'', JStr ''managed''), (''address'', JStr address), (''public_key'', JStr public),
      (''public_key_fingerprint'', JStr (dk_fingerprint dk public)),
      (''use_psk'', JBool (case psk of None \<Rightarrow> False | Some k \<Rightarrow> k \<noteq> [])),
      (''created_at'', if truthy (nc_created_at nc) then nc_created_at nc else JStr now),
      (''updated_at'', JStr now), (''owner'', nc_owner nc), (''device'', nc_device nc),
      (''expires'', nc_expires nc), (''profile_revision'', JInt 1), (''profile_generated_at'', JStr now),
      (''profile_change_reason'', JStr (if nc_imported_from nc = None then ''created'' else ''imported'')),
      (''distribution_status'', JStr ''pending''), (''distributed_at'', JNull)]"

text \<open>\<open>generate_qr\<close>: the encoder writes a temporary file that then replaces the image.\<close>

definition generate_qr :: "'h desk \<Rightarrow> string \<Rightarrow> string \<Rightarrow> ('h site, unit) eff" where
  "generate_qr dk name profile =
     bindE (ask (dk_encode dk profile)) (\<lambda>image.
     durable (on_managed (in_client name (\<lambda>d. d\<lparr>cd_image := Some image\<rparr>))))"

definition write_key_files :: "string \<Rightarrow> string \<Rightarrow> string \<Rightarrow> string option \<Rightarrow> ('h site, unit) eff" where
  "write_key_files name private public psk =
     bindE (durable (on_managed (in_keys name (\<lambda>k. k\<lparr>kd_private := Inr (private @ ''\<newline>'')\<rparr>)))) (\<lambda>_.
     bindE (durable (on_managed (in_keys name (\<lambda>k. k\<lparr>kd_public := Inr (public @ ''\<newline>'')\<rparr>)))) (\<lambda>_.
     case psk of
       None \<Rightarrow> ret ()
     | Some p \<Rightarrow>
         if p = [] then ret ()
         else durable (on_managed (in_keys name (\<lambda>k. k\<lparr>kd_psk := Inr (p @ ''\<newline>'')\<rparr>)))))"

definition client_profile ::
  "server_config \<Rightarrow> string \<Rightarrow> string \<Rightarrow> string option \<Rightarrow> new_client \<Rightarrow> managed \<Rightarrow> string result" where
  "client_profile config address private psk nc m =
     (case nc_profile nc of
        Some (c # cs) \<Rightarrow> Inr (c # cs)
      | _ \<Rightarrow>
          andthen (server_public_key m) (\<lambda>server_public.
          andthen (header_protection_key_for_config m config) (\<lambda>key.
          render_client_config (config_obj config) private psk server_public address key)))"

definition write_client_state ::
  "'h desk \<Rightarrow> server_config \<Rightarrow> string \<Rightarrow> string \<Rightarrow> string \<Rightarrow> string \<Rightarrow> string option \<Rightarrow> new_client
     \<Rightarrow> ('h site, unit) eff" where
  "write_client_state dk config name address private public psk nc =
     bindE (query (\<lambda>s. name \<in> fst ` set (mg_clients (st_managed s)) \<or> name \<in> fst ` set (mg_keys (st_managed s)))) (\<lambda>present.
     bindE (ensure (\<not> present) (''client already exists: '' @ name)) (\<lambda>_.
     bindE (durable (on_managed (\<lambda>m. m\<lparr>mg_clients := mg_clients m @ [(name, empty_client_dir)]\<rparr>))) (\<lambda>_.
     bindE (durable (on_managed (\<lambda>m. m\<lparr>mg_keys := mg_keys m @ [(name, empty_key_dir)]\<rparr>))) (\<lambda>_.
     bindE (clock dk) (\<lambda>now.
     bindE (lift (or_raise (map_option (interface_text address) (ip_interface address)) ValueError)) (\<lambda>address_text.
     bindE (lift (normalize_client_metadata
       (JObj (client_document dk name address_text public psk nc (utc_text now))))) (\<lambda>metadata.
     let metadata = (case nc_imported_from nc of
           None \<Rightarrow> metadata
         | Some f \<Rightarrow> if f = [] then metadata else put metadata ''imported_from'' (JStr f))
     in bindE (write_key_files name private public psk) (\<lambda>_.
        bindE (reading (\<lambda>s. client_profile config address private psk nc (st_managed s))) (\<lambda>profile.
        bindE (durable (on_managed (in_client name (\<lambda>d. d\<lparr>cd_profile := Some profile\<rparr>)))) (\<lambda>_.
        bindE (generate_qr dk name profile) (\<lambda>_.
        write_metadata name metadata)))))))))))"

text \<open>\<open>shutil.rmtree(..., ignore_errors=True)\<close> of both directories.\<close>

definition remove_client_state :: "string \<Rightarrow> ('h site, unit) eff" where
  "remove_client_state name =
     bindE (suppress any_error (durable (on_managed (\<lambda>m. m\<lparr>mg_clients := erase name (mg_clients m)\<rparr>)))) (\<lambda>_.
     suppress any_error (durable (on_managed (\<lambda>m. m\<lparr>mg_keys := erase name (mg_keys m)\<rparr>))))"

section \<open>Archives and backups\<close>

text \<open>The first name of \<open>base\<close>, \<open>base-01\<close>, \<open>base-02\<close>, ... that is not taken.\<close>

definition utc_timestamp :: "int \<Rightarrow> string" where
  "utc_timestamp t = replace_char CHR ''-'' [] (replace_char CHR '':'' [] (utc_text t))"

definition numbered :: "string \<Rightarrow> nat \<Rightarrow> string" where
  "numbered base n =
     (if n = 0 then base
      else base @ ''-'' @ (if n < 10 then ''0'' else []) @ str_int (int n))"

definition free_name :: "string \<Rightarrow> string list \<Rightarrow> string" where
  "free_name base taken =
     (case find (\<lambda>n. numbered base n \<notin> set taken) [0..<length taken + 1] of
        None \<Rightarrow> base
      | Some n \<Rightarrow> numbered base n)"

definition object_of :: "json \<Rightarrow> obj result" where
  "object_of v = or_raise (as_obj v) TypeError"

definition set_archive :: "string \<Rightarrow> client_dir option \<Rightarrow> key_dir option \<Rightarrow> ('h site, unit) eff" where
  "set_archive archive d k = durable (on_managed (\<lambda>m. m\<lparr>mg_revoked := assign archive (d, k) (mg_revoked m)\<rparr>))"

text \<open>The directory is created, both trees are copied, then the copied metadata is marked.\<close>

definition archive_client_copy :: "'h desk \<Rightarrow> string \<Rightarrow> bool \<Rightarrow> ('h site, string) eff" where
  "archive_client_copy dk name rotation =
     bindE (clock dk) (\<lambda>now.
     bindE (query (\<lambda>s. map fst (mg_revoked (st_managed s)))) (\<lambda>taken.
     let archive = free_name (name @ (if rotation then ''-rotated-'' else ''-'') @ utc_timestamp now) taken
     in bindE (set_archive archive None None) (\<lambda>_.
        bindE (reading (\<lambda>s. or_raise (map_of (mg_clients (st_managed s)) name) FileNotFoundError)) (\<lambda>d.
        bindE (set_archive archive (Some d) None) (\<lambda>_.
        bindE (reading (\<lambda>s. or_raise (map_of (mg_keys (st_managed s)) name) FileNotFoundError)) (\<lambda>k.
        bindE (set_archive archive (Some d) (Some k)) (\<lambda>_.
        bindE (lift (andthen (cd_metadata d) object_of)) (\<lambda>metadata.
        bindE (clock dk) (\<lambda>now.
        bindE (set_archive archive
          (Some (d\<lparr>cd_metadata := Inr (JObj (put_all metadata
             [(''status'', JStr (if rotation then ''rotated'' else ''revoked'')),
              (''revoked_at'', JStr (utc_text now))]))\<rparr>)) (Some k)) (\<lambda>_.
        ret archive))))))))))"

definition remove_archive :: "string \<Rightarrow> ('h site, unit) eff" where
  "remove_archive archive =
     suppress any_error (durable (on_managed (\<lambda>m. m\<lparr>mg_revoked := erase archive (mg_revoked m)\<rparr>)))"

text \<open>
  A backup copies every component; \<open>dk_evidence\<close> stands for the recorded texts of the service
  manager and the packet filter and for the manifest of the copy and its verification.
\<close>

definition create_backup :: "'h desk \<Rightarrow> ('h site, string) eff" where
  "create_backup dk =
     bindE (clock dk) (\<lambda>now.
     bindE (query (\<lambda>s. free_name (utc_timestamp now) (map fst (st_backups s)))) (\<lambda>destination.
     bindE (durable (\<lambda>s. s\<lparr>st_backups := st_backups s @ [(destination, st_managed s)]\<rparr>)) (\<lambda>_.
     bindE (reading (\<lambda>s. if mg_config (st_managed s) = Inl FileNotFoundError then Inr None
       else andthen (load_config (st_managed s)) (\<lambda>c. Inr (Some c)))) (\<lambda>_.
     bindE (ask (dk_evidence dk)) (\<lambda>_.
     ret destination)))))"

end
