(* ===== verification/ClientCommands.thy ===== *)
theory ClientCommands
  imports ClientStore Outcomes
begin

text \<open>
  The client commands of \<^verbatim>\<open>src/awgctl/core.py\<close>: adding, importing, editing, revoking, rotating
  and expiring clients. A command runs under the mutation lock; the recovery taking the lock runs is
  modelled in the theory on service operations. Prompts, the texts printed and audit lines are left
  out; a dry run returns after the checks it shares with the command.
\<close>

section \<open>Adding a client\<close>

definition client_present :: "string \<Rightarrow> loaded_client list \<Rightarrow> managed \<Rightarrow> bool" where
  "client_present name clients m \<longleftrightarrow>
     name \<in> (\<lambda>c. cl_name (ld_client c)) ` set clients \<or> name \<in> fst ` set (mg_clients m)
     \<or> name \<in> fst ` set (mg_keys m)"

definition allocate_address :: "server_config \<Rightarrow> loaded_client list \<Rightarrow> string result" where
  "allocate_address config clients =
     andthen (managed_subnet (cfg_subnet config) (cfg_server_address config)) (\<lambda>(subnet, server).
     andthen (result_list (\<lambda>c. or_raise (ip_interface (cl_address (ld_client c))) ValueError) clients) (\<lambda>allocated.
     andthen (next_client_address subnet server allocated) (\<lambda>a. Inr (net_text a))))"

text \<open>The metadata a command proposes, to be refused before anything is changed.\<close>

definition proposed_metadata :: "new_client \<Rightarrow> string \<Rightarrow> obj" where
  "proposed_metadata nc now =
     [(''schema_version'', JInt 3), (''management'', JStr ''managed''), (''owner'', nc_owner nc),
      (''device'', nc_device nc), (''expires'', nc_expires nc), (''profile_revision'', JInt 1),
      (''profile_generated_at'', JStr now), (''profile_change_reason'', JStr ''created''),
      (''distribution_status'', JStr ''pending''), (''distributed_at'', JNull)]"

definition render_now :: "'h desk \<Rightarrow> server_config \<Rightarrow> loaded_client list \<Rightarrow> ('h site, string) eff" where
  "render_now dk config clients =
     bindE (clock dk) (\<lambda>now. reading (\<lambda>s. render_clients (st_managed s) config clients now))"

text \<open>After a failure behind the commit the old clients are rendered and committed again.\<close>

definition commit_old_clients :: "'h desk \<Rightarrow> server_config \<Rightarrow> loaded_client list \<Rightarrow> ('h site, unit) eff" where
  "commit_old_clients dk config old =
     bindE (render_now dk config old) (\<lambda>rollback_text.
     suppress any_error (bindE (commit_server_config dk rollback_text (Some ''reload'')) (\<lambda>_. ret ())))"

text \<open>
  \<open>try: change; commit; verify except Exception: ...\<close>: before the commit only \<open>undo\<close> runs, after
  it the old clients are committed first; the exception is raised again.
\<close>

definition committed_change ::
  "'h desk \<Rightarrow> server_config \<Rightarrow> loaded_client list \<Rightarrow> ('h site, string) eff \<Rightarrow> ('h site, unit) eff
     \<Rightarrow> ('h site, unit) eff \<Rightarrow> ('h site, bool) eff" where
  "committed_change dk config old change verify undo =
     bindE (handle any_error
       (bindE change (\<lambda>new_server. commit_server_config dk new_server (Some ''reload'')))
       (\<lambda>e. bindE undo (\<lambda>_. raise e))) (\<lambda>active.
     handle any_error
       (bindE (if active then verify else ret ()) (\<lambda>_. ret active))
       (\<lambda>e. bindE (commit_old_clients dk config old) (\<lambda>_. bindE undo (\<lambda>_. raise e))))"

definition cmd_client_add :: "'h desk \<Rightarrow> string \<Rightarrow> new_client \<Rightarrow> bool \<Rightarrow> ('h site, unit) eff" where
  "cmd_client_add dk name nc dry_run =
     bindE (lift (validate_client_name (JStr name))) (\<lambda>name.
     bindE (ensure_no_drift dk) (\<lambda>_.
     bindE (reading (\<lambda>s. load_config (st_managed s))) (\<lambda>config.
     bindE (reading (\<lambda>s. clients_of True (st_managed s))) (\<lambda>old.
     bindE (query (\<lambda>s. client_present name old (st_managed s))) (\<lambda>present.
     bindE (ensure (\<not> present) (''client already exists: '' @ name)) (\<lambda>_.
     bindE (lift (allocate_address config old)) (\<lambda>address.
     bindE (clock dk) (\<lambda>now.
     bindE (lift (except_map (contract_message [])
       (normalize_client_metadata (JObj (proposed_metadata nc (utc_text now)))))) (\<lambda>_.
     if dry_run then ret ()
     else bindE (create_backup dk) (\<lambda>_.
          bindE (generate_key_material dk (cfg_use_psk config)) (\<lambda>(private, public, psk).
          bindE (committed_change dk config old
            (bindE (write_client_state dk config name address private public psk
               (nc\<lparr>nc_created_at := JNull, nc_imported_from := None, nc_profile := None\<rparr>)) (\<lambda>_.
             bindE (reading (\<lambda>s. clients_of True (st_managed s))) (render_now dk config)))
            (verify_peer_state dk (cfg_interface config) public True)
            (remove_client_state name)) (\<lambda>_. ret ()))))))))))))"

section \<open>Revoking a client\<close>

definition loaded_named :: "string \<Rightarrow> loaded_client list \<Rightarrow> loaded_client option" where
  "loaded_named name = find (\<lambda>c. cl_name (ld_client c) = name)"

definition unnamed :: "string \<Rightarrow> loaded_client list \<Rightarrow> loaded_client list" where
  "unnamed name = filter (\<lambda>c. cl_name (ld_client c) \<noteq> name)"

definition cmd_client_revoke :: "'h desk \<Rightarrow> string \<Rightarrow> bool \<Rightarrow> ('h site, unit) eff" where
  "cmd_client_revoke dk name dry_run =
     bindE (lift (validate_client_name (JStr name))) (\<lambda>name.
     bindE (ensure_no_drift dk) (\<lambda>_.
     bindE (reading (\<lambda>s. load_config (st_managed s))) (\<lambda>config.
     bindE (reading (\<lambda>s. clients_of True (st_managed s))) (\<lambda>old.
     bindE (lift (or_raise (loaded_named name old) (AwgctlError (''unknown active client: '' @ name)))) (\<lambda>target.
     if dry_run then ret ()
     else bindE (create_backup dk) (\<lambda>_.
          bindE (archive_client_copy dk name False) (\<lambda>archive.
          bindE (committed_change dk config old
            (render_now dk config (unnamed name old))
            (verify_peer_state dk (cfg_interface config) (cl_public_key (ld_client target)) False)
            (remove_archive archive)) (\<lambda>_.
          remove_client_state name))))))))"

section \<open>Rotating a client\<close>

definition restore_client_from_archive :: "string \<Rightarrow> string \<Rightarrow> ('h site, unit) eff" where
  "restore_client_from_archive name archive =
     bindE (remove_client_state name) (\<lambda>_.
     bindE (reading (\<lambda>s. or_raise (Option.bind (map_of (mg_revoked (st_managed s)) archive) fst) FileNotFoundError)) (\<lambda>d.
     bindE (durable (on_managed (\<lambda>m. m\<lparr>mg_clients := mg_clients m @ [(name, d)]\<rparr>))) (\<lambda>_.
     bindE (reading (\<lambda>s. or_raise (Option.bind (map_of (mg_revoked (st_managed s)) archive) snd) FileNotFoundError)) (\<lambda>k.
     bindE (durable (on_managed (\<lambda>m. m\<lparr>mg_keys := mg_keys m @ [(name, k)]\<rparr>))) (\<lambda>_.
     bindE (lift (andthen (cd_metadata d) object_of)) (\<lambda>metadata.
     write_metadata name (filter (\<lambda>(f, v). f \<noteq> ''revoked_at'') (put metadata ''status'' (JStr ''active'')))))))))"

definition rotated_metadata :: "obj \<Rightarrow> obj \<Rightarrow> string \<Rightarrow> obj result" where
  "rotated_metadata target metadata timestamp =
     andthen (mark_profile_rotated (JObj target) (JObj metadata) timestamp) (\<lambda>m.
     andthen (item target ''public_key_fingerprint'') (\<lambda>fp.
     Inr (put (put m ''rotated_at'' (JStr timestamp)) ''previous_public_key_fingerprint'' fp)))"

definition metadata_of :: "string \<Rightarrow> managed \<Rightarrow> obj result" where
  "metadata_of name m =
     andthen (or_raise (map_of (mg_clients m) name) FileNotFoundError) (\<lambda>d.
     andthen (cd_metadata d) object_of)"

definition verify_rotation :: "'h desk \<Rightarrow> string \<Rightarrow> string \<Rightarrow> string \<Rightarrow> ('h site, unit) eff" where
  "verify_rotation dk interface new_key old_key =
     bindE (live_peers dk interface) (\<lambda>peers.
     ensure (new_key \<in> set peers \<and> old_key \<notin> set peers)
       ''rotated peer state did not verify in the running interface'')"

definition cmd_client_rotate :: "'h desk \<Rightarrow> string \<Rightarrow> bool \<Rightarrow> ('h site, unit) eff" where
  "cmd_client_rotate dk name dry_run =
     bindE (lift (validate_client_name (JStr name))) (\<lambda>name.
     bindE (ensure_no_drift dk) (\<lambda>_.
     bindE (reading (\<lambda>s. load_config (st_managed s))) (\<lambda>config.
     bindE (reading (\<lambda>s. clients_of True (st_managed s))) (\<lambda>old.
     bindE (lift (or_raise (loaded_named name old) (AwgctlError (''unknown active client: '' @ name)))) (\<lambda>target.
     bindE (ensure (ld_management target = ''managed'')
       ''external client cannot be rotated; import its profile first'') (\<lambda>_.
     if dry_run then ret ()
     else bindE (create_backup dk) (\<lambda>_.
          bindE (archive_client_copy dk name True) (\<lambda>archive.
          bindE (generate_key_material dk (cfg_use_psk config)) (\<lambda>(private, public, psk).
          bindE (committed_change dk config old
            (bindE (remove_client_state name) (\<lambda>_.
             bindE (lift (item (ld_metadata target) ''created_at'')) (\<lambda>created_at.
             bindE (write_client_state dk config name (cl_address (ld_client target)) private public psk
               \<lparr>nc_created_at = created_at, nc_imported_from = None, nc_profile = None,
                 nc_owner = get (ld_metadata target) ''owner'', nc_device = get (ld_metadata target) ''device'',
                 nc_expires = get (ld_metadata target) ''expires''\<rparr>) (\<lambda>_.
             bindE (reading (\<lambda>s. metadata_of name (st_managed s))) (\<lambda>metadata.
             bindE (clock dk) (\<lambda>now.
             bindE (lift (rotated_metadata (ld_metadata target) metadata (utc_text now))) (\<lambda>metadata.
             bindE (write_metadata name metadata) (\<lambda>_.
             bindE (reading (\<lambda>s. clients_of True (st_managed s))) (render_now dk config)))))))))
            (verify_rotation dk (cfg_interface config) public (cl_public_key (ld_client target)))
            (bindE (restore_client_from_archive name archive) (\<lambda>_. remove_archive archive)))
          (\<lambda>_. ret ()))))))))))"

section \<open>Editing a client\<close>

definition edited_value :: "string \<times> json \<Rightarrow> string \<times> json" where
  "edited_value p =
     (case p of (field, v) \<Rightarrow>
        (field, if field = ''expires'' \<and> (case v of JStr t \<Rightarrow> lower t = ''none'' | _ \<Rightarrow> False) then JNull else v))"

definition edited_fields :: "(string \<times> json) list \<Rightarrow> bool \<Rightarrow> string list" where
  "edited_fields changes mark = map fst changes @ (if mark then [''distribution_status'', ''distributed_at''] else [])"

definition edited_metadata :: "obj \<Rightarrow> (string \<times> json) list \<Rightarrow> bool \<Rightarrow> string \<Rightarrow> obj result" where
  "edited_metadata old changes mark now =
     except_map (contract_message []) (normalize_client_metadata (JObj
       (put_all (put_all old (map edited_value changes))
         (if mark then [(''distribution_status'', JStr ''distributed''), (''distributed_at'', JStr now)] else []))))"

definition cmd_client_edit :: "'h desk \<Rightarrow> string \<Rightarrow> (string \<times> json) list \<Rightarrow> bool \<Rightarrow> bool \<Rightarrow> ('h site, unit) eff" where
  "cmd_client_edit dk name changes mark dry_run =
     bindE (lift (validate_client_name (JStr name))) (\<lambda>name.
     bindE (ensure (edited_fields changes mark \<noteq> [])
       ''client edit requires --owner, --device, --expires, or --mark-distributed'') (\<lambda>_.
     bindE (ensure_no_drift dk) (\<lambda>_.
     bindE (reading (\<lambda>s. clients_of False (st_managed s))) (\<lambda>clients.
     bindE (lift (or_raise (loaded_named name clients) (AwgctlError (''unknown active client: '' @ name)))) (\<lambda>target.
     bindE (if mark then clock dk else ret 0) (\<lambda>now.
     bindE (lift (edited_metadata (ld_metadata target) changes mark (utc_text now))) (\<lambda>proposed.
     if dry_run \<or> (\<forall>f\<in>set (edited_fields changes mark). py_eq (get (ld_metadata target) f) (get proposed f))
     then ret ()
     else bindE (create_backup dk) (\<lambda>_.
          bindE (clock dk) (\<lambda>now.
          write_metadata name (put proposed ''updated_at'' (JStr (utc_text now))))))))))))"

section \<open>Importing a client\<close>

definition server_peer_for_public :: "string \<Rightarrow> string option \<Rightarrow> directives result" where
  "server_peer_for_public public generated =
     andthen (or_raise generated (AwgctlError ''cannot read generated server configuration'')) (\<lambda>text.
     andthen (parse_awg_config text) (\<lambda>parsed.
     case filter (\<lambda>peer. map_of peer ''PublicKey'' = Some public)
         (case map_of parsed ''Peer'' of None \<Rightarrow> [] | Some ps \<Rightarrow> ps) of
       [peer] \<Rightarrow> Inr peer
     | _ \<Rightarrow> Inl (AwgctlError ''client profile does not match exactly one server peer'')))"

definition import_identity ::
  "string \<Rightarrow> imported_profile \<Rightarrow> directives \<Rightarrow> loaded_client list \<Rightarrow> loaded_client option result" where
  "import_identity name imported peer clients =
     andthen (check (map_of peer ''AllowedIPs'' = Some (imp_address imported))
       (AwgctlError ''client profile address differs from the matching server peer'')) (\<lambda>_.
     andthen (check (map_of peer ''PresharedKey'' = imp_psk imported)
       (AwgctlError ''client profile PSK differs from the matching server peer'')) (\<lambda>_.
     let same_name = loaded_named name clients;
         same_public = find (\<lambda>c. cl_public_key (ld_client c) = imp_public_key imported) clients
     in andthen (check (\<not> (case same_name of None \<Rightarrow> False | Some c \<Rightarrow> ld_management c = ''managed''))
          (AwgctlError (''client is already managed: '' @ name))) (\<lambda>_.
        andthen (check (\<not> (case same_name of None \<Rightarrow> False
            | Some c \<Rightarrow> cl_public_key (ld_client c) \<noteq> imp_public_key imported))
          (AwgctlError (''external peer identity differs from imported profile: '' @ name))) (\<lambda>_.
        andthen (case same_public of None \<Rightarrow> Inr ()
          | Some c \<Rightarrow> check (cl_name (ld_client c) = name)
              (AwgctlError (''matching external peer is named '' @ cl_name (ld_client c)
                @ ''; import using that name''))) (\<lambda>_.
        Inr same_name)))))"

definition imported_metadata :: "loaded_client option \<Rightarrow> new_client \<Rightarrow> string \<Rightarrow> obj" where
  "imported_metadata same_name nc now =
     (let pick = (\<lambda>field default. case same_name of None \<Rightarrow> default
            | Some c \<Rightarrow> (case map_of (ld_metadata c) field of None \<Rightarrow> default | Some v \<Rightarrow> v));
          old = (\<lambda>field given. case same_name of None \<Rightarrow> given | Some c \<Rightarrow> get (ld_metadata c) field)
      in [(''schema_version'', JInt 3), (''management'', JStr ''managed''),
          (''owner'', old ''owner'' (nc_owner nc)), (''device'', old ''device'' (nc_device nc)),
          (''expires'', old ''expires'' (nc_expires nc)),
          (''profile_revision'', pick ''profile_revision'' (JInt 1)),
          (''profile_generated_at'', pick ''profile_generated_at'' (JStr now)),
          (''profile_change_reason'', pick ''profile_change_reason'' (JStr ''imported'')),
          (''distribution_status'', pick ''distribution_status'' (JStr ''pending'')),
          (''distributed_at'', old ''distributed_at'' JNull)])"

text \<open>The copies kept while an external peer is converted.\<close>

definition kept_copy :: "string \<Rightarrow> managed \<Rightarrow> (client_dir \<times> key_dir) result" where
  "kept_copy name m =
     andthen (or_raise (map_of (mg_clients m) name) FileNotFoundError) (\<lambda>d.
     andthen (or_raise (map_of (mg_keys m) name) FileNotFoundError) (\<lambda>k. Inr (d, k)))"

definition put_back :: "string \<Rightarrow> client_dir \<times> key_dir \<Rightarrow> ('h site, unit) eff" where
  "put_back name copy =
     bindE (durable (on_managed (\<lambda>m. m\<lparr>mg_clients := mg_clients m @ [(name, fst copy)]\<rparr>))) (\<lambda>_.
     durable (on_managed (\<lambda>m. m\<lparr>mg_keys := mg_keys m @ [(name, snd copy)]\<rparr>)))"

definition same_semantics :: "managed \<Rightarrow> int \<Rightarrow> bool result" where
  "same_semantics m now =
     andthen (render_current_server m None now) (\<lambda>current.
     andthen (semantic_signature current) (\<lambda>expected.
     andthen (or_raise (mg_generated m) FileNotFoundError) (\<lambda>generated.
     andthen (semantic_signature generated) (\<lambda>actual.
     Inr (expected = actual)))))"

definition cmd_client_import ::
  "'h desk \<Rightarrow> string \<Rightarrow> string \<Rightarrow> string \<Rightarrow> new_client \<Rightarrow> bool \<Rightarrow> ('h site, unit) eff" where
  "cmd_client_import dk name profile_text profile_path nc dry_run =
     bindE (lift (validate_client_name (JStr name))) (\<lambda>name.
     bindE (ensure_no_drift dk) (\<lambda>_.
     bindE (reading (\<lambda>s. load_config (st_managed s))) (\<lambda>config.
     bindE (reading (\<lambda>s. server_public_key (st_managed s))) (\<lambda>server_public.
     bindE (reading (\<lambda>s. header_protection_key_for_config (st_managed s) config)) (\<lambda>key.
     bindE (ask (\<lambda>h. (parse_import_profile profile_text (config_obj config) server_public
        (\<lambda>k. fst (dk_pubkey dk k h)) key, h))) (\<lambda>imported.
     bindE (reading (\<lambda>s. server_peer_for_public (imp_public_key imported) (mg_generated (st_managed s)))) (\<lambda>peer.
     bindE (reading (\<lambda>s. clients_of True (st_managed s))) (\<lambda>clients.
     bindE (lift (import_identity name imported peer clients)) (\<lambda>same_name.
     bindE (clock dk) (\<lambda>now.
     bindE (lift (except_map (contract_message [])
       (normalize_client_metadata (JObj (imported_metadata same_name nc (utc_text now)))))) (\<lambda>proposed.
     if dry_run then ret ()
     else bindE (create_backup dk) (\<lambda>_.
          bindE (reading (\<lambda>s. if same_name = None then Inr None
            else andthen (kept_copy name (st_managed s)) (\<lambda>c. Inr (Some c)))) (\<lambda>copy.
          bindE (if same_name = None then ret () else remove_client_state name) (\<lambda>_.
          handle any_error
            (bindE (write_client_state dk config name (imp_address imported) (imp_private_key imported)
               (imp_public_key imported) (imp_psk imported)
               \<lparr>nc_created_at = (case same_name of None \<Rightarrow> JNull | Some c \<Rightarrow> get (ld_metadata c) ''created_at''),
                 nc_imported_from = Some profile_path, nc_profile = Some (imp_profile imported),
                 nc_owner = get proposed ''owner'', nc_device = get proposed ''device'',
                 nc_expires = get proposed ''expires''\<rparr>) (\<lambda>_.
             bindE (clock dk) (\<lambda>now.
             bindE (reading (\<lambda>s. same_semantics (st_managed s) now)) (\<lambda>same.
             ensure same ''imported client does not reproduce the existing server peer semantics''))))
            (\<lambda>e. bindE (remove_client_state name) (\<lambda>_.
                 bindE (case copy of None \<Rightarrow> ret () | Some c \<Rightarrow> put_back name c) (\<lambda>_. raise e)))))))))))))))))"

section \<open>Expiring clients\<close>

text \<open>\<open>datetime.isoformat()\<close> of an instant in UTC.\<close>

definition iso_text :: "int \<Rightarrow> string" where
  "iso_text t =
     (let us = t mod 1000000; whole = utc_text t
      in butlast whole @ (if us = 0 then [] else ''.'' @ pad2 (us div 10000) @ pad4 (us mod 10000)) @ ''+00:00'')"

definition expired_metadata :: "int \<Rightarrow> obj \<Rightarrow> obj" where
  "expired_metadata now m =
     put_all m [(''status'', JStr ''expired''), (''expired_at'', JStr (iso_text now)),
       (''updated_at'', JStr (iso_text now))]"

definition stored_metadata :: "managed \<Rightarrow> client \<Rightarrow> (string \<times> json) result" where
  "stored_metadata m c =
     andthen (or_raise (map_of (mg_clients m) (cl_name c)) FileNotFoundError) (\<lambda>d.
     andthen (cd_metadata d) (\<lambda>v. Inr (cl_name c, v)))"

definition mark_expired :: "int \<Rightarrow> string \<times> json \<Rightarrow> ('h site, unit) eff" where
  "mark_expired now p =
     bindE (lift (object_of (snd p))) (\<lambda>m. write_metadata (fst p) (expired_metadata now m))"

definition restore_metadata :: "string \<times> json \<Rightarrow> ('h site, unit) eff" where
  "restore_metadata p = durable (on_managed (in_client (fst p) (\<lambda>d. d\<lparr>cd_metadata := Inr (snd p)\<rparr>)))"

definition with_expired :: "string list \<Rightarrow> loaded_client list \<Rightarrow> loaded_client list" where
  "with_expired names = map (\<lambda>c. if cl_name (ld_client c) \<in> set names
     then c\<lparr>ld_client := (ld_client c)\<lparr>cl_status := ''expired''\<rparr>\<rparr> else c)"

definition remaining_peers :: "client list \<Rightarrow> string list \<Rightarrow> string list" where
  "remaining_peers selected live = map cl_name (filter (\<lambda>c. cl_public_key c \<in> set live) selected)"

text \<open>The live peers after the commit, once more after a second commit when some remained.\<close>

definition check_expired_peers ::
  "'h desk \<Rightarrow> string \<Rightarrow> string \<Rightarrow> client list \<Rightarrow> ('h site, bool \<times> string list) eff" where
  "check_expired_peers dk interface new_server selected =
     bindE (live_peers dk interface) (\<lambda>live.
     if remaining_peers selected live = [] then ret (True, [])
     else bindE (commit_server_config dk new_server (Some ''reload'')) (\<lambda>active.
          if active
          then bindE (live_peers dk interface) (\<lambda>live. ret (True, remaining_peers selected live))
          else ret (False, remaining_peers selected live)))"

definition verify_expired :: "'h desk \<Rightarrow> string \<Rightarrow> string \<Rightarrow> client list \<Rightarrow> ('h site, unit) eff" where
  "verify_expired dk interface new_server selected =
     bindE (handle any_error (check_expired_peers dk interface new_server selected)
       (\<lambda>e. bindE (ask (dk_service dk ''stop'' interface)) (\<lambda>_. raise e))) (\<lambda>(active, remaining).
     if active \<and> remaining \<noteq> []
     then bindE (ask (dk_service dk ''stop'' interface)) (\<lambda>_.
          raise (AwgctlError (''expired peers remain in the running interface: '' @ join '', '' remaining)))
     else ret ())"

definition commit_expiry ::
  "'h desk \<Rightarrow> int \<Rightarrow> loaded_client list \<Rightarrow> client list \<Rightarrow> (string \<times> json) list \<Rightarrow> ('h site, string \<times> bool) eff" where
  "commit_expiry dk now clients due snapshots =
     handle any_error
       (bindE (for_each (mark_expired now) snapshots) (\<lambda>_.
        bindE (reading (\<lambda>s. render_current_server (st_managed s)
          (Some (with_expired (map cl_name due) clients)) now)) (\<lambda>new_server.
        bindE (commit_server_config dk new_server (Some ''reload'')) (\<lambda>active. ret (new_server, active)))))
       (\<lambda>e. bindE (for_each restore_metadata snapshots) (\<lambda>_. raise e))"

definition cmd_expire_clients :: "'h desk \<Rightarrow> ('h site, unit) eff" where
  "cmd_expire_clients dk =
     bindE (ask (dk_transition dk)) (\<lambda>transition.
     bindE (ensure (transition \<noteq> Some ''active'')
       ''client expiry is rejected during an active obfuscation transition'') (\<lambda>_.
     bindE (clock dk) (\<lambda>now.
     bindE (reading (\<lambda>s. clients_of False (st_managed s))) (\<lambda>clients.
     bindE (lift (clients_requiring_expiry_reconciliation (map ld_client clients) now)) (\<lambda>selected.
     if selected = [] then ret ()
     else bindE (reading read_server_files) (\<lambda>(generated, runtime).
          bindE (ensure (runtime = generated) ''manual runtime drift detected before client expiry'') (\<lambda>_.
          bindE (reading (\<lambda>s. load_config (st_managed s))) (\<lambda>config.
          bindE (reading (\<lambda>s. clients_of True (st_managed s))) (\<lambda>clients.
          bindE (lift (bind_expiry_records selected (map ld_client clients))) (\<lambda>selected.
          let due = filter (\<lambda>c. cl_status c = ''active'') selected in
          bindE (reading (\<lambda>s. ensure_expiry_reconcilable generated
            (render_current_server (st_managed s) (Some clients) now) (cfg_use_psk config) selected)) (\<lambda>_.
          bindE (if due = [] then ret [] else create_backup dk) (\<lambda>_.
          bindE (reading (\<lambda>s. result_list (stored_metadata (st_managed s)) due)) (\<lambda>snapshots.
          bindE (if transition = None then ret () else ask (dk_complete dk now)) (\<lambda>_.
          bindE (commit_expiry dk now clients due snapshots) (\<lambda>(new_server, active).
          if active then verify_expired dk (cfg_interface config) new_server selected
          else ret ())))))))))))))))"

end
