(* ===== verification/ClientSafety.thy ===== *)
theory ClientSafety
  imports ClientCommands Progress
begin

text \<open>
  The client commands as one family, and the property that holds of all of them under any
  interruption: client files are changed only after a backup of the managed state has been taken.
\<close>

section \<open>A backup precedes every change of client files\<close>

datatype client_command =
    Add string new_client bool
  | Import string string string new_client bool
  | Edit string "(string \<times> json) list" bool bool
  | Revoke string bool
  | Rotate string bool
  | Expire

fun run_client_command :: "'h desk \<Rightarrow> client_command \<Rightarrow> ('h site, unit) eff" where
  "run_client_command dk (Add name nc dry_run) = cmd_client_add dk name nc dry_run"
| "run_client_command dk (Import name profile path nc dry_run) = cmd_client_import dk name profile path nc dry_run"
| "run_client_command dk (Edit name changes mark dry_run) = cmd_client_edit dk name changes mark dry_run"
| "run_client_command dk (Revoke name dry_run) = cmd_client_revoke dk name dry_run"
| "run_client_command dk (Rotate name dry_run) = cmd_client_rotate dk name dry_run"
| "run_client_command dk Expire = cmd_expire_clients dk"

definition client_data :: "managed \<Rightarrow> (string \<times> client_dir) list \<times> (string \<times> key_dir) list" where
  "client_data m = (mg_clients m, mg_keys m)"

definition backed :: "managed \<Rightarrow> 'h site \<Rightarrow> bool" where
  "backed m s \<longleftrightarrow> m \<in> snd ` set (st_backups s)"

text \<open>While nothing has been changed, and from the backup on.\<close>

definition safe :: "managed \<Rightarrow> 'h site \<Rightarrow> bool" where
  "safe m s \<longleftrightarrow> client_data (st_managed s) = client_data m \<or> backed m s"

definition guarded :: "managed \<Rightarrow> 'h site \<Rightarrow> 'h site \<Rightarrow> bool" where
  "guarded m s s' \<longleftrightarrow>
     (backed m s \<longrightarrow> backed m s') \<and> (safe m s \<longrightarrow> safe m s')"

interpretation guard: progress "guarded m" for m
  by unfold_locales (auto simp: guarded_def)

definition covered :: "managed \<Rightarrow> ('h site \<Rightarrow> bool) \<Rightarrow> bool" where
  "covered m P \<longleftrightarrow> P = backed m \<or> P = safe m"

definition observed :: "managed \<Rightarrow> ('h site \<Rightarrow> bool) \<Rightarrow> bool" where
  "observed m P \<longleftrightarrow> covered m P \<or> P = (\<lambda>s. st_managed s = m)"

lemma cover_rules: "covered m (backed m)" "covered m (safe m)" "covered m P \<Longrightarrow> observed m P"
  "observed m (\<lambda>s. st_managed s = m)"
  by (simp_all add: covered_def observed_def)

lemmas cover_defs = covered_def observed_def guarded_def backed_def safe_def

lemma guarded_ask: "observed m P \<Longrightarrow> moves (guarded m) P (ask f) (\<lambda>_. P)"
  by (rule movesI) (auto simp: cover_defs ask_def split: prod.splits sum.splits)

lemma guarded_clock: "observed m P \<Longrightarrow> moves (guarded m) P (clock dk) (\<lambda>_. P)"
  unfolding clock_def by (rule guarded_ask)

lemma guarded_pure:
  "moves (guarded m) P (ret x) (\<lambda>_. P)" "moves (guarded m) P (lift r) (\<lambda>_. P)"
  "moves (guarded m) P (query q) (\<lambda>_. P)" "moves (guarded m) P (reading f) (\<lambda>_. P)"
  "moves (guarded m) P (ensure b message) (\<lambda>_. P)"
  by (auto intro: guard.moves_ret guard.moves_lift guard.moves_query guard.moves_reading guard.moves_ensure)

lemma guarded_write: "moves (guarded m) (backed m) (durable (on_managed f)) (\<lambda>_. backed m)"
  by (rule guard.moves_durable) (auto simp: cover_defs on_managed_def)

lemma guarded_runtime: "covered m P \<Longrightarrow> moves (guarded m) P (durable (put_runtime t)) (\<lambda>_. P)"
  by (rule guard.moves_durable) (auto simp: cover_defs put_runtime_def)

lemma guarded_generated: "covered m P \<Longrightarrow> moves (guarded m) P (durable (put_generated t)) (\<lambda>_. P)"
  by (rule guard.moves_durable) (auto simp: cover_defs put_generated_def on_managed_def client_data_def)

lemma guarded_handle:
  assumes "covered m P" and "moves (guarded m) P n (\<lambda>_. P)" and "\<And>e. moves (guarded m) P (h e) (\<lambda>_. P)"
  shows "moves (guarded m) P (handle p n h) (\<lambda>_. P)"
  by (rule guard.moves_handle [OF assms(2)], rule moves_conseq [OF assms(3)])
    (use assms(1) in \<open>auto simp: covered_def guarded_def\<close>)

lemma guarded_suppress:
  "covered m P \<Longrightarrow> moves (guarded m) P n (\<lambda>_. P) \<Longrightarrow> moves (guarded m) P (suppress p n) (\<lambda>_. P)"
  unfolding suppress_def by (rule guarded_handle) (auto intro: guarded_pure)

lemma guarded_option:
  assumes "moves R P m Q" and "\<And>y. moves R P (f y) Q"
  shows "moves R P (case x of None \<Rightarrow> m | Some y \<Rightarrow> f y) Q"
  using assms by (cases x) simp_all

lemma guarded_pair: "(\<And>x y. moves R P (f x y) Q) \<Longrightarrow> moves R P (case p of (x, y) \<Rightarrow> f x y) Q"
  by (cases p) simp

lemma guarded_bind:
  "moves (guarded m) P n (\<lambda>_. P) \<Longrightarrow> (\<And>x. moves (guarded m) P (f x) Q) \<Longrightarrow> moves (guarded m) P (bindE n f) Q"
  by (rule guard.moves_bind)

lemma guarded_end: "moves (guarded m) P (ret x) (\<lambda>_ _. True)"
  by (rule guard.moves_ret) simp

lemmas guard_rules = guarded_pure guarded_end guarded_write guarded_runtime guarded_generated guarded_handle guarded_suppress
  guarded_option guarded_pair guard.moves_raise guarded_bind moves_if guarded_ask guarded_clock cover_rules

lemma guarded_for_each:
  "(\<And>x. moves (guarded m) (backed m) (f x) (\<lambda>_. backed m)) \<Longrightarrow>
     moves (guarded m) (backed m) (for_each f xs) (\<lambda>_. backed m)"
  by (rule guard.moves_for_each) blast

lemma guarded_backup:
  "moves (guarded m) (\<lambda>s. st_managed s = m) (create_backup dk) (\<lambda>_. backed m)"
  unfolding create_backup_def
proof (rule guard.moves_bind [OF guarded_clock], rule cover_rules, rule guard.moves_bind [OF guarded_pure(3)], rule guard.moves_bind)
  fix destination
  show "moves (guarded m) (\<lambda>s. st_managed s = m)
    (durable (\<lambda>s. s\<lparr>st_backups := st_backups s @ [(destination, st_managed s)]\<rparr>)) (\<lambda>_. backed m)"
    by (rule guard.moves_durable) (auto simp: cover_defs)
qed (intro guard_rules)

definition after_backup :: "'h desk \<Rightarrow> ('h site, 'a) eff \<Rightarrow> ('h site, 'a) eff" where
  "after_backup dk n = bindE (create_backup dk) (\<lambda>_. n)"

lemma guarded_after_backup:
  "moves (guarded m) (backed m) n (\<lambda>_. backed m) \<Longrightarrow>
     moves (guarded m) (\<lambda>s. st_managed s = m) (after_backup dk n) (\<lambda>_ _. True)"
  unfolding after_backup_def by (rule guard.moves_bind [OF guarded_backup], erule moves_conseq) simp_all

lemma guarded_live: "observed m P \<Longrightarrow> moves (guarded m) P (live_peers dk i) (\<lambda>_. P)"
  unfolding live_peers_def by (assumption | rule guard_rules)+

lemma guarded_commit: "covered m P \<Longrightarrow> moves (guarded m) P (commit_server_config dk t a) (\<lambda>_. P)"
  unfolding commit_server_config_def restore_server_files_def Let_def by (intro guard_rules)

lemma guarded_drift: "observed m P \<Longrightarrow> moves (guarded m) P (ensure_no_drift dk) (\<lambda>_. P)"
  unfolding ensure_no_drift_def by (assumption | rule guard_rules)+

lemma guarded_keys: "moves (guarded m) (backed m) (generate_key_material dk b) (\<lambda>_. backed m)"
  unfolding generate_key_material_def Let_def by (intro guard_rules)

lemma guarded_write_client: "moves (guarded m) (backed m) (write_client_state dk c n a k p q nc) (\<lambda>_. backed m)"
  unfolding write_client_state_def write_key_files_def generate_qr_def write_metadata_def Let_def
  by (intro guard_rules)

lemma guarded_remove:
  "moves (guarded m) (backed m) (remove_client_state n) (\<lambda>_. backed m)"
  "moves (guarded m) (backed m) (remove_archive n) (\<lambda>_. backed m)"
  "moves (guarded m) (backed m) (put_back n c) (\<lambda>_. backed m)"
  "moves (guarded m) (backed m) (write_metadata n d) (\<lambda>_. backed m)"
  "moves (guarded m) (backed m) (restore_metadata p) (\<lambda>_. backed m)"
  "moves (guarded m) (backed m) (mark_expired now p) (\<lambda>_. backed m)"
  unfolding remove_client_state_def remove_archive_def put_back_def write_metadata_def restore_metadata_def mark_expired_def
  by (intro guard_rules)+

lemma guarded_archive: "moves (guarded m) (backed m) (archive_client_copy dk n b) (\<lambda>_. backed m)"
  unfolding archive_client_copy_def set_archive_def Let_def by (intro guard_rules)

lemma guarded_restore: "moves (guarded m) (backed m) (restore_client_from_archive n a) (\<lambda>_. backed m)"
  unfolding restore_client_from_archive_def by (intro guard_rules guarded_remove)

lemma guarded_change:
  assumes "moves (guarded m) (backed m) change (\<lambda>_. backed m)" and "moves (guarded m) (backed m) verify (\<lambda>_. backed m)"
    and "moves (guarded m) (backed m) undo (\<lambda>_. backed m)"
  shows "moves (guarded m) (backed m) (committed_change dk config old change verify undo) (\<lambda>_. backed m)"
  unfolding committed_change_def commit_old_clients_def render_now_def
  by (intro guard_rules guarded_commit assms)

lemmas guard_steps = guard_rules guarded_after_backup guarded_live guarded_commit guarded_drift guarded_keys
  guarded_write_client guarded_remove guarded_archive guarded_restore guarded_change guarded_for_each

lemma guarded_add: "moves (guarded m) (\<lambda>s. st_managed s = m) (cmd_client_add dk n nc d) (\<lambda>_ _. True)"
  unfolding cmd_client_add_def verify_peer_state_def render_now_def after_backup_def [symmetric]
  by (intro guard_steps)

lemma guarded_revoke: "moves (guarded m) (\<lambda>s. st_managed s = m) (cmd_client_revoke dk n d) (\<lambda>_ _. True)"
  unfolding cmd_client_revoke_def verify_peer_state_def render_now_def after_backup_def [symmetric]
  by (intro guard_steps)

lemma guarded_rotate: "moves (guarded m) (\<lambda>s. st_managed s = m) (cmd_client_rotate dk n d) (\<lambda>_ _. True)"
  unfolding cmd_client_rotate_def verify_rotation_def render_now_def after_backup_def [symmetric]
  by (intro guard_steps)

lemma guarded_edit: "moves (guarded m) (\<lambda>s. st_managed s = m) (cmd_client_edit dk n c k d) (\<lambda>_ _. True)"
  unfolding cmd_client_edit_def after_backup_def [symmetric]
  by (intro guard_steps)

lemma guarded_import: "moves (guarded m) (\<lambda>s. st_managed s = m) (cmd_client_import dk n t p nc d) (\<lambda>_ _. True)"
  unfolding cmd_client_import_def after_backup_def [symmetric]
  by (intro guard_steps)

lemma guarded_expire_pair:
  assumes "covered m P" and "snapshots = [] \<or> P = backed m"
  shows "moves (guarded m) P (commit_expiry dk now clients due snapshots) (\<lambda>_. P)"
proof -
  have "moves (guarded m) P (for_each (mark_expired now) snapshots) (\<lambda>_. P)"
    "moves (guarded m) P (for_each restore_metadata snapshots) (\<lambda>_. P)"
    using assms(2) by (auto intro: guard_steps)
  then show ?thesis unfolding commit_expiry_def using assms(1)
    by (intro guarded_handle guarded_bind guarded_pure guarded_commit guard.moves_raise)
qed

lemma guarded_verify_expired:
  "covered m P \<Longrightarrow> moves (guarded m) P (verify_expired dk i t selected) (\<lambda>_. P)"
  unfolding verify_expired_def check_expired_peers_def by (assumption | rule guard_steps)+

lemma guarded_expiry_tail:
  assumes "\<And>P snapshots. covered m P \<Longrightarrow> snapshots = [] \<or> P = backed m \<Longrightarrow>
    moves (guarded m) P (rest snapshots) (\<lambda>_. P)"
  shows "moves (guarded m) (\<lambda>s. st_managed s = m)
    (bindE (if due = [] then ret [] else create_backup dk) (\<lambda>_.
     bindE (reading (\<lambda>s. result_list (stored_metadata (st_managed s)) due)) rest)) (\<lambda>_ _. True)"
proof (cases "due = []")
  case True
  have "moves (guarded m) (\<lambda>s. st_managed s = m) (rest []) (\<lambda>_ _. True)"
    by (rule moves_conseq [OF assms [of "safe m"]]) (simp_all add: cover_rules safe_def)
  moreover have "bindE (reading (\<lambda>s. result_list (stored_metadata (st_managed s)) [])) rest = rest []"
    by (simp add: fun_eq_iff run_simps)
  ultimately show ?thesis using True by simp
next
  case False
  have "moves (guarded m) (backed m) (bindE (reading (\<lambda>s. result_list (stored_metadata (st_managed s)) due)) rest)
    (\<lambda>_. backed m)" using assms by (intro guard_steps) (simp add: cover_rules)
  then have "moves (guarded m) (\<lambda>s. st_managed s = m) (after_backup dk
      (bindE (reading (\<lambda>s. result_list (stored_metadata (st_managed s)) due)) rest)) (\<lambda>_ _. True)"
    by (rule guarded_after_backup)
  with False show ?thesis by (simp add: after_backup_def)
qed

lemma guarded_expire: "moves (guarded m) (\<lambda>s. st_managed s = m) (cmd_expire_clients dk) (\<lambda>_ _. True)"
  unfolding cmd_expire_clients_def Let_def
  by (intro guarded_expiry_tail guarded_bind guarded_pure guarded_end moves_if guarded_ask guarded_clock guarded_pair
      cover_rules guarded_expire_pair guarded_verify_expired) (assumption | rule guard_steps guarded_expire_pair guarded_verify_expired)+

text \<open>
  C10: Whatever a client command does, and wherever it is interrupted (a crash before any of its
  writes, a refused or unsynced write, an exception of a service it calls), the client files and keys
  on disk are those it found, or a backup of the complete managed state it found has been taken.
\<close>

theorem client_change_backed_up:
  "client_data (st_managed (snd (snd (run_client_command dk command (fault, s))))) = client_data (st_managed s)
   \<or> st_managed s \<in> snd ` set (st_backups (snd (snd (run_client_command dk command (fault, s)))))"
proof -
  let ?m = "st_managed s"
  have "moves (guarded ?m) (\<lambda>s. st_managed s = ?m) (run_client_command dk command) (\<lambda>_ _. True)"
    by (cases command) (simp_all add: guarded_add guarded_import guarded_edit guarded_revoke guarded_rotate guarded_expire)
  moreover have "st_managed s = ?m" by (rule refl)
  moreover obtain r b s' where e: "run_client_command dk command (fault, s) = (r, (b, s'))" by (metis surj_pair)
  ultimately have "guarded ?m s s'" by (rule movesD(1))
  then show ?thesis by (simp add: guarded_def safe_def backed_def e)
qed

end
