(* ===== verification/ClientSteps.thy ===== *)
theory ClientSteps
  imports ClientCommands
begin

text \<open>
  What the operations on the client files do to them when no write of their own fails: for every
  operation the state of the files it returns with and the one it raises with, over the managed
  state without the server file, the two server files and the backups. The rest of the host may
  change at every step.
\<close>

section \<open>Frames\<close>

text \<open>The managed state without the server file, the two server files, and the backups.\<close>

definition core :: "managed \<Rightarrow> managed" where
  "core m = m\<lparr>mg_generated := None\<rparr>"

definition servers :: "'h site \<Rightarrow> string option \<times> string option" where
  "servers s = (mg_generated (st_managed s), st_runtime s)"

definition site_is :: "managed \<Rightarrow> string option \<times> string option \<Rightarrow> (string \<times> managed) list \<Rightarrow> 'h site \<Rightarrow> bool" where
  "site_is c f bs s \<longleftrightarrow> core (st_managed s) = c \<and> servers s = f \<and> st_backups s = bs"

lemma site_is_host [simp]: "site_is c f bs (s\<lparr>st_host := h\<rparr>) = site_is c f bs s"
  by (simp add: site_is_def servers_def)

lemma site_is_managed: "site_is c f bs s \<Longrightarrow> st_managed s = c\<lparr>mg_generated := fst f\<rparr>"
  by (auto simp: site_is_def core_def servers_def)

lemma site_is_self: "site_is (core (st_managed s)) (servers s) (st_backups s) s"
  by (simp add: site_is_def)

lemma wp_ask:
  assumes "\<And>x h. Q x (None, s\<lparr>st_host := h\<rparr>)" and "\<And>e h. E e (None, s\<lparr>st_host := h\<rparr>)"
  shows "wp (ask f) Q E (None, s)"
  using assms by (simp add: wp_def ask_def split: prod.split sum.split)

lemma does_ask:
  "(\<And>s x h. P s \<Longrightarrow> Q x (s\<lparr>st_host := h\<rparr>)) \<Longrightarrow> (\<And>s h. P s \<Longrightarrow> E (s\<lparr>st_host := h\<rparr>)) \<Longrightarrow> does P (ask f) Q E"
  unfolding does_def by (auto intro: wp_ask)

lemma does_clock: "(\<And>s x h. P s \<Longrightarrow> Q x (s\<lparr>st_host := h\<rparr>)) \<Longrightarrow> does P (clock dk) Q E"
  unfolding does_def clock_def
  by (simp add: wp_def ask_def split: prod.split)

section \<open>Steps from a known state\<close>

lemma step_read:
  assumes "\<And>x. g (c\<lparr>mg_generated := fst f\<rparr>) = Inr x \<Longrightarrow> does (site_is c f bs) (k x) Q E"
    and "\<And>s. site_is c f bs s \<Longrightarrow> E s"
  shows "does (site_is c f bs) (bindE (reading (\<lambda>s. g (st_managed s))) k) Q E"
  by (rule step_known [where r = "g (c\<lparr>mg_generated := fst f\<rparr>)"]) (use assms in \<open>auto dest: site_is_managed\<close>)

lemma step_query:
  assumes "does (site_is c f bs :: 'h site \<Rightarrow> bool) (k (g (c\<lparr>mg_generated := fst f\<rparr>))) Q E"
  shows "does (site_is c f bs) (bindE (query (\<lambda>s. g (st_managed s))) k) Q E"
proof (rule doesI)
  fix s :: "'h site" assume "site_is c f bs s"
  with site_is_managed [OF this] doesD [OF assms this]
  show "wp (bindE (query (\<lambda>s. g (st_managed s))) k) (\<lambda>x. calm (Q x)) (\<lambda>e. calm E) (None, s)"
    by (simp add: wp_steps)
qed

lemma generated_set: "mg_generated (c\<lparr>mg_generated := g\<rparr>) = g"
  by simp

lemma step_ask:
  assumes "\<And>x. does (site_is c f bs) (k x) Q E" and "\<And>s. site_is c f bs s \<Longrightarrow> E s"
  shows "does (site_is c f bs) (bindE (ask g) k) Q E"
  by (rule does_bind [OF does_ask [where Q = "\<lambda>x. site_is c f bs"]]) (use assms in simp_all)

lemma step_clock:
  assumes "\<And>x. does (site_is c f bs) (k x) Q E"
  shows "does (site_is c f bs) (bindE (clock dk) k) Q E"
  by (rule does_bind [OF does_clock [where Q = "\<lambda>x. site_is c f bs"]]) (use assms in simp_all)

lemma step_write:
  assumes "\<And>m. mg_generated (g m) = mg_generated m" and "core (g (c\<lparr>mg_generated := fst f\<rparr>)) = c'"
  shows "does (site_is c f bs) (durable (on_managed g)) (\<lambda>_. site_is c' f bs) E"
proof (rule does_durable)
  fix s assume p: "site_is c f bs s"
  from p have "servers (on_managed g s) = f" using assms(1) by (simp add: site_is_def servers_def on_managed_def)
  with p assms(2) site_is_managed [OF p] show "site_is c' f bs (on_managed g s)"
    by (simp add: site_is_def on_managed_def)
qed

section \<open>The operations\<close>

lemma core_simps [simp]:
  "core (m\<lparr>mg_generated := g\<rparr>) = core m"
  "core (core m) = core m"
  "mg_clients (core m) = mg_clients m" "mg_keys (core m) = mg_keys m" "mg_revoked (core m) = mg_revoked m"
  "core (m\<lparr>mg_clients := cl\<rparr>) = (core m)\<lparr>mg_clients := cl\<rparr>"
  "core (m\<lparr>mg_keys := ks\<rparr>) = (core m)\<lparr>mg_keys := ks\<rparr>"
  "core (m\<lparr>mg_revoked := rv\<rparr>) = (core m)\<lparr>mg_revoked := rv\<rparr>"
  by (simp_all add: core_def)

lemma site_is_core: "site_is c f bs s \<Longrightarrow> core c = c"
  by (auto simp: site_is_def)

lemma does_generated: "does (site_is c f bs) (durable (put_generated t)) (\<lambda>_. site_is c (t, snd f) bs) E"
  by (rule does_durable) (auto simp: site_is_def servers_def put_generated_def on_managed_def)

lemma does_runtime: "does (site_is c f bs) (durable (put_runtime t)) (\<lambda>_. site_is c (fst f, Some t) bs) E"
  by (rule does_durable) (auto simp: site_is_def servers_def put_runtime_def)

lemma does_restore_servers:
  "does (site_is c f bs) (restore_server_files dk g r a) (\<lambda>_. site_is c (g, Some r) bs) E"
proof -
  have "does (site_is c (g, Some r) bs) (case a of None \<Rightarrow> ret True
      | Some (verb, interface) \<Rightarrow> handle any_error (bindE (ask (dk_service dk verb interface)) (\<lambda>_. ret True)) (\<lambda>e. ret False))
    (\<lambda>_. site_is c (g, Some r) bs) E"
    by (intro does_option does_ret does_pair does_handle step_ask)
  then show ?thesis unfolding restore_server_files_def
    by (intro does_bind [OF does_runtime] does_bind [OF does_generated]) simp
qed

lemma does_commit:
  "does (site_is c f bs) (commit_server_config dk t a) (\<lambda>_. site_is c (Some t, Some t) bs) (site_is c f bs)"
proof -
  have tail: "does (site_is c (Some t, Some t) bs)
      (bindE (handle any_error
          (case action of None \<Rightarrow> ret () | Some (verb, interface) \<Rightarrow> ask (dk_service dk verb interface))
          (\<lambda>e. bindE (restore_server_files dk (fst f) r action) (\<lambda>ok. raise (message ok)))) (\<lambda>_. ret active))
      (\<lambda>_. site_is c (Some t, Some t) bs) (site_is c f bs)" if "snd f = Some r" for r action message active
  proof (rule does_bind, rule does_handle)
    show "does (site_is c (Some t, Some t) bs)
       (case action of None \<Rightarrow> ret () | Some (verb, interface) \<Rightarrow> ask (dk_service dk verb interface))
       (\<lambda>_. site_is c (Some t, Some t) bs) (site_is c (Some t, Some t) bs)"
      by (intro does_option does_ret does_pair does_ask) simp_all
    show "does (site_is c (Some t, Some t) bs)
       (bindE (restore_server_files dk (fst f) r action) (\<lambda>ok. raise (message ok)))
       (\<lambda>_. site_is c (Some t, Some t) bs) (site_is c f bs)" for e
      by (rule does_bind [OF does_restore_servers], rule does_raise) (simp add: that [symmetric])
    show "does (site_is c (Some t, Some t) bs) (ret active) (\<lambda>_. site_is c (Some t, Some t) bs) (site_is c f bs)" for x
      by (rule does_ret)
  qed
  have runtime: "st_runtime s = snd f" if "site_is c f bs s" for s
    using that by (auto simp: site_is_def servers_def)
  show ?thesis unfolding commit_server_config_def Let_def
    apply (rule step_ask)
     apply (rule step_query)
     apply (rule step_known [where r = "or_raise (snd f) FileNotFoundError"])
       apply (simp add: runtime)
      apply (rule step_read)
       apply (rule step_ask)
        apply (rule does_bind [OF does_generated])
        apply (rule does_bind [OF does_runtime])
        apply (unfold fst_conv snd_conv generated_set)
        apply (rule tail)
        apply (auto simp: or_raise_def split: option.splits)
    done
qed

lemma does_drift: "does (site_is c f bs) (ensure_no_drift dk) (\<lambda>_. site_is c f bs) (site_is c f bs)"
proof -
  have files: "read_server_files s = (case f of (Some g, Some r) \<Rightarrow> Inr (g, r)
      | _ \<Rightarrow> Inl (AwgctlError ''cannot read generated/runtime server configuration''))" if "site_is c f bs s" for s :: "'h site"
    using that by (auto simp: read_server_files_def site_is_def servers_def)
  show ?thesis unfolding ensure_no_drift_def
    by (intro step_clock step_read step_known [OF files] does_pair step_ensure does_ensure)
qed

text \<open>The drift check has rendered the server file of the state it passes.\<close>

lemma does_drift_rendered:
  "does (site_is c f bs) (ensure_no_drift dk)
     (\<lambda>_ s. (\<exists>now t. render_current_server (c\<lparr>mg_generated := fst f\<rparr>) None now = Inr t) \<and> site_is c f bs s) (site_is c f bs)"
proof -
  have files: "read_server_files s = (case f of (Some g, Some r) \<Rightarrow> Inr (g, r)
      | _ \<Rightarrow> Inl (AwgctlError ''cannot read generated/runtime server configuration''))" if "site_is c f bs s" for s :: "'h site"
    using that by (auto simp: read_server_files_def site_is_def servers_def)
  show ?thesis unfolding ensure_no_drift_def
  proof (rule step_clock, rule step_read)
    fix now expected assume "render_current_server (c\<lparr>mg_generated := fst f\<rparr>) None now = Inr expected"
    then have q: "(\<exists>now t. render_current_server (c\<lparr>mg_generated := fst f\<rparr>) None now = Inr t) \<and> site_is c f bs s"
      if "site_is c f bs s" for s :: "'h site" using that by blast
    show "does (site_is c f bs) (bindE (reading read_server_files) (\<lambda>(generated, runtime).
       bindE (ensure (generated = expected \<or> legacy_lifecycle_hook_drift expected generated)
         ''managed-state drift'') (\<lambda>_.
       ensure (runtime = generated) ''manual runtime drift detected'')))
       (\<lambda>_ s. (\<exists>now t. render_current_server (c\<lparr>mg_generated := fst f\<rparr>) None now = Inr t) \<and> site_is c f bs s) (site_is c f bs)"
      by (intro step_known [OF files] does_pair step_ensure does_ensure) (rule q | assumption)+
  qed
qed

text \<open>A backup is appended, possibly by a backup that fails afterwards.\<close>

definition with_backup :: "managed \<Rightarrow> (string \<times> managed) list \<Rightarrow> (string \<times> managed) list \<Rightarrow> bool" where
  "with_backup m bs bs' \<longleftrightarrow> bs' = bs \<or> (\<exists>d. bs' = bs @ [(d, m)])"

lemma does_backup:
  "does (site_is c f bs) (create_backup dk)
     (\<lambda>d. site_is c f (bs @ [(d, c\<lparr>mg_generated := fst f\<rparr>)]))
     (\<lambda>s. \<exists>bs'. with_backup (c\<lparr>mg_generated := fst f\<rparr>) bs bs' \<and> site_is c f bs' s)"
proof -
  have tail: "does (site_is c f bs) (bindE (query (\<lambda>s. free_name (utc_timestamp now) (map fst (st_backups s)))) (\<lambda>d.
      bindE (durable (\<lambda>s. s\<lparr>st_backups := st_backups s @ [(d, st_managed s)]\<rparr>)) (\<lambda>_. k d)))
    (\<lambda>d. site_is c f (bs @ [(d, c\<lparr>mg_generated := fst f\<rparr>)]))
    (\<lambda>s. \<exists>bs'. with_backup (c\<lparr>mg_generated := fst f\<rparr>) bs bs' \<and> site_is c f bs' s)"
    if k: "\<And>d. does (site_is c f (bs @ [(d, c\<lparr>mg_generated := fst f\<rparr>)])) (k d)
        (\<lambda>d'. site_is c f (bs @ [(d', c\<lparr>mg_generated := fst f\<rparr>)]))
        (site_is c f (bs @ [(d, c\<lparr>mg_generated := fst f\<rparr>)]))" for now and k :: "string \<Rightarrow> ('h site, string) eff"
  proof (rule does_bind [OF does_query [where Q = "\<lambda>_. site_is c f bs"]], assumption,
      rule does_bind [where R = "\<lambda>_. site_is c f (bs @ [(d, c\<lparr>mg_generated := fst f\<rparr>)])" for d])
    fix d
    show "does (site_is c f bs) (durable (\<lambda>s. s\<lparr>st_backups := st_backups s @ [(d, st_managed s)]\<rparr>))
      (\<lambda>_. site_is c f (bs @ [(d, c\<lparr>mg_generated := fst f\<rparr>)]))
      (\<lambda>s. \<exists>bs'. with_backup (c\<lparr>mg_generated := fst f\<rparr>) bs bs' \<and> site_is c f bs' s)"
      by (rule does_durable, frule site_is_managed) (simp add: site_is_def servers_def)
    show "does (site_is c f (bs @ [(d, c\<lparr>mg_generated := fst f\<rparr>)])) (k d)
      (\<lambda>d'. site_is c f (bs @ [(d', c\<lparr>mg_generated := fst f\<rparr>)]))
      (\<lambda>s. \<exists>bs'. with_backup (c\<lparr>mg_generated := fst f\<rparr>) bs bs' \<and> site_is c f bs' s)"
      by (rule does_conseq [OF k]) (auto simp: with_backup_def)
  qed
  show ?thesis unfolding create_backup_def
    by (rule step_clock, rule tail) (intro step_read step_ask does_ret)
qed

lemma does_keys:
  "does (site_is c f bs) (generate_key_material dk b) (\<lambda>_. site_is c f bs) (site_is c f bs)"
  unfolding generate_key_material_def Let_def by (intro step_ask step_lift does_if does_ret)

lemma does_live: "does (site_is c f bs) (live_peers dk i) (\<lambda>_. site_is c f bs) (site_is c f bs)"
  unfolding live_peers_def by (intro step_ask does_ret)

lemma does_verify_peer: "does (site_is c f bs) (verify_peer_state dk i k b) (\<lambda>_. site_is c f bs) (site_is c f bs)"
  unfolding verify_peer_state_def by (intro step_then [OF does_live] does_ensure)

lemma does_verify_rotation: "does (site_is c f bs) (verify_rotation dk i k k') (\<lambda>_. site_is c f bs) (site_is c f bs)"
  unfolding verify_rotation_def by (intro step_then [OF does_live] does_ensure)

lemma does_render:
  "does (site_is c f bs) (render_now dk config clients)
     (\<lambda>t s. (\<exists>now. render_clients c config clients now = Inr t) \<and> site_is c f bs s)
     (\<lambda>s. (\<exists>now e. render_clients c config clients now = Inl e) \<and> site_is c f bs s)"
proof -
  have same: "render_clients (c\<lparr>mg_generated := g\<rparr>) config clients now = render_clients c config clients now" for g now
    by (simp add: render_clients_def server_private_key_def header_protection_key_for_config_def
      cong: obfuscation.case_cong)
  show ?thesis unfolding render_now_def
    by (rule step_clock, rule does_reading; frule site_is_managed) (simp add: same, blast)+
qed

section \<open>The files of a client\<close>

lemma does_remove:
  "does (site_is c f bs) (remove_client_state name)
     (\<lambda>_. site_is (c\<lparr>mg_clients := erase name (mg_clients c), mg_keys := erase name (mg_keys c)\<rparr>) f bs) E"
proof (cases "core c = c")
  case True
  show ?thesis unfolding remove_client_state_def
  proof (rule does_bind, rule does_suppress)
    show "does (site_is c f bs) (durable (on_managed (\<lambda>m. m\<lparr>mg_clients := erase name (mg_clients m)\<rparr>)))
      (\<lambda>_. site_is (c\<lparr>mg_clients := erase name (mg_clients c)\<rparr>) f bs) (site_is (c\<lparr>mg_clients := erase name (mg_clients c)\<rparr>) f bs)"
      by (rule step_write) (simp_all add: True)
    show "does (site_is (c\<lparr>mg_clients := erase name (mg_clients c)\<rparr>) f bs)
      (suppress any_error (durable (on_managed (\<lambda>m. m\<lparr>mg_keys := erase name (mg_keys m)\<rparr>))))
      (\<lambda>_. site_is (c\<lparr>mg_clients := erase name (mg_clients c), mg_keys := erase name (mg_keys c)\<rparr>) f bs) E" for x
      by (rule does_suppress, rule step_write) (simp_all add: True)
  qed
next
  case False
  then show ?thesis by (auto simp: does_def dest: site_is_core)
qed

definition building :: "managed \<Rightarrow> string \<Rightarrow> client_dir \<Rightarrow> key_dir \<Rightarrow> managed" where
  "building c name d k = c\<lparr>mg_clients := mg_clients c @ [(name, d)], mg_keys := mg_keys c @ [(name, k)]\<rparr>"

definition unused :: "string \<Rightarrow> managed \<Rightarrow> bool" where
  "unused name c \<longleftrightarrow> name \<notin> fst ` set (mg_clients c) \<and> name \<notin> fst ` set (mg_keys c)"

definition partly_written :: "string \<Rightarrow> managed \<Rightarrow> managed \<Rightarrow> bool" where
  "partly_written name c c' \<longleftrightarrow> (\<exists>xs ys. fst ` set xs \<subseteq> {name} \<and> fst ` set ys \<subseteq> {name}
     \<and> c' = c\<lparr>mg_clients := mg_clients c @ xs, mg_keys := mg_keys c @ ys\<rparr>)"

lemma update_fresh: "name \<notin> fst ` set m \<Longrightarrow> map (\<lambda>(n, d). if n = name then (n, g d) else (n, d)) m = m"
  by (rule map_idI) (auto simp: image_iff)

lemma partly_building [simp]: "partly_written name c (building c name d k)"
  unfolding partly_written_def building_def by (intro exI [of _ "[(name, d)]"] exI [of _ "[(name, k)]"]) simp

lemma partly_none: "partly_written name c c"
  unfolding partly_written_def by (intro exI [of _ "[]"]) simp

lemma does_in_client:
  assumes "unused name c" and "core c = c"
  shows "does (site_is (building c name d k) f bs) (durable (on_managed (in_client name g)))
    (\<lambda>_. site_is (building c name (g d) k) f bs) E"
  by (rule step_write) (use assms in \<open>simp_all add: in_client_def building_def unused_def update_fresh\<close>)

lemma does_in_keys:
  assumes "unused name c" and "core c = c"
  shows "does (site_is (building c name d k) f bs) (durable (on_managed (in_keys name g)))
    (\<lambda>_. site_is (building c name d (g k)) f bs) E"
  by (rule step_write) (use assms in \<open>simp_all add: in_keys_def building_def unused_def update_fresh\<close>)

definition psk_file :: "string option \<Rightarrow> string result" where
  "psk_file psk = (case psk of None \<Rightarrow> Inl FileNotFoundError
     | Some p \<Rightarrow> if p = [] then Inl FileNotFoundError else Inr (p @ ''\<newline>''))"

definition written_keys :: "string \<Rightarrow> string \<Rightarrow> string option \<Rightarrow> key_dir" where
  "written_keys private public psk =
     \<lparr>kd_private = Inr (private @ ''\<newline>''), kd_public = Inr (public @ ''\<newline>''), kd_psk = psk_file psk\<rparr>"

lemma does_write_keys:
  assumes "unused name c" and "core c = c"
  shows "does (site_is (building c name d empty_key_dir) f bs) (write_key_files name private public psk)
    (\<lambda>_. site_is (building c name d (written_keys private public psk)) f bs) E"
proof -
  let ?k = "\<lparr>kd_private = Inr (private @ ''\<newline>''), kd_public = Inr (public @ ''\<newline>''), kd_psk = Inl FileNotFoundError\<rparr>"
  have last: "does (site_is (building c name d ?k) f bs) (case psk of None \<Rightarrow> ret ()
     | Some p \<Rightarrow> if p = [] then ret ()
         else durable (on_managed (in_keys name (\<lambda>k. k\<lparr>kd_psk := Inr (p @ ''\<newline>'')\<rparr>))))
    (\<lambda>_. site_is (building c name d (written_keys private public psk)) f bs) E"
  proof (cases "psk = None \<or> psk = Some []")
    case True
    then show ?thesis by (auto simp: written_keys_def psk_file_def intro!: does_ret)
  next
    case False
    then obtain p where p: "psk = Some p" "p \<noteq> []" by auto
    with does_in_keys [OF assms, of d ?k f bs "\<lambda>k. k\<lparr>kd_psk := Inr (p @ ''\<newline>'')\<rparr>"] show ?thesis
      by (simp add: written_keys_def psk_file_def)
  qed
  show ?thesis unfolding write_key_files_def
    by (rule does_bind [OF does_in_keys [OF assms]], rule does_bind [OF does_in_keys [OF assms]])
      (use last in \<open>simp add: empty_key_dir_def\<close>)
qed

definition stamped :: "new_client \<Rightarrow> obj \<Rightarrow> obj" where
  "stamped nc metadata = (case nc_imported_from nc of None \<Rightarrow> metadata
     | Some f \<Rightarrow> if f = [] then metadata else put metadata ''imported_from'' (JStr f))"

definition written_client ::
  "'h desk \<Rightarrow> managed \<Rightarrow> server_config \<Rightarrow> string \<Rightarrow> string \<Rightarrow> string \<Rightarrow> string \<Rightarrow> string option \<Rightarrow> new_client
     \<Rightarrow> client_dir \<Rightarrow> bool" where
  "written_client dk c config name address private public psk nc d \<longleftrightarrow>
     (\<exists>now i metadata profile image. ip_interface address = Some i
        \<and> normalize_client_metadata (JObj (client_document dk name (interface_text address i) public psk nc (utc_text now)))
            = Inr metadata
        \<and> client_profile config address private psk nc c = Inr profile
        \<and> d = \<lparr>cd_metadata = Inr (JObj (stamped nc metadata)), cd_profile = Some profile, cd_image = Some image\<rparr>)"

lemma profile_frame:
  "client_profile config address private psk nc (m\<lparr>mg_clients := cl, mg_keys := ks, mg_generated := g\<rparr>)
     = client_profile config address private psk nc m"
  by (simp add: client_profile_def server_public_key_def header_protection_key_for_config_def
      cong: obfuscation.case_cong list.case_cong option.case_cong)

lemma does_write_client:
  assumes u: "unused name c" and c: "core c = c"
  shows "does (site_is c f bs) (write_client_state dk config name address private public psk nc)
    (\<lambda>_ s. \<exists>d. written_client dk c config name address private public psk nc d
       \<and> site_is (building c name d (written_keys private public psk)) f bs s)
    (\<lambda>s. \<exists>c'. partly_written name c c' \<and> site_is c' f bs s)"
proof -
  have part: "\<exists>c'. partly_written name c c' \<and> site_is c' f bs s"
    if "site_is (building c name d k) f bs s" for d k and s :: "'h site"
    using that by (metis partly_building)
  let ?e = "building c name empty_client_dir empty_key_dir"
  have first: "does (site_is c f bs) (durable (on_managed (\<lambda>m. m\<lparr>mg_clients := mg_clients m @ [(name, empty_client_dir)]\<rparr>)))
     (\<lambda>_. site_is (c\<lparr>mg_clients := mg_clients c @ [(name, empty_client_dir)]\<rparr>) f bs) E" for E
    by (rule step_write) (simp_all add: c)
  have second: "does (site_is (c\<lparr>mg_clients := mg_clients c @ [(name, empty_client_dir)]\<rparr>) f bs)
     (durable (on_managed (\<lambda>m. m\<lparr>mg_keys := mg_keys m @ [(name, empty_key_dir)]\<rparr>)))
     (\<lambda>_. site_is ?e f bs) E" for E
    by (rule step_write) (simp_all add: c building_def)
  show ?thesis
    unfolding write_client_state_def Let_def generate_qr_def write_metadata_def bindE_assoc
  proof (rule step_query, rule step_ensure, rule does_bind [OF first], rule does_bind [OF second], rule step_clock,
      rule step_lift, rule step_lift, rule does_bind [OF does_write_keys [OF u c]], rule step_read,
      rule does_bind [OF does_in_client [OF u c]], rule step_ask, rule does_bind [OF does_in_client [OF u c]],
      rule does_conseq [OF does_in_client [OF u c]])
    fix now address_text metadata profile image and s :: "'h site"
    assume "or_raise (map_option (interface_text address) (ip_interface address)) ValueError = Inr address_text"
      and m: "normalize_client_metadata
          (JObj (client_document dk name address_text public psk nc (utc_text now))) = Inr metadata"
      and p: "client_profile config address private psk nc
          (building c name empty_client_dir (written_keys private public psk)\<lparr>mg_generated := fst f\<rparr>) = Inr profile"
      and s: "site_is (building c name (empty_client_dir\<lparr>cd_profile := Some profile, cd_image := Some image,
          cd_metadata := Inr (JObj (case nc_imported_from nc of None \<Rightarrow> metadata
            | Some f \<Rightarrow> if f = [] then metadata else put metadata ''imported_from'' (JStr f)))\<rparr>)
          (written_keys private public psk)) f bs s"
    then obtain i where i: "ip_interface address = Some i" "address_text = interface_text address i"
      by (auto simp: or_raise_def split: option.splits)
    have "written_client dk c config name address private public psk nc
        \<lparr>cd_metadata = Inr (JObj (stamped nc metadata)), cd_profile = Some profile, cd_image = Some image\<rparr>"
      unfolding written_client_def using m p i by (auto simp: building_def profile_frame)
    with s show "\<exists>d. written_client dk c config name address private public psk nc d
       \<and> site_is (building c name d (written_keys private public psk)) f bs s"
      by (auto simp: stamped_def empty_client_dir_def)
  qed (auto intro: part partly_none)
qed

section \<open>Archives\<close>

lemma undec_zero: "undec (CHR ''0'' # s) = undec s"
  by (simp add: undec_def digit_val_def ord_char_def)

lemma numbered_inj: "numbered base m = numbered base n \<longleftrightarrow> m = n"
proof
  define sfx where "sfx n = (if n < 10 then ''0'' else []) @ dec_nat n" for n :: nat
  have undec_sfx: "undec (sfx n) = n" for n by (simp add: sfx_def undec_zero)
  have num: "numbered base n = (if n = 0 then base else base @ ''-'' @ sfx n)" for n
    by (simp add: numbered_def sfx_def str_int_def)
  assume "numbered base m = numbered base n"
  then have "(m = 0) = (n = 0)" "m \<noteq> 0 \<Longrightarrow> sfx m = sfx n" by (auto simp: num split: if_splits)
  then show "m = n" by (metis undec_sfx)
qed simp

lemma free_name_free: "free_name base taken \<notin> set taken"
proof -
  have "\<exists>n\<in>set [0..<length taken + 1]. numbered base n \<notin> set taken"
  proof (rule ccontr)
    assume "\<not> ?thesis"
    then have "numbered base ` {0..<length taken + 1} \<subseteq> set taken" by (auto simp: less_Suc_eq)
    then have "card (numbered base ` {0..<length taken + 1}) \<le> card (set taken)" by (rule card_mono [rotated]) simp
    moreover have "card (numbered base ` {0..<length taken + 1}) = length taken + 1"
      by (subst card_image) (auto intro: inj_onI simp: numbered_inj)
    ultimately show False using card_length [of taken] by simp
  qed
  then obtain n where n: "find (\<lambda>n. numbered base n \<notin> set taken) [0..<length taken + 1] = Some n"
    by (metis (no_types, lifting) find_None_iff option.exhaust)
  then have "numbered base n \<notin> set taken" unfolding find_Some_iff by blast
  then show ?thesis unfolding free_name_def n by simp
qed

text \<open>Erasing and assigning entries of a directory.\<close>

lemma erase_append [simp]: "erase k (m @ m') = erase k m @ erase k m'"
  by (simp add: erase_def)

lemma erase_unused: "k \<notin> fst ` set m \<Longrightarrow> erase k m = m"
  by (auto simp: erase_def image_iff intro: filter_True)

lemma erase_only: "fst ` set m \<subseteq> {k} \<Longrightarrow> erase k m = []"
  by (auto simp: erase_def filter_empty_conv)

lemma map_of_erase: "map_of (erase k m) = (map_of m)(k := None)"
  by (induction m) (auto simp: erase_def fun_eq_iff)

lemma erase_fst: "k \<notin> fst ` set (erase k m)"
  by (auto simp: erase_def)

lemma assign_new: "k \<notin> fst ` set m \<Longrightarrow> assign k v m = m @ [(k, v)]"
  by (induction m) auto

lemma assign_last: "k \<notin> fst ` set m \<Longrightarrow> assign k v (m @ [(k, w)]) = m @ [(k, v)]"
  by (induction m) auto

definition archived :: "string \<Rightarrow> client_dir option \<Rightarrow> key_dir option \<Rightarrow> managed \<Rightarrow> managed" where
  "archived a d k c = c\<lparr>mg_revoked := mg_revoked c @ [(a, d, k)]\<rparr>"

lemma does_set_archive_new:
  "a \<notin> fst ` set (mg_revoked c) \<Longrightarrow> core c = c \<Longrightarrow>
     does (site_is c f bs) (set_archive a d k) (\<lambda>_. site_is (archived a d k c) f bs) E"
  unfolding set_archive_def by (rule step_write) (simp_all add: archived_def assign_new)

lemma does_set_archive:
  "a \<notin> fst ` set (mg_revoked c) \<Longrightarrow> core c = c \<Longrightarrow>
     does (site_is (archived a d' k' c) f bs) (set_archive a d k) (\<lambda>_. site_is (archived a d k c) f bs) E"
  unfolding set_archive_def by (rule step_write) (simp_all add: archived_def assign_last)

lemma does_remove_archive:
  assumes "a \<notin> fst ` set (mg_revoked c)" and "core c = c"
  shows "does (site_is (archived a d k c) f bs) (remove_archive a) (\<lambda>_. site_is c f bs) E"
  unfolding remove_archive_def
  by (rule does_suppress, rule step_write) (use assms in \<open>simp_all add: archived_def erase_unused erase_only\<close>)

text \<open>The archived metadata is the client's, marked.\<close>

definition marked_dir :: "string \<Rightarrow> int \<Rightarrow> client_dir \<Rightarrow> client_dir \<Rightarrow> bool" where
  "marked_dir status now d d' \<longleftrightarrow> (\<exists>m. cd_metadata d = Inr (JObj m)
     \<and> d' = d\<lparr>cd_metadata := Inr (JObj (put_all m [(''status'', JStr status), (''revoked_at'', JStr (utc_text now))]))\<rparr>)"

lemma object_ofD: "andthen r object_of = Inr m \<Longrightarrow> r = Inr (JObj m)"
  by (cases r) (auto simp: object_of_def or_raise_def split: option.splits json.splits)

lemma does_archive:
  fixes dk :: "'h desk"
  assumes c: "core c = c"
  shows "does (site_is c f bs) (archive_client_copy dk name rotation)
    (\<lambda>a s. \<exists>d k d' now. a \<notin> fst ` set (mg_revoked c) \<and> map_of (mg_clients c) name = Some d
       \<and> map_of (mg_keys c) name = Some k \<and> marked_dir (if rotation then ''rotated'' else ''revoked'') now d d'
       \<and> site_is (archived a (Some d') (Some k) c) f bs s)
    (\<lambda>s. \<exists>xs. site_is (c\<lparr>mg_revoked := mg_revoked c @ xs\<rparr>) f bs s)"
    (is "does _ _ ?Q ?E")
proof -
  have part: "?E s" if "site_is (archived a d k c) f bs s" for a d k and s :: "'h site"
    using that unfolding archived_def by blast
  have part': "?E s" if "site_is c f bs s" for s :: "'h site"
    using that by (intro exI [of _ "[]"]) simp
  have tail: "does (site_is c f bs)
      (bindE (set_archive a None None) (\<lambda>_.
       bindE (reading (\<lambda>s. or_raise (map_of (mg_clients (st_managed s)) name) FileNotFoundError)) (\<lambda>d.
       bindE (set_archive a (Some d) None) (\<lambda>_.
       bindE (reading (\<lambda>s. or_raise (map_of (mg_keys (st_managed s)) name) FileNotFoundError)) (\<lambda>k.
       bindE (set_archive a (Some d) (Some k)) (\<lambda>_.
       bindE (lift (andthen (cd_metadata d) object_of)) (\<lambda>metadata.
       bindE (clock dk) (\<lambda>now.
       bindE (set_archive a (Some (d\<lparr>cd_metadata := Inr (JObj (put_all metadata
             [(''status'', JStr (if rotation then ''rotated'' else ''revoked'')),
              (''revoked_at'', JStr (utc_text now))]))\<rparr>)) (Some k)) (\<lambda>_.
       ret a)))))))))
      ?Q ?E" if a: "a \<notin> fst ` set (mg_revoked c)" for a
  proof (rule does_bind [OF does_set_archive_new [OF a c]], rule step_read, rule does_bind [OF does_set_archive [OF a c]],
      rule step_read, rule does_bind [OF does_set_archive [OF a c]], rule step_lift, rule step_clock,
      rule does_bind [OF does_set_archive [OF a c]], rule does_ret)
    fix d k metadata now and s :: "'h site"
    assume "or_raise (map_of (mg_clients (archived a None None c\<lparr>mg_generated := fst f\<rparr>)) name) FileNotFoundError = Inr d"
      and "or_raise (map_of (mg_keys (archived a (Some d) None c\<lparr>mg_generated := fst f\<rparr>)) name) FileNotFoundError = Inr k"
      and m: "andthen (cd_metadata d) object_of = Inr metadata"
      and s: "site_is (archived a (Some (d\<lparr>cd_metadata := Inr (JObj (put_all metadata
             [(''status'', JStr (if rotation then ''rotated'' else ''revoked'')),
              (''revoked_at'', JStr (utc_text now))]))\<rparr>)) (Some k) c) f bs s"
    then have "map_of (mg_clients c) name = Some d" "map_of (mg_keys c) name = Some k"
      by (auto simp: archived_def or_raise_def split: option.splits)
    with a s object_ofD [OF m] show "?Q a s" unfolding marked_dir_def by blast
  qed (use part part' in blast)+
  have free: "free_name b (map fst (mg_revoked (c\<lparr>mg_generated := g\<rparr>))) \<notin> fst ` set (mg_revoked c)" for b g
    using free_name_free [of b "map fst (mg_revoked c)"] by simp
  show ?thesis unfolding archive_client_copy_def Let_def
    by (rule step_clock, rule step_query, rule tail, rule free)
qed
section \<open>Undoing a rotation\<close>

definition erased :: "string \<Rightarrow> managed \<Rightarrow> managed" where
  "erased name c = c\<lparr>mg_clients := erase name (mg_clients c), mg_keys := erase name (mg_keys c)\<rparr>"

text \<open>The directory is the old one, except that its status is active.\<close>

definition reactivated :: "client_dir \<Rightarrow> client_dir \<Rightarrow> bool" where
  "reactivated d d' \<longleftrightarrow> (\<exists>m m'. cd_metadata d = Inr (JObj m) \<and> d' = d\<lparr>cd_metadata := Inr (JObj m')\<rparr>
     \<and> map_of m' = (map_of m)(''status'' \<mapsto> JStr ''active'', ''revoked_at'' := None))"

lemma erased_unused [simp]: "unused name (erased name c)"
  by (simp add: unused_def erased_def erase_fst)

lemma erased_core [simp]: "core (erased name c) = erased name (core c)"
  by (simp add: erased_def)

lemma archived_core [simp]: "core (archived a d k c) = archived a d k (core c)"
  by (simp add: archived_def)

lemma building_core [simp]: "core (building c name d k) = building (core c) name d k"
  by (simp add: building_def)

lemma archived_frame:
  "erased name (archived a d k c) = archived a d k (erased name c)"
  "building (archived a d k c) name x y = archived a d k (building c name x y)"
  "mg_revoked (erased name c) = mg_revoked c" "mg_revoked (building c name x y) = mg_revoked c"
  by (simp_all add: archived_def erased_def building_def)

lemma map_of_drop: "map_of (filter (\<lambda>(f, v). f \<noteq> k) m) = (map_of m)(k := None)"
  by (induction m) (auto simp: fun_eq_iff)

lemma step_value:
  assumes "\<And>s. P s \<Longrightarrow> f s = Inr x" and "does P (k x) Q E"
  shows "does P (bindE (reading f) k) Q E"
  by (rule doesI) (use assms in \<open>auto simp: wp_steps does_def\<close>)

lemma does_undo_rotation:
  assumes a: "a \<notin> fst ` set (mg_revoked c)" and c: "core c = c" and d: "marked_dir status now d d'"
  shows "\<exists>d''. reactivated d d''
    \<and> (\<forall>E f bs. does (site_is (archived a (Some d') (Some k) c) f bs)
         (bindE (restore_client_from_archive name a) (\<lambda>_. remove_archive a))
         (\<lambda>_. site_is (building (erased name c) name d'' k) f bs) E)"
proof -
  from d obtain m where m: "cd_metadata d = Inr (JObj m)"
    and d': "d' = d\<lparr>cd_metadata := Inr (JObj (put_all m [(''status'', JStr status), (''revoked_at'', JStr (utc_text now))]))\<rparr>"
    by (auto simp: marked_dir_def)
  define m' where "m' = filter (\<lambda>(f, v). f \<noteq> ''revoked_at'')
    (put (put_all m [(''status'', JStr status), (''revoked_at'', JStr (utc_text now))]) ''status'' (JStr ''active''))"
  let ?r = "d\<lparr>cd_metadata := Inr (JObj m')\<rparr>" and ?e = "erased name (archived a (Some d') (Some k) c)"
  have re: "reactivated d ?r"
    unfolding reactivated_def using m by (auto simp: m'_def map_of_drop map_of_put put_all_def fun_eq_iff)
  have stored: "map_of (mg_revoked (archived a x y c')) a = Some (x, y)" if "mg_revoked c' = mg_revoked c" for x y c'
  proof -
    have "map_of (mg_revoked c) a = None" using a by (simp add: map_of_eq_None_iff)
    with that show ?thesis by (simp add: archived_def map_add_def)
  qed
  have ce: "core ?e = ?e" and un: "unused name ?e" by (simp_all add: c)
  have found: "or_raise (Option.bind (map_of (mg_revoked (st_managed s)) a) fst) FileNotFoundError = Inr d'"
    if "site_is ?e f bs s" for f bs and s :: "'h site"
    using site_is_managed [OF that] by (simp add: archived_frame stored or_raise_def)
  have found': "or_raise (Option.bind (map_of (mg_revoked (st_managed s)) a) snd) FileNotFoundError = Inr k"
    if "site_is (?e\<lparr>mg_clients := cl\<rparr>) f bs s" for f bs cl and s :: "'h site"
    using site_is_managed [OF that] stored [of "erased name c"] by (simp add: archived_frame archived_def or_raise_def)
  have one: "does (site_is ?e f bs) (durable (on_managed (\<lambda>m. m\<lparr>mg_clients := mg_clients m @ [(name, d')]\<rparr>)))
      (\<lambda>_. site_is (?e\<lparr>mg_clients := mg_clients ?e @ [(name, d')]\<rparr>) f bs) E" for f bs E
    by (rule step_write) (simp_all add: c)
  have two: "does (site_is (?e\<lparr>mg_clients := mg_clients ?e @ [(name, d')]\<rparr>) f bs)
      (durable (on_managed (\<lambda>m. m\<lparr>mg_keys := mg_keys m @ [(name, k)]\<rparr>)))
      (\<lambda>_. site_is (building ?e name d' k) f bs) E" for f bs E
    by (rule step_write) (simp_all add: c building_def)
  have three: "does (site_is (building ?e name d' k) f bs) (bindE (write_metadata name m') (\<lambda>_. remove_archive a))
      (\<lambda>_. site_is (building (erased name c) name ?r k) f bs) E" for f bs E
  proof -
    have "does (site_is (building ?e name (d'\<lparr>cd_metadata := Inr (JObj m')\<rparr>) k) f bs) (remove_archive a)
        (\<lambda>_. site_is (building (erased name c) name ?r k) f bs) E"
      unfolding archived_frame d' by (simp, rule does_remove_archive) (simp_all add: archived_frame a c)
    then show ?thesis unfolding write_metadata_def by (intro does_bind [OF does_in_client [OF un ce]]) (simp add: archived_frame)
  qed
  have "does (site_is (archived a (Some d') (Some k) c) f bs)
      (bindE (restore_client_from_archive name a) (\<lambda>_. remove_archive a))
      (\<lambda>_. site_is (building (erased name c) name ?r k) f bs) E" for f bs E
    unfolding restore_client_from_archive_def bindE_assoc
  proof (rule does_bind [OF does_remove], fold erased_def, rule step_value, rule found, assumption,
      rule does_bind [OF one], rule step_value, rule found', assumption, rule does_bind [OF two])
    show "does (site_is (building ?e name d' k) f bs) (bindE (lift (andthen (cd_metadata d') object_of))
      (\<lambda>metadata. bindE (write_metadata name (filter (\<lambda>(f, v). f \<noteq> ''revoked_at'')
         (put metadata ''status'' (JStr ''active'')))) (\<lambda>_. remove_archive a)))
      (\<lambda>_. site_is (building (erased name c) name ?r k) f bs) E"
      using three by (simp add: d' object_of_def or_raise_def m'_def)
  qed
  with re show ?thesis by blast
qed
end
