(* ===== verification/ClientOutcomes.thy ===== *)
theory ClientOutcomes
  imports ClientSteps ClientSafety
begin

text \<open>
  What the client commands leave behind when no write of their own fails: the state of the files a
  command returns with and the one it raises with, for every answer of the host.
\<close>

section \<open>A committed change\<close>

definition unrenderable :: "server_config \<Rightarrow> loaded_client list \<Rightarrow> managed \<Rightarrow> bool" where
  "unrenderable config old c \<longleftrightarrow> (\<exists>now e. render_clients c config old now = Inl e)"

text \<open>
  The old clients could be rendered at one instant and cannot be at an earlier one: what a rollback can
  only meet when the clock has gone back since the command checked the state.
\<close>

definition clock_reversed :: "server_config \<Rightarrow> loaded_client list \<Rightarrow> managed \<Rightarrow> bool" where
  "clock_reversed config old m \<longleftrightarrow> (\<exists>checked now t e. now < checked
     \<and> render_clients m config old checked = Inr t \<and> render_clients m config old now = Inl e)"

lemma clock_reversedI:
  assumes "unrenderable config old m" and "\<exists>checked t. render_current_server m None checked = Inr t"
    and "load_config m = Inr config" and "clients_of True m = Inr old"
  shows "clock_reversed config old m"
proof -
  from assms(2-4) obtain checked t where r: "render_clients m config old checked = Inr t"
    by (auto simp: render_current_server_def render_clients_def result_simps)
  from assms(1) obtain now e where e: "render_clients m config old now = Inl e" by (auto simp: unrenderable_def)
  from r obtain sk key where "server_private_key m = Inr sk" "header_protection_key_for_config m config = Inr key"
    "render_server_config (config_obj config) sk (map ld_client old) checked key = Inr t"
    unfolding render_clients_def by (elim andthenE)
  with e render_server_config_later [OF this(3), of now] have "now < checked"
    by (cases "checked \<le> now") (auto simp: render_clients_def)
  with r e show ?thesis unfolding clock_reversed_def by blast
qed

text \<open>The two server files are as before, or they agree; in detail, on a text with the property \<open>T\<close>.\<close>

definition site_rolled :: "(string \<Rightarrow> bool) \<Rightarrow> managed \<Rightarrow> string option \<times> string option \<Rightarrow> (string \<times> managed) list \<Rightarrow> 'h site \<Rightarrow> bool" where
  "site_rolled T c f bs s \<longleftrightarrow> site_is c f bs s \<or> (\<exists>t. T t \<and> site_is c (Some t, Some t) bs s)"

text \<open>The texts a rollback can leave: the change's own, or the old clients rendered again.\<close>

definition rollback_text :: "server_config \<Rightarrow> loaded_client list \<Rightarrow> (string \<Rightarrow> managed \<Rightarrow> bool) \<Rightarrow> string \<Rightarrow> bool" where
  "rollback_text config old C t \<longleftrightarrow> (\<exists>c'. C t c' \<or> (\<exists>t' now. C t' c' \<and> render_clients c' config old now = Inr t))"

lemma rollback_text_mono:
  assumes "site_rolled (rollback_text config old C) u f bs s" and "\<And>t c'. C t c' \<Longrightarrow> D t c'"
  shows "site_rolled (rollback_text config old D) u f bs s"
  using assms unfolding site_rolled_def rollback_text_def by blast

definition site_or_agrees :: "managed \<Rightarrow> string option \<times> string option \<Rightarrow> (string \<times> managed) list \<Rightarrow> 'h site \<Rightarrow> bool" where
  "site_or_agrees c f bs s \<longleftrightarrow> site_is c f bs s \<or> (\<exists>t. site_is c (Some t, Some t) bs s)"

lemma does_committed_change:
  fixes verify undo :: "('h site, unit) eff"
  assumes change: "does (site_is c f bs) change (\<lambda>t s. \<exists>c'. C t c' \<and> site_is c' f bs s) (\<lambda>s. \<exists>c'. B c' \<and> site_is c' f bs s)"
    and verify: "\<And>c f. does (site_is c f bs) verify (\<lambda>_. site_is c f bs) (site_is c f bs)"
    and undo: "\<And>c' f' E. B c' \<or> (\<exists>t. C t c') \<Longrightarrow>
      does (site_is c' f' bs) undo (\<lambda>_ s. \<exists>u. U u \<and> site_is u f' bs s) E"
  shows "does (site_is c f bs) (committed_change dk config old change verify undo)
    (\<lambda>_ s. \<exists>t c'. C t c' \<and> site_is c' (Some t, Some t) bs s)
    (\<lambda>s. (\<exists>u. U u \<and> site_rolled (rollback_text config old C) u f bs s)
       \<or> (\<exists>t c'. C t c' \<and> unrenderable config old c' \<and> site_is c' (Some t, Some t) bs s))"
    (is "does _ _ ?Q ?E")
  unfolding committed_change_def
proof (rule does_bind, rule does_handle)
  show "does (site_is c f bs) (bindE change (\<lambda>t. commit_server_config dk t (Some ''reload''))) ?Q
    (\<lambda>s. \<exists>c'. (B c' \<or> (\<exists>t. C t c')) \<and> site_is c' f bs s)"
  proof (rule step_then [OF change])
    show "does (\<lambda>s. \<exists>c'. C t c' \<and> site_is c' f bs s) (commit_server_config dk t (Some ''reload'')) ?Q
      (\<lambda>s. \<exists>c'. (B c' \<or> (\<exists>t. C t c')) \<and> site_is c' f bs s)" for t
      by (intro does_exists does_fact does_conseq [OF does_commit]) auto
  qed auto
  show "does (\<lambda>s. \<exists>c'. (B c' \<or> (\<exists>t. C t c')) \<and> site_is c' f bs s) (bindE undo (\<lambda>_. raise e)) ?Q ?E" for e
    by (intro does_exists does_fact, erule step_then [OF undo], assumption, rule does_raise)
      (auto simp: site_rolled_def)
  show "does (?Q active) (handle any_error (bindE (if active then verify else ret ()) (\<lambda>_. ret active))
      (\<lambda>e. bindE (commit_old_clients dk config old) (\<lambda>_. bindE undo (\<lambda>_. raise e)))) ?Q ?E" for active
  proof (intro does_exists does_fact)
    fix t c' assume C: "C t c'"
    let ?P = "site_is c' (Some t, Some t) bs :: 'h site \<Rightarrow> bool"
    have commit: "does ?P (commit_old_clients dk config old)
      (\<lambda>_ s. \<exists>t. rollback_text config old C t \<and> site_is c' (Some t, Some t) bs s) (\<lambda>s. unrenderable config old c' \<and> ?P s)"
      unfolding commit_old_clients_def
    proof (rule step_then [OF does_render])
      show "does (\<lambda>s. (\<exists>now. render_clients c' config old now = Inr x) \<and> ?P s)
         (suppress any_error (bindE (commit_server_config dk x (Some ''reload'')) (\<lambda>_. ret ())))
         (\<lambda>_ s. \<exists>t. rollback_text config old C t \<and> site_is c' (Some t, Some t) bs s) (\<lambda>s. unrenderable config old c' \<and> ?P s)" for x
      proof (rule does_fact)
        assume "\<exists>now. render_clients c' config old now = Inr x"
        with C have T: "rollback_text config old C x" "rollback_text config old C t" by (auto simp: rollback_text_def)
        show "does ?P (suppress any_error (bindE (commit_server_config dk x (Some ''reload'')) (\<lambda>_. ret ())))
         (\<lambda>_ s. \<exists>t. rollback_text config old C t \<and> site_is c' (Some t, Some t) bs s) (\<lambda>s. unrenderable config old c' \<and> ?P s)"
          by (rule does_suppress, rule step_then [OF does_commit]) (use T in \<open>auto intro: does_ret\<close>)
      qed
    qed (auto simp: unrenderable_def)
    show "does ?P (handle any_error (bindE (if active then verify else ret ()) (\<lambda>_. ret active))
      (\<lambda>e. bindE (commit_old_clients dk config old) (\<lambda>_. bindE undo (\<lambda>_. raise e)))) ?Q ?E"
    proof (rule does_handle)
      show "does ?P (bindE (if active then verify else ret ()) (\<lambda>_. ret active)) ?Q ?P"
        by (rule does_bind [where R = "\<lambda>_. ?P"]) (use C in \<open>auto intro!: does_if verify does_ret\<close>)
      show "does ?P (bindE (commit_old_clients dk config old) (\<lambda>_. bindE undo (\<lambda>_. raise e))) ?Q ?E" for e
      proof (rule step_then [OF commit])
        show "does (\<lambda>s. \<exists>t. rollback_text config old C t \<and> site_is c' (Some t, Some t) bs s) (bindE undo (\<lambda>_. raise e)) ?Q ?E" for x
          by (rule does_exists, rule does_fact, rule step_then [OF undo])
            (use C in \<open>auto simp: site_rolled_def intro: does_raise\<close>)
      qed (use C in blast)
    qed
  qed
qed

section \<open>Adding\<close>

lemma clients_frame [simp]: "clients_of b (m\<lparr>mg_generated := g\<rparr>) = clients_of b m"
  by (simp add: clients_of_def client_file_def [abs_def] client_entries_def)

lemma render_frame [simp]:
  "render_clients (m\<lparr>mg_generated := g\<rparr>) config clients now = render_clients m config clients now"
  "render_clients (building m name d k) config clients now = render_clients m config clients now"
  "render_clients (archived a x y m) config clients now = render_clients m config clients now"
  "render_clients (erased name m) config clients now = render_clients m config clients now"
  by (simp_all add: render_clients_def server_private_key_def header_protection_key_for_config_def
      building_def archived_def erased_def cong: obfuscation.case_cong)

lemma load_config_frame [simp]: "load_config (m\<lparr>mg_generated := g\<rparr>) = load_config m"
  by (simp add: load_config_def)

lemma render_current_frame [simp]:
  "render_current_server (m\<lparr>mg_generated := g\<rparr>) b now = render_current_server m b now"
  by (simp add: render_current_server_def server_private_key_def header_protection_key_for_config_def
      cong: obfuscation.case_cong option.case_cong)

definition plain_client :: "new_client \<Rightarrow> new_client" where
  "plain_client nc = nc\<lparr>nc_created_at := JNull, nc_imported_from := None, nc_profile := None\<rparr>"

text \<open>
  What an added client is: the least free address, a directory with its metadata, profile and image,
  the keys, and a server file rendered from the clients that are then loaded.
\<close>

definition added ::
  "'h desk \<Rightarrow> server_config \<Rightarrow> loaded_client list \<Rightarrow> string \<Rightarrow> new_client \<Rightarrow> managed \<Rightarrow> string \<Rightarrow> managed \<Rightarrow> bool" where
  "added dk config old name nc c t c' \<longleftrightarrow>
     (\<exists>address private public psk d new now. allocate_address config old = Inr address
        \<and> written_client dk c config name address private public psk (plain_client nc) d
        \<and> c' = building c name d (written_keys private public psk)
        \<and> clients_of True c' = Inr new \<and> render_clients c' config new now = Inr t)"

lemma partly_erased:
  assumes "unused name c" and "partly_written name c c'"
  shows "c'\<lparr>mg_clients := erase name (mg_clients c'), mg_keys := erase name (mg_keys c')\<rparr> = c"
  using assms by (auto simp: partly_written_def unused_def erase_unused erase_only)

definition changed_backups :: "managed \<Rightarrow> (string \<times> managed) list \<Rightarrow> (string \<times> managed) list \<Rightarrow> bool" where
  "changed_backups m bs bs' \<longleftrightarrow> (\<exists>d. bs' = bs @ [(d, m)])"

lemma validated_name: "validate_client_name (JStr name) = Inr x \<Longrightarrow> x = name"
  by (simp add: validate_client_name_Inr)

lemma does_add:
  fixes dk :: "'h desk"
  assumes c: "core c = c"
  shows "does (site_is c f bs) (cmd_client_add dk name nc dry_run)
    (\<lambda>_ s. if dry_run then site_is c f bs s
       else \<exists>config old t c' bs'. load_config c = Inr config \<and> clients_of True c = Inr old
         \<and> unused name c \<and> added dk config old name nc c t c' \<and> changed_backups (c\<lparr>mg_generated := fst f\<rparr>) bs bs'
         \<and> site_is c' (Some t, Some t) bs' s)
    (\<lambda>s. \<exists>bs'. with_backup (c\<lparr>mg_generated := fst f\<rparr>) bs bs'
       \<and> (site_is c f bs' s
          \<or> (\<exists>config old. load_config c = Inr config \<and> clients_of True c = Inr old
               \<and> (\<exists>t. rollback_text config old (added dk config old name nc c) t \<and> site_is c (Some t, Some t) bs' s))
          \<or> (\<exists>config old c' t. load_config c = Inr config \<and> clients_of True c = Inr old \<and> clock_reversed config old c
               \<and> added dk config old name nc c t c' \<and> site_is c' (Some t, Some t) bs' s)))"
    (is "does _ _ ?Q ?E")
proof -
  have quiet: "?E s" if "site_is c f bs s" for s
    using that by (auto simp: with_backup_def)
  have change: "does (site_is c f bs') (committed_change dk config old
      (bindE (write_client_state dk config name address sk pk psk (plain_client nc)) (\<lambda>_.
       bindE (reading (\<lambda>s. clients_of True (st_managed s))) (render_now dk config)))
      (verify_peer_state dk (cfg_interface config) pk True) (remove_client_state name))
     (\<lambda>_ s. \<exists>t c'. added dk config old name nc c t c' \<and> site_is c' (Some t, Some t) bs' s)
     (\<lambda>s. (\<exists>u. u = c \<and> site_rolled (rollback_text config old (added dk config old name nc c)) u f bs' s)
       \<or> (\<exists>t c'. added dk config old name nc c t c' \<and> unrenderable config old c' \<and> site_is c' (Some t, Some t) bs' s))"
    if u: "unused name c" and a: "allocate_address config old = Inr address"
    for config old address sk pk psk bs'
  proof (rule does_committed_change [where B = "partly_written name c"])
    show "does (site_is c f bs') (bindE (write_client_state dk config name address sk pk psk (plain_client nc)) (\<lambda>_.
       bindE (reading (\<lambda>s. clients_of True (st_managed s))) (render_now dk config)))
     (\<lambda>t s. \<exists>c'. added dk config old name nc c t c' \<and> site_is c' f bs' s)
     (\<lambda>s. \<exists>c'. partly_written name c c' \<and> site_is c' f bs' s)"
    proof (rule step_then [OF does_write_client [OF u c]], assumption, intro does_exists does_fact, rule step_read)
      fix d new
      assume w: "written_client dk c config name address sk pk psk (plain_client nc) d"
        and "clients_of True (building c name d (written_keys sk pk psk)\<lparr>mg_generated := fst f\<rparr>) = Inr new"
      then have n: "clients_of True (building c name d (written_keys sk pk psk)) = Inr new" by simp
      show "does (site_is (building c name d (written_keys sk pk psk)) f bs') (render_now dk config new)
         (\<lambda>t s. \<exists>c'. added dk config old name nc c t c' \<and> site_is c' f bs' s)
         (\<lambda>s. \<exists>c'. partly_written name c c' \<and> site_is c' f bs' s)"
      proof (rule does_conseq [OF does_render], assumption)
        fix t and s :: "'h site"
        assume r: "(\<exists>now. render_clients (building c name d (written_keys sk pk psk)) config new now = Inr t)
          \<and> site_is (building c name d (written_keys sk pk psk)) f bs' s"
        then have "added dk config old name nc c t (building c name d (written_keys sk pk psk))"
          unfolding added_def using a w n by blast
        with r show "\<exists>c'. added dk config old name nc c t c' \<and> site_is c' f bs' s" by blast
      qed (use partly_building in blast)
    qed (use partly_building in blast)
    show "does (site_is c' f' bs') (remove_client_state name) (\<lambda>_ s. \<exists>u. u = c \<and> site_is u f' bs' s) E"
      if "partly_written name c c' \<or> (\<exists>t. added dk config old name nc c t c')" for c' f' E
    proof -
      from that have "partly_written name c c'" by (auto simp: added_def)
      from partly_erased [OF u this] does_remove [of c' f' bs' name E] show ?thesis by simp
    qed
  qed (rule does_verify_peer)
  have run: "does (site_is c f bs) (if dry_run then ret () else bindE (create_backup dk) (\<lambda>_.
      bindE (generate_key_material dk (cfg_use_psk config)) (\<lambda>(sk, pk, psk).
      bindE (committed_change dk config old
        (bindE (write_client_state dk config name address sk pk psk (plain_client nc)) (\<lambda>_.
         bindE (reading (\<lambda>s. clients_of True (st_managed s))) (render_now dk config)))
        (verify_peer_state dk (cfg_interface config) pk True) (remove_client_state name)) (\<lambda>_. ret ())))) ?Q ?E"
    if u: "unused name c" and a: "allocate_address config old = Inr address"
      and l: "load_config c = Inr config" "clients_of True c = Inr old"
      and checked: "\<exists>checked t. render_current_server c None checked = Inr t"
    for config old address
  proof (rule does_if)
    let ?bs = "\<lambda>d. bs @ [(d, c\<lparr>mg_generated := fst f\<rparr>)]"
    assume dry: "\<not> dry_run"
    have saved: "with_backup (c\<lparr>mg_generated := fst f\<rparr>) bs (?bs d)" for d by (auto simp: with_backup_def)
    have part: "?E s" if "site_is c f (?bs d) s" for d and s :: "'h site"
      using that saved by blast
    show "does (site_is c f bs) (bindE (create_backup dk) (\<lambda>_.
      bindE (generate_key_material dk (cfg_use_psk config)) (\<lambda>(sk, pk, psk).
      bindE (committed_change dk config old
        (bindE (write_client_state dk config name address sk pk psk (plain_client nc)) (\<lambda>_.
         bindE (reading (\<lambda>s. clients_of True (st_managed s))) (render_now dk config)))
        (verify_peer_state dk (cfg_interface config) pk True) (remove_client_state name)) (\<lambda>_. ret ())))) ?Q ?E"
    proof (rule step_then [OF does_backup], goal_cases)
      case (1 s)
      then show ?case by blast
    next
      case (2 d)
      show ?case
      proof (rule step_then [OF does_keys], erule part, rule does_pair, rule does_pair, rule step_then [OF change [OF u a]], goal_cases)
        case (1 keys sk rest pk psk s)
        then show ?case
        proof (elim disjE exE conjE)
          fix u assume "u = c" "site_rolled (rollback_text config old (added dk config old name nc c)) u f (?bs d) s"
          with saved l show ?case unfolding site_rolled_def by blast
        next
          fix t c' assume a: "added dk config old name nc c t c'" "unrenderable config old c'" "site_is c' (Some t, Some t) (?bs d) s"
          then have "unrenderable config old c" unfolding added_def unrenderable_def by (elim exE conjE) (rule exI, rule exI, simp)
          with clock_reversedI [OF _ checked l] saved l a(1,3) show ?case by blast
        qed
      next
        case (2 keys sk rest pk psk x)
        with dry l u show ?case by (intro does_ret) (auto simp: changed_backups_def)
      qed
    qed
  qed (auto intro: does_ret)
  show ?thesis unfolding cmd_client_add_def plain_client_def [symmetric]
  proof (rule step_lift, drule validated_name, rule step_then [OF does_drift_rendered], erule quiet, rule does_fact,
      rule step_read, rule step_read, rule step_query, rule step_ensure, rule step_lift, rule step_clock, rule step_lift, goal_cases)
    case (1 name' u config old address now y)
    then show ?case unfolding 1(1) by (intro run) (auto simp: client_present_def unused_def)
  qed (use quiet in blast)+
qed

section \<open>Revoking\<close>

definition archive_left :: "managed \<Rightarrow> managed \<Rightarrow> bool" where
  "archive_left c c' \<longleftrightarrow> (\<exists>xs. c' = c\<lparr>mg_revoked := mg_revoked c @ xs\<rparr>)"

lemma archive_left_simps: "archive_left c c" "archive_left c (archived a x y c)"
  unfolding archive_left_def archived_def by (intro exI [of _ "[]"], simp) blast

definition revoked ::
  "server_config \<Rightarrow> loaded_client list \<Rightarrow> loaded_client \<Rightarrow> string \<Rightarrow> managed \<Rightarrow> string \<Rightarrow> managed \<Rightarrow> bool" where
  "revoked config old target name c t c' \<longleftrightarrow>
     (\<exists>a d k d' now now'. loaded_named name old = Some target \<and> a \<notin> fst ` set (mg_revoked c)
        \<and> map_of (mg_clients c) name = Some d \<and> map_of (mg_keys c) name = Some k
        \<and> marked_dir ''revoked'' now d d'
        \<and> render_clients c config (unnamed name old) now' = Inr t
        \<and> c' = archived a (Some d') (Some k) c)"

lemma does_revoke:
  fixes dk :: "'h desk"
  assumes c: "core c = c"
  shows "does (site_is c f bs) (cmd_client_revoke dk name dry_run)
    (\<lambda>_ s. if dry_run then site_is c f bs s
       else \<exists>config old target t c' bs'. load_config c = Inr config \<and> clients_of True c = Inr old
         \<and> revoked config old target name c t c' \<and> changed_backups (c\<lparr>mg_generated := fst f\<rparr>) bs bs'
         \<and> site_is (erased name c') (Some t, Some t) bs' s)
    (\<lambda>s. \<exists>bs' c'. with_backup (c\<lparr>mg_generated := fst f\<rparr>) bs bs' \<and> archive_left c c' \<and> site_or_agrees c' f bs' s)"
    (is "does _ _ ?Q ?E")
proof -
  have quiet: "?E s" if "site_is c f bs s" for s
    using that archive_left_simps by (auto simp: with_backup_def site_or_agrees_def)
  have run: "does (site_is c f bs) (if dry_run then ret () else bindE (create_backup dk) (\<lambda>_.
      bindE (archive_client_copy dk name False) (\<lambda>archive.
      bindE (committed_change dk config old (render_now dk config (unnamed name old))
        (verify_peer_state dk (cfg_interface config) (cl_public_key (ld_client target)) False)
        (remove_archive archive)) (\<lambda>_. remove_client_state name)))) ?Q ?E"
    if l: "load_config c = Inr config" "clients_of True c = Inr old" "loaded_named name old = Some target"
    for config old target
  proof (rule does_if)
    let ?bs = "\<lambda>d. bs @ [(d, c\<lparr>mg_generated := fst f\<rparr>)]"
    assume dry: "\<not> dry_run"
    have saved: "with_backup (c\<lparr>mg_generated := fst f\<rparr>) bs (?bs b)" for b by (auto simp: with_backup_def)
    have change: "does (site_is (archived a (Some d') (Some k) c) f (?bs b))
        (committed_change dk config old (render_now dk config (unnamed name old))
          (verify_peer_state dk (cfg_interface config) (cl_public_key (ld_client target)) False) (remove_archive a))
        (\<lambda>_ s. \<exists>t c'. revoked config old target name c t c' \<and> site_is c' (Some t, Some t) (?bs b) s) ?E"
      if a: "a \<notin> fst ` set (mg_revoked c)" "map_of (mg_clients c) name = Some d" "map_of (mg_keys c) name = Some k"
        "marked_dir ''revoked'' now d d'" for a d k d' now b
    proof (rule does_conseq [OF does_committed_change [where c = "archived a (Some d') (Some k) c" and f = f
          and bs = "?bs b" and B = "\<lambda>c'. c' = archived a (Some d') (Some k) c"
          and C = "\<lambda>t c'. revoked config old target name c t c' \<and> c' = archived a (Some d') (Some k) c" and U = "(=) c"]],
        goal_cases)
      case 1
      have "revoked config old target name c t (archived a (Some d') (Some k) c)"
        if "render_clients c config (unnamed name old) now' = Inr t" for t now'
        unfolding revoked_def using a l that by blast
      then show ?case by (intro does_conseq [OF does_render]) auto
    next
      case 2
      show ?case by (rule does_verify_peer)
    next
      case (3 c' f' E)
      then have "c' = archived a (Some d') (Some k) c" by auto
      with does_remove_archive [OF a(1) c] show ?case by simp
    next
      case (6 s)
      with saved archive_left_simps show ?case unfolding site_or_agrees_def site_rolled_def by blast
    qed auto
    show "does (site_is c f bs) (bindE (create_backup dk) (\<lambda>_.
      bindE (archive_client_copy dk name False) (\<lambda>archive.
      bindE (committed_change dk config old (render_now dk config (unnamed name old))
        (verify_peer_state dk (cfg_interface config) (cl_public_key (ld_client target)) False)
        (remove_archive archive)) (\<lambda>_. remove_client_state name)))) ?Q ?E"
    proof (rule step_then [OF does_backup], goal_cases)
      case (1 s)
      with archive_left_simps show ?case by (auto simp: site_or_agrees_def)
    next
      case (2 b)
      show ?case
      proof (rule step_then [OF does_archive [OF c]], goal_cases)
        case (1 s)
        with saved show ?case unfolding archive_left_def site_or_agrees_def by blast
      next
        case (2 a)
        show ?case
        proof (intro does_exists does_fact, rule step_then [OF change], goal_cases)
          case (6 d k d' now x)
          show ?case
          proof (intro does_exists does_fact, rule does_conseq [OF does_remove], assumption, fold erased_def, goal_cases)
            case (1 t c' y s)
            moreover have "changed_backups (c\<lparr>mg_generated := fst f\<rparr>) bs (?bs b)" by (auto simp: changed_backups_def)
            ultimately show ?case unfolding if_not_P [OF dry] using l by blast
          qed
        qed auto
      qed
    qed
  qed (auto intro: does_ret)
  show ?thesis unfolding cmd_client_revoke_def
  proof (rule step_lift, drule validated_name, rule step_then [OF does_drift], erule quiet, rule step_read, rule step_read,
      rule step_lift, goal_cases)
    case (1 name' x config old target)
    then show ?case unfolding 1(1) by (intro run) (auto simp: or_raise_def split: option.splits)
  qed (use quiet in blast)+
qed

section \<open>Rotating\<close>

definition rotation_options :: "loaded_client \<Rightarrow> json \<Rightarrow> new_client" where
  "rotation_options target created_at =
     \<lparr>nc_created_at = created_at, nc_imported_from = None, nc_profile = None,
      nc_owner = get (ld_metadata target) ''owner'', nc_device = get (ld_metadata target) ''device'',
      nc_expires = get (ld_metadata target) ''expires''\<rparr>"

text \<open>
  What a rotated client is: its old directory and keys are archived, the new ones have the same
  address, and the server file is rendered from the clients that are then loaded.
\<close>

definition rotated_to ::
  "'h desk \<Rightarrow> server_config \<Rightarrow> loaded_client \<Rightarrow> string \<Rightarrow> managed \<Rightarrow> string \<Rightarrow> string \<Rightarrow> string option \<Rightarrow> client_dir \<Rightarrow> bool" where
  "rotated_to dk config target name c private public psk r \<longleftrightarrow>
     (\<exists>created_at d m m' now. item (ld_metadata target) ''created_at'' = Inr created_at
        \<and> written_client dk c config name (cl_address (ld_client target)) private public psk
            (rotation_options target created_at) d
        \<and> cd_metadata d = Inr (JObj m) \<and> rotated_metadata (ld_metadata target) m (utc_text now) = Inr m'
        \<and> r = d\<lparr>cd_metadata := Inr (JObj m')\<rparr>)"

definition rotated ::
  "'h desk \<Rightarrow> server_config \<Rightarrow> loaded_client \<Rightarrow> string \<Rightarrow> managed \<Rightarrow> string \<Rightarrow> managed \<Rightarrow> bool" where
  "rotated dk config target name c t c' \<longleftrightarrow>
     (\<exists>a d k d' now private public psk r new now'. a \<notin> fst ` set (mg_revoked c)
        \<and> map_of (mg_clients c) name = Some d \<and> map_of (mg_keys c) name = Some k
        \<and> marked_dir ''rotated'' now d d' \<and> rotated_to dk config target name c private public psk r
        \<and> c' = archived a (Some d') (Some k) (building (erased name c) name r (written_keys private public psk))
        \<and> clients_of True c' = Inr new \<and> render_clients c' config new now' = Inr t)"

text \<open>A client put back after a failed rotation.\<close>

definition put_back_active :: "string \<Rightarrow> managed \<Rightarrow> managed \<Rightarrow> bool" where
  "put_back_active name c c' \<longleftrightarrow> (\<exists>d k d'. map_of (mg_clients c) name = Some d \<and> map_of (mg_keys c) name = Some k
     \<and> reactivated d d' \<and> c' = building (erased name c) name d' k)"

definition half_rotated :: "string \<Rightarrow> string \<Rightarrow> client_dir \<Rightarrow> key_dir \<Rightarrow> managed \<Rightarrow> managed \<Rightarrow> bool" where
  "half_rotated name a d k c c' \<longleftrightarrow> (\<exists>c1. c' = archived a (Some d) (Some k) c1 \<and> core c1 = c1
     \<and> mg_revoked c1 = mg_revoked c \<and> erased name c1 = erased name c)"

lemma written_frame:
  "written_client dk (archived a x y (erased name c)) config name address sk pk psk nc d
     = written_client dk c config name address sk pk psk nc d"
  by (simp add: written_client_def client_profile_def server_public_key_def header_protection_key_for_config_def
      archived_def erased_def cong: obfuscation.case_cong list.case_cong option.case_cong)

lemma erase_twice [simp]: "erase name (erase name m) = erase name m"
  by (simp add: erase_def)

lemma erased_simps [simp]:
  "erased name (erased name c) = erased name c" "erased name (building (erased name c) name r k) = erased name c"
  by (simp_all add: erased_def building_def erase_only)

lemma half_rotatedI:
  "core c1 = c1 \<Longrightarrow> mg_revoked c1 = mg_revoked c \<Longrightarrow> erased name c1 = erased name c \<Longrightarrow>
     half_rotated name a d k c (archived a (Some d) (Some k) c1)"
  unfolding half_rotated_def by blast

lemma half_rotated_simps:
  assumes "core c = c"
  shows "half_rotated name a d k c (archived a (Some d) (Some k) c)"
    and "half_rotated name a d k c (archived a (Some d) (Some k) (erased name c))"
    and "half_rotated name a d k c (archived a (Some d) (Some k) (building (erased name c) name r k'))"
  using assms by (auto intro!: half_rotatedI simp: archived_frame)

lemma half_rotated_partly:
  assumes c: "core c = c" and p: "partly_written name (archived a (Some d) (Some k) (erased name c)) c'"
  shows "half_rotated name a d k c c'"
proof -
  from p obtain xs ys where "fst ` set xs \<subseteq> {name}" "fst ` set ys \<subseteq> {name}"
    "c' = archived a (Some d) (Some k) ((erased name c)\<lparr>mg_clients := erase name (mg_clients c) @ xs, mg_keys := erase name (mg_keys c) @ ys\<rparr>)"
    by (auto simp: partly_written_def archived_def erased_def)
  then show ?thesis unfolding half_rotated_def
    by (intro exI [of _ "(erased name c)\<lparr>mg_clients := erase name (mg_clients c) @ xs, mg_keys := erase name (mg_keys c) @ ys\<rparr>"])
      (use c in \<open>simp add: erased_def erase_only erase_unused [OF erase_fst]\<close>)
qed

lemma found_building:
  assumes "unused name c"
  shows "map_of (mg_clients (building c name d k)) name = Some d" and "map_of (mg_keys (building c name d k)) name = Some k"
proof -
  from assms have "map_of (mg_clients c) name = None" "map_of (mg_keys c) name = None"
    unfolding unused_def map_of_eq_None_iff by simp_all
  then show "map_of (mg_clients (building c name d k)) name = Some d" "map_of (mg_keys (building c name d k)) name = Some k"
    by (simp_all add: building_def map_add_def)
qed

lemma does_undo_half_rotated:
  assumes a: "a \<notin> fst ` set (mg_revoked c)" and d: "marked_dir status now d d'" and h: "half_rotated name a d' k c c'"
    and e: "map_of (mg_clients c) name = Some d" "map_of (mg_keys c) name = Some k"
  shows "does (site_is c' f bs) (bindE (restore_client_from_archive name a) (\<lambda>_. remove_archive a))
    (\<lambda>_ s. \<exists>u. put_back_active name c u \<and> site_is u f bs s) E"
proof -
  from h obtain c1 where c1: "c' = archived a (Some d') (Some k) c1" "core c1 = c1" "mg_revoked c1 = mg_revoked c"
    "erased name c1 = erased name c" by (auto simp: half_rotated_def)
  have "a \<notin> fst ` set (mg_revoked c1)" using a c1(3) by simp
  from does_undo_rotation [OF this c1(2) d, where name = name and k = k] obtain d'' where r: "reactivated d d''"
    and u: "does (site_is c' f bs) (bindE (restore_client_from_archive name a) (\<lambda>_. remove_archive a))
       (\<lambda>_. site_is (building (erased name c1) name d'' k) f bs) E" unfolding c1(1) by blast
  have "put_back_active name c (building (erased name c1) name d'' k)"
    unfolding put_back_active_def c1(4) using e r by blast
  then show ?thesis by (intro does_conseq [OF u]) auto
qed

lemma does_rotation:
  fixes dk :: "'h desk"
  assumes c: "core c = c" and a: "a \<notin> fst ` set (mg_revoked c)" and e: "map_of (mg_clients c) name = Some d"
    "map_of (mg_keys c) name = Some k" and d: "marked_dir ''rotated'' now d d'"
  shows "does (site_is (archived a (Some d') (Some k) c) f bs)
    (committed_change dk config old
      (bindE (remove_client_state name) (\<lambda>_.
       bindE (lift (item (ld_metadata target) ''created_at'')) (\<lambda>created_at.
       bindE (write_client_state dk config name (cl_address (ld_client target)) sk pk psk (rotation_options target created_at)) (\<lambda>_.
       bindE (reading (\<lambda>s. metadata_of name (st_managed s))) (\<lambda>metadata.
       bindE (clock dk) (\<lambda>now.
       bindE (lift (rotated_metadata (ld_metadata target) metadata (utc_text now))) (\<lambda>metadata.
       bindE (write_metadata name metadata) (\<lambda>_.
       bindE (reading (\<lambda>s. clients_of True (st_managed s))) (render_now dk config)))))))))
      (verify_rotation dk (cfg_interface config) pk (cl_public_key (ld_client target)))
      (bindE (restore_client_from_archive name a) (\<lambda>_. remove_archive a)))
    (\<lambda>_ s. \<exists>t c'. rotated dk config target name c t c' \<and> site_is c' (Some t, Some t) bs s)
    (\<lambda>s. (\<exists>u. put_back_active name c u \<and> site_rolled (rollback_text config old (rotated dk config target name c)) u f bs s)
       \<or> (\<exists>t c'. rotated dk config target name c t c' \<and> unrenderable config old c' \<and> site_is c' (Some t, Some t) bs s))"
proof (rule does_conseq [OF does_committed_change [where c = "archived a (Some d') (Some k) c" and f = f and bs = bs
      and B = "half_rotated name a d' k c" and U = "put_back_active name c"
      and C = "\<lambda>t c'. rotated dk config target name c t c' \<and> half_rotated name a d' k c c'"]], goal_cases)
  case 1
  let ?e = "archived a (Some d') (Some k) (erased name c)" and ?B = "half_rotated name a d' k c"
  have ce: "core ?e = ?e" and un: "unused name ?e" by (simp_all add: c) (simp add: unused_def archived_def erased_def erase_fst)
  have part: "\<exists>c'. ?B c' \<and> site_is c' f bs s" if "site_is (building ?e name r k') f bs s" for r k' and s :: "'h site"
    using that half_rotated_simps(3) [OF c] unfolding archived_frame by blast
  show ?case
  proof (rule does_bind [OF does_remove], fold erased_def, unfold archived_frame(1), rule step_lift, rule step_then [OF does_write_client [OF un ce]], goal_cases)
    case (1 u created_at s)
    then show ?case using half_rotated_partly [OF c] by blast
  next
    case (2 u created_at v)
    show ?case
    proof (intro does_exists does_fact, unfold written_frame, rule step_read, rule step_clock, rule step_lift,
        unfold write_metadata_def, rule does_bind [OF does_in_client [OF un ce]], rule step_read, goal_cases)
      case (1 dd m now' m' w new)
      let ?r = "dd\<lparr>cd_metadata := Inr (JObj m')\<rparr>"
      let ?c = "building ?e name ?r (written_keys sk pk psk)"
      have "map_of (mg_clients (building ?e name dd (written_keys sk pk psk)\<lparr>mg_generated := fst f\<rparr>)) name = Some dd"
        using found_building(1) [OF un] by simp
      with 1(2) have "cd_metadata dd = Inr (JObj m)"
        by (auto simp: metadata_of_def or_raise_def dest: object_ofD)
      then have r: "rotated_to dk config target name c sk pk psk ?r"
        unfolding rotated_to_def using 2 1(1,3) by blast
      have "rotated dk config target name c t ?c" if "render_clients ?c config new now'' = Inr t" for t now''
        unfolding rotated_def using a e d r that 1(4) by (auto simp: archived_frame) blast
      then show ?case using half_rotated_simps(3) [OF c] part unfolding archived_frame
        by (intro does_conseq [OF does_render]) blast+
    qed (use part in blast)+
  qed (use half_rotated_simps(2) [OF c] in blast)
next
  case 2
  show ?case by (rule does_verify_rotation)
next
  case (3 c' f' E)
  then have "half_rotated name a d' k c c'" by auto
  from does_undo_half_rotated [OF a d this e] show ?case .
next
  case (6 s)
  then show ?case by (auto elim: rollback_text_mono)
qed auto
lemma does_rotate:
  fixes dk :: "'h desk"
  assumes c: "core c = c"
  shows "does (site_is c f bs) (cmd_client_rotate dk name dry_run)
    (\<lambda>_ s. if dry_run then site_is c f bs s
       else \<exists>config old target t c' bs'. load_config c = Inr config \<and> clients_of True c = Inr old
         \<and> loaded_named name old = Some target \<and> ld_management target = ''managed''
         \<and> rotated dk config target name c t c' \<and> changed_backups (c\<lparr>mg_generated := fst f\<rparr>) bs bs'
         \<and> site_is c' (Some t, Some t) bs' s)
    (\<lambda>s. \<exists>bs'. with_backup (c\<lparr>mg_generated := fst f\<rparr>) bs bs'
       \<and> ((\<exists>c'. archive_left c c' \<and> site_is c' f bs' s)
          \<or> (\<exists>config old target u. load_config c = Inr config \<and> clients_of True c = Inr old
               \<and> loaded_named name old = Some target \<and> put_back_active name c u
               \<and> site_rolled (rollback_text config old (rotated dk config target name c)) u f bs' s)
          \<or> (\<exists>config old target t c'. load_config c = Inr config \<and> clients_of True c = Inr old
               \<and> loaded_named name old = Some target \<and> clock_reversed config old c
               \<and> rotated dk config target name c t c' \<and> site_is c' (Some t, Some t) bs' s)))"
    (is "does _ _ ?Q ?E")
proof -
  have early: "?E s" if "with_backup (c\<lparr>mg_generated := fst f\<rparr>) bs bs'" "archive_left c c'" "site_is c' f bs' s" for bs' c' s
    by (rule exI [of _ bs'], rule conjI, rule that(1), rule disjI1, rule exI [of _ c'], rule conjI) (rule that)+
  have quiet: "?E s" if "site_is c f bs s" for s
    by (rule early [OF _ _ that]) (simp_all add: with_backup_def archive_left_simps)
  let ?change = "\<lambda>config old target archive sk pk psk. committed_change dk config old
      (bindE (remove_client_state name) (\<lambda>_.
       bindE (lift (item (ld_metadata target) ''created_at'')) (\<lambda>created_at.
       bindE (write_client_state dk config name (cl_address (ld_client target)) sk pk psk (rotation_options target created_at)) (\<lambda>_.
       bindE (reading (\<lambda>s. metadata_of name (st_managed s))) (\<lambda>metadata.
       bindE (clock dk) (\<lambda>now.
       bindE (lift (rotated_metadata (ld_metadata target) metadata (utc_text now))) (\<lambda>metadata.
       bindE (write_metadata name metadata) (\<lambda>_.
       bindE (reading (\<lambda>s. clients_of True (st_managed s))) (render_now dk config)))))))))
      (verify_rotation dk (cfg_interface config) pk (cl_public_key (ld_client target)))
      (bindE (restore_client_from_archive name archive) (\<lambda>_. remove_archive archive))"
  let ?rest = "\<lambda>config old target. bindE (create_backup dk) (\<lambda>_.
      bindE (archive_client_copy dk name True) (\<lambda>archive.
      bindE (generate_key_material dk (cfg_use_psk config)) (\<lambda>(sk, pk, psk).
      bindE (?change config old target archive sk pk psk) (\<lambda>_. ret ()))))"
  have run: "does (site_is c f bs) (if dry_run then ret () else ?rest config old target) ?Q ?E"
    if l: "load_config c = Inr config" "clients_of True c = Inr old" "loaded_named name old = Some target"
      "ld_management target = ''managed''" and checked: "\<exists>checked t. render_current_server c None checked = Inr t"
    for config old target
  proof (rule does_if)
    let ?bs = "\<lambda>d. bs @ [(d, c\<lparr>mg_generated := fst f\<rparr>)]"
    assume dry: "\<not> dry_run"
    have saved: "with_backup (c\<lparr>mg_generated := fst f\<rparr>) bs (?bs b)" for b by (auto simp: with_backup_def)
    have changed: "changed_backups (c\<lparr>mg_generated := fst f\<rparr>) bs (?bs b)" for b by (auto simp: changed_backups_def)
    show "does (site_is c f bs) (?rest config old target) ?Q ?E"
    proof (rule step_then [OF does_backup], goal_cases)
      case (1 s)
      then obtain bs' where "with_backup (c\<lparr>mg_generated := fst f\<rparr>) bs bs'" "site_is c f bs' s" by blast
      then show ?case by (rule early [OF _ archive_left_simps(1)])
    next
      case (2 b)
      show ?case
      proof (rule step_then [OF does_archive [OF c]], goal_cases)
        case (1 s)
        then obtain xs where "site_is (c\<lparr>mg_revoked := mg_revoked c @ xs\<rparr>) f (?bs b) s" by blast
        then show ?case by (intro early [OF saved]) (auto simp: archive_left_def)
      next
        case (2 a)
        show ?case
        proof (intro does_exists does_fact, rule step_then [OF does_keys], goal_cases)
          case (1 d k d' now s)
          then show ?case by (intro early [OF saved archive_left_simps(2)])
        next
          case (2 d k d' now keys)
          from 2 have d: "marked_dir ''rotated'' now d d'" by simp
          show ?case
          proof (rule does_pair, rule does_pair, rule step_then [OF does_rotation [OF c 2(1-3) d]], goal_cases)
            case (1 sk rest pk psk s)
            then show ?case
            proof (elim disjE exE conjE)
              fix u assume "put_back_active name c u"
                "site_rolled (rollback_text config old (rotated dk config target name c)) u f (?bs b) s"
              with saved l show ?case by blast
            next
              fix t c' assume r: "rotated dk config target name c t c'" "unrenderable config old c'"
                "site_is c' (Some t, Some t) (?bs b) s"
              then have "unrenderable config old c" by (auto simp: rotated_def unrenderable_def)
              with clock_reversedI [OF _ checked l(1,2)] saved l r(1,3) show ?case by blast
            qed
          next
            case (2 sk rest pk psk x)
            have "?Q () s" if "rotated dk config target name c t c' \<and> site_is c' (Some t, Some t) (?bs b) s" for t c' s
              unfolding if_not_P [OF dry] using that changed l by blast
            then show ?case by (intro does_ret) blast
          qed
        qed
      qed
    qed
  qed (auto intro: does_ret)
  show ?thesis unfolding cmd_client_rotate_def rotation_options_def [symmetric]
  proof (rule step_lift, drule validated_name, rule step_then [OF does_drift_rendered], erule quiet, rule does_fact,
      rule step_read, rule step_read, rule step_lift, rule step_ensure, goal_cases)
    case (1 name' u config old target)
    then show ?case unfolding 1(1) by (intro run) (auto simp: or_raise_def split: option.splits)
  qed (use quiet in blast)+
qed

section \<open>Editing\<close>

lemma does_edit:
  fixes dk :: "'h desk"
  assumes c: "core c = c"
  shows "does (site_is c f bs) (cmd_client_edit dk name changes mark dry_run)
    (\<lambda>_ s. site_is c f bs s \<or> (\<exists>old target proposed now now' bs'. \<not> dry_run \<and> clients_of False c = Inr old
       \<and> loaded_named name old = Some target
       \<and> edited_metadata (ld_metadata target) changes mark (utc_text now) = Inr proposed
       \<and> changed_backups (c\<lparr>mg_generated := fst f\<rparr>) bs bs'
       \<and> site_is (in_client name (\<lambda>d. d\<lparr>cd_metadata :=
             Inr (JObj (put proposed ''updated_at'' (JStr (utc_text now'))))\<rparr>) c) f bs' s))
    (\<lambda>s. \<exists>bs'. with_backup (c\<lparr>mg_generated := fst f\<rparr>) bs bs' \<and> site_is c f bs' s)"
    (is "does _ _ ?Q ?E")
proof -
  have quiet: "?E s" if "site_is c f bs s" for s using that by (auto simp: with_backup_def)
  let ?m = "c\<lparr>mg_generated := fst f\<rparr>"
  have run: "does (site_is c f bs) (bindE (create_backup dk) (\<lambda>_. bindE (clock dk) (\<lambda>now.
      write_metadata name (put proposed ''updated_at'' (JStr (utc_text now)))))) ?Q ?E"
    if l: "clients_of False c = Inr old" "loaded_named name old = Some target"
      "edited_metadata (ld_metadata target) changes mark (utc_text now) = Inr proposed" "\<not> dry_run"
    for old target proposed now
  proof (rule step_then [OF does_backup], goal_cases)
    case (2 b)
    let ?r = "\<lambda>now'. in_client name (\<lambda>d. d\<lparr>cd_metadata := Inr (JObj (put proposed ''updated_at'' (JStr (utc_text now'))))\<rparr>) c"
    have q: "?Q () s" if "site_is (?r now') f (bs @ [(b, ?m)]) s" for now' s
    proof -
      have "changed_backups ?m bs (bs @ [(b, ?m)])" by (simp add: changed_backups_def)
      with that show ?thesis by (intro disjI2 exI conjI) (rule l | assumption)+
    qed
    have w: "does (site_is c f (bs @ [(b, ?m)])) (write_metadata name (put proposed ''updated_at'' (JStr (utc_text now'))))
        (\<lambda>_. site_is (?r now') f (bs @ [(b, ?m)])) ?E" for now'
      unfolding write_metadata_def by (rule step_write) (simp_all add: in_client_def c)
    show ?case by (rule step_clock, rule does_conseq [OF w]) (use q in simp_all)
  qed
  show ?thesis unfolding cmd_client_edit_def
  proof (rule step_lift, drule validated_name, rule step_ensure, rule step_then [OF does_drift], erule quiet, rule step_read,
      rule step_lift, rule step_then [where R = "\<lambda>_. site_is c f bs" and E' = "\<lambda>_. False"], goal_cases)
    case (1 name' u clients target)
    show ?case by (intro does_if does_ret) (auto simp: clock_def does_def wp_def ask_def split: prod.split)
  next
    case (3 name' u clients target now)
    then show ?case unfolding 3(1)
      by (intro step_lift does_if run) (auto intro: does_ret quiet simp: or_raise_def split: option.splits)
  qed (use quiet in blast)+
qed

section \<open>Importing\<close>

text \<open>The client is put back as it was, behind the others.\<close>

definition put_back_same :: "string \<Rightarrow> managed \<Rightarrow> managed \<Rightarrow> bool" where
  "put_back_same name c c' \<longleftrightarrow> (\<exists>d k. map_of (mg_clients c) name = Some d \<and> map_of (mg_keys c) name = Some k
     \<and> c' = building (erased name c) name d k)"

text \<open>An imported client; it was loaded as an external peer, or there was none of its name.\<close>

definition imported ::
  "'h desk \<Rightarrow> server_config \<Rightarrow> imported_profile \<Rightarrow> string \<Rightarrow> managed \<Rightarrow> managed \<Rightarrow> bool" where
  "imported dk config profile name c c' \<longleftrightarrow> (\<exists>nc d. nc_profile nc = Some (imp_profile profile)
     \<and> written_client dk c config name (imp_address profile) (imp_private_key profile) (imp_public_key profile)
         (imp_psk profile) nc d
     \<and> c' = building (erased name c) name d
         (written_keys (imp_private_key profile) (imp_public_key profile) (imp_psk profile)))"

definition import_undone :: "string \<Rightarrow> managed \<Rightarrow> managed \<Rightarrow> bool" where
  "import_undone name c c' \<longleftrightarrow> put_back_same name c c'
     \<or> (name \<notin> fst ` set (mg_clients c) \<and> c' = erased name c)"

lemma does_put_back:
  assumes "unused name c" and "core c = c"
  shows "does (site_is c f bs) (put_back name copy) (\<lambda>_. site_is (building c name (fst copy) (snd copy)) f bs) E"
proof -
  have one: "does (site_is c f bs) (durable (on_managed (\<lambda>m. m\<lparr>mg_clients := mg_clients m @ [(name, fst copy)]\<rparr>)))
      (\<lambda>_. site_is (c\<lparr>mg_clients := mg_clients c @ [(name, fst copy)]\<rparr>) f bs) E" for E
    by (rule step_write) (simp_all add: assms)
  have two: "does (site_is (c\<lparr>mg_clients := mg_clients c @ [(name, fst copy)]\<rparr>) f bs)
      (durable (on_managed (\<lambda>m. m\<lparr>mg_keys := mg_keys m @ [(name, snd copy)]\<rparr>)))
      (\<lambda>_. site_is (building c name (fst copy) (snd copy)) f bs) E" for E
    by (rule step_write) (simp_all add: assms building_def)
  show ?thesis unfolding put_back_def by (rule does_bind [OF one two])
qed

lemma loaded_names:
  assumes "clients_of b m = Inr cs" and "client_name_re name"
  shows "name \<in> (\<lambda>c. cl_name (ld_client c)) ` set cs \<longleftrightarrow> name \<in> fst ` set (mg_clients m)"
proof -
  let ?entries = "client_entries m"
  have names: "map ce_name ?entries = map fst (mg_clients m)" by (simp add: client_entries_def split_def o_def)
  from assms(1) have "mset (map (\<lambda>c. cl_name (ld_client c)) cs) = mset (map ce_name (filter visible_entry ?entries))"
    unfolding clients_of_def by (blast dest: load_clients_ok)
  then have "set (map (\<lambda>c. cl_name (ld_client c)) cs) = set (map ce_name (filter visible_entry ?entries))"
    by (rule mset_eq_setD)
  moreover have "name \<in> set (map ce_name (filter visible_entry ?entries)) \<longleftrightarrow> name \<in> set (map ce_name ?entries)"
  proof -
    have "\<not> starts_with ''.'' name" using assms(2) by (cases name) (auto simp: client_name_re_def char_class_defs)
    then show ?thesis by (force simp: visible_entry_def client_entries_def)
  qed
  ultimately show ?thesis unfolding names by auto
qed

lemma loaded_named_None: "loaded_named name cs = None \<longleftrightarrow> name \<notin> (\<lambda>c. cl_name (ld_client c)) ` set cs"
  by (auto simp: loaded_named_def find_None_iff)

lemma does_write_client_used:
  assumes "\<not> unused name c"
  shows "does (site_is c f bs) (write_client_state dk config name address sk pk psk nc) (\<lambda>_ _. False) (site_is c f bs)"
  unfolding write_client_state_def
  by (rule step_query, rule step_ensure) (use assms in \<open>auto simp: unused_def\<close>)

lemma written_erased:
  "written_client dk (erased name c) config name address sk pk psk nc d
     = written_client dk c config name address sk pk psk nc d"
  by (simp add: written_client_def client_profile_def server_public_key_def header_protection_key_for_config_def
      erased_def cong: obfuscation.case_cong list.case_cong option.case_cong)

lemma erased_partly: "partly_written name (erased name c) c' \<Longrightarrow> erased name c' = erased name c"
  by (auto simp: partly_written_def erased_def erase_only)

text \<open>Writing the imported client, with the files of its name out of the way or not.\<close>

lemma does_import_write:
  assumes c: "core c = c" and b: "b = c \<or> b = erased name c" and nc: "nc_profile nc = Some (imp_profile profile)"
  shows "does (site_is b f bs)
    (bindE (write_client_state dk config name (imp_address profile) (imp_private_key profile) (imp_public_key profile)
       (imp_psk profile) nc) (\<lambda>_.
     bindE (clock dk) (\<lambda>now.
     bindE (reading (\<lambda>s. same_semantics (st_managed s) now)) (\<lambda>same.
     ensure same message))))
    (\<lambda>_ s. \<exists>c' now. imported dk config profile name c c'
       \<and> same_semantics (c'\<lparr>mg_generated := fst f\<rparr>) now = Inr True \<and> site_is c' f bs s)
    (\<lambda>s. \<exists>c'. erased name c' = erased name c \<and> site_is c' f bs s)"
    (is "does _ ?m ?Q ?E")
proof (cases "unused name b")
  case True
  then have "b = erased name c" using b by (auto simp: unused_def erased_def erase_unused)
  have u: "unused name (erased name c)" and ce: "core (erased name c) = erased name c" by (simp_all add: c)
  show ?thesis unfolding \<open>b = erased name c\<close>
  proof (rule step_then [OF does_write_client [OF u ce]], goal_cases)
    case (1 s)
    then show ?case using erased_partly by blast
  next
    case (2 v)
    show ?case
    proof (intro does_exists does_fact, unfold written_erased, rule step_clock, rule step_read, goal_cases)
      case (1 d now same)
      let ?c = "building (erased name c) name d
        (written_keys (imp_private_key profile) (imp_public_key profile) (imp_psk profile))"
      have "imported dk config profile name c ?c" unfolding imported_def using nc 1(1) by blast
      then have "?Q () s" if "site_is ?c f bs s" same for s
        using that 1(2) by (intro exI [of _ ?c] exI [of _ now]) simp
      moreover have "?E s" if "site_is ?c f bs s" for s using that by (intro exI [of _ ?c]) simp
      ultimately show ?case by (intro does_ensure)
    next
      case (2 d now s)
      then show ?case by (intro exI [of _ "building (erased name c) name d
        (written_keys (imp_private_key profile) (imp_public_key profile) (imp_psk profile))"]) simp
    qed
  qed
next
  case False
  then show ?thesis using b by (intro step_then [OF does_write_client_used]) (auto simp: does_def)
qed

lemma step_answer:
  assumes "\<And>h x h'. g h = (Inr x, h') \<Longrightarrow> F x" and "\<And>x. F x \<Longrightarrow> does (site_is c f bs) (k x) Q E"
    and "\<And>s. site_is c f bs s \<Longrightarrow> E s"
  shows "does (site_is c f bs) (bindE (ask g) k) Q E"
proof (rule does_bind [where R = "\<lambda>x s. F x \<and> site_is c f bs s"])
  show "does (site_is c f bs) (ask g) (\<lambda>x s. F x \<and> site_is c f bs s) E"
    using assms(1,3) by (auto simp: does_def wp_def ask_def split: prod.split sum.split)
qed (use assms(2) in \<open>rule does_fact\<close>)

lemma does_import:
  fixes dk :: "'h desk"
  assumes c: "core c = c"
  shows "does (site_is c f bs) (cmd_client_import dk name text path nc dry_run)
    (\<lambda>_ s. if dry_run then site_is c f bs s
       else \<exists>config server_public key h profile peer old same_name c' bs' now. load_config c = Inr config
         \<and> server_public_key c = Inr server_public \<and> header_protection_key_for_config c config = Inr key
         \<and> parse_import_profile text (config_obj config) server_public (\<lambda>k. fst (dk_pubkey dk k h)) key = Inr profile
         \<and> server_peer_for_public (imp_public_key profile) (fst f) = Inr peer
         \<and> clients_of True c = Inr old \<and> import_identity name profile peer old = Inr same_name
         \<and> imported dk config profile name c c' \<and> same_semantics (c'\<lparr>mg_generated := fst f\<rparr>) now = Inr True
         \<and> changed_backups (c\<lparr>mg_generated := fst f\<rparr>) bs bs' \<and> site_is c' f bs' s)
    (\<lambda>s. \<exists>bs' c'. with_backup (c\<lparr>mg_generated := fst f\<rparr>) bs bs' \<and> (c' = c \<or> import_undone name c c')
       \<and> site_is c' f bs' s)"
    (is "does _ _ ?Q ?E")
proof -
  have quiet: "?E s" if "site_is c f bs s" for s using that by (auto simp: with_backup_def)
  let ?m = "c\<lparr>mg_generated := fst f\<rparr>"
  have run: "does (site_is c f bs) (bindE (create_backup dk) (\<lambda>_.
      bindE (reading (\<lambda>s. if same_name = None then Inr None
            else andthen (kept_copy name (st_managed s)) (\<lambda>c. Inr (Some c)))) (\<lambda>copy.
      bindE (if same_name = None then ret () else remove_client_state name) (\<lambda>_.
      handle any_error
        (bindE (write_client_state dk config name (imp_address profile) (imp_private_key profile) (imp_public_key profile)
           (imp_psk profile) nc') (\<lambda>_.
         bindE (clock dk) (\<lambda>now.
         bindE (reading (\<lambda>s. same_semantics (st_managed s) now)) (\<lambda>same.
         ensure same message))))
        (\<lambda>e. bindE (remove_client_state name) (\<lambda>_.
             bindE (case copy of None \<Rightarrow> ret () | Some c \<Rightarrow> put_back name c) (\<lambda>_. raise e)))))))
    (\<lambda>_ s. \<exists>c' bs' now. imported dk config profile name c c' \<and> same_semantics (c'\<lparr>mg_generated := fst f\<rparr>) now = Inr True
         \<and> changed_backups ?m bs bs' \<and> site_is c' f bs' s) ?E"
    if nc: "nc_profile nc' = Some (imp_profile profile)" and same: "same_name = None \<Longrightarrow> name \<notin> fst ` set (mg_clients c)"
    for config profile nc' message and same_name :: "loaded_client option"
  proof (rule step_then [OF does_backup], goal_cases)
    case (2 b)
    let ?bs = "bs @ [(b, ?m)]"
    have saved: "with_backup ?m bs ?bs" "changed_backups ?m bs ?bs" by (auto simp: with_backup_def changed_backups_def)
    have e: "?E s" if "c' = c \<or> import_undone name c c'" "site_is c' f ?bs s" for c' s
      using that saved by blast
    have undo: "does (\<lambda>s. \<exists>c'. erased name c' = erased name c \<and> site_is c' f ?bs s)
        (bindE (remove_client_state name) (\<lambda>_. bindE (case copy of None \<Rightarrow> ret () | Some c \<Rightarrow> put_back name c) (\<lambda>_. raise err))) Q ?E"
      if copy: "if same_name = None then copy = None else (\<exists>d k. copy = Some (d, k) \<and> map_of (mg_clients c) name = Some d
          \<and> map_of (mg_keys c) name = Some k)" for copy err and Q :: "unit \<Rightarrow> 'h site \<Rightarrow> bool"
    proof (intro does_exists does_fact, rule does_bind [OF does_remove], fold erased_def, goal_cases)
      case (1 c' x)
      show ?case
      proof (cases copy)
        case None
        with copy same have "import_undone name c (erased name c')" using 1 by (auto simp: import_undone_def split: if_splits)
        with None e show ?thesis by (auto intro!: does_raise)
      next
        case (Some p)
        with copy have "put_back_same name c (building (erased name c) name (fst p) (snd p))"
          unfolding put_back_same_def by (auto split: if_splits)
        then have u: "import_undone name c (building (erased name c) name (fst p) (snd p))" by (simp add: import_undone_def)
        have un: "unused name (erased name c)" and ce: "core (erased name c) = erased name c" by (simp_all add: c)
        show ?thesis unfolding 1 Some option.case
          by (rule does_bind [OF does_put_back [OF un ce]], rule does_raise, rule e [OF disjI2 [OF u]])
      qed
    qed
    have main: "does (site_is d f ?bs) (handle any_error
        (bindE (write_client_state dk config name (imp_address profile) (imp_private_key profile) (imp_public_key profile)
           (imp_psk profile) nc') (\<lambda>_.
         bindE (clock dk) (\<lambda>now.
         bindE (reading (\<lambda>s. same_semantics (st_managed s) now)) (\<lambda>same.
         ensure same message))))
        (\<lambda>e. bindE (remove_client_state name) (\<lambda>_.
             bindE (case copy of None \<Rightarrow> ret () | Some c \<Rightarrow> put_back name c) (\<lambda>_. raise e))))
      (\<lambda>_ s. \<exists>c' bs' now. imported dk config profile name c c' \<and> same_semantics (c'\<lparr>mg_generated := fst f\<rparr>) now = Inr True
         \<and> changed_backups ?m bs bs' \<and> site_is c' f bs' s) ?E"
      if d: "d = c \<or> d = erased name c"
        and copy: "if same_name = None then copy = None else (\<exists>d k. copy = Some (d, k) \<and> map_of (mg_clients c) name = Some d
          \<and> map_of (mg_keys c) name = Some k)" for copy d
      by (rule does_handle [OF does_conseq [OF does_import_write [OF c d nc]] undo [OF copy]]) (use saved in blast)+
    show ?case
    proof (cases "same_name = None")
      case True
      have "bindE (reading (\<lambda>s. Inr None)) k = k None" for k :: "(client_dir \<times> key_dir) option \<Rightarrow> ('h site, unit) eff"
        by (simp add: fun_eq_iff run_simps)
      then show ?thesis using main [of c None] by (simp add: True)
    next
      case False
      show ?thesis unfolding if_not_P [OF False]
      proof (rule step_read, rule does_bind [OF does_remove], fold erased_def, goal_cases)
        case (1 copy x)
        then show ?case using False by (intro main) (auto simp: kept_copy_def or_raise_def split: option.splits elim!: andthenE)
      qed (use e in blast)
    qed
  qed (use quiet in blast)
  have same: "name \<notin> fst ` set (mg_clients c)"
    if "clients_of True c = Inr old" "import_identity name profile peer old = Inr None" "client_name_re name"
    for old profile peer
  proof -
    from that(2) have "loaded_named name old = None"
      unfolding import_identity_def Let_def by (elim andthenE) simp
    with loaded_names [OF that(1,3)] show ?thesis unfolding loaded_named_None by simp
  qed
  show ?thesis unfolding cmd_client_import_def
  proof (rule step_lift, subst (asm) validate_client_name_Inr, rule step_then [OF does_drift], erule quiet, rule step_read,
      rule step_read, rule step_read, rule step_answer [where F = "\<lambda>p. \<exists>h. parse_import_profile text (config_obj config) server_public (\<lambda>k. fst (dk_pubkey dk k h)) key = Inr p" for config server_public key],
      blast, rule step_read, rule step_read, rule step_lift, rule step_clock, rule step_lift, goal_cases)
    case (1 name' u config server_public key profile peer old same_name now proposed)
    then have l: "load_config c = Inr config" "server_public_key c = Inr server_public"
        "header_protection_key_for_config c config = Inr key"
        "server_peer_for_public (imp_public_key profile) (fst f) = Inr peer" "clients_of True c = Inr old"
        "import_identity name profile peer old = Inr same_name"
      and d: "\<exists>h. parse_import_profile text (config_obj config) server_public (\<lambda>k. fst (dk_pubkey dk k h)) key = Inr profile"
      and name: "name' = name" "client_name_re name"
      by (simp_all add: server_public_key_def header_protection_key_for_config_def cong: obfuscation.case_cong)
    show ?case
    proof (cases dry_run)
      case True
      then show ?thesis by (simp add: does_ret)
    next
      case False
      have "?Q () s" if "\<exists>c' bs' now. imported dk config profile name c c' \<and> same_semantics (c'\<lparr>mg_generated := fst f\<rparr>) now = Inr True
         \<and> changed_backups ?m bs bs' \<and> site_is c' f bs' s" for s
      proof -
        from that obtain c' bs' now where w: "imported dk config profile name c c'"
          "same_semantics (c'\<lparr>mg_generated := fst f\<rparr>) now = Inr True" "changed_backups ?m bs bs'" "site_is c' f bs' s" by blast
        from d obtain h where "parse_import_profile text (config_obj config) server_public (\<lambda>k. fst (dk_pubkey dk k h)) key = Inr profile" ..
        with l w show ?thesis unfolding if_not_P [OF False] by (intro exI conjI)
      qed
      then show ?thesis unfolding if_not_P [OF False] name(1)
        by (intro does_conseq [OF run]) (use l name same in auto)
    qed
  qed (use quiet in blast)+
qed

end
