(* ===== verification/ClientResults.thy ===== *)
theory ClientResults
  imports ClientOutcomes Render
begin

text \<open>
  What an administrator may rely on after a client command that met no fault of its own writes: the
  properties that follow from the outcomes, over the files and over what the server file serves.
\<close>

section \<open>The loaded clients after one is removed\<close>

lemma result_list_filter:
  assumes "result_list f xs = Inr ys" and "\<And>x y. x \<in> set xs \<Longrightarrow> f x = Inr y \<Longrightarrow> p x \<longleftrightarrow> q y"
  shows "result_list f (filter p xs) = Inr (filter q ys)"
  using assms by (induction xs arbitrary: ys) (auto simp: result_simps)

lemma result_list_cong: "(\<And>x. x \<in> set xs \<Longrightarrow> f x = g x) \<Longrightarrow> result_list f xs = result_list g xs"
  by (induction xs) auto

lemma load_client_name: "load_client files b name content = Inr c \<Longrightarrow> cl_name (ld_client c) = name"
  unfolding load_client_def by (elim andthenE) (auto elim!: andthenE)

lemma load_client_files: "files name = files' name \<Longrightarrow> load_client files b name content = load_client files' b name content"
  by (simp add: load_client_def client_secrets_def cong: if_cong)

lemma load_clients_without:
  assumes l: "load_clients files entries b = Inr cs" and files: "\<And>n. n \<noteq> name \<Longrightarrow> files' n = files n"
  shows "load_clients files' (filter (\<lambda>e. ce_name e \<noteq> name) entries) b = Inr (unnamed name cs)"
proof -
  let ?load = "\<lambda>files e. load_client files b (ce_name e) (ce_metadata e)"
  let ?key = "\<lambda>c. address_number (cl_address (ld_client c))"
  obtain rs where rs: "result_list (?load files) (filter visible_entry entries) = Inr rs"
    and cs: "cs = sort_key ?key rs" and d: "find_duplicate_client_state (map ld_client cs) = []"
    using l unfolding load_clients_def Let_def by (elim andthenE) (simp split: if_splits)
  let ?keep = "filter (\<lambda>e. ce_name e \<noteq> name)"
  have swap: "filter visible_entry (?keep entries) = ?keep (filter visible_entry entries)"
    by (simp add: conj_commute)
  have "result_list (?load files') (?keep (filter visible_entry entries)) = result_list (?load files) (?keep (filter visible_entry entries))"
    by (rule result_list_cong) (auto intro: load_client_files files)
  also have "\<dots> = Inr (filter (\<lambda>c. cl_name (ld_client c) \<noteq> name) rs)"
    by (rule result_list_filter [OF rs]) (auto dest: load_client_name)
  finally have r: "result_list (?load files') (filter visible_entry (?keep entries)) = Inr (filter (\<lambda>c. cl_name (ld_client c) \<noteq> name) rs)"
    unfolding swap .
  have u: "unnamed name cs = sort_key ?key (filter (\<lambda>c. cl_name (ld_client c) \<noteq> name) rs)"
    by (simp add: unnamed_def cs filter_sort)
  have "find_duplicate_client_state (map ld_client (unnamed name cs)) = []"
    using d unfolding find_duplicate_none map_map unnamed_def by (elim conjE) (intro conjI List.distinct_map_filter)
  then show ?thesis unfolding load_clients_def Let_def r u [symmetric] by (simp add: u [symmetric])
qed

lemma map_of_erase_other: "n \<noteq> k \<Longrightarrow> map_of (erase k m) n = map_of m n"
  by (simp add: map_of_erase)

lemma clients_of_erased:
  assumes "clients_of b c = Inr cs"
  shows "clients_of b (erased name c) = Inr (unnamed name cs)"
proof -
  have entries: "client_entries (erased name c) = filter (\<lambda>e. ce_name e \<noteq> name) (client_entries c)"
    by (simp add: client_entries_def erased_def erase_def filter_map o_def split_def)
  have "client_file (erased name c) n = client_file c n" if "n \<noteq> name" for n
    using that by (simp add: client_file_def fun_eq_iff erased_def map_of_erase)
  then show ?thesis unfolding clients_of_def entries
    by (rule load_clients_without [OF assms [unfolded clients_of_def]])
qed

section \<open>What the server file serves\<close>

text \<open>The public keys of the peers of a server file.\<close>

definition served_keys :: "string \<Rightarrow> string list" where
  "served_keys text =
     (case parse_awg_config text of
        Inl e \<Rightarrow> []
      | Inr parsed \<Rightarrow> List.map_filter (\<lambda>peer. map_of peer ''PublicKey'')
          (case map_of parsed ''Peer'' of None \<Rightarrow> [] | Some ps \<Rightarrow> ps))"

lemma served_keys_rendered:
  assumes "render_clients m config clients now = Inr t"
  shows "served_keys t = map cl_public_key (filter (eligible now) (map ld_client clients))"
proof -
  obtain sk key where r: "render_server_config (config_obj config) sk (map ld_client clients) now key = Inr t"
    using assms unfolding render_clients_def by (elim andthenE)
  then obtain cfg where cfg: "render_config (config_obj config) = Inr cfg"
    unfolding render_server_config_def by (elim andthenE)
  from render_server_config_parses [OF r cfg]
  obtain native where p: "parse_awg_config t = Inr (two_kinds ''Interface'' (interface_directives cfg sk native)
      ''Peer'' (map (peer_directives cfg) (filter (eligible now) (map ld_client clients))))" by blast
  show ?thesis unfolding served_keys_def p
    by (simp add: two_kinds_def peer_directives_def List.map_filter_def o_def del: filter_map)
qed

text \<open>The server file and the file the service reads are what the records and the keys render to.\<close>

definition synced :: "'h site \<Rightarrow> int \<Rightarrow> bool" where
  "synced s now \<longleftrightarrow> (\<exists>t. render_current_server (st_managed s) None now = Inr t
     \<and> mg_generated (st_managed s) = Some t \<and> st_runtime s = Some t)"

lemma syncedI:
  assumes "site_is c (Some t, Some t) bs s" and "load_config c = Inr config" and "clients_of True c = Inr cs"
    and "render_clients c config cs now = Inr t"
  shows "synced s now"
proof -
  have m: "st_managed s = c\<lparr>mg_generated := Some t\<rparr>" using site_is_managed [OF assms(1)] by simp
  have "render_current_server (st_managed s) None now = Inr t"
    using assms(2,4) unfolding m
    by (simp add: render_current_server_def assms(3) render_clients_def server_private_key_def
      header_protection_key_for_config_def cong: obfuscation.case_cong)
  with assms(1) show ?thesis by (auto simp: synced_def site_is_def servers_def)
qed

section \<open>The outcomes\<close>

lemma from_self:
  assumes "does (site_is (core (st_managed s)) (servers s) (st_backups s)) m Q E"
    and "\<And>x s'. Q x s' \<Longrightarrow> D x s'" and "\<And>s'. E s' \<Longrightarrow> F s'"
  shows "case m (None, s) of (Done x, (b, s')) \<Rightarrow> D x s' | (Raised e, (b, s')) \<Rightarrow> F s' | (Killed, c) \<Rightarrow> False"
  by (rule outcome [OF assms(1) site_is_self assms(2,3)])

lemma same_core: "core m = c \<Longrightarrow> m = c\<lparr>mg_generated := mg_generated m\<rparr>"
  by (auto simp: core_def)

lemma site_is_iff: "site_is c f bs s \<longleftrightarrow> core (st_managed s) = c \<and> servers s = f \<and> st_backups s = bs"
  by (simp add: site_is_def)

text \<open>
  C14: Committing a server file is all or nothing when its own writes succeed: it returns with the file
  and the one the service reads both replaced, or it raises with both as they were, whatever the
  validation, the service manager or the configuration did; no other managed file and no backup
  changes.
\<close>

theorem commit_server_config_all_or_nothing:
  "case commit_server_config dk text action (None, s) of
     (Done active, (b, s')) \<Rightarrow> servers s' = (Some text, Some text)
       \<and> core (st_managed s') = core (st_managed s) \<and> st_backups s' = st_backups s
   | (Raised e, (b, s')) \<Rightarrow> servers s' = servers s
       \<and> core (st_managed s') = core (st_managed s) \<and> st_backups s' = st_backups s
   | (Killed, c) \<Rightarrow> False"
  by (rule from_self [OF does_commit]) (simp_all add: site_is_iff)

text \<open>
  C11: Adding a client. When the command returns, the directory and the keys of one new client are
  there, its address is the least free one of the subnet, the state the command found is in a new
  backup, and the server file and the file the service reads are what the records now render to.
  When it raises, the clients, keys and archives are as before, there is at most that backup more, and
  the two server files are as before, or they agree on a text of the attempt: the new one, which a
  rollback could not replace, or the old clients rendered again. The one exception needs the clock to go
  back: the configuration's old clients rendered when the command checked the state and, at an earlier
  instant, do not; then the new client is left in place, complete, with its server file committed.
\<close>

theorem cmd_client_add_outcome:
  fixes s :: "'h site"
  shows "case cmd_client_add dk name nc False (None, s) of
     (Done u, (b, s')) \<Rightarrow> (\<exists>config old address sk pk psk d t now backup.
         load_config (st_managed s) = Inr config \<and> clients_of True (st_managed s) = Inr old
         \<and> unused name (st_managed s) \<and> allocate_address config old = Inr address
         \<and> written_client dk (core (st_managed s)) config name address sk pk psk (plain_client nc) d
         \<and> st_managed s' = (st_managed s)\<lparr>mg_clients := mg_clients (st_managed s) @ [(name, d)],
              mg_keys := mg_keys (st_managed s) @ [(name, written_keys sk pk psk)], mg_generated := Some t\<rparr>
         \<and> st_backups s' = st_backups s @ [(backup, st_managed s)] \<and> synced s' now)
   | (Raised e, (b, s')) \<Rightarrow>
       with_backup (st_managed s) (st_backups s) (st_backups s') \<and>
       (core (st_managed s') = core (st_managed s) \<and> servers s' = servers s
        \<or> (\<exists>config old t. load_config (st_managed s) = Inr config \<and> clients_of True (st_managed s) = Inr old
             \<and> core (st_managed s') = core (st_managed s) \<and> servers s' = (Some t, Some t)
             \<and> rollback_text config old (added dk config old name nc (core (st_managed s))) t)
        \<or> (\<exists>config old t. load_config (st_managed s) = Inr config \<and> clients_of True (st_managed s) = Inr old
             \<and> clock_reversed config old (st_managed s)
             \<and> added dk config old name nc (core (st_managed s)) t (core (st_managed s')) \<and> servers s' = (Some t, Some t)))
   | (Killed, c) \<Rightarrow> False"
proof (rule from_self [OF does_add], goal_cases)
  case 1
  show ?case by simp
next
  let ?m = "st_managed s"
  have whole: "core ?m\<lparr>mg_generated := mg_generated ?m\<rparr> = ?m" by (simp add: core_def)
  have load: "load_config (core ?m) = load_config ?m" "clients_of x (core ?m) = clients_of x ?m"
    "unused name (core ?m) = unused name ?m" for x by (simp_all add: core_def unused_def)
  {
    case (2 u s')
    then obtain config old t c' bs' where l: "load_config ?m = Inr config" "clients_of True ?m = Inr old" "unused name ?m"
      and a: "added dk config old name nc (core ?m) t c'" and b: "changed_backups ?m (st_backups s) bs'"
      and st: "site_is c' (Some t, Some t) bs' s'"
      by (auto simp: load servers_def whole)
    from a obtain address sk pk psk d new now where ad: "allocate_address config old = Inr address"
      "written_client dk (core ?m) config name address sk pk psk (plain_client nc) d"
      "c' = building (core ?m) name d (written_keys sk pk psk)" "clients_of True c' = Inr new"
      "render_clients c' config new now = Inr t" unfolding added_def by blast
    have "load_config c' = Inr config" using l(1) by (simp add: ad(3) building_def load_config_def core_def)
    from syncedI [OF st this ad(4,5)] have sync: "synced s' now" .
    have "st_managed s' = ?m\<lparr>mg_clients := mg_clients ?m @ [(name, d)],
        mg_keys := mg_keys ?m @ [(name, written_keys sk pk psk)], mg_generated := Some t\<rparr>"
      using site_is_managed [OF st] by (simp add: ad(3) building_def core_def)
    moreover obtain backup where "st_backups s' = st_backups s @ [(backup, ?m)]"
      using b st by (auto simp: changed_backups_def site_is_def)
    ultimately show ?case using l ad(1,2) sync by blast
  next
    case (3 s')
    then obtain bs' where b: "with_backup ?m (st_backups s) bs'"
      and e: "site_is (core ?m) (servers s) bs' s'
          \<or> (\<exists>config old. load_config ?m = Inr config \<and> clients_of True ?m = Inr old
               \<and> (\<exists>t. rollback_text config old (added dk config old name nc (core ?m)) t \<and> site_is (core ?m) (Some t, Some t) bs' s'))
          \<or> (\<exists>config old c' t. load_config ?m = Inr config \<and> clients_of True ?m = Inr old \<and> clock_reversed config old (core ?m)
               \<and> added dk config old name nc (core ?m) t c' \<and> site_is c' (Some t, Some t) bs' s')"
      unfolding load servers_def fst_conv whole by blast
    have "clock_reversed config old (core ?m) = clock_reversed config old ?m" for config old
      by (simp add: clock_reversed_def core_def)
    with b e show ?case unfolding site_is_iff by metis
  }
qed

lemma core_whole [simp]: "core m\<lparr>mg_generated := mg_generated m\<rparr> = m"
  by (simp add: core_def)

lemma core_reads [simp]:
  "load_config (core m) = load_config m" "clients_of b (core m) = clients_of b m"
  "render_clients (core m) config clients now = render_clients m config clients now"
  by (simp_all add: core_def)

lemma load_config_erased [simp]:
  "load_config (erased name m) = load_config m" "load_config (archived a d k m) = load_config m"
  "load_config (building m name x y) = load_config m"
  by (simp_all add: load_config_def erased_def archived_def building_def)

lemma clients_archived [simp]: "clients_of b (archived a d k m) = clients_of b m"
  by (simp add: clients_of_def client_file_def [abs_def] client_entries_def archived_def)

lemma served_revoked:
  assumes "clients_of True c = Inr old" and "loaded_named name old = Some target"
    and "render_clients c config (unnamed name old) now = Inr t"
  shows "cl_public_key (ld_client target) \<notin> set (served_keys t)"
proof -
  have d: "distinct (map (\<lambda>c. cl_public_key (ld_client c)) old)"
    using load_clients_ok [OF assms(1) [unfolded clients_of_def]] by blast
  have target: "target \<in> set old" "cl_name (ld_client target) = name"
    using assms(2) by (auto simp: loaded_named_def find_Some_iff)
  have "cl_public_key (ld_client target) \<noteq> cl_public_key (ld_client c)" if "c \<in> set old" "cl_name (ld_client c) \<noteq> name" for c
    using that target d by (auto simp: distinct_map inj_on_def)
  then show ?thesis unfolding served_keys_rendered [OF assms(3)] by (auto simp: unnamed_def)
qed

text \<open>
  C12: Revoking a client. When the command returns, the client's directory and keys are gone and kept,
  marked as revoked, in a new archive, the state the command found is in a new backup, the server
  file and the file the service reads are what the remaining records render to, and the revoked
  public key is not among the peers served. When it raises, no client and no key has changed, the
  archives have at most grown, and the two server files are as before or agree.
\<close>

theorem cmd_client_revoke_outcome:
  fixes s :: "'h site"
  shows "case cmd_client_revoke dk name False (None, s) of
     (Done u, (b, s')) \<Rightarrow> (\<exists>old target d k d' a t now' now backup.
         clients_of True (st_managed s) = Inr old \<and> loaded_named name old = Some target
         \<and> map_of (mg_clients (st_managed s)) name = Some d \<and> map_of (mg_keys (st_managed s)) name = Some k
         \<and> marked_dir ''revoked'' now' d d' \<and> a \<notin> fst ` set (mg_revoked (st_managed s))
         \<and> st_managed s' = (st_managed s)\<lparr>mg_clients := erase name (mg_clients (st_managed s)),
              mg_keys := erase name (mg_keys (st_managed s)),
              mg_revoked := mg_revoked (st_managed s) @ [(a, Some d', Some k)], mg_generated := Some t\<rparr>
         \<and> st_backups s' = st_backups s @ [(backup, st_managed s)] \<and> synced s' now
         \<and> cl_public_key (ld_client target) \<notin> set (served_keys t))
   | (Raised e, (b, s')) \<Rightarrow>
       (\<exists>archives. core (st_managed s') = core ((st_managed s)\<lparr>mg_revoked := mg_revoked (st_managed s) @ archives\<rparr>))
       \<and> (servers s' = servers s \<or> (\<exists>t. servers s' = (Some t, Some t)))
   | (Killed, c) \<Rightarrow> False"
proof (rule from_self [OF does_revoke], goal_cases)
  case 1
  show ?case by simp
next
  let ?m = "st_managed s"
  {
    case (2 u s')
    then obtain config old target t c' bs' where l: "load_config ?m = Inr config" "clients_of True ?m = Inr old"
      and r: "revoked config old target name (core ?m) t c'" and b: "changed_backups ?m (st_backups s) bs'"
      and st: "site_is (erased name c') (Some t, Some t) bs' s'" by (auto simp: servers_def)
    from r obtain a d k d' now now' where rd: "loaded_named name old = Some target" "a \<notin> fst ` set (mg_revoked ?m)"
      "map_of (mg_clients ?m) name = Some d" "map_of (mg_keys ?m) name = Some k" "marked_dir ''revoked'' now d d'"
      "render_clients ?m config (unnamed name old) now' = Inr t" "c' = archived a (Some d') (Some k) (core ?m)"
      unfolding revoked_def by auto
    have cs: "clients_of True (erased name c') = Inr (unnamed name old)"
      by (rule clients_of_erased) (simp add: rd(7) l)
    have "load_config (erased name c') = Inr config" by (simp add: rd(7) l)
    moreover have "render_clients (erased name c') config (unnamed name old) now' = Inr t"
      using rd(6) by (simp add: rd(7))
    ultimately have sync: "synced s' now'" by (rule syncedI [OF st _ cs])
    have "st_managed s' = ?m\<lparr>mg_clients := erase name (mg_clients ?m), mg_keys := erase name (mg_keys ?m),
        mg_revoked := mg_revoked ?m @ [(a, Some d', Some k)], mg_generated := Some t\<rparr>"
      using site_is_managed [OF st] by (simp add: rd(7) erased_def archived_def core_def)
    moreover obtain backup where "st_backups s' = st_backups s @ [(backup, ?m)]"
      using b st by (auto simp: changed_backups_def site_is_def)
    ultimately show ?case using l(2) rd(1-5) sync served_revoked [OF l(2) rd(1,6)] by blast
  next
    case (3 s')
    then show ?case by (auto simp: site_or_agrees_def site_is_iff archive_left_def)
  }
qed

lemma rotated_site:
  fixes s s' :: "'h site"
  assumes l: "load_config (st_managed s) = Inr config"
    and r: "rotated dk config target name (core (st_managed s)) t c'"
    and b: "changed_backups (st_managed s) (st_backups s) bs'" and st: "site_is c' (Some t, Some t) bs' s'"
  shows "\<exists>d k d' r sk pk psk a now' now backup.
     map_of (mg_clients (st_managed s)) name = Some d \<and> map_of (mg_keys (st_managed s)) name = Some k
     \<and> marked_dir ''rotated'' now' d d' \<and> a \<notin> fst ` set (mg_revoked (st_managed s))
     \<and> rotated_to dk config target name (core (st_managed s)) sk pk psk r
     \<and> st_managed s' = (st_managed s)\<lparr>mg_clients := erase name (mg_clients (st_managed s)) @ [(name, r)],
          mg_keys := erase name (mg_keys (st_managed s)) @ [(name, written_keys sk pk psk)],
          mg_revoked := mg_revoked (st_managed s) @ [(a, Some d', Some k)], mg_generated := Some t\<rparr>
     \<and> st_backups s' = st_backups s @ [(backup, st_managed s)] \<and> synced s' now"
proof -
  let ?m = "st_managed s"
  from r obtain a d k d' now sk pk psk x new now' where rd: "a \<notin> fst ` set (mg_revoked ?m)"
    "map_of (mg_clients ?m) name = Some d" "map_of (mg_keys ?m) name = Some k" "marked_dir ''rotated'' now d d'"
    "rotated_to dk config target name (core ?m) sk pk psk x"
    "c' = archived a (Some d') (Some k) (building (erased name (core ?m)) name x (written_keys sk pk psk))"
    "clients_of True c' = Inr new" "render_clients c' config new now' = Inr t"
    unfolding rotated_def by auto
  have sync: "synced s' now'" by (rule syncedI [OF st _ rd(7,8)]) (simp add: rd(6) l)
  have "st_managed s' = ?m\<lparr>mg_clients := erase name (mg_clients ?m) @ [(name, x)],
      mg_keys := erase name (mg_keys ?m) @ [(name, written_keys sk pk psk)],
      mg_revoked := mg_revoked ?m @ [(a, Some d', Some k)], mg_generated := Some t\<rparr>"
    using site_is_managed [OF st] by (simp add: rd(6) erased_def archived_def building_def core_def)
  moreover obtain backup where "st_backups s' = st_backups s @ [(backup, ?m)]"
    using b st by (auto simp: changed_backups_def site_is_def)
  ultimately show ?thesis using rd(1-5) sync by blast
qed

text \<open>
  C13: Rotating a client. When the command returns, the client has new keys and a new directory under
  the same address, the old ones are kept, marked as rotated, in a new archive, the state the command
  found is in a new backup, and the server file and the file the service reads are what the records
  now render to. When it raises, there is at most that backup more, and either nothing has changed but
  an archive, or the client has been put back from the archive: its own old keys and its own old
  directory, its metadata marked active again, behind the other clients, with no archive left; the two
  server files are then as before, or agree on the new text or on the old clients rendered again. The
  one exception needs the clock to go back, as for adding a client: the completed rotation stays.
\<close>

theorem cmd_client_rotate_outcome:
  fixes s :: "'h site"
  shows "case cmd_client_rotate dk name False (None, s) of
     (Done u, (b, s')) \<Rightarrow> (\<exists>config old target d k d' r sk pk psk a t now' now backup.
         load_config (st_managed s) = Inr config \<and> clients_of True (st_managed s) = Inr old
         \<and> loaded_named name old = Some target \<and> ld_management target = ''managed''
         \<and> map_of (mg_clients (st_managed s)) name = Some d \<and> map_of (mg_keys (st_managed s)) name = Some k
         \<and> marked_dir ''rotated'' now' d d' \<and> a \<notin> fst ` set (mg_revoked (st_managed s))
         \<and> rotated_to dk config target name (core (st_managed s)) sk pk psk r
         \<and> st_managed s' = (st_managed s)\<lparr>mg_clients := erase name (mg_clients (st_managed s)) @ [(name, r)],
              mg_keys := erase name (mg_keys (st_managed s)) @ [(name, written_keys sk pk psk)],
              mg_revoked := mg_revoked (st_managed s) @ [(a, Some d', Some k)], mg_generated := Some t\<rparr>
         \<and> st_backups s' = st_backups s @ [(backup, st_managed s)] \<and> synced s' now)
   | (Raised e, (b, s')) \<Rightarrow>
       with_backup (st_managed s) (st_backups s) (st_backups s') \<and>
       ((\<exists>archives. core (st_managed s') = core ((st_managed s)\<lparr>mg_revoked := mg_revoked (st_managed s) @ archives\<rparr>)
          \<and> servers s' = servers s)
        \<or> (\<exists>config old target. load_config (st_managed s) = Inr config \<and> clients_of True (st_managed s) = Inr old
             \<and> loaded_named name old = Some target
             \<and> put_back_active name (core (st_managed s)) (core (st_managed s'))
             \<and> (servers s' = servers s
                \<or> (\<exists>t. rollback_text config old (rotated dk config target name (core (st_managed s))) t
                     \<and> servers s' = (Some t, Some t))))
        \<or> (\<exists>config old target t. load_config (st_managed s) = Inr config \<and> clients_of True (st_managed s) = Inr old
             \<and> loaded_named name old = Some target \<and> clock_reversed config old (st_managed s)
             \<and> rotated dk config target name (core (st_managed s)) t (core (st_managed s'))
             \<and> servers s' = (Some t, Some t)))
   | (Killed, c) \<Rightarrow> False"
proof (rule from_self [OF does_rotate], goal_cases)
  case 1
  show ?case by simp
next
  let ?m = "st_managed s"
  {
    case (2 u s')
    then obtain config old target t c' bs' where l: "load_config ?m = Inr config" "clients_of True ?m = Inr old"
        "loaded_named name old = Some target" "ld_management target = ''managed''"
      and r: "rotated dk config target name (core ?m) t c'" and b: "changed_backups ?m (st_backups s) bs'"
      and st: "site_is c' (Some t, Some t) bs' s'" by (auto simp: servers_def)
    from l rotated_site [OF l(1) r b st] show ?case by blast
  next
    case (3 s')
    then obtain bs' where b: "with_backup ?m (st_backups s) bs'"
      and e: "(\<exists>c'. archive_left (core ?m) c' \<and> site_is c' (servers s) bs' s')
          \<or> (\<exists>config old target u. load_config ?m = Inr config \<and> clients_of True ?m = Inr old
               \<and> loaded_named name old = Some target \<and> put_back_active name (core ?m) u
               \<and> site_rolled (rollback_text config old (rotated dk config target name (core ?m))) u (servers s) bs' s')
          \<or> (\<exists>config old target t c'. load_config ?m = Inr config \<and> clients_of True ?m = Inr old
               \<and> loaded_named name old = Some target \<and> clock_reversed config old (core ?m)
               \<and> rotated dk config target name (core ?m) t c' \<and> site_is c' (Some t, Some t) bs' s')"
      unfolding servers_def fst_conv core_whole core_reads by blast
    have r: "clock_reversed config old (core ?m) = clock_reversed config old ?m" for config old
      by (simp add: clock_reversed_def)
    from e show ?case
    proof (elim disjE exE conjE)
      fix c' assume "archive_left (core ?m) c'" "site_is c' (servers s) bs' s'"
      with b show ?thesis by (intro conjI disjI1) (auto simp: archive_left_def site_is_iff)
    next
      fix config old target u assume l: "load_config ?m = Inr config" "clients_of True ?m = Inr old"
        "loaded_named name old = Some target" "put_back_active name (core ?m) u"
        "site_rolled (rollback_text config old (rotated dk config target name (core ?m))) u (servers s) bs' s'"
      with b show ?thesis unfolding site_rolled_def site_is_iff by (intro conjI disjI2 disjI1) blast+
    next
      fix config old target t c' assume l: "load_config ?m = Inr config" "clients_of True ?m = Inr old"
        "loaded_named name old = Some target" "clock_reversed config old (core ?m)"
        "rotated dk config target name (core ?m) t c'" "site_is c' (Some t, Some t) bs' s'"
      with b show ?thesis unfolding site_is_iff r by (intro conjI disjI2) blast+
    qed
  }
qed

text \<open>
  Importing a profile. When the command returns, exactly one peer of the server file has the
  profile's key, and its address and pre-shared key are the profile's; a client of that name holds the
  profile as it was given, with the keys of the profile; the server files are not touched, and what
  the records now render to has the same meaning as the server file. When it raises, the server files
  are untouched, and the clients are as before, an external client of that name having been put back
  behind the others, or stray files of that name having been removed.
\<close>

theorem cmd_client_import_outcome:
  fixes s :: "'h site"
  shows "case cmd_client_import dk name text path nc False (None, s) of
     (Done u, (b, s')) \<Rightarrow> (\<exists>config server_public key h profile peer old same_name now backup.
         load_config (st_managed s) = Inr config \<and> server_public_key (st_managed s) = Inr server_public
         \<and> header_protection_key_for_config (st_managed s) config = Inr key
         \<and> parse_import_profile text (config_obj config) server_public (\<lambda>k. fst (dk_pubkey dk k h)) key = Inr profile
         \<and> server_peer_for_public (imp_public_key profile) (mg_generated (st_managed s)) = Inr peer
         \<and> clients_of True (st_managed s) = Inr old \<and> import_identity name profile peer old = Inr same_name
         \<and> imported dk config profile name (core (st_managed s)) (core (st_managed s'))
         \<and> same_semantics (st_managed s') now = Inr True \<and> servers s' = servers s
         \<and> st_backups s' = st_backups s @ [(backup, st_managed s)])
   | (Raised e, (b, s')) \<Rightarrow> servers s' = servers s
       \<and> (core (st_managed s') = core (st_managed s) \<or> import_undone name (core (st_managed s)) (core (st_managed s')))
   | (Killed, c) \<Rightarrow> False"
proof (rule from_self [OF does_import], goal_cases)
  case 1
  show ?case by simp
next
  let ?m = "st_managed s"
  have frame: "server_public_key (core ?m) = server_public_key ?m"
    "header_protection_key_for_config (core ?m) config = header_protection_key_for_config ?m config" for config
    by (simp_all add: server_public_key_def header_protection_key_for_config_def core_def cong: obfuscation.case_cong)
  {
    case (2 u s')
    then obtain config server_public key h profile peer old same_name c' bs' now where l: "load_config ?m = Inr config"
        "server_public_key ?m = Inr server_public" "header_protection_key_for_config ?m config = Inr key"
        "parse_import_profile text (config_obj config) server_public (\<lambda>k. fst (dk_pubkey dk k h)) key = Inr profile"
        "server_peer_for_public (imp_public_key profile) (mg_generated ?m) = Inr peer"
        "clients_of True ?m = Inr old" "import_identity name profile peer old = Inr same_name"
        "imported dk config profile name (core ?m) c'"
      and same: "same_semantics (c'\<lparr>mg_generated := mg_generated ?m\<rparr>) now = Inr True"
      and b: "changed_backups ?m (st_backups s) bs'" and st: "site_is c' (servers s) bs' s'"
      by (auto simp: frame servers_def)
    have "st_managed s' = c'\<lparr>mg_generated := mg_generated ?m\<rparr>"
      using site_is_managed [OF st] by (simp add: servers_def)
    then have "same_semantics (st_managed s') now = Inr True" using same by simp
    moreover have "core (st_managed s') = c'" "servers s' = servers s" using st by (simp_all add: site_is_iff)
    moreover obtain backup where "st_backups s' = st_backups s @ [(backup, ?m)]"
      using b st by (auto simp: changed_backups_def site_is_iff)
    ultimately show ?case using l by (intro exI conjI) simp_all
  next
    case (3 s')
    then show ?case by (auto simp: site_is_iff)
  }
qed

text \<open>
  Editing a client. When the command returns, nothing has changed, or the state it found is in a
  new backup and the metadata of this client, and nothing else, has been replaced by its metadata with
  the changes asked for; when it raises, nothing has changed but the backups.
\<close>

theorem cmd_client_edit_outcome:
  fixes s :: "'h site"
  shows "case cmd_client_edit dk name changes mark False (None, s) of
     (Done u, (b, s')) \<Rightarrow>
       (st_managed s' = st_managed s \<and> st_runtime s' = st_runtime s \<and> st_backups s' = st_backups s)
       \<or> (\<exists>old target proposed now now' backup. clients_of False (st_managed s) = Inr old
            \<and> loaded_named name old = Some target
            \<and> edited_metadata (ld_metadata target) changes mark (utc_text now) = Inr proposed
            \<and> st_managed s' = in_client name (\<lambda>d. d\<lparr>cd_metadata :=
                Inr (JObj (put proposed ''updated_at'' (JStr (utc_text now'))))\<rparr>) (st_managed s)
            \<and> st_runtime s' = st_runtime s \<and> st_backups s' = st_backups s @ [(backup, st_managed s)])
   | (Raised e, (b, s')) \<Rightarrow> st_managed s' = st_managed s \<and> st_runtime s' = st_runtime s
   | (Killed, c) \<Rightarrow> False"
proof (rule from_self [OF does_edit], goal_cases)
  case 1
  show ?case by simp
next
  let ?m = "st_managed s"
  have kept: "st_managed s' = c'\<lparr>mg_generated := mg_generated ?m\<rparr> \<and> st_runtime s' = st_runtime s \<and> st_backups s' = bs"
    if "site_is c' (servers s) bs s'" for c' bs and s' :: "'h site"
    using that site_is_managed [OF that] by (auto simp: site_is_iff servers_def)
  {
    case (2 u s')
    then show ?case
    proof (elim disjE exE conjE, goal_cases)
      case 1
      from kept [OF this] show ?case by simp
    next
      case (2 old target proposed now now' bs')
      from 2(5) obtain backup where "bs' = st_backups s @ [(backup, ?m)]" by (auto simp: changed_backups_def servers_def)
      with kept [OF 2(6)] show ?case
        by (intro disjI2 exI conjI) (use 2 in \<open>auto simp: in_client_def core_def\<close>)
    qed
  next
    case (3 s')
    then obtain bs' where "site_is (core ?m) (servers s) bs' s'" by blast
    from kept [OF this] show ?case by simp
  }
qed

end
