(* ===== verification/Deploy.thy ===== *)
theory Deploy
  imports Semver Progress Outcomes "HOL-Library.AList"
begin

text \<open>
  \<^verbatim>\<open>src/awginstall/deploy.py\<close> and \<^verbatim>\<open>src/awginstall/installer.py\<close>: the versioned installation of
  the program itself. A release directory is a map from relative paths to file contents; it is
  built in a staging directory and renamed into place, then the selector \<^verbatim>\<open>bin/awgctl\<close> is replaced
  by a link to it. Modes are not modelled, and the directories above a file exist when it is written.
\<close>

section \<open>The installation\<close>

text \<open>A JSON document is stored as its value, its digest taken of other files only.\<close>

datatype content = Bytes string | Document json

type_synonym release = "(string \<times> content) list"

text \<open>The selector: nothing, a symbolic link with its target text, or a file of an unversioned installation.\<close>

datatype selector = Absent | Link string | Plain string

record install_root =
  ir_releases :: "(string \<times> release) list"
  ir_staging :: "(nat \<times> release) list"
  ir_selector :: selector

text \<open>\<open>PurePosixPath.parts\<close>: the root of an absolute path is a part of its own, empty parts and dots vanish.\<close>

definition path_parts :: "string \<Rightarrow> string list" where
  "path_parts s =
     (if starts_with ''/'' s then [''/''] else [])
     @ filter (\<lambda>p. p \<noteq> [] \<and> p \<noteq> ''.'') (split_on CHR ''/'' s)"

definition safe_relative :: "string \<Rightarrow> string list result" where
  "safe_relative name =
     (let parts = path_parts name
      in if starts_with ''/'' name \<or> parts = [] \<or> ''..'' \<in> set parts
         then Inl (DeploymentError (''unsafe release path: '' @ name)) else Inr parts)"

fun put_file :: "string \<Rightarrow> content \<Rightarrow> release \<Rightarrow> release" where
  "put_file p c [] = [(p, c)]"
| "put_file p c ((q, d) # r) = (if q = p then (p, c) # r else (q, d) # put_file p c r)"

definition bytes_of :: "release \<Rightarrow> string \<Rightarrow> string option" where
  "bytes_of r p = (case map_of r p of Some (Bytes b) \<Rightarrow> Some b | _ \<Rightarrow> None)"

section \<open>Operations\<close>

definition active_release :: "install_root \<Rightarrow> string option" where
  "active_release s =
     (case ir_selector s of
        Link target \<Rightarrow>
          (case path_parts target of
             [up, releases, version, name] \<Rightarrow>
               if up = ''..'' \<and> releases = ''releases'' \<and> name = ''awgctl'' then Some version else None
           | _ \<Rightarrow> None)
      | _ \<Rightarrow> None)"

definition release_file :: "string \<Rightarrow> install_root \<Rightarrow> string option" where
  "release_file version s = Option.bind (map_of (ir_releases s) version) (\<lambda>r. bytes_of r ''awgctl'')"

definition selector_target :: "string \<Rightarrow> string" where
  "selector_target version = ''../releases/'' @ version @ ''/awgctl''"

definition deploy_ensure :: "bool \<Rightarrow> string \<Rightarrow> ('s, unit) eff" where
  "deploy_ensure b message = lift (check b (DeploymentError message))"

definition activate_release :: "string \<Rightarrow> (install_root, unit) eff" where
  "activate_release version =
     bindE (query (\<lambda>s. release_file version s \<noteq> None)) (\<lambda>complete.
     bindE (deploy_ensure complete (''release is incomplete: '' @ version)) (\<lambda>_.
     durable (\<lambda>s. s\<lparr>ir_selector := Link (selector_target version)\<rparr>)))"

text \<open>\<open>tempfile.mkdtemp\<close> creates a directory under a new name.\<close>

definition fresh_id :: "install_root \<Rightarrow> nat" where
  "fresh_id s = Suc (foldr max (map fst (ir_staging s)) 0)"

definition stage_file :: "nat \<Rightarrow> string \<Rightarrow> content \<Rightarrow> (install_root, unit) eff" where
  "stage_file i p c = durable (\<lambda>s. s\<lparr>ir_staging := map (\<lambda>(j, r). if j = i then (j, put_file p c r) else (j, r)) (ir_staging s)\<rparr>)"

definition drop_stage :: "nat \<Rightarrow> (install_root, unit) eff" where
  "drop_stage i =
     suppress any_error (durable (\<lambda>s. s\<lparr>ir_staging := filter (\<lambda>(j, r). j \<noteq> i) (ir_staging s)\<rparr>))"

text \<open>\<open>os.replace(staging, final)\<close> with the sync of the parent directory.\<close>

definition publish :: "nat \<Rightarrow> string \<Rightarrow> install_root \<Rightarrow> install_root" where
  "publish i version s =
     (case map_of (ir_staging s) i of
        None \<Rightarrow> s
      | Some r \<Rightarrow> s\<lparr>ir_releases := ir_releases s @ [(version, r)],
          ir_staging := filter (\<lambda>(j, r). j \<noteq> i) (ir_staging s)\<rparr>)"

definition install_manifest :: "string \<Rightarrow> string list \<Rightarrow> (string \<times> string) list \<Rightarrow> json" where
  "install_manifest version names hashes =
     JObj [(''schema_version'', JInt 1), (''installation_schema_version'', JInt 1), (''version'', JStr version),
       (''files'', JList (map JStr names)), (''sha256'', JObj (map (\<lambda>(n, h). (n, JStr h)) hashes))]"

text \<open>The shared files in the order of their names; a name may denote the path of an earlier one.\<close>

fun stage_shared ::
  "(string \<Rightarrow> string) \<Rightarrow> nat \<Rightarrow> (string \<times> string) list \<Rightarrow> string list \<Rightarrow> (string \<times> string) list
     \<Rightarrow> (install_root, string list \<times> (string \<times> string) list) eff" where
  "stage_shared sha256 i [] names hashes = ret (names, hashes)"
| "stage_shared sha256 i ((name, data) # shared) names hashes =
     bindE (lift (safe_relative name)) (\<lambda>parts.
     let path_name = ''share/'' @ join ''/'' parts
     in bindE (stage_file i path_name (Bytes data)) (\<lambda>_.
        stage_shared sha256 i shared (names @ [path_name]) (AList.update path_name (sha256 data) hashes)))"

definition build_stage ::
  "(string \<Rightarrow> string) \<Rightarrow> nat \<Rightarrow> string \<Rightarrow> string \<Rightarrow> (string \<times> string) list \<Rightarrow> (install_root, unit) eff" where
  "build_stage sha256 i version artifact shared =
     bindE (stage_file i ''awgctl'' (Bytes artifact)) (\<lambda>_.
     bindE (stage_shared sha256 i (sort_key fst shared) [''awgctl''] [(''awgctl'', sha256 artifact)]) (\<lambda>(names, hashes).
     bindE (stage_file i ''install-manifest.json'' (Document (install_manifest version names hashes))) (\<lambda>_.
     durable (publish i version))))"

definition new_release ::
  "(string \<Rightarrow> string) \<Rightarrow> string \<Rightarrow> string \<Rightarrow> (string \<times> string) list \<Rightarrow> (install_root, unit) eff" where
  "new_release sha256 version artifact shared =
     bindE (query fresh_id) (\<lambda>i.
     bindE (durable (\<lambda>s. s\<lparr>ir_staging := ir_staging s @ [(i, [])]\<rparr>)) (\<lambda>_.
     handle any_error (build_stage sha256 i version artifact shared)
       (\<lambda>e. bindE (drop_stage i) (\<lambda>_. raise e))))"

definition install_release ::
  "(string \<Rightarrow> string) \<Rightarrow> string option \<Rightarrow> string \<Rightarrow> (string \<times> string) list \<Rightarrow> (install_root, unit) eff" where
  "install_release sha256 artifact version shared =
     bindE (lift (except_as (\<lambda>e. case e of InvalidVersion m \<Rightarrow> True | _ \<Rightarrow> False)
       (DeploymentError ''invalid release version'') (precedence_key (JStr version)))) (\<lambda>_.
     bindE (deploy_ensure (\<not> (CHR ''/'' \<in> set version \<or> version = ''.'' \<or> version = ''..''))
       ''invalid release version'') (\<lambda>_.
     bindE (lift (or_raise artifact (DeploymentError ''release artifact not found''))) (\<lambda>data.
     bindE (query (\<lambda>s. map_of (ir_releases s) version)) (\<lambda>final.
     bindE (case final of
          Some r \<Rightarrow> deploy_ensure (bytes_of r ''awgctl'' = Some data)
            (''release already exists with different content: '' @ version)
        | None \<Rightarrow> new_release sha256 version data shared) (\<lambda>_.
     activate_release version)))))"

definition preserve_legacy_release :: "(string \<Rightarrow> string) \<Rightarrow> (install_root, string option) eff" where
  "preserve_legacy_release sha256 =
     bindE (query (\<lambda>s. s)) (\<lambda>s.
     case ir_selector s of
       Plain data \<Rightarrow>
         (case map_of (ir_releases s) ''legacy-import'' of
            Some r \<Rightarrow>
              bindE (lift (or_raise (bytes_of r ''awgctl'') FileNotFoundError)) (\<lambda>old.
              bindE (deploy_ensure (old = data) ''legacy-import already exists with different content'') (\<lambda>_.
              ret (Some ''legacy-import'')))
          | None \<Rightarrow> bindE (new_release sha256 ''legacy-import'' data []) (\<lambda>_. ret (Some ''legacy-import'')))
     | _ \<Rightarrow> ret (active_release s))"

text \<open>The text of an exception; those of the interpreter are left out.\<close>

fun exception_text :: "error \<Rightarrow> string" where
  "exception_text (AwgctlError m) = m"
| "exception_text (ContractError m) = m"
| "exception_text (InvalidVersion m) = m"
| "exception_text (ReleaseError m) = m"
| "exception_text (SettingsError m) = m"
| "exception_text (BackupError m) = m"
| "exception_text (DiagnosticsError m) = m"
| "exception_text (SelfTestError m) = m"
| "exception_text (WorkerError m) = m"
| "exception_text (HostConfigurationError m) = m"
| "exception_text (InstallerError m) = m"
| "exception_text (DeploymentError m) = m"
| "exception_text (PlatformError m) = m"
| "exception_text (IdentityError m) = m"
| "exception_text (SandboxError m) = m"
| "exception_text e = []"

fun deployment_error :: "error \<Rightarrow> bool" where
  "deployment_error (DeploymentError m) = True"
| "deployment_error _ = False"

fun as_installer_error :: "error \<Rightarrow> error" where
  "as_installer_error (InstallerError m) = InstallerError m"
| "as_installer_error e = InstallerError (exception_text e)"

text \<open>
  \<open>upgrade_product\<close>. The name \<open>previous\<close> is bound before the \<open>try\<close> and again inside it; the handler
  sees the value it had when the exception was raised. The health check is a process the installer
  starts: an exit code, or an exception.
\<close>

definition restore_previous :: "string option \<Rightarrow> error \<Rightarrow> (install_root, unit) eff" where
  "restore_previous previous e =
     bindE (case previous of
         None \<Rightarrow> ret ()
       | Some p \<Rightarrow> handle deployment_error (activate_release p)
           (\<lambda>e'. raise (InstallerError (''product upgrade failed and rollback failed: '' @ exception_text e')))) (\<lambda>_.
     raise (as_installer_error e))"

definition install_and_check ::
  "(string \<Rightarrow> string) \<Rightarrow> string option \<Rightarrow> string \<Rightarrow> (string \<times> string) list
     \<Rightarrow> (install_root \<Rightarrow> int result) option \<Rightarrow> (install_root, unit) eff" where
  "install_and_check sha256 artifact version shared health =
     bindE (install_release sha256 artifact version shared) (\<lambda>_.
     case health of
       None \<Rightarrow> ret ()
     | Some h \<Rightarrow> bindE (reading h) (\<lambda>code.
         lift (check (code = 0) (InstallerError ''health verification failed after product upgrade''))))"

definition upgrade_product ::
  "(string \<Rightarrow> string) \<Rightarrow> string option \<Rightarrow> string \<Rightarrow> (string \<times> string) list
     \<Rightarrow> (install_root \<Rightarrow> int result) option \<Rightarrow> (install_root, unit) eff" where
  "upgrade_product sha256 artifact version shared health =
     bindE (query active_release) (\<lambda>previous.
     bindE (if previous = None
            then handle any_error (preserve_legacy_release sha256) (\<lambda>e. bindE (restore_previous previous e) (\<lambda>_. ret None))
            else ret previous) (\<lambda>previous.
     handle any_error (install_and_check sha256 artifact version shared health) (restore_previous previous)))"

section \<open>Releases are immutable and intact\<close>

text \<open>
  A release of a program is intact when it holds the program and its manifest names the release and
  lists the digest of every file besides the manifest.
\<close>

definition listed :: "(string \<Rightarrow> string) \<Rightarrow> (string \<times> string) list \<Rightarrow> release \<Rightarrow> bool" where
  "listed sha256 hashes r \<longleftrightarrow> (\<forall>p. map_of hashes p = map_option sha256 (bytes_of r p))"

definition intact :: "(string \<Rightarrow> string) \<Rightarrow> string \<Rightarrow> string \<Rightarrow> release \<Rightarrow> bool" where
  "intact sha256 version data r \<longleftrightarrow> (\<exists>names hashes. bytes_of r ''awgctl'' = Some data
     \<and> map_of r ''install-manifest.json'' = Some (Document (install_manifest version names hashes))
     \<and> listed sha256 hashes r)"

text \<open>The release that is active, or that a file of an unversioned installation becomes.\<close>

definition previous_release :: "install_root \<Rightarrow> string option" where
  "previous_release s = (case ir_selector s of Plain data \<Rightarrow> Some ''legacy-import'' | _ \<Rightarrow> active_release s)"

text \<open>
  What an installation may become: releases \<open>P\<close> allows are added, and a version is selected that is
  installed with a program \<open>vs\<close> allows.
\<close>

definition selects :: "(string \<Rightarrow> string \<Rightarrow> bool) \<Rightarrow> install_root \<Rightarrow> bool" where
  "selects vs s \<longleftrightarrow>
     (\<exists>v data. vs v data \<and> ir_selector s = Link (selector_target v) \<and> release_file v s = Some data)"

definition deploys :: "(string \<Rightarrow> release \<Rightarrow> bool) \<Rightarrow> (string \<Rightarrow> string \<Rightarrow> bool) \<Rightarrow> install_root \<Rightarrow> install_root \<Rightarrow> bool" where
  "deploys P vs s s' \<longleftrightarrow>
     (\<exists>new. ir_releases s' = ir_releases s @ new \<and> list_all (\<lambda>(v, r). P v r) new)
     \<and> (ir_selector s' = ir_selector s \<or> selects vs s')"

lemma release_file_append:
  "ir_releases s' = ir_releases s @ new \<Longrightarrow> release_file v s = Some d \<Longrightarrow> release_file v s' = Some d"
  by (auto simp: release_file_def map_add_def bind_eq_Some_conv)

lemma deploys_join:
  assumes "deploys P vs s t" and "deploys P vs t u"
  shows "deploys P vs s u"
proof -
  obtain a b where a: "ir_releases t = ir_releases s @ a" "list_all (\<lambda>(v, r). P v r) a"
    and b: "ir_releases u = ir_releases t @ b" "list_all (\<lambda>(v, r). P v r) b"
    using assms unfolding deploys_def by blast
  have "selects vs t \<Longrightarrow> ir_selector u = ir_selector t \<Longrightarrow> selects vs u"
    unfolding selects_def using release_file_append [OF b(1)] by fastforce
  then have "ir_selector u = ir_selector s \<or> selects vs u" using assms unfolding deploys_def by metis
  then show ?thesis unfolding deploys_def using a b by auto
qed

interpretation deploy: progress "deploys P vs" for P vs
proof unfold_locales
  show "deploys P vs s s" for s by (simp add: deploys_def)
qed (rule deploys_join)

lemma map_of_put_file: "map_of (put_file p c r) = (map_of r)(p \<mapsto> c)"
  by (induction p c r rule: put_file.induct) (auto simp: fun_eq_iff)

lemma bytes_of_put_file:
  "bytes_of (put_file p c r) q = (if q = p then (case c of Bytes b \<Rightarrow> Some b | _ \<Rightarrow> None) else bytes_of r q)"
  by (simp add: bytes_of_def map_of_put_file)

text \<open>The staging directory a computation builds for a version that is not installed.\<close>

definition staged :: "string \<Rightarrow> nat \<Rightarrow> (release \<Rightarrow> bool) \<Rightarrow> install_root \<Rightarrow> bool" where
  "staged version i P s \<longleftrightarrow>
     map_of (ir_releases s) version = None \<and> (\<exists>r. map_of (ir_staging s) i = Some r \<and> P r)"

lemma deploys_staging: "deploys P vs s (s\<lparr>ir_staging := x\<rparr>)"
  by (simp add: deploys_def)

lemma map_of_upd_same: "map_of (map (\<lambda>(j, r). if j = i then (j, g r) else (j, r)) m) i = map_option g (map_of m i)"
  by (induction m) auto

lemma moves_stage_file:
  assumes "\<And>r. S r \<Longrightarrow> T (put_file p c r)"
  shows "moves (deploys P vs) (staged version i S) (stage_file i p c) (\<lambda>_. staged version i T)"
  unfolding stage_file_def
  by (rule deploy.moves_durable) (use assms in \<open>auto simp: deploys_staging staged_def map_of_upd_same\<close>)

lemma share_prefix: "''share/'' @ p \<noteq> ''awgctl''" "''share/'' @ p \<noteq> ''install-manifest.json''"
  by simp_all

definition growing :: "(string \<Rightarrow> string) \<Rightarrow> string \<Rightarrow> (string \<times> string) list \<Rightarrow> release \<Rightarrow> bool" where
  "growing sha256 artifact hashes r \<longleftrightarrow> bytes_of r ''awgctl'' = Some artifact \<and> map_of hashes ''install-manifest.json'' = None
     \<and> listed sha256 hashes r"

lemma growing_file:
  assumes "growing sha256 artifact hashes r"
  shows "growing sha256 artifact (AList.update (''share/'' @ p) (sha256 data) hashes) (put_file (''share/'' @ p) (Bytes data) r)"
  using assms by (auto simp: growing_def listed_def bytes_of_put_file update_conv)

lemma moves_stage_shared:
  "moves (deploys P vs) (staged version i (growing sha256 artifact hashes)) (stage_shared sha256 i shared names hashes)
     (\<lambda>(names, hashes). staged version i (growing sha256 artifact hashes))"
proof (induction sha256 i shared names hashes rule: stage_shared.induct)
  case (1 sha256 i names hashes)
  show ?case by (simp add: deploy.moves_ret)
next
  case (2 sha256 i name data shared names hashes)
  show ?case unfolding stage_shared.simps Let_def
    by (rule deploy.moves_bind [OF deploy.moves_lift [where Q = "\<lambda>_. staged version i (growing sha256 artifact hashes)"]], assumption,
        rule deploy.moves_bind [OF moves_stage_file [where S = "growing sha256 artifact hashes" and p = "''share/'' @ p" and c = "Bytes data" and T = "growing sha256 artifact (AList.update (''share/'' @ p) (sha256 data) hashes)" for p, OF growing_file]], assumption, rule 2 [OF refl])
qed

lemma moves_build_stage:
  assumes ok: "\<And>r. intact sha256 version artifact r \<Longrightarrow> P version r"
  shows "moves (deploys P vs) (staged version i (\<lambda>r. r = [])) (build_stage sha256 i version artifact shared)
     (\<lambda>_ s. release_file version s = Some artifact)"
proof -
  let ?h = "[(''awgctl'', sha256 artifact)]"
  have first: "growing sha256 artifact ?h (put_file ''awgctl'' (Bytes artifact) [])"
    by (auto simp: growing_def listed_def bytes_of_def)
  have last: "deploys P vs s (publish i version s) \<and> release_file version (publish i version s) = Some artifact" if st: "staged version i (intact sha256 version artifact) s" for s
  proof -
    obtain r where r: "map_of (ir_releases s) version = None" "map_of (ir_staging s) i = Some r" "intact sha256 version artifact r"
      using st by (auto simp: staged_def)
    have "bytes_of r ''awgctl'' = Some artifact" "P version r" using r(3) ok by (auto simp: intact_def)
    with r show ?thesis by (simp add: publish_def deploys_def release_file_def map_add_def)
  qed
  have manifest: "intact sha256 version artifact (put_file ''install-manifest.json'' (Document (install_manifest version names hashes)) r)"
    if "growing sha256 artifact hashes r" for names hashes r
  proof -
    have "listed sha256 hashes (put_file ''install-manifest.json'' (Document (install_manifest version names hashes)) r)"
      using that by (auto simp: growing_def listed_def bytes_of_put_file)
    with that show ?thesis unfolding intact_def
      by (intro exI [of _ names] exI [of _ hashes]) (simp add: growing_def bytes_of_put_file map_of_put_file)
  qed
  show ?thesis unfolding build_stage_def
  proof (rule deploy.moves_bind [OF moves_stage_file [where T = "growing sha256 artifact ?h"]], erule ssubst, rule first,
      rule deploy.moves_bind [OF moves_stage_shared], goal_cases)
    case (1 u x)
    obtain names hashes where x: "x = (names, hashes)" by (cases x)
    show ?case unfolding x prod.case
      by (rule deploy.moves_bind [OF moves_stage_file [where S = "growing sha256 artifact hashes" and T = "intact sha256 version artifact"]],
          erule manifest, rule deploy.moves_durable) (simp_all add: last)
  qed
qed

lemma fresh_id_new: "fresh_id s \<notin> fst ` set (ir_staging s)"
proof -
  have "x \<le> foldr max xs 0" if "x \<in> set xs" for x :: nat and xs using that by (induction xs) auto
  from this [of _ "map fst (ir_staging s)"] show ?thesis by (fastforce simp: fresh_id_def)
qed

lemma moves_fact: "(b \<Longrightarrow> moves R (\<lambda>_. True) m Q) \<Longrightarrow> moves R (\<lambda>_. b) m Q"
  by (cases b) (simp_all add: moves_vacuous)

lemma moves_new_release:
  assumes ok: "\<And>r. intact sha256 version artifact r \<Longrightarrow> P version r"
  shows "moves (deploys P vs) (\<lambda>s. map_of (ir_releases s) version = None) (new_release sha256 version artifact shared)
    (\<lambda>_ s. release_file version s = Some artifact)"
  unfolding new_release_def
proof (rule deploy.moves_bind [OF deploy.moves_query [where Q = "\<lambda>i s. map_of (ir_releases s) version = None \<and> i \<notin> fst ` set (ir_staging s)"]],
    simp add: fresh_id_new,
    rule deploy.moves_bind [OF deploy.moves_durable [where Q = "\<lambda>_. staged version x (\<lambda>r. r = [])" for x]])
  show "deploys P vs s (s\<lparr>ir_staging := ir_staging s @ [(i, [])]\<rparr>)" for i s by (rule deploys_staging)
  show "staged version i (\<lambda>r. r = []) (s\<lparr>ir_staging := ir_staging s @ [(i, [])]\<rparr>)"
    if "map_of (ir_releases s) version = None \<and> i \<notin> fst ` set (ir_staging s)" for i s
    using that by (simp add: staged_def map_add_def map_of_eq_None_iff [symmetric])
  show "moves (deploys P vs) (staged version i (\<lambda>r. r = []))
      (handle any_error (build_stage sha256 i version artifact shared) (\<lambda>e. bindE (drop_stage i) (\<lambda>_. raise e)))
      (\<lambda>_ s. release_file version s = Some artifact)" for i
    by (rule deploy.moves_handle_any, rule moves_build_stage, erule ok, unfold drop_stage_def)
      (rule deploy.moves_bind [where T = "\<lambda>_ _. True"], rule deploy.moves_suppress, rule deploy.moves_durable,
        simp_all add: deploys_staging deploy.moves_raise)
qed

lemma moves_activate_release:
  "moves (deploys P vs) (\<lambda>s. \<forall>data. release_file version s = Some data \<longrightarrow> vs version data)
     (activate_release version) (\<lambda>_ _. True)"
  unfolding activate_release_def deploy_ensure_def
proof (rule deploy.moves_bind [OF deploy.moves_query [where Q = "\<lambda>b s. b = (release_file version s \<noteq> None)
      \<and> (\<forall>data. release_file version s = Some data \<longrightarrow> vs version data)"]], simp,
    rule deploy.moves_bind [OF deploy.moves_lift [where Q = "\<lambda>_ s. \<exists>data. release_file version s = Some data \<and> vs version data"]])
  show "moves (deploys P vs) (\<lambda>s. \<exists>data. release_file version s = Some data \<and> vs version data)
      (durable (\<lambda>s. s\<lparr>ir_selector := Link (selector_target version)\<rparr>)) (\<lambda>_ _. True)"
    by (rule deploy.moves_durable) (auto simp: deploys_def selects_def release_file_def)
qed (auto simp: check_Inr_iff)

lemma moves_install:
  assumes ok: "\<And>data r. artifact = Some data \<Longrightarrow> intact sha256 version data r \<Longrightarrow> P version r"
    and v: "\<And>data. artifact = Some data \<Longrightarrow> vs version data"
  shows "moves (deploys P vs) (\<lambda>_. True) (install_release sha256 artifact version shared) (\<lambda>_ _. True)"
proof -
  let ?R = "deploys P vs"
  have final: "moves ?R (\<lambda>s. final = map_of (ir_releases s) version) (bindE (case final of
          Some r \<Rightarrow> lift (check (bytes_of r ''awgctl'' = Some data) message)
        | None \<Rightarrow> new_release sha256 version data shared) (\<lambda>_. activate_release version)) (\<lambda>_ _. True)"
    if a: "artifact = Some data" for data message final
  proof (rule deploy.moves_bind [where T = "\<lambda>_ s. release_file version s = Some data"], rule moves_option)
    show "moves ?R (\<lambda>s. final = map_of (ir_releases s) version) (new_release sha256 version data shared)
        (\<lambda>_ s. release_file version s = Some data)" if "final = None"
      by (rule moves_conseq [OF moves_new_release]) (use that ok [OF a] in auto)
    show "moves ?R (\<lambda>s. final = map_of (ir_releases s) version) (lift (check (bytes_of r ''awgctl'' = Some data) message))
        (\<lambda>_ s. release_file version s = Some data)" if "final = Some r" for r
      by (rule deploy.moves_lift) (use that in \<open>auto simp: result_simps release_file_def dest: sym\<close>)
    show "moves ?R (\<lambda>s. release_file version s = Some data) (activate_release version) (\<lambda>_ _. True)"
      by (rule moves_conseq [OF moves_activate_release]) (use v [OF a] in auto)
  qed
  have rest: "moves ?R (\<lambda>_. artifact = Some data) (bindE (query (\<lambda>s. map_of (ir_releases s) version)) (\<lambda>final.
     bindE (case final of
          Some r \<Rightarrow> lift (check (bytes_of r ''awgctl'' = Some data) message)
        | None \<Rightarrow> new_release sha256 version data shared) (\<lambda>_. activate_release version))) (\<lambda>_ _. True)" for data message
    by (rule moves_fact, rule deploy.moves_bind, rule deploy.moves_query [where Q = "\<lambda>final s. final = map_of (ir_releases s) version"], simp)
      (rule final)
  show ?thesis unfolding install_release_def deploy_ensure_def
    by (rule deploy.moves_bind [where T = "\<lambda>_ _. True"], rule deploy.moves_lift, simp,
        rule deploy.moves_bind [where T = "\<lambda>_ _. True"], rule deploy.moves_lift, simp,
        rule deploy.moves_bind [where T = "\<lambda>data _. artifact = Some data"], rule deploy.moves_lift, simp add: result_simps,
        rule rest)
qed

lemma moves_preserve:
  assumes ok: "\<And>data r. ir_selector s0 = Plain data \<Longrightarrow> intact sha256 ''legacy-import'' data r \<Longrightarrow> P ''legacy-import'' r"
  shows "moves (deploys P vs) ((=) s0) (preserve_legacy_release sha256) (\<lambda>p _. p = previous_release s0)"
  unfolding preserve_legacy_release_def
proof (rule moves_then [where T = "\<lambda>_. (=) s0" and y = s0, OF _ _ deploy.progress_axioms])
  show "moves (deploys P vs) ((=) s0) (query (\<lambda>s. s)) (\<lambda>x s. s0 = s \<and> x = s0)"
    by (rule deploy.moves_query) simp
  show "moves (deploys P vs) ((=) s0) (case ir_selector s0 of
       Plain data \<Rightarrow>
         (case map_of (ir_releases s0) ''legacy-import'' of
            Some r \<Rightarrow>
              bindE (lift (or_raise (bytes_of r ''awgctl'') FileNotFoundError)) (\<lambda>old.
              bindE (deploy_ensure (old = data) ''legacy-import already exists with different content'') (\<lambda>_.
              ret (Some ''legacy-import'')))
          | None \<Rightarrow> bindE (new_release sha256 ''legacy-import'' data []) (\<lambda>_. ret (Some ''legacy-import'')))
     | _ \<Rightarrow> ret (active_release s0)) (\<lambda>p _. p = previous_release s0)"
  proof (cases "ir_selector s0")
    case (Plain data)
    have new: "moves (deploys P vs) ((=) s0) (new_release sha256 ''legacy-import'' data []) (\<lambda>_ _. True)"
      if "map_of (ir_releases s0) ''legacy-import'' = None"
      by (rule moves_conseq [OF moves_new_release]) (use that ok [OF Plain] in auto)
    show ?thesis unfolding Plain selector.case deploy_ensure_def
      by (intro deploy.moves_bind [where T = "\<lambda>_ _. True"] deploy.moves_lift moves_option
          new deploy.moves_ret TrueI) (simp_all add: previous_release_def Plain)
  qed (simp_all add: previous_release_def deploy.moves_ret)
qed

lemma moves_restore:
  assumes "\<And>p data. previous = Some p \<Longrightarrow> vs p data"
  shows "moves (deploys P vs) (\<lambda>_. True) (restore_previous previous e) (\<lambda>_ _. True)"
  unfolding restore_previous_def
  by (intro deploy.moves_bind [where T = "\<lambda>_ _. True"] moves_option deploy.moves_ret deploy.moves_handle_any
      moves_conseq [OF moves_activate_release] deploy.moves_raise TrueI) (use assms in auto)

text \<open>What an upgrade may add and select.\<close>

definition new_release_ok ::
  "(string \<Rightarrow> string) \<Rightarrow> string option \<Rightarrow> string \<Rightarrow> selector \<Rightarrow> string \<Rightarrow> release \<Rightarrow> bool" where
  "new_release_ok sha256 artifact version sel v r \<longleftrightarrow>
     (\<exists>data. intact sha256 v data r
        \<and> (v = version \<and> artifact = Some data \<or> v = ''legacy-import'' \<and> sel = Plain data))"

definition selected_ok :: "string option \<Rightarrow> string \<Rightarrow> string option \<Rightarrow> string \<Rightarrow> string \<Rightarrow> bool" where
  "selected_ok artifact version previous v data \<longleftrightarrow> v = version \<and> artifact = Some data \<or> previous = Some v"

lemma moves_upgrade:
  "moves (deploys (new_release_ok sha256 artifact version (ir_selector s0)) (selected_ok artifact version (previous_release s0)))
     ((=) s0) (upgrade_product sha256 artifact version shared health) (\<lambda>_ _. True)"
    (is "moves (deploys ?P ?vs) _ _ _")
proof -
  have body: "moves (deploys ?P ?vs) (\<lambda>_. True)
      (handle any_error (install_and_check sha256 artifact version shared health) (restore_previous (previous_release s0))) (\<lambda>_ _. True)"
    unfolding install_and_check_def
    by (intro deploy.moves_bind [where T = "\<lambda>_ _. True"] moves_option deploy.moves_ret deploy.moves_handle_any moves_if
        moves_restore moves_install deploy.moves_reading deploy.moves_lift TrueI) (auto simp: new_release_ok_def selected_ok_def)
  have first: "moves (deploys ?P ?vs) ((=) s0) (if active_release s0 = None
      then handle any_error (preserve_legacy_release sha256) (\<lambda>e. bindE (restore_previous (active_release s0) e) (\<lambda>_. ret None))
      else ret (active_release s0)) (\<lambda>p _. True \<and> p = previous_release s0)"
  proof (rule moves_if)
    assume "active_release s0 = None"
    then show "moves (deploys ?P ?vs) ((=) s0) (handle any_error (preserve_legacy_release sha256)
        (\<lambda>e. bindE (restore_previous (active_release s0) e) (\<lambda>_. ret None))) (\<lambda>p _. True \<and> p = previous_release s0)"
      by (intro deploy.moves_handle_any) (auto simp: new_release_ok_def restore_previous_def intro!: moves_preserve deploy.moves_raise)
  next
    assume "active_release s0 \<noteq> None"
    then have "previous_release s0 = active_release s0"
      by (auto simp: previous_release_def active_release_def split: selector.splits)
    then show "moves (deploys ?P ?vs) ((=) s0) (ret (active_release s0)) (\<lambda>p _. True \<and> p = previous_release s0)"
      by (simp add: deploy.moves_ret)
  qed
  show ?thesis unfolding upgrade_product_def
    by (rule moves_then [where T = "\<lambda>_. (=) s0" and y = "active_release s0", OF _ _ deploy.progress_axioms],
        rule deploy.moves_query, simp,
        rule moves_then [where T = "\<lambda>_ _. True" and y = "previous_release s0"], rule first, rule body,
        rule deploy.progress_axioms)
qed

text \<open>
  C17: An upgrade never changes an installed release, whatever interrupts it: the releases it found are
  as they were; a release it added is the given program under the requested version, or the program of
  an unversioned installation, with a manifest that lists the digest of every file but itself; and the
  selector is as it was, or it selects the requested version, installed with the given program, or the
  previous release, installed with a program.
\<close>

theorem upgrade_keeps_releases:
  "case upgrade_product sha256 artifact version shared health (fault, s) of (outcome, (b, s')) \<Rightarrow>
     (\<exists>new. ir_releases s' = ir_releases s @ new
        \<and> list_all (\<lambda>(v, r). new_release_ok sha256 artifact version (ir_selector s) v r) new)
     \<and> (ir_selector s' = ir_selector s
        \<or> (\<exists>v data. (v = version \<and> artifact = Some data \<or> previous_release s = Some v)
              \<and> ir_selector s' = Link (selector_target v) \<and> release_file v s' = Some data))"
proof -
  obtain r b s' where e: "upgrade_product sha256 artifact version shared health (fault, s) = (r, (b, s'))" by (metis surj_pair)
  from movesD(1) [OF moves_upgrade refl e] show ?thesis
    by (simp add: e deploys_def selects_def selected_ok_def)
qed

section \<open>The outcome of an upgrade\<close>

text \<open>A release directory is built in a staging directory and renamed, or it is removed again.\<close>

definition staging_is :: "install_root \<Rightarrow> nat \<Rightarrow> (release \<Rightarrow> bool) \<Rightarrow> install_root \<Rightarrow> bool" where
  "staging_is s i P s' \<longleftrightarrow> (\<exists>r. s' = s\<lparr>ir_staging := ir_staging s @ [(i, r)]\<rparr> \<and> P r)"

definition released :: "install_root \<Rightarrow> string \<Rightarrow> string \<Rightarrow> install_root \<Rightarrow> bool" where
  "released s version data s' \<longleftrightarrow>
     (\<exists>r. bytes_of r ''awgctl'' = Some data \<and> s' = s\<lparr>ir_releases := ir_releases s @ [(version, r)]\<rparr>)"

lemma not_key: "k \<notin> fst ` set m \<Longrightarrow> (k, v) \<notin> set m"
  by force

lemma does_stage_file:
  assumes "i \<notin> fst ` set (ir_staging s)" and "\<And>r. P r \<Longrightarrow> Q (put_file p c r)"
  shows "does (staging_is s i P) (stage_file i p c) (\<lambda>_. staging_is s i Q) E"
  unfolding stage_file_def
proof (rule does_durable)
  fix s' assume "staging_is s i P s'"
  then obtain r where r: "s' = s\<lparr>ir_staging := ir_staging s @ [(i, r)]\<rparr>" "P r" by (auto simp: staging_is_def)
  have "map (\<lambda>(j, r). if j = i then (j, put_file p c r) else (j, r)) (ir_staging s) = ir_staging s"
    using not_key [OF assms(1)] by (intro map_idI) auto
  with r assms(2) show "staging_is s i Q (s'\<lparr>ir_staging := map (\<lambda>(j, r). if j = i then (j, put_file p c r) else (j, r)) (ir_staging s')\<rparr>)"
    by (auto simp: staging_is_def)
qed

lemma does_stage_shared:
  assumes "i \<notin> fst ` set (ir_staging s)" and "\<And>p c r. P r \<Longrightarrow> P (put_file (''share/'' @ p) c r)"
  shows "does (staging_is s i P) (stage_shared sha256 i shared names hashes) (\<lambda>_. staging_is s i P) (staging_is s i P)"
  using assms
proof (induction sha256 i shared names hashes rule: stage_shared.induct)
  case (1 sha256 i names hashes)
  show ?case by (simp add: does_ret)
next
  case (2 sha256 i name data shared names hashes)
  show ?case unfolding stage_shared.simps Let_def
    by (rule step_lift, rule does_bind [OF does_stage_file [OF 2(2)]], erule 2(3), rule 2(1) [OF refl 2(2,3)])
qed

lemma does_new_release:
  "does ((=) s) (new_release sha256 version data shared) (\<lambda>_. released s version data) ((=) s)"
proof -
  let ?i = "fresh_id s" and ?P = "\<lambda>r. bytes_of r ''awgctl'' = Some data"
  note new = fresh_id_new [of s]
  have keep: "filter (\<lambda>(j, r). j \<noteq> ?i) (ir_staging s) = ir_staging s"
    using not_key [OF new] by (auto intro!: filter_True)
  have build: "does (staging_is s ?i (\<lambda>r. r = [])) (build_stage sha256 ?i version data shared)
      (\<lambda>_. released s version data) (\<lambda>s'. staging_is s ?i (\<lambda>_. True) s')"
    unfolding build_stage_def
  proof (rule does_bind [OF does_stage_file [OF new, where Q = ?P]], simp add: bytes_of_def,
      rule step_then [OF does_stage_shared [OF new]], simp add: bytes_of_put_file, force simp: staging_is_def, rule does_pair,
      rule does_bind [OF does_stage_file [OF new, where Q = ?P]], simp add: bytes_of_put_file, rule does_durable)
    fix s' assume "staging_is s ?i ?P s'"
    then obtain r where r: "s' = s\<lparr>ir_staging := ir_staging s @ [(?i, r)]\<rparr>" "?P r" by (auto simp: staging_is_def)
    have "map_of (ir_staging s @ [(?i, r)]) ?i = Some r"
      using new by (simp add: map_add_def map_of_eq_None_iff [symmetric])
    then show "released s version data (publish ?i version s')"
      using r keep by (auto simp: publish_def released_def)
  qed
  show ?thesis unfolding new_release_def
  proof (rule step_query_known [where x = ?i], simp,
      rule does_bind [OF does_durable [where Q = "\<lambda>_. staging_is s ?i (\<lambda>r. r = [])"]], force simp: staging_is_def,
      rule does_handle [OF build], rule does_bind [where R = "\<lambda>_. (=) s"])
    show "does (staging_is s ?i (\<lambda>_. True)) (drop_stage ?i) (\<lambda>_. (=) s) ((=) s)"
      unfolding drop_stage_def
      by (rule does_suppress, rule does_durable) (auto simp: staging_is_def keep)
  qed (rule does_raise)
qed

text \<open>A valid version is one path component.\<close>

lemma active_selector:
  assumes "ir_selector s = Link (selector_target v)" and "CHR ''/'' \<notin> set v" and "v \<noteq> []" and "v \<noteq> ''.''"
  shows "active_release s = Some v"
proof -
  have "split_on CHR ''/'' (selector_target v) = [''..'', ''releases'', v, ''awgctl'']"
    using assms(2) split_on_append_sep [of "CHR ''/''" "''..''" "''releases/'' @ v @ ''/awgctl''"]
      split_on_append_sep [of "CHR ''/''" "''releases''" "v @ ''/awgctl''"] split_on_append_sep [of "CHR ''/''" v "''awgctl''"]
      split_on_no_sep [of "CHR ''/''" "''awgctl''"]
    by (simp add: selector_target_def)
  then have "path_parts (selector_target v) = [''..'', ''releases'', v, ''awgctl'']"
    using assms(3,4) by (simp add: path_parts_def) (simp add: selector_target_def)
  then show ?thesis by (simp add: active_release_def assms(1))
qed

definition valid_component :: "string \<Rightarrow> bool" where
  "valid_component v \<longleftrightarrow> CHR ''/'' \<notin> set v \<and> v \<noteq> [] \<and> v \<noteq> ''.''"

text \<open>The releases and the selector after the installation, with nothing left in the staging area.\<close>

definition installed :: "install_root \<Rightarrow> string \<Rightarrow> string \<Rightarrow> install_root \<Rightarrow> bool" where
  "installed s version data s' \<longleftrightarrow> release_file version s' = Some data
     \<and> (\<exists>new. s' = s\<lparr>ir_releases := ir_releases s @ new, ir_selector := Link (selector_target version)\<rparr>)"

lemma does_activate:
  "does (\<lambda>s. s = t) (activate_release v)
     (\<lambda>_ s. release_file v t \<noteq> None \<and> s = t\<lparr>ir_selector := Link (selector_target v)\<rparr>)
     (\<lambda>s. release_file v t = None \<and> s = t)"
  unfolding activate_release_def deploy_ensure_def
  by (rule step_query_known [where x = "release_file v t \<noteq> None"], simp, rule does_bind [OF does_lift [where Q = "\<lambda>_ s. s = t \<and> release_file v t \<noteq> None"]])
    (auto simp: result_simps check_Inl_iff intro!: does_durable)

lemma does_install:
  "does (\<lambda>s'. s' = s) (install_release sha256 artifact version shared)
     (\<lambda>_ s'. valid_component version \<and> (\<exists>data. artifact = Some data \<and> installed s version data s'))
     (\<lambda>s'. s' = s)"
proof -
  have valid: "valid_component version"
    if "precedence_key (JStr version) = Inr k" "\<not> (CHR ''/'' \<in> set version \<or> version = ''.'' \<or> version = ''..'')" for k
  proof -
    have "version \<noteq> []"
    proof
      assume "version = []"
      moreover have "precedence_key (JStr []) = Inl (InvalidVersion ''invalid semantic version'')" by code_simp
      ultimately show False using that(1) by simp
    qed
    with that(2) show ?thesis by (simp add: valid_component_def)
  qed
  have activate: "does (\<lambda>s'. \<exists>new. s' = s\<lparr>ir_releases := ir_releases s @ new\<rparr> \<and> release_file version s' = Some data)
      (activate_release version) (\<lambda>_ s'. installed s version data s') (\<lambda>s'. s' = s)" for data
  proof (rule does_pre)
    fix t assume "\<exists>new. t = s\<lparr>ir_releases := ir_releases s @ new\<rparr> \<and> release_file version t = Some data"
    then obtain new where t: "t = s\<lparr>ir_releases := ir_releases s @ new\<rparr>" "release_file version t = Some data" by blast
    have "installed s version data (t\<lparr>ir_selector := Link (selector_target version)\<rparr>)"
      unfolding installed_def using t by (auto simp: release_file_def)
    then show "does ((=) t) (activate_release version) (\<lambda>_ s'. installed s version data s') (\<lambda>s'. s' = s)"
      by (intro does_conseq [OF does_activate [of t]]) (use t(2) in auto)
  qed
  have new: "\<exists>new. s' = s\<lparr>ir_releases := ir_releases s @ new\<rparr> \<and> release_file version s' = Some data"
    if "released s version data s'" "map_of (ir_releases s) version = None" for data s'
    using that by (auto simp: released_def release_file_def map_add_def)
  have old: "\<exists>new. s = s\<lparr>ir_releases := ir_releases s @ new\<rparr> \<and> release_file version s = Some data"
    if "map_of (ir_releases s) version = Some r" "bytes_of r ''awgctl'' = Some data" for r data
    using that by (intro exI [of _ "[]"]) (simp add: release_file_def)
  have final: "does (\<lambda>s'. s' = s) (bindE (case map_of (ir_releases s) version of
          Some r \<Rightarrow> deploy_ensure (bytes_of r ''awgctl'' = Some data)
            (''release already exists with different content: '' @ version)
        | None \<Rightarrow> new_release sha256 version data shared) (\<lambda>_. activate_release version))
      (\<lambda>_ s'. installed s version data s') (\<lambda>s'. s' = s)" for data
  proof (rule does_bind [OF _ activate])
    show "does (\<lambda>s'. s' = s) (case map_of (ir_releases s) version of
          Some r \<Rightarrow> deploy_ensure (bytes_of r ''awgctl'' = Some data)
            (''release already exists with different content: '' @ version)
        | None \<Rightarrow> new_release sha256 version data shared)
      (\<lambda>_ s'. \<exists>new. s' = s\<lparr>ir_releases := ir_releases s @ new\<rparr> \<and> release_file version s' = Some data) (\<lambda>s'. s' = s)"
    proof (rule does_option)
      assume "map_of (ir_releases s) version = None"
      then show "does (\<lambda>s'. s' = s) (new_release sha256 version data shared)
          (\<lambda>_ s'. \<exists>new. s' = s\<lparr>ir_releases := ir_releases s @ new\<rparr> \<and> release_file version s' = Some data) (\<lambda>s'. s' = s)"
        by (intro does_conseq [OF does_new_release [of s]]) (use new in blast)+
    next
      fix r assume r: "map_of (ir_releases s) version = Some r"
      show "does (\<lambda>s'. s' = s) (deploy_ensure (bytes_of r ''awgctl'' = Some data)
            (''release already exists with different content: '' @ version))
          (\<lambda>_ s'. \<exists>new. s' = s\<lparr>ir_releases := ir_releases s @ new\<rparr> \<and> release_file version s' = Some data) (\<lambda>s'. s' = s)"
        unfolding deploy_ensure_def by (rule does_lift) (use old [OF r] in \<open>auto simp: result_simps\<close>)
    qed
  qed
  show ?thesis unfolding install_release_def deploy_ensure_def [of "\<not> _"]
    by (rule step_lift, rule step_lift, rule step_lift,
        rule step_query_known [where x = "map_of (ir_releases s) version"], simp, rule does_conseq [OF final])
      (auto simp: result_simps intro: valid)
qed

text \<open>The releases at most grow, and nothing stays in the staging area.\<close>

definition grown :: "install_root \<Rightarrow> install_root \<Rightarrow> bool" where
  "grown s t \<longleftrightarrow> (\<exists>new. ir_releases t = ir_releases s @ new) \<and> ir_staging t = ir_staging s"

definition restored :: "install_root \<Rightarrow> string option \<Rightarrow> install_root \<Rightarrow> bool" where
  "restored t previous s' \<longleftrightarrow> ir_staging s' = ir_staging t
     \<and> (case previous of
          None \<Rightarrow> s' = t
        | Some p \<Rightarrow> ir_selector s' = Link (selector_target p) \<or> release_file p s' = None)"

lemma wp_restore:
  "wp (restore_previous previous e) (\<lambda>_ c. False) (\<lambda>e c. (\<exists>m. e = InstallerError m) \<and> calm (restored t previous) c) (None, t)"
proof -
  have "\<exists>m. as_installer_error e = InstallerError m" by (cases e) auto
  then show ?thesis
    by (auto simp: restore_previous_def activate_release_def deploy_ensure_def wp_steps check_def restored_def release_file_def
        split: option.split)
qed

lemma does_install_and_check:
  "does (\<lambda>s'. s' = s) (install_and_check sha256 artifact version shared health)
     (\<lambda>_ s'. valid_component version \<and> (\<exists>data. artifact = Some data \<and> installed s version data s')
        \<and> (case health of None \<Rightarrow> True | Some h \<Rightarrow> h s' = Inr 0))
     (grown s)"
proof -
  have grown: "grown s s'" if "installed s version data s'" for data s'
    using that by (auto simp: installed_def grown_def)
  have health: "does (\<lambda>s'. valid_component version \<and> (\<exists>data. artifact = Some data \<and> installed s version data s'))
      (case health of None \<Rightarrow> ret ()
       | Some h \<Rightarrow> bindE (reading h) (\<lambda>code. lift (check (code = 0) (InstallerError message))))
      (\<lambda>_ s'. valid_component version \<and> (\<exists>data. artifact = Some data \<and> installed s version data s')
        \<and> (case health of None \<Rightarrow> True | Some h \<Rightarrow> h s' = Inr 0)) (grown s)" for message
  proof (cases health)
    case None
    then show ?thesis by (auto intro: does_ret)
  next
    case (Some h)
    show ?thesis unfolding Some option.case
      by (rule does_bind [OF does_reading [where Q = "\<lambda>code s'. h s' = Inr code \<and> valid_component version
          \<and> (\<exists>data. artifact = Some data \<and> installed s version data s')"]], simp, use grown in blast, rule does_lift)
        (use grown in \<open>auto simp: result_simps\<close>)
  qed
  show ?thesis unfolding install_and_check_def
    by (rule step_then [OF does_install], simp add: grown_def, rule health)
qed

lemma does_preserve:
  "does (\<lambda>s'. s' = s) (preserve_legacy_release sha256)
     (\<lambda>p s'. p = previous_release s \<and> grown s s' \<and> ir_selector s' = ir_selector s) (\<lambda>s'. s' = s)"
proof -
  have new: "grown s s' \<and> ir_selector s' = ir_selector s" if "released s v data s'" for v data s'
    using that by (auto simp: released_def grown_def)
  have same: "grown s s" by (simp add: grown_def)
  show ?thesis unfolding preserve_legacy_release_def
  proof (rule step_query_known [where x = s], simp)
    show "does (\<lambda>s'. s' = s) (case ir_selector s of
       Plain data \<Rightarrow>
         (case map_of (ir_releases s) ''legacy-import'' of
            Some r \<Rightarrow>
              bindE (lift (or_raise (bytes_of r ''awgctl'') FileNotFoundError)) (\<lambda>old.
              bindE (deploy_ensure (old = data) ''legacy-import already exists with different content'') (\<lambda>_.
              ret (Some ''legacy-import'')))
          | None \<Rightarrow> bindE (new_release sha256 ''legacy-import'' data []) (\<lambda>_. ret (Some ''legacy-import'')))
     | _ \<Rightarrow> ret (active_release s))
     (\<lambda>p s'. p = previous_release s \<and> grown s s' \<and> ir_selector s' = ir_selector s) (\<lambda>s'. s' = s)"
    proof (cases "ir_selector s")
      case (Plain data)
      have p: "previous_release s = Some ''legacy-import''" by (simp add: previous_release_def Plain)
      show ?thesis unfolding Plain selector.case p deploy_ensure_def
        by (intro does_option step_lift step_then [OF does_conseq [OF does_new_release [of s]]] does_ret)
          (use new same Plain in auto)
    qed (auto intro!: does_ret simp: previous_release_def same)
  qed
qed

lemma previous_component:
  assumes "previous_release s = Some p"
  shows "valid_component p"
proof (cases "ir_selector s")
  case (Link target)
  then have p: "active_release s = Some p" using assms by (simp add: previous_release_def)
  then obtain name where parts: "path_parts target = [''..'', ''releases'', p, name]"
    by (auto simp: active_release_def Link split: list.splits if_splits)
  then have "\<not> starts_with ''/'' target" by (auto simp: path_parts_def)
  then have "path_parts target = filter (\<lambda>p. p \<noteq> [] \<and> p \<noteq> ''.'') (split_on CHR ''/'' target)"
    by (simp add: path_parts_def)
  with parts have "p \<in> set (filter (\<lambda>p. p \<noteq> [] \<and> p \<noteq> ''.'') (split_on CHR ''/'' target))" by simp
  then show ?thesis by (auto dest: split_on_parts simp: valid_component_def)
qed (use assms in \<open>auto simp: previous_release_def active_release_def valid_component_def\<close>)

definition upgraded :: "install_root \<Rightarrow> string \<Rightarrow> string option \<Rightarrow> (install_root \<Rightarrow> int result) option \<Rightarrow> install_root \<Rightarrow> bool" where
  "upgraded s version artifact health s' \<longleftrightarrow> active_release s' = Some version \<and> artifact = release_file version s'
     \<and> release_file version s' \<noteq> None \<and> ir_staging s' = ir_staging s
     \<and> (case health of None \<Rightarrow> True | Some h \<Rightarrow> h s' = Inr 0)"

definition put_back :: "install_root \<Rightarrow> install_root \<Rightarrow> bool" where
  "put_back s s' \<longleftrightarrow> ir_staging s' = ir_staging s
     \<and> (case previous_release s of
          None \<Rightarrow> True
        | Some p \<Rightarrow> active_release s' = Some p \<or> ir_selector s' = ir_selector s \<or> release_file p s' = None)"

lemma restored_put_back:
  assumes "restored t previous s'" and "ir_staging t = ir_staging s"
    and "previous = previous_release s \<or> ir_selector t = ir_selector s \<and> previous = None"
  shows "put_back s s'"
proof (cases previous)
  case None
  with assms show ?thesis by (auto simp: put_back_def restored_def split: option.split)
next
  case (Some p)
  with assms have "previous_release s = Some p" by auto
  with previous_component [OF this] assms Some show ?thesis
    by (auto simp: put_back_def restored_def valid_component_def intro: active_selector)
qed

abbreviation fails_back :: "install_root \<Rightarrow> error \<Rightarrow> install_root config \<Rightarrow> bool" where
  "fails_back s e c \<equiv> (\<exists>m. e = InstallerError m) \<and> calm (put_back s) c"

lemma wp_install_or_restore:
  assumes "grown s t" and "previous = previous_release s"
  shows "wp (handle any_error (install_and_check sha256 artifact version shared health) (restore_previous previous))
    (\<lambda>u. calm (upgraded s version artifact health)) (fails_back s) (None, t)"
  unfolding wp_handle if_P [OF wp_any_error]
proof (rule wp_calm [OF doesD [OF does_install_and_check refl]], goal_cases)
  case (1 u s')
  with assms(1) show ?case using active_selector [of s' version]
    by (auto simp: upgraded_def installed_def valid_component_def grown_def)
next
  case (2 e s')
  show ?case
    by (rule wp_conseq [OF wp_restore [where t = s']])
      (use 2 assms restored_put_back in \<open>auto simp: grown_def calm_def\<close>)
qed

lemma wp_upgrade:
  "wp (upgrade_product sha256 artifact version shared health) (\<lambda>u. calm (upgraded s version artifact health))
     (fails_back s) (None, s)"
proof (cases "active_release s")
  case None
  show ?thesis unfolding upgrade_product_def wp_bind wp_query None if_P [OF refl] wp_handle if_P [OF wp_any_error]
  proof (rule wp_calm [OF doesD [OF does_preserve refl]], goal_cases)
    case (1 p t)
    then show ?case by (intro wp_install_or_restore [unfolded wp_handle if_P [OF wp_any_error]]) auto
  next
    case (2 e t)
    show ?case
      by (rule wp_conseq [OF wp_restore [where t = t]]) (use 2 restored_put_back in \<open>auto simp: calm_def\<close>)
  qed
next
  case (Some p)
  then have "previous_release s = Some p"
    by (auto simp: previous_release_def active_release_def split: selector.splits)
  then show ?thesis using wp_install_or_restore [of s s "Some p"] Some
    by (simp add: upgrade_product_def wp_bind wp_query wp_ret grown_def)
qed

text \<open>
  C16: The outcome of an upgrade that meets no fault of its own writes. When it returns, the requested
  version is active, its program is the given artifact, and the health check, if there is one, has
  passed on the installation it leaves. When it raises, it is with an installer error, and the release
  that was active before is selected again, a program of an unversioned installation as the release
  it has been imported as; or there was none, or the release that was active has no program.
\<close>

theorem upgrade_product_outcome:
  "case upgrade_product sha256 artifact version shared health (None, s) of
     (Done u, (b, s')) \<Rightarrow> active_release s' = Some version \<and> artifact = release_file version s'
       \<and> release_file version s' \<noteq> None \<and> ir_staging s' = ir_staging s
       \<and> (case health of None \<Rightarrow> True | Some h \<Rightarrow> h s' = Inr 0)
   | (Raised e, (b, s')) \<Rightarrow> (\<exists>message. e = InstallerError message) \<and> ir_staging s' = ir_staging s
       \<and> (case previous_release s of
            None \<Rightarrow> True
          | Some p \<Rightarrow> active_release s' = Some p \<or> ir_selector s' = ir_selector s
              \<or> release_file p s' = None)
   | (Killed, c) \<Rightarrow> False"
  using wp_upgrade [of sha256 artifact version shared health s]
  by (auto simp: wp_def upgraded_def put_back_def split: prod.splits run.splits)

end
