(* ===== verification/Releases.thy ===== *)
theory Releases
  imports Semver Validation
begin

text \<open>
  \<^verbatim>\<open>src/awgctl/releases.py\<close>: discovery and verification of published releases. What the network, the
  JSON decoder, the hash function and \<^verbatim>\<open>ssh-keygen\<close> answer are the fields of a record; \<open>None\<close> stands
  for the exceptions the code translates.
\<close>

record release_services =
  rs_body :: "string \<Rightarrow> string option"
  rs_json :: "string \<Rightarrow> json option"
  rs_sha256 :: "string \<Rightarrow> string"
  rs_verify :: "string \<Rightarrow> string \<Rightarrow> string \<Rightarrow> int option"

definition release_identity :: string where
  "release_identity = ''releases@amneziawg-manager''"

definition release_public_key :: string where
  "release_public_key =
     ''ssh-ed25519 AAAAC3NzaC1lZDI1NTE5AAAAILyqkGfE04/pFwwS2b+K0trRm6SFVhAGSqrTewfpOhpO releases@amneziawg-manager''"

definition github_repository :: string where
  "github_repository = ''jkordish/amneziawg-manager''"

section \<open>Versions and channels\<close>

text \<open>The message holds the value; it is left out when the value is not a text.\<close>

definition release_version_key :: "json \<Rightarrow> version_key result" where
  "release_version_key value =
     except_as (\<lambda>e. case e of InvalidVersion m \<Rightarrow> True | _ \<Rightarrow> False)
       (ReleaseError (''invalid release version: '' @ (case value of JStr s \<Rightarrow> s | _ \<Rightarrow> [])))
       (precedence_key value)"

definition valid_tag :: "json \<Rightarrow> bool" where
  "valid_tag value =
     (case value of
        JStr (c # version) \<Rightarrow> c = CHR ''v'' \<and> (case release_version_key (JStr version) of Inl e \<Rightarrow> False | Inr k \<Rightarrow> True)
      | _ \<Rightarrow> False)"

definition version_channel :: "string \<Rightarrow> string result" where
  "version_channel value =
     andthen (release_version_key (JStr value)) (\<lambda>(major, minor, patch, release, ids).
     Inr (if release = 1 then ''stable'' else ''beta''))"

section \<open>The manifest\<close>

definition release_check :: "bool \<Rightarrow> string \<Rightarrow> unit result" where
  "release_check b message = check b (ReleaseError message)"

definition release_fail :: "string \<Rightarrow> 'a result \<Rightarrow> 'a result" where
  "release_fail message = except_as (\<lambda>e. case e of ReleaseError m \<Rightarrow> True | _ \<Rightarrow> False) (ReleaseError message)"

definition known_channel :: "json \<Rightarrow> bool result" where
  "known_channel v = in_strs v [''beta'', ''stable'']"

definition parse_artifact :: "json \<Rightarrow> obj result" where
  "parse_artifact v =
     (case v of
        JObj artifact \<Rightarrow>
          andthen (release_check (keys_are artifact [''name'', ''sha256'', ''size''])
            ''release artifact fields are incomplete or unexpected'') (\<lambda>_.
          andthen (release_check (get artifact ''name'' = JStr ''awgctl.pyz'') ''unexpected release artifact name'') (\<lambda>_.
          andthen (release_check (case get artifact ''sha256'' of JStr h \<Rightarrow> sha256_re h | _ \<Rightarrow> False)
            ''invalid release artifact SHA-256'') (\<lambda>_.
          andthen (release_check (case get artifact ''size'' of JInt n \<Rightarrow> 1 \<le> n \<and> n \<le> 16 * 1024 * 1024 | _ \<Rightarrow> False)
            ''invalid release artifact size'') (\<lambda>_.
          Inr artifact))))
      | _ \<Rightarrow> Inl (ReleaseError ''release artifact fields are incomplete or unexpected''))"

definition parse_manifest :: "json option \<Rightarrow> string \<Rightarrow> string option \<Rightarrow> obj result" where
  "parse_manifest decoded expected_platform expected_channel =
     andthen (or_raise decoded (ReleaseError ''release manifest is not valid JSON'')) (\<lambda>v.
     andthen (or_raise (as_obj v) (ReleaseError ''release manifest fields are incomplete or unexpected'')) (\<lambda>m.
     andthen (release_check (keys_are m [''schema_version'', ''version'', ''tag'', ''channel'', ''platform'',
         ''installation_schema_version'', ''artifact'']) ''release manifest fields are incomplete or unexpected'') (\<lambda>_.
     andthen (release_fail ''unsupported release manifest schema or version''
       (release_version_key (get m ''version''))) (\<lambda>_.
     andthen (or_raise (as_str (get m ''version'')) TypeError) (\<lambda>version.
     andthen (release_check (py_eq_int (get m ''schema_version'') 1)
       ''unsupported release manifest schema or version'') (\<lambda>_.
     andthen (release_check (get m ''tag'' = JStr (''v'' @ version)) ''release tag and version do not match'') (\<lambda>_.
     andthen (known_channel (get m ''channel'')) (\<lambda>known.
     andthen (release_check known ''unsupported release channel'') (\<lambda>_.
     andthen (version_channel version) (\<lambda>channel.
     andthen (release_check (get m ''channel'' = JStr channel)
       ''release channel does not match tag prerelease semantics'') (\<lambda>_.
     andthen (case expected_channel of
         None \<Rightarrow> Inr ()
       | Some c \<Rightarrow>
           andthen (release_check (c \<in> {''beta'', ''stable''}) ''unsupported update channel'') (\<lambda>_.
           release_check (get m ''channel'' = JStr c)
             ''signed release channel does not match requested channel'')) (\<lambda>_.
     andthen (release_check (get m ''platform'' = JStr expected_platform)
       (''release platform mismatch: expected '' @ expected_platform)) (\<lambda>_.
     andthen (release_check (py_eq_int (get m ''installation_schema_version'') 1)
       ''unsupported installation settings schema'') (\<lambda>_.
     andthen (parse_artifact (get m ''artifact'')) (\<lambda>_.
     Inr m)))))))))))))))"

section \<open>Verification\<close>

definition artifact_of :: "obj \<Rightarrow> obj" where
  "artifact_of m = (case get m ''artifact'' of JObj a \<Rightarrow> a | _ \<Rightarrow> [])"

definition verify_artifact :: "release_services \<Rightarrow> obj \<Rightarrow> string \<Rightarrow> unit result" where
  "verify_artifact rs manifest artifact =
     andthen (release_check (py_eq_int (get (artifact_of manifest) ''size'') (int (length artifact)))
       ''release artifact size mismatch'') (\<lambda>_.
     release_check (get (artifact_of manifest) ''sha256'' = JStr (rs_sha256 rs artifact))
       ''release artifact hash mismatch'')"

text \<open>\<^verbatim>\<open>ssh-keygen -Y verify\<close> gets the allowed signers, the signed bytes and the signature.\<close>

definition verify_ssh_signature :: "release_services \<Rightarrow> string \<Rightarrow> string \<Rightarrow> string \<Rightarrow> unit result" where
  "verify_ssh_signature rs manifest signature public_key =
     andthen (release_check (starts_with ''ssh-ed25519 '' public_key) ''release public key is not Ed25519'') (\<lambda>_.
     andthen (or_raise (rs_verify rs (release_identity @ '' '' @ public_key @ ''\<newline>'') manifest signature)
       (ReleaseError ''could not run OpenSSH release signature verification'')) (\<lambda>code.
     release_check (code = 0) ''release signature verification failed''))"

text \<open>\<open>response.read(maximum + 1)\<close> returns at most that many bytes of the body.\<close>

definition fetch_bytes :: "release_services \<Rightarrow> string \<Rightarrow> nat \<Rightarrow> string result" where
  "fetch_bytes rs url maximum =
     andthen (release_check (starts_with ''https://'' url) ''release URL must use HTTPS'') (\<lambda>_.
     andthen (or_raise (rs_body rs url) (ReleaseError (''could not download release metadata from '' @ url))) (\<lambda>body.
     let data = take (maximum + 1) body
     in andthen (release_check (length data \<le> maximum) ''release download exceeds the safety limit'') (\<lambda>_.
        Inr data)))"

fun first_release :: "string \<Rightarrow> json list \<Rightarrow> string result" where
  "first_release channel [] = Inl (ReleaseError (''no published '' @ channel @ '' release was found''))"
| "first_release channel (JObj release # releases) =
     (if truthy (get release ''draft'') then first_release channel releases
      else if channel = ''stable'' \<and> truthy (get release ''prerelease'') then first_release channel releases
      else case get release ''tag_name'' of
          JStr tag \<Rightarrow>
            if valid_tag (JStr tag)
            then andthen (version_channel (tl tag)) (\<lambda>c.
              if c = channel then Inr tag else first_release channel releases)
            else first_release channel releases
        | _ \<Rightarrow> first_release channel releases)"
| "first_release channel (release # releases) = first_release channel releases"

definition discover_release_tag :: "release_services \<Rightarrow> string \<Rightarrow> string result" where
  "discover_release_tag rs channel =
     andthen (release_check (channel \<in> {''beta'', ''stable''}) ''unsupported update channel'') (\<lambda>_.
     andthen (fetch_bytes rs (''https://api.github.com/repos/'' @ github_repository @ ''/releases?per_page=20'')
       (512 * 1024)) (\<lambda>data.
     andthen (or_raise (rs_json rs data) (ReleaseError ''GitHub release discovery returned invalid JSON'')) (\<lambda>v.
     andthen (or_raise (as_list v) (ReleaseError ''GitHub release discovery returned an unexpected response''))
       (first_release channel))))"

definition release_base :: "string \<Rightarrow> string" where
  "release_base tag = ''https://github.com/'' @ github_repository @ ''/releases/download/'' @ tag"

definition fetch_artifact :: "release_services \<Rightarrow> string \<Rightarrow> obj \<Rightarrow> bool \<Rightarrow> string option result" where
  "fetch_artifact rs base manifest include_artifact =
     (if \<not> include_artifact then Inr None
      else andthen (or_raise (as_str (get (artifact_of manifest) ''name'')) TypeError) (\<lambda>name.
           andthen (fetch_bytes rs (base @ ''/'' @ name) (16 * 1024 * 1024)) (\<lambda>artifact.
           andthen (verify_artifact rs manifest artifact) (\<lambda>_. Inr (Some artifact)))))"

definition fetch_verified_release ::
  "release_services \<Rightarrow> string \<Rightarrow> string \<Rightarrow> string \<Rightarrow> bool \<Rightarrow> (obj \<times> string option) result" where
  "fetch_verified_release rs tag expected_platform expected_channel include_artifact =
     andthen (release_check (valid_tag (JStr tag)) ''invalid discovered release tag'') (\<lambda>_.
     let base = release_base tag
     in andthen (fetch_bytes rs (base @ ''/release.json'') (64 * 1024)) (\<lambda>manifest_bytes.
        andthen (fetch_bytes rs (base @ ''/release.json.sig'') (16 * 1024)) (\<lambda>signature.
        andthen (verify_ssh_signature rs manifest_bytes signature release_public_key) (\<lambda>_.
        andthen (parse_manifest (rs_json rs manifest_bytes) expected_platform (Some expected_channel)) (\<lambda>manifest.
        andthen (release_check (get manifest ''tag'' = JStr tag)
          ''signed manifest does not match the discovered release tag'') (\<lambda>_.
        andthen (fetch_artifact rs base manifest include_artifact) (\<lambda>artifact.
        Inr (manifest, artifact))))))))"

section \<open>What a verified release is\<close>

lemma release_check_Inr [result_simps]: "release_check b message = Inr u \<longleftrightarrow> b"
  by (simp add: release_check_def result_simps)

text \<open>The errors are release errors; an unhashable channel is the exception.\<close>

definition release_failure :: "error \<Rightarrow> bool" where
  "release_failure e \<longleftrightarrow> (\<exists>message. e = ReleaseError message)"

definition fails_as :: "(error \<Rightarrow> bool) \<Rightarrow> 'a result \<Rightarrow> bool" where
  "fails_as p r \<longleftrightarrow> (case r of Inl e \<Rightarrow> p e | Inr x \<Rightarrow> True)"

lemma fails_andthen: "fails_as p r \<Longrightarrow> (\<And>x. r = Inr x \<Longrightarrow> fails_as p (f x)) \<Longrightarrow> fails_as p (andthen r f)"
  by (cases r) (simp_all add: fails_as_def)

lemma fails_Inr: "fails_as p (Inr x)"
  by (simp add: fails_as_def)

lemma fails_check: "p (ReleaseError message) \<Longrightarrow> fails_as p (release_check b message)"
  by (simp add: fails_as_def release_check_def check_def)

lemma fails_or_raise: "p e \<Longrightarrow> fails_as p (or_raise x e)"
  by (cases x) (simp_all add: fails_as_def)

lemma fails_if: "fails_as p x \<Longrightarrow> fails_as p y \<Longrightarrow> fails_as p (if b then x else y)"
  by simp

lemma fails_or_raise_known: "x = Some y \<Longrightarrow> fails_as p (or_raise x e)"
  by (simp add: fails_as_def)

lemma numeric_value_fails: "fails_as (\<lambda>e. \<exists>m. e = InvalidVersion m) (numeric_value s)"
  by (auto simp: numeric_value_def fails_as_def or_raise_def split: option.split)

lemma prerelease_ident_fails: "fails_as (\<lambda>e. \<exists>m. e = InvalidVersion m) (prerelease_ident s)"
  unfolding prerelease_ident_def
  by (auto intro!: fails_andthen fails_Inr numeric_value_fails) (simp add: fails_as_def)

lemma result_list_fails: "(\<And>x. fails_as p (f x)) \<Longrightarrow> fails_as p (result_list f xs)"
  by (induction xs) (auto intro!: fails_andthen fails_Inr)

lemma precedence_key_fails: "fails_as (\<lambda>e. \<exists>m. e = InvalidVersion m) (precedence_key v)"
proof (cases v)
  case (JStr s)
  show ?thesis
  proof (cases "version_re s")
    case None
    then show ?thesis by (simp add: precedence_key_def JStr fails_as_def)
  next
    case (Some p)
    obtain a b c pre where p: "p = ((a, b, c), pre)" by (metis surj_pair)
    show ?thesis unfolding precedence_key_def JStr json.case Some p option.case prod.case
      by (intro fails_andthen numeric_value_fails)
        (auto intro!: fails_andthen fails_Inr result_list_fails prerelease_ident_fails split: option.split)
  qed
qed (simp_all add: precedence_key_def fails_as_def)

lemma release_version_key_fails: "p (ReleaseError (''invalid release version: '' @ (case v of JStr s \<Rightarrow> s | _ \<Rightarrow> [])))
    \<Longrightarrow> fails_as p (release_version_key v)"
  using precedence_key_fails [of v]
  by (auto simp: release_version_key_def fails_as_def except_as_def split: sum.splits)

lemma release_version_key_Inr [result_simps]: "release_version_key v = Inr k \<longleftrightarrow> precedence_key v = Inr k"
  by (simp add: release_version_key_def result_simps)

lemma version_channel_Inr: "version_channel v = Inr c \<Longrightarrow> c = ''stable'' \<or> c = ''beta''"
  unfolding version_channel_def by (elim andthenE) (auto split: if_splits)

lemma version_channel_fails: "p (ReleaseError (''invalid release version: '' @ v)) \<Longrightarrow> fails_as p (version_channel v)"
  unfolding version_channel_def by (intro fails_andthen release_version_key_fails) (auto intro: fails_Inr)

lemma valid_tag_iff: "valid_tag (JStr tag) \<longleftrightarrow> (\<exists>version k. tag = CHR ''v'' # version \<and> precedence_key (JStr version) = Inr k)"
proof (cases tag)
  case (Cons c version)
  have "valid_tag (JStr tag) \<longleftrightarrow> c = CHR ''v'' \<and> (\<exists>k. release_version_key (JStr version) = Inr k)"
    by (simp add: valid_tag_def Cons split: sum.split)
  then show ?thesis unfolding release_version_key_Inr by (simp add: Cons)
qed (simp add: valid_tag_def)

definition acceptable :: "string \<Rightarrow> json \<Rightarrow> bool" where
  "acceptable channel release \<longleftrightarrow>
     (\<exists>m tag. release = JObj m \<and> \<not> truthy (get m ''draft'') \<and> (channel = ''beta'' \<or> \<not> truthy (get m ''prerelease''))
        \<and> get m ''tag_name'' = JStr tag \<and> valid_tag (JStr tag) \<and> version_channel (tl tag) = Inr channel)"

definition tag_of :: "json \<Rightarrow> string" where
  "tag_of release = (case release of JObj m \<Rightarrow> (case get m ''tag_name'' of JStr tag \<Rightarrow> tag | _ \<Rightarrow> []) | _ \<Rightarrow> [])"

lemma valid_tag_channel: "valid_tag (JStr tag) \<Longrightarrow> \<exists>c. version_channel (tl tag) = Inr c"
  by (auto simp: valid_tag_iff version_channel_def result_simps)

lemma first_release_Cons:
  assumes "channel \<in> {''beta'', ''stable''}"
  shows "first_release channel (r # rs) = (if acceptable channel r then Inr (tag_of r) else first_release channel rs)"
proof (cases r)
  case (JObj m)
  show ?thesis
  proof (cases "get m ''tag_name''")
    case (JStr tag)
    show ?thesis
    proof (cases "valid_tag (JStr tag)")
      case True
      from valid_tag_channel [OF this] obtain c where c: "version_channel (tl tag) = Inr c" ..
      show ?thesis using assms by (auto simp: JObj JStr True c acceptable_def tag_of_def)
    qed (simp add: JObj JStr acceptable_def)
  qed (simp_all add: JObj acceptable_def)
qed (simp_all add: acceptable_def)

lemma first_release_Inr:
  assumes "channel \<in> {''beta'', ''stable''}" and "first_release channel releases = Inr tag"
  shows "\<exists>before r after. releases = before @ r # after \<and> list_all (\<lambda>r. \<not> acceptable channel r) before
    \<and> acceptable channel r \<and> tag_of r = tag"
  using assms(2)
proof (induction releases)
  case (Cons r releases)
  show ?case
  proof (cases "acceptable channel r")
    case True
    with Cons.prems have "tag_of r = tag" by (simp add: first_release_Cons [OF assms(1)])
    with True show ?thesis by (intro exI [of _ "[]"]) auto
  next
    case False
    with Cons obtain before r' after where "releases = before @ r' # after"
      "list_all (\<lambda>r. \<not> acceptable channel r) before" "acceptable channel r'" "tag_of r' = tag"
      by (auto simp: first_release_Cons [OF assms(1)])
    with False show ?thesis by (intro exI [of _ "r # before"]) auto
  qed
qed simp

lemma first_release_fails: "channel \<in> {''beta'', ''stable''} \<Longrightarrow> fails_as release_failure (first_release channel releases)"
proof (induction releases)
  case (Cons r releases)
  then show ?case by (simp add: first_release_Cons fails_Inr)
qed (simp add: fails_as_def release_failure_def)

lemma fetch_bytes_fails: "fails_as release_failure (fetch_bytes rs url maximum)"
  unfolding fetch_bytes_def Let_def
  by (intro fails_andthen fails_check fails_or_raise fails_Inr) (simp_all add: release_failure_def)

text \<open>
  The discovered tag is that of the first listed release that is not a draft, carries a valid
  version tag of the requested channel and, on the stable channel, is not marked as a prerelease; a
  search that fails does so with a release error.
\<close>

theorem discover_release_tag_first:
  "case discover_release_tag rs channel of
     Inr tag \<Rightarrow> (\<exists>data before r after. rs_json rs data = Some (JList (before @ r # after))
         \<and> list_all (\<lambda>r. \<not> acceptable channel r) before \<and> acceptable channel r \<and> tag_of r = tag)
   | Inl e \<Rightarrow> (\<exists>message. e = ReleaseError message)"
proof -
  have "fails_as release_failure (discover_release_tag rs channel)"
    unfolding discover_release_tag_def
    by (intro fails_andthen fails_check fetch_bytes_fails fails_or_raise first_release_fails)
      (auto simp: release_failure_def result_simps)
  moreover have "\<exists>data before r after. rs_json rs data = Some (JList (before @ r # after))
         \<and> list_all (\<lambda>r. \<not> acceptable channel r) before \<and> acceptable channel r \<and> tag_of r = tag"
    if "discover_release_tag rs channel = Inr tag" for tag
  proof -
    from that obtain data releases where "channel \<in> {''beta'', ''stable''}" "rs_json rs data = Some (JList releases)"
      "first_release channel releases = Inr tag"
      unfolding discover_release_tag_def by (elim andthenE) (auto simp: result_simps)
    with first_release_Inr [OF this(1,3)] show ?thesis by blast
  qed
  ultimately show ?thesis by (auto simp: fails_as_def release_failure_def split: sum.splits)
qed

lemma parse_manifest_ok:
  assumes "parse_manifest decoded platform (Some channel) = Inr m"
  shows "\<exists>version k. decoded = Some (JObj m) \<and> get m ''version'' = JStr version \<and> precedence_key (JStr version) = Inr k
    \<and> get m ''tag'' = JStr (''v'' @ version) \<and> version_channel version = Inr channel \<and> get m ''channel'' = JStr channel
    \<and> get m ''platform'' = JStr platform
    \<and> (\<exists>a. get m ''artifact'' = JObj a \<and> parse_artifact (JObj a) = Inr a)"
proof -
  have artifact: "\<exists>a. v = JObj a \<and> parse_artifact (JObj a) = Inr a" if "parse_artifact v = Inr b" for v b
    using that by (cases v) (auto simp: parse_artifact_def result_simps)
  show ?thesis using assms unfolding parse_manifest_def release_fail_def
    by (elim andthenE) (auto simp: result_simps dest: artifact)
qed

lemma parse_manifest_fails: "fails_as (\<lambda>e. release_failure e \<or> e = TypeError) (parse_manifest decoded platform channel)"
proof -
  have artifact: "fails_as (\<lambda>e. release_failure e \<or> e = TypeError) (parse_artifact v)" for v
    by (cases v) (auto simp: parse_artifact_def fails_as_def release_failure_def check_def release_check_def
        elim!: andthenE intro!: fails_andthen split: sum.splits)
  have known: "fails_as (\<lambda>e. release_failure e \<or> e = TypeError) (known_channel v)" for v
    by (simp add: known_channel_def in_strs_def fails_as_def)
  have key: "fails_as (\<lambda>e. release_failure e \<or> e = TypeError) (release_fail message (release_version_key v))" for message v
    using release_version_key_fails [of release_failure v]
    by (auto simp: release_fail_def fails_as_def except_as_def release_failure_def split: sum.splits)
  show ?thesis unfolding parse_manifest_def
    by (intro fails_andthen fails_check fails_or_raise known key artifact version_channel_fails fails_Inr)
      (auto simp: release_failure_def intro!: fails_andthen fails_check fails_Inr split: option.split)
qed

lemma fetch_bytes_body: "fetch_bytes rs url maximum = Inr data \<Longrightarrow> rs_body rs url = Some data \<and> length data \<le> maximum"
  unfolding fetch_bytes_def Let_def by (elim andthenE) (auto simp: result_simps)

lemma artifact_size:
  assumes "parse_artifact (JObj a) = Inr a" and "py_eq_int (get a ''size'') n"
  shows "get a ''size'' = JInt n" and "n \<le> 16 * 1024 * 1024"
  using assms by (auto simp: parse_artifact_def result_simps split: json.splits elim!: andthenE)

text \<open>
  What a downloaded release is: a manifest that the built-in key verifies, and the program it names.
\<close>

definition authentic ::
  "release_services \<Rightarrow> string \<Rightarrow> string \<Rightarrow> string \<Rightarrow> bool \<Rightarrow> obj \<Rightarrow> string option \<Rightarrow> bool" where
  "authentic rs tag platform channel include_artifact m artifact \<longleftrightarrow> (\<exists>version k bytes signature a. tag = ''v'' @ version
     \<and> precedence_key (JStr version) = Inr k \<and> version_channel version = Inr channel
     \<and> rs_body rs (release_base tag @ ''/release.json'') = Some bytes \<and> rs_body rs (release_base tag @ ''/release.json.sig'') = Some signature
     \<and> rs_verify rs (release_identity @ '' '' @ release_public_key @ ''\<newline>'') bytes signature = Some 0
     \<and> rs_json rs bytes = Some (JObj m) \<and> get m ''tag'' = JStr tag \<and> get m ''version'' = JStr version
     \<and> get m ''channel'' = JStr channel \<and> get m ''platform'' = JStr platform \<and> get m ''artifact'' = JObj a
     \<and> (case artifact of
          None \<Rightarrow> \<not> include_artifact
        | Some data \<Rightarrow> include_artifact \<and> get a ''size'' = JInt (int (length data))
            \<and> length data \<le> 16 * 1024 * 1024 \<and> get a ''sha256'' = JStr (rs_sha256 rs data)))"

lemma fails_weaken: "fails_as p r \<Longrightarrow> (\<And>e. p e \<Longrightarrow> q e) \<Longrightarrow> fails_as q r"
  by (cases r) (simp_all add: fails_as_def)

lemma fetch_verified_fails:
  "fails_as (\<lambda>e. release_failure e \<or> e = TypeError) (fetch_verified_release rs tag platform channel include_artifact)"
proof -
  have verify: "fails_as release_failure (verify_ssh_signature rs bytes signature key)" for bytes signature key
    unfolding verify_ssh_signature_def
    by (intro fails_andthen fails_check fails_or_raise) (simp_all add: release_failure_def)
  have artifact: "fails_as release_failure (verify_artifact rs m data)" for m data
    unfolding verify_artifact_def by (intro fails_andthen fails_check) (simp_all add: release_failure_def)
  note weaken = fails_weaken [where p = release_failure]
  show ?thesis unfolding fetch_verified_release_def fetch_artifact_def Let_def
    by (intro fails_andthen fails_if fails_check fails_or_raise fails_Inr weaken [OF fetch_bytes_fails] weaken [OF verify]
        weaken [OF artifact] parse_manifest_fails) (simp_all add: release_failure_def)
qed

lemma fetch_artifact_ok:
  assumes "fetch_artifact rs url m include_artifact = Inr artifact" and "get m ''artifact'' = JObj a"
    and "parse_artifact (JObj a) = Inr a"
  shows "case artifact of
          None \<Rightarrow> \<not> include_artifact
        | Some data \<Rightarrow> include_artifact \<and> get a ''size'' = JInt (int (length data))
            \<and> length data \<le> 16 * 1024 * 1024 \<and> get a ''sha256'' = JStr (rs_sha256 rs data)"
proof (cases include_artifact)
  case True
  with assms obtain data where "artifact = Some data" "verify_artifact rs m data = Inr ()"
    by (auto simp: fetch_artifact_def elim!: andthenE)
  then have d: "artifact = Some data" "py_eq_int (get a ''size'') (int (length data))"
    "get a ''sha256'' = JStr (rs_sha256 rs data)"
    by (auto simp: verify_artifact_def artifact_of_def assms(2) result_simps elim!: andthenE)
  from d True artifact_size [OF assms(3) d(2)] show ?thesis by simp
qed (use assms(1) in \<open>simp add: fetch_artifact_def\<close>)

lemma fetch_verified_ok:
  assumes r: "fetch_verified_release rs tag platform channel include_artifact = Inr (m, artifact)"
  shows "authentic rs tag platform channel include_artifact m artifact"
proof -
  let ?url = "release_base tag"
  from r obtain bytes signature where b: "rs_body rs (?url @ ''/release.json'') = Some bytes"
    and sg: "rs_body rs (?url @ ''/release.json.sig'') = Some signature"
    and v: "verify_ssh_signature rs bytes signature release_public_key = Inr ()"
    and p: "parse_manifest (rs_json rs bytes) platform (Some channel) = Inr m" and t: "get m ''tag'' = JStr tag"
    and rest: "fetch_artifact rs ?url m include_artifact = Inr artifact"
    unfolding fetch_verified_release_def Let_def
    by (elim andthenE) (auto simp: result_simps dest!: fetch_bytes_body)
  from parse_manifest_ok [OF p] obtain version k a where m: "rs_json rs bytes = Some (JObj m)"
    "get m ''version'' = JStr version" "precedence_key (JStr version) = Inr k" "get m ''tag'' = JStr (''v'' @ version)"
    "version_channel version = Inr channel" "get m ''channel'' = JStr channel" "get m ''platform'' = JStr platform"
    "get m ''artifact'' = JObj a" "parse_artifact (JObj a) = Inr a" by blast
  have "rs_verify rs (release_identity @ '' '' @ release_public_key @ ''\<newline>'') bytes signature = Some 0"
    using v unfolding verify_ssh_signature_def by (elim andthenE) (auto simp: result_simps)
  then show ?thesis unfolding authentic_def
    using b sg m t fetch_artifact_ok [OF rest m(8,9)] by (intro exI conjI) auto
qed

text \<open>
  C18: A release that is accepted is authentic: the manifest that was downloaded for the requested tag
  carries a signature the built-in key verifies, it is the decoded manifest that is returned, with the
  version of the tag, the channel that was asked for and belongs to that version, and the platform; the
  program that is returned with it has the size and the digest of the signed manifest and at most 16
  MiB. A release that is refused is refused with a release error, or with the type error of a channel
  that cannot be hashed.
\<close>

theorem fetch_verified_release_authentic:
  "case fetch_verified_release rs tag platform channel include_artifact of
     Inr (m, artifact) \<Rightarrow> (\<exists>version k bytes signature a. tag = ''v'' @ version
         \<and> precedence_key (JStr version) = Inr k \<and> version_channel version = Inr channel
         \<and> rs_body rs (release_base tag @ ''/release.json'') = Some bytes \<and> rs_body rs (release_base tag @ ''/release.json.sig'') = Some signature
         \<and> rs_verify rs (release_identity @ '' '' @ release_public_key @ ''\<newline>'') bytes signature = Some 0
         \<and> rs_json rs bytes = Some (JObj m) \<and> get m ''tag'' = JStr tag \<and> get m ''version'' = JStr version
         \<and> get m ''channel'' = JStr channel \<and> get m ''platform'' = JStr platform \<and> get m ''artifact'' = JObj a
         \<and> (case artifact of
              None \<Rightarrow> \<not> include_artifact
            | Some data \<Rightarrow> include_artifact \<and> get a ''size'' = JInt (int (length data))
                \<and> length data \<le> 16 * 1024 * 1024 \<and> get a ''sha256'' = JStr (rs_sha256 rs data)))
   | Inl e \<Rightarrow> (\<exists>message. e = ReleaseError message) \<or> e = TypeError"
  using fetch_verified_fails [of rs tag platform channel include_artifact]
    fetch_verified_ok [of rs tag platform channel include_artifact, unfolded authentic_def]
  by (auto simp: fails_as_def release_failure_def split: sum.splits)

end
