(* ===== verification/Update.thy ===== *)
theory Update
  imports Deploy Releases AwgConfig
begin

text \<open>
  \<^verbatim>\<open>cmd_update\<close> of \<^verbatim>\<open>src/awgctl/core.py\<close> with \<^verbatim>\<open>src/awginstall/platform.py\<close>: discovering, verifying
  and installing a newer release of the program. The backup taken before and the health check are
  parameters; output and the audit line are left out.
\<close>

section \<open>The platform\<close>

definition strip_quotes :: "string \<Rightarrow> string" where
  "strip_quotes s = rev (dropWhile (\<lambda>c. c = CHR 0x22) (rev (dropWhile (\<lambda>c. c = CHR 0x22) s)))"

definition read_os_release :: "string \<Rightarrow> string \<rightharpoonup> string" where
  "read_os_release text =
     foldl (\<lambda>values raw.
        let line = strip raw
        in if line = [] \<or> starts_with ''#'' line \<or> CHR ''='' \<notin> set line then values
           else case partition_on CHR ''='' line of (key, sep, v) \<Rightarrow> values(key \<mapsto> strip_quotes (strip v)))
       Map.empty (splitlines text)"

record platform_info =
  pi_distribution :: string
  pi_version :: string
  pi_codename :: string
  pi_architecture :: string

definition validate_platform :: "(string \<rightharpoonup> string) \<Rightarrow> string \<Rightarrow> platform_info result" where
  "validate_platform os_release machine =
     andthen (check (os_release ''ID'' = Some ''ubuntu'' \<and> os_release ''VERSION_ID'' = Some ''24.04'')
       (PlatformError ''only Ubuntu 24.04 LTS is supported'')) (\<lambda>_.
     andthen (check (os_release ''VERSION_CODENAME'' \<in> {None, Some ''noble''})
       (PlatformError ''Ubuntu 24.04 must use the noble package series'')) (\<lambda>_.
     andthen (check (machine \<in> {''x86_64'', ''amd64''})
       (PlatformError ''only amd64 is supported in this beta release'')) (\<lambda>_.
     Inr \<lparr>pi_distribution = ''ubuntu'', pi_version = ''24.04'', pi_codename = ''noble'', pi_architecture = ''amd64''\<rparr>)))"

section \<open>Updating\<close>

datatype update_result = Checked int | Current | Planned | Updated string

text \<open>\<open>(a > b) - (a < b)\<close> of the keys of the published and the installed version.\<close>

definition version_comparison :: "json \<Rightarrow> json \<Rightarrow> int result" where
  "version_comparison latest current =
     andthen (release_version_key latest) (\<lambda>a.
     andthen (release_version_key current) (\<lambda>b.
     Inr (if a > b then 1 else if a < b then -1 else 0)))"

definition cmd_update ::
  "release_services \<Rightarrow> string \<Rightarrow> string \<Rightarrow> string \<Rightarrow> bool \<Rightarrow> bool \<Rightarrow> string \<Rightarrow> unit result
     \<Rightarrow> (install_root \<Rightarrow> int result) \<Rightarrow> (install_root, update_result) eff" where
  "cmd_update rs os_text machine channel apply_update dry_run installed_version backup health =
     bindE (lift (validate_platform (read_os_release os_text) machine)) (\<lambda>info.
     let platform = ''ubuntu-'' @ pi_version info @ ''-'' @ pi_architecture info
     in bindE (lift (discover_release_tag rs channel)) (\<lambda>tag.
        bindE (lift (fetch_verified_release rs tag platform channel (apply_update \<or> dry_run))) (\<lambda>(manifest, artifact).
        bindE (lift (version_comparison (get manifest ''version'') (JStr installed_version))) (\<lambda>comparison.
        if \<not> apply_update then ret (Checked comparison)
        else if comparison < 0 then raise (AwgctlError ''refusing to downgrade to an older published release'')
        else if comparison = 0 then ret Current
        else bindE (lift (or_raise artifact (AwgctlError ''verified release artifact was not downloaded''))) (\<lambda>data.
             if dry_run then ret Planned
             else bindE (lift backup) (\<lambda>_.
                  bindE (lift (or_raise (as_str (get manifest ''version'')) TypeError)) (\<lambda>latest.
                  bindE (upgrade_product (rs_sha256 rs) (Some data) latest [] (Some health)) (\<lambda>_.
                  ret (Updated latest)))))))))"

text \<open>A program the publisher has signed for a version newer than the installed one.\<close>

definition published :: "release_services \<Rightarrow> string \<Rightarrow> string \<Rightarrow> string \<Rightarrow> string \<Rightarrow> bool" where
  "published rs channel installed_version version data \<longleftrightarrow>
     (\<exists>bytes signature m a k k'.
        rs_verify rs (release_identity @ '' '' @ release_public_key @ ''\<newline>'') bytes signature = Some 0
        \<and> rs_json rs bytes = Some (JObj m) \<and> get m ''version'' = JStr version \<and> get m ''channel'' = JStr channel
        \<and> get m ''artifact'' = JObj a \<and> get a ''sha256'' = JStr (rs_sha256 rs data)
        \<and> get a ''size'' = JInt (int (length data))
        \<and> precedence_key (JStr version) = Inr k \<and> precedence_key (JStr installed_version) = Inr k' \<and> k' < k)"


lemma published_artifact:
  assumes "authentic rs tag platform channel include_artifact m (Some data)"
    and "version_comparison (get m ''version'') (JStr installed_version) = Inr c" and "c > 0"
    and "as_str (get m ''version'') = Some version"
  shows "published rs channel installed_version version data"
proof -
  obtain version' k bytes signature a where f: "precedence_key (JStr version') = Inr k"
    "rs_verify rs (release_identity @ '' '' @ release_public_key @ ''\<newline>'') bytes signature = Some 0"
    "rs_json rs bytes = Some (JObj m)" "get m ''version'' = JStr version'" "get m ''channel'' = JStr channel"
    "get m ''artifact'' = JObj a" "get a ''size'' = JInt (int (length data))" "get a ''sha256'' = JStr (rs_sha256 rs data)"
    using assms(1) by (auto simp: authentic_def)
  have v: "version' = version" using assms(4) f(4) by simp
  obtain k' where "precedence_key (JStr installed_version) = Inr k'" "k' < k"
    using assms(2,3) f(1) unfolding version_comparison_def f(4)
    by (elim andthenE) (auto simp: result_simps split: if_splits)
  with f show ?thesis unfolding published_def v by blast
qed

definition update_allows :: "release_services \<Rightarrow> string \<Rightarrow> string \<Rightarrow> selector \<Rightarrow> string \<Rightarrow> release \<Rightarrow> bool" where
  "update_allows rs channel installed_version sel v r \<longleftrightarrow>
     (\<exists>data. intact (rs_sha256 rs) v data r
        \<and> (published rs channel installed_version v data \<or> v = ''legacy-import'' \<and> sel = Plain data))"

definition update_selects :: "release_services \<Rightarrow> string \<Rightarrow> string \<Rightarrow> string option \<Rightarrow> string \<Rightarrow> string \<Rightarrow> bool" where
  "update_selects rs channel installed_version previous v data \<longleftrightarrow>
     published rs channel installed_version v data \<or> previous = Some v"

lemma deploys_mono:
  assumes "deploys P vs s s'" and "\<And>v r. P v r \<Longrightarrow> P' v r" and "\<And>v data. vs v data \<Longrightarrow> vs' v data"
  shows "deploys P' vs' s s'"
  using assms unfolding deploys_def selects_def list_all_iff by fast

lemma moves_fact_and: "(b \<Longrightarrow> moves R P m Q) \<Longrightarrow> moves R (\<lambda>s. b \<and> P s) m Q"
  by (cases b) (simp_all add: moves_vacuous)

lemma moves_update:
  "moves (deploys (update_allows rs channel iv (ir_selector s0)) (update_selects rs channel iv (previous_release s0)))
     ((=) s0) (cmd_update rs os_text machine channel apply_update dry_run iv backup health) (\<lambda>_ _. True)"
    (is "moves ?R _ _ _")
proof -
  have upgrade: "moves ?R ((=) s0) (upgrade_product (rs_sha256 rs) (Some data) version [] (Some health)) (\<lambda>_ _. True)"
    if "published rs channel iv version data" for version data
    by (rule moves_conseq [OF moves_upgrade], assumption, rule TrueI, erule deploys_mono)
      (use that in \<open>auto simp: new_release_ok_def selected_ok_def update_allows_def update_selects_def\<close>)
  have install: "moves ?R ((=) s0) (bindE (lift backup) (\<lambda>_.
         bindE (lift (or_raise (as_str (get m ''version'')) TypeError)) (\<lambda>latest.
         bindE (upgrade_product (rs_sha256 rs) (Some data) latest [] (Some health)) (\<lambda>_.
         ret (Updated latest))))) (\<lambda>_ _. True)"
    if p: "\<And>version. as_str (get m ''version'') = Some version \<Longrightarrow> published rs channel iv version data" for m data
  proof (rule deploy.moves_bind [where T = "\<lambda>_. (=) s0"], rule deploy.moves_lift, assumption,
      rule deploy.moves_bind [where T = "\<lambda>latest s. as_str (get m ''version'') = Some latest \<and> s0 = s"],
      rule deploy.moves_lift, simp add: result_simps)
    fix latest
    show "moves ?R (\<lambda>s. as_str (get m ''version'') = Some latest \<and> s0 = s)
        (bindE (upgrade_product (rs_sha256 rs) (Some data) latest [] (Some health)) (\<lambda>_. ret (Updated latest))) (\<lambda>_ _. True)"
      by (cases "as_str (get m ''version'') = Some latest")
        (simp_all add: moves_vacuous deploy.moves_bind [OF upgrade [OF p]] deploy.moves_ret)
  qed
  have rest: "moves ?R ((=) s0) (if \<not> apply_update then ret (Checked comparison)
        else if comparison < 0 then raise (AwgctlError ''refusing to downgrade to an older published release'')
        else if comparison = 0 then ret Current
        else bindE (lift (or_raise artifact (AwgctlError ''verified release artifact was not downloaded''))) (\<lambda>data.
             if dry_run then ret Planned
             else bindE (lift backup) (\<lambda>_.
                  bindE (lift (or_raise (as_str (get m ''version'')) TypeError)) (\<lambda>latest.
                  bindE (upgrade_product (rs_sha256 rs) (Some data) latest [] (Some health)) (\<lambda>_.
                  ret (Updated latest)))))) (\<lambda>_ _. True)"
    if f: "authentic rs tag platform channel (apply_update \<or> dry_run) m artifact"
      and c: "version_comparison (get m ''version'') (JStr iv) = Inr comparison" for tag platform m artifact comparison
  proof -
    have last: "moves ?R (\<lambda>s. artifact = Some data \<and> s0 = s) (if dry_run then ret Planned
             else bindE (lift backup) (\<lambda>_.
                  bindE (lift (or_raise (as_str (get m ''version'')) TypeError)) (\<lambda>latest.
                  bindE (upgrade_product (rs_sha256 rs) (Some data) latest [] (Some health)) (\<lambda>_.
                  ret (Updated latest))))) (\<lambda>_ _. True)" if "comparison > 0" for data
    proof (rule moves_fact_and)
      assume "artifact = Some data"
      with f published_artifact [OF _ c that] show "moves ?R ((=) s0) (if dry_run then ret Planned
             else bindE (lift backup) (\<lambda>_.
                  bindE (lift (or_raise (as_str (get m ''version'')) TypeError)) (\<lambda>latest.
                  bindE (upgrade_product (rs_sha256 rs) (Some data) latest [] (Some health)) (\<lambda>_.
                  ret (Updated latest))))) (\<lambda>_ _. True)"
        by (intro moves_if deploy.moves_ret install TrueI) simp
    qed
    have ok: "or_raise artifact e = Inr data \<Longrightarrow> artifact = Some data" for e data
      by (simp add: result_simps)
    show ?thesis
      by (intro moves_if deploy.moves_ret deploy.moves_raise TrueI
          deploy.moves_bind [OF deploy.moves_lift [where Q = "\<lambda>data s. artifact = Some data \<and> s0 = s"]] last)
        (auto dest: ok)
  qed
  have fetched: "moves ?R ((=) s0)
      (bindE (lift (fetch_verified_release rs tag platform channel (apply_update \<or> dry_run))) (\<lambda>(manifest, artifact).
       bindE (lift (version_comparison (get manifest ''version'') (JStr iv))) (\<lambda>comparison.
        if \<not> apply_update then ret (Checked comparison)
        else if comparison < 0 then raise (AwgctlError ''refusing to downgrade to an older published release'')
        else if comparison = 0 then ret Current
        else bindE (lift (or_raise artifact (AwgctlError ''verified release artifact was not downloaded''))) (\<lambda>data.
             if dry_run then ret Planned
             else bindE (lift backup) (\<lambda>_.
                  bindE (lift (or_raise (as_str (get manifest ''version'')) TypeError)) (\<lambda>latest.
                  bindE (upgrade_product (rs_sha256 rs) (Some data) latest [] (Some health)) (\<lambda>_.
                  ret (Updated latest)))))))) (\<lambda>_ _. True)" for tag platform
  proof (rule deploy.moves_bind [OF deploy.moves_lift
        [where Q = "\<lambda>(m, a) s. authentic rs tag platform channel (apply_update \<or> dry_run) m a \<and> s0 = s"]], goal_cases)
    case (2 y)
    obtain m a where y: "y = (m, a)" by (cases y)
    show ?case unfolding y prod.case
      by (rule moves_fact_and, rule deploy.moves_bind [OF deploy.moves_lift
            [where Q = "\<lambda>c s. version_comparison (get m ''version'') (JStr iv) = Inr c \<and> s0 = s"]], simp,
          rule moves_fact_and, rule rest)
  qed (auto dest: fetch_verified_ok)
  show ?thesis unfolding cmd_update_def Let_def
    by (rule deploy.moves_bind [where T = "\<lambda>_. (=) s0"], rule deploy.moves_lift, assumption,
        rule deploy.moves_bind [where T = "\<lambda>_. (=) s0"], rule deploy.moves_lift, assumption, rule fetched)
qed

text \<open>
  C15: An update, whatever interrupts it, changes no installed release and adds only intact ones: a
  program with the size and digest of a manifest the built-in key verifies, of the requested channel and
  of a version above the installed one, or the file of an unversioned installation; and the selector is
  as it was, or selects such a published program or the release that was active before.
\<close>

theorem cmd_update_installs_published:
  "case cmd_update rs os_text machine channel apply_update dry_run installed_version backup health (fault, s) of (outcome, (b, s')) \<Rightarrow>
     (\<exists>new. ir_releases s' = ir_releases s @ new
        \<and> list_all (\<lambda>(v, r). \<exists>data. intact (rs_sha256 rs) v data r
             \<and> (published rs channel installed_version v data \<or> v = ''legacy-import'' \<and> ir_selector s = Plain data)) new)
     \<and> (ir_selector s' = ir_selector s
        \<or> (\<exists>v data. (published rs channel installed_version v data \<or> previous_release s = Some v)
              \<and> ir_selector s' = Link (selector_target v) \<and> release_file v s' = Some data))"
proof -
  obtain r b s' where e: "cmd_update rs os_text machine channel apply_update dry_run installed_version backup health (fault, s) = (r, (b, s'))"
    by (metis surj_pair)
  from movesD(1) [OF moves_update refl e] show ?thesis
    by (simp add: e deploys_def selects_def update_allows_def [abs_def] update_selects_def)
qed

end
