(* ===== verification/Identity.thy ===== *)
theory Identity
  imports Settings Progress
begin

text \<open>
  \<^verbatim>\<open>src/awginstall/identity.py\<close> and \<^verbatim>\<open>sandbox.py\<close>: the plan that gives the manager its host identities (a
  staging account that builds, a group of operators), the sudo policy and the command line of a confined
  worker. An identity snapshot is what the account database answers.
\<close>

section \<open>Records\<close>

definition nologin :: string where
  "nologin = ''/usr/sbin/nologin''"

definition public_entrypoint :: string where
  "public_entrypoint = ''/usr/local/sbin/awgctl''"

record user_record =
  usr_name :: string
  usr_uid :: int
  usr_gid :: int
  usr_home :: string
  usr_shell :: string

record group_record =
  grp_name :: string
  grp_gid :: int
  grp_members :: "string list"

record identity_snapshot =
  sn_users :: "string \<rightharpoonup> user_record option"
  sn_groups :: "string \<rightharpoonup> group_record"
  sn_locked :: "string list"
  sn_supplementary :: "string \<rightharpoonup> string list"

record identity_plan =
  ip_commands :: "string list list"
  ip_users :: "string list"
  ip_groups :: "string list"
  ip_memberships :: "(string \<times> string) list"

section \<open>Operations\<close>

definition effective_group_members :: "int \<Rightarrow> string list \<Rightarrow> (string \<times> int) list \<Rightarrow> string list" where
  "effective_group_members gid listed_members primary_accounts =
     sort (remdups (listed_members @ map fst (filter (\<lambda>(name, primary_gid). primary_gid = gid) primary_accounts)))"

text \<open>The list of problems, each present under its condition.\<close>

definition staging_problems :: "installation_settings \<Rightarrow> identity_snapshot \<Rightarrow> string list" where
  "staging_problems st sn =
     (case (sn_users sn (set_staging_user st), sn_groups sn (set_staging_group st)) of
        (Some (Some u), Some g) \<Rightarrow>
          (if usr_gid u \<noteq> grp_gid g then [''primary GID differs from the staging group''] else [])
          @ (if set_staging_uid st \<notin> {None, Some (usr_uid u)} then [''UID differs from requested value''] else [])
          @ (if set_staging_gid st \<notin> {None, Some (grp_gid g)} then [''GID differs from requested value''] else [])
          @ (if usr_home u \<noteq> path_text (set_staging_root st) then [''home directory differs from the staging root''] else [])
          @ (if usr_shell u \<noteq> nologin then [''login shell is not nologin''] else [])
      | _ \<Rightarrow> [''user and primary group must both exist''])
     @ (if set_staging_user st \<notin> set (sn_locked sn) then [''password is not locked''] else [])
     @ (case sn_supplementary sn (set_staging_user st) of
          None \<Rightarrow> []
        | Some extra \<Rightarrow> if extra = [] then [] else [''supplementary groups are present: '' @ join '', '' extra])"

definition validate_existing_staging :: "installation_settings \<Rightarrow> identity_snapshot \<Rightarrow> unit result" where
  "validate_existing_staging st sn =
     check (staging_problems st sn = [])
       (IdentityError (''existing staging identity does not match policy: '' @ join ''; '' (staging_problems st sn)))"

definition optional_id :: "string \<Rightarrow> int option \<Rightarrow> string list" where
  "optional_id flag v = (case v of None \<Rightarrow> [] | Some n \<Rightarrow> [flag, str_int n])"

definition staging_commands :: "installation_settings \<Rightarrow> string list list" where
  "staging_commands st =
     [[''groupadd'', ''--system''] @ optional_id ''--gid'' (set_staging_gid st) @ [set_staging_group st],
      [''useradd'', ''--system'', ''--gid'', set_staging_group st, ''--home-dir'', path_text (set_staging_root st),
       ''--create-home'', ''--shell'', nologin, ''--comment'', ''AmneziaWG Manager staging account'']
      @ optional_id ''--uid'' (set_staging_uid st) @ [set_staging_user st]]"

text \<open>The loop over the operators: the accounts to be added to the group.\<close>

fun missing_operators :: "identity_snapshot \<Rightarrow> string list \<Rightarrow> string list \<Rightarrow> string list result" where
  "missing_operators sn members [] = Inr []"
| "missing_operators sn members (operator # operators) =
     andthen (check (sn_users sn operator \<noteq> None) (IdentityError (''operator account does not exist: '' @ operator))) (\<lambda>_.
     andthen (missing_operators sn members operators) (\<lambda>missing.
     Inr (if operator \<in> set members then missing else operator # missing)))"

definition build_identity_plan ::
  "installation_settings \<Rightarrow> identity_snapshot \<Rightarrow> bool \<Rightarrow> identity_plan result" where
  "build_identity_plan st sn allow_existing =
     (let staging_user_exists = sn_users sn (set_staging_user st) \<noteq> None;
          staging_group_exists = sn_groups sn (set_staging_group st) \<noteq> None;
          operator_group_exists = sn_groups sn (set_operator_group st) \<noteq> None
      in andthen (check (allow_existing \<or> \<not> (staging_user_exists \<or> staging_group_exists \<or> operator_group_exists))
           (IdentityError ''existing manager identities require --adopt-existing-identities'')) (\<lambda>_.
         andthen (if staging_user_exists \<or> staging_group_exists
           then andthen (validate_existing_staging st sn) (\<lambda>_. Inr ([], [], []))
           else Inr (staging_commands st, [set_staging_user st], [set_staging_group st])) (\<lambda>(commands, users, groups).
         let commands = commands @ (if operator_group_exists then [] else [[''groupadd'', ''--system'', set_operator_group st]]);
             groups = groups @ (if operator_group_exists then [] else [set_operator_group st]);
             members = (case sn_groups sn (set_operator_group st) of None \<Rightarrow> [] | Some g \<Rightarrow> grp_members g);
             unexpected = sort (remdups (filter (\<lambda>m. m \<notin> set (set_operators st)) members))
         in andthen (check (unexpected = [])
              (IdentityError (''existing operator group has undeclared members: '' @ join '', '' unexpected))) (\<lambda>_.
            andthen (missing_operators sn members (set_operators st)) (\<lambda>missing.
            Inr \<lparr>ip_commands = commands @ map (\<lambda>o'. [''usermod'', ''--append'', ''--groups'', set_operator_group st, o']) missing,
              ip_users = users, ip_groups = groups,
              ip_memberships = map (\<lambda>o'. (o', set_operator_group st)) missing\<rparr>)))))"

definition render_sudoers :: "string \<Rightarrow> string \<Rightarrow> string result" where
  "render_sudoers operator_group policy =
     (if policy \<in> {''existing-sudo'', ''none''} then Inr []
      else andthen (check (policy = ''scoped-nopasswd'') (IdentityError (''unsupported sudo policy: '' @ policy))) (\<lambda>_.
        Inr (''# Managed by AmneziaWG Manager. Local edits will be reported as drift.\<newline>%'' @ operator_group
          @ '' ALL=(root) NOPASSWD: NOSETENV: '' @ public_entrypoint @ ''\<newline>'')))"

definition render_service_hardening :: "string \<Rightarrow> string result" where
  "render_service_hardening policy =
     (if policy = ''off'' then Inr []
      else andthen (check (policy = ''conservative'') (SandboxError (''unsupported systemd hardening policy: '' @ policy))) (\<lambda>_.
        Inr (join ''\<newline>''
          [''# Managed by AmneziaWG Manager. Local edits will be reported as drift.'',
           ''[Unit]'', ''After=systemd-modules-load.service'', '''',
           ''[Service]'', ''UMask=0077'', ''NoNewPrivileges=yes'', ''ProtectSystem=strict'',
           ''ReadWritePaths=/opt/amneziawg/generated /run/awgctl'', ''RuntimeDirectory=awgctl'',
           ''RuntimeDirectoryMode=0700'', ''RuntimeDirectoryPreserve=yes'', ''ProtectHome=yes'', ''PrivateTmp=yes'',
           ''PrivateDevices=yes'', ''ProtectClock=yes'', ''ProtectControlGroups=yes'', ''ProtectHostname=yes'',
           ''ProtectKernelLogs=yes'', ''ProtectKernelModules=yes'', ''LockPersonality=yes'',
           ''MemoryDenyWriteExecute=yes'', ''RestrictRealtime=yes'', ''RestrictSUIDSGID=yes'',
           ''SystemCallArchitectures=native'', ''RestrictAddressFamilies=AF_UNIX AF_INET AF_INET6 AF_NETLINK'', ''''])))"

definition render_module_load :: string where
  "render_module_load = ''# Managed by AmneziaWG Manager\<newline>amneziawg\<newline>''"

definition build_worker_command ::
  "installation_settings \<Rightarrow> string \<Rightarrow> string list \<Rightarrow> bool \<Rightarrow> string list result" where
  "build_worker_command st job argv network =
     andthen (check (argv \<noteq> [] \<and> [] \<notin> set argv)
       (IdentityError ''worker command must contain non-empty argument strings'')) (\<lambda>_.
     Inr ([''systemd-run'', ''--quiet'', ''--wait'', ''--collect'', ''--pipe'',
       ''--uid='' @ set_staging_user st, ''--gid='' @ set_staging_group st, ''--working-directory='' @ job,
       ''--property=NoNewPrivileges=yes'', ''--property=CapabilityBoundingSet='', ''--property=UMask=0077'',
       ''--property=ProtectSystem=strict'', ''--property=ProtectHome=yes'', ''--property=PrivateTmp=yes'',
       ''--property=PrivateDevices=yes'', ''--property=RestrictSUIDSGID=yes'', ''--property=ReadWritePaths='' @ job,
       ''--property=InaccessiblePaths=/opt/amneziawg/config /opt/amneziawg/keys /opt/amneziawg/clients /opt/amneziawg/backups /opt/amneziawg/revoked /etc/amnezia'']
       @ (if network then [''--property=RestrictAddressFamilies=AF_UNIX AF_INET AF_INET6''] else [''--property=PrivateNetwork=yes''])
       @ [''--''] @ argv))"

text \<open>The file a worker leaves, as \<open>lstat\<close> and a read see it; \<open>None\<close> when \<open>lstat\<close> fails.\<close>

record worker_output =
  wo_regular :: bool
  wo_links :: int
  wo_uid :: int
  wo_mode :: int
  wo_size :: int
  wo_data :: string

definition copy_validated_worker_output ::
  "worker_output option \<Rightarrow> string \<Rightarrow> string \<Rightarrow> int \<Rightarrow> int \<Rightarrow> int \<Rightarrow> (string \<rightharpoonup> string \<times> int, unit) eff" where
  "copy_validated_worker_output output source destination expected_uid max_size expected_mode =
     bindE (lift (or_raise output (IdentityError (''worker output is unavailable: '' @ source)))) (\<lambda>o'.
     bindE (lift (check (wo_regular o' \<and> wo_links o' = 1) (IdentityError ''worker output must be a regular single-link file''))) (\<lambda>_.
     bindE (lift (check (wo_uid o' = expected_uid) (IdentityError ''worker output has an unexpected owner''))) (\<lambda>_.
     bindE (lift (check (wo_mode o' = expected_mode) (IdentityError ''worker output permissions must be the expected mode''))) (\<lambda>_.
     bindE (lift (check (wo_size o' \<le> max_size) (IdentityError ''worker output exceeds the allowed size''))) (\<lambda>_.
     durable (\<lambda>files. files(destination \<mapsto> (wo_data o', 384))))))))"

section \<open>What a plan does\<close>

text \<open>The members of the operator group before and after a plan, and the policy of the staging account.\<close>

definition members_of :: "installation_settings \<Rightarrow> identity_snapshot \<Rightarrow> string set" where
  "members_of st sn = (case sn_groups sn (set_operator_group st) of None \<Rightarrow> {} | Some g \<Rightarrow> set (grp_members g))"

definition staging_as_declared :: "installation_settings \<Rightarrow> identity_snapshot \<Rightarrow> bool" where
  "staging_as_declared st sn \<longleftrightarrow>
     (\<exists>u g. sn_users sn (set_staging_user st) = Some (Some u) \<and> sn_groups sn (set_staging_group st) = Some g
        \<and> usr_gid u = grp_gid g \<and> set_staging_uid st \<in> {None, Some (usr_uid u)} \<and> set_staging_gid st \<in> {None, Some (grp_gid g)}
        \<and> usr_home u = path_text (set_staging_root st) \<and> usr_shell u = nologin)
     \<and> set_staging_user st \<in> set (sn_locked sn) \<and> sn_supplementary sn (set_staging_user st) \<in> {None, Some []}"

lemma staging_problems_Nil: "staging_problems st sn = [] \<longleftrightarrow> staging_as_declared st sn"
  by (auto simp: staging_problems_def staging_as_declared_def split: option.splits if_splits)

lemma missing_operators_Inr: "missing_operators sn members os = Inr missing \<longleftrightarrow>
    list_all (\<lambda>u. sn_users sn u \<noteq> None) os \<and> missing = filter (\<lambda>u. u \<notin> set members) os"
  by (induction os arbitrary: missing) (auto simp: result_simps)

lemma missing_operators_Inl: "missing_operators sn members os = Inl e \<Longrightarrow> \<exists>m. e = IdentityError m"
  by (induction os) (auto simp: andthen_Inl_iff check_Inl_iff)

definition staging_absent :: "installation_settings \<Rightarrow> identity_snapshot \<Rightarrow> bool" where
  "staging_absent st sn \<longleftrightarrow> sn_users sn (set_staging_user st) = None \<and> sn_groups sn (set_staging_group st) = None"

definition identity_plan_of :: "installation_settings \<Rightarrow> identity_snapshot \<Rightarrow> identity_plan" where
  "identity_plan_of st sn =
     (let missing = filter (\<lambda>u. u \<notin> members_of st sn) (set_operators st);
          new = sn_groups sn (set_operator_group st) = None
      in \<lparr>ip_commands = (if staging_absent st sn then staging_commands st else [])
            @ (if new then [[''groupadd'', ''--system'', set_operator_group st]] else [])
            @ map (\<lambda>u. [''usermod'', ''--append'', ''--groups'', set_operator_group st, u]) missing,
          ip_users = (if staging_absent st sn then [set_staging_user st] else []),
          ip_groups = (if staging_absent st sn then [set_staging_group st] else []) @ (if new then [set_operator_group st] else []),
          ip_memberships = map (\<lambda>u. (u, set_operator_group st)) missing\<rparr>)"

definition plannable :: "installation_settings \<Rightarrow> identity_snapshot \<Rightarrow> bool \<Rightarrow> bool" where
  "plannable st sn allow_existing \<longleftrightarrow>
     (allow_existing \<or> staging_absent st sn \<and> sn_groups sn (set_operator_group st) = None)
     \<and> (staging_absent st sn \<or> staging_as_declared st sn)
     \<and> members_of st sn \<subseteq> set (set_operators st) \<and> list_all (\<lambda>u. sn_users sn u \<noteq> None) (set_operators st)"

lemma build_identity_plan_Inr:
  "build_identity_plan st sn allow_existing = Inr p \<longleftrightarrow> plannable st sn allow_existing \<and> p = identity_plan_of st sn"
proof -
  have e: "sort (remdups (filter (\<lambda>m. m \<notin> A) xs)) = [] \<longleftrightarrow> set xs \<subseteq> A" for A and xs :: "string list"
  proof -
    have "sort (remdups (filter (\<lambda>m. m \<notin> A) xs)) = [] \<longleftrightarrow> set (filter (\<lambda>m. m \<notin> A) xs) = {}"
      by (metis set_empty set_sort set_remdups)
    then show ?thesis by auto
  qed
  show ?thesis unfolding build_identity_plan_def Let_def validate_existing_staging_def
    by (auto simp: result_simps staging_problems_Nil missing_operators_Inr e plannable_def identity_plan_of_def
        staging_absent_def members_of_def Let_def split: option.splits)
qed

lemma build_identity_plan_Inl: "build_identity_plan st sn allow_existing = Inl e \<Longrightarrow> \<exists>m. e = IdentityError m"
  unfolding build_identity_plan_def Let_def validate_existing_staging_def
  by (auto simp: andthen_Inl_iff check_Inl_iff dest: missing_operators_Inl split: if_splits)

text \<open>
  C22: A plan is made exactly when the host already conforms or is clean: no identity of the manager exists
  unless that is allowed, the staging account is absent or as declared (same primary group, requested
  identifiers, home below the staging root, no login, locked, no further groups), no undeclared account
  is in the operator group, and every operator exists. The plan then adds exactly the declared
  operators that are not members; it creates the staging account when it is absent and the operator
  group when it is absent. Otherwise the error is an identity error.
\<close>

theorem build_identity_plan_exact:
  "case build_identity_plan st sn allow_existing of
     Inl e \<Rightarrow> \<not> plannable st sn allow_existing \<and> (\<exists>m. e = IdentityError m)
   | Inr p \<Rightarrow> plannable st sn allow_existing
       \<and> members_of st sn \<union> fst ` set (ip_memberships p) = set (set_operators st)
       \<and> snd ` set (ip_memberships p) \<subseteq> {set_operator_group st}
       \<and> fst ` set (ip_memberships p) \<inter> members_of st sn = {}
       \<and> ip_users p = (if staging_absent st sn then [set_staging_user st] else [])
       \<and> ip_groups p = (if staging_absent st sn then [set_staging_group st] else [])
           @ (if sn_groups sn (set_operator_group st) = None then [set_operator_group st] else [])
       \<and> ip_commands p = (if staging_absent st sn then staging_commands st else [])
           @ (if sn_groups sn (set_operator_group st) = None then [[''groupadd'', ''--system'', set_operator_group st]] else [])
           @ map (\<lambda>(u, g). [''usermod'', ''--append'', ''--groups'', g, u]) (ip_memberships p)"
proof (cases "build_identity_plan st sn allow_existing")
  case (Inl e)
  then have "\<not> plannable st sn allow_existing"
    using build_identity_plan_Inr [of st sn allow_existing "identity_plan_of st sn"] by auto
  with Inl build_identity_plan_Inl [OF Inl] show ?thesis by simp
next
  case (Inr p)
  then have p: "plannable st sn allow_existing" "p = identity_plan_of st sn" by (simp_all add: build_identity_plan_Inr)
  then have "members_of st sn \<subseteq> set (set_operators st)" by (simp add: plannable_def)
  with p Inr show ?thesis by (auto simp: identity_plan_of_def Let_def image_iff comp_def)
qed

section \<open>A plan that was carried out leaves nothing to do\<close>

text \<open>
  What \<^verbatim>\<open>groupadd\<close>, \<^verbatim>\<open>useradd --system\<close> and \<^verbatim>\<open>usermod --append\<close> are documented to leave in the account
  database: the requested accounts and groups, a system account without password, and one more member.
\<close>

definition carried_out :: "installation_settings \<Rightarrow> identity_plan \<Rightarrow> identity_snapshot \<Rightarrow> identity_snapshot \<Rightarrow> bool" where
  "carried_out st p sn sn' \<longleftrightarrow>
     (\<forall>n. n \<notin> set (ip_users p) \<longrightarrow> sn_users sn' n = sn_users sn n)
     \<and> (case sn_groups sn' (set_operator_group st) of
          None \<Rightarrow> False
        | Some g \<Rightarrow> set (grp_members g) = members_of st sn \<union> fst ` set (ip_memberships p))
     \<and> (if ip_users p = []
        then sn_groups sn' (set_staging_group st) = sn_groups sn (set_staging_group st)
          \<and> (set_staging_user st \<in> set (sn_locked sn') \<longleftrightarrow> set_staging_user st \<in> set (sn_locked sn))
          \<and> sn_supplementary sn' (set_staging_user st) = sn_supplementary sn (set_staging_user st)
        else (\<exists>uid gid. set_staging_uid st \<in> {None, Some uid} \<and> set_staging_gid st \<in> {None, Some gid}
          \<and> sn_users sn' (set_staging_user st) = Some (Some \<lparr>usr_name = set_staging_user st, usr_uid = uid, usr_gid = gid,
              usr_home = path_text (set_staging_root st), usr_shell = nologin\<rparr>)
          \<and> sn_groups sn' (set_staging_group st) = Some \<lparr>grp_name = set_staging_group st, grp_gid = gid, grp_members = [set_staging_user st]\<rparr>
          \<and> set_staging_user st \<in> set (sn_locked sn') \<and> sn_supplementary sn' (set_staging_user st) \<in> {None, Some []}))"

text \<open>
  Installing is idempotent: on a host where a plan has been carried out, the next plan for the same
  settings exists and has no commands. The staging account must not be one of the operators.
\<close>

theorem identity_plan_converges:
  assumes "build_identity_plan st sn allow_existing = Inr p" and "carried_out st p sn sn'"
    and "set_staging_user st \<notin> set (set_operators st)"
  shows "\<exists>p'. build_identity_plan st sn' True = Inr p' \<and> ip_commands p' = [] \<and> ip_memberships p' = []
    \<and> ip_users p' = [] \<and> ip_groups p' = [] \<and> staging_as_declared st sn' \<and> members_of st sn' = set (set_operators st)"
proof -
  from assms(1) have p: "plannable st sn allow_existing" "p = identity_plan_of st sn" by (simp_all add: build_identity_plan_Inr)
  then have sub: "members_of st sn \<subseteq> set (set_operators st)" by (simp add: plannable_def)
  have users: "sn_users sn' u \<noteq> None" if "u \<in> set (set_operators st)" for u
  proof -
    have "u \<notin> set (ip_users p)" using that assms(3) p(2) by (auto simp: identity_plan_of_def Let_def)
    then show ?thesis using that assms(2) p(1) by (auto simp: carried_out_def plannable_def list_all_iff)
  qed
  have members: "members_of st sn' = set (set_operators st)" and group: "sn_groups sn' (set_operator_group st) \<noteq> None"
    using assms(2) sub p(2)
    by (auto simp: carried_out_def members_of_def [of st sn'] identity_plan_of_def Let_def image_iff split: option.splits)
  have staging: "staging_as_declared st sn'"
  proof (cases "staging_absent st sn")
    case True
    then show ?thesis using assms(2) p(2)
      by (auto simp: carried_out_def staging_as_declared_def identity_plan_of_def Let_def)
  next
    case False
    with p have "staging_as_declared st sn" "ip_users p = []"
      by (simp_all add: plannable_def identity_plan_of_def Let_def)
    then show ?thesis using assms(2) by (auto simp: carried_out_def staging_as_declared_def)
  qed
  then have present: "\<not> staging_absent st sn'" by (auto simp: staging_as_declared_def staging_absent_def)
  have "plannable st sn' True" using users members staging by (simp add: plannable_def list_all_iff)
  then show ?thesis using members group staging present
    by (intro exI [of _ "identity_plan_of st sn'"])
      (simp add: build_identity_plan_Inr identity_plan_of_def Let_def)
qed

text \<open>A clean host with the two operators, and the host after the commands of its plan.\<close>

definition clean_snapshot :: identity_snapshot where
  "clean_snapshot =
     \<lparr>sn_users = [''alice'' \<mapsto> Some \<lparr>usr_name = ''alice'', usr_uid = 1000, usr_gid = 1000, usr_home = ''/home/alice'', usr_shell = ''/bin/bash''\<rparr>,
        ''bob'' \<mapsto> Some \<lparr>usr_name = ''bob'', usr_uid = 1001, usr_gid = 1001, usr_home = ''/home/bob'', usr_shell = ''/bin/bash''\<rparr>],
      sn_groups = Map.empty, sn_locked = [], sn_supplementary = Map.empty\<rparr>"

definition provisioned_snapshot :: identity_snapshot where
  "provisioned_snapshot =
     \<lparr>sn_users = (sn_users clean_snapshot)(''awgctl'' \<mapsto> Some \<lparr>usr_name = ''awgctl'', usr_uid = 998, usr_gid = 900,
        usr_home = ''/var/lib/awg'', usr_shell = nologin\<rparr>),
      sn_groups = [''awgctl'' \<mapsto> \<lparr>grp_name = ''awgctl'', grp_gid = 900, grp_members = [''awgctl'']\<rparr>,
        ''awgctl-admin'' \<mapsto> \<lparr>grp_name = ''awgctl-admin'', grp_gid = 901, grp_members = [''alice'', ''bob'']\<rparr>],
      sn_locked = [''awgctl''], sn_supplementary = [''awgctl'' \<mapsto> []]\<rparr>"

theorem identity_plan_converges_witness:
  "\<exists>p'. build_identity_plan sample_settings provisioned_snapshot True = Inr p' \<and> ip_commands p' = []"
proof -
  let ?p = "identity_plan_of sample_settings clean_snapshot"
  have plan: "build_identity_plan sample_settings clean_snapshot False = Inr ?p" by code_simp
  have users: "ip_users ?p = [''awgctl'']" "ip_memberships ?p = [(''alice'', ''awgctl-admin''), (''bob'', ''awgctl-admin'')]"
    by code_simp+
  have path: "path_text (set_staging_root sample_settings) = ''/var/lib/awg''" by code_simp
  have "carried_out sample_settings ?p clean_snapshot provisioned_snapshot"
    unfolding carried_out_def users path
    by (simp add: members_of_def clean_snapshot_def provisioned_snapshot_def sample_settings_def)
  from identity_plan_converges [OF plan this] show ?thesis by (auto simp: sample_settings_def)
qed

end
