(* ===== verification/Endings.thy ===== *)
theory Endings
  imports Outcomes
begin

text \<open>
  What a computation may end in under any fault: what holds when it returns, and what when it raises.
  Nothing is said of a killed one. \<open>ends_in P m Q E\<close> is the partial counterpart of the weakest
  precondition, used where a fault may strike anywhere.
\<close>

definition ends_in ::
  "('s \<Rightarrow> bool) \<Rightarrow> ('s, 'a) eff \<Rightarrow> ('a \<Rightarrow> 's \<Rightarrow> bool) \<Rightarrow> (error \<Rightarrow> 's \<Rightarrow> bool) \<Rightarrow> bool" where
  "ends_in P m Q E \<longleftrightarrow> (\<forall>b s. P s \<longrightarrow>
     (case m (b, s) of (Done x, (b', s')) \<Rightarrow> Q x s' | (Raised e, (b', s')) \<Rightarrow> E e s' | (Killed, c) \<Rightarrow> True))"

lemma ends_conseq:
  assumes "ends_in P' m Q' E'" and "\<And>s. P s \<Longrightarrow> P' s" and "\<And>x s. Q' x s \<Longrightarrow> Q x s" and "\<And>e s. E' e s \<Longrightarrow> E e s"
  shows "ends_in P m Q E"
  unfolding ends_in_def
proof (intro allI impI)
  fix b s assume "P s"
  with assms(1,2) have "case m (b, s) of (Done x, (b', s')) \<Rightarrow> Q' x s' | (Raised e, (b', s')) \<Rightarrow> E' e s' | (Killed, c) \<Rightarrow> True"
    by (auto simp: ends_in_def)
  then show "case m (b, s) of (Done x, (b', s')) \<Rightarrow> Q x s' | (Raised e, (b', s')) \<Rightarrow> E e s' | (Killed, c) \<Rightarrow> True"
    by (auto split: prod.splits run.splits intro: assms(3,4))
qed

lemma endsD:
  assumes "ends_in P m Q E" and "P s" and "m (b, s) = (r, (b', s'))"
  shows "(\<forall>x. r = Done x \<longrightarrow> Q x s') \<and> (\<forall>e. r = Raised e \<longrightarrow> E e s')"
  using assms(1) [unfolded ends_in_def, rule_format, OF assms(2), of b] by (auto simp: assms(3))

lemma ends_bind:
  assumes m: "ends_in P m R E" and f: "\<And>x. ends_in (R x) (f x) Q E"
  shows "ends_in P (bindE m f) Q E"
  unfolding ends_in_def
proof (intro allI impI)
  fix b s assume p: "P s"
  obtain r b' s' where e: "m (b, s) = (r, (b', s'))" by (metis surj_pair)
  note o = endsD [OF m p e]
  show "case bindE m f (b, s) of (Done x, (b', s')) \<Rightarrow> Q x s' | (Raised e, (b', s')) \<Rightarrow> E e s' | (Killed, c) \<Rightarrow> True"
  proof (cases r)
    case (Done x)
    with o e f [of x] show ?thesis by (simp add: bindE_def ends_in_def)
  qed (use o e in \<open>simp_all add: bindE_def\<close>)
qed

lemma ends_handle:
  assumes m: "ends_in P m Q F" and h: "\<And>e. ends_in (F e) (h e) Q E"
  shows "ends_in P (handle any_error m h) Q E"
  unfolding ends_in_def
proof (intro allI impI)
  fix b s assume p: "P s"
  obtain r b' s' where e: "m (b, s) = (r, (b', s'))" by (metis surj_pair)
  note o = endsD [OF m p e]
  show "case handle any_error m h (b, s) of (Done x, (b', s')) \<Rightarrow> Q x s' | (Raised e, (b', s')) \<Rightarrow> E e s' | (Killed, c) \<Rightarrow> True"
  proof (cases r)
    case (Raised x)
    with o e h [of x] show ?thesis by (simp add: handle_def ends_in_def)
  qed (use o e in \<open>simp_all add: handle_def\<close>)
qed

lemma ends_basic:
  "(\<And>s. P s \<Longrightarrow> Q x s) \<Longrightarrow> ends_in P (ret x) Q E"
  "(\<And>s. P s \<Longrightarrow> E e s) \<Longrightarrow> ends_in P (raise e) Q E"
  "(\<And>s x. P s \<Longrightarrow> r = Inr x \<Longrightarrow> Q x s) \<Longrightarrow> (\<And>s e. P s \<Longrightarrow> r = Inl e \<Longrightarrow> E e s) \<Longrightarrow> ends_in P (lift r) Q E"
  "(\<And>s. P s \<Longrightarrow> Q (f s) s) \<Longrightarrow> ends_in P (query f) Q E"
  "(\<And>s x. P s \<Longrightarrow> g s = Inr x \<Longrightarrow> Q x s) \<Longrightarrow> (\<And>s e. P s \<Longrightarrow> g s = Inl e \<Longrightarrow> E e s) \<Longrightarrow> ends_in P (reading g) Q E"
  by (auto simp: ends_in_def run_simps split: sum.splits)

lemma ends_durable:
  assumes "\<And>s. P s \<Longrightarrow> Q () (f s)" and "\<And>s e. P s \<Longrightarrow> E e s" and "\<And>s e. P s \<Longrightarrow> E e (f s)"
  shows "ends_in P (durable f) Q E"
  using assms by (auto simp: ends_in_def durable_def split: option.splits fault.splits)

lemma ends_if: "(b \<Longrightarrow> ends_in P m Q E) \<Longrightarrow> (\<not> b \<Longrightarrow> ends_in P n Q E) \<Longrightarrow> ends_in P (if b then m else n) Q E"
  by simp

lemma ends_fact: "(b \<Longrightarrow> ends_in P m Q E) \<Longrightarrow> ends_in (\<lambda>s. b \<and> P s) m Q E"
  by (auto simp: ends_in_def)

lemma ends_given: "(b \<Longrightarrow> ends_in (\<lambda>_. True) m Q E) \<Longrightarrow> ends_in (\<lambda>s. b) m Q E"
  by (auto simp: ends_in_def)

lemma ends_true: "ends_in P m (\<lambda>_ _. True) (\<lambda>_ _. True)"
  by (auto simp: ends_in_def split: prod.splits run.splits)

lemma ends_ensure:
  "(\<And>s. P s \<Longrightarrow> b \<Longrightarrow> Q () s) \<Longrightarrow> (\<And>s. P s \<Longrightarrow> \<not> b \<Longrightarrow> E (AwgctlError message) s)
    \<Longrightarrow> ends_in P (ensure b message) Q E"
  unfolding ensure_def by (rule ends_basic) (auto simp: result_simps check_Inl_iff)

end
