(* ===== verification/HostSetup.thy ===== *)
theory HostSetup
  imports Clients Deploy Identity Endings
begin

text \<open>
  \<^verbatim>\<open>src/awginstall/host.py\<close>: the host configuration of an installation (accounts, sudo policy, service
  hardening, the expiry timer, the installation settings) with its compensation. The account database,
  the processes the installer runs and what else of the host they change are parameters; the managed
  files are changed by the installer only. The process runner is the one the installer uses.
\<close>

section \<open>The host\<close>

datatype host_content = Text string | Settings_document json

text \<open>A directory entry that is not a regular file is a directory or something that a rename replaces.\<close>

datatype host_node = Regular host_content int | Directory | Special

datatype tree_node = Folder int int int | Symbolic string | Plain_file

record 'w host =
  hs_files :: "string \<rightharpoonup> host_node"
  hs_temporary :: "string \<rightharpoonup> host_content"
  hs_tree :: "string \<rightharpoonup> tree_node"
  hs_world :: 'w

text \<open>
  A process answers an exit code, its output and its errors, or it cannot be run; it may change the
  world and the tree of the staging account. \<^verbatim>\<open>pwd\<close> and \<^verbatim>\<open>grp\<close> read the account database.
\<close>

record 'w host_tools =
  ht_process :: "string list \<Rightarrow> 'w host \<Rightarrow> (int \<times> string \<times> string) option \<times> (string \<rightharpoonup> tree_node) \<times> 'w"
  ht_account :: "'w \<Rightarrow> string \<Rightarrow> (int \<times> int \<times> string \<times> string) option"
  ht_accounts :: "'w \<Rightarrow> (string \<times> int) list"
  ht_groups :: "'w \<Rightarrow> (string \<times> int \<times> string list) list"

record host_paths =
  hp_sudoers :: string
  hp_service_dropin :: string
  hp_module_load :: string
  hp_expiry_service :: string
  hp_expiry_timer :: string

definition default_host_paths :: host_paths where
  "default_host_paths =
     \<lparr>hp_sudoers = ''/etc/sudoers.d/amneziawg-manager'',
      hp_service_dropin = ''/etc/systemd/system/awg-quick@awg0.service.d/20-awgctl-hardening.conf'',
      hp_module_load = ''/etc/modules-load.d/amneziawg-manager.conf'',
      hp_expiry_service = ''/etc/systemd/system/amneziawg-client-expiry.service'',
      hp_expiry_timer = ''/etc/systemd/system/amneziawg-client-expiry.timer''\<rparr>"

record expiry_timer_state =
  et_unit_file :: string
  et_active :: string

type_synonym file_snapshot = "(host_content \<times> int) option"

record host_report =
  hr_identity :: identity_plan
  hr_sudoers :: string
  hr_hardening :: string
  hr_module_load :: string
  hr_settings :: json
  hr_dry_run :: bool
  hr_files :: "(string \<times> file_snapshot) list option"
  hr_timer :: "expiry_timer_state option"

definition host_ensure :: "bool \<Rightarrow> string \<Rightarrow> ('w host, unit) eff" where
  "host_ensure b message = lift (check b (HostConfigurationError message))"

section \<open>Files\<close>

definition file_snapshot :: "string \<Rightarrow> ('w host, file_snapshot) eff" where
  "file_snapshot path =
     bindE (query (\<lambda>s. hs_files s path)) (\<lambda>node.
     case node of
       None \<Rightarrow> ret None
     | Some (Regular data mode) \<Rightarrow> ret (Some (data, mode))
     | _ \<Rightarrow> raise (HostConfigurationError (''managed host path is not a regular file: '' @ path)))"

text \<open>A rename does not replace a directory, and a directory cannot be unlinked.\<close>

definition put_node :: "string \<Rightarrow> host_node option \<Rightarrow> ('w host, unit) eff" where
  "put_node path node =
     bindE (query (\<lambda>s. hs_files s path)) (\<lambda>old.
     if old = Some Directory then raise OSError
     else durable (\<lambda>s. s\<lparr>hs_files := (hs_files s)(path := node)\<rparr>))"

definition atomic_write_host :: "string \<Rightarrow> host_content \<Rightarrow> int \<Rightarrow> ('w host, unit) eff" where
  "atomic_write_host path data mode = put_node path (Some (Regular data mode))"

definition unlink :: "string \<Rightarrow> ('w host, unit) eff" where
  "unlink path = put_node path None"

definition restore_file :: "string \<Rightarrow> file_snapshot \<Rightarrow> ('w host, unit) eff" where
  "restore_file path snapshot =
     (case snapshot of Some (data, mode) \<Rightarrow> atomic_write_host path data mode | None \<Rightarrow> unlink path)"

section \<open>Unit files\<close>

definition render_expiry_service :: "string \<Rightarrow> string" where
  "render_expiry_service product_root =
     join ''\<newline>'' [''# Managed by AmneziaWG Manager'', ''[Unit]'', ''Description=Expire due AmneziaWG clients'',
       ''After=awg-quick@awg0.service'', '''', ''[Service]'', ''Type=oneshot'',
       ''ExecStart='' @ product_root @ ''/libexec/awgctl-internal _expire-clients'', ''User=root'', ''Group=root'',
       ''UMask=0077'', '''']"

definition render_expiry_timer :: string where
  "render_expiry_timer =
     join ''\<newline>'' [''# Managed by AmneziaWG Manager'', ''[Unit]'', ''Description=Run AmneziaWG client expiry daily'', '''',
       ''[Timer]'', ''OnCalendar=*-*-* 00:00:00 UTC'', ''Persistent=true'', ''Unit=amneziawg-client-expiry.service'', '''',
       ''[Install]'', ''WantedBy=timers.target'', '''']"

section \<open>Processes\<close>

definition process :: "'w host_tools \<Rightarrow> string list \<Rightarrow> ('w host, (int \<times> string \<times> string) option) eff" where
  "process tools argv c =
     (case c of (b, s) \<Rightarrow> case ht_process tools argv s of
        (r, (t, w)) \<Rightarrow> (Done r, (b, s\<lparr>hs_tree := t, hs_world := w\<rparr>)))"

definition run_local :: "'w host_tools \<Rightarrow> string list \<Rightarrow> ('w host, string) eff" where
  "run_local tools argv =
     bindE (process tools argv) (\<lambda>r.
     case r of
       None \<Rightarrow> raise (HostConfigurationError (''could not run host command: '' @ hd argv))
     | Some (code, out, err) \<Rightarrow>
         let detail = splitlines (strip err)
         in bindE (host_ensure (code = 0)
              (''host command failed: '' @ hd argv @ (if detail = [] then [] else '': '' @ last detail))) (\<lambda>_.
            ret out))"

definition run_local_probe :: "'w host_tools \<Rightarrow> string list \<Rightarrow> ('w host, int \<times> string) eff" where
  "run_local_probe tools argv =
     bindE (process tools argv) (\<lambda>r.
     case r of
       None \<Rightarrow> raise (HostConfigurationError (''could not query host command: '' @ hd argv))
     | Some (code, out, err) \<Rightarrow> ret (code, out))"

definition command :: "'w host_tools \<Rightarrow> string list \<Rightarrow> ('w host, unit) eff" where
  "command tools argv = bindE (run_local tools argv) (\<lambda>_. ret ())"

text \<open>\<open>try: m except Exception as exc: errors.append(f"{label}: {exc}")\<close>, for a list of actions.\<close>

definition attempt :: "string \<Rightarrow> ('w host, unit) eff \<Rightarrow> ('w host, string list) eff" where
  "attempt label m =
     handle any_error (bindE m (\<lambda>_. ret [])) (\<lambda>e. ret [label @ '': '' @ exception_text e])"

fun attempts :: "(string \<times> ('w host, unit) eff) list \<Rightarrow> ('w host, string list) eff" where
  "attempts [] = ret []"
| "attempts ((label, m) # actions) =
     bindE (attempt label m) (\<lambda>errors. bindE (attempts actions) (\<lambda>more. ret (errors @ more)))"

section \<open>The expiry timer\<close>

definition timer_unit :: string where
  "timer_unit = ''amneziawg-client-expiry.timer''"

definition try_probe :: "'w host_tools \<Rightarrow> string \<Rightarrow> string list \<Rightarrow> ('w host, string + int \<times> string) eff" where
  "try_probe tools label argv =
     handle any_error (bindE (run_local_probe tools argv) (\<lambda>r. ret (Inr r)))
       (\<lambda>e. ret (Inl (label @ '': '' @ exception_text e)))"

definition unit_file_states :: "((int \<times> string) \<times> string) list" where
  "unit_file_states =
     [((0, ''enabled\<newline>''), ''enabled''), ((0, ''enabled-runtime\<newline>''), ''enabled-runtime''),
      ((1, ''disabled\<newline>''), ''disabled''), ((4, ''not-found\<newline>''), ''not-found'')]"

definition active_states :: "string \<Rightarrow> bool \<Rightarrow> ((int \<times> string) \<times> string) list" where
  "active_states unit_file_state allow_loaded_not_found =
     (if unit_file_state = ''not-found''
      then ((4, ''inactive\<newline>''), ''inactive'') # (if allow_loaded_not_found then [((0, ''active\<newline>''), ''active'')] else [])
      else [((0, ''active\<newline>''), ''active''), ((3, ''inactive\<newline>''), ''inactive'')])"

definition read_timer_state :: "bool \<Rightarrow> int \<times> string \<Rightarrow> int \<times> string \<Rightarrow> expiry_timer_state result" where
  "read_timer_state allow_loaded_not_found enabled active =
     andthen (or_raise (map_of unit_file_states enabled) (HostConfigurationError
       (''could not determine a supported expiry timer unit-file state (exit '' @ str_int (fst enabled) @ '')''))) (\<lambda>unit_file_state.
     andthen (or_raise (map_of (active_states unit_file_state allow_loaded_not_found) active) (HostConfigurationError
       (''could not determine a supported expiry timer active state for unit-file state '' @ unit_file_state
          @ '' (exit '' @ str_int (fst active) @ '')''))) (\<lambda>active_state.
     Inr \<lparr>et_unit_file = unit_file_state, et_active = active_state\<rparr>))"

definition probe_expiry_timer_state :: "'w host_tools \<Rightarrow> bool \<Rightarrow> ('w host, expiry_timer_state) eff" where
  "probe_expiry_timer_state tools allow_loaded_not_found =
     bindE (try_probe tools ''unit-file state'' [''systemctl'', ''is-enabled'', timer_unit]) (\<lambda>enabled.
     bindE (try_probe tools ''active state'' [''systemctl'', ''is-active'', timer_unit]) (\<lambda>active.
     case (enabled, active) of
       (Inr e, Inr a) \<Rightarrow> lift (read_timer_state allow_loaded_not_found e a)
     | (e, a) \<Rightarrow> raise (HostConfigurationError (''could not query expiry timer state: ''
         @ join ''; '' ((case e of Inl m \<Rightarrow> [m] | Inr r \<Rightarrow> []) @ (case a of Inl m \<Rightarrow> [m] | Inr r \<Rightarrow> []))))))"

definition validate_expiry_timer_snapshot :: "file_snapshot \<Rightarrow> expiry_timer_state \<Rightarrow> unit result" where
  "validate_expiry_timer_snapshot timer_file state =
     check (\<not> (timer_file \<noteq> None \<and> et_unit_file state = ''not-found''))
       (HostConfigurationError ''present expiry timer file has not-found systemd state before reload'')"

definition quiesce_expiry_timer :: "'w host_tools \<Rightarrow> ('w host, unit) eff" where
  "quiesce_expiry_timer tools =
     bindE (probe_expiry_timer_state tools True) (\<lambda>current.
     bindE (attempts
       ((if et_active current = ''active'' then [(''stop'', command tools [''systemctl'', ''stop'', timer_unit])] else [])
        @ (if et_unit_file current \<noteq> ''not-found''
           then [(''persistent disable'', command tools [''systemctl'', ''disable'', timer_unit]),
                 (''runtime disable'', command tools [''systemctl'', ''disable'', ''--runtime'', timer_unit])]
           else []))) (\<lambda>errors.
     host_ensure (errors = []) (''expiry timer quiesce actions failed: '' @ join ''; '' errors)))"

definition timer_actions :: "'w host_tools \<Rightarrow> expiry_timer_state \<Rightarrow> (string \<times> ('w host, unit) eff) list" where
  "timer_actions tools state =
     (if et_unit_file state = ''enabled''
      then [(''persistent enable'', command tools [''systemctl'', ''enable'', timer_unit])]
      else if et_unit_file state = ''enabled-runtime''
      then [(''runtime enable'', command tools [''systemctl'', ''enable'', ''--runtime'', timer_unit])]
      else if et_unit_file state = ''disabled''
      then [(''persistent disable'', command tools [''systemctl'', ''disable'', timer_unit]),
            (''runtime disable'', command tools [''systemctl'', ''disable'', ''--runtime'', timer_unit])]
      else [])
     @ (if et_unit_file state \<noteq> ''not-found''
        then let action = (if et_active state = ''active'' then ''start'' else ''stop'')
             in [(action, command tools [''systemctl'', action, timer_unit])]
        else [])"

text \<open>The postcondition of a rollback: the error messages of one more probe.\<close>

definition timer_difference :: "'w host_tools \<Rightarrow> expiry_timer_state \<Rightarrow> ('w host, string list) eff" where
  "timer_difference tools state =
     handle any_error
       (bindE (probe_expiry_timer_state tools True) (\<lambda>observed.
        ret (if observed = state then []
          else [''expiry timer rollback postcondition failed: expected '' @ et_unit_file state @ ''/'' @ et_active state
                @ '', got '' @ et_unit_file observed @ ''/'' @ et_active observed])))
       (\<lambda>e. ret [''expiry timer rollback postcondition probe failed: '' @ exception_text e])"

definition restore_expiry_timer_state :: "'w host_tools \<Rightarrow> expiry_timer_state \<Rightarrow> ('w host, unit) eff" where
  "restore_expiry_timer_state tools state =
     bindE (host_ensure (et_unit_file state \<in> {''enabled'', ''enabled-runtime'', ''disabled'', ''not-found''})
       ''unsupported expiry timer rollback unit-file state'') (\<lambda>_.
     bindE (host_ensure (et_active state \<in> {''active'', ''inactive''}) ''unsupported expiry timer rollback active state'') (\<lambda>_.
     bindE (host_ensure (\<not> (et_unit_file state = ''not-found'' \<and> et_active state \<noteq> ''inactive''))
       ''a not-found expiry timer cannot be active'') (\<lambda>_.
     bindE (attempts (timer_actions tools state)) (\<lambda>errors.
     bindE (timer_difference tools state) (\<lambda>difference.
     host_ensure (errors @ difference = []) (join ''; '' (errors @ difference)))))))"

section \<open>Identities\<close>

definition password_locked :: "'w host_tools \<Rightarrow> string \<Rightarrow> ('w host, bool) eff" where
  "password_locked tools name =
     bindE (run_local tools [''passwd'', ''--status'', name]) (\<lambda>out.
     let fields = words_of out
     in ret (2 \<le> length fields \<and> fields ! 1 \<in> {''L'', ''LK''}))"

definition lookup_user :: "'w host_tools \<Rightarrow> string \<Rightarrow> 'w \<Rightarrow> user_record option" where
  "lookup_user tools name w =
     map_option (\<lambda>(uid, gid, home, shell). \<lparr>usr_name = name, usr_uid = uid, usr_gid = gid, usr_home = home, usr_shell = shell\<rparr>)
       (ht_account tools w name)"

definition lookup_users :: "'w host_tools \<Rightarrow> installation_settings \<Rightarrow> 'w \<Rightarrow> string \<rightharpoonup> user_record option" where
  "lookup_users tools st w name =
     (if name \<in> set (set_staging_user st # set_operators st) then map_option Some (lookup_user tools name w) else None)"

text \<open>A dictionary keeps the last group of a name.\<close>

definition lookup_groups :: "'w host_tools \<Rightarrow> installation_settings \<Rightarrow> 'w \<Rightarrow> string \<rightharpoonup> group_record" where
  "lookup_groups tools st w =
     map_of (rev (map (\<lambda>(name, gid, members). (name, \<lparr>grp_name = name, grp_gid = gid,
         grp_members = effective_group_members gid members (ht_accounts tools w)\<rparr>))
       (filter (\<lambda>(name, gid, members). name \<in> {set_staging_group st, set_operator_group st}) (ht_groups tools w))))"

definition lookup_supplementary :: "'w host_tools \<Rightarrow> installation_settings \<Rightarrow> user_record option \<Rightarrow> 'w \<Rightarrow> string \<rightharpoonup> string list" where
  "lookup_supplementary tools st staging w =
     (case staging of
        None \<Rightarrow> Map.empty
      | Some u \<Rightarrow> [set_staging_user st \<mapsto> sort (map fst (filter (\<lambda>(name, gid, members).
          set_staging_user st \<in> set members \<and> gid \<noteq> usr_gid u) (ht_groups tools w)))])"

definition snapshot_identities :: "'w host_tools \<Rightarrow> installation_settings \<Rightarrow> ('w host, identity_snapshot) eff" where
  "snapshot_identities tools st =
     bindE (query (\<lambda>s. lookup_users tools st (hs_world s))) (\<lambda>users.
     bindE (query (\<lambda>s. lookup_user tools (set_staging_user st) (hs_world s))) (\<lambda>staging.
     bindE (if staging = None then ret False else password_locked tools (set_staging_user st)) (\<lambda>locked.
     query (\<lambda>s. \<lparr>sn_users = users, sn_groups = lookup_groups tools st (hs_world s),
       sn_locked = (if locked then [set_staging_user st] else []),
       sn_supplementary = lookup_supplementary tools st staging (hs_world s)\<rparr>))))"

definition resolve_created_user :: "'w host_tools \<Rightarrow> string \<Rightarrow> ('w host, user_record) eff" where
  "resolve_created_user tools name =
     reading (\<lambda>s. or_raise (lookup_user tools name (hs_world s))
       (HostConfigurationError (''created staging account is unavailable: '' @ name)))"

section \<open>The staging root\<close>

text \<open>Following symbolic links with absolute targets, at most 40 as the kernel does.\<close>

primrec follow :: "nat \<Rightarrow> (string \<rightharpoonup> tree_node) \<Rightarrow> string \<Rightarrow> string option" where
  "follow 0 t p = None"
| "follow (Suc n) t p = (case t p of Some (Symbolic q) \<Rightarrow> follow n t q | _ \<Rightarrow> Some p)"

definition node_at :: "(string \<rightharpoonup> tree_node) \<Rightarrow> string \<Rightarrow> tree_node option" where
  "node_at t p = Option.bind (follow 41 t p) t"

definition is_folder :: "tree_node option \<Rightarrow> bool" where
  "is_folder n = (case n of Some (Folder u g m) \<Rightarrow> True | _ \<Rightarrow> False)"

definition put_tree :: "string \<Rightarrow> tree_node \<Rightarrow> ('w host, unit) eff" where
  "put_tree p n = durable (\<lambda>s. s\<lparr>hs_tree := (hs_tree s)(p \<mapsto> n)\<rparr>)"

text \<open>\<open>Path.mkdir(exist_ok=True)\<close> by root; a link to a directory is a directory.\<close>

definition make_directory :: "string \<Rightarrow> int \<Rightarrow> ('w host, unit) eff" where
  "make_directory p mode =
     bindE (query hs_tree) (\<lambda>t.
     if t p = None then put_tree p (Folder 0 0 mode)
     else if is_folder (node_at t p) then ret () else raise FileExistsError)"

text \<open>\<open>os.chown\<close> and \<open>os.chmod\<close>, which follow links.\<close>

definition change_folder :: "string \<Rightarrow> (int \<Rightarrow> int \<Rightarrow> int \<Rightarrow> tree_node) \<Rightarrow> ('w host, unit) eff" where
  "change_folder p f =
     bindE (query hs_tree) (\<lambda>t.
     case follow 41 t p of
       None \<Rightarrow> raise OSError
     | Some q \<Rightarrow> (case t q of
         Some (Folder u g m) \<Rightarrow> put_tree q (f u g m)
       | Some n \<Rightarrow> ret ()
       | None \<Rightarrow> raise FileNotFoundError))"

definition change_owner :: "string \<Rightarrow> user_record \<Rightarrow> ('w host, unit) eff" where
  "change_owner p user = change_folder p (\<lambda>u g m. Folder (usr_uid user) (usr_gid user) m)"

definition change_mode :: "string \<Rightarrow> int \<Rightarrow> ('w host, unit) eff" where
  "change_mode p mode = change_folder p (\<lambda>u g m. Folder u g mode)"

definition prepare_staging_root :: "installation_settings \<Rightarrow> user_record \<Rightarrow> ('w host, unit) eff" where
  "prepare_staging_root st user =
     (let root = path_text (set_staging_root st); jobs = root @ ''/jobs''
      in bindE (query hs_tree) (\<lambda>t.
         bindE (host_ensure (\<not> (node_at t root \<noteq> None \<and> (case t root of Some (Symbolic q) \<Rightarrow> True | _ \<Rightarrow> False)))
           ''staging root must not be a symbolic link'') (\<lambda>_.
         bindE (make_directory root 511) (\<lambda>_.
         bindE (query (\<lambda>s. node_at (hs_tree s) root)) (\<lambda>node.
         bindE (case node of
             Some (Folder uid gid mode) \<Rightarrow>
               host_ensure (uid \<in> {0, usr_uid user}) ''staging root is owned by an unexpected account''
           | _ \<Rightarrow> raise (HostConfigurationError ''staging root must be a directory'')) (\<lambda>_.
         bindE (change_owner root user) (\<lambda>_.
         bindE (change_mode root 448) (\<lambda>_.
         bindE (make_directory jobs 448) (\<lambda>_.
         bindE (change_owner jobs user) (\<lambda>_.
         change_mode jobs 448))))))))))"

section \<open>The sudo policy\<close>

text \<open>The policy is checked by \<^verbatim>\<open>visudo\<close> in a temporary file before it is renamed into place.\<close>

definition install_validated_sudoers :: "'w host_tools \<Rightarrow> string \<Rightarrow> string \<Rightarrow> ('w host, unit) eff" where
  "install_validated_sudoers tools path content =
     (if content = [] then unlink path
      else let temporary = path @ ''.tmp''
        in bindE (durable (\<lambda>s. s\<lparr>hs_temporary := (hs_temporary s)(temporary \<mapsto> Text content)\<rparr>)) (\<lambda>_.
           handle any_error
             (bindE (command tools [''visudo'', ''-cf'', temporary]) (\<lambda>_.
              bindE (query (\<lambda>s. hs_files s path)) (\<lambda>old.
              if old = Some Directory then raise OSError
              else durable (\<lambda>s. s\<lparr>hs_files := (hs_files s)(path \<mapsto> Regular (Text content) 288),
                hs_temporary := (hs_temporary s)(temporary := None)\<rparr>))))
             (\<lambda>e. bindE (durable (\<lambda>s. s\<lparr>hs_temporary := (hs_temporary s)(temporary := None)\<rparr>)) (\<lambda>_. raise e))))"

section \<open>Compensation\<close>

definition rollback_identities :: "'w host_tools \<Rightarrow> identity_plan \<Rightarrow> ('w host, string list) eff" where
  "rollback_identities tools plan =
     attempts (map (\<lambda>argv. (join '' '' argv, command tools argv))
       (map (\<lambda>(user, g). [''gpasswd'', ''--delete'', user, g]) (rev (ip_memberships plan))
        @ map (\<lambda>user. [''userdel'', ''--remove'', user]) (rev (ip_users plan))
        @ map (\<lambda>g. [''groupdel'', g]) (rev (ip_groups plan))))"

definition restore_managed_host_state ::
  "'w host_tools \<Rightarrow> (string \<times> file_snapshot) list \<Rightarrow> expiry_timer_state \<Rightarrow> ('w host, string list) eff" where
  "restore_managed_host_state tools files timer =
     attempts ((''quiesce expiry timer'', quiesce_expiry_timer tools)
       # map (\<lambda>(path, previous). (''restore '' @ path, restore_file path previous)) files
       @ [(''daemon-reload'', command tools [''systemctl'', ''daemon-reload'']),
          (''restore expiry timer state'', restore_expiry_timer_state tools timer)])"

definition rollback_host_configuration :: "'w host_tools \<Rightarrow> host_report \<Rightarrow> ('w host, unit) eff" where
  "rollback_host_configuration tools report =
     bindE (lift (or_raise (hr_files report) (HostConfigurationError ''host configuration report has no rollback snapshot''))) (\<lambda>files.
     bindE (lift (or_raise (hr_timer report) (HostConfigurationError ''host configuration report has no expiry timer snapshot''))) (\<lambda>timer.
     bindE (restore_managed_host_state tools files timer) (\<lambda>errors.
     bindE (rollback_identities tools (hr_identity report)) (\<lambda>more.
     host_ensure (errors @ more = []) (''host rollback was incomplete: '' @ join ''; '' (errors @ more))))))"

section \<open>Configuring the host\<close>

definition installation_path :: "string \<Rightarrow> string" where
  "installation_path product_root = product_root @ ''/config/installation.json''"

definition managed_paths :: "host_paths \<Rightarrow> string \<Rightarrow> string list" where
  "managed_paths paths product_root =
     [hp_sudoers paths, hp_service_dropin paths, hp_module_load paths, hp_expiry_service paths, hp_expiry_timer paths,
      installation_path product_root]"

fun file_snapshots :: "string list \<Rightarrow> ('w host, (string \<times> file_snapshot) list) eff" where
  "file_snapshots [] = ret []"
| "file_snapshots (path # paths) =
     bindE (file_snapshot path) (\<lambda>n. bindE (file_snapshots paths) (\<lambda>ns. ret ((path, n) # ns)))"

definition staging_account ::
  "'w host_tools \<Rightarrow> installation_settings \<Rightarrow> identity_plan \<Rightarrow> identity_snapshot \<Rightarrow> ('w host, user_record) eff" where
  "staging_account tools st plan initial =
     (if ip_users plan \<noteq> [] then resolve_created_user tools (set_staging_user st)
      else lift (case sn_users initial (set_staging_user st) of
          Some (Some u) \<Rightarrow> Inr u | _ \<Rightarrow> Inl (HostConfigurationError ''staging account validation failed'')))"

definition write_managed_files ::
  "'w host_tools \<Rightarrow> host_paths \<Rightarrow> string \<Rightarrow> host_report \<Rightarrow> ('w host, unit) eff" where
  "write_managed_files tools paths product_root report =
     bindE (install_validated_sudoers tools (hp_sudoers paths) (hr_sudoers report)) (\<lambda>_.
     bindE (if hr_hardening report \<noteq> [] then atomic_write_host (hp_service_dropin paths) (Text (hr_hardening report)) 420
       else unlink (hp_service_dropin paths)) (\<lambda>_.
     bindE (atomic_write_host (hp_module_load paths) (Text (hr_module_load report)) 420) (\<lambda>_.
     bindE (atomic_write_host (hp_expiry_service paths) (Text (render_expiry_service product_root)) 420) (\<lambda>_.
     bindE (atomic_write_host (hp_expiry_timer paths) (Text render_expiry_timer) 420) (\<lambda>_.
     atomic_write_host (installation_path product_root) (Settings_document (hr_settings report)) 384)))))"

definition apply_host_configuration ::
  "'w host_tools \<Rightarrow> installation_settings \<Rightarrow> host_paths \<Rightarrow> string \<Rightarrow> bool \<Rightarrow> identity_snapshot \<Rightarrow> host_report
     \<Rightarrow> ('w host, host_report) eff" where
  "apply_host_configuration tools st paths product_root verify initial report =
     bindE (for_each (command tools) (ip_commands (hr_identity report))) (\<lambda>_.
     bindE (staging_account tools st (hr_identity report) initial) (\<lambda>user.
     bindE (prepare_staging_root st user) (\<lambda>_.
     bindE (write_managed_files tools paths product_root report) (\<lambda>_.
     bindE (command tools [''systemd-analyze'', ''verify'', ''awg-quick@awg0.service'',
       ''amneziawg-client-expiry.service'', ''amneziawg-client-expiry.timer'']) (\<lambda>_.
     bindE (command tools [''systemctl'', ''daemon-reload'']) (\<lambda>_.
     bindE (if \<not> verify then ret ()
       else bindE (snapshot_identities tools st) (\<lambda>verified.
            bindE (lift (build_identity_plan st verified True)) (\<lambda>post_plan.
            host_ensure (ip_commands post_plan = []) ''host identities did not converge to the requested policy''))) (\<lambda>_.
     bindE (command tools [''systemctl'', ''enable'', timer_unit]) (\<lambda>_.
     bindE (command tools [''systemctl'', ''start'', timer_unit]) (\<lambda>_.
     ret report)))))))))"

text \<open>The identities are rolled back when a command of the plan was started, that is when it has one.\<close>

definition compensate_host ::
  "'w host_tools \<Rightarrow> identity_plan \<Rightarrow> (string \<times> file_snapshot) list \<Rightarrow> expiry_timer_state \<Rightarrow> error
     \<Rightarrow> ('w host, host_report) eff" where
  "compensate_host tools plan files timer e =
     bindE (restore_managed_host_state tools files timer) (\<lambda>errors.
     bindE (if ip_commands plan \<noteq> [] then rollback_identities tools plan else ret []) (\<lambda>more.
     bindE (host_ensure (errors @ more = [])
       (exception_text e @ ''; host compensation was incomplete: '' @ join ''; '' (errors @ more))) (\<lambda>_.
     raise (case e of HostConfigurationError m \<Rightarrow> e | _ \<Rightarrow> HostConfigurationError (exception_text e)))))"

definition configure_host ::
  "'w host_tools \<Rightarrow> installation_settings \<Rightarrow> string \<Rightarrow> host_paths \<Rightarrow> bool \<Rightarrow> bool \<Rightarrow> identity_snapshot option
     \<Rightarrow> ('w host, host_report) eff" where
  "configure_host tools st product_root paths allow_existing dry_run snapshot =
     bindE (case snapshot of Some sn \<Rightarrow> ret sn | None \<Rightarrow> snapshot_identities tools st) (\<lambda>initial.
     bindE (lift (build_identity_plan st initial allow_existing)) (\<lambda>plan.
     bindE (lift (render_sudoers (set_operator_group st) (set_sudo_policy st))) (\<lambda>sudoers.
     bindE (lift (render_service_hardening (set_systemd_hardening st))) (\<lambda>hardening.
     let report = \<lparr>hr_identity = plan, hr_sudoers = sudoers, hr_hardening = hardening, hr_module_load = render_module_load,
           hr_settings = to_dict st, hr_dry_run = dry_run, hr_files = None, hr_timer = None\<rparr>
     in if dry_run then ret report
        else bindE (file_snapshots (managed_paths paths product_root)) (\<lambda>files.
             bindE (probe_expiry_timer_state tools False) (\<lambda>timer.
             bindE (lift (validate_expiry_timer_snapshot (the (map_of files (hp_expiry_timer paths))) timer)) (\<lambda>_.
             let report = report\<lparr>hr_files := Some files, hr_timer := Some timer\<rparr>
             in handle any_error
                  (apply_host_configuration tools st paths product_root (snapshot = None) initial report)
                  (compensate_host tools plan files timer))))))))"

lemma ends_host_ensure:
  "(\<And>s. P s \<Longrightarrow> b \<Longrightarrow> Q () s) \<Longrightarrow> (\<And>s. P s \<Longrightarrow> \<not> b \<Longrightarrow> E (HostConfigurationError message) s)
    \<Longrightarrow> ends_in P (host_ensure b message) Q E"
  unfolding host_ensure_def by (rule ends_basic) (auto simp: result_simps check_Inl_iff)

section \<open>What leaves the managed files alone\<close>

text \<open>Every operation but the three that write a managed file.\<close>

definition keeps_files :: "('w host, 'a) eff \<Rightarrow> bool" where
  "keeps_files m \<longleftrightarrow> (\<forall>F. ends_in (\<lambda>s. hs_files s = F) m (\<lambda>_ s. hs_files s = F) (\<lambda>_ s. hs_files s = F))"

named_theorems keeps

lemma keeps_steps [keeps]:
  "keeps_files (ret x)" "keeps_files (raise e)" "keeps_files (lift r)" "keeps_files (query f)" "keeps_files (reading g)"
  "keeps_files (host_ensure b message)" "keeps_files (process tools argv)" "keeps_files (put_tree p n)"
  by (auto simp: keeps_files_def ends_in_def run_simps process_def put_tree_def host_ensure_def durable_def
      split: sum.splits prod.splits option.splits fault.splits)

lemma keeps_bind [keeps]: "keeps_files m \<Longrightarrow> (\<And>x. keeps_files (f x)) \<Longrightarrow> keeps_files (bindE m f)"
  unfolding keeps_files_def by (intro allI ends_bind) auto

lemma keeps_handle [keeps]: "keeps_files m \<Longrightarrow> (\<And>e. keeps_files (h e)) \<Longrightarrow> keeps_files (handle any_error m h)"
  unfolding keeps_files_def by (intro allI ends_handle) auto

lemma keeps_if [keeps]: "keeps_files m \<Longrightarrow> keeps_files n \<Longrightarrow> keeps_files (if b then m else n)"
  by simp

lemma keeps_option [keeps]: "keeps_files m \<Longrightarrow> (\<And>y. keeps_files (f y)) \<Longrightarrow> keeps_files (case x of None \<Rightarrow> m | Some y \<Rightarrow> f y)"
  by (cases x) auto

lemma keeps_run [keeps]: "keeps_files (run_local tools argv)" "keeps_files (run_local_probe tools argv)" "keeps_files (command tools argv)"
  unfolding run_local_def run_local_probe_def command_def Let_def
  by (auto intro!: keeps split: prod.splits)

lemma keeps_attempt [keeps]: "keeps_files m \<Longrightarrow> keeps_files (attempt label m)"
  unfolding attempt_def by (intro keeps)

lemma keeps_attempts [keeps]: "list_all (\<lambda>(label, m). keeps_files m) actions \<Longrightarrow> keeps_files (attempts actions)"
  by (induction actions rule: attempts.induct) (auto intro!: keeps)

lemma keeps_probe [keeps]: "keeps_files (try_probe tools label argv)" "keeps_files (probe_expiry_timer_state tools allow)"
  unfolding try_probe_def probe_expiry_timer_state_def by (auto intro!: keeps split: sum.splits)

lemma keeps_timer [keeps]: "keeps_files (quiesce_expiry_timer tools)" "keeps_files (restore_expiry_timer_state tools state)"
  unfolding quiesce_expiry_timer_def restore_expiry_timer_state_def timer_actions_def timer_difference_def Let_def
  by (auto intro!: keeps)

lemma keeps_identities [keeps]: "keeps_files (snapshot_identities tools st)" "keeps_files (resolve_created_user tools name)"
  "keeps_files (rollback_identities tools plan)" "keeps_files (staging_account tools st plan initial)"
  unfolding snapshot_identities_def resolve_created_user_def rollback_identities_def password_locked_def staging_account_def Let_def
  by (auto intro!: keeps simp: list_all_iff)

lemma keeps_folder [keeps]: "keeps_files (make_directory p mode)" "keeps_files (change_folder p f)"
  unfolding make_directory_def change_folder_def by (auto intro!: keeps split: tree_node.splits option.splits)

lemma keeps_prepare [keeps]: "keeps_files (prepare_staging_root st user)"
  unfolding prepare_staging_root_def change_owner_def change_mode_def Let_def
  by (intro keeps) (auto intro!: keeps split: tree_node.splits option.splits)

lemma keeps_commands [keeps]: "keeps_files (for_each (command tools) commands)"
  by (induction commands) (auto intro!: keeps)

lemma keeps_snapshot [keeps]: "keeps_files (file_snapshot path)" "keeps_files (file_snapshots paths)"
proof -
  show one: "keeps_files (file_snapshot path)" for path :: string and m :: "('w host, file_snapshot) eff"
    unfolding file_snapshot_def by (auto intro!: keeps split: host_node.splits option.splits)
  show "keeps_files (file_snapshots paths)" by (induction paths) (auto intro!: keeps one)
qed

section \<open>Compensation restores the files\<close>

lemma keepsD: "keeps_files m \<Longrightarrow> ends_in (\<lambda>s. hs_files s = F) m (\<lambda>_ s. hs_files s = F) (\<lambda>_ s. hs_files s = F)"
  by (simp add: keeps_files_def)

definition agree :: "(string \<rightharpoonup> host_node) \<Rightarrow> string set \<Rightarrow> 'w host \<Rightarrow> bool" where
  "agree F D s \<longleftrightarrow> (\<forall>p\<in>D. hs_files s p = F p)"

lemma keeps_agree:
  fixes m :: "('w host, 'a) eff"
  assumes "keeps_files m"
  shows "ends_in (agree F D) m (\<lambda>_. agree F D) (\<lambda>_. agree F D)"
  unfolding ends_in_def
proof (intro allI impI)
  fix b and s :: "'w host" assume a: "agree F D s"
  obtain r b' s' where e: "m (b, s) = (r, (b', s'))" by (metis surj_pair)
  from endsD [OF keepsD [OF assms] refl e] a
  show "case m (b, s) of (Done x, (b', s')) \<Rightarrow> agree F D s' | (Raised e, (b', s')) \<Rightarrow> agree F D s' | (Killed, c) \<Rightarrow> True"
    unfolding e by (cases r) (auto simp: agree_def)
qed

definition to_node :: "file_snapshot \<Rightarrow> host_node option" where
  "to_node n = map_option (\<lambda>(data, mode). Regular data mode) n"

definition recorded :: "(string \<rightharpoonup> host_node) \<Rightarrow> (string \<times> file_snapshot) list \<Rightarrow> bool" where
  "recorded F files \<longleftrightarrow> list_all (\<lambda>(p, n). F p = to_node n) files"

lemma ends_file_snapshot:
  "ends_in (\<lambda>s. hs_files s = F) (file_snapshot p) (\<lambda>n s. F p = to_node n \<and> hs_files s = F) (\<lambda>_ s. hs_files s = F)"
  by (auto simp: ends_in_def file_snapshot_def run_simps to_node_def split: option.splits host_node.splits)

lemma ends_file_snapshots:
  "ends_in (\<lambda>s. hs_files s = F) (file_snapshots paths)
     (\<lambda>ns s. (map fst ns = paths \<and> recorded F ns) \<and> hs_files s = F) (\<lambda>_ s. hs_files s = F)"
proof (induction paths)
  case Nil
  show ?case by (simp add: ends_basic recorded_def)
next
  case (Cons p paths)
  show ?case unfolding file_snapshots.simps
    by (rule ends_bind [OF ends_file_snapshot], rule ends_fact, rule ends_bind [OF Cons], rule ends_fact, rule ends_basic)
      (simp add: recorded_def)
qed

lemma ends_put_node:
  "node = F p \<Longrightarrow> ends_in (agree F D) (put_node p node) (\<lambda>_. agree F (insert p D)) (\<lambda>_ _. True)"
  unfolding put_node_def
  by (rule ends_bind [where R = "\<lambda>_. agree F D"], rule ends_basic, assumption, rule ends_if, rule ends_basic, rule TrueI,
      rule ends_durable) (auto simp: agree_def)

lemma ends_restore_file:
  "F p = to_node n \<Longrightarrow> ends_in (agree F D) (restore_file p n) (\<lambda>_. agree F (insert p D)) (\<lambda>_ _. True)"
  unfolding restore_file_def atomic_write_host_def unlink_def
  by (auto simp: to_node_def intro!: ends_put_node split: option.split)

lemma ends_attempt:
  assumes "ends_in P m (\<lambda>_. R) (\<lambda>_ _. True)"
  shows "ends_in P (attempt label m) (\<lambda>es s. es = [] \<longrightarrow> R s) (\<lambda>_ _. False)"
  unfolding attempt_def
  by (rule ends_handle, rule ends_bind [OF assms], rule ends_basic, simp, rule ends_basic) simp

lemma ends_attempts_any: "ends_in P (attempts actions) (\<lambda>_ _. True) (\<lambda>_ _. False)"
proof (induction actions arbitrary: P rule: attempts.induct)
  case 1
  show ?case by (simp add: ends_basic)
next
  case (2 label m actions)
  have "ends_in P m (\<lambda>_ _. True) (\<lambda>_ _. True)" by (auto simp: ends_in_def split: prod.splits run.splits)
  from ends_attempt [OF this] show ?case unfolding attempts.simps
    by (rule ends_bind, intro ends_bind [OF 2] ends_basic) simp
qed

lemma ends_attempts_Cons:
  assumes m: "ends_in P m (\<lambda>_. R) (\<lambda>_ _. True)"
    and rest: "ends_in R (attempts actions) (\<lambda>es s. es = [] \<longrightarrow> Q s) (\<lambda>_ _. False)"
  shows "ends_in P (attempts ((label, m) # actions)) (\<lambda>es s. es = [] \<longrightarrow> Q s) (\<lambda>_ _. False)"
  unfolding attempts.simps
proof (rule ends_bind [OF ends_attempt [OF m]])
  fix errors :: "string list"
  show "ends_in (\<lambda>s. errors = [] \<longrightarrow> R s) (bindE (attempts actions) (\<lambda>more. ret (errors @ more)))
      (\<lambda>es s. es = [] \<longrightarrow> Q s) (\<lambda>_ _. False)"
  proof (cases "errors = []")
    case True
    then show ?thesis by (simp add: rest)
  next
    case False
    then show ?thesis by (intro ends_bind [OF ends_attempts_any] ends_basic) simp
  qed
qed

lemma ends_attempts_files:
  assumes "recorded F files"
    and "ends_in (agree F (D \<union> fst ` set files)) (attempts rest) (\<lambda>es s. es = [] \<longrightarrow> Q s) (\<lambda>_ _. False)"
  shows "ends_in (agree F D) (attempts (map (\<lambda>(p, n). (''restore '' @ p, restore_file p n)) files @ rest))
    (\<lambda>es s. es = [] \<longrightarrow> Q s) (\<lambda>_ _. False)"
  using assms
proof (induction files arbitrary: D)
  case (Cons f files)
  obtain p n where f: "f = (p, n)" by (cases f)
  from Cons.prems have "F p = to_node n" "recorded F files" by (simp_all add: recorded_def f)
  moreover have "agree F (insert p D \<union> fst ` set files) = agree F (D \<union> fst ` set (f # files))" by (simp add: f)
  ultimately have "ends_in (agree F (insert p D)) (attempts (map (\<lambda>(p, n). (''restore '' @ p, restore_file p n)) files @ rest))
      (\<lambda>es s. es = [] \<longrightarrow> Q s) (\<lambda>_ _. False)" using Cons.prems(2) by (intro Cons.IH) (simp_all add: f)
  from ends_attempts_Cons [OF ends_restore_file this] \<open>F p = to_node n\<close> show ?case
    unfolding f list.map prod.case append_Cons by blast
qed simp

lemma ends_restore_managed:
  assumes "recorded F files"
  shows "ends_in (\<lambda>_. True) (restore_managed_host_state tools files timer)
    (\<lambda>es s. es = [] \<longrightarrow> agree F (fst ` set files) s) (\<lambda>_ _. False)"
proof -
  let ?A = "agree F (fst ` set files)"
  have keep: "ends_in ?A m (\<lambda>_. ?A) (\<lambda>_ _. True)" if "keeps_files m" for m :: "('a host, unit) eff"
    by (rule ends_conseq [OF keeps_agree [OF that]]) auto
  have last: "ends_in ?A (attempts [(''daemon-reload'', command tools [''systemctl'', ''daemon-reload'']),
        (''restore expiry timer state'', restore_expiry_timer_state tools timer)]) (\<lambda>es s. es = [] \<longrightarrow> ?A s) (\<lambda>_ _. False)"
  proof (rule ends_attempts_Cons [OF keep])
    show "ends_in ?A (attempts [(''restore expiry timer state'', restore_expiry_timer_state tools timer)])
        (\<lambda>es s. es = [] \<longrightarrow> ?A s) (\<lambda>_ _. False)"
      by (rule ends_attempts_Cons [OF keep], rule keeps) (simp add: ends_basic)
  qed (rule keeps)
  have first: "ends_in (\<lambda>_. True) (quiesce_expiry_timer tools) (\<lambda>_. agree F {}) (\<lambda>_ _. True)"
    by (auto simp: ends_in_def agree_def split: prod.splits run.splits)
  show ?thesis unfolding restore_managed_host_state_def
    by (rule ends_attempts_Cons [OF first], rule ends_attempts_files [OF assms]) (simp only: Un_empty_left last)
qed

text \<open>An error that says that the compensation was not complete.\<close>

definition incomplete :: "string \<Rightarrow> error \<Rightarrow> bool" where
  "incomplete what e \<longleftrightarrow> (\<exists>before after. e = HostConfigurationError (before @ what @ after))"

lemma ends_compensate:
  assumes "recorded F files"
  shows "ends_in (\<lambda>_. True) (compensate_host tools plan files timer e) (\<lambda>_ _. False)
    (\<lambda>e s. incomplete ''; host compensation was incomplete: '' e \<or> agree F (fst ` set files) s)"
proof -
  let ?A = "agree F (fst ` set files)" and ?I = "incomplete ''; host compensation was incomplete: ''"
  have identities: "ends_in (\<lambda>s. errors = [] \<longrightarrow> ?A s) (if ip_commands plan \<noteq> [] then rollback_identities tools plan else ret [])
      (\<lambda>_ s. errors = [] \<longrightarrow> ?A s) (\<lambda>_ _. False)" for errors :: "string list"
  proof (cases "errors = []")
    case True
    have "ends_in ?A (rollback_identities tools plan) (\<lambda>_. ?A) (\<lambda>_ _. False)"
      using keeps_agree [OF keeps_identities(3), of F "fst ` set files" tools plan]
        ends_attempts_any [of ?A] unfolding rollback_identities_def ends_in_def
      by (fastforce split: prod.splits run.splits)
    with True show ?thesis by (auto intro: ends_basic)
  next
    case False
    then show ?thesis by (auto simp: rollback_identities_def intro: ends_basic ends_attempts_any)
  qed
  show ?thesis unfolding compensate_host_def
    by (rule ends_bind [OF ends_conseq [OF ends_restore_managed [OF assms]]], assumption, assumption, simp,
        rule ends_bind [OF ends_conseq [OF identities]], assumption, assumption, simp,
        rule ends_bind [OF ends_host_ensure [where Q = "\<lambda>_. ?A"]], simp, simp add: incomplete_def, metis append.assoc,
        rule ends_basic) simp
qed

section \<open>A configuration that returns\<close>

text \<open>What each managed path holds for a report.\<close>

definition target_nodes :: "string \<Rightarrow> host_report \<Rightarrow> host_node option list" where
  "target_nodes product_root report =
     [if hr_sudoers report = [] then None else Some (Regular (Text (hr_sudoers report)) 288),
      if hr_hardening report = [] then None else Some (Regular (Text (hr_hardening report)) 420),
      Some (Regular (Text (hr_module_load report)) 420), Some (Regular (Text (render_expiry_service product_root)) 420),
      Some (Regular (Text render_expiry_timer) 420), Some (Regular (Settings_document (hr_settings report)) 384)]"

definition target :: "host_paths \<Rightarrow> string \<Rightarrow> host_report \<Rightarrow> string \<rightharpoonup> host_node" where
  "target paths product_root report p =
     Option.bind (map_of (zip (managed_paths paths product_root) (target_nodes product_root report)) p) (\<lambda>n. n)"

lemma target_simps:
  assumes "distinct (managed_paths paths product_root)"
  shows "target paths product_root report (hp_sudoers paths)
      = (if hr_sudoers report = [] then None else Some (Regular (Text (hr_sudoers report)) 288))"
    "target paths product_root report (hp_service_dropin paths)
      = (if hr_hardening report = [] then None else Some (Regular (Text (hr_hardening report)) 420))"
    "target paths product_root report (hp_module_load paths) = Some (Regular (Text (hr_module_load report)) 420)"
    "target paths product_root report (hp_expiry_service paths) = Some (Regular (Text (render_expiry_service product_root)) 420)"
    "target paths product_root report (hp_expiry_timer paths) = Some (Regular (Text render_expiry_timer) 420)"
    "target paths product_root report (installation_path product_root) = Some (Regular (Settings_document (hr_settings report)) 384)"
  using assms by (auto simp: target_def target_nodes_def managed_paths_def)

lemma ends_sudoers:
  assumes "F path = (if content = [] then None else Some (Regular (Text content) 288))"
  shows "ends_in (agree F D) (install_validated_sudoers tools path content) (\<lambda>_. agree F (insert path D)) (\<lambda>_ _. True)"
proof (cases "content = []")
  case True
  then show ?thesis using assms by (simp add: install_validated_sudoers_def unlink_def ends_put_node)
next
  case False
  have temporary: "ends_in (agree F D) (durable (\<lambda>s. s\<lparr>hs_temporary := f (hs_temporary s)\<rparr>)) (\<lambda>_. agree F D) (\<lambda>_ _. True)" for f
    by (rule ends_durable) (auto simp: agree_def)
  have rename: "ends_in (agree F D) (bindE (query (\<lambda>s. hs_files s path)) (\<lambda>old.
        if old = Some Directory then raise OSError
        else durable (\<lambda>s. s\<lparr>hs_files := (hs_files s)(path \<mapsto> Regular (Text content) 288), hs_temporary := f (hs_temporary s)\<rparr>)))
      (\<lambda>_. agree F (insert path D)) (\<lambda>_ _. True)" for f
    using assms False
    by (intro ends_bind [OF ends_basic(4) [where Q = "\<lambda>_. agree F D"]] ends_if ends_basic ends_durable) (auto simp: agree_def)
  have failed: "ends_in (\<lambda>_. True) (bindE (durable f) (\<lambda>_. raise e)) (\<lambda>_. agree F (insert path D)) (\<lambda>_ _. True)"
    for f :: "'a host \<Rightarrow> 'a host" and e
    by (rule ends_bind [where R = "\<lambda>_ _. True"], rule ends_durable) (simp_all add: ends_basic)
  show ?thesis using False unfolding install_validated_sudoers_def Let_def
    by (simp only: if_False, intro ends_bind [OF temporary] ends_handle [OF _ failed]
        ends_bind [OF ends_conseq [OF keeps_agree [OF keeps_run(3)]] rename]) auto
qed

lemma ends_write_managed:
  assumes d: "distinct (managed_paths paths product_root)"
  shows "ends_in (\<lambda>_. True) (write_managed_files tools paths product_root report)
    (\<lambda>_. agree (target paths product_root report) (set (managed_paths paths product_root))) (\<lambda>_ _. True)"
proof -
  let ?T = "target paths product_root report"
  note t = target_simps [OF d, of report]
  have start: "agree ?T {} s" for s :: "'a host" by (simp add: agree_def)
  have whole: "set (managed_paths paths product_root) = insert (installation_path product_root) (insert (hp_expiry_timer paths)
      (insert (hp_expiry_service paths) (insert (hp_module_load paths) (insert (hp_service_dropin paths) {hp_sudoers paths}))))"
    by (auto simp: managed_paths_def)
  have hardening: "ends_in (agree ?T D) (if hr_hardening report \<noteq> [] then atomic_write_host (hp_service_dropin paths) (Text (hr_hardening report)) 420
       else unlink (hp_service_dropin paths)) (\<lambda>_. agree ?T (insert (hp_service_dropin paths) D)) (\<lambda>_ _. True)" for D
    unfolding atomic_write_host_def unlink_def by (intro ends_if ends_put_node) (simp_all add: t)
  have sudo: "ends_in (\<lambda>_. True) (install_validated_sudoers tools (hp_sudoers paths) (hr_sudoers report))
      (\<lambda>_. agree ?T {hp_sudoers paths}) (\<lambda>_ _. True)"
    by (rule ends_conseq [OF ends_sudoers [where F = ?T and D = "{}"]]) (auto simp: t start)
  have put: "ends_in (agree ?T D) (atomic_write_host p c mode) (\<lambda>_. agree ?T (insert p D)) (\<lambda>_ _. True)"
    if "?T p = Some (Regular c mode)" for D p c mode
    unfolding atomic_write_host_def by (rule ends_put_node) (simp add: that)
  show ?thesis unfolding write_managed_files_def whole
    by (rule ends_bind [OF sudo], rule ends_bind [OF hardening], (rule ends_bind [OF put], simp add: t)+, rule put, simp add: t)
qed

lemma ends_apply:
  assumes d: "distinct (managed_paths paths product_root)"
  shows "ends_in (\<lambda>_. True) (apply_host_configuration tools st paths product_root verify initial report)
    (\<lambda>r s. r = report \<and> agree (target paths product_root report) (set (managed_paths paths product_root)) s) (\<lambda>_ _. True)"
proof -
  let ?A = "agree (target paths product_root report) (set (managed_paths paths product_root))"
  have keep: "ends_in ?A m (\<lambda>_. ?A) (\<lambda>_ _. True)" if "keeps_files m" for m :: "('a host, 'b) eff"
    by (rule ends_conseq [OF keeps_agree [OF that]]) auto
  show ?thesis unfolding apply_host_configuration_def
    by (intro ends_bind [OF ends_true] ends_bind [OF ends_write_managed [OF d]] ends_bind [OF keep])
      (auto intro!: keeps ends_basic)
qed

lemma ends_configure:
  assumes d: "distinct (managed_paths paths product_root)"
  shows "ends_in (\<lambda>s. hs_files s = F) (configure_host tools st product_root paths allow_existing dry_run snapshot)
    (\<lambda>r s. (render_sudoers (set_operator_group st) (set_sudo_policy st) = Inr (hr_sudoers r)
        \<and> render_service_hardening (set_systemd_hardening st) = Inr (hr_hardening r)
        \<and> hr_module_load r = render_module_load \<and> hr_settings r = to_dict st)
      \<and> (if dry_run then hs_files s = F \<and> hr_files r = None
         else (case hr_files r of None \<Rightarrow> False | Some files \<Rightarrow> map fst files = managed_paths paths product_root \<and> recorded F files)
           \<and> agree (target paths product_root r) (set (managed_paths paths product_root)) s))
    (\<lambda>e s. \<not> dry_run \<and> incomplete ''; host compensation was incomplete: '' e
      \<or> agree F (set (managed_paths paths product_root)) s)"
    (is "ends_in ?F _ ?Q ?E")
proof -
  have same: "ends_in ?F m (\<lambda>_. ?F) ?E" if "keeps_files m" for m :: "('a host, 'b) eff"
    by (rule ends_conseq [OF keepsD [OF that, of F]]) (simp_all add: agree_def)
  have lifted: "ends_in ?F (lift r) (\<lambda>x s. r = Inr x \<and> hs_files s = F) ?E" for r :: "'b result"
    by (rule ends_basic) (simp_all add: agree_def)
  have main: "ends_in ?F (handle any_error (apply_host_configuration tools st paths product_root (snapshot = None) initial report)
      (compensate_host tools plan files timer)) ?Q ?E"
    if f: "map fst files = managed_paths paths product_root" "recorded F files" and r: "hr_files report = Some files" "\<not> dry_run"
      and t: "render_sudoers (set_operator_group st) (set_sudo_policy st) = Inr (hr_sudoers report)
        \<and> render_service_hardening (set_systemd_hardening st) = Inr (hr_hardening report)
        \<and> hr_module_load report = render_module_load \<and> hr_settings report = to_dict st"
    for initial report plan files timer
  proof (rule ends_handle)
    show "ends_in ?F (apply_host_configuration tools st paths product_root (snapshot = None) initial report) ?Q (\<lambda>_ _. True)"
      by (rule ends_conseq [OF ends_apply [OF d]]) (use f r t in auto)
    have "set (managed_paths paths product_root) = fst ` set files" by (simp flip: f(1))
    then show "ends_in (\<lambda>_. True) (compensate_host tools plan files timer e) ?Q ?E" for e
      by (intro ends_conseq [OF ends_compensate [OF f(2)]]) (use r in auto)
  qed
  have files: "ends_in ?F (file_snapshots ps) (\<lambda>ns s. (map fst ns = ps \<and> recorded F ns) \<and> hs_files s = F) ?E" for ps
    by (rule ends_conseq [OF ends_file_snapshots]) (auto simp: agree_def)
  show ?thesis unfolding configure_host_def Let_def
  proof (rule ends_bind [OF same], goal_cases)
    case 1 show ?case by (intro keeps)
  next
    case (2 initial)
    show ?case
    proof (rule ends_bind [OF lifted], rule ends_fact, rule ends_bind [OF lifted], rule ends_fact,
        rule ends_bind [OF lifted], rule ends_fact, rule ends_if, goal_cases)
      case (1 plan sudoers hardening)
      then show ?case by (intro ends_basic) simp
    next
      case (2 plan sudoers hardening)
      then show ?case
        by - (rule ends_bind [OF files], rule ends_fact, rule ends_bind [OF same], rule keeps, rule ends_bind [OF lifted],
          rule ends_fact, rule main, auto)
    qed
  qed
qed

lemma default_paths_distinct: "distinct (managed_paths default_host_paths product_root)"
proof -
  have "p \<noteq> installation_path product_root" if "p \<noteq> []" "last p \<noteq> CHR ''n''" for p
  proof
    assume "p = installation_path product_root"
    then have "last p = CHR ''n''" by (simp add: installation_path_def)
    with that show False by simp
  qed
  then show ?thesis by (simp add: managed_paths_def default_host_paths_def)
qed

text \<open>
  C19: Configuring the host is a transaction on its managed files, whatever interrupts it and whatever the
  processes do. When it raises, every managed file is as it was found, or the error says that the
  compensation was incomplete. A dry run changes no file. When it returns, the sudo policy, the
  hardening, the module list, the units of the expiry timer and the settings are what the settings
  render to, with their modes, a policy that renders to nothing being absent.
\<close>

theorem configure_host_transactional:
  "case configure_host tools st product_root default_host_paths allow_existing dry_run snapshot (fault, s) of
     (Raised e, (b, s')) \<Rightarrow>
       (\<exists>before after. e = HostConfigurationError (before @ ''; host compensation was incomplete: '' @ after))
       \<or> list_all (\<lambda>p. hs_files s' p = hs_files s p) (managed_paths default_host_paths product_root)
   | (Done report, (b, s')) \<Rightarrow>
       if dry_run then hs_files s' = hs_files s
       else (\<exists>sudoers hardening. render_sudoers (set_operator_group st) (set_sudo_policy st) = Inr sudoers
           \<and> render_service_hardening (set_systemd_hardening st) = Inr hardening
           \<and> map (hs_files s') (managed_paths default_host_paths product_root) =
               [if sudoers = [] then None else Some (Regular (Text sudoers) 288),
                if hardening = [] then None else Some (Regular (Text hardening) 420),
                Some (Regular (Text render_module_load) 420), Some (Regular (Text (render_expiry_service product_root)) 420),
                Some (Regular (Text render_expiry_timer) 420), Some (Regular (Settings_document (to_dict st)) 384)])
   | (Killed, c) \<Rightarrow> True"
proof -
  note d = default_paths_distinct [of product_root]
  obtain r b s' where e: "configure_host tools st product_root default_host_paths allow_existing dry_run snapshot (fault, s) = (r, (b, s'))"
    by (metis surj_pair)
  have files: "map (hs_files s') (managed_paths default_host_paths product_root) = target_nodes product_root report"
    if "agree (target default_host_paths product_root report) (set (managed_paths default_host_paths product_root)) s'" for report
    using that target_simps [OF d, of report] by (simp add: agree_def managed_paths_def target_nodes_def)
  show ?thesis using endsD [OF ends_configure [OF d] refl e]
    by (cases r) (auto simp: e incomplete_def agree_def [of "hs_files s"] list_all_iff target_nodes_def dest: files split: if_splits)
qed

text \<open>
  C21: A configuration that is rolled back after it succeeded, as the installer does when a later step
  fails, leaves every managed file as it was found before the configuration, whatever interrupts
  either, or the rollback raises.
\<close>

theorem configure_then_rollback_restores:
  "case bindE (configure_host tools st product_root default_host_paths allow_existing False snapshot)
       (rollback_host_configuration tools) (fault, s) of
     (Done u, (b, s')) \<Rightarrow> list_all (\<lambda>p. hs_files s' p = hs_files s p) (managed_paths default_host_paths product_root)
   | (Raised e, c) \<Rightarrow> True
   | (Killed, c) \<Rightarrow> True"
proof -
  let ?F = "hs_files s" and ?D = "set (managed_paths default_host_paths product_root)"
  have roll: "ends_in (\<lambda>_. True) (rollback_host_configuration tools report) (\<lambda>_. agree ?F ?D) (\<lambda>_ _. True)"
    if f: "hr_files report = Some files" "map fst files = managed_paths default_host_paths product_root" "recorded ?F files" for report files
  proof -
    have d: "?D = fst ` set files" by (simp flip: f(2))
    have keep: "ends_in (\<lambda>s. errors = [] \<longrightarrow> agree ?F ?D s) (rollback_identities tools plan)
        (\<lambda>_ s. errors = [] \<longrightarrow> agree ?F ?D s) (\<lambda>_ _. True)" for errors :: "string list" and plan
      using keeps_agree [OF keeps_identities(3), of ?F ?D tools plan] ends_true
      by (cases "errors = []") (auto intro: ends_conseq)
    have restored: "ends_in (\<lambda>_. True) (restore_managed_host_state tools files timer)
        (\<lambda>es s. es = [] \<longrightarrow> agree ?F ?D s) (\<lambda>_ _. True)" for timer
      by (rule ends_conseq [OF ends_restore_managed [OF f(3)]]) (simp_all add: d)
    show ?thesis unfolding rollback_host_configuration_def f(1)
      by (simp, intro ends_bind [OF ends_true] ends_bind [OF restored] ends_bind [OF keep] ends_host_ensure) auto
  qed
  have "ends_in (\<lambda>s. hs_files s = ?F) (bindE (configure_host tools st product_root default_host_paths allow_existing False snapshot)
       (rollback_host_configuration tools)) (\<lambda>_. agree ?F ?D) (\<lambda>_ _. True)"
  proof (rule ends_bind)
    show "ends_in (\<lambda>s. hs_files s = ?F) (configure_host tools st product_root default_host_paths allow_existing False snapshot)
        (\<lambda>report s. \<exists>files. hr_files report = Some files \<and> map fst files = managed_paths default_host_paths product_root
          \<and> recorded ?F files) (\<lambda>_ _. True)"
      by (rule ends_conseq [OF ends_configure [OF default_paths_distinct]]) (auto split: option.splits)
  qed (rule ends_given, use roll in blast)
  from endsD [OF this refl] show ?thesis
    by (auto simp: agree_def list_all_iff split: prod.splits run.splits)
qed

section \<open>The identities after a configuration\<close>

text \<open>
  What a snapshot reads of a world: the account database and whether the password of the staging account
  is locked, a predicate of the world that \<^verbatim>\<open>passwd --status\<close> reports.
\<close>

definition accounts_of :: "'w host_tools \<Rightarrow> ('w \<Rightarrow> bool) \<Rightarrow> 'w \<Rightarrow>
    (string \<Rightarrow> (int \<times> int \<times> string \<times> string) option) \<times> (string \<times> int) list \<times> (string \<times> int \<times> string list) list \<times> bool" where
  "accounts_of tools locked w = (ht_account tools w, ht_accounts tools w, ht_groups tools w, locked w)"

definition reports_lock :: "'w host_tools \<Rightarrow> string \<Rightarrow> ('w \<Rightarrow> bool) \<Rightarrow> bool" where
  "reports_lock tools name locked \<longleftrightarrow>
     (\<forall>s. case ht_process tools [''passwd'', ''--status'', name] s of
        (Some (code, out, err), t, w) \<Rightarrow>
          code = 0 \<longrightarrow> locked (hs_world s) = (2 \<le> length (words_of out) \<and> words_of out ! 1 \<in> {''L'', ''LK''})
      | (None, t, w) \<Rightarrow> True)"

text \<open>A program that writes neither.\<close>

definition spares :: "'w host_tools \<Rightarrow> ('w \<Rightarrow> bool) \<Rightarrow> string \<Rightarrow> bool" where
  "spares tools locked program \<longleftrightarrow>
     (\<forall>args s. accounts_of tools locked (snd (snd (ht_process tools (program # args) s))) = accounts_of tools locked (hs_world s))"

text \<open>
  The declared identities, over the account database itself: the entry of a group is the last one of its
  name, and an account belongs to a group that lists it or that is its primary group.
\<close>

definition group_entry :: "'w host_tools \<Rightarrow> 'w \<Rightarrow> string \<Rightarrow> (int \<times> string list) option" where
  "group_entry tools w name = map_of (rev (ht_groups tools w)) name"

definition belongs :: "'w host_tools \<Rightarrow> 'w \<Rightarrow> string \<Rightarrow> string \<Rightarrow> bool" where
  "belongs tools w account g \<longleftrightarrow>
     (case group_entry tools w g of
        None \<Rightarrow> False
      | Some (gid, named) \<Rightarrow> account \<in> set named \<or> (account, gid) \<in> set (ht_accounts tools w))"

definition staging_declared :: "'w host_tools \<Rightarrow> installation_settings \<Rightarrow> 'w \<Rightarrow> bool" where
  "staging_declared tools st w \<longleftrightarrow>
     (case ht_account tools w (set_staging_user st) of
        None \<Rightarrow> False
      | Some (uid, gid, home, shell) \<Rightarrow>
          map_option fst (group_entry tools w (set_staging_group st)) = Some gid
          \<and> set_staging_uid st \<in> {None, Some uid} \<and> set_staging_gid st \<in> {None, Some gid}
          \<and> home = path_text (set_staging_root st) \<and> shell = nologin
          \<and> list_all (\<lambda>(name, other, named). set_staging_user st \<in> set named \<longrightarrow> other = gid) (ht_groups tools w))"

definition operators_declared :: "'w host_tools \<Rightarrow> installation_settings \<Rightarrow> 'w \<Rightarrow> bool" where
  "operators_declared tools st w \<longleftrightarrow> group_entry tools w (set_operator_group st) \<noteq> None
     \<and> list_all (\<lambda>u. ht_account tools w u \<noteq> None) (set_operators st)
     \<and> (\<forall>u. belongs tools w u (set_operator_group st) = (u \<in> set (set_operators st)))"

text \<open>The snapshot of a world, and what it says about the database.\<close>

definition identity_view :: "'w host_tools \<Rightarrow> installation_settings \<Rightarrow> ('w \<Rightarrow> bool) \<Rightarrow> 'w \<Rightarrow> identity_snapshot" where
  "identity_view tools st locked w =
     \<lparr>sn_users = lookup_users tools st w, sn_groups = lookup_groups tools st w,
      sn_locked = (if lookup_user tools (set_staging_user st) w \<noteq> None \<and> locked w then [set_staging_user st] else []),
      sn_supplementary = lookup_supplementary tools st (lookup_user tools (set_staging_user st) w) w\<rparr>"

lemma map_of_named:
  "map_of (map (\<lambda>(n, i, m). (n, f n i m)) (filter (\<lambda>(n, i, m). n \<in> A) xs)) x
     = (if x \<in> A then map_option (\<lambda>(i, m). f x i m) (map_of xs x) else None)"
  by (induction xs) auto

lemma lookup_groups_entry:
  assumes "name \<in> {set_staging_group st, set_operator_group st}"
  shows "lookup_groups tools st w name = map_option (\<lambda>(gid, named). \<lparr>grp_name = name, grp_gid = gid,
       grp_members = effective_group_members gid named (ht_accounts tools w)\<rparr>) (group_entry tools w name)"
  unfolding lookup_groups_def group_entry_def rev_map rev_filter map_of_named using assms by simp

lemma set_effective_group_members:
  "set (effective_group_members gid named accounts) = {u. u \<in> set named \<or> (u, gid) \<in> set accounts}"
  by (force simp: effective_group_members_def)

lemma members_of_view: "members_of st (identity_view tools st locked w) = {u. belongs tools w u (set_operator_group st)}"
  by (auto simp: members_of_def identity_view_def lookup_groups_entry belongs_def set_effective_group_members split: option.split)

lemma staging_view:
  assumes "staging_as_declared st (identity_view tools st locked w)"
  shows "staging_declared tools st w" and "locked w"
proof -
  from assms show "locked w" by (auto simp: staging_as_declared_def identity_view_def split: if_splits)
  from assms obtain u g where u: "lookup_users tools st w (set_staging_user st) = Some (Some u)"
      and g: "lookup_groups tools st w (set_staging_group st) = Some g"
      and p: "usr_gid u = grp_gid g" "set_staging_uid st \<in> {None, Some (usr_uid u)}" "set_staging_gid st \<in> {None, Some (grp_gid g)}"
        "usr_home u = path_text (set_staging_root st)" "usr_shell u = nologin"
      and x: "lookup_supplementary tools st (lookup_user tools (set_staging_user st) w) w (set_staging_user st) \<in> {None, Some []}"
    by (auto simp: staging_as_declared_def identity_view_def)
  have unsorted: "sort xs = [] \<Longrightarrow> xs = []" for xs :: "string list" by (metis set_empty set_sort)
  from u have l: "lookup_user tools (set_staging_user st) w = Some u" by (simp add: lookup_users_def)
  from g have "map_option fst (group_entry tools w (set_staging_group st)) = Some (grp_gid g)"
    by (auto simp: lookup_groups_entry)
  moreover from x l have "list_all (\<lambda>(name, other, named). set_staging_user st \<in> set named \<longrightarrow> other = usr_gid u) (ht_groups tools w)"
    by (auto simp: lookup_supplementary_def list_all_iff filter_empty_conv dest!: unsorted)
  ultimately show "staging_declared tools st w" using l p
    by (auto simp: staging_declared_def lookup_user_def)
qed

lemma lookups_cong:
  assumes "accounts_of tools locked w = accounts_of tools locked w'"
  shows "lookup_user tools n w = lookup_user tools n w'" "lookup_users tools st w = lookup_users tools st w'"
    "lookup_groups tools st w = lookup_groups tools st w'" "lookup_supplementary tools st u w = lookup_supplementary tools st u w'"
    "locked w = locked w'"
  using assms by (auto simp: accounts_of_def lookup_user_def lookup_users_def lookup_groups_def lookup_supplementary_def
      fun_eq_iff split: option.split)

lemma identity_view_cong:
  assumes "accounts_of tools locked w = accounts_of tools locked w'"
  shows "identity_view tools st locked w = identity_view tools st locked w'"
  using lookups_cong [OF assms] by (simp add: identity_view_def)

lemma ends_spared:
  assumes "spares tools locked program"
  shows "ends_in (\<lambda>s. accounts_of tools locked (hs_world s) = A) (run_local tools (program # args))
      (\<lambda>_ s. accounts_of tools locked (hs_world s) = A) (\<lambda>_ _. True)"
proof -
  have "ends_in (\<lambda>s. accounts_of tools locked (hs_world s) = A) (process tools (program # args))
      (\<lambda>_ s. accounts_of tools locked (hs_world s) = A) (\<lambda>_ _. True)"
    using assms by (auto simp: ends_in_def process_def spares_def split: prod.splits) (metis snd_conv)
  then show ?thesis unfolding run_local_def Let_def
    by (rule ends_bind) (auto intro!: ends_bind [OF ends_host_ensure [where Q = "\<lambda>_ s. accounts_of tools locked (hs_world s) = A"]] ends_basic
      split: option.split)
qed

lemma ends_probed:
  fixes tools :: "'w host_tools"
  assumes "spares tools locked ''passwd''" and "reports_lock tools name locked"
  shows "ends_in (\<lambda>s. accounts_of tools locked (hs_world s) = A) (password_locked tools name)
      (\<lambda>l s. accounts_of tools locked (hs_world s) = A \<and> l = locked (hs_world s)) (\<lambda>_ _. True)"
  unfolding ends_in_def
proof (intro allI impI)
  fix b and s :: "'w host" assume s: "accounts_of tools locked (hs_world s) = A"
  obtain r t w where p: "ht_process tools [''passwd'', ''--status'', name] s = (r, t, w)" by (metis surj_pair)
  have a: "accounts_of tools locked w = A"
    using assms(1) p s unfolding spares_def by (metis snd_conv)
  have "locked w = locked (hs_world s)" by (rule lookups_cong(5) [of tools]) (use a s in simp)
  moreover have "\<forall>code out err. r = Some (code, out, err) \<longrightarrow> code = 0 \<longrightarrow>
      locked (hs_world s) = (2 \<le> length (words_of out) \<and> words_of out ! 1 \<in> {''L'', ''LK''})"
    using assms(2) p unfolding reports_lock_def by (auto dest!: spec [of _ s])
  ultimately show "case password_locked tools name (b, s) of
      (Done l, (b', s')) \<Rightarrow> accounts_of tools locked (hs_world s') = A \<and> l = locked (hs_world s')
    | (Raised e, (b', s')) \<Rightarrow> True | (Killed, c) \<Rightarrow> True"
    using a p by (auto simp: password_locked_def run_local_def process_def bindE_def host_ensure_def lift_def check_def ret_def
        raise_def Let_def split: option.splits)
qed

definition settled :: "'w host_tools \<Rightarrow> installation_settings \<Rightarrow> ('w \<Rightarrow> bool) \<Rightarrow> 'w host \<Rightarrow> bool" where
  "settled tools st locked s \<longleftrightarrow> (\<exists>plan. build_identity_plan st (identity_view tools st locked (hs_world s)) True = Inr plan
     \<and> ip_commands plan = [])"

lemma settled_cong:
  "accounts_of tools locked (hs_world s) = accounts_of tools locked (hs_world s') \<Longrightarrow> settled tools st locked s = settled tools st locked s'"
  by (simp add: settled_def identity_view_cong [of tools locked "hs_world s" "hs_world s'"])

lemma settled_declared:
  assumes "settled tools st locked s"
  shows "staging_declared tools st (hs_world s)" and "operators_declared tools st (hs_world s)" and "locked (hs_world s)"
proof -
  let ?v = "identity_view tools st locked (hs_world s)"
  from assms have p: "plannable st ?v True" and c: "ip_commands (identity_plan_of st ?v) = []"
    unfolding settled_def by (auto simp: build_identity_plan_Inr)
  from c have "\<not> staging_absent st ?v" and g: "sn_groups ?v (set_operator_group st) \<noteq> None"
      and m: "set (set_operators st) \<subseteq> members_of st ?v"
    by (auto simp: identity_plan_of_def Let_def staging_commands_def filter_empty_conv split: if_splits)
  with p have "staging_as_declared st ?v" by (simp add: plannable_def)
  from staging_view [OF this] show "staging_declared tools st (hs_world s)" "locked (hs_world s)" .
  from p m have "members_of st ?v = set (set_operators st)" by (auto simp: plannable_def)
  then have "belongs tools (hs_world s) u (set_operator_group st) = (u \<in> set (set_operators st))" for u
    unfolding members_of_view by blast
  moreover from p have "list_all (\<lambda>u. ht_account tools (hs_world s) u \<noteq> None) (set_operators st)"
    by (auto simp: plannable_def identity_view_def lookup_users_def lookup_user_def list_all_iff)
  moreover from g have "group_entry tools (hs_world s) (set_operator_group st) \<noteq> None"
    by (auto simp: identity_view_def lookup_groups_entry)
  ultimately show "operators_declared tools st (hs_world s)" by (simp add: operators_declared_def)
qed

lemma ends_settled:
  assumes "spares tools locked program"
  shows "ends_in (settled tools st locked) (command tools (program # args)) (\<lambda>_. settled tools st locked) (\<lambda>_ _. True)"
  unfolding ends_in_def
proof (intro allI impI)
  fix b s assume s: "settled tools st locked s"
  obtain r b' s' where e: "command tools (program # args) (b, s) = (r, (b', s'))" by (metis surj_pair)
  have "ends_in (\<lambda>t. accounts_of tools locked (hs_world t) = accounts_of tools locked (hs_world s)) (command tools (program # args))
      (\<lambda>_ t. accounts_of tools locked (hs_world t) = accounts_of tools locked (hs_world s)) (\<lambda>_ _. True)"
    unfolding command_def by (intro ends_bind [OF ends_spared [OF assms]] ends_basic) simp
  from endsD [OF this refl e] settled_cong [of tools locked s' s st] s
  show "case command tools (program # args) (b, s) of (Done x, (b', s')) \<Rightarrow> settled tools st locked s' | (Raised e, (b', s')) \<Rightarrow> True | (Killed, c) \<Rightarrow> True"
    by (cases r) (auto simp: e)
qed

lemma ends_snapshot_identities:
  assumes "spares tools locked ''passwd''" and "reports_lock tools (set_staging_user st) locked"
  shows "ends_in (\<lambda>_. True) (snapshot_identities tools st) (\<lambda>sn s. sn = identity_view tools st locked (hs_world s)) (\<lambda>_ _. True)"
proof -
  have lock: "ends_in ((=) s0) (if staging = None then ret False else password_locked tools (set_staging_user st))
      (\<lambda>l s. accounts_of tools locked (hs_world s) = accounts_of tools locked (hs_world s0)
         \<and> l = (staging \<noteq> None \<and> locked (hs_world s))) (\<lambda>_ _. True)"
    for s0 and staging :: "user_record option"
    by (rule ends_if; (rule ends_basic | rule ends_conseq [OF ends_probed [OF assms]])) auto
  have "ends_in ((=) s0) (snapshot_identities tools st) (\<lambda>sn s. sn = identity_view tools st locked (hs_world s)) (\<lambda>_ _. True)" for s0
    unfolding snapshot_identities_def
  proof (rule ends_bind [OF ends_basic(4) [where Q = "\<lambda>users s. users = lookup_users tools st (hs_world s0) \<and> s0 = s"]], simp, rule ends_fact,
      rule ends_bind [OF ends_basic(4) [where Q = "\<lambda>u s. u = lookup_user tools (set_staging_user st) (hs_world s0) \<and> s0 = s"]], simp, rule ends_fact,
      rule ends_bind [OF lock], rule ends_basic, goal_cases)
    case (1 users u l s)
    then show ?case using lookups_cong [of tools locked "hs_world s" "hs_world s0"] by (simp add: identity_view_def)
  qed
  then show ?thesis by (auto simp: ends_in_def)
qed

lemma ends_apply_settled:
  assumes "spares tools locked ''systemctl''" and "spares tools locked ''passwd''" and "reports_lock tools (set_staging_user st) locked"
  shows "ends_in (\<lambda>_. True) (apply_host_configuration tools st paths product_root True initial report)
    (\<lambda>_. settled tools st locked) (\<lambda>_ _. True)"
proof -
  have verified: "ends_in (\<lambda>_. True) (bindE (snapshot_identities tools st) (\<lambda>verified.
            bindE (lift (build_identity_plan st verified True)) (\<lambda>post_plan.
            host_ensure (ip_commands post_plan = []) ''host identities did not converge to the requested policy'')))
      (\<lambda>_. settled tools st locked) (\<lambda>_ _. True)"
    by (rule ends_bind [OF ends_snapshot_identities [OF assms(2,3)]],
        rule ends_bind [OF ends_basic(3) [where Q = "\<lambda>plan s. build_identity_plan st (identity_view tools st locked (hs_world s)) True = Inr plan"]],
        blast, simp, rule ends_host_ensure) (auto simp: settled_def)
  show ?thesis unfolding apply_host_configuration_def
    by (simp, intro ends_bind [OF ends_true] ends_bind [OF verified] ends_bind [OF ends_settled [OF assms(1)]] ends_basic)
qed

text \<open>
  C20: A configuration that returns leaves the account database of the host as declared, for the accounts
  that were there before it and those it created. The staging account has the requested identifiers, the
  staging group as its primary group and no other group, the declared home, no login, and its password is
  locked. The operator group exists, and the accounts that belong to it, because it lists them or because
  it is their primary group, are exactly the declared operators, each of which exists. \<^verbatim>\<open>passwd --status\<close>
  reports the lock, and neither it nor \<^verbatim>\<open>systemctl\<close> writes the account database or the lock.
\<close>

theorem configure_host_identities:
  assumes "spares tools locked ''systemctl''" and "spares tools locked ''passwd''"
    and "reports_lock tools (set_staging_user st) locked"
    and "configure_host tools st product_root paths allow_existing False None (fault, s) = (Done report, (b, s'))"
  shows "staging_declared tools st (hs_world s') \<and> locked (hs_world s') \<and> operators_declared tools st (hs_world s')"
proof -
  have "ends_in (\<lambda>_. True) (configure_host tools st product_root paths allow_existing False None) (\<lambda>_. settled tools st locked) (\<lambda>_ _. True)"
    unfolding configure_host_def Let_def compensate_host_def
    by (simp, intro ends_bind [OF ends_true] ends_handle [OF ends_apply_settled [OF assms(1-3)]]) (intro ends_bind [OF ends_true] ends_basic TrueI)
  from endsD [OF this TrueI assms(4)] have "settled tools st locked s'" by simp
  with settled_declared show ?thesis by blast
qed

text \<open>A host on which every command succeeds and the identities exist already.\<close>

definition answering :: "string list \<Rightarrow> unit host \<Rightarrow> (int \<times> string \<times> string) option \<times> (string \<rightharpoonup> tree_node) \<times> unit" where
  "answering argv s =
     (Some (0, (if argv ! 0 = ''passwd'' then ''awgctl L'' else if argv ! 1 = ''is-enabled'' then ''enabled\<newline>''
        else if argv ! 1 = ''is-active'' then ''active\<newline>'' else []), []), hs_tree s, hs_world s)"

definition sample_tools :: "unit host_tools" where
  "sample_tools =
     \<lparr>ht_process = answering,
      ht_account = (\<lambda>w. [''awgctl'' \<mapsto> (998, 900, ''/var/lib/awg'', nologin), ''alice'' \<mapsto> (1000, 1000, ''/home/alice'', ''/bin/bash''),
        ''bob'' \<mapsto> (1001, 901, ''/home/bob'', ''/bin/bash'')]),
      ht_accounts = (\<lambda>w. [(''awgctl'', 900), (''alice'', 1000), (''bob'', 901)]),
      ht_groups = (\<lambda>w. [(''awgctl'', 900, []), (''awgctl-admin'', 901, [''alice''])])\<rparr>"

definition sample_host :: "unit host" where
  "sample_host = \<lparr>hs_files = Map.empty, hs_temporary = Map.empty, hs_tree = Map.empty, hs_world = ()\<rparr>"

lemma sample_configures:
  "case configure_host sample_tools sample_settings ''/opt/amneziawg'' default_host_paths True False None (None, sample_host) of
     (Done r, c) \<Rightarrow> True | other \<Rightarrow> False"
  by code_simp

theorem configure_host_identities_witness:
  "\<exists>w. staging_declared sample_tools sample_settings w \<and> belongs sample_tools w ''alice'' ''awgctl-admin''
     \<and> belongs sample_tools w ''bob'' ''awgctl-admin'' \<and> \<not> belongs sample_tools w ''awgctl'' ''awgctl-admin''"
proof -
  obtain report b s' where run: "configure_host sample_tools sample_settings ''/opt/amneziawg'' default_host_paths True False None
      (None, sample_host) = (Done report, (b, s'))"
    using sample_configures by (auto split: prod.splits run.splits)
  have spares: "spares sample_tools (\<lambda>w. True) program" for program
    by (simp add: spares_def accounts_of_def sample_tools_def answering_def)
  have "words_of ''awgctl L'' = [''awgctl'', ''L'']" by code_simp
  then have "reports_lock sample_tools (set_staging_user sample_settings) (\<lambda>w. True)"
    by (simp add: reports_lock_def sample_tools_def answering_def)
  from configure_host_identities [OF spares spares this run] show ?thesis
    by (auto simp: operators_declared_def sample_settings_def)
qed

section \<open>The expiry timer\<close>

text \<open>
  The timer counts as restored only right after a probe that answered the saved state, whatever the
  commands before it did; a state that no probe answers is refused before any command runs.
\<close>

theorem restore_expiry_timer_state_proven:
  "case restore_expiry_timer_state tools state (fault, s) of
     (Done u, c) \<Rightarrow> (\<exists>c'. probe_expiry_timer_state tools True c' = (Done state, c))
       \<and> et_unit_file state \<in> {''enabled'', ''enabled-runtime'', ''disabled'', ''not-found''}
       \<and> et_active state \<in> {''active'', ''inactive''}
   | (Raised e, c) \<Rightarrow> True
   | (Killed, c) \<Rightarrow> True"
proof -
  have probed: "\<exists>b0 s0. probe_expiry_timer_state tools True (b0, s0) = (Done state, c)"
    if "timer_difference tools state (b0, s0) = (Done [], c)" for b0 s0 c
    using that unfolding timer_difference_def handle_def bindE_def
    by (intro exI [of _ b0] exI [of _ s0]) (auto simp: ret_def split: prod.splits run.splits if_splits)
  show ?thesis unfolding restore_expiry_timer_state_def host_ensure_def bindE_def [of "attempts _"] bindE_def [of "timer_difference _ _"]
    by (auto simp: bindE_def lift_def check_def split: prod.splits run.splits sum.splits if_splits dest: probed)
qed

section \<open>The directory of the jobs\<close>

text \<open>
  The staging root belongs to the staging account, and its subdirectory \<^verbatim>\<open>jobs\<close> is not tested for being
  a link: on a host where the account replaced it by a link to a directory, the next configuration
  gives that directory to the account.
\<close>

definition linked_tree :: "string \<rightharpoonup> tree_node" where
  "linked_tree = [''/var/lib/awg'' \<mapsto> Folder 998 900 448, ''/var/lib/awg/jobs'' \<mapsto> Symbolic ''/etc'', ''/etc'' \<mapsto> Folder 0 0 493]"

lemma jobs_link_followed:
  "case prepare_staging_root sample_settings \<lparr>usr_name = ''awgctl'', usr_uid = 998, usr_gid = 900, usr_home = ''/var/lib/awg'', usr_shell = nologin\<rparr>
       (None, sample_host\<lparr>hs_tree := linked_tree\<rparr>) of
     (r, (b, s')) \<Rightarrow> hs_tree s' ''/etc'' = Some (Folder 998 900 448)"
  by code_simp

end
