(* ===== verification/Backups.thy ===== *)
theory Backups
  imports Json
begin

text \<open>
  \<^verbatim>\<open>src/awgctl/backups.py\<close>: the manifest of a backup and its verification. A backup is the list of what
  \<^verbatim>\<open>root.rglob("*")\<close> yields, each entry with what \<^verbatim>\<open>lstat\<close> and \<^verbatim>\<open>read_bytes\<close> tell of it; links are told
  apart by what they lead to. The hash function is a parameter. Reading a file that is there does not fail.
\<close>

section \<open>A backup directory\<close>

text \<open>Mode, owner and group.\<close>

type_synonym protection = "int \<times> int \<times> int"

datatype entry =
    Regular string protection
  | Folder protection
  | File_link
  | Folder_link
  | Odd

record backup_dir =
  bk_path :: string
  bk_is_dir :: bool
  bk_protection :: protection
  bk_manifest :: "json result"
  bk_manifest_protection :: protection
  bk_entries :: "(string list \<times> entry) list"

definition as_posix :: "string list \<Rightarrow> string" where
  "as_posix parts = join ''/'' parts"

text \<open>\<open>PurePosixPath(text).parts\<close> of a relative path.\<close>

definition path_parts :: "string \<Rightarrow> string list" where
  "path_parts text = filter (\<lambda>p. p \<noteq> [] \<and> p \<noteq> ''.'') (split_on CHR ''/'' text)"

definition is_file :: "entry \<Rightarrow> bool" where
  "is_file e = (case e of Regular c p \<Rightarrow> True | File_link \<Rightarrow> True | _ \<Rightarrow> False)"

definition is_folder :: "entry \<Rightarrow> bool" where
  "is_folder e = (case e of Folder p \<Rightarrow> True | Folder_link \<Rightarrow> True | _ \<Rightarrow> False)"

definition relative_files :: "backup_dir \<Rightarrow> string list list" where
  "relative_files b = sort (map fst (filter (\<lambda>(path, e). is_file e \<and> last path \<noteq> ''manifest.json'') (bk_entries b)))"

definition entry_at :: "backup_dir \<Rightarrow> string list \<Rightarrow> entry" where
  "entry_at b path = (case map_of (bk_entries b) path of None \<Rightarrow> Odd | Some e \<Rightarrow> e)"

section \<open>The manifest\<close>

definition manifest_entry :: "(string \<Rightarrow> string) \<Rightarrow> backup_dir \<Rightarrow> string list \<Rightarrow> json result" where
  "manifest_entry sha256 b path =
     (case entry_at b path of
        Regular content (mode, uid, gid) \<Rightarrow>
          Inr (JObj [(''path'', JStr (as_posix path)), (''sha256'', JStr (sha256 content)), (''size'', JInt (int (length content))),
                     (''mode'', JInt mode), (''uid'', JInt uid), (''gid'', JInt gid)])
      | _ \<Rightarrow> Inl (BackupError (''unsafe backup entry: '' @ as_posix path)))"

definition create_manifest :: "(string \<Rightarrow> string) \<Rightarrow> backup_dir \<Rightarrow> string \<Rightarrow> string \<Rightarrow> json result" where
  "create_manifest sha256 b product_version created_at =
     andthen (result_list (manifest_entry sha256 b) (relative_files b)) (\<lambda>files.
     Inr (JObj [(''schema_version'', JInt 1), (''created_at'', JStr created_at), (''product_version'', JStr product_version),
                (''files'', JList files)]))"

section \<open>Verification\<close>

definition backup_check :: "bool \<Rightarrow> string \<Rightarrow> unit result" where
  "backup_check ok message = check ok (BackupError message)"

text \<open>The entries of the manifest, by path and in order.\<close>

fun expected_entries :: "(string \<times> obj) list \<Rightarrow> json list \<Rightarrow> (string \<times> obj) list result" where
  "expected_entries seen [] = Inr seen"
| "expected_entries seen (v # vs) =
     (case v of
        JObj entry \<Rightarrow>
          (case get entry ''path'' of
             JStr path \<Rightarrow>
               andthen (backup_check (\<not> starts_with ''/'' path \<and> ''..'' \<notin> set (path_parts path) \<and> path_parts path \<noteq> [])
                 ''unsafe path in backup manifest'') (\<lambda>_.
               andthen (backup_check (path \<notin> set (map fst seen)) (''duplicate backup manifest path: '' @ path)) (\<lambda>_.
               expected_entries (seen @ [(path, entry)]) vs))
           | _ \<Rightarrow> Inl (BackupError ''invalid backup manifest file entry''))
      | _ \<Rightarrow> Inl (BackupError ''invalid backup manifest file entry''))"

definition load_manifest :: "backup_dir \<Rightarrow> (obj \<times> (string \<times> obj) list) result" where
  "load_manifest b =
     andthen (except_as (\<lambda>e. os_error e \<or> e = JSONDecodeError) (BackupError ''backup manifest is missing or invalid'')
       (bk_manifest b)) (\<lambda>document.
     case document of
       JObj manifest \<Rightarrow>
         (case get manifest ''files'' of
            JList files \<Rightarrow>
              andthen (backup_check (py_eq_int (get manifest ''schema_version'') 1) ''unsupported backup manifest schema'') (\<lambda>_.
              andthen (expected_entries [] files) (\<lambda>entries.
              Inr (manifest, entries)))
          | _ \<Rightarrow> Inl (BackupError ''unsupported backup manifest schema''))
     | _ \<Rightarrow> Inl AttributeError)"

text \<open>The inventory: the least name of those that differ is reported.\<close>

definition check_inventory :: "string list \<Rightarrow> string list \<Rightarrow> unit result" where
  "check_inventory expected actual =
     (let unexpected = sort (remdups (filter (\<lambda>n. n \<notin> set expected) actual));
          missing = sort (filter (\<lambda>n. n \<notin> set actual) expected)
      in andthen (backup_check (unexpected = []) (''unexpected backup file: '' @ hd unexpected)) (\<lambda>_.
         backup_check (missing = []) (''missing backup file: '' @ hd missing)))"

definition check_folder :: "int \<Rightarrow> int \<Rightarrow> string \<Rightarrow> entry \<Rightarrow> unit result" where
  "check_folder uid gid name e =
     (case e of
        Folder (mode, u, g) \<Rightarrow>
          andthen (backup_check (mode = 448) (''backup directory mode is not 0700: '' @ name)) (\<lambda>_.
          backup_check ((u, g) = (uid, gid)) (''backup directory ownership mismatch: '' @ name))
      | _ \<Rightarrow> Inl (BackupError (''unsafe backup directory: '' @ name)))"

definition check_folders :: "int \<Rightarrow> int \<Rightarrow> backup_dir \<Rightarrow> unit list result" where
  "check_folders uid gid b =
     result_list (\<lambda>(name, e). check_folder uid gid name e)
       ((''.'', Folder (bk_protection b)) # map (\<lambda>(path, e). (as_posix path, e)) (filter (is_folder \<circ> snd) (bk_entries b)))"

definition check_file :: "(string \<Rightarrow> string) \<Rightarrow> int \<Rightarrow> int \<Rightarrow> backup_dir \<Rightarrow> string \<times> obj \<Rightarrow> unit result" where
  "check_file sha256 uid gid b = (\<lambda>(name, entry).
     case entry_at b (path_parts name) of
       Regular content (mode, u, g) \<Rightarrow>
         andthen (backup_check (get entry ''sha256'' = JStr (sha256 content)) (''hash mismatch: '' @ name)) (\<lambda>_.
         andthen (backup_check (py_eq_int (get entry ''size'') (int (length content))) (''size mismatch: '' @ name)) (\<lambda>_.
         andthen (backup_check (mode = 384 \<and> py_eq_int (get entry ''mode'') 384) (''backup file mode is not 0600: '' @ name)) (\<lambda>_.
         andthen (backup_check ((u, g) = (uid, gid)) (''backup file ownership mismatch: '' @ name)) (\<lambda>_.
         backup_check (py_eq_int (get entry ''uid'') uid \<and> py_eq_int (get entry ''gid'') gid)
           (''manifest ownership mismatch: '' @ name)))))
     | _ \<Rightarrow> Inl (BackupError (''unsafe backup file: '' @ name)))"

definition verify_backup :: "(string \<Rightarrow> string) \<Rightarrow> int \<Rightarrow> int \<Rightarrow> backup_dir \<Rightarrow> obj result" where
  "verify_backup sha256 uid gid b =
     andthen (backup_check (bk_is_dir b) (''backup directory not found: '' @ bk_path b)) (\<lambda>_.
     andthen (load_manifest b) (\<lambda>(manifest, expected).
     andthen (check_inventory (map fst expected) (map as_posix (relative_files b))) (\<lambda>_.
     andthen (check_folders uid gid b) (\<lambda>_.
     andthen (result_list (check_file sha256 uid gid b) expected) (\<lambda>_.
     case bk_manifest_protection b of (mode, owner) \<Rightarrow>
       andthen (backup_check (mode = 384) ''backup manifest mode is not 0600'') (\<lambda>_.
       andthen (backup_check (owner = (uid, gid)) ''backup manifest ownership mismatch'') (\<lambda>_.
       Inr [(''ok'', JBool True), (''path'', JStr (bk_path b)), (''created_at'', get manifest ''created_at''),
            (''product_version'', get manifest ''product_version''), (''file_count'', JInt (int (length expected)))])))))))"

text \<open>\<open>verify_managed_backup\<close> translates the errors of the verification.\<close>

definition verify_managed_backup :: "(string \<Rightarrow> string) \<Rightarrow> int \<Rightarrow> int \<Rightarrow> backup_dir \<Rightarrow> obj result" where
  "verify_managed_backup sha256 uid gid b =
     (case verify_backup sha256 uid gid b of
        Inl (BackupError m) \<Rightarrow> Inl (AwgctlError (''backup verification failed: '' @ m))
      | r \<Rightarrow> r)"

section \<open>Paths\<close>

definition component_ok :: "string \<Rightarrow> bool" where
  "component_ok p \<longleftrightarrow> p \<notin> {[], ''.'', ''..''} \<and> CHR ''/'' \<notin> set p"

text \<open>The paths of a directory tree: no path twice, and no empty or dot component.\<close>

definition entries_ok :: "(string list \<times> entry) list \<Rightarrow> bool" where
  "entries_ok es \<longleftrightarrow> distinct (map fst es) \<and> list_all (\<lambda>(path, e). path \<noteq> [] \<and> list_all component_ok path) es"

lemma path_parts_as_posix:
  assumes "path \<noteq> []" and "list_all component_ok path"
  shows "path_parts (as_posix path) = path"
proof -
  have "split_on CHR ''/'' (as_posix path) = path"
    unfolding as_posix_def using assms by (intro split_on_join) (auto simp: list_all_iff component_ok_def)
  then show ?thesis using assms(2) by (simp add: path_parts_def filter_id_conv list_all_iff component_ok_def)
qed

lemma as_posix_relative:
  assumes "path \<noteq> []" and "list_all component_ok path"
  shows "\<not> starts_with ''/'' (as_posix path)"
proof -
  obtain p ps where p: "path = p # ps" using assms(1) by (cases path) auto
  then obtain c cs where "p = c # cs" "c \<noteq> CHR ''/''" using assms(2) by (cases p) (auto simp: component_ok_def)
  then show ?thesis unfolding p as_posix_def by (cases ps) auto
qed

lemma entry_at_member: "entries_ok (bk_entries b) \<Longrightarrow> (path, e) \<in> set (bk_entries b) \<Longrightarrow> entry_at b path = e"
  by (simp add: entry_at_def entries_ok_def)

lemma entries_okD:
  "entries_ok es \<Longrightarrow> (path, e) \<in> set es \<Longrightarrow> path \<noteq> [] \<and> list_all component_ok path"
  by (auto simp: entries_ok_def list_all_iff)

lemma relative_files_iff:
  "path \<in> set (relative_files b) \<longleftrightarrow> (\<exists>e. (path, e) \<in> set (bk_entries b) \<and> is_file e \<and> last path \<noteq> ''manifest.json'')"
  by (force simp: relative_files_def)

section \<open>What a verified backup is\<close>

lemma backup_check_Inr [result_simps]: "backup_check ok message = Inr x \<longleftrightarrow> ok"
  by (simp add: backup_check_def check_Inr_iff)

definition recorded :: "(string \<Rightarrow> string) \<Rightarrow> int \<Rightarrow> int \<Rightarrow> (string \<times> obj) list \<Rightarrow> string list \<Rightarrow> entry \<Rightarrow> bool" where
  "recorded sha256 uid gid expected path e \<longleftrightarrow>
     (case e of
        Regular content protection \<Rightarrow>
          last path = ''manifest.json''
          \<or> protection = (384, uid, gid)
            \<and> (\<exists>entry. (as_posix path, entry) \<in> set expected \<and> get entry ''sha256'' = JStr (sha256 content)
                 \<and> py_eq_int (get entry ''size'') (int (length content)))
      | Folder protection \<Rightarrow> protection = (448, uid, gid)
      | File_link \<Rightarrow> last path = ''manifest.json''
      | Folder_link \<Rightarrow> False
      | Odd \<Rightarrow> True)"

lemma check_file_ok:
  assumes "check_file sha256 uid gid b (name, entry) = Inr u"
  shows "\<exists>content. entry_at b (path_parts name) = Regular content (384, uid, gid) \<and> get entry ''sha256'' = JStr (sha256 content)
    \<and> py_eq_int (get entry ''size'') (int (length content))"
proof (cases "entry_at b (path_parts name)")
  case (Regular content p)
  obtain m u g where p: "p = (m, u, g)" by (metis surj_pair)
  show ?thesis using assms unfolding check_file_def prod.case Regular p entry.case
    by (elim andthenE) (auto simp: result_simps)
qed (use assms in \<open>simp_all add: check_file_def\<close>)

lemma check_inventory_ok: "check_inventory expected actual = Inr u \<longleftrightarrow> set expected = set actual"
proof -
  have nil: "sort xs = [] \<longleftrightarrow> xs = []" for xs :: "string list" by (metis set_empty set_sort)
  show ?thesis by (auto simp: check_inventory_def Let_def result_simps nil filter_empty_conv)
qed

lemma check_folders_ok:
  assumes "check_folders uid gid b = Inr us" and "(path, e) \<in> set (bk_entries b)" and "is_folder e"
  shows "e = Folder (448, uid, gid)"
proof -
  have "\<exists>u. check_folder uid gid (as_posix path) e = Inr u"
    using result_list_all [OF assms(1) [unfolded check_folders_def], of "(as_posix path, e)"] assms(2,3) by force
  then show ?thesis by (auto simp: check_folder_def result_simps split: entry.split_asm prod.split_asm)
qed

lemma verify_parts:
  assumes "verify_backup sha256 uid gid b = Inr report"
  obtains manifest expected where "load_manifest b = Inr (manifest, expected)"
    and "set (map fst expected) = set (map as_posix (relative_files b))"
    and "\<exists>us. check_folders uid gid b = Inr us" and "\<exists>us. result_list (check_file sha256 uid gid b) expected = Inr us"
    and "bk_is_dir b" and "bk_manifest_protection b = (384, uid, gid)" and "get report ''file_count'' = JInt (int (length expected))"
proof -
  obtain mode owner where p: "bk_manifest_protection b = (mode, owner)" by (metis surj_pair)
  show ?thesis using assms that unfolding verify_backup_def p prod.case
    by (elim andthenE) (auto simp: result_simps check_inventory_ok p elim!: andthenE)
qed

definition verified :: "(string \<Rightarrow> string) \<Rightarrow> int \<Rightarrow> int \<Rightarrow> backup_dir \<Rightarrow> (string \<times> obj) list \<Rightarrow> bool" where
  "verified sha256 uid gid b expected \<longleftrightarrow>
     list_all (\<lambda>(path, e). recorded sha256 uid gid expected path e) (bk_entries b)
     \<and> list_all (\<lambda>(name, entry). \<exists>path content. name = as_posix path
          \<and> (path, Regular content (384, uid, gid)) \<in> set (bk_entries b)) expected"

lemma recorded_entry:
  assumes ok: "entries_ok (bk_entries b)" and v: "verify_backup sha256 uid gid b = Inr report"
    and l: "load_manifest b = Inr (manifest, expected)" and e: "(path, e) \<in> set (bk_entries b)"
  shows "recorded sha256 uid gid expected path e"
proof -
  from v obtain us vs where names: "set (map fst expected) = set (map as_posix (relative_files b))"
    and f: "check_folders uid gid b = Inr us" and c: "result_list (check_file sha256 uid gid b) expected = Inr vs"
    by (rule verify_parts) (use l in auto)
  note path = entries_okD [OF ok e]
  have covered: "\<exists>content entry. e = Regular content (384, uid, gid) \<and> (as_posix path, entry) \<in> set expected
      \<and> get entry ''sha256'' = JStr (sha256 content) \<and> py_eq_int (get entry ''size'') (int (length content))"
    if "is_file e" "last path \<noteq> ''manifest.json''"
  proof -
    have "path \<in> set (relative_files b)" using that e by (auto simp: relative_files_iff)
    then have "as_posix path \<in> set (map fst expected)" using names by auto
    then obtain entry where m: "(as_posix path, entry) \<in> set expected" by auto
    then obtain u where "check_file sha256 uid gid b (as_posix path, entry) = Inr u"
      using result_list_all [OF c m] by auto
    from check_file_ok [OF this] m show ?thesis using path path_parts_as_posix entry_at_member [OF ok e] by auto
  qed
  show ?thesis
  proof (cases e)
    case (Regular content p)
    then show ?thesis using covered by (auto simp: recorded_def is_file_def)
  next
    case (Folder p)
    then show ?thesis using check_folders_ok [OF f e] by (simp add: recorded_def is_folder_def)
  next
    case Folder_link
    then show ?thesis using check_folders_ok [OF f e] by (simp add: is_folder_def)
  next
    case File_link
    then show ?thesis using covered by (auto simp: recorded_def is_file_def)
  qed (simp add: recorded_def)
qed

lemma verified_entries:
  assumes ok: "entries_ok (bk_entries b)" and v: "verify_backup sha256 uid gid b = Inr report"
  shows "\<exists>manifest expected. load_manifest b = Inr (manifest, expected) \<and> verified sha256 uid gid b expected
    \<and> bk_protection b = (448, uid, gid) \<and> bk_manifest_protection b = (384, uid, gid)"
proof -
  from v obtain manifest expected us vs where l: "load_manifest b = Inr (manifest, expected)"
    and names: "set (map fst expected) = set (map as_posix (relative_files b))"
    and f: "check_folders uid gid b = Inr us" and c: "result_list (check_file sha256 uid gid b) expected = Inr vs"
    and p: "bk_manifest_protection b = (384, uid, gid)"
    by (rule verify_parts) auto
  have "list_all (\<lambda>(path, e). recorded sha256 uid gid expected path e) (bk_entries b)"
    using recorded_entry [OF ok v l] by (auto simp: list_all_iff)
  moreover have "\<exists>path content. name = as_posix path \<and> (path, Regular content (384, uid, gid)) \<in> set (bk_entries b)"
    if m: "(name, entry) \<in> set expected" for name entry
  proof -
    from m have "name \<in> set (map as_posix (relative_files b))" using names by (metis fst_conv imageI list.set_map)
    then obtain path e where path: "name = as_posix path" "(path, e) \<in> set (bk_entries b)" by (auto simp: relative_files_iff)
    obtain u where "check_file sha256 uid gid b (name, entry) = Inr u" using result_list_all [OF c m] by auto
    from check_file_ok [OF this] obtain content where "entry_at b (path_parts name) = Regular content (384, uid, gid)" by blast
    with path show ?thesis using entries_okD [OF ok path(2)] path_parts_as_posix entry_at_member [OF ok path(2)] by auto
  qed
  moreover have "bk_protection b = (448, uid, gid)"
    using f by (auto simp: check_folders_def check_folder_def result_simps split: prod.split_asm)
  ultimately show ?thesis using l p by (auto simp: verified_def list_all_iff)
qed

section \<open>Creating and verifying\<close>

text \<open>What \<open>chmod_secret_tree\<close> leaves of a copy that holds no links: every entry protected.\<close>

definition protected_backup :: "int \<Rightarrow> int \<Rightarrow> backup_dir \<Rightarrow> bool" where
  "protected_backup uid gid b \<longleftrightarrow> entries_ok (bk_entries b) \<and> bk_is_dir b \<and> bk_protection b = (448, uid, gid)
     \<and> bk_manifest_protection b = (384, uid, gid)
     \<and> list_all (\<lambda>(path, e). case e of Regular content p \<Rightarrow> p = (384, uid, gid) | Folder p \<Rightarrow> p = (448, uid, gid) | _ \<Rightarrow> False) (bk_entries b)"

lemma result_list_map: "(\<And>x. x \<in> set xs \<Longrightarrow> f x = Inr (g x)) \<Longrightarrow> result_list f xs = Inr (map g xs)"
  by (induction xs) auto

definition file_entry :: "(string \<Rightarrow> string) \<Rightarrow> int \<Rightarrow> int \<Rightarrow> backup_dir \<Rightarrow> string list \<Rightarrow> obj" where
  "file_entry sha256 uid gid b path =
     (case entry_at b path of
        Regular content p \<Rightarrow>
          [(''path'', JStr (as_posix path)), (''sha256'', JStr (sha256 content)), (''size'', JInt (int (length content))),
           (''mode'', JInt 384), (''uid'', JInt uid), (''gid'', JInt gid)]
      | _ \<Rightarrow> [])"

lemma protected_file:
  assumes "protected_backup uid gid b" and "path \<in> set (relative_files b)"
  shows "\<exists>content. entry_at b path = Regular content (384, uid, gid)" "path \<noteq> []" "list_all component_ok path"
proof -
  from assms(2) obtain e where e: "(path, e) \<in> set (bk_entries b)" "is_file e" by (auto simp: relative_files_iff)
  from assms(1) have ok: "entries_ok (bk_entries b)" by (simp add: protected_backup_def)
  show "path \<noteq> []" "list_all component_ok path" using entries_okD [OF ok e(1)] by simp_all
  from assms(1) e have "\<exists>content. e = Regular content (384, uid, gid)"
    by (auto simp: protected_backup_def list_all_iff is_file_def split: entry.split_asm)
  with entry_at_member [OF ok e(1)] show "\<exists>content. entry_at b path = Regular content (384, uid, gid)" by simp
qed

lemma expected_entries_map:
  assumes "\<And>p. p \<in> set paths \<Longrightarrow> get (f p) ''path'' = JStr (as_posix p) \<and> p \<noteq> [] \<and> list_all component_ok p"
    and "distinct (map fst seen @ map as_posix paths)"
  shows "expected_entries seen (map (\<lambda>p. JObj (f p)) paths) = Inr (seen @ map (\<lambda>p. (as_posix p, f p)) paths)"
  using assms
proof (induction paths arbitrary: seen)
  case (Cons p ps)
  from Cons.prems(1) [of p] have p: "get (f p) ''path'' = JStr (as_posix p)" "p \<noteq> []" "list_all component_ok p" by simp_all
  have "''..'' \<notin> set p" using p(3) by (auto simp: list_all_iff component_ok_def)
  moreover have "as_posix p \<notin> set (map fst seen)" using Cons.prems(2) by auto
  moreover have "expected_entries (seen @ [(as_posix p, f p)]) (map (\<lambda>p. JObj (f p)) ps)
      = Inr ((seen @ [(as_posix p, f p)]) @ map (\<lambda>p. (as_posix p, f p)) ps)"
    using Cons.prems by (intro Cons.IH) auto
  ultimately show ?case using p
    by (simp add: backup_check_def as_posix_relative path_parts_as_posix)
qed simp

lemma relative_files_distinct:
  assumes "entries_ok (bk_entries b)"
  shows "distinct (map as_posix (relative_files b))"
proof -
  have "distinct (relative_files b)"
    using assms by (simp add: relative_files_def entries_ok_def distinct_map_filter)
  moreover have "inj_on as_posix (set (relative_files b))"
  proof (rule inj_onI)
    fix p q assume "p \<in> set (relative_files b)" "q \<in> set (relative_files b)" "as_posix p = as_posix q"
    then show "p = q" using entries_okD [OF assms] path_parts_as_posix unfolding relative_files_iff by metis
  qed
  ultimately show ?thesis by (simp add: distinct_map)
qed

lemma created_manifest:
  assumes "protected_backup uid gid b"
  shows "create_manifest sha256 b version created =
     Inr (JObj [(''schema_version'', JInt 1), (''created_at'', JStr created), (''product_version'', JStr version),
                (''files'', JList (map (\<lambda>p. JObj (file_entry sha256 uid gid b p)) (relative_files b)))])"
proof -
  have "manifest_entry sha256 b p = Inr (JObj (file_entry sha256 uid gid b p))" if "p \<in> set (relative_files b)" for p
    using protected_file(1) [OF assms that] by (auto simp: manifest_entry_def file_entry_def)
  then show ?thesis unfolding create_manifest_def by (simp add: result_list_map)
qed

lemma create_verify:
  assumes b: "protected_backup uid gid b" and m: "create_manifest sha256 b version created = Inr m"
  shows "\<exists>report. verify_backup sha256 uid gid (b\<lparr>bk_manifest := Inr m\<rparr>) = Inr report
    \<and> get report ''created_at'' = JStr created \<and> get report ''product_version'' = JStr version
    \<and> get report ''file_count'' = JInt (int (length (relative_files b)))"
proof -
  let ?b = "b\<lparr>bk_manifest := Inr m\<rparr>"
  let ?paths = "relative_files b" and ?entry = "file_entry sha256 uid gid b"
  let ?expected = "map (\<lambda>p. (as_posix p, ?entry p)) ?paths"
  have ok: "entries_ok (bk_entries b)" using b by (simp add: protected_backup_def)
  have same: "relative_files ?b = ?paths" "entry_at ?b = entry_at b" by (simp_all add: relative_files_def entry_at_def fun_eq_iff)
  note held = protected_file [OF b]
  have path: "get (?entry p) ''path'' = JStr (as_posix p)" if "p \<in> set ?paths" for p
    using held(1) [OF that] by (auto simp: file_entry_def)
  have e: "expected_entries [] (map (\<lambda>p. JObj (?entry p)) ?paths) = Inr ?expected"
    using expected_entries_map [of ?paths ?entry "[]"] path held relative_files_distinct [OF ok] by simp
  have l: "load_manifest ?b = Inr ([(''schema_version'', JInt 1), (''created_at'', JStr created), (''product_version'', JStr version),
      (''files'', JList (map (\<lambda>p. JObj (?entry p)) ?paths))], ?expected)"
    using m unfolding created_manifest [OF b] by (auto simp: load_manifest_def e backup_check_def)
  have i: "check_inventory (map fst ?expected) (map as_posix ?paths) = Inr ()"
    by (simp add: check_inventory_ok o_def)
  have d: "check_folder uid gid name e = Inr ()" if "(path, e) \<in> set (bk_entries b)" "is_folder e" for path name e
    using b that by (auto simp: protected_backup_def list_all_iff is_folder_def check_folder_def backup_check_def split: entry.split_asm)
  have f: "check_folders uid gid ?b = Inr (map (\<lambda>_. ())
      ((''.'', Folder (bk_protection ?b)) # map (\<lambda>(path, e). (as_posix path, e)) (filter (is_folder \<circ> snd) (bk_entries ?b))))"
    unfolding check_folders_def by (rule result_list_map)
      (use b d in \<open>auto simp: protected_backup_def check_folder_def backup_check_def\<close>)
  have c: "result_list (check_file sha256 uid gid ?b) ?expected = Inr (map (\<lambda>_. ()) ?expected)"
  proof (rule result_list_map)
    fix x assume "x \<in> set ?expected"
    then obtain p where p: "p \<in> set ?paths" "x = (as_posix p, ?entry p)" by auto
    from held(1) [OF p(1)] obtain content where content: "entry_at b p = Regular content (384, uid, gid)" by blast
    show "check_file sha256 uid gid ?b x = Inr ()"
      using held(2,3) [OF p(1)] content by (simp add: p(2) check_file_def same path_parts_as_posix file_entry_def backup_check_def)
  qed
  show ?thesis using b by (simp add: verify_backup_def l i [unfolded map_map] f c same backup_check_def protected_backup_def)
qed

text \<open>What bears the name of the manifest below the root is not looked at.\<close>

lemma nested_manifest_unseen:
  assumes "verify_backup sha256 uid gid b = Inr report"
  shows "verify_backup sha256 uid gid (b\<lparr>bk_entries := bk_entries b @ [(folder @ [''manifest.json''], Regular content p)]\<rparr>) = Inr report"
proof -
  let ?b = "b\<lparr>bk_entries := bk_entries b @ [(folder @ [''manifest.json''], Regular content p)]\<rparr>"
  from assms obtain manifest expected us vs where l: "load_manifest b = Inr (manifest, expected)"
    and f: "check_folders uid gid b = Inr us" and c: "result_list (check_file sha256 uid gid b) expected = Inr vs"
    by (rule verify_parts) auto
  have same: "relative_files ?b = relative_files b" "load_manifest ?b = load_manifest b" "check_folders uid gid ?b = check_folders uid gid b"
    by (simp_all add: relative_files_def load_manifest_def check_folders_def is_folder_def)
  have "check_file sha256 uid gid ?b x = Inr ()" if "x \<in> set expected" for x
  proof -
    obtain name entry where x: "x = (name, entry)" by (metis surj_pair)
    from result_list_all [OF c that] have "check_file sha256 uid gid b (name, entry) = Inr ()" unfolding x by auto
    moreover from check_file_ok [OF this] have "entry_at ?b (path_parts name) = entry_at b (path_parts name)"
      by (auto simp: entry_at_def map_add_def split: option.split_asm)
    ultimately show ?thesis by (simp add: x check_file_def)
  qed
  then have "result_list (check_file sha256 uid gid ?b) expected = Inr (map (\<lambda>_. ()) expected)" by (rule result_list_map)
  with assms show ?thesis
    by (auto simp: verify_backup_def same l c result_simps check_inventory_ok split: prod.splits)
qed

text \<open>A manifest that is JSON but not an object is not reported as a verification failure.\<close>

lemma manifest_not_object:
  "bk_is_dir b \<Longrightarrow> verify_managed_backup sha256 uid gid (b\<lparr>bk_manifest := Inr (JList [])\<rparr>) = Inl AttributeError"
  by (simp add: verify_managed_backup_def verify_backup_def load_manifest_def backup_check_def)

section \<open>A concrete backup\<close>

definition sample_backup :: backup_dir where
  "sample_backup =
     \<lparr>bk_path = ''/opt/amneziawg/backups/20260901T020000Z'', bk_is_dir = True, bk_protection = (448, 0, 0),
      bk_manifest = Inl FileNotFoundError, bk_manifest_protection = (384, 0, 0),
      bk_entries = [([''config''], Folder (448, 0, 0)), ([''config'', ''server.json''], Regular ''{}'' (384, 0, 0)),
        ([''manifest.json''], Regular ''{}'' (384, 0, 0)), ([''clients''], Folder (448, 0, 0))]\<rparr>"

lemma sample_protected: "protected_backup 0 0 sample_backup"
  by code_simp

definition sample_manifest :: json where
  "sample_manifest = JObj [(''schema_version'', JInt 1), (''created_at'', JStr ''now''), (''product_version'', JStr ''1.0.0''),
     (''files'', JList [JObj [(''path'', JStr ''config/server.json''), (''sha256'', JStr ''{}''), (''size'', JInt 2),
        (''mode'', JInt 384), (''uid'', JInt 0), (''gid'', JInt 0)]])]"

lemma sample_created: "create_manifest (\<lambda>s. s) sample_backup ''1.0.0'' ''now'' = Inr sample_manifest"
  by code_simp

lemma sample_verified: "\<exists>report. verify_backup (\<lambda>s. s) 0 0 (sample_backup\<lparr>bk_manifest := Inr sample_manifest\<rparr>) = Inr report"
  using create_verify [OF sample_protected sample_created] by blast

text \<open>
  C25: A backup that verifies is the one its manifest tells of. Every regular file below it, the manifests
  apart, has mode 0600 and the expected owner, and an entry of the manifest under its path with its digest
  and its size; every directory, the root included, has mode 0700 and the expected owner; there is no link to a
  directory, and none to a file but under the name of a manifest; and every entry of the manifest names such a file.
\<close>

theorem verify_backup_sound:
  assumes "entries_ok (bk_entries b)" and "verify_backup sha256 uid gid b = Inr report"
  shows "\<exists>manifest expected. load_manifest b = Inr (manifest, expected) \<and> verified sha256 uid gid b expected
    \<and> bk_protection b = (448, uid, gid) \<and> bk_manifest_protection b = (384, uid, gid)"
  using assms by (rule verified_entries)

theorem verify_backup_sound_witness:
  "\<exists>manifest expected. load_manifest (sample_backup\<lparr>bk_manifest := Inr sample_manifest\<rparr>) = Inr (manifest, expected)
    \<and> verified (\<lambda>s. s) 0 0 (sample_backup\<lparr>bk_manifest := Inr sample_manifest\<rparr>) expected
    \<and> bk_protection sample_backup = (448, 0, 0) \<and> bk_manifest_protection sample_backup = (384, 0, 0)"
proof -
  let ?b = "sample_backup\<lparr>bk_manifest := Inr sample_manifest\<rparr>"
  have ok: "entries_ok (bk_entries ?b)" using sample_protected by (simp add: protected_backup_def)
  from sample_verified obtain report where r: "verify_backup (\<lambda>s. s) 0 0 ?b = Inr report" by blast
  show ?thesis using verify_backup_sound [OF ok r] by simp
qed

text \<open>
  C26: A backup verifies as it was made. When every entry of a copied tree is protected, its manifest can be
  written, and the backup with that manifest is accepted, with the time and the version it was made with and
  the number of its files.
\<close>

theorem create_manifest_verifies:
  assumes "protected_backup uid gid b"
  shows "\<exists>m report. create_manifest sha256 b version created = Inr m
    \<and> verify_backup sha256 uid gid (b\<lparr>bk_manifest := Inr m\<rparr>) = Inr report
    \<and> get report ''created_at'' = JStr created \<and> get report ''product_version'' = JStr version
    \<and> get report ''file_count'' = JInt (int (length (relative_files b)))"
  using created_manifest [OF assms] create_verify [OF assms] by blast

theorem create_manifest_verifies_witness:
  "\<exists>m report. create_manifest (\<lambda>s. s) sample_backup ''1.0.0'' ''now'' = Inr m
    \<and> verify_backup (\<lambda>s. s) 0 0 (sample_backup\<lparr>bk_manifest := Inr m\<rparr>) = Inr report
    \<and> get report ''created_at'' = JStr ''now'' \<and> get report ''product_version'' = JStr ''1.0.0''
    \<and> get report ''file_count'' = JInt (int (length (relative_files sample_backup)))"
  by (rule create_manifest_verifies [OF sample_protected])

end
