(* ===== verification/Staging.thy ===== *)
theory Staging
  imports ClientStore Endings
begin

text \<open>
  Backups that are restored (\<^verbatim>\<open>validate_restore_stage\<close> and \<^verbatim>\<open>_validate_restore_clients\<close> of
  \<^verbatim>\<open>src/awgctl/core.py\<close>): the five components of the managed state, and the checks of the copy of a
  backup. Ownership, modes, sizes and links of the copied files are not modelled, nor are files of other
  names than the managed ones inside of a component.
\<close>

section \<open>The directories\<close>

text \<open>
  The components of the managed state, as directories: the server configuration; the keys of the server,
  the header-protection key and the keys of the clients; the client directories; the archive; the
  generated server file and rule set.
\<close>

datatype tree =
    Config_tree "json result"
  | Keys_tree "string result" "string result" "string result" "(string \<times> key_dir) list"
  | Clients_tree "(string \<times> client_dir) list"
  | Revoked_tree "(string \<times> client_dir option \<times> key_dir option) list"
  | Generated_tree "string result" "string result"

type_synonym trees = "string \<rightharpoonup> tree"

definition restore_components :: "string list" where
  "restore_components = [''config'', ''keys'', ''clients'', ''revoked'', ''generated'']"

definition empty_tree :: "string \<Rightarrow> tree" where
  "empty_tree name =
     (if name = ''config'' then Config_tree (Inl FileNotFoundError)
      else if name = ''keys'' then Keys_tree (Inl FileNotFoundError) (Inl FileNotFoundError) (Inl FileNotFoundError) []
      else if name = ''clients'' then Clients_tree []
      else if name = ''revoked'' then Revoked_tree []
      else Generated_tree (Inl FileNotFoundError) (Inl FileNotFoundError))"

definition config_file :: "trees \<Rightarrow> json result" where
  "config_file t = (case t ''config'' of Some (Config_tree c) \<Rightarrow> c | _ \<Rightarrow> Inl FileNotFoundError)"

definition key_files_of :: "trees \<Rightarrow> string result \<times> string result \<times> string result \<times> (string \<times> key_dir) list" where
  "key_files_of t =
     (case t ''keys'' of
        Some (Keys_tree private public header clients) \<Rightarrow> (private, public, header, clients)
      | _ \<Rightarrow> (Inl FileNotFoundError, Inl FileNotFoundError, Inl FileNotFoundError, []))"

definition client_dirs :: "trees \<Rightarrow> (string \<times> client_dir) list" where
  "client_dirs t = (case t ''clients'' of Some (Clients_tree cs) \<Rightarrow> cs | _ \<Rightarrow> [])"

definition generated_files :: "trees \<Rightarrow> string result \<times> string result" where
  "generated_files t =
     (case t ''generated'' of Some (Generated_tree server nft) \<Rightarrow> (server, nft)
      | _ \<Rightarrow> (Inl FileNotFoundError, Inl FileNotFoundError))"

text \<open>
  The state, with the variables of the transaction that its handler reads: the components moved away and
  moved in, and whether the service was active.
\<close>

record 'h vault =
  vt_root :: trees
  vt_stage :: trees
  vt_rollback :: trees
  vt_runtime :: "string option"
  vt_backups :: "trees list"
  vt_moved_old :: "string list"
  vt_moved_new :: "string list"
  vt_active :: bool
  vt_host :: 'h

record 'h restore_desk =
  rd_desk :: "'h desk"
  rd_validate_nft :: "string \<Rightarrow> 'h \<Rightarrow> unit result \<times> 'h"
  rd_live_key :: "string \<Rightarrow> 'h \<Rightarrow> string result \<times> 'h"

definition inquire :: "('h \<Rightarrow> 'a result \<times> 'h) \<Rightarrow> ('h vault, 'a) eff" where
  "inquire f c = (case c of (b, s) \<Rightarrow>
     (case f (vt_host s) of
        (Inl e, h) \<Rightarrow> (Raised e, (b, s\<lparr>vt_host := h\<rparr>))
      | (Inr x, h) \<Rightarrow> (Done x, (b, s\<lparr>vt_host := h\<rparr>))))"

section \<open>Validation of a stage\<close>

definition restore_text :: "string \<Rightarrow> string result \<Rightarrow> string result" where
  "restore_text label content =
     except_as os_error (AwgctlError (''cannot read backup '' @ label))
       (except_as ((=) UnicodeError) (AwgctlError (''backup '' @ label @ '' is not valid UTF-8'')) content)"

definition present :: "'a result \<Rightarrow> bool" where
  "present r = (case r of Inl e \<Rightarrow> e \<noteq> FileNotFoundError | Inr x \<Rightarrow> True)"

definition client_inventory :: "string \<Rightarrow> client_dir \<Rightarrow> string list" where
  "client_inventory name d =
     (if present (cd_metadata d) then [''metadata.json''] else [])
     @ (if cd_profile d \<noteq> None then [name @ ''.conf''] else [])
     @ (if cd_image d \<noteq> None then [name @ ''.png''] else [])"

definition key_inventory :: "key_dir \<Rightarrow> string list" where
  "key_inventory k =
     (if present (kd_public k) then [''public''] else [])
     @ (if present (kd_private k) then [''private''] else [])
     @ (if present (kd_psk k) then [''psk''] else [])"

definition restore_key :: "string \<Rightarrow> string \<Rightarrow> string result \<Rightarrow> string result" where
  "restore_key label what content =
     andthen (restore_text label content) (\<lambda>v. validate_key (JStr (strip v)) what)"

definition restore_metadata :: "string \<Rightarrow> client_dir \<Rightarrow> obj result" where
  "restore_metadata name d =
     except_as (\<lambda>e. e = JSONDecodeError \<or> (\<exists>m. e = ContractError m))
       (AwgctlError (''invalid backup client metadata: '' @ name))
       (andthen (except_as os_error (AwgctlError (''cannot read backup client metadata: '' @ name))
          (except_as ((=) UnicodeError) (AwgctlError (''backup client metadata: '' @ name @ '' is not valid UTF-8''))
             (cd_metadata d))) normalize_client_metadata)"

text \<open>The metadata checks, the file inventories and the public key; then the keys and the profile.\<close>

definition restore_identity ::
  "string \<Rightarrow> client_dir \<Rightarrow> key_dir \<Rightarrow> (obj \<times> string \<times> string \<times> string option) result" where
  "restore_identity name d k =
     andthen (validate_client_name (JStr name)) (\<lambda>_.
     andthen (restore_metadata name d) (\<lambda>m.
     andthen (if get m ''name'' \<noteq> JStr name then Inr False else in_strs (get m ''status'') [''active'', ''expired'']) (\<lambda>known.
     andthen (check known (AwgctlError (''invalid backup client metadata identity: '' @ name))) (\<lambda>_.
     andthen (validate_key (case map_of m ''public_key'' of None \<Rightarrow> JStr [] | Some v \<Rightarrow> v) ''backup client public key'') (\<lambda>public.
     andthen (except_as key_or_value_error (AwgctlError (''invalid backup client address: '' @ name)) (client_address m)) (\<lambda>(address, i).
     andthen (check (host_route i) (AwgctlError (''invalid backup client address: '' @ name))) (\<lambda>_.
     let managed = (get m ''management'' = JStr ''managed'');
         client_files = ''metadata.json'' # (if managed then [name @ ''.conf'', name @ ''.png''] else []);
         key_files = ''public'' # (if managed then [''private''] else []) @ (if truthy (get m ''use_psk'') then [''psk''] else [])
     in andthen (check (set (client_inventory name d) = set client_files \<and> set (key_inventory k) = set key_files)
          (AwgctlError (''backup client artifact inventory differs from metadata: '' @ name))) (\<lambda>_.
        andthen (restore_key (''client public key: '' @ name) ''backup client public key'' (kd_public k)) (\<lambda>public_file.
        andthen (check (public_file = public) (AwgctlError (''backup client public key metadata drift: '' @ name))) (\<lambda>_.
        andthen (if truthy (get m ''use_psk'')
          then andthen (restore_key (''client preshared key: '' @ name) ''backup client preshared key'' (kd_psk k)) (\<lambda>p. Inr (Some p))
          else Inr None) (\<lambda>psk.
        Inr (m, public, interface_text address i, psk))))))))))))"

definition restored_client :: "obj \<Rightarrow> string \<Rightarrow> string \<Rightarrow> string option \<Rightarrow> string option \<Rightarrow> loaded_client" where
  "restored_client m name public psk private =
     \<lparr>ld_client = \<lparr>cl_name = name, cl_public_key = public, cl_address = the (as_str (get m ''address'')),
        cl_status = the (as_str (get m ''status'')), cl_expires = as_str (get m ''expires''), cl_psk = psk\<rparr>,
      ld_management = the (as_str (get m ''management'')), ld_private_key = private, ld_metadata = m\<rparr>"

definition restore_client ::
  "'h desk \<Rightarrow> server_config \<Rightarrow> string \<Rightarrow> string option \<Rightarrow> string \<Rightarrow> client_dir \<Rightarrow> key_dir \<Rightarrow> ('h vault, loaded_client) eff" where
  "restore_client dk config server_public header_key name d k =
     bindE (lift (restore_identity name d k)) (\<lambda>(m, public, address, psk).
     if get m ''management'' = JStr ''managed''
     then bindE (lift (restore_key (''client private key: '' @ name) ''backup client private key'' (kd_private k))) (\<lambda>private.
          bindE (inquire (dk_pubkey dk private)) (\<lambda>derived.
          bindE (ensure (strip derived = public) (''backup client keypair does not match: '' @ name)) (\<lambda>_.
          bindE (lift (or_raise (cd_profile d) (AwgctlError (''cannot read backup client profile: '' @ name)))) (\<lambda>profile.
          bindE (lift (render_client_config (config_obj config) private psk server_public address header_key)) (\<lambda>expected.
          bindE (ensure (profile = expected) (''backup client profile differs from managed state: '' @ name)) (\<lambda>_.
          ret (restored_client m name public psk (Some private))))))))
     else ret (restored_client m name public psk None))"

fun each_client :: "('a \<Rightarrow> ('s, 'b) eff) \<Rightarrow> 'a list \<Rightarrow> ('s, 'b list) eff" where
  "each_client f [] = ret []"
| "each_client f (x # xs) = bindE (f x) (\<lambda>y. bindE (each_client f xs) (\<lambda>ys. ret (y # ys)))"

definition validate_restore_clients ::
  "'h desk \<Rightarrow> trees \<Rightarrow> server_config \<Rightarrow> string \<Rightarrow> string option \<Rightarrow> ('h vault, loaded_client list) eff" where
  "validate_restore_clients dk t config server_public header_key =
     (let clients = client_dirs t; keys = snd (snd (snd (key_files_of t)))
      in bindE (ensure (t ''clients'' \<noteq> None \<and> t ''keys'' \<noteq> None) ''backup client artifact directory is missing or unsafe'') (\<lambda>_.
         bindE (ensure (set (map fst clients) = set (map fst keys)) ''backup client metadata and key inventories differ'') (\<lambda>_.
         bindE (each_client (\<lambda>name. restore_client dk config server_public header_key name
              (the (map_of clients name)) (the (map_of keys name))) (sort (remdups (map fst clients)))) (\<lambda>records.
         bindE (ensure (find_duplicate_client_state (map ld_client records) = [])
           ''backup contains duplicate client identity or address'') (\<lambda>_.
         ret records)))))"

definition complete_signature :: "sections \<Rightarrow> directives \<times> directives list" where
  "complete_signature v = (sort (hd (occurrences v ''Interface'')), sort (map sort (occurrences v ''Peer'')))"

text \<open>The generated server file must hold the managed directives and no others.\<close>

definition check_sections :: "sections \<Rightarrow> string \<Rightarrow> unit result" where
  "check_sections parsed server_private =
     andthen (check (set (map fst parsed) \<subseteq> {''Interface'', ''Peer''})
       (AwgctlError ''backup generated configuration has unsupported sections'')) (\<lambda>_.
     let interfaces = occurrences parsed ''Interface''
     in check (length interfaces = 1 \<and> map_of (hd interfaces) ''PrivateKey'' = Some server_private)
          (AwgctlError ''backup generated configuration does not use the backed-up server key''))"

definition check_directives :: "sections \<Rightarrow> directives \<Rightarrow> unit result" where
  "check_directives parsed expected =
     (let interface = hd (occurrences parsed ''Interface'')
      in andthen (check (set (map fst interface) \<subseteq> {''Address'', ''ListenPort'', ''PrivateKey'', ''MTU'', ''PostUp'', ''PostDown''}
              \<union> set (map fst expected)
            \<and> list_all (\<lambda>peer. set (map fst peer) \<subseteq> {''PublicKey'', ''PresharedKey'', ''AllowedIPs''}) (occurrences parsed ''Peer''))
          (AwgctlError ''backup generated configuration has unsupported directives'')) (\<lambda>_.
         check (list_all (\<lambda>(f, v). map_of interface f = Some v) expected)
           (AwgctlError ''backup generated configuration header-protection or obfuscation differs from managed state'')))"

definition read_stage :: "trees \<Rightarrow> (json \<times> string \<times> string \<times> string \<times> string) result" where
  "read_stage t =
     except_as (\<lambda>e. os_error e \<or> e = UnicodeError \<or> e = JSONDecodeError) (AwgctlError ''backup is missing required managed state'')
       (andthen (config_file t) (\<lambda>config.
        andthen (fst (key_files_of t)) (\<lambda>private.
        andthen (fst (snd (key_files_of t))) (\<lambda>public.
        andthen (fst (generated_files t)) (\<lambda>server.
        andthen (snd (generated_files t)) (\<lambda>nft.
        Inr (config, strip private, strip public, server, nft)))))))"

definition staged_header_key :: "trees \<Rightarrow> server_config \<Rightarrow> string option result" where
  "staged_header_key t config =
     (case cfg_obfuscation config of
        Classic p \<Rightarrow> Inr None
      | Awg31 p \<Rightarrow> andthen (fst (snd (snd (key_files_of t)))) (\<lambda>k. Inr (Some k)))"

text \<open>The instant at which clients are judged is given, or read from the clock.\<close>

definition validate_restore_stage :: "'h restore_desk \<Rightarrow> int option \<Rightarrow> trees \<Rightarrow> ('h vault, server_config) eff" where
  "validate_restore_stage rd given t =
     bindE (lift (read_stage t)) (\<lambda>(document, server_private, server_public, generated_server, generated_nft).
     bindE (lift (normalize_server_config document)) (\<lambda>config.
     bindE (case given of Some now \<Rightarrow> ret now
       | None \<Rightarrow> inquire (\<lambda>h. case dk_clock (rd_desk rd) h of (now, h') \<Rightarrow> (Inr now, h'))) (\<lambda>now.
     bindE (lift (validate_key (JStr server_private) ''server private key'')) (\<lambda>_.
     bindE (lift (validate_key (JStr server_public) ''server public key'')) (\<lambda>_.
     bindE (inquire (dk_pubkey (rd_desk rd) server_private)) (\<lambda>derived.
     bindE (ensure (strip derived = server_public) ''backup server keypair does not match'') (\<lambda>_.
     bindE (lift (parse_awg_config generated_server)) (\<lambda>parsed.
     bindE (lift (check_sections parsed server_private)) (\<lambda>_.
     bindE (lift (staged_header_key t config)) (\<lambda>header_key.
     bindE (lift (effective_obfuscation (config_obj config) header_key)) (\<lambda>native.
     bindE (lift (check_directives parsed native)) (\<lambda>_.
     bindE (validate_restore_clients (rd_desk rd) t config server_public header_key) (\<lambda>clients.
     bindE (lift (render_server_config (config_obj config) server_private (map ld_client clients) now header_key)) (\<lambda>expected.
     bindE (lift (parse_awg_config expected)) (\<lambda>expected_parsed.
     bindE (ensure (complete_signature parsed = complete_signature expected_parsed)
       ''backup generated server differs from managed client and interface state'') (\<lambda>_.
     bindE (inquire (dk_validate (rd_desk rd) generated_server)) (\<lambda>_.
     bindE (inquire (rd_validate_nft rd generated_nft)) (\<lambda>_.
     ret config))))))))))))))))))"

section \<open>What a validated stage holds\<close>

text \<open>
  The record of a client agrees with the files of its directories: its name, address, status, expiry and
  public key are those of the metadata, its pre-shared key is that of the key file when the metadata asks
  for one, the public key file holds the same key, and of a managed client the private key is that of its
  file and the profile is the text the configuration renders to for this address.
\<close>

definition backed_client :: "trees \<Rightarrow> server_config \<Rightarrow> string \<Rightarrow> string option \<Rightarrow> loaded_client \<Rightarrow> bool" where
  "backed_client t config server_public header_key r \<longleftrightarrow>
     (case (map_of (client_dirs t) (cl_name (ld_client r)), map_of (snd (snd (snd (key_files_of t)))) (cl_name (ld_client r))) of
        (Some d, Some k) \<Rightarrow>
          andthen (cd_metadata d) normalize_client_metadata = Inr (ld_metadata r)
          \<and> get (ld_metadata r) ''name'' = JStr (cl_name (ld_client r))
          \<and> get (ld_metadata r) ''public_key'' = JStr (cl_public_key (ld_client r))
          \<and> get (ld_metadata r) ''status'' = JStr (cl_status (ld_client r))
          \<and> get (ld_metadata r) ''address'' = JStr (cl_address (ld_client r))
          \<and> get (ld_metadata r) ''expires'' = (case cl_expires (ld_client r) of None \<Rightarrow> JNull | Some e \<Rightarrow> JStr e)
          \<and> map_sum id strip (kd_public k) = Inr (cl_public_key (ld_client r))
          \<and> (if truthy (get (ld_metadata r) ''use_psk'')
             then \<exists>psk. cl_psk (ld_client r) = Some psk \<and> map_sum id strip (kd_psk k) = Inr psk
             else cl_psk (ld_client r) = None)
          \<and> (\<exists>i. ip_interface (cl_address (ld_client r)) = Some i \<and> host_route i
               \<and> (case ld_private_key r of
                    None \<Rightarrow> get (ld_metadata r) ''management'' \<noteq> JStr ''managed''
                  | Some private \<Rightarrow> get (ld_metadata r) ''management'' = JStr ''managed''
                      \<and> map_sum id strip (kd_private k) = Inr private
                      \<and> (\<exists>profile. cd_profile d = Some profile
                           \<and> render_client_config (config_obj config) private (cl_psk (ld_client r)) server_public
                               (interface_text (cl_address (ld_client r)) i) header_key = Inr profile)))
      | _ \<Rightarrow> False)"

lemma restore_key_Inr:
  "restore_key label what content = Inr k \<longleftrightarrow> map_sum id strip content = Inr k \<and> key_text_ok k"
  by (cases content) (auto simp: restore_key_def restore_text_def result_simps validate_key_Inr)

lemma restore_metadata_Inr:
  "restore_metadata name d = Inr m \<longleftrightarrow> andthen (cd_metadata d) normalize_client_metadata = Inr m"
  by (simp add: restore_metadata_def result_simps)

lemma public_key_given:
  "validate_key (case map_of m ''public_key'' of None \<Rightarrow> JStr [] | Some v \<Rightarrow> v) l = Inr p \<Longrightarrow> get m ''public_key'' = JStr p"
  by (auto simp: validate_key_Inr get_def key_text_ok_def split: option.splits)

lemma in_strs_given: "in_strs v xs = Inr True \<Longrightarrow> \<exists>s. v = JStr s"
  by (auto simp: in_strs_def split: if_splits)

lemma client_address_given:
  "client_address m = Inr (a, i) \<longleftrightarrow> get m ''address'' = JStr a \<and> ip_interface a = Some i"
  by (auto simp: client_address_def item_def get_def result_simps split: option.splits json.splits)

lemma expires_given:
  assumes "andthen r normalize_client_metadata = Inr m"
  shows "get m ''expires'' = (case as_str (get m ''expires'') of None \<Rightarrow> JNull | Some e \<Rightarrow> JStr e)"
proof -
  from assms obtain v where "normalize_client_metadata v = Inr m" by (elim andthenE)
  from normalize_ok(1) [OF this] show ?thesis
    by (auto simp: metadata_ok_def expiry_field_def check_expires_def split: json.splits)
qed

lemma restore_identity_ok:
  assumes "restore_identity name d k = Inr (m, public, address, psk)"
  shows "andthen (cd_metadata d) normalize_client_metadata = Inr m \<and> get m ''name'' = JStr name
    \<and> get m ''public_key'' = JStr public \<and> (\<exists>s. get m ''status'' = JStr s)
    \<and> map_sum id strip (kd_public k) = Inr public
    \<and> (if truthy (get m ''use_psk'') then \<exists>p. psk = Some p \<and> map_sum id strip (kd_psk k) = Inr p else psk = None)
    \<and> (\<exists>a i. get m ''address'' = JStr a \<and> ip_interface a = Some i \<and> host_route i \<and> address = interface_text a i)"
proof -
  obtain known p a i where
    m: "restore_metadata name d = Inr m" and
    n: "(if get m ''name'' \<noteq> JStr name then Inr False else in_strs (get m ''status'') [''active'', ''expired'']) = Inr known" "known" and
    k: "validate_key (case map_of m ''public_key'' of None \<Rightarrow> JStr [] | Some v \<Rightarrow> v) ''backup client public key'' = Inr public" and
    a: "client_address m = Inr (a, i)" "host_route i" "address = interface_text a i" and
    f: "restore_key (''client public key: '' @ name) ''backup client public key'' (kd_public k) = Inr p" "p = public" and
    s: "(if truthy (get m ''use_psk'')
          then andthen (restore_key (''client preshared key: '' @ name) ''backup client preshared key'' (kd_psk k)) (\<lambda>p. Inr (Some p))
          else Inr None) = Inr psk"
    using assms unfolding restore_identity_def Let_def
    by (elim andthenE) (auto simp only: check_Inr_iff except_as_Inr_iff prod.case sum.inject prod.inject split: prod.splits elim!: andthenE)
  from n have "get m ''name'' = JStr name" "in_strs (get m ''status'') [''active'', ''expired''] = Inr True"
    by (auto split: if_splits)
  moreover from s have "if truthy (get m ''use_psk'') then \<exists>p. psk = Some p \<and> map_sum id strip (kd_psk k) = Inr p else psk = None"
    by (auto simp: restore_key_Inr split: if_splits elim!: andthenE)
  ultimately show ?thesis using m k f a
    by (auto simp: restore_metadata_Inr restore_key_Inr client_address_given dest: public_key_given in_strs_given)
qed

text \<open>What a computation that returns has gone through.\<close>

lemma bind_DoneE:
  assumes "bindE m f c = (Done y, c')"
  obtains x c1 where "m c = (Done x, c1)" and "f x c1 = (Done y, c')"
  using assms by (auto simp: bindE_def split: prod.splits run.splits)

lemma lift_Done: "lift r c = (Done x, c') \<longleftrightarrow> r = Inr x \<and> c' = c"
  by (cases r) (auto simp: lift_def ret_def raise_def)

lemma ensure_Done: "ensure b message c = (Done x, c') \<longleftrightarrow> b \<and> c' = c"
  by (auto simp: ensure_def lift_Done check_Inr_iff)

lemma ret_Done: "ret x c = (Done y, c') \<longleftrightarrow> y = x \<and> c' = c"
  by (auto simp: ret_def)

lemma restore_client_backed:
  assumes r: "restore_client dk config server_public header_key name d k c = (Done r, c')"
    and d: "map_of (client_dirs t) name = Some d" and k: "map_of (snd (snd (snd (key_files_of t)))) name = Some k"
  shows "cl_name (ld_client r) = name \<and> backed_client t config server_public header_key r"
proof -
  obtain m public address psk where i: "restore_identity name d k = Inr (m, public, address, psk)"
    using r unfolding restore_client_def by (auto elim!: bind_DoneE simp: lift_Done)
  from restore_identity_ok [OF i] have o: "andthen (cd_metadata d) normalize_client_metadata = Inr m" "get m ''name'' = JStr name"
    "get m ''public_key'' = JStr public" "\<exists>s. get m ''status'' = JStr s" "map_sum id strip (kd_public k) = Inr public"
    "if truthy (get m ''use_psk'') then \<exists>p. psk = Some p \<and> map_sum id strip (kd_psk k) = Inr p else psk = None"
    by simp_all
  from restore_identity_ok [OF i] obtain a j where a: "get m ''address'' = JStr a" "ip_interface a = Some j" "host_route j"
    "address = interface_text a j" by blast
  note x = expires_given [OF o(1)]
  show ?thesis
  proof (cases "get m ''management'' = JStr ''managed''")
    case True
    obtain secret profile where p: "restore_key (''client private key: '' @ name) ''backup client private key'' (kd_private k) = Inr secret"
      and f: "cd_profile d = Some profile"
      and e: "render_client_config (config_obj config) secret psk server_public address header_key = Inr profile"
      and q: "r = restored_client m name public psk (Some secret)"
      using r True unfolding restore_client_def i
      by (auto elim!: bind_DoneE simp: lift_Done ensure_Done ret_Done or_raise_Inr_iff)
    show ?thesis using o x a p f e True unfolding q
      by (auto simp: backed_client_def d k restored_client_def restore_key_Inr)
  next
    case False
    have q: "r = restored_client m name public psk None"
      using r False unfolding restore_client_def i by (auto elim!: bind_DoneE simp: lift_Done ret_Done)
    show ?thesis using o x a False unfolding q
      by (auto simp: backed_client_def d k restored_client_def)
  qed
qed

lemma each_client_Done:
  "each_client f xs c = (Done ys, c') \<Longrightarrow> list_all2 (\<lambda>x y. \<exists>c. fst (f x c) = Done y) xs ys"
proof (induction xs arbitrary: c c' ys)
  case Nil
  then show ?case by (simp add: ret_Done)
next
  case (Cons x xs)
  from Cons.prems obtain y c1 zs c2 where y: "f x c = (Done y, c1)" and zs: "each_client f xs c1 = (Done zs, c2)"
    and ys: "ys = y # zs"
    unfolding each_client.simps by (elim bind_DoneE) (simp only: ret_Done)
  from y have "\<exists>c. fst (f x c) = Done y" by (intro exI [of _ c]) simp
  with Cons.IH [OF zs] ys show ?case by simp
qed

lemma validate_restore_clients_backed:
  assumes "validate_restore_clients dk t config server_public header_key c = (Done records, c')"
  shows "list_all (backed_client t config server_public header_key) records
    \<and> map (\<lambda>r. cl_name (ld_client r)) records = sort (remdups (map fst (client_dirs t)))
    \<and> distinct (map (\<lambda>r. cl_address (ld_client r)) records) \<and> distinct (map (\<lambda>r. cl_public_key (ld_client r)) records)"
proof -
  let ?names = "sort (remdups (map fst (client_dirs t)))"
  let ?keys = "snd (snd (snd (key_files_of t)))"
  obtain c1 c2 where n: "set (map fst (client_dirs t)) = set (map fst ?keys)"
    and e: "each_client (\<lambda>name. restore_client dk config server_public header_key name
              (the (map_of (client_dirs t) name)) (the (map_of ?keys name))) ?names c1 = (Done records, c2)"
    and u: "find_duplicate_client_state (map ld_client records) = []"
    using assms unfolding validate_restore_clients_def Let_def
    by (auto elim!: bind_DoneE simp: ensure_Done ret_Done)
  have "cl_name (ld_client r) = name \<and> backed_client t config server_public header_key r"
    if "name \<in> set ?names" and r: "fst (restore_client dk config server_public header_key name
              (the (map_of (client_dirs t) name)) (the (map_of ?keys name)) a) = Done r" for name r a
  proof -
    from that n have "name \<in> set (map fst (client_dirs t))" "name \<in> set (map fst ?keys)" by auto
    then obtain d k where "map_of (client_dirs t) name = Some d" "map_of ?keys name = Some k"
      by (metis map_of_eq_None_iff not_None_eq set_map)
    with restore_client_backed [of dk config server_public header_key name] r show ?thesis
      by (metis option.sel prod.collapse)
  qed
  then have l: "list_all2 (\<lambda>name r. cl_name (ld_client r) = name \<and> backed_client t config server_public header_key r) ?names records"
    by (intro list.rel_mono_strong [OF each_client_Done [OF e]]) blast
  then have "list_all (backed_client t config server_public header_key) records"
    by (auto simp: list_all2_conv_all_nth list_all_length)
  moreover from l have "map (\<lambda>r. cl_name (ld_client r)) records = ?names"
    by (auto simp: list_all2_conv_all_nth intro!: nth_equalityI)
  ultimately show ?thesis using u by (auto simp: find_duplicate_none o_def)
qed

lemma signature_mset:
  assumes "complete_signature v = complete_signature w"
  shows "mset (hd (occurrences v ''Interface'')) = mset (hd (occurrences w ''Interface''))"
    and "image_mset mset (mset (occurrences v ''Peer'')) = image_mset mset (mset (occurrences w ''Peer''))"
proof -
  have "sort (hd (occurrences v ''Interface'')) = sort (hd (occurrences w ''Interface''))"
    using assms by (simp add: complete_signature_def)
  then show "mset (hd (occurrences v ''Interface'')) = mset (hd (occurrences w ''Interface''))" by (metis mset_sort)
  have "sort (map sort (occurrences v ''Peer'')) = sort (map sort (occurrences w ''Peer''))"
    using assms by (simp add: complete_signature_def)
  then have "mset (map sort (occurrences v ''Peer'')) = mset (map sort (occurrences w ''Peer''))" by (metis mset_sort)
  then have "image_mset mset (mset (map sort (occurrences v ''Peer''))) = image_mset mset (mset (map sort (occurrences w ''Peer'')))"
    by simp
  then show "image_mset mset (mset (occurrences v ''Peer'')) = image_mset mset (mset (occurrences w ''Peer''))"
    by (simp add: image_mset.compositionality o_def)
qed

text \<open>The clients and the keys of a validated stage, and the server file they render to.\<close>

definition stage_of ::
  "trees \<Rightarrow> server_config \<Rightarrow> int \<Rightarrow> string \<Rightarrow> string \<Rightarrow> string option \<Rightarrow> loaded_client list \<Rightarrow> sections \<Rightarrow> directives \<Rightarrow> bool" where
  "stage_of t config now server_private server_public header_key records parsed native \<longleftrightarrow>
     andthen (config_file t) normalize_server_config = Inr config
     \<and> map_sum id strip (fst (key_files_of t)) = Inr server_private
     \<and> map_sum id strip (fst (snd (key_files_of t))) = Inr server_public
     \<and> andthen (fst (generated_files t)) parse_awg_config = Inr parsed
     \<and> staged_header_key t config = Inr header_key
     \<and> obfuscation_directives (cfg_obfuscation config) header_key = Inr native
     \<and> list_all (backed_client t config server_public header_key) records
     \<and> map (\<lambda>r. cl_name (ld_client r)) records = sort (remdups (map fst (client_dirs t)))
     \<and> distinct (map (\<lambda>r. cl_address (ld_client r)) records) \<and> distinct (map (\<lambda>r. cl_public_key (ld_client r)) records)
     \<and> mset (hd (occurrences parsed ''Interface'')) = mset (interface_directives config server_private native)
     \<and> image_mset mset (mset (occurrences parsed ''Peer''))
       = image_mset mset (mset (map (peer_directives config) (filter (eligible now) (map ld_client records))))"

definition valid_stage :: "trees \<Rightarrow> bool" where
  "valid_stage t \<longleftrightarrow> (\<exists>config now server_private server_public header_key records parsed native.
     stage_of t config now server_private server_public header_key records parsed native)"

lemma read_stage_Inr:
  "read_stage t = Inr (document, server_private, server_public, server, nft) \<Longrightarrow>
     config_file t = Inr document \<and> map_sum id strip (fst (key_files_of t)) = Inr server_private
     \<and> map_sum id strip (fst (snd (key_files_of t))) = Inr server_public \<and> fst (generated_files t) = Inr server"
  unfolding read_stage_def by (auto simp: except_as_Inr_iff elim!: andthenE)

lemma two_kinds_occurrences:
  "occurrences (two_kinds ''Interface'' ds ''Peer'' ps) ''Interface'' = [ds]"
  "occurrences (two_kinds ''Interface'' ds ''Peer'' ps) ''Peer'' = ps"
  by (simp_all add: two_kinds_def occurrences_def)

text \<open>The instant a stage is judged at: the given one, or the clock of the host the command starts on.\<close>

definition judged_at :: "'h restore_desk \<Rightarrow> int option \<Rightarrow> 'h vault \<Rightarrow> int" where
  "judged_at rd given s = (case given of Some now \<Rightarrow> now | None \<Rightarrow> fst (dk_clock (rd_desk rd) (vt_host s)))"

lemma judged_Done:
  "(case given of Some now \<Rightarrow> ret now
     | None \<Rightarrow> inquire (\<lambda>h. case dk_clock (rd_desk rd) h of (now, h') \<Rightarrow> (Inr now, h'))) c = (Done now, c')
   \<Longrightarrow> now = judged_at rd given (snd c)"
  by (auto simp: judged_at_def inquire_def ret_def split: option.splits prod.splits)

lemma validate_restore_stage_stage:
  assumes "validate_restore_stage rd given t c = (Done config, c')"
  shows "\<exists>server_private server_public header_key records parsed native.
     stage_of t config (judged_at rd given (snd c)) server_private server_public header_key records parsed native"
proof -
  obtain document server_private server_public server nft parsed header_key records expected expected_parsed now c1 c2 c3 where
    read: "read_stage t = Inr (document, server_private, server_public, server, nft)" and
    config: "normalize_server_config document = Inr config" and
    now: "(case given of Some now \<Rightarrow> ret now
       | None \<Rightarrow> inquire (\<lambda>h. case dk_clock (rd_desk rd) h of (now, h') \<Rightarrow> (Inr now, h'))) c = (Done now, c3)" and
    parsed: "parse_awg_config server = Inr parsed" and
    header: "staged_header_key t config = Inr header_key" and
    records: "validate_restore_clients (rd_desk rd) t config server_public header_key c1 = (Done records, c2)" and
    expected: "render_server_config (config_obj config) server_private (map ld_client records) now header_key = Inr expected" and
    expected_parsed: "parse_awg_config expected = Inr expected_parsed" and
    same: "complete_signature parsed = complete_signature expected_parsed"
    using assms unfolding validate_restore_stage_def
    by (auto elim!: bind_DoneE simp: lift_Done ensure_Done ret_Done)
  have ok: "render_config (config_obj config) = Inr config"
    by (rule render_config_obj, rule server_config.accepted_good, rule config)
  from render_server_config_parses [OF expected ok] expected_parsed obtain native where
    native: "obfuscation_directives (cfg_obfuscation config) header_key = Inr native" and
    e: "expected_parsed = two_kinds ''Interface'' (interface_directives config server_private native)
        ''Peer'' (map (peer_directives config) (filter (eligible now) (map ld_client records)))" by auto
  note sig = signature_mset [OF same, unfolded e two_kinds_occurrences list.sel(1)]
  note bk = validate_restore_clients_backed [OF records]
  note files = read_stage_Inr [OF read]
  have "stage_of t config now server_private server_public header_key records parsed native"
    unfolding stage_of_def using files config parsed header native bk sig by simp
  then show ?thesis unfolding judged_Done [OF now] by blast
qed

text \<open>
  C24: The checks of a copied backup are sound. When \<open>validate_restore_stage\<close> returns, under any fault and
  any host, there are clients, one for each client directory in order of name, such that: each client's
  record (name, address, status, expiry, keys) agrees with its metadata and its key files and, when it is
  managed, its profile is the text that the configuration renders to for that address, these keys and the
  header-protection key of the stage; addresses and public keys are distinct; the configuration
  is the normal form of the file; and the generated server file, up to the order of directives and peers,
  has the interface section that the configuration and the server key give, and one peer for each of those
  clients that is active and unexpired at the given instant, or else at the instant the clock of the host
  shows when the command starts, and no other.
\<close>

theorem validate_restore_stage_sound:
  "case validate_restore_stage rd given t c of
     (Done config, c') \<Rightarrow> (\<exists>server_private server_public header_key records parsed native.
        stage_of t config (case given of Some now \<Rightarrow> now | None \<Rightarrow> fst (dk_clock (rd_desk rd) (vt_host (snd c))))
          server_private server_public header_key records parsed native)
   | _ \<Rightarrow> True"
proof -
  obtain r c' where e: "validate_restore_stage rd given t c = (r, c')" by (metis surj_pair)
  then show ?thesis using validate_restore_stage_stage [of rd given t c _ c', unfolded judged_at_def] by (cases r) auto
qed

end
