(* ===== verification/Restore.thy ===== *)
theory Restore
  imports Staging
begin

text \<open>
  Restoring a backup (\<^verbatim>\<open>restore_backup_transaction\<close> of \<^verbatim>\<open>src/awgctl/core.py\<close>): the backup is copied to
  a stage and validated, then its five components replace those of the manager one by one, with a
  rollback of the disk and of the running interface.
\<close>

section \<open>The transaction\<close>

text \<open>A rename that is refused changes nothing; an assignment to a variable cannot fail.\<close>

definition rename :: "('s \<Rightarrow> 's) \<Rightarrow> ('s, unit) eff" where
  "rename f c =
     (case fst c of
        None \<Rightarrow> (Done (), (None, f (snd c)))
      | Some (n, k) \<Rightarrow>
          if 0 < n then (Done (), (Some (n - 1, k), f (snd c)))
          else if k = Crash then (Killed, c) else (Raised OSError, (None, snd c)))"

definition assign_to :: "('s \<Rightarrow> 's) \<Rightarrow> ('s, unit) eff" where
  "assign_to f c = (Done (), (fst c, f (snd c)))"

definition load_root_config :: "trees \<Rightarrow> server_config result" where
  "load_root_config t = read_server_config (config_file t)"

text \<open>\<open>create_backup\<close> copies the components, and then loads the configuration when there is one.\<close>

definition safety_backup :: "'h restore_desk \<Rightarrow> ('h vault, unit) eff" where
  "safety_backup rd =
     bindE (durable (\<lambda>s. s\<lparr>vt_backups := vt_backups s @ [vt_root s]\<rparr>)) (\<lambda>_.
     bindE (reading (\<lambda>s. if config_file (vt_root s) = Inl FileNotFoundError then Inr None
       else andthen (load_root_config (vt_root s)) (\<lambda>c. Inr (Some c)))) (\<lambda>_.
     inquire (dk_evidence (rd_desk rd))))"

definition new_transaction :: "('h vault, unit) eff" where
  "new_transaction = durable (\<lambda>s. s\<lparr>vt_stage := Map.empty, vt_rollback := Map.empty,
     vt_moved_old := [], vt_moved_new := [], vt_active := False\<rparr>)"

text \<open>\<open>shutil.copytree\<close> of a component of the backup, or an empty directory.\<close>

definition copy_component :: "trees \<Rightarrow> string \<Rightarrow> ('h vault, unit) eff" where
  "copy_component backup name =
     durable (\<lambda>s. s\<lparr>vt_stage := (vt_stage s)(name \<mapsto> (case backup name of Some t \<Rightarrow> t | None \<Rightarrow> empty_tree name))\<rparr>)"

definition swap_component :: "string \<Rightarrow> ('h vault, unit) eff" where
  "swap_component name =
     bindE (query (\<lambda>s. vt_root s name)) (\<lambda>current.
     bindE (if current = None then ret ()
       else bindE (rename (\<lambda>s. s\<lparr>vt_root := (vt_root s)(name := None), vt_rollback := (vt_rollback s)(name := current)\<rparr>)) (\<lambda>_.
            assign_to (\<lambda>s. s\<lparr>vt_moved_old := vt_moved_old s @ [name]\<rparr>))) (\<lambda>_.
     bindE (rename (\<lambda>s. s\<lparr>vt_root := (vt_root s)(name := vt_stage s name), vt_stage := (vt_stage s)(name := None)\<rparr>)) (\<lambda>_.
     assign_to (\<lambda>s. s\<lparr>vt_moved_new := vt_moved_new s @ [name]\<rparr>))))"

definition put_restored_runtime :: "string option \<Rightarrow> ('h vault, unit) eff" where
  "put_restored_runtime text = durable (\<lambda>s. s\<lparr>vt_runtime := text\<rparr>)"

definition restart_restored :: "'h restore_desk \<Rightarrow> server_config \<Rightarrow> ('h vault, unit) eff" where
  "restart_restored rd config =
     bindE (inquire (dk_service (rd_desk rd) ''restart'' (cfg_interface config))) (\<lambda>_.
     bindE (reading (\<lambda>s. fst (snd (key_files_of (vt_root s))))) (\<lambda>public.
     bindE (inquire (rd_live_key rd (cfg_interface config))) (\<lambda>live.
     ensure (strip live = strip public) ''restored runtime server identity verification failed'')))"

text \<open>\<open>chmod_secret_tree\<close> and the sync of the root change nothing here, but may fail.\<close>

definition secure_tree :: "('h vault, unit) eff" where
  "secure_tree = durable (\<lambda>s. s)"

definition restore_body :: "'h restore_desk \<Rightarrow> trees \<Rightarrow> ('h vault, bool) eff" where
  "restore_body rd backup =
     bindE (for_each (copy_component backup) restore_components) (\<lambda>_.
     bindE secure_tree (\<lambda>_.
     bindE (query vt_stage) (\<lambda>stage.
     bindE (validate_restore_stage rd None stage) (\<lambda>config.
     bindE (inquire (dk_is_active (rd_desk rd) (cfg_interface config))) (\<lambda>active.
     bindE (assign_to (\<lambda>s. s\<lparr>vt_active := active\<rparr>)) (\<lambda>_.
     bindE (for_each swap_component restore_components) (\<lambda>_.
     bindE secure_tree (\<lambda>_.
     bindE (reading (\<lambda>s. fst (generated_files (vt_root s)))) (\<lambda>text.
     bindE (put_restored_runtime (Some text)) (\<lambda>_.
     bindE (if active then restart_restored rd config else ret ()) (\<lambda>_.
     bindE (for_each (\<lambda>name. secure_tree) restore_components) (\<lambda>_.
     ret active))))))))))))"

text \<open>The rollback, the components in reverse order; a refused step raises its own error.\<close>

definition remove_new :: "string \<Rightarrow> ('h vault, unit) eff" where
  "remove_new name =
     bindE (query (\<lambda>s. vt_root s name)) (\<lambda>current.
     if current = None then ret () else durable (\<lambda>s. s\<lparr>vt_root := (vt_root s)(name := None)\<rparr>))"

definition put_back_old :: "string \<Rightarrow> ('h vault, unit) eff" where
  "put_back_old name =
     bindE (query (\<lambda>s. vt_rollback s name)) (\<lambda>archived.
     if archived = None then ret ()
     else rename (\<lambda>s. s\<lparr>vt_root := (vt_root s)(name := archived), vt_rollback := (vt_rollback s)(name := None)\<rparr>))"

definition restart_old :: "'h restore_desk \<Rightarrow> ('h vault, unit) eff" where
  "restart_old rd =
     suppress any_error
       (bindE (reading (\<lambda>s. load_root_config (vt_root s))) (\<lambda>config.
        inquire (dk_service (rd_desk rd) ''restart'' (cfg_interface config))))"

definition restore_failed :: error where
  "restore_failed = AwgctlError ''restore failed; pre-restore state rollback was attempted''"

definition undo_restore :: "'h restore_desk \<Rightarrow> string option \<Rightarrow> ('h vault, bool) eff" where
  "undo_restore rd old_runtime =
     bindE (query vt_moved_new) (\<lambda>moved_new.
     bindE (for_each remove_new (rev moved_new)) (\<lambda>_.
     bindE (query vt_moved_old) (\<lambda>moved_old.
     bindE (for_each put_back_old (rev moved_old)) (\<lambda>_.
     bindE (put_restored_runtime old_runtime) (\<lambda>_.
     bindE (query vt_active) (\<lambda>active.
     bindE (if active then restart_old rd else ret ()) (\<lambda>_.
     raise restore_failed)))))))"

definition drop_restore_directories :: "('h vault, unit) eff" where
  "drop_restore_directories =
     suppress any_error (durable (\<lambda>s. s\<lparr>vt_stage := Map.empty, vt_rollback := Map.empty\<rparr>))"

definition restore_backup_transaction :: "'h restore_desk \<Rightarrow> trees \<Rightarrow> ('h vault, bool) eff" where
  "restore_backup_transaction rd backup =
     bindE (safety_backup rd) (\<lambda>_.
     bindE new_transaction (\<lambda>_.
     bindE (query vt_runtime) (\<lambda>old_runtime.
     bindE (handle any_error
         (handle any_error (restore_body rd backup) (\<lambda>e. undo_restore rd old_runtime))
         (\<lambda>e. bindE drop_restore_directories (\<lambda>_. raise e))) (\<lambda>active.
     bindE drop_restore_directories (\<lambda>_.
     ret active)))))"

section \<open>What the transaction leaves\<close>

text \<open>Everything but the host.\<close>

definition core :: "'h vault \<Rightarrow> trees \<times> trees \<times> trees \<times> string option \<times> trees list \<times> string list \<times> string list \<times> bool" where
  "core s = (vt_root s, vt_stage s, vt_rollback s, vt_runtime s, vt_backups s, vt_moved_old s, vt_moved_new s, vt_active s)"

definition only_host :: "('h vault, 'a) eff \<Rightarrow> bool" where
  "only_host m \<longleftrightarrow> (\<forall>C. ends_in (\<lambda>s. core s = C) m (\<lambda>_ s. core s = C) (\<lambda>_ s. core s = C))"

named_theorems hosts

lemma only_host_steps [hosts]:
  "only_host (ret x)" "only_host (raise e)" "only_host (lift r)" "only_host (query f)" "only_host (reading g)"
  "only_host (ensure b message)" "only_host (inquire a)"
  by (auto simp: only_host_def ends_in_def run_simps inquire_def core_def split: sum.splits prod.splits)

lemma only_host_bind [hosts]: "only_host m \<Longrightarrow> (\<And>x. only_host (f x)) \<Longrightarrow> only_host (bindE m f)"
  unfolding only_host_def by (intro allI ends_bind [where R = "\<lambda>_ s. core s = C" for C]) blast+

lemma only_host_suppress [hosts]: "only_host m \<Longrightarrow> only_host (suppress any_error m)"
  unfolding only_host_def suppress_def
  by (intro allI ends_handle [where F = "\<lambda>_ s. core s = C" for C] ends_basic) blast+

lemma only_host_if [hosts]: "only_host m \<Longrightarrow> only_host n \<Longrightarrow> only_host (if b then m else n)"
  by simp

lemma only_host_each [hosts]: "(\<And>x. only_host (f x)) \<Longrightarrow> only_host (each_client f xs)"
  by (induction xs) (auto intro!: hosts)

lemma only_host_validate [hosts]: "only_host (validate_restore_stage rd given t)"
  unfolding validate_restore_stage_def validate_restore_clients_def restore_client_def Let_def
  by (intro hosts) (auto intro!: hosts split: prod.split option.split)

lemma only_host_restart [hosts]: "only_host (restart_restored rd config)" "only_host (restart_old rd)"
  unfolding restart_restored_def restart_old_def by (intro hosts)+

text \<open>A predicate of the core is kept, and facts about the result are added.\<close>

lemma ends_host:
  assumes "only_host m" and "\<And>s s'. core s = core s' \<Longrightarrow> P s \<Longrightarrow> P s'"
  shows "ends_in P m (\<lambda>_. P) (\<lambda>_. P)"
  unfolding ends_in_def
proof (intro allI impI)
  fix b and s assume p: "P s"
  obtain r b' s' where e: "m (b, s) = (r, (b', s'))" by (metis surj_pair)
  have "ends_in (\<lambda>t. core t = core s) m (\<lambda>_ t. core t = core s) (\<lambda>_ t. core t = core s)"
    using assms(1) unfolding only_host_def by blast
  from endsD [OF this refl e] assms(2) [of s s'] p
  show "case m (b, s) of (Done x, (b', s')) \<Rightarrow> P s' | (Raised e, (b', s')) \<Rightarrow> P s' | (Killed, c) \<Rightarrow> True"
    by (cases r) (auto simp: e)
qed

text \<open>
  The disk while the components are exchanged: the ones moved in are those of the stage, the ones moved
  away lie in the rollback directory.
\<close>

definition exchanging :: "trees \<Rightarrow> trees \<Rightarrow> 'h vault \<Rightarrow> bool" where
  "exchanging R T s \<longleftrightarrow>
     vt_rollback s = (\<lambda>n. if n \<in> set (vt_moved_old s) then R n else None)
     \<and> vt_root s = (\<lambda>n. if n \<in> set (vt_moved_new s) then T n else if n \<in> set (vt_moved_old s) then None else R n)
     \<and> R \<in> set (vt_backups s) \<and> (\<forall>n \<in> set (vt_moved_old s). R n \<noteq> None)
     \<and> (\<forall>n \<in> set (vt_moved_new s) - set (vt_moved_old s). R n = None)"

definition exchanged :: "trees \<Rightarrow> trees \<Rightarrow> string set \<Rightarrow> 'h vault \<Rightarrow> bool" where
  "exchanged R T N s \<longleftrightarrow> exchanging R T s \<and> set (vt_moved_new s) = N \<and> set (vt_moved_old s) \<subseteq> N
     \<and> vt_stage s = (\<lambda>n. if n \<in> N then None else T n)"

definition archived :: "trees \<Rightarrow> trees \<Rightarrow> string set \<Rightarrow> string \<Rightarrow> 'h vault \<Rightarrow> bool" where
  "archived R T N name s \<longleftrightarrow> exchanging R T s \<and> set (vt_moved_new s) = N \<and> set (vt_moved_old s) \<subseteq> insert name N
     \<and> vt_stage s = (\<lambda>n. if n \<in> N then None else T n) \<and> vt_root s name = None"

lemma ends_rename_assign:
  assumes "\<And>s. P s \<Longrightarrow> Q (g (f s))" and "\<And>s. P s \<Longrightarrow> E OSError s"
  shows "ends_in P (bindE (rename f) (\<lambda>_. assign_to g)) (\<lambda>_. Q) E"
  using assms by (auto simp: ends_in_def bindE_def rename_def assign_to_def split: option.splits)

lemma ends_archive:
  assumes "name \<notin> N"
  shows "ends_in (\<lambda>s. current = vt_root s name \<and> exchanged R T N s)
     (if current = None then ret ()
      else bindE (rename (\<lambda>s. s\<lparr>vt_root := (vt_root s)(name := None), vt_rollback := (vt_rollback s)(name := current)\<rparr>)) (\<lambda>_.
           assign_to (\<lambda>s. s\<lparr>vt_moved_old := vt_moved_old s @ [name]\<rparr>))) (\<lambda>_. archived R T N name) (\<lambda>_. exchanging R T)"
proof (rule ends_if)
  show "ends_in (\<lambda>s. current = vt_root s name \<and> exchanged R T N s) (ret ()) (\<lambda>_. archived R T N name) (\<lambda>_. exchanging R T)"
    if "current = None" by (rule ends_basic) (use that in \<open>auto simp: archived_def exchanged_def\<close>)
qed (rule ends_rename_assign, use assms in \<open>auto simp: archived_def exchanged_def exchanging_def fun_eq_iff split: if_splits\<close>)

lemma ends_install:
  assumes "name \<notin> N"
  shows "ends_in (archived R T N name)
     (bindE (rename (\<lambda>s. s\<lparr>vt_root := (vt_root s)(name := vt_stage s name), vt_stage := (vt_stage s)(name := None)\<rparr>)) (\<lambda>_.
      assign_to (\<lambda>s. s\<lparr>vt_moved_new := vt_moved_new s @ [name]\<rparr>))) (\<lambda>_. exchanged R T (insert name N)) (\<lambda>_. exchanging R T)"
  by (rule ends_rename_assign)
    (use assms in \<open>auto simp: archived_def exchanged_def exchanging_def fun_eq_iff split: if_splits\<close>)

lemma ends_swap:
  assumes "name \<notin> N"
  shows "ends_in (exchanged R T N) (swap_component name) (\<lambda>_. exchanged R T (insert name N)) (\<lambda>_. exchanging R T)"
  unfolding swap_component_def
  by (rule ends_bind [where R = "\<lambda>x s. x = vt_root s name \<and> exchanged R T N s"], rule ends_basic, simp,
      rule ends_bind [OF ends_archive ends_install]) (fact assms)+

lemma ends_for_each:
  assumes "\<And>x D. x \<in> set xs \<Longrightarrow> ends_in (P D) (f x) (\<lambda>_. P (insert x D)) E"
  shows "ends_in (P D) (for_each f xs) (\<lambda>_. P (D \<union> set xs)) E"
  using assms
proof (induction xs arbitrary: D)
  case Nil
  show ?case by (simp add: ends_basic)
next
  case (Cons x xs)
  have "ends_in (P (insert x D)) (for_each f xs) (\<lambda>_. P (insert x D \<union> set xs)) E"
    by (rule Cons.IH) (simp add: Cons.prems)
  then show ?case using Cons.prems by (auto intro: ends_bind)
qed

lemma ends_swaps:
  "distinct names \<Longrightarrow> set names \<inter> N = {} \<Longrightarrow>
     ends_in (exchanged R T N) (for_each swap_component names) (\<lambda>_. exchanged R T (N \<union> set names)) (\<lambda>_. exchanging R T)"
proof (induction names arbitrary: N)
  case Nil
  show ?case by (simp add: ends_basic)
next
  case (Cons name names)
  then show ?case unfolding for_each.simps
    by (intro ends_bind [OF ends_swap]) (use Cons.IH [of "insert name N"] Cons.prems in simp_all)
qed

text \<open>Undoing: first the components moved in are removed, then those moved away return.\<close>

definition undoing :: "trees \<Rightarrow> string set \<Rightarrow> string set \<Rightarrow> string set \<Rightarrow> string set \<Rightarrow> 'h vault \<Rightarrow> bool" where
  "undoing R old new removed returned s \<longleftrightarrow>
     (\<forall>n. vt_rollback s n = (if n \<in> old - returned then R n else None))
     \<and> (\<forall>n. n \<in> returned \<and> n \<in> old \<longrightarrow> vt_root s n = R n)
     \<and> (\<forall>n. n \<in> removed \<and> n \<in> new \<and> n \<notin> returned \<longrightarrow> vt_root s n = None)
     \<and> (\<forall>n. n \<in> old \<and> n \<notin> new \<and> n \<notin> returned \<longrightarrow> vt_root s n = None)
     \<and> (\<forall>n. n \<notin> old \<and> n \<notin> new \<longrightarrow> vt_root s n = R n)
     \<and> (\<forall>n\<in>old. R n \<noteq> None) \<and> (\<forall>n\<in>new - old. R n = None)
     \<and> set (vt_moved_old s) = old \<and> set (vt_moved_new s) = new"

abbreviation undo_error :: "trees \<Rightarrow> string option \<Rightarrow> error \<Rightarrow> 'h vault \<Rightarrow> bool" where
  "undo_error R old_runtime e s \<equiv> e = OSError \<or> vt_root s = R \<and> vt_runtime s = old_runtime"

lemma ends_remove_new:
  "name \<in> new \<Longrightarrow> ends_in (undoing R old new D {}) (remove_new name) (\<lambda>_. undoing R old new (insert name D) {}) (undo_error R old_runtime)"
  unfolding ends_in_def
  by (auto simp: remove_new_def bindE_def query_def durable_def ret_def undoing_def split: option.splits if_splits fault.splits)

lemma ends_put_back:
  "name \<in> old \<Longrightarrow> new \<subseteq> G \<Longrightarrow>
     ends_in (undoing R old new G D) (put_back_old name) (\<lambda>_. undoing R old new G (insert name D)) (undo_error R old_runtime)"
  unfolding ends_in_def
  by (auto simp: put_back_old_def bindE_def query_def rename_def ret_def undoing_def split: option.splits if_splits fault.splits)

lemma undoing_done: "undoing R old new new old s \<Longrightarrow> vt_root s = R"
proof
  fix n assume u: "undoing R old new new old s"
  show "vt_root s n = R n" using u unfolding undoing_def
    by (cases "n \<in> old"; cases "n \<in> new") auto
qed

lemma ends_at: "(\<And>t. P t \<Longrightarrow> ends_in (\<lambda>s. s = t) m Q E) \<Longrightarrow> ends_in P m Q E"
  by (auto simp: ends_in_def)

lemma ends_put_runtime:
  "ends_in (\<lambda>s. vt_root s = R) (put_restored_runtime text) (\<lambda>_ s. vt_root s = R \<and> vt_runtime s = text) (\<lambda>e s. e = OSError)"
  by (auto simp: ends_in_def put_restored_runtime_def durable_def split: option.splits fault.splits)

lemma ends_undo_tail:
  assumes "set moved_old = old"
  shows "ends_in (undoing R old new new {})
     (bindE (for_each put_back_old (rev moved_old)) (\<lambda>_. bindE (put_restored_runtime old_runtime) (\<lambda>_.
      bindE (query vt_active) (\<lambda>active. bindE (if active then restart_old rd else ret ()) (\<lambda>_. raise restore_failed)))))
     (\<lambda>_ _. False) (undo_error R old_runtime)"
proof (rule ends_bind)
  have "ends_in (undoing R old new new {}) (for_each put_back_old (rev moved_old))
      (\<lambda>_. undoing R old new new ({} \<union> set (rev moved_old))) (undo_error R old_runtime)"
    by (rule ends_for_each, rule ends_put_back) (simp_all add: assms)
  then show "ends_in (undoing R old new new {}) (for_each put_back_old (rev moved_old))
      (\<lambda>_ s. vt_root s = R) (undo_error R old_runtime)"
    by (rule ends_conseq) (auto simp: assms intro: undoing_done)
  show "ends_in (\<lambda>s. vt_root s = R) (bindE (put_restored_runtime old_runtime) (\<lambda>_.
      bindE (query vt_active) (\<lambda>active. bindE (if active then restart_old rd else ret ()) (\<lambda>_. raise restore_failed))))
      (\<lambda>_ _. False) (undo_error R old_runtime)" for u
  proof (rule ends_bind)
    let ?P = "\<lambda>s. vt_root s = R \<and> vt_runtime s = old_runtime"
    show "ends_in (\<lambda>s. vt_root s = R) (put_restored_runtime old_runtime) (\<lambda>_. ?P) (undo_error R old_runtime)"
      by (rule ends_conseq [OF ends_put_runtime]) auto
    have r: "ends_in ?P (if active then restart_old rd else ret ()) (\<lambda>_. ?P) (\<lambda>_. ?P)" for active
      by (rule ends_host) (auto simp: only_host_restart only_host_steps core_def)
    show "ends_in ?P (bindE (query vt_active) (\<lambda>active. bindE (if active then restart_old rd else ret ())
        (\<lambda>_. raise restore_failed))) (\<lambda>_ _. False) (undo_error R old_runtime)" for u
    proof (rule ends_bind [where R = "\<lambda>_. ?P"])
      show "ends_in ?P (bindE (if active then restart_old rd else ret ()) (\<lambda>_. raise restore_failed))
          (\<lambda>_ _. False) (undo_error R old_runtime)" for active
      proof (rule ends_bind)
        show "ends_in ?P (if active then restart_old rd else ret ()) (\<lambda>_. ?P) (undo_error R old_runtime)"
          by (rule ends_conseq [OF r]) auto
      qed (simp add: ends_basic)
    qed (simp add: ends_basic)
  qed
qed

lemma ends_undo_from:
  assumes old: "set (vt_moved_old t) = old" and new: "set (vt_moved_new t) = new" and t: "exchanging R T t"
  shows "ends_in (\<lambda>s. s = t) (undo_restore rd old_runtime) (\<lambda>_ _. False) (undo_error R old_runtime)"
  unfolding undo_restore_def
proof (rule ends_bind)
  show "ends_in (\<lambda>s. s = t) (query vt_moved_new) (\<lambda>x s. set x = new \<and> undoing R old new {} {} s) (undo_error R old_runtime)"
    by (rule ends_basic) (use assms in \<open>auto simp: exchanging_def undoing_def\<close>)
  fix moved_new
  show "ends_in (\<lambda>s. set moved_new = new \<and> undoing R old new {} {} s)
      (bindE (for_each remove_new (rev moved_new)) (\<lambda>_. bindE (query vt_moved_old) (\<lambda>moved_old.
       bindE (for_each put_back_old (rev moved_old)) (\<lambda>_. bindE (put_restored_runtime old_runtime) (\<lambda>_.
       bindE (query vt_active) (\<lambda>active. bindE (if active then restart_old rd else ret ()) (\<lambda>_. raise restore_failed)))))))
      (\<lambda>_ _. False) (undo_error R old_runtime)"
  proof (rule ends_fact, rule ends_bind)
    assume n: "set moved_new = new"
    have "ends_in (undoing R old new {} {}) (for_each remove_new (rev moved_new))
        (\<lambda>_. undoing R old new ({} \<union> set (rev moved_new)) {}) (undo_error R old_runtime)"
      by (rule ends_for_each, rule ends_remove_new) (simp add: n)
    then show "ends_in (undoing R old new {} {}) (for_each remove_new (rev moved_new))
        (\<lambda>_. undoing R old new new {}) (undo_error R old_runtime)" by (simp add: n)
    show "ends_in (undoing R old new new {}) (bindE (query vt_moved_old) (\<lambda>moved_old.
       bindE (for_each put_back_old (rev moved_old)) (\<lambda>_. bindE (put_restored_runtime old_runtime) (\<lambda>_.
       bindE (query vt_active) (\<lambda>active. bindE (if active then restart_old rd else ret ()) (\<lambda>_. raise restore_failed))))))
      (\<lambda>_ _. False) (undo_error R old_runtime)" for u
    proof (rule ends_bind)
      show "ends_in (undoing R old new new {}) (query vt_moved_old) (\<lambda>x s. set x = old \<and> undoing R old new new {} s) (undo_error R old_runtime)"
        by (rule ends_basic) (simp add: undoing_def)
      fix moved_old
      show "ends_in (\<lambda>s. set moved_old = old \<and> undoing R old new new {} s)
          (bindE (for_each put_back_old (rev moved_old)) (\<lambda>_. bindE (put_restored_runtime old_runtime) (\<lambda>_.
           bindE (query vt_active) (\<lambda>active. bindE (if active then restart_old rd else ret ()) (\<lambda>_. raise restore_failed)))))
          (\<lambda>_ _. False) (undo_error R old_runtime)"
        by (rule ends_fact) (rule ends_undo_tail)
    qed
  qed
qed

lemma ends_undo: "ends_in (exchanging R T) (undo_restore rd old_runtime) (\<lambda>_ _. False) (undo_error R old_runtime)"
  by (rule ends_at, rule ends_undo_from) auto

text \<open>Copying to the stage leaves the managed state alone.\<close>

definition staged :: "trees \<Rightarrow> trees" where
  "staged backup = (\<lambda>n. if n \<in> set restore_components
     then Some (case backup n of Some t \<Rightarrow> t | None \<Rightarrow> empty_tree n) else None)"

definition copying :: "trees \<Rightarrow> trees \<Rightarrow> string set \<Rightarrow> 'h vault \<Rightarrow> bool" where
  "copying R T N s \<longleftrightarrow> vt_root s = R \<and> vt_rollback s = Map.empty \<and> vt_moved_old s = [] \<and> vt_moved_new s = []
     \<and> R \<in> set (vt_backups s) \<and> vt_stage s = (\<lambda>n. if n \<in> N then T n else None)"

lemma copying_exchanging: "copying R T N s \<Longrightarrow> exchanging R T s"
  by (auto simp: copying_def exchanging_def)

lemma ends_copy:
  "name \<in> set restore_components \<Longrightarrow>
     ends_in (copying R (staged backup) N) (copy_component backup name)
       (\<lambda>_. copying R (staged backup) (insert name N)) (\<lambda>_. exchanging R (staged backup))"
  unfolding ends_in_def
  by (auto simp: copy_component_def durable_def copying_def exchanging_def staged_def fun_eq_iff split: option.splits fault.splits)

lemma copying_exchanged:
  "copying R (staged backup) (set restore_components) s \<Longrightarrow> exchanged R (staged backup) {} s"
  by (auto simp: copying_def exchanged_def exchanging_def staged_def fun_eq_iff)

text \<open>After a restore, the components are those of the backup, and the running file is the generated one.\<close>

definition restored :: "trees \<Rightarrow> trees \<Rightarrow> 'h vault \<Rightarrow> bool" where
  "restored R backup s \<longleftrightarrow>
     vt_root s = (\<lambda>n. if n \<in> set restore_components then staged backup n else R n)
     \<and> valid_stage (staged backup) \<and> R \<in> set (vt_backups s)
     \<and> (\<exists>text. fst (generated_files (vt_root s)) = Inr text \<and> vt_runtime s = Some text)"

lemma exchanged_root:
  "exchanged R T N s \<Longrightarrow> vt_root s = (\<lambda>n. if n \<in> N then T n else R n) \<and> R \<in> set (vt_backups s)"
  by (auto simp: exchanged_def exchanging_def fun_eq_iff)

lemma ends_put_restored:
  "ends_in (\<lambda>s. fst (generated_files (vt_root s)) = Inr text \<and> exchanged R T N s) (put_restored_runtime (Some text))
     (\<lambda>_ s. vt_runtime s = Some text \<and> fst (generated_files (vt_root s)) = Inr text \<and> exchanged R T N s)
     (\<lambda>_. exchanging R T)"
  unfolding put_restored_runtime_def by (rule ends_durable) (auto simp: exchanged_def exchanging_def)

lemma core_exchanged: "core s = core s' \<Longrightarrow> exchanged R T N s \<Longrightarrow> exchanged R T N s'"
  by (auto simp: core_def exchanged_def exchanging_def)

lemma ends_core:
  assumes "only_host m"
  shows "ends_in (exchanged R T N) m (\<lambda>_. exchanged R T N) (\<lambda>_. exchanging R T)"
proof (rule ends_conseq [OF ends_host [where P = "exchanged R T N", OF assms]])
  show "exchanged R T N s'" if "core s = core s'" "exchanged R T N s" for s s' :: "'a vault"
    using that by (rule core_exchanged)
qed (auto simp: exchanged_def)

lemma ends_restore_tail:
  assumes N: "N = set restore_components" and "valid_stage (staged backup)"
  shows "ends_in (exchanged R (staged backup) N)
     (bindE secure_tree (\<lambda>_. bindE (reading (\<lambda>s. fst (generated_files (vt_root s)))) (\<lambda>t.
      bindE (put_restored_runtime (Some t)) (\<lambda>_. bindE (if active then restart_restored rd config else ret ()) (\<lambda>_.
      bindE (for_each (\<lambda>name. secure_tree) restore_components) (\<lambda>_. ret active)))))) (\<lambda>_. restored R backup) (\<lambda>_. exchanging R (staged backup))"
proof (rule ends_bind [where R = "\<lambda>_. exchanged R (staged backup) N"])
  let ?G = "\<lambda>t s. fst (generated_files (vt_root s)) = Inr t \<and> exchanged R (staged backup) N s"
  let ?W = "\<lambda>t s. vt_runtime s = Some t \<and> ?G t s"
  have "ends_in (?W t) (if active then restart_restored rd config else ret ()) (\<lambda>_. ?W t) (\<lambda>_. ?W t)" for t
    by (rule ends_host) (auto simp: only_host_restart only_host_steps core_def exchanged_def exchanging_def)
  then have r: "ends_in (?W t) (if active then restart_restored rd config else ret ()) (\<lambda>_. ?W t)
      (\<lambda>_. exchanging R (staged backup))" for t
    by (rule ends_conseq) (auto simp: exchanged_def)
  have c: "ends_in (?W t) (for_each (\<lambda>name. secure_tree) restore_components) (\<lambda>_. ?W t) (\<lambda>_. exchanging R (staged backup))" for t
    by (rule ends_for_each [where P = "\<lambda>_. ?W t", simplified], unfold secure_tree_def, rule ends_durable)
      (auto simp: exchanged_def)
  have "ends_in (?W t) (ret active) (\<lambda>_. restored R backup) (\<lambda>_. exchanging R (staged backup))" for t
    by (rule ends_basic) (use exchanged_root assms in \<open>auto simp: restored_def fun_eq_iff\<close>)
  with c have "ends_in (?W t) (bindE (for_each (\<lambda>name. secure_tree) restore_components) (\<lambda>_. ret active))
      (\<lambda>_. restored R backup) (\<lambda>_. exchanging R (staged backup))" for t
    by (rule ends_bind)
  with r have w: "ends_in (?W t) (bindE (if active then restart_restored rd config else ret ()) (\<lambda>_.
      bindE (for_each (\<lambda>name. secure_tree) restore_components) (\<lambda>_. ret active)))
      (\<lambda>_. restored R backup) (\<lambda>_. exchanging R (staged backup))" for t
    by (rule ends_bind)
  have p: "ends_in (?G t) (bindE (put_restored_runtime (Some t)) (\<lambda>_.
      bindE (if active then restart_restored rd config else ret ()) (\<lambda>_.
      bindE (for_each (\<lambda>name. secure_tree) restore_components) (\<lambda>_. ret active))))
      (\<lambda>_. restored R backup) (\<lambda>_. exchanging R (staged backup))" for t
    by (rule ends_bind [OF ends_put_restored w])
  show "ends_in (exchanged R (staged backup) N)
     (bindE (reading (\<lambda>s. fst (generated_files (vt_root s)))) (\<lambda>t.
      bindE (put_restored_runtime (Some t)) (\<lambda>_. bindE (if active then restart_restored rd config else ret ()) (\<lambda>_.
      bindE (for_each (\<lambda>name. secure_tree) restore_components) (\<lambda>_. ret active))))) (\<lambda>_. restored R backup) (\<lambda>_. exchanging R (staged backup))" for u
    by (rule ends_bind [OF _ p], rule ends_basic) (auto simp: exchanged_def)
qed (unfold secure_tree_def, rule ends_durable; simp add: exchanged_def)

lemma validate_valid: "validate_restore_stage rd given t c = (Done config, c') \<Longrightarrow> valid_stage t"
  unfolding valid_stage_def by (drule validate_restore_stage_stage) blast

lemma ends_returned:
  assumes "ends_in P m (\<lambda>_. Q) E" and "\<And>c x c'. m c = (Done x, c') \<Longrightarrow> b"
  shows "ends_in P m (\<lambda>_ s. b \<and> Q s) E"
  unfolding ends_in_def
proof (intro allI impI)
  fix a s assume p: "P s"
  obtain r a' s' where e: "m (a, s) = (r, (a', s'))" by (metis surj_pair)
  from endsD [OF assms(1) p e] assms(2) [of "(a, s)"] e
  show "case m (a, s) of (Done x, (b', s')) \<Rightarrow> b \<and> Q s' | (Raised e, (b', s')) \<Rightarrow> E e s' | (Killed, c) \<Rightarrow> True"
    by (cases r) auto
qed

lemma ends_restore_body:
  "ends_in (copying R (staged backup) {}) (restore_body rd backup) (\<lambda>_. restored R backup) (\<lambda>_. exchanging R (staged backup))"
  unfolding restore_body_def
proof (rule ends_bind)
  let ?T = "staged backup" and ?N = "set restore_components"
  have "ends_in (copying R ?T {}) (for_each (copy_component backup) restore_components)
      (\<lambda>_. copying R ?T ({} \<union> ?N)) (\<lambda>_. exchanging R ?T)"
    by (rule ends_for_each, rule ends_copy)
  then show "ends_in (copying R ?T {}) (for_each (copy_component backup) restore_components)
      (\<lambda>_. exchanged R ?T {}) (\<lambda>_. exchanging R ?T)"
    by (rule ends_conseq) (auto intro: copying_exchanged)
  have set: "ends_in (exchanged R ?T {}) (assign_to (\<lambda>s. s\<lparr>vt_active := active\<rparr>)) (\<lambda>_. exchanged R ?T {}) (\<lambda>_. exchanging R ?T)" for active
    by (auto simp: ends_in_def assign_to_def exchanged_def exchanging_def)
  have swaps: "ends_in (exchanged R ?T {}) (for_each swap_component restore_components) (\<lambda>_. exchanged R ?T ?N) (\<lambda>_. exchanging R ?T)"
    using ends_swaps [of restore_components "{}" R ?T] by (simp add: restore_components_def)
  have tail: "ends_in (exchanged R ?T {}) (bindE (inquire (dk_is_active (rd_desk rd) (cfg_interface config))) (\<lambda>active.
     bindE (assign_to (\<lambda>s. s\<lparr>vt_active := active\<rparr>)) (\<lambda>_. bindE (for_each swap_component restore_components) (\<lambda>_.
     bindE secure_tree (\<lambda>_. bindE (reading (\<lambda>s. fst (generated_files (vt_root s)))) (\<lambda>text.
     bindE (put_restored_runtime (Some text)) (\<lambda>_. bindE (if active then restart_restored rd config else ret ()) (\<lambda>_.
     bindE (for_each (\<lambda>name. secure_tree) restore_components) (\<lambda>_. ret active))))))))) (\<lambda>_. restored R backup) (\<lambda>_. exchanging R ?T)" if "valid_stage ?T" for config
    by (rule ends_bind [OF ends_core], simp add: hosts, rule ends_bind [OF set], rule ends_bind [OF swaps],
        rule ends_restore_tail) (simp_all add: that)
  have validated: "ends_in (exchanged R ?T {}) (validate_restore_stage rd None ?T) (\<lambda>_ s. valid_stage ?T \<and> exchanged R ?T {} s)
      (\<lambda>_. exchanging R ?T)"
    by (rule ends_returned [OF ends_core]) (use validate_valid in \<open>simp add: hosts\<close>, blast intro: validate_valid)
  have stage: "ends_in (exchanged R ?T {}) (bindE (query vt_stage) (\<lambda>stage. bindE (validate_restore_stage rd None stage) (\<lambda>config.
     bindE (inquire (dk_is_active (rd_desk rd) (cfg_interface config))) (\<lambda>active.
     bindE (assign_to (\<lambda>s. s\<lparr>vt_active := active\<rparr>)) (\<lambda>_. bindE (for_each swap_component restore_components) (\<lambda>_.
     bindE secure_tree (\<lambda>_. bindE (reading (\<lambda>s. fst (generated_files (vt_root s)))) (\<lambda>text.
     bindE (put_restored_runtime (Some text)) (\<lambda>_. bindE (if active then restart_restored rd config else ret ()) (\<lambda>_.
     bindE (for_each (\<lambda>name. secure_tree) restore_components) (\<lambda>_. ret active))))))))))) (\<lambda>_. restored R backup) (\<lambda>_. exchanging R ?T)"
  proof (rule ends_bind [where R = "\<lambda>stage s. stage = ?T \<and> exchanged R ?T {} s"])
    show "ends_in (exchanged R ?T {}) (query vt_stage) (\<lambda>stage s. stage = ?T \<and> exchanged R ?T {} s) (\<lambda>_. exchanging R ?T)"
      by (rule ends_basic) (simp add: exchanged_def)
  qed (rule ends_fact, simp only:, rule ends_bind [OF validated], rule ends_fact, erule tail)
  show "ends_in (exchanged R ?T {}) (bindE secure_tree (\<lambda>_. bindE (query vt_stage) (\<lambda>stage. bindE (validate_restore_stage rd None stage) (\<lambda>config.
     bindE (inquire (dk_is_active (rd_desk rd) (cfg_interface config))) (\<lambda>active.
     bindE (assign_to (\<lambda>s. s\<lparr>vt_active := active\<rparr>)) (\<lambda>_. bindE (for_each swap_component restore_components) (\<lambda>_.
     bindE secure_tree (\<lambda>_. bindE (reading (\<lambda>s. fst (generated_files (vt_root s)))) (\<lambda>text.
     bindE (put_restored_runtime (Some text)) (\<lambda>_. bindE (if active then restart_restored rd config else ret ()) (\<lambda>_.
     bindE (for_each (\<lambda>name. secure_tree) restore_components) (\<lambda>_. ret active)))))))))))) (\<lambda>_. restored R backup) (\<lambda>_. exchanging R ?T)" for u
    by (rule ends_bind [OF _ stage], unfold secure_tree_def, rule ends_durable) (simp_all add: exchanged_def)
qed

text \<open>The whole transaction, under any fault.\<close>

lemma ends_drop:
  assumes "\<And>s. P s \<Longrightarrow> P (s\<lparr>vt_stage := Map.empty, vt_rollback := Map.empty\<rparr>)"
  shows "ends_in P drop_restore_directories (\<lambda>_. P) E"
  unfolding drop_restore_directories_def suppress_def
  by (rule ends_handle [where F = "\<lambda>_. P"], rule ends_durable) (auto simp: assms intro!: ends_basic)

lemma ends_safety:
  "ends_in (\<lambda>s. vt_root s = R \<and> vt_runtime s = old) (safety_backup rd)
     (\<lambda>_ s. vt_root s = R \<and> vt_runtime s = old \<and> R \<in> set (vt_backups s)) (\<lambda>_ s. vt_root s = R \<and> vt_runtime s = old)"
  unfolding safety_backup_def
proof (rule ends_bind)
  let ?B = "\<lambda>s. vt_root s = R \<and> vt_runtime s = old \<and> R \<in> set (vt_backups s)"
  show "ends_in (\<lambda>s. vt_root s = R \<and> vt_runtime s = old) (durable (\<lambda>s. s\<lparr>vt_backups := vt_backups s @ [vt_root s]\<rparr>)) (\<lambda>_. ?B)
      (\<lambda>_ s. vt_root s = R \<and> vt_runtime s = old)"
    by (rule ends_durable; simp)
  have "ends_in ?B (bindE (reading (\<lambda>s. if config_file (vt_root s) = Inl FileNotFoundError then Inr None
     else andthen (load_root_config (vt_root s)) (\<lambda>c. Inr (Some c)))) (\<lambda>_. inquire (dk_evidence (rd_desk rd)))) (\<lambda>_. ?B) (\<lambda>_. ?B)"
    by (rule ends_host) (auto simp: core_def intro!: hosts)
  then show "ends_in ?B (bindE (reading (\<lambda>s. if config_file (vt_root s) = Inl FileNotFoundError then Inr None
     else andthen (load_root_config (vt_root s)) (\<lambda>c. Inr (Some c)))) (\<lambda>_. inquire (dk_evidence (rd_desk rd)))) (\<lambda>_. ?B)
     (\<lambda>_ s. vt_root s = R \<and> vt_runtime s = old)" for u
    by (rule ends_conseq) auto
qed

lemma ends_transaction:
  "ends_in (\<lambda>s. vt_root s = R \<and> vt_runtime s = old) (restore_backup_transaction rd backup)
     (\<lambda>_. restored R backup) (undo_error R old)"
  unfolding restore_backup_transaction_def
proof (rule ends_bind)
  let ?S = "\<lambda>s. vt_root s = R \<and> vt_runtime s = old" and ?B = "\<lambda>s. vt_root s = R \<and> vt_runtime s = old \<and> R \<in> set (vt_backups s)"
  let ?C = "\<lambda>s. vt_runtime s = old \<and> copying R (staged backup) {} s"
  show "ends_in ?S (safety_backup rd) (\<lambda>_. ?B) (undo_error R old)"
    by (rule ends_conseq [OF ends_safety]) auto
  show "ends_in ?B (bindE new_transaction (\<lambda>_. bindE (query vt_runtime) (\<lambda>old_runtime.
     bindE (handle any_error (handle any_error (restore_body rd backup) (\<lambda>e. undo_restore rd old_runtime))
         (\<lambda>e. bindE drop_restore_directories (\<lambda>_. raise e))) (\<lambda>active. bindE drop_restore_directories (\<lambda>_. ret active)))))
     (\<lambda>_. restored R backup) (undo_error R old)" for u
  proof (rule ends_bind [where R = "\<lambda>_. ?C"])
    show "ends_in ?B new_transaction (\<lambda>_. ?C) (undo_error R old)"
      unfolding new_transaction_def by (rule ends_durable) (simp_all add: copying_def)
    show "ends_in ?C (bindE (query vt_runtime) (\<lambda>old_runtime.
       bindE (handle any_error (handle any_error (restore_body rd backup) (\<lambda>e. undo_restore rd old_runtime))
         (\<lambda>e. bindE drop_restore_directories (\<lambda>_. raise e))) (\<lambda>active. bindE drop_restore_directories (\<lambda>_. ret active))))
       (\<lambda>_. restored R backup) (undo_error R old)" for u
    proof (rule ends_bind [where R = "\<lambda>r s. r = old \<and> copying R (staged backup) {} s"])
      show "ends_in (\<lambda>s. r = old \<and> copying R (staged backup) {} s)
         (bindE (handle any_error (handle any_error (restore_body rd backup) (\<lambda>e. undo_restore rd r))
         (\<lambda>e. bindE drop_restore_directories (\<lambda>_. raise e))) (\<lambda>active. bindE drop_restore_directories (\<lambda>_. ret active)))
         (\<lambda>_. restored R backup) (undo_error R old)" for r
      proof (rule ends_fact, rule ends_bind [where R = "\<lambda>_. restored R backup"])
        assume r: "r = old"
        have "ends_in (exchanging R (staged backup)) (undo_restore rd r) (\<lambda>_. restored R backup) (undo_error R old)"
          unfolding r by (rule ends_conseq [OF ends_undo]) auto
        then have t: "ends_in (copying R (staged backup) {}) (handle any_error (restore_body rd backup) (\<lambda>e. undo_restore rd r))
            (\<lambda>_. restored R backup) (undo_error R old)"
          by (rule ends_handle [OF ends_restore_body])
        have d: "ends_in (undo_error R old e) (bindE drop_restore_directories (\<lambda>_. raise e)) (\<lambda>_. restored R backup) (undo_error R old)" for e
          by (rule ends_bind [OF ends_drop]) (auto intro!: ends_basic)
        show "ends_in (copying R (staged backup) {}) (handle any_error (handle any_error (restore_body rd backup) (\<lambda>e. undo_restore rd r))
            (\<lambda>e. bindE drop_restore_directories (\<lambda>_. raise e))) (\<lambda>_. restored R backup) (undo_error R old)"
          by (rule ends_handle [OF t d])
        show "ends_in (restored R backup) (bindE drop_restore_directories (\<lambda>_. ret active)) (\<lambda>_. restored R backup) (undo_error R old)" for active
          by (rule ends_bind [OF ends_drop]) (auto simp: restored_def intro!: ends_basic)
      qed
    qed (rule ends_basic; simp)
  qed
qed

text \<open>Without a fault, the rollback is complete whatever failed.\<close>

definition stays_calm :: "('s, 'a) eff \<Rightarrow> bool" where
  "stays_calm m \<longleftrightarrow> (\<forall>s. fst (snd (m (None, s))) = None)"

named_theorems calms

lemma calm_steps [calms]:
  "stays_calm (ret x)" "stays_calm (raise e)" "stays_calm (lift r)" "stays_calm (query q)" "stays_calm (reading g)"
  "stays_calm (ensure b message)" "stays_calm (inquire a)" "stays_calm (durable f)" "stays_calm (rename f')" "stays_calm (assign_to f'')"
  by (auto simp: stays_calm_def run_simps inquire_def rename_def assign_to_def split: sum.splits prod.splits)

lemma stays_calmD: "stays_calm m \<Longrightarrow> m (None, s) = (r, (b, s')) \<Longrightarrow> b = None"
  unfolding stays_calm_def by (drule spec [of _ s]) simp

lemma calm_bind [calms]:
  assumes "stays_calm m" and "\<And>x. stays_calm (f x)"
  shows "stays_calm (bindE m f)"
  unfolding stays_calm_def
proof
  fix s
  obtain r b s' where e: "m (None, s) = (r, (b, s'))" by (metis surj_pair)
  with stays_calmD [OF assms(1)] have "b = None" by blast
  with e assms(2) show "fst (snd (bindE m f (None, s))) = None"
    by (cases r) (auto simp: bindE_def stays_calm_def)
qed

lemma calm_handle [calms]:
  assumes "stays_calm m" and "\<And>e. stays_calm (h e)"
  shows "stays_calm (handle p m h)"
  unfolding stays_calm_def
proof
  fix s
  obtain r b s' where e: "m (None, s) = (r, (b, s'))" by (metis surj_pair)
  with stays_calmD [OF assms(1)] have "b = None" by blast
  with e assms(2) show "fst (snd (handle p m h (None, s))) = None"
    by (cases r) (auto simp: handle_def stays_calm_def)
qed

lemma calm_if [calms]: "stays_calm m \<Longrightarrow> stays_calm n \<Longrightarrow> stays_calm (if b then m else n)"
  by simp

lemma calm_for_each [calms]: "(\<And>x. stays_calm (f x)) \<Longrightarrow> stays_calm (for_each f xs)"
  by (induction xs) (auto intro!: calms)

lemma calm_each_client [calms]: "(\<And>x. stays_calm (f x)) \<Longrightarrow> stays_calm (each_client f xs)"
  by (induction xs) (auto intro!: calms)

lemma calm_suppress [calms]: "stays_calm m \<Longrightarrow> stays_calm (suppress p m)"
  unfolding suppress_def by (intro calms)

lemma calm_body: "stays_calm (restore_body rd backup)"
  unfolding restore_body_def copy_component_def swap_component_def put_restored_runtime_def restart_restored_def secure_tree_def
    validate_restore_stage_def validate_restore_clients_def restore_client_def Let_def
  by (intro calms) (auto intro!: calms split: prod.split)

lemma for_each_done: "(\<And>x s. \<exists>s'. f x (None, s) = (Done (), (None, s'))) \<Longrightarrow> \<exists>s'. for_each f xs (None, s) = (Done (), (None, s'))"
proof (induction xs arbitrary: s)
  case Nil
  show ?case by (simp add: ret_def)
next
  case (Cons x xs)
  obtain t where "f x (None, s) = (Done (), (None, t))" using Cons.prems by blast
  with Cons.IH [OF Cons.prems, of t] show ?case by (simp add: bindE_def)
qed

lemma undo_calm: "\<exists>s'. undo_restore rd old_runtime (None, s) = (Raised restore_failed, (None, s'))"
proof -
  have put: "\<exists>s'. for_each put_back_old xs (None, s) = (Done (), (None, s'))" for xs s
    by (rule for_each_done) (simp add: put_back_old_def bindE_def query_def ret_def rename_def)
  have restart: "\<exists>s'. restart_old rd (None, s) = (Done (), (None, s'))" for s
    unfolding restart_old_def suppress_def
    by (cases "load_root_config (vt_root s)")
      (auto simp: handle_def bindE_def run_simps inquire_def split: sum.splits prod.splits)
  have "\<exists>s'. for_each remove_new (rev (vt_moved_new s)) (None, s) = (Done (), (None, s'))"
    by (rule for_each_done) (simp add: remove_new_def bindE_def query_def ret_def)
  then obtain t where t: "for_each remove_new (rev (vt_moved_new s)) (None, s) = (Done (), (None, t))" ..
  from put [of "rev (vt_moved_old t)" t] obtain u where
    u: "for_each put_back_old (rev (vt_moved_old t)) (None, t) = (Done (), (None, u))" ..
  from restart [of "u\<lparr>vt_runtime := old_runtime\<rparr>"] obtain v where
    v: "restart_old rd (None, u\<lparr>vt_runtime := old_runtime\<rparr>) = (Done (), (None, v))" ..
  show ?thesis unfolding undo_restore_def put_restored_runtime_def
    by (simp add: bindE_def query_def ret_def raise_def t u v)
qed

lemma drop_calm: "\<exists>s'. drop_restore_directories (None, s) = (Done (), (None, s'))"
  by (simp add: drop_restore_directories_def suppress_def handle_def)

lemma transaction_calm_error:
  assumes "restore_backup_transaction rd backup (None, s) = (Raised OSError, (b', s'))"
  shows "vt_root s' = vt_root s \<and> vt_runtime s' = vt_runtime s"
proof -
  obtain r b t where r: "safety_backup rd (None, s) = (r, (b, t))" by (metis surj_pair)
  show ?thesis
  proof (cases r)
    case (Raised e)
    have "r = Raised OSError" "t = s'" using assms r Raised by (simp_all add: restore_backup_transaction_def bindE_def)
    with endsD [OF ends_safety [of "vt_root s" "vt_runtime s" rd] _ r] show ?thesis by simp
  next
    case Killed
    then show ?thesis using assms r by (simp add: restore_backup_transaction_def bindE_def)
  next
    case (Done x)
    have "stays_calm (safety_backup rd)" unfolding safety_backup_def by (intro calms)
    then have b: "b = None" using r by (rule stays_calmD)
    obtain u where u: "new_transaction (None, t) = (Done (), (None, u))" by (simp add: new_transaction_def)
    obtain q b1 u1 where q: "restore_body rd backup (None, u) = (q, (b1, u1))" by (metis surj_pair)
    have b1: "b1 = None" by (rule stays_calmD [OF calm_body q])
    obtain v where v: "undo_restore rd (vt_runtime u) (None, u1) = (Raised restore_failed, (None, v))" using undo_calm by blast
    obtain w where w: "drop_restore_directories (None, v) = (Done (), (None, w))" using drop_calm by blast
    obtain w1 where w1: "drop_restore_directories (None, u1) = (Done (), (None, w1))" using drop_calm by blast
    from assms r b u q b1 v w w1 Done show ?thesis
      by (cases q) (auto simp: restore_backup_transaction_def bindE_def query_def handle_def ret_def raise_def restore_failed_def)
  qed
qed

text \<open>
  C23: A restore is all or nothing. Whatever the backup holds and whatever the host answers, and wherever a
  fault strikes: when the restore returns, the backup had been validated, each of the five components is
  the one of the backup (an empty one where it has none), everything else is as before, the interface's
  runtime file is the restored generated one, and the state before is among the backups. When it raises,
  the components and the runtime file are those before, except when a step of the disk failed during the
  rollback itself, and then the error is that step's.
\<close>

theorem restore_backup_transaction_outcome:
  "case restore_backup_transaction rd backup (b, s) of
     (Done active, (b', s')) \<Rightarrow>
        vt_root s' = (\<lambda>n. if n \<in> set restore_components then staged backup n else vt_root s n)
        \<and> valid_stage (staged backup) \<and> vt_root s \<in> set (vt_backups s')
        \<and> (\<exists>text. fst (generated_files (vt_root s')) = Inr text \<and> vt_runtime s' = Some text)
   | (Raised e, (b', s')) \<Rightarrow>
        (case b of None \<Rightarrow> vt_root s' = vt_root s \<and> vt_runtime s' = vt_runtime s
         | Some fault \<Rightarrow> e = OSError \<or> vt_root s' = vt_root s \<and> vt_runtime s' = vt_runtime s)
   | (Killed, c') \<Rightarrow> True"
proof -
  obtain r b' s' where e: "restore_backup_transaction rd backup (b, s) = (r, (b', s'))" by (metis surj_pair)
  note o = endsD [OF ends_transaction [of "vt_root s" "vt_runtime s" rd backup] _ e]
  show ?thesis
  proof (cases r)
    case (Done active)
    with o have "restored (vt_root s) backup s'" by simp
    then show ?thesis unfolding e Done run.case prod.case restored_def .
  next
    case (Raised x)
    with o e transaction_calm_error [of rd backup s b' s'] show ?thesis by (auto split: option.split)
  qed (simp add: e)
qed

text \<open>The pre-restore backup loads the current configuration, so a damaged one stops the restore.\<close>

lemma restore_needs_current_config:
  assumes "config_file (vt_root s) = Inl JSONDecodeError"
  shows "\<exists>s'. restore_backup_transaction rd backup (None, s)
     = (Raised (AwgctlError ''cannot read managed server configuration''), (None, s'))"
  using assms by (simp add: restore_backup_transaction_def safety_backup_def bindE_def run_simps load_root_config_def read_server_config_def)

end
