(* ===== verification/Spec2Isabelle.thy ===== *)
theory Spec2Isabelle
  imports Semver Contracts PyNet Base64 Validation Obfuscation Settings ServerConfig FreshConfig AwgConfig Render
    ImportProfile Clients Firewall Capability Documents Effects Progress Store Cleanup Commands Lifecycle
    ServiceOp ServiceLife Outcomes ClientStore ClientCommands ClientSafety
    ClientSteps ClientOutcomes ClientResults Deploy Releases Update Identity HostSetup
    Endings Backups Staging Restore
begin

text \<open>
  A verification development of amneziawg-manager, a manager of one AmneziaWG server: a command
  line program (\<^verbatim>\<open>src/awgctl\<close>) that keeps the server configuration, the client records and
  the packet filter of a host, and an installer (\<^verbatim>\<open>src/awginstall\<close>).

  \<^bold>\<open>The parts and how they interact.\<close> Every command of \<^verbatim>\<open>core.py\<close> takes a mutation
  lock; taking it first recovers what an earlier process left behind: a service operation recorded
  in an intent file, and a transition from the classic obfuscation to AWG 3.1 recorded in a
  transition document with its outcome and its activation journal. The command then loads the server
  configuration and the client records, checks them, renders the configuration files and the rule
  set, and asks systemd to restart the service, whose hooks come back as separate processes that
  apply the rules under the same lock.

  \<^bold>\<open>Theories and sources\<close> (paths under \<^verbatim>\<open>src/\<close>; a definition has the name of the function it
  translates, without a leading underscore).
  \<^item> \<open>Prelude\<close>, \<open>Json\<close>, \<open>PyTime\<close>, \<open>PyNet\<close>, \<open>Base64\<close>: exceptions as values of \<open>error + 'a\<close>, Python's
    string methods, JSON values and their equality, \<open>datetime\<close>, \<open>ipaddress\<close> and \<open>base64\<close> as far as
    the sources use them. Python integers are \<open>int\<close>, texts and bytes are character lists,
    dictionaries with an order are association lists.
  \<^item> \<open>Semver\<close> (\<^verbatim>\<open>awgctl/semver.py\<close>), \<open>Contracts\<close> (\<^verbatim>\<open>awgctl/contracts.py\<close>), \<open>Settings\<close>
    (\<^verbatim>\<open>awginstall/settings.py\<close>): complete modules.
  \<^item> \<open>Validation\<close>, \<open>Obfuscation\<close>, \<open>ServerConfig\<close>, \<open>FreshConfig\<close>, \<open>AwgConfig\<close>, \<open>Render\<close>,
    \<open>ImportProfile\<close>, \<open>Clients\<close>, \<open>Firewall\<close>, \<open>Capability\<close>: the pure parts of \<^verbatim>\<open>awgctl/core.py\<close>, from
    the validators of single values to the configuration files, the client records and the rule set.
  \<^item> \<open>Documents\<close>: the strict contracts of the transition, outcome, journal and intent documents.
  \<^item> \<open>Effects\<close>, \<open>Progress\<close>: computations over a host state that may raise and may be interrupted at any
    durable write, with the rules of a total-correctness triple and of judgements about everything
    a computation may do, however it ends, and about what it leaves alone.
  \<^item> \<open>Store\<close>, \<open>Cleanup\<close>, \<open>Commands\<close>: the transition files and the operations on them, the terminal
    cleanup and the recovery of \<^verbatim>\<open>reconcile_transition_recovery_locked\<close>, the commands
    \<^verbatim>\<open>cmd_obfuscation_activate\<close>, \<^verbatim>\<open>_confirm\<close>, \<^verbatim>\<open>_rollback\<close> and \<^verbatim>\<open>_timeout\<close>.
    A command enters by \<open>mutation_lock\<close>, which may fail (its lock, or the recovery of a service operation,
    is a service) and first recovers an interrupted transition. The restore of the transition's backup is
    a service that may replace all client metadata and change the host.
    \<open>Lifecycle\<close>: their refinement of an abstract machine.
  \<^item> \<open>ServiceOp\<close>: the service operation of \<^verbatim>\<open>service_action\<close>, its hooks, compensation and recovery.
    \<open>ServiceLife\<close>: their refinement of an abstract machine.
  \<^item> \<open>ClientStore\<close>, \<open>ClientCommands\<close>: the managed files (configuration, keys, client directories,
    archives, backups, the server file and the one the service reads), the drift check, the commit of
    a server file, and \<^verbatim>\<open>cmd_client_add\<close>, \<^verbatim>\<open>_import\<close>, \<^verbatim>\<open>_edit\<close>, \<^verbatim>\<open>_revoke\<close>, \<^verbatim>\<open>_rotate\<close> and
    \<^verbatim>\<open>cmd_expire_clients\<close>. \<open>ClientSafety\<close>: what holds of them under any fault. \<open>Outcomes\<close>, \<open>ClientSteps\<close>,
    \<open>ClientOutcomes\<close>, \<open>ClientResults\<close>: what they leave behind when they return and when they raise.
  \<^item> \<open>Releases\<close> (\<^verbatim>\<open>awgctl/releases.py\<close>), \<open>Deploy\<close> (\<^verbatim>\<open>awginstall/deploy.py\<close>, \<^verbatim>\<open>installer.py\<close>), \<open>Update\<close>
    (\<^verbatim>\<open>awginstall/platform.py\<close> and \<^verbatim>\<open>cmd_update\<close>): the program replacing itself, over the installed
    releases, the staging area and the selector \<^verbatim>\<open>bin/awgctl\<close>.
  \<^item> \<open>Identity\<close> (\<^verbatim>\<open>awginstall/identity.py\<close>, \<^verbatim>\<open>sandbox.py\<close>), \<open>HostSetup\<close> (\<^verbatim>\<open>awginstall/host.py\<close>): the privilege
    boundary of an installation, a plan for the accounts and the transaction that carries it out and
    writes the sudo policy and the unit files.
  \<^item> \<open>Backups\<close> (\<^verbatim>\<open>awgctl/backups.py\<close>): the manifest of a backup and its verification, over a tree of
    entries with their modes and owners. \<open>Staging\<close> (\<^verbatim>\<open>validate_restore_stage\<close>): what a copied backup must
    satisfy. \<open>Restore\<close> (\<^verbatim>\<open>restore_backup_transaction\<close>): the exchange of the five components and its
    rollback. \<open>Endings\<close>: the judgement about what a computation may end in under any fault, which
    \<open>HostSetup\<close> and \<open>Restore\<close> share.

  \<^bold>\<open>What the lemmas show.\<close> The validators accept exactly the values of the documented form, and what
  they return is a fixpoint of themselves (strictness); rendered files parse back to what they were
  rendered from (round trips); rejected values are rejected with the error of the source. For the
  packet filter, the text that is applied and the entities that are verified are renderings of one
  rule list, and that list drops lateral and private traffic of the tunnel. For the transition and
  the service operation, every run of every command, whatever the host answers and wherever it is
  interrupted, follows an abstract machine in which a decision is final and is taken only with the
  evidence the code demands; recovery completes what was left behind. For the client commands, a
  backup of the complete state precedes the first change of a client file, whatever interrupts the
  command; a command that returns leaves the server file, the records and the file of the service in
  agreement, and one that raises leaves the clients it found and server files that agree, unless the
  clock goes back while it runs. A configuration of the host that returns leaves the account database
  as declared. Notions that a property is stated with (who is served, who belongs to a group, what a
  client's files must agree on) are defined on records, files and accounts, not by the code's own
  functions.

  \<^bold>\<open>Faults and bounds.\<close> A computation of \<open>Effects\<close> meets at most one fault, at any of its durable
  writes: the process is killed before the write, the write is refused, or the write takes place but
  its directory cannot be synced. Theorems about sequences of attempts let every attempt meet a fault
  of its own. A durable replacement of a file (temporary file, sync, rename, directory sync) is one
  write. The redrawing loop of the obfuscation generator consumes a stream of random draws given as a
  list; running out of it is a value of the model, and a theorem says when it returns. No other loop
  needs fuel.

  \<^bold>\<open>Parameters.\<close> What is not code of the repository is an argument: the answers of the kernel, of
  systemd, nft, awg and the clock (fields of a record of services, which may fail and may change the
  host), random draws, hashes and signatures.

  \<^bold>\<open>Not modelled.\<close> Argument parsing, prompts, the texts printed and the audit log; ownership, mode and
  link checks of protected files and directories; opening and locking the lock file; writing and
  reading single files below the level of an atomic replacement; the preparation of a transition and the
  backup archive it takes; the health, status and diagnostic reports; the qualification tool under
  \<^verbatim>\<open>tools/\<close>, which drives a remote host. These parts are input and output around calls of the
  modelled functions.
\<close>

end
